(* ===== verification/Prelude.thy ===== *)
theory Prelude
  imports Main "HOL-Library.Word" "HOL-Library.List_Lexorder" "HOL-Library.Char_ord"
    "HOL-Library.Option_ord" "HOL-Library.Product_Lexorder"
begin

text \<open>
  Shared ground of the development: the result type that stands for Rust's
  \<^verbatim>\<open>Result\<close>, machine integers with checked arithmetic, decimal printing, ASCII character
  classes, and the generic interfaces (invariants of step functions, codecs, bounded
  queues) that the component theories interpret on their own operations.

  Strings come in two shapes. A \<open>string\<close> is the UTF-8 byte sequence of a Rust string: its
  \<open>length\<close> is \<^verbatim>\<open>str::len\<close>. A \<open>utext\<close> is the sequence of its Unicode scalar values, used
  where the source iterates over \<^verbatim>\<open>chars()\<close>.
\<close>

section \<open>Collections of facts\<close>

named_theorems record_simps \<open>validators and accessors of the wire records\<close>
named_theorems step_simps \<open>equations of transition functions\<close>

section \<open>Results\<close>

type_synonym ('e, 'a) result = "'e + 'a"

abbreviation Ok :: "'a \<Rightarrow> ('e, 'a) result" where
  "Ok \<equiv> Inr"

abbreviation Err :: "'e \<Rightarrow> ('e, 'a) result" where
  "Err \<equiv> Inl"

text \<open>Rust's \<^verbatim>\<open>?\<close>: the error leaves the function, a value goes on.\<close>

fun and_then :: "('e, 'a) result \<Rightarrow> ('a \<Rightarrow> ('e, 'b) result) \<Rightarrow> ('e, 'b) result" where
  "and_then (Inl e) f = Inl e"
| "and_then (Inr a) f = f a"

definition ok_or :: "'a option \<Rightarrow> 'e \<Rightarrow> ('e, 'a) result" where
  "ok_or x e = (case x of None \<Rightarrow> Inl e | Some a \<Rightarrow> Inr a)"

definition is_some_and :: "'a option \<Rightarrow> ('a \<Rightarrow> bool) \<Rightarrow> bool" where
  "is_some_and x p = (case x of None \<Rightarrow> False | Some a \<Rightarrow> p a)"

definition is_none_or :: "'a option \<Rightarrow> ('a \<Rightarrow> bool) \<Rightarrow> bool" where
  "is_none_or x p = (case x of None \<Rightarrow> True | Some a \<Rightarrow> p a)"

abbreviation is_some :: "'a option \<Rightarrow> bool" where
  "is_some x \<equiv> x \<noteq> None"

lemma and_then_Ok_iff [simp]:
  "and_then r f = Inr b \<longleftrightarrow> (\<exists>a. r = Inr a \<and> f a = Inr b)"
  by (cases r) auto

lemma and_then_Err_iff:
  "and_then r f = Inl e \<longleftrightarrow> r = Inl e \<or> (\<exists>a. r = Inr a \<and> f a = Inl e)"
  by (cases r) auto

lemma ok_or_simps [simp]:
  "ok_or None e = Inl e" "ok_or (Some a) e = Inr a"
  by (simp_all add: ok_or_def)

lemma ok_or_Ok_iff [simp]: "ok_or x e = Inr a \<longleftrightarrow> x = Some a"
  by (cases x) auto

lemma is_some_and_simps [simp]:
  "is_some_and None p = False" "is_some_and (Some a) p = p a"
  by (simp_all add: is_some_and_def)

lemma is_none_or_simps [simp]:
  "is_none_or None p = True" "is_none_or (Some a) p = p a"
  by (simp_all add: is_none_or_def)

lemma is_some_and_iff: "is_some_and x p \<longleftrightarrow> (\<exists>a. x = Some a \<and> p a)"
  by (cases x) auto

lemma is_none_or_iff: "is_none_or x p \<longleftrightarrow> (\<forall>a. x = Some a \<longrightarrow> p a)"
  by (cases x) auto

lemma unit_result_cases: "r = Inr () \<or> (\<exists>e. r = Inl e)" for r :: "('e, unit) result"
  by (cases r) auto

text \<open>
  An early \<^verbatim>\<open>return Err(..)\<close> under a condition, and loops whose body may return early: the first
  error leaves the loop.
\<close>

definition reject_if :: "bool \<Rightarrow> 'e \<Rightarrow> ('e, unit) result" where
  "reject_if b e = (if b then Err e else Ok ())"

fun try_each :: "('a \<Rightarrow> ('e, unit) result) \<Rightarrow> 'a list \<Rightarrow> ('e, unit) result" where
  "try_each f [] = Ok ()"
| "try_each f (x # xs) = and_then (f x) (\<lambda>_. try_each f xs)"

text \<open>Consecutive fallible statements: the first error is the result.\<close>

fun checks :: "('e, unit) result list \<Rightarrow> ('e, unit) result" where
  "checks [] = Ok ()"
| "checks (r # rs) = (case r of Inl e \<Rightarrow> Err e | Inr _ \<Rightarrow> checks rs)"

fun try_fold :: "('s \<Rightarrow> 'a \<Rightarrow> ('e, 's) result) \<Rightarrow> 's \<Rightarrow> 'a list \<Rightarrow> ('e, 's) result" where
  "try_fold f s [] = Ok s"
| "try_fold f s (x # xs) = and_then (f s x) (\<lambda>s'. try_fold f s' xs)"

lemma reject_if_Ok [simp]: "reject_if b e = Inr u \<longleftrightarrow> \<not> b"
  by (simp add: reject_if_def)

lemma checks_Ok [simp]: "checks (r # rs) = Inr u \<longleftrightarrow> r = Inr () \<and> checks rs = Inr ()"
  by (cases r) auto

declare checks.simps(2) [simp del]

lemma try_each_Ok [simp]: "try_each f xs = Inr u \<longleftrightarrow> (\<forall>x \<in> set xs. f x = Inr ())"
  by (induction xs) auto

lemma try_fold_append: "try_fold f s (xs @ ys) = and_then (try_fold f s xs) (\<lambda>s'. try_fold f s' ys)"
proof (induction xs arbitrary: s)
  case (Cons x xs)
  then show ?case by (cases "f s x") auto
qed simp

lemma try_fold_inv:
  assumes "try_fold f s xs = Inr s'" "I s"
    and "\<And>s x s'. x \<in> set xs \<Longrightarrow> I s \<Longrightarrow> f s x = Inr s' \<Longrightarrow> I s'"
  shows "I s'"
  using assms
proof (induction xs arbitrary: s)
  case (Cons x xs)
  then obtain t where "f s x = Inr t" "try_fold f t xs = Inr s'" by auto
  with Cons.IH [of t] Cons.prems(2,3) show ?case by (metis list.set_intros)
qed simp

text \<open>A loop that rejects an element whose key it has met before.\<close>

lemma try_fold_fresh:
  assumes "\<And>s x s'. f s x = Inr s' \<longleftrightarrow> P x \<and> key x \<notin> s \<and> s' = insert (key x) s"
  shows "try_fold f s xs = Inr s' \<longleftrightarrow>
     (\<forall>x \<in> set xs. P x) \<and> distinct (map key xs) \<and> s \<inter> key ` set xs = {} \<and> s' = s \<union> key ` set xs"
proof (induction xs arbitrary: s)
  case (Cons x xs)
  show ?case unfolding try_fold.simps and_then_Ok_iff assms Cons by auto
qed auto

section \<open>Lists\<close>

text \<open>\<^verbatim>\<open>windows(2).any(|pair| p(pair[0], pair[1]))\<close>.\<close>

fun any_window2 :: "('a \<Rightarrow> 'a \<Rightarrow> bool) \<Rightarrow> 'a list \<Rightarrow> bool" where
  "any_window2 p (x # y # zs) \<longleftrightarrow> p x y \<or> any_window2 p (y # zs)"
| "any_window2 p _ \<longleftrightarrow> False"

lemma any_window2_ge:
  "\<not> any_window2 (\<ge>) xs \<longleftrightarrow> sorted_wrt (<) xs" for xs :: "'a::linorder list"
  by (induction "(\<ge>) :: 'a \<Rightarrow> 'a \<Rightarrow> bool" xs rule: any_window2.induct)
    (auto simp: not_le intro: less_trans)

lemma any_window2_ge': "any_window2 (\<ge>) xs \<longleftrightarrow> \<not> sorted_wrt (<) xs" for xs :: "'a::linorder list"
  using any_window2_ge [of xs] by blast

text \<open>The positional operations of \<^verbatim>\<open>Vec\<close> that the components use.\<close>

fun position :: "('a \<Rightarrow> bool) \<Rightarrow> 'a list \<Rightarrow> nat option" where
  "position p [] = None"
| "position p (x # xs) = (if p x then Some 0 else map_option Suc (position p xs))"

definition vec_remove :: "nat \<Rightarrow> 'a list \<Rightarrow> 'a list" where
  "vec_remove i xs = take i xs @ drop (Suc i) xs"

definition vec_insert :: "nat \<Rightarrow> 'a \<Rightarrow> 'a list \<Rightarrow> 'a list" where
  "vec_insert i x xs = take i xs @ x # drop i xs"

text \<open>\<^verbatim>\<open>iter_mut().find(p)\<close> followed by an assignment.\<close>

fun update_first :: "('a \<Rightarrow> bool) \<Rightarrow> 'a \<Rightarrow> 'a list \<Rightarrow> 'a list" where
  "update_first p new [] = []"
| "update_first p new (x # xs) = (if p x then new # xs else x # update_first p new xs)"

lemma position_None: "position p xs = None \<longleftrightarrow> (\<forall>x \<in> set xs. \<not> p x)"
  by (induction xs) auto

lemma position_Some:
  "position p xs = Some i \<Longrightarrow> i < length xs \<and> p (xs ! i) \<and> (\<forall>j < i. \<not> p (xs ! j))"
proof (induction xs arbitrary: i)
  case Nil
  then show ?case by simp
next
  case (Cons x xs)
  show ?case
  proof (cases "p x")
    case True
    with Cons.prems show ?thesis by simp
  next
    case False
    with Cons.prems obtain j where "position p xs = Some j" "i = Suc j" by auto
    with Cons.IH [of j] False show ?thesis by (auto simp: less_Suc_eq_0_disj)
  qed
qed

lemma find_None_position: "List.find p xs = None \<longleftrightarrow> position p xs = None"
  by (induction xs) auto

section \<open>Machine integers\<close>

type_synonym u8 = "8 word"
type_synonym u16 = "16 word"
type_synonym u32 = "32 word"
type_synonym u64 = "64 word"

lemma unat_u64_less: "unat (w :: u64) < 2 ^ 64"
  using unsigned_less [of w, where ?'a = nat] by simp

lemma unat_u32_less: "unat (w :: u32) < 2 ^ 32"
  using unsigned_less [of w, where ?'a = nat] by simp

lemma unat_u16_less: "unat (w :: u16) < 2 ^ 16"
  using unsigned_less [of w, where ?'a = nat] by simp

lemma unat_u8_less: "unat (w :: u8) < 256"
  using unsigned_less [of w, where ?'a = nat] by simp

lemma unat_ucast_32_64 [simp]: "unat (ucast (w :: u32) :: u64) = unat w"
proof -
  have "unat w < 2 ^ 64" using unat_u32_less [of w] by simp
  then show ?thesis by (simp add: unsigned_ucast_eq take_bit_nat_eq_self)
qed

lemma unat_ucast_16_64 [simp]: "unat (ucast (w :: u16) :: u64) = unat w"
proof -
  have "unat w < 2 ^ 64" using unat_u16_less [of w] by simp
  then show ?thesis by (simp add: unsigned_ucast_eq take_bit_nat_eq_self)
qed

definition checked_add64 :: "u64 \<Rightarrow> u64 \<Rightarrow> u64 option" where
  "checked_add64 a b = (if unat a + unat b < 2 ^ 64 then Some (a + b) else None)"

definition checked_sub64 :: "u64 \<Rightarrow> u64 \<Rightarrow> u64 option" where
  "checked_sub64 a b = (if unat b \<le> unat a then Some (a - b) else None)"

lemma checked_sub64_Some:
  "checked_sub64 a b = Some c \<longleftrightarrow> unat a = unat b + unat c"
proof
  show "checked_sub64 a b = Some c \<Longrightarrow> unat a = unat b + unat c"
    by (auto simp: checked_sub64_def unat_sub_if_size split: if_splits)
next
  assume c: "unat a = unat b + unat c"
  then have "unat (a - b) = unat c" by (simp add: unat_sub_if_size)
  then have "a - b = c" by (rule unsigned_word_eqI)
  with c show "checked_sub64 a b = Some c" by (simp add: checked_sub64_def)
qed

definition checked_next :: "u64 \<Rightarrow> u64 option" where
  "checked_next a = checked_add64 a 1"

lemma checked_add64_Some:
  "checked_add64 a b = Some c \<longleftrightarrow> unat c = unat a + unat b"
proof
  show "checked_add64 a b = Some c \<Longrightarrow> unat c = unat a + unat b"
    by (auto simp: checked_add64_def unat_word_ariths split: if_splits)
next
  assume c: "unat c = unat a + unat b"
  then have lt: "unat a + unat b < 2 ^ 64"
    using unat_u64_less [of c] by simp
  then have "unat (a + b) = unat c"
    using c by (simp add: unat_word_ariths)
  then have "a + b = c" by (rule unsigned_word_eqI)
  with lt show "checked_add64 a b = Some c" by (simp add: checked_add64_def)
qed

lemma checked_next_Some: "checked_next a = Some b \<longleftrightarrow> unat b = Suc (unat a)"
  by (simp add: checked_next_def checked_add64_Some)

lemma checked_next_None: "checked_next a = None \<longleftrightarrow> unat a = 2 ^ 64 - 1"
  using unat_u64_less [of a] by (auto simp: checked_next_def checked_add64_def)

lemma checked_next_less: "checked_next a = Some b \<Longrightarrow> a < b"
  by (simp add: checked_next_Some word_less_nat_alt)

section \<open>Characters and decimal printing\<close>

type_synonym utext = "nat list"

definition code_points :: "string \<Rightarrow> utext" where
  "code_points s = map of_char s"

definition is_ascii_lowercase :: "char \<Rightarrow> bool" where
  "is_ascii_lowercase c \<longleftrightarrow> (97::nat) \<le> of_char c \<and> of_char c \<le> (122::nat)"

definition is_ascii_digit :: "char \<Rightarrow> bool" where
  "is_ascii_digit c \<longleftrightarrow> (48::nat) \<le> of_char c \<and> of_char c \<le> (57::nat)"

definition is_ascii_hexdigit :: "char \<Rightarrow> bool" where
  "is_ascii_hexdigit c \<longleftrightarrow> is_ascii_digit c
     \<or> (97::nat) \<le> of_char c \<and> of_char c \<le> (102::nat)
     \<or> (65::nat) \<le> of_char c \<and> of_char c \<le> (70::nat)"

definition digit_char :: "nat \<Rightarrow> char" where
  "digit_char d = char_of (48 + d)"

text \<open>The decimal text that \<^verbatim>\<open>{}\<close> prints for an unsigned integer.\<close>

fun show_nat :: "nat \<Rightarrow> string" where
  "show_nat n = (if n < 10 then [digit_char n]
                 else show_nat (n div 10) @ [digit_char (n mod 10)])"

declare show_nat.simps [simp del]

fun read_nat :: "string \<Rightarrow> nat" where
  "read_nat [] = 0"
| "read_nat (c # cs) = (of_char c - 48) * 10 ^ length cs + read_nat cs"

lemma of_char_digit [simp]: "d < 10 \<Longrightarrow> of_char (digit_char d) = (48 + d :: nat)"
  by (simp add: digit_char_def of_char_of)

lemma is_ascii_digit_digit_char [simp]: "d < 10 \<Longrightarrow> is_ascii_digit (digit_char d)"
  by (simp add: is_ascii_digit_def)

lemma show_nat_nonempty [simp]: "show_nat n \<noteq> []"
  by (subst show_nat.simps) simp

lemma show_nat_digits: "c \<in> set (show_nat n) \<Longrightarrow> is_ascii_digit c"
proof (induction n rule: show_nat.induct)
  case (1 n)
  then show ?case by (cases "n < 10") (auto simp: show_nat.simps [of n])
qed

lemma read_nat_append: "read_nat (xs @ ys) = read_nat xs * 10 ^ length ys + read_nat ys"
  by (induction xs) (auto simp: power_add algebra_simps)

lemma read_show_nat: "read_nat (show_nat n) = n"
proof (induction n rule: show_nat.induct)
  case (1 n)
  then show ?case
    by (cases "n < 10") (auto simp: show_nat.simps [of n] read_nat_append)
qed

lemma show_nat_inj [simp]: "show_nat m = show_nat n \<longleftrightarrow> m = n"
  by (metis read_show_nat)

lemma length_show_nat: "n < 10 ^ k \<Longrightarrow> 0 < k \<Longrightarrow> length (show_nat n) \<le> k"
proof (induction n arbitrary: k rule: show_nat.induct)
  case (1 n)
  show ?case
  proof (cases "n < 10")
    case True
    with "1.prems" show ?thesis by (simp add: show_nat.simps [of n])
  next
    case False
    then obtain j where k: "k = Suc j" and j: "0 < j"
      using "1.prems" by (cases k; cases "k - 1") auto
    have "n div 10 < 10 ^ j"
      using "1.prems"(1) k by (simp add: less_mult_imp_div_less mult.commute)
    with False "1.IH" j have "length (show_nat (n div 10)) \<le> j" by blast
    with False k show ?thesis by (simp add: show_nat.simps [of n])
  qed
qed

lemma length_show_u64: "length (show_nat (unat (w :: u64))) \<le> 20"
proof -
  have "unat w < 2 ^ 64" by (rule unat_u64_less)
  also have "(2::nat) ^ 64 < 10 ^ 20" by simp
  finally show ?thesis by (intro length_show_nat) auto
qed

section \<open>Interfaces\<close>

text \<open>
  A step function with an invariant. Every component that is driven by a sequence of
  operations interprets this locale and gets the invariant along whole runs.
\<close>

locale preserved =
  fixes step :: "'s \<Rightarrow> 'a \<Rightarrow> 's"
    and inv :: "'s \<Rightarrow> bool"
  assumes step_inv: "inv s \<Longrightarrow> inv (step s a)"
begin

lemma run_inv: "inv s \<Longrightarrow> inv (foldl step s ops)"
  by (induction ops arbitrary: s) (auto simp: step_inv)

lemma prefix_inv: "inv s \<Longrightarrow> inv (foldl step s (take n ops))"
  by (rule run_inv)

end

text \<open>
  The same with a measure that no step decreases: ranks of life cycles, counters and
  watermarks.
\<close>

locale monotone_run =
  fixes step :: "'s \<Rightarrow> 'a \<Rightarrow> 's"
    and rank :: "'s \<Rightarrow> nat"
  assumes step_mono: "rank s \<le> rank (step s a)"
begin

lemma run_mono: "rank s \<le> rank (foldl step s ops)"
proof (induction ops arbitrary: s)
  case Nil
  show ?case by simp
next
  case (Cons a ops)
  have "rank s \<le> rank (step s a)" by (rule step_mono)
  also have "\<dots> \<le> rank (foldl step (step s a) ops)" by (rule Cons.IH)
  finally show ?case by simp
qed

end

text \<open>
  A codec: what a decoder recovers from an encoder's output. Encoders with this law are
  injective on the values they accept.
\<close>

locale codec =
  fixes encode :: "'a \<Rightarrow> ('e, 'w) result"
    and decode :: "'w \<Rightarrow> ('d, 'a) result"
  assumes decode_encode: "encode a = Inr w \<Longrightarrow> decode w = Inr a"
begin

lemma encode_inj: "encode a = Inr w \<Longrightarrow> encode b = Inr w \<Longrightarrow> a = b"
  by (metis decode_encode sum.inject(2))

end

text \<open>
  A retention policy: pushing onto a bounded history keeps a suffix of what was pushed.
  \<open>contents\<close> is what is retained, \<open>limit\<close> how much may be.
\<close>

locale bounded_history =
  fixes push :: "'q \<Rightarrow> 'a \<Rightarrow> 'q"
    and contents :: "'q \<Rightarrow> 'a list"
    and limit :: nat
  assumes push_contents:
    "length (contents q) \<le> limit \<Longrightarrow>
     contents (push q a) = drop (Suc (length (contents q)) - limit) (contents q @ [a])"
begin

lemma push_bound: "length (contents q) \<le> limit \<Longrightarrow> length (contents (push q a)) \<le> limit"
  by (auto simp: push_contents)

lemma run_contents:
  "length (contents q) \<le> limit \<Longrightarrow>
   contents (foldl push q xs)
   = drop (length (contents q) + length xs - limit) (contents q @ xs)"
proof (induction xs arbitrary: q)
  case Nil
  then show ?case by simp
next
  case (Cons x xs)
  let ?c = "contents q"
  have b: "length (contents (push q x)) \<le> limit"
    using Cons.prems by (rule push_bound)
  have "contents (foldl push q (x # xs))
      = drop (length (contents (push q x)) + length xs - limit) (contents (push q x) @ xs)"
    using Cons.IH [OF b] by simp
  also have "\<dots> = drop (length ?c + length (x # xs) - limit) (?c @ x # xs)"
  proof (cases "length ?c < limit")
    case True
    then show ?thesis using Cons.prems by (simp add: push_contents)
  next
    case False
    with Cons.prems have l: "length ?c = limit" by simp
    show ?thesis
    proof (cases limit)
      case 0
      with l show ?thesis using Cons.prems by (simp add: push_contents)
    next
      case (Suc m)
      then obtain y ys where c: "?c = y # ys" using l by (cases ?c) auto
      with l Suc have "length ys = m" by simp
      with Suc c show ?thesis using Cons.prems by (simp add: push_contents)
    qed
  qed
  finally show ?case .
qed

lemma run_bound: "length (contents q) \<le> limit \<Longrightarrow> length (contents (foldl push q xs)) \<le> limit"
  by (simp add: run_contents)

end

end
