(* ===== verification/Btree_Map.thy ===== *)
theory Btree_Map
  imports Prelude
begin

text \<open>
  The \<^verbatim>\<open>BTreeMap\<close> of the Rust standard library, as the components use it: a list of
  entries in strictly increasing key order, so that iteration order is the source's. The
  locale \<open>key_store\<close> states what the clients rely on (what a lookup returns after an insert
  or a remove, and that the representation invariant is kept); it is interpreted on the
  list operations.
\<close>

section \<open>Operations\<close>

type_synonym ('k, 'v) btree = "('k \<times> 'v) list"

definition bt_wf :: "('k::linorder, 'v) btree \<Rightarrow> bool" where
  "bt_wf m \<longleftrightarrow> sorted_wrt (<) (map fst m)"

fun bt_get :: "('k::linorder, 'v) btree \<Rightarrow> 'k \<Rightarrow> 'v option" where
  "bt_get [] k = None"
| "bt_get ((k', v) # m) k = (if k = k' then Some v else bt_get m k)"

fun bt_insert :: "'k::linorder \<Rightarrow> 'v \<Rightarrow> ('k, 'v) btree \<Rightarrow> ('k, 'v) btree" where
  "bt_insert k v [] = [(k, v)]"
| "bt_insert k v ((k', v') # m) =
     (if k < k' then (k, v) # (k', v') # m
      else if k = k' then (k, v) # m
      else (k', v') # bt_insert k v m)"

fun bt_remove :: "'k::linorder \<Rightarrow> ('k, 'v) btree \<Rightarrow> ('k, 'v) btree" where
  "bt_remove k [] = []"
| "bt_remove k ((k', v') # m) = (if k = k' then m else (k', v') # bt_remove k m)"

definition bt_retain :: "('v \<Rightarrow> bool) \<Rightarrow> ('k::linorder, 'v) btree \<Rightarrow> ('k, 'v) btree" where
  "bt_retain p m = filter (\<lambda>(k, v). p v) m"

definition bt_values :: "('k::linorder, 'v) btree \<Rightarrow> 'v list" where
  "bt_values m = map snd m"

text \<open>\<^verbatim>\<open>entry(k).or_default()\<close>: the value at a key, the default when there is none.\<close>

definition bt_entry :: "'v \<Rightarrow> ('k::linorder, 'v) btree \<Rightarrow> 'k \<Rightarrow> 'v" where
  "bt_entry d m k = (case bt_get m k of None \<Rightarrow> d | Some v \<Rightarrow> v)"

text \<open>\<^verbatim>\<open>values_mut()\<close> and \<^verbatim>\<open>iter_mut()\<close> with a body that changes the values in place.\<close>

definition bt_map :: "('k \<Rightarrow> 'v \<Rightarrow> 'w) \<Rightarrow> ('k::linorder, 'v) btree \<Rightarrow> ('k, 'w) btree" where
  "bt_map f m = map (\<lambda>(k, v). (k, f k v)) m"

definition bt_contains :: "('k::linorder, 'v) btree \<Rightarrow> 'k \<Rightarrow> bool" where
  "bt_contains m k \<longleftrightarrow> bt_get m k \<noteq> None"

section \<open>The interface\<close>

locale key_store =
  fixes empty :: "'m"
    and get :: "'m \<Rightarrow> 'k \<Rightarrow> 'v option"
    and put :: "'k \<Rightarrow> 'v \<Rightarrow> 'm \<Rightarrow> 'm"
    and del :: "'k \<Rightarrow> 'm \<Rightarrow> 'm"
    and wf :: "'m \<Rightarrow> bool"
  assumes get_empty: "get empty k = None"
    and get_put: "wf m \<Longrightarrow> get (put k v m) j = (if j = k then Some v else get m j)"
    and get_del: "wf m \<Longrightarrow> get (del k m) j = (if j = k then None else get m j)"
    and wf_empty: "wf empty"
    and wf_put: "wf m \<Longrightarrow> wf (put k v m)"
    and wf_del: "wf m \<Longrightarrow> wf (del k m)"
begin

lemma get_put_del: "wf m \<Longrightarrow> get (put k v (del k m)) j = get (put k v m) j"
  by (simp add: get_put get_del wf_del)

lemma get_del_put: "wf m \<Longrightarrow> get (del k (put k v m)) j = get (del k m) j"
  by (simp add: get_put get_del wf_put)

lemma put_commute:
  "wf m \<Longrightarrow> k \<noteq> j \<Longrightarrow> get (put k v (put j w m)) i = get (put j w (put k v m)) i"
  by (simp add: get_put wf_put)

end

section \<open>The list operations implement it\<close>

fun bt_keys :: "('k::linorder, 'v) btree \<Rightarrow> 'k set" where
  "bt_keys [] = {}"
| "bt_keys ((k, v) # m) = insert k (bt_keys m)"

lemma bt_wf_Nil [simp]: "bt_wf []"
  by (simp add: bt_wf_def)

lemma bt_keys_set: "bt_keys m = set (map fst m)"
  by (induction m rule: bt_keys.induct) simp_all

lemma bt_wf_Cons: "bt_wf ((k, v) # m) \<longleftrightarrow> (\<forall>k' \<in> bt_keys m. k < k') \<and> bt_wf m"
  by (simp add: bt_wf_def bt_keys_set)

lemma bt_in_keys: "(k, v) \<in> set m \<Longrightarrow> k \<in> bt_keys m"
  by (force simp: bt_keys_set)

lemma bt_get_None: "bt_get m k = None \<longleftrightarrow> k \<notin> bt_keys m"
  by (induction m) (auto split: if_splits)

lemma bt_get_in: "bt_get m k = Some v \<Longrightarrow> (k, v) \<in> set m"
  by (induction m) (auto split: if_splits)

lemma bt_in_get: "bt_wf m \<Longrightarrow> (k, v) \<in> set m \<Longrightarrow> bt_get m k = Some v"
  by (induction m) (fastforce simp: bt_wf_Cons dest: bt_in_keys)+

lemma keys_bt_insert [simp]: "bt_keys (bt_insert k v m) = insert k (bt_keys m)"
  by (induction m) (auto split: if_splits)

lemma keys_bt_remove_subset: "bt_keys (bt_remove k m) \<subseteq> bt_keys m"
  by (induction m) (auto split: if_splits)

lemma set_bt_remove_subset: "set (bt_remove k m) \<subseteq> set m"
  by (induction m) (auto split: if_splits)

lemma bt_wf_insert: "bt_wf m \<Longrightarrow> bt_wf (bt_insert k v m)"
  by (induction m) (fastforce simp: bt_wf_Cons)+

lemma bt_wf_remove: "bt_wf m \<Longrightarrow> bt_wf (bt_remove k m)"
proof (induction m)
  case Nil
  show ?case by simp
next
  case (Cons e m)
  obtain k' v' where e: "e = (k', v')" by (cases e)
  show ?case
    using Cons keys_bt_remove_subset [of k m] unfolding e by (auto simp: bt_wf_Cons)
qed

lemma bt_get_insert: "bt_wf m \<Longrightarrow> bt_get (bt_insert k v m) j = (if j = k then Some v else bt_get m j)"
  by (induction m) (auto simp: bt_wf_Cons)

lemma bt_get_remove: "bt_wf m \<Longrightarrow> bt_get (bt_remove k m) j = (if j = k then None else bt_get m j)"
  by (induction m) (auto simp: bt_wf_Cons bt_get_None split: if_splits)

interpretation bt: key_store "[] :: ('k::linorder, 'v) btree" bt_get bt_insert bt_remove bt_wf
  by unfold_locales
    (auto simp: bt_get_insert bt_get_remove bt_wf_insert bt_wf_remove)

lemmas bt_simps = bt.get_empty bt.get_put bt.get_del

section \<open>Iteration\<close>

lemma bt_keys_retain_subset: "bt_keys (bt_retain p m) \<subseteq> bt_keys m"
  by (induction m) (auto simp: bt_retain_def)

lemma bt_wf_retain: "bt_wf m \<Longrightarrow> bt_wf (bt_retain p m)"
proof (induction m)
  case Nil
  show ?case by (simp add: bt_retain_def)
next
  case (Cons e m)
  obtain k' v' where e: "e = (k', v')" by (cases e)
  from Cons show ?case using bt_keys_retain_subset [of p m] unfolding e
    by (auto simp: bt_wf_Cons bt_retain_def)
qed

lemma bt_get_retain:
  "bt_wf m \<Longrightarrow> bt_get (bt_retain p m) k = (case bt_get m k of None \<Rightarrow> None
     | Some v \<Rightarrow> if p v then Some v else None)"
proof (induction m)
  case Nil
  show ?case by (simp add: bt_retain_def)
next
  case (Cons e m)
  obtain k' v' where e: "e = (k', v')" by (cases e)
  have "bt_get m k' = None" using Cons.prems unfolding e by (auto simp: bt_wf_Cons bt_get_None)
  with Cons show ?case unfolding e by (auto simp: bt_wf_Cons bt_retain_def)
qed

lemma set_bt_insert_subset: "set (bt_insert k v m) \<subseteq> insert (k, v) (set m)"
  by (induction m) (auto split: if_splits)

lemma bt_insert_in: "(k, v) \<in> set (bt_insert k v m)"
  by (induction m) auto

lemma bt_insert_keeps:
  "e \<in> set m \<Longrightarrow> fst e \<noteq> k \<Longrightarrow> e \<in> set (bt_insert k v m)"
  by (induction m) (auto split: if_splits)

lemma bt_insert_replaces:
  "bt_wf m \<Longrightarrow> (k, w) \<in> set (bt_insert k v m) \<Longrightarrow> w = v"
  using bt_in_get [OF bt_wf_insert, of m k w k v] by (simp add: bt_get_insert)

lemma length_bt_insert_le: "length (bt_insert k v m) \<le> Suc (length m)"
  by (induction m) auto

lemma length_bt_insert_fresh: "bt_get m k = None \<Longrightarrow> length (bt_insert k v m) = Suc (length m)"
  by (induction m) (auto split: if_splits)

lemma sum_list_bt_insert:
  "bt_wf m \<Longrightarrow> sum_list (map (f \<circ> snd) (bt_insert k v m)) + (case bt_get m k of None \<Rightarrow> 0 | Some w \<Rightarrow> f w)
   = sum_list (map (f \<circ> snd) m) + (f v :: nat)"
proof (induction m)
  case Nil
  show ?case by simp
next
  case (Cons e m)
  obtain k' v' where e: "e = (k', v')" by (cases e)
  have "k < k' \<Longrightarrow> bt_get m k = None"
    using Cons.prems unfolding e by (auto simp: bt_wf_Cons bt_get_None)
  with Cons show ?case unfolding e by (auto simp: bt_wf_Cons)
qed

lemma sum_list_bt_remove:
  "bt_wf m \<Longrightarrow> sum_list (map (f \<circ> snd) (bt_remove k m)) + (case bt_get m k of None \<Rightarrow> 0 | Some w \<Rightarrow> f w)
   = (sum_list (map (f \<circ> snd) m) :: nat)"
proof (induction m)
  case Nil
  show ?case by simp
next
  case (Cons e m)
  obtain k' v' where e: "e = (k', v')" by (cases e)
  show ?case using Cons unfolding e by (auto simp: bt_wf_Cons)
qed

lemma bt_entry_simps [simp]:
  "bt_get m k = None \<Longrightarrow> bt_entry d m k = d"
  "bt_get m k = Some v \<Longrightarrow> bt_entry d m k = v"
  by (simp_all add: bt_entry_def)

lemma bt_insert_twice: "bt_wf m \<Longrightarrow> bt_insert k v (bt_insert k w m) = bt_insert k v m"
  by (induction m) (auto simp: bt_wf_Cons)

lemma bt_insert_same: "bt_wf m \<Longrightarrow> bt_get m k = Some v \<Longrightarrow> bt_insert k v m = m"
proof (induction m)
  case (Cons e m)
  obtain k' v' where e: "e = (k', v')" by (cases e)
  have "\<not> k < k'" if "bt_get m k = Some v"
    using bt_in_keys [OF bt_get_in [OF that]] Cons.prems(1) by (auto simp: e bt_wf_Cons)
  with Cons show ?case by (auto simp: e bt_wf_Cons split: if_splits)
qed simp

lemma bt_remove_absent: "bt_get m k = None \<Longrightarrow> bt_remove k m = m"
  by (induction m) (auto split: if_splits)

lemma length_bt_insert:
  "bt_wf m \<Longrightarrow> length (bt_insert k v m) = length m + (if bt_get m k = None then 1 else 0)"
  by (induction m) (fastforce simp: bt_wf_Cons bt_get_None)+

lemma length_bt_remove_le: "length (bt_remove k m) \<le> length m"
  by (induction m) auto

lemma bt_get_map: "bt_get (bt_map f m) k = map_option (f k) (bt_get m k)"
  by (induction m) (auto simp: bt_map_def)

lemma keys_bt_map [simp]: "map fst (bt_map f m) = map fst m"
  by (simp add: bt_map_def split_def comp_def)

lemma length_bt_map [simp]: "length (bt_map f m) = length m"
  by (simp add: bt_map_def)

lemma bt_wf_map [simp]: "bt_wf (bt_map f m) \<longleftrightarrow> bt_wf m"
  by (simp add: bt_wf_def)

lemma set_bt_map: "set (bt_map f m) = (\<lambda>(k, v). (k, f k v)) ` set m"
  by (simp add: bt_map_def)

lemma bt_contains_map [simp]: "bt_contains (bt_map f m) k \<longleftrightarrow> bt_contains m k"
  by (simp add: bt_contains_def bt_get_map)

lemma bt_contains_keys: "bt_contains m k \<longleftrightarrow> k \<in> bt_keys m"
  by (simp add: bt_contains_def bt_get_None)

lemma bt_contains_insert [simp]: "bt_contains (bt_insert k v m) j \<longleftrightarrow> j = k \<or> bt_contains m j"
  by (auto simp: bt_contains_keys)

lemma bt_contains_remove:
  "bt_wf m \<Longrightarrow> bt_contains (bt_remove k m) j \<longleftrightarrow> j \<noteq> k \<and> bt_contains m j"
  by (simp add: bt_contains_def bt_get_remove)

lemma bt_map_cong: "(\<And>k v. (k, v) \<in> set m \<Longrightarrow> f k v = g k v) \<Longrightarrow> bt_map f m = bt_map g m"
  by (auto simp: bt_map_def)

lemma bt_map_id [simp]: "bt_map (\<lambda>k v. v) m = m"
  by (simp add: bt_map_def)

lemma bt_map_map: "bt_map f (bt_map g m) = bt_map (\<lambda>k v. f k (g k v)) m"
  by (simp add: bt_map_def split_def)

lemma bt_insert_as_map:
  assumes "bt_wf m" "bt_get m k = Some v"
  shows "bt_insert k (f v) m = bt_map (\<lambda>j x. if j = k then f x else x) m"
  using assms
proof (induction m)
  case (Cons e m)
  obtain j x where e: "e = (j, x)" by force
  show ?case
  proof (cases "j = k")
    case True
    with Cons.prems have "\<forall>k' \<in> bt_keys m. k' \<noteq> k" "x = v" by (auto simp: e bt_wf_Cons)
    then have "map (\<lambda>(i, x). (i, if i = k then f x else x)) m = m"
      by (intro map_idI) (auto dest: bt_in_keys)
    with True \<open>x = v\<close> show ?thesis by (simp add: e bt_map_def)
  next
    case False
    with Cons.prems have m: "bt_wf m" "bt_get m k = Some v" by (auto simp: e bt_wf_Cons)
    then have "k \<in> bt_keys m" by (metis bt_get_None option.distinct(1))
    with Cons.prems False have "j < k" by (auto simp: e bt_wf_Cons)
    with Cons.IH [OF m] False show ?thesis by (simp add: e bt_map_def)
  qed
qed simp

end
