(* ===== verification/Ids.thy ===== *)
theory Ids
  imports Btree_Map
begin

text \<open>
  Logical identities, monotonic counters and content fingerprints
  (\<^verbatim>\<open>crates/agentyc-core/src/ids.rs\<close>). An opaque identity is its wire string; the macro
  \<^verbatim>\<open>opaque_id!\<close> becomes functions over the kind of identity, whose prefix is
  \<open>id_prefix\<close>. Counters are 64-bit words. The fingerprint is FNV-1a-64 on machine words.
\<close>

unbundle bit_operations_syntax

section \<open>Model\<close>

definition MAX_ID_LENGTH :: nat where
  "MAX_ID_LENGTH = 128"

datatype id_error =
    InvalidPrefix string
  | EmptySuffix
  | TooLong nat
  | InvalidCharacter
  | NumericRange
  | InvalidHash

fun id_error_text :: "id_error \<Rightarrow> string" where
  "id_error_text (InvalidPrefix expected) =
     ''id must use prefix '' @ [CHR 0x22] @ expected @ [CHR 0x22]"
| "id_error_text EmptySuffix = ''id suffix must not be empty''"
| "id_error_text (TooLong bound) = ''id exceeds the '' @ show_nat bound @ '' byte limit''"
| "id_error_text InvalidCharacter = ''id contains an invalid character''"
| "id_error_text NumericRange = ''numeric value is out of range''"
| "id_error_text InvalidHash = ''invalid content hash''"

definition starts_with :: "string \<Rightarrow> string \<Rightarrow> bool" where
  "starts_with value prefix \<longleftrightarrow> take (length prefix) value = prefix"

definition id_first_char :: "char \<Rightarrow> bool" where
  "id_first_char c \<longleftrightarrow> is_ascii_lowercase c \<or> is_ascii_digit c"

definition id_rest_char :: "char \<Rightarrow> bool" where
  "id_rest_char c \<longleftrightarrow>
     is_ascii_lowercase c \<or> is_ascii_digit c \<or> c = CHR ''_'' \<or> c = CHR ''-''"

definition validate_identifier :: "string \<Rightarrow> string \<Rightarrow> (id_error, unit) result" where
  "validate_identifier value prefix =
     (if length value > MAX_ID_LENGTH then Err (TooLong MAX_ID_LENGTH)
      else if \<not> starts_with value prefix then Err (InvalidPrefix prefix)
      else case drop (length prefix) value of
        [] \<Rightarrow> Err EmptySuffix
      | first # bytes \<Rightarrow>
          if \<not> id_first_char first \<or> \<not> list_all id_rest_char bytes then Err InvalidCharacter
          else Ok ())"

text \<open>One constructor per \<^verbatim>\<open>opaque_id!\<close> instance, with the prefix it declares.\<close>

datatype id_kind =
    PrincipalId | ClientId | ConnectionNonce | ProfileBindingId | SpaceId | PageId
  | DocumentId | NavigationId | SnapshotId | FrameId | RequestId | ActionId
  | UserIntentTicketId | EventId | RefId | IdempotencyKey | ReconcileToken | ArtifactId
  | ElementKey

fun id_prefix :: "id_kind \<Rightarrow> string" where
  "id_prefix PrincipalId = ''principal_''"
| "id_prefix ClientId = ''client_''"
| "id_prefix ConnectionNonce = ''nonce_''"
| "id_prefix ProfileBindingId = ''profile_''"
| "id_prefix SpaceId = ''space_''"
| "id_prefix PageId = ''page_''"
| "id_prefix DocumentId = ''document_''"
| "id_prefix NavigationId = ''navigation_''"
| "id_prefix SnapshotId = ''snapshot_''"
| "id_prefix FrameId = ''frame_''"
| "id_prefix RequestId = ''req_''"
| "id_prefix ActionId = ''action_''"
| "id_prefix UserIntentTicketId = ''ticket_''"
| "id_prefix EventId = ''evt_''"
| "id_prefix RefId = ''ref_''"
| "id_prefix IdempotencyKey = ''idem_''"
| "id_prefix ReconcileToken = ''reconcile_''"
| "id_prefix ArtifactId = ''artifact_''"
| "id_prefix ElementKey = ''element_''"

type_synonym opaque_id = string

definition id_new :: "id_kind \<Rightarrow> string \<Rightarrow> (id_error, opaque_id) result" where
  "id_new kind value =
     and_then (validate_identifier value (id_prefix kind)) (\<lambda>_. Ok value)"

definition from_suffix :: "id_kind \<Rightarrow> string \<Rightarrow> (id_error, opaque_id) result" where
  "from_suffix kind suffix = id_new kind (id_prefix kind @ suffix)"

text \<open>Counters (\<^verbatim>\<open>counter_id!\<close>): a transparent 64-bit value with a checked successor.\<close>

type_synonym generation = u64
type_synonym lease_epoch = u64
type_synonym snapshot_version = u64
type_synonym event_sequence = u64
type_synonym timestamp = u64
type_synonym broker_epoch = u64
type_synonym connection_epoch = u64
type_synonym browser_session_epoch = u64
type_synonym worker_instance_epoch = u64

definition counter_checked_next :: "u64 \<Rightarrow> u64 option" where
  "counter_checked_next value = checked_next value"

text \<open>Content fingerprints.\<close>

type_synonym content_hash = string

definition hash_prefix :: string where
  "hash_prefix = ''fnv1a64:''"

definition content_hash_new :: "string \<Rightarrow> (id_error, content_hash) result" where
  "content_hash_new value =
     (if length value = length hash_prefix + 16
         \<and> starts_with value hash_prefix
         \<and> list_all is_ascii_hexdigit (drop (length hash_prefix) value)
      then Ok value else Err InvalidHash)"

definition fnv1a64 :: "u8 list \<Rightarrow> u64" where
  "fnv1a64 bytes =
     foldl (\<lambda>hash byte. (hash XOR ucast byte) * 0x100000001b3) 0xcbf29ce484222325 bytes"

definition hex_digit :: "nat \<Rightarrow> char" where
  "hex_digit d = (if d < 10 then char_of (48 + d) else char_of (87 + d))"

text \<open>The text that \<^verbatim>\<open>{:016x}\<close> prints: sixteen lower-case hex digits, most significant first.\<close>

definition hex16 :: "u64 \<Rightarrow> string" where
  "hex16 w = map (\<lambda>i. hex_digit (unat w div 16 ^ (15 - i) mod 16)) [0..<16]"

definition content_hash_from_bytes :: "u8 list \<Rightarrow> content_hash" where
  "content_hash_from_bytes bytes = hash_prefix @ hex16 (fnv1a64 bytes)"

section \<open>Identities\<close>

definition well_formed_suffix :: "string \<Rightarrow> bool" where
  "well_formed_suffix s \<longleftrightarrow> s \<noteq> [] \<and> id_first_char (hd s) \<and> list_all id_rest_char (tl s)"

lemma starts_with_append [simp]: "starts_with (p @ s) p"
  by (simp add: starts_with_def)

lemma starts_with_iff: "starts_with v p \<longleftrightarrow> (\<exists>s. v = p @ s)"
  by (metis append_take_drop_id starts_with_append starts_with_def)

lemma validate_identifier_Ok:
  "validate_identifier v p = Inr () \<longleftrightarrow>
     length v \<le> MAX_ID_LENGTH \<and> (\<exists>s. v = p @ s \<and> well_formed_suffix s)"
  by (auto simp: validate_identifier_def starts_with_iff well_formed_suffix_def
      split: list.splits)

lemma id_new_Ok [record_simps]:
  "id_new k v = Inr w \<longleftrightarrow>
     w = v \<and> length v \<le> MAX_ID_LENGTH \<and> (\<exists>s. v = id_prefix k @ s \<and> well_formed_suffix s)"
  by (auto simp: id_new_def validate_identifier_Ok)

lemma from_suffix_Ok [record_simps]:
  "from_suffix k s = Inr w \<longleftrightarrow>
     w = id_prefix k @ s \<and> length (id_prefix k) + length s \<le> MAX_ID_LENGTH \<and> well_formed_suffix s"
  by (auto simp: from_suffix_def id_new_Ok)

text \<open>The prefixes form a prefix code: no two kinds can accept the same string.\<close>

lemma id_prefix_code: "id_prefix k @ s = id_prefix j @ t \<Longrightarrow> k = j"
  by (cases k; cases j; simp)

lemma well_formed_suffix_number:
  assumes "well_formed_suffix p" and "list_all id_rest_char p"
  shows "well_formed_suffix (p @ show_nat n)"
proof -
  have "list_all id_rest_char (show_nat n)"
    by (auto simp: list_all_iff id_rest_char_def dest: show_nat_digits)
  with assms show ?thesis
    by (cases p) (auto simp: well_formed_suffix_def)
qed

text \<open>
  Host-issued identities of the form \<^verbatim>\<open>label-number\<close> always validate: the label, the dash
  and the at most twenty digits of a 64-bit counter stay inside the wire bound.
\<close>

lemma from_suffix_counter:
  assumes "well_formed_suffix l" and "list_all id_rest_char l"
    and "length (id_prefix k) + length l + 20 \<le> MAX_ID_LENGTH"
  shows "from_suffix k (l @ show_nat (unat (n :: u64))) = Inr (id_prefix k @ l @ show_nat (unat n))"
  using assms length_show_u64 [of n] by (auto simp: from_suffix_Ok intro: well_formed_suffix_number)

section \<open>Fingerprints\<close>

lemma is_ascii_hexdigit_hex_digit: "d < 16 \<Longrightarrow> is_ascii_hexdigit (hex_digit d)"
  by (auto simp: hex_digit_def is_ascii_hexdigit_def is_ascii_digit_def)

lemma length_hex16 [simp]: "length (hex16 w) = 16"
  by (simp add: hex16_def)

lemma hex16_hexdigits: "list_all is_ascii_hexdigit (hex16 w)"
  by (auto simp: hex16_def list_all_iff intro: is_ascii_hexdigit_hex_digit)

lemma of_char_hex_digit:
  "d < 16 \<Longrightarrow> of_char (hex_digit d) = (if d < 10 then 48 + d else 87 + d :: nat)"
  by (simp add: hex_digit_def of_char_of)

lemma hex_digit_inj:
  assumes "d < 16" "e < 16" "hex_digit d = hex_digit e"
  shows "d = e"
proof -
  have "(if d < 10 then 48 + d else 87 + d) = (if e < 10 then 48 + e else 87 + e)"
    using of_char_hex_digit [OF assms(1)] of_char_hex_digit [OF assms(2)] assms(3) by metis
  with assms(1,2) show ?thesis by presburger
qed

lemma digits16_mod:
  "(\<And>i. i < k \<Longrightarrow> a div 16 ^ i mod 16 = b div 16 ^ i mod 16) \<Longrightarrow> a mod 16 ^ k = b mod (16::nat) ^ k"
proof (induction k)
  case 0
  show ?case by simp
next
  case (Suc k)
  have "a mod 16 ^ k = b mod 16 ^ k" by (rule Suc.IH) (simp add: Suc.prems)
  moreover have "a div 16 ^ k mod 16 = b div 16 ^ k mod 16" by (rule Suc.prems) simp
  ultimately show ?case
    using mod_mult2_eq [of a "16 ^ k" 16] mod_mult2_eq [of b "16 ^ k" 16]
    by (simp add: mult.commute)
qed

lemma hex16_inj: "hex16 v = hex16 w \<longleftrightarrow> v = w"
proof
  assume eq: "hex16 v = hex16 w"
  have "unat v div 16 ^ i mod 16 = unat w div 16 ^ i mod 16" if i: "i < 16" for i
  proof -
    have nth: "hex16 u ! (15 - i) = hex_digit (unat u div 16 ^ i mod 16)" for u
    proof -
      have "[0..<16] ! (15 - i) = 15 - i" using nth_upt [of 0 "15 - i" 16] by simp
      then show ?thesis using i by (simp add: hex16_def)
    qed
    have "hex_digit (unat v div 16 ^ i mod 16) = hex_digit (unat w div 16 ^ i mod 16)"
      using nth [of v] nth [of w] eq by simp
    then show ?thesis by (intro hex_digit_inj) auto
  qed
  then have "unat v mod 16 ^ 16 = unat w mod 16 ^ 16" by (rule digits16_mod)
  then have "unat v = unat w" using unat_u64_less [of v] unat_u64_less [of w] by simp
  then show "v = w" by (rule unsigned_word_eqI)
qed simp

lemma content_hash_eq_iff:
  "content_hash_from_bytes a = content_hash_from_bytes b \<longleftrightarrow> fnv1a64 a = fnv1a64 b"
  by (simp add: content_hash_from_bytes_def hex16_inj)

lemma content_hash_new_from_bytes:
  "content_hash_new (content_hash_from_bytes b) = Inr (content_hash_from_bytes b)"
  by (simp add: content_hash_new_def content_hash_from_bytes_def hex16_hexdigits)

section \<open>Properties\<close>

text \<open>
  An identity built from a suffix is accepted, unchanged, by the constructor of its own
  kind and by that of no other kind; it exists exactly when the suffix is non-empty, stays in
  the restricted alphabet and the whole string fits the 128-byte wire bound.
\<close>

theorem identity_roundtrip:
  "(\<exists>w. from_suffix k s = Ok w \<and> id_new j w = Ok w) \<longleftrightarrow>
     j = k \<and> well_formed_suffix s \<and> length (id_prefix k) + length s \<le> MAX_ID_LENGTH"
  by (auto simp: from_suffix_Ok id_new_Ok dest: id_prefix_code)

text \<open>
  The fingerprint of any byte string is a well-formed wire hash, and two byte strings get
  the same wire hash exactly when their 64-bit FNV-1a values agree: the hexadecimal text
  loses nothing.
\<close>

theorem content_hash_faithful:
  "content_hash_new (content_hash_from_bytes b) = Ok (content_hash_from_bytes b) \<and>
   (content_hash_from_bytes a = content_hash_from_bytes b \<longleftrightarrow> fnv1a64 a = fnv1a64 b)"
  by (simp add: content_hash_new_from_bytes content_hash_eq_iff)

end
