(* ===== verification/States.thy ===== *)
theory States
  imports Ids
begin

text \<open>
  The life-cycle and contract enumerations of \<^verbatim>\<open>crates/agentyc-core/src/states.rs\<close>. The
  constructors carry a two-letter tag of their enumeration, since several of the Rust
  enumerations share variant names.
\<close>

datatype space_lifecycle =
    SL_Created | SL_AgentOwned | SL_HandoffRequested | SL_Draining | SL_Paused | SL_UserOwned
  | SL_Orphaned | SL_Recovering | SL_Finished | SL_Released | SL_FencePending
  | SL_FenceDispatched | SL_FenceAcknowledged

fun space_admits_mutations :: "space_lifecycle \<Rightarrow> bool" where
  "space_admits_mutations SL_AgentOwned = True"
| "space_admits_mutations _ = False"

fun admits_recovery_operations :: "space_lifecycle \<Rightarrow> bool" where
  "admits_recovery_operations SL_Recovering = True"
| "admits_recovery_operations _ = False"

fun space_is_terminal :: "space_lifecycle \<Rightarrow> bool" where
  "space_is_terminal SL_Finished = True"
| "space_is_terminal SL_Released = True"
| "space_is_terminal _ = False"

datatype page_lifecycle =
    PL_Planned | PL_Creating | PL_Managed | PL_TargetLost | PL_Rebinding | PL_UserOwned
  | PL_Closing | PL_Closed | PL_Retired | PL_Unknown | PL_Unmanaged | PL_Adoptable

datatype page_ownership = PO_Agent | PO_User | PO_Broker | PO_Unmanaged

datatype page_binding_state =
    PB_Unbound | PB_Bound | PB_Lost | PB_Ambiguous | PB_RebindRequired | PB_UserOwned | PB_Closed

datatype profile_binding_state = PF_Unbound | PF_Bound | PF_RebindRequired | PF_Revoked

datatype lease_state = LS_Active | LS_Renewing | LS_Expired | LS_Fenced | LS_Released

fun lease_admits_mutations :: "lease_state \<Rightarrow> bool" where
  "lease_admits_mutations LS_Active = True"
| "lease_admits_mutations _ = False"

datatype user_intent_ticket_state = TS_Issued | TS_Consumed | TS_Revoked

datatype action_status =
    AS_Queued | AS_Running | AS_Succeeded | AS_Failed | AS_Cancelled | AS_Unknown

datatype dispatch_state =
    DS_NotDispatched | DS_Queued | DS_Dispatched | DS_Acknowledged | DS_Rejected

datatype reconciliation_state =
    RS_NotRequired | RS_Required | RS_InProgress | RS_ReconciledSucceeded | RS_ReconciledFailed
  | RS_RequiresConfirmation

datatype completion_source = CS_None | CS_Extension | CS_Reconciliation | CS_Ledger | CS_Timeout

datatype next_action =
    NA_None | NA_Retry | NA_Reconcile | NA_Confirm | NA_RefreshLease | NA_Resync | NA_Claim

datatype capability =
    CP_Snapshot | CP_Action | CP_Wait | CP_Artifact | CP_Evaluate | CP_Reconcile

datatype snapshot_mode = SM_Full | SM_Compact | SM_Delta | SM_Resync

datatype snapshot_coverage = SC_Complete | SC_Partial

datatype cache_state = CA_Fresh | CA_Cached | CA_Stale | CA_Invalidated

datatype resync_reason =
    RR_BaseMissing | RR_BaseHashMismatch | RR_ChainTooLong | RR_CostExceeded | RR_Incoherent
  | RR_NavigationChanged | RR_Explicit | RR_StaleReference | RR_UnsupportedDelta

datatype dirty_reason =
    DR_DomMutation | DR_Navigation | DR_FrameChanged | DR_Action | DR_TargetReplaced
  | DR_SessionLost | DR_Reconnect | DR_EventGap | DR_GeometryChanged | DR_ScrollChanged
  | DR_RawEvaluation | DR_Takeover | DR_Expired | DR_Unknown

lemma space_admits_mutations_iff [record_simps]: "space_admits_mutations s \<longleftrightarrow> s = SL_AgentOwned"
  by (cases s) simp_all

lemma admits_recovery_operations_iff [record_simps]:
  "admits_recovery_operations s \<longleftrightarrow> s = SL_Recovering"
  by (cases s) simp_all

lemma space_is_terminal_iff [record_simps]:
  "space_is_terminal s \<longleftrightarrow> s = SL_Finished \<or> s = SL_Released"
  by (cases s) simp_all

lemma lease_admits_mutations_iff [record_simps]: "lease_admits_mutations s \<longleftrightarrow> s = LS_Active"
  by (cases s) simp_all

end
