(* ===== verification/Errors.thy ===== *)
theory Errors
  imports States
begin

text \<open>
  Stable errors (\<^verbatim>\<open>crates/agentyc-core/src/errors.rs\<close>): the codes with their retry and
  guidance policy and wire names, the structured core error, and the errors of the frame
  codec.
\<close>

section \<open>Model\<close>

datatype error_code =
    EC_ExtensionNotConnected | EC_ProfileNotFound | EC_SpaceRequired | EC_SpaceNotFound
  | EC_SpaceForbidden | EC_UserControlRequired | EC_LeaseExpired | EC_StaleLease
  | EC_PageNotFound | EC_PageNotOwned | EC_UnmanagedPage | EC_StaleRef | EC_TargetReplaced
  | EC_EventLagged | EC_UnknownOutcome | EC_ReconciliationRequired | EC_CapabilityUnavailable
  | EC_PermissionDenied | EC_NativeHostUnavailable | EC_ProtocolMismatch | EC_MessageTooLarge
  | EC_InvalidArgument | EC_Timeout | EC_Cancelled | EC_HostDraining | EC_LedgerIncompatible
  | EC_TruncatedFrame | EC_InvalidUtf8 | EC_InvalidJson

datatype error_guidance =
    EG_None | EG_Retry | EG_Reconcile | EG_RefreshLease | EG_Resync | EG_Claim
  | EG_AwaitUserControl

definition code_retryable :: "error_code \<Rightarrow> bool" where
  "code_retryable code \<longleftrightarrow> code \<in> {EC_ExtensionNotConnected, EC_NativeHostUnavailable,
     EC_EventLagged, EC_Timeout, EC_HostDraining}"

definition code_guidance :: "error_code \<Rightarrow> error_guidance" where
  "code_guidance code = (case code of
     EC_StaleLease \<Rightarrow> EG_RefreshLease
   | EC_LeaseExpired \<Rightarrow> EG_RefreshLease
   | EC_StaleRef \<Rightarrow> EG_Resync
   | EC_TargetReplaced \<Rightarrow> EG_Resync
   | EC_EventLagged \<Rightarrow> EG_Resync
   | EC_UnknownOutcome \<Rightarrow> EG_Reconcile
   | EC_ReconciliationRequired \<Rightarrow> EG_Reconcile
   | EC_UserControlRequired \<Rightarrow> EG_AwaitUserControl
   | EC_UnmanagedPage \<Rightarrow> EG_Claim
   | EC_PageNotOwned \<Rightarrow> EG_Claim
   | c \<Rightarrow> if code_retryable c then EG_Retry else EG_None)"

fun code_as_str :: "error_code \<Rightarrow> string" where
  "code_as_str EC_ExtensionNotConnected = ''extension_not_connected''"
| "code_as_str EC_ProfileNotFound = ''profile_not_found''"
| "code_as_str EC_SpaceRequired = ''space_required''"
| "code_as_str EC_SpaceNotFound = ''space_not_found''"
| "code_as_str EC_SpaceForbidden = ''space_forbidden''"
| "code_as_str EC_UserControlRequired = ''user_control_required''"
| "code_as_str EC_LeaseExpired = ''lease_expired''"
| "code_as_str EC_StaleLease = ''stale_lease''"
| "code_as_str EC_PageNotFound = ''page_not_found''"
| "code_as_str EC_PageNotOwned = ''page_not_owned''"
| "code_as_str EC_UnmanagedPage = ''unmanaged_page''"
| "code_as_str EC_StaleRef = ''stale_ref''"
| "code_as_str EC_TargetReplaced = ''target_replaced''"
| "code_as_str EC_EventLagged = ''event_lagged''"
| "code_as_str EC_UnknownOutcome = ''unknown_outcome''"
| "code_as_str EC_ReconciliationRequired = ''reconciliation_required''"
| "code_as_str EC_CapabilityUnavailable = ''capability_unavailable''"
| "code_as_str EC_PermissionDenied = ''permission_denied''"
| "code_as_str EC_NativeHostUnavailable = ''native_host_unavailable''"
| "code_as_str EC_ProtocolMismatch = ''protocol_mismatch''"
| "code_as_str EC_MessageTooLarge = ''message_too_large''"
| "code_as_str EC_InvalidArgument = ''invalid_argument''"
| "code_as_str EC_Timeout = ''timeout''"
| "code_as_str EC_Cancelled = ''cancelled''"
| "code_as_str EC_HostDraining = ''host_draining''"
| "code_as_str EC_LedgerIncompatible = ''ledger_incompatible''"
| "code_as_str EC_TruncatedFrame = ''truncated_frame''"
| "code_as_str EC_InvalidUtf8 = ''invalid_utf8''"
| "code_as_str EC_InvalidJson = ''invalid_json''"

record core_error =
  ce_code :: error_code
  ce_retryable :: bool
  ce_guidance :: error_guidance
  ce_message :: string

definition core_error_new :: "error_code \<Rightarrow> string \<Rightarrow> core_error" where
  "core_error_new code message =
     \<lparr>ce_code = code, ce_retryable = code_retryable code, ce_guidance = code_guidance code,
      ce_message = message\<rparr>"

definition invalid_argument :: "string \<Rightarrow> core_error" where
  "invalid_argument message = core_error_new EC_InvalidArgument message"

definition stale_lease :: "u64 \<Rightarrow> u64 \<Rightarrow> core_error" where
  "stale_lease expected actual = core_error_new EC_StaleLease
     (''lease epoch '' @ show_nat (unat actual) @ '' is stale; expected ''
      @ show_nat (unat expected))"

definition stale_ref :: "string \<Rightarrow> core_error" where
  "stale_ref message = core_error_new EC_StaleRef message"

definition code_str :: "core_error \<Rightarrow> string" where
  "code_str e = code_as_str (ce_code e)"

datatype frame_error =
    FE_MessageTooLarge nat nat
  | FE_Truncated nat nat
  | FE_TrailingBytes
  | FE_DecoderPoisoned
  | FE_InvalidLimit

fun frame_error_code :: "frame_error \<Rightarrow> error_code" where
  "frame_error_code (FE_MessageTooLarge n m) = EC_MessageTooLarge"
| "frame_error_code FE_InvalidLimit = EC_MessageTooLarge"
| "frame_error_code (FE_Truncated e a) = EC_TruncatedFrame"
| "frame_error_code FE_TrailingBytes = EC_InvalidArgument"
| "frame_error_code FE_DecoderPoisoned = EC_InvalidArgument"

section \<open>Facts\<close>

lemma core_error_new_sel [simp]:
  "ce_code (core_error_new c m) = c"
  "ce_retryable (core_error_new c m) = code_retryable c"
  "ce_guidance (core_error_new c m) = code_guidance c"
  "ce_message (core_error_new c m) = m"
  by (simp_all add: core_error_new_def)

lemma error_constructors_code [simp]:
  "ce_code (invalid_argument m) = EC_InvalidArgument"
  "ce_code (stale_lease e a) = EC_StaleLease"
  "ce_code (stale_ref m) = EC_StaleRef"
  by (simp_all add: invalid_argument_def stale_lease_def stale_ref_def)

lemma code_as_str_inj: "code_as_str c = code_as_str d \<longleftrightarrow> c = d"
  by (cases c; cases d; simp)

text \<open>
  A code is never both retried and reconciled: every retryable code is told to retry or to
  resynchronise.
\<close>

lemma retryable_guidance:
  "code_retryable c \<Longrightarrow> code_guidance c = EG_Retry \<or> code_guidance c = EG_Resync"
  by (cases c) (auto simp: code_retryable_def code_guidance_def)

end
