(* ===== verification/Framing.thy ===== *)
theory Framing
  imports Errors
begin

text \<open>
  Bounded four-byte big-endian framing (\<^verbatim>\<open>crates/agentyc-core/src/protocol.rs\<close>, lines 1538 to
  1697): the one-shot encoder and decoder and the incremental \<^verbatim>\<open>FrameDecoder\<close>. Byte counts
  (\<^verbatim>\<open>usize\<close>) are natural numbers; lengths on the wire are 32-bit words. The array write of the
  decoder's prefix panics out of range in Rust; the model has that panic as an outcome, and it
  is shown never to happen.
\<close>

section \<open>Model\<close>

definition PROTOCOL_VERSION :: u16 where
  "PROTOCOL_VERSION = 1"

definition validate_protocol_version :: "u16 \<Rightarrow> (core_error, unit) result" where
  "validate_protocol_version protocol =
     (if protocol \<noteq> PROTOCOL_VERSION then
        Err (core_error_new EC_ProtocolMismatch
               (''unsupported protocol version '' @ show_nat (unat protocol)))
      else Ok ())"

definition MAX_CONTROL_FRAME_PAYLOAD_BYTES :: nat where
  "MAX_CONTROL_FRAME_PAYLOAD_BYTES = 1024 * 1024"

definition FRAME_PREFIX_BYTES :: nat where
  "FRAME_PREFIX_BYTES = 4"

definition U32_MAX :: nat where
  "U32_MAX = 4294967295"

definition to_be_bytes :: "u32 \<Rightarrow> u8 list" where
  "to_be_bytes w =
     map word_of_nat [unat w div 16777216, unat w div 65536 mod 256, unat w div 256 mod 256,
                      unat w mod 256]"

definition from_be_bytes :: "u8 \<Rightarrow> u8 \<Rightarrow> u8 \<Rightarrow> u8 \<Rightarrow> u32" where
  "from_be_bytes a b c d =
     word_of_nat (((unat a * 256 + unat b) * 256 + unat c) * 256 + unat d)"

definition encode_frame :: "u8 list \<Rightarrow> nat \<Rightarrow> (frame_error, u8 list) result" where
  "encode_frame payload max_payload_bytes =
     (if max_payload_bytes > U32_MAX then Err FE_InvalidLimit
      else if length payload > max_payload_bytes \<or> length payload > U32_MAX then
        Err (FE_MessageTooLarge (length payload) (min max_payload_bytes U32_MAX))
      else Ok (to_be_bytes (word_of_nat (length payload)) @ payload))"

definition decode_frame :: "u8 list \<Rightarrow> nat \<Rightarrow> (frame_error, u8 list) result" where
  "decode_frame frame max_payload_bytes =
     (if max_payload_bytes > U32_MAX then Err FE_InvalidLimit
      else if length frame < FRAME_PREFIX_BYTES then
        Err (FE_Truncated FRAME_PREFIX_BYTES (length frame))
      else
        (let len = unat (from_be_bytes (frame ! 0) (frame ! 1) (frame ! 2) (frame ! 3));
             expected = FRAME_PREFIX_BYTES + len in
         if len > max_payload_bytes then Err (FE_MessageTooLarge len max_payload_bytes)
         else if length frame < expected then Err (FE_Truncated expected (length frame))
         else if length frame > expected then Err FE_TrailingBytes
         else Ok (drop FRAME_PREFIX_BYTES (take expected frame))))"

record frame_decoder =
  fd_max_payload_bytes :: nat
  fd_prefix :: "u8 list"
  fd_prefix_len :: nat
  fd_expected_payload :: "nat option"
  fd_payload :: "u8 list"
  fd_poisoned :: bool

definition decoder_new :: "nat \<Rightarrow> frame_decoder" where
  "decoder_new max_payload_bytes =
     \<lparr>fd_max_payload_bytes = min max_payload_bytes U32_MAX, fd_prefix = replicate 4 0,
      fd_prefix_len = 0, fd_expected_payload = None, fd_payload = [], fd_poisoned = False\<rparr>"

definition decoder_default_bound :: frame_decoder where
  "decoder_default_bound = decoder_new MAX_CONTROL_FRAME_PAYLOAD_BYTES"

text \<open>What one byte of \<^verbatim>\<open>feed\<close>'s loop does: go on, complete a payload, fail or panic.\<close>

datatype feed_outcome =
    FO_Continue
  | FO_Frame "u8 list"
  | FO_Fail frame_error
  | FO_Panic

definition feed_byte :: "frame_decoder \<Rightarrow> u8 \<Rightarrow> frame_decoder \<times> feed_outcome" where
  "feed_byte d byte =
     (case fd_expected_payload d of
       Some expected \<Rightarrow>
         (let payload = fd_payload d @ [byte] in
          if length payload = expected then
            (d\<lparr>fd_expected_payload := None, fd_payload := []\<rparr>, FO_Frame payload)
          else (d\<lparr>fd_payload := payload\<rparr>, FO_Continue))
     | None \<Rightarrow>
         if fd_prefix_len d \<ge> length (fd_prefix d) then (d, FO_Panic)
         else
           (let prefix = (fd_prefix d)[fd_prefix_len d := byte];
                d = d\<lparr>fd_prefix := prefix, fd_prefix_len := fd_prefix_len d + 1\<rparr> in
            if fd_prefix_len d \<noteq> FRAME_PREFIX_BYTES then (d, FO_Continue)
            else
              (let len = unat (from_be_bytes (prefix ! 0) (prefix ! 1) (prefix ! 2) (prefix ! 3));
                   d = d\<lparr>fd_prefix_len := 0\<rparr> in
               if len > fd_max_payload_bytes d then
                 (d\<lparr>fd_poisoned := True\<rparr>, FO_Fail (FE_MessageTooLarge len (fd_max_payload_bytes d)))
               else if len = 0 then (d, FO_Frame [])
               else (d\<lparr>fd_expected_payload := Some len, fd_payload := []\<rparr>, FO_Continue))))"

datatype feed_error = FR_Error frame_error | FR_Panic

fun feed_loop ::
  "frame_decoder \<Rightarrow> u8 list \<Rightarrow> u8 list list \<Rightarrow> frame_decoder \<times> (feed_error, u8 list list) result" where
  "feed_loop d [] frames = (d, Ok frames)"
| "feed_loop d (byte # bytes) frames =
     (case feed_byte d byte of
       (d', FO_Continue) \<Rightarrow> feed_loop d' bytes frames
     | (d', FO_Frame payload) \<Rightarrow> feed_loop d' bytes (frames @ [payload])
     | (d', FO_Fail e) \<Rightarrow> (d', Err (FR_Error e))
     | (d', FO_Panic) \<Rightarrow> (d', Err FR_Panic))"

definition feed :: "frame_decoder \<Rightarrow> u8 list \<Rightarrow> frame_decoder \<times> (feed_error, u8 list list) result" where
  "feed d bytes =
     (if fd_poisoned d then (d, Err (FR_Error FE_DecoderPoisoned)) else feed_loop d bytes [])"

definition decoder_finish :: "frame_decoder \<Rightarrow> (frame_error, unit) result" where
  "decoder_finish d =
     (if fd_poisoned d then Err FE_DecoderPoisoned
      else if fd_prefix_len d \<noteq> 0 then Err (FE_Truncated FRAME_PREFIX_BYTES (fd_prefix_len d))
      else case fd_expected_payload d of
        Some expected \<Rightarrow> Err (FE_Truncated expected (length (fd_payload d)))
      | None \<Rightarrow> Ok ())"

definition invalid_json_error :: "string \<Rightarrow> core_error" where
  "invalid_json_error message = core_error_new EC_InvalidJson message"

section \<open>The length prefix\<close>

lemma validate_protocol_version_Ok [record_simps]:
  "validate_protocol_version v = Inr () \<longleftrightarrow> v = PROTOCOL_VERSION"
  by (simp add: validate_protocol_version_def)

lemma length_to_be_bytes [simp]: "length (to_be_bytes w) = 4"
  by (simp add: to_be_bytes_def)

lemma be_digits:
  "((n div 16777216 * 256 + n div 65536 mod 256) * 256 + n div 256 mod 256) * 256 + n mod 256 = n"
  for n :: nat
proof -
  have "n div 16777216 * 256 + n div 65536 mod 256 = n div 65536"
    using div_mult_mod_eq [of "n div 65536" 256] by (simp flip: div_mult2_eq)
  moreover have "n div 65536 * 256 + n div 256 mod 256 = n div 256"
    using div_mult_mod_eq [of "n div 256" 256] by (simp flip: div_mult2_eq)
  ultimately show ?thesis using div_mult_mod_eq [of n 256] by simp
qed

lemma unat_byte [simp]: "n < 256 \<Longrightarrow> unat (word_of_nat n :: u8) = n"
  by (simp add: unat_of_nat)

lemma from_to_be_bytes:
  "to_be_bytes w = [a, b, c, d] \<Longrightarrow> from_be_bytes a b c d = w"
proof -
  assume "to_be_bytes w = [a, b, c, d]"
  moreover have "unat w div 16777216 < 256" using unat_u32_less [of w] by simp
  ultimately have "unat a = unat w div 16777216" "unat b = unat w div 65536 mod 256"
    "unat c = unat w div 256 mod 256" "unat d = unat w mod 256"
    by (auto simp: to_be_bytes_def)
  then have "from_be_bytes a b c d = word_of_nat (unat w)"
    by (simp only: from_be_bytes_def be_digits)
  then show ?thesis by simp
qed

lemma to_from_be_bytes: "to_be_bytes (from_be_bytes a b c d) = [a, b, c, d]"
proof -
  have b: "unat a < 256" "unat b < 256" "unat c < 256" "unat d < 256" by (rule unat_u8_less)+
  define n where "n = ((unat a * 256 + unat b) * 256 + unat c) * 256 + unat d"
  have "n < 2 ^ 32" using b by (simp add: n_def)
  moreover have "from_be_bytes a b c d = word_of_nat n" by (simp only: from_be_bytes_def n_def)
  ultimately have n: "unat (from_be_bytes a b c d) = n" by (simp add: unat_of_nat)
  have split: "(q * 256 + r) mod 256 = r \<and> (q * 256 + r) div 256 = q" if "r < 256" for q r :: nat
    using that by simp
  have "n mod 256 = unat d" and q: "n div 256 = (unat a * 256 + unat b) * 256 + unat c"
    using split [OF b(4)] by (simp_all only: n_def)
  moreover have "n div 256 mod 256 = unat c" and q': "n div 65536 = unat a * 256 + unat b"
    using split [OF b(3)] div_mult2_eq [of n 256 256, simplified] by (simp_all only: q)
  moreover have "n div 65536 mod 256 = unat b" "n div 16777216 = unat a"
    using split [OF b(2)] div_mult2_eq [of n 65536 256, simplified] by (simp_all only: q')
  ultimately show ?thesis by (simp add: to_be_bytes_def n)
qed

lemma to_be_bytes_cases: "\<exists>a b c d. to_be_bytes w = [a, b, c, d]"
  by (simp add: to_be_bytes_def)

lemma unat_u32_len: "n \<le> U32_MAX \<Longrightarrow> unat (word_of_nat n :: u32) = n"
  by (simp add: unat_of_nat U32_MAX_def)

section \<open>One frame\<close>

lemma decode_encode:
  assumes "encode_frame p n = Inr f"
  shows "decode_frame f n = Inr p"
proof -
  have f: "n \<le> U32_MAX" "length p \<le> n" "f = to_be_bytes (word_of_nat (length p)) @ p"
    using assms by (auto simp: encode_frame_def split: if_splits)
  obtain a b c d where t: "to_be_bytes (word_of_nat (length p)) = [a, b, c, d]"
    using to_be_bytes_cases by blast
  with f have "unat (from_be_bytes a b c d) = length p"
    by (simp add: from_to_be_bytes [OF t] unat_u32_len)
  with f t show ?thesis by (simp add: decode_frame_def FRAME_PREFIX_BYTES_def Let_def)
qed

lemma encode_decode:
  assumes "decode_frame f n = Inr p"
  shows "encode_frame p n = Inr f"
proof -
  obtain a b c d rest where f: "f = a # b # c # d # rest"
    using assms
    by (cases f; cases "tl f"; cases "tl (tl f)"; cases "tl (tl (tl f))")
      (auto simp: decode_frame_def FRAME_PREFIX_BYTES_def split: if_splits)
  have n: "n \<le> U32_MAX" "p = rest" "unat (from_be_bytes a b c d) = length rest" "length rest \<le> n"
    using assms by (auto simp: f decode_frame_def FRAME_PREFIX_BYTES_def Let_def split: if_splits)
  then have "word_of_nat (length rest) = from_be_bytes a b c d" by (metis of_nat_unat ucast_id)
  with n show ?thesis by (simp add: encode_frame_def f to_from_be_bytes)
qed

interpretation frame_codec: codec "\<lambda>p. encode_frame p n" "\<lambda>f. decode_frame f n" for n
  by unfold_locales (rule decode_encode)

section \<open>The decoder's invariant\<close>

definition decoder_inv :: "frame_decoder \<Rightarrow> bool" where
  "decoder_inv d \<longleftrightarrow>
     length (fd_prefix d) = 4 \<and> fd_prefix_len d < 4 \<and> fd_max_payload_bytes d \<le> U32_MAX \<and>
     (case fd_expected_payload d of
        None \<Rightarrow> fd_payload d = []
      | Some n \<Rightarrow> length (fd_payload d) < n \<and> n \<le> fd_max_payload_bytes d \<and> fd_prefix_len d = 0)"

lemma decoder_new_inv: "decoder_inv (decoder_new n)"
  by (simp add: decoder_inv_def decoder_new_def)

lemma feed_byte_inv:
  assumes "decoder_inv d" and "feed_byte d b = (d', out)"
  shows "decoder_inv d' \<and> fd_max_payload_bytes d' = fd_max_payload_bytes d \<and> out \<noteq> FO_Panic
    \<and> (\<forall>p. out = FO_Frame p \<longrightarrow> length p \<le> fd_max_payload_bytes d)"
proof (cases "fd_expected_payload d")
  case (Some n)
  with assms show ?thesis
    by (auto simp: feed_byte_def decoder_inv_def Let_def split: if_splits)
next
  case None
  with assms show ?thesis
    by (auto simp: feed_byte_def decoder_inv_def Let_def FRAME_PREFIX_BYTES_def split: if_splits)
qed

lemma feed_loop_inv:
  assumes "decoder_inv d" "list_all (\<lambda>p. length p \<le> fd_max_payload_bytes d) fs"
    and "feed_loop d bs fs = (d', r)"
  shows "decoder_inv d' \<and> fd_max_payload_bytes d' = fd_max_payload_bytes d \<and> r \<noteq> Inl FR_Panic
    \<and> (\<forall>gs. r = Inr gs \<longrightarrow> list_all (\<lambda>p. length p \<le> fd_max_payload_bytes d) gs)"
  using assms
proof (induction bs arbitrary: d fs)
  case Nil
  then show ?case by auto
next
  case (Cons b bs)
  obtain d1 out where s: "feed_byte d b = (d1, out)" by (cases "feed_byte d b")
  note inv = feed_byte_inv [OF Cons.prems(1) s]
  show ?case
  proof (cases out)
    case FO_Continue
    then show ?thesis using Cons.IH [of d1 fs] Cons.prems s inv by simp
  next
    case (FO_Frame p)
    then show ?thesis using Cons.IH [of d1 "fs @ [p]"] Cons.prems s inv by simp
  qed (use Cons.prems s inv in auto)
qed

lemma feed_inv:
  assumes "decoder_inv d" "feed d bs = (d', r)"
  shows "decoder_inv d' \<and> fd_max_payload_bytes d' = fd_max_payload_bytes d \<and> r \<noteq> Inl FR_Panic
    \<and> (\<forall>gs. r = Inr gs \<longrightarrow> list_all (\<lambda>p. length p \<le> fd_max_payload_bytes d) gs)"
  using assms feed_loop_inv [OF assms(1), of "[]" bs d' r] by (auto simp: feed_def split: if_splits)

interpretation decoder: preserved "\<lambda>d bs. fst (feed d bs)"
    "\<lambda>d. decoder_inv d \<and> fd_max_payload_bytes d = n" for n
proof
  fix d bs
  assume d: "decoder_inv d \<and> fd_max_payload_bytes d = n"
  obtain d' r where "feed d bs = (d', r)" by (cases "feed d bs")
  with d show "decoder_inv (fst (feed d bs)) \<and> fd_max_payload_bytes (fst (feed d bs)) = n"
    using feed_inv [of d bs d' r] by simp
qed

text \<open>A failed feed poisons the decoder, and nothing undoes that.\<close>

lemma feed_loop_poison:
  "\<not> fd_poisoned d \<Longrightarrow> decoder_inv d \<Longrightarrow> feed_loop d bs fs = (d', r) \<Longrightarrow>
   fd_poisoned d' \<longleftrightarrow> (\<exists>e. r = Inl e)"
proof (induction bs arbitrary: d fs)
  case Nil
  then show ?case by auto
next
  case (Cons b bs)
  obtain d1 out where s: "feed_byte d b = (d1, out)" by (cases "feed_byte d b")
  have "fd_poisoned d1 \<longleftrightarrow> (\<exists>e. out = FO_Fail e)"
    using s Cons.prems(1,2) feed_byte_inv [OF Cons.prems(2) s]
    by (auto simp: feed_byte_def Let_def split: option.splits if_splits)
  then show ?case
    using Cons.IH [of d1] Cons.prems s feed_byte_inv [OF Cons.prems(2) s] by (cases out) auto
qed

section \<open>Fragmentation\<close>

lemma feed_loop_append:
  "feed_loop d (xs @ ys) fs =
     (case feed_loop d xs fs of (d', Inr gs) \<Rightarrow> feed_loop d' ys gs | (d', Inl e) \<Rightarrow> (d', Inl e))"
  by (induction xs arbitrary: d fs) (auto split: prod.splits feed_outcome.splits)

lemma feed_loop_acc:
  "feed_loop d bs fs = (case feed_loop d bs [] of
     (d', Inr gs) \<Rightarrow> (d', Inr (fs @ gs)) | (d', Inl e) \<Rightarrow> (d', Inl e))"
proof (induction bs arbitrary: d fs)
  case Nil
  show ?case by simp
next
  case (Cons b bs)
  obtain d1 out where s: "feed_byte d b = (d1, out)" by (cases "feed_byte d b")
  show ?case
  proof (cases out)
    case FO_Continue
    then show ?thesis using Cons.IH [of d1 fs] s by simp
  next
    case (FO_Frame p)
    then show ?thesis
      using Cons.IH [of d1 "fs @ [p]"] Cons.IH [of d1 "[p]"] s
      by (auto split: prod.splits sum.splits)
  qed (use s in auto)
qed

text \<open>Feeding a list of chunks, stopping at the first error, with all payloads in order.\<close>

fun feed_all ::
  "frame_decoder \<Rightarrow> u8 list list \<Rightarrow> frame_decoder \<times> (feed_error, u8 list list) result" where
  "feed_all d [] = (d, Ok [])"
| "feed_all d (c # cs) =
     (case feed d c of
       (d', Inl e) \<Rightarrow> (d', Err e)
     | (d', Inr fs) \<Rightarrow>
         (case feed_all d' cs of
           (d'', Inl e) \<Rightarrow> (d'', Err e)
         | (d'', Inr gs) \<Rightarrow> (d'', Ok (fs @ gs))))"

lemma feed_all_concat:
  assumes "decoder_inv d" "\<not> fd_poisoned d"
  shows "feed_all d cs = feed d (concat cs)"
  using assms
proof (induction cs arbitrary: d)
  case Nil
  then show ?case by (simp add: feed_def)
next
  case (Cons c cs)
  obtain d' r where c: "feed d c = (d', r)" by (cases "feed d c")
  then have l: "feed_loop d c [] = (d', r)" using Cons.prems by (simp add: feed_def)
  show ?case
  proof (cases r)
    case (Inl e)
    with c l show ?thesis using Cons.prems by (simp add: feed_def feed_loop_append)
  next
    case (Inr fs)
    then have "decoder_inv d'" "\<not> fd_poisoned d'"
      using feed_inv [OF Cons.prems(1) c] feed_loop_poison [OF Cons.prems(2,1) l] by auto
    with Cons.IH [of d'] have ih: "feed_all d' cs = feed_loop d' (concat cs) []"
      by (simp add: feed_def)
    show ?thesis
      using Cons.prems c l Inr ih
      by (simp add: feed_def feed_loop_append feed_loop_acc [of d' "concat cs" fs])
  qed
qed

section \<open>What a byte stream means\<close>

text \<open>
  The specification of the stream format: cut off frame after frame and say how the stream
  ends. It knows nothing of decoder states.
\<close>

datatype stream_end = SE_Clean | SE_Partial | SE_Oversized nat

function parse_stream :: "nat \<Rightarrow> u8 list \<Rightarrow> u8 list list \<times> stream_end" where
  "parse_stream n bs =
     (if bs = [] then ([], SE_Clean)
      else if length bs < 4 then ([], SE_Partial)
      else
        (let len = unat (from_be_bytes (bs ! 0) (bs ! 1) (bs ! 2) (bs ! 3)) in
         if len > n then ([], SE_Oversized len)
         else if length bs < 4 + len then ([], SE_Partial)
         else let (ps, e) = parse_stream n (drop (4 + len) bs) in (take len (drop 4 bs) # ps, e)))"
  by pat_completeness auto
termination
  by (relation "measure (\<lambda>(n, bs). length bs)") auto

declare parse_stream.simps [simp del]

definition decoder_idle :: "frame_decoder \<Rightarrow> bool" where
  "decoder_idle d \<longleftrightarrow> decoder_inv d \<and> \<not> fd_poisoned d \<and> fd_prefix_len d = 0 \<and> fd_expected_payload d = None"

lemma decoder_new_idle: "decoder_idle (decoder_new n)"
  by (simp add: decoder_idle_def decoder_new_inv) (simp add: decoder_new_def)

lemma drop_prefix [simp]: "drop (4 + k) (a # b # c # e # rest) = drop k rest"
  by (simp add: add.commute flip: drop_drop)

text \<open>Four bytes from an idle decoder decide about the frame that they announce.\<close>

lemma feed_prefix:
  fixes a b c e :: u8
  assumes "decoder_idle d"
  defines "len \<equiv> unat (from_be_bytes a b c e)" and "m \<equiv> fd_max_payload_bytes d"
  defines "d' \<equiv> d\<lparr>fd_prefix := [a, b, c, e]\<rparr>"
  shows "feed_loop d (a # b # c # e # bs) fs =
    (if len > m then (d'\<lparr>fd_poisoned := True\<rparr>, Inl (FR_Error (FE_MessageTooLarge len m)))
     else if len = 0 then feed_loop d' bs (fs @ [[]])
     else feed_loop (d'\<lparr>fd_expected_payload := Some len, fd_payload := []\<rparr>) bs fs)"
proof -
  obtain w x y z where p: "fd_prefix d = [w, x, y, z]"
    using assms(1) by (auto simp: decoder_idle_def decoder_inv_def length_Suc_conv numeral_eq_Suc)
  have d: "fd_prefix_len d = 0" "fd_expected_payload d = None" "fd_payload d = []"
    using assms(1) by (auto simp: decoder_idle_def decoder_inv_def)
  with p show ?thesis
    by (cases d) (simp add: feed_byte_def Let_def FRAME_PREFIX_BYTES_def len_def m_def d'_def)
qed

lemma feed_payload:
  assumes "fd_expected_payload d = Some n" "length (fd_payload d) + length bs < n"
  shows "feed_loop d bs fs = (d\<lparr>fd_payload := fd_payload d @ bs\<rparr>, Inr fs)"
  using assms
  by (induction bs arbitrary: d) (simp_all add: feed_byte_def Let_def)

lemma feed_payload_complete:
  assumes "fd_expected_payload d = Some n" "length (fd_payload d) + length bs = n" "bs \<noteq> []"
  shows "feed_loop d (bs @ rest) fs =
    feed_loop (d\<lparr>fd_expected_payload := None, fd_payload := []\<rparr>) rest (fs @ [fd_payload d @ bs])"
proof -
  obtain xs x where bs: "bs = xs @ [x]" using assms(3) by (metis rev_exhaust)
  have "feed_loop d xs fs = (d\<lparr>fd_payload := fd_payload d @ xs\<rparr>, Inr fs)"
    using assms bs by (intro feed_payload) auto
  then show ?thesis using assms by (simp add: bs feed_loop_append feed_byte_def Let_def)
qed

text \<open>Feeding a stream to an idle decoder is parsing it.\<close>

definition agrees ::
  "nat \<Rightarrow> u8 list list \<Rightarrow> u8 list list \<times> stream_end \<Rightarrow> frame_decoder \<times> (feed_error, u8 list list) result \<Rightarrow> bool" where
  "agrees n fs p out \<longleftrightarrow> (case (p, out) of
     ((ps, SE_Oversized len), (d, r)) \<Rightarrow> r = Inl (FR_Error (FE_MessageTooLarge len n)) \<and> fd_poisoned d
   | ((ps, SE_Clean), (d, r)) \<Rightarrow> r = Inr (fs @ ps) \<and> decoder_idle d
   | ((ps, SE_Partial), (d, r)) \<Rightarrow> r = Inr (fs @ ps) \<and> \<not> decoder_idle d \<and> \<not> fd_poisoned d)"

lemma feed_short:
  assumes "decoder_idle d" "bs \<noteq> []" "length bs < 4"
  shows "\<exists>d'. feed_loop d bs fs = (d', Inr fs) \<and> fd_prefix_len d' \<noteq> 0 \<and> \<not> fd_poisoned d'"
proof -
  have d: "fd_prefix_len d = 0" "fd_expected_payload d = None" "length (fd_prefix d) = 4" "\<not> fd_poisoned d"
    using assms(1) by (auto simp: decoder_idle_def decoder_inv_def)
  from assms(2,3) show ?thesis
    by (cases bs; cases "tl bs"; cases "tl (tl bs)")
      (auto simp: d feed_byte_def Let_def FRAME_PREFIX_BYTES_def)
qed

lemma feed_parses:
  "decoder_idle d \<Longrightarrow> fd_max_payload_bytes d = n \<Longrightarrow> agrees n fs (parse_stream n bs) (feed_loop d bs fs)"
proof (induction n bs arbitrary: d fs rule: parse_stream.induct)
  case (1 n bs)
  consider "bs = []" | "bs \<noteq> []" "length bs < 4" | "4 \<le> length bs" by linarith
  then show ?case
  proof cases
    case 1
    then show ?thesis using "1.prems" by (simp add: agrees_def parse_stream.simps)
  next
    case 2
    then show ?thesis
      using feed_short [OF "1.prems"(1) 2, of fs]
      by (auto simp: agrees_def parse_stream.simps [of n bs] decoder_idle_def)
  next
    case 3
    then obtain a b c e rest where bs: "bs = a # b # c # e # rest"
      by (cases bs; cases "tl bs"; cases "tl (tl bs)"; cases "tl (tl (tl bs))") auto
    let ?len = "unat (from_be_bytes a b c e)"
    let ?d = "d\<lparr>fd_prefix := [a, b, c, e]\<rparr>"
    let ?w = "?d\<lparr>fd_expected_payload := Some ?len, fd_payload := []\<rparr>"
    note fp = feed_prefix [OF "1.prems"(1), of a b c e rest fs, folded bs, unfolded "1.prems"(2)]
    have idle: "decoder_idle ?d" "fd_max_payload_bytes ?d = n"
      using "1.prems" by (auto simp: decoder_idle_def decoder_inv_def)
    show ?thesis
    proof (cases "?len > n")
      case True
      then show ?thesis by (simp add: fp agrees_def parse_stream.simps [of n bs]) (simp add: bs)
    next
      case le: False
      show ?thesis
      proof (cases "length rest < ?len")
        case True
        then have "feed_loop ?w rest fs = (?w\<lparr>fd_payload := rest\<rparr>, Inr fs)"
          using feed_payload [of ?w ?len rest fs] by simp
        with True le show ?thesis using "1.prems"
          by (simp add: fp agrees_def parse_stream.simps [of n bs])
            (simp add: bs decoder_idle_def)
      next
        case False
        let ?p = "take ?len rest" and ?r = "drop ?len rest"
        have step: "feed_loop d bs fs = feed_loop ?d ?r (fs @ [?p])"
        proof (cases "?len = 0")
          case True
          with le show ?thesis by (simp add: fp)
        next
          case nz: False
          with False have "?p \<noteq> []" by auto
          then have "feed_loop ?w (?p @ ?r) fs
              = feed_loop (?w\<lparr>fd_expected_payload := None, fd_payload := []\<rparr>) ?r (fs @ [?p])"
            using feed_payload_complete [of ?w ?len ?p ?r fs] False by simp
          moreover have "?w\<lparr>fd_expected_payload := None, fd_payload := []\<rparr> = ?d"
            using "1.prems"(1) by (auto simp: decoder_idle_def decoder_inv_def)
          ultimately show ?thesis using nz le by (simp add: fp)
        qed
        have "agrees n (fs @ [?p]) (parse_stream n ?r) (feed_loop ?d ?r (fs @ [?p]))"
          using "1.IH" [of ?len ?d "fs @ [?p]"] le False idle by (simp add: bs)
        moreover have "parse_stream n bs = (?p # fst (parse_stream n ?r), snd (parse_stream n ?r))"
          using False le unfolding bs
          by (subst parse_stream.simps) (simp add: Let_def split: prod.splits)
        ultimately show ?thesis
          unfolding step by (auto simp: agrees_def split: prod.splits stream_end.splits)
      qed
    qed
  qed
qed

lemma finish_idle: "\<not> fd_poisoned d \<Longrightarrow> decoder_inv d \<Longrightarrow> decoder_finish d = Inr () \<longleftrightarrow> decoder_idle d"
  by (auto simp: decoder_finish_def decoder_idle_def split: option.splits)

lemma parse_encoded:
  "n \<le> U32_MAX \<Longrightarrow> list_all2 (\<lambda>p f. encode_frame p n = Inr f) ps fs \<Longrightarrow>
   parse_stream n (concat fs) = (ps, SE_Clean)"
proof (induction ps arbitrary: fs)
  case Nil
  then show ?case by (simp add: parse_stream.simps)
next
  case (Cons p ps)
  then obtain f gs where fs: "fs = f # gs" "encode_frame p n = Inr f"
    "list_all2 (\<lambda>p f. encode_frame p n = Inr f) ps gs" by (auto simp: list_all2_Cons1)
  obtain a b c e where t: "to_be_bytes (word_of_nat (length p)) = [a, b, c, e]"
    using to_be_bytes_cases by blast
  have f: "f = [a, b, c, e] @ p" "length p \<le> n"
    using fs(2) Cons.prems(1) t by (auto simp: encode_frame_def split: if_splits)
  then have "unat (from_be_bytes a b c e) = length p"
    using Cons.prems(1) by (simp add: from_to_be_bytes [OF t] unat_u32_len)
  with f Cons.IH [OF Cons.prems(1) fs(3)] show ?case
    by (simp add: fs(1) parse_stream.simps [of n "a # _"])
qed

section \<open>Properties\<close>

text \<open>
  Encoding and decoding of one frame are inverse to each other: under any bound, a payload
  encodes to a byte string exactly when that byte string decodes to the payload. So every
  accepted payload round-trips and every accepted frame is the canonical encoding of its
  payload.
\<close>

theorem frame_roundtrip:
  "encode_frame p n = Ok f \<longleftrightarrow> decode_frame f n = Ok p"
  using decode_encode encode_decode by blast

text \<open>
  C23: The incremental decoder implements the stream format, however the stream is cut into
  chunks: the payloads of all chunks together are those of the stream, the decoder finishes
  cleanly exactly when the stream ends on a frame boundary, and an announced length above the
  bound gives an error and poisons the decoder.
\<close>

theorem decoder_refines_stream:
  assumes "feed_all (decoder_new n) chunks = (d, r)"
    and "parse_stream (min n U32_MAX) (concat chunks) = (payloads, ending)"
  shows "(ending = SE_Clean \<longrightarrow> r = Ok payloads \<and> decoder_finish d = Ok ()) \<and>
    (ending = SE_Partial \<longrightarrow> r = Ok payloads \<and> decoder_finish d \<noteq> Ok ()) \<and>
    (\<forall>len. ending = SE_Oversized len \<longrightarrow>
       r = Err (FR_Error (FE_MessageTooLarge len (min n U32_MAX)))
       \<and> snd (feed d more_bytes) = Err (FR_Error FE_DecoderPoisoned))"
proof -
  let ?d = "decoder_new n"
  have np: "\<not> fd_poisoned ?d" by (simp add: decoder_new_def)
  have f: "feed ?d (concat chunks) = (d, r)"
    using assms(1) feed_all_concat [OF decoder_new_inv np] by simp
  have l: "feed_loop ?d (concat chunks) [] = (d, r)" using f np by (simp add: feed_def)
  have "agrees (min n U32_MAX) [] (payloads, ending) (d, r)"
    using feed_parses [OF decoder_new_idle, of n _ "[]" "concat chunks"] assms(2) l
    by (simp add: decoder_new_def)
  moreover have "decoder_inv d" using feed_inv [OF decoder_new_inv f] by blast
  ultimately show ?thesis
    by (auto simp: agrees_def finish_idle feed_def decoder_idle_def split: stream_end.splits)
qed

lemma decoder_refines_stream_witness:
  "feed_all (decoder_new 8) [[0, 0, 0], [1, 7, 0, 0, 0, 0], []] =
     (fst (feed_all (decoder_new 8) [[0, 0, 0], [1, 7, 0, 0, 0, 0], []]), Ok [[7], []]) \<and>
   parse_stream (min 8 U32_MAX) (concat [[0, 0, 0], [1, 7, 0, 0, 0, 0], []]) = ([[7], []], SE_Clean)"
proof -
  let ?cs = "[[0, 0, 0], [1, 7, 0, 0, 0, 0], []] :: u8 list list"
  have p: "parse_stream (min 8 U32_MAX) (concat ?cs) = ([[7], []], SE_Clean)"
    by (simp add: parse_stream.simps U32_MAX_def from_be_bytes_def)
  have f: "feed_all (decoder_new 8) ?cs = (fst (feed_all (decoder_new 8) ?cs), snd (feed_all (decoder_new 8) ?cs))"
    by simp
  from decoder_refines_stream [OF f p] have "snd (feed_all (decoder_new 8) ?cs) = Ok [[7], []]" by simp
  with p show ?thesis by (metis prod.collapse)
qed

text \<open>
  What a peer encodes with the frame encoder arrives: the concatenated frames of any list
  of payloads, cut into chunks at any byte positions, decode to exactly those payloads in
  order and leave nothing behind.
\<close>

theorem frames_survive_fragmentation:
  assumes "list_all2 (\<lambda>p f. encode_frame p n = Ok f) ps frames" and "concat chunks = concat frames"
    and "n \<le> U32_MAX"
  shows "\<exists>d. feed_all (decoder_new n) chunks = (d, Ok ps) \<and> decoder_finish d = Ok ()"
proof -
  let ?d = "decoder_new n"
  have np: "\<not> fd_poisoned ?d" by (simp add: decoder_new_def)
  have l: "feed_all ?d chunks = feed_loop ?d (concat frames) []"
    using feed_all_concat [OF decoder_new_inv np] assms(2) np by (simp add: feed_def)
  obtain d r where dr: "feed_loop ?d (concat frames) [] = (d, r)" by fastforce
  have "agrees n [] (ps, SE_Clean) (d, r)"
    using feed_parses [OF decoder_new_idle, of n n "[]" "concat frames"] dr
      parse_encoded [OF assms(3,1)] assms(3)
    by (simp add: decoder_new_def min_def)
  with l dr show ?thesis
    by (auto simp: agrees_def finish_idle decoder_idle_def)
qed

lemma frames_survive_fragmentation_witness:
  "list_all2 (\<lambda>p f. encode_frame p 8 = Ok f) [[7]] [[0, 0, 0, 1, 7]] \<and>
   concat [[0], [0, 0, 1], [7]] = concat [[0, 0, 0, 1, 7 :: u8]] \<and> 8 \<le> U32_MAX \<and>
   snd (feed_all (decoder_new 8) [[0], [0, 0, 1], [7]]) = Ok [[7]]"
proof -
  have h: "list_all2 (\<lambda>p f. encode_frame p 8 = Ok f) [[7]] [[0, 0, 0, 1, 7]]"
    "concat [[0], [0, 0, 1], [7]] = concat [[0, 0, 0, 1, 7 :: u8]]" "8 \<le> U32_MAX"
    by (simp_all add: encode_frame_def U32_MAX_def to_be_bytes_def)
  from frames_survive_fragmentation [OF h] h show ?thesis by auto
qed

text \<open>
  Whatever bytes a peer sends, in whatever chunks, the decoder never writes outside its
  prefix buffer, never buffers or returns more than the configured bound, and keeps that
  bound.
\<close>

theorem decoder_memory_bounded:
  assumes "d = foldl (\<lambda>d c. fst (feed d c)) (decoder_new n) chunks" and "feed d c = (d', r)"
  shows "length (fd_payload d) \<le> min n U32_MAX \<and> fd_prefix_len d < 4 \<and> length (fd_prefix d) = 4 \<and>
    r \<noteq> Err FR_Panic \<and>
    (\<forall>gs. r = Ok gs \<longrightarrow> list_all (\<lambda>p. length p \<le> min n U32_MAX) gs)"
proof -
  have "decoder_inv (decoder_new n) \<and> fd_max_payload_bytes (decoder_new n) = min n U32_MAX"
    by (rule conjI [OF decoder_new_inv]) (simp add: decoder_new_def)
  from decoder.run_inv [OF this, of chunks]
  have inv: "decoder_inv d" "fd_max_payload_bytes d = min n U32_MAX" by (simp_all add: assms(1))
  then have "length (fd_payload d) \<le> min n U32_MAX"
    by (auto simp: decoder_inv_def split: option.splits)
  with inv feed_inv [OF inv(1) assms(2)] show ?thesis by (auto simp: decoder_inv_def)
qed

lemma decoder_memory_bounded_witness:
  "snd (feed (foldl (\<lambda>d c. fst (feed d c)) (decoder_new 8) [[0, 0, 0, 9], [1]]) [2]) \<noteq> Err FR_Panic"
proof -
  let ?d = "foldl (\<lambda>d c. fst (feed d c)) (decoder_new 8) [[0, 0, 0, 9], [1 :: u8]]"
  from decoder_memory_bounded [OF refl, of 8 "[[0, 0, 0, 9], [1 :: u8]]" "[2]" "fst (feed ?d [2])" "snd (feed ?d [2])"]
  show ?thesis by simp
qed

text \<open>
  Payloads that a chunk has completed are lost when a later length prefix in the same chunk
  is over the bound: the whole call returns the error, although the same bytes fed as two
  chunks deliver the payload first.
\<close>

theorem completed_payload_dropped:
  assumes "encode_frame p n = Ok f" and "n < unat len"
  shows "snd (feed (decoder_new n) (f @ to_be_bytes len))
      = Err (FR_Error (FE_MessageTooLarge (unat len) n)) \<and>
    snd (feed (decoder_new n) f) = Ok [p]"
proof -
  have n: "n \<le> U32_MAX" using assms(1) by (simp add: encode_frame_def split: if_splits)
  let ?d = "decoder_new n"
  have d: "\<not> fd_poisoned ?d" "fd_max_payload_bytes ?d = n" using n by (simp_all add: decoder_new_def min_def)
  obtain d1 r where f: "feed_loop ?d f [] = (d1, r)" by fastforce
  have "agrees n [] ([p], SE_Clean) (d1, r)"
    using feed_parses [OF decoder_new_idle d(2), of "[]" f] parse_encoded [OF n, of "[p]" "[f]"] assms(1) f
    by simp
  then have d1: "r = Inr [p]" "decoder_idle d1" by (simp_all add: agrees_def)
  have m: "fd_max_payload_bytes d1 = n" using feed_loop_inv [OF decoder_new_inv _ f] d(2) by simp
  obtain a b c e where t: "to_be_bytes len = [a, b, c, e]" using to_be_bytes_cases by blast
  have "snd (feed_loop d1 [a, b, c, e] [p]) = Inl (FR_Error (FE_MessageTooLarge (unat len) n))"
    using feed_prefix [OF d1(2), of a b c e "[]" "[p]"] assms(2) m by (simp add: from_to_be_bytes [OF t])
  with f d1 d t show ?thesis by (simp add: feed_def feed_loop_append)
qed

lemma completed_payload_dropped_witness:
  "encode_frame [7] 8 = Ok [0, 0, 0, 1, 7] \<and> 8 < unat (9 :: u32) \<and>
   snd (feed (decoder_new 8) ([0, 0, 0, 1, 7] @ to_be_bytes 9)) = Err (FR_Error (FE_MessageTooLarge 9 8))"
proof -
  have h: "encode_frame [7] 8 = Ok [0, 0, 0, 1, 7]" "8 < unat (9 :: u32)"
    by (simp_all add: encode_frame_def U32_MAX_def to_be_bytes_def)
  from completed_payload_dropped [OF h] h show ?thesis by simp
qed

end
