(* ===== verification/Artifacts.thy ===== *)
theory Artifacts
  imports Framing
begin

text \<open>
  Bounded artifact transfers (\<^verbatim>\<open>crates/agentyc-core/src/protocol.rs\<close>, lines 464 to 835): the
  declaration, chunk and completion envelopes, the receiver's progress and the per-connection
  byte budget. Sizes stay at their wire widths, with the wrap-around of machine arithmetic;
  the lemmas show that no accepted transfer wraps. \<^verbatim>\<open>usize\<close> is 64 bits wide.
\<close>

section \<open>Envelopes\<close>

definition MAX_ARTIFACT_CHUNK_BYTES :: nat where
  "MAX_ARTIFACT_CHUNK_BYTES = 256 * 1024"

definition MAX_ARTIFACT_BYTES :: u64 where
  "MAX_ARTIFACT_BYTES = 32 * 1024 * 1024"

definition MAX_ARTIFACT_CHUNKS :: u16 where
  "MAX_ARTIFACT_CHUNKS = 256"

definition MAX_IN_FLIGHT_ARTIFACT_BYTES :: u64 where
  "MAX_IN_FLIGHT_ARTIFACT_BYTES = 4 * 1024 * 1024"

definition MAX_CUMULATIVE_ARTIFACT_BYTES :: u64 where
  "MAX_CUMULATIVE_ARTIFACT_BYTES = 64 * 1024 * 1024"

datatype artifact_kind = AK_Text | AK_Image | AK_Pdf | AK_Binary

datatype artifact_digest_algorithm = AD_Fnv1a64

record artifact_envelope =
  ae_protocol :: u16
  ae_artifact_id :: opaque_id
  ae_request_id :: "opaque_id option"
  ae_artifact_kind :: artifact_kind
  ae_chunk_sequence :: u32
  ae_final_chunk :: bool
  ae_bytes :: "u8 list"

definition artifact_envelope_validate :: "artifact_envelope \<Rightarrow> (core_error, unit) result" where
  "artifact_envelope_validate a =
     (if ae_protocol a \<noteq> PROTOCOL_VERSION then
        Err (core_error_new EC_ProtocolMismatch
               (''unsupported protocol version '' @ show_nat (unat (ae_protocol a))))
      else if length (ae_bytes a) > MAX_ARTIFACT_CHUNK_BYTES then
        Err (core_error_new EC_MessageTooLarge
               (''artifact chunk exceeds '' @ show_nat MAX_ARTIFACT_CHUNK_BYTES @ '' bytes''))
      else Ok ())"

record artifact_begin =
  ab_protocol :: u16
  ab_artifact_id :: opaque_id
  ab_request_id :: "opaque_id option"
  ab_artifact_kind :: artifact_kind
  ab_total_bytes :: u64
  ab_chunk_size :: u32
  ab_chunk_count :: u16
  ab_digest_algorithm :: artifact_digest_algorithm
  ab_digest :: content_hash
  ab_redacted :: bool

text \<open>\<^verbatim>\<open>u64::div_ceil\<close>.\<close>

definition div_ceil :: "u64 \<Rightarrow> u64 \<Rightarrow> u64" where
  "div_ceil a b = (let d = a div b in if a mod b > 0 then d + 1 else d)"

text \<open>\<^verbatim>\<open>digest.split_once(':').map(|(algorithm, _)| algorithm)\<close>.\<close>

definition digest_algorithm_name :: "content_hash \<Rightarrow> string option" where
  "digest_algorithm_name digest =
     (if CHR '':'' \<in> set digest then Some (takeWhile (\<lambda>c. c \<noteq> CHR '':'') digest) else None)"

definition artifact_begin_validate :: "artifact_begin \<Rightarrow> (core_error, unit) result" where
  "artifact_begin_validate b =
     and_then (validate_protocol_version (ab_protocol b)) (\<lambda>_.
     let chunk_size = ucast (ab_chunk_size b) :: u64 in
     if ab_total_bytes b > MAX_ARTIFACT_BYTES then
       Err (core_error_new EC_MessageTooLarge
         (''artifact size must not exceed '' @ show_nat (unat MAX_ARTIFACT_BYTES) @ '' bytes''))
     else if chunk_size = 0 \<or> chunk_size > word_of_nat MAX_ARTIFACT_CHUNK_BYTES then
       Err (core_error_new EC_MessageTooLarge
         (''artifact chunk size must be between 1 and '' @ show_nat MAX_ARTIFACT_CHUNK_BYTES
          @ '' bytes''))
     else
       (let expected_chunks = div_ceil (ab_total_bytes b) chunk_size in
        if expected_chunks > ucast MAX_ARTIFACT_CHUNKS
           \<or> (ucast (ab_chunk_count b) :: u64) \<noteq> expected_chunks then
          Err (invalid_argument ''artifact chunk_count does not match total_bytes and chunk_size'')
        else if ab_digest_algorithm b \<noteq> AD_Fnv1a64
           \<or> digest_algorithm_name (ab_digest b) \<noteq> Some ''fnv1a64'' then
          Err (invalid_argument ''artifact digest algorithm does not match digest metadata'')
        else Ok ()))"

record artifact_chunk =
  ac_protocol :: u16
  ac_artifact_id :: opaque_id
  ac_connection_epoch :: connection_epoch
  ac_chunk_sequence :: u16
  ac_bytes :: "u8 list"

definition artifact_chunk_validate :: "artifact_chunk \<Rightarrow> (core_error, unit) result" where
  "artifact_chunk_validate c =
     and_then (validate_protocol_version (ac_protocol c)) (\<lambda>_.
     if length (ac_bytes c) > MAX_ARTIFACT_CHUNK_BYTES then
       Err (core_error_new EC_MessageTooLarge
         (''artifact chunk exceeds '' @ show_nat MAX_ARTIFACT_CHUNK_BYTES @ '' bytes''))
     else Ok ())"

text \<open>The length that the declaration fixes for a chunk.\<close>

definition expected_chunk_len :: "artifact_begin \<Rightarrow> u16 \<Rightarrow> nat" where
  "expected_chunk_len begin_env chunk_sequence =
     (if chunk_sequence + 1 = ab_chunk_count begin_env then
        (let prior_bytes = (ucast chunk_sequence :: u64) * ucast (ab_chunk_size begin_env) in
         unat (ab_total_bytes begin_env - prior_bytes))
      else unat (ab_chunk_size begin_env))"

definition artifact_chunk_validate_against ::
  "artifact_chunk \<Rightarrow> artifact_begin \<Rightarrow> (core_error, unit) result" where
  "artifact_chunk_validate_against c begin_env =
     and_then (artifact_chunk_validate c) (\<lambda>_.
     and_then (artifact_begin_validate begin_env) (\<lambda>_.
     if ac_artifact_id c \<noteq> ab_artifact_id begin_env
        \<or> ac_chunk_sequence c \<ge> ab_chunk_count begin_env then
       Err (invalid_argument ''artifact chunk identity or sequence is outside its declaration'')
     else if length (ac_bytes c) \<noteq> expected_chunk_len begin_env (ac_chunk_sequence c)
        \<or> length (ac_bytes c) > MAX_ARTIFACT_CHUNK_BYTES then
       Err (core_error_new EC_MessageTooLarge ''artifact chunk size does not match its declaration'')
     else Ok ()))"

section \<open>Transfers\<close>

record artifact_progress =
  ap_artifact_id :: opaque_id
  ap_begin :: artifact_begin
  ap_connection_epoch :: connection_epoch
  ap_next_chunk_sequence :: u16
  ap_received_bytes :: u64

definition progress_begin ::
  "artifact_begin \<Rightarrow> connection_epoch \<Rightarrow> (core_error, artifact_progress) result" where
  "progress_begin begin_env connection_epoch =
     and_then (artifact_begin_validate begin_env) (\<lambda>_.
       Ok \<lparr>ap_artifact_id = ab_artifact_id begin_env, ap_begin = begin_env,
           ap_connection_epoch = connection_epoch, ap_next_chunk_sequence = 0,
           ap_received_bytes = 0\<rparr>)"

definition accept_chunk ::
  "artifact_progress \<Rightarrow> artifact_chunk \<Rightarrow> artifact_progress \<times> (core_error, nat) result" where
  "accept_chunk p chunk =
     (case artifact_chunk_validate_against chunk (ap_begin p) of
       Inl e \<Rightarrow> (p, Err e)
     | Inr _ \<Rightarrow>
         if ac_artifact_id chunk \<noteq> ap_artifact_id p
            \<or> ac_connection_epoch chunk \<noteq> ap_connection_epoch p
            \<or> ac_chunk_sequence chunk \<noteq> ap_next_chunk_sequence p then
           (p, Err (invalid_argument
             ''artifact chunk is late, duplicated, out of order, or from another connection''))
         else
           (case checked_add64 (ap_received_bytes p) (word_of_nat (length (ac_bytes chunk))) of
             None \<Rightarrow> (p, Err (core_error_new EC_MessageTooLarge ''artifact size overflow''))
           | Some received_bytes \<Rightarrow>
               if received_bytes > ab_total_bytes (ap_begin p) then
                 (p, Err (core_error_new EC_MessageTooLarge
                       ''received artifact bytes exceed declaration''))
               else
                 (p\<lparr>ap_received_bytes := received_bytes,
                    ap_next_chunk_sequence := ap_next_chunk_sequence p + 1\<rparr>,
                  Ok (length (ac_bytes chunk)))))"

definition validate_complete :: "artifact_progress \<Rightarrow> (core_error, unit) result" where
  "validate_complete p =
     (if ap_artifact_id p \<noteq> ab_artifact_id (ap_begin p)
         \<or> ap_next_chunk_sequence p \<noteq> ab_chunk_count (ap_begin p)
         \<or> ap_received_bytes p \<noteq> ab_total_bytes (ap_begin p) then
        Err (invalid_argument ''artifact transfer ended before all declared chunks arrived'')
      else Ok ())"

record artifact_end =
  an_protocol :: u16
  an_artifact_id :: opaque_id
  an_total_bytes :: u64
  an_chunk_count :: u16
  an_digest_algorithm :: artifact_digest_algorithm
  an_digest :: content_hash

definition artifact_end_validate :: "artifact_end \<Rightarrow> (core_error, unit) result" where
  "artifact_end_validate e =
     and_then (validate_protocol_version (an_protocol e)) (\<lambda>_.
     if an_total_bytes e > MAX_ARTIFACT_BYTES \<or> an_chunk_count e > MAX_ARTIFACT_CHUNKS then
       Err (core_error_new EC_MessageTooLarge ''artifact_end exceeds declared transfer bounds'')
     else if an_digest_algorithm e \<noteq> AD_Fnv1a64
        \<or> digest_algorithm_name (an_digest e) \<noteq> Some ''fnv1a64'' then
       Err (invalid_argument ''artifact digest algorithm does not match digest metadata'')
     else Ok ())"

definition artifact_end_validate_against ::
  "artifact_end \<Rightarrow> artifact_begin \<Rightarrow> u8 list \<Rightarrow> (core_error, unit) result" where
  "artifact_end_validate_against e begin_env assembled_bytes =
     and_then (artifact_end_validate e) (\<lambda>_.
     and_then (artifact_begin_validate begin_env) (\<lambda>_.
     if an_artifact_id e \<noteq> ab_artifact_id begin_env
        \<or> an_total_bytes e \<noteq> ab_total_bytes begin_env
        \<or> an_chunk_count e \<noteq> ab_chunk_count begin_env
        \<or> an_digest_algorithm e \<noteq> ab_digest_algorithm begin_env
        \<or> an_digest e \<noteq> ab_digest begin_env then
       Err (invalid_argument ''artifact_end metadata does not match artifact_begin'')
     else if word_of_nat (length assembled_bytes) \<noteq> ab_total_bytes begin_env
        \<or> content_hash_from_bytes assembled_bytes \<noteq> ab_digest begin_env then
       Err (invalid_argument ''assembled artifact size or digest does not match declaration'')
     else Ok ()))"

section \<open>Budget\<close>

record transfer_budget =
  tb_in_flight_bytes :: u64
  tb_cumulative_bytes :: u64

definition budget_default :: transfer_budget where
  "budget_default = \<lparr>tb_in_flight_bytes = 0, tb_cumulative_bytes = 0\<rparr>"

definition budget_receive ::
  "transfer_budget \<Rightarrow> u64 \<Rightarrow> transfer_budget \<times> (core_error, unit) result" where
  "budget_receive b bytes =
     (let in_flight = checked_add64 (tb_in_flight_bytes b) bytes;
          cumulative = checked_add64 (tb_cumulative_bytes b) bytes in
      if is_none_or in_flight (\<lambda>total. total > MAX_IN_FLIGHT_ARTIFACT_BYTES)
         \<or> is_none_or cumulative (\<lambda>total. total > MAX_CUMULATIVE_ARTIFACT_BYTES) then
        (b, Err (core_error_new EC_MessageTooLarge ''connection artifact transfer budget exceeded''))
      else
        (b\<lparr>tb_in_flight_bytes := the in_flight, tb_cumulative_bytes := the cumulative\<rparr>, Ok ()))"

definition budget_release ::
  "transfer_budget \<Rightarrow> u64 \<Rightarrow> transfer_budget \<times> (core_error, unit) result" where
  "budget_release b bytes =
     (case checked_sub64 (tb_in_flight_bytes b) bytes of
       None \<Rightarrow> (b, Err (invalid_argument ''released artifact bytes exceed in-flight bytes''))
     | Some rest \<Rightarrow> (b\<lparr>tb_in_flight_bytes := rest\<rparr>, Ok ()))"

definition budget_reset_cumulative ::
  "transfer_budget \<Rightarrow> transfer_budget \<times> (core_error, unit) result" where
  "budget_reset_cumulative b =
     (if tb_in_flight_bytes b \<noteq> 0 then
        (b, Err (invalid_argument ''cannot reset artifact budget while bytes remain in flight''))
      else (b\<lparr>tb_cumulative_bytes := 0\<rparr>, Ok ()))"

section \<open>Arithmetic of a valid declaration\<close>

lemma div_ceil_chunks:
  fixes t :: u64 and s :: u32
  assumes "unat s \<noteq> 0"
  shows "unat (div_ceil t (ucast s)) * unat s \<ge> unat t \<and>
    (unat t \<noteq> 0 \<longrightarrow> (unat (div_ceil t (ucast s)) - 1) * unat s < unat t)"
proof -
  let ?t = "unat t" and ?s = "unat s"
  have us: "unat (ucast s :: u64) = ?s" by simp
  have d: "unat (t div ucast s) = ?t div ?s" "unat (t mod ucast s) = ?t mod ?s"
    using us by (simp_all add: unat_div unat_mod)
  have lt: "?t div ?s + 1 < 2 ^ 64" if "?t mod ?s > 0"
  proof -
    have "?s \<noteq> 1" using that by auto
    then have "2 \<le> ?s" using assms by linarith
    then have "?t div ?s \<le> ?t div 2" by (rule div_le_mono2 [rotated]) simp
    moreover have "?t div 2 < 2 ^ 63" using unat_u64_less [of t] by simp
    ultimately show ?thesis by simp
  qed
  have c: "unat (div_ceil t (ucast s)) = (if ?t mod ?s > 0 then ?t div ?s + 1 else ?t div ?s)"
  proof (cases "?t mod ?s > 0")
    case True
    then have "t mod ucast s > 0" by (simp add: word_less_nat_alt d)
    moreover have "unat (t div ucast s + 1) = ?t div ?s + 1"
      using lt [OF True] d by (simp add: unat_word_ariths)
    ultimately show ?thesis using True by (simp add: div_ceil_def)
  next
    case False
    then have "\<not> t mod ucast s > 0" by (simp add: word_less_nat_alt d)
    with False show ?thesis by (simp add: div_ceil_def d)
  qed
  have e: "?t div ?s * ?s + ?t mod ?s = ?t" by (rule div_mult_mod_eq)
  have r: "?t mod ?s < ?s" using assms by simp
  show ?thesis
  proof (cases "?t mod ?s > 0")
    case True
    then have "(?t div ?s + 1) * ?s \<ge> ?t" "?t div ?s * ?s < ?t"
      using e r by (simp_all only: add_mult_distrib mult_1)
    with True show ?thesis by (simp add: c)
  next
    case False
    then have "?t div ?s * ?s = ?t" using e by simp
    moreover have "(?t div ?s - 1) * ?s < ?t div ?s * ?s" if "?t \<noteq> 0"
      using that calculation assms by (cases "?t div ?s") auto
    ultimately show ?thesis using False by (simp add: c)
  qed
qed

text \<open>What validation of a declaration guarantees, in unbounded arithmetic.\<close>

definition declared :: "artifact_begin \<Rightarrow> bool" where
  "declared b \<longleftrightarrow>
     0 < unat (ab_chunk_size b) \<and> unat (ab_chunk_size b) \<le> 262144 \<and> unat (ab_chunk_count b) \<le> 256 \<and>
     unat (ab_total_bytes b) \<le> unat (ab_chunk_count b) * unat (ab_chunk_size b) \<and>
     (unat (ab_total_bytes b) \<noteq> 0 \<longrightarrow>
        (unat (ab_chunk_count b) - 1) * unat (ab_chunk_size b) < unat (ab_total_bytes b)) \<and>
     (unat (ab_total_bytes b) = 0 \<longrightarrow> unat (ab_chunk_count b) = 0) \<and>
     unat (ab_total_bytes b) \<le> 33554432"

lemma begin_declared:
  assumes "artifact_begin_validate b = Inr ()"
  shows "declared b"
proof -
  let ?s = "ucast (ab_chunk_size b) :: u64" and ?t = "ab_total_bytes b"
  have v: "?t \<le> MAX_ARTIFACT_BYTES" "?s \<noteq> 0" "?s \<le> word_of_nat MAX_ARTIFACT_CHUNK_BYTES"
    "(ucast (ab_chunk_count b) :: u64) = div_ceil ?t ?s" "div_ceil ?t ?s \<le> ucast MAX_ARTIFACT_CHUNKS"
    using assms by (simp_all add: artifact_begin_validate_def Let_def not_less split: if_split_asm)
  have const: "unat MAX_ARTIFACT_BYTES = 33554432"
    "unat (word_of_nat MAX_ARTIFACT_CHUNK_BYTES :: u64) = 262144"
    "unat MAX_ARTIFACT_CHUNKS = 256"
    by (simp_all add: MAX_ARTIFACT_BYTES_def MAX_ARTIFACT_CHUNK_BYTES_def MAX_ARTIFACT_CHUNKS_def)
  have s: "unat (ab_chunk_size b) \<noteq> 0" using v(2) by (metis unat_ucast_32_64 unat_eq_zero)
  have c: "unat (ab_chunk_count b) = unat (div_ceil ?t ?s)" using v(4) by (metis unat_ucast_16_64)
  have t: "unat ?t \<le> 33554432" using v(1) by (simp add: word_le_nat_alt const)
  have s': "unat (ab_chunk_size b) \<le> 262144"
    using v(3) by (simp add: word_le_nat_alt const)
  have n: "unat (ab_chunk_count b) \<le> 256"
    using v(5) by (simp add: c word_le_nat_alt const)
  have z: "unat (div_ceil ?t ?s) = 0" if "unat ?t = 0"
    using that by (simp add: div_ceil_def unat_eq_zero)
  show ?thesis
    unfolding declared_def using div_ceil_chunks [OF s, of ?t] s s' n t z by (simp add: c)
qed

lemma expected_len_value:
  assumes "declared b" "q < ab_chunk_count b"
  shows "expected_chunk_len b q
    = min (unat (ab_chunk_size b)) (unat (ab_total_bytes b) - unat q * unat (ab_chunk_size b))"
proof -
  let ?n = "unat (ab_chunk_count b)" and ?s = "unat (ab_chunk_size b)" and ?t = "unat (ab_total_bytes b)"
  have q: "unat q < ?n" using assms(2) by (simp add: word_less_nat_alt)
  have n: "?n \<le> 256" "?s \<le> 262144" "?t \<le> ?n * ?s" using assms(1) by (simp_all add: declared_def)
  have t: "(?n - 1) * ?s < ?t" using assms(1) q by (auto simp: declared_def)
  have q1: "unat (q + 1) = unat q + 1" using q n(1) by (simp add: unat_word_ariths)
  have last: "q + 1 = ab_chunk_count b \<longleftrightarrow> unat q + 1 = ?n" by (metis q1 word_unat_eq_iff)
  show ?thesis
  proof (cases "q + 1 = ab_chunk_count b")
    case True
    then have e: "?n = unat q + 1" using last by simp
    have "unat q * ?s \<le> 256 * 262144" using q n by (intro mult_le_mono) auto
    then have p: "unat ((ucast q :: u64) * ucast (ab_chunk_size b)) = unat q * ?s"
      by (simp add: unat_word_ariths)
    moreover have "unat q * ?s \<le> ?t" using t e by simp
    ultimately have "expected_chunk_len b q = ?t - unat q * ?s"
      using True by (simp add: expected_chunk_len_def unat_sub_if_size)
    moreover have "?t - unat q * ?s \<le> ?s" using n(3) e by (simp add: algebra_simps)
    ultimately show ?thesis by simp
  next
    case False
    then have "unat q + 1 \<le> ?n - 1" using last q by linarith
    then have "(unat q + 1) * ?s \<le> (?n - 1) * ?s" by (rule mult_le_mono1)
    with t have "?s \<le> ?t - unat q * ?s" by (simp add: algebra_simps)
    with False show ?thesis by (simp add: expected_chunk_len_def)
  qed
qed

section \<open>The receiver's invariant\<close>

definition progress_inv :: "artifact_progress \<Rightarrow> bool" where
  "progress_inv p \<longleftrightarrow>
     artifact_begin_validate (ap_begin p) = Inr () \<and> ap_artifact_id p = ab_artifact_id (ap_begin p) \<and>
     unat (ap_next_chunk_sequence p) \<le> unat (ab_chunk_count (ap_begin p)) \<and>
     unat (ap_received_bytes p) =
       min (unat (ap_next_chunk_sequence p) * unat (ab_chunk_size (ap_begin p)))
         (unat (ab_total_bytes (ap_begin p)))"

lemma progress_begin_inv: "progress_begin b e = Inr p \<Longrightarrow> progress_inv p"
  by (auto simp: progress_begin_def progress_inv_def)

lemma accept_chunk_Ok:
  assumes "progress_inv p" "accept_chunk p c = (p', Inr k)"
  shows "progress_inv p' \<and> ap_begin p' = ap_begin p \<and> k = length (ac_bytes c)
    \<and> unat (ap_next_chunk_sequence p') = unat (ap_next_chunk_sequence p) + 1
    \<and> unat (ac_chunk_sequence c) = unat (ap_next_chunk_sequence p)
    \<and> unat (ap_received_bytes p') = unat (ap_received_bytes p) + length (ac_bytes c)"
proof -
  let ?b = "ap_begin p" and ?q = "ap_next_chunk_sequence p"
  have v: "artifact_chunk_validate_against c ?b = Inr ()" and s: "ac_chunk_sequence c = ?q"
    using assms(2) by (auto simp: accept_chunk_def split: sum.splits if_splits option.splits)
  have lt: "?q < ab_chunk_count ?b" and len: "length (ac_bytes c) = expected_chunk_len ?b ?q"
    using v s by (auto simp: artifact_chunk_validate_against_def not_le split: if_splits)
  have d: "declared ?b" using assms(1) by (simp add: progress_inv_def begin_declared)
  have u: "unat ?q < unat (ab_chunk_count ?b)" using lt by (simp add: word_less_nat_alt)
  have q1: "unat (?q + 1) = unat ?q + 1" using u d by (simp add: declared_def unat_word_ariths)
  let ?l = "length (ac_bytes c)" and ?s = "unat (ab_chunk_size ?b)" and ?t = "unat (ab_total_bytes ?b)"
  have l: "?l = min ?s (?t - unat ?q * ?s)" using len expected_len_value [OF d lt] by simp
  moreover have "?s \<le> 262144" using d by (simp add: declared_def)
  ultimately have "?l \<le> 262144" by linarith
  then have lw: "unat (word_of_nat ?l :: u64) = ?l" by (simp add: unat_of_nat)
  obtain r where r: "checked_add64 (ap_received_bytes p) (word_of_nat ?l) = Some r" "k = ?l"
    "p' = p\<lparr>ap_received_bytes := r, ap_next_chunk_sequence := ?q + 1\<rparr>"
    using assms(2) by (auto simp: accept_chunk_def split: sum.splits if_splits option.splits)
  then have ru: "unat r = unat (ap_received_bytes p) + ?l" by (simp add: checked_add64_Some lw)
  have "unat (ap_received_bytes p) = min (unat ?q * ?s) ?t" using assms(1) by (simp add: progress_inv_def)
  with ru l have "unat r = min ((unat ?q + 1) * ?s) ?t" by (auto simp: min_def algebra_simps)
  with assms(1) r q1 u s ru show ?thesis by (simp add: progress_inv_def)
qed

lemma accept_chunk_Err: "accept_chunk p c = (p', Inl e) \<Longrightarrow> p' = p"
  by (auto simp: accept_chunk_def split: sum.splits if_splits option.splits)

lemma accept_chunk_inv: "progress_inv p \<Longrightarrow> progress_inv (fst (accept_chunk p c))"
  using accept_chunk_Ok [of p c "fst (accept_chunk p c)"] accept_chunk_Err [of p c "fst (accept_chunk p c)"]
  by (cases "snd (accept_chunk p c)") (metis prod.collapse)+

interpretation transfer: preserved "\<lambda>p c. fst (accept_chunk p c)" progress_inv
  by unfold_locales (rule accept_chunk_inv)

text \<open>The chunks of a run that were accepted.\<close>

fun accepted_chunks :: "artifact_progress \<Rightarrow> artifact_chunk list \<Rightarrow> artifact_chunk list" where
  "accepted_chunks p [] = []"
| "accepted_chunks p (c # cs) =
     (case accept_chunk p c of
       (p', Inr k) \<Rightarrow> c # accepted_chunks p' cs
     | (p', Inl e) \<Rightarrow> accepted_chunks p' cs)"

lemma accepted_chunks_run:
  fixes cs :: "artifact_chunk list"
  assumes "progress_inv p"
  defines "p' \<equiv> foldl (\<lambda>p c. fst (accept_chunk p c)) p cs" and "as \<equiv> accepted_chunks p cs"
  shows "map (unat \<circ> ac_chunk_sequence) as
      = [unat (ap_next_chunk_sequence p)..<unat (ap_next_chunk_sequence p')]
    \<and> unat (ap_received_bytes p') = unat (ap_received_bytes p) + length (concat (map ac_bytes as))
    \<and> ap_begin p' = ap_begin p \<and> unat (ap_next_chunk_sequence p) \<le> unat (ap_next_chunk_sequence p')"
  using assms(1) unfolding p'_def as_def
proof (induction cs arbitrary: p)
  case Nil
  then show ?case by simp
next
  case (Cons c cs)
  obtain p1 r where a: "accept_chunk p c = (p1, r)" by (cases "accept_chunk p c")
  show ?case
  proof (cases r)
    case (Inl e)
    then have "p1 = p" using a accept_chunk_Err by blast
    with Cons a Inl show ?thesis by simp
  next
    case (Inr k)
    note ok = accept_chunk_Ok [OF Cons.prems a [unfolded Inr]]
    with Cons.IH [of p1] a Inr show ?thesis by (auto simp: upt_conv_Cons)
  qed
qed

lemma complete_iff:
  assumes "progress_inv p"
  shows "validate_complete p = Inr () \<longleftrightarrow>
    unat (ap_next_chunk_sequence p) = unat (ab_chunk_count (ap_begin p))"
proof -
  have d: "declared (ap_begin p)" using assms by (simp add: progress_inv_def begin_declared)
  have "unat (ap_received_bytes p) = unat (ab_total_bytes (ap_begin p))"
    if "unat (ap_next_chunk_sequence p) = unat (ab_chunk_count (ap_begin p))"
    using assms d that by (simp add: progress_inv_def declared_def min_def)
  then show ?thesis
    using assms by (auto simp: validate_complete_def progress_inv_def word_unat_eq_iff)
qed

section \<open>Budget runs\<close>

datatype budget_op = BO_Receive u64 | BO_Release u64 | BO_Reset

fun budget_apply :: "transfer_budget \<Rightarrow> budget_op \<Rightarrow> transfer_budget \<times> (core_error, unit) result" where
  "budget_apply b (BO_Receive n) = budget_receive b n"
| "budget_apply b (BO_Release n) = budget_release b n"
| "budget_apply b BO_Reset = budget_reset_cumulative b"

definition budget_step :: "transfer_budget \<Rightarrow> budget_op \<Rightarrow> transfer_budget" where
  "budget_step b op = fst (budget_apply b op)"

definition budget_inv :: "transfer_budget \<Rightarrow> bool" where
  "budget_inv b \<longleftrightarrow>
     tb_in_flight_bytes b \<le> MAX_IN_FLIGHT_ARTIFACT_BYTES \<and>
     tb_cumulative_bytes b \<le> MAX_CUMULATIVE_ARTIFACT_BYTES \<and>
     tb_in_flight_bytes b \<le> tb_cumulative_bytes b"

lemma budget_receive_Ok:
  assumes "snd (budget_receive b n) = Inr ()"
  shows "unat (tb_in_flight_bytes (fst (budget_receive b n))) = unat (tb_in_flight_bytes b) + unat n \<and>
   unat (tb_cumulative_bytes (fst (budget_receive b n))) = unat (tb_cumulative_bytes b) + unat n \<and>
   tb_in_flight_bytes (fst (budget_receive b n)) \<le> MAX_IN_FLIGHT_ARTIFACT_BYTES \<and>
   tb_cumulative_bytes (fst (budget_receive b n)) \<le> MAX_CUMULATIVE_ARTIFACT_BYTES"
proof -
  have "\<not> (is_none_or (checked_add64 (tb_in_flight_bytes b) n) (\<lambda>t. t > MAX_IN_FLIGHT_ARTIFACT_BYTES)
      \<or> is_none_or (checked_add64 (tb_cumulative_bytes b) n) (\<lambda>t. t > MAX_CUMULATIVE_ARTIFACT_BYTES))"
    using assms by (auto simp: budget_receive_def Let_def split: if_splits)
  then obtain i c where i: "checked_add64 (tb_in_flight_bytes b) n = Some i" "i \<le> MAX_IN_FLIGHT_ARTIFACT_BYTES"
    and c: "checked_add64 (tb_cumulative_bytes b) n = Some c" "c \<le> MAX_CUMULATIVE_ARTIFACT_BYTES"
    by (auto simp: is_none_or_iff not_less)
  then have "fst (budget_receive b n) = b\<lparr>tb_in_flight_bytes := i, tb_cumulative_bytes := c\<rparr>"
    by (simp only: budget_receive_def Let_def is_none_or_simps option.sel not_less [symmetric]
        if_False simp_thms fst_conv)
  with i c checked_add64_Some [THEN iffD1, OF i(1)] checked_add64_Some [THEN iffD1, OF c(1)]
  show ?thesis by simp
qed

lemma budget_release_Ok:
  assumes "snd (budget_release b n) = Inr ()"
  shows "unat (tb_in_flight_bytes b) = unat (tb_in_flight_bytes (fst (budget_release b n))) + unat n \<and>
    tb_cumulative_bytes (fst (budget_release b n)) = tb_cumulative_bytes b"
proof -
  obtain r where r: "checked_sub64 (tb_in_flight_bytes b) n = Some r"
    using assms by (auto simp: budget_release_def split: option.splits)
  then show ?thesis
    using checked_sub64_Some [THEN iffD1, OF r] by (simp add: budget_release_def)
qed

lemma budget_refused: "snd (budget_apply b op) \<noteq> Inr () \<Longrightarrow> budget_step b op = b"
  by (cases op) (auto simp: budget_step_def budget_receive_def budget_release_def
      budget_reset_cumulative_def Let_def split: if_splits option.splits)

lemma budget_step_inv:
  assumes "budget_inv b" shows "budget_inv (budget_step b op)"
proof (cases "snd (budget_apply b op) = Inr ()")
  case True
  show ?thesis
  proof (cases op)
    case (BO_Receive n)
    with True assms budget_receive_Ok [of b n] show ?thesis
      by (simp add: budget_inv_def budget_step_def word_le_nat_alt)
  next
    case (BO_Release n)
    with True assms budget_release_Ok [of b n] show ?thesis
      by (simp add: budget_inv_def budget_step_def word_le_nat_alt)
  next
    case BO_Reset
    with True assms show ?thesis
      by (simp add: budget_inv_def budget_step_def budget_reset_cumulative_def split: if_splits)
  qed
qed (simp add: budget_refused assms)

interpretation budget: preserved budget_step budget_inv
  by unfold_locales (rule budget_step_inv)

text \<open>What a run has granted: bytes received minus bytes released.\<close>

fun op_net :: "budget_op \<Rightarrow> int" where
  "op_net (BO_Receive n) = uint n"
| "op_net (BO_Release n) = - uint n"
| "op_net BO_Reset = 0"

fun budget_net :: "transfer_budget \<Rightarrow> budget_op list \<Rightarrow> int" where
  "budget_net b [] = 0"
| "budget_net b (op # ops) =
     (if snd (budget_apply b op) = Inr () then op_net op else 0) + budget_net (budget_step b op) ops"

lemma budget_step_net:
  "uint (tb_in_flight_bytes (budget_step b op)) = uint (tb_in_flight_bytes b)
     + (if snd (budget_apply b op) = Inr () then op_net op else 0)"
proof (cases "snd (budget_apply b op) = Inr ()")
  case True
  show ?thesis
  proof (cases op)
    case (BO_Receive n)
    with True have "unat (tb_in_flight_bytes (budget_step b op)) = unat (tb_in_flight_bytes b) + unat n"
      using budget_receive_Ok [of b n] by (simp add: budget_step_def)
    from arg_cong [OF this, of int] True BO_Receive show ?thesis by simp
  next
    case (BO_Release n)
    with True have "unat (tb_in_flight_bytes b) = unat (tb_in_flight_bytes (budget_step b op)) + unat n"
      using budget_release_Ok [of b n] by (simp add: budget_step_def)
    from arg_cong [OF this, of int] True BO_Release show ?thesis by simp
  next
    case BO_Reset
    with True show ?thesis
      by (simp add: budget_step_def budget_reset_cumulative_def split: if_splits)
  qed
qed (simp add: budget_refused)

lemma budget_run_net:
  "uint (tb_in_flight_bytes (foldl budget_step b ops)) = uint (tb_in_flight_bytes b) + budget_net b ops"
  by (induction ops arbitrary: b) (simp_all add: budget_step_net)

section \<open>Properties\<close>

text \<open>
  C5: A transfer assembles exactly what was declared. Whatever chunks arrive, those accepted
  are the chunks 0, 1, 2, ... in order with no gap or repetition, never more bytes than
  declared; the transfer is complete exactly when as many chunks as declared were accepted,
  and then the accepted bytes have exactly the declared total length. All of this is counted in natural
  numbers, so no counter of the receiver wraps around on the way.
\<close>

theorem artifact_transfer_exact:
  assumes "progress_begin b epoch = Ok p"
    and "p' = foldl (\<lambda>p c. fst (accept_chunk p c)) p chunks" and "as = accepted_chunks p chunks"
  shows "map (unat \<circ> ac_chunk_sequence) as = [0..<length as] \<and>
    length (concat (map ac_bytes as)) \<le> unat (ab_total_bytes b) \<and>
    (validate_complete p' = Ok () \<longleftrightarrow> length as = unat (ab_chunk_count b)) \<and>
    (validate_complete p' = Ok () \<longrightarrow> length (concat (map ac_bytes as)) = unat (ab_total_bytes b))"
proof -
  have inv: "progress_inv p" using assms(1) by (rule progress_begin_inv)
  have p0: "ap_begin p = b" "ap_next_chunk_sequence p = 0" "ap_received_bytes p = 0"
    using assms(1) by (auto simp: progress_begin_def)
  have inv': "progress_inv p'" using transfer.run_inv [OF inv] by (simp add: assms(2))
  note run = accepted_chunks_run [OF inv, of chunks, folded assms(2,3), unfolded p0]
  have n: "map (unat \<circ> ac_chunk_sequence) as = [0..<unat (ap_next_chunk_sequence p')]"
    and bytes: "length (concat (map ac_bytes as)) = unat (ap_received_bytes p')"
    and b: "ap_begin p' = b"
    using run by (simp_all del: length_concat)
  from n have len: "length as = unat (ap_next_chunk_sequence p')"
    by (metis length_map length_upt diff_zero)
  have le: "unat (ap_received_bytes p') \<le> unat (ab_total_bytes b)"
    using inv' b by (simp add: progress_inv_def)
  have "unat (ap_received_bytes p') = unat (ab_total_bytes b)" if "validate_complete p' = Ok ()"
    using that b by (simp add: validate_complete_def split: if_splits)
  then show ?thesis
    unfolding bytes complete_iff [OF inv'] b len using n le by blast
qed

definition demo_begin :: artifact_begin where
  "demo_begin = \<lparr>ab_protocol = 1, ab_artifact_id = ''artifact_1'', ab_request_id = None,
     ab_artifact_kind = AK_Text, ab_total_bytes = 3, ab_chunk_size = 2, ab_chunk_count = 2,
     ab_digest_algorithm = AD_Fnv1a64, ab_digest = ''fnv1a64:0000000000000000'', ab_redacted = False\<rparr>"

definition demo_chunk :: "u16 \<Rightarrow> u8 list \<Rightarrow> artifact_chunk" where
  "demo_chunk i bytes = \<lparr>ac_protocol = 1, ac_artifact_id = ''artifact_1'', ac_connection_epoch = 5,
     ac_chunk_sequence = i, ac_bytes = bytes\<rparr>"

definition demo_progress :: artifact_progress where
  "demo_progress = \<lparr>ap_artifact_id = ''artifact_1'', ap_begin = demo_begin, ap_connection_epoch = 5,
     ap_next_chunk_sequence = 0, ap_received_bytes = 0\<rparr>"

lemma artifact_transfer_exact_witness:
  "progress_begin demo_begin 5 = Ok demo_progress \<and>
   map (unat \<circ> ac_chunk_sequence)
     (accepted_chunks demo_progress [demo_chunk 1 [9], demo_chunk 0 [7, 8], demo_chunk 1 [9]])
   = [0..<length (accepted_chunks demo_progress [demo_chunk 1 [9], demo_chunk 0 [7, 8], demo_chunk 1 [9]])]"
proof -
  have h: "progress_begin demo_begin 5 = Ok demo_progress"
    by (simp add: progress_begin_def artifact_begin_validate_def demo_begin_def demo_progress_def
        PROTOCOL_VERSION_def validate_protocol_version_def Let_def div_ceil_def MAX_ARTIFACT_BYTES_def
        MAX_ARTIFACT_CHUNK_BYTES_def MAX_ARTIFACT_CHUNKS_def digest_algorithm_name_def)
  from artifact_transfer_exact [OF h refl refl] h show ?thesis by blast
qed

text \<open>
  The byte budget of a connection is kept under every sequence of receive, release and
  reset calls: at most four MiB in flight, at most 64 MiB since the last reset, never more in
  flight than received since the reset, and the in-flight count is exactly the bytes received
  minus the bytes released by the granted calls.
\<close>

theorem budget_conserved_and_bounded:
  assumes "b = foldl budget_step budget_default ops"
  shows "unat (tb_in_flight_bytes b) \<le> 4 * 1024 * 1024 \<and>
    unat (tb_cumulative_bytes b) \<le> 64 * 1024 * 1024 \<and>
    tb_in_flight_bytes b \<le> tb_cumulative_bytes b \<and>
    uint (tb_in_flight_bytes b) = budget_net budget_default ops"
proof -
  have "budget_inv budget_default"
    by (simp add: budget_inv_def budget_default_def MAX_IN_FLIGHT_ARTIFACT_BYTES_def
        MAX_CUMULATIVE_ARTIFACT_BYTES_def)
  then have "budget_inv b" unfolding assms by (rule budget.run_inv)
  then show ?thesis
    using budget_run_net [of budget_default ops] assms
    by (simp add: budget_inv_def word_le_nat_alt budget_default_def MAX_IN_FLIGHT_ARTIFACT_BYTES_def
        MAX_CUMULATIVE_ARTIFACT_BYTES_def)
qed

lemma budget_conserved_and_bounded_witness:
  "uint (tb_in_flight_bytes (foldl budget_step budget_default [BO_Receive 10, BO_Release 4, BO_Reset]))
   = budget_net budget_default [BO_Receive 10, BO_Release 4, BO_Reset]"
  using budget_conserved_and_bounded [OF refl, of "[BO_Receive 10, BO_Release 4, BO_Reset]"] by blast

end
