(* ===== verification/Events.thy ===== *)
theory Events
  imports Framing
begin

text \<open>
  Broker-sequenced, scope-filtered event records (\<^verbatim>\<open>crates/agentyc-core/src/events.rs\<close>). An
  event is a record over the type of its payload.
\<close>

section \<open>Attribution\<close>

datatype event_kind =
    EK_SpaceChanged | EK_PageChanged | EK_LeaseChanged | EK_ActionChanged | EK_SnapshotChanged
  | EK_BrokerDraining | EK_ConnectionChanged | EK_Heartbeat

datatype event_source = ES_Broker | ES_Bridge | ES_Client

record event_attribution =
  ea_source :: event_source
  ea_connection_epoch :: "connection_epoch option"
  ea_profile_binding_id :: "opaque_id option"
  ea_browser_session_epoch :: "browser_session_epoch option"
  ea_worker_instance_epoch :: "worker_instance_epoch option"
  ea_frame_id :: "opaque_id option"
  ea_document_id :: "opaque_id option"
  ea_navigation_id :: "opaque_id option"

definition attribution_broker :: event_attribution where
  "attribution_broker =
     \<lparr>ea_source = ES_Broker, ea_connection_epoch = None, ea_profile_binding_id = None,
      ea_browser_session_epoch = None, ea_worker_instance_epoch = None, ea_frame_id = None,
      ea_document_id = None, ea_navigation_id = None\<rparr>"

definition attribution_client :: "connection_epoch \<Rightarrow> opaque_id option \<Rightarrow> event_attribution" where
  "attribution_client connection_epoch profile_binding_id =
     attribution_broker\<lparr>ea_source := ES_Client, ea_connection_epoch := Some connection_epoch,
       ea_profile_binding_id := profile_binding_id\<rparr>"

definition attribution_bridge ::
  "connection_epoch \<Rightarrow> opaque_id option \<Rightarrow> browser_session_epoch option \<Rightarrow> worker_instance_epoch option
   \<Rightarrow> event_attribution" where
  "attribution_bridge connection_epoch profile_binding_id browser_session_epoch worker_instance_epoch =
     attribution_broker\<lparr>ea_source := ES_Bridge, ea_connection_epoch := Some connection_epoch,
       ea_profile_binding_id := profile_binding_id,
       ea_browser_session_epoch := browser_session_epoch,
       ea_worker_instance_epoch := worker_instance_epoch\<rparr>"

section \<open>Scopes and metadata\<close>

record event_scope =
  sc_space_id :: "opaque_id option"
  sc_page_id :: "opaque_id option"

definition scope_validate :: "event_scope \<Rightarrow> (core_error, unit) result" where
  "scope_validate s =
     (if is_some (sc_page_id s) \<and> sc_space_id s = None then
        Err (invalid_argument ''event page scope requires a space scope'')
      else Ok ())"

definition scope_space :: "opaque_id \<Rightarrow> event_scope" where
  "scope_space space_id = \<lparr>sc_space_id = Some space_id, sc_page_id = None\<rparr>"

definition scope_page :: "opaque_id \<Rightarrow> opaque_id \<Rightarrow> event_scope" where
  "scope_page space_id page_id = \<lparr>sc_space_id = Some space_id, sc_page_id = Some page_id\<rparr>"

definition scope_matches :: "event_scope \<Rightarrow> event_scope \<Rightarrow> bool" where
  "scope_matches s requested =
     (if isl (scope_validate s) \<or> isl (scope_validate requested) then False
      else is_none_or (sc_space_id requested) (\<lambda>i. sc_space_id s = Some i)
         \<and> is_none_or (sc_page_id requested) (\<lambda>i. sc_page_id s = Some i))"

definition validate_for_scope :: "event_attribution \<Rightarrow> event_scope \<Rightarrow> (core_error, unit) result" where
  "validate_for_scope a scope =
     (if is_some_and (ea_connection_epoch a) (\<lambda>epoch. epoch = 0)
         \<or> is_some_and (ea_browser_session_epoch a) (\<lambda>epoch. epoch = 0)
         \<or> is_some_and (ea_worker_instance_epoch a) (\<lambda>epoch. epoch = 0) then
        Err (invalid_argument ''event attribution contains a zero epoch'')
      else if ea_source a \<in> {ES_Bridge, ES_Client} \<and> ea_connection_epoch a = None then
        Err (invalid_argument ''connected event attribution requires a connection epoch'')
      else if (is_some (ea_frame_id a) \<or> is_some (ea_document_id a) \<or> is_some (ea_navigation_id a))
         \<and> sc_page_id scope = None then
        Err (invalid_argument ''frame, document, and navigation attribution requires a page scope'')
      else Ok ())"

record event_heartbeat =
  hb_source :: event_source

record event_metadata =
  em_attribution :: event_attribution
  em_heartbeat :: "event_heartbeat option"
  em_coalesced_count :: "u16 option"

definition MAX_COALESCED_COUNT :: u16 where
  "MAX_COALESCED_COUNT = 1024"

definition metadata_for_event :: "event_kind \<Rightarrow> event_attribution \<Rightarrow> event_metadata" where
  "metadata_for_event event attribution =
     \<lparr>em_attribution = attribution,
      em_heartbeat = if event = EK_Heartbeat then Some \<lparr>hb_source = ea_source attribution\<rparr> else None,
      em_coalesced_count = None\<rparr>"

definition metadata_validate ::
  "event_metadata \<Rightarrow> event_kind \<Rightarrow> event_scope \<Rightarrow> bool \<Rightarrow> (core_error, unit) result" where
  "metadata_validate m event scope coalesced =
     and_then (validate_for_scope (em_attribution m) scope) (\<lambda>_.
     if is_some_and (em_coalesced_count m) (\<lambda>count. \<not> (2 \<le> count \<and> count \<le> MAX_COALESCED_COUNT)) then
       Err (invalid_argument ''event coalesced count is outside its bound'')
     else if is_some (em_coalesced_count m) \<and> \<not> coalesced then
       Err (invalid_argument ''event coalesced count requires a coalesced event'')
     else if event = EK_Heartbeat then
       (if is_some_and (em_heartbeat m) (\<lambda>heartbeat. hb_source heartbeat = ea_source (em_attribution m))
        then Ok ()
        else Err (invalid_argument ''heartbeat events require matching heartbeat metadata''))
     else
       (if is_some (em_heartbeat m)
        then Err (invalid_argument ''heartbeat metadata is only valid for heartbeat events'')
        else Ok ()))"

section \<open>Events\<close>

record generation_watermark =
  gw_space_generation :: generation
  gw_page_generation :: generation
  gw_navigation_generation :: generation
  gw_document_generation :: generation
  gw_snapshot_version :: "snapshot_version option"
  gw_metadata :: "event_metadata option"

record 'p event_record =
  ev_protocol :: u16
  ev_event_id :: opaque_id
  ev_broker_epoch :: broker_epoch
  ev_sequence :: event_sequence
  ev_scope :: event_scope
  ev_event :: event_kind
  ev_generation :: generation_watermark
  ev_dirty_reason :: "dirty_reason option"
  ev_coalesced :: bool
  ev_resync_required :: bool
  ev_payload :: 'p

definition event_validate_scope :: "'p event_record \<Rightarrow> (core_error, unit) result" where
  "event_validate_scope e = scope_validate (ev_scope e)"

definition event_is_after :: "'p event_record \<Rightarrow> event_sequence \<Rightarrow> bool" where
  "event_is_after e sequence \<longleftrightarrow> ev_sequence e > sequence"

definition event_requires_resync :: "'p event_record \<Rightarrow> bool" where
  "event_requires_resync e \<longleftrightarrow> ev_resync_required e"

definition event_metadata_of :: "'p event_record \<Rightarrow> event_metadata option" where
  "event_metadata_of e = gw_metadata (ev_generation e)"

definition event_attribution_of :: "'p event_record \<Rightarrow> event_attribution option" where
  "event_attribution_of e = map_option em_attribution (event_metadata_of e)"

definition event_is_heartbeat :: "'p event_record \<Rightarrow> bool" where
  "event_is_heartbeat e \<longleftrightarrow> ev_event e = EK_Heartbeat"

definition event_requires_attribution :: "'p event_record \<Rightarrow> bool" where
  "event_requires_attribution e \<longleftrightarrow>
     is_some (sc_space_id (ev_scope e)) \<or> is_some (sc_page_id (ev_scope e)) \<or> event_is_heartbeat e"

definition validate_routing :: "'p event_record \<Rightarrow> (core_error, unit) result" where
  "validate_routing e =
     and_then (event_validate_scope e) (\<lambda>_.
     if ev_protocol e \<noteq> PROTOCOL_VERSION then
       Err (invalid_argument ''event protocol version is unsupported'')
     else if ev_broker_epoch e = 0 \<or> ev_sequence e = 0 then
       Err (invalid_argument ''event epoch and sequence must be positive'')
     else case event_metadata_of e of
       Some metadata \<Rightarrow> metadata_validate metadata (ev_event e) (ev_scope e) (ev_coalesced e)
     | None \<Rightarrow>
         if event_requires_attribution e then
           Err (invalid_argument ''scoped event is missing internal attribution'')
         else Ok ())"

definition validate_admission :: "'p event_record \<Rightarrow> (core_error, unit) result" where
  "validate_admission e =
     and_then (validate_routing e) (\<lambda>_.
     if event_metadata_of e = None then
       Err (invalid_argument ''admitted event is missing internal attribution'')
     else Ok ())"

record event_cursor =
  cu_broker_epoch :: broker_epoch
  cu_sequence :: event_sequence

definition cursor_accepts :: "event_cursor \<Rightarrow> event_cursor \<Rightarrow> bool" where
  "cursor_accepts c event \<longleftrightarrow>
     cu_broker_epoch c = cu_broker_epoch event \<and> cu_sequence event > cu_sequence c"

section \<open>Facts\<close>

lemma scope_validate_Ok [record_simps]:
  "scope_validate s = Inr () \<longleftrightarrow> sc_page_id s = None \<or> is_some (sc_space_id s)"
  by (auto simp: scope_validate_def)

lemma scope_validate_Err [record_simps]:
  "isl (scope_validate s) \<longleftrightarrow> sc_page_id s \<noteq> None \<and> sc_space_id s = None"
  by (auto simp: scope_validate_def)

lemma scope_matches_iff:
  "scope_matches s q \<longleftrightarrow> scope_validate s = Inr () \<and> scope_validate q = Inr () \<and>
     (\<forall>i. sc_space_id q = Some i \<longrightarrow> sc_space_id s = Some i) \<and>
     (\<forall>i. sc_page_id q = Some i \<longrightarrow> sc_page_id s = Some i)"
  by (auto simp: scope_matches_def scope_validate_Err scope_validate_Ok is_none_or_iff)

text \<open>Matching is transitive: a narrower subscription never sees more.\<close>

lemma scope_matches_trans: "scope_matches s q \<Longrightarrow> scope_matches q r \<Longrightarrow> scope_matches s r"
  by (simp add: scope_matches_iff)

lemma scope_matches_refl: "scope_validate s = Inr () \<Longrightarrow> scope_matches s s"
  by (simp add: scope_matches_iff)

lemma validate_routing_scope: "validate_routing e = Inr () \<Longrightarrow> scope_validate (ev_scope e) = Inr ()"
  by (simp add: validate_routing_def event_validate_scope_def)

lemma validate_routing_positive:
  "validate_routing e = Inr () \<Longrightarrow> ev_broker_epoch e \<noteq> 0 \<and> ev_sequence e \<noteq> 0"
  by (auto simp: validate_routing_def split: if_splits)

text \<open>The constructors of attributions build metadata that validates in a page scope.\<close>

lemma metadata_for_event_valid:
  assumes "a = attribution_broker \<or> (\<exists>c p. c \<noteq> 0 \<and> a = attribution_client c p)
    \<or> (\<exists>c p. c \<noteq> 0 \<and> a = attribution_bridge c p None None)"
  shows "metadata_validate (metadata_for_event k a) k s b = Inr ()"
  using assms
  by (auto simp: metadata_validate_def metadata_for_event_def validate_for_scope_def
      attribution_broker_def attribution_client_def attribution_bridge_def)

end
