(* ===== verification/Handshake.thy ===== *)
theory Handshake
  imports Events Artifacts
begin

text \<open>
  The handshake, request, response, capability and cancellation envelopes of the local
  protocol and version negotiation (\<^verbatim>\<open>crates/agentyc-core/src/protocol.rs\<close>, lines 58 to 462,
  837 to 987 and 1441 to 1536). Payload types are parameters of the records, as they are in the
  source.
\<close>

section \<open>Metadata\<close>

record resume_watermark =
  rw_broker_epoch :: broker_epoch
  rw_sequence :: event_sequence

record client_metadata =
  cm_client_id :: "opaque_id option"
  cm_client_name :: "string option"
  cm_client_version :: "string option"
  cm_connection_nonce :: "opaque_id option"
  cm_profile_binding_id :: "opaque_id option"

record host_metadata =
  hm_host_name :: "string option"
  hm_host_version :: "string option"
  hm_connection_nonce :: "opaque_id option"
  hm_profile_binding_id :: "opaque_id option"

definition validate_optional_metadata_text :: "string \<Rightarrow> string option \<Rightarrow> (core_error, unit) result" where
  "validate_optional_metadata_text field value =
     (if is_some_and value (\<lambda>value. value = [] \<or> length value > 128) then
        Err (invalid_argument (''handshake '' @ field @ '' must be between 1 and 128 bytes''))
      else Ok ())"

definition client_metadata_validate :: "client_metadata \<Rightarrow> (core_error, unit) result" where
  "client_metadata_validate m =
     and_then (validate_optional_metadata_text ''client_name'' (cm_client_name m)) (\<lambda>_.
     validate_optional_metadata_text ''client_version'' (cm_client_version m))"

definition client_metadata_validate_required :: "client_metadata \<Rightarrow> (core_error, unit) result" where
  "client_metadata_validate_required m =
     and_then (client_metadata_validate m) (\<lambda>_.
     if cm_connection_nonce m = None then
       Err (invalid_argument ''handshake client metadata requires a connection nonce'')
     else if cm_client_name m = None \<or> cm_client_version m = None then
       Err (invalid_argument ''handshake client metadata requires client name and version'')
     else Ok ())"

definition host_metadata_validate :: "host_metadata \<Rightarrow> (core_error, unit) result" where
  "host_metadata_validate m =
     and_then (validate_optional_metadata_text ''host_name'' (hm_host_name m)) (\<lambda>_.
     validate_optional_metadata_text ''host_version'' (hm_host_version m))"

definition host_metadata_validate_required :: "host_metadata \<Rightarrow> (core_error, unit) result" where
  "host_metadata_validate_required m =
     and_then (host_metadata_validate m) (\<lambda>_.
     if hm_connection_nonce m = None then
       Err (invalid_argument ''handshake host metadata requires a connection nonce'')
     else if hm_host_name m = None \<or> hm_host_version m = None then
       Err (invalid_argument ''handshake host metadata requires host name and version'')
     else Ok ())"

section \<open>Hello\<close>

record hello_envelope =
  he_protocol :: u16
  he_supported_protocols :: "u16 list"
  he_principal_id :: opaque_id
  he_resume_from :: "resume_watermark option"
  he_client_metadata :: "client_metadata option"

definition hello_validate :: "hello_envelope \<Rightarrow> (core_error, unit) result" where
  "hello_validate h =
     (if he_supported_protocols h = [] \<or> he_protocol h \<notin> set (he_supported_protocols h) then
        Err (core_error_new EC_ProtocolMismatch ''hello protocol is not present in supported_protocols'')
      else case he_client_metadata h of
        Some metadata \<Rightarrow> client_metadata_validate metadata
      | None \<Rightarrow> Ok ())"

definition hello_validate_handshake :: "hello_envelope \<Rightarrow> (core_error, unit) result" where
  "hello_validate_handshake h =
     and_then (hello_validate h) (\<lambda>_.
     case he_client_metadata h of
       None \<Rightarrow> Err (invalid_argument ''handshake requires client metadata'')
     | Some metadata \<Rightarrow> client_metadata_validate_required metadata)"

datatype resume_result = RU_Accepted | RU_ResyncRequired

record hello_ok_envelope =
  ho_protocol :: u16
  ho_broker_epoch :: broker_epoch
  ho_connection_epoch :: connection_epoch
  ho_capabilities :: "capability list"
  ho_resume :: resume_result
  ho_host_metadata :: "host_metadata option"

definition hello_ok_validate :: "hello_ok_envelope \<Rightarrow> (core_error, unit) result" where
  "hello_ok_validate h =
     (if ho_protocol h \<noteq> PROTOCOL_VERSION then
        Err (core_error_new EC_ProtocolMismatch
               (''unsupported protocol version '' @ show_nat (unat (ho_protocol h))))
      else case ho_host_metadata h of
        Some metadata \<Rightarrow> host_metadata_validate metadata
      | None \<Rightarrow> Ok ())"

definition hello_ok_validate_handshake :: "hello_ok_envelope \<Rightarrow> (core_error, unit) result" where
  "hello_ok_validate_handshake h =
     and_then (hello_ok_validate h) (\<lambda>_.
     case ho_host_metadata h of
       None \<Rightarrow> Err (invalid_argument ''hello_ok requires host metadata'')
     | Some metadata \<Rightarrow> host_metadata_validate_required metadata)"

definition hello_ok_validate_against ::
  "hello_ok_envelope \<Rightarrow> hello_envelope \<Rightarrow> (core_error, unit) result" where
  "hello_ok_validate_against h hello =
     and_then (hello_validate_handshake hello) (\<lambda>_.
     and_then (hello_ok_validate_handshake h) (\<lambda>_.
     if ho_protocol h \<noteq> he_protocol hello then
       Err (core_error_new EC_ProtocolMismatch ''hello and hello_ok protocol versions differ'')
     else
       and_then (ok_or (he_client_metadata hello)
                   (invalid_argument ''handshake requires client metadata'')) (\<lambda>client_metadata.
       and_then (ok_or (ho_host_metadata h)
                   (invalid_argument ''hello_ok requires host metadata'')) (\<lambda>host_metadata.
       if hm_connection_nonce host_metadata \<noteq> cm_connection_nonce client_metadata then
         Err (invalid_argument ''hello_ok does not echo the client connection nonce'')
       else if hm_profile_binding_id host_metadata \<noteq> cm_profile_binding_id client_metadata then
         Err (invalid_argument ''hello_ok does not echo the client profile binding'')
       else Ok ()))))"

section \<open>Requests, responses and capabilities\<close>

record 'p request_envelope =
  re_protocol :: u16
  re_request_id :: opaque_id
  re_method :: string
  re_params :: 'p
  re_deadline_ms :: "u64 option"
  re_idempotency_key :: "opaque_id option"

text \<open>\<^verbatim>\<open>str::split\<close> at one character.\<close>

fun split_on :: "char \<Rightarrow> string \<Rightarrow> string list" where
  "split_on c [] = [[]]"
| "split_on c (x # xs) =
     (if x = c then [] # split_on c xs
      else case split_on c xs of p # ps \<Rightarrow> (x # p) # ps | [] \<Rightarrow> [[x]])"

definition method_part :: "string \<Rightarrow> bool" where
  "method_part part \<longleftrightarrow> part \<noteq> [] \<and> list_all id_rest_char part"

definition method_name_ok :: "string \<Rightarrow> bool" where
  "method_name_ok name \<longleftrightarrow>
     name \<noteq> [] \<and> length name \<le> 128 \<and> list_all method_part (split_on (CHR ''.'') name)"

definition has_valid_method :: "'p request_envelope \<Rightarrow> bool" where
  "has_valid_method r = method_name_ok (re_method r)"

record 'p response_envelope =
  rs_protocol :: u16
  rs_request_id :: opaque_id
  rs_ok :: bool
  rs_result :: "'p option"
  rs_error :: "core_error option"
  rs_warnings :: "string list"

definition response_success :: "opaque_id \<Rightarrow> 'p \<Rightarrow> 'p response_envelope" where
  "response_success request_id outcome =
     \<lparr>rs_protocol = PROTOCOL_VERSION, rs_request_id = request_id, rs_ok = True,
      rs_result = Some outcome, rs_error = None, rs_warnings = []\<rparr>"

definition response_failure :: "opaque_id \<Rightarrow> core_error \<Rightarrow> 'p response_envelope" where
  "response_failure request_id error =
     \<lparr>rs_protocol = PROTOCOL_VERSION, rs_request_id = request_id, rs_ok = False,
      rs_result = None, rs_error = Some error, rs_warnings = []\<rparr>"

record capability_unavailable =
  cu_capability :: capability
  cu_method :: string
  cu_error :: core_error

definition capability_unavailable_new :: "capability \<Rightarrow> string \<Rightarrow> capability_unavailable" where
  "capability_unavailable_new capability method =
     \<lparr>cu_capability = capability, cu_method = method,
      cu_error = core_error_new EC_CapabilityUnavailable ''requested capability is unavailable''\<rparr>"

definition capability_unavailable_validate :: "capability_unavailable \<Rightarrow> (core_error, unit) result" where
  "capability_unavailable_validate c =
     (if cu_method c = [] \<or> length (cu_method c) > 128
         \<or> \<not> list_all method_part (split_on (CHR ''.'') (cu_method c)) then
        Err (invalid_argument ''capability-unavailable method is not a valid operation name'')
      else if ce_code (cu_error c) \<noteq> EC_CapabilityUnavailable then
        Err (invalid_argument ''capability-unavailable result must use capability_unavailable'')
      else Ok ())"

definition capability_unavailable_try_new ::
  "capability \<Rightarrow> string \<Rightarrow> (core_error, capability_unavailable) result" where
  "capability_unavailable_try_new capability method =
     (let c = capability_unavailable_new capability method in
      and_then (capability_unavailable_validate c) (\<lambda>_. Ok c))"

datatype 'a capability_result = CR_Available 'a | CR_Unavailable capability_unavailable

fun capability_result_validate :: "'a capability_result \<Rightarrow> (core_error, unit) result" where
  "capability_result_validate (CR_Unavailable c) = capability_unavailable_validate c"
| "capability_result_validate (CR_Available a) = Ok ()"

section \<open>Cancellation\<close>

definition MAX_CANCEL_REASON_BYTES :: nat where
  "MAX_CANCEL_REASON_BYTES = 256"

record cancel_envelope =
  ca_protocol :: u16
  ca_request_id :: opaque_id
  ca_reason :: "string option"

definition cancel_reason_error :: core_error where
  "cancel_reason_error = invalid_argument
     (''cancellation reason must be between 1 and '' @ show_nat MAX_CANCEL_REASON_BYTES @ '' bytes'')"

definition cancel_validate :: "cancel_envelope \<Rightarrow> (core_error, unit) result" where
  "cancel_validate c =
     and_then (validate_protocol_version (ca_protocol c)) (\<lambda>_.
     if is_some_and (ca_reason c) (\<lambda>reason. reason = [] \<or> length reason > MAX_CANCEL_REASON_BYTES) then
       Err cancel_reason_error
     else Ok ())"

type_synonym cancel_reason = string

definition cancel_reason_new :: "string \<Rightarrow> (core_error, cancel_reason) result" where
  "cancel_reason_new value =
     (if value = [] \<or> length value > MAX_CANCEL_REASON_BYTES then Err cancel_reason_error else Ok value)"

record cancel_request =
  cq_protocol :: u16
  cq_request_id :: opaque_id
  cq_reason :: "cancel_reason option"

definition cancel_typed :: "cancel_envelope \<Rightarrow> (core_error, cancel_request) result" where
  "cancel_typed c =
     and_then (cancel_validate c) (\<lambda>_.
     case ca_reason c of
       None \<Rightarrow> Ok \<lparr>cq_protocol = ca_protocol c, cq_request_id = ca_request_id c, cq_reason = None\<rparr>
     | Some reason \<Rightarrow>
         and_then (cancel_reason_new reason) (\<lambda>r.
           Ok \<lparr>cq_protocol = ca_protocol c, cq_request_id = ca_request_id c, cq_reason = Some r\<rparr>))"

definition cancel_request_validate :: "cancel_request \<Rightarrow> (core_error, unit) result" where
  "cancel_request_validate c =
     and_then (validate_protocol_version (cq_protocol c)) (\<lambda>_.
     if is_some_and (cq_reason c) (\<lambda>reason. reason = [] \<or> length reason > MAX_CANCEL_REASON_BYTES) then
       Err (invalid_argument ''typed cancellation reason is outside its bound'')
     else Ok ())"

definition cancel_into_envelope :: "cancel_request \<Rightarrow> cancel_envelope" where
  "cancel_into_envelope c =
     \<lparr>ca_protocol = cq_protocol c, ca_request_id = cq_request_id c, ca_reason = cq_reason c\<rparr>"

section \<open>Envelopes and versions\<close>

record resume_envelope =
  ru_protocol :: u16
  ru_after :: resume_watermark

datatype 'p envelope =
    EN_Hello hello_envelope
  | EN_HelloOk hello_ok_envelope
  | EN_Request "'p request_envelope"
  | EN_Response "'p response_envelope"
  | EN_Event "'p event_record"
  | EN_Artifact artifact_envelope
  | EN_ArtifactBegin artifact_begin
  | EN_ArtifactChunk artifact_chunk
  | EN_ArtifactEnd artifact_end
  | EN_Cancel cancel_envelope
  | EN_Resume resume_envelope

fun envelope_protocol :: "'p envelope \<Rightarrow> u16" where
  "envelope_protocol (EN_Hello v) = he_protocol v"
| "envelope_protocol (EN_HelloOk v) = ho_protocol v"
| "envelope_protocol (EN_Request v) = re_protocol v"
| "envelope_protocol (EN_Response v) = rs_protocol v"
| "envelope_protocol (EN_Event v) = ev_protocol v"
| "envelope_protocol (EN_Artifact v) = ae_protocol v"
| "envelope_protocol (EN_ArtifactBegin v) = ab_protocol v"
| "envelope_protocol (EN_ArtifactChunk v) = ac_protocol v"
| "envelope_protocol (EN_ArtifactEnd v) = an_protocol v"
| "envelope_protocol (EN_Cancel v) = ca_protocol v"
| "envelope_protocol (EN_Resume v) = ru_protocol v"

definition envelope_validate_protocol :: "'p envelope \<Rightarrow> (core_error, unit) result" where
  "envelope_validate_protocol e =
     (if envelope_protocol e = PROTOCOL_VERSION then Ok ()
      else Err (core_error_new EC_ProtocolMismatch
             (''unsupported protocol version '' @ show_nat (unat (envelope_protocol e)))))"

definition envelope_validate :: "'p envelope \<Rightarrow> (core_error, unit) result" where
  "envelope_validate e =
     and_then (envelope_validate_protocol e) (\<lambda>_.
     case e of
       EN_Artifact v \<Rightarrow> artifact_envelope_validate v
     | EN_ArtifactBegin v \<Rightarrow> artifact_begin_validate v
     | EN_ArtifactChunk v \<Rightarrow> artifact_chunk_validate v
     | EN_ArtifactEnd v \<Rightarrow> artifact_end_validate v
     | EN_Cancel v \<Rightarrow> cancel_validate v
     | _ \<Rightarrow> Ok ())"

type_synonym negotiated_protocol = u16

text \<open>\<^verbatim>\<open>Iterator::max\<close>.\<close>

definition iter_max :: "u16 list \<Rightarrow> u16 option" where
  "iter_max xs = (case xs of [] \<Rightarrow> None | x # xs \<Rightarrow> Some (foldl max x xs))"

definition negotiate_version :: "u16 list \<Rightarrow> u16 list \<Rightarrow> (core_error, negotiated_protocol) result" where
  "negotiate_version client server =
     ok_or (iter_max (filter (\<lambda>version. version \<in> set server) client))
       (core_error_new EC_ProtocolMismatch ''client and host have no common protocol version'')"

section \<open>Facts\<close>

lemma metadata_text_Ok [record_simps]:
  "validate_optional_metadata_text f v = Inr () \<longleftrightarrow> (\<forall>x. v = Some x \<longrightarrow> x \<noteq> [] \<and> length x \<le> 128)"
  by (auto simp: validate_optional_metadata_text_def is_some_and_iff)

lemma hello_validate_handshake_Ok [record_simps]:
  "hello_validate_handshake h = Inr () \<longleftrightarrow>
     he_protocol h \<in> set (he_supported_protocols h) \<and>
     (\<exists>m. he_client_metadata h = Some m \<and> client_metadata_validate_required m = Inr ())"
  by (cases "he_client_metadata h")
    (auto simp: hello_validate_handshake_def hello_validate_def client_metadata_validate_required_def)

lemma hello_ok_validate_handshake_Ok [record_simps]:
  "hello_ok_validate_handshake h = Inr () \<longleftrightarrow>
     ho_protocol h = PROTOCOL_VERSION \<and>
     (\<exists>m. ho_host_metadata h = Some m \<and> host_metadata_validate_required m = Inr ())"
  by (cases "ho_host_metadata h")
    (auto simp: hello_ok_validate_handshake_def hello_ok_validate_def host_metadata_validate_required_def)

lemma client_required_Ok [record_simps]:
  "client_metadata_validate_required m = Inr () \<longleftrightarrow>
     is_some (cm_connection_nonce m) \<and> is_some_and (cm_client_name m) (\<lambda>x. x \<noteq> [] \<and> length x \<le> 128)
     \<and> is_some_and (cm_client_version m) (\<lambda>x. x \<noteq> [] \<and> length x \<le> 128)"
  by (auto simp: client_metadata_validate_required_def client_metadata_validate_def metadata_text_Ok
      is_some_and_iff)

lemma host_required_Ok [record_simps]:
  "host_metadata_validate_required m = Inr () \<longleftrightarrow>
     is_some (hm_connection_nonce m) \<and> is_some_and (hm_host_name m) (\<lambda>x. x \<noteq> [] \<and> length x \<le> 128)
     \<and> is_some_and (hm_host_version m) (\<lambda>x. x \<noteq> [] \<and> length x \<le> 128)"
  by (auto simp: host_metadata_validate_required_def host_metadata_validate_def metadata_text_Ok
      is_some_and_iff)

lemma foldl_max: "foldl max x xs = Max (insert x (set xs))" for x :: "'a::linorder"
proof (induction xs arbitrary: x)
  case (Cons y ys)
  show ?case
    using Cons [of "max x y"] by (cases "ys = []") (simp_all add: Max_insert max.assoc insert_commute)
qed simp

lemma iter_max_Some: "iter_max xs = Some m \<longleftrightarrow> m \<in> set xs \<and> (\<forall>x \<in> set xs. x \<le> m)"
proof (cases xs)
  case (Cons y ys)
  have "iter_max xs = Some m \<longleftrightarrow> Max (set xs) = m" by (simp add: iter_max_def Cons foldl_max)
  also have "\<dots> \<longleftrightarrow> m \<in> set xs \<and> (\<forall>x \<in> set xs. x \<le> m)" by (rule Max_eq_iff) (simp_all add: Cons)
  finally show ?thesis .
qed (simp add: iter_max_def)

lemma iter_max_None: "iter_max xs = None \<longleftrightarrow> xs = []"
  by (simp add: iter_max_def split: list.splits)

fun join_on :: "char \<Rightarrow> string list \<Rightarrow> string" where
  "join_on c [] = []"
| "join_on c [p] = p"
| "join_on c (p # q # ps) = p @ c # join_on c (q # ps)"

lemma split_on_nonempty [simp]: "split_on c xs \<noteq> []"
  by (cases xs) (auto split: list.splits)

lemma join_split: "join_on c (split_on c xs) = xs"
proof (induction xs)
  case (Cons x xs)
  obtain p ps where "split_on c xs = p # ps" by (cases "split_on c xs") auto
  with Cons show ?case by (cases ps) auto
qed simp

lemma split_join:
  "ps \<noteq> [] \<Longrightarrow> list_all (\<lambda>p. c \<notin> set p) ps \<Longrightarrow> split_on c (join_on c ps) = ps"
proof (induction c ps rule: join_on.induct)
  case (2 c p)
  then show ?case by (induction p) auto
next
  case (3 c p q ps)
  have "split_on c (p @ c # r) = p # split_on c r" if "c \<notin> set p" for r
    using that by (induction p) auto
  with 3 show ?case by simp
qed simp

section \<open>Properties\<close>

text \<open>
  A host acknowledgement is accepted against a hello exactly when both name the current
  protocol version, the hello lists it as supported, both sides carry bounded names and
  versions, and the host echoes the client's connection nonce, which must be present, and the
  client's profile binding.
\<close>

theorem handshake_accepted_exactly:
  "hello_ok_validate_against h hello = Ok () \<longleftrightarrow>
     ho_protocol h = PROTOCOL_VERSION \<and> he_protocol hello = PROTOCOL_VERSION \<and>
     PROTOCOL_VERSION \<in> set (he_supported_protocols hello) \<and>
     is_some_and (he_client_metadata hello) (\<lambda>c. is_some_and (ho_host_metadata h) (\<lambda>m.
       is_some (cm_connection_nonce c) \<and> hm_connection_nonce m = cm_connection_nonce c \<and>
       hm_profile_binding_id m = cm_profile_binding_id c \<and>
       is_some_and (cm_client_name c) (\<lambda>x. x \<noteq> [] \<and> length x \<le> 128) \<and>
       is_some_and (cm_client_version c) (\<lambda>x. x \<noteq> [] \<and> length x \<le> 128) \<and>
       is_some_and (hm_host_name m) (\<lambda>x. x \<noteq> [] \<and> length x \<le> 128) \<and>
       is_some_and (hm_host_version m) (\<lambda>x. x \<noteq> [] \<and> length x \<le> 128)))"
proof (cases "he_client_metadata hello"; cases "ho_host_metadata h")
  fix c m
  assume "he_client_metadata hello = Some c" "ho_host_metadata h = Some m"
  then show ?thesis
    by (auto simp: hello_ok_validate_against_def hello_validate_handshake_Ok
        hello_ok_validate_handshake_Ok client_required_Ok host_required_Ok)
qed (simp_all add: hello_ok_validate_against_def hello_validate_handshake_Ok
    hello_ok_validate_handshake_Ok)

text \<open>
  Version negotiation picks the greatest version both peers list, fails exactly when they
  have none in common, and does not depend on which peer is called the client or on the order
  and repetition of the versions listed.
\<close>

theorem negotiation_greatest_common:
  "(negotiate_version client server = Ok v \<longleftrightarrow>
     v \<in> set client \<inter> set server \<and> v = Max (set client \<inter> set server)) \<and>
   ((\<exists>e. negotiate_version client server = Err e) \<longleftrightarrow> set client \<inter> set server = {}) \<and>
   negotiate_version client server = negotiate_version server client"
proof -
  have Ok: "negotiate_version c s = Ok w \<longleftrightarrow> w \<in> set c \<inter> set s \<and> w = Max (set c \<inter> set s)" for c s w
  proof (cases "set c \<inter> set s = {}")
    case False
    then show ?thesis
      using Max_eq_iff [of "set c \<inter> set s" w] by (auto simp: negotiate_version_def iter_max_Some)
  qed (auto simp: negotiate_version_def iter_max_Some)
  have Err: "negotiate_version c s = Inl (core_error_new EC_ProtocolMismatch
      ''client and host have no common protocol version'') \<longleftrightarrow> set c \<inter> set s = {}" for c s
  proof -
    have "negotiate_version c s = Inl (core_error_new EC_ProtocolMismatch
        ''client and host have no common protocol version'')
        \<longleftrightarrow> iter_max (filter (\<lambda>version. version \<in> set s) c) = None"
      by (cases "iter_max (filter (\<lambda>version. version \<in> set s) c)") (simp_all add: negotiate_version_def)
    then show ?thesis by (auto simp: iter_max_None filter_empty_conv)
  qed
  have ErrE: "(\<exists>e. negotiate_version c s = Inl e) \<longleftrightarrow> set c \<inter> set s = {}" for c s
    using Err [of c s] Ok [of c s]
    by (cases "iter_max (filter (\<lambda>version. version \<in> set s) c)") (auto simp: negotiate_version_def)
  have "negotiate_version client server = negotiate_version server client"
  proof (cases "set client \<inter> set server = {}")
    case True
    then show ?thesis using Err [of client server] Err [of server client] by (simp add: Int_commute)
  next
    case False
    then have "Max (set client \<inter> set server) \<in> set client \<inter> set server" by (intro Max_in) auto
    then show ?thesis
      using Ok [of client server "Max (set client \<inter> set server)"]
        Ok [of server client "Max (set client \<inter> set server)"] by (simp add: Int_commute)
  qed
  then show ?thesis using Ok ErrE by blast
qed

text \<open>
  A request method is accepted exactly when it is a dotted sequence of non-empty labels
  over the identifier alphabet, at most 128 bytes in all; splitting it at the dots and joining
  the labels again gives the method back.
\<close>

theorem method_names_are_dotted_labels:
  "(has_valid_method r \<longleftrightarrow> length (re_method r) \<le> 128 \<and>
     (\<exists>labels. labels \<noteq> [] \<and> list_all method_part labels \<and> re_method r = join_on (CHR ''.'') labels)) \<and>
   join_on (CHR ''.'') (split_on (CHR ''.'') (re_method r)) = re_method r"
proof -
  have nodot: "CHR ''.'' \<notin> set p" if "method_part p" for p
    using that by (auto simp: method_part_def list_all_iff id_rest_char_def is_ascii_lowercase_def is_ascii_digit_def)
  have "join_on (CHR ''.'') ps \<noteq> []" if "ps \<noteq> []" "list_all method_part ps" for ps
    using that by (cases ps; cases "tl ps") (auto simp: method_part_def)
  moreover have "split_on (CHR ''.'') (join_on (CHR ''.'') ps) = ps" if "ps \<noteq> []" "list_all method_part ps" for ps
    using that nodot by (intro split_join) (auto simp: list_all_iff)
  moreover have "join_on (CHR ''.'') (split_on (CHR ''.'') m) = m" for m by (rule join_split)
  moreover have "split_on (CHR ''.'') m \<noteq> []" for m by simp
  ultimately show ?thesis
    unfolding has_valid_method_def method_name_ok_def by metis
qed

text \<open>
  The typed form of a cancellation loses nothing: an envelope converts exactly when it
  validates, the typed request then validates too and converts back to the same envelope.
\<close>

theorem cancel_typed_roundtrip:
  "(\<exists>q. cancel_typed c = Ok q \<and> cancel_request_validate q = Ok () \<and> cancel_into_envelope q = c)
     \<longleftrightarrow> cancel_validate c = Ok ()"
  by (cases "ca_reason c")
    (auto simp: cancel_typed_def cancel_validate_def cancel_request_validate_def cancel_reason_new_def
      cancel_into_envelope_def validate_protocol_version_Ok)

end
