(* ===== verification/Wait_Condition.thy ===== *)
theory Wait_Condition
  imports Handshake
begin

text \<open>
  Typed wait conditions, requests and results (\<^verbatim>\<open>crates/agentyc-core/src/protocol.rs\<close>, lines 989
  to 1439). The validator of a condition is a recursive visit that threads a node counter; it is
  shown to decide exactly a depth bound, a node bound and a predicate on the leaves.
\<close>

section \<open>Model\<close>

definition MAX_WAIT_CONDITION_DEPTH :: nat where
  "MAX_WAIT_CONDITION_DEPTH = 8"

definition MAX_WAIT_CONDITION_NODES :: nat where
  "MAX_WAIT_CONDITION_NODES = 32"

definition MAX_WAIT_CONDITION_FIELDS :: nat where
  "MAX_WAIT_CONDITION_FIELDS = 16"

definition MAX_WAIT_CONDITION_TEXT_BYTES :: nat where
  "MAX_WAIT_CONDITION_TEXT_BYTES = 4 * 1024"

definition MAX_WAIT_TIMEOUT_MS :: u64 where
  "MAX_WAIT_TIMEOUT_MS = 24 * 60 * 60 * 1000"

datatype wait_text_matcher =
    WM_Exact string | WM_Contains string | WM_Prefix string | WM_Suffix string

datatype wait_navigation_kind = WN_Url | WN_History | WN_Reload | WN_Any

datatype wait_history_direction = WH_Back | WH_Forward | WH_Any

datatype wait_element_state = WE_Present | WE_Absent | WE_Visible | WE_Hidden

datatype wait_download_state = WD_Started | WD_Completed | WD_Failed

datatype wait_condition =
    WC_EventKind event_kind
  | WC_Event "event_kind option" "(string \<times> string) list"
  | WC_Payload string string
  | WC_GenerationAtLeast generation_watermark
  | WC_Any "wait_condition list"
  | WC_All "wait_condition list"
  | WC_Url wait_text_matcher "wait_navigation_kind option" "generation_watermark option"
  | WC_History wait_history_direction "generation_watermark option"
  | WC_Reload "generation_watermark option"
  | WC_NetworkIdle u64
  | WC_Request "wait_text_matcher option" "string option" "string option"
  | WC_Response "wait_text_matcher option" "string option" "string option" "u16 option"
  | WC_StableDom u64 u64
  | WC_Element "string option" "wait_text_matcher option" wait_element_state "generation_watermark option"
  | WC_Page "opaque_id option" "string option" "generation_watermark option"
  | WC_Download "wait_text_matcher option" wait_download_state

definition wait_bounded :: "string \<Rightarrow> bool" where
  "wait_bounded text \<longleftrightarrow> text \<noteq> [] \<and> length text \<le> MAX_WAIT_CONDITION_TEXT_BYTES"

fun matcher_value :: "wait_text_matcher \<Rightarrow> string" where
  "matcher_value (WM_Exact value) = value"
| "matcher_value (WM_Contains value) = value"
| "matcher_value (WM_Prefix value) = value"
| "matcher_value (WM_Suffix value) = value"

definition validate_matcher :: "wait_text_matcher \<Rightarrow> (core_error, unit) result" where
  "validate_matcher matcher =
     (if wait_bounded (matcher_value matcher) then Ok ()
      else Err (invalid_argument ''wait matcher value must be non-empty and bounded''))"

definition validate_optional_matcher :: "wait_text_matcher option \<Rightarrow> (core_error, unit) result" where
  "validate_optional_matcher m = (case m of Some matcher \<Rightarrow> validate_matcher matcher | None \<Rightarrow> Ok ())"

definition validate_optional_text :: "string option \<Rightarrow> (core_error, unit) result" where
  "validate_optional_text value =
     (if is_none_or value wait_bounded then Ok ()
      else Err (invalid_argument ''wait condition text must be non-empty and bounded''))"

text \<open>The branches of the visit that do not recurse.\<close>

fun validate_leaf :: "wait_condition \<Rightarrow> (core_error, unit) result" where
  "validate_leaf (WC_Event event payload) =
     (if length payload > MAX_WAIT_CONDITION_FIELDS
         \<or> list_ex (\<lambda>(key, value). \<not> wait_bounded key \<or> \<not> wait_bounded value) payload then
        Err (invalid_argument ''wait event payload keys and values must be non-empty and bounded'')
      else Ok ())"
| "validate_leaf (WC_Payload key value) =
     (if \<not> wait_bounded key \<or> \<not> wait_bounded value then
        Err (invalid_argument ''wait payload key and value must be non-empty and bounded'')
      else Ok ())"
| "validate_leaf (WC_Url matcher navigation generation) = validate_matcher matcher"
| "validate_leaf (WC_NetworkIdle quiet_ms) =
     (if quiet_ms > MAX_WAIT_TIMEOUT_MS then
        Err (core_error_new EC_MessageTooLarge
               ''network-idle quiet interval exceeds the wait timeout bound'')
      else Ok ())"
| "validate_leaf (WC_Request url method resource_type) =
     and_then (validate_optional_matcher url) (\<lambda>_.
     and_then (validate_optional_text method) (\<lambda>_. validate_optional_text resource_type))"
| "validate_leaf (WC_Response url method resource_type status) =
     and_then (validate_optional_matcher url) (\<lambda>_.
     and_then (validate_optional_text method) (\<lambda>_. validate_optional_text resource_type))"
| "validate_leaf (WC_StableDom quiet_ms geometry_quiet_ms) =
     (if quiet_ms > MAX_WAIT_TIMEOUT_MS \<or> geometry_quiet_ms > MAX_WAIT_TIMEOUT_MS then
        Err (core_error_new EC_MessageTooLarge
               ''stable-DOM quiet interval exceeds the wait timeout bound'')
      else Ok ())"
| "validate_leaf (WC_Element selector text state generation) =
     and_then (validate_optional_text selector) (\<lambda>_. validate_optional_matcher text)"
| "validate_leaf (WC_Page page_id lifecycle generation) = validate_optional_text lifecycle"
| "validate_leaf (WC_Download name state) = validate_optional_matcher name"
| "validate_leaf _ = Ok ()"

definition wait_bound_error :: core_error where
  "wait_bound_error =
     core_error_new EC_MessageTooLarge ''wait condition exceeds its depth or node bound''"

text \<open>\<open>visit condition depth nodes\<close> returns the new value of the node counter and the result.\<close>

fun wait_visit :: "wait_condition \<Rightarrow> nat \<Rightarrow> nat \<Rightarrow> nat \<times> (core_error, unit) result"
  and wait_visit_all :: "wait_condition list \<Rightarrow> nat \<Rightarrow> nat \<Rightarrow> nat \<times> (core_error, unit) result" where
  "wait_visit condition depth nodes =
     (let nodes = nodes + 1 in
      if depth > MAX_WAIT_CONDITION_DEPTH \<or> nodes > MAX_WAIT_CONDITION_NODES then
        (nodes, Err wait_bound_error)
      else case condition of
        WC_Any conditions \<Rightarrow> wait_visit_all conditions (depth + 1) nodes
      | WC_All conditions \<Rightarrow> wait_visit_all conditions (depth + 1) nodes
      | _ \<Rightarrow> (nodes, validate_leaf condition))"
| "wait_visit_all [] depth nodes = (nodes, Ok ())"
| "wait_visit_all (child # children) depth nodes =
     (case wait_visit child depth nodes of
       (nodes, Inl e) \<Rightarrow> (nodes, Err e)
     | (nodes, Inr _) \<Rightarrow> wait_visit_all children depth nodes)"

definition wait_condition_validate :: "wait_condition \<Rightarrow> (core_error, unit) result" where
  "wait_condition_validate c = snd (wait_visit c 0 0)"

record wait_request =
  wq_protocol :: u16
  wq_request_id :: opaque_id
  wq_condition :: wait_condition
  wq_timeout_ms :: u64
  wq_scope :: "event_scope option"
  wq_resume_from :: "resume_watermark option"

definition wait_request_validate :: "wait_request \<Rightarrow> (core_error, unit) result" where
  "wait_request_validate q =
     and_then (validate_protocol_version (wq_protocol q)) (\<lambda>_.
     and_then (wait_condition_validate (wq_condition q)) (\<lambda>_.
     if wq_timeout_ms q > MAX_WAIT_TIMEOUT_MS then
       Err (core_error_new EC_MessageTooLarge
         (''wait timeout exceeds '' @ show_nat (unat MAX_WAIT_TIMEOUT_MS) @ '' milliseconds''))
     else case wq_scope q of Some scope \<Rightarrow> scope_validate scope | None \<Rightarrow> Ok ()))"

datatype wait_status = WS_Pending | WS_Matched | WS_TimedOut | WS_Cancelled | WS_ResyncRequired

record 'p wait_result =
  wr_protocol :: u16
  wr_request_id :: opaque_id
  wr_status :: wait_status
  wr_event :: "'p event_record option"
  wr_resume :: "resume_watermark option"
  wr_error :: "core_error option"

definition wait_result_validate :: "'p wait_result \<Rightarrow> (core_error, unit) result" where
  "wait_result_validate w =
     and_then (validate_protocol_version (wr_protocol w)) (\<lambda>_.
     if wr_status w \<in> {WS_Pending, WS_Matched} then
       (if wr_status w = WS_Pending \<and> is_some (wr_event w) then
          Err (invalid_argument ''pending wait result cannot contain a matching event'')
        else if wr_status w = WS_Matched \<and> wr_event w = None then
          Err (invalid_argument ''matched wait result must contain an event'')
        else and_then (case wr_event w of Some event \<Rightarrow> event_validate_scope event | None \<Rightarrow> Ok ()) (\<lambda>_.
          if is_some (wr_error w) then
            Err (invalid_argument ''successful wait result cannot contain an error'')
          else Ok ()))
     else if wr_status w = WS_TimedOut then
       (if is_some (wr_event w) \<or> map_option ce_code (wr_error w) \<noteq> Some EC_Timeout then
          Err (invalid_argument ''timed-out wait result must contain only a timeout error'')
        else Ok ())
     else if wr_status w = WS_Cancelled then
       (if is_some (wr_event w) \<or> map_option ce_code (wr_error w) \<noteq> Some EC_Cancelled then
          Err (invalid_argument ''cancelled wait result must contain only a cancelled error'')
        else Ok ())
     else
       (if is_some (wr_event w) \<or> map_option ce_code (wr_error w) \<noteq> Some EC_EventLagged then
          Err (invalid_argument ''resync wait result must contain an event-lagged error'')
        else Ok ()))"

section \<open>What the visit decides\<close>

fun wc_nodes :: "wait_condition \<Rightarrow> nat" where
  "wc_nodes (WC_Any cs) = Suc (sum_list (map wc_nodes cs))"
| "wc_nodes (WC_All cs) = Suc (sum_list (map wc_nodes cs))"
| "wc_nodes _ = 1"

fun wc_leaves_ok :: "wait_condition \<Rightarrow> bool" where
  "wc_leaves_ok (WC_Any cs) \<longleftrightarrow> (\<forall>c \<in> set cs. wc_leaves_ok c)"
| "wc_leaves_ok (WC_All cs) \<longleftrightarrow> (\<forall>c \<in> set cs. wc_leaves_ok c)"
| "wc_leaves_ok c \<longleftrightarrow> validate_leaf c = Inr ()"

text \<open>\<open>depth_within k c\<close>: no nesting below \<open>c\<close> is deeper than \<open>k\<close>.\<close>

fun depth_within :: "nat \<Rightarrow> wait_condition \<Rightarrow> bool" where
  "depth_within k (WC_Any cs) \<longleftrightarrow> cs = [] \<or> 0 < k \<and> (\<forall>c \<in> set cs. depth_within (k - 1) c)"
| "depth_within k (WC_All cs) \<longleftrightarrow> cs = [] \<or> 0 < k \<and> (\<forall>c \<in> set cs. depth_within (k - 1) c)"
| "depth_within k _ \<longleftrightarrow> True"

lemma wc_nodes_pos: "0 < wc_nodes c"
  by (cases c) auto

lemma visit_count:
  "snd (wait_visit c d n) = Inr () \<Longrightarrow> fst (wait_visit c d n) = n + wc_nodes c"
  "snd (wait_visit_all cs d n) = Inr () \<Longrightarrow> fst (wait_visit_all cs d n) = n + sum_list (map wc_nodes cs)"
proof (induction c d n and cs d n rule: wait_visit_wait_visit_all.induct)
  case (1 c d n)
  then show ?case
    by (cases c) (auto simp: Let_def split: if_splits)
next
  case (3 c cs d n)
  then show ?case by (auto split: prod.splits sum.splits)
qed simp

lemma visit_decides:
  "snd (wait_visit c d n) = Inr () \<longleftrightarrow>
     d \<le> MAX_WAIT_CONDITION_DEPTH \<and> depth_within (MAX_WAIT_CONDITION_DEPTH - d) c \<and>
     n + wc_nodes c \<le> MAX_WAIT_CONDITION_NODES \<and> wc_leaves_ok c"
  "snd (wait_visit_all cs d n) = Inr () \<longleftrightarrow>
     (\<forall>c \<in> set cs. d \<le> MAX_WAIT_CONDITION_DEPTH \<and> depth_within (MAX_WAIT_CONDITION_DEPTH - d) c
        \<and> wc_leaves_ok c) \<and>
     (cs = [] \<or> n + sum_list (map wc_nodes cs) \<le> MAX_WAIT_CONDITION_NODES)"
proof (induction c d n and cs d n rule: wait_visit_wait_visit_all.induct)
  case (1 c d n)
  show ?case
  proof (cases "d \<le> MAX_WAIT_CONDITION_DEPTH \<and> Suc n \<le> MAX_WAIT_CONDITION_NODES")
    case True
    have rec: "snd (wait_visit_all cs (d + 1) (n + 1)) = Inr () \<longleftrightarrow>
        (cs = [] \<or> 0 < MAX_WAIT_CONDITION_DEPTH - d
           \<and> (\<forall>c \<in> set cs. depth_within (MAX_WAIT_CONDITION_DEPTH - d - 1) c)) \<and>
        Suc (n + sum_list (map wc_nodes cs)) \<le> MAX_WAIT_CONDITION_NODES \<and> (\<forall>c \<in> set cs. wc_leaves_ok c)"
      if "c = WC_Any cs \<or> c = WC_All cs" for cs
    proof -
      have "snd (wait_visit_all cs (d + 1) (n + 1)) = Inr () \<longleftrightarrow>
          (\<forall>c \<in> set cs. d + 1 \<le> MAX_WAIT_CONDITION_DEPTH
            \<and> depth_within (MAX_WAIT_CONDITION_DEPTH - (d + 1)) c \<and> wc_leaves_ok c) \<and>
          (cs = [] \<or> n + 1 + sum_list (map wc_nodes cs) \<le> MAX_WAIT_CONDITION_NODES)"
        using that 1 [OF refl] True by (elim disjE) (auto simp: not_less)
      with True show ?thesis by (cases cs) auto
    qed
    show ?thesis
    proof (cases c)
      case (WC_Any cs)
      with True rec [of cs] show ?thesis by (simp add: Let_def not_less)
    next
      case (WC_All cs)
      with True rec [of cs] show ?thesis by (simp add: Let_def not_less)
    qed (use True in \<open>simp_all add: Let_def not_less\<close>)
  next
    case False
    then show ?thesis using wc_nodes_pos [of c] by (auto simp: Let_def)
  qed
next
  case (3 c cs d n)
  show ?case
  proof (cases "wait_visit c d n")
    case (Pair m r)
    show ?thesis
    proof (cases r)
      case (Inl e)
      have "sum_list (map wc_nodes (c # cs)) \<ge> wc_nodes c" by simp
      with 3(1) Pair Inl show ?thesis by auto
    next
      case (Inr u)
      then have m: "m = n + wc_nodes c" using visit_count(1) [of c d n] Pair by simp
      have ih: "snd (wait_visit_all cs d m) = Inr () \<longleftrightarrow>
          (\<forall>c \<in> set cs. d \<le> MAX_WAIT_CONDITION_DEPTH \<and> depth_within (MAX_WAIT_CONDITION_DEPTH - d) c
            \<and> wc_leaves_ok c) \<and> (cs = [] \<or> m + sum_list (map wc_nodes cs) \<le> MAX_WAIT_CONDITION_NODES)"
        using 3(2) Pair Inr by simp
      have "wait_visit_all (c # cs) d n = wait_visit_all cs d m"
        using Pair Inr by (simp del: wait_visit.simps)
      with ih 3(1) Pair Inr m show ?thesis by (cases cs) (auto simp del: wait_visit.simps)
    qed
  qed
qed simp

section \<open>Properties\<close>

text \<open>
  A wait condition is accepted exactly when its nesting is at most eight deep, it has at
  most 32 nodes in all, and each leaf satisfies its own bounds; the counter that the recursive
  visit threads through the tree counts every node once, whatever the shape.
\<close>

theorem wait_condition_bounds_exact:
  "(wait_condition_validate c = Ok () \<longleftrightarrow> depth_within 8 c \<and> wc_nodes c \<le> 32 \<and> wc_leaves_ok c) \<and>
   (if wait_condition_validate c = Ok () then fst (wait_visit c 0 0) = wc_nodes c
    else \<exists>e. wait_condition_validate c = Err e)"
  using visit_decides(1) [of c 0 0] visit_count(1) [of c 0 0]
  by (cases "snd (wait_visit c 0 0)")
    (auto simp: wait_condition_validate_def MAX_WAIT_CONDITION_DEPTH_def MAX_WAIT_CONDITION_NODES_def
      simp del: wait_visit.simps)

end
