(* ===== verification/Event_Router.thy ===== *)
theory Event_Router
  imports Handshake
begin

text \<open>
  The bounded, scope-aware event router (\<^verbatim>\<open>crates/agentyc-host/src/event_router.rs\<close> and
  \<^verbatim>\<open>events.rs\<close> of the host): a consumer-side replay buffer over the broker's sequence that
  coalesces bursts, drops the oldest events and reports every gap as a resynchronisation. The
  two deques of the router are two lists of the same length.
\<close>

section \<open>Model\<close>

record event_query =
  eq_after :: event_cursor
  eq_scope :: "event_scope option"

record 'p event_batch =
  eb_broker_epoch :: broker_epoch
  eb_result :: resume_result
  eb_events :: "'p event_record list"
  eb_cursor :: event_cursor

record router_limits =
  rl_max_events :: nat
  rl_coalesce_dirty_events :: bool

definition router_limits_new :: "nat \<Rightarrow> router_limits" where
  "router_limits_new max_events = \<lparr>rl_max_events = max_events, rl_coalesce_dirty_events = True\<rparr>"

definition router_limits_default :: router_limits where
  "router_limits_default = \<lparr>rl_max_events = 256, rl_coalesce_dirty_events = True\<rparr>"

record router_watermark =
  wm_broker_epoch :: broker_epoch
  wm_sequence :: event_sequence
  wm_oldest_sequence :: "event_sequence option"
  wm_resync_required :: bool

datatype router_resync_reason =
    RX_BrokerEpochChanged | RX_SequenceGap | RX_RetainedHistoryLagged | RX_MissingAttribution
  | RX_InvalidEvent | RX_SequenceOverflow | RX_InvalidBatchCursor | RX_BrokerResync | RX_Explicit

datatype router_ingest =
    RI_Accepted event_cursor
  | RI_ResyncRequired event_cursor router_resync_reason

record 'p event_router =
  rt_broker_epoch :: broker_epoch
  rt_sequence :: event_sequence
  rt_events :: "'p event_record list"
  rt_retained_starts :: "event_sequence list"
  rt_seen_event_ids :: "opaque_id set"
  rt_seen_event_order :: "opaque_id list"
  rt_limits :: router_limits
  rt_resync_required :: bool
  rt_resync_reason :: "router_resync_reason option"

definition router_new_at :: "event_cursor \<Rightarrow> router_limits \<Rightarrow> 'p event_router" where
  "router_new_at cursor limits =
     \<lparr>rt_broker_epoch = cu_broker_epoch cursor, rt_sequence = cu_sequence cursor, rt_events = [],
      rt_retained_starts = [], rt_seen_event_ids = {}, rt_seen_event_order = [],
      rt_limits = limits, rt_resync_required = False, rt_resync_reason = None\<rparr>"

definition router_new :: "broker_epoch \<Rightarrow> router_limits \<Rightarrow> 'p event_router" where
  "router_new broker_epoch limits =
     \<lparr>rt_broker_epoch = broker_epoch, rt_sequence = 0, rt_events = [],
      rt_retained_starts = [], rt_seen_event_ids = {}, rt_seen_event_order = [],
      rt_limits = limits, rt_resync_required = False, rt_resync_reason = None\<rparr>"

definition router_cursor :: "'p event_router \<Rightarrow> event_cursor" where
  "router_cursor r = \<lparr>cu_broker_epoch = rt_broker_epoch r, cu_sequence = rt_sequence r\<rparr>"

definition router_watermark_of :: "'p event_router \<Rightarrow> router_watermark" where
  "router_watermark_of r =
     \<lparr>wm_broker_epoch = rt_broker_epoch r, wm_sequence = rt_sequence r,
      wm_oldest_sequence = (case rt_retained_starts r of [] \<Rightarrow> None | s # _ \<Rightarrow> Some s),
      wm_resync_required = rt_resync_required r\<rparr>"

definition current_resync_reason :: "'p event_router \<Rightarrow> router_resync_reason" where
  "current_resync_reason r = (case rt_resync_reason r of Some reason \<Rightarrow> reason | None \<Rightarrow> RX_BrokerResync)"

definition require_resync ::
  "'p event_router \<Rightarrow> router_resync_reason \<Rightarrow> 'p event_router \<times> router_ingest" where
  "require_resync r reason =
     (let r' = r\<lparr>rt_resync_required := True,
                 rt_resync_reason := (case rt_resync_reason r of Some old \<Rightarrow> Some old | None \<Rightarrow> Some reason)\<rparr>
      in (r', RI_ResyncRequired (router_cursor r') (current_resync_reason r')))"

text \<open>The loop of \<^verbatim>\<open>remember_event_id\<close>: forget the oldest ids beyond the limit.\<close>

fun expire_seen :: "nat \<Rightarrow> opaque_id list \<Rightarrow> opaque_id set \<Rightarrow> opaque_id list \<times> opaque_id set" where
  "expire_seen limit (expired # order) ids =
     (if length (expired # order) > limit then expire_seen limit order (ids - {expired})
      else (expired # order, ids))"
| "expire_seen limit [] ids = ([], ids)"

definition remember_event_id :: "'p event_router \<Rightarrow> opaque_id \<Rightarrow> 'p event_router" where
  "remember_event_id r event_id =
     (if event_id \<in> rt_seen_event_ids r then r
      else
        (let (order, ids) = expire_seen (max (rl_max_events (rt_limits r)) 1)
               (rt_seen_event_order r @ [event_id]) (insert event_id (rt_seen_event_ids r))
         in r\<lparr>rt_seen_event_order := order, rt_seen_event_ids := ids\<rparr>))"

definition is_coalescible :: "event_kind \<Rightarrow> bool" where
  "is_coalescible kind \<longleftrightarrow> kind \<in> {EK_PageChanged, EK_SnapshotChanged}"

definition same_attribution :: "'p event_record \<Rightarrow> 'p event_record \<Rightarrow> bool" where
  "same_attribution left right \<longleftrightarrow> event_attribution_of left = event_attribution_of right"

definition coalesced_count :: "'p event_record \<Rightarrow> u16 option" where
  "coalesced_count event = Option.bind (event_metadata_of event) em_coalesced_count"

definition can_coalesce :: "'p event_record \<Rightarrow> 'p event_record \<Rightarrow> bool" where
  "can_coalesce previous event \<longleftrightarrow>
     is_coalescible (ev_event previous) \<and> ev_event previous = ev_event event
     \<and> ev_scope previous = ev_scope event \<and> same_attribution previous event"

definition saturating_add16 :: "u16 \<Rightarrow> u16 \<Rightarrow> u16" where
  "saturating_add16 a b = (if unat a + unat b < 2 ^ 16 then a + b else 65535)"

text \<open>The replacement of the previous event by the one that coalesces with it.\<close>

definition merge_event :: "'p event_record \<Rightarrow> 'p event_record \<Rightarrow> 'p event_record" where
  "merge_event previous event =
     (let previous_count = (case coalesced_count previous of Some c \<Rightarrow> c | None \<Rightarrow> 1);
          incoming_count = (case coalesced_count event of Some c \<Rightarrow> c | None \<Rightarrow> 1);
          merged_count = min (saturating_add16 previous_count incoming_count) MAX_COALESCED_COUNT
      in event\<lparr>ev_coalesced := True \<or> ev_coalesced previous,
           ev_dirty_reason := (case ev_dirty_reason event of Some d \<Rightarrow> Some d | None \<Rightarrow> ev_dirty_reason previous),
           ev_generation := (ev_generation event)\<lparr>gw_metadata :=
             map_option (\<lambda>m. m\<lparr>em_coalesced_count := Some (max merged_count 2)\<rparr>)
               (gw_metadata (ev_generation event))\<rparr>\<rparr>)"

text \<open>Eviction: drop from the front of both deques while there are too many events.\<close>

fun evict :: "nat \<Rightarrow> 'a list \<Rightarrow> 'b list \<Rightarrow> 'a list \<times> 'b list" where
  "evict limit (e # events) starts =
     (if length (e # events) > limit then evict limit events (tl starts) else (e # events, starts))"
| "evict limit [] starts = ([], starts)"

text \<open>The part of \<^verbatim>\<open>ingest\<close> after all checks have passed.\<close>

definition admit_event :: "'p event_router \<Rightarrow> 'p event_record \<Rightarrow> 'p event_router \<times> router_ingest" where
  "admit_event r event =
     (let r = r\<lparr>rt_sequence := ev_sequence event\<rparr>;
          r = (if ev_resync_required event
               then r\<lparr>rt_resync_required := True, rt_resync_reason := Some RX_BrokerResync\<rparr> else r);
          r = remember_event_id r (ev_event_id event) in
      if rl_coalesce_dirty_events (rt_limits r) \<and> is_coalescible (ev_event event)
         \<and> rt_events r \<noteq> [] \<and> can_coalesce (last (rt_events r)) event then
        (r\<lparr>rt_events := butlast (rt_events r) @ [merge_event (last (rt_events r)) event]\<rparr>,
         RI_Accepted (router_cursor r))
      else if rl_max_events (rt_limits r) = 0 then require_resync r RX_RetainedHistoryLagged
      else
        (let (events, starts) = evict (rl_max_events (rt_limits r)) (rt_events r @ [event])
               (rt_retained_starts r @ [ev_sequence event])
         in (r\<lparr>rt_events := events, rt_retained_starts := starts\<rparr>, RI_Accepted (router_cursor r))))"

definition invalid_event_reason :: "'p event_record \<Rightarrow> router_resync_reason" where
  "invalid_event_reason event =
     (if event_requires_attribution event \<and> event_metadata_of event = None
      then RX_MissingAttribution else RX_InvalidEvent)"

definition ingest :: "'p event_router \<Rightarrow> 'p event_record \<Rightarrow> 'p event_router \<times> router_ingest" where
  "ingest r event =
     (if ev_broker_epoch event \<noteq> rt_broker_epoch r then require_resync r RX_BrokerEpochChanged
      else if ev_event_id event \<in> rt_seen_event_ids r then (r, RI_Accepted (router_cursor r))
      else if rt_resync_required r then require_resync r (current_resync_reason r)
      else if isl (validate_routing event) then require_resync r (invalid_event_reason event)
      else case checked_next (rt_sequence r) of
        None \<Rightarrow> require_resync r RX_SequenceOverflow
      | Some expected \<Rightarrow>
          if ev_sequence event \<noteq> expected then require_resync r RX_SequenceGap
          else admit_event r event)"

text \<open>
  The first loop of \<^verbatim>\<open>ingest_batch\<close>: it only reads, and gives the reason for which the batch
  must be refused, if there is one.
\<close>

fun check_batch ::
  "'p event_router \<Rightarrow> event_sequence \<Rightarrow> 'p event_record list \<Rightarrow> event_sequence \<Rightarrow> event_sequence option
   \<Rightarrow> router_resync_reason option" where
  "check_batch r cursor_sequence [] virtual_sequence previous = None"
| "check_batch r cursor_sequence (event # events) virtual_sequence previous =
     (if ev_broker_epoch event \<noteq> rt_broker_epoch r \<or> ev_sequence event = 0
         \<or> ev_sequence event > cursor_sequence then Some RX_InvalidBatchCursor
      else if ev_event_id event \<in> rt_seen_event_ids r then
        check_batch r cursor_sequence events virtual_sequence previous
      else if rt_resync_required r then Some (current_resync_reason r)
      else if is_some_and previous (\<lambda>p. ev_sequence event \<le> p) then Some RX_InvalidBatchCursor
      else if isl (validate_routing event) then Some (invalid_event_reason event)
      else if ev_sequence event \<le> virtual_sequence then Some RX_InvalidBatchCursor
      else if checked_next virtual_sequence = None then Some RX_SequenceOverflow
      else check_batch r cursor_sequence events (ev_sequence event) (Some (ev_sequence event)))"

text \<open>The second loop: it ingests, and stops at the first resynchronisation.\<close>

fun ingest_loop ::
  "'p event_router \<Rightarrow> 'p event_record list \<Rightarrow> 'p event_router \<times> router_ingest option" where
  "ingest_loop r [] = (r, None)"
| "ingest_loop r (event # events) =
     (if ev_broker_epoch event = rt_broker_epoch r \<and> ev_event_id event \<in> rt_seen_event_ids r then
        ingest_loop (fst (ingest r event)) events
      else case checked_next (rt_sequence r) of
        None \<Rightarrow> (let (r', outcome) = require_resync r RX_SequenceOverflow in (r', Some outcome))
      | Some expected \<Rightarrow>
          (let r = (if ev_sequence event > expected
                    then r\<lparr>rt_sequence := ev_sequence event - 1\<rparr> else r) in
           case ingest r event of
             (r', RI_ResyncRequired c reason) \<Rightarrow> (r', Some (RI_ResyncRequired c reason))
           | (r', RI_Accepted c) \<Rightarrow> ingest_loop r' events))"

definition ingest_batch :: "'p event_router \<Rightarrow> 'p event_batch \<Rightarrow> 'p event_router \<times> router_ingest" where
  "ingest_batch r batch =
     (if eb_broker_epoch batch \<noteq> rt_broker_epoch r
         \<or> cu_broker_epoch (eb_cursor batch) \<noteq> rt_broker_epoch r then
        require_resync r RX_BrokerEpochChanged
      else if cu_sequence (eb_cursor batch) < rt_sequence r then require_resync r RX_InvalidBatchCursor
      else if eb_result batch = RU_ResyncRequired then require_resync r RX_BrokerResync
      else case check_batch r (cu_sequence (eb_cursor batch)) (eb_events batch) (rt_sequence r) None of
        Some reason \<Rightarrow> require_resync r reason
      | None \<Rightarrow>
          (case ingest_loop r (eb_events batch) of
            (r', Some outcome) \<Rightarrow> (r', outcome)
          | (r', None) \<Rightarrow>
              (let r' = (if \<not> rt_resync_required r' \<and> cu_sequence (eb_cursor batch) > rt_sequence r'
                         then r'\<lparr>rt_sequence := cu_sequence (eb_cursor batch)\<rparr> else r')
               in (r', RI_Accepted (router_cursor r')))))"

definition router_scope_matches :: "'p event_record \<Rightarrow> event_scope \<Rightarrow> bool" where
  "router_scope_matches event requested =
     (if ev_resync_required event \<and> sc_space_id (ev_scope event) = None
         \<and> sc_page_id (ev_scope event) = None then True
      else if is_some (sc_page_id requested)
         \<and> (sc_space_id requested = None \<or> sc_page_id (ev_scope event) = None) then False
      else if is_some (sc_space_id requested) \<and> sc_space_id (ev_scope event) = None then False
      else if is_some (sc_page_id (ev_scope event)) \<and> sc_space_id (ev_scope event) = None then False
      else scope_matches (ev_scope event) requested)"

definition replay :: "'p event_router \<Rightarrow> event_cursor \<Rightarrow> event_scope option \<Rightarrow> 'p event_batch" where
  "replay r after scope =
     (if rt_resync_required r \<or> cu_broker_epoch after \<noteq> rt_broker_epoch r
         \<or> cu_sequence after > rt_sequence r
         \<or> (case rt_retained_starts r of
              [] \<Rightarrow> False
            | start # _ \<Rightarrow> is_some_and (checked_next (cu_sequence after)) (\<lambda>next. next < start)) then
        \<lparr>eb_broker_epoch = rt_broker_epoch r, eb_result = RU_ResyncRequired, eb_events = [],
         eb_cursor = router_cursor r\<rparr>
      else
        \<lparr>eb_broker_epoch = rt_broker_epoch r, eb_result = RU_Accepted,
         eb_events = filter (\<lambda>event. is_none_or scope (router_scope_matches event))
           (filter (\<lambda>event. ev_sequence event > cu_sequence after) (rt_events r)),
         eb_cursor = router_cursor r\<rparr>)"

definition router_resume :: "'p event_router \<Rightarrow> event_query \<Rightarrow> 'p event_batch" where
  "router_resume r query = replay r (eq_after query) (eq_scope query)"

definition request_resync :: "'p event_router \<Rightarrow> 'p event_router" where
  "request_resync r = r\<lparr>rt_resync_required := True, rt_resync_reason := Some RX_Explicit\<rparr>"

definition router_reset :: "'p event_router \<Rightarrow> event_cursor \<Rightarrow> 'p event_router" where
  "router_reset r cursor =
     r\<lparr>rt_broker_epoch := cu_broker_epoch cursor, rt_sequence := cu_sequence cursor, rt_events := [],
       rt_retained_starts := [], rt_seen_event_ids := {}, rt_seen_event_order := [],
       rt_resync_required := False, rt_resync_reason := None\<rparr>"

definition generation_at_least :: "generation_watermark \<Rightarrow> generation_watermark \<Rightarrow> bool" where
  "generation_at_least actual target \<longleftrightarrow>
     gw_space_generation actual \<ge> gw_space_generation target
     \<and> gw_page_generation actual \<ge> gw_page_generation target
     \<and> gw_navigation_generation actual \<ge> gw_navigation_generation target
     \<and> gw_document_generation actual \<ge> gw_document_generation target
     \<and> (case (gw_snapshot_version actual, gw_snapshot_version target) of
          (_, None) \<Rightarrow> True
        | (Some a, Some t) \<Rightarrow> a \<ge> t
        | (None, Some _) \<Rightarrow> False)"

section \<open>Bounded deques\<close>

lemma evict_drop:
  "length starts = length events \<Longrightarrow>
   evict n events starts = (drop (length events - n) events, drop (length events - n) starts)"
proof (induction n events starts rule: evict.induct)
  case (1 n e events starts)
  then show ?case by (cases starts) (auto simp: Suc_diff_le not_less)
qed simp

lemma expire_seen_drop:
  "distinct order \<Longrightarrow> ids = set order \<Longrightarrow>
   expire_seen n order ids = (drop (length order - n) order, set (drop (length order - n) order))"
proof (induction n order ids rule: expire_seen.induct)
  case (1 n x order ids)
  then show ?case by (auto simp: Suc_diff_le not_less)
qed simp

section \<open>Invariant\<close>

text \<open>
  Each retained event stands for a span of source sequences, from its retained start to its own
  sequence. The spans are disjoint and increasing.
\<close>

definition router_spans :: "'p event_router \<Rightarrow> (event_sequence \<times> 'p event_record) list" where
  "router_spans r = zip (rt_retained_starts r) (rt_events r)"

definition spans_ok :: "(event_sequence \<times> 'p event_record) list \<Rightarrow> bool" where
  "spans_ok ss \<longleftrightarrow>
     (\<forall>(s, e) \<in> set ss. s \<le> ev_sequence e) \<and> sorted_wrt (\<lambda>(s, e) (s', e'). ev_sequence e < s') ss"

definition router_inv :: "'p event_router \<Rightarrow> bool" where
  "router_inv r \<longleftrightarrow>
     length (rt_retained_starts r) = length (rt_events r)
     \<and> length (rt_events r) \<le> rl_max_events (rt_limits r)
     \<and> spans_ok (router_spans r)
     \<and> (\<forall>e \<in> set (rt_events r). ev_sequence e \<le> rt_sequence r \<and> ev_broker_epoch e = rt_broker_epoch r
          \<and> (rt_resync_required r \<or> \<not> ev_resync_required e))
     \<and> rt_seen_event_ids r = set (rt_seen_event_order r) \<and> distinct (rt_seen_event_order r)
     \<and> length (rt_seen_event_order r) \<le> max (rl_max_events (rt_limits r)) 1"

text \<open>The events that \<^verbatim>\<open>ingest\<close> takes into its stream.\<close>

definition takes :: "'p event_router \<Rightarrow> 'p event_record \<Rightarrow> bool" where
  "takes r e \<longleftrightarrow>
     ev_broker_epoch e = rt_broker_epoch r \<and> ev_event_id e \<notin> rt_seen_event_ids r
     \<and> \<not> rt_resync_required r \<and> validate_routing e = Inr ()
     \<and> checked_next (rt_sequence r) = Some (ev_sequence e)"

lemma ingest_takes: "takes r e \<Longrightarrow> ingest r e = admit_event r e"
  by (simp add: ingest_def takes_def)

lemma fst_require_resync:
  "\<exists>x. fst (require_resync r reason) = r\<lparr>rt_resync_required := True, rt_resync_reason := x\<rparr>"
  by (auto simp: require_resync_def Let_def)

lemma ingest_refuses:
  assumes "\<not> takes r e"
  shows "fst (ingest r e) = r \<or>
    (\<exists>x. fst (ingest r e) = r\<lparr>rt_resync_required := True, rt_resync_reason := x\<rparr>)"
proof (cases "validate_routing e")
  case (Inr u)
  then show ?thesis
    using assms fst_require_resync [of r]
    by (auto simp: ingest_def takes_def split: option.splits)
next
  case (Inl err)
  then show ?thesis using fst_require_resync [of r] by (auto simp: ingest_def)
qed

text \<open>The state in which \<^verbatim>\<open>ingest\<close> stores an event that it takes.\<close>

definition noted :: "'p event_router \<Rightarrow> 'p event_record \<Rightarrow> 'p event_router" where
  "noted r e =
     remember_event_id
       (let r = r\<lparr>rt_sequence := ev_sequence e\<rparr> in
        if ev_resync_required e
        then r\<lparr>rt_resync_required := True, rt_resync_reason := Some RX_BrokerResync\<rparr> else r)
       (ev_event_id e)"

lemma remember_sel [simp]:
  "rt_broker_epoch (remember_event_id r i) = rt_broker_epoch r"
  "rt_sequence (remember_event_id r i) = rt_sequence r"
  "rt_events (remember_event_id r i) = rt_events r"
  "rt_retained_starts (remember_event_id r i) = rt_retained_starts r"
  "rt_limits (remember_event_id r i) = rt_limits r"
  "rt_resync_required (remember_event_id r i) = rt_resync_required r"
  "rt_resync_reason (remember_event_id r i) = rt_resync_reason r"
  by (simp_all add: remember_event_id_def split: prod.splits)

lemma noted_sel [simp]:
  "rt_broker_epoch (noted r e) = rt_broker_epoch r"
  "rt_sequence (noted r e) = ev_sequence e"
  "rt_events (noted r e) = rt_events r"
  "rt_retained_starts (noted r e) = rt_retained_starts r"
  "rt_limits (noted r e) = rt_limits r"
  "rt_resync_required (noted r e) \<longleftrightarrow> rt_resync_required r \<or> ev_resync_required e"
  by (simp_all add: noted_def Let_def)

lemma admit_event_noted:
  "admit_event r e =
     (if rl_coalesce_dirty_events (rt_limits r) \<and> is_coalescible (ev_event e)
         \<and> rt_events r \<noteq> [] \<and> can_coalesce (last (rt_events r)) e then
        ((noted r e)\<lparr>rt_events := butlast (rt_events r) @ [merge_event (last (rt_events r)) e]\<rparr>,
         RI_Accepted (router_cursor (noted r e)))
      else if rl_max_events (rt_limits r) = 0 then require_resync (noted r e) RX_RetainedHistoryLagged
      else
        (let (events, starts) = evict (rl_max_events (rt_limits r)) (rt_events r @ [e])
               (rt_retained_starts r @ [ev_sequence e])
         in ((noted r e)\<lparr>rt_events := events, rt_retained_starts := starts\<rparr>,
             RI_Accepted (router_cursor (noted r e)))))"
  unfolding admit_event_def Let_def noted_def [unfolded Let_def, symmetric] by simp

lemma noted_seen:
  assumes "router_inv r"
  shows "rt_seen_event_ids (noted r e) = set (rt_seen_event_order (noted r e))
    \<and> distinct (rt_seen_event_order (noted r e))
    \<and> length (rt_seen_event_order (noted r e)) \<le> max (rl_max_events (rt_limits r)) 1"
proof -
  let ?o = "rt_seen_event_order r @ [ev_event_id e]"
  have inv: "rt_seen_event_ids r = set (rt_seen_event_order r)" "distinct (rt_seen_event_order r)"
    "length (rt_seen_event_order r) \<le> max (rl_max_events (rt_limits r)) 1"
    using assms by (simp_all add: router_inv_def)
  show ?thesis
  proof (cases "ev_event_id e \<in> rt_seen_event_ids r")
    case True
    with inv show ?thesis by (simp add: noted_def remember_event_id_def Let_def)
  next
    case False
    then have d: "distinct ?o" using inv by simp
    have "expire_seen (max (rl_max_events (rt_limits r)) 1) ?o (insert (ev_event_id e) (rt_seen_event_ids r))
        = (drop (length ?o - max (rl_max_events (rt_limits r)) 1) ?o,
           set (drop (length ?o - max (rl_max_events (rt_limits r)) 1) ?o))"
      by (rule expire_seen_drop [OF d]) (simp add: inv)
    with False d show ?thesis
      by (auto simp: noted_def remember_event_id_def Let_def simp del: drop_append distinct_append)
  qed
qed

section \<open>Spans and the events they stand for\<close>

definition represented :: "(event_sequence \<times> 'p event_record) list \<Rightarrow> 'p event_record \<Rightarrow> bool" where
  "represented ss h \<longleftrightarrow> (\<exists>(s, e) \<in> set ss. s \<le> ev_sequence h \<and> ev_sequence h \<le> ev_sequence e
     \<and> ev_scope e = ev_scope h \<and> ev_event e = ev_event h)"

definition behind :: "(event_sequence \<times> 'p event_record) list \<Rightarrow> 'p event_record \<Rightarrow> bool" where
  "behind ss h \<longleftrightarrow> ss \<noteq> [] \<and> ev_sequence h < fst (hd ss)"

definition covered :: "(event_sequence \<times> 'p event_record) list \<Rightarrow> 'p event_record \<Rightarrow> bool" where
  "covered ss h \<longleftrightarrow> represented ss h \<or> behind ss h"

lemma spans_drop: "spans_ok ss \<Longrightarrow> spans_ok (drop k ss)"
  by (auto simp: spans_ok_def sorted_wrt_drop dest: in_set_dropD)

lemma spans_append:
  "spans_ok ss \<Longrightarrow> \<forall>(s, e') \<in> set ss. ev_sequence e' < ev_sequence e \<Longrightarrow> spans_ok (ss @ [(ev_sequence e, e)])"
  by (auto simp: spans_ok_def sorted_wrt_append)

lemma spans_replace_last:
  "spans_ok (ss @ [(s, p)]) \<Longrightarrow> ev_sequence p \<le> ev_sequence m \<Longrightarrow> spans_ok (ss @ [(s, m)])"
  by (auto simp: spans_ok_def sorted_wrt_append)

lemma covered_append: "covered ss h \<Longrightarrow> covered (ss @ xs) h"
  by (auto simp: covered_def represented_def behind_def)

lemma covered_last:
  "s \<le> ev_sequence h \<Longrightarrow> ev_sequence h \<le> ev_sequence e \<Longrightarrow> ev_scope e = ev_scope h \<Longrightarrow>
   ev_event e = ev_event h \<Longrightarrow> covered (ss @ [(s, e)]) h"
  by (auto simp: covered_def represented_def)

lemma covered_replace:
  assumes "covered (ss @ [(s, p)]) h" "ev_sequence p \<le> ev_sequence m"
    "ev_scope m = ev_scope p" "ev_event m = ev_event p"
  shows "covered (ss @ [(s, m)]) h"
proof -
  have "fst (hd (ss @ [(s, m)])) = fst (hd (ss @ [(s, p)]))" by (cases ss) auto
  moreover have "represented (ss @ [(s, m)]) h" if "represented (ss @ [(s, p)]) h"
    using that assms by (auto simp: represented_def)
  ultimately show ?thesis using assms(1) by (auto simp: covered_def behind_def)
qed

lemma covered_drop:
  assumes ok: "spans_ok ss" and k: "k < length ss" and c: "covered ss h"
  shows "covered (drop k ss) h"
proof -
  have hd: "hd (drop k ss) = ss ! k" using k by (rule hd_drop_conv_nth)
  have lt: "ev_sequence (snd (ss ! i)) < fst (ss ! k)" if "i < k" for i
    using ok k that sorted_wrt_nth_less [of "\<lambda>(s, e) (s', e'). ev_sequence e < s'" ss i k]
    by (auto simp: spans_ok_def split: prod.splits)
  from c consider "represented ss h" | "behind ss h" by (auto simp: covered_def)
  then show ?thesis
  proof cases
    case 1
    then obtain i where i: "i < length ss" "fst (ss ! i) \<le> ev_sequence h"
      "ev_sequence h \<le> ev_sequence (snd (ss ! i))" "ev_scope (snd (ss ! i)) = ev_scope h"
      "ev_event (snd (ss ! i)) = ev_event h"
      by (auto simp: represented_def in_set_conv_nth split: prod.splits)
    show ?thesis
    proof (cases "i < k")
      case True
      then have "ev_sequence h < fst (ss ! k)" using lt [OF True] i(3) by simp
      then show ?thesis using k hd by (simp add: covered_def behind_def)
    next
      case False
      then have "ss ! i \<in> set (drop k ss)"
        using i(1) nth_drop [of k ss "i - k"] nth_mem [of "i - k" "drop k ss"] by simp
      then have "represented (drop k ss) h"
        unfolding represented_def using i by (intro bexI [of _ "ss ! i"]) (simp_all add: case_prod_beta)
      then show ?thesis by (simp add: covered_def)
    qed
  next
    case 2
    have "fst (hd ss) \<le> fst (ss ! k)"
    proof (cases k)
      case 0
      then show ?thesis using k by (simp add: hd_conv_nth)
    next
      case (Suc j)
      have ne: "ss \<noteq> []" using k by auto
      have "ev_sequence (snd (ss ! 0)) < fst (ss ! k)" using lt [of 0] Suc by simp
      moreover have "fst (ss ! 0) \<le> ev_sequence (snd (ss ! 0))"
        using ok nth_mem [of 0 ss] ne by (auto simp: spans_ok_def case_prod_beta)
      ultimately show ?thesis using ne by (simp add: hd_conv_nth)
    qed
    with 2 k hd show ?thesis by (auto simp: covered_def behind_def)
  qed
qed

section \<open>Taking an event\<close>

lemma merge_event_sel [simp]:
  "ev_sequence (merge_event p e) = ev_sequence e" "ev_scope (merge_event p e) = ev_scope e"
  "ev_event (merge_event p e) = ev_event e" "ev_broker_epoch (merge_event p e) = ev_broker_epoch e"
  "ev_resync_required (merge_event p e) = ev_resync_required e" "ev_payload (merge_event p e) = ev_payload e"
  by (simp_all add: merge_event_def Let_def)

lemma takes_sequence: "takes r e \<Longrightarrow> rt_sequence r < ev_sequence e"
  by (simp add: takes_def checked_next_less)

text \<open>How the spans change when an event is taken.\<close>

lemma admit_event_spans:
  assumes inv: "router_inv r" and t: "takes r e"
  shows "(\<exists>ss s p. router_spans r = ss @ [(s, p)] \<and> can_coalesce p e
        \<and> router_spans (fst (admit_event r e)) = ss @ [(s, merge_event p e)])
    \<or> rl_max_events (rt_limits r) = 0 \<and> router_spans (fst (admit_event r e)) = []
        \<and> rt_resync_required (fst (admit_event r e))
    \<or> (\<exists>k \<le> length (router_spans r).
          router_spans (fst (admit_event r e)) = drop k (router_spans r @ [(ev_sequence e, e)]))"
proof -
  have len: "length (rt_retained_starts r) = length (rt_events r)"
    "length (rt_events r) \<le> rl_max_events (rt_limits r)"
    using inv by (simp_all add: router_inv_def)
  show ?thesis
  proof (cases "rl_coalesce_dirty_events (rt_limits r) \<and> is_coalescible (ev_event e)
      \<and> rt_events r \<noteq> [] \<and> can_coalesce (last (rt_events r)) e")
    case True
    let ?es = "rt_events r" and ?st = "rt_retained_starts r"
    have ne: "?es \<noteq> []" "?st \<noteq> []" using True len by auto
    have z: "zip ?st (butlast ?es @ [x]) = zip (butlast ?st) (butlast ?es) @ [(last ?st, x)]" for x
      using ne len by (subst append_butlast_last_id [OF ne(2), symmetric])
        (simp add: zip_append del: append_butlast_last_id)
    have "router_spans r = zip (butlast ?st) (butlast ?es) @ [(last ?st, last ?es)]"
      using z [of "last ?es"] ne by (simp add: router_spans_def)
    moreover have "router_spans (fst (admit_event r e))
        = zip (butlast ?st) (butlast ?es) @ [(last ?st, merge_event (last ?es) e)]"
      using True z by (simp add: admit_event_noted router_spans_def)
    ultimately show ?thesis using True by blast
  next
    case nc: False
    show ?thesis
    proof (cases "rl_max_events (rt_limits r) = 0")
      case True
      then show ?thesis
        using nc len by (auto simp: admit_event_noted require_resync_def Let_def router_spans_def)
    next
      case False
      let ?k = "length (rt_events r @ [e]) - rl_max_events (rt_limits r)"
      have a: "fst (admit_event r e) = (noted r e)\<lparr>rt_events := drop ?k (rt_events r @ [e]),
          rt_retained_starts := drop ?k (rt_retained_starts r @ [ev_sequence e])\<rparr>"
        unfolding admit_event_noted if_not_P [OF nc] if_not_P [OF False]
        using len by (simp add: evict_drop del: drop_append)
      have "router_spans r @ [(ev_sequence e, e)]
          = zip (rt_retained_starts r @ [ev_sequence e]) (rt_events r @ [e])"
        using len by (simp add: router_spans_def)
      then have "router_spans (fst (admit_event r e)) = drop ?k (router_spans r @ [(ev_sequence e, e)])"
        unfolding a by (simp add: router_spans_def drop_zip del: drop_append)
      moreover have "?k \<le> length (router_spans r)" using len False by (simp add: router_spans_def)
      ultimately show ?thesis by blast
    qed
  qed
qed

text \<open>The rest of the state after taking an event.\<close>

lemma admit_event_frame:
  fixes r :: "'p event_router" and e :: "'p event_record"
  assumes "router_inv r"
  defines "r' \<equiv> fst (admit_event r e)"
  shows "rt_sequence r' = ev_sequence e" "rt_broker_epoch r' = rt_broker_epoch r" "rt_limits r' = rt_limits r"
    "rt_resync_required r \<or> ev_resync_required e \<Longrightarrow> rt_resync_required r'"
    "rt_seen_event_ids r' = rt_seen_event_ids (noted r e)"
    "rt_seen_event_order r' = rt_seen_event_order (noted r e)"
    "length (rt_retained_starts r') = length (rt_events r')"
    "length (rt_events r') \<le> rl_max_events (rt_limits r)"
    "set (rt_events r') \<subseteq> set (rt_events r) \<union> {e, merge_event (last (rt_events r)) e}"
proof -
  have len: "length (rt_retained_starts r) = length (rt_events r)"
    "length (rt_events r) \<le> rl_max_events (rt_limits r)"
    using assms(1) by (simp_all add: router_inv_def)
  note d = r'_def admit_event_noted require_resync_def Let_def
  show "rt_sequence r' = ev_sequence e" "rt_broker_epoch r' = rt_broker_epoch r" "rt_limits r' = rt_limits r"
    "rt_resync_required r \<or> ev_resync_required e \<Longrightarrow> rt_resync_required r'"
    "rt_seen_event_ids r' = rt_seen_event_ids (noted r e)"
    "rt_seen_event_order r' = rt_seen_event_order (noted r e)"
    by (auto simp: d split: prod.splits)
  show "length (rt_retained_starts r') = length (rt_events r')"
    "length (rt_events r') \<le> rl_max_events (rt_limits r)"
    using len by (auto simp: d evict_drop simp del: drop_append)
  show "set (rt_events r') \<subseteq> set (rt_events r) \<union> {e, merge_event (last (rt_events r)) e}"
    using len by (auto simp: d evict_drop simp del: drop_append dest!: in_set_dropD in_set_butlastD)
qed

lemma admit_event_inv:
  assumes inv: "router_inv r" and t: "takes r e"
  shows "router_inv (fst (admit_event r e))"
proof -
  let ?r = "fst (admit_event r e)"
  note f = admit_event_frame [OF inv, of e]
  have seq: "rt_sequence r < ev_sequence e" using t by (rule takes_sequence)
  have old: "ev_sequence x \<le> rt_sequence r" "ev_broker_epoch x = rt_broker_epoch r"
    "rt_resync_required r \<or> \<not> ev_resync_required x" if "x \<in> set (rt_events r)" for x
    using inv that by (auto simp: router_inv_def)
  have ev: "ev_sequence x \<le> ev_sequence e \<and> ev_broker_epoch x = rt_broker_epoch r
      \<and> (rt_resync_required ?r \<or> \<not> ev_resync_required x)" if "x \<in> set (rt_events ?r)" for x
    using subsetD [OF f(9) that] old [of x] seq t f(4) by (auto simp: takes_def)
  have ok: "spans_ok (router_spans r)" using inv by (simp add: router_inv_def)
  have below: "\<forall>(s, x) \<in> set (router_spans r). ev_sequence x < ev_sequence e"
    using old(1) seq by (fastforce simp: router_spans_def dest!: set_zip_rightD)
  have "spans_ok (router_spans ?r)"
    using admit_event_spans [OF inv t]
  proof (elim disjE exE conjE)
    fix ss s p
    assume "router_spans r = ss @ [(s, p)]" "router_spans ?r = ss @ [(s, merge_event p e)]"
    then show ?thesis using spans_replace_last [of ss s p] ok below by (force intro: less_imp_le)
  next
    fix k
    assume "router_spans ?r = drop k (router_spans r @ [(ev_sequence e, e)])"
    then show ?thesis using spans_drop [OF spans_append [OF ok below]] by simp
  qed (simp add: spans_ok_def)
  with f ev noted_seen [OF inv, of e] show ?thesis by (simp add: router_inv_def)
qed

lemma admit_event_covers:
  fixes r :: "'p event_router" and e :: "'p event_record"
  assumes inv: "router_inv r" and t: "takes r e"
  defines "r' \<equiv> fst (admit_event r e)"
  shows "rt_resync_required r' \<or> covered (router_spans r') e"
    and "covered (router_spans r) h \<Longrightarrow> rt_resync_required r' \<or> covered (router_spans r') h"
proof -
  have seq: "rt_sequence r < ev_sequence e" using t by (rule takes_sequence)
  have ok: "spans_ok (router_spans r)" using inv by (simp add: router_inv_def)
  have below: "\<forall>(s, x) \<in> set (router_spans r). ev_sequence x < ev_sequence e"
    using inv seq by (fastforce simp: router_spans_def router_inv_def dest!: set_zip_rightD)
  note ok' = spans_append [OF ok below]
  show "rt_resync_required r' \<or> covered (router_spans r') e"
    using admit_event_spans [OF inv t]
  proof (elim disjE exE conjE)
    fix ss s p
    assume a: "router_spans r = ss @ [(s, p)]" "can_coalesce p e"
      "router_spans (fst (admit_event r e)) = ss @ [(s, merge_event p e)]"
    have "s \<le> ev_sequence p" "ev_sequence p < ev_sequence e" using ok below a(1) by (auto simp: spans_ok_def)
    then have "covered (ss @ [(s, merge_event p e)]) e" by (intro covered_last) auto
    then show ?thesis by (simp add: r'_def a(3))
  next
    fix k
    assume a: "k \<le> length (router_spans r)"
      "router_spans (fst (admit_event r e)) = drop k (router_spans r @ [(ev_sequence e, e)])"
    have "covered (router_spans r @ [(ev_sequence e, e)]) e" by (intro covered_last) auto
    with covered_drop [OF ok', of k e] a show ?thesis by (simp add: r'_def)
  qed (simp add: r'_def)
  assume h: "covered (router_spans r) h"
  show "rt_resync_required r' \<or> covered (router_spans r') h"
    using admit_event_spans [OF inv t]
  proof (elim disjE exE conjE)
    fix ss s p
    assume a: "router_spans r = ss @ [(s, p)]" "can_coalesce p e"
      "router_spans (fst (admit_event r e)) = ss @ [(s, merge_event p e)]"
    have "ev_sequence p < ev_sequence e" using below a(1) by auto
    then have "covered (ss @ [(s, merge_event p e)]) h"
      using covered_replace [of ss s p h "merge_event p e"] h a(1,2) by (simp add: can_coalesce_def)
    then show ?thesis by (simp add: r'_def a(3))
  next
    fix k
    assume a: "k \<le> length (router_spans r)"
      "router_spans (fst (admit_event r e)) = drop k (router_spans r @ [(ev_sequence e, e)])"
    with covered_drop [OF ok', of k h] covered_append [OF h, of "[(ev_sequence e, e)]"]
    show ?thesis by (simp add: r'_def)
  qed (simp add: r'_def)
qed

section \<open>Runs and their history\<close>

text \<open>The events of a batch that its second loop takes.\<close>

fun loop_taken :: "'p event_router \<Rightarrow> 'p event_record list \<Rightarrow> 'p event_record list" where
  "loop_taken r [] = []"
| "loop_taken r (event # events) =
     (if ev_broker_epoch event = rt_broker_epoch r \<and> ev_event_id event \<in> rt_seen_event_ids r then
        loop_taken (fst (ingest r event)) events
      else case checked_next (rt_sequence r) of
        None \<Rightarrow> []
      | Some expected \<Rightarrow>
          (let r = (if ev_sequence event > expected
                    then r\<lparr>rt_sequence := ev_sequence event - 1\<rparr> else r) in
           (if takes r event then [event] else []) @
           (case ingest r event of
             (r', RI_ResyncRequired c reason) \<Rightarrow> []
           | (r', RI_Accepted c) \<Rightarrow> loop_taken r' events)))"

definition batch_taken :: "'p event_router \<Rightarrow> 'p event_batch \<Rightarrow> 'p event_record list" where
  "batch_taken r batch =
     (if eb_broker_epoch batch \<noteq> rt_broker_epoch r
         \<or> cu_broker_epoch (eb_cursor batch) \<noteq> rt_broker_epoch r
         \<or> cu_sequence (eb_cursor batch) < rt_sequence r \<or> eb_result batch = RU_ResyncRequired
         \<or> check_batch r (cu_sequence (eb_cursor batch)) (eb_events batch) (rt_sequence r) None \<noteq> None
      then [] else loop_taken r (eb_events batch))"

text \<open>
  A run of a router from its construction, with the events it has taken since its last baseline.
\<close>

inductive router_run :: "'p event_record list \<Rightarrow> 'p event_router \<Rightarrow> bool" where
  run_start: "router_run [] (router_new_at cursor limits)"
| run_ingest: "router_run H r \<Longrightarrow> router_run (H @ (if takes r e then [e] else [])) (fst (ingest r e))"
| run_batch: "router_run H r \<Longrightarrow> router_run (H @ batch_taken r b) (fst (ingest_batch r b))"
| run_request: "router_run H r \<Longrightarrow> router_run H (request_resync r)"
| run_reset: "router_run H r \<Longrightarrow> router_run [] (router_reset r cursor)"

text \<open>
  What a run keeps: the invariant, that every event taken is behind the sequence and covered
  unless the consumer is told to resynchronise, and that every retained event is one of those
  taken (up to the marks that coalescing leaves on it).
\<close>

definition stems_from :: "'p event_record \<Rightarrow> 'p event_record \<Rightarrow> bool" where
  "stems_from e h \<longleftrightarrow> ev_event_id e = ev_event_id h \<and> ev_sequence e = ev_sequence h
     \<and> ev_scope e = ev_scope h \<and> ev_event e = ev_event h \<and> ev_payload e = ev_payload h"

definition hist_ok :: "'p event_record list \<Rightarrow> 'p event_router \<Rightarrow> bool" where
  "hist_ok H r \<longleftrightarrow> router_inv r
     \<and> (\<forall>h \<in> set H. ev_sequence h \<le> rt_sequence r \<and> (rt_resync_required r \<or> covered (router_spans r) h))
     \<and> (\<forall>e \<in> set (rt_events r). \<exists>h \<in> set H. stems_from e h)"

lemma hist_ok_flag: "hist_ok H r \<Longrightarrow> hist_ok H (r\<lparr>rt_resync_required := True, rt_resync_reason := x\<rparr>)"
  by (simp add: hist_ok_def router_inv_def router_spans_def)

lemma hist_ok_bump: "hist_ok H r \<Longrightarrow> rt_sequence r \<le> s \<Longrightarrow> hist_ok H (r\<lparr>rt_sequence := s\<rparr>)"
  by (auto simp: hist_ok_def router_inv_def router_spans_def intro: order_trans)

lemma hist_ok_empty:
  "rt_events r = [] \<Longrightarrow> rt_retained_starts r = [] \<Longrightarrow> rt_seen_event_ids r = {} \<Longrightarrow>
   rt_seen_event_order r = [] \<Longrightarrow> hist_ok [] r"
  by (simp add: hist_ok_def router_inv_def router_spans_def spans_ok_def)

lemma hist_ok_require: "hist_ok H r \<Longrightarrow> hist_ok H (fst (require_resync r reason))"
  using fst_require_resync [of r reason] by (auto intro: hist_ok_flag)

lemma merge_stems: "stems_from (merge_event p e) e"
  by (simp add: stems_from_def) (simp add: merge_event_def Let_def)

lemma hist_ok_admit:
  assumes ok: "hist_ok H r" and t: "takes r e"
  shows "hist_ok (H @ [e]) (fst (admit_event r e))"
proof -
  let ?r = "fst (admit_event r e)"
  have inv: "router_inv r" using ok by (simp add: hist_ok_def)
  note f = admit_event_frame [OF inv, of e] and c = admit_event_covers [OF inv t]
  have "ev_sequence h \<le> rt_sequence ?r \<and> (rt_resync_required ?r \<or> covered (router_spans ?r) h)"
    if "h \<in> set H" for h
  proof -
    have h: "ev_sequence h \<le> rt_sequence r" "rt_resync_required r \<or> covered (router_spans r) h"
      using ok that by (simp_all add: hist_ok_def)
    from h(1) takes_sequence [OF t] have "ev_sequence h \<le> rt_sequence ?r" unfolding f(1) by simp
    with h(2) f(4) c(2) show ?thesis by blast
  qed
  moreover have "\<exists>h \<in> set (H @ [e]). stems_from x h" if "x \<in> set (rt_events ?r)" for x
    using subsetD [OF f(9) that] ok merge_stems [of "last (rt_events r)" e]
    by (auto simp: hist_ok_def stems_from_def)
  ultimately show ?thesis
    using admit_event_inv [OF inv t] c(1) f(1) by (auto simp: hist_ok_def)
qed

lemma hist_ok_ingest:
  assumes ok: "hist_ok H r"
  shows "hist_ok (H @ (if takes r e then [e] else [])) (fst (ingest r e))"
proof (cases "takes r e")
  case True
  with hist_ok_admit [OF ok] show ?thesis by (simp add: ingest_takes)
next
  case False
  with ingest_refuses [OF False] ok show ?thesis by (auto intro: hist_ok_flag)
qed

lemma skip_le: "checked_next s = Some n \<Longrightarrow> n < e \<Longrightarrow> s \<le> e - 1" for s :: u64
  by (simp add: checked_next_Some word_less_nat_alt word_le_nat_alt unat_sub_if_size)

lemma hist_ok_loop: "hist_ok H r \<Longrightarrow> hist_ok (H @ loop_taken r es) (fst (ingest_loop r es))"
proof (induction es arbitrary: H r)
  case Nil
  then show ?case by simp
next
  case (Cons e es)
  show ?case
  proof (cases "ev_broker_epoch e = rt_broker_epoch r \<and> ev_event_id e \<in> rt_seen_event_ids r")
    case True
    then have "\<not> takes r e" by (simp add: takes_def)
    with hist_ok_ingest [OF Cons.prems, of e] have "hist_ok H (fst (ingest r e))" by simp
    with Cons.IH True show ?thesis by simp
  next
    case dup: False
    show ?thesis
    proof (cases "checked_next (rt_sequence r)")
      case None
      with dup hist_ok_require [OF Cons.prems] show ?thesis by (auto simp: case_prod_beta Let_def)
    next
      case (Some n)
      define q where "q = (if ev_sequence e > n then r\<lparr>rt_sequence := ev_sequence e - 1\<rparr> else r)"
      have "hist_ok H q" using Cons.prems Some by (auto simp: q_def intro: hist_ok_bump skip_le)
      from hist_ok_ingest [OF this, of e]
      have h: "hist_ok (H @ (if takes q e then [e] else [])) (fst (ingest q e))" .
      obtain q' x where i: "ingest q e = (q', x)" by (cases "ingest q e")
      from h i Cons.IH [of "H @ (if takes q e then [e] else [])" q'] show ?thesis
        using dup Some by (cases x) (auto simp: q_def [symmetric] Let_def)
    qed
  qed
qed

lemma hist_ok_batch:
  assumes ok: "hist_ok H r"
  shows "hist_ok (H @ batch_taken r b) (fst (ingest_batch r b))"
proof (cases "batch_taken r b = [] \<and> (\<exists>reason. ingest_batch r b = require_resync r reason)")
  case True
  with hist_ok_require [OF ok] show ?thesis by auto
next
  case False
  then have c: "batch_taken r b = loop_taken r (eb_events b)"
    and d: "ingest_batch r b =
      (case ingest_loop r (eb_events b) of
        (r', Some outcome) \<Rightarrow> (r', outcome)
      | (r', None) \<Rightarrow>
          (let r' = (if \<not> rt_resync_required r' \<and> cu_sequence (eb_cursor b) > rt_sequence r'
                     then r'\<lparr>rt_sequence := cu_sequence (eb_cursor b)\<rparr> else r')
           in (r', RI_Accepted (router_cursor r'))))"
    by (auto simp: batch_taken_def ingest_batch_def split: if_splits option.splits)
  have h: "hist_ok (H @ loop_taken r (eb_events b)) (fst (ingest_loop r (eb_events b)))"
    by (rule hist_ok_loop [OF ok])
  obtain q x where i: "ingest_loop r (eb_events b) = (q, x)" by (cases "ingest_loop r (eb_events b)")
  from h show ?thesis unfolding c d i by (cases x) (auto simp: Let_def intro: hist_ok_bump)
qed

lemma router_run_hist_ok: "router_run H r \<Longrightarrow> hist_ok H r"
proof (induction rule: router_run.induct)
  case run_start
  show ?case by (rule hist_ok_empty) (simp_all add: router_new_at_def)
next
  case run_ingest
  then show ?case by (blast intro: hist_ok_ingest)
next
  case run_batch
  then show ?case by (blast intro: hist_ok_batch)
next
  case run_request
  then show ?case by (simp add: request_resync_def hist_ok_flag)
next
  case run_reset
  show ?case by (rule hist_ok_empty) (simp_all add: router_reset_def)
qed

lemma router_scope_matches_iff:
  "router_scope_matches e q \<longleftrightarrow>
     ev_resync_required e \<and> ev_scope e = \<lparr>sc_space_id = None, sc_page_id = None\<rparr> \<or> scope_matches (ev_scope e) q"
proof -
  have "ev_scope e = \<lparr>sc_space_id = None, sc_page_id = None\<rparr> \<longleftrightarrow>
      sc_space_id (ev_scope e) = None \<and> sc_page_id (ev_scope e) = None"
    by (metis event_scope.surjective event_scope.select_convs old.unit.exhaust)
  then show ?thesis
    by (auto simp: router_scope_matches_def scope_matches_iff scope_validate_Ok)
qed

lemma ingest_accepts:
  "ingest r e = (r', RI_Accepted c) \<Longrightarrow> takes r e \<or> ev_event_id e \<in> rt_seen_event_ids r"
  by (cases "validate_routing e")
    (auto simp: ingest_def takes_def require_resync_def Let_def split: if_splits option.splits)

lemma takes_seen:
  assumes "router_inv r" "takes r e"
  shows "ev_event_id e \<in> rt_seen_event_ids (fst (ingest r e))"
proof -
  let ?o = "rt_seen_event_order r @ [ev_event_id e]" and ?n = "max (rl_max_events (rt_limits r)) 1"
  have inv: "rt_seen_event_ids r = set (rt_seen_event_order r)" "distinct (rt_seen_event_order r)"
    "length (rt_seen_event_order r) \<le> ?n"
    using assms by (simp_all add: router_inv_def)
  have new: "ev_event_id e \<notin> rt_seen_event_ids r" using assms(2) by (simp add: takes_def)
  then have "expire_seen ?n ?o (insert (ev_event_id e) (rt_seen_event_ids r))
      = (drop (length ?o - ?n) ?o, set (drop (length ?o - ?n) ?o))"
    by (intro expire_seen_drop) (simp_all add: inv)
  then have s: "rt_seen_event_ids (noted r e) = set (drop (length ?o - ?n) ?o)"
    using new by (simp add: noted_def remember_event_id_def Let_def del: drop_append)
  have "length ?o - ?n \<le> length (rt_seen_event_order r)" by (simp add: max_def) arith
  then have "ev_event_id e \<in> rt_seen_event_ids (noted r e)" unfolding s by simp
  then show ?thesis using admit_event_frame(5) [OF assms(1), of e] assms(2) by (simp add: ingest_takes)
qed

lemma accepts_dup: "ev_broker_epoch e = rt_broker_epoch r \<Longrightarrow> ev_event_id e \<in> rt_seen_event_ids r \<Longrightarrow>
    ingest r e = (r, RI_Accepted (router_cursor r))"
  by (simp add: ingest_def)

text \<open>While a resynchronisation is due, only the flags move.\<close>

lemma ingest_paused:
  "rt_resync_required r \<Longrightarrow> \<exists>x. fst (ingest r e) = r\<lparr>rt_resync_required := True, rt_resync_reason := x\<rparr>"
proof -
  assume p: "rt_resync_required r"
  have "r = r\<lparr>rt_resync_required := True, rt_resync_reason := rt_resync_reason r\<rparr>" using p by simp
  moreover have "\<not> takes r e" using p by (simp add: takes_def)
  ultimately show ?thesis using ingest_refuses by metis
qed

lemma paused_flags:
  assumes "rt_resync_required r" "fst (ingest r e) = r\<lparr>rt_resync_required := True, rt_resync_reason := x\<rparr>"
    "ev_broker_epoch e = rt_broker_epoch r" "ev_event_id e \<in> rt_seen_event_ids r"
  shows "fst (ingest r e) = r"
  using assms by (simp add: accepts_dup)

lemma check_batch_paused:
  assumes "rt_resync_required r" "check_batch r c es v p = None" "e \<in> set es"
  shows "ev_broker_epoch e = rt_broker_epoch r \<and> ev_event_id e \<in> rt_seen_event_ids r"
  using assms by (induction es arbitrary: v p) (auto split: if_splits)

lemma ingest_loop_dups:
  "(\<And>e. e \<in> set es \<Longrightarrow> ev_broker_epoch e = rt_broker_epoch r \<and> ev_event_id e \<in> rt_seen_event_ids r) \<Longrightarrow>
   ingest_loop r es = (r, None)"
  by (induction es) (simp_all add: accepts_dup)

lemma ingest_batch_paused:
  assumes p: "rt_resync_required r"
  shows "\<exists>x. fst (ingest_batch r b) = r\<lparr>rt_resync_required := True, rt_resync_reason := x\<rparr>"
proof -
  have self: "r = r\<lparr>rt_resync_required := True, rt_resync_reason := rt_resync_reason r\<rparr>" using p by simp
  have "ingest_loop r (eb_events b) = (r, None)"
    if "check_batch r (cu_sequence (eb_cursor b)) (eb_events b) (rt_sequence r) None = None"
    using ingest_loop_dups check_batch_paused [OF p that] by blast
  then have "(\<exists>reason. fst (ingest_batch r b) = fst (require_resync r reason)) \<or> fst (ingest_batch r b) = r"
    using p unfolding ingest_batch_def by (auto split: option.splits)
  with self fst_require_resync [of r] show ?thesis by metis
qed

text \<open>The sequence and the ids after an ingest, and after the loop of a batch.\<close>

lemma ingest_moves:
  "rt_sequence (fst (ingest r e)) \<in> {rt_sequence r, ev_sequence e}"
  "rt_broker_epoch (fst (ingest r e)) = rt_broker_epoch r"
  by (cases "takes r e"; use ingest_refuses [of r e] in
      \<open>auto simp: ingest_takes admit_event_noted require_resync_def Let_def split: prod.splits\<close>)+

lemma expire_seen_subset: "snd (expire_seen n xs ids) \<subseteq> ids"
  by (induction n xs ids rule: expire_seen.induct) auto

lemma ingest_seen_subset:
  "rt_seen_event_ids (fst (ingest r e)) \<subseteq> rt_seen_event_ids r \<union> (if takes r e then {ev_event_id e} else {})"
proof (cases "takes r e")
  case True
  have "rt_seen_event_ids (noted r e) \<subseteq> insert (ev_event_id e) (rt_seen_event_ids r)"
    using expire_seen_subset
    by (fastforce simp: noted_def remember_event_id_def Let_def case_prod_beta split: if_splits)
  with True show ?thesis
    by (auto simp: ingest_takes admit_event_noted require_resync_def Let_def case_prod_beta)
next
  case False
  with ingest_refuses [OF False] show ?thesis by auto
qed

lemma ingest_loop_bound:
  "\<forall>e \<in> set es. ev_sequence e \<le> c \<Longrightarrow> rt_sequence r \<le> c \<Longrightarrow> rt_sequence (fst (ingest_loop r es)) \<le> c"
proof (induction es arbitrary: r)
  case (Cons e es)
  have step: "rt_sequence (fst (ingest q e)) \<le> c" if "rt_sequence q \<le> c" for q
    using ingest_moves(1) [of q e] that Cons.prems(1) by auto
  show ?case
  proof (cases "checked_next (rt_sequence r)")
    case None
    then show ?thesis
      using Cons step by (auto simp: require_resync_def Let_def)
  next
    case (Some n)
    define q where "q = (if ev_sequence e > n then r\<lparr>rt_sequence := ev_sequence e - 1\<rparr> else r)"
    have "ev_sequence e - 1 \<le> ev_sequence e" if "n < ev_sequence e"
      using that by (simp add: word_le_nat_alt word_less_nat_alt unat_sub_if_size)
    then have "rt_sequence q \<le> c" using Cons.prems by (auto simp: q_def intro: order_trans)
    then have "rt_sequence (fst (ingest q e)) \<le> c" by (rule step)
    moreover obtain q' x where "ingest q e = (q', x)" by (cases "ingest q e")
    ultimately show ?thesis
      using Cons step Some by (cases x) (auto simp: q_def [symmetric] Let_def)
  qed
qed simp

lemma ingest_loop_complete:
  "ingest_loop r es = (r', None) \<Longrightarrow> e \<in> set es \<Longrightarrow>
   e \<in> set (loop_taken r es) \<or> ev_event_id e \<in> rt_seen_event_ids r \<union> ev_event_id ` set (loop_taken r es)"
proof (induction es arbitrary: r)
  case (Cons d es)
  show ?case
  proof (cases "ev_broker_epoch d = rt_broker_epoch r \<and> ev_event_id d \<in> rt_seen_event_ids r")
    case True
    with Cons accepts_dup [of d r] show ?thesis by auto
  next
    case dup: False
    then obtain n where n: "checked_next (rt_sequence r) = Some n"
      using Cons.prems(1) by (cases "checked_next (rt_sequence r)") (auto simp: Let_def split: prod.splits)
    define q where "q = (if ev_sequence d > n then r\<lparr>rt_sequence := ev_sequence d - 1\<rparr> else r)"
    have q: "rt_seen_event_ids q = rt_seen_event_ids r" by (simp add: q_def)
    obtain q' c where i: "ingest q d = (q', RI_Accepted c)" and l: "ingest_loop q' es = (r', None)"
      using Cons.prems(1) dup n
      by (auto simp: q_def [symmetric] Let_def split: prod.splits router_ingest.splits if_splits)
    have s: "rt_seen_event_ids q' \<subseteq> rt_seen_event_ids r \<union> (if takes q d then {ev_event_id d} else {})"
      using ingest_seen_subset [of q d] i q by simp
    have t: "loop_taken r (d # es) = (if takes q d then [d] else []) @ loop_taken q' es"
      using dup n i by (auto simp: q_def [symmetric] Let_def)
    have "takes q d \<or> ev_event_id d \<in> rt_seen_event_ids r" using ingest_accepts [OF i] q by simp
    then show ?thesis
      using Cons.prems(2) Cons.IH [OF l] s unfolding t by (cases "takes q d") auto
  qed
qed simp

lemma require_resync_accepts: "require_resync r reason \<noteq> (r', RI_Accepted c)"
  by (simp add: require_resync_def Let_def)

lemma ingest_loop_refusal: "ingest_loop r es \<noteq> (r', Some (RI_Accepted c))"
  by (induction es arbitrary: r)
    (auto simp: require_resync_def Let_def split: option.splits prod.splits router_ingest.splits)

lemma check_batch_bound: "check_batch r c es v p = None \<Longrightarrow> e \<in> set es \<Longrightarrow> ev_sequence e \<le> c"
  by (induction es arbitrary: v p) (auto simp: not_less split: if_splits)

section \<open>Properties\<close>

text \<open>
  C26: replay loses nothing. Along every run of ingests, batches, explicit
  resynchronisation requests and resets, a replay that is accepted delivers, for every event
  the router has taken since its baseline that lies after the cursor and in the requested
  scope, an event of the same scope and kind whose sequence is at least as new. So an event
  dropped from the bounded buffer is either subsumed by one that coalesced with it or the
  replay is answered by a resynchronisation instead.
\<close>
theorem router_replay_complete:
  assumes "router_run H r" "eb_result (replay r after scope) = RU_Accepted"
    "h \<in> set H" "cu_sequence after < ev_sequence h"
    "is_none_or scope (scope_matches (ev_scope h))"
  shows "\<exists>e \<in> set (eb_events (replay r after scope)).
    ev_sequence h \<le> ev_sequence e \<and> ev_scope e = ev_scope h \<and> ev_event e = ev_event h"
proof -
  have nr: "\<not> rt_resync_required r" using assms(2) by (auto simp: replay_def split: if_splits)
  then have "covered (router_spans r) h"
    using router_run_hist_ok [OF assms(1)] assms(3) by (auto simp: hist_ok_def)
  then consider "represented (router_spans r) h" | "behind (router_spans r) h" by (auto simp: covered_def)
  then show ?thesis
  proof cases
    case 1
    then obtain s e where "(s, e) \<in> set (router_spans r)" and e: "ev_sequence h \<le> ev_sequence e"
      "ev_scope e = ev_scope h" "ev_event e = ev_event h"
      by (auto simp: represented_def)
    then have "e \<in> set (rt_events r)" by (auto simp: router_spans_def dest: set_zip_rightD)
    moreover have "is_none_or scope (router_scope_matches e)"
      using assms(5) e(2) by (cases scope) (simp_all add: router_scope_matches_iff)
    ultimately show ?thesis using e assms(2,4) by (auto simp: replay_def split: if_splits)
  next
    case 2
    then obtain s ss where st: "rt_retained_starts r = s # ss" and lt: "ev_sequence h < s"
      by (cases "rt_retained_starts r"; cases "rt_events r") (auto simp: behind_def router_spans_def)
    have "unat (cu_sequence after) < 2 ^ 64 - 1"
      using assms(4) unat_u64_less [of "ev_sequence h"] by (simp add: word_less_nat_alt)
    then obtain n where n: "checked_next (cu_sequence after) = Some n"
      using checked_next_None [of "cu_sequence after"] by (cases "checked_next (cu_sequence after)") auto
    then have "n < s" using assms(4) lt by (simp add: checked_next_Some word_less_nat_alt)
    then show ?thesis using assms(2) st n by (simp add: replay_def split: if_splits)
  qed
qed

text \<open>
  replay delivers nothing else. Every event of a replay was taken from the
  broker (same id, sequence, scope, kind and payload), lies strictly after the cursor and not
  after the returned one, carries the router's epoch and matches the requested scope; the
  sequences increase strictly and there are never more events than the limit.
\<close>
theorem router_replay_sound:
  assumes "router_run H r"
  shows "(\<forall>e \<in> set (eb_events (replay r after scope)).
            (\<exists>h \<in> set H. stems_from e h) \<and> cu_sequence after < ev_sequence e
            \<and> ev_sequence e \<le> cu_sequence (eb_cursor (replay r after scope))
            \<and> ev_broker_epoch e = cu_broker_epoch after
            \<and> is_none_or scope (scope_matches (ev_scope e)))
    \<and> sorted_wrt (<) (map ev_sequence (eb_events (replay r after scope)))
    \<and> length (eb_events (replay r after scope)) \<le> rl_max_events (rt_limits r)"
proof (cases "eb_result (replay r after scope)")
  case RU_ResyncRequired
  then have "eb_events (replay r after scope) = []" by (auto simp: replay_def split: if_splits)
  then show ?thesis by simp
next
  case RU_Accepted
  let ?p = "\<lambda>e. is_none_or scope (router_scope_matches e)" and ?q = "\<lambda>e. ev_sequence e > cu_sequence after"
  have nr: "\<not> rt_resync_required r" and ep: "cu_broker_epoch after = rt_broker_epoch r"
    and ev: "eb_events (replay r after scope) = filter ?p (filter ?q (rt_events r))"
    and cu: "eb_cursor (replay r after scope) = router_cursor r"
    using RU_Accepted by (auto simp: replay_def split: if_splits)
  have h: "hist_ok H r" using assms by (rule router_run_hist_ok)
  then have inv: "router_inv r" by (simp add: hist_ok_def)
  have len: "length (rt_retained_starts r) = length (rt_events r)" using inv by (simp add: router_inv_def)
  have "sorted_wrt (\<lambda>x y. ev_sequence (snd x) < ev_sequence (snd y)) (router_spans r)"
    using inv by (auto simp: router_inv_def spans_ok_def elim!: sorted_wrt_mono_rel [rotated])
  then have "sorted_wrt (\<lambda>x y. ev_sequence x < ev_sequence y) (rt_events r)"
    using len sorted_wrt_map [of "\<lambda>x y. ev_sequence x < ev_sequence y" snd "router_spans r"]
    by (simp add: router_spans_def)
  then have "sorted_wrt (<) (map ev_sequence (filter ?p (filter ?q (rt_events r))))"
    by (simp add: sorted_wrt_map sorted_wrt_filter del: filter_filter)
  moreover have "length (filter ?p (filter ?q (rt_events r))) \<le> rl_max_events (rt_limits r)"
    using inv order_trans [OF length_filter_le [of ?p "filter ?q (rt_events r)"] length_filter_le [of ?q "rt_events r"]]
    by (simp add: router_inv_def del: filter_filter)
  moreover have "is_none_or scope (scope_matches (ev_scope e))"
    if "e \<in> set (rt_events r)" "is_none_or scope (router_scope_matches e)" for e
    using inv nr that by (cases scope) (auto simp: router_inv_def router_scope_matches_iff)
  ultimately show ?thesis
    using h inv unfolding ev cu by (auto simp: hist_ok_def router_inv_def router_cursor_def ep)
qed

text \<open>
  an accepted batch is taken whole. When a router accepts a replay batch, every
  event of the batch has been taken into the stream or carries an id that was already seen, and
  the router stands at the batch's cursor unless a resynchronisation became due.
\<close>
theorem router_batch_taken:
  assumes "ingest_batch r b = (r', RI_Accepted c)"
  shows "(\<forall>e \<in> set (eb_events b). e \<in> set (batch_taken r b)
            \<or> ev_event_id e \<in> rt_seen_event_ids r \<union> ev_event_id ` set (batch_taken r b))
    \<and> (rt_resync_required r' \<or> rt_sequence r' = cu_sequence (eb_cursor b))"
proof -
  obtain q where l: "ingest_loop r (eb_events b) = (q, None)"
    and k: "check_batch r (cu_sequence (eb_cursor b)) (eb_events b) (rt_sequence r) None = None"
    and t: "batch_taken r b = loop_taken r (eb_events b)"
    and s: "\<not> cu_sequence (eb_cursor b) < rt_sequence r"
    and r': "r' = (if \<not> rt_resync_required q \<and> cu_sequence (eb_cursor b) > rt_sequence q
                     then q\<lparr>rt_sequence := cu_sequence (eb_cursor b)\<rparr> else q)"
    using assms ingest_loop_refusal [of r "eb_events b"]
    by (auto simp: ingest_batch_def batch_taken_def Let_def require_resync_accepts
        split: if_splits option.splits prod.splits)
  have "rt_sequence q \<le> cu_sequence (eb_cursor b)"
    using ingest_loop_bound [of "eb_events b" "cu_sequence (eb_cursor b)" r] check_batch_bound [OF k] s l
    by (simp add: not_less)
  then have "rt_resync_required r' \<or> rt_sequence r' = cu_sequence (eb_cursor b)"
    by (auto simp: r' dest: le_neq_trans)
  with ingest_loop_complete [OF l] show ?thesis unfolding t by blast
qed

text \<open>
  delivery is idempotent. When an event that a router has just taken is delivered
  again, it is acknowledged at the same cursor and the router does not change.
\<close>
theorem router_redelivery_idempotent:
  assumes "router_run H r" "takes r e"
  shows "ingest (fst (ingest r e)) e
    = (fst (ingest r e), RI_Accepted (router_cursor (fst (ingest r e))))"
proof -
  have "router_inv r" using router_run_hist_ok [OF assms(1)] by (simp add: hist_ok_def)
  then have "ev_event_id e \<in> rt_seen_event_ids (fst (ingest r e))" using assms(2) by (rule takes_seen)
  moreover have "ev_broker_epoch e = rt_broker_epoch (fst (ingest r e))"
    using assms(2) by (simp add: ingest_moves(2) takes_def)
  ultimately show ?thesis by (intro accepts_dup)
qed

text \<open>
  a resynchronisation stays due until the consumer resets. Once it is required, no
  event, batch or request clears it, moves the cursor or changes what is retained, and every
  replay is refused without events; a reset to a cursor clears it, and the next replay from
  that cursor is accepted.
\<close>
theorem router_resync_sticky:
  assumes "rt_resync_required r"
  shows "(\<exists>x. fst (ingest r e) = r\<lparr>rt_resync_required := True, rt_resync_reason := x\<rparr>)
    \<and> (\<exists>x. fst (ingest_batch r b) = r\<lparr>rt_resync_required := True, rt_resync_reason := x\<rparr>)
    \<and> (\<exists>x. request_resync r = r\<lparr>rt_resync_required := True, rt_resync_reason := x\<rparr>)
    \<and> eb_result (replay r after scope) = RU_ResyncRequired \<and> eb_events (replay r after scope) = []
    \<and> eb_result (replay (router_reset r cursor) cursor scope) = RU_Accepted"
proof -
  have "\<exists>x. request_resync r = r\<lparr>rt_resync_required := True, rt_resync_reason := x\<rparr>"
    unfolding request_resync_def by blast
  moreover have "eb_result (replay r after scope) = RU_ResyncRequired" "eb_events (replay r after scope) = []"
    using assms by (simp_all add: replay_def)
  moreover have "eb_result (replay (router_reset r cursor) cursor scope) = RU_Accepted"
    by (simp add: replay_def router_reset_def)
  ultimately show ?thesis using ingest_paused [OF assms] ingest_batch_paused [OF assms] by blast
qed

text \<open>
  the baseline of a router is not a bound of its replays. A router constructed at a
  cursor accepts, with no events and no resynchronisation, a replay from any older cursor of
  the same epoch, although it never held the events between the two.
\<close>
theorem router_replay_before_baseline:
  "eb_result (replay (router_new_at cursor limits) \<lparr>cu_broker_epoch = cu_broker_epoch cursor, cu_sequence = s\<rparr> scope)
     = (if s \<le> cu_sequence cursor then RU_Accepted else RU_ResyncRequired)
   \<and> eb_events (replay (router_new_at cursor limits)
       \<lparr>cu_broker_epoch = cu_broker_epoch cursor, cu_sequence = s\<rparr> scope) = []"
  by (auto simp: replay_def router_new_at_def)

section \<open>Witnesses\<close>

text \<open>Two changes of one page arrive and coalesce into one retained event.\<close>

definition demo_page_event :: "event_sequence \<Rightarrow> string \<Rightarrow> string event_record" where
  "demo_page_event s name =
     \<lparr>ev_protocol = 1, ev_event_id = name, ev_broker_epoch = 7, ev_sequence = s,
      ev_scope = scope_space ''spc_a'', ev_event = EK_PageChanged,
      ev_generation = \<lparr>gw_space_generation = 1, gw_page_generation = 1, gw_navigation_generation = 1,
        gw_document_generation = 1, gw_snapshot_version = None,
        gw_metadata = Some (metadata_for_event EK_PageChanged attribution_broker)\<rparr>,
      ev_dirty_reason = None, ev_coalesced = False, ev_resync_required = False, ev_payload = name\<rparr>"

definition demo_router :: "nat \<Rightarrow> string event_router" where
  "demo_router n =
     foldl (\<lambda>r e. fst (ingest r e)) (router_new_at \<lparr>cu_broker_epoch = 7, cu_sequence = 4\<rparr> (router_limits_new 1))
       (take n [demo_page_event 5 ''evt_a'', demo_page_event 6 ''evt_b''])"

lemmas router_eval =
  demo_page_event_def demo_router_def router_new_at_def router_limits_new_def takes_def ingest_def
  admit_event_def remember_event_id_def validate_routing_def event_validate_scope_def scope_validate_def
  scope_space_def scope_page_def scope_matches_def router_scope_matches_def PROTOCOL_VERSION_def
  event_metadata_of_def event_attribution_of_def metadata_validate_def metadata_for_event_def
  validate_for_scope_def attribution_broker_def checked_next_def checked_add64_def is_coalescible_def
  can_coalesce_def same_attribution_def merge_event_def coalesced_count_def saturating_add16_def
  MAX_COALESCED_COUNT_def router_cursor_def replay_def Let_def

lemma demo_takes:
  "takes (demo_router 0) (demo_page_event 5 ''evt_a'')"
  "takes (demo_router 1) (demo_page_event 6 ''evt_b'')"
  by (simp_all add: router_eval)

lemma demo_run_1: "router_run [demo_page_event 5 ''evt_a''] (demo_router 1)"
proof -
  have "router_run [] (demo_router 0)"
    unfolding demo_router_def by (simp add: router_run.run_start)
  from run_ingest [OF this, of "demo_page_event 5 ''evt_a''"] demo_takes(1) show ?thesis
    by (simp add: demo_router_def)
qed

lemma demo_run_2:
  "router_run [demo_page_event 5 ''evt_a'', demo_page_event 6 ''evt_b''] (demo_router 2)"
proof -
  from run_ingest [OF demo_run_1, of "demo_page_event 6 ''evt_b''"] demo_takes(2) show ?thesis
    by (simp add: demo_router_def)
qed

lemma demo_replay_accepted:
  "eb_result (replay (demo_router 2) \<lparr>cu_broker_epoch = 7, cu_sequence = 4\<rparr> (Some (scope_space ''spc_a''))) = RU_Accepted"
  by (simp add: router_eval)

lemma router_replay_complete_witness:
  "\<exists>e \<in> set (eb_events (replay (demo_router 2) \<lparr>cu_broker_epoch = 7, cu_sequence = 4\<rparr>
      (Some (scope_space ''spc_a'')))). ev_sequence e \<ge> 5 \<and> ev_event e = EK_PageChanged"
proof -
  have "is_none_or (Some (scope_space ''spc_a'')) (scope_matches (ev_scope (demo_page_event 5 ''evt_a'')))"
    by (simp add: router_eval)
  from router_replay_complete [OF demo_run_2 demo_replay_accepted _ _ this] show ?thesis
    by (auto simp: demo_page_event_def)
qed

lemma router_replay_sound_witness:
  "length (eb_events (replay (demo_router 2) \<lparr>cu_broker_epoch = 7, cu_sequence = 4\<rparr> None))
   \<le> rl_max_events (rt_limits (demo_router 2))"
  using router_replay_sound [OF demo_run_2, of "\<lparr>cu_broker_epoch = 7, cu_sequence = 4\<rparr>" None] by blast

definition demo_batch :: "string event_batch" where
  "demo_batch = \<lparr>eb_broker_epoch = 7, eb_result = RU_Accepted,
     eb_events = [demo_page_event 5 ''evt_a'', demo_page_event 8 ''evt_c''],
     eb_cursor = \<lparr>cu_broker_epoch = 7, cu_sequence = 9\<rparr>\<rparr>"

lemma router_batch_taken_witness:
  "rt_resync_required (fst (ingest_batch (demo_router 1) demo_batch))
   \<or> rt_sequence (fst (ingest_batch (demo_router 1) demo_batch)) = 9"
proof -
  have "snd (ingest_batch (demo_router 1) demo_batch) = RI_Accepted \<lparr>cu_broker_epoch = 7, cu_sequence = 9\<rparr>"
    by (simp add: ingest_batch_def demo_batch_def router_eval)
  then have "ingest_batch (demo_router 1) demo_batch
      = (fst (ingest_batch (demo_router 1) demo_batch), RI_Accepted \<lparr>cu_broker_epoch = 7, cu_sequence = 9\<rparr>)"
    by (metis prod.collapse)
  from router_batch_taken [OF this] show ?thesis by (simp add: demo_batch_def)
qed

lemma router_redelivery_idempotent_witness:
  "ingest (fst (ingest (demo_router 1) (demo_page_event 6 ''evt_b''))) (demo_page_event 6 ''evt_b'')
   = (fst (ingest (demo_router 1) (demo_page_event 6 ''evt_b'')),
      RI_Accepted (router_cursor (fst (ingest (demo_router 1) (demo_page_event 6 ''evt_b'')))))"
  using router_redelivery_idempotent [OF demo_run_1 demo_takes(2)] .

lemma router_resync_sticky_witness:
  "eb_events (replay (request_resync (demo_router 2)) \<lparr>cu_broker_epoch = 7, cu_sequence = 4\<rparr> None) = []"
proof -
  have "rt_resync_required (request_resync (demo_router 2))" by (simp add: request_resync_def)
  from router_resync_sticky [OF this] show ?thesis by blast
qed

end
