(* ===== verification/Scheduler.thy ===== *)
theory Scheduler
  imports Btree_Map Ids
begin

text \<open>
  Bounded admission of host operations (\<^verbatim>\<open>crates/agentyc-host/src/scheduler.rs\<close>): one mutation
  at a time in each space, a bounded number of reads, FIFO queues with bounds. Everything the
  scheduler does happens in critical sections of one mutex; a section is a function here, and
  the threads that interleave them are a step relation. A waiting caller is woken by the
  condition variable or by its own timeout of 25 ms (\<^verbatim>\<open>wait_for\<close>), so it may run the body of its
  loop again at any time: wake-ups need no state. The address of the \<^verbatim>\<open>Arc\<close> that stands for a
  waiting caller is a number that no other waiting caller has.
\<close>

section \<open>Model\<close>

record scheduler_limits =
  sl_max_concurrent_reads :: nat
  sl_max_queued_reads :: nat
  sl_max_queued_mutations :: nat
  sl_max_queued_mutations_per_space :: nat

definition scheduler_limits_default :: scheduler_limits where
  "scheduler_limits_default =
     \<lparr>sl_max_concurrent_reads = 8, sl_max_queued_reads = 64, sl_max_queued_mutations = 256,
      sl_max_queued_mutations_per_space = 32\<rparr>"

datatype backpressure_kind =
    BP_ReadQueueFull | BP_MutationQueueFull | BP_GlobalMutationQueueFull

datatype scheduler_wait_error =
    SW_Backpressure backpressure_kind | SW_Cancelled | SW_DeadlineExceeded

record scheduler_snapshot =
  sn_active_reads :: nat
  sn_queued_reads :: nat
  sn_active_mutations :: nat
  sn_queued_mutations :: nat

type_synonym wait_token = nat

record mutation_queue =
  mq_active :: bool
  mq_waiting :: "wait_token list"

record sched_state =
  ss_active_reads :: nat
  ss_read_queue :: "wait_token list"
  ss_mutations :: "(opaque_id, mutation_queue) btree"

definition mutation_queue_default :: mutation_queue where
  "mutation_queue_default = \<lparr>mq_active = False, mq_waiting = []\<rparr>"

definition sched_state_default :: sched_state where
  "sched_state_default = \<lparr>ss_active_reads = 0, ss_read_queue = [], ss_mutations = []\<rparr>"

definition scheduler_new :: "scheduler_limits \<Rightarrow> (string, sched_state) result" where
  "scheduler_new limits =
     (if sl_max_concurrent_reads limits = 0 then Err ''max_concurrent_reads must be greater than zero''
      else Ok sched_state_default)"

text \<open>How a critical section of an acquiring caller ends.\<close>

datatype acquire_outcome =
    AO_Permit
  | AO_Err scheduler_wait_error
  | AO_Wait
  | AO_Panic

text \<open>\<^verbatim>\<open>position\<close> and \<^verbatim>\<open>remove\<close>: the first occurrence goes.\<close>

definition remove_mutation_waiter :: "sched_state \<Rightarrow> opaque_id \<Rightarrow> wait_token \<Rightarrow> sched_state" where
  "remove_mutation_waiter state space_id token =
     (case bt_get (ss_mutations state) space_id of
       None \<Rightarrow> state
     | Some queue \<Rightarrow>
         (let queue = queue\<lparr>mq_waiting := remove1 token (mq_waiting queue)\<rparr> in
          if \<not> mq_active queue \<and> mq_waiting queue = [] then
            state\<lparr>ss_mutations := bt_remove space_id (ss_mutations state)\<rparr>
          else state\<lparr>ss_mutations := bt_insert space_id queue (ss_mutations state)\<rparr>))"

definition remove_read_waiter :: "sched_state \<Rightarrow> wait_token \<Rightarrow> sched_state" where
  "remove_read_waiter state token = state\<lparr>ss_read_queue := remove1 token (ss_read_queue state)\<rparr>"

definition is_front :: "wait_token list \<Rightarrow> wait_token \<Rightarrow> bool" where
  "is_front queue token = (case queue of [] \<Rightarrow> False | front # _ \<Rightarrow> front = token)"

text \<open>The body of the waiting loop of \<^verbatim>\<open>acquire_mutation_inner\<close>.\<close>

definition mutation_poll ::
  "opaque_id \<Rightarrow> wait_token \<Rightarrow> bool \<Rightarrow> bool \<Rightarrow> sched_state \<Rightarrow> sched_state \<times> acquire_outcome" where
  "mutation_poll space_id token cancelled expired state =
     (if cancelled then (remove_mutation_waiter state space_id token, AO_Err SW_Cancelled)
      else if expired then (remove_mutation_waiter state space_id token, AO_Err SW_DeadlineExceeded)
      else case bt_get (ss_mutations state) space_id of
        None \<Rightarrow> (state, AO_Panic)
      | Some queue \<Rightarrow>
          if \<not> mq_active queue \<and> is_front (mq_waiting queue) token then
            (state\<lparr>ss_mutations := bt_insert space_id
                (queue\<lparr>mq_waiting := tl (mq_waiting queue), mq_active := True\<rparr>) (ss_mutations state)\<rparr>,
             AO_Permit)
          else (state, AO_Wait))"

definition queued_mutations :: "sched_state \<Rightarrow> nat" where
  "queued_mutations state = sum_list (map (\<lambda>queue. length (mq_waiting queue)) (bt_values (ss_mutations state)))"

text \<open>\<^verbatim>\<open>acquire_mutation_inner\<close> up to the end of its first critical section.\<close>

definition acquire_mutation ::
  "scheduler_limits \<Rightarrow> opaque_id \<Rightarrow> wait_token \<Rightarrow> bool \<Rightarrow> bool \<Rightarrow> sched_state \<Rightarrow> sched_state \<times> acquire_outcome" where
  "acquire_mutation limits space_id token cancelled expired state =
     (let queue = bt_entry mutation_queue_default (ss_mutations state) space_id;
          state = state\<lparr>ss_mutations := bt_insert space_id queue (ss_mutations state)\<rparr> in
      if \<not> mq_active queue \<and> mq_waiting queue = [] then
        (state\<lparr>ss_mutations := bt_insert space_id (queue\<lparr>mq_active := True\<rparr>) (ss_mutations state)\<rparr>, AO_Permit)
      else if length (mq_waiting queue) \<ge> sl_max_queued_mutations_per_space limits then
        (state, AO_Err (SW_Backpressure BP_MutationQueueFull))
      else if queued_mutations state \<ge> sl_max_queued_mutations limits then
        (state, AO_Err (SW_Backpressure BP_GlobalMutationQueueFull))
      else
        mutation_poll space_id token cancelled expired
          (state\<lparr>ss_mutations := bt_insert space_id
             (queue\<lparr>mq_waiting := mq_waiting queue @ [token]\<rparr>) (ss_mutations state)\<rparr>))"

text \<open>The \<^verbatim>\<open>Drop\<close> of a mutation permit.\<close>

definition release_mutation :: "opaque_id \<Rightarrow> sched_state \<Rightarrow> sched_state" where
  "release_mutation space_id state =
     (case bt_get (ss_mutations state) space_id of
       None \<Rightarrow> state
     | Some queue \<Rightarrow>
         if mq_waiting queue = [] then
           state\<lparr>ss_mutations := bt_remove space_id (ss_mutations state)\<rparr>
         else state\<lparr>ss_mutations := bt_insert space_id (queue\<lparr>mq_active := False\<rparr>) (ss_mutations state)\<rparr>)"

definition read_poll ::
  "scheduler_limits \<Rightarrow> wait_token \<Rightarrow> bool \<Rightarrow> bool \<Rightarrow> sched_state \<Rightarrow> sched_state \<times> acquire_outcome" where
  "read_poll limits token cancelled expired state =
     (if cancelled then (remove_read_waiter state token, AO_Err SW_Cancelled)
      else if expired then (remove_read_waiter state token, AO_Err SW_DeadlineExceeded)
      else if ss_active_reads state < sl_max_concurrent_reads limits \<and> is_front (ss_read_queue state) token then
        (state\<lparr>ss_read_queue := tl (ss_read_queue state), ss_active_reads := ss_active_reads state + 1\<rparr>,
         AO_Permit)
      else (state, AO_Wait))"

definition acquire_read ::
  "scheduler_limits \<Rightarrow> wait_token \<Rightarrow> bool \<Rightarrow> bool \<Rightarrow> sched_state \<Rightarrow> sched_state \<times> acquire_outcome" where
  "acquire_read limits token cancelled expired state =
     (if ss_active_reads state < sl_max_concurrent_reads limits \<and> ss_read_queue state = [] then
        (state\<lparr>ss_active_reads := ss_active_reads state + 1\<rparr>, AO_Permit)
      else if length (ss_read_queue state) \<ge> sl_max_queued_reads limits then
        (state, AO_Err (SW_Backpressure BP_ReadQueueFull))
      else read_poll limits token cancelled expired
        (state\<lparr>ss_read_queue := ss_read_queue state @ [token]\<rparr>))"

text \<open>The \<^verbatim>\<open>Drop\<close> of a read permit; the subtraction must not underflow.\<close>

definition release_read :: "sched_state \<Rightarrow> sched_state option" where
  "release_read state =
     (if ss_active_reads state = 0 then None
      else Some (state\<lparr>ss_active_reads := ss_active_reads state - 1\<rparr>))"

definition snapshot :: "sched_state \<Rightarrow> scheduler_snapshot" where
  "snapshot state =
     \<lparr>sn_active_reads = ss_active_reads state,
      sn_queued_reads = length (ss_read_queue state),
      sn_active_mutations = length (filter mq_active (bt_values (ss_mutations state))),
      sn_queued_mutations = queued_mutations state\<rparr>"

section \<open>Callers\<close>

text \<open>
  A caller is one call to an acquire method with the permit it may return. Cancellation and the
  deadline are the environment's: a section may see any value of them.
\<close>

datatype caller =
    CA_Idle
  | CA_WaitMutation opaque_id wait_token
  | CA_HoldMutation opaque_id
  | CA_WaitRead wait_token
  | CA_HoldRead
  | CA_Panicked

record sched_system =
  sy_state :: sched_state
  sy_callers :: "nat \<Rightarrow> caller"

fun after_mutation :: "opaque_id \<Rightarrow> wait_token \<Rightarrow> acquire_outcome \<Rightarrow> caller" where
  "after_mutation space_id token AO_Permit = CA_HoldMutation space_id"
| "after_mutation space_id token (AO_Err e) = CA_Idle"
| "after_mutation space_id token AO_Wait = CA_WaitMutation space_id token"
| "after_mutation space_id token AO_Panic = CA_Panicked"

fun after_read :: "wait_token \<Rightarrow> acquire_outcome \<Rightarrow> caller" where
  "after_read token AO_Permit = CA_HoldRead"
| "after_read token (AO_Err e) = CA_Idle"
| "after_read token AO_Wait = CA_WaitRead token"
| "after_read token AO_Panic = CA_Panicked"

definition waits_with :: "(nat \<Rightarrow> caller) \<Rightarrow> wait_token \<Rightarrow> bool" where
  "waits_with cs token \<longleftrightarrow> (\<exists>i. cs i = CA_WaitRead token \<or> (\<exists>sp. cs i = CA_WaitMutation sp token))"

text \<open>A step carries the space of the mutation permit that it grants, if it grants one.\<close>

inductive sched_step ::
  "scheduler_limits \<Rightarrow> sched_system \<Rightarrow> opaque_id option \<Rightarrow> sched_system \<Rightarrow> bool" for L where
  step_acquire_mutation:
    "\<lbrakk>sy_callers s i = CA_Idle; \<not> waits_with (sy_callers s) token;
      acquire_mutation L sp token c d (sy_state s) = (st, out)\<rbrakk> \<Longrightarrow>
     sched_step L s (if out = AO_Permit then Some sp else None)
       \<lparr>sy_state = st, sy_callers = (sy_callers s)(i := after_mutation sp token out)\<rparr>"
| step_poll_mutation:
    "\<lbrakk>sy_callers s i = CA_WaitMutation sp token;
      mutation_poll sp token c d (sy_state s) = (st, out)\<rbrakk> \<Longrightarrow>
     sched_step L s (if out = AO_Permit then Some sp else None)
       \<lparr>sy_state = st, sy_callers = (sy_callers s)(i := after_mutation sp token out)\<rparr>"
| step_release_mutation:
    "sy_callers s i = CA_HoldMutation sp \<Longrightarrow>
     sched_step L s None
       \<lparr>sy_state = release_mutation sp (sy_state s), sy_callers = (sy_callers s)(i := CA_Idle)\<rparr>"
| step_acquire_read:
    "\<lbrakk>sy_callers s i = CA_Idle; \<not> waits_with (sy_callers s) token;
      acquire_read L token c d (sy_state s) = (st, out)\<rbrakk> \<Longrightarrow>
     sched_step L s None
       \<lparr>sy_state = st, sy_callers = (sy_callers s)(i := after_read token out)\<rparr>"
| step_poll_read:
    "\<lbrakk>sy_callers s i = CA_WaitRead token; read_poll L token c d (sy_state s) = (st, out)\<rbrakk> \<Longrightarrow>
     sched_step L s None
       \<lparr>sy_state = st, sy_callers = (sy_callers s)(i := after_read token out)\<rparr>"
| step_release_read:
    "\<lbrakk>sy_callers s i = CA_HoldRead; release_read (sy_state s) = Some st\<rbrakk> \<Longrightarrow>
     sched_step L s None \<lparr>sy_state = st, sy_callers = (sy_callers s)(i := CA_Idle)\<rparr>"
| step_release_read_panic:
    "\<lbrakk>sy_callers s i = CA_HoldRead; release_read (sy_state s) = None\<rbrakk> \<Longrightarrow>
     sched_step L s None (s\<lparr>sy_callers := (sy_callers s)(i := CA_Panicked)\<rparr>)"

inductive sched_reachable :: "scheduler_limits \<Rightarrow> sched_system \<Rightarrow> bool" for L where
  reach_start: "scheduler_new L = Inr st \<Longrightarrow> sched_reachable L \<lparr>sy_state = st, sy_callers = \<lambda>_. CA_Idle\<rparr>"
| reach_step: "sched_reachable L s \<Longrightarrow> sched_step L s g s' \<Longrightarrow> sched_reachable L s'"

section \<open>Queues\<close>

text \<open>Every section rewrites at most the queue of one space, and drops it when it is the default.\<close>

abbreviation queue_at :: "sched_state \<Rightarrow> opaque_id \<Rightarrow> mutation_queue" where
  "queue_at st sp \<equiv> bt_entry mutation_queue_default (ss_mutations st) sp"

definition stored :: "sched_state \<Rightarrow> bool" where
  "stored st \<longleftrightarrow> bt_wf (ss_mutations st)
     \<and> (\<forall>sp q. bt_get (ss_mutations st) sp = Some q \<longrightarrow> mq_active q \<or> mq_waiting q \<noteq> [])"

definition store_queue :: "opaque_id \<Rightarrow> mutation_queue \<Rightarrow> sched_state \<Rightarrow> sched_state" where
  "store_queue sp q st =
     st\<lparr>ss_mutations := if \<not> mq_active q \<and> mq_waiting q = [] then bt_remove sp (ss_mutations st)
                        else bt_insert sp q (ss_mutations st)\<rparr>"

lemma default_queue_iff: "q = mutation_queue_default \<longleftrightarrow> \<not> mq_active q \<and> mq_waiting q = []"
  by (cases q) (auto simp: mutation_queue_default_def)

lemma default_queue_sel [simp]:
  "\<not> mq_active mutation_queue_default" "mq_waiting mutation_queue_default = []"
  by (simp_all add: mutation_queue_default_def)

lemma queue_at_store:
  "stored st \<Longrightarrow> queue_at (store_queue sp q st) sp' = (if sp' = sp then q else queue_at st sp')"
  using default_queue_iff [of q]
  by (auto simp: stored_def store_queue_def bt_entry_def bt_get_insert bt_get_remove)

lemma stored_store: "stored st \<Longrightarrow> stored (store_queue sp q st)"
  by (auto simp: stored_def store_queue_def bt_get_insert bt_get_remove bt_wf_insert bt_wf_remove split: if_splits)

lemma store_queue_reads [simp]:
  "ss_active_reads (store_queue sp q st) = ss_active_reads st"
  "ss_read_queue (store_queue sp q st) = ss_read_queue st"
  by (simp_all add: store_queue_def)

lemma queued_mutations_store:
  assumes "stored st"
  shows "queued_mutations (store_queue sp q st) + length (mq_waiting (queue_at st sp))
    = queued_mutations st + length (mq_waiting q)"
proof -
  let ?f = "\<lambda>q. length (mq_waiting q)"
  have wf: "bt_wf (ss_mutations st)" using assms by (simp add: stored_def)
  have "(case bt_get (ss_mutations st) sp of None \<Rightarrow> 0 | Some w \<Rightarrow> ?f w) = ?f (queue_at st sp)"
    by (auto simp: bt_entry_def split: option.splits)
  with sum_list_bt_insert [OF wf, of ?f sp q] sum_list_bt_remove [OF wf, of ?f sp] show ?thesis
    by (auto simp: queued_mutations_def store_queue_def bt_values_def comp_def)
qed

lemma store_queue_same: "stored st \<Longrightarrow> store_queue sp (queue_at st sp) st = st"
  by (cases "bt_get (ss_mutations st) sp")
    (auto simp: stored_def store_queue_def bt_remove_absent bt_insert_same)

lemma queue_at_active:
  assumes "mq_active (queue_at st sp) \<or> mq_waiting (queue_at st sp) \<noteq> []"
  obtains q where "bt_get (ss_mutations st) sp = Some q" "queue_at st sp = q"
  using assms by (cases "bt_get (ss_mutations st) sp") auto

text \<open>The effect of each section on the queue of its space.\<close>

lemma poll_effect:
  assumes st: "stored st" and tok: "tok \<in> set (mq_waiting (queue_at st sp))"
    and p: "mutation_poll sp tok c d st = (st', out)"
  shows "(\<exists>e. out = AO_Err e) \<and> (\<not> c \<longrightarrow> d)
        \<and> st' = store_queue sp ((queue_at st sp)\<lparr>mq_waiting := remove1 tok (mq_waiting (queue_at st sp))\<rparr>) st
    \<or> out = AO_Permit \<and> \<not> mq_active (queue_at st sp)
        \<and> (\<exists>ws. mq_waiting (queue_at st sp) = tok # ws
             \<and> st' = store_queue sp ((queue_at st sp)\<lparr>mq_waiting := ws, mq_active := True\<rparr>) st)
    \<or> out = AO_Wait \<and> st' = st \<and> (\<not> mq_active (queue_at st sp) \<longrightarrow> hd (mq_waiting (queue_at st sp)) \<noteq> tok)"
proof -
  obtain q where g: "bt_get (ss_mutations st) sp = Some q" and q: "queue_at st sp = q"
    using tok queue_at_active [of st sp] by (metis empty_iff set_empty2)
  show ?thesis
    using p tok unfolding q
    by (cases "mq_waiting q")
      (auto simp: mutation_poll_def remove_mutation_waiter_def store_queue_def is_front_def Let_def g
        split: if_splits)
qed

lemma acquire_effect:
  assumes st: "stored st" and tok: "tok \<notin> set (mq_waiting (queue_at st sp))"
    and p: "acquire_mutation L sp tok c d st = (st', out)"
  shows "out = AO_Permit \<and> queue_at st sp = mutation_queue_default
        \<and> st' = store_queue sp ((queue_at st sp)\<lparr>mq_active := True\<rparr>) st
    \<or> (\<exists>e. out = AO_Err e) \<and> st' = st
    \<or> out = AO_Wait \<and> (\<not> mq_active (queue_at st sp) \<longrightarrow> mq_waiting (queue_at st sp) \<noteq> [])
        \<and> length (mq_waiting (queue_at st sp)) < sl_max_queued_mutations_per_space L
        \<and> queued_mutations st < sl_max_queued_mutations L
        \<and> st' = store_queue sp ((queue_at st sp)\<lparr>mq_waiting := mq_waiting (queue_at st sp) @ [tok]\<rparr>) st"
proof -
  have wf: "bt_wf (ss_mutations st)" using st by (simp add: stored_def)
  define q where "q = queue_at st sp"
  have tok': "tok \<notin> set (mq_waiting q)" using tok unfolding q_def .
  define si where "si = st\<lparr>ss_mutations := bt_insert sp q (ss_mutations st)\<rparr>"
  have unf: "(st', out) =
     (if \<not> mq_active q \<and> mq_waiting q = [] then
        (si\<lparr>ss_mutations := bt_insert sp (q\<lparr>mq_active := True\<rparr>) (ss_mutations si)\<rparr>, AO_Permit)
      else if length (mq_waiting q) \<ge> sl_max_queued_mutations_per_space L then
        (si, AO_Err (SW_Backpressure BP_MutationQueueFull))
      else if queued_mutations si \<ge> sl_max_queued_mutations L then
        (si, AO_Err (SW_Backpressure BP_GlobalMutationQueueFull))
      else mutation_poll sp tok c d
          (si\<lparr>ss_mutations := bt_insert sp (q\<lparr>mq_waiting := mq_waiting q @ [tok]\<rparr>) (ss_mutations si)\<rparr>))"
    using p unfolding acquire_mutation_def Let_def q_def [symmetric] si_def [symmetric] by (rule sym)
  show ?thesis
  proof (cases "\<not> mq_active q \<and> mq_waiting q = []")
    case True
    then show ?thesis
      using unf wf default_queue_iff [of q]
      unfolding q_def [symmetric] by (simp add: si_def store_queue_def bt_insert_twice)
  next
    case False
    then have "bt_get (ss_mutations st) sp = Some q"
      using queue_at_active [of st sp] unfolding q_def [symmetric] by metis
    then have si: "si = st" using wf by (simp add: bt_insert_same si_def)
    define q' where "q' = q\<lparr>mq_waiting := mq_waiting q @ [tok]\<rparr>"
    define sq where "sq = st\<lparr>ss_mutations := bt_insert sp q' (ss_mutations st)\<rparr>"
    have sq: "sq = store_queue sp q' st" by (simp add: sq_def store_queue_def q'_def)
    have qq: "queue_at sq sp = q'" using st by (simp add: sq queue_at_store)
    have undo: "store_queue sp q sq = st"
      using False wf si by (auto simp: si_def sq_def store_queue_def bt_insert_twice)
    have cases: "(st', out) = (if length (mq_waiting q) \<ge> sl_max_queued_mutations_per_space L then
          (st, AO_Err (SW_Backpressure BP_MutationQueueFull))
        else if queued_mutations st \<ge> sl_max_queued_mutations L then
          (st, AO_Err (SW_Backpressure BP_GlobalMutationQueueFull))
        else mutation_poll sp tok c d sq)"
      using unf False unfolding si sq_def q'_def by simp
    have poll: "(\<exists>e. out = AO_Err e) \<and> st' = st \<or> out = AO_Wait \<and> st' = sq"
      if "mutation_poll sp tok c d sq = (st', out)"
    proof -
      have "remove1 tok (mq_waiting q') = mq_waiting q" using tok' by (simp add: q'_def remove1_append)
      then have r: "q'\<lparr>mq_waiting := remove1 tok (mq_waiting q')\<rparr> = q" by (simp add: q'_def)
      have n: "mq_active q' \<or> hd (mq_waiting q') \<noteq> tok"
        using False tok' by (cases "mq_waiting q") (auto simp: q'_def)
      have "stored sq" "tok \<in> set (mq_waiting (queue_at sq sp))"
        using st by (simp_all add: qq q'_def sq stored_store queue_at_store)
      from poll_effect [OF this that] show ?thesis unfolding qq r undo using n by auto
    qed
    have "mq_active q \<or> mq_waiting q \<noteq> []" using False by blast
    with cases poll show ?thesis
      unfolding q_def [symmetric] q'_def [symmetric] sq [symmetric] by (auto simp: not_le split: if_splits)
  qed
qed

lemma release_effect:
  "stored st \<Longrightarrow> release_mutation sp st = store_queue sp ((queue_at st sp)\<lparr>mq_active := False\<rparr>) st"
  by (cases "bt_get (ss_mutations st) sp")
    (auto simp: release_mutation_def store_queue_def bt_remove_absent mutation_queue_default_def)

section \<open>Invariant\<close>

definition queue_ok :: "(nat \<Rightarrow> caller) \<Rightarrow> opaque_id \<Rightarrow> mutation_queue \<Rightarrow> bool" where
  "queue_ok cs sp q \<longleftrightarrow>
     (mq_active q \<longleftrightarrow> (\<exists>i. cs i = CA_HoldMutation sp))
     \<and> (\<forall>i j. cs i = CA_HoldMutation sp \<and> cs j = CA_HoldMutation sp \<longrightarrow> i = j)
     \<and> distinct (mq_waiting q) \<and> set (mq_waiting q) = {tok. \<exists>i. cs i = CA_WaitMutation sp tok}"

definition reads_ok :: "scheduler_limits \<Rightarrow> (nat \<Rightarrow> caller) \<Rightarrow> nat \<Rightarrow> wait_token list \<Rightarrow> bool" where
  "reads_ok L cs n rq \<longleftrightarrow>
     finite {i. cs i = CA_HoldRead} \<and> n = card {i. cs i = CA_HoldRead} \<and> n \<le> sl_max_concurrent_reads L
     \<and> distinct rq \<and> set rq = {tok. \<exists>i. cs i = CA_WaitRead tok} \<and> length rq \<le> sl_max_queued_reads L"

definition tokens_ok :: "(nat \<Rightarrow> caller) \<Rightarrow> bool" where
  "tokens_ok cs \<longleftrightarrow> (\<forall>i j tok.
     (cs i = CA_WaitRead tok \<or> (\<exists>sp. cs i = CA_WaitMutation sp tok)) \<longrightarrow>
     (cs j = CA_WaitRead tok \<or> (\<exists>sp. cs j = CA_WaitMutation sp tok)) \<longrightarrow> i = j)"

definition sched_inv :: "scheduler_limits \<Rightarrow> sched_system \<Rightarrow> bool" where
  "sched_inv L s \<longleftrightarrow>
     stored (sy_state s) \<and> tokens_ok (sy_callers s) \<and> (\<forall>i. sy_callers s i \<noteq> CA_Panicked)
     \<and> (\<forall>sp. queue_ok (sy_callers s) sp (queue_at (sy_state s) sp)
          \<and> length (mq_waiting (queue_at (sy_state s) sp)) \<le> sl_max_queued_mutations_per_space L)
     \<and> queued_mutations (sy_state s) \<le> sl_max_queued_mutations L
     \<and> reads_ok L (sy_callers s) (ss_active_reads (sy_state s)) (ss_read_queue (sy_state s))"

text \<open>A caller that has nothing to do with a space or with reads leaves them alone.\<close>

definition about_space :: "opaque_id \<Rightarrow> caller \<Rightarrow> bool" where
  "about_space sp c \<longleftrightarrow> c = CA_HoldMutation sp \<or> (\<exists>tok. c = CA_WaitMutation sp tok)"

definition about_reads :: "caller \<Rightarrow> bool" where
  "about_reads c \<longleftrightarrow> c = CA_HoldRead \<or> (\<exists>tok. c = CA_WaitRead tok)"

lemma queue_ok_frame:
  assumes "\<not> about_space sp (cs i)" "\<not> about_space sp c"
  shows "queue_ok (cs(i := c)) sp q = queue_ok cs sp q"
proof -
  have "((cs(i := c)) j = CA_HoldMutation sp) = (cs j = CA_HoldMutation sp)"
    "((cs(i := c)) j = CA_WaitMutation sp tok) = (cs j = CA_WaitMutation sp tok)" for j tok
    using assms by (auto simp: about_space_def)
  then show ?thesis unfolding queue_ok_def by presburger
qed

lemma reads_ok_frame:
  assumes "\<not> about_reads (cs i)" "\<not> about_reads c"
  shows "reads_ok L (cs(i := c)) n rq = reads_ok L cs n rq"
proof -
  have "((cs(i := c)) j = CA_HoldRead) = (cs j = CA_HoldRead)"
    "((cs(i := c)) j = CA_WaitRead tok) = (cs j = CA_WaitRead tok)" for j tok
    using assms by (auto simp: about_reads_def)
  then show ?thesis unfolding reads_ok_def by presburger
qed

text \<open>Tokens stay unique when a caller stops waiting, goes on waiting, or waits with a new token.\<close>

lemma tokens_ok_stop:
  "tokens_ok cs \<Longrightarrow> (\<forall>tok. c \<noteq> CA_WaitRead tok) \<Longrightarrow> (\<forall>sp tok. c \<noteq> CA_WaitMutation sp tok) \<Longrightarrow>
   tokens_ok (cs(i := c))"
  unfolding tokens_ok_def by (auto split: if_splits)

lemma tokens_ok_new:
  assumes "tokens_ok cs" "\<not> waits_with cs tok" "c = CA_WaitRead tok \<or> c = CA_WaitMutation sp tok"
  shows "tokens_ok (cs(i := c))"
  unfolding tokens_ok_def
proof (intro allI impI)
  fix j k t
  let ?w = "\<lambda>cs j t. cs j = CA_WaitRead t \<or> (\<exists>sp. cs j = CA_WaitMutation sp t)"
  assume a: "?w (cs(i := c)) j t" "?w (cs(i := c)) k t"
  have n: "\<not> ?w cs x tok" for x using assms(2) by (auto simp: waits_with_def)
  show "j = k"
  proof (cases "t = tok")
    case True
    with a n have "j = i" "k = i" by (auto split: if_splits)
    then show ?thesis by simp
  next
    case False
    with a assms(3) have "?w cs j t" "?w cs k t" by (auto split: if_splits)
    with assms(1) show ?thesis unfolding tokens_ok_def by blast
  qed
qed

text \<open>How the queue of a space follows its callers.\<close>

lemma queue_ok_grant:
  "queue_ok cs sp q \<Longrightarrow> \<not> mq_active q \<Longrightarrow> \<not> about_space sp (cs i) \<Longrightarrow>
   queue_ok (cs(i := CA_HoldMutation sp)) sp (q\<lparr>mq_active := True\<rparr>)"
  unfolding queue_ok_def about_space_def by (auto split: if_splits)

lemma queue_ok_enqueue:
  assumes "queue_ok cs sp q" "\<not> about_space sp (cs i)" "tok \<notin> set (mq_waiting q)"
  shows "queue_ok (cs(i := CA_WaitMutation sp tok)) sp (q\<lparr>mq_waiting := mq_waiting q @ [tok]\<rparr>)"
  using assms unfolding queue_ok_def about_space_def by (auto split: if_splits)

lemma queue_ok_leave:
  assumes q: "queue_ok cs sp q" and t: "tokens_ok cs" and i: "cs i = CA_WaitMutation sp tok"
    and c: "\<not> about_space sp c"
  shows "queue_ok (cs(i := c)) sp (q\<lparr>mq_waiting := remove1 tok (mq_waiting q)\<rparr>)"
proof -
  have only: "cs j = CA_WaitMutation sp tok \<longleftrightarrow> j = i" for j
    using t i unfolding tokens_ok_def by blast
  have "(\<exists>j. (cs(i := c)) j = CA_WaitMutation sp t) \<longleftrightarrow> (\<exists>j. cs j = CA_WaitMutation sp t) \<and> t \<noteq> tok" for t
    using only i c unfolding about_space_def by (metis caller.inject(1) fun_upd_apply)
  then have "{t. \<exists>j. (cs(i := c)) j = CA_WaitMutation sp t} = {t. \<exists>j. cs j = CA_WaitMutation sp t} - {tok}"
    by blast
  moreover have "((cs(i := c)) j = CA_HoldMutation sp) = (cs j = CA_HoldMutation sp)" for j
    using i c by (auto simp: about_space_def)
  ultimately show ?thesis using q unfolding queue_ok_def by (simp add: set_remove1_eq)
qed

lemma queue_ok_next:
  assumes q: "queue_ok cs sp q" and t: "tokens_ok cs" and i: "cs i = CA_WaitMutation sp tok"
    and w: "mq_waiting q = tok # ws" and a: "\<not> mq_active q"
  shows "queue_ok (cs(i := CA_HoldMutation sp)) sp (q\<lparr>mq_waiting := ws, mq_active := True\<rparr>)"
proof -
  have "queue_ok (cs(i := CA_Idle)) sp (q\<lparr>mq_waiting := ws\<rparr>)"
    using queue_ok_leave [OF q t i, of CA_Idle] w by (simp add: about_space_def)
  from queue_ok_grant [OF this, of i] show ?thesis using a by (simp add: about_space_def)
qed

lemma queue_ok_release:
  assumes "queue_ok cs sp q" "cs i = CA_HoldMutation sp"
  shows "queue_ok (cs(i := CA_Idle)) sp (q\<lparr>mq_active := False\<rparr>)"
proof -
  have "((cs(i := CA_Idle)) j = CA_WaitMutation sp t) = (cs j = CA_WaitMutation sp t)" for j t
    using assms(2) by auto
  moreover have "(cs(i := CA_Idle)) j \<noteq> CA_HoldMutation sp" for j
    using assms unfolding queue_ok_def by (cases "j = i") auto
  ultimately show ?thesis using assms(1) unfolding queue_ok_def by simp
qed

text \<open>Rewriting the queue of one space keeps the invariant if it keeps that queue's.\<close>

lemma sched_inv_store:
  assumes inv: "sched_inv L s" and i: "\<forall>sp'. sp' \<noteq> sp \<longrightarrow> \<not> about_space sp' (sy_callers s i) \<and> \<not> about_space sp' c"
    and r: "\<not> about_reads (sy_callers s i)" "\<not> about_reads c" "c \<noteq> CA_Panicked"
    and t: "tokens_ok ((sy_callers s)(i := c))" and q: "queue_ok ((sy_callers s)(i := c)) sp q"
    and len: "length (mq_waiting q) \<le> sl_max_queued_mutations_per_space L"
    and tot: "length (mq_waiting q) \<le> length (mq_waiting (queue_at (sy_state s) sp))
      \<or> length (mq_waiting q) \<le> Suc (length (mq_waiting (queue_at (sy_state s) sp)))
        \<and> queued_mutations (sy_state s) < sl_max_queued_mutations L"
  shows "sched_inv L \<lparr>sy_state = store_queue sp q (sy_state s), sy_callers = (sy_callers s)(i := c)\<rparr>"
proof -
  have st: "stored (sy_state s)" using inv by (simp add: sched_inv_def)
  have "queued_mutations (store_queue sp q (sy_state s)) \<le> sl_max_queued_mutations L"
    using queued_mutations_store [OF st, of sp q] tot inv by (auto simp: sched_inv_def)
  moreover have "queue_ok ((sy_callers s)(i := c)) sp' (queue_at (store_queue sp q (sy_state s)) sp')
      \<and> length (mq_waiting (queue_at (store_queue sp q (sy_state s)) sp')) \<le> sl_max_queued_mutations_per_space L"
    for sp'
    using q len i inv queue_ok_frame [of sp' "sy_callers s" i c]
    by (cases "sp' = sp") (simp_all add: queue_at_store [OF st] sched_inv_def)
  ultimately show ?thesis
    using inv r t by (simp add: sched_inv_def stored_store reads_ok_frame)
qed

lemma inv_acquire_mutation:
  assumes inv: "sched_inv L s" and i: "sy_callers s i = CA_Idle" and f: "\<not> waits_with (sy_callers s) tok"
    and a: "acquire_mutation L sp tok c d (sy_state s) = (st, out)"
  shows "sched_inv L \<lparr>sy_state = st, sy_callers = (sy_callers s)(i := after_mutation sp tok out)\<rparr>"
proof -
  let ?cs = "sy_callers s" and ?q = "queue_at (sy_state s) sp"
  have st: "stored (sy_state s)" and tk: "tokens_ok ?cs" and q: "queue_ok ?cs sp ?q"
    and len: "length (mq_waiting ?q) \<le> sl_max_queued_mutations_per_space L"
    using inv by (simp_all add: sched_inv_def)
  have new: "tok \<notin> set (mq_waiting ?q)" using q f by (auto simp: queue_ok_def waits_with_def)
  have na: "\<not> about_space sp' (?cs i)" "\<not> about_reads (?cs i)" for sp'
    by (simp_all add: i about_space_def about_reads_def)
  note ab = about_space_def about_reads_def
  from acquire_effect [OF st new a] show ?thesis
  proof (elim disjE conjE exE)
    assume o: "out = AO_Permit" "?q = mutation_queue_default" "st = store_queue sp (?q\<lparr>mq_active := True\<rparr>) (sy_state s)"
    have "queue_ok (?cs(i := CA_HoldMutation sp)) sp (?q\<lparr>mq_active := True\<rparr>)"
      using queue_ok_grant [OF q _ na(1)] o(2) by simp
    moreover have "tokens_ok (?cs(i := CA_HoldMutation sp))" using tk by (simp add: tokens_ok_stop)
    ultimately show ?thesis
      using sched_inv_store [OF inv, of sp i "CA_HoldMutation sp"] na len o(1,3) by (auto simp: ab i)
  next
    fix e
    assume o: "out = AO_Err e" "st = sy_state s"
    have "?cs(i := CA_Idle) = ?cs" using i by auto
    then show ?thesis using inv o by (simp add: sched_inv_def)
  next
    assume o: "out = AO_Wait" "length (mq_waiting ?q) < sl_max_queued_mutations_per_space L"
      "queued_mutations (sy_state s) < sl_max_queued_mutations L"
      "st = store_queue sp (?q\<lparr>mq_waiting := mq_waiting ?q @ [tok]\<rparr>) (sy_state s)"
    have "queue_ok (?cs(i := CA_WaitMutation sp tok)) sp (?q\<lparr>mq_waiting := mq_waiting ?q @ [tok]\<rparr>)"
      using queue_ok_enqueue [OF q na(1) new] .
    moreover have "tokens_ok (?cs(i := CA_WaitMutation sp tok))" using tokens_ok_new [OF tk f] by blast
    ultimately show ?thesis
      using sched_inv_store [OF inv, of sp i "CA_WaitMutation sp tok"] na o by (auto simp: ab i)
  qed
qed

lemma inv_poll_mutation:
  assumes inv: "sched_inv L s" and i: "sy_callers s i = CA_WaitMutation sp tok"
    and a: "mutation_poll sp tok c d (sy_state s) = (st, out)"
  shows "sched_inv L \<lparr>sy_state = st, sy_callers = (sy_callers s)(i := after_mutation sp tok out)\<rparr>"
proof -
  let ?cs = "sy_callers s" and ?q = "queue_at (sy_state s) sp"
  have st: "stored (sy_state s)" and tk: "tokens_ok ?cs" and q: "queue_ok ?cs sp ?q"
    and len: "length (mq_waiting ?q) \<le> sl_max_queued_mutations_per_space L"
    using inv by (simp_all add: sched_inv_def)
  have old: "tok \<in> set (mq_waiting ?q)" using q i by (auto simp: queue_ok_def)
  note ab = about_space_def about_reads_def
  from poll_effect [OF st old a] show ?thesis
  proof (elim disjE conjE exE)
    fix e
    assume o: "out = AO_Err e" "st = store_queue sp (?q\<lparr>mq_waiting := remove1 tok (mq_waiting ?q)\<rparr>) (sy_state s)"
    have l: "length (remove1 tok (mq_waiting ?q)) \<le> length (mq_waiting ?q)" by (simp add: length_remove1)
    have "queue_ok (?cs(i := CA_Idle)) sp (?q\<lparr>mq_waiting := remove1 tok (mq_waiting ?q)\<rparr>)"
      using queue_ok_leave [OF q tk i] by (simp add: ab)
    moreover have "tokens_ok (?cs(i := CA_Idle))" using tk by (simp add: tokens_ok_stop)
    ultimately show ?thesis
      using sched_inv_store [OF inv, of sp i CA_Idle] l len o by (auto simp: ab i)
  next
    fix ws
    assume o: "out = AO_Permit" "\<not> mq_active ?q" "mq_waiting ?q = tok # ws"
      "st = store_queue sp (?q\<lparr>mq_waiting := ws, mq_active := True\<rparr>) (sy_state s)"
    have "queue_ok (?cs(i := CA_HoldMutation sp)) sp (?q\<lparr>mq_waiting := ws, mq_active := True\<rparr>)"
      using queue_ok_next [OF q tk i o(3,2)] .
    moreover have "tokens_ok (?cs(i := CA_HoldMutation sp))" using tk by (simp add: tokens_ok_stop)
    ultimately show ?thesis
      using sched_inv_store [OF inv, of sp i "CA_HoldMutation sp"] len o by (auto simp: ab i)
  next
    assume o: "out = AO_Wait" "st = sy_state s"
    have "?cs(i := CA_WaitMutation sp tok) = ?cs" using i by auto
    then show ?thesis using inv o by (simp add: sched_inv_def)
  qed
qed

lemma inv_release_mutation:
  assumes inv: "sched_inv L s" and i: "sy_callers s i = CA_HoldMutation sp"
  shows "sched_inv L \<lparr>sy_state = release_mutation sp (sy_state s), sy_callers = (sy_callers s)(i := CA_Idle)\<rparr>"
proof -
  have st: "stored (sy_state s)" and tk: "tokens_ok (sy_callers s)"
    and q: "queue_ok (sy_callers s) sp (queue_at (sy_state s) sp)"
    and len: "length (mq_waiting (queue_at (sy_state s) sp)) \<le> sl_max_queued_mutations_per_space L"
    using inv by (simp_all add: sched_inv_def)
  have "tokens_ok ((sy_callers s)(i := CA_Idle))" using tk by (simp add: tokens_ok_stop)
  then show ?thesis
    using sched_inv_store [OF inv, of sp i CA_Idle] queue_ok_release [OF q i] len
    unfolding release_effect [OF st] by (auto simp: i about_space_def about_reads_def)
qed

text \<open>The same for reads.\<close>

lemma reads_ok_hold:
  assumes "reads_ok L cs n rq" "n < sl_max_concurrent_reads L" "\<not> about_reads (cs i)"
  shows "reads_ok L (cs(i := CA_HoldRead)) (n + 1) rq"
proof -
  have "{j. (cs(i := CA_HoldRead)) j = CA_HoldRead} = insert i {j. cs j = CA_HoldRead}" by auto
  moreover have "i \<notin> {j. cs j = CA_HoldRead}" using assms(3) by (simp add: about_reads_def)
  moreover have "((cs(i := CA_HoldRead)) j = CA_WaitRead t) = (cs j = CA_WaitRead t)" for j t
    using assms(3) by (auto simp: about_reads_def)
  ultimately show ?thesis using assms(1,2) unfolding reads_ok_def by simp
qed

lemma reads_ok_leave:
  assumes r: "reads_ok L cs n rq" and t: "tokens_ok cs" and i: "cs i = CA_WaitRead tok"
  shows "reads_ok L (cs(i := CA_Idle)) n (remove1 tok rq)"
proof -
  have only: "cs j = CA_WaitRead tok \<longleftrightarrow> j = i" for j using t i unfolding tokens_ok_def by blast
  have "(\<exists>j. (cs(i := CA_Idle)) j = CA_WaitRead t) \<longleftrightarrow> (\<exists>j. cs j = CA_WaitRead t) \<and> t \<noteq> tok" for t
    using only i by (metis caller.inject(3) caller.distinct(5) fun_upd_apply)
  then have "{t. \<exists>j. (cs(i := CA_Idle)) j = CA_WaitRead t} = {t. \<exists>j. cs j = CA_WaitRead t} - {tok}"
    by blast
  moreover have "((cs(i := CA_Idle)) j = CA_HoldRead) = (cs j = CA_HoldRead)" for j using i by auto
  ultimately show ?thesis
    using r unfolding reads_ok_def by (auto simp: set_remove1_eq length_remove1)
qed

lemma reads_ok_enqueue:
  assumes "reads_ok L cs n rq" "\<not> about_reads (cs i)" "tok \<notin> set rq" "length rq < sl_max_queued_reads L"
  shows "reads_ok L (cs(i := CA_WaitRead tok)) n (rq @ [tok])"
proof -
  have "((cs(i := CA_WaitRead tok)) j = CA_HoldRead) = (cs j = CA_HoldRead)" for j
    using assms(2) by (auto simp: about_reads_def)
  moreover have "{t. \<exists>j. (cs(i := CA_WaitRead tok)) j = CA_WaitRead t} = insert tok {t. \<exists>j. cs j = CA_WaitRead t}"
    using assms(2) by (auto simp: about_reads_def split: if_splits)
  ultimately show ?thesis using assms unfolding reads_ok_def by simp
qed

lemma reads_ok_release:
  assumes "reads_ok L cs n rq" "cs i = CA_HoldRead"
  shows "0 < n \<and> reads_ok L (cs(i := CA_Idle)) (n - 1) rq"
proof -
  have "{j. (cs(i := CA_Idle)) j = CA_HoldRead} = {j. cs j = CA_HoldRead} - {i}" by auto
  moreover have "i \<in> {j. cs j = CA_HoldRead}" using assms(2) by simp
  moreover have "((cs(i := CA_Idle)) j = CA_WaitRead t) = (cs j = CA_WaitRead t)" for j t
    using assms(2) by auto
  ultimately show ?thesis using assms(1) unfolding reads_ok_def
    by (auto simp: card_gt_0_iff)
qed

lemma sched_inv_reads:
  assumes inv: "sched_inv L s" and i: "\<forall>sp. \<not> about_space sp (sy_callers s i) \<and> \<not> about_space sp c"
    and c: "c \<noteq> CA_Panicked" and t: "tokens_ok ((sy_callers s)(i := c))"
    and m: "ss_mutations st = ss_mutations (sy_state s)"
    and r: "reads_ok L ((sy_callers s)(i := c)) (ss_active_reads st) (ss_read_queue st)"
  shows "sched_inv L \<lparr>sy_state = st, sy_callers = (sy_callers s)(i := c)\<rparr>"
proof -
  have "queue_ok ((sy_callers s)(i := c)) sp (queue_at st sp)" for sp
    using inv i queue_ok_frame [of sp "sy_callers s" i c] by (simp add: sched_inv_def m)
  then show ?thesis
    using inv c t r by (simp add: sched_inv_def stored_def queued_mutations_def m)
qed

lemma read_poll_effect:
  assumes p: "read_poll L tok c d st = (st', out)"
  shows "(\<exists>e. out = AO_Err e) \<and> st' = st\<lparr>ss_read_queue := remove1 tok (ss_read_queue st)\<rparr>
    \<or> out = AO_Permit \<and> ss_active_reads st < sl_max_concurrent_reads L
        \<and> (\<exists>ws. ss_read_queue st = tok # ws
             \<and> st' = st\<lparr>ss_read_queue := ws, ss_active_reads := ss_active_reads st + 1\<rparr>)
    \<or> out = AO_Wait \<and> st' = st"
  using p
  by (cases "ss_read_queue st") (auto simp: read_poll_def remove_read_waiter_def is_front_def split: if_splits)

lemma inv_poll_read:
  assumes inv: "sched_inv L s" and i: "sy_callers s i = CA_WaitRead tok"
    and a: "read_poll L tok c d (sy_state s) = (st, out)"
  shows "sched_inv L \<lparr>sy_state = st, sy_callers = (sy_callers s)(i := after_read tok out)\<rparr>"
proof -
  let ?cs = "sy_callers s" and ?n = "ss_active_reads (sy_state s)" and ?rq = "ss_read_queue (sy_state s)"
  have tk: "tokens_ok ?cs" and r: "reads_ok L ?cs ?n ?rq" using inv by (simp_all add: sched_inv_def)
  have lv: "reads_ok L (?cs(i := CA_Idle)) ?n (remove1 tok ?rq)" using reads_ok_leave [OF r tk i] .
  from read_poll_effect [OF a] show ?thesis
  proof (elim disjE conjE exE)
    fix e
    assume o: "out = AO_Err e" "st = (sy_state s)\<lparr>ss_read_queue := remove1 tok ?rq\<rparr>"
    show ?thesis
      using sched_inv_reads [OF inv, of i CA_Idle st] tokens_ok_stop [OF tk, of CA_Idle] lv o
      by (simp add: about_space_def i)
  next
    fix ws
    assume o: "out = AO_Permit" "?n < sl_max_concurrent_reads L" "?rq = tok # ws"
      "st = (sy_state s)\<lparr>ss_read_queue := ws, ss_active_reads := ?n + 1\<rparr>"
    have "reads_ok L (?cs(i := CA_HoldRead)) (?n + 1) ws"
      using reads_ok_hold [of L "?cs(i := CA_Idle)" ?n ws i] lv o(2,3) by (simp add: about_reads_def)
    then show ?thesis
      using sched_inv_reads [OF inv, of i CA_HoldRead st] tokens_ok_stop [OF tk, of CA_HoldRead] o
      by (simp add: about_space_def i)
  next
    assume o: "out = AO_Wait" "st = sy_state s"
    have "?cs(i := CA_WaitRead tok) = ?cs" using i by auto
    then show ?thesis using inv o by (simp add: sched_inv_def)
  qed
qed

lemma inv_acquire_read:
  assumes inv: "sched_inv L s" and i: "sy_callers s i = CA_Idle" and f: "\<not> waits_with (sy_callers s) tok"
    and a: "acquire_read L tok c d (sy_state s) = (st, out)"
  shows "sched_inv L \<lparr>sy_state = st, sy_callers = (sy_callers s)(i := after_read tok out)\<rparr>"
proof -
  let ?cs = "sy_callers s" and ?n = "ss_active_reads (sy_state s)" and ?rq = "ss_read_queue (sy_state s)"
  have tk: "tokens_ok ?cs" and r: "reads_ok L ?cs ?n ?rq" using inv by (simp_all add: sched_inv_def)
  have na: "\<not> about_reads (?cs i)" by (simp add: i about_reads_def)
  have id: "?cs(i := CA_Idle) = ?cs" using i by auto
  consider (grant) "?n < sl_max_concurrent_reads L" "?rq = []"
    | (full) "\<not> (?n < sl_max_concurrent_reads L \<and> ?rq = [])" "length ?rq \<ge> sl_max_queued_reads L"
    | (queue) "\<not> (?n < sl_max_concurrent_reads L \<and> ?rq = [])" "length ?rq < sl_max_queued_reads L"
    by linarith
  then show ?thesis
  proof cases
    case grant
    then have o: "out = AO_Permit" "st = (sy_state s)\<lparr>ss_active_reads := ?n + 1\<rparr>"
      using a by (auto simp: acquire_read_def)
    show ?thesis
      using sched_inv_reads [OF inv, of i CA_HoldRead st] tokens_ok_stop [OF tk, of CA_HoldRead]
        reads_ok_hold [OF r grant(1) na] o
      by (simp add: about_space_def i)
  next
    case full
    then have "out = AO_Err (SW_Backpressure BP_ReadQueueFull)" "st = sy_state s"
      using a by (auto simp: acquire_read_def)
    then show ?thesis using inv id by (simp add: sched_inv_def)
  next
    case queue
    have new: "tok \<notin> set ?rq" using r f by (auto simp: reads_ok_def waits_with_def)
    define s1 where "s1 = \<lparr>sy_state = (sy_state s)\<lparr>ss_read_queue := ?rq @ [tok]\<rparr>,
      sy_callers = ?cs(i := CA_WaitRead tok)\<rparr>"
    have "sched_inv L s1"
      using sched_inv_reads [OF inv, of i "CA_WaitRead tok" "(sy_state s)\<lparr>ss_read_queue := ?rq @ [tok]\<rparr>"]
        tokens_ok_new [OF tk f, of "CA_WaitRead tok"] reads_ok_enqueue [OF r na new queue(2)]
      by (simp add: s1_def about_space_def i)
    moreover have "read_poll L tok c d (sy_state s1) = (st, out)"
      using a queue by (auto simp: acquire_read_def s1_def)
    ultimately show ?thesis using inv_poll_read [of L s1 i tok c d st out] by (simp add: s1_def)
  qed
qed

lemma sched_step_inv: "sched_step L s g s' \<Longrightarrow> sched_inv L s \<Longrightarrow> sched_inv L s'"
proof (induction rule: sched_step.induct)
  case (step_release_read s i st)
  have r: "reads_ok L (sy_callers s) (ss_active_reads (sy_state s)) (ss_read_queue (sy_state s))"
    and tk: "tokens_ok (sy_callers s)"
    using step_release_read.prems by (simp_all add: sched_inv_def)
  show ?case
    using sched_inv_reads [OF step_release_read.prems, of i CA_Idle st] tokens_ok_stop [OF tk, of CA_Idle]
      reads_ok_release [OF r step_release_read.hyps(1)] step_release_read.hyps
    by (auto simp: release_read_def about_space_def split: if_splits)
next
  case (step_release_read_panic s i)
  then have "reads_ok L (sy_callers s) (ss_active_reads (sy_state s)) (ss_read_queue (sy_state s))"
    by (simp add: sched_inv_def)
  from reads_ok_release [OF this step_release_read_panic.hyps(1)] step_release_read_panic.hyps(2)
  show ?case by (simp add: release_read_def split: if_splits)
qed (blast intro: inv_acquire_mutation inv_poll_mutation inv_release_mutation inv_acquire_read inv_poll_read)+

lemma sched_reachable_inv: "sched_reachable L s \<Longrightarrow> sched_inv L s"
proof (induction rule: sched_reachable.induct)
  case (reach_start st)
  then show ?case
    by (auto simp: scheduler_new_def sched_state_default_def sched_inv_def stored_def tokens_ok_def
        queue_ok_def reads_ok_def queued_mutations_def bt_values_def split: if_splits)
qed (blast intro: sched_step_inv)

section \<open>Order of service\<close>

definition ahead :: "sched_system \<Rightarrow> opaque_id \<Rightarrow> wait_token \<Rightarrow> nat" where
  "ahead s sp tok = length (takeWhile (\<lambda>t. t \<noteq> tok) (mq_waiting (queue_at (sy_state s) sp)))"

lemma takeWhile_remove1:
  "a \<noteq> b \<Longrightarrow> length (takeWhile (\<lambda>t. t \<noteq> a) (remove1 b xs)) \<le> length (takeWhile (\<lambda>t. t \<noteq> a) xs)"
  by (induction xs) auto

lemma length_takeWhile_before: "a \<in> set xs \<Longrightarrow> length (takeWhile (\<lambda>t. t \<noteq> a) xs) < length xs"
  by (induction xs) auto

lemma ahead_mutation:
  assumes inv: "sched_inv L s" and k: "sy_callers s k = CA_WaitMutation sp tok"
    and e: "st = sy_state s
      \<or> (\<exists>t. t \<noteq> tok \<and> st = store_queue sp' ((queue_at (sy_state s) sp')\<lparr>mq_waiting := remove1 t (mq_waiting (queue_at (sy_state s) sp'))\<rparr>) (sy_state s))
      \<or> (\<exists>t. st = store_queue sp' ((queue_at (sy_state s) sp')\<lparr>mq_waiting := mq_waiting (queue_at (sy_state s) sp') @ [t]\<rparr>) (sy_state s))
      \<or> st = store_queue sp' ((queue_at (sy_state s) sp')\<lparr>mq_active := False\<rparr>) (sy_state s)"
  shows "ahead \<lparr>sy_state = st, sy_callers = cs\<rparr> sp tok \<le> ahead s sp tok"
proof -
  have st: "stored (sy_state s)" using inv by (simp add: sched_inv_def)
  have "tok \<in> set (mq_waiting (queue_at (sy_state s) sp))"
    using inv k by (auto simp: sched_inv_def queue_ok_def)
  then have "takeWhile (\<lambda>t. t \<noteq> tok) (mq_waiting (queue_at (sy_state s) sp) @ [t])
      = takeWhile (\<lambda>t. t \<noteq> tok) (mq_waiting (queue_at (sy_state s) sp))" for t
    by (simp add: takeWhile_append1)
  with e show ?thesis
    by (auto simp: ahead_def queue_at_store [OF st] takeWhile_remove1)
qed

lemma ahead_step:
  assumes step: "sched_step L s g s'" and inv: "sched_inv L s"
    and k: "sy_callers s k = CA_WaitMutation sp tok" and k': "sy_callers s' k = CA_WaitMutation sp tok"
  shows "ahead s' sp tok + (if g = Some sp then 1 else 0) \<le> ahead s sp tok"
  using step k'
proof cases
  case (step_acquire_mutation i token sp' c d st out)
  have st: "stored (sy_state s)" and q: "queue_ok (sy_callers s) sp' (queue_at (sy_state s) sp')"
    "queue_ok (sy_callers s) sp (queue_at (sy_state s) sp)"
    using inv by (simp_all add: sched_inv_def)
  have new: "token \<notin> set (mq_waiting (queue_at (sy_state s) sp'))"
    using q(1) step_acquire_mutation(4) by (auto simp: queue_ok_def waits_with_def)
  have "mq_waiting (queue_at (sy_state s) sp) \<noteq> []" using q(2) k by (auto simp: queue_ok_def)
  then have "queue_at (sy_state s) sp' = mutation_queue_default \<Longrightarrow> sp' \<noteq> sp" by auto
  with acquire_effect [OF st new step_acquire_mutation(5)] show ?thesis
    unfolding step_acquire_mutation(1,2)
    using ahead_mutation [OF inv k, of st sp' "(sy_callers s)(i := after_mutation sp' token out)"]
    by (auto simp: ahead_def queue_at_store [OF st])
next
  case (step_poll_mutation i sp' token c d st out)
  have st: "stored (sy_state s)" and q: "queue_ok (sy_callers s) sp' (queue_at (sy_state s) sp')"
    and tk: "tokens_ok (sy_callers s)"
    using inv by (simp_all add: sched_inv_def)
  have old: "token \<in> set (mq_waiting (queue_at (sy_state s) sp'))"
    using q step_poll_mutation(3) by (auto simp: queue_ok_def)
  show ?thesis
  proof (cases "i = k")
    case True
    then have "after_mutation sp' token out = CA_WaitMutation sp tok"
      using step_poll_mutation(2) k' by simp
    then have "out = AO_Wait" by (cases out) auto
    with poll_effect [OF st old step_poll_mutation(4)] show ?thesis
      unfolding step_poll_mutation(1,2) by (auto simp: ahead_def)
  next
    case False
    then have ne: "token \<noteq> tok" using tk k step_poll_mutation(3) unfolding tokens_ok_def by blast
    with poll_effect [OF st old step_poll_mutation(4)] show ?thesis
      unfolding step_poll_mutation(1,2)
      using ahead_mutation [OF inv k, of st sp' "(sy_callers s)(i := after_mutation sp' token out)"]
      by (auto simp: ahead_def queue_at_store [OF st])
  qed
next
  case (step_release_mutation i sp')
  have st: "stored (sy_state s)" using inv by (simp add: sched_inv_def)
  show ?thesis
    unfolding step_release_mutation(1,2)
    using ahead_mutation [OF inv k, of _ sp'] by (simp add: release_effect [OF st])
qed (auto simp: ahead_def acquire_read_def read_poll_def remove_read_waiter_def release_read_def
      split: if_splits)

text \<open>A run along which a caller goes on waiting, with the grants on the way.\<close>

inductive waiting_run ::
  "scheduler_limits \<Rightarrow> nat \<Rightarrow> opaque_id \<Rightarrow> wait_token \<Rightarrow> sched_system \<Rightarrow> opaque_id option list \<Rightarrow> sched_system \<Rightarrow> bool"
  for L k sp tok where
  waiting_here: "sy_callers s k = CA_WaitMutation sp tok \<Longrightarrow> waiting_run L k sp tok s [] s"
| waiting_step: "\<lbrakk>waiting_run L k sp tok s gs s1; sched_step L s1 g s2;
     sy_callers s2 k = CA_WaitMutation sp tok\<rbrakk> \<Longrightarrow> waiting_run L k sp tok s (gs @ [g]) s2"

lemma waiting_run_ahead:
  "waiting_run L k sp tok s gs s' \<Longrightarrow> sched_inv L s \<Longrightarrow>
   sched_inv L s' \<and> sy_callers s' k = CA_WaitMutation sp tok
   \<and> ahead s' sp tok + count_list gs (Some sp) \<le> ahead s sp tok"
proof (induction rule: waiting_run.induct)
  case (waiting_step s gs s1 g s2)
  then show ?case
    using ahead_step [of L s1 g s2 k sp tok] sched_step_inv [of L s1 g s2] by auto
qed simp

section \<open>Properties\<close>

text \<open>
  C4: exclusion and bounds. In every reachable state of any number of concurrent
  callers at most one holds the mutation permit of a space, the number of callers that hold a
  read permit is the scheduler's count and within its limit, every queue is within its bound,
  and no section has panicked.
\<close>
theorem scheduler_exclusion:
  assumes "sched_reachable L s"
  shows "(\<forall>sp i j. sy_callers s i = CA_HoldMutation sp \<and> sy_callers s j = CA_HoldMutation sp \<longrightarrow> i = j)
    \<and> sn_active_reads (snapshot (sy_state s)) = card {i. sy_callers s i = CA_HoldRead}
    \<and> card {i. sy_callers s i = CA_HoldRead} \<le> sl_max_concurrent_reads L
    \<and> sn_queued_reads (snapshot (sy_state s)) \<le> sl_max_queued_reads L
    \<and> sn_queued_mutations (snapshot (sy_state s)) \<le> sl_max_queued_mutations L
    \<and> (\<forall>sp q. bt_get (ss_mutations (sy_state s)) sp = Some q \<longrightarrow>
         length (mq_waiting q) \<le> sl_max_queued_mutations_per_space L)
    \<and> (\<forall>i. sy_callers s i \<noteq> CA_Panicked)"
proof -
  have inv: "sched_inv L s" using assms by (rule sched_reachable_inv)
  have "length (mq_waiting q) \<le> sl_max_queued_mutations_per_space L"
    if "bt_get (ss_mutations (sy_state s)) sp = Some q" for sp q
  proof -
    have "length (mq_waiting (queue_at (sy_state s) sp)) \<le> sl_max_queued_mutations_per_space L"
      using inv by (simp add: sched_inv_def)
    with that show ?thesis by simp
  qed
  moreover have "\<forall>sp i j. sy_callers s i = CA_HoldMutation sp \<and> sy_callers s j = CA_HoldMutation sp \<longrightarrow> i = j"
    using inv by (simp add: sched_inv_def queue_ok_def)
  ultimately show ?thesis using inv by (simp add: sched_inv_def reads_ok_def snapshot_def)
qed

text \<open>
  first come, first served. While a caller waits for a space, the number of mutation
  permits of that space that are granted to others is at most the number of callers that were
  queued before it, which is below the bound of the queue: nobody overtakes.
\<close>
theorem scheduler_fifo:
  assumes "sched_reachable L s" "waiting_run L k sp tok s gs s'"
  shows "ahead s' sp tok + count_list gs (Some sp) \<le> ahead s sp tok
    \<and> ahead s sp tok < sl_max_queued_mutations_per_space L"
proof -
  have inv: "sched_inv L s" using assms(1) by (rule sched_reachable_inv)
  have "sy_callers s k = CA_WaitMutation sp tok" using assms(2) by (induction rule: waiting_run.induct)
  then have "tok \<in> set (mq_waiting (queue_at (sy_state s) sp))"
    using inv by (auto simp: sched_inv_def queue_ok_def)
  then have "ahead s sp tok < length (mq_waiting (queue_at (sy_state s) sp))"
    unfolding ahead_def by (rule length_takeWhile_before)
  moreover have "length (mq_waiting (queue_at (sy_state s) sp)) \<le> sl_max_queued_mutations_per_space L"
    using inv by (simp add: sched_inv_def)
  ultimately show ?thesis using waiting_run_ahead [OF assms(2) inv] by simp
qed

text \<open>
  C27: no waiter is stuck and nothing leaks. In every reachable state a space with a
  waiter has a holder or the first waiter's next look at the queue grants it the permit, and a
  waiting read waits behind a full set of readers or the first waiting read is granted next.
  A space is known to the scheduler exactly while some caller holds it or waits for it, so
  when all callers are idle the scheduler is in its initial state.
\<close>
theorem scheduler_progress:
  assumes "sched_reachable L s"
  shows "(\<forall>i sp tok. sy_callers s i = CA_WaitMutation sp tok \<longrightarrow>
       (\<exists>j. sy_callers s j = CA_HoldMutation sp)
       \<or> (\<exists>j t. sy_callers s j = CA_WaitMutation sp t \<and> snd (mutation_poll sp t False False (sy_state s)) = AO_Permit))
    \<and> (\<forall>i tok. sy_callers s i = CA_WaitRead tok \<longrightarrow>
       card {j. sy_callers s j = CA_HoldRead} = sl_max_concurrent_reads L
       \<or> (\<exists>j t. sy_callers s j = CA_WaitRead t \<and> snd (read_poll L t False False (sy_state s)) = AO_Permit))
    \<and> (\<forall>sp. bt_get (ss_mutations (sy_state s)) sp = None \<longleftrightarrow> \<not> (\<exists>i. about_space sp (sy_callers s i)))
    \<and> ((\<forall>i. sy_callers s i = CA_Idle) \<longrightarrow> sy_state s = sched_state_default)"
proof (intro conjI allI impI)
  have inv: "sched_inv L s" using assms by (rule sched_reachable_inv)
  then have q: "queue_ok (sy_callers s) sp (queue_at (sy_state s) sp)" for sp by (simp add: sched_inv_def)
  have r: "reads_ok L (sy_callers s) (ss_active_reads (sy_state s)) (ss_read_queue (sy_state s))"
    using inv by (simp add: sched_inv_def)
  have st: "stored (sy_state s)" using inv by (simp add: sched_inv_def)
  show known: "bt_get (ss_mutations (sy_state s)) sp = None \<longleftrightarrow> \<not> (\<exists>i. about_space sp (sy_callers s i))" for sp
  proof (cases "bt_get (ss_mutations (sy_state s)) sp")
    case None
    then show ?thesis using q [of sp] by (auto simp: queue_ok_def about_space_def)
  next
    case (Some u)
    then have "mq_active u \<or> set (mq_waiting u) \<noteq> {}" using st by (auto simp: stored_def)
    with Some show ?thesis using q [of sp] by (auto simp: queue_ok_def about_space_def)
  qed
  {
    fix i sp tok
    assume i: "sy_callers s i = CA_WaitMutation sp tok"
    then obtain u where g: "bt_get (ss_mutations (sy_state s)) sp = Some u"
      using known [of sp] by (auto simp: about_space_def)
    then have u: "queue_ok (sy_callers s) sp u" using q [of sp] by simp
    then obtain t ws where w: "mq_waiting u = t # ws" using i by (cases "mq_waiting u") (auto simp: queue_ok_def)
    then have "t \<in> {tok. \<exists>i. sy_callers s i = CA_WaitMutation sp tok}"
      using u unfolding queue_ok_def by (metis list.set_intros(1))
    then obtain j where "sy_callers s j = CA_WaitMutation sp t" by blast
    with g w u show "(\<exists>j. sy_callers s j = CA_HoldMutation sp)
       \<or> (\<exists>j t. sy_callers s j = CA_WaitMutation sp t \<and> snd (mutation_poll sp t False False (sy_state s)) = AO_Permit)"
      by (cases "mq_active u") (auto simp: queue_ok_def mutation_poll_def is_front_def)
  next
    fix i tok
    assume i: "sy_callers s i = CA_WaitRead tok"
    then obtain t ws where w: "ss_read_queue (sy_state s) = t # ws"
      using r by (cases "ss_read_queue (sy_state s)") (auto simp: reads_ok_def)
    then have "t \<in> {tok. \<exists>i. sy_callers s i = CA_WaitRead tok}"
      using r unfolding reads_ok_def by (metis list.set_intros(1))
    then obtain j where j: "sy_callers s j = CA_WaitRead t" by blast
    show "card {j. sy_callers s j = CA_HoldRead} = sl_max_concurrent_reads L
       \<or> (\<exists>j t. sy_callers s j = CA_WaitRead t \<and> snd (read_poll L t False False (sy_state s)) = AO_Permit)"
    proof (cases "ss_active_reads (sy_state s) < sl_max_concurrent_reads L")
      case True
      then have "snd (read_poll L t False False (sy_state s)) = AO_Permit"
        using w by (simp add: read_poll_def is_front_def)
      with j show ?thesis by blast
    next
      case False
      then show ?thesis using r by (simp add: reads_ok_def)
    qed
  next
    assume idle: "\<forall>i. sy_callers s i = CA_Idle"
    then have "\<forall>sp. bt_get (ss_mutations (sy_state s)) sp = None" using known by (simp add: about_space_def)
    then have "ss_mutations (sy_state s) = []"
      by (cases "ss_mutations (sy_state s)") (auto simp: bt_get_None)
    moreover have "ss_active_reads (sy_state s) = 0" "ss_read_queue (sy_state s) = []"
      using r idle by (simp_all add: reads_ok_def)
    ultimately show "sy_state s = sched_state_default"
      by (simp add: sched_state_default_def)
  }
qed

section \<open>Witnesses\<close>

text \<open>One caller holds a space, a second one queues behind it, and the first one leaves.\<close>

definition demo_held :: sched_system where
  "demo_held =
     \<lparr>sy_state = \<lparr>ss_active_reads = 0, ss_read_queue = [],
        ss_mutations = [(''spc_a'', \<lparr>mq_active = True, mq_waiting = []\<rparr>)]\<rparr>,
      sy_callers = (\<lambda>_. CA_Idle)(0 := CA_HoldMutation ''spc_a'')\<rparr>"

definition demo_queued :: sched_system where
  "demo_queued =
     \<lparr>sy_state = \<lparr>ss_active_reads = 0, ss_read_queue = [],
        ss_mutations = [(''spc_a'', \<lparr>mq_active = True, mq_waiting = [7]\<rparr>)]\<rparr>,
      sy_callers = (\<lambda>_. CA_Idle)(0 := CA_HoldMutation ''spc_a'', 1 := CA_WaitMutation ''spc_a'' 7)\<rparr>"

definition demo_left :: sched_system where
  "demo_left =
     \<lparr>sy_state = \<lparr>ss_active_reads = 0, ss_read_queue = [],
        ss_mutations = [(''spc_a'', \<lparr>mq_active = False, mq_waiting = [7]\<rparr>)]\<rparr>,
      sy_callers = (\<lambda>_. CA_Idle)(0 := CA_Idle, 1 := CA_WaitMutation ''spc_a'' 7)\<rparr>"

lemma demo_queued_reachable: "sched_reachable scheduler_limits_default demo_queued"
proof -
  let ?L = scheduler_limits_default
  let ?s0 = "\<lparr>sy_state = sched_state_default, sy_callers = \<lambda>_. CA_Idle\<rparr>"
  have r0: "sched_reachable ?L ?s0"
    by (rule reach_start) (simp add: scheduler_new_def scheduler_limits_default_def)
  have "acquire_mutation ?L ''spc_a'' 5 False False (sy_state ?s0) = (sy_state demo_held, AO_Permit)"
    by (simp add: acquire_mutation_def sched_state_default_def mutation_queue_default_def demo_held_def Let_def)
  from step_acquire_mutation [of ?s0 0 5, OF _ _ this]
  have "sched_step ?L ?s0 (Some ''spc_a'') demo_held" by (simp add: waits_with_def demo_held_def)
  with r0 have r1: "sched_reachable ?L demo_held" by (rule reach_step)
  have "acquire_mutation ?L ''spc_a'' 7 False False (sy_state demo_held) = (sy_state demo_queued, AO_Wait)"
    by (simp add: acquire_mutation_def mutation_poll_def queued_mutations_def bt_values_def is_front_def
        demo_held_def demo_queued_def scheduler_limits_default_def Let_def)
  from step_acquire_mutation [of demo_held 1 7, OF _ _ this]
  have "sched_step ?L demo_held None demo_queued"
    by (simp add: waits_with_def demo_held_def demo_queued_def fun_upd_twist split: if_splits)
  with r1 show ?thesis by (rule reach_step)
qed

lemma demo_waits:
  "waiting_run scheduler_limits_default 1 ''spc_a'' 7 demo_queued [None] demo_left"
proof -
  have h: "waiting_run scheduler_limits_default 1 ''spc_a'' 7 demo_queued [] demo_queued"
    by (rule waiting_here) (simp add: demo_queued_def)
  have "sy_callers demo_queued 0 = CA_HoldMutation ''spc_a''" by (simp add: demo_queued_def)
  from step_release_mutation [of demo_queued 0, OF this]
  have "sched_step scheduler_limits_default demo_queued None demo_left"
    by (simp add: demo_queued_def demo_left_def release_mutation_def fun_upd_twist)
  from waiting_step [OF h this] show ?thesis by (simp add: demo_left_def)
qed

lemma scheduler_exclusion_witness:
  "sn_queued_mutations (snapshot (sy_state demo_queued)) \<le> sl_max_queued_mutations scheduler_limits_default
   \<and> (\<forall>i. sy_callers demo_queued i \<noteq> CA_Panicked)"
  using scheduler_exclusion [OF demo_queued_reachable] by blast

lemma scheduler_fifo_witness:
  "ahead demo_left ''spc_a'' 7 + count_list [None] (Some ''spc_a'') \<le> ahead demo_queued ''spc_a'' 7"
  using scheduler_fifo [OF demo_queued_reachable demo_waits] by blast

lemma scheduler_progress_witness:
  "(\<exists>j. sy_callers demo_queued j = CA_HoldMutation ''spc_a'')
   \<or> (\<exists>j t. sy_callers demo_queued j = CA_WaitMutation ''spc_a'' t
        \<and> snd (mutation_poll ''spc_a'' t False False (sy_state demo_queued)) = AO_Permit)"
proof -
  have "sy_callers demo_queued 1 = CA_WaitMutation ''spc_a'' 7" by (simp add: demo_queued_def)
  with scheduler_progress [OF demo_queued_reachable] show ?thesis by blast
qed

end
