(* ===== verification/Records.thy ===== *)
theory Records
  imports Errors
begin

text \<open>
  Space, page, lease and ticket records with their validators
  (\<^verbatim>\<open>crates/agentyc-core/src/records.rs\<close>). A method that takes \<^verbatim>\<open>&mut self\<close> returns the
  updated record beside its result.
\<close>

section \<open>User-intent tickets\<close>

record user_intent_ticket =
  ut_ticket_id :: opaque_id
  ut_profile_binding_id :: opaque_id
  ut_space_id :: opaque_id
  ut_page_id :: "opaque_id option"
  ut_document_generation :: "generation option"
  ut_action_hash :: content_hash
  ut_lease_epoch :: lease_epoch
  ut_connection_epoch :: connection_epoch
  ut_connection_nonce :: opaque_id
  ut_expires_at :: timestamp
  ut_state :: user_intent_ticket_state

record user_intent_context =
  uc_profile_binding_id :: opaque_id
  uc_space_id :: opaque_id
  uc_page_id :: "opaque_id option"
  uc_document_generation :: "generation option"
  uc_action_hash :: content_hash
  uc_lease_epoch :: lease_epoch
  uc_connection_epoch :: connection_epoch
  uc_connection_nonce :: opaque_id

definition ticket_validate_shape :: "user_intent_ticket \<Rightarrow> (core_error, unit) result" where
  "ticket_validate_shape t =
     (if is_some (ut_page_id t) \<noteq> is_some (ut_document_generation t) then
        Err (invalid_argument ''page_id and document_generation must be supplied together'')
      else if ut_expires_at t = 0 then
        Err (invalid_argument ''user-intent ticket expiry must be non-zero'')
      else Ok ())"

definition validate_and_consume ::
  "user_intent_ticket \<Rightarrow> user_intent_context \<Rightarrow> timestamp
   \<Rightarrow> user_intent_ticket \<times> (core_error, unit) result" where
  "validate_and_consume t presented now =
     (if ut_state t \<noteq> TS_Issued then
        (t, Err (core_error_new EC_PermissionDenied ''user-intent ticket is not available''))
      else if now \<ge> ut_expires_at t then
        (t, Err (core_error_new EC_PermissionDenied ''user-intent ticket has expired''))
      else if is_some (uc_page_id presented) \<noteq> is_some (uc_document_generation presented)
        \<or> ut_profile_binding_id t \<noteq> uc_profile_binding_id presented
        \<or> ut_space_id t \<noteq> uc_space_id presented
        \<or> ut_page_id t \<noteq> uc_page_id presented
        \<or> ut_document_generation t \<noteq> uc_document_generation presented
        \<or> ut_action_hash t \<noteq> uc_action_hash presented
        \<or> ut_lease_epoch t \<noteq> uc_lease_epoch presented
        \<or> ut_connection_epoch t \<noteq> uc_connection_epoch presented
        \<or> ut_connection_nonce t \<noteq> uc_connection_nonce presented then
        (t, Err (core_error_new EC_PermissionDenied
              ''user-intent ticket does not match the requested operation''))
      else case ticket_validate_shape t of
        Inl e \<Rightarrow> (t, Err e)
      | Inr _ \<Rightarrow> (t\<lparr>ut_state := TS_Consumed\<rparr>, Ok ()))"

section \<open>Disclosure and retention\<close>

record profile_disclosure =
  pd_profile_scope :: string
  pd_shared_state_notice :: string
  pd_isolation_claim :: bool
  pd_acknowledged :: bool

definition PROFILE_SCOPE :: string where
  "PROFILE_SCOPE = ''shared_existing_profile''"

definition SHARED_STATE_NOTICE :: string where
  "SHARED_STATE_NOTICE = ''shared_profile_state''"

definition disclosure_validate :: "profile_disclosure \<Rightarrow> (core_error, unit) result" where
  "disclosure_validate d =
     (if pd_acknowledged d \<and> \<not> pd_isolation_claim d
         \<and> pd_profile_scope d = PROFILE_SCOPE
         \<and> pd_shared_state_notice d = SHARED_STATE_NOTICE
      then Ok ()
      else Err (core_error_new EC_PermissionDenied
        ''explicit shared-profile disclosure acknowledgement is required before space creation''))"

datatype retention_policy = RP_Retain | RP_ReleaseOnFinish | RP_Until timestamp

section \<open>Leases\<close>

record lease =
  l_principal_id :: opaque_id
  l_lease_epoch :: lease_epoch
  l_expires_at :: timestamp
  l_renew_by :: timestamp
  l_state :: lease_state

definition lease_active ::
  "opaque_id \<Rightarrow> lease_epoch \<Rightarrow> timestamp \<Rightarrow> timestamp \<Rightarrow> lease" where
  "lease_active principal_id epoch expires_at renew_by =
     \<lparr>l_principal_id = principal_id, l_lease_epoch = epoch, l_expires_at = expires_at,
      l_renew_by = renew_by, l_state = LS_Active\<rparr>"

definition accepts_epoch :: "lease \<Rightarrow> lease_epoch \<Rightarrow> bool" where
  "accepts_epoch l presented \<longleftrightarrow>
     lease_admits_mutations (l_state l) \<and> l_lease_epoch l = presented"

definition lease_is_expired_at :: "lease \<Rightarrow> timestamp \<Rightarrow> bool" where
  "lease_is_expired_at l now \<longleftrightarrow>
     now \<ge> l_expires_at l \<or> l_state l \<in> {LS_Expired, LS_Fenced, LS_Released}"

definition accepts_epoch_at :: "lease \<Rightarrow> lease_epoch \<Rightarrow> timestamp \<Rightarrow> bool" where
  "accepts_epoch_at l presented now \<longleftrightarrow>
     accepts_epoch l presented \<and> \<not> lease_is_expired_at l now"

definition validate_epoch_at ::
  "lease \<Rightarrow> lease_epoch \<Rightarrow> timestamp \<Rightarrow> (core_error, unit) result" where
  "validate_epoch_at l presented now =
     (if l_lease_epoch l \<noteq> presented then Err (stale_lease (l_lease_epoch l) presented)
      else if lease_is_expired_at l now then
        Err (core_error_new EC_LeaseExpired ''lease has expired or is no longer active'')
      else Ok ())"

definition lease_validate :: "lease \<Rightarrow> (core_error, unit) result" where
  "lease_validate l =
     (if l_expires_at l < l_renew_by l then
        Err (invalid_argument ''lease renew_by must not be later than expires_at'')
      else Ok ())"

section \<open>Pages and spaces\<close>

record page_descriptor =
  p_page_id :: opaque_id
  p_space_id :: opaque_id
  p_label :: utext
  p_lifecycle :: page_lifecycle
  p_ownership :: page_ownership
  p_binding :: page_binding_state
  p_url :: "utext option"
  p_title :: "utext option"
  p_target_generation :: generation
  p_navigation_generation :: generation
  p_document_generation :: generation
  p_frame_count :: u32
  p_retained :: bool

definition admits_agent_mutations :: "page_descriptor \<Rightarrow> bool" where
  "admits_agent_mutations p \<longleftrightarrow>
     p_lifecycle p = PL_Managed \<and> p_ownership p = PO_Agent \<and> p_binding p = PB_Bound"

record space_descriptor =
  s_space_id :: opaque_id
  s_label :: utext
  s_lifecycle :: space_lifecycle
  s_owner :: opaque_id
  s_lease :: "lease option"
  s_profile_binding :: profile_binding_state
  s_pages :: "page_descriptor list"
  s_visual_group_hint :: "utext option"
  s_capabilities :: "capability list"
  s_warnings :: "utext list"
  s_retention :: retention_policy

definition validate_mutation_admission ::
  "space_descriptor \<Rightarrow> opaque_id \<Rightarrow> lease_epoch \<Rightarrow> timestamp \<Rightarrow> (core_error, unit) result" where
  "validate_mutation_admission s principal_id lease_epoch now =
     (if \<not> space_admits_mutations (s_lifecycle s) then
        Err (core_error_new EC_UserControlRequired
               ''space lifecycle does not admit ordinary mutations'')
      else if s_owner s \<noteq> principal_id then
        Err (core_error_new EC_SpaceForbidden ''principal does not own the space'')
      else and_then
        (ok_or (s_lease s) (core_error_new EC_LeaseExpired ''space has no active lease''))
        (\<lambda>l. if l_principal_id l \<noteq> principal_id then
               Err (core_error_new EC_SpaceForbidden ''lease principal does not own the space'')
             else validate_epoch_at l lease_epoch now))"

definition space_page :: "space_descriptor \<Rightarrow> opaque_id \<Rightarrow> page_descriptor option" where
  "space_page s page_id = List.find (\<lambda>p. p_page_id p = page_id) (s_pages s)"

section \<open>Proof records\<close>

record fence_proof =
  fp_space_id :: opaque_id
  fp_broker_epoch :: broker_epoch
  fp_released_epoch :: "lease_epoch option"
  fp_fence_epoch :: lease_epoch
  fp_acknowledged :: bool

definition fence_validate :: "fence_proof \<Rightarrow> (core_error, unit) result" where
  "fence_validate f =
     (if \<not> fp_acknowledged f
         \<or> is_some_and (fp_released_epoch f) (\<lambda>released. fp_fence_epoch f \<le> released) then
        Err (invalid_argument
          ''fence proof must be acknowledged and strictly newer than the released epoch'')
      else Ok ())"

record control_return_proof =
  cr_space_id :: opaque_id
  cr_released_epoch :: lease_epoch
  cr_fence :: fence_proof
  cr_lifecycle :: space_lifecycle

definition control_return_validate :: "control_return_proof \<Rightarrow> (core_error, unit) result" where
  "control_return_validate c =
     and_then (fence_validate (cr_fence c)) (\<lambda>_.
       if fp_space_id (cr_fence c) \<noteq> cr_space_id c
          \<or> fp_released_epoch (cr_fence c) \<noteq> Some (cr_released_epoch c)
          \<or> cr_lifecycle c \<noteq> SL_UserOwned then
         Err (invalid_argument ''control-return proof does not match its fence or lifecycle'')
       else Ok ())"

record release_proof =
  rp_space_id :: opaque_id
  rp_released_epoch :: "lease_epoch option"
  rp_lifecycle :: space_lifecycle
  rp_released_at :: timestamp

definition release_validate :: "release_proof \<Rightarrow> (core_error, unit) result" where
  "release_validate r =
     (if rp_lifecycle r \<notin> {SL_Released, SL_Finished} \<or> rp_released_at r = 0 then
        Err (invalid_argument
          ''release proof must identify a terminal lifecycle and non-zero timestamp'')
      else Ok ())"

record cleanup_proof =
  cp_space_id :: opaque_id
  cp_released_epoch :: "lease_epoch option"
  cp_page_ids :: "opaque_id list"
  cp_completed_at :: timestamp

definition MAX_CLEANUP_PAGES :: nat where
  "MAX_CLEANUP_PAGES = 4096"

definition cleanup_validate :: "cleanup_proof \<Rightarrow> (core_error, unit) result" where
  "cleanup_validate c =
     (if length (cp_page_ids c) > MAX_CLEANUP_PAGES
         \<or> any_window2 (\<ge>) (cp_page_ids c)
         \<or> cp_completed_at c = 0 then
        Err (invalid_argument ''cleanup proof has an invalid page scope or completion timestamp'')
      else Ok ())"

section \<open>Validators as conditions\<close>

lemma ticket_validate_shape_Ok [record_simps]:
  "ticket_validate_shape t = Inr () \<longleftrightarrow>
     (ut_page_id t = None \<longleftrightarrow> ut_document_generation t = None) \<and> ut_expires_at t \<noteq> 0"
  by (auto simp: ticket_validate_shape_def)

lemma validate_epoch_at_Ok [record_simps]:
  "validate_epoch_at l e now = Inr () \<longleftrightarrow>
     l_lease_epoch l = e \<and> now < l_expires_at l \<and> l_state l \<in> {LS_Active, LS_Renewing}"
  by (cases "l_state l") (auto simp: validate_epoch_at_def lease_is_expired_at_def)

lemma accepts_epoch_at_iff [record_simps]:
  "accepts_epoch_at l e now \<longleftrightarrow>
     l_lease_epoch l = e \<and> now < l_expires_at l \<and> l_state l = LS_Active"
  by (auto simp: accepts_epoch_at_def accepts_epoch_def lease_is_expired_at_def
      lease_admits_mutations_iff)

lemma validate_mutation_admission_Ok [record_simps]:
  "validate_mutation_admission s p e now = Inr () \<longleftrightarrow>
     s_lifecycle s = SL_AgentOwned \<and> s_owner s = p \<and>
     (\<exists>l. s_lease s = Some l \<and> l_principal_id l = p \<and> validate_epoch_at l e now = Inr ())"
  by (auto simp: validate_mutation_admission_def space_admits_mutations_iff)

lemma fence_validate_Ok [record_simps]:
  "fence_validate f = Inr () \<longleftrightarrow>
     fp_acknowledged f \<and> (\<forall>r. fp_released_epoch f = Some r \<longrightarrow> r < fp_fence_epoch f)"
  by (auto simp: fence_validate_def is_some_and_iff)

lemma control_return_validate_Ok [record_simps]:
  "control_return_validate c = Inr () \<longleftrightarrow>
     fence_validate (cr_fence c) = Inr () \<and> fp_space_id (cr_fence c) = cr_space_id c
     \<and> fp_released_epoch (cr_fence c) = Some (cr_released_epoch c)
     \<and> cr_lifecycle c = SL_UserOwned"
  by (auto simp: control_return_validate_def)

lemma release_validate_Ok [record_simps]:
  "release_validate r = Inr () \<longleftrightarrow>
     space_is_terminal (rp_lifecycle r) \<and> rp_released_at r \<noteq> 0"
  by (auto simp: release_validate_def space_is_terminal_iff)

lemma consume_unavailable:
  "ut_state t \<noteq> TS_Issued \<Longrightarrow> fst (validate_and_consume t c now) = t
     \<and> snd (validate_and_consume t c now) \<noteq> Inr ()"
  by (simp add: validate_and_consume_def)

text \<open>The bindings of a ticket, as the context that it authorizes.\<close>

definition ticket_context :: "user_intent_ticket \<Rightarrow> user_intent_context" where
  "ticket_context t =
     \<lparr>uc_profile_binding_id = ut_profile_binding_id t, uc_space_id = ut_space_id t,
      uc_page_id = ut_page_id t, uc_document_generation = ut_document_generation t,
      uc_action_hash = ut_action_hash t, uc_lease_epoch = ut_lease_epoch t,
      uc_connection_epoch = ut_connection_epoch t,
      uc_connection_nonce = ut_connection_nonce t\<rparr>"

lemma consume_matches:
  "uc_page_id c = ut_page_id t \<and> uc_document_generation c = ut_document_generation t
   \<and> uc_profile_binding_id c = ut_profile_binding_id t \<and> uc_space_id c = ut_space_id t
   \<and> uc_action_hash c = ut_action_hash t \<and> uc_lease_epoch c = ut_lease_epoch t
   \<and> uc_connection_epoch c = ut_connection_epoch t
   \<and> uc_connection_nonce c = ut_connection_nonce t \<longleftrightarrow> c = ticket_context t"
  by (cases c) (auto simp: ticket_context_def)

lemma consume_context:
  "c \<noteq> ticket_context t \<Longrightarrow>
   fst (validate_and_consume t c now) = t \<and> snd (validate_and_consume t c now) \<noteq> Inr ()"
  unfolding consume_matches [symmetric] validate_and_consume_def by (simp; metis)

lemma expiry_nonzero: "now < e \<Longrightarrow> e \<noteq> 0" for now :: timestamp
  by (metis word_not_simps(1))

lemma consume_own_context:
  "validate_and_consume t (ticket_context t) now =
     (if ut_state t \<noteq> TS_Issued then
        (t, Inl (core_error_new EC_PermissionDenied ''user-intent ticket is not available''))
      else if now \<ge> ut_expires_at t then
        (t, Inl (core_error_new EC_PermissionDenied ''user-intent ticket has expired''))
      else if is_some (ut_page_id t) \<noteq> is_some (ut_document_generation t) then
        (t, Inl (core_error_new EC_PermissionDenied
              ''user-intent ticket does not match the requested operation''))
      else (t\<lparr>ut_state := TS_Consumed\<rparr>, Inr ()))"
proof -
  have "ticket_validate_shape t = Inr ()"
    if "now < ut_expires_at t" "is_some (ut_page_id t) = is_some (ut_document_generation t)"
    using that expiry_nonzero [of now "ut_expires_at t"] by (auto simp: ticket_validate_shape_def)
  then show ?thesis
    by (simp add: validate_and_consume_def ticket_context_def not_le) (meson not_le)
qed

lemma consume_Ok_iff:
  "snd (validate_and_consume t c now) = Inr () \<longleftrightarrow>
     ut_state t = TS_Issued \<and> now < ut_expires_at t \<and> c = ticket_context t
     \<and> (ut_page_id t = None \<longleftrightarrow> ut_document_generation t = None)"
  using consume_context [of c t now]
  by (cases "c = ticket_context t") (auto simp: consume_own_context not_le split: if_splits)

lemma consume_result:
  "fst (validate_and_consume t c now) =
     (if snd (validate_and_consume t c now) = Inr () then t\<lparr>ut_state := TS_Consumed\<rparr> else t)"
  using consume_context [of c t now]
  by (cases "c = ticket_context t") (auto simp: consume_own_context not_le split: if_splits)

text \<open>A series of presentations of one ticket: how many of them are granted.\<close>

fun grants :: "user_intent_ticket \<Rightarrow> (user_intent_context \<times> timestamp) list \<Rightarrow> nat" where
  "grants t [] = 0"
| "grants t ((c, now) # rest) =
     (let (t', r) = validate_and_consume t c now in
      (if r = Inr () then 1 else 0) + grants t' rest)"

lemma grants_unavailable: "ut_state t \<noteq> TS_Issued \<Longrightarrow> grants t ps = 0"
  by (induction ps) (auto simp: validate_and_consume_def)

lemma grants_le_1: "grants t ps \<le> 1"
proof (induction ps arbitrary: t)
  case Nil
  show ?case by simp
next
  case (Cons p ps)
  obtain c now where p: "p = (c, now)" by (cases p)
  obtain t' r where v: "validate_and_consume t c now = (t', r)"
    by (cases "validate_and_consume t c now")
  show ?case
  proof (cases r)
    case (Inl e)
    then show ?thesis using Cons.IH [of t'] by (simp add: p v)
  next
    case (Inr u)
    then have "ut_state t' \<noteq> TS_Issued" using consume_result [of t c now] v by simp
    then show ?thesis by (simp add: p v grants_unavailable)
  qed
qed

lemma grants_pos:
  "0 < grants t ps \<longleftrightarrow> (\<exists>(c, now) \<in> set ps. snd (validate_and_consume t c now) = Inr ())"
proof (induction ps)
  case Nil
  show ?case by simp
next
  case (Cons p ps)
  obtain c now where p: "p = (c, now)" by (cases p)
  obtain t' r where v: "validate_and_consume t c now = (t', r)"
    by (cases "validate_and_consume t c now")
  show ?case
    using Cons consume_result [of t c now] by (cases r) (auto simp: p v)
qed

section \<open>Properties\<close>

text \<open>
  An ordinary mutation is admitted exactly when the space is agent-owned, the caller is
  both the owner and the holder of its lease, presents the lease's current epoch, and the
  lease is live (active or renewing, expiry exclusive); so no two callers or epochs can both
  be admitted by one space record, at whatever times they ask.
\<close>

theorem mutation_admission_exact:
  "(validate_mutation_admission s p e now = Ok () \<longleftrightarrow>
     s_lifecycle s = SL_AgentOwned \<and> s_owner s = p \<and>
     is_some_and (s_lease s) (\<lambda>l. l_principal_id l = p \<and> l_lease_epoch l = e
       \<and> now < l_expires_at l \<and> l_state l \<in> {LS_Active, LS_Renewing})) \<and>
   \<not> (validate_mutation_admission s p e now = Ok ()
      \<and> validate_mutation_admission s q f now' = Ok () \<and> (p, e) \<noteq> (q, f))"
  by (auto simp: validate_mutation_admission_Ok validate_epoch_at_Ok is_some_and_iff)

text \<open>
  A valid control-return proof fences the epoch it releases: whatever lease a space holds
  at or beyond the fence epoch, a caller that still presents the released epoch is refused,
  and if everything else about the request is right the error is the stale-lease error, which
  asks for a lease refresh and is not retryable.
\<close>

theorem released_epoch_is_fenced:
  assumes "control_return_validate c = Ok ()"
    and "s_lease s = Some l" and "fp_fence_epoch (cr_fence c) \<le> l_lease_epoch l"
  shows "validate_mutation_admission s p (cr_released_epoch c) now \<noteq> Ok () \<and>
    (s_lifecycle s = SL_AgentOwned \<and> s_owner s = p \<and> l_principal_id l = p \<longrightarrow>
     (\<exists>err. validate_mutation_admission s p (cr_released_epoch c) now = Err err
        \<and> ce_code err = EC_StaleLease \<and> ce_guidance err = EG_RefreshLease \<and> \<not> ce_retryable err))"
proof -
  have "cr_released_epoch c < l_lease_epoch l"
    using assms by (auto simp: record_simps)
  then have "validate_epoch_at l (cr_released_epoch c) now
      = Inl (stale_lease (l_lease_epoch l) (cr_released_epoch c))"
    by (auto simp: validate_epoch_at_def)
  with assms(2) show ?thesis
    by (auto simp: validate_mutation_admission_def space_admits_mutations_iff stale_lease_def
        code_guidance_def code_retryable_def)
qed

definition demo_fence :: fence_proof where
  "demo_fence = \<lparr>fp_space_id = ''space_a'', fp_broker_epoch = 1, fp_released_epoch = Some 4,
     fp_fence_epoch = 5, fp_acknowledged = True\<rparr>"

definition demo_return :: control_return_proof where
  "demo_return = \<lparr>cr_space_id = ''space_a'', cr_released_epoch = 4, cr_fence = demo_fence,
     cr_lifecycle = SL_UserOwned\<rparr>"

definition demo_space :: space_descriptor where
  "demo_space = \<lparr>s_space_id = ''space_a'', s_label = code_points ''demo'', s_lifecycle = SL_AgentOwned,
     s_owner = ''principal_p'', s_lease = Some (lease_active ''principal_p'' 6 100 50),
     s_profile_binding = PF_Bound, s_pages = [], s_visual_group_hint = None, s_capabilities = [],
     s_warnings = [], s_retention = RP_Retain\<rparr>"

lemma released_epoch_is_fenced_witness:
  "control_return_validate demo_return = Ok () \<and>
   s_lease demo_space = Some (lease_active ''principal_p'' 6 100 50) \<and>
   fp_fence_epoch (cr_fence demo_return) \<le> l_lease_epoch (lease_active ''principal_p'' 6 100 50) \<and>
   (\<exists>err. validate_mutation_admission demo_space ''principal_p'' 4 10 = Err err
      \<and> ce_code err = EC_StaleLease)"
proof -
  have h: "control_return_validate demo_return = Ok ()"
    "s_lease demo_space = Some (lease_active ''principal_p'' 6 100 50)"
    "fp_fence_epoch (cr_fence demo_return) \<le> l_lease_epoch (lease_active ''principal_p'' 6 100 50)"
    by (simp_all add: control_return_validate_def fence_validate_def demo_return_def
        demo_fence_def demo_space_def lease_active_def)
  have "\<exists>err. validate_mutation_admission demo_space ''principal_p'' (cr_released_epoch demo_return) 10
      = Err err \<and> ce_code err = EC_StaleLease"
    using released_epoch_is_fenced [OF h, of "''principal_p''" 10]
    by (auto simp: demo_space_def lease_active_def)
  with h show ?thesis by (simp add: demo_return_def)
qed

text \<open>
  A ticket is good for one operation: of any series of presentations at most one is
  granted, and one is granted exactly when some presentation, made before the expiry of an
  issued and well-shaped ticket, matches every binding of the ticket. A presentation that is
  refused leaves the ticket as it was.
\<close>

theorem ticket_single_use:
  "grants t ps \<le> 1 \<and>
   (grants t ps = 1 \<longleftrightarrow>
      ut_state t = TS_Issued \<and> (ut_page_id t = None \<longleftrightarrow> ut_document_generation t = None)
      \<and> (\<exists>now. now < ut_expires_at t \<and> (ticket_context t, now) \<in> set ps)) \<and>
   (snd (validate_and_consume t c now) = Ok () \<or> fst (validate_and_consume t c now) = t)"
proof (intro conjI)
  show "grants t ps \<le> 1" by (rule grants_le_1)
  have "grants t ps = 1 \<longleftrightarrow> 0 < grants t ps" using grants_le_1 [of t ps] by linarith
  then show "grants t ps = 1 \<longleftrightarrow>
      ut_state t = TS_Issued \<and> (ut_page_id t = None \<longleftrightarrow> ut_document_generation t = None)
      \<and> (\<exists>now. now < ut_expires_at t \<and> (ticket_context t, now) \<in> set ps)"
    by (auto simp: grants_pos consume_Ok_iff)
qed (simp add: consume_result)

text \<open>
  The two epoch checks of a lease disagree on one state only: the validator used for
  admission accepts what the boolean check accepts and, beyond it, exactly the unexpired lease
  with the right epoch that is being renewed.
\<close>

theorem epoch_checks_compared:
  "validate_epoch_at l e now = Ok () \<longleftrightarrow>
     accepts_epoch_at l e now
     \<or> l_state l = LS_Renewing \<and> l_lease_epoch l = e \<and> now < l_expires_at l"
  by (auto simp: validate_epoch_at_Ok accepts_epoch_at_iff)

text \<open>
  A cleanup proof is accepted exactly when it is timestamped and its page list is the
  increasing enumeration of a set of at most 4096 pages, so that two accepted proofs that
  clean the same set of pages list them identically.
\<close>

theorem cleanup_scope_canonical:
  "(cleanup_validate c = Ok () \<longleftrightarrow>
     cp_completed_at c \<noteq> 0 \<and> cp_page_ids c = sorted_list_of_set (set (cp_page_ids c))
     \<and> card (set (cp_page_ids c)) \<le> MAX_CLEANUP_PAGES) \<and>
   \<not> (cleanup_validate c = Ok () \<and> cleanup_validate d = Ok ()
      \<and> set (cp_page_ids c) = set (cp_page_ids d) \<and> cp_page_ids c \<noteq> cp_page_ids d)"
proof -
  have iff: "cleanup_validate x = Ok () \<longleftrightarrow> cp_completed_at x \<noteq> 0
      \<and> cp_page_ids x = sorted_list_of_set (set (cp_page_ids x))
      \<and> card (set (cp_page_ids x)) \<le> MAX_CLEANUP_PAGES" for x
  proof -
    have "sorted_wrt (<) (cp_page_ids x) \<longleftrightarrow>
        cp_page_ids x = sorted_list_of_set (set (cp_page_ids x))"
      by (metis List.finite_set sorted_list_of_set.idem_if_sorted_distinct
          sorted_list_of_set.strict_sorted_key_list_of_set strict_sorted_iff)
    then show ?thesis
      by (auto simp: cleanup_validate_def any_window2_ge' strict_sorted_iff distinct_card not_less)
  qed
  show ?thesis unfolding iff by metis
qed

end
