(* ===== verification/Canonical.thy ===== *)
theory Canonical
  imports Records "HOL-Library.Multiset"
begin

text \<open>
  The canonical action serializer (\<^verbatim>\<open>crates/agentyc-core/src/actions.rs\<close>, lines 18 to 760):
  what a Serde serializer receives is the datatype \<open>ser_value\<close>, one constructor per method of
  \<^verbatim>\<open>ser::Serializer\<close> (the integer widths share one), a map being the sequence of
  \<^verbatim>\<open>serialize_key\<close> and \<^verbatim>\<open>serialize_value\<close> calls. Floating-point payload values enter as the
  text that the standard library displays for them. Texts are sequences of Unicode scalar
  values; \<open>utf8\<close> is the encoding that \<^verbatim>\<open>String::into_bytes\<close> exposes.
\<close>

section \<open>Model\<close>

datatype action_operation =
    OP_Navigate | OP_Click | OP_Input | OP_Evaluate | OP_Scroll | OP_Wait | OP_Screenshot
  | OP_StorageWrite | OP_CookieWrite | OP_Upload | OP_Close

fun operation_as_str :: "action_operation \<Rightarrow> string" where
  "operation_as_str OP_Navigate = ''navigate''"
| "operation_as_str OP_Click = ''click''"
| "operation_as_str OP_Input = ''input''"
| "operation_as_str OP_Evaluate = ''evaluate''"
| "operation_as_str OP_Scroll = ''scroll''"
| "operation_as_str OP_Wait = ''wait''"
| "operation_as_str OP_Screenshot = ''screenshot''"
| "operation_as_str OP_StorageWrite = ''storage_write''"
| "operation_as_str OP_CookieWrite = ''cookie_write''"
| "operation_as_str OP_Upload = ''upload''"
| "operation_as_str OP_Close = ''close''"

type_synonym canonical_serialize_error = string

datatype canonical_value =
    CV_Null
  | CV_Bool bool
  | CV_Number utext
  | CV_String utext
  | CV_Array "canonical_value list"
  | CV_Object "(utext \<times> canonical_value) list"

definition cv_object ::
  "(utext \<times> canonical_value) list \<Rightarrow> (canonical_serialize_error, canonical_value) result" where
  "cv_object flds =
     (let flds = sort_key fst flds in
      if any_window2 (\<lambda>a b. fst a = fst b) flds then
        Err ''canonical object contains duplicate keys''
      else Ok (CV_Object flds))"

definition is_control :: "nat \<Rightarrow> bool" where
  "is_control c \<longleftrightarrow> c < 32 \<or> 127 \<le> c \<and> c < 160"

definition hex04 :: "nat \<Rightarrow> utext" where
  "hex04 c = map (\<lambda>i. of_char (hex_digit (c div 16 ^ (3 - i) mod 16))) [0, 1, 2, 3]"

text \<open>The body of the loop over \<^verbatim>\<open>chars()\<close>: what one character appends.\<close>

definition escape_char :: "nat \<Rightarrow> utext" where
  "escape_char c =
     (if c = 34 then [92, 34]
      else if c = 92 then [92, 92]
      else if c = 10 then [92, 110]
      else if c = 13 then [92, 114]
      else if c = 9 then [92, 116]
      else if is_control c then [92, 117] @ hex04 c
      else [c])"

definition append_json_string :: "utext \<Rightarrow> utext" where
  "append_json_string value = [34] @ concat (map escape_char value) @ [34]"

fun render :: "canonical_value \<Rightarrow> utext"
  and render_items :: "canonical_value list \<Rightarrow> utext"
  and render_fields :: "(utext \<times> canonical_value) list \<Rightarrow> utext" where
  "render CV_Null = code_points ''null''"
| "render (CV_Bool value) = (if value then code_points ''true'' else code_points ''false'')"
| "render (CV_Number value) = value"
| "render (CV_String value) = append_json_string value"
| "render (CV_Array values) = [91] @ render_items values @ [93]"
| "render (CV_Object flds) = [123] @ render_fields flds @ [125]"
| "render_items [] = []"
| "render_items [v] = render v"
| "render_items (v # w # vs) = render v @ [44] @ render_items (w # vs)"
| "render_fields [] = []"
| "render_fields [(k, v)] = append_json_string k @ [58] @ render v"
| "render_fields ((k, v) # f # fs) =
     append_json_string k @ [58] @ render v @ [44] @ render_fields (f # fs)"

datatype ser_value =
    SV_Bool bool
  | SV_Int int
  | SV_F32 bool utext utext  \<comment> \<open>finite?, its own text, the text after widening to 64 bits\<close>
  | SV_F64 bool utext        \<comment> \<open>finite?, text\<close>
  | SV_Char nat
  | SV_Str utext
  | SV_Bytes "u8 list"
  | SV_None
  | SV_Some ser_value
  | SV_Unit
  | SV_UnitStruct
  | SV_UnitVariant utext
  | SV_NewtypeStruct ser_value
  | SV_NewtypeVariant utext ser_value
  | SV_Seq "ser_value list"
  | SV_Tuple "ser_value list"
  | SV_TupleStruct "ser_value list"
  | SV_TupleVariant utext "ser_value list"
  | SV_Map "map_call list"
  | SV_Struct "(utext \<times> ser_value) list"
  | SV_StructVariant utext "(utext \<times> ser_value) list"
and map_call = MC_Key ser_value | MC_Value ser_value

definition show_int :: "int \<Rightarrow> utext" where
  "show_int i = code_points
     (if i < 0 then CHR ''-'' # show_nat (nat (- i)) else show_nat (nat i))"

definition scalar_key_error :: "(canonical_serialize_error, utext) result" where
  "scalar_key_error = Err ''map keys must be scalar values''"

fun ser_key :: "ser_value \<Rightarrow> (canonical_serialize_error, utext) result" where
  "ser_key (SV_Bool value) = Ok (code_points (if value then ''true'' else ''false''))"
| "ser_key (SV_Int value) = Ok (show_int value)"
| "ser_key (SV_F32 finite_value text wide) =
     (if finite_value then Ok text else Err ''non-finite map key'')"
| "ser_key (SV_F64 finite_value text) =
     (if finite_value then Ok text else Err ''non-finite map key'')"
| "ser_key (SV_Char value) = Ok [value]"
| "ser_key (SV_Str value) = Ok value"
| "ser_key SV_None = Err ''map keys cannot be null''"
| "ser_key SV_Unit = Err ''map keys cannot be unit''"
| "ser_key SV_UnitStruct = Err ''map keys cannot be unit''"
| "ser_key (SV_UnitVariant variant) = Ok variant"
| "ser_key _ = scalar_key_error"

fun ser :: "ser_value \<Rightarrow> (canonical_serialize_error, canonical_value) result"
  and ser_seq :: "ser_value list \<Rightarrow> (canonical_serialize_error, canonical_value list) result"
  and ser_fields :: "(utext \<times> ser_value) list
    \<Rightarrow> (canonical_serialize_error, (utext \<times> canonical_value) list) result"
  and ser_map :: "map_call list \<Rightarrow> utext option \<Rightarrow> (utext \<times> canonical_value) list
    \<Rightarrow> (canonical_serialize_error, canonical_value) result" where
  "ser (SV_Bool value) = Ok (CV_Bool value)"
| "ser (SV_Int value) = Ok (CV_Number (show_int value))"
| "ser (SV_F32 finite_value text wide) =
     (if \<not> finite_value then
        Err ''canonical action payload cannot contain a non-finite number''
      else Ok (CV_Number wide))"
| "ser (SV_F64 finite_value text) =
     (if \<not> finite_value then
        Err ''canonical action payload cannot contain a non-finite number''
      else Ok (CV_Number text))"
| "ser (SV_Char value) = Ok (CV_String [value])"
| "ser (SV_Str value) = Ok (CV_String value)"
| "ser (SV_Bytes value) =
     Ok (CV_Array (map (\<lambda>byte. CV_Number (code_points (show_nat (unat byte)))) value))"
| "ser SV_None = Ok CV_Null"
| "ser (SV_Some v) = ser v"
| "ser SV_Unit = Ok CV_Null"
| "ser SV_UnitStruct = Ok CV_Null"
| "ser (SV_UnitVariant variant) = Ok (CV_String variant)"
| "ser (SV_NewtypeStruct v) = ser v"
| "ser (SV_NewtypeVariant variant v) = and_then (ser v) (\<lambda>c. cv_object [(variant, c)])"
| "ser (SV_Seq vs) = and_then (ser_seq vs) (\<lambda>cs. Ok (CV_Array cs))"
| "ser (SV_Tuple vs) = and_then (ser_seq vs) (\<lambda>cs. Ok (CV_Array cs))"
| "ser (SV_TupleStruct vs) = and_then (ser_seq vs) (\<lambda>cs. Ok (CV_Array cs))"
| "ser (SV_TupleVariant variant vs) =
     and_then (ser_seq vs) (\<lambda>cs. cv_object [(variant, CV_Array cs)])"
| "ser (SV_Map calls) = ser_map calls None []"
| "ser (SV_Struct fs) = and_then (ser_fields fs) cv_object"
| "ser (SV_StructVariant variant fs) =
     and_then (ser_fields fs) (\<lambda>cs. and_then (cv_object cs) (\<lambda>obj. cv_object [(variant, obj)]))"
| "ser_seq [] = Ok []"
| "ser_seq (v # vs) = and_then (ser v) (\<lambda>c. and_then (ser_seq vs) (\<lambda>cs. Ok (c # cs)))"
| "ser_fields [] = Ok []"
| "ser_fields ((k, v) # fs) =
     and_then (ser v) (\<lambda>c. and_then (ser_fields fs) (\<lambda>cs. Ok ((k, c) # cs)))"
| "ser_map [] pending_key flds =
     (if is_some pending_key then Err ''canonical map ended with a key without a value''
      else cv_object flds)"
| "ser_map (MC_Key k # calls) pending_key flds =
     and_then (ser_key k) (\<lambda>key. ser_map calls (Some key) flds)"
| "ser_map (MC_Value v # calls) pending_key flds =
     and_then (ok_or pending_key ''canonical map value was serialized before its key'')
       (\<lambda>key. and_then (ser v) (\<lambda>c. ser_map calls None (flds @ [(key, c)])))"

text \<open>The UTF-8 code units of one scalar value.\<close>

definition utf8_units :: "nat \<Rightarrow> nat list" where
  "utf8_units c =
     (if c < 128 then [c]
      else if c < 2048 then [192 + c div 64, 128 + c mod 64]
      else if c < 65536 then [224 + c div 4096, 128 + c div 64 mod 64, 128 + c mod 64]
      else [240 + c div 262144, 128 + c div 4096 mod 64, 128 + c div 64 mod 64, 128 + c mod 64])"

definition utf8 :: "utext \<Rightarrow> u8 list" where
  "utf8 xs = map word_of_nat (concat (map utf8_units xs))"

definition action_value ::
  "action_operation \<Rightarrow> ser_value \<Rightarrow> opaque_id \<Rightarrow> opaque_id option
   \<Rightarrow> (core_error, canonical_value) result" where
  "action_value operation payload space_id page_id =
     (case ser payload of
       Inl e \<Rightarrow> Err (invalid_argument (''action payload is not canonical: '' @ e))
     | Inr payload \<Rightarrow>
         (case cv_object
             [(code_points ''page_id'', (case page_id of None \<Rightarrow> CV_Null
                 | Some i \<Rightarrow> CV_String (code_points i))),
              (code_points ''space_id'', CV_String (code_points space_id))] of
           Inl e \<Rightarrow> Err (invalid_argument e)
         | Inr scope \<Rightarrow>
             (case cv_object
                 [(code_points ''operation'', CV_String (code_points (operation_as_str operation))),
                  (code_points ''payload'', payload),
                  (code_points ''scope'', scope)] of
               Inl e \<Rightarrow> Err (invalid_argument e)
             | Inr value \<Rightarrow> Ok value)))"

definition canonical_action_bytes ::
  "action_operation \<Rightarrow> ser_value \<Rightarrow> opaque_id \<Rightarrow> opaque_id option
   \<Rightarrow> (core_error, u8 list) result" where
  "canonical_action_bytes operation payload space_id page_id =
     and_then (action_value operation payload space_id page_id) (\<lambda>value. Ok (utf8 (render value)))"

definition canonical_action_hash ::
  "action_operation \<Rightarrow> ser_value \<Rightarrow> opaque_id \<Rightarrow> opaque_id option
   \<Rightarrow> (core_error, content_hash) result" where
  "canonical_action_hash operation payload space_id page_id =
     and_then (canonical_action_bytes operation payload space_id page_id)
       (\<lambda>bytes. Ok (content_hash_from_bytes bytes))"

section \<open>Field order\<close>

lemma any_window2_eq_sorted:
  "sorted xs \<Longrightarrow> any_window2 (=) xs \<longleftrightarrow> \<not> distinct xs" for xs :: "'a::linorder list"
proof (induction "(=) :: 'a \<Rightarrow> 'a \<Rightarrow> bool" xs rule: any_window2.induct)
  case (1 x y zs)
  then show ?case by (auto simp: not_less dest: antisym)
qed simp_all

lemma any_window2_map: "any_window2 (\<lambda>a b. p (f a) (f b)) xs = any_window2 p (map f xs)"
  by (induction "\<lambda>a b. p (f a) (f b)" xs rule: any_window2.induct) auto

lemma cv_object_eq:
  "cv_object fs = (if distinct (map fst fs) then Inr (CV_Object (sort_key fst fs))
     else Inl ''canonical object contains duplicate keys'')"
proof -
  have "distinct (map fst (sort_key fst fs)) \<longleftrightarrow> distinct (map fst fs)"
    by (metis distinct_sort distinct_map mset_map mset_sort mset_eq_imp_distinct_iff)
  then show ?thesis
    using any_window2_eq_sorted [OF sorted_sort_key [of fst fs]]
    by (simp add: cv_object_def any_window2_map [of "(=)" fst, simplified] Let_def)
qed

text \<open>An object is a function of the multiset of its fields.\<close>

lemma cv_object_perm:
  assumes "mset fs = mset gs"
  shows "cv_object fs = cv_object gs"
proof -
  have d: "distinct (map fst fs) \<longleftrightarrow> distinct (map fst gs)"
    by (metis assms mset_eq_imp_distinct_iff mset_map)
  show ?thesis
  proof (cases "distinct (map fst fs)")
    case True
    then have "inj_on fst (set fs)" by (simp add: distinct_map)
    then have "sort_key fst fs = sort_key fst gs"
      by (intro sort_key_inj_key_eq) (simp_all add: assms)
    with True d show ?thesis by (simp add: cv_object_eq)
  next
    case False
    with d show ?thesis by (simp add: cv_object_eq)
  qed
qed

lemma ser_fields_Ok:
  "ser_fields fs = Inr cs \<longleftrightarrow>
     (\<forall>(k, v) \<in> set fs. isl (ser v) = False) \<and> cs = map (\<lambda>(k, v). (k, projr (ser v))) fs"
proof (induction fs arbitrary: cs)
  case Nil
  show ?case by auto
next
  case (Cons f fs)
  then show ?case by (cases f; cases "ser (snd f)") auto
qed

lemma ser_struct_perm:
  assumes "mset fs = mset gs"
  shows "ser (SV_Struct fs) = Inr v \<longleftrightarrow> ser (SV_Struct gs) = Inr v"
proof -
  have "set fs = set gs" using assms by (rule mset_eq_setD)
  moreover have "cv_object (map h fs) = cv_object (map h gs)" for h
    using assms by (intro cv_object_perm) simp
  ultimately show ?thesis by (auto simp: ser_fields_Ok)
qed

text \<open>A map serialized entry by entry is its keys and values zipped into one object.\<close>

definition entry_calls :: "(ser_value \<times> ser_value) list \<Rightarrow> map_call list" where
  "entry_calls es = concat (map (\<lambda>(k, v). [MC_Key k, MC_Value v]) es)"

lemma ser_map_entries:
  "ser_map (entry_calls es) None acc = Inr v \<longleftrightarrow>
     (\<forall>(k, w) \<in> set es. \<not> isl (ser_key k) \<and> \<not> isl (ser w)) \<and>
     cv_object (acc @ map (\<lambda>(k, w). (projr (ser_key k), projr (ser w))) es) = Inr v"
proof (induction es arbitrary: acc)
  case Nil
  show ?case by (simp add: entry_calls_def)
next
  case (Cons e es)
  obtain k w where e: "e = (k, w)" by (cases e)
  have "entry_calls (e # es) = MC_Key k # MC_Value w # entry_calls es"
    by (simp add: entry_calls_def e)
  with Cons e show ?case by (cases "ser_key k"; cases "ser w") auto
qed

lemma ser_map_perm:
  assumes "mset es = mset gs"
  shows "ser (SV_Map (entry_calls es)) = Inr v \<longleftrightarrow> ser (SV_Map (entry_calls gs)) = Inr v"
proof -
  have "set es = set gs" using assms by (rule mset_eq_setD)
  moreover have "cv_object (map h es) = cv_object (map h gs)" for h
    using assms by (intro cv_object_perm) simp
  ultimately show ?thesis by (auto simp: ser_map_entries)
qed

lemma action_bytes_payload:
  "ser p = Inr v \<Longrightarrow> ser q = Inr v \<Longrightarrow>
   canonical_action_bytes op p s pg = canonical_action_bytes op q s pg"
  by (simp add: canonical_action_bytes_def action_value_def)

lemma action_bytes_Ok_ser:
  "canonical_action_bytes op p s pg = Inr b \<Longrightarrow> \<exists>v. ser p = Inr v"
  by (cases "ser p") (auto simp: canonical_action_bytes_def action_value_def)

lemma action_bytes_cong:
  assumes "\<And>v. ser p = Inr v \<longleftrightarrow> ser q = Inr v"
  shows "canonical_action_bytes op p s pg = Inr b \<longleftrightarrow> canonical_action_bytes op q s pg = Inr b"
  using assms action_bytes_Ok_ser action_bytes_payload by metis

section \<open>Strings read back\<close>

text \<open>A reader for one escaped character; it shows that the escapes form a prefix code.\<close>

definition unhex :: "nat \<Rightarrow> nat" where
  "unhex n = (if n < 58 then n - 48 else n - 87)"

fun unescape :: "utext \<Rightarrow> nat \<times> utext" where
  "unescape (c # rest) =
     (if c \<noteq> 92 then (c, rest)
      else case rest of
        [] \<Rightarrow> (0, [])
      | t # r \<Rightarrow>
          if t = 110 then (10, r) else if t = 114 then (13, r) else if t = 116 then (9, r)
          else if t = 117 then (unhex (r ! 2) * 16 + unhex (r ! 3), drop 4 r)
          else (t, r))"
| "unescape [] = (0, [])"

lemma unhex_hex_digit: "d < 16 \<Longrightarrow> unhex (of_char (hex_digit d)) = d"
  by (simp add: of_char_hex_digit unhex_def)

lemma unescape_escape: "unescape (escape_char c @ r) = (c, r)"
proof (cases "c \<in> {34, 92, 10, 13, 9} \<or> \<not> is_control c")
  case True
  then show ?thesis by (auto simp: escape_char_def is_control_def)
next
  case False
  then have c: "escape_char c = [92, 117] @ hex04 c" "c < 256"
    by (auto simp: escape_char_def is_control_def)
  have "c div 16 < 16" using c(2) by simp
  then have "c div 16 mod 16 * 16 + c mod 16 = c" by (simp only: mod_less div_mult_mod_eq)
  with c show ?thesis by (simp add: hex04_def unhex_hex_digit)
qed

lemma escape_char_prefix:
  "escape_char c @ r = escape_char d @ s \<Longrightarrow> c = d \<and> r = s"
  by (metis unescape_escape prod.inject)

lemma escape_char_hd: "escape_char c \<noteq> [] \<and> hd (escape_char c) \<noteq> 34"
  by (auto simp: escape_char_def)

lemma escaped_prefix:
  "concat (map escape_char x) @ 34 # r = concat (map escape_char y) @ 34 # s \<Longrightarrow> x = y \<and> r = s"
proof (induction x arbitrary: y)
  case Nil
  then show ?case using escape_char_hd by (cases y) (auto, metis append_is_Nil_conv hd_append2 list.sel(1))
next
  case (Cons c x)
  show ?case
  proof (cases y)
    case Nil
    with Cons.prems show ?thesis
      using escape_char_hd [of c] by (auto, metis hd_append2 list.sel(1))
  next
    case (Cons d y')
    with Cons.prems have "escape_char c @ concat (map escape_char x) @ 34 # r
        = escape_char d @ concat (map escape_char y') @ 34 # s" by simp
    from escape_char_prefix [OF this] Cons.IH [of y'] Cons show ?thesis by simp
  qed
qed

lemma json_string_prefix:
  "append_json_string x @ r = append_json_string y @ s \<longleftrightarrow> x = y \<and> r = s"
  using escaped_prefix [of x r y s] by (auto simp: append_json_string_def)

section \<open>Rendering is injective\<close>

definition num_char :: "nat \<Rightarrow> bool" where
  "num_char c \<longleftrightarrow> 48 \<le> c \<and> c \<le> 57 \<or> c = 45 \<or> c = 46"

definition num_text :: "utext \<Rightarrow> bool" where
  "num_text x \<longleftrightarrow> x \<noteq> [] \<and> list_all num_char x"

text \<open>Rust's \<^verbatim>\<open>char\<close> stays below \<^verbatim>\<open>0x110000\<close>.\<close>

definition scalar :: "nat \<Rightarrow> bool" where
  "scalar c \<longleftrightarrow> c < 1114112"

fun cv_wf :: "canonical_value \<Rightarrow> bool" where
  "cv_wf (CV_Number x) \<longleftrightarrow> num_text x"
| "cv_wf (CV_String x) \<longleftrightarrow> list_all scalar x"
| "cv_wf (CV_Array vs) \<longleftrightarrow> (\<forall>v \<in> set vs. cv_wf v)"
| "cv_wf (CV_Object fs) \<longleftrightarrow> (\<forall>f \<in> set fs. list_all scalar (fst f) \<and> cv_wf (snd f))"
| "cv_wf _ \<longleftrightarrow> True"

text \<open>What may follow a value: nothing, a comma or a closing bracket.\<close>

definition stop :: "utext \<Rightarrow> bool" where
  "stop r \<longleftrightarrow> r = [] \<or> hd r \<in> {44, 93, 125}"

definition uniquely_read :: "canonical_value \<Rightarrow> bool" where
  "uniquely_read v \<longleftrightarrow> (\<forall>w r s. cv_wf w \<longrightarrow> stop r \<longrightarrow> stop s \<longrightarrow>
     render v @ r = render w @ s \<longrightarrow> v = w \<and> r = s)"

fun first_char :: "canonical_value \<Rightarrow> nat" where
  "first_char CV_Null = 110"
| "first_char (CV_Bool b) = (if b then 116 else 102)"
| "first_char (CV_Number x) = hd x"
| "first_char (CV_String x) = 34"
| "first_char (CV_Array vs) = 91"
| "first_char (CV_Object fs) = 123"

lemma render_opening: "cv_wf v \<Longrightarrow> \<exists>rest. render v = first_char v # rest"
  by (cases v) (auto simp: code_points_def append_json_string_def num_text_def neq_Nil_conv)

lemma opening_not_closing: "cv_wf v \<Longrightarrow> first_char v \<notin> {44, 93, 125}"
  by (cases v) (auto simp: num_text_def num_char_def neq_Nil_conv)

lemma number_prefix:
  assumes "num_text x" "num_text y" "stop r" "stop s" "x @ r = y @ s"
  shows "x = y \<and> r = s"
proof -
  have "takeWhile num_char (z @ q) = z" if "num_text z" "stop q" for z q
    using that by (cases q) (auto simp: num_text_def list_all_iff stop_def num_char_def
        takeWhile_append2)
  with assms show ?thesis by (metis append_same_eq same_append_eq)
qed

lemma render_items_Cons:
  "render_items (v # vs) = render v @ (if vs = [] then [] else 44 # render_items vs)"
  by (cases vs) auto

lemma render_fields_Cons:
  "render_fields ((k, v) # fs) =
     append_json_string k @ 58 # render v @ (if fs = [] then [] else 44 # render_fields fs)"
  by (cases fs) auto

lemma stop_simps [simp]: "stop (44 # r)" "stop (93 # r)" "stop (125 # r)" "stop []"
  by (simp_all add: stop_def)

lemma items_prefix:
  assumes "\<forall>v \<in> set vs. uniquely_read v \<and> cv_wf v" "\<forall>w \<in> set ws. cv_wf w"
    and "render_items vs @ 93 # r = render_items ws @ 93 # s"
  shows "vs = ws \<and> r = s"
  using assms
proof (induction vs arbitrary: ws)
  case Nil
  then show ?case
    using render_opening opening_not_closing
    by (cases ws) (auto simp: render_items_Cons, (metis append_Cons insertCI list.inject)+)
next
  case (Cons v vs)
  obtain w ws' where ws: "ws = w # ws'"
    using Cons.prems render_opening [of v] opening_not_closing [of v]
    by (cases ws) (auto simp: render_items_Cons)
  define tail where "tail us t = (if us = [] then 93 # t else 44 # render_items us @ 93 # t)" for us t
  have "render v @ tail vs r = render w @ tail ws' s"
    using Cons.prems(3) by (simp add: ws render_items_Cons tail_def split: if_splits)
  moreover have "stop (tail vs r)" "stop (tail ws' s)" by (simp_all add: tail_def)
  ultimately have vw: "v = w" "tail vs r = tail ws' s"
    using Cons.prems(1,2) ws by (auto simp: uniquely_read_def)
  then have "vs = ws' \<and> r = s"
    using Cons.IH [of ws'] Cons.prems ws by (auto simp: tail_def split: if_splits)
  with vw ws show ?case by simp
qed

lemma fields_prefix:
  assumes "\<forall>f \<in> set fs. uniquely_read (snd f)" "\<forall>f \<in> set gs. cv_wf (snd f)"
    and "render_fields fs @ 125 # r = render_fields gs @ 125 # s"
  shows "fs = gs \<and> r = s"
  using assms
proof (induction fs arbitrary: gs)
  case Nil
  then show ?case by (cases gs) (auto simp: render_fields_Cons append_json_string_def)
next
  case (Cons f fs)
  obtain k v where f: "f = (k, v)" by (cases f)
  obtain j w gs' where gs: "gs = (j, w) # gs'"
    using Cons.prems(3) f by (cases gs) (auto simp: render_fields_Cons append_json_string_def)
  define tail where "tail us t = (if us = [] then 125 # t else 44 # render_fields us @ 125 # t)" for us t
  have "append_json_string k @ 58 # render v @ tail fs r
      = append_json_string j @ 58 # render w @ tail gs' s"
    using Cons.prems(3) by (simp add: f gs render_fields_Cons tail_def split: if_splits)
  then have kj: "k = j" and "render v @ tail fs r = render w @ tail gs' s"
    using json_string_prefix by auto
  moreover have "stop (tail fs r)" "stop (tail gs' s)" by (simp_all add: tail_def)
  ultimately have vw: "v = w" "tail fs r = tail gs' s"
    using Cons.prems(1,2) f gs by (auto simp: uniquely_read_def)
  then have "fs = gs' \<and> r = s"
    using Cons.IH [of gs'] Cons.prems gs by (auto simp: tail_def split: if_splits)
  with vw kj f gs show ?case by simp
qed

lemma render_uniquely_read: "cv_wf v \<Longrightarrow> uniquely_read v"
proof (induction v)
  case (CV_Array vs)
  then have vs: "\<forall>v \<in> set vs. uniquely_read v \<and> cv_wf v" by simp
  show ?case unfolding uniquely_read_def
  proof (intro allI impI)
    fix w r s
    assume w: "cv_wf w" and st: "stop r" "stop s" and eq: "render (CV_Array vs) @ r = render w @ s"
    have "first_char w = 91" using eq render_opening [OF w] by auto
    then obtain ws where ws: "w = CV_Array ws"
      using w by (cases w) (auto simp: num_text_def num_char_def neq_Nil_conv split: if_splits)
    then show "CV_Array vs = w \<and> r = s" using items_prefix [OF vs, of ws r s] w eq by simp
  qed
next
  case (CV_Object fs)
  then have fs: "\<forall>f \<in> set fs. uniquely_read (snd f)" by (auto simp: snds.simps)
  show ?case unfolding uniquely_read_def
  proof (intro allI impI)
    fix w r s
    assume w: "cv_wf w" and st: "stop r" "stop s" and eq: "render (CV_Object fs) @ r = render w @ s"
    have "first_char w = 123" using eq render_opening [OF w] by auto
    then obtain gs where gs: "w = CV_Object gs"
      using w by (cases w) (auto simp: num_text_def num_char_def neq_Nil_conv split: if_splits)
    then show "CV_Object fs = w \<and> r = s" using fields_prefix [OF fs, of gs r s] w eq by simp
  qed
next
  case (CV_Number x)
  show ?case unfolding uniquely_read_def
  proof (intro allI impI)
    fix w r s
    assume w: "cv_wf w" and st: "stop r" "stop s" and eq: "render (CV_Number x) @ r = render w @ s"
    have "num_char (first_char w)"
      using eq render_opening [OF w] CV_Number by (auto simp: num_text_def neq_Nil_conv)
    then obtain y where y: "w = CV_Number y"
      by (cases w) (auto simp: num_char_def split: if_splits)
    then show "CV_Number x = w \<and> r = s"
      using number_prefix [of x y r s] w eq st CV_Number by simp
  qed
next
  case (CV_String x)
  show ?case unfolding uniquely_read_def
  proof (intro allI impI)
    fix w r s
    assume w: "cv_wf w" and eq: "render (CV_String x) @ r = render w @ s"
    have "first_char w = 34"
      using eq render_opening [OF w] by (auto simp: append_json_string_def)
    then obtain y where "w = CV_String y"
      using w by (cases w) (auto simp: num_text_def num_char_def neq_Nil_conv split: if_splits)
    then show "CV_String x = w \<and> r = s" using eq json_string_prefix by simp
  qed
next
  case CV_Null
  show ?case unfolding uniquely_read_def
  proof (intro allI impI)
    fix w r s
    assume w: "cv_wf w" and eq: "render CV_Null @ r = render w @ s"
    have "first_char w = 110" using eq render_opening [OF w] by (auto simp: code_points_def)
    then have "w = CV_Null"
      using w by (cases w) (auto simp: num_text_def num_char_def neq_Nil_conv split: if_splits)
    then show "CV_Null = w \<and> r = s" using eq by simp
  qed
next
  case (CV_Bool b)
  show ?case unfolding uniquely_read_def
  proof (intro allI impI)
    fix w r s
    assume w: "cv_wf w" and eq: "render (CV_Bool b) @ r = render w @ s"
    have "first_char w = (if b then 116 else 102)"
      using eq render_opening [OF w] by (auto simp: code_points_def split: if_splits)
    then have "w = CV_Bool b"
      using w by (cases w) (auto simp: num_text_def num_char_def neq_Nil_conv split: if_splits)
    then show "CV_Bool b = w \<and> r = s" using eq by simp
  qed
qed

lemma render_inj: "cv_wf v \<Longrightarrow> cv_wf w \<Longrightarrow> render v = render w \<longleftrightarrow> v = w"
  using render_uniquely_read [of v] stop_simps(4) unfolding uniquely_read_def by metis

section \<open>UTF-8\<close>

lemma utf8_units_bytes: "scalar c \<Longrightarrow> b \<in> set (utf8_units c) \<Longrightarrow> b < 256"
  by (auto simp: utf8_units_def scalar_def split: if_splits)

text \<open>A reader for one scalar value: the first byte tells the length.\<close>

fun read_utf8 :: "nat list \<Rightarrow> nat \<times> nat list" where
  "read_utf8 (a # r) =
     (if a < 128 then (a, r)
      else if a < 224 then ((a - 192) * 64 + (r ! 0 - 128), drop 1 r)
      else if a < 240 then (((a - 224) * 64 + (r ! 0 - 128)) * 64 + (r ! 1 - 128), drop 2 r)
      else ((((a - 240) * 64 + (r ! 0 - 128)) * 64 + (r ! 1 - 128)) * 64 + (r ! 2 - 128), drop 3 r))"
| "read_utf8 [] = (0, [])"

lemma base64_steps:
  "c div 64 * 64 + c mod 64 = c"
  "c div 4096 * 64 + c div 64 mod 64 = c div 64"
  "c div 262144 * 64 + c div 4096 mod 64 = c div (4096 :: nat)"
  using div_mult_mod_eq [of c 64] div_mult_mod_eq [of "c div 64" 64]
    div_mult_mod_eq [of "c div 4096" 64]
  by (simp_all flip: div_mult2_eq)

lemma read_utf8_units:
  assumes "scalar c" shows "read_utf8 (utf8_units c @ r) = (c, r)"
proof -
  have "c div 64 < 32" if "c < 2048" using that by simp
  moreover have "c div 4096 < 16" if "c < 65536" using that by simp
  ultimately show ?thesis
    using base64_steps [of c] by (auto simp: utf8_units_def)
qed

lemma utf8_units_inj:
  "list_all scalar xs \<Longrightarrow> list_all scalar ys \<Longrightarrow>
   concat (map utf8_units xs) = concat (map utf8_units ys) \<Longrightarrow> xs = ys"
proof (induction xs arbitrary: ys)
  case Nil
  then show ?case by (cases ys) (auto simp: utf8_units_def split: if_splits)
next
  case (Cons x xs)
  show ?case
  proof (cases ys)
    case Nil
    with Cons.prems(3) show ?thesis by (auto simp: utf8_units_def split: if_splits)
  next
    case (Cons y zs)
    with Cons.prems have "read_utf8 (utf8_units x @ concat (map utf8_units xs))
        = read_utf8 (utf8_units y @ concat (map utf8_units zs))" "scalar x" "scalar y" by simp_all
    then have "x = y" "concat (map utf8_units xs) = concat (map utf8_units zs)"
      by (simp_all only: read_utf8_units prod.inject)
    with Cons Cons.prems Cons.IH [of zs] show ?thesis by simp
  qed
qed

lemma utf8_inj:
  assumes "list_all scalar xs" "list_all scalar ys"
  shows "utf8 xs = utf8 ys \<longleftrightarrow> xs = ys"
proof
  assume eq: "utf8 xs = utf8 ys"
  have byte: "list_all (\<lambda>b. b < 256) (concat (map utf8_units zs))" if "list_all scalar zs" for zs
    using that utf8_units_bytes by (force simp: list_all_iff)
  have units: "map unat (utf8 zs) = concat (map utf8_units zs)" if "list_all scalar zs" for zs
    using byte [OF that]
    by (auto simp: utf8_def list_all_iff unat_of_nat intro!: map_idI)
  from eq have "concat (map utf8_units xs) = concat (map utf8_units ys)"
    using assms units by metis
  with assms show "xs = ys" by (rule utf8_units_inj)
qed simp

lemma num_text_scalar: "num_text x \<Longrightarrow> list_all scalar x"
  by (auto simp: num_text_def num_char_def scalar_def list_all_iff)

lemma code_points_scalar [simp]: "list_all scalar (code_points s)"
proof -
  have "(of_char c :: nat) < 1114112" for c
    using nat_of_char_less_256 [of c] by linarith
  then show ?thesis by (simp add: code_points_def list_all_iff scalar_def)
qed

lemma escape_char_scalar: "scalar c \<Longrightarrow> list_all scalar (escape_char c)"
proof -
  have "(of_char d :: nat) < 1114112" for d
    using nat_of_char_less_256 [of d] by linarith
  then show "scalar c \<Longrightarrow> list_all scalar (escape_char c)"
    by (auto simp: escape_char_def scalar_def hex04_def)
qed

lemma json_string_scalar: "list_all scalar x \<Longrightarrow> list_all scalar (append_json_string x)"
  using escape_char_scalar by (fastforce simp: append_json_string_def scalar_def list_all_iff)

lemma render_scalar:
  "cv_wf v \<Longrightarrow> list_all scalar (render v)"
  "\<forall>v \<in> set vs. cv_wf v \<Longrightarrow> list_all scalar (render_items vs)"
  "\<forall>f \<in> set fs. list_all scalar (fst f) \<and> cv_wf (snd f) \<Longrightarrow> list_all scalar (render_fields fs)"
  by (induction v and vs and fs rule: render_render_items_render_fields.induct)
    (simp_all add: num_text_scalar json_string_scalar, simp_all add: scalar_def)

section \<open>What payloads serialize to\<close>

text \<open>
  Texts are sequences of scalar values, and the text displayed for a finite float is non-empty
  and made of digits, signs and points: what the types and the standard library's \<^verbatim>\<open>Display\<close>
  of floats guarantee.
\<close>

fun ser_wf :: "ser_value \<Rightarrow> bool" and call_wf :: "map_call \<Rightarrow> bool" where
  "ser_wf (SV_F32 finite_value text wide) \<longleftrightarrow> num_text text \<and> num_text wide \<or> \<not> finite_value"
| "ser_wf (SV_F64 finite_value text) \<longleftrightarrow> num_text text \<or> \<not> finite_value"
| "ser_wf (SV_Char c) \<longleftrightarrow> scalar c"
| "ser_wf (SV_Str x) \<longleftrightarrow> list_all scalar x"
| "ser_wf (SV_Some v) \<longleftrightarrow> ser_wf v"
| "ser_wf (SV_UnitVariant x) \<longleftrightarrow> list_all scalar x"
| "ser_wf (SV_NewtypeStruct v) \<longleftrightarrow> ser_wf v"
| "ser_wf (SV_NewtypeVariant x v) \<longleftrightarrow> list_all scalar x \<and> ser_wf v"
| "ser_wf (SV_Seq vs) \<longleftrightarrow> (\<forall>v \<in> set vs. ser_wf v)"
| "ser_wf (SV_Tuple vs) \<longleftrightarrow> (\<forall>v \<in> set vs. ser_wf v)"
| "ser_wf (SV_TupleStruct vs) \<longleftrightarrow> (\<forall>v \<in> set vs. ser_wf v)"
| "ser_wf (SV_TupleVariant x vs) \<longleftrightarrow> list_all scalar x \<and> (\<forall>v \<in> set vs. ser_wf v)"
| "ser_wf (SV_Map calls) \<longleftrightarrow> (\<forall>c \<in> set calls. call_wf c)"
| "ser_wf (SV_Struct fs) \<longleftrightarrow> (\<forall>f \<in> set fs. list_all scalar (fst f) \<and> ser_wf (snd f))"
| "ser_wf (SV_StructVariant x fs) \<longleftrightarrow>
     list_all scalar x \<and> (\<forall>f \<in> set fs. list_all scalar (fst f) \<and> ser_wf (snd f))"
| "ser_wf _ \<longleftrightarrow> True"
| "call_wf (MC_Key k) \<longleftrightarrow> ser_wf k"
| "call_wf (MC_Value v) \<longleftrightarrow> ser_wf v"

abbreviation fields_wf :: "(utext \<times> canonical_value) list \<Rightarrow> bool" where
  "fields_wf fs \<equiv> \<forall>f \<in> set fs. list_all scalar (fst f) \<and> cv_wf (snd f)"

lemma show_nat_num_text: "num_text (code_points (show_nat n))"
  using show_nat_digits [of _ n]
  by (auto simp: num_text_def code_points_def list_all_iff num_char_def is_ascii_digit_def)

lemma show_int_num_text: "num_text (show_int i)"
  using show_nat_num_text [of "nat (- i)"] show_nat_num_text [of "nat i"]
  by (auto simp: show_int_def num_text_def code_points_def num_char_def)

lemma ser_key_scalar: "ser_wf k \<Longrightarrow> ser_key k = Inr x \<Longrightarrow> list_all scalar x"
  by (cases k rule: ser_key.cases)
    (auto simp: scalar_key_error_def num_text_scalar show_int_num_text split: if_splits)

lemma cv_object_Ok: "cv_object fs = Inr v \<longleftrightarrow> distinct (map fst fs) \<and> v = CV_Object (sort_key fst fs)"
  by (auto simp: cv_object_eq)

text \<open>What holds of a result if it is one.\<close>

definition on_ok :: "('a \<Rightarrow> bool) \<Rightarrow> ('e, 'a) result \<Rightarrow> bool" where
  "on_ok P r = (case r of Inl e \<Rightarrow> True | Inr a \<Rightarrow> P a)"

lemma on_ok_simps [simp]:
  "on_ok P (Inl e)" "on_ok P (Inr a) = P a"
  by (simp_all add: on_ok_def)

lemma on_ok_bind: "on_ok Q r \<Longrightarrow> (\<And>a. Q a \<Longrightarrow> on_ok P (f a)) \<Longrightarrow> on_ok P (and_then r f)"
  by (cases r) auto

lemma cv_object_wf: "fields_wf fs \<Longrightarrow> on_ok cv_wf (cv_object fs)"
  by (simp add: cv_object_eq)

lemma ser_key_on_ok: "ser_wf k \<Longrightarrow> on_ok (list_all scalar) (ser_key k)"
  using ser_key_scalar [of k] by (cases "ser_key k") auto

lemma ser_cv_wf:
  "ser_wf v \<Longrightarrow> on_ok cv_wf (ser v)"
  "\<forall>v \<in> set vs. ser_wf v \<Longrightarrow> on_ok (\<lambda>cs. \<forall>c \<in> set cs. cv_wf c) (ser_seq vs)"
  "\<forall>f \<in> set fs. list_all scalar (fst f) \<and> ser_wf (snd f) \<Longrightarrow> on_ok fields_wf (ser_fields fs)"
  "\<forall>k \<in> set calls. call_wf k \<Longrightarrow> fields_wf acc \<Longrightarrow> is_none_or pending (list_all scalar) \<Longrightarrow>
     on_ok cv_wf (ser_map calls pending acc)"
proof (induction v and vs and fs and calls pending acc rule: ser_ser_seq_ser_fields_ser_map.induct)
  case (14 variant v)
  then show ?case by (auto intro!: on_ok_bind [where Q = cv_wf] cv_object_wf)
next
  case (18 variant vs)
  then show ?case
    by (auto intro!: on_ok_bind [where Q = "\<lambda>cs. \<forall>c \<in> set cs. cv_wf c"] cv_object_wf)
next
  case (20 fs)
  then show ?case by (auto intro!: on_ok_bind [where Q = fields_wf] cv_object_wf)
next
  case (21 variant fs)
  have "on_ok cv_wf (and_then (cv_object cs) (\<lambda>obj. cv_object [(variant, obj)]))"
    if "fields_wf cs" for cs
    by (rule on_ok_bind [OF cv_object_wf [OF that]]) (use 21 in \<open>auto intro!: cv_object_wf\<close>)
  with 21 show ?case by (auto intro!: on_ok_bind [where Q = fields_wf])
next
  case (23 v vs)
  have "on_ok (\<lambda>cs. \<forall>c \<in> set cs. cv_wf c) (and_then (ser_seq vs) (\<lambda>cs. Inr (c # cs)))"
    if "cv_wf c" for c
    by (rule on_ok_bind [OF "23.IH"(2)]) (use 23 that in auto)
  with 23 show ?case by (auto intro!: on_ok_bind [where Q = cv_wf])
next
  case (25 k v fs)
  have "on_ok fields_wf (and_then (ser_fields fs) (\<lambda>cs. Inr ((k, c) # cs)))" if "cv_wf c" for c
    by (rule on_ok_bind [OF "25.IH"(2)]) (use 25 that in auto)
  with 25 show ?case by (auto intro!: on_ok_bind [where Q = cv_wf])
next
  case (26 pending acc)
  then show ?case by (simp add: cv_object_wf)
next
  case (27 k calls pending acc)
  then show ?case by (auto intro!: on_ok_bind [OF ser_key_on_ok])
next
  case (28 v calls pending acc)
  show ?case
  proof (cases pending)
    case (Some key)
    have "on_ok cv_wf (ser_map calls None (acc @ [(key, c)]))" if "cv_wf c" for c
      by (rule "28.IH"(2)) (use 28 that Some in auto)
    with 28 Some show ?thesis by (auto intro!: on_ok_bind [where Q = cv_wf])
  qed simp
qed (simp_all add: show_int_num_text show_nat_num_text,
    (auto intro!: on_ok_bind [where Q = "\<lambda>cs. \<forall>c \<in> set cs. cv_wf c"])?)

section \<open>Action values\<close>

lemma code_points_inj [simp]: "code_points s = code_points t \<longleftrightarrow> s = t"
  using map_injective [of "of_char :: char \<Rightarrow> nat" s t] by (auto simp: code_points_def inj_def)

lemma operation_as_str_inj [simp]: "operation_as_str a = operation_as_str b \<longleftrightarrow> a = b"
  by (cases a; cases b; simp)

definition scope_value :: "opaque_id \<Rightarrow> opaque_id option \<Rightarrow> canonical_value" where
  "scope_value s pg = CV_Object
     [(code_points ''page_id'', case pg of None \<Rightarrow> CV_Null | Some i \<Rightarrow> CV_String (code_points i)),
      (code_points ''space_id'', CV_String (code_points s))]"

lemma action_value_Ok:
  "action_value op p s pg = Inr v \<longleftrightarrow>
     (\<exists>c. ser p = Inr c \<and> v = CV_Object
        [(code_points ''operation'', CV_String (code_points (operation_as_str op))),
         (code_points ''payload'', c), (code_points ''scope'', scope_value s pg)])"
proof -
  have scope: "cv_object [(code_points ''page_id'', a), (code_points ''space_id'', b)]
      = Inr (CV_Object [(code_points ''page_id'', a), (code_points ''space_id'', b)])" for a b
    by (simp add: cv_object_eq code_points_def)
  have action: "cv_object [(code_points ''operation'', a), (code_points ''payload'', b), (code_points ''scope'', c)]
      = Inr (CV_Object [(code_points ''operation'', a), (code_points ''payload'', b), (code_points ''scope'', c)])"
    for a b c
    by (simp add: cv_object_eq code_points_def)
  show ?thesis by (cases "ser p") (auto simp: action_value_def scope action scope_value_def)
qed

lemma scope_value_inj: "scope_value s pg = scope_value s' pg' \<longleftrightarrow> s = s' \<and> pg = pg'"
  by (auto simp: scope_value_def split: option.splits)

lemma scope_value_wf: "cv_wf (scope_value s pg)"
  by (auto simp: scope_value_def split: option.splits)

lemma action_value_wf: "ser_wf p \<Longrightarrow> action_value op p s pg = Inr v \<Longrightarrow> cv_wf v"
  using ser_cv_wf(1) [of p] by (auto simp: action_value_Ok scope_value_wf)

section \<open>Properties\<close>

text \<open>
  The canonical bytes of an action do not depend on the order in which a payload struct
  lists its fields or a payload map its entries: permuted payloads are accepted together and
  serialize to the same bytes.
\<close>

theorem canonical_order_irrelevant:
  assumes "mset fs = mset gs" and "mset es = mset ds"
  shows "(canonical_action_bytes op (SV_Struct fs) s pg = Ok b \<longleftrightarrow>
          canonical_action_bytes op (SV_Struct gs) s pg = Ok b) \<and>
         (canonical_action_bytes op (SV_Map (entry_calls es)) s pg = Ok b \<longleftrightarrow>
          canonical_action_bytes op (SV_Map (entry_calls ds)) s pg = Ok b)"
  by (intro conjI action_bytes_cong ser_struct_perm ser_map_perm assms)

lemma canonical_order_irrelevant_witness:
  "mset [(code_points ''b'', SV_Int 2), (code_points ''a'', SV_None)]
     = mset [(code_points ''a'', SV_None), (code_points ''b'', SV_Int 2)] \<and>
   canonical_action_bytes OP_Click (SV_Struct [(code_points ''b'', SV_Int 2), (code_points ''a'', SV_None)])
     ''space_x'' None
   = canonical_action_bytes OP_Click (SV_Struct [(code_points ''a'', SV_None), (code_points ''b'', SV_Int 2)])
     ''space_x'' None"
proof -
  let ?fs = "[(code_points ''b'', SV_Int 2), (code_points ''a'', SV_None)]"
  let ?gs = "[(code_points ''a'', SV_None), (code_points ''b'', SV_Int 2)]"
  have m: "mset ?fs = mset ?gs" by simp
  have "\<exists>b. canonical_action_bytes OP_Click (SV_Struct ?gs) ''space_x'' None = Ok b"
    by (simp add: canonical_action_bytes_def action_value_Ok cv_object_eq code_points_def)
  with canonical_order_irrelevant [OF m refl, of OP_Click "''space_x''" None]
  have "canonical_action_bytes OP_Click (SV_Struct ?fs) ''space_x'' None
      = canonical_action_bytes OP_Click (SV_Struct ?gs) ''space_x'' None" by metis
  with m show ?thesis by blast
qed

text \<open>
  C30: The canonical bytes determine the action: two actions with well-formed payloads have the
  same canonical bytes exactly when they are the same operation on the same space and page
  and their payloads have the same canonical value. Nothing that a confirmation ticket or an
  idempotency key should tell apart is merged before hashing.
\<close>

theorem canonical_bytes_determine_action:
  assumes "ser_wf p" and "ser_wf q"
  shows "(\<exists>b. canonical_action_bytes op p s pg = Ok b \<and> canonical_action_bytes op' q s' pg' = Ok b)
    \<longleftrightarrow> op = op' \<and> s = s' \<and> pg = pg' \<and> (\<exists>c. ser p = Ok c \<and> ser q = Ok c)"
proof
  assume "\<exists>b. canonical_action_bytes op p s pg = Ok b \<and> canonical_action_bytes op' q s' pg' = Ok b"
  then obtain v w where v: "action_value op p s pg = Inr v" and w: "action_value op' q s' pg' = Inr w"
    and eq: "utf8 (render v) = utf8 (render w)"
    by (auto simp: canonical_action_bytes_def)
  have wf: "cv_wf v" "cv_wf w" using action_value_wf assms v w by blast+
  with eq have "v = w" using render_inj render_scalar(1) utf8_inj by metis
  with v w show "op = op' \<and> s = s' \<and> pg = pg' \<and> (\<exists>c. ser p = Ok c \<and> ser q = Ok c)"
    by (auto simp: action_value_Ok scope_value_inj)
qed (auto simp: canonical_action_bytes_def action_value_Ok)

lemma canonical_bytes_determine_action_witness:
  "ser_wf (SV_Str (code_points ''1'')) \<and> ser_wf (SV_Int 1) \<and>
   canonical_action_bytes OP_Input (SV_Str (code_points ''1'')) ''space_x'' None
   \<noteq> canonical_action_bytes OP_Input (SV_Int 1) ''space_x'' None"
proof -
  have h: "ser_wf (SV_Str (code_points ''1''))" "ser_wf (SV_Int 1)" by simp_all
  have "\<not> (\<exists>c. ser (SV_Str (code_points ''1'')) = Ok c \<and> ser (SV_Int 1) = Ok c)" by simp
  moreover have "\<exists>b. canonical_action_bytes OP_Input (SV_Int 1) ''space_x'' None = Ok b"
    by (simp add: canonical_action_bytes_def action_value_Ok)
  ultimately show ?thesis
    using h canonical_bytes_determine_action [OF h, of OP_Input "''space_x''" None OP_Input "''space_x''" None]
    by metis
qed

end
