(* ===== verification/Actions.thy ===== *)
theory Actions
  imports Canonical
begin

text \<open>
  Action requests and durable receipts (\<^verbatim>\<open>crates/agentyc-core/src/actions.rs\<close>, from line
  762): the admission checks of a request, the receipt with its validator and its nine
  transitions. A transition takes \<^verbatim>\<open>&mut self\<close>; it returns the receipt it leaves behind with
  its result. \<open>receipt_op\<close> names a transition with its arguments, so that \<open>apply_op\<close> and
  \<open>run_ops\<close> describe whole histories of one receipt.
\<close>

section \<open>Requests\<close>

datatype unknown_reason =
    UR_LostResponse | UR_BridgeLost | UR_HostRestarted | UR_TimeoutAfterDispatch
  | UR_BrowserSessionChanged | UR_FenceInterrupted

datatype postcondition = PC_PageGeneration generation | PC_SnapshotHash content_hash

record 'p action_request =
  aq_request_id :: opaque_id
  aq_action_id :: opaque_id
  aq_idempotency_key :: opaque_id
  aq_request_hash :: content_hash
  aq_space_id :: opaque_id
  aq_page_id :: "opaque_id option"
  aq_lease_epoch :: lease_epoch
  aq_operation :: action_operation
  aq_payload :: 'p
  aq_postcondition :: "postcondition option"

definition request_validate_lease :: "'p action_request \<Rightarrow> lease_epoch \<Rightarrow> (core_error, unit) result" where
  "request_validate_lease q current =
     (if aq_lease_epoch q \<noteq> current then Err (stale_lease current (aq_lease_epoch q)) else Ok ())"

definition request_validate_lease_at ::
  "'p action_request \<Rightarrow> lease \<Rightarrow> timestamp \<Rightarrow> (core_error, unit) result" where
  "request_validate_lease_at q l now = validate_epoch_at l (aq_lease_epoch q) now"

definition validate_space_admission ::
  "'p action_request \<Rightarrow> space_descriptor \<Rightarrow> opaque_id \<Rightarrow> timestamp \<Rightarrow> (core_error, unit) result" where
  "validate_space_admission q space principal_id now =
     validate_mutation_admission space principal_id (aq_lease_epoch q) now"

definition validate_user_intent ::
  "'p action_request \<Rightarrow> user_intent_ticket option \<Rightarrow> bool \<Rightarrow> opaque_id \<Rightarrow> connection_epoch \<Rightarrow> opaque_id
   \<Rightarrow> generation option \<Rightarrow> timestamp \<Rightarrow> user_intent_ticket option \<times> (core_error, unit) result" where
  "validate_user_intent q ticket required profile_binding_id connection_epoch connection_nonce
       document_generation now =
     (case ticket of
       None \<Rightarrow>
         (None, if required then
                  Err (core_error_new EC_PermissionDenied ''user-intent ticket is required'')
                else Ok ())
     | Some t \<Rightarrow>
         (let (t', r) = validate_and_consume t
            \<lparr>uc_profile_binding_id = profile_binding_id, uc_space_id = aq_space_id q,
             uc_page_id = aq_page_id q, uc_document_generation = document_generation,
             uc_action_hash = aq_request_hash q, uc_lease_epoch = aq_lease_epoch q,
             uc_connection_epoch = connection_epoch, uc_connection_nonce = connection_nonce\<rparr> now
          in (Some t', r)))"

definition request_canonical_hash :: "ser_value action_request \<Rightarrow> (core_error, content_hash) result" where
  "request_canonical_hash q =
     canonical_action_hash (aq_operation q) (aq_payload q) (aq_space_id q) (aq_page_id q)"

definition validate_canonical_hash :: "ser_value action_request \<Rightarrow> (core_error, unit) result" where
  "validate_canonical_hash q =
     and_then (request_canonical_hash q) (\<lambda>expected.
       if aq_request_hash q \<noteq> expected then
         Err (invalid_argument
           ''request hash does not match operation, payload, and logical scope'')
       else Ok ())"

section \<open>Receipts\<close>

record action_receipt =
  ar_action_id :: opaque_id
  ar_request_id :: opaque_id
  ar_idempotency_key :: opaque_id
  ar_request_hash :: content_hash
  ar_space_id :: opaque_id
  ar_page_id :: "opaque_id option"
  ar_lease_epoch :: lease_epoch
  ar_operation :: action_operation
  ar_status :: action_status
  ar_dispatch_state :: dispatch_state
  ar_retryable :: bool
  ar_unknown :: bool
  ar_unknown_reason :: "unknown_reason option"
  ar_reconciliation_state :: reconciliation_state
  ar_completion_source :: completion_source
  ar_postcondition :: "postcondition option"
  ar_error_code :: "error_code option"
  ar_reconcile_token :: "opaque_id option"
  ar_next_action :: next_action
  ar_started_at :: "timestamp option"
  ar_completed_at :: "timestamp option"

type_synonym receipt_validation_error = string

datatype action_transition_error =
    AT_InvalidStatus action_status action_status
  | AT_NotDispatched
  | AT_InvalidDispatchState
  | AT_InvalidCompletionSource
  | AT_ReconciliationNotRequired
  | AT_ReconciliationNotInProgress

definition receipt_queued ::
  "opaque_id \<Rightarrow> opaque_id \<Rightarrow> opaque_id \<Rightarrow> content_hash \<Rightarrow> opaque_id \<Rightarrow> opaque_id option \<Rightarrow> lease_epoch
   \<Rightarrow> action_operation \<Rightarrow> postcondition option \<Rightarrow> timestamp option \<Rightarrow> action_receipt" where
  "receipt_queued action_id request_id idempotency_key request_hash space_id page_id lease_epoch
       operation postcondition started_at =
     \<lparr>ar_action_id = action_id, ar_request_id = request_id, ar_idempotency_key = idempotency_key,
      ar_request_hash = request_hash, ar_space_id = space_id, ar_page_id = page_id,
      ar_lease_epoch = lease_epoch, ar_operation = operation, ar_status = AS_Queued,
      ar_dispatch_state = DS_NotDispatched, ar_retryable = False, ar_unknown = False,
      ar_unknown_reason = None, ar_reconciliation_state = RS_NotRequired,
      ar_completion_source = CS_None, ar_postcondition = postcondition, ar_error_code = None,
      ar_reconcile_token = None, ar_next_action = NA_None, ar_started_at = started_at,
      ar_completed_at = None\<rparr>"

text \<open>\<^verbatim>\<open>started_at.zip(completed_at).is_some_and(|(s, c)| c < s)\<close>.\<close>

definition completed_before_start :: "timestamp option \<Rightarrow> timestamp option \<Rightarrow> bool" where
  "completed_before_start started_at completed_at \<longleftrightarrow>
     is_some_and started_at (\<lambda>started. is_some_and completed_at (\<lambda>completed. completed < started))"

definition validate_invariants :: "action_receipt \<Rightarrow> (receipt_validation_error, unit) result" where
  "validate_invariants r =
     (if completed_before_start (ar_started_at r) (ar_completed_at r) then
        Err ''completed_at must not precede started_at''
      else case ar_status r of
        AS_Queued \<Rightarrow>
          if ar_dispatch_state r \<notin> {DS_NotDispatched, DS_Queued} \<or> ar_unknown r
             \<or> is_some (ar_unknown_reason r) \<or> ar_reconciliation_state r \<noteq> RS_NotRequired
             \<or> ar_completion_source r \<noteq> CS_None \<or> is_some (ar_error_code r) \<or> ar_retryable r
             \<or> is_some (ar_reconcile_token r) \<or> ar_next_action r \<noteq> NA_None
             \<or> is_some (ar_completed_at r) then
            Err ''queued receipt has terminal or dispatched fields''
          else Ok ()
      | AS_Running \<Rightarrow>
          if ar_dispatch_state r \<notin> {DS_Dispatched, DS_Acknowledged} \<or> ar_unknown r
             \<or> is_some (ar_unknown_reason r) \<or> ar_reconciliation_state r \<noteq> RS_NotRequired
             \<or> ar_completion_source r \<noteq> CS_None \<or> is_some (ar_error_code r) \<or> ar_retryable r
             \<or> is_some (ar_reconcile_token r) \<or> ar_next_action r \<noteq> NA_None
             \<or> is_some (ar_completed_at r) then
            Err ''running receipt has an invalid dispatch or completion state''
          else Ok ()
      | AS_Succeeded \<Rightarrow>
          if ar_dispatch_state r \<notin> {DS_Dispatched, DS_Acknowledged} \<or> ar_unknown r
             \<or> is_some (ar_unknown_reason r)
             \<or> ar_completion_source r \<notin> {CS_Extension, CS_Reconciliation, CS_Ledger}
             \<or> ar_retryable r \<or> is_some (ar_error_code r) \<or> ar_next_action r \<noteq> NA_None then
            Err ''succeeded receipt has an invalid outcome state''
          else if ar_reconciliation_state r = RS_ReconciledSucceeded then
            (if ar_completion_source r \<noteq> CS_Reconciliation \<or> ar_reconcile_token r = None then
               Err ''reconciled success requires reconciliation provenance''
             else Ok ())
          else if ar_reconciliation_state r \<noteq> RS_NotRequired \<or> is_some (ar_reconcile_token r) then
            Err ''succeeded receipt has an invalid reconciliation state''
          else Ok ()
      | AS_Failed \<Rightarrow>
          if ar_dispatch_state r \<notin> {DS_Dispatched, DS_Acknowledged} \<or> ar_unknown r
             \<or> is_some (ar_unknown_reason r) \<or> ar_error_code r = None
             \<or> ar_error_code r = Some EC_UnknownOutcome
             \<or> ar_completion_source r \<notin> {CS_Extension, CS_Reconciliation, CS_Ledger}
             \<or> ar_next_action r \<noteq> (if ar_retryable r then NA_Retry else NA_None) then
            Err ''failed receipt has an invalid outcome state''
          else if ar_reconciliation_state r \<in> {RS_ReconciledFailed, RS_RequiresConfirmation}
             \<and> ar_completion_source r \<noteq> CS_Reconciliation then
            Err ''reconciled failure requires reconciliation provenance''
          else if ar_reconciliation_state r
               \<notin> {RS_NotRequired, RS_ReconciledFailed, RS_RequiresConfirmation}
             \<or> ar_reconciliation_state r = RS_NotRequired \<and> is_some (ar_reconcile_token r)
             \<or> ar_reconciliation_state r \<in> {RS_ReconciledFailed, RS_RequiresConfirmation}
               \<and> ar_reconcile_token r = None then
            Err ''failed receipt has an invalid reconciliation state''
          else Ok ()
      | AS_Cancelled \<Rightarrow>
          if ar_dispatch_state r \<noteq> DS_Rejected \<or> ar_unknown r \<or> is_some (ar_unknown_reason r)
             \<or> ar_reconciliation_state r \<noteq> RS_NotRequired \<or> ar_completion_source r \<noteq> CS_Ledger
             \<or> ar_error_code r \<noteq> Some EC_Cancelled \<or> ar_retryable r
             \<or> is_some (ar_reconcile_token r) \<or> ar_next_action r \<noteq> NA_None then
            Err ''cancelled receipt has an invalid outcome state''
          else Ok ()
      | AS_Unknown \<Rightarrow>
          if ar_dispatch_state r \<notin> {DS_Dispatched, DS_Acknowledged} \<or> \<not> ar_unknown r
             \<or> ar_unknown_reason r = None
             \<or> ar_reconciliation_state r \<notin> {RS_Required, RS_InProgress, RS_RequiresConfirmation}
             \<or> ar_completion_source r \<noteq> CS_None \<or> ar_error_code r \<noteq> Some EC_UnknownOutcome
             \<or> ar_retryable r \<or> ar_next_action r \<noteq> NA_Reconcile \<or> ar_reconcile_token r = None
             \<or> is_some (ar_completed_at r) then
            Err ''unknown receipt must require reconciliation''
          else Ok ())"

definition receipt_validate :: "action_receipt \<Rightarrow> (core_error, unit) result" where
  "receipt_validate r = (case validate_invariants r of
     Inl message \<Rightarrow> Err (invalid_argument (''invalid action receipt invariant: '' @ message))
   | Inr u \<Rightarrow> Ok u)"

definition receipt_validate_lease :: "action_receipt \<Rightarrow> lease_epoch \<Rightarrow> (core_error, unit) result" where
  "receipt_validate_lease r current =
     (if ar_lease_epoch r \<noteq> current then Err (stale_lease current (ar_lease_epoch r)) else Ok ())"

definition receipt_validate_lease_at ::
  "action_receipt \<Rightarrow> lease \<Rightarrow> timestamp \<Rightarrow> (core_error, unit) result" where
  "receipt_validate_lease_at r l now = validate_epoch_at l (ar_lease_epoch r) now"

type_synonym transition = "action_receipt \<times> (action_transition_error, unit) result"

definition require_status :: "action_receipt \<Rightarrow> action_status \<Rightarrow> (action_transition_error, unit) result" where
  "require_status r expected =
     (if ar_status r = expected then Ok () else Err (AT_InvalidStatus expected (ar_status r)))"

definition mark_dispatched :: "action_receipt \<Rightarrow> transition" where
  "mark_dispatched r =
     (case require_status r AS_Queued of
       Inl e \<Rightarrow> (r, Err e)
     | Inr _ \<Rightarrow> (r\<lparr>ar_status := AS_Running, ar_dispatch_state := DS_Dispatched\<rparr>, Ok ()))"

definition mark_acknowledged :: "action_receipt \<Rightarrow> transition" where
  "mark_acknowledged r =
     (if ar_status r \<noteq> AS_Running \<or> ar_dispatch_state r \<noteq> DS_Dispatched then
        (r, Err AT_InvalidDispatchState)
      else (r\<lparr>ar_dispatch_state := DS_Acknowledged\<rparr>, Ok ()))"

definition mark_succeeded :: "action_receipt \<Rightarrow> timestamp option \<Rightarrow> completion_source \<Rightarrow> transition" where
  "mark_succeeded r completed_at source =
     (if ar_status r \<noteq> AS_Running then (r, Err (AT_InvalidStatus AS_Running (ar_status r)))
      else if source \<notin> {CS_Extension, CS_Reconciliation, CS_Ledger} then
        (r, Err AT_InvalidCompletionSource)
      else
        (r\<lparr>ar_status := AS_Succeeded, ar_retryable := False, ar_unknown := False,
           ar_unknown_reason := None, ar_reconciliation_state := RS_NotRequired,
           ar_completion_source := source, ar_next_action := NA_None,
           ar_completed_at := completed_at\<rparr>, Ok ()))"

definition mark_failed ::
  "action_receipt \<Rightarrow> error_code \<Rightarrow> bool \<Rightarrow> timestamp option \<Rightarrow> transition" where
  "mark_failed r code retryable completed_at =
     (if ar_status r \<noteq> AS_Running then (r, Err (AT_InvalidStatus AS_Running (ar_status r)))
      else
        (r\<lparr>ar_status := AS_Failed, ar_retryable := retryable, ar_error_code := Some code,
           ar_completion_source := CS_Extension,
           ar_next_action := if retryable then NA_Retry else NA_None,
           ar_completed_at := completed_at\<rparr>, Ok ()))"

definition receipt_cancel :: "action_receipt \<Rightarrow> timestamp option \<Rightarrow> transition" where
  "receipt_cancel r completed_at =
     (if ar_status r \<noteq> AS_Queued then (r, Err (AT_InvalidStatus AS_Queued (ar_status r)))
      else
        (r\<lparr>ar_status := AS_Cancelled, ar_dispatch_state := DS_Rejected,
           ar_error_code := Some EC_Cancelled, ar_completion_source := CS_Ledger,
           ar_next_action := NA_None, ar_completed_at := completed_at\<rparr>, Ok ()))"

definition mark_unknown :: "action_receipt \<Rightarrow> unknown_reason \<Rightarrow> opaque_id \<Rightarrow> transition" where
  "mark_unknown r reason reconcile_token =
     (if ar_status r \<noteq> AS_Running \<or> ar_dispatch_state r \<notin> {DS_Dispatched, DS_Acknowledged} then
        (r, Err AT_NotDispatched)
      else
        (r\<lparr>ar_status := AS_Unknown, ar_unknown := True, ar_unknown_reason := Some reason,
           ar_reconciliation_state := RS_Required, ar_reconcile_token := Some reconcile_token,
           ar_error_code := Some EC_UnknownOutcome, ar_retryable := False,
           ar_next_action := NA_Reconcile\<rparr>, Ok ()))"

definition begin_reconciliation :: "action_receipt \<Rightarrow> transition" where
  "begin_reconciliation r =
     (if ar_status r \<noteq> AS_Unknown \<or> ar_reconciliation_state r \<noteq> RS_Required then
        (r, Err AT_ReconciliationNotRequired)
      else (r\<lparr>ar_reconciliation_state := RS_InProgress\<rparr>, Ok ()))"

definition reconcile_succeeded :: "action_receipt \<Rightarrow> timestamp option \<Rightarrow> transition" where
  "reconcile_succeeded r completed_at =
     (if ar_status r \<noteq> AS_Unknown \<or> ar_reconciliation_state r \<noteq> RS_InProgress then
        (r, Err AT_ReconciliationNotInProgress)
      else
        (r\<lparr>ar_status := AS_Succeeded, ar_unknown := False, ar_unknown_reason := None,
           ar_retryable := False, ar_reconciliation_state := RS_ReconciledSucceeded,
           ar_completion_source := CS_Reconciliation, ar_error_code := None,
           ar_next_action := NA_None, ar_completed_at := completed_at\<rparr>, Ok ()))"

definition reconcile_failed ::
  "action_receipt \<Rightarrow> error_code \<Rightarrow> bool \<Rightarrow> timestamp option \<Rightarrow> transition" where
  "reconcile_failed r code requires_confirmation completed_at =
     (if ar_status r \<noteq> AS_Unknown \<or> ar_reconciliation_state r \<noteq> RS_InProgress then
        (r, Err AT_ReconciliationNotInProgress)
      else
        (r\<lparr>ar_status := AS_Failed, ar_unknown := False, ar_unknown_reason := None,
           ar_retryable := False,
           ar_reconciliation_state :=
             if requires_confirmation then RS_RequiresConfirmation else RS_ReconciledFailed,
           ar_completion_source := CS_Reconciliation, ar_error_code := Some code,
           ar_next_action := if requires_confirmation then NA_Confirm else NA_None,
           ar_completed_at := completed_at\<rparr>, Ok ()))"

definition requires_reconciliation :: "action_receipt \<Rightarrow> bool" where
  "requires_reconciliation r \<longleftrightarrow>
     ar_reconciliation_state r \<in> {RS_Required, RS_InProgress, RS_RequiresConfirmation}"

section \<open>Histories of one receipt\<close>

datatype receipt_op =
    RO_Dispatched
  | RO_Acknowledged
  | RO_Succeeded "timestamp option" completion_source
  | RO_Failed error_code bool "timestamp option"
  | RO_Cancel "timestamp option"
  | RO_Unknown unknown_reason opaque_id
  | RO_BeginReconciliation
  | RO_ReconcileSucceeded "timestamp option"
  | RO_ReconcileFailed error_code bool "timestamp option"

fun apply_op :: "action_receipt \<Rightarrow> receipt_op \<Rightarrow> transition" where
  "apply_op r RO_Dispatched = mark_dispatched r"
| "apply_op r RO_Acknowledged = mark_acknowledged r"
| "apply_op r (RO_Succeeded completed source) = mark_succeeded r completed source"
| "apply_op r (RO_Failed code retry completed) = mark_failed r code retry completed"
| "apply_op r (RO_Cancel completed) = receipt_cancel r completed"
| "apply_op r (RO_Unknown reason token) = mark_unknown r reason token"
| "apply_op r RO_BeginReconciliation = begin_reconciliation r"
| "apply_op r (RO_ReconcileSucceeded completed) = reconcile_succeeded r completed"
| "apply_op r (RO_ReconcileFailed code confirm completed) = reconcile_failed r code confirm completed"

definition op_step :: "action_receipt \<Rightarrow> receipt_op \<Rightarrow> action_receipt" where
  "op_step r op = fst (apply_op r op)"

definition op_accepted :: "action_receipt \<Rightarrow> receipt_op \<Rightarrow> bool" where
  "op_accepted r op \<longleftrightarrow> snd (apply_op r op) = Inr ()"

text \<open>The operations of a history that were accepted, in order.\<close>

fun accepted_ops :: "action_receipt \<Rightarrow> receipt_op list \<Rightarrow> receipt_op list" where
  "accepted_ops r [] = []"
| "accepted_ops r (op # ops) =
     (if op_accepted r op then [op] else []) @ accepted_ops (op_step r op) ops"

lemmas transition_defs = mark_dispatched_def mark_acknowledged_def mark_succeeded_def
  mark_failed_def receipt_cancel_def mark_unknown_def begin_reconciliation_def
  reconcile_succeeded_def reconcile_failed_def require_status_def

lemma accepted_iff [step_simps]:
  "op_accepted r RO_Dispatched \<longleftrightarrow> ar_status r = AS_Queued"
  "op_accepted r RO_Acknowledged \<longleftrightarrow> ar_status r = AS_Running \<and> ar_dispatch_state r = DS_Dispatched"
  "op_accepted r (RO_Succeeded c s) \<longleftrightarrow>
     ar_status r = AS_Running \<and> s \<in> {CS_Extension, CS_Reconciliation, CS_Ledger}"
  "op_accepted r (RO_Failed k b c) \<longleftrightarrow> ar_status r = AS_Running"
  "op_accepted r (RO_Cancel c) \<longleftrightarrow> ar_status r = AS_Queued"
  "op_accepted r (RO_Unknown u t) \<longleftrightarrow>
     ar_status r = AS_Running \<and> ar_dispatch_state r \<in> {DS_Dispatched, DS_Acknowledged}"
  "op_accepted r RO_BeginReconciliation \<longleftrightarrow>
     ar_status r = AS_Unknown \<and> ar_reconciliation_state r = RS_Required"
  "op_accepted r (RO_ReconcileSucceeded c) \<longleftrightarrow>
     ar_status r = AS_Unknown \<and> ar_reconciliation_state r = RS_InProgress"
  "op_accepted r (RO_ReconcileFailed k b c) \<longleftrightarrow>
     ar_status r = AS_Unknown \<and> ar_reconciliation_state r = RS_InProgress"
  by (simp_all add: op_accepted_def transition_defs)

text \<open>A refused transition leaves the receipt untouched.\<close>

lemma refused_unchanged: "\<not> op_accepted r op \<Longrightarrow> op_step r op = r"
  by (cases op) (simp_all add: accepted_iff op_step_def transition_defs)

section \<open>The receipt invariant\<close>

definition receipt_ok :: "action_receipt \<Rightarrow> bool" where
  "receipt_ok r \<longleftrightarrow> validate_invariants r = Inr ()"

text \<open>
  What the caller of a transition owes: a completion no earlier than the start, a definite
  error code, and no request for confirmation.
\<close>

fun op_sound :: "timestamp option \<Rightarrow> receipt_op \<Rightarrow> bool" where
  "op_sound start (RO_Succeeded completed source) \<longleftrightarrow> \<not> completed_before_start start completed"
| "op_sound start (RO_Failed code retry completed) \<longleftrightarrow>
     code \<noteq> EC_UnknownOutcome \<and> \<not> completed_before_start start completed"
| "op_sound start (RO_Cancel completed) \<longleftrightarrow> \<not> completed_before_start start completed"
| "op_sound start (RO_ReconcileSucceeded completed) \<longleftrightarrow> \<not> completed_before_start start completed"
| "op_sound start (RO_ReconcileFailed code confirm completed) \<longleftrightarrow>
     code \<noteq> EC_UnknownOutcome \<and> \<not> confirm \<and> \<not> completed_before_start start completed"
| "op_sound start _ \<longleftrightarrow> True"

lemma completed_before_start_None [simp]: "\<not> completed_before_start s None"
  by (auto simp: completed_before_start_def is_some_and_iff)

lemma ok_queued: "ar_status r = AS_Queued \<Longrightarrow> receipt_ok r \<longleftrightarrow>
    ar_dispatch_state r \<in> {DS_NotDispatched, DS_Queued} \<and> \<not> ar_unknown r \<and> ar_unknown_reason r = None
    \<and> ar_reconciliation_state r = RS_NotRequired \<and> ar_completion_source r = CS_None
    \<and> ar_error_code r = None \<and> \<not> ar_retryable r \<and> ar_reconcile_token r = None
    \<and> ar_next_action r = NA_None \<and> ar_completed_at r = None"
  by (simp add: receipt_ok_def validate_invariants_def)

lemma ok_running: "ar_status r = AS_Running \<Longrightarrow> receipt_ok r \<longleftrightarrow>
    ar_dispatch_state r \<in> {DS_Dispatched, DS_Acknowledged} \<and> \<not> ar_unknown r \<and> ar_unknown_reason r = None
    \<and> ar_reconciliation_state r = RS_NotRequired \<and> ar_completion_source r = CS_None
    \<and> ar_error_code r = None \<and> \<not> ar_retryable r \<and> ar_reconcile_token r = None
    \<and> ar_next_action r = NA_None \<and> ar_completed_at r = None"
  by (simp add: receipt_ok_def validate_invariants_def)

lemma ok_unknown: "ar_status r = AS_Unknown \<Longrightarrow> receipt_ok r \<longleftrightarrow>
    ar_dispatch_state r \<in> {DS_Dispatched, DS_Acknowledged} \<and> ar_unknown r \<and> is_some (ar_unknown_reason r)
    \<and> ar_reconciliation_state r \<in> {RS_Required, RS_InProgress, RS_RequiresConfirmation}
    \<and> ar_completion_source r = CS_None \<and> ar_error_code r = Some EC_UnknownOutcome
    \<and> \<not> ar_retryable r \<and> ar_next_action r = NA_Reconcile \<and> is_some (ar_reconcile_token r)
    \<and> ar_completed_at r = None"
  by (simp add: receipt_ok_def validate_invariants_def)

lemma step_keeps_ok:
  assumes "receipt_ok r" "op_accepted r op"
  shows "receipt_ok (op_step r op) \<longleftrightarrow> op_sound (ar_started_at r) op"
proof (cases op)
  case RO_Dispatched
  with assms show ?thesis
    by (simp add: accepted_iff ok_queued ok_running op_step_def transition_defs)
next
  case RO_Acknowledged
  with assms show ?thesis by (simp add: accepted_iff ok_running op_step_def transition_defs)
next
  case (RO_Succeeded c s)
  with assms show ?thesis
    by (simp add: accepted_iff ok_running op_step_def transition_defs)
       (simp add: receipt_ok_def validate_invariants_def)
next
  case (RO_Failed k b c)
  with assms show ?thesis
    by (simp add: accepted_iff ok_running op_step_def transition_defs)
       (simp add: receipt_ok_def validate_invariants_def)
next
  case (RO_Cancel c)
  with assms show ?thesis
    by (simp add: accepted_iff ok_queued op_step_def transition_defs)
       (simp add: receipt_ok_def validate_invariants_def)
next
  case (RO_Unknown u t)
  with assms show ?thesis
    by (simp add: accepted_iff ok_running ok_unknown op_step_def transition_defs)
next
  case RO_BeginReconciliation
  with assms show ?thesis by (simp add: accepted_iff ok_unknown op_step_def transition_defs)
next
  case (RO_ReconcileSucceeded c)
  with assms obtain tok where "ar_reconcile_token r = Some tok"
    by (auto simp: accepted_iff ok_unknown)
  with RO_ReconcileSucceeded assms show ?thesis
    by (simp add: accepted_iff ok_unknown op_step_def transition_defs)
       (simp add: receipt_ok_def validate_invariants_def)
next
  case (RO_ReconcileFailed k b c)
  with assms obtain tok where "ar_reconcile_token r = Some tok"
    by (auto simp: accepted_iff ok_unknown)
  with RO_ReconcileFailed assms show ?thesis
    by (simp add: accepted_iff ok_unknown op_step_def transition_defs)
       (simp add: receipt_ok_def validate_invariants_def)
qed

lemma queued_ok: "receipt_ok (receipt_queued a i k h s p e q c t)"
  by (simp add: receipt_queued_def ok_queued)

text \<open>The fields that identify a receipt; no transition assigns to them.\<close>

definition receipt_identity where
  "receipt_identity r =
     (ar_action_id r, ar_request_id r, ar_idempotency_key r, ar_request_hash r, ar_space_id r,
      ar_page_id r, ar_lease_epoch r, ar_operation r, ar_postcondition r, ar_started_at r)"

lemma op_step_identity: "receipt_identity (op_step r op) = receipt_identity r"
  by (cases op) (simp_all add: receipt_identity_def op_step_def transition_defs)

lemma op_step_started: "ar_started_at (op_step r op) = ar_started_at r"
  using op_step_identity [of r op] by (simp add: receipt_identity_def)

definition contract_step :: "timestamp option \<Rightarrow> action_receipt \<Rightarrow> receipt_op \<Rightarrow> action_receipt" where
  "contract_step start r op = (if op_sound start op then op_step r op else r)"

interpretation receipt_contract:
  preserved "contract_step start" "\<lambda>r. receipt_ok r \<and> ar_started_at r = start" for start
proof
  fix r op
  assume "receipt_ok r \<and> ar_started_at r = start"
  then show "receipt_ok (contract_step start r op) \<and> ar_started_at (contract_step start r op) = start"
    using step_keeps_ok [of r op] refused_unchanged [of r op]
    by (cases "op_accepted r op") (simp_all add: contract_step_def op_step_started)
qed

interpretation receipt_ident: preserved op_step "\<lambda>r. receipt_identity r = i" for i
  by unfold_locales (simp add: op_step_identity)

lemma contract_history:
  "list_all (op_sound start) ops \<Longrightarrow> foldl (contract_step start) r ops = foldl op_step r ops"
  by (induction ops arbitrary: r) (simp_all add: contract_step_def)

section \<open>Progress\<close>

text \<open>How far a receipt has come; every accepted transition moves it strictly forward.\<close>

definition receipt_rank :: "action_receipt \<Rightarrow> nat" where
  "receipt_rank r = (case ar_status r of
     AS_Queued \<Rightarrow> 0
   | AS_Running \<Rightarrow> if ar_dispatch_state r = DS_Dispatched then 1 else 2
   | AS_Unknown \<Rightarrow> if ar_reconciliation_state r = RS_Required then 3 else 4
   | _ \<Rightarrow> 5)"

definition receipt_terminal :: "action_receipt \<Rightarrow> bool" where
  "receipt_terminal r \<longleftrightarrow> ar_status r \<in> {AS_Succeeded, AS_Failed, AS_Cancelled}"

lemma receipt_rank_le: "receipt_rank r \<le> 5"
  by (simp add: receipt_rank_def split: action_status.split)

lemma rank_accepted: "op_accepted r op \<Longrightarrow> receipt_rank r < receipt_rank (op_step r op)"
  by (cases op) (simp_all add: accepted_iff receipt_rank_def op_step_def transition_defs)

lemma rank_terminal: "receipt_terminal r \<longleftrightarrow> receipt_rank r = 5"
  by (auto simp: receipt_terminal_def receipt_rank_def split: action_status.split)

interpretation receipt_progress: monotone_run op_step receipt_rank
proof
  fix r op
  show "receipt_rank r \<le> receipt_rank (op_step r op)"
    using rank_accepted [of r op] refused_unchanged [of r op] by (cases "op_accepted r op") auto
qed

lemma accepted_count:
  "length (accepted_ops r ops) + receipt_rank r \<le> receipt_rank (foldl op_step r ops)"
proof (induction ops arbitrary: r)
  case Nil
  show ?case by simp
next
  case (Cons op ops)
  show ?case
    using Cons.IH [of "op_step r op"] rank_accepted [of r op] refused_unchanged [of r op]
    by (cases "op_accepted r op") auto
qed

lemma no_dispatch_later: "0 < receipt_rank r \<Longrightarrow> RO_Dispatched \<notin> set (accepted_ops r ops)"
proof (induction ops arbitrary: r)
  case Nil
  show ?case by simp
next
  case (Cons op ops)
  have "\<not> op_accepted r RO_Dispatched"
    using Cons.prems by (auto simp: accepted_iff receipt_rank_def)
  moreover have "0 < receipt_rank (op_step r op)"
    using Cons.prems receipt_progress.step_mono [of r op] by linarith
  ultimately show ?case using Cons.IH by auto
qed

lemma dispatched_once: "count_list (accepted_ops r ops) RO_Dispatched \<le> 1"
proof (induction ops arbitrary: r)
  case Nil
  show ?case by simp
next
  case (Cons op ops)
  show ?case
  proof (cases "op_accepted r op \<and> op = RO_Dispatched")
    case True
    then have "0 < receipt_rank (op_step r op)" using rank_accepted [of r op] by linarith
    from no_dispatch_later [OF this, of ops] True show ?thesis
      by (simp add: count_list_0_iff)
  qed (use Cons.IH in auto)
qed

lemma terminal_absorbing: "receipt_terminal r \<Longrightarrow> foldl op_step r ops = r"
proof (induction ops)
  case (Cons op ops)
  have "\<not> op_accepted r op"
    using rank_accepted [of r op] receipt_rank_le [of "op_step r op"] Cons.prems
    by (auto simp: rank_terminal)
  with Cons show ?case by (simp add: refused_unchanged)
qed simp

text \<open>Where an unknown receipt can go: it stays unknown or is settled by reconciliation.\<close>

definition unknown_or_reconciled :: "opaque_id option \<Rightarrow> action_receipt \<Rightarrow> bool" where
  "unknown_or_reconciled token r \<longleftrightarrow> ar_reconcile_token r = token \<and>
     (ar_status r = AS_Unknown
      \<or> ar_status r \<in> {AS_Succeeded, AS_Failed} \<and> ar_completion_source r = CS_Reconciliation)"

interpretation reconciliation: preserved op_step "unknown_or_reconciled token" for token
proof
  fix r op
  assume r: "unknown_or_reconciled token r"
  show "unknown_or_reconciled token (op_step r op)"
  proof (cases "op_accepted r op")
    case True
    then show ?thesis
      using r by (cases op) (simp_all add: accepted_iff op_step_def transition_defs
          unknown_or_reconciled_def)
  qed (use r in \<open>simp add: refused_unchanged\<close>)
qed

section \<open>Properties\<close>

text \<open>
  C29: From a valid receipt, an accepted transition gives a valid receipt exactly when its
  arguments are sound: the completion time does not precede the start, a failure does not
  carry the unknown-outcome code, and a reconciled failure does not ask for confirmation. The
  last condition is a defect of the code: with \<open>requires_confirmation\<close> the transition sets
  \<open>NextAction::Confirm\<close>, which the validator of failed receipts refuses.
\<close>

theorem receipt_transition_exact:
  assumes "validate_invariants r = Ok ()" and "apply_op r op = (r', Ok ())"
  shows "validate_invariants r' = Ok () \<longleftrightarrow> op_sound (ar_started_at r) op"
  using step_keeps_ok [of r op] assms by (simp add: receipt_ok_def op_step_def op_accepted_def)

definition demo_receipt :: action_receipt where
  "demo_receipt = receipt_queued ''action_1'' ''req_1'' ''idem_1'' ''fnv1a64:0000000000000000''
     ''space_1'' None 3 OP_Click None (Some 10)"

definition demo_unknown :: action_receipt where
  "demo_unknown = foldl op_step demo_receipt
     [RO_Dispatched, RO_Unknown UR_BridgeLost ''reconcile_1'', RO_BeginReconciliation]"

lemmas demo_receipt_simps = demo_unknown_def demo_receipt_def receipt_queued_def op_step_def
  transition_defs

lemma receipt_transition_exact_witness:
  "validate_invariants demo_unknown = Ok () \<and>
   apply_op demo_unknown (RO_ReconcileFailed EC_Timeout True (Some 12))
     = (op_step demo_unknown (RO_ReconcileFailed EC_Timeout True (Some 12)), Ok ()) \<and>
   validate_invariants (op_step demo_unknown (RO_ReconcileFailed EC_Timeout True (Some 12))) \<noteq> Ok ()"
proof -
  have h: "validate_invariants demo_unknown = Ok ()"
    "apply_op demo_unknown (RO_ReconcileFailed EC_Timeout True (Some 12))
      = (op_step demo_unknown (RO_ReconcileFailed EC_Timeout True (Some 12)), Ok ())"
    by (simp_all add: demo_receipt_simps validate_invariants_def)
  from receipt_transition_exact [OF h] h show ?thesis by simp
qed

text \<open>
  Every history of a receipt that starts queued and is driven by sound transitions,
  accepted or refused and in any order, passes through valid receipts only.
\<close>

theorem receipt_history_valid:
  assumes "list_all (op_sound t) ops"
  shows "validate_invariants (foldl op_step (receipt_queued a i k h s p e q c t) (take n ops)) = Ok ()"
proof -
  have sound: "list_all (op_sound t) (take n ops)"
    using assms by (auto simp: list_all_iff dest: in_set_takeD)
  let ?r = "receipt_queued a i k h s p e q c t"
  have "receipt_ok ?r \<and> ar_started_at ?r = t"
    by (rule conjI [OF queued_ok]) (simp add: receipt_queued_def)
  then have "receipt_ok (foldl (contract_step t) ?r (take n ops))"
    by (rule receipt_contract.run_inv [THEN conjunct1])
  then show ?thesis by (simp add: contract_history [OF sound] receipt_ok_def)
qed

lemma receipt_history_valid_witness:
  "list_all (op_sound (Some 10)) [RO_Cancel (Some 11), RO_Dispatched] \<and>
   validate_invariants (foldl op_step demo_receipt [RO_Cancel (Some 11)]) = Ok ()"
proof -
  have h: "list_all (op_sound (Some 10)) [RO_Cancel (Some 11), RO_Dispatched]"
    by (simp add: completed_before_start_def)
  from receipt_history_valid [OF h, where n = 1] h show ?thesis
    by (simp add: demo_receipt_def)
qed

text \<open>
  C24: No receipt is replayed. In any history at most one dispatch is accepted and at most five
  transitions are; a succeeded, failed or cancelled receipt never changes again, and the
  identity of the receipt (ids, hash, scope, epoch, operation, postcondition, start) is the
  same throughout.
\<close>

theorem receipt_no_replay:
  "count_list (accepted_ops r ops) RO_Dispatched \<le> 1 \<and> length (accepted_ops r ops) \<le> 5 \<and>
   foldl op_step r (ops @ later) =
     (if receipt_terminal (foldl op_step r ops) then foldl op_step r ops
      else foldl op_step (foldl op_step r ops) later) \<and>
   receipt_identity (foldl op_step r ops) = receipt_identity r"
proof -
  have "length (accepted_ops r ops) \<le> 5"
    using accepted_count [of r ops] receipt_rank_le [of "foldl op_step r ops"] by linarith
  then show ?thesis
    using receipt_ident.run_inv [OF refl, of r ops] dispatched_once [of r ops]
    by (simp add: terminal_absorbing)
qed

text \<open>
  A receipt whose outcome is unknown is settled by reconciliation only: whatever
  transitions are tried, it keeps its reconcile token and is either still unknown, and then
  must be reconciled before anything else, or succeeded or failed with reconciliation as the
  source of its completion.
\<close>

theorem unknown_settled_by_reconciliation:
  assumes "ar_status r = AS_Unknown" and "r' = foldl op_step r ops"
  shows "ar_reconcile_token r' = ar_reconcile_token r \<and>
    (ar_status r' = AS_Unknown
     \<or> ar_status r' \<in> {AS_Succeeded, AS_Failed} \<and> ar_completion_source r' = CS_Reconciliation)"
  using reconciliation.run_inv [of "ar_reconcile_token r" r ops] assms
  by (simp add: unknown_or_reconciled_def)

lemma unknown_settled_by_reconciliation_witness:
  "ar_status demo_unknown = AS_Unknown \<and>
   ar_status (foldl op_step demo_unknown [RO_Succeeded None CS_Extension, RO_ReconcileSucceeded (Some 12)])
     \<noteq> AS_Cancelled"
proof -
  have h: "ar_status demo_unknown = AS_Unknown" by (simp add: demo_receipt_simps)
  from unknown_settled_by_reconciliation [OF h refl,
      of "[RO_Succeeded None CS_Extension, RO_ReconcileSucceeded (Some 12)]"] h
  show ?thesis by auto
qed

text \<open>
  C31: A confirmation covers exactly one action. When a request passes the canonical-hash check
  and its required ticket is accepted, the ticket was issued for the fingerprint of the
  canonical bytes of this operation, payload and scope, for this space, page, lease epoch and
  connection, it had not expired, and it is consumed.
\<close>

theorem confirmed_action_is_the_ticketed_one:
  assumes "validate_canonical_hash q = Ok ()"
    and "validate_user_intent q ticket True profile epoch nonce gen now = (ticket', Ok ())"
  shows "\<exists>t bytes. ticket = Some t \<and> ticket' = Some (t\<lparr>ut_state := TS_Consumed\<rparr>) \<and>
    canonical_action_bytes (aq_operation q) (aq_payload q) (aq_space_id q) (aq_page_id q) = Ok bytes \<and>
    ut_action_hash t = content_hash_from_bytes bytes \<and>
    ut_state t = TS_Issued \<and> now < ut_expires_at t \<and>
    ut_space_id t = aq_space_id q \<and> ut_page_id t = aq_page_id q \<and>
    ut_lease_epoch t = aq_lease_epoch q \<and> ut_profile_binding_id t = profile \<and>
    ut_connection_epoch t = epoch \<and> ut_connection_nonce t = nonce \<and> ut_document_generation t = gen"
proof -
  obtain bytes where b: "canonical_action_bytes (aq_operation q) (aq_payload q) (aq_space_id q)
      (aq_page_id q) = Ok bytes" "aq_request_hash q = content_hash_from_bytes bytes"
    using assms(1) by (auto simp: validate_canonical_hash_def request_canonical_hash_def
        canonical_action_hash_def split: if_splits)
  obtain t where t: "ticket = Some t"
    using assms(2) by (cases ticket) (auto simp: validate_user_intent_def)
  define c where "c = \<lparr>uc_profile_binding_id = profile, uc_space_id = aq_space_id q,
    uc_page_id = aq_page_id q, uc_document_generation = gen, uc_action_hash = aq_request_hash q,
    uc_lease_epoch = aq_lease_epoch q, uc_connection_epoch = epoch, uc_connection_nonce = nonce\<rparr>"
  have v: "ticket' = Some (fst (validate_and_consume t c now))"
    "snd (validate_and_consume t c now) = Inr ()"
    using assms(2) by (auto simp: t c_def validate_user_intent_def split: prod.splits)
  then have "ut_state t = TS_Issued \<and> now < ut_expires_at t" "c = ticket_context t"
    by (simp_all add: consume_Ok_iff)
  with v b t show ?thesis
    by (auto simp: consume_result c_def ticket_context_def)
qed

definition demo_request :: "ser_value action_request" where
  "demo_request = \<lparr>aq_request_id = ''req_1'', aq_action_id = ''action_1'', aq_idempotency_key = ''idem_1'',
     aq_request_hash = content_hash_from_bytes (utf8 (render (projr (action_value OP_Click SV_Unit ''space_1'' None)))),
     aq_space_id = ''space_1'', aq_page_id = None, aq_lease_epoch = 3, aq_operation = OP_Click,
     aq_payload = SV_Unit, aq_postcondition = None\<rparr>"

definition demo_ticket :: user_intent_ticket where
  "demo_ticket = \<lparr>ut_ticket_id = ''ticket_1'', ut_profile_binding_id = ''profile_1'', ut_space_id = ''space_1'',
     ut_page_id = None, ut_document_generation = None, ut_action_hash = aq_request_hash demo_request,
     ut_lease_epoch = 3, ut_connection_epoch = 2, ut_connection_nonce = ''nonce_1'',
     ut_expires_at = 50, ut_state = TS_Issued\<rparr>"

lemma confirmed_action_is_the_ticketed_one_witness:
  "validate_canonical_hash demo_request = Ok () \<and>
   validate_user_intent demo_request (Some demo_ticket) True ''profile_1'' 2 ''nonce_1'' None 20
     = (Some (demo_ticket\<lparr>ut_state := TS_Consumed\<rparr>), Ok ()) \<and>
   ut_state demo_ticket = TS_Issued"
proof -
  have "\<exists>v. action_value OP_Click SV_Unit ''space_1'' None = Inr v" by (simp add: action_value_Ok)
  then have h: "validate_canonical_hash demo_request = Ok ()"
    "validate_user_intent demo_request (Some demo_ticket) True ''profile_1'' 2 ''nonce_1'' None 20
      = (Some (demo_ticket\<lparr>ut_state := TS_Consumed\<rparr>), Ok ())"
    by (auto simp: validate_canonical_hash_def request_canonical_hash_def canonical_action_hash_def
        canonical_action_bytes_def demo_request_def validate_user_intent_def validate_and_consume_def
        ticket_validate_shape_def demo_ticket_def)
  from confirmed_action_is_the_ticketed_one [OF h] h show ?thesis by auto
qed

end
