(* ===== verification/Host_Errors.thy ===== *)
theory Host_Errors
  imports Actions
begin

text \<open>
  Errors of the host and their stable mapping to the core namespace
  (\<^verbatim>\<open>crates/agentyc-host/src/error.rs\<close>). Errors of the JSON library and of the operating system
  are represented by the text they print.
\<close>

fun action_status_debug :: "action_status \<Rightarrow> string" where
  "action_status_debug AS_Queued = ''Queued''"
| "action_status_debug AS_Running = ''Running''"
| "action_status_debug AS_Succeeded = ''Succeeded''"
| "action_status_debug AS_Failed = ''Failed''"
| "action_status_debug AS_Cancelled = ''Cancelled''"
| "action_status_debug AS_Unknown = ''Unknown''"

fun transition_error_text :: "action_transition_error \<Rightarrow> string" where
  "transition_error_text (AT_InvalidStatus expected actual) =
     ''invalid action status: expected '' @ action_status_debug expected
     @ '', got '' @ action_status_debug actual"
| "transition_error_text AT_NotDispatched = ''action was not dispatched''"
| "transition_error_text AT_InvalidDispatchState = ''invalid dispatch state''"
| "transition_error_text AT_InvalidCompletionSource =
     ''definitive action completion requires a completion source''"
| "transition_error_text AT_ReconciliationNotRequired = ''action does not require reconciliation''"
| "transition_error_text AT_ReconciliationNotInProgress = ''action reconciliation is not in progress''"

fun frame_error_text :: "frame_error \<Rightarrow> string" where
  "frame_error_text (FE_MessageTooLarge len bound) =
     ''message too large: '' @ show_nat len @ '' bytes exceeds '' @ show_nat bound @ '' bytes''"
| "frame_error_text (FE_Truncated expected actual) =
     ''truncated frame: expected '' @ show_nat expected @ '' bytes, got '' @ show_nat actual @ '' bytes''"
| "frame_error_text FE_TrailingBytes = ''frame contains trailing bytes''"
| "frame_error_text FE_DecoderPoisoned = ''frame decoder is poisoned after a previous error''"
| "frame_error_text FE_InvalidLimit = ''frame limit exceeds the four-byte length prefix''"

datatype ledger_error =
    LE_AlreadyOwned
  | LE_Ownership string
  | LE_Corrupt string
  | LE_Incompatible string
  | LE_BoundExceeded string
  | LE_Io string
  | LE_Serialization string

fun ledger_error_text :: "ledger_error \<Rightarrow> string" where
  "ledger_error_text LE_AlreadyOwned = ''host ledger is already owned''"
| "ledger_error_text (LE_Ownership m) = ''ledger ownership or path check failed: '' @ m"
| "ledger_error_text (LE_Corrupt m) = ''ledger is corrupt: '' @ m"
| "ledger_error_text (LE_Incompatible m) = ''ledger schema is incompatible: '' @ m"
| "ledger_error_text (LE_BoundExceeded m) = ''ledger bound exceeded: '' @ m"
| "ledger_error_text (LE_Io m) = ''ledger io error: '' @ m"
| "ledger_error_text (LE_Serialization m) = ''ledger serialization failed: '' @ m"

fun ledger_as_core_error :: "ledger_error \<Rightarrow> core_error" where
  "ledger_as_core_error LE_AlreadyOwned =
     core_error_new EC_PermissionDenied (ledger_error_text LE_AlreadyOwned)"
| "ledger_as_core_error (LE_Ownership m) =
     core_error_new EC_PermissionDenied (ledger_error_text (LE_Ownership m))"
| "ledger_as_core_error (LE_BoundExceeded m) =
     core_error_new EC_MessageTooLarge (ledger_error_text (LE_BoundExceeded m))"
| "ledger_as_core_error e = core_error_new EC_LedgerIncompatible (ledger_error_text e)"

datatype host_error =
    HE_Ledger ledger_error
  | HE_Core core_error
  | HE_Action action_transition_error
  | HE_Bridge core_error
  | HE_Json string
  | HE_Transport string
  | HE_Frame frame_error
  | HE_StatePoisoned
  | HE_Invariant string

fun as_core_error :: "host_error \<Rightarrow> core_error" where
  "as_core_error (HE_Core e) = e"
| "as_core_error (HE_Bridge e) = e"
| "as_core_error (HE_Action e) = core_error_new EC_InvalidArgument (transition_error_text e)"
| "as_core_error (HE_Ledger e) = ledger_as_core_error e"
| "as_core_error (HE_Json m) = core_error_new EC_InvalidJson m"
| "as_core_error (HE_Transport m) = core_error_new EC_NativeHostUnavailable m"
| "as_core_error (HE_Frame e) = core_error_new (frame_error_code e) (frame_error_text e)"
| "as_core_error HE_StatePoisoned = core_error_new EC_LedgerIncompatible ''broker state lock is poisoned''"
| "as_core_error (HE_Invariant m) = invalid_argument m"

text \<open>\<^verbatim>\<open>CoreError::new(..).into()\<close> and \<^verbatim>\<open>?\<close> on a core result.\<close>

abbreviation host_err :: "core_error \<Rightarrow> (host_error, 'a) result" where
  "host_err e \<equiv> Err (HE_Core e)"

fun core_result :: "(core_error, 'a) result \<Rightarrow> (host_error, 'a) result" where
  "core_result (Inl e) = Inl (HE_Core e)"
| "core_result (Inr a) = Inr a"

lemma core_result_Ok [simp]: "core_result r = Inr a \<longleftrightarrow> r = Inr a"
  by (cases r) auto

lemma core_result_as_core_error: "core_result r = Inl e \<Longrightarrow> r = Inl (as_core_error e)"
  by (cases r) auto

end
