(* ===== verification/Grant_Ledger.thy ===== *)
theory Grant_Ledger
  imports Btree_Map "HOL-Library.Multiset"
begin

text \<open>
  Accounting of grants, as an interface: operations give out claims and honour them, and a
  component promises that no operation honours a claim that it does not hold. A client gets
  from it that along any series of operations the claims honoured are among those given out,
  with multiplicity: no claim is honoured twice.
\<close>

fun run_total :: "('s \<Rightarrow> 'op \<Rightarrow> 's) \<Rightarrow> ('s \<Rightarrow> 'op \<Rightarrow> 'a multiset) \<Rightarrow> 's \<Rightarrow> 'op list \<Rightarrow> 'a multiset" where
  "run_total step f s [] = {#}"
| "run_total step f s (a # ops) = f s a + run_total step f (step s a) ops"

locale grant_ledger =
  fixes step :: "'s \<Rightarrow> 'op \<Rightarrow> 's"
    and given :: "'s \<Rightarrow> 'op \<Rightarrow> 'a multiset"
    and honoured :: "'s \<Rightarrow> 'op \<Rightarrow> 'a multiset"
    and held :: "'s \<Rightarrow> 'a multiset"
    and inv :: "'s \<Rightarrow> bool"
  assumes step_inv: "inv s \<Longrightarrow> inv (step s a)"
    and balance: "inv s \<Longrightarrow> held (step s a) + honoured s a \<subseteq># held s + given s a"
begin

lemma run_balance:
  "inv s \<Longrightarrow> held (foldl step s ops) + run_total step honoured s ops \<subseteq># held s + run_total step given s ops"
proof (induction ops arbitrary: s)
  case Nil
  show ?case by simp
next
  case (Cons a ops)
  have "held (foldl step (step s a) ops) + run_total step honoured (step s a) ops
      \<subseteq># held (step s a) + run_total step given (step s a) ops"
    using Cons by (simp add: step_inv)
  then have "held (foldl step (step s a) ops) + run_total step honoured (step s a) ops + honoured s a
      \<subseteq># (held (step s a) + honoured s a) + run_total step given (step s a) ops"
    by (simp add: ac_simps)
  also have "\<dots> \<subseteq># (held s + given s a) + run_total step given (step s a) ops"
    using balance [OF Cons.prems, of a] by (rule subset_mset.add_right_mono)
  finally show ?case by (simp add: ac_simps)
qed

lemma run_honoured:
  "inv s \<Longrightarrow> held s = {#} \<Longrightarrow> run_total step honoured s ops \<subseteq># run_total step given s ops"
  using run_balance [of s ops] subset_mset.order_trans [OF mset_subset_eq_add_right] by fastforce

end

text \<open>Claims held as the entries of a map that satisfy a predicate.\<close>

lemma mset_bt_insert_le: "mset (bt_insert k v m) \<subseteq># add_mset (k, v) (mset m)"
proof (induction m)
  case (Cons e m)
  obtain k' v' where e: "e = (k', v')" by (cases e)
  have "add_mset e (mset (bt_insert k v m)) \<subseteq># add_mset e (add_mset (k, v) (mset m))"
    using Cons.IH by simp
  then show ?case by (auto simp: e add_mset_commute)
qed simp

lemma mset_bt_update:
  "bt_wf m \<Longrightarrow> bt_get m k = Some w \<Longrightarrow> add_mset (k, w) (mset (bt_insert k v m)) = add_mset (k, v) (mset m)"
proof (induction m)
  case (Cons e m)
  obtain k' v' where e: "e = (k', v')" by (cases e)
  have "\<not> k < k'" if "bt_get m k = Some w"
    using bt_in_keys [OF bt_get_in [OF that]] Cons.prems(1) by (auto simp: e bt_wf_Cons)
  with Cons show ?case by (auto simp: e bt_wf_Cons add_mset_commute split: if_splits)
qed simp

definition entries_held :: "('v \<Rightarrow> bool) \<Rightarrow> ('v \<Rightarrow> 'a) \<Rightarrow> ('k::linorder, 'v) btree \<Rightarrow> 'a multiset" where
  "entries_held p f m = image_mset (f \<circ> snd) (filter_mset (p \<circ> snd) (mset m))"

lemma entries_held_insert:
  "entries_held p f (bt_insert k v m) \<subseteq># entries_held p f m + (if p v then {#f v#} else {#})"
proof -
  have "filter_mset (p \<circ> snd) (mset (bt_insert k v m)) \<subseteq># filter_mset (p \<circ> snd) (add_mset (k, v) (mset m))"
    by (rule multiset_filter_mono [OF mset_bt_insert_le])
  from image_mset_subseteq_mono [OF this, of "f \<circ> snd"] show ?thesis
    by (simp add: entries_held_def split: if_splits)
qed

lemma entries_held_update:
  assumes "bt_wf m" "bt_get m k = Some w"
  shows "entries_held p f (bt_insert k v m) + (if p w then {#f w#} else {#})
    = entries_held p f m + (if p v then {#f v#} else {#})"
proof -
  have "image_mset (f \<circ> snd) (filter_mset (p \<circ> snd) (add_mset (k, w) (mset (bt_insert k v m))))
      = image_mset (f \<circ> snd) (filter_mset (p \<circ> snd) (add_mset (k, v) (mset m)))"
    using mset_bt_update [OF assms, of v] by simp
  then show ?thesis by (simp add: entries_held_def split: if_splits)
qed

lemma entries_held_retain: "entries_held p f (bt_retain q m) \<subseteq># entries_held p f m"
  unfolding entries_held_def bt_retain_def
  by (intro image_mset_subseteq_mono multiset_filter_mono) (simp add: mset_filter)

end
