(* ===== verification/Trace_Policy.thy ===== *)
theory Trace_Policy
  imports Host_Errors Grant_Ledger
begin

text \<open>
  Host-owned confirmation of sensitive boundaries (\<^verbatim>\<open>crates/agentyc-host/src/trace_policy.rs\<close>):
  which requests need an intent, the registry of intent tickets, pausing of spaces and the
  authorization of one boundary.
\<close>

section \<open>Model\<close>

definition MAX_INTENT_TICKET_TTL_MS :: u64 where
  "MAX_INTENT_TICKET_TTL_MS = 60000"

definition MAX_INTENT_TICKETS :: nat where
  "MAX_INTENT_TICKETS = 1024"

record policy_scope =
  ps_space_id :: opaque_id
  ps_page_id :: "opaque_id option"

definition policy_scope_validate :: "policy_scope \<Rightarrow> (host_error, unit) result" where
  "policy_scope_validate s =
     (if ps_space_id s = [] \<or> is_some_and (ps_page_id s) (\<lambda>page_id. page_id = []) then
        host_err (invalid_argument ''policy scope contains an empty identity'')
      else Ok ())"

datatype sensitive_boundary =
    SB_LoginChallenge | SB_Payment | SB_DestructiveSubmit | SB_Permission | SB_Upload
  | SB_Cookies | SB_Evaluate

fun boundary_as_str :: "sensitive_boundary \<Rightarrow> string" where
  "boundary_as_str SB_LoginChallenge = ''login_challenge''"
| "boundary_as_str SB_Payment = ''payment''"
| "boundary_as_str SB_DestructiveSubmit = ''destructive_submit''"
| "boundary_as_str SB_Permission = ''permission''"
| "boundary_as_str SB_Upload = ''upload''"
| "boundary_as_str SB_Cookies = ''cookies''"
| "boundary_as_str SB_Evaluate = ''evaluate''"

definition boundary_parse :: "string \<Rightarrow> sensitive_boundary option" where
  "boundary_parse value =
     (if value = ''login_challenge'' then Some SB_LoginChallenge
      else if value = ''payment'' then Some SB_Payment
      else if value = ''destructive_submit'' then Some SB_DestructiveSubmit
      else if value = ''permission'' then Some SB_Permission
      else if value = ''upload'' then Some SB_Upload
      else if value = ''cookies'' \<or> value = ''cookie'' then Some SB_Cookies
      else if value = ''evaluate'' then Some SB_Evaluate
      else None)"

definition operation_requires_intent :: "action_operation \<Rightarrow> bool" where
  "operation_requires_intent operation \<longleftrightarrow>
     operation \<in> {OP_Evaluate, OP_StorageWrite, OP_CookieWrite, OP_Upload}"

definition is_ascii_uppercase :: "char \<Rightarrow> bool" where
  "is_ascii_uppercase c \<longleftrightarrow> (65::nat) \<le> of_char c \<and> of_char c \<le> (90::nat)"

definition to_ascii_lowercase :: "char \<Rightarrow> char" where
  "to_ascii_lowercase c = (if is_ascii_uppercase c then char_of (of_char c + 32 :: nat) else c)"

definition normalized_key :: "string \<Rightarrow> string" where
  "normalized_key key =
     map to_ascii_lowercase
       (filter (\<lambda>c. is_ascii_lowercase c \<or> is_ascii_uppercase c \<or> is_ascii_digit c) key)"

definition payload_requires_intent :: "(string, string) btree \<Rightarrow> bool" where
  "payload_requires_intent payload \<longleftrightarrow>
     list_ex (\<lambda>(key, value). normalized_key key \<in> {''sensitiveboundary'', ''policyboundary''}
       \<and> is_some (boundary_parse value)) payload"

definition request_requires_intent :: "action_operation \<Rightarrow> (string, string) btree \<Rightarrow> bool" where
  "request_requires_intent operation payload \<longleftrightarrow>
     operation_requires_intent operation \<or> payload_requires_intent payload"

record intent_binding =
  ib_boundary :: sensitive_boundary
  ib_scope :: policy_scope
  ib_profile_binding_id :: opaque_id
  ib_document_generation :: "generation option"
  ib_lease_epoch :: lease_epoch
  ib_action_hash :: content_hash
  ib_connection_epoch :: connection_epoch
  ib_connection_nonce :: opaque_id

definition binding_validate :: "intent_binding \<Rightarrow> (host_error, unit) result" where
  "binding_validate b =
     and_then (policy_scope_validate (ib_scope b)) (\<lambda>_.
     if is_some (ps_page_id (ib_scope b)) \<noteq> is_some (ib_document_generation b) then
       host_err (invalid_argument ''page_id and document_generation must be supplied together'')
     else if is_some_and (ib_document_generation b) (\<lambda>generation. generation = 0)
        \<or> ib_lease_epoch b = 0 \<or> ib_connection_epoch b = 0 then
       host_err (invalid_argument ''intent binding contains a zero generation or epoch'')
     else Ok ())"

datatype host_confirmation = HC_SidePanel | HC_HostOperator

record page_authority_claim =
  pa_page_text :: "string option"
  pa_focused :: bool
  pa_clicked :: bool

definition reject_page_authority :: "page_authority_claim \<Rightarrow> (host_error, unit) result" where
  "reject_page_authority claim =
     host_err (core_error_new EC_PermissionDenied
       ''page text, focus, and clicks cannot authorize a sensitive boundary'')"

record issued_intent =
  ii_ticket :: user_intent_ticket
  ii_boundary :: sensitive_boundary

record intent_ticket_store =
  is_tickets :: "(opaque_id, issued_intent) btree"
  is_paused_spaces :: "opaque_id set"
  is_next_ticket :: u64

definition ticket_store_default :: intent_ticket_store where
  "ticket_store_default = \<lparr>is_tickets = [], is_paused_spaces = {}, is_next_ticket = 0\<rparr>"

definition pause_space ::
  "intent_ticket_store \<Rightarrow> opaque_id \<Rightarrow> intent_ticket_store \<times> (host_error, unit) result" where
  "pause_space s space_id =
     (if space_id = [] then (s, host_err (invalid_argument ''paused space identity is empty''))
      else (s\<lparr>is_paused_spaces := insert space_id (is_paused_spaces s)\<rparr>, Ok ()))"

definition resume_space :: "intent_ticket_store \<Rightarrow> opaque_id \<Rightarrow> intent_ticket_store" where
  "resume_space s space_id = s\<lparr>is_paused_spaces := is_paused_spaces s - {space_id}\<rparr>"

definition is_paused :: "intent_ticket_store \<Rightarrow> opaque_id \<Rightarrow> bool" where
  "is_paused s space_id \<longleftrightarrow> space_id \<in> is_paused_spaces s"

definition retain_bounded :: "intent_ticket_store \<Rightarrow> intent_ticket_store" where
  "retain_bounded s =
     (if length (is_tickets s) < MAX_INTENT_TICKETS then s
      else s\<lparr>is_tickets := bt_retain (\<lambda>issued. ut_state (ii_ticket issued) = TS_Issued) (is_tickets s)\<rparr>)"

definition ticket_for :: "intent_binding \<Rightarrow> opaque_id \<Rightarrow> timestamp \<Rightarrow> user_intent_ticket" where
  "ticket_for b ticket_id expires_at =
     \<lparr>ut_ticket_id = ticket_id, ut_profile_binding_id = ib_profile_binding_id b,
      ut_space_id = ps_space_id (ib_scope b), ut_page_id = ps_page_id (ib_scope b),
      ut_document_generation = ib_document_generation b, ut_action_hash = ib_action_hash b,
      ut_lease_epoch = ib_lease_epoch b, ut_connection_epoch = ib_connection_epoch b,
      ut_connection_nonce = ib_connection_nonce b, ut_expires_at = expires_at, ut_state = TS_Issued\<rparr>"

definition issue ::
  "intent_ticket_store \<Rightarrow> intent_binding \<Rightarrow> host_confirmation \<Rightarrow> timestamp \<Rightarrow> u64
   \<Rightarrow> intent_ticket_store \<times> (host_error, user_intent_ticket) result" where
  "issue s binding confirmation now ttl_ms =
     (case binding_validate binding of Inl e \<Rightarrow> (s, Err e) | Inr _ \<Rightarrow>
      if now = 0 then (s, host_err (invalid_argument ''intent ticket issue time must be non-zero''))
      else if \<not> (1 \<le> ttl_ms \<and> ttl_ms \<le> MAX_INTENT_TICKET_TTL_MS) then
        (s, host_err (invalid_argument ''intent ticket ttl must be between 1 and 60000 ms''))
      else
        (let s = retain_bounded s in
         if length (is_tickets s) \<ge> MAX_INTENT_TICKETS then
           (s, host_err (core_error_new EC_MessageTooLarge ''intent ticket registry is full''))
         else case checked_add64 now ttl_ms of
           None \<Rightarrow> (s, host_err (invalid_argument ''intent ticket expiry overflow''))
         | Some expires_at \<Rightarrow>
             (case checked_add64 (is_next_ticket s) 1 of
               None \<Rightarrow> (s, host_err (invalid_argument ''intent ticket sequence overflow''))
             | Some next_ticket \<Rightarrow>
                 (let s = s\<lparr>is_next_ticket := next_ticket\<rparr> in
                  case from_suffix UserIntentTicketId (''intent-'' @ show_nat (unat next_ticket)) of
                    Inl e \<Rightarrow> (s, host_err (invalid_argument (id_error_text e)))
                  | Inr ticket_id \<Rightarrow>
                      (let ticket = ticket_for binding ticket_id expires_at in
                       case ticket_validate_shape ticket of
                         Inl e \<Rightarrow> (s, host_err e)
                       | Inr _ \<Rightarrow>
                           (s\<lparr>is_tickets := bt_insert ticket_id
                                \<lparr>ii_ticket = ticket, ii_boundary = ib_boundary binding\<rparr> (is_tickets s)\<rparr>,
                            Ok ticket))))))"

definition unknown_ticket :: core_error where
  "unknown_ticket = core_error_new EC_PermissionDenied ''intent ticket is unknown''"

definition cancel_ticket ::
  "intent_ticket_store \<Rightarrow> opaque_id \<Rightarrow> intent_ticket_store \<times> (host_error, unit) result" where
  "cancel_ticket s ticket_id =
     (case bt_get (is_tickets s) ticket_id of
       None \<Rightarrow> (s, host_err unknown_ticket)
     | Some issued \<Rightarrow>
         if ut_state (ii_ticket issued) \<noteq> TS_Issued then
           (s, host_err (core_error_new EC_PermissionDenied
                 ''intent ticket is already consumed or cancelled''))
         else
           (s\<lparr>is_tickets := bt_insert ticket_id
                (issued\<lparr>ii_ticket := (ii_ticket issued)\<lparr>ut_state := TS_Revoked\<rparr>\<rparr>) (is_tickets s)\<rparr>,
            Ok ()))"

definition store_ticket :: "intent_ticket_store \<Rightarrow> opaque_id \<Rightarrow> user_intent_ticket option" where
  "store_ticket s ticket_id = map_option ii_ticket (bt_get (is_tickets s) ticket_id)"

definition binding_context :: "intent_binding \<Rightarrow> user_intent_context" where
  "binding_context b =
     \<lparr>uc_profile_binding_id = ib_profile_binding_id b, uc_space_id = ps_space_id (ib_scope b),
      uc_page_id = ps_page_id (ib_scope b), uc_document_generation = ib_document_generation b,
      uc_action_hash = ib_action_hash b, uc_lease_epoch = ib_lease_epoch b,
      uc_connection_epoch = ib_connection_epoch b, uc_connection_nonce = ib_connection_nonce b\<rparr>"

definition consume ::
  "intent_ticket_store \<Rightarrow> intent_binding \<Rightarrow> user_intent_ticket \<Rightarrow> timestamp
   \<Rightarrow> intent_ticket_store \<times> (host_error, unit) result" where
  "consume s binding presented now =
     (case binding_validate binding of Inl e \<Rightarrow> (s, Err e) | Inr _ \<Rightarrow>
      case bt_get (is_tickets s) (ut_ticket_id presented) of
        None \<Rightarrow> (s, host_err unknown_ticket)
      | Some issued \<Rightarrow>
          if ut_state (ii_ticket issued) = TS_Revoked then
            (s, host_err (core_error_new EC_Cancelled ''intent ticket was cancelled''))
          else if ut_state (ii_ticket issued) = TS_Consumed then
            (s, host_err (core_error_new EC_PermissionDenied ''intent ticket was already consumed''))
          else if ii_ticket issued \<noteq> presented then
            (s, host_err (core_error_new EC_PermissionDenied
                  ''intent ticket does not match the host-issued record''))
          else if ii_boundary issued \<noteq> ib_boundary binding then
            (s, host_err (core_error_new EC_PermissionDenied
                  ''intent ticket boundary does not match the requested operation''))
          else if now \<ge> ut_expires_at (ii_ticket issued) then
            (s, host_err (core_error_new EC_PermissionDenied ''intent ticket has expired''))
          else
            (case validate_and_consume (ii_ticket issued) (binding_context binding) now of
              (ticket, outcome) \<Rightarrow>
                (s\<lparr>is_tickets := bt_insert (ut_ticket_id presented) (issued\<lparr>ii_ticket := ticket\<rparr>) (is_tickets s)\<rparr>,
                 core_result outcome)))"

datatype authorization_outcome = AZ_Paused | AZ_Ticket

definition authorize ::
  "intent_ticket_store \<Rightarrow> intent_binding \<Rightarrow> user_intent_ticket option \<Rightarrow> timestamp
   \<Rightarrow> intent_ticket_store \<times> (host_error, authorization_outcome) result" where
  "authorize s binding ticket now =
     (case binding_validate binding of Inl e \<Rightarrow> (s, Err e) | Inr _ \<Rightarrow>
      if is_paused s (ps_space_id (ib_scope binding)) then (s, Ok AZ_Paused)
      else case ticket of
        None \<Rightarrow> (s, host_err (core_error_new EC_UserControlRequired
                   ''sensitive boundary requires a paused space or host-issued intent ticket''))
      | Some presented \<Rightarrow>
          (case consume s binding presented now of
            (s, Inl e) \<Rightarrow> (s, Err e)
          | (s, Inr _) \<Rightarrow> (s, Ok AZ_Ticket)))"

section \<open>Facts\<close>

text \<open>The binding for which a ticket of the registry was issued.\<close>

definition issued_binding :: "issued_intent \<Rightarrow> intent_binding" where
  "issued_binding i =
     (let t = ii_ticket i in
      \<lparr>ib_boundary = ii_boundary i,
       ib_scope = \<lparr>ps_space_id = ut_space_id t, ps_page_id = ut_page_id t\<rparr>,
       ib_profile_binding_id = ut_profile_binding_id t, ib_document_generation = ut_document_generation t,
       ib_lease_epoch = ut_lease_epoch t, ib_action_hash = ut_action_hash t,
       ib_connection_epoch = ut_connection_epoch t, ib_connection_nonce = ut_connection_nonce t\<rparr>)"

lemma issued_binding_ticket_for [simp]:
  "issued_binding \<lparr>ii_ticket = ticket_for b i e, ii_boundary = ib_boundary b\<rparr> = b"
proof -
  have "\<lparr>ps_space_id = ps_space_id (ib_scope b), ps_page_id = ps_page_id (ib_scope b)\<rparr> = ib_scope b"
    by (cases "ib_scope b") simp
  then show ?thesis by (cases b) (simp add: issued_binding_def ticket_for_def Let_def)
qed

lemma issued_binding_context:
  "ii_boundary i = ib_boundary b \<and> binding_context b = ticket_context (ii_ticket i) \<longleftrightarrow> issued_binding i = b"
proof -
  have "\<lparr>ps_space_id = x, ps_page_id = y\<rparr> = ib_scope b \<longleftrightarrow> ps_space_id (ib_scope b) = x \<and> ps_page_id (ib_scope b) = y"
    for x y by (cases "ib_scope b") auto
  then show ?thesis
    by (cases b) (auto simp: issued_binding_def binding_context_def ticket_context_def Let_def)
qed

lemma binding_validate_Ok:
  "binding_validate b = Inr () \<Longrightarrow> (ps_page_id (ib_scope b) = None \<longleftrightarrow> ib_document_generation b = None)"
  by (auto simp: binding_validate_def split: if_splits)

text \<open>\<^verbatim>\<open>consume\<close>, as a decision.\<close>

definition consumable :: "intent_ticket_store \<Rightarrow> intent_binding \<Rightarrow> user_intent_ticket \<Rightarrow> timestamp \<Rightarrow> bool" where
  "consumable s b t now \<longleftrightarrow>
     binding_validate b = Inr () \<and> bt_get (is_tickets s) (ut_ticket_id t) = Some \<lparr>ii_ticket = t, ii_boundary = ib_boundary b\<rparr>
     \<and> ut_state t = TS_Issued \<and> now < ut_expires_at t \<and> binding_context b = ticket_context t"

definition consumed :: "intent_ticket_store \<Rightarrow> user_intent_ticket \<Rightarrow> sensitive_boundary \<Rightarrow> intent_ticket_store" where
  "consumed s t k = s\<lparr>is_tickets := bt_insert (ut_ticket_id t)
     \<lparr>ii_ticket = t\<lparr>ut_state := TS_Consumed\<rparr>, ii_boundary = k\<rparr> (is_tickets s)\<rparr>"

lemma consume_grants:
  assumes "consumable s b t now"
  shows "consume s b t now = (consumed s t (ib_boundary b), Inr ())"
proof -
  have c: "binding_context b = ticket_context t" and v: "binding_validate b = Inr ()"
    using assms by (simp_all add: consumable_def)
  have "ut_page_id t = None \<longleftrightarrow> ut_document_generation t = None"
    using binding_validate_Ok [OF v] c by (simp add: binding_context_def ticket_context_def)
  then have "validate_and_consume t (binding_context b) now = (t\<lparr>ut_state := TS_Consumed\<rparr>, Inr ())"
    using assms by (simp add: c consume_own_context consumable_def not_le)
  with assms show ?thesis by (simp add: consume_def consumable_def consumed_def not_le)
qed

lemma consume_refuses:
  assumes wf: "bt_wf (is_tickets s)" and n: "\<not> consumable s b t now"
  shows "fst (consume s b t now) = s \<and> snd (consume s b t now) \<noteq> Inr ()"
proof (cases "binding_validate b")
  case (Inl e)
  then show ?thesis by (simp add: consume_def)
next
  case (Inr u)
  show ?thesis
  proof (cases "bt_get (is_tickets s) (ut_ticket_id t)")
    case None
    with Inr show ?thesis by (simp add: consume_def)
  next
    case (Some i)
    let ?r = "validate_and_consume (ii_ticket i) (binding_context b) now"
    have same: "s\<lparr>is_tickets := bt_insert (ut_ticket_id t) (i\<lparr>ii_ticket := ii_ticket i\<rparr>) (is_tickets s)\<rparr> = s"
      using bt_insert_same [OF wf Some] by simp
    have "snd ?r \<noteq> Inr ()"
      if "ii_ticket i = t" "ii_boundary i = ib_boundary b" "ut_state t = TS_Issued" "now < ut_expires_at t"
    proof
      assume "snd ?r = Inr ()"
      then have "binding_context b = ticket_context t" using that(1) by (simp add: consume_Ok_iff)
      moreover have "i = \<lparr>ii_ticket = t, ii_boundary = ib_boundary b\<rparr>" using that(1,2) by (cases i) simp
      ultimately show False using n Some Inr that by (simp add: consumable_def)
    qed
    then have "snd ?r = Inr () \<longrightarrow> \<not> (ii_ticket i = t \<and> ii_boundary i = ib_boundary b
        \<and> ut_state t = TS_Issued \<and> now < ut_expires_at t)" by blast
    with same Inr Some consume_result [of "ii_ticket i" "binding_context b" now] show ?thesis
      by (cases ?r; cases "ut_state (ii_ticket i)") (auto simp: consume_def not_le)
  qed
qed

text \<open>What a ticket of the registry entitles to, and whether it is still open.\<close>

abbreviation intent_open :: "issued_intent \<Rightarrow> bool" where
  "intent_open i \<equiv> ut_state (ii_ticket i) = TS_Issued"

definition intent_claim :: "issued_intent \<Rightarrow> intent_binding \<times> timestamp" where
  "intent_claim i = (issued_binding i, ut_expires_at (ii_ticket i))"

datatype intent_op =
    IO_Pause opaque_id
  | IO_Resume opaque_id
  | IO_Issue intent_binding host_confirmation timestamp u64
  | IO_Cancel opaque_id
  | IO_Consume intent_binding user_intent_ticket timestamp
  | IO_Authorize intent_binding "user_intent_ticket option" timestamp

fun intent_step :: "intent_ticket_store \<Rightarrow> intent_op \<Rightarrow> intent_ticket_store" where
  "intent_step s (IO_Pause sp) = fst (pause_space s sp)"
| "intent_step s (IO_Resume sp) = resume_space s sp"
| "intent_step s (IO_Issue b c now ttl) = fst (issue s b c now ttl)"
| "intent_step s (IO_Cancel i) = fst (cancel_ticket s i)"
| "intent_step s (IO_Consume b t now) = fst (consume s b t now)"
| "intent_step s (IO_Authorize b t now) = fst (authorize s b t now)"

fun intents_issued :: "intent_ticket_store \<Rightarrow> intent_op \<Rightarrow> (intent_binding \<times> timestamp) multiset" where
  "intents_issued s (IO_Issue b c now ttl) =
     (case snd (issue s b c now ttl) of Inr t \<Rightarrow> {#(b, ut_expires_at t)#} | Inl _ \<Rightarrow> {#})"
| "intents_issued s _ = {#}"

fun intents_used :: "intent_ticket_store \<Rightarrow> intent_op \<Rightarrow> (intent_binding \<times> timestamp) multiset" where
  "intents_used s (IO_Consume b t now) =
     (if snd (consume s b t now) = Inr () then {#(b, ut_expires_at t)#} else {#})"
| "intents_used s (IO_Authorize b (Some t) now) =
     (if snd (authorize s b (Some t) now) = Inr AZ_Ticket then {#(b, ut_expires_at t)#} else {#})"
| "intents_used s _ = {#}"

definition store_inv :: "intent_ticket_store \<Rightarrow> bool" where
  "store_inv s \<longleftrightarrow> bt_wf (is_tickets s) \<and> length (is_tickets s) \<le> MAX_INTENT_TICKETS"

lemma length_bt_retain: "length (bt_retain p m) \<le> length m"
  by (simp add: bt_retain_def)

lemma retain_bounded_next [simp]: "is_next_ticket (retain_bounded s) = is_next_ticket s"
  by (simp add: retain_bounded_def)

lemma retain_bounded_facts:
  "store_inv s \<Longrightarrow> store_inv (retain_bounded s)"
  "entries_held intent_open intent_claim (is_tickets (retain_bounded s))
    \<subseteq># entries_held intent_open intent_claim (is_tickets s)"
  by (auto simp: retain_bounded_def store_inv_def bt_wf_retain entries_held_retain
      intro: order_trans [OF length_bt_retain])

text \<open>The three ways in which \<^verbatim>\<open>issue\<close> ends.\<close>

lemma issue_cases:
  "fst (issue s b c now ttl) \<in> {s, retain_bounded s, (retain_bounded s)\<lparr>is_next_ticket := is_next_ticket s + 1\<rparr>}
     \<and> isl (snd (issue s b c now ttl))
   \<or> (\<exists>i e. length (is_tickets (retain_bounded s)) < MAX_INTENT_TICKETS \<and> unat e = unat now + unat ttl
        \<and> ttl \<le> MAX_INTENT_TICKET_TTL_MS \<and> binding_validate b = Inr ()
        \<and> i = ''ticket_intent-'' @ show_nat (Suc (unat (is_next_ticket s)))
        \<and> issue s b c now ttl =
          ((retain_bounded s)\<lparr>is_next_ticket := is_next_ticket s + 1,
             is_tickets := bt_insert i \<lparr>ii_ticket = ticket_for b i e, ii_boundary = ib_boundary b\<rparr>
               (is_tickets (retain_bounded s))\<rparr>,
           Inr (ticket_for b i e)))"
proof (cases "snd (issue s b c now ttl)")
  case (Inl e)
  then show ?thesis
    by (auto simp: issue_def Let_def checked_add64_def split: sum.splits if_splits option.splits)
next
  case (Inr t)
  then obtain e n where v: "binding_validate b = Inr ()" and ttl: "ttl \<le> MAX_INTENT_TICKET_TTL_MS"
    and len: "length (is_tickets (retain_bounded s)) < MAX_INTENT_TICKETS"
    and e: "checked_add64 now ttl = Some e" and n: "checked_add64 (is_next_ticket s) 1 = Some n"
    and i: "from_suffix UserIntentTicketId (''intent-'' @ show_nat (unat n)) = Inr (''ticket_intent-'' @ show_nat (unat n))"
    and r: "issue s b c now ttl =
      (let i = ''ticket_intent-'' @ show_nat (unat n) in
       ((retain_bounded s)\<lparr>is_next_ticket := n,
          is_tickets := bt_insert i \<lparr>ii_ticket = ticket_for b i e, ii_boundary = ib_boundary b\<rparr>
            (is_tickets (retain_bounded s))\<rparr>, Inr (ticket_for b i e)))"
    by (auto simp: issue_def Let_def from_suffix_def id_new_def not_le split: sum.splits if_splits option.splits)
  have "n = is_next_ticket s + 1" using n by (auto simp: checked_add64_def split: if_splits)
  moreover have "unat n = Suc (unat (is_next_ticket s))" "unat e = unat now + unat ttl"
    using n e by (simp_all add: checked_add64_Some)
  ultimately show ?thesis using v ttl len r by (auto simp: Let_def)
qed

lemma authorize_eq:
  "authorize s b t now =
     (if binding_validate b \<noteq> Inr () then (s, Inl (projl (binding_validate b)))
      else if ps_space_id (ib_scope b) \<in> is_paused_spaces s then (s, Inr AZ_Paused)
      else case t of None \<Rightarrow> (s, host_err (core_error_new EC_UserControlRequired
                   ''sensitive boundary requires a paused space or host-issued intent ticket''))
        | Some t \<Rightarrow> (fst (consume s b t now),
            case snd (consume s b t now) of Inl e \<Rightarrow> Inl e | Inr _ \<Rightarrow> Inr AZ_Ticket))"
  by (cases "binding_validate b")
    (auto simp: authorize_def is_paused_def split: option.splits prod.splits sum.splits)

lemma authorize_used:
  "intents_used s (IO_Authorize b (Some t) now) =
     (if ps_space_id (ib_scope b) \<in> is_paused_spaces s then {#} else intents_used s (IO_Consume b t now))"
  "intent_step s (IO_Authorize b (Some t) now) =
     (if ps_space_id (ib_scope b) \<in> is_paused_spaces s then s else intent_step s (IO_Consume b t now))"
proof -
  have bad: "consume s b t now = (s, Inl (projl (binding_validate b)))" if "binding_validate b \<noteq> Inr ()"
    using that by (cases "binding_validate b") (auto simp: consume_def)
  then have "authorize s b (Some t) now =
     (if ps_space_id (ib_scope b) \<in> is_paused_spaces s \<and> binding_validate b = Inr () then (s, Inr AZ_Paused)
      else (fst (consume s b t now), case snd (consume s b t now) of Inl e \<Rightarrow> Inl e | Inr _ \<Rightarrow> Inr AZ_Ticket))"
    unfolding authorize_eq by simp
  with bad show "intents_used s (IO_Authorize b (Some t) now) =
     (if ps_space_id (ib_scope b) \<in> is_paused_spaces s then {#} else intents_used s (IO_Consume b t now))"
  "intent_step s (IO_Authorize b (Some t) now) =
     (if ps_space_id (ib_scope b) \<in> is_paused_spaces s then s else intent_step s (IO_Consume b t now))"
    by (cases "binding_validate b = Inr ()"; cases "snd (consume s b t now)"; simp)+
qed

lemma consume_keeps:
  assumes "store_inv s"
  shows "store_inv (fst (consume s b t now)) \<and>
    entries_held intent_open intent_claim (is_tickets (fst (consume s b t now)))
      + intents_used s (IO_Consume b t now)
    = entries_held intent_open intent_claim (is_tickets s)"
proof (cases "consumable s b t now")
  case True
  let ?i = "\<lparr>ii_ticket = t, ii_boundary = ib_boundary b\<rparr>"
    and ?j = "\<lparr>ii_ticket = t\<lparr>ut_state := TS_Consumed\<rparr>, ii_boundary = ib_boundary b\<rparr>"
  have wf: "bt_wf (is_tickets s)" using assms by (simp add: store_inv_def)
  have g: "bt_get (is_tickets s) (ut_ticket_id t) = Some ?i" using True by (simp add: consumable_def)
  have "issued_binding ?i = b"
    using True issued_binding_context [of ?i b] by (simp add: consumable_def)
  then have "intent_claim ?i = (b, ut_expires_at t)" by (simp add: intent_claim_def)
  then have "entries_held intent_open intent_claim (bt_insert (ut_ticket_id t) ?j (is_tickets s)) + {#(b, ut_expires_at t)#}
      = entries_held intent_open intent_claim (is_tickets s)"
    using entries_held_update [OF wf g, of intent_open intent_claim ?j] True by (simp add: consumable_def)
  moreover have "length (bt_insert (ut_ticket_id t) ?j (is_tickets s)) = length (is_tickets s)"
    using mset_bt_update [OF wf g, of ?j] by (metis size_add_mset size_mset nat.inject)
  ultimately show ?thesis
    using assms wf by (simp add: consume_grants [OF True] consumed_def store_inv_def bt_wf_insert)
next
  case False
  with consume_refuses [OF _ False] assms show ?thesis by (simp add: store_inv_def)
qed

lemma cancel_keeps:
  assumes "store_inv s"
  shows "store_inv (fst (cancel_ticket s i)) \<and>
    entries_held intent_open intent_claim (is_tickets (fst (cancel_ticket s i)))
    \<subseteq># entries_held intent_open intent_claim (is_tickets s)"
proof (cases "bt_get (is_tickets s) i")
  case None
  with assms show ?thesis by (simp add: cancel_ticket_def)
next
  case (Some x)
  let ?y = "x\<lparr>ii_ticket := (ii_ticket x)\<lparr>ut_state := TS_Revoked\<rparr>\<rparr>"
  have wf: "bt_wf (is_tickets s)" using assms by (simp add: store_inv_def)
  have "length (bt_insert i ?y (is_tickets s)) = length (is_tickets s)"
    using mset_bt_update [OF wf Some, of ?y] by (metis size_add_mset size_mset nat.inject)
  with Some assms wf entries_held_insert [of intent_open intent_claim i ?y "is_tickets s"] show ?thesis
    by (auto simp: cancel_ticket_def store_inv_def bt_wf_insert)
qed

lemma issue_keeps:
  assumes "store_inv s"
  shows "store_inv (fst (issue s b c now ttl)) \<and>
    entries_held intent_open intent_claim (is_tickets (fst (issue s b c now ttl)))
    \<subseteq># entries_held intent_open intent_claim (is_tickets s) + intents_issued s (IO_Issue b c now ttl)"
proof -
  let ?h = "\<lambda>s. entries_held intent_open intent_claim (is_tickets s)"
  note r = retain_bounded_facts [of s]
  from issue_cases [of s b c now ttl] show ?thesis
  proof (elim disjE conjE exE)
    assume "fst (issue s b c now ttl) \<in> {s, retain_bounded s, (retain_bounded s)\<lparr>is_next_ticket := is_next_ticket s + 1\<rparr>}"
      "isl (snd (issue s b c now ttl))"
    with r assms show ?thesis by (auto simp: store_inv_def split: sum.splits)
  next
    fix i e
    let ?n = "\<lparr>ii_ticket = ticket_for b i e, ii_boundary = ib_boundary b\<rparr>"
    assume len: "length (is_tickets (retain_bounded s)) < MAX_INTENT_TICKETS"
      and i: "issue s b c now ttl =
          ((retain_bounded s)\<lparr>is_next_ticket := is_next_ticket s + 1,
             is_tickets := bt_insert i ?n (is_tickets (retain_bounded s))\<rparr>, Inr (ticket_for b i e))"
    have o: "intent_open ?n" "intent_claim ?n = (b, e)" "ut_expires_at (ticket_for b i e) = e"
      by (simp_all add: intent_claim_def) (simp_all add: ticket_for_def)
    have "entries_held intent_open intent_claim (bt_insert i ?n (is_tickets (retain_bounded s)))
        \<subseteq># ?h (retain_bounded s) + {#(b, e)#}"
      using entries_held_insert [of intent_open intent_claim i ?n "is_tickets (retain_bounded s)"] o by simp
    also have "\<dots> \<subseteq># ?h s + {#(b, e)#}" using r(2) by (rule subset_mset.add_right_mono)
    finally have "entries_held intent_open intent_claim (bt_insert i ?n (is_tickets (retain_bounded s)))
        \<subseteq># ?h s + {#(b, e)#}" .
    moreover have "bt_wf (bt_insert i ?n (is_tickets (retain_bounded s)))"
      using r(1) assms by (simp add: store_inv_def bt_wf_insert)
    ultimately show ?thesis
      using len length_bt_insert_le [of i ?n "is_tickets (retain_bounded s)"] o(3)
      by (simp add: i store_inv_def)
  qed
qed

interpretation intents: grant_ledger intent_step intents_issued intents_used
  "\<lambda>s. entries_held intent_open intent_claim (is_tickets s)" store_inv
proof
  fix s a
  assume s: "store_inv s"
  let ?h = "\<lambda>s. entries_held intent_open intent_claim (is_tickets s)"
  have "store_inv (intent_step s a) \<and> ?h (intent_step s a) + intents_used s a \<subseteq># ?h s + intents_issued s a"
  proof (cases a)
    case (IO_Pause sp)
    with s show ?thesis by (simp add: pause_space_def store_inv_def)
  next
    case (IO_Resume sp)
    with s show ?thesis by (simp add: resume_space_def store_inv_def)
  next
    case (IO_Issue b c now ttl)
    with issue_keeps [OF s] show ?thesis by simp
  next
    case (IO_Cancel i)
    with cancel_keeps [OF s] show ?thesis by simp
  next
    case (IO_Consume b t now)
    with consume_keeps [OF s] show ?thesis by simp
  next
    case (IO_Authorize b t now)
    show ?thesis
    proof (cases t)
      case None
      with s IO_Authorize show ?thesis by (simp add: authorize_eq)
    next
      case (Some t')
      with IO_Authorize consume_keeps [OF s, of b t' now] s authorize_used [of s b t' now] show ?thesis
        by (simp del: intents_used.simps intent_step.simps) simp
    qed
  qed
  then show "store_inv (intent_step s a)" "?h (intent_step s a) + intents_used s a \<subseteq># ?h s + intents_issued s a"
    by simp_all
qed

lemma store_reachable_inv: "store_inv (foldl intent_step ticket_store_default ops)"
proof (induction ops rule: rev_induct)
  case Nil
  show ?case by (simp add: store_inv_def ticket_store_default_def)
qed (simp add: intents.step_inv)

section \<open>Properties\<close>

text \<open>
  a host confirmation authorizes once. Along any series of pauses, resumptions,
  issues, cancellations, consumptions and authorizations from the empty registry, the bindings
  for which tickets were honoured form a sub-multiset of the bindings for which tickets were
  issued, boundary, scope, document, lease, action fingerprint, connection and expiry
  included; and the registry never holds more than 1024 tickets.
\<close>
theorem intent_single_use:
  "run_total intent_step intents_used ticket_store_default ops
     \<subseteq># run_total intent_step intents_issued ticket_store_default ops
   \<and> length (is_tickets (foldl intent_step ticket_store_default ops)) \<le> MAX_INTENT_TICKETS"
proof -
  have s: "store_inv ticket_store_default" using store_reachable_inv [of "[]"] by simp
  moreover have "entries_held intent_open intent_claim (is_tickets ticket_store_default) = {#}"
    by (simp add: ticket_store_default_def entries_held_def)
  ultimately show ?thesis using intents.run_honoured [OF s] store_reachable_inv [of ops] by (simp add: store_inv_def)
qed

text \<open>
  what authorizes a boundary. At any reachable registry a boundary is admitted
  through the pause of its space exactly when the binding is well formed and the space is
  paused, and through a ticket exactly when the space is not paused and the presented ticket is
  the registered one, issued, unexpired and bound to exactly this boundary and binding. Only
  then does the registry change, and only by marking that ticket consumed.
\<close>
theorem authorize_exact:
  assumes "s = foldl intent_step ticket_store_default ops"
  shows "(snd (authorize s b p now) = Ok AZ_Paused \<longleftrightarrow>
            binding_validate b = Ok () \<and> is_paused s (ps_space_id (ib_scope b)))
    \<and> (snd (authorize s b p now) = Ok AZ_Ticket \<longleftrightarrow>
            \<not> is_paused s (ps_space_id (ib_scope b)) \<and> (\<exists>t. p = Some t \<and> consumable s b t now))
    \<and> fst (authorize s b p now) =
        (if snd (authorize s b p now) = Ok AZ_Ticket then consumed s (the p) (ib_boundary b) else s)"
proof (cases p)
  case None
  then show ?thesis
    by (cases "binding_validate b = Inr ()") (auto simp: authorize_eq is_paused_def)
next
  case (Some t)
  have wf: "bt_wf (is_tickets s)" using store_reachable_inv [of ops] by (simp add: assms store_inv_def)
  have v: "binding_validate b = Inr ()" if "consumable s b t now" using that by (simp add: consumable_def)
  show ?thesis
  proof (cases "consumable s b t now")
    case True
    then show ?thesis
      using Some v by (auto simp: authorize_eq is_paused_def consume_grants)
  next
    case False
    from consume_refuses [OF wf False] obtain e where "consume s b t now = (s, Inl e)"
      by (cases "consume s b t now"; cases "snd (consume s b t now)") auto
    with Some False show ?thesis by (auto simp: authorize_eq is_paused_def)
  qed
qed

text \<open>
  expired tickets are not collected. A registry that holds 1024 tickets that were
  neither used nor cancelled refuses every further issue and stays as it is, at any later time
  and however long ago those tickets have expired.
\<close>
theorem full_registry_refuses:
  assumes "length (is_tickets s) \<ge> MAX_INTENT_TICKETS"
    "\<forall>(i, issued) \<in> set (is_tickets s). ut_state (ii_ticket issued) = TS_Issued"
  shows "fst (issue s b c now ttl) = s \<and> isl (snd (issue s b c now ttl))"
proof -
  have "bt_retain (\<lambda>issued. ut_state (ii_ticket issued) = TS_Issued) (is_tickets s) = is_tickets s"
    using assms(2) by (auto simp: bt_retain_def intro!: filter_True)
  then have r: "retain_bounded s = s" by (simp add: retain_bounded_def)
  show ?thesis
    using assms(1) unfolding issue_def Let_def r by (auto split: sum.splits)
qed

section \<open>Witnesses\<close>

definition demo_binding :: intent_binding where
  "demo_binding =
     \<lparr>ib_boundary = SB_Payment, ib_scope = \<lparr>ps_space_id = ''space_a'', ps_page_id = None\<rparr>,
      ib_profile_binding_id = ''profile_a'', ib_document_generation = None, ib_lease_epoch = 3,
      ib_action_hash = ''fnv1a64:0'', ib_connection_epoch = 5, ib_connection_nonce = ''nonce_a''\<rparr>"

lemma authorize_exact_witness:
  "snd (authorize (foldl intent_step ticket_store_default [IO_Pause ''space_a'']) demo_binding None 10) = Ok AZ_Paused
   \<and> binding_validate demo_binding = Ok ()
   \<and> is_paused (foldl intent_step ticket_store_default [IO_Pause ''space_a'']) ''space_a''"
proof -
  have "binding_validate demo_binding = Ok ()"
    by (simp add: binding_validate_def policy_scope_validate_def demo_binding_def)
  moreover have "is_paused (foldl intent_step ticket_store_default [IO_Pause ''space_a'']) ''space_a''"
    by (simp add: pause_space_def is_paused_def)
  moreover have "ps_space_id (ib_scope demo_binding) = ''space_a''" by (simp add: demo_binding_def)
  ultimately show ?thesis
    using authorize_exact [OF refl, of "[IO_Pause ''space_a'']" demo_binding None 10] by simp
qed

definition demo_full :: intent_ticket_store where
  "demo_full = \<lparr>is_tickets = map (\<lambda>n. (show_nat n,
       \<lparr>ii_ticket = ticket_for demo_binding (show_nat n) 1, ii_boundary = SB_Payment\<rparr>)) [0..<1024],
     is_paused_spaces = {}, is_next_ticket = 1024\<rparr>"

lemma full_registry_refuses_witness:
  "isl (snd (issue demo_full demo_binding HC_SidePanel 1000000 60000))"
proof -
  have "length (is_tickets demo_full) \<ge> MAX_INTENT_TICKETS"
    by (simp add: demo_full_def MAX_INTENT_TICKETS_def)
  moreover have "\<forall>(i, issued) \<in> set (is_tickets demo_full). ut_state (ii_ticket issued) = TS_Issued"
    by (auto simp: demo_full_def ticket_for_def)
  ultimately show ?thesis using full_registry_refuses by blast
qed

end
