(* ===== verification/Observability.thy ===== *)
theory Observability
  imports Trace_Policy
begin

text \<open>
  Bounded, scoped and redacted records of logs, network metadata and traces
  (\<^verbatim>\<open>crates/agentyc-host/src/observability.rs\<close>). Free text is a sequence of Unicode scalar values,
  as the source iterates over \<^verbatim>\<open>chars()\<close>; the byte positions of the redaction loop are positions
  in it, since every delimiter and marker it looks for is ASCII and UTF-8 keeps ASCII bytes apart.
\<close>

section \<open>Scopes as keys\<close>

instantiation policy_scope_ext :: (linorder) linorder
begin

definition less_eq_policy_scope_ext :: "'a policy_scope_scheme \<Rightarrow> 'a policy_scope_scheme \<Rightarrow> bool" where
  "a \<le> b \<longleftrightarrow> (ps_space_id a, ps_page_id a, policy_scope.more a) \<le> (ps_space_id b, ps_page_id b, policy_scope.more b)"

definition less_policy_scope_ext :: "'a policy_scope_scheme \<Rightarrow> 'a policy_scope_scheme \<Rightarrow> bool" where
  "a < b \<longleftrightarrow> (ps_space_id a, ps_page_id a, policy_scope.more a) < (ps_space_id b, ps_page_id b, policy_scope.more b)"

instance
proof
  fix a b c :: "'a policy_scope_scheme"
  show "(a < b) = (a \<le> b \<and> \<not> b \<le> a)"
    unfolding less_policy_scope_ext_def less_eq_policy_scope_ext_def by (rule less_le_not_le)
  show "a \<le> a" by (simp add: less_eq_policy_scope_ext_def)
  show "a \<le> c" if "a \<le> b" "b \<le> c"
    using that unfolding less_eq_policy_scope_ext_def by (rule order_trans)
  show "a = b" if "a \<le> b" "b \<le> a"
    using order_antisym [OF that [unfolded less_eq_policy_scope_ext_def]]
    by (intro policy_scope.equality) simp_all
  show "a \<le> b \<or> b \<le> a" unfolding less_eq_policy_scope_ext_def by (rule linear)
qed

end

section \<open>Model\<close>

type_synonym observation_scope = policy_scope

definition MAX_OBSERVABILITY_TEXT_BYTES :: nat where
  "MAX_OBSERVABILITY_TEXT_BYTES = 4 * 1024"

definition MAX_RECORDS_PER_SCOPE :: nat where
  "MAX_RECORDS_PER_SCOPE = 256"

datatype log_level = LL_Debug | LL_Info | LL_Warn | LL_Error

definition log_level_parse :: "string \<Rightarrow> log_level option" where
  "log_level_parse value =
     (let v = map to_ascii_lowercase value in
      if v = ''debug'' then Some LL_Debug
      else if v = ''info'' \<or> v = ''log'' then Some LL_Info
      else if v = ''warn'' \<or> v = ''warning'' then Some LL_Warn
      else if v = ''error'' \<or> v = ''err'' then Some LL_Error
      else None)"

record log_entry =
  le_scope :: observation_scope
  le_level :: log_level
  le_message :: utext
  le_timestamp :: timestamp

record network_entry =
  ne_scope :: observation_scope
  ne_url :: utext
  ne_method :: utext
  ne_status :: "u16 option"
  ne_resource_type :: utext
  ne_request_headers :: "(utext, utext) btree"
  ne_response_headers :: "(utext, utext) btree"
  ne_bodies_redacted :: bool
  ne_timestamp :: timestamp

record trace_entry =
  te_scope :: observation_scope
  te_name :: utext
  te_duration_ms :: "u64 option"
  te_attributes :: "(utext, utext) btree"
  te_timestamp :: timestamp

record observability_store =
  ob_max_records_per_scope :: nat
  ob_logs :: "(observation_scope, log_entry list) btree"
  ob_network :: "(observation_scope, network_entry list) btree"
  ob_traces :: "(observation_scope, trace_entry list) btree"

text \<open>\<^verbatim>\<open>clamp(1, MAX_RECORDS_PER_SCOPE)\<close>.\<close>

definition observability_new :: "nat \<Rightarrow> observability_store" where
  "observability_new max_records_per_scope =
     \<lparr>ob_max_records_per_scope = min (max max_records_per_scope 1) MAX_RECORDS_PER_SCOPE,
      ob_logs = [], ob_network = [], ob_traces = []\<rparr>"

definition push_bounded :: "'a list \<Rightarrow> 'a \<Rightarrow> nat \<Rightarrow> 'a list" where
  "push_bounded entries entry bound = (if length entries \<ge> bound then tl entries else entries) @ [entry]"

definition bounded_token :: "utext \<Rightarrow> nat \<Rightarrow> utext" where
  "bounded_token value bound = take bound (filter (\<lambda>c. \<not> is_control c) value)"

definition lower_cp :: "nat \<Rightarrow> nat" where
  "lower_cp c = (if 65 \<le> c \<and> c \<le> 90 then c + 32 else c)"

definition upper_cp :: "nat \<Rightarrow> nat" where
  "upper_cp c = (if 97 \<le> c \<and> c \<le> 122 then c - 32 else c)"

text \<open>\<^verbatim>\<open>str::find\<close> of a substring.\<close>

fun find_sub :: "utext \<Rightarrow> utext \<Rightarrow> nat option" where
  "find_sub [] pat = (if pat = [] then Some 0 else None)"
| "find_sub (c # cs) pat =
     (if take (length pat) (c # cs) = pat then Some 0 else map_option Suc (find_sub cs pat))"

text \<open>The classes of bytes that \<^verbatim>\<open>redact_marker_value\<close> skips and stops at.\<close>

definition is_value_separator :: "nat \<Rightarrow> bool" where
  "is_value_separator c \<longleftrightarrow> c \<in> {32, 9, 61, 58, 34, 39}"

definition is_ascii_whitespace :: "nat \<Rightarrow> bool" where
  "is_ascii_whitespace c \<longleftrightarrow> c \<in> {32, 9, 10, 12, 13}"

definition is_value_end :: "nat \<Rightarrow> bool" where
  "is_value_end c \<longleftrightarrow> c \<in> {32, 9, 10, 13, 38, 59, 44}"

definition REDACTED :: utext where
  "REDACTED = code_points ''[redacted]''"

definition redact_marker_value :: "utext \<Rightarrow> utext \<Rightarrow> utext" where
  "redact_marker_value value marker =
     (case find_sub (map lower_cp value) marker of
       None \<Rightarrow> value
     | Some start \<Rightarrow>
         (let after_marker = start + length marker;
              value_start = after_marker + length (takeWhile is_value_separator (drop after_marker value));
              value_start =
                (if value_start = after_marker \<and> marker = code_points ''bearer''
                 then after_marker + length (takeWhile is_ascii_whitespace (drop after_marker value))
                 else value_start);
              end_pos = value_start + length (takeWhile (\<lambda>c. \<not> is_value_end c) (drop value_start value)) in
          if end_pos > value_start then take value_start value @ REDACTED @ drop end_pos value
          else value))"

definition secret_markers :: "utext list" where
  "secret_markers = map code_points
     [''authorization'', ''bearer'', ''cookie'', ''set-cookie'', ''password'', ''passwd'', ''secret'',
      ''api_key'', ''apikey'', ''access_token'', ''refresh_token'', ''request_body'', ''response_body'',
      ''post_data'']"

definition identity_markers :: "utext list" where
  "identity_markers = map code_points
     [''tabid'', ''targetid'', ''sessionid'', ''groupid'', ''windowid'', ''frameid'', ''requestid'',
      ''loaderid'', ''objectid'', ''executioncontextid'', ''backendnodeid'']"

definition redact_text :: "utext \<Rightarrow> utext" where
  "redact_text value =
     foldl redact_marker_value
       (foldl redact_marker_value (bounded_token value MAX_OBSERVABILITY_TEXT_BYTES) secret_markers)
       identity_markers"

definition ends_with :: "utext \<Rightarrow> utext \<Rightarrow> bool" where
  "ends_with value suffix \<longleftrightarrow>
     length suffix \<le> length value \<and> drop (length value - length suffix) value = suffix"

definition strip_separators :: "utext \<Rightarrow> utext" where
  "strip_separators key = filter (\<lambda>c. c \<noteq> 45 \<and> c \<noteq> 95) key"

definition is_raw_identity_key :: "utext \<Rightarrow> bool" where
  "is_raw_identity_key key \<longleftrightarrow>
     (let normalized = strip_separators key in
      normalized \<in> set (map code_points
        [''tabid'', ''targetid'', ''sessionid'', ''groupid'', ''windowid'', ''frameid'', ''requestid'',
         ''loaderid'', ''objectid'', ''scriptid'', ''executioncontextid'', ''backendnodeid''])
      \<or> ends_with normalized (code_points ''requestid'')
      \<or> ends_with normalized (code_points ''targetid'')
      \<or> ends_with normalized (code_points ''sessionid''))"

definition is_secret_key :: "utext \<Rightarrow> bool" where
  "is_secret_key key \<longleftrightarrow>
     (let normalized = strip_separators key in
      normalized \<in> set (map code_points
        [''authorization'', ''cookie'', ''setcookie'', ''proxyauthorization'', ''password'', ''passwd'',
         ''secret'', ''token'', ''accesstoken'', ''refreshtoken'', ''apikey'', ''requestbody'',
         ''responsebody'', ''postdata''])
      \<or> is_some (find_sub normalized (code_points ''secret''))
      \<or> is_some (find_sub normalized (code_points ''apikey''))
      \<or> is_some (find_sub normalized (code_points ''authorization''))
      \<or> is_some (find_sub normalized (code_points ''password''))
      \<or> ends_with normalized (code_points ''token'')
      \<or> ends_with normalized (code_points ''requestbody'')
      \<or> ends_with normalized (code_points ''responsebody'')
      \<or> ends_with normalized (code_points ''postdata''))"

text \<open>\<^verbatim>\<open>collect()\<close> into a map: later entries win.\<close>

definition bt_collect :: "('k::linorder \<times> 'v) list \<Rightarrow> ('k, 'v) btree" where
  "bt_collect kvs = foldl (\<lambda>m (k, v). bt_insert k v m) [] kvs"

definition redact_header :: "utext \<times> utext \<Rightarrow> (utext \<times> utext) option" where
  "redact_header = (\<lambda>(name, value).
     (let safe_name = map lower_cp (bounded_token name 128) in
      if safe_name = [] \<or> is_raw_identity_key safe_name then None
      else
        (let safe_value = (if is_secret_key safe_name then REDACTED else redact_text value)
         in Some (safe_name, safe_value))))"

definition redact_headers :: "(utext, utext) btree \<Rightarrow> (utext, utext) btree" where
  "redact_headers headers = bt_collect (List.map_filter redact_header headers)"

definition redact_attribute :: "utext \<times> utext \<Rightarrow> (utext \<times> utext) option" where
  "redact_attribute = (\<lambda>(key, value).
     (let safe_key = map lower_cp (bounded_token key 128) in
      if safe_key = [] \<or> is_raw_identity_key safe_key \<or> is_secret_key safe_key then None
      else Some (safe_key, redact_text value)))"

definition redact_attributes :: "(utext, utext) btree \<Rightarrow> (utext, utext) btree" where
  "redact_attributes attributes = bt_collect (List.map_filter redact_attribute attributes)"

definition record_log ::
  "observability_store \<Rightarrow> observation_scope \<Rightarrow> log_level \<Rightarrow> utext \<Rightarrow> timestamp
   \<Rightarrow> observability_store \<times> (host_error, unit) result" where
  "record_log s scope level message timestamp =
     (case policy_scope_validate scope of Inl e \<Rightarrow> (s, Err e) | Inr _ \<Rightarrow>
      (let entry = \<lparr>le_scope = scope, le_level = level, le_message = redact_text message,
                    le_timestamp = timestamp\<rparr>
       in (s\<lparr>ob_logs := bt_insert scope
              (push_bounded (bt_entry [] (ob_logs s) scope) entry (ob_max_records_per_scope s)) (ob_logs s)\<rparr>,
           Ok ())))"

definition record_network ::
  "observability_store \<Rightarrow> observation_scope \<Rightarrow> utext \<Rightarrow> utext \<Rightarrow> u16 option \<Rightarrow> utext
   \<Rightarrow> (utext, utext) btree \<Rightarrow> (utext, utext) btree \<Rightarrow> utext option \<Rightarrow> utext option \<Rightarrow> timestamp
   \<Rightarrow> observability_store \<times> (host_error, unit) result" where
  "record_network s scope url method status resource_type request_headers response_headers
     request_body response_body timestamp =
     (case policy_scope_validate scope of Inl e \<Rightarrow> (s, Err e) | Inr _ \<Rightarrow>
      (let entry = \<lparr>ne_scope = scope, ne_url = redact_text url,
                    ne_method = map upper_cp (bounded_token method 32), ne_status = status,
                    ne_resource_type = bounded_token resource_type 64,
                    ne_request_headers = redact_headers request_headers,
                    ne_response_headers = redact_headers response_headers,
                    ne_bodies_redacted = is_some request_body \<or> is_some response_body,
                    ne_timestamp = timestamp\<rparr>
       in (s\<lparr>ob_network := bt_insert scope
              (push_bounded (bt_entry [] (ob_network s) scope) entry (ob_max_records_per_scope s)) (ob_network s)\<rparr>,
           Ok ())))"

definition record_trace ::
  "observability_store \<Rightarrow> observation_scope \<Rightarrow> utext \<Rightarrow> u64 option \<Rightarrow> (utext, utext) btree \<Rightarrow> timestamp
   \<Rightarrow> observability_store \<times> (host_error, unit) result" where
  "record_trace s scope name duration_ms attributes timestamp =
     (case policy_scope_validate scope of Inl e \<Rightarrow> (s, Err e) | Inr _ \<Rightarrow>
      (let entry = \<lparr>te_scope = scope, te_name = bounded_token name 128, te_duration_ms = duration_ms,
                    te_attributes = redact_attributes attributes, te_timestamp = timestamp\<rparr>
       in (s\<lparr>ob_traces := bt_insert scope
              (push_bounded (bt_entry [] (ob_traces s) scope) entry (ob_max_records_per_scope s)) (ob_traces s)\<rparr>,
           Ok ())))"

definition observation_matches :: "observation_scope \<Rightarrow> observation_scope \<Rightarrow> bool" where
  "observation_matches rec requested \<longleftrightarrow>
     ps_space_id rec = ps_space_id requested
     \<and> is_none_or (ps_page_id requested) (\<lambda>page_id. ps_page_id rec = Some page_id)"

text \<open>The shape of the three readers: the records of all matching scopes, in scope order.\<close>

definition read_scoped ::
  "(observation_scope, 'a list) btree \<Rightarrow> observation_scope \<Rightarrow> (host_error, 'a list) result" where
  "read_scoped m requested =
     and_then (policy_scope_validate requested) (\<lambda>_.
       Ok (concat (map snd (filter (\<lambda>(scope, _). observation_matches scope requested) m))))"

definition logs :: "observability_store \<Rightarrow> observation_scope \<Rightarrow> (host_error, log_entry list) result" where
  "logs s requested = read_scoped (ob_logs s) requested"

definition network :: "observability_store \<Rightarrow> observation_scope \<Rightarrow> (host_error, network_entry list) result" where
  "network s requested = read_scoped (ob_network s) requested"

definition traces :: "observability_store \<Rightarrow> observation_scope \<Rightarrow> (host_error, trace_entry list) result" where
  "traces s requested = read_scoped (ob_traces s) requested"

definition clear_scope ::
  "observability_store \<Rightarrow> observation_scope \<Rightarrow> observability_store \<times> (host_error, unit) result" where
  "clear_scope s scope =
     (case policy_scope_validate scope of Inl e \<Rightarrow> (s, Err e) | Inr _ \<Rightarrow>
      (s\<lparr>ob_logs := bt_remove scope (ob_logs s), ob_network := bt_remove scope (ob_network s),
         ob_traces := bt_remove scope (ob_traces s)\<rparr>, Ok ()))"

definition capability_unavailable_error :: "string \<Rightarrow> host_error" where
  "capability_unavailable_error message = HE_Core (core_error_new EC_CapabilityUnavailable message)"

section \<open>Retention\<close>

interpretation retained: bounded_history "\<lambda>entries entry. push_bounded entries entry (Suc n)"
  "\<lambda>entries. entries" "Suc n" for n
proof
  fix q :: "'a list" and a
  assume "length q \<le> Suc n"
  then show "push_bounded q a (Suc n) = drop (Suc (length q) - Suc n) (q @ [a])"
    by (cases q) (auto simp: push_bounded_def)
qed

text \<open>Series of operations on a store, and what was recorded for a scope since it was last cleared.\<close>

datatype obs_op =
    OB_Log observation_scope log_level utext timestamp
  | OB_Network observation_scope utext utext "u16 option" utext "(utext, utext) btree"
      "(utext, utext) btree" "utext option" "utext option" timestamp
  | OB_Trace observation_scope utext "u64 option" "(utext, utext) btree" timestamp
  | OB_Clear observation_scope

fun obs_step :: "observability_store \<Rightarrow> obs_op \<Rightarrow> observability_store" where
  "obs_step s (OB_Log sc l m t) = fst (record_log s sc l m t)"
| "obs_step s (OB_Network sc u m st r qh sh qb sb t) = fst (record_network s sc u m st r qh sh qb sb t)"
| "obs_step s (OB_Trace sc n d a t) = fst (record_trace s sc n d a t)"
| "obs_step s (OB_Clear sc) = fst (clear_scope s sc)"

fun log_history :: "observation_scope \<Rightarrow> log_entry list \<Rightarrow> obs_op \<Rightarrow> log_entry list" where
  "log_history sc h (OB_Log sc' l m t) =
     (if sc' = sc \<and> policy_scope_validate sc = Inr ()
      then h @ [\<lparr>le_scope = sc, le_level = l, le_message = redact_text m, le_timestamp = t\<rparr>] else h)"
| "log_history sc h (OB_Clear sc') = (if sc' = sc \<and> policy_scope_validate sc = Inr () then [] else h)"
| "log_history sc h _ = h"

text \<open>A map of lists whose elements carry their key.\<close>

definition scoped :: "('a \<Rightarrow> observation_scope) \<Rightarrow> (observation_scope, 'a list) btree \<Rightarrow> bool" where
  "scoped f m \<longleftrightarrow> bt_wf m \<and> (\<forall>sc es. (sc, es) \<in> set m \<longrightarrow> (\<forall>e \<in> set es. f e = sc))"

lemma set_push_bounded: "set (push_bounded es e n) \<subseteq> insert e (set es)"
  by (auto simp: push_bounded_def dest: list.set_sel(2) [rotated] split: if_splits)
    (metis list.sel(2) list.set_sel(2))

lemma scoped_push:
  assumes "scoped f m" "f e = sc"
  shows "scoped f (bt_insert sc (push_bounded (bt_entry [] m sc) e n) m)"
proof -
  have "f x = sc" if "x \<in> set (bt_entry [] m sc)" for x
    using assms(1) that by (cases "bt_get m sc") (auto simp: scoped_def dest: bt_get_in)
  then have "\<forall>x \<in> set (push_bounded (bt_entry [] m sc) e n). f x = sc"
    using set_push_bounded [of "bt_entry [] m sc" e n] assms(2) by blast
  with assms(1) set_bt_insert_subset [of sc "push_bounded (bt_entry [] m sc) e n" m] show ?thesis
    by (fastforce simp: scoped_def bt_wf_insert)
qed

lemma scoped_remove: "scoped f m \<Longrightarrow> scoped f (bt_remove sc m)"
  using set_bt_remove_subset [of sc m] by (fastforce simp: scoped_def bt_wf_remove)

definition obs_inv :: "observability_store \<Rightarrow> bool" where
  "obs_inv s \<longleftrightarrow> scoped le_scope (ob_logs s) \<and> scoped ne_scope (ob_network s) \<and> scoped te_scope (ob_traces s)"

interpretation observed: preserved obs_step obs_inv
proof
  fix s a
  assume "obs_inv s"
  then show "obs_inv (obs_step s a)"
    by (cases a)
      (simp_all add: obs_inv_def record_log_def record_network_def record_trace_def clear_scope_def Let_def
        scoped_push scoped_remove split: sum.splits)
qed

lemma obs_new_inv: "obs_inv (observability_new n)"
  by (simp add: obs_inv_def observability_new_def scoped_def)

lemma obs_limit: "ob_max_records_per_scope (obs_step s a) = ob_max_records_per_scope s"
  by (cases a) (simp_all add: record_log_def record_network_def record_trace_def clear_scope_def Let_def
    split: sum.splits)

lemma obs_run_limit: "ob_max_records_per_scope (foldl obs_step s ops) = ob_max_records_per_scope s"
  by (induction ops rule: rev_induct) (simp_all add: obs_limit)

lemma obs_step_logs:
  assumes "obs_inv s"
  shows "bt_entry [] (ob_logs (obs_step s a)) sc =
    (case a of
       OB_Log sc' l m t \<Rightarrow>
         if sc' = sc \<and> policy_scope_validate sc = Inr () then
           push_bounded (bt_entry [] (ob_logs s) sc)
             \<lparr>le_scope = sc, le_level = l, le_message = redact_text m, le_timestamp = t\<rparr> (ob_max_records_per_scope s)
         else bt_entry [] (ob_logs s) sc
     | OB_Clear sc' \<Rightarrow>
         if sc' = sc \<and> policy_scope_validate sc = Inr () then [] else bt_entry [] (ob_logs s) sc
     | _ \<Rightarrow> bt_entry [] (ob_logs s) sc)"
proof -
  have wf: "bt_wf (ob_logs s)" using assms by (simp add: obs_inv_def scoped_def)
  show ?thesis
    by (cases a)
      (auto simp: record_log_def record_network_def record_trace_def clear_scope_def Let_def
        bt_entry_def bt_get_insert [OF wf] bt_get_remove [OF wf] split: sum.splits)
qed

lemma push_recent:
  assumes "0 < n"
  shows "push_bounded (drop (length h - n) h) e n = drop (length (h @ [e]) - n) (h @ [e])"
proof -
  obtain m where n: "n = Suc m" using assms by (cases n) auto
  have "push_bounded (drop (length h - n) h) e n
      = drop (Suc (length (drop (length h - n) h)) - n) (drop (length h - n) h @ [e])"
    unfolding n by (rule retained.push_contents) simp
  also have "\<dots> = drop (length (h @ [e]) - n) (h @ [e])"
  proof (cases "length h < n")
    case False
    then have "Suc (length h - Suc m) = length h - m" unfolding n by simp
    then have "drop (length h - Suc m) (tl h) = drop (length h - m) h" by (metis drop_Suc)
    with False show ?thesis by (simp add: not_less Suc_diff_le n drop_Suc tl_drop)
  qed (simp add: n)
  finally show ?thesis .
qed

lemma logs_retained:
  assumes "0 < n" "ob_max_records_per_scope s = n" "obs_inv s" "ob_logs s = []"
  shows "bt_entry [] (ob_logs (foldl obs_step s ops)) sc =
    (let h = foldl (log_history sc) [] ops in drop (length h - n) h)"
proof (induction ops rule: rev_induct)
  case Nil
  show ?case using assms(4) by (simp add: bt_entry_def)
next
  case (snoc a ops)
  have "obs_inv (foldl obs_step s ops)" using assms(3) by (rule observed.run_inv)
  from obs_step_logs [OF this, of a sc] snoc assms(1,2) show ?case
    by (cases a) (simp_all add: Let_def obs_run_limit push_recent del: drop_append length_append)
qed

lemma filter_key:
  "bt_wf m \<Longrightarrow> filter (\<lambda>(k, _). k = sc) m = (case bt_get m sc of None \<Rightarrow> [] | Some v \<Rightarrow> [(sc, v)])"
proof (induction m)
  case (Cons e m)
  obtain k v where e: "e = (k, v)" by (cases e)
  have "bt_get m k = None" using Cons.prems by (auto simp: e bt_wf_Cons bt_get_None)
  with Cons show ?case by (auto simp: e bt_wf_Cons split: option.splits)
qed simp

lemma read_scoped_page:
  assumes "bt_wf m" "policy_scope_validate sc = Inr ()" "ps_page_id sc \<noteq> None"
  shows "read_scoped m sc = Ok (bt_entry [] m sc)"
proof -
  have "observation_matches k sc \<longleftrightarrow> k = sc" for k
    using assms(3) by (cases k; cases sc) (auto simp: observation_matches_def)
  then show ?thesis
    using filter_key [OF assms(1), of sc] assms(2) by (simp add: read_scoped_def bt_entry_def split: option.splits)
qed

lemma read_scoped_isolated:
  assumes "scoped f m" "read_scoped m requested = Inr es" "e \<in> set es"
  shows "observation_matches (f e) requested"
  using assms by (fastforce simp: read_scoped_def scoped_def)

section \<open>Redaction\<close>

lemma length_REDACTED: "length REDACTED = 10"
  by (simp add: REDACTED_def code_points_def)

text \<open>One replacement grows the text by at most nine characters.\<close>

lemma length_redact_marker_value: "length (redact_marker_value v m) \<le> length v + 9"
proof -
  have grow: "length (take i v @ REDACTED @ drop j v) \<le> length v + 9"
    if "i < j" "j \<le> length v" for i j
    using that by (simp add: length_REDACTED)
  have "i + length (takeWhile p (drop i v)) \<le> length v"
    if "0 < length (takeWhile p (drop i v))" for i p
    using length_takeWhile_le [of p "drop i v"] that by (cases "i \<le> length v") auto
  then show ?thesis
    unfolding redact_marker_value_def Let_def by (auto split: option.splits intro!: grow simp del: length_append)
qed

lemma length_redact_markers: "length (foldl redact_marker_value v ms) \<le> length v + 9 * length ms"
proof (induction ms arbitrary: v)
  case (Cons m ms)
  from Cons.IH [of "redact_marker_value v m"] length_redact_marker_value [of v m] show ?case by simp
qed simp

lemma length_redact_text: "length (redact_text v) \<le> 4321"
proof -
  have b: "length (bounded_token v MAX_OBSERVABILITY_TEXT_BYTES) \<le> 4096"
    by (simp add: bounded_token_def MAX_OBSERVABILITY_TEXT_BYTES_def)
  have c: "length secret_markers = 14" "length identity_markers = 11"
    by (simp_all add: secret_markers_def identity_markers_def)
  show ?thesis
    using length_redact_markers [of "bounded_token v MAX_OBSERVABILITY_TEXT_BYTES" secret_markers]
      length_redact_markers [of "foldl redact_marker_value (bounded_token v MAX_OBSERVABILITY_TEXT_BYTES) secret_markers"
        identity_markers] b c
    by (simp add: redact_text_def)
qed

lemma set_bt_collect: "set (bt_collect kvs) \<subseteq> set kvs"
proof -
  have "set (foldl (\<lambda>m (k, v). bt_insert k v m) m kvs) \<subseteq> set m \<union> set kvs" for m
  proof (induction kvs arbitrary: m)
    case (Cons kv kvs)
    obtain k v where kv: "kv = (k, v)" by (cases kv)
    from Cons.IH [of "bt_insert k v m"] set_bt_insert_subset [of k v m] show ?case by (auto simp: kv)
  qed simp
  then show ?thesis unfolding bt_collect_def by (metis empty_set sup_bot_left)
qed

lemma set_map_filter: "y \<in> set (List.map_filter f xs) \<longleftrightarrow> (\<exists>x \<in> set xs. f x = Some y)"
  by (induction xs) (auto simp: List.map_filter_def)

lemma bounded_token_safe:
  "length (map lower_cp (bounded_token v n)) \<le> n" "\<forall>c \<in> set (bounded_token v n). \<not> is_control c"
  by (auto simp: bounded_token_def dest: in_set_takeD)

section \<open>Properties\<close>

text \<open>
  C37: what a store of observations returns. After any series of records and clears, the
  logs read for a page are exactly the most recent ones recorded for it since it was last
  cleared, in order, at most the configured number (between 1 and 256); and whatever is read,
  logs, network metadata or traces, belongs to the requested space and page.
\<close>
theorem observations_recent_and_scoped:
  assumes "s = foldl obs_step (observability_new n) ops"
    and "policy_scope_validate sc = Ok ()"
  shows "(ps_page_id sc \<noteq> None \<longrightarrow>
       logs s sc = (let h = foldl (log_history sc) [] ops in
         Ok (drop (length h - min (max n 1) MAX_RECORDS_PER_SCOPE) h)))
    \<and> (\<forall>es. logs s sc = Ok es \<longrightarrow> (\<forall>e \<in> set es. observation_matches (le_scope e) sc))
    \<and> (\<forall>es. network s sc = Ok es \<longrightarrow> (\<forall>e \<in> set es. observation_matches (ne_scope e) sc))
    \<and> (\<forall>es. traces s sc = Ok es \<longrightarrow> (\<forall>e \<in> set es. observation_matches (te_scope e) sc))"
proof -
  let ?n = "min (max n 1) MAX_RECORDS_PER_SCOPE"
  have inv: "obs_inv s" unfolding assms(1) by (rule observed.run_inv [OF obs_new_inv])
  have "0 < ?n" by (simp add: MAX_RECORDS_PER_SCOPE_def)
  from logs_retained [OF this _ obs_new_inv, of n ops sc]
  have "bt_entry [] (ob_logs s) sc = (let h = foldl (log_history sc) [] ops in drop (length h - ?n) h)"
    unfolding assms(1) by (simp add: observability_new_def)
  moreover have "bt_wf (ob_logs s)" using inv by (simp add: obs_inv_def scoped_def)
  ultimately have "ps_page_id sc \<noteq> None \<longrightarrow>
       logs s sc = (let h = foldl (log_history sc) [] ops in Ok (drop (length h - ?n) h))"
    using read_scoped_page [OF _ assms(2), of "ob_logs s"] by (auto simp: logs_def Let_def)
  with inv show ?thesis
    unfolding obs_inv_def logs_def network_def traces_def
    using read_scoped_isolated [of le_scope "ob_logs s" sc] read_scoped_isolated [of ne_scope "ob_network s" sc]
      read_scoped_isolated [of te_scope "ob_traces s" sc]
    by simp
qed

text \<open>
  headers and attributes are safe to keep. Whatever headers come in, a retained
  header has a non-empty lower-case name of at most 128 characters that does not name a browser
  identity, its value is the marker alone if the name is that of a secret, and is bounded in
  any case; a retained attribute has neither kind of name.
\<close>
theorem retained_headers_safe:
  "(\<forall>(name, value) \<in> set (redact_headers headers).
      name \<noteq> [] \<and> length name \<le> 128 \<and> map lower_cp name = name \<and> \<not> is_raw_identity_key name
      \<and> (is_secret_key name \<longrightarrow> value = REDACTED) \<and> length value \<le> 4321)
   \<and> (\<forall>(name, value) \<in> set (redact_attributes attributes).
      name \<noteq> [] \<and> length name \<le> 128 \<and> \<not> is_raw_identity_key name \<and> \<not> is_secret_key name
      \<and> length value \<le> 4321)"
proof -
  have low: "map lower_cp (map lower_cp xs) = map lower_cp xs" for xs
    by (auto simp: lower_cp_def)
  have h: "n \<noteq> [] \<and> length n \<le> 128 \<and> map lower_cp n = n \<and> \<not> is_raw_identity_key n
      \<and> (is_secret_key n \<longrightarrow> v = REDACTED) \<and> length v \<le> 4321" if "redact_header x = Some (n, v)" for x n v
    using that low bounded_token_safe(1) [of "fst x" 128] length_redact_text [of "snd x"] length_REDACTED
    by (auto simp: redact_header_def Let_def split: prod.splits if_splits)
  have a: "n \<noteq> [] \<and> length n \<le> 128 \<and> \<not> is_raw_identity_key n \<and> \<not> is_secret_key n \<and> length v \<le> 4321"
    if "redact_attribute x = Some (n, v)" for x n v
    using that bounded_token_safe(1) [of "fst x" 128] length_redact_text [of "snd x"]
    by (auto simp: redact_attribute_def Let_def split: prod.splits if_splits)
  have "\<exists>x. redact_header x = Some e" if "e \<in> set (redact_headers headers)" for e
    using that set_bt_collect [of "List.map_filter redact_header headers"]
    unfolding redact_headers_def by (metis set_map_filter subsetD)
  moreover have "\<exists>x. redact_attribute x = Some e" if "e \<in> set (redact_attributes attributes)" for e
    using that set_bt_collect [of "List.map_filter redact_attribute attributes"]
    unfolding redact_attributes_def by (metis set_map_filter subsetD)
  ultimately show ?thesis using h a by (fast)
qed

text \<open>
  a bearer token in free text survives redaction. The value of the marker
  \<^verbatim>\<open>authorization\<close> ends at the first blank, so in an authorization line it is the word
  \<^verbatim>\<open>Bearer\<close> that is replaced, the marker \<^verbatim>\<open>bearer\<close> is gone, and the token itself is kept.
\<close>
theorem bearer_token_survives:
  "redact_text (code_points ''Authorization: Bearer abc'') = code_points ''Authorization: [redacted] abc''"
  by (simp add: redact_text_def bounded_token_def MAX_OBSERVABILITY_TEXT_BYTES_def secret_markers_def
      identity_markers_def redact_marker_value_def code_points_def lower_cp_def is_control_def
      is_value_separator_def is_value_end_def REDACTED_def Let_def)

section \<open>Witnesses\<close>

definition demo_scope :: observation_scope where
  "demo_scope = \<lparr>ps_space_id = ''space_a'', ps_page_id = Some ''page_a''\<rparr>"

definition demo_ops :: "obs_op list" where
  "demo_ops = [OB_Log demo_scope LL_Info [97] 1, OB_Log demo_scope LL_Warn [98] 2]"

lemma observations_recent_and_scoped_witness:
  "logs (foldl obs_step (observability_new 1) demo_ops) demo_scope
   = Ok (drop 1 (foldl (log_history demo_scope) [] demo_ops))
   \<and> length (foldl (log_history demo_scope) [] demo_ops) = 2"
proof -
  have v: "policy_scope_validate demo_scope = Ok ()"
    by (simp add: policy_scope_validate_def demo_scope_def)
  have p: "ps_page_id demo_scope \<noteq> None" by (simp add: demo_scope_def)
  have l: "length (foldl (log_history demo_scope) [] demo_ops) = 2" by (simp add: demo_ops_def v)
  from observations_recent_and_scoped [OF refl v, of 1 demo_ops] p l show ?thesis
    by (simp add: Let_def MAX_RECORDS_PER_SCOPE_def)
qed

lemma retained_headers_safe_witness:
  "(code_points ''authorization'', REDACTED)
     \<in> set (redact_headers [(code_points ''Authorization'', [120])])
   \<and> \<not> is_raw_identity_key (code_points ''authorization'')"
proof -
  have "is_secret_key (code_points ''authorization'')"
    by (simp add: is_secret_key_def strip_separators_def code_points_def)
  moreover have "\<not> is_raw_identity_key (code_points ''authorization'')"
    by (simp add: is_raw_identity_key_def strip_separators_def ends_with_def code_points_def)
  moreover have "map lower_cp (bounded_token (code_points ''Authorization'') 128) = code_points ''authorization''"
    by (simp add: bounded_token_def code_points_def is_control_def lower_cp_def)
  ultimately have m: "(code_points ''authorization'', REDACTED)
      \<in> set (redact_headers [(code_points ''Authorization'', [120])])"
    by (simp add: redact_headers_def bt_collect_def List.map_filter_def redact_header_def Let_def code_points_def
        bounded_token_def is_control_def lower_cp_def)
  with retained_headers_safe [of "[(code_points ''Authorization'', [120])]" "[]"] show ?thesis by auto
qed

end
