(* ===== verification/Dialogs.thy ===== *)
theory Dialogs
  imports Observability
begin

text \<open>
  Scoped routing of browser dialogs (\<^verbatim>\<open>crates/agentyc-host/src/dialogs.rs\<close>): one pending dialog per
  logical scope, and the admission of sensitive ones through the ticket registry, which
  \<^verbatim>\<open>resolve\<close> borrows mutably and which is therefore a second component of its state here.
\<close>

section \<open>Model\<close>

type_synonym dialog_id = u64

datatype dialog_kind =
    DK_Alert | DK_Confirm | DK_Prompt | DK_BeforeUnload | DK_LoginChallenge | DK_Payment
  | DK_DestructiveSubmit | DK_Permission

fun dialog_boundary :: "dialog_kind \<Rightarrow> sensitive_boundary option" where
  "dialog_boundary DK_LoginChallenge = Some SB_LoginChallenge"
| "dialog_boundary DK_Payment = Some SB_Payment"
| "dialog_boundary DK_DestructiveSubmit = Some SB_DestructiveSubmit"
| "dialog_boundary DK_Permission = Some SB_Permission"
| "dialog_boundary _ = None"

record dialog_request =
  dq_scope :: observation_scope
  dq_kind :: dialog_kind
  dq_message :: utext
  dq_default_prompt :: "utext option"
  dq_binding :: "intent_binding option"

record dialog_record =
  dr_dialog_id :: dialog_id
  dr_scope :: observation_scope
  dr_kind :: dialog_kind
  dr_message :: utext
  dr_default_prompt :: "utext option"

datatype dialog_decision = DD_Accept | DD_Cancel | DD_Dismiss

record dialog_resolution =
  dn_dialog_id :: dialog_id
  dn_scope :: observation_scope
  dn_decision :: string

datatype dialog_failure = DF_CapabilityUnavailable | DF_PermissionDenied | DF_Cancelled | DF_UnknownOutcome

fun dialog_failure_error :: "dialog_failure \<Rightarrow> host_error" where
  "dialog_failure_error DF_CapabilityUnavailable =
     HE_Core (core_error_new EC_CapabilityUnavailable ''dialog capability is unavailable'')"
| "dialog_failure_error DF_PermissionDenied =
     HE_Core (core_error_new EC_PermissionDenied ''dialog handling was denied by policy'')"
| "dialog_failure_error DF_Cancelled =
     HE_Core (core_error_new EC_Cancelled ''dialog handling was cancelled'')"
| "dialog_failure_error DF_UnknownOutcome =
     HE_Core (core_error_new EC_UnknownOutcome ''dialog handling outcome is unknown'')"

record dialog_manager =
  dm_next_id :: u64
  dm_pending :: "(observation_scope, dialog_record) btree"

definition dialog_manager_default :: dialog_manager where
  "dialog_manager_default = \<lparr>dm_next_id = 0, dm_pending = []\<rparr>"

text \<open>The checks of \<^verbatim>\<open>open\<close> on the binding of a request.\<close>

definition check_dialog_binding :: "dialog_request \<Rightarrow> (host_error, unit) result" where
  "check_dialog_binding request =
     (case dq_binding request of
       Some binding \<Rightarrow>
         if ib_scope binding \<noteq> dq_scope request then
           host_err (core_error_new EC_PermissionDenied
             ''dialog policy binding does not match its logical scope'')
         else if ib_boundary binding \<noteq>
               (case dialog_boundary (dq_kind request) of Some k \<Rightarrow> k | None \<Rightarrow> ib_boundary binding)
             \<and> is_some (dialog_boundary (dq_kind request)) then
           host_err (core_error_new EC_PermissionDenied
             ''dialog policy boundary does not match its dialog kind'')
         else Ok ()
     | None \<Rightarrow>
         if is_some (dialog_boundary (dq_kind request)) then
           host_err (core_error_new EC_UserControlRequired
             ''sensitive dialog requires a host policy binding'')
         else Ok ())"

definition dialog_open ::
  "dialog_manager \<Rightarrow> dialog_request \<Rightarrow> dialog_manager \<times> (host_error, dialog_record) result" where
  "dialog_open m request =
     (case policy_scope_validate (dq_scope request) of Inl e \<Rightarrow> (m, Err e) | Inr _ \<Rightarrow>
      case check_dialog_binding request of Inl e \<Rightarrow> (m, Err e) | Inr _ \<Rightarrow>
      case checked_add64 (dm_next_id m) 1 of
        None \<Rightarrow> (m, host_err (invalid_argument ''dialog identity sequence overflow''))
      | Some next_id \<Rightarrow>
          (let rec = \<lparr>dr_dialog_id = next_id, dr_scope = dq_scope request, dr_kind = dq_kind request,
                      dr_message = redact_text (dq_message request),
                      dr_default_prompt = map_option redact_text (dq_default_prompt request)\<rparr>
           in (m\<lparr>dm_next_id := next_id, dm_pending := bt_insert (dq_scope request) rec (dm_pending m)\<rparr>,
               Ok rec)))"

fun decision_name :: "dialog_decision \<Rightarrow> string" where
  "decision_name DD_Accept = ''accept''"
| "decision_name DD_Cancel = ''cancel''"
| "decision_name DD_Dismiss = ''dismiss''"

text \<open>The admission part of \<^verbatim>\<open>resolve\<close>.\<close>

definition admit_dialog ::
  "dialog_record \<Rightarrow> observation_scope \<Rightarrow> intent_binding option \<Rightarrow> user_intent_ticket option
   \<Rightarrow> intent_ticket_store \<Rightarrow> timestamp \<Rightarrow> intent_ticket_store \<times> (host_error, unit) result" where
  "admit_dialog rec scope binding ticket policy now =
     (case dialog_boundary (dr_kind rec) of
       None \<Rightarrow> (policy, Ok ())
     | Some boundary \<Rightarrow>
         (case binding of
           None \<Rightarrow> (policy, host_err (core_error_new EC_UserControlRequired
                     ''sensitive dialog requires a host policy binding''))
         | Some binding \<Rightarrow>
             if ib_scope binding \<noteq> scope \<or> ib_boundary binding \<noteq> boundary then
               (policy, host_err (core_error_new EC_PermissionDenied
                  ''dialog resolution binding is not current''))
             else
               (case authorize policy binding ticket now of
                 (policy, Inl e) \<Rightarrow> (policy, Err e)
               | (policy, Inr _) \<Rightarrow> (policy, Ok ()))))"

definition dialog_resolve ::
  "dialog_manager \<Rightarrow> observation_scope \<Rightarrow> dialog_decision \<Rightarrow> intent_binding option
   \<Rightarrow> user_intent_ticket option \<Rightarrow> intent_ticket_store \<Rightarrow> timestamp
   \<Rightarrow> (dialog_manager \<times> intent_ticket_store) \<times> (host_error, dialog_resolution) result" where
  "dialog_resolve m scope decision binding ticket policy now =
     (case bt_get (dm_pending m) scope of
       None \<Rightarrow> ((m, policy), host_err (core_error_new EC_CapabilityUnavailable
                  ''logical dialog is no longer pending''))
     | Some rec \<Rightarrow>
         (case admit_dialog rec scope binding ticket policy now of
           (policy, Inl e) \<Rightarrow> ((m, policy), Err e)
         | (policy, Inr _) \<Rightarrow>
             ((m\<lparr>dm_pending := bt_remove scope (dm_pending m)\<rparr>, policy),
              Ok \<lparr>dn_dialog_id = dr_dialog_id rec, dn_scope = dr_scope rec,
                  dn_decision = decision_name decision\<rparr>)))"

definition dialog_pending :: "dialog_manager \<Rightarrow> observation_scope \<Rightarrow> dialog_record option" where
  "dialog_pending m scope = bt_get (dm_pending m) scope"

section \<open>Dialogs as claims\<close>

datatype dialog_op =
    DO_Open dialog_request
  | DO_Resolve observation_scope dialog_decision "intent_binding option" "user_intent_ticket option" timestamp
  | DO_Policy intent_op

fun dialog_step ::
  "dialog_manager \<times> intent_ticket_store \<Rightarrow> dialog_op \<Rightarrow> dialog_manager \<times> intent_ticket_store" where
  "dialog_step (m, p) (DO_Open q) = (fst (dialog_open m q), p)"
| "dialog_step (m, p) (DO_Resolve sc d b t now) = fst (dialog_resolve m sc d b t p now)"
| "dialog_step (m, p) (DO_Policy a) = (m, intent_step p a)"

fun dialogs_opened :: "dialog_manager \<times> intent_ticket_store \<Rightarrow> dialog_op \<Rightarrow> (dialog_id \<times> observation_scope) multiset" where
  "dialogs_opened (m, p) (DO_Open q) =
     (case snd (dialog_open m q) of Inr r \<Rightarrow> {#(dr_dialog_id r, dr_scope r)#} | Inl _ \<Rightarrow> {#})"
| "dialogs_opened _ _ = {#}"

fun dialogs_resolved :: "dialog_manager \<times> intent_ticket_store \<Rightarrow> dialog_op \<Rightarrow> (dialog_id \<times> observation_scope) multiset" where
  "dialogs_resolved (m, p) (DO_Resolve sc d b t now) =
     (case snd (dialog_resolve m sc d b t p now) of Inr r \<Rightarrow> {#(dn_dialog_id r, dn_scope r)#} | Inl _ \<Rightarrow> {#})"
| "dialogs_resolved _ _ = {#}"

definition dialog_claim :: "dialog_record \<Rightarrow> dialog_id \<times> observation_scope" where
  "dialog_claim r = (dr_dialog_id r, dr_scope r)"

lemma entries_held_remove:
  assumes "bt_wf m" "bt_get m k = Some v"
  shows "entries_held p f (bt_remove k m) + (if p v then {#f v#} else {#}) = entries_held p f m"
proof -
  have "add_mset (k, v) (mset (bt_remove k m)) = mset m"
    using assms
  proof (induction m)
    case (Cons e m)
    then show ?case by (cases e) (auto simp: bt_wf_Cons add_mset_commute split: if_splits)
  qed simp
  then have "mset m = add_mset (k, v) (mset (bt_remove k m))" by simp
  then show ?thesis by (simp add: entries_held_def)
qed

interpretation dialogs: grant_ledger dialog_step dialogs_opened dialogs_resolved
  "\<lambda>(m :: dialog_manager, p :: intent_ticket_store). entries_held (\<lambda>_. True) dialog_claim (dm_pending m)"
  "\<lambda>(m :: dialog_manager, p :: intent_ticket_store). bt_wf (dm_pending m)"
proof
  fix s :: "dialog_manager \<times> intent_ticket_store" and a
  assume wf: "(\<lambda>(m, p). bt_wf (dm_pending m)) s"
  obtain m p where s: "s = (m, p)" by (cases s)
  let ?h = "\<lambda>(m, p). entries_held (\<lambda>_. True) dialog_claim (dm_pending m)"
  have wf: "bt_wf (dm_pending m)" using wf by (simp add: s)
  have "(\<lambda>(m, p). bt_wf (dm_pending m)) (dialog_step s a)
    \<and> ?h (dialog_step s a) + dialogs_resolved s a \<subseteq># ?h s + dialogs_opened s a"
  proof (cases a)
    case (DO_Open q)
    show ?thesis
    proof (cases "snd (dialog_open m q)")
      case (Inl e)
      then have "fst (dialog_open m q) = m"
        by (auto simp: dialog_open_def Let_def split: sum.splits option.splits)
      with Inl wf show ?thesis by (simp add: s DO_Open)
    next
      case (Inr r)
      then have "dm_pending (fst (dialog_open m q)) = bt_insert (dq_scope q) r (dm_pending m)"
        by (auto simp: dialog_open_def Let_def split: sum.splits option.splits)
      with Inr wf entries_held_insert [of "\<lambda>_. True" dialog_claim "dq_scope q" r "dm_pending m"] show ?thesis
        by (simp add: s DO_Open bt_wf_insert dialog_claim_def)
    qed
  next
    case (DO_Resolve sc d b t now)
    show ?thesis
    proof (cases "bt_get (dm_pending m) sc")
      case None
      with wf show ?thesis by (simp add: s DO_Resolve dialog_resolve_def)
    next
      case (Some r)
      with wf entries_held_remove [OF wf Some, of "\<lambda>_. True" dialog_claim] show ?thesis
        by (simp add: s DO_Resolve dialog_resolve_def bt_wf_remove dialog_claim_def split: prod.splits sum.splits)
    qed
  next
    case (DO_Policy i)
    with wf show ?thesis by (simp add: s)
  qed
  then show "(\<lambda>(m, p). bt_wf (dm_pending m)) (dialog_step s a)"
    "?h (dialog_step s a) + dialogs_resolved s a \<subseteq># ?h s + dialogs_opened s a"
    by simp_all
qed

lemma opened_id:
  assumes "snd (dialog_open m q) = Inr r"
  shows "unat (dr_dialog_id r) = Suc (unat (dm_next_id m)) \<and> dm_next_id (fst (dialog_open m q)) = dr_dialog_id r"
proof -
  obtain n where n: "checked_add64 (dm_next_id m) 1 = Some n"
    using assms by (cases "checked_add64 (dm_next_id m) 1")
      (auto simp: dialog_open_def Let_def split: sum.splits)
  then have "unat n = Suc (unat (dm_next_id m))" by (simp add: checked_add64_Some)
  with assms n show ?thesis by (auto simp: dialog_open_def Let_def split: sum.splits)
qed

lemma dialog_step_next:
  "unat (dm_next_id (fst s)) \<le> unat (dm_next_id (fst (dialog_step s a)))"
proof (cases a)
  case (DO_Open q)
  obtain m p where s: "s = (m, p)" by (cases s)
  show ?thesis
    by (auto simp: s DO_Open dialog_open_def checked_add64_Some Let_def split: sum.splits option.splits)
next
  case (DO_Resolve sc d b t now)
  obtain m p where s: "s = (m, p)" by (cases s)
  show ?thesis
    by (auto simp: s DO_Resolve dialog_resolve_def split: sum.splits option.splits prod.splits)
qed (cases s; simp)+

text \<open>No dialog identity is given out twice.\<close>

lemma opened_fresh:
  "count (image_mset fst (run_total dialog_step dialogs_opened s ops)) i \<le> 1
   \<and> (0 < count (image_mset fst (run_total dialog_step dialogs_opened s ops)) i \<longrightarrow>
        unat (dm_next_id (fst s)) < unat i)"
proof (induction ops arbitrary: s)
  case (Cons a ops)
  define n where "n = count (image_mset fst (run_total dialog_step dialogs_opened (dialog_step s a) ops)) i"
  obtain m p where s: "s = (m, p)" by (cases s)
  have rest: "n \<le> 1" "0 < n \<longrightarrow> unat (dm_next_id (fst (dialog_step s a))) < unat i"
    using Cons.IH [of "dialog_step s a"] unfolding n_def by blast+
  show ?case
  proof (cases "dialogs_opened s a = {#}")
    case True
    with rest dialog_step_next [of s a] show ?thesis by (auto simp: n_def)
  next
    case False
    then obtain q r where q: "a = DO_Open q" and r: "snd (dialog_open m q) = Inr r"
      by (cases a; cases "snd (dialog_open m (case a of DO_Open q \<Rightarrow> q))") (auto simp: s)
    have "count (image_mset fst (run_total dialog_step dialogs_opened s (a # ops))) i
        = (if dr_dialog_id r = i then 1 else 0) + n"
      by (simp add: s q r n_def)
    with opened_id [OF r] rest show ?thesis by (auto simp: s q)
  qed
qed simp

section \<open>Properties\<close>

text \<open>
  a dialog is answered at most once and only if it was opened. Along any interleaving
  of dialogs and policy operations from the start, the resolutions, by identity and scope, are
  among the dialogs opened, and no identity is opened or resolved twice.
\<close>
theorem dialogs_resolved_once:
  "run_total dialog_step dialogs_resolved (dialog_manager_default, ticket_store_default) ops
     \<subseteq># run_total dialog_step dialogs_opened (dialog_manager_default, ticket_store_default) ops
   \<and> count (image_mset fst
        (run_total dialog_step dialogs_resolved (dialog_manager_default, ticket_store_default) ops)) i \<le> 1"
proof -
  let ?s = "(dialog_manager_default, ticket_store_default)"
  have sub: "run_total dialog_step dialogs_resolved ?s ops \<subseteq># run_total dialog_step dialogs_opened ?s ops"
    by (rule dialogs.run_honoured) (simp_all add: dialog_manager_default_def entries_held_def)
  have "count (image_mset fst (run_total dialog_step dialogs_resolved ?s ops)) i
      \<le> count (image_mset fst (run_total dialog_step dialogs_opened ?s ops)) i"
    using image_mset_subseteq_mono [OF sub] by (rule mset_subset_eq_count)
  also have "\<dots> \<le> 1" using opened_fresh by blast
  finally show ?thesis using sub by simp
qed

end
