(* ===== verification/Downloads.thy ===== *)
theory Downloads
  imports Observability
begin

text \<open>
  Scoped download admission and bounded state (\<^verbatim>\<open>crates/agentyc-host/src/downloads.rs\<close>). Like dialogs,
  \<^verbatim>\<open>start\<close> borrows the ticket registry.
\<close>

section \<open>Model\<close>

datatype download_status =
    DW_Pending
  | DW_Completed u64
  | DW_Failed error_code
  | DW_Cancelled

record download_record =
  dl_download_id :: opaque_id
  dl_scope :: observation_scope
  dl_filename :: utext
  dl_content_type :: utext
  dl_status :: download_status

record download_request =
  dw_binding :: intent_binding
  dw_ticket :: "user_intent_ticket option"
  dw_filename :: utext
  dw_content_type :: utext

datatype download_failure = WF_CapabilityUnavailable | WF_PermissionDenied | WF_Cancelled | WF_UnknownOutcome

fun download_failure_code :: "download_failure \<Rightarrow> error_code" where
  "download_failure_code WF_CapabilityUnavailable = EC_CapabilityUnavailable"
| "download_failure_code WF_PermissionDenied = EC_PermissionDenied"
| "download_failure_code WF_Cancelled = EC_Cancelled"
| "download_failure_code WF_UnknownOutcome = EC_UnknownOutcome"

record download_manager =
  dg_available :: bool
  dg_next_id :: u64
  dg_records :: "(observation_scope, download_record list) btree"

definition download_manager_new :: "bool \<Rightarrow> download_manager" where
  "download_manager_new available = \<lparr>dg_available = available, dg_next_id = 0, dg_records = []\<rparr>"

definition set_available :: "download_manager \<Rightarrow> bool \<Rightarrow> download_manager" where
  "set_available m available = m\<lparr>dg_available := available\<rparr>"

text \<open>\<^verbatim>\<open>rsplit(['/', '\\']).next()\<close>: what follows the last separator.\<close>

definition path_basename :: "utext \<Rightarrow> utext" where
  "path_basename value = rev (takeWhile (\<lambda>c. c \<noteq> 47 \<and> c \<noteq> 92) (rev value))"

definition safe_filename :: "utext \<Rightarrow> utext" where
  "safe_filename value =
     (let sanitized = filter (\<lambda>c. \<not> is_control c) (redact_text (path_basename value)) in
      if sanitized = [] then code_points ''download.bin'' else take 256 sanitized)"

definition is_content_type_char :: "nat \<Rightarrow> bool" where
  "is_content_type_char c \<longleftrightarrow>
     48 \<le> c \<and> c \<le> 57 \<or> 65 \<le> c \<and> c \<le> 90 \<or> 97 \<le> c \<and> c \<le> 122 \<or> c \<in> {47, 45, 43, 46, 32}"

definition bounded_content_type :: "utext \<Rightarrow> utext" where
  "bounded_content_type value =
     (let sanitized = take 128 (filter is_content_type_char value) in
      if sanitized = [] then code_points ''application/octet-stream'' else sanitized)"

definition download_start ::
  "download_manager \<Rightarrow> download_request \<Rightarrow> intent_ticket_store \<Rightarrow> timestamp
   \<Rightarrow> (download_manager \<times> intent_ticket_store) \<times> (host_error, download_record) result" where
  "download_start m request policy now =
     (if \<not> dg_available m then
        ((m, policy), host_err (core_error_new EC_CapabilityUnavailable ''download capability is unavailable''))
      else case binding_validate (dw_binding request) of Inl e \<Rightarrow> ((m, policy), Err e) | Inr _ \<Rightarrow>
      case authorize policy (dw_binding request) (dw_ticket request) now of
        (policy, Inl e) \<Rightarrow> ((m, policy), Err e)
      | (policy, Inr _) \<Rightarrow>
          (case checked_add64 (dg_next_id m) 1 of
            None \<Rightarrow> ((m, policy), host_err (invalid_argument ''download identity sequence overflow''))
          | Some next_id \<Rightarrow>
              (let m = m\<lparr>dg_next_id := next_id\<rparr> in
               case from_suffix ArtifactId (''download-'' @ show_nat (unat next_id)) of
                 Inl e \<Rightarrow> ((m, policy), host_err (invalid_argument (id_error_text e)))
               | Inr download_id \<Rightarrow>
                   (let rec = \<lparr>dl_download_id = download_id, dl_scope = ib_scope (dw_binding request),
                               dl_filename = safe_filename (dw_filename request),
                               dl_content_type = bounded_content_type (dw_content_type request),
                               dl_status = DW_Pending\<rparr>
                    in ((m\<lparr>dg_records := bt_insert (dl_scope rec)
                             (bt_entry [] (dg_records m) (dl_scope rec) @ [rec]) (dg_records m)\<rparr>, policy),
                        Ok rec)))))"

text \<open>\<^verbatim>\<open>find_mut\<close> and the update of the record it finds, when that is pending.\<close>

definition has_id :: "opaque_id \<Rightarrow> download_record \<Rightarrow> bool" where
  "has_id download_id r \<longleftrightarrow> dl_download_id r = download_id"

definition find_download ::
  "download_manager \<Rightarrow> observation_scope \<Rightarrow> opaque_id \<Rightarrow> (host_error, download_record) result" where
  "find_download m scope download_id =
     and_then (policy_scope_validate scope) (\<lambda>_.
       ok_or (Option.bind (bt_get (dg_records m) scope) (List.find (has_id download_id)))
         (HE_Core (core_error_new EC_PermissionDenied
            ''download does not belong to the requested logical scope'')))"

definition finish_download ::
  "download_manager \<Rightarrow> observation_scope \<Rightarrow> opaque_id \<Rightarrow> download_status
   \<Rightarrow> download_manager \<times> (host_error, download_record) result" where
  "finish_download m scope download_id status =
     (case find_download m scope download_id of
       Inl e \<Rightarrow> (m, Err e)
     | Inr rec \<Rightarrow>
         if dl_status rec \<noteq> DW_Pending then
           (m, host_err (core_error_new EC_PermissionDenied ''download is already terminal''))
         else
           (let rec = rec\<lparr>dl_status := status\<rparr>
            in (m\<lparr>dg_records := bt_insert scope
                    (update_first (has_id download_id) rec (bt_entry [] (dg_records m) scope)) (dg_records m)\<rparr>,
                Ok rec)))"

definition download_complete ::
  "download_manager \<Rightarrow> observation_scope \<Rightarrow> opaque_id \<Rightarrow> u64
   \<Rightarrow> download_manager \<times> (host_error, download_record) result" where
  "download_complete m scope download_id bytes = finish_download m scope download_id (DW_Completed bytes)"

definition download_fail ::
  "download_manager \<Rightarrow> observation_scope \<Rightarrow> opaque_id \<Rightarrow> download_failure
   \<Rightarrow> download_manager \<times> (host_error, download_record) result" where
  "download_fail m scope download_id failure =
     finish_download m scope download_id
       (if failure = WF_Cancelled then DW_Cancelled else DW_Failed (download_failure_code failure))"

definition download_list ::
  "download_manager \<Rightarrow> observation_scope \<Rightarrow> (host_error, download_record list) result" where
  "download_list m requested = read_scoped (dg_records m) requested"

section \<open>File names\<close>

lemma set_redact_marker_value: "set (redact_marker_value v m) \<subseteq> set v \<union> set REDACTED"
  unfolding redact_marker_value_def Let_def
  by (auto split: option.splits if_splits dest: in_set_takeD in_set_dropD)

lemma set_redact_text: "set (redact_text v) \<subseteq> set v \<union> set REDACTED"
proof -
  have f: "set (foldl redact_marker_value w ms) \<subseteq> set w \<union> set REDACTED" for w ms
  proof (induction ms arbitrary: w)
    case (Cons m ms)
    from Cons.IH [of "redact_marker_value w m"] set_redact_marker_value [of w m] show ?case by auto
  qed simp
  have "set (bounded_token v MAX_OBSERVABILITY_TEXT_BYTES) \<subseteq> set v"
    by (auto simp: bounded_token_def dest: in_set_takeD)
  with f [of "bounded_token v MAX_OBSERVABILITY_TEXT_BYTES" secret_markers]
    f [of "foldl redact_marker_value (bounded_token v MAX_OBSERVABILITY_TEXT_BYTES) secret_markers" identity_markers]
  show ?thesis unfolding redact_text_def by blast
qed

lemma path_basename_no_separator: "47 \<notin> set (path_basename v) \<and> 92 \<notin> set (path_basename v)"
  by (auto simp: path_basename_def dest!: set_takeWhileD)

text \<open>
  the file name of a download cannot leave its directory by a separator. Whatever name
  the browser supplies, the retained one is not empty, has at most 256 characters, and contains
  no path separator and no control character. The directory names \<^verbatim>\<open>.\<close> and \<^verbatim>\<open>..\<close> are kept as
  they are.
\<close>
theorem safe_filename_is_basename:
  "safe_filename v \<noteq> [] \<and> length (safe_filename v) \<le> 256
   \<and> set (safe_filename v) \<inter> ({47, 92} \<union> {c. is_control c}) = {}
   \<and> safe_filename [46, 46] = [46, 46] \<and> safe_filename [46] = [46]"
proof -
  let ?s = "filter (\<lambda>c. \<not> is_control c) (redact_text (path_basename v))"
  have r: "set REDACTED = {91, 114, 101, 100, 97, 99, 116, 93}"
    by (simp add: REDACTED_def code_points_def insert_commute)
  have d: "set (code_points ''download.bin'') = {100, 111, 119, 110, 108, 97, 46, 98, 105}"
    by (simp add: code_points_def insert_commute)
  have "c \<notin> set ?s" if "c \<in> {47, 92} \<or> is_control c" for c
    using that path_basename_no_separator [of v] set_redact_text [of "path_basename v"] r by auto
  moreover have "c \<notin> set (code_points ''download.bin'')" if "c \<in> {47, 92} \<or> is_control c" for c
    using that unfolding d by (auto simp: is_control_def)
  moreover have dots: "safe_filename [46, 46] = [46, 46]" "safe_filename [46] = [46]"
    by (simp_all add: safe_filename_def path_basename_def redact_text_def bounded_token_def
        MAX_OBSERVABILITY_TEXT_BYTES_def secret_markers_def identity_markers_def redact_marker_value_def
        code_points_def lower_cp_def is_control_def Let_def)
  ultimately have "c \<notin> set (safe_filename v)" if "c \<in> {47, 92} \<or> is_control c" for c
    using that by (auto simp: safe_filename_def Let_def code_points_def simp del: set_filter dest!: in_set_takeD)
  moreover have "safe_filename v \<noteq> [] \<and> length (safe_filename v) \<le> 256"
    by (simp add: safe_filename_def Let_def code_points_def)
  ultimately show ?thesis using dots by blast
qed

end
