(* ===== verification/Snapshots.thy ===== *)
theory Snapshots
  imports Canonical
begin

text \<open>
  Snapshot elements, documents, deltas and envelopes
  (\<^verbatim>\<open>crates/agentyc-core/src/snapshots.rs\<close>). The text of an element and its attributes are
  sequences of Unicode scalar values (the serializer iterates over \<^verbatim>\<open>chars()\<close>); their sizes are
  those of their UTF-8 encodings. Rust's order of strings is that of the scalar values.
\<close>

section \<open>Model\<close>

type_synonym delta_sequence = u64
type_synonym topology_version = u64
type_synonym ref_epoch = u64
type_synonym frame_version = u64

definition DEFAULT_MAX_DELTA_OPERATIONS :: nat where
  "DEFAULT_MAX_DELTA_OPERATIONS = 1024"

definition DEFAULT_MAX_DELTA_CHAIN_DEPTH :: u16 where
  "DEFAULT_MAX_DELTA_CHAIN_DEPTH = 8"

definition SNAPSHOT_SCHEMA_VERSION :: u16 where
  "SNAPSHOT_SCHEMA_VERSION = 1"

definition MAX_SNAPSHOT_ELEMENTS :: nat where
  "MAX_SNAPSHOT_ELEMENTS = 16384"

definition MAX_SNAPSHOT_ATTRIBUTES :: nat where
  "MAX_SNAPSHOT_ATTRIBUTES = 64"

definition MAX_SNAPSHOT_ATTRIBUTE_KEY_BYTES :: nat where
  "MAX_SNAPSHOT_ATTRIBUTE_KEY_BYTES = 128"

definition MAX_SNAPSHOT_ATTRIBUTE_VALUE_BYTES :: nat where
  "MAX_SNAPSHOT_ATTRIBUTE_VALUE_BYTES = 16 * 1024"

definition MAX_SNAPSHOT_TEXT_BYTES :: nat where
  "MAX_SNAPSHOT_TEXT_BYTES = 64 * 1024"

definition MAX_SNAPSHOT_FRAME_VERSIONS :: nat where
  "MAX_SNAPSHOT_FRAME_VERSIONS = 1024"

definition MAX_SNAPSHOT_CHANGED_KEYS :: nat where
  "MAX_SNAPSHOT_CHANGED_KEYS = MAX_SNAPSHOT_ELEMENTS"

definition MAX_SNAPSHOT_OMITTED_FIELDS :: nat where
  "MAX_SNAPSHOT_OMITTED_FIELDS = 256"

definition MAX_SNAPSHOT_OMITTED_FIELD_BYTES :: nat where
  "MAX_SNAPSHOT_OMITTED_FIELD_BYTES = 256"

definition MAX_SNAPSHOT_TOKENIZER_BYTES :: nat where
  "MAX_SNAPSHOT_TOKENIZER_BYTES = 128"

text \<open>The two error enumerations refer to each other.\<close>

datatype snapshot_validation_error =
    SE_TooManyElements nat nat
  | SE_TooManyAttributes nat nat
  | SE_FieldTooLarge string nat nat
  | SE_InvalidParent opaque_id
  | SE_InvalidProvenance string
  | SE_DuplicateKey opaque_id
  | SE_DuplicateOrder u32
  | SE_DeltaMetadataMismatch
  | SE_ModeBodyMismatch
  | SE_UnexpectedBase
  | SE_UnexpectedBodyMetadata
  | SE_ResyncMetadataMismatch
  | SE_NonCanonicalBody
  | SE_NonCanonicalChanged
  | SE_InvalidBody string
  | SE_BodyHashMismatch content_hash content_hash
  | SE_ResultHashMismatch content_hash content_hash
  | SE_InvalidDelta delta_error
  | SE_OperationCountMismatch
  | SE_PartialCanNotIssueRefs
  | SE_InvalidCanonicalData
  | SE_UnsupportedSchemaVersion u16
  | SE_TooManyFrameVersions nat nat
  | SE_TooManyChangedKeys nat nat
  | SE_TooManyOmittedFields nat nat
  | SE_OmittedFieldTooLarge nat nat
  | SE_TokenizerTooLarge nat nat
and delta_error =
    DE_TooManyOperations nat nat
  | DE_ChainTooLong u16 u16
  | DE_NonCanonicalOrder
  | DE_DuplicateTarget opaque_id
  | DE_DuplicateFrameReset opaque_id
  | DE_KeyMismatch opaque_id opaque_id
  | DE_VersionDidNotAdvance snapshot_version snapshot_version
  | DE_InvalidElement snapshot_validation_error
  | DE_FrameResetRequiresVersionVector opaque_id
  | DE_MissingTarget opaque_id
  | DE_ResyncRequired resync_reason
  | DE_ResultHashMismatch content_hash content_hash
  | DE_InvalidSnapshot snapshot_validation_error

datatype element_kind = EK_Root | EK_Element | EK_Text | EK_Control | EK_Frame

fun element_kind_as_str :: "element_kind \<Rightarrow> string" where
  "element_kind_as_str EK_Root = ''root''"
| "element_kind_as_str EK_Element = ''element''"
| "element_kind_as_str EK_Text = ''text''"
| "element_kind_as_str EK_Control = ''control''"
| "element_kind_as_str EK_Frame = ''frame''"

record snapshot_element =
  se_key :: opaque_id
  se_parent :: "opaque_id option"
  se_kind :: element_kind
  se_text :: "utext option"
  se_attributes :: "(utext, utext) btree"
  se_order :: u32

abbreviation byte_len :: "utext \<Rightarrow> nat" where
  "byte_len t \<equiv> length (utf8 t)"

text \<open>The loop over the attributes.\<close>

fun validate_attributes :: "(utext \<times> utext) list \<Rightarrow> (snapshot_validation_error, unit) result" where
  "validate_attributes [] = Ok ()"
| "validate_attributes ((key, val) # attributes) =
     (if key = [] \<or> byte_len key > MAX_SNAPSHOT_ATTRIBUTE_KEY_BYTES then
        Err (SE_FieldTooLarge ''attribute_key'' (byte_len key) MAX_SNAPSHOT_ATTRIBUTE_KEY_BYTES)
      else if byte_len val > MAX_SNAPSHOT_ATTRIBUTE_VALUE_BYTES then
        Err (SE_FieldTooLarge ''attribute_value'' (byte_len val) MAX_SNAPSHOT_ATTRIBUTE_VALUE_BYTES)
      else validate_attributes attributes)"

definition element_validate :: "snapshot_element \<Rightarrow> (snapshot_validation_error, unit) result" where
  "element_validate e =
     (if se_parent e = Some (se_key e) then Err (SE_InvalidParent (se_key e))
      else if is_some_and (se_text e) (\<lambda>text. byte_len text > MAX_SNAPSHOT_TEXT_BYTES) then
        Err (SE_FieldTooLarge ''text'' (case se_text e of None \<Rightarrow> 0 | Some t \<Rightarrow> byte_len t)
          MAX_SNAPSHOT_TEXT_BYTES)
      else if length (se_attributes e) > MAX_SNAPSHOT_ATTRIBUTES then
        Err (SE_TooManyAttributes (length (se_attributes e)) MAX_SNAPSHOT_ATTRIBUTES)
      else validate_attributes (se_attributes e))"

text \<open>The canonical text of an element list and its hash.\<close>

definition append_json_key :: "string \<Rightarrow> utext" where
  "append_json_key key = append_json_string (code_points key) @ [58]"

fun json_attributes :: "(utext \<times> utext) list \<Rightarrow> utext" where
  "json_attributes [] = []"
| "json_attributes [(key, val)] = append_json_string key @ [58] @ append_json_string val"
| "json_attributes ((key, val) # f # fs) =
     append_json_string key @ [58] @ append_json_string val @ [44] @ json_attributes (f # fs)"

definition element_json :: "snapshot_element \<Rightarrow> utext" where
  "element_json e =
     [123] @ append_json_key ''key'' @ append_json_string (code_points (se_key e))
     @ [44] @ append_json_key ''parent''
     @ (case se_parent e of Some parent \<Rightarrow> append_json_string (code_points parent)
        | None \<Rightarrow> code_points ''null'')
     @ [44] @ append_json_key ''kind'' @ append_json_string (code_points (element_kind_as_str (se_kind e)))
     @ [44] @ append_json_key ''text''
     @ (case se_text e of Some text \<Rightarrow> append_json_string text | None \<Rightarrow> code_points ''null'')
     @ [44] @ append_json_key ''attributes'' @ [123] @ json_attributes (se_attributes e) @ [125]
     @ [44] @ append_json_key ''order'' @ code_points (show_nat (unat (se_order e))) @ [125]"

fun json_elements :: "snapshot_element list \<Rightarrow> utext" where
  "json_elements [] = []"
| "json_elements [e] = element_json e"
| "json_elements (e # f # es) = element_json e @ [44] @ json_elements (f # es)"

definition canonical_elements :: "snapshot_element list \<Rightarrow> utext" where
  "canonical_elements elements = [91] @ json_elements elements @ [93]"

definition hash_elements :: "snapshot_element list \<Rightarrow> content_hash" where
  "hash_elements elements = content_hash_from_bytes (utf8 (canonical_elements elements))"

text \<open>Normalization: a stable sort, then a scan with the sets of keys and orders seen.\<close>

definition element_rank :: "snapshot_element \<Rightarrow> u32 \<times> opaque_id" where
  "element_rank e = (se_order e, se_key e)"

fun check_unique ::
  "opaque_id set \<Rightarrow> u32 set \<Rightarrow> snapshot_element list \<Rightarrow> (snapshot_validation_error, unit) result" where
  "check_unique keys orders [] = Ok ()"
| "check_unique keys orders (e # es) =
     (if se_key e \<in> keys then Err (SE_DuplicateKey (se_key e))
      else if se_order e \<in> orders then Err (SE_DuplicateOrder (se_order e))
      else check_unique (insert (se_key e) keys) (insert (se_order e) orders) es)"

definition normalize_elements ::
  "snapshot_element list \<Rightarrow> (snapshot_validation_error, snapshot_element list) result" where
  "normalize_elements elements =
     (if length elements > MAX_SNAPSHOT_ELEMENTS then
        Err (SE_TooManyElements (length elements) MAX_SNAPSHOT_ELEMENTS)
      else
        (let elements = sort_key element_rank elements
         in and_then (check_unique {} {} elements) (\<lambda>_. Ok elements)))"

record snapshot_document =
  sd_snapshot_version :: snapshot_version
  sd_elements :: "snapshot_element list"
  sd_snapshot_hash :: content_hash

fun check_canonical ::
  "(opaque_id \<times> u32) option \<Rightarrow> opaque_id set \<Rightarrow> snapshot_element list
   \<Rightarrow> (snapshot_validation_error, unit) result" where
  "check_canonical previous keys [] = Ok ()"
| "check_canonical previous keys (e # es) =
     and_then (element_validate e) (\<lambda>_.
       if se_key e \<in> keys then Err (SE_DuplicateKey (se_key e))
       else if is_some_and previous (\<lambda>(key, order).
           order > se_order e \<or> order = se_order e \<and> key \<ge> se_key e) then Err SE_NonCanonicalBody
       else check_canonical (Some (se_key e, se_order e)) (insert (se_key e) keys) es)"

definition document_validate :: "snapshot_document \<Rightarrow> (snapshot_validation_error, unit) result" where
  "document_validate d =
     (if length (sd_elements d) > MAX_SNAPSHOT_ELEMENTS then
        Err (SE_TooManyElements (length (sd_elements d)) MAX_SNAPSHOT_ELEMENTS)
      else and_then (check_canonical None {} (sd_elements d)) (\<lambda>_.
        let actual = hash_elements (sd_elements d) in
        if actual \<noteq> sd_snapshot_hash d then Err (SE_BodyHashMismatch (sd_snapshot_hash d) actual)
        else Ok ()))"

definition document_new ::
  "snapshot_version \<Rightarrow> snapshot_element list \<Rightarrow> (snapshot_validation_error, snapshot_document) result" where
  "document_new version elements =
     (if length elements > MAX_SNAPSHOT_ELEMENTS then
        Err (SE_TooManyElements (length elements) MAX_SNAPSHOT_ELEMENTS)
      else and_then (normalize_elements elements) (\<lambda>elements.
        let document = \<lparr>sd_snapshot_version = version, sd_elements = elements,
                        sd_snapshot_hash = hash_elements elements\<rparr>
        in and_then (document_validate document) (\<lambda>_. Ok document)))"

definition document_empty :: "snapshot_version \<Rightarrow> snapshot_document" where
  "document_empty version =
     \<lparr>sd_snapshot_version = version, sd_elements = [],
      sd_snapshot_hash = content_hash_from_bytes (utf8 (code_points ''[]''))\<rparr>"

subsection \<open>Provenance and element references\<close>

record snapshot_provenance =
  sp_space_id :: opaque_id
  sp_page_id :: opaque_id
  sp_snapshot_version :: snapshot_version
  sp_snapshot_hash :: content_hash
  sp_document_generation :: generation
  sp_navigation_generation :: generation
  sp_refs_epoch :: ref_epoch
  sp_coherent :: bool
  sp_coverage :: snapshot_coverage

definition provenance_validate :: "snapshot_provenance \<Rightarrow> (snapshot_validation_error, unit) result" where
  "provenance_validate p =
     (if \<not> sp_coherent p \<and> sp_coverage p = SC_Complete then
        Err (SE_InvalidProvenance ''an incoherent snapshot cannot claim complete coverage'')
      else Ok ())"

definition provenance_can_issue_refs :: "snapshot_provenance \<Rightarrow> bool" where
  "provenance_can_issue_refs p \<longleftrightarrow> sp_coherent p \<and> sp_coverage p = SC_Complete"

record element_ref =
  er_ref_id :: opaque_id
  er_element_key :: opaque_id
  er_space_id :: opaque_id
  er_page_id :: opaque_id
  er_frame_id :: opaque_id
  er_snapshot_version :: snapshot_version
  er_document_generation :: generation
  er_navigation_generation :: generation
  er_refs_epoch :: ref_epoch

subsection \<open>Deltas\<close>

datatype delta_operation =
    DO_Upsert opaque_id snapshot_element
  | DO_Remove opaque_id
  | DO_Move opaque_id u32 "opaque_id option"
  | DO_Replace opaque_id snapshot_element
  | DO_FrameReset opaque_id frame_version

fun sort_key_of :: "delta_operation \<Rightarrow> nat \<times> opaque_id" where
  "sort_key_of (DO_FrameReset frame_id _) = (0, frame_id)"
| "sort_key_of (DO_Remove key) = (1, key)"
| "sort_key_of (DO_Replace key _) = (2, key)"
| "sort_key_of (DO_Upsert key _) = (3, key)"
| "sort_key_of (DO_Move key _ _) = (4, key)"

fun target_key :: "delta_operation \<Rightarrow> opaque_id option" where
  "target_key (DO_Upsert key _) = Some key"
| "target_key (DO_Remove key) = Some key"
| "target_key (DO_Move key _ _) = Some key"
| "target_key (DO_Replace key _) = Some key"
| "target_key (DO_FrameReset _ _) = None"

record delta_limits =
  dl_max_operations :: nat
  dl_max_chain_depth :: u16

definition delta_limits_default :: delta_limits where
  "delta_limits_default =
     \<lparr>dl_max_operations = DEFAULT_MAX_DELTA_OPERATIONS, dl_max_chain_depth = DEFAULT_MAX_DELTA_CHAIN_DEPTH\<rparr>"

record snapshot_delta =
  sx_base_snapshot_version :: snapshot_version
  sx_base_hash :: content_hash
  sx_result_snapshot_version :: snapshot_version
  sx_result_hash :: content_hash
  sx_delta_sequence :: delta_sequence
  sx_chain_depth :: u16
  sx_operations :: "delta_operation list"

fun operation_element :: "delta_operation \<Rightarrow> snapshot_element option" where
  "operation_element (DO_Upsert _ e) = Some e"
| "operation_element (DO_Replace _ e) = Some e"
| "operation_element _ = None"

definition validate_operation_element :: "delta_operation \<Rightarrow> (delta_error, unit) result" where
  "validate_operation_element op =
     (case operation_element op of
       None \<Rightarrow> Ok ()
     | Some e \<Rightarrow> (case element_validate e of Inl err \<Rightarrow> Err (DE_InvalidElement err) | Inr _ \<Rightarrow> Ok ()))"

text \<open>The loop over the operations, with the previous sort key and the targets and frames seen.\<close>

fun validate_operations ::
  "(nat \<times> opaque_id) option \<Rightarrow> opaque_id set \<Rightarrow> opaque_id set \<Rightarrow> delta_operation list
   \<Rightarrow> (delta_error, unit) result" where
  "validate_operations previous targets frame_resets [] = Ok ()"
| "validate_operations previous targets frame_resets (op # ops) =
     (let current = sort_key_of op in
      if is_some_and previous (\<lambda>previous. previous > current) then Err DE_NonCanonicalOrder
      else and_then (validate_operation_element op) (\<lambda>_.
        case target_key op of
          Some key \<Rightarrow>
            if key \<in> targets then Err (DE_DuplicateTarget key)
            else if is_some_and (operation_element op) (\<lambda>e. key \<noteq> se_key e) then
              Err (DE_KeyMismatch key (case operation_element op of None \<Rightarrow> key | Some e \<Rightarrow> se_key e))
            else validate_operations (Some current) (insert key targets) frame_resets ops
        | None \<Rightarrow>
            if snd current \<in> frame_resets then Err (DE_DuplicateFrameReset (snd current))
            else validate_operations (Some current) targets (insert (snd current) frame_resets) ops))"

definition delta_validate :: "snapshot_delta \<Rightarrow> delta_limits \<Rightarrow> (delta_error, unit) result" where
  "delta_validate d limits =
     (if length (sx_operations d) > dl_max_operations limits then
        Err (DE_TooManyOperations (length (sx_operations d)) (dl_max_operations limits))
      else if sx_chain_depth d > dl_max_chain_depth limits then
        Err (DE_ChainTooLong (sx_chain_depth d) (dl_max_chain_depth limits))
      else if sx_result_snapshot_version d \<le> sx_base_snapshot_version d then
        Err (DE_VersionDidNotAdvance (sx_base_snapshot_version d) (sx_result_snapshot_version d))
      else validate_operations None {} {} (sx_operations d))"

abbreviation with_key :: "opaque_id \<Rightarrow> snapshot_element \<Rightarrow> bool" where
  "with_key key \<equiv> \<lambda>item. se_key item = key"

fun apply_operation ::
  "delta_operation \<Rightarrow> snapshot_element list \<Rightarrow> (delta_error, snapshot_element list) result" where
  "apply_operation (DO_Upsert key element) elements =
     (case List.find (with_key key) elements of
       Some _ \<Rightarrow> Ok (update_first (with_key key) element elements)
     | None \<Rightarrow> Ok (elements @ [element]))"
| "apply_operation (DO_Remove key) elements =
     (case position (with_key key) elements of
       None \<Rightarrow> Err (DE_MissingTarget key)
     | Some index \<Rightarrow> Ok (vec_remove index elements))"
| "apply_operation (DO_Replace key element) elements =
     (case List.find (with_key key) elements of
       None \<Rightarrow> Err (DE_MissingTarget key)
     | Some _ \<Rightarrow> Ok (update_first (with_key key) element elements))"
| "apply_operation (DO_Move key order before) elements =
     (case position (with_key key) elements of
       None \<Rightarrow> Err (DE_MissingTarget key)
     | Some index \<Rightarrow>
         (let element = (elements ! index)\<lparr>se_order := order\<rparr>;
              elements = vec_remove index elements;
              insert_at = (case Option.bind before (\<lambda>target. position (with_key target) elements) of
                             None \<Rightarrow> length elements | Some i \<Rightarrow> i)
          in Ok (vec_insert insert_at element elements)))"
| "apply_operation (DO_FrameReset frame_id _) elements =
     Err (DE_FrameResetRequiresVersionVector frame_id)"

fun apply_operations ::
  "delta_operation list \<Rightarrow> snapshot_element list \<Rightarrow> (delta_error, snapshot_element list) result" where
  "apply_operations [] elements = Ok elements"
| "apply_operations (op # ops) elements = and_then (apply_operation op elements) (apply_operations ops)"

fun first_frame_reset :: "delta_operation list \<Rightarrow> opaque_id option" where
  "first_frame_reset [] = None"
| "first_frame_reset (DO_FrameReset frame_id _ # ops) = Some frame_id"
| "first_frame_reset (_ # ops) = first_frame_reset ops"

fun invalid_snapshot :: "(snapshot_validation_error, 'a) result \<Rightarrow> (delta_error, 'a) result" where
  "invalid_snapshot (Inl e) = Err (DE_InvalidSnapshot e)"
| "invalid_snapshot (Inr a) = Ok a"

definition delta_apply ::
  "snapshot_delta \<Rightarrow> snapshot_document \<Rightarrow> delta_limits \<Rightarrow> (delta_error, snapshot_document) result" where
  "delta_apply d base limits =
     and_then (delta_validate d limits) (\<lambda>_.
     if sd_snapshot_version base \<noteq> sx_base_snapshot_version d then Err (DE_ResyncRequired RR_BaseMissing)
     else if sd_snapshot_hash base \<noteq> sx_base_hash d then Err (DE_ResyncRequired RR_BaseHashMismatch)
     else and_then (invalid_snapshot (document_validate base)) (\<lambda>_.
     case first_frame_reset (sx_operations d) of
       Some frame_id \<Rightarrow> Err (DE_FrameResetRequiresVersionVector frame_id)
     | None \<Rightarrow>
         and_then (apply_operations (sx_operations d) (sd_elements base)) (\<lambda>elements.
         and_then (invalid_snapshot (normalize_elements elements)) (\<lambda>elements.
           if hash_elements elements \<noteq> sx_result_hash d then
             Err (DE_ResultHashMismatch (sx_result_hash d) (hash_elements elements))
           else Ok \<lparr>sd_snapshot_version = sx_result_snapshot_version d, sd_elements = elements,
                    sd_snapshot_hash = sx_result_hash d\<rparr>))))"

subsection \<open>Error texts\<close>

fun resync_reason_debug :: "resync_reason \<Rightarrow> string" where
  "resync_reason_debug RR_BaseMissing = ''BaseMissing''"
| "resync_reason_debug RR_BaseHashMismatch = ''BaseHashMismatch''"
| "resync_reason_debug RR_ChainTooLong = ''ChainTooLong''"
| "resync_reason_debug RR_CostExceeded = ''CostExceeded''"
| "resync_reason_debug RR_Incoherent = ''Incoherent''"
| "resync_reason_debug RR_NavigationChanged = ''NavigationChanged''"
| "resync_reason_debug RR_Explicit = ''Explicit''"
| "resync_reason_debug RR_StaleReference = ''StaleReference''"
| "resync_reason_debug RR_UnsupportedDelta = ''UnsupportedDelta''"

fun snapshot_error_text :: "snapshot_validation_error \<Rightarrow> string"
  and delta_error_text :: "delta_error \<Rightarrow> string" where
  "snapshot_error_text (SE_TooManyElements n m) =
     ''snapshot contains '' @ show_nat n @ '' elements, maximum is '' @ show_nat m"
| "snapshot_error_text (SE_TooManyAttributes n m) =
     ''snapshot element contains '' @ show_nat n @ '' attributes, maximum is '' @ show_nat m"
| "snapshot_error_text (SE_FieldTooLarge f n m) =
     ''snapshot '' @ f @ '' is '' @ show_nat n @ '' bytes, maximum is '' @ show_nat m"
| "snapshot_error_text (SE_InvalidParent k) = ''snapshot element '' @ k @ '' cannot be its own parent''"
| "snapshot_error_text (SE_InvalidProvenance t) = ''invalid snapshot provenance: '' @ t"
| "snapshot_error_text (SE_DuplicateKey k) = ''duplicate snapshot element key '' @ k"
| "snapshot_error_text (SE_DuplicateOrder n) = ''duplicate snapshot element order '' @ show_nat (unat n)"
| "snapshot_error_text SE_DeltaMetadataMismatch = ''snapshot delta metadata does not match its envelope''"
| "snapshot_error_text SE_ModeBodyMismatch = ''snapshot mode does not match its body''"
| "snapshot_error_text SE_UnexpectedBase =
     ''full or compact snapshot unexpectedly includes a delta base''"
| "snapshot_error_text SE_UnexpectedBodyMetadata = ''snapshot body contains unexpected mode metadata''"
| "snapshot_error_text SE_ResyncMetadataMismatch =
     ''snapshot resync metadata does not match its body''"
| "snapshot_error_text SE_NonCanonicalBody = ''snapshot body is not in canonical order''"
| "snapshot_error_text SE_NonCanonicalChanged = ''snapshot changed keys are not in canonical order''"
| "snapshot_error_text (SE_InvalidBody t) = ''invalid snapshot body: '' @ t"
| "snapshot_error_text (SE_BodyHashMismatch e a) =
     ''snapshot body hash mismatch: expected '' @ e @ '', got '' @ a"
| "snapshot_error_text (SE_ResultHashMismatch e a) =
     ''snapshot result hash mismatch: expected '' @ e @ '', got '' @ a"
| "snapshot_error_text (SE_InvalidDelta e) = ''invalid snapshot delta: '' @ delta_error_text e"
| "snapshot_error_text SE_OperationCountMismatch =
     ''snapshot operation count does not match its delta''"
| "snapshot_error_text SE_PartialCanNotIssueRefs =
     ''partial or incoherent snapshot cannot issue refs''"
| "snapshot_error_text SE_InvalidCanonicalData =
     ''snapshot element contains invalid canonical data''"
| "snapshot_error_text (SE_UnsupportedSchemaVersion v) =
     ''unsupported snapshot schema version '' @ show_nat (unat v)"
| "snapshot_error_text (SE_TooManyFrameVersions n m) =
     ''snapshot contains '' @ show_nat n @ '' frame versions, maximum is '' @ show_nat m"
| "snapshot_error_text (SE_TooManyChangedKeys n m) =
     ''snapshot contains '' @ show_nat n @ '' changed keys, maximum is '' @ show_nat m"
| "snapshot_error_text (SE_TooManyOmittedFields n m) =
     ''snapshot contains '' @ show_nat n @ '' omitted fields, maximum is '' @ show_nat m"
| "snapshot_error_text (SE_OmittedFieldTooLarge n m) =
     ''snapshot omitted field is '' @ show_nat n @ '' bytes, maximum is '' @ show_nat m"
| "snapshot_error_text (SE_TokenizerTooLarge n m) =
     ''snapshot tokenizer is '' @ show_nat n @ '' bytes, maximum is '' @ show_nat m"
| "delta_error_text (DE_TooManyOperations n m) =
     ''delta has '' @ show_nat n @ '' operations, maximum is '' @ show_nat m"
| "delta_error_text (DE_ChainTooLong n m) =
     ''delta chain depth '' @ show_nat (unat n) @ '' exceeds '' @ show_nat (unat m)"
| "delta_error_text DE_NonCanonicalOrder = ''delta operations are not in canonical order''"
| "delta_error_text (DE_DuplicateTarget k) = ''delta contains duplicate target '' @ k"
| "delta_error_text (DE_DuplicateFrameReset f) = ''delta contains duplicate frame reset '' @ f"
| "delta_error_text (DE_KeyMismatch t e) =
     ''delta key '' @ t @ '' does not match element key '' @ e"
| "delta_error_text (DE_VersionDidNotAdvance b r) =
     ''delta result version SnapshotVersion('' @ show_nat (unat r)
     @ '') does not advance base version SnapshotVersion('' @ show_nat (unat b) @ '')''"
| "delta_error_text (DE_InvalidElement e) =
     ''delta contains an invalid element: '' @ snapshot_error_text e"
| "delta_error_text (DE_FrameResetRequiresVersionVector f) =
     ''frame reset for '' @ f @ '' requires a frame-version vector and was rejected''"
| "delta_error_text (DE_MissingTarget k) = ''delta target '' @ k @ '' is missing''"
| "delta_error_text (DE_ResyncRequired r) = ''delta requires resync: '' @ resync_reason_debug r"
| "delta_error_text (DE_ResultHashMismatch e a) =
     ''delta result hash mismatch: expected '' @ e @ '', got '' @ a"
| "delta_error_text (DE_InvalidSnapshot e) = ''invalid snapshot result: '' @ snapshot_error_text e"

fun snapshot_error_code :: "snapshot_validation_error \<Rightarrow> error_code" where
  "snapshot_error_code (SE_TooManyElements _ _) = EC_MessageTooLarge"
| "snapshot_error_code (SE_TooManyAttributes _ _) = EC_MessageTooLarge"
| "snapshot_error_code (SE_FieldTooLarge _ _ _) = EC_MessageTooLarge"
| "snapshot_error_code (SE_TooManyFrameVersions _ _) = EC_MessageTooLarge"
| "snapshot_error_code (SE_TooManyChangedKeys _ _) = EC_MessageTooLarge"
| "snapshot_error_code (SE_TooManyOmittedFields _ _) = EC_MessageTooLarge"
| "snapshot_error_code (SE_OmittedFieldTooLarge _ _) = EC_MessageTooLarge"
| "snapshot_error_code (SE_TokenizerTooLarge _ _) = EC_MessageTooLarge"
| "snapshot_error_code _ = EC_InvalidArgument"

definition snapshot_core_error :: "snapshot_validation_error \<Rightarrow> core_error" where
  "snapshot_core_error e = core_error_new (snapshot_error_code e) (snapshot_error_text e)"

fun delta_core_error :: "delta_error \<Rightarrow> core_error" where
  "delta_core_error (DE_ResyncRequired reason) = core_error_new EC_StaleRef
     (''snapshot delta requires resync: '' @ resync_reason_debug reason)"
| "delta_core_error (DE_TooManyOperations n m) =
     core_error_new EC_MessageTooLarge (delta_error_text (DE_TooManyOperations n m))"
| "delta_core_error (DE_ChainTooLong n m) =
     core_error_new EC_MessageTooLarge (delta_error_text (DE_ChainTooLong n m))"
| "delta_core_error (DE_InvalidElement e) = snapshot_core_error e"
| "delta_core_error e = core_error_new EC_InvalidArgument (delta_error_text e)"

fun snapshot_core_result :: "(snapshot_validation_error, 'a) result \<Rightarrow> (core_error, 'a) result" where
  "snapshot_core_result (Inl e) = Err (snapshot_core_error e)"
| "snapshot_core_result (Inr a) = Ok a"

subsection \<open>Envelopes\<close>

definition ref_validate_against :: "element_ref \<Rightarrow> snapshot_provenance \<Rightarrow> (core_error, unit) result" where
  "ref_validate_against r p =
     and_then (snapshot_core_result (provenance_validate p)) (\<lambda>_.
       if \<not> provenance_can_issue_refs p then
         Err (stale_ref ''snapshot is partial or incoherent and cannot validate refs'')
       else if er_space_id r \<noteq> sp_space_id p \<or> er_page_id r \<noteq> sp_page_id p then
         Err (stale_ref ''ref scope does not match snapshot scope'')
       else if er_snapshot_version r \<noteq> sp_snapshot_version p
           \<or> er_document_generation r \<noteq> sp_document_generation p
           \<or> er_navigation_generation r \<noteq> sp_navigation_generation p
           \<or> er_refs_epoch r \<noteq> sp_refs_epoch p then
         Err (stale_ref ''ref provenance is stale'')
       else Ok ())"

datatype snapshot_body =
    SB_Elements "snapshot_element list"
  | SB_Delta snapshot_delta
  | SB_Resync resync_reason

record token_budget =
  tb_serialized_limit :: "u64 option"
  tb_model_context_limit :: "u64 option"

record snapshot_envelope =
  sv_schema_version :: u16
  sv_space_id :: opaque_id
  sv_page_id :: opaque_id
  sv_snapshot_version :: snapshot_version
  sv_snapshot_hash :: content_hash
  sv_base_snapshot_version :: "snapshot_version option"
  sv_base_hash :: "content_hash option"
  sv_result_hash :: content_hash
  sv_delta_sequence :: "delta_sequence option"
  sv_topology_version :: topology_version
  sv_navigation_generation :: generation
  sv_document_generation :: generation
  sv_frame_versions :: "(opaque_id, frame_version) btree"
  sv_changed :: "opaque_id list"
  sv_delta_or_elements :: snapshot_body
  sv_mode :: snapshot_mode
  sv_operation_count :: u32
  sv_coherent :: bool
  sv_coverage :: snapshot_coverage
  sv_dirty_reasons :: "dirty_reason list"
  sv_cache_state :: cache_state
  sv_resync_reason :: "resync_reason option"
  sv_transport_bytes :: u64
  sv_utf8_bytes :: u64
  sv_serialized_tokens :: u64
  sv_model_context_tokens :: u64
  sv_tokenizer :: "string option"
  sv_budget :: "token_budget option"
  sv_omitted :: "string list"
  sv_truncated :: bool
  sv_resync_required :: bool
  sv_refs_epoch :: ref_epoch

definition envelope_provenance :: "snapshot_envelope \<Rightarrow> snapshot_provenance" where
  "envelope_provenance s =
     \<lparr>sp_space_id = sv_space_id s, sp_page_id = sv_page_id s,
      sp_snapshot_version = sv_snapshot_version s, sp_snapshot_hash = sv_snapshot_hash s,
      sp_document_generation = sv_document_generation s,
      sp_navigation_generation = sv_navigation_generation s, sp_refs_epoch = sv_refs_epoch s,
      sp_coherent = sv_coherent s, sp_coverage = sv_coverage s\<rparr>"

definition can_issue_refs :: "snapshot_envelope \<Rightarrow> bool" where
  "can_issue_refs s \<longleftrightarrow>
     \<not> sv_truncated s \<and> \<not> sv_resync_required s \<and> provenance_can_issue_refs (envelope_provenance s)"

definition validate_canonical_keys :: "opaque_id list \<Rightarrow> (snapshot_validation_error, unit) result" where
  "validate_canonical_keys keys =
     (if any_window2 (\<ge>) keys then Err SE_NonCanonicalChanged else Ok ())"

text \<open>The checks before the body.\<close>

definition validate_envelope_bounds :: "snapshot_envelope \<Rightarrow> (snapshot_validation_error, unit) result" where
  "validate_envelope_bounds s =
     (if sv_schema_version s \<noteq> SNAPSHOT_SCHEMA_VERSION then
        Err (SE_UnsupportedSchemaVersion (sv_schema_version s))
      else and_then (provenance_validate (envelope_provenance s)) (\<lambda>_.
      if length (sv_frame_versions s) > MAX_SNAPSHOT_FRAME_VERSIONS then
        Err (SE_TooManyFrameVersions (length (sv_frame_versions s)) MAX_SNAPSHOT_FRAME_VERSIONS)
      else if length (sv_changed s) > MAX_SNAPSHOT_CHANGED_KEYS then
        Err (SE_TooManyChangedKeys (length (sv_changed s)) MAX_SNAPSHOT_CHANGED_KEYS)
      else if length (sv_omitted s) > MAX_SNAPSHOT_OMITTED_FIELDS then
        Err (SE_TooManyOmittedFields (length (sv_omitted s)) MAX_SNAPSHOT_OMITTED_FIELDS)
      else if is_some_and (sv_tokenizer s) (\<lambda>t. length t > MAX_SNAPSHOT_TOKENIZER_BYTES) then
        Err (SE_TokenizerTooLarge (case sv_tokenizer s of None \<Rightarrow> 0 | Some t \<Rightarrow> length t)
          MAX_SNAPSHOT_TOKENIZER_BYTES)
      else if list_ex (\<lambda>field. field = []) (sv_omitted s) then
        Err (SE_InvalidProvenance ''omitted field names must not be empty'')
      else case List.find (\<lambda>field. length field > MAX_SNAPSHOT_OMITTED_FIELD_BYTES) (sv_omitted s) of
        Some field \<Rightarrow> Err (SE_OmittedFieldTooLarge (length field) MAX_SNAPSHOT_OMITTED_FIELD_BYTES)
      | None \<Rightarrow>
      if sv_truncated s \<and> sv_coverage s = SC_Complete then
        Err (SE_InvalidProvenance ''a truncated snapshot cannot claim complete coverage'')
      else validate_canonical_keys (sv_changed s)))"

definition validate_elements_body ::
  "snapshot_envelope \<Rightarrow> snapshot_element list \<Rightarrow> (snapshot_validation_error, unit) result" where
  "validate_elements_body s elements =
     (if length elements > MAX_SNAPSHOT_ELEMENTS then
        Err (SE_TooManyElements (length elements) MAX_SNAPSHOT_ELEMENTS)
      else if is_some (sv_base_snapshot_version s) \<or> is_some (sv_base_hash s)
          \<or> is_some (sv_delta_sequence s) \<or> is_some (sv_resync_reason s)
          \<or> sv_operation_count s \<noteq> 0 \<or> sv_resync_required s then
        Err SE_UnexpectedBodyMetadata
      else and_then (document_new (sv_snapshot_version s) elements) (\<lambda>document.
        if sd_elements document \<noteq> elements then Err SE_NonCanonicalBody
        else if sv_snapshot_hash s \<noteq> sd_snapshot_hash document then
          Err (SE_BodyHashMismatch (sv_snapshot_hash s) (sd_snapshot_hash document))
        else if sv_result_hash s \<noteq> sv_snapshot_hash s then
          Err (SE_ResultHashMismatch (sv_result_hash s) (sv_snapshot_hash s))
        else Ok ()))"

definition validate_delta_body ::
  "snapshot_envelope \<Rightarrow> snapshot_delta \<Rightarrow> (snapshot_validation_error, unit) result" where
  "validate_delta_body s d =
     (if sv_base_snapshot_version s \<noteq> Some (sx_base_snapshot_version d)
         \<or> sv_base_hash s \<noteq> Some (sx_base_hash d)
         \<or> sv_delta_sequence s \<noteq> Some (sx_delta_sequence d)
         \<or> sv_snapshot_version s \<noteq> sx_result_snapshot_version d
         \<or> sv_snapshot_hash s \<noteq> sx_result_hash d
         \<or> is_some (sv_resync_reason s) \<or> sv_resync_required s then
        Err SE_DeltaMetadataMismatch
      else if unat (sv_operation_count s) \<noteq> length (sx_operations d) then
        Err SE_OperationCountMismatch
      else case delta_validate d delta_limits_default of
        Inl e \<Rightarrow> Err (SE_InvalidDelta e)
      | Inr _ \<Rightarrow> Ok ())"

definition validate_resync_body ::
  "snapshot_envelope \<Rightarrow> resync_reason \<Rightarrow> (snapshot_validation_error, unit) result" where
  "validate_resync_body s reason =
     (if \<not> sv_resync_required s \<or> sv_resync_reason s \<noteq> Some reason
         \<or> is_some (sv_base_snapshot_version s) \<or> is_some (sv_base_hash s)
         \<or> is_some (sv_delta_sequence s) \<or> sv_operation_count s \<noteq> 0 then
        Err SE_ResyncMetadataMismatch
      else Ok ())"

definition validate_body :: "snapshot_envelope \<Rightarrow> (snapshot_validation_error, unit) result" where
  "validate_body s =
     (case (sv_mode s, sv_delta_or_elements s) of
       (SM_Full, SB_Elements elements) \<Rightarrow> validate_elements_body s elements
     | (SM_Compact, SB_Elements elements) \<Rightarrow> validate_elements_body s elements
     | (SM_Delta, SB_Delta d) \<Rightarrow> validate_delta_body s d
     | (SM_Resync, SB_Resync reason) \<Rightarrow> validate_resync_body s reason
     | _ \<Rightarrow> Err SE_ModeBodyMismatch)"

definition snapshot_validate :: "snapshot_envelope \<Rightarrow> (snapshot_validation_error, unit) result" where
  "snapshot_validate s =
     and_then (validate_envelope_bounds s) (\<lambda>_.
     and_then (validate_body s) (\<lambda>_.
       if \<not> sv_coherent s \<and> can_issue_refs s then Err SE_PartialCanNotIssueRefs else Ok ()))"

definition make_ref ::
  "snapshot_envelope \<Rightarrow> opaque_id \<Rightarrow> opaque_id \<Rightarrow> opaque_id \<Rightarrow> (core_error, element_ref) result" where
  "make_ref s ref_id frame_id element_key =
     and_then (snapshot_core_result (snapshot_validate s)) (\<lambda>_.
       if \<not> can_issue_refs s then
         Err (stale_ref ''refs require a complete coherent non-truncated snapshot'')
       else case sv_delta_or_elements s of
         SB_Elements elements \<Rightarrow>
           if \<not> list_ex (with_key element_key) elements then
             Err (stale_ref ''element key is not present in the issuing snapshot'')
           else Ok \<lparr>er_ref_id = ref_id, er_element_key = element_key, er_space_id = sv_space_id s,
                    er_page_id = sv_page_id s, er_frame_id = frame_id,
                    er_snapshot_version = sv_snapshot_version s,
                    er_document_generation = sv_document_generation s,
                    er_navigation_generation = sv_navigation_generation s,
                    er_refs_epoch = sv_refs_epoch s\<rparr>
       | _ \<Rightarrow> Err (stale_ref ''element refs require a full snapshot body''))"

datatype snapshot_decision = SN_Compact | SN_Delta | SN_Full | SN_Resync resync_reason

definition choose_snapshot_decision ::
  "bool \<Rightarrow> bool \<Rightarrow> bool \<Rightarrow> nat \<Rightarrow> nat \<Rightarrow> u16 \<Rightarrow> delta_limits \<Rightarrow> snapshot_decision" where
  "choose_snapshot_decision base_available base_matches delta_valid delta_cost full_cost chain_depth limits =
     (if \<not> base_available then SN_Full
      else if \<not> base_matches then SN_Resync RR_BaseHashMismatch
      else if \<not> delta_valid \<or> chain_depth > dl_max_chain_depth limits then SN_Full
      else if delta_cost < full_cost then SN_Delta
      else SN_Compact)"

section \<open>Validators as conditions\<close>

abbreviation keys_of :: "snapshot_element list \<Rightarrow> opaque_id list" where
  "keys_of es \<equiv> map se_key es"

lemma check_unique_Ok:
  "check_unique K Os es = Inr () \<longleftrightarrow>
     distinct (keys_of es) \<and> distinct (map se_order es)
     \<and> set (keys_of es) \<inter> K = {} \<and> se_order ` set es \<inter> Os = {}"
  by (induction es arbitrary: K Os) auto

lemma check_canonical_Ok:
  "check_canonical p K es = Inr () \<longleftrightarrow>
     (\<forall>e \<in> set es. element_validate e = Inr ()) \<and> distinct (keys_of es)
     \<and> set (keys_of es) \<inter> K = {} \<and> sorted_wrt (<) (map element_rank es)
     \<and> (\<forall>e \<in> set es. is_none_or p (\<lambda>(k, ord). (ord, k) < element_rank e))"
proof (induction es arbitrary: p K)
  case Nil
  show ?case by simp
next
  case (Cons e es)
  have ord: "is_some_and p (\<lambda>(key, order). order > se_order e \<or> order = se_order e \<and> key \<ge> se_key e)
     \<longleftrightarrow> \<not> is_none_or p (\<lambda>(k, ord). (ord, k) < element_rank e)"
    by (cases p) (auto simp: element_rank_def less_prod_def not_less)
  have tr: "is_none_or p (\<lambda>(k, ord). (ord, k) < element_rank f)"
    if "is_none_or p (\<lambda>(k, ord). (ord, k) < element_rank e)" "element_rank e < element_rank f" for f
    using that by (cases p) auto
  show ?case
    using Cons.IH [of "Some (se_key e, se_order e)" "insert (se_key e) K"]
    by (auto simp: ord element_rank_def [of e, symmetric] dest: tr)
qed

lemma sort_unique:
  "sorted (map f xs) \<Longrightarrow> sort_key f xs = xs" for f :: "'a \<Rightarrow> 'b::linorder"
  by (simp add: sort_key_id_if_sorted)

lemma normalize_Ok:
  "normalize_elements es = Inr fs \<longleftrightarrow>
     length es \<le> MAX_SNAPSHOT_ELEMENTS \<and> fs = sort_key element_rank es
     \<and> distinct (keys_of es) \<and> distinct (map se_order es)"
proof -
  let ?s = "sort_key element_rank es"
  have "distinct (keys_of ?s) = distinct (keys_of es)" "distinct (map se_order ?s) = distinct (map se_order es)"
    by (metis mset_eq_imp_distinct_iff mset_map mset_sort)+
  then show ?thesis
    by (auto simp: normalize_elements_def check_unique_Ok Let_def)
qed

lemma rank_sorted_strict:
  "distinct (keys_of es) \<Longrightarrow> sorted (map element_rank es) \<Longrightarrow> sorted_wrt (<) (map element_rank es)"
proof -
  assume d: "distinct (keys_of es)" and s: "sorted (map element_rank es)"
  have "distinct (map snd (map element_rank es))" using d by (simp add: comp_def element_rank_def)
  then have "distinct (map element_rank es)" by (metis distinct_map)
  with s show ?thesis by (simp add: strict_sorted_iff)
qed

lemma document_validate_Ok:
  "document_validate d = Inr () \<longleftrightarrow>
     length (sd_elements d) \<le> MAX_SNAPSHOT_ELEMENTS
     \<and> (\<forall>e \<in> set (sd_elements d). element_validate e = Inr ()) \<and> distinct (keys_of (sd_elements d))
     \<and> sorted (map element_rank (sd_elements d))
     \<and> sd_snapshot_hash d = hash_elements (sd_elements d)"
  using rank_sorted_strict [of "sd_elements d"] strict_sorted_imp_sorted [of "map element_rank (sd_elements d)"]
  by (auto simp: document_validate_def check_canonical_Ok Let_def)

section \<open>The body as a map from keys\<close>

definition elem_map :: "snapshot_element list \<Rightarrow> opaque_id \<Rightarrow> snapshot_element option" where
  "elem_map es key = List.find (with_key key) es"

lemma find_append: "List.find p (xs @ ys) = (case List.find p xs of None \<Rightarrow> List.find p ys | r \<Rightarrow> r)"
  by (induction xs) auto

lemma elem_map_simps [simp]:
  "elem_map [] k = None"
  "elem_map (e # es) k = (if se_key e = k then Some e else elem_map es k)"
  by (auto simp: elem_map_def)

lemma elem_map_append: "elem_map (xs @ ys) k = (case elem_map xs k of None \<Rightarrow> elem_map ys k | r \<Rightarrow> r)"
  by (simp add: elem_map_def [abs_def] find_append split: option.splits)

lemma elem_map_None: "elem_map es k = None \<longleftrightarrow> k \<notin> set (keys_of es)"
  by (induction es) auto

lemma elem_map_Some: "distinct (keys_of es) \<Longrightarrow> elem_map es k = Some e \<longleftrightarrow> e \<in> set es \<and> se_key e = k"
  by (induction es) force+

lemma elem_map_middle:
  "se_key x \<notin> set (keys_of (as @ bs)) \<Longrightarrow> elem_map (as @ x # bs) = (elem_map (as @ bs))(se_key x \<mapsto> x)"
  using elem_map_None [of as "se_key x"] by (auto simp: elem_map_append fun_eq_iff split: option.splits)

lemma elem_map_set: "distinct (keys_of es) \<Longrightarrow> set es = ran (elem_map es)"
  by (auto simp: ran_def elem_map_Some)

lemma elem_map_cong:
  assumes "distinct (keys_of es)" "distinct (keys_of fs)" "set es = set fs"
  shows "elem_map es = elem_map fs"
proof
  fix k
  show "elem_map es k = elem_map fs k"
  proof (cases "elem_map es k")
    case None
    then show ?thesis using assms(3) by (metis elem_map_None set_map)
  next
    case (Some e)
    then show ?thesis using assms by (metis elem_map_Some)
  qed
qed

lemma elem_map_eq_mset:
  assumes "elem_map es = elem_map fs" "distinct (keys_of es)" "distinct (keys_of fs)"
  shows "mset es = mset fs"
proof -
  have "set es = set fs" using assms by (metis elem_map_set)
  moreover have "distinct es" "distinct fs" using assms by (auto simp: distinct_map)
  ultimately show ?thesis by (simp add: set_eq_iff_mset_eq_distinct)
qed

lemma sort_rank_eq:
  assumes "mset es = mset fs" "distinct (keys_of es)"
  shows "sort_key element_rank es = sort_key element_rank fs"
proof (rule sort_key_inj_key_eq)
  have "inj_on se_key (set es)" using assms by (simp add: distinct_map)
  then show "inj_on element_rank (set es)" by (auto simp: inj_on_def element_rank_def)
qed (use assms in simp_all)

text \<open>What an operation means on the map: the specification of a delta.\<close>

fun delta_spec_op ::
  "delta_operation \<Rightarrow> (opaque_id \<rightharpoonup> snapshot_element) \<Rightarrow> (opaque_id \<rightharpoonup> snapshot_element) option" where
  "delta_spec_op (DO_Upsert key e) m = Some (m(key \<mapsto> e))"
| "delta_spec_op (DO_Remove key) m = (if m key = None then None else Some (m(key := None)))"
| "delta_spec_op (DO_Replace key e) m = (if m key = None then None else Some (m(key \<mapsto> e)))"
| "delta_spec_op (DO_Move key order before) m =
     map_option (\<lambda>e. m(key \<mapsto> e\<lparr>se_order := order\<rparr>)) (m key)"
| "delta_spec_op (DO_FrameReset _ _) m = None"

fun delta_spec ::
  "delta_operation list \<Rightarrow> (opaque_id \<rightharpoonup> snapshot_element) \<Rightarrow> (opaque_id \<rightharpoonup> snapshot_element) option" where
  "delta_spec [] m = Some m"
| "delta_spec (op # ops) m = Option.bind (delta_spec_op op m) (delta_spec ops)"

definition well_keyed :: "delta_operation \<Rightarrow> bool" where
  "well_keyed op \<longleftrightarrow> (\<forall>e. operation_element op = Some e \<longrightarrow> target_key op = Some (se_key e))"

lemma position_split:
  assumes "position p xs = Some i"
  obtains as x bs where "xs = as @ x # bs" "p x" "i = length as" "\<forall>a \<in> set as. \<not> p a"
proof -
  from position_Some [OF assms] have "xs = take i xs @ xs ! i # drop (Suc i) xs" "p (xs ! i)"
    "i = length (take i xs)" "\<forall>a \<in> set (take i xs). \<not> p a"
    by (auto simp: id_take_nth_drop in_set_conv_nth)
  then show thesis using that by blast
qed

lemma update_first_split: "\<forall>a \<in> set as. \<not> p a \<Longrightarrow> p x \<Longrightarrow> update_first p y (as @ x # bs) = as @ y # bs"
  by (induction as) auto

lemma find_position: "List.find p xs = map_option ((!) xs) (position p xs)"
  by (induction xs) (auto simp: option.map_comp comp_def)

lemma vec_insert_elem_map:
  assumes n: "se_key x \<notin> set (keys_of es)" and d: "distinct (keys_of es)"
  shows "elem_map (vec_insert i x es) = (elem_map es)(se_key x \<mapsto> x)
    \<and> distinct (keys_of (vec_insert i x es))"
proof -
  define as bs where "as = take i es" and "bs = drop i es"
  then have s: "as @ bs = es" by simp
  have k: "se_key x \<notin> set (keys_of (as @ bs))" unfolding s by (rule n)
  have "distinct (keys_of (as @ bs))" unfolding s by (rule d)
  with k have "distinct (keys_of (as @ x # bs))" by simp
  with elem_map_middle [OF k] show ?thesis
    by (simp add: vec_insert_def as_def [symmetric] bs_def [symmetric] s)
qed

lemma apply_operation_refines:
  assumes d: "distinct (keys_of es)" and w: "well_keyed op"
  shows "(case apply_operation op es of
      Inl e \<Rightarrow> delta_spec_op op (elem_map es) = None
    | Inr fs \<Rightarrow> delta_spec_op op (elem_map es) = Some (elem_map fs) \<and> distinct (keys_of fs))"
proof (cases "\<exists>key. target_key op = Some key \<and> position (with_key key) es \<noteq> None")
  case True
  then obtain key i where t: "target_key op = Some key" and p: "position (with_key key) es = Some i" by auto
  obtain as x bs where es: "es = as @ x # bs" and x: "se_key x = key" and i: "i = length as"
    and as: "\<forall>a \<in> set as. \<not> with_key key a"
    using position_split [OF p] by blast
  have nin: "se_key x \<notin> set (keys_of (as @ bs))" and dab: "distinct (keys_of (as @ bs))" using d es by auto
  have m: "elem_map es = (elem_map (as @ bs))(key \<mapsto> x)" using elem_map_middle [OF nin] es x by simp
  have mn: "elem_map (as @ bs) key = None" using nin x by (simp add: elem_map_None)
  have f: "List.find (with_key key) es = Some x" using find_position [of "with_key key" es] p es i by simp
  have rm: "vec_remove i es = as @ bs" by (simp add: vec_remove_def es i)
  have up: "update_first (with_key key) y es = as @ y # bs" for y
    using update_first_split [of as "with_key key" x] as x es by simp
  have my: "elem_map (as @ y # bs) = (elem_map (as @ bs))(key \<mapsto> y) \<and> distinct (keys_of (as @ y # bs))"
    if "se_key y = key" for y
    using elem_map_middle [of y as bs] nin x that d es by auto
  have mi: "elem_map (vec_insert j y (as @ bs)) = (elem_map (as @ bs))(key \<mapsto> y)
      \<and> distinct (keys_of (vec_insert j y (as @ bs)))" if "se_key y = key" for j y
    using vec_insert_elem_map [OF _ dab, of y j] nin x that by simp
  have un: "(elem_map (as @ bs))(key := None) = elem_map (as @ bs)" using mn by (rule fun_upd_idem)
  have nth: "es ! i = x" by (simp add: es i)
  show ?thesis
  proof (cases op)
    case (DO_Upsert k y)
    with t w have k: "k = key" "se_key y = key" by (auto simp: well_keyed_def)
    show ?thesis using my [OF k(2)] by (simp add: DO_Upsert k(1) f up m)
  next
    case (DO_Remove k)
    with t have k: "k = key" by simp
    show ?thesis by (simp add: DO_Remove k p rm m un dab [simplified])
  next
    case (DO_Move k ord before)
    with t have k: "k = key" by simp
    show ?thesis using mi [of "x\<lparr>se_order := ord\<rparr>"] x by (simp add: DO_Move k p rm m nth Let_def)
  next
    case (DO_Replace k y)
    with t w have k: "k = key" "se_key y = key" by (auto simp: well_keyed_def)
    show ?thesis using my [OF k(2)] by (simp add: DO_Replace k(1) f up m)
  next
    case (DO_FrameReset k v)
    with t show ?thesis by simp
  qed
next
  case False
  then have n: "target_key op = Some key \<Longrightarrow> List.find (with_key key) es = None \<and> position (with_key key) es = None
      \<and> elem_map es key = None" for key
    by (auto simp: find_None_position elem_map_def)
  have snoc: "elem_map (es @ [y]) = (elem_map es)(se_key y \<mapsto> y) \<and> distinct (keys_of (es @ [y]))"
    if "elem_map es (se_key y) = None" for y
    using elem_map_middle [of y es "[]"] that d by (auto simp: elem_map_None)
  show ?thesis using n snoc w by (cases op) (auto simp: well_keyed_def)
qed

lemma apply_operations_refines:
  assumes "distinct (keys_of es)" "\<forall>op \<in> set ops. well_keyed op"
  shows "(case apply_operations ops es of
      Inl e \<Rightarrow> delta_spec ops (elem_map es) = None
    | Inr fs \<Rightarrow> delta_spec ops (elem_map es) = Some (elem_map fs) \<and> distinct (keys_of fs))"
  using assms
proof (induction ops arbitrary: es)
  case Nil
  then show ?case by simp
next
  case (Cons op ops)
  then have w: "well_keyed op" by simp
  show ?case
  proof (cases "apply_operation op es")
    case (Inl e)
    with apply_operation_refines [OF Cons.prems(1) w] show ?thesis by simp
  next
    case (Inr fs)
    with apply_operation_refines [OF Cons.prems(1) w]
    have fs: "delta_spec_op op (elem_map es) = Some (elem_map fs)" "distinct (keys_of fs)" by auto
    from Cons.IH [OF fs(2)] Cons.prems(2) Inr fs(1) show ?thesis by (simp split: sum.splits)
  qed
qed


section \<open>Deltas refine the specification\<close>

lemma validate_operations_Ok:
  "validate_operations p T F ops = Inr () \<Longrightarrow>
     (\<forall>op \<in> set ops. well_keyed op \<and> is_none_or (operation_element op) (\<lambda>e. element_validate e = Inr ()))"
proof (induction ops arbitrary: p T F)
  case Nil
  then show ?case by simp
next
  case (Cons op ops)
  have "well_keyed op \<and> is_none_or (operation_element op) (\<lambda>e. element_validate e = Inr ())"
    using Cons.prems
    by (cases op) (auto simp: Let_def validate_operation_element_def well_keyed_def split: if_splits sum.splits)
  moreover have "\<exists>p T F. validate_operations p T F ops = Inr ()"
    using Cons.prems by (cases "target_key op") (auto simp: Let_def split: if_splits)
  ultimately show ?case using Cons.IH by auto
qed

lemma validated_delta:
  "delta_validate d l = Inr () \<Longrightarrow>
     (\<forall>op \<in> set (sx_operations d). well_keyed op
        \<and> is_none_or (operation_element op) (\<lambda>e. element_validate e = Inr ()))"
  by (auto simp: delta_validate_def split: if_splits dest: validate_operations_Ok)

lemma element_validate_order [simp]: "element_validate (e\<lparr>se_order := n\<rparr>) = element_validate e"
  by (simp add: element_validate_def)

definition holds_all :: "(snapshot_element \<Rightarrow> bool) \<Rightarrow> (opaque_id \<rightharpoonup> snapshot_element) \<Rightarrow> bool" where
  "holds_all P m \<longleftrightarrow> (\<forall>k. is_none_or (m k) P)"

lemma spec_op_valid:
  "delta_spec_op op m = Some m' \<Longrightarrow> holds_all P m \<Longrightarrow> \<forall>e n. P e \<longrightarrow> P (e\<lparr>se_order := n\<rparr>) \<Longrightarrow>
   is_none_or (operation_element op) P \<Longrightarrow> holds_all P m'"
  by (cases op) (auto simp: holds_all_def is_none_or_iff split: if_splits)

lemma spec_valid:
  "delta_spec ops m = Some m' \<Longrightarrow> holds_all P m \<Longrightarrow> \<forall>e n. P e \<longrightarrow> P (e\<lparr>se_order := n\<rparr>) \<Longrightarrow>
   \<forall>op \<in> set ops. is_none_or (operation_element op) P \<Longrightarrow> holds_all P m'"
proof (induction ops arbitrary: m)
  case Nil
  then show ?case by simp
next
  case (Cons op ops)
  from Cons.prems(1) obtain m1 where m1: "delta_spec_op op m = Some m1" "delta_spec ops m1 = Some m'"
    by (auto split: Option.bind_splits)
  have "holds_all P m1" using spec_op_valid [OF m1(1)] Cons.prems by simp
  then show ?case using Cons.IH [OF m1(2)] Cons.prems by simp
qed

lemma holds_all_elem_map: "distinct (keys_of es) \<Longrightarrow> holds_all P (elem_map es) \<longleftrightarrow> (\<forall>e \<in> set es. P e)"
  by (auto simp: holds_all_def is_none_or_iff elem_map_Some)

lemma frame_reset_undefined: "first_frame_reset ops = Some f \<Longrightarrow> delta_spec ops m = None"
proof (induction ops arbitrary: m)
  case Nil
  then show ?case by simp
next
  case (Cons op ops)
  then show ?case by (cases op) (auto split: Option.bind_splits)
qed

lemma sort_of_document:
  assumes "elem_map es = elem_map fs" "distinct (keys_of es)" "distinct (keys_of fs)"
    "sorted (map element_rank fs)"
  shows "sort_key element_rank es = fs"
  using assms sort_rank_eq [OF elem_map_eq_mset [OF assms(1-3)] assms(2)] by (simp add: sort_unique)

lemma delta_apply_sound:
  assumes a: "delta_apply d base limits = Inr doc"
  shows "delta_validate d limits = Inr ()
     \<and> sd_snapshot_version base = sx_base_snapshot_version d \<and> sd_snapshot_hash base = sx_base_hash d
     \<and> document_validate base = Inr ()
     \<and> delta_spec (sx_operations d) (elem_map (sd_elements base)) = Some (elem_map (sd_elements doc))
     \<and> document_validate doc = Inr () \<and> distinct (map se_order (sd_elements doc))
     \<and> sd_snapshot_version doc = sx_result_snapshot_version d \<and> sd_snapshot_hash doc = sx_result_hash d"
proof -
  from a have v: "delta_validate d limits = Inr ()" and ver: "sd_snapshot_version base = sx_base_snapshot_version d"
    and h: "sd_snapshot_hash base = sx_base_hash d" and bv: "document_validate base = Inr ()"
    by (auto simp: delta_apply_def split: if_splits elim: invalid_snapshot.elims)
  obtain es where es: "apply_operations (sx_operations d) (sd_elements base) = Inr es"
    and n: "normalize_elements es = Inr (sd_elements doc)"
    and hd: "hash_elements (sd_elements doc) = sx_result_hash d" "sd_snapshot_hash doc = sx_result_hash d"
    and vd: "sd_snapshot_version doc = sx_result_snapshot_version d"
    using a v ver h bv
    by (auto simp: delta_apply_def split: if_splits option.splits elim: invalid_snapshot.elims)
  have db: "distinct (keys_of (sd_elements base))" using bv by (simp add: document_validate_Ok)
  from apply_operations_refines [OF db, of "sx_operations d"] validated_delta [OF v] es
  have sp: "delta_spec (sx_operations d) (elem_map (sd_elements base)) = Some (elem_map es)"
    and de: "distinct (keys_of es)" by auto
  have val: "\<forall>e \<in> set es. element_validate e = Inr ()"
    using spec_valid [OF sp, of "\<lambda>e. element_validate e = Inr ()"] validated_delta [OF v] bv db de
    by (simp add: holds_all_elem_map document_validate_Ok)
  have doc: "sd_elements doc = sort_key element_rank es" "length es \<le> MAX_SNAPSHOT_ELEMENTS"
    "distinct (map se_order es)"
    using n by (auto simp: normalize_Ok)
  have mm: "mset (sd_elements doc) = mset es" by (simp add: doc)
  have dd: "distinct (keys_of (sd_elements doc))" "distinct (map se_order (sd_elements doc))"
    using de doc(3) mm by (metis mset_eq_imp_distinct_iff mset_map)+
  have "set (sd_elements doc) = set es" "length (sd_elements doc) = length es"
    using mm mset_eq_setD mset_eq_length by blast+
  then have em: "elem_map (sd_elements doc) = elem_map es"
    using dd(1) de by (intro elem_map_cong)
  show ?thesis
    using v ver h bv sp hd vd doc dd val em mm
    by (simp add: document_validate_Ok)
qed

lemma delta_apply_complete:
  assumes r: "delta_validate d limits = Inr ()
     \<and> sd_snapshot_version base = sx_base_snapshot_version d \<and> sd_snapshot_hash base = sx_base_hash d
     \<and> document_validate base = Inr ()
     \<and> delta_spec (sx_operations d) (elem_map (sd_elements base)) = Some (elem_map (sd_elements doc))
     \<and> document_validate doc = Inr () \<and> distinct (map se_order (sd_elements doc))
     \<and> sd_snapshot_version doc = sx_result_snapshot_version d \<and> sd_snapshot_hash doc = sx_result_hash d"
  shows "delta_apply d base limits = Inr doc"
proof -
  from r have db: "distinct (keys_of (sd_elements base))" and dd: "distinct (keys_of (sd_elements doc))"
    by (auto simp: document_validate_Ok)
  have v: "delta_validate d limits = Inr ()" using r by blast
  obtain es where es: "apply_operations (sx_operations d) (sd_elements base) = Inr es"
    and em: "elem_map es = elem_map (sd_elements doc)" and de: "distinct (keys_of es)"
    using apply_operations_refines [OF db, of "sx_operations d"] validated_delta [OF v] r
    by (cases "apply_operations (sx_operations d) (sd_elements base)") auto
  have srt: "sort_key element_rank es = sd_elements doc"
    using sort_of_document [OF em de dd] r by (simp add: document_validate_Ok)
  have mm: "mset es = mset (sd_elements doc)" by (rule elem_map_eq_mset [OF em de dd])
  have n: "normalize_elements es = Inr (sd_elements doc)"
    using r srt de mm mset_eq_length [OF mm] unfolding normalize_Ok document_validate_Ok
    by (metis mset_eq_imp_distinct_iff mset_map)
  have "first_frame_reset (sx_operations d) = None"
    using r frame_reset_undefined by (cases "first_frame_reset (sx_operations d)") auto
  moreover have "hash_elements (sd_elements doc) = sx_result_hash d"
    using r unfolding document_validate_Ok by metis
  ultimately show ?thesis
    using r es n by (simp add: delta_apply_def)
qed

text \<open>
  C32: applying a delta is a map update. A delta is applied to a base exactly when it validates,
  names the version and hash of the base, the base is canonical, its operations are defined in
  order on the map from keys to elements, and the result, in canonical order with no order value
  used twice, has the declared hash; the result is that document, and it validates.
\<close>

theorem delta_refines_map:
  "delta_apply d base limits = Inr doc \<longleftrightarrow>
     delta_validate d limits = Inr ()
     \<and> sd_snapshot_version base = sx_base_snapshot_version d \<and> sd_snapshot_hash base = sx_base_hash d
     \<and> document_validate base = Inr ()
     \<and> delta_spec (sx_operations d) (elem_map (sd_elements base)) = Some (elem_map (sd_elements doc))
     \<and> document_validate doc = Inr () \<and> distinct (map se_order (sd_elements doc))
     \<and> sd_snapshot_version doc = sx_result_snapshot_version d \<and> sd_snapshot_hash doc = sx_result_hash d"
  using delta_apply_sound [of d base limits doc] delta_apply_complete [of d limits base doc] by (rule iffI)


text \<open>The position asked for by a move has no influence: the body is sorted afterwards.\<close>

fun forget_before :: "delta_operation \<Rightarrow> delta_operation" where
  "forget_before (DO_Move key order before) = DO_Move key order None"
| "forget_before op = op"

lemma forget_before_same [simp]:
  "sort_key_of (forget_before op) = sort_key_of op" "target_key (forget_before op) = target_key op"
  "operation_element (forget_before op) = operation_element op"
  "delta_spec_op (forget_before op) m = delta_spec_op op m"
  "first_frame_reset (map forget_before ops) = first_frame_reset ops"
proof -
  show "first_frame_reset (map forget_before ops) = first_frame_reset ops"
    by (induction ops rule: first_frame_reset.induct) simp_all
qed (cases op; simp)+

lemma validate_forget_before: "validate_operations p T F (map forget_before ops) = validate_operations p T F ops"
proof (induction ops arbitrary: p T F)
  case Nil
  show ?case by simp
next
  case (Cons op ops)
  then show ?case by (cases op) (simp_all add: Let_def validate_operation_element_def)
qed

lemma delta_validate_forget_before:
  "delta_validate (d\<lparr>sx_operations := map forget_before (sx_operations d)\<rparr>) limits = delta_validate d limits"
  by (simp add: delta_validate_def validate_forget_before)

lemma spec_forget_before: "delta_spec (map forget_before ops) = delta_spec ops"
proof (induction ops)
  case (Cons op ops)
  then show ?case by (intro ext) simp
qed simp

lemma apply_operation_error:
  "apply_operation op es = Inl e \<Longrightarrow> e = (case op of DO_FrameReset f _ \<Rightarrow> DE_FrameResetRequiresVersionVector f
     | _ \<Rightarrow> DE_MissingTarget (the (target_key op)))"
  by (cases op) (auto split: option.splits simp: Let_def)

lemma error_forget_before:
  assumes "distinct (keys_of es)" "distinct (keys_of fs)" "elem_map es = elem_map fs"
    "\<forall>op \<in> set ops. well_keyed op" "apply_operations ops es = Inl e"
  shows "apply_operations (map forget_before ops) fs = Inl e"
  using assms
proof (induction ops arbitrary: es fs)
  case Nil
  then show ?case by simp
next
  case (Cons op ops)
  have w: "well_keyed op" "well_keyed (forget_before op)" using Cons.prems(4) by (simp_all add: well_keyed_def)
  note r = apply_operation_refines [OF Cons.prems(1) w(1)] apply_operation_refines [OF Cons.prems(2) w(2)]
  show ?case
  proof (cases "apply_operation op es")
    case (Inl e')
    with r Cons.prems(3) obtain e'' where "apply_operation (forget_before op) fs = Inl e''"
      by (cases "apply_operation (forget_before op) fs") auto
    with Inl apply_operation_error [of op es] apply_operation_error [of "forget_before op" fs] Cons.prems(5)
    show ?thesis by (cases op) auto
  next
    case (Inr es')
    with r Cons.prems(3) obtain fs' where fs': "apply_operation (forget_before op) fs = Inr fs'"
      "elem_map es' = elem_map fs'" "distinct (keys_of es')" "distinct (keys_of fs')"
      by (cases "apply_operation (forget_before op) fs") auto
    have "apply_operations ops es' = Inl e" using Cons.prems(5) Inr by simp
    with Cons.IH [OF fs'(3,4,2)] Cons.prems(4) fs'(1) show ?thesis by simp
  qed
qed

lemma forget_before_idem: "map forget_before (map forget_before ops) = map forget_before ops"
  by (induction ops rule: list.induct) (auto, metis forget_before.elims forget_before.simps(1))

text \<open>
  the position of a move is ignored. Whatever element a move names to be put before, the
  outcome of applying the delta, result or error, is that of the delta without the position.
\<close>

theorem move_position_ignored:
  "delta_apply (d\<lparr>sx_operations := map forget_before (sx_operations d)\<rparr>) base limits = delta_apply d base limits"
proof (cases "delta_validate d limits = Inr () \<and> document_validate base = Inr ()")
  case False
  then show ?thesis
    by (cases "delta_validate d limits"; cases "document_validate base")
      (simp_all add: delta_apply_def delta_validate_forget_before split: if_splits)
next
  case True
  let ?ops = "sx_operations d" and ?es = "sd_elements base"
  have db: "distinct (keys_of ?es)" and w: "\<forall>op \<in> set ?ops. well_keyed op"
    using True validated_delta [of d limits] by (auto simp: document_validate_Ok)
  have w': "\<forall>op \<in> set (map forget_before ?ops). well_keyed op" using w by (simp add: well_keyed_def)
  note r = apply_operations_refines [OF db w] apply_operations_refines [OF db w']
  show ?thesis
  proof (cases "apply_operations ?ops ?es")
    case (Inl e)
    then show ?thesis using error_forget_before [OF db db refl w] True
      by (simp add: delta_apply_def delta_validate_forget_before split: option.splits)
  next
    case (Inr fs)
    with r obtain es where es: "apply_operations (map forget_before ?ops) ?es = Inr es"
      "elem_map es = elem_map fs" "distinct (keys_of es)" "distinct (keys_of fs)"
      by (cases "apply_operations (map forget_before ?ops) ?es") (auto simp: spec_forget_before)
    have m: "mset es = mset fs" using es elem_map_eq_mset by blast
    have "normalize_elements es = normalize_elements fs"
      using mset_eq_length [OF m] sort_rank_eq [OF m es(3)] by (simp add: normalize_elements_def)
    with es(1) Inr True show ?thesis
      by (cases "normalize_elements fs")
        (simp_all add: delta_apply_def delta_validate_forget_before split: option.splits)
  qed
qed


section \<open>The hashed text determines the body\<close>

definition element_value :: "snapshot_element \<Rightarrow> canonical_value" where
  "element_value e = CV_Object
     [(code_points ''key'', CV_String (code_points (se_key e))),
      (code_points ''parent'', case se_parent e of None \<Rightarrow> CV_Null | Some p \<Rightarrow> CV_String (code_points p)),
      (code_points ''kind'', CV_String (code_points (element_kind_as_str (se_kind e)))),
      (code_points ''text'', case se_text e of None \<Rightarrow> CV_Null | Some t \<Rightarrow> CV_String t),
      (code_points ''attributes'', CV_Object (map (\<lambda>(k, v). (k, CV_String v)) (se_attributes e))),
      (code_points ''order'', CV_Number (code_points (show_nat (unat (se_order e)))))]"

text \<open>The texts of an element are sequences of Unicode scalar values.\<close>

definition element_wf :: "snapshot_element \<Rightarrow> bool" where
  "element_wf e \<longleftrightarrow> is_none_or (se_text e) (list_all scalar)
     \<and> (\<forall>a \<in> set (se_attributes e). list_all scalar (fst a) \<and> list_all scalar (snd a))"

lemma json_attributes_render: "json_attributes fs = render_fields (map (\<lambda>(k, v). (k, CV_String v)) fs)"
  by (induction fs rule: json_attributes.induct) auto

lemma element_json_render: "element_json e = render (element_value e)"
  by (simp add: element_json_def element_value_def append_json_key_def json_attributes_render split: option.splits)

lemma json_elements_render: "json_elements es = render_items (map element_value es)"
  by (induction es rule: json_elements.induct) (simp_all add: element_json_render)

lemma element_kind_inj: "element_kind_as_str a = element_kind_as_str b \<longleftrightarrow> a = b"
  by (cases a; cases b; simp)

lemma string_fields_inj:
  "map (\<lambda>(k, v). (k, CV_String v)) fs = map (\<lambda>(k, v). (k, CV_String v)) gs \<longleftrightarrow> fs = gs"
  by (rule inj_map_eq_map) (auto simp: inj_def)

lemma element_value_inj: "element_value e = element_value f \<longleftrightarrow> e = f"
  by (cases e; cases f)
    (auto simp: element_value_def element_kind_inj string_fields_inj word_unat_eq_iff split: option.splits)

lemma element_value_wf: "element_wf e \<Longrightarrow> cv_wf (element_value e)"
  by (auto simp: element_value_def element_wf_def show_nat_num_text split: option.splits)

text \<open>
  the hashed bytes determine the body. Two lists of elements whose texts are sequences of
  Unicode scalar values are serialized to the same bytes for hashing exactly when they are equal.
\<close>

theorem hashed_bytes_determine_body:
  assumes "list_all element_wf es" "list_all element_wf fs"
  shows "utf8 (canonical_elements es) = utf8 (canonical_elements fs) \<longleftrightarrow> es = fs"
proof -
  have c: "canonical_elements gs = render (CV_Array (map element_value gs))" for gs
    by (simp add: canonical_elements_def json_elements_render)
  have w: "cv_wf (CV_Array (map element_value gs))" if "list_all element_wf gs" for gs
    using that by (auto simp: list_all_iff element_value_wf)
  have "utf8 (canonical_elements es) = utf8 (canonical_elements fs)
     \<longleftrightarrow> CV_Array (map element_value es) = CV_Array (map element_value fs)"
    unfolding c using render_inj [OF w w] render_scalar(1) [OF w] utf8_inj assms by metis
  also have "\<dots> \<longleftrightarrow> es = fs"
    using inj_map_eq_map [of element_value es fs] by (simp add: inj_def element_value_inj)
  finally show ?thesis .
qed

section \<open>References\<close>

lemma ref_validate_against_Ok:
  "ref_validate_against r p = Inr () \<longleftrightarrow>
     sp_coherent p \<and> sp_coverage p = SC_Complete \<and> er_space_id r = sp_space_id p \<and> er_page_id r = sp_page_id p
     \<and> er_snapshot_version r = sp_snapshot_version p \<and> er_document_generation r = sp_document_generation p
     \<and> er_navigation_generation r = sp_navigation_generation p \<and> er_refs_epoch r = sp_refs_epoch p"
  by (auto simp: ref_validate_against_def provenance_validate_def provenance_can_issue_refs_def)

lemma make_ref_Ok:
  "make_ref s rid fid key = Inr r \<longleftrightarrow>
     snapshot_validate s = Inr () \<and> can_issue_refs s
     \<and> (\<exists>es. sv_delta_or_elements s = SB_Elements es \<and> list_ex (with_key key) es)
     \<and> r = \<lparr>er_ref_id = rid, er_element_key = key, er_space_id = sv_space_id s,
            er_page_id = sv_page_id s, er_frame_id = fid, er_snapshot_version = sv_snapshot_version s,
            er_document_generation = sv_document_generation s,
            er_navigation_generation = sv_navigation_generation s, er_refs_epoch = sv_refs_epoch s\<rparr>"
  by (cases "snapshot_validate s") (auto simp: make_ref_def split: snapshot_body.splits if_splits)

text \<open>
  a reference is pinned to the snapshot that issued it. It names exactly one element of the
  issuing body, it is valid for that snapshot, and it is valid for another provenance exactly when
  that is complete, coherent and has the same space, page, version, generations and epoch.
\<close>

theorem element_ref_pinned:
  assumes "make_ref s rid fid key = Inr r"
  shows "(\<exists>es. sv_delta_or_elements s = SB_Elements es \<and> (\<exists>!e. e \<in> set es \<and> se_key e = key))
    \<and> (ref_validate_against r p = Inr () \<longleftrightarrow>
        sp_coherent p \<and> sp_coverage p = SC_Complete
        \<and> sp_space_id p = sv_space_id s \<and> sp_page_id p = sv_page_id s
        \<and> sp_snapshot_version p = sv_snapshot_version s
        \<and> sp_document_generation p = sv_document_generation s
        \<and> sp_navigation_generation p = sv_navigation_generation s \<and> sp_refs_epoch p = sv_refs_epoch s)
    \<and> ref_validate_against r (envelope_provenance s) = Inr ()"
proof -
  from assms obtain es where es: "sv_delta_or_elements s = SB_Elements es" and ex: "list_ex (with_key key) es"
    and v: "snapshot_validate s = Inr ()" and c: "can_issue_refs s"
    by (auto simp: make_ref_Ok)
  have "distinct (keys_of es)"
    using v es by (auto simp: snapshot_validate_def validate_body_def validate_elements_body_def document_new_def
      normalize_Ok Let_def split: snapshot_mode.splits if_splits)
  with ex have "\<exists>!e. e \<in> set es \<and> se_key e = key"
    by (auto simp: list_ex_iff distinct_map dest: inj_onD)
  with es assms c show ?thesis
    by (auto simp: make_ref_Ok ref_validate_against_Ok can_issue_refs_def provenance_can_issue_refs_def
      envelope_provenance_def)
qed


text \<open>Every constructed document is canonical: what the constructor accepts and what it returns.\<close>

lemma document_new_Ok:
  "document_new ver es = Inr d \<longleftrightarrow>
     length es \<le> MAX_SNAPSHOT_ELEMENTS \<and> (\<forall>e \<in> set es. element_validate e = Inr ())
     \<and> distinct (keys_of es) \<and> distinct (map se_order es)
     \<and> d = \<lparr>sd_snapshot_version = ver, sd_elements = sort_key element_rank es,
            sd_snapshot_hash = hash_elements (sort_key element_rank es)\<rparr>"
proof -
  have "distinct (keys_of (sort_key element_rank es)) = distinct (keys_of es)"
    by (metis mset_eq_imp_distinct_iff mset_map mset_sort)
  then show ?thesis
    by (auto simp: document_new_def normalize_Ok document_validate_Ok Let_def)
qed

lemma document_empty_valid: "document_validate (document_empty ver) = Inr ()"
  by (simp add: document_validate_Ok document_empty_def hash_elements_def canonical_elements_def code_points_def)

section \<open>Instances\<close>

definition demo_element :: "opaque_id \<Rightarrow> u32 \<Rightarrow> snapshot_element" where
  "demo_element key order = \<lparr>se_key = key, se_parent = None, se_kind = EK_Control, se_text = None,
     se_attributes = [], se_order = order\<rparr>"

lemma demo_element_sel [simp]:
  "se_key (demo_element k n) = k" "se_order (demo_element k n) = n"
  "element_validate (demo_element k n) = Inr ()" "element_wf (demo_element k n)"
  "element_rank (demo_element k n) = (n, k)" "demo_element k n = demo_element j m \<longleftrightarrow> k = j \<and> n = m"
  by (auto simp: demo_element_def element_validate_def element_wf_def element_rank_def)

lemma hashed_bytes_determine_body_witness:
  "utf8 (canonical_elements [demo_element ''element_a'' 1]) \<noteq> utf8 (canonical_elements [demo_element ''element_b'' 1])"
  using hashed_bytes_determine_body [of "[demo_element ''element_a'' 1]" "[demo_element ''element_b'' 1]"] by simp

definition demo_envelope :: snapshot_envelope where
  "demo_envelope = \<lparr>sv_schema_version = 1, sv_space_id = ''space_1'', sv_page_id = ''page_1'',
     sv_snapshot_version = 4, sv_snapshot_hash = hash_elements [demo_element ''element_a'' 1],
     sv_base_snapshot_version = None, sv_base_hash = None,
     sv_result_hash = hash_elements [demo_element ''element_a'' 1], sv_delta_sequence = None,
     sv_topology_version = 1, sv_navigation_generation = 2, sv_document_generation = 3,
     sv_frame_versions = [], sv_changed = [], sv_delta_or_elements = SB_Elements [demo_element ''element_a'' 1],
     sv_mode = SM_Full, sv_operation_count = 0, sv_coherent = True, sv_coverage = SC_Complete,
     sv_dirty_reasons = [], sv_cache_state = CA_Fresh, sv_resync_reason = None, sv_transport_bytes = 0,
     sv_utf8_bytes = 0, sv_serialized_tokens = 0, sv_model_context_tokens = 0, sv_tokenizer = None,
     sv_budget = None, sv_omitted = [], sv_truncated = False, sv_resync_required = False,
     sv_refs_epoch = 7\<rparr>"

lemma demo_envelope_valid: "snapshot_validate demo_envelope = Inr ()"
proof -
  have "document_new 4 [demo_element ''element_a'' 1] = Inr \<lparr>sd_snapshot_version = 4,
      sd_elements = [demo_element ''element_a'' 1], sd_snapshot_hash = hash_elements [demo_element ''element_a'' 1]\<rparr>"
    by (simp add: document_new_Ok MAX_SNAPSHOT_ELEMENTS_def)
  then show ?thesis
    by (simp add: snapshot_validate_def validate_envelope_bounds_def validate_body_def validate_elements_body_def
      demo_envelope_def SNAPSHOT_SCHEMA_VERSION_def provenance_validate_def envelope_provenance_def
      validate_canonical_keys_def can_issue_refs_def MAX_SNAPSHOT_ELEMENTS_def)
qed

lemma demo_ref: "\<exists>r. make_ref demo_envelope ''ref_1'' ''frame_1'' ''element_a'' = Inr r"
  unfolding make_ref_Ok using demo_envelope_valid
  by (auto simp: demo_envelope_def can_issue_refs_def provenance_can_issue_refs_def envelope_provenance_def)

lemma element_ref_pinned_witness:
  "\<exists>r. make_ref demo_envelope ''ref_1'' ''frame_1'' ''element_a'' = Inr r
     \<and> ref_validate_against r (envelope_provenance demo_envelope) = Inr ()
     \<and> ref_validate_against r ((envelope_provenance demo_envelope)\<lparr>sp_refs_epoch := 8\<rparr>) \<noteq> Inr ()"
proof -
  obtain r where r: "make_ref demo_envelope ''ref_1'' ''frame_1'' ''element_a'' = Inr r" using demo_ref by blast
  from element_ref_pinned [OF r, of "(envelope_provenance demo_envelope)\<lparr>sp_refs_epoch := 8\<rparr>"] r
  show ?thesis by (auto simp: demo_envelope_def)
qed

end
