(* ===== verification/Snapshot_Cache.thy ===== *)
theory Snapshot_Cache
  imports Snapshots
begin

text \<open>
  The host's bounded snapshot cache (\<^verbatim>\<open>crates/agentyc-host/src/snapshots.rs\<close>): keyed entries with
  dirty state, expiry, write revisions and single-flight rebuilds. The maps are ordered by the
  hand-written \<^verbatim>\<open>Ord\<close> of the key, which is \<open>cache_key_rank\<close>: a map holds the stored key beside the
  value, and inserting at an equal rank keeps the stored key, as \<^verbatim>\<open>BTreeMap::insert\<close> does. The size
  of a serialized envelope is the argument \<open>to_json\<close>, since the serializer is a library.
\<close>

section \<open>Model\<close>

record page_generation =
  pg_target_generation :: generation
  pg_navigation_generation :: generation
  pg_document_generation :: generation

definition page_generation_default :: page_generation where
  "page_generation_default = \<lparr>pg_target_generation = 0, pg_navigation_generation = 0, pg_document_generation = 0\<rparr>"

definition generation_from_page :: "page_descriptor \<Rightarrow> page_generation" where
  "generation_from_page p =
     \<lparr>pg_target_generation = p_target_generation p, pg_navigation_generation = p_navigation_generation p,
      pg_document_generation = p_document_generation p\<rparr>"

definition matches_page :: "page_generation \<Rightarrow> page_descriptor \<Rightarrow> bool" where
  "matches_page g p \<longleftrightarrow>
     pg_target_generation g = p_target_generation p
     \<and> pg_navigation_generation g = p_navigation_generation p
     \<and> pg_document_generation g = p_document_generation p"

datatype cache_dirty_reason =
    CD_EventGap | CD_Navigation | CD_DocumentReplaced | CD_FrameReplaced | CD_GeometryChanged
  | CD_ScrollChanged | CD_RawEvaluation | CD_Takeover | CD_Reconnect | CD_DomMutation | CD_Action
  | CD_TargetReplaced | CD_SessionLost | CD_Expired | CD_Unknown

text \<open>The derived order of the causes.\<close>

fun cache_dirty_rank :: "cache_dirty_reason \<Rightarrow> nat" where
  "cache_dirty_rank CD_EventGap = 0"
| "cache_dirty_rank CD_Navigation = 1"
| "cache_dirty_rank CD_DocumentReplaced = 2"
| "cache_dirty_rank CD_FrameReplaced = 3"
| "cache_dirty_rank CD_GeometryChanged = 4"
| "cache_dirty_rank CD_ScrollChanged = 5"
| "cache_dirty_rank CD_RawEvaluation = 6"
| "cache_dirty_rank CD_Takeover = 7"
| "cache_dirty_rank CD_Reconnect = 8"
| "cache_dirty_rank CD_DomMutation = 9"
| "cache_dirty_rank CD_Action = 10"
| "cache_dirty_rank CD_TargetReplaced = 11"
| "cache_dirty_rank CD_SessionLost = 12"
| "cache_dirty_rank CD_Expired = 13"
| "cache_dirty_rank CD_Unknown = 14"

definition requires_resync :: "cache_dirty_reason \<Rightarrow> bool" where
  "requires_resync r \<longleftrightarrow> r \<in> {CD_EventGap, CD_Navigation, CD_DocumentReplaced, CD_FrameReplaced,
     CD_RawEvaluation, CD_Takeover, CD_Reconnect, CD_TargetReplaced, CD_SessionLost, CD_Expired}"

fun core_reason :: "cache_dirty_reason \<Rightarrow> dirty_reason" where
  "core_reason CD_Navigation = DR_Navigation"
| "core_reason CD_DocumentReplaced = DR_Navigation"
| "core_reason CD_FrameReplaced = DR_FrameChanged"
| "core_reason CD_RawEvaluation = DR_RawEvaluation"
| "core_reason CD_Takeover = DR_Takeover"
| "core_reason CD_Reconnect = DR_Reconnect"
| "core_reason CD_TargetReplaced = DR_TargetReplaced"
| "core_reason CD_SessionLost = DR_SessionLost"
| "core_reason CD_DomMutation = DR_DomMutation"
| "core_reason CD_Action = DR_Action"
| "core_reason CD_EventGap = DR_EventGap"
| "core_reason CD_GeometryChanged = DR_GeometryChanged"
| "core_reason CD_ScrollChanged = DR_ScrollChanged"
| "core_reason CD_Expired = DR_Expired"
| "core_reason CD_Unknown = DR_Unknown"

definition reason_state :: "cache_dirty_reason \<Rightarrow> cache_state" where
  "reason_state r = (if requires_resync r then CA_Invalidated else CA_Stale)"

record snapshot_cache_key =
  ck_space_id :: opaque_id
  ck_page_id :: opaque_id
  ck_snapshot_version :: snapshot_version
  ck_mode :: snapshot_mode
  ck_focus :: "opaque_id option"
  ck_focus_frame_id :: "opaque_id option"
  ck_budget :: "token_budget option"
  ck_tokenizer :: "string option"
  ck_topology_version :: topology_version
  ck_generation :: page_generation
  ck_frame_versions :: "(opaque_id, frame_version) btree"

definition key_legacy :: "opaque_id \<Rightarrow> opaque_id \<Rightarrow> snapshot_cache_key" where
  "key_legacy space_id page_id =
     \<lparr>ck_space_id = space_id, ck_page_id = page_id, ck_snapshot_version = 0, ck_mode = SM_Full,
      ck_focus = None, ck_focus_frame_id = None, ck_budget = None, ck_tokenizer = None,
      ck_topology_version = 0, ck_generation = page_generation_default, ck_frame_versions = []\<rparr>"

definition key_from_envelope :: "snapshot_envelope \<Rightarrow> snapshot_cache_key" where
  "key_from_envelope s =
     \<lparr>ck_space_id = sv_space_id s, ck_page_id = sv_page_id s, ck_snapshot_version = sv_snapshot_version s,
      ck_mode = sv_mode s, ck_focus = None, ck_focus_frame_id = None, ck_budget = sv_budget s,
      ck_tokenizer = sv_tokenizer s, ck_topology_version = sv_topology_version s,
      ck_generation = \<lparr>pg_target_generation = 0, pg_navigation_generation = sv_navigation_generation s,
                       pg_document_generation = sv_document_generation s\<rparr>,
      ck_frame_versions = sv_frame_versions s\<rparr>"

definition key_for_request ::
  "opaque_id \<Rightarrow> opaque_id \<Rightarrow> snapshot_mode \<Rightarrow> opaque_id option \<Rightarrow> token_budget option \<Rightarrow> string option
   \<Rightarrow> topology_version \<Rightarrow> page_generation \<Rightarrow> (opaque_id, frame_version) btree \<Rightarrow> snapshot_cache_key" where
  "key_for_request space_id page_id mode focus budget tokenizer topology generation frame_versions =
     \<lparr>ck_space_id = space_id, ck_page_id = page_id, ck_snapshot_version = 0, ck_mode = mode,
      ck_focus = focus, ck_focus_frame_id = None, ck_budget = budget, ck_tokenizer = tokenizer,
      ck_topology_version = topology, ck_generation = generation, ck_frame_versions = frame_versions\<rparr>"

definition with_snapshot_version :: "snapshot_cache_key \<Rightarrow> snapshot_version \<Rightarrow> snapshot_cache_key" where
  "with_snapshot_version k v = k\<lparr>ck_snapshot_version := v\<rparr>"

definition with_focus :: "snapshot_cache_key \<Rightarrow> opaque_id option \<Rightarrow> snapshot_cache_key" where
  "with_focus k focus = k\<lparr>ck_focus := focus, ck_focus_frame_id := None\<rparr>"

definition with_frame_focus :: "snapshot_cache_key \<Rightarrow> opaque_id option \<Rightarrow> snapshot_cache_key" where
  "with_frame_focus k frame = k\<lparr>ck_focus_frame_id := frame\<rparr>"

definition with_focus_dimensions ::
  "snapshot_cache_key \<Rightarrow> opaque_id option \<Rightarrow> opaque_id option \<Rightarrow> snapshot_cache_key" where
  "with_focus_dimensions k frame focus = k\<lparr>ck_focus_frame_id := frame, ck_focus := focus\<rparr>"

fun snapshot_mode_rank :: "snapshot_mode \<Rightarrow> nat" where
  "snapshot_mode_rank SM_Full = 0"
| "snapshot_mode_rank SM_Compact = 1"
| "snapshot_mode_rank SM_Delta = 2"
| "snapshot_mode_rank SM_Resync = 3"

definition budget_key :: "token_budget option \<Rightarrow> u64 option \<times> u64 option" where
  "budget_key budget = (case budget of None \<Rightarrow> (None, None)
     | Some b \<Rightarrow> (tb_serialized_limit b, tb_model_context_limit b))"

type_synonym cache_rank =
  "opaque_id \<times> opaque_id \<times> snapshot_version \<times> nat \<times> opaque_id option \<times> opaque_id option
   \<times> (u64 option \<times> u64 option) \<times> string option \<times> topology_version
   \<times> (generation \<times> generation \<times> generation) \<times> (opaque_id \<times> frame_version) list"

definition generation_rank :: "page_generation \<Rightarrow> generation \<times> generation \<times> generation" where
  "generation_rank g = (pg_target_generation g, pg_navigation_generation g, pg_document_generation g)"

definition cache_key_rank :: "snapshot_cache_key \<Rightarrow> cache_rank" where
  "cache_key_rank k =
     (ck_space_id k, ck_page_id k, ck_snapshot_version k, snapshot_mode_rank (ck_mode k), ck_focus k,
      ck_focus_frame_id k, budget_key (ck_budget k), ck_tokenizer k, ck_topology_version k,
      generation_rank (ck_generation k), ck_frame_versions k)"

record snapshot_cache_state =
  cs_state :: cache_state
  cs_dirty_reasons :: "cache_dirty_reason list"
  cs_expires_at :: "timestamp option"
  cs_last_validated_generation :: page_generation
  cs_revision :: u64

record snapshot_cache_record =
  cr_envelope :: snapshot_envelope
  cr_generation :: page_generation
  cr_dirty :: bool

record snapshot_cache_lookup =
  lk_key :: snapshot_cache_key
  lk_envelope :: snapshot_envelope
  lk_state :: cache_state
  lk_dirty_reasons :: "cache_dirty_reason list"
  lk_expires_at :: "timestamp option"
  lk_last_validated_generation :: page_generation
  lk_clean :: bool

record cached_snapshot =
  cd_envelope :: snapshot_envelope
  cd_clean :: bool

record snapshot_metadata =
  md_space_id :: opaque_id
  md_page_id :: opaque_id
  md_snapshot_version :: snapshot_version
  md_snapshot_hash :: content_hash
  md_result_hash :: content_hash
  md_topology_version :: topology_version
  md_navigation_generation :: generation
  md_document_generation :: generation
  md_frame_versions :: "(opaque_id, frame_version) btree"
  md_mode :: snapshot_mode
  md_operation_count :: u32
  md_coherent :: bool
  md_coverage :: snapshot_coverage
  md_cache_state :: cache_state
  md_resync_required :: bool
  md_refs_epoch :: ref_epoch

definition metadata_from_envelope :: "snapshot_envelope \<Rightarrow> snapshot_metadata" where
  "metadata_from_envelope s =
     \<lparr>md_space_id = sv_space_id s, md_page_id = sv_page_id s, md_snapshot_version = sv_snapshot_version s,
      md_snapshot_hash = sv_snapshot_hash s, md_result_hash = sv_result_hash s,
      md_topology_version = sv_topology_version s, md_navigation_generation = sv_navigation_generation s,
      md_document_generation = sv_document_generation s, md_frame_versions = sv_frame_versions s,
      md_mode = sv_mode s, md_operation_count = sv_operation_count s, md_coherent = sv_coherent s,
      md_coverage = sv_coverage s, md_cache_state = sv_cache_state s,
      md_resync_required = sv_resync_required s, md_refs_epoch = sv_refs_epoch s\<rparr>"

record snapshot_read =
  sr_envelope :: snapshot_envelope
  sr_cache_state :: cache_state
  sr_scan_performed :: bool

record snapshot_metadata_read =
  mr_metadata :: snapshot_metadata
  mr_cache_state :: cache_state
  mr_scan_performed :: bool

definition read_metadata :: "snapshot_read \<Rightarrow> snapshot_metadata_read" where
  "read_metadata r =
     \<lparr>mr_metadata = metadata_from_envelope (sr_envelope r), mr_cache_state = sr_cache_state r,
      mr_scan_performed = sr_scan_performed r\<rparr>"

datatype snapshot_cache_error =
    CE_Invalid string | CE_Full | CE_TooLarge | CE_KeyMismatch | CE_RebuildInFlight | CE_StaleWriter
  | CE_Poisoned

record snapshot_rebuild_token =
  rt_key :: snapshot_cache_key
  rt_id :: u64
  rt_revision :: u64

subsection \<open>Maps in the order of the keys\<close>

type_synonym 'v keyed = "(cache_rank, snapshot_cache_key \<times> 'v) btree"

definition km_get :: "'v keyed \<Rightarrow> snapshot_cache_key \<Rightarrow> 'v option" where
  "km_get m k = map_option snd (bt_get m (cache_key_rank k))"

definition km_insert :: "snapshot_cache_key \<Rightarrow> 'v \<Rightarrow> 'v keyed \<Rightarrow> 'v keyed" where
  "km_insert k v m =
     bt_insert (cache_key_rank k)
       (case bt_get m (cache_key_rank k) of None \<Rightarrow> (k, v) | Some (stored, _) \<Rightarrow> (stored, v)) m"

definition km_remove :: "snapshot_cache_key \<Rightarrow> 'v keyed \<Rightarrow> 'v keyed" where
  "km_remove k m = bt_remove (cache_key_rank k) m"

definition km_keys :: "'v keyed \<Rightarrow> snapshot_cache_key list" where
  "km_keys m = map fst (bt_values m)"

record snapshot_cache =
  sc_entries :: "snapshot_cache_record keyed"
  sc_legacy_index :: "(opaque_id \<times> opaque_id, snapshot_cache_key) btree"
  sc_states :: "snapshot_cache_state keyed"
  sc_revisions :: "u64 keyed"
  sc_in_flight :: "u64 keyed"
  sc_next_rebuild_id :: u64
  sc_max_entries :: nat
  sc_max_bytes :: nat

definition cache_new :: "nat \<Rightarrow> nat \<Rightarrow> snapshot_cache" where
  "cache_new max_entries max_bytes =
     \<lparr>sc_entries = [], sc_legacy_index = [], sc_states = [], sc_revisions = [], sc_in_flight = [],
      sc_next_rebuild_id = 1, sc_max_entries = max_entries, sc_max_bytes = max_bytes\<rparr>"

definition cache_len :: "snapshot_cache \<Rightarrow> nat" where
  "cache_len c = length (sc_entries c)"

definition saturating_next :: "u64 \<Rightarrow> u64" where
  "saturating_next v = (case checked_next v of None \<Rightarrow> v | Some n \<Rightarrow> n)"

definition revision_of :: "snapshot_cache \<Rightarrow> snapshot_cache_key \<Rightarrow> u64" where
  "revision_of c k = (case km_get (sc_revisions c) k of None \<Rightarrow> 0 | Some r \<Rightarrow> r)"

subsection \<open>Writes\<close>

definition validate_key ::
  "snapshot_cache_key \<Rightarrow> snapshot_envelope \<Rightarrow> (snapshot_cache_error, unit) result" where
  "validate_key key s =
     (let generation_matches = (pg_navigation_generation (ck_generation key) = 0
            \<or> pg_navigation_generation (ck_generation key) = sv_navigation_generation s);
          document_matches = (pg_document_generation (ck_generation key) = 0
            \<or> pg_document_generation (ck_generation key) = sv_document_generation s);
          topology_matches = (ck_topology_version key = 0 \<or> ck_topology_version key = sv_topology_version s);
          frames_match = (ck_frame_versions key = [] \<or> ck_frame_versions key = sv_frame_versions s)
      in if ck_space_id key \<noteq> sv_space_id s \<or> ck_page_id key \<noteq> sv_page_id s
            \<or> (ck_snapshot_version key \<noteq> 0 \<and> ck_snapshot_version key \<noteq> sv_snapshot_version s)
            \<or> ck_mode key \<noteq> sv_mode s \<or> ck_budget key \<noteq> sv_budget s \<or> ck_tokenizer key \<noteq> sv_tokenizer s
            \<or> \<not> generation_matches \<or> \<not> document_matches \<or> \<not> topology_matches \<or> \<not> frames_match then
           Err CE_KeyMismatch
         else case snapshot_validate s of
           Inl e \<Rightarrow> Err (CE_Invalid (snapshot_error_text e))
         | Inr _ \<Rightarrow> Ok ())"

definition page_key :: "snapshot_cache_key \<Rightarrow> opaque_id \<times> opaque_id" where
  "page_key k = (ck_space_id k, ck_page_id k)"

definition store_clean ::
  "snapshot_cache \<Rightarrow> snapshot_cache_key \<Rightarrow> snapshot_envelope \<Rightarrow> timestamp option \<Rightarrow> snapshot_cache" where
  "store_clean c key envelope expires_at =
     (let revision = saturating_next (revision_of c key);
          generation = ck_generation key
      in c\<lparr>sc_entries := km_insert key \<lparr>cr_envelope = envelope, cr_generation = generation, cr_dirty = False\<rparr>
             (sc_entries c),
           sc_states := km_insert key \<lparr>cs_state = CA_Fresh, cs_dirty_reasons = [], cs_expires_at = expires_at,
             cs_last_validated_generation = generation, cs_revision = revision\<rparr> (sc_states c),
           sc_revisions := km_insert key revision (sc_revisions c),
           sc_legacy_index := bt_insert (page_key key) key (sc_legacy_index c),
           sc_in_flight := km_remove key (sc_in_flight c)\<rparr>)"

definition insert_with_expiry ::
  "(snapshot_envelope \<Rightarrow> (string, nat) result) \<Rightarrow> snapshot_cache \<Rightarrow> snapshot_cache_key \<Rightarrow> snapshot_envelope
   \<Rightarrow> timestamp option \<Rightarrow> snapshot_cache \<times> (snapshot_cache_error, unit) result" where
  "insert_with_expiry to_json c key envelope expires_at =
     (case validate_key key envelope of Inl e \<Rightarrow> (c, Err e) | Inr _ \<Rightarrow>
      case to_json envelope of Inl e \<Rightarrow> (c, Err (CE_Invalid e)) | Inr bytes \<Rightarrow>
      if bytes > sc_max_bytes c then (c, Err CE_TooLarge)
      else if km_get (sc_entries c) key = None \<and> cache_len c \<ge> sc_max_entries c then
        (c, Err CE_Full)
      else (store_clean c key envelope expires_at, Ok ()))"

definition insert_with_key ::
  "(snapshot_envelope \<Rightarrow> (string, nat) result) \<Rightarrow> snapshot_cache \<Rightarrow> snapshot_cache_key \<Rightarrow> snapshot_envelope
   \<Rightarrow> snapshot_cache \<times> (snapshot_cache_error, unit) result" where
  "insert_with_key to_json c key envelope = insert_with_expiry to_json c key envelope None"

definition cache_insert ::
  "(snapshot_envelope \<Rightarrow> (string, nat) result) \<Rightarrow> snapshot_cache \<Rightarrow> snapshot_envelope
   \<Rightarrow> snapshot_cache \<times> (snapshot_cache_error, unit) result" where
  "cache_insert to_json c envelope = insert_with_key to_json c (key_from_envelope envelope) envelope"

definition cancel_rebuild :: "snapshot_cache \<Rightarrow> snapshot_cache_key \<Rightarrow> snapshot_cache" where
  "cancel_rebuild c key =
     c\<lparr>sc_in_flight := km_remove key (sc_in_flight c),
       sc_revisions := km_insert key (saturating_next (revision_of c key)) (sc_revisions c)\<rparr>"

text \<open>The state record and the entry after a dirty mark.\<close>

definition dirtied_state :: "cache_dirty_reason \<Rightarrow> snapshot_cache_state \<Rightarrow> snapshot_cache_state" where
  "dirtied_state reason state =
     state\<lparr>cs_state := (if cs_state state = CA_Invalidated \<or> reason_state reason = CA_Invalidated
              then CA_Invalidated else CA_Stale),
           cs_dirty_reasons := (if reason \<in> set (cs_dirty_reasons state) then cs_dirty_reasons state
              else sort_key cache_dirty_rank (cs_dirty_reasons state @ [reason])),
           cs_revision := saturating_next (cs_revision state)\<rparr>"

definition dirtied_record ::
  "cache_dirty_reason \<Rightarrow> cache_state \<Rightarrow> snapshot_cache_record \<Rightarrow> snapshot_cache_record" where
  "dirtied_record reason next_state rec =
     rec\<lparr>cr_dirty := True,
         cr_envelope := (cr_envelope rec)\<lparr>sv_cache_state := next_state,
           sv_dirty_reasons := (if core_reason reason \<in> set (sv_dirty_reasons (cr_envelope rec))
             then sv_dirty_reasons (cr_envelope rec)
             else sv_dirty_reasons (cr_envelope rec) @ [core_reason reason])\<rparr>\<rparr>"

definition fresh_state :: "snapshot_cache_record \<Rightarrow> snapshot_cache_state" where
  "fresh_state rec = \<lparr>cs_state = CA_Fresh, cs_dirty_reasons = [], cs_expires_at = None,
     cs_last_validated_generation = cr_generation rec, cs_revision = 0\<rparr>"

definition mark_key_dirty :: "snapshot_cache \<Rightarrow> snapshot_cache_key \<Rightarrow> cache_dirty_reason \<Rightarrow> snapshot_cache" where
  "mark_key_dirty c key reason =
     (case km_get (sc_entries c) key of
       None \<Rightarrow> c
     | Some rec \<Rightarrow>
         (let state = (case km_get (sc_states c) key of None \<Rightarrow> fresh_state rec | Some state \<Rightarrow> state);
              state = dirtied_state reason state
          in cancel_rebuild
               (c\<lparr>sc_states := km_insert key state (sc_states c),
                  sc_entries := km_insert key (dirtied_record reason (cs_state state) rec) (sc_entries c),
                  sc_revisions := km_insert key (cs_revision state) (sc_revisions c)\<rparr>) key))"

definition keys_in_scope :: "'v keyed \<Rightarrow> opaque_id \<Rightarrow> opaque_id \<Rightarrow> snapshot_cache_key list" where
  "keys_in_scope m space_id page_id =
     filter (\<lambda>key. ck_space_id key = space_id \<and> ck_page_id key = page_id) (km_keys m)"

definition mark_dirty_with_reason ::
  "snapshot_cache \<Rightarrow> opaque_id \<Rightarrow> opaque_id \<Rightarrow> cache_dirty_reason \<Rightarrow> snapshot_cache \<times> bool" where
  "mark_dirty_with_reason c space_id page_id reason =
     (let keys = keys_in_scope (sc_entries c) space_id page_id
      in (foldl (\<lambda>c key. mark_key_dirty c key reason) c keys, keys \<noteq> []))"

definition mark_dirty :: "snapshot_cache \<Rightarrow> opaque_id \<Rightarrow> opaque_id \<Rightarrow> snapshot_cache \<times> bool" where
  "mark_dirty c space_id page_id = mark_dirty_with_reason c space_id page_id CD_Unknown"

definition mark_dirty_for_key ::
  "snapshot_cache \<Rightarrow> snapshot_cache_key \<Rightarrow> cache_dirty_reason \<Rightarrow> snapshot_cache \<times> bool" where
  "mark_dirty_for_key c key reason =
     (if km_get (sc_entries c) key = None then (c, False) else (mark_key_dirty c key reason, True))"

definition invalidate_with_reason ::
  "snapshot_cache \<Rightarrow> opaque_id \<Rightarrow> opaque_id \<Rightarrow> cache_dirty_reason \<Rightarrow> snapshot_cache \<times> bool" where
  "invalidate_with_reason c space_id page_id reason = mark_dirty_with_reason c space_id page_id reason"

definition invalidate_key_with_reason ::
  "snapshot_cache \<Rightarrow> snapshot_cache_key \<Rightarrow> cache_dirty_reason \<Rightarrow> snapshot_cache \<times> bool" where
  "invalidate_key_with_reason c key reason = mark_dirty_for_key c key reason"

definition invalidate_all_with_reason :: "snapshot_cache \<Rightarrow> cache_dirty_reason \<Rightarrow> snapshot_cache \<times> nat" where
  "invalidate_all_with_reason c reason =
     (let keys = km_keys (sc_entries c)
      in (foldl (\<lambda>c key. mark_key_dirty c key reason) c keys, length keys))"

definition remove_key :: "snapshot_cache \<Rightarrow> snapshot_cache_key \<Rightarrow> snapshot_cache \<times> bool" where
  "remove_key c key =
     (let removed = (km_get (sc_entries c) key \<noteq> None);
          entries = km_remove key (sc_entries c);
          legacy = (if bt_get (sc_legacy_index c) (page_key key) = Some key then
                      (case List.find (\<lambda>candidate. ck_space_id candidate = ck_space_id key
                                         \<and> ck_page_id candidate = ck_page_id key) (km_keys entries) of
                         None \<Rightarrow> bt_remove (page_key key) (sc_legacy_index c)
                       | Some replacement \<Rightarrow>
                           bt_insert (page_key key) replacement (bt_remove (page_key key) (sc_legacy_index c)))
                    else sc_legacy_index c)
      in (c\<lparr>sc_entries := entries, sc_states := km_remove key (sc_states c), sc_legacy_index := legacy,
            sc_revisions := km_insert key (saturating_next (revision_of c key)) (sc_revisions c)\<rparr>, removed))"

definition cancel_scope_rebuilds :: "snapshot_cache \<Rightarrow> opaque_id \<Rightarrow> opaque_id \<Rightarrow> snapshot_cache" where
  "cancel_scope_rebuilds c space_id page_id =
     foldl cancel_rebuild c (keys_in_scope (sc_in_flight c) space_id page_id)"

definition invalidate :: "snapshot_cache \<Rightarrow> opaque_id \<Rightarrow> opaque_id \<Rightarrow> snapshot_cache \<times> bool" where
  "invalidate c space_id page_id =
     (let keys = keys_in_scope (sc_entries c) space_id page_id
      in (cancel_scope_rebuilds (foldl (\<lambda>c key. fst (remove_key c key)) c keys) space_id page_id,
          keys \<noteq> []))"

definition invalidate_key :: "snapshot_cache \<Rightarrow> snapshot_cache_key \<Rightarrow> snapshot_cache \<times> bool" where
  "invalidate_key c key =
     (case remove_key c key of (c, removed) \<Rightarrow> (cancel_rebuild c key, removed))"

definition expire_if_needed :: "snapshot_cache \<Rightarrow> snapshot_cache_key \<Rightarrow> timestamp \<Rightarrow> snapshot_cache" where
  "expire_if_needed c key now =
     (if is_some_and (Option.bind (km_get (sc_states c) key) cs_expires_at) (\<lambda>expiry. expiry \<le> now)
      then mark_key_dirty c key CD_Expired else c)"

subsection \<open>Reads\<close>

definition is_clean :: "snapshot_cache \<Rightarrow> snapshot_cache_key \<Rightarrow> snapshot_cache_record \<Rightarrow> bool" where
  "is_clean c key rec \<longleftrightarrow>
     is_some_and (km_get (sc_states c) key) (\<lambda>state. cs_state state = CA_Fresh \<and> \<not> cr_dirty rec)"

definition get_with_key :: "snapshot_cache \<Rightarrow> snapshot_cache_key \<Rightarrow> cached_snapshot option" where
  "get_with_key c key =
     map_option (\<lambda>rec. \<lparr>cd_envelope = cr_envelope rec, cd_clean = is_clean c key rec\<rparr>) (km_get (sc_entries c) key)"

definition cache_get :: "snapshot_cache \<Rightarrow> opaque_id \<Rightarrow> opaque_id \<Rightarrow> cached_snapshot option" where
  "cache_get c space_id page_id =
     Option.bind (bt_get (sc_legacy_index c) (space_id, page_id)) (get_with_key c)"

definition cache_lookup :: "snapshot_cache \<Rightarrow> snapshot_cache_key \<Rightarrow> snapshot_cache_lookup option" where
  "cache_lookup c key =
     Option.bind (km_get (sc_entries c) key) (\<lambda>rec.
     map_option (\<lambda>state.
       \<lparr>lk_key = key, lk_envelope = cr_envelope rec, lk_state = cs_state state,
        lk_dirty_reasons = cs_dirty_reasons state, lk_expires_at = cs_expires_at state,
        lk_last_validated_generation = cs_last_validated_generation state,
        lk_clean = is_clean c key rec\<rparr>) (km_get (sc_states c) key))"

definition lookup_at ::
  "snapshot_cache \<Rightarrow> snapshot_cache_key \<Rightarrow> timestamp \<Rightarrow> snapshot_cache \<times> snapshot_cache_lookup option" where
  "lookup_at c key now = (let c = expire_if_needed c key now in (c, cache_lookup c key))"

definition get_clean_with_key :: "snapshot_cache \<Rightarrow> snapshot_cache_key \<Rightarrow> snapshot_envelope option" where
  "get_clean_with_key c key =
     Option.bind (km_get (sc_entries c) key) (\<lambda>rec.
       if \<not> is_clean c key rec then None else Some ((cr_envelope rec)\<lparr>sv_cache_state := CA_Cached\<rparr>))"

definition get_clean :: "snapshot_cache \<Rightarrow> opaque_id \<Rightarrow> opaque_id \<Rightarrow> snapshot_envelope option" where
  "get_clean c space_id page_id =
     Option.bind (bt_get (sc_legacy_index c) (space_id, page_id)) (get_clean_with_key c)"

definition get_clean_at ::
  "snapshot_cache \<Rightarrow> snapshot_cache_key \<Rightarrow> timestamp \<Rightarrow> snapshot_cache \<times> snapshot_envelope option" where
  "get_clean_at c key now = (let c = expire_if_needed c key now in (c, get_clean_with_key c key))"

definition key_state :: "snapshot_cache \<Rightarrow> snapshot_cache_key \<Rightarrow> cache_state option" where
  "key_state c key = map_option cs_state (km_get (sc_states c) key)"

definition key_dirty_reasons :: "snapshot_cache \<Rightarrow> snapshot_cache_key \<Rightarrow> cache_dirty_reason list option" where
  "key_dirty_reasons c key = map_option cs_dirty_reasons (km_get (sc_states c) key)"

subsection \<open>Rebuilds\<close>

definition begin_rebuild ::
  "snapshot_cache \<Rightarrow> snapshot_cache_key \<Rightarrow> snapshot_cache \<times> (snapshot_cache_error, snapshot_rebuild_token) result" where
  "begin_rebuild c key =
     (if km_get (sc_in_flight c) key \<noteq> None then (c, Err CE_RebuildInFlight)
      else
        (let id = sc_next_rebuild_id c
         in (c\<lparr>sc_next_rebuild_id := max (saturating_next id) 1,
               sc_in_flight := km_insert key id (sc_in_flight c)\<rparr>,
             Ok \<lparr>rt_key = key, rt_id = id, rt_revision = revision_of c key\<rparr>)))"

definition complete_rebuild ::
  "(snapshot_envelope \<Rightarrow> (string, nat) result) \<Rightarrow> snapshot_cache \<Rightarrow> snapshot_rebuild_token \<Rightarrow> snapshot_envelope
   \<Rightarrow> snapshot_cache \<times> (snapshot_cache_error, unit) result" where
  "complete_rebuild to_json c token envelope =
     (if km_get (sc_in_flight c) (rt_key token) \<noteq> Some (rt_id token)
         \<or> revision_of c (rt_key token) \<noteq> rt_revision token then (c, Err CE_StaleWriter)
      else
        insert_with_key to_json (c\<lparr>sc_in_flight := km_remove (rt_key token) (sc_in_flight c)\<rparr>) (rt_key token)
          envelope)"

definition abort_rebuild :: "snapshot_cache \<Rightarrow> snapshot_rebuild_token \<Rightarrow> snapshot_cache \<times> bool" where
  "abort_rebuild c token =
     (if km_get (sc_in_flight c) (rt_key token) = Some (rt_id token) then
        (c\<lparr>sc_in_flight := km_remove (rt_key token) (sc_in_flight c)\<rparr>, True)
      else (c, False))"

definition rebuild_in_flight :: "snapshot_cache \<Rightarrow> snapshot_cache_key \<Rightarrow> bool" where
  "rebuild_in_flight c key \<longleftrightarrow> km_get (sc_in_flight c) key \<noteq> None"

text \<open>The thread-safe wrapper: a guard is a token that has not been finished.\<close>

datatype rebuild_admission = RA_Leader snapshot_rebuild_token | RA_InFlight

definition try_begin_rebuild ::
  "snapshot_cache \<Rightarrow> snapshot_cache_key \<Rightarrow> snapshot_cache \<times> (snapshot_cache_error, rebuild_admission) result" where
  "try_begin_rebuild c key =
     (case begin_rebuild c key of
       (c, Inr token) \<Rightarrow> (c, Ok (RA_Leader token))
     | (c, Inl CE_RebuildInFlight) \<Rightarrow> (c, Ok RA_InFlight)
     | (c, Inl e) \<Rightarrow> (c, Err e))"

definition empty_snapshot :: "opaque_id \<Rightarrow> opaque_id \<Rightarrow> snapshot_envelope" where
  "empty_snapshot space_id page_id =
     (let hash = content_hash_from_bytes (utf8 (code_points ''[]'')) in
      \<lparr>sv_schema_version = 1, sv_space_id = space_id, sv_page_id = page_id, sv_snapshot_version = 1,
       sv_snapshot_hash = hash, sv_base_snapshot_version = None, sv_base_hash = None, sv_result_hash = hash,
       sv_delta_sequence = None, sv_topology_version = 1, sv_navigation_generation = 1,
       sv_document_generation = 1, sv_frame_versions = [], sv_changed = [],
       sv_delta_or_elements = SB_Elements [], sv_mode = SM_Full, sv_operation_count = 0, sv_coherent = True,
       sv_coverage = SC_Complete, sv_dirty_reasons = [], sv_cache_state = CA_Fresh, sv_resync_reason = None,
       sv_transport_bytes = 0, sv_utf8_bytes = 2, sv_serialized_tokens = 0, sv_model_context_tokens = 0,
       sv_tokenizer = None, sv_budget = None, sv_omitted = [], sv_truncated = False,
       sv_resync_required = False, sv_refs_epoch = 1\<rparr>)"

section \<open>Keyed maps\<close>

definition km_at :: "'v keyed \<Rightarrow> cache_rank \<Rightarrow> 'v option" where
  "km_at m r = map_option snd (bt_get m r)"

definition km_wf :: "'v keyed \<Rightarrow> bool" where
  "km_wf m \<longleftrightarrow> bt_wf m \<and> (\<forall>(r, (k, v)) \<in> set m. cache_key_rank k = r)"

lemma km_get_at: "km_get m k = km_at m (cache_key_rank k)"
  by (simp add: km_get_def km_at_def)

lemma km_wf_Nil [simp]: "km_wf []" "km_at [] r = None"
  by (simp_all add: km_wf_def km_at_def)

lemma km_at_insert: "km_wf m \<Longrightarrow> km_at (km_insert k v m) r = (if r = cache_key_rank k then Some v else km_at m r)"
  by (auto simp: km_at_def km_insert_def km_wf_def bt_get_insert split: option.splits)

lemma km_at_remove: "km_wf m \<Longrightarrow> km_at (km_remove k m) r = (if r = cache_key_rank k then None else km_at m r)"
  by (auto simp: km_at_def km_remove_def km_wf_def bt_get_remove)

lemma km_wf_rank: "km_wf m \<Longrightarrow> bt_get m r = Some (k, v) \<Longrightarrow> cache_key_rank k = r"
  by (auto simp: km_wf_def dest: bt_get_in)

lemma km_wf_put:
  assumes "km_wf m" "cache_key_rank j = r"
  shows "km_wf (bt_insert r (j, v) m)"
  using assms set_bt_insert_subset [of r "(j, v)" m] by (auto simp: km_wf_def bt_wf_insert)

lemma km_wf_insert:
  assumes "km_wf m"
  shows "km_wf (km_insert k v m)"
proof (cases "bt_get m (cache_key_rank k)")
  case None
  with km_wf_put [OF assms] show ?thesis by (simp add: km_insert_def)
next
  case (Some e)
  obtain j u where e: "e = (j, u)" by (cases e)
  have "cache_key_rank j = cache_key_rank k" by (rule km_wf_rank [OF assms]) (use Some e in simp)
  with km_wf_put [OF assms] Some e show ?thesis by (simp add: km_insert_def)
qed

lemma km_wf_remove: "km_wf m \<Longrightarrow> km_wf (km_remove k m)"
  using set_bt_remove_subset [of "cache_key_rank k" m]
  by (fastforce simp: km_wf_def km_remove_def bt_wf_remove)

lemma km_keys_ranks: "km_wf m \<Longrightarrow> map cache_key_rank (km_keys m) = map fst m"
  by (induction m) (auto simp: km_wf_def km_keys_def bt_values_def bt_wf_Cons)

lemma km_keys_distinct: "km_wf m \<Longrightarrow> distinct (map cache_key_rank (km_keys m))"
  by (simp add: km_keys_ranks) (simp add: km_wf_def bt_wf_def strict_sorted_iff)

lemma km_at_None: "km_at m r = None \<longleftrightarrow> r \<notin> set (map fst m)"
  by (simp add: km_at_def bt_get_None bt_keys_set)

lemma rank_scope: "cache_key_rank k = cache_key_rank j \<Longrightarrow> ck_space_id k = ck_space_id j \<and> ck_page_id k = ck_page_id j"
  by (simp add: cache_key_rank_def)

definition rank_in :: "opaque_id \<Rightarrow> opaque_id \<Rightarrow> cache_rank \<Rightarrow> bool" where
  "rank_in space_id page_id r \<longleftrightarrow> fst r = space_id \<and> fst (snd r) = page_id"

lemma rank_in_key [simp]: "rank_in sp pg (cache_key_rank k) \<longleftrightarrow> ck_space_id k = sp \<and> ck_page_id k = pg"
  by (simp add: rank_in_def cache_key_rank_def)

lemma keys_in_scope_ranks:
  assumes "km_wf m"
  shows "cache_key_rank ` set (keys_in_scope m sp pg) = {r. km_at m r \<noteq> None \<and> rank_in sp pg r}"
    and "distinct (map cache_key_rank (keys_in_scope m sp pg))"
proof -
  have s: "set (map fst m) = cache_key_rank ` set (km_keys m)"
    using km_keys_ranks [OF assms] by (metis set_map)
  show "cache_key_rank ` set (keys_in_scope m sp pg) = {r. km_at m r \<noteq> None \<and> rank_in sp pg r}"
    unfolding km_at_None s keys_in_scope_def by force
  show "distinct (map cache_key_rank (keys_in_scope m sp pg))"
    using km_keys_distinct [OF assms] by (simp add: keys_in_scope_def distinct_map_filter)
qed

lemma length_km_insert:
  "km_wf m \<Longrightarrow> length (km_insert k v m) = length m + (if km_get m k = None then 1 else 0)"
  by (simp add: km_insert_def km_wf_def km_get_def length_bt_insert)

section \<open>A cache is a family of slots\<close>

record slot =
  sl_entry :: "snapshot_cache_record option"
  sl_state :: "snapshot_cache_state option"
  sl_rev :: u64
  sl_flight :: "u64 option"

definition slot :: "snapshot_cache \<Rightarrow> cache_rank \<Rightarrow> slot" where
  "slot c r = \<lparr>sl_entry = km_at (sc_entries c) r, sl_state = km_at (sc_states c) r,
     sl_rev = (case km_at (sc_revisions c) r of None \<Rightarrow> 0 | Some n \<Rightarrow> n), sl_flight = km_at (sc_in_flight c) r\<rparr>"

definition slot_cancel :: "slot \<Rightarrow> slot" where
  "slot_cancel s = s\<lparr>sl_flight := None, sl_rev := saturating_next (sl_rev s)\<rparr>"

definition slot_mark :: "cache_dirty_reason \<Rightarrow> slot \<Rightarrow> slot" where
  "slot_mark reason s =
     (case sl_entry s of
       None \<Rightarrow> s
     | Some rec \<Rightarrow>
         (let state = dirtied_state reason (case sl_state s of None \<Rightarrow> fresh_state rec | Some st \<Rightarrow> st)
          in slot_cancel (s\<lparr>sl_state := Some state, sl_entry := Some (dirtied_record reason (cs_state state) rec),
               sl_rev := cs_revision state\<rparr>)))"

definition slot_store :: "page_generation \<Rightarrow> snapshot_envelope \<Rightarrow> timestamp option \<Rightarrow> slot \<Rightarrow> slot" where
  "slot_store generation envelope expires_at s =
     \<lparr>sl_entry = Some \<lparr>cr_envelope = envelope, cr_generation = generation, cr_dirty = False\<rparr>,
      sl_state = Some \<lparr>cs_state = CA_Fresh, cs_dirty_reasons = [], cs_expires_at = expires_at,
        cs_last_validated_generation = generation, cs_revision = saturating_next (sl_rev s)\<rparr>,
      sl_rev = saturating_next (sl_rev s), sl_flight = None\<rparr>"

definition slot_remove :: "slot \<Rightarrow> slot" where
  "slot_remove s = s\<lparr>sl_entry := None, sl_state := None, sl_rev := saturating_next (sl_rev s)\<rparr>"

definition cache_wf :: "snapshot_cache \<Rightarrow> bool" where
  "cache_wf c \<longleftrightarrow> km_wf (sc_entries c) \<and> km_wf (sc_states c) \<and> km_wf (sc_revisions c)
     \<and> km_wf (sc_in_flight c) \<and> bt_wf (sc_legacy_index c)"

lemma revision_slot: "revision_of c k = sl_rev (slot c (cache_key_rank k))"
  by (simp add: revision_of_def slot_def km_get_at)

lemma get_slot:
  "km_get (sc_entries c) k = sl_entry (slot c (cache_key_rank k))"
  "km_get (sc_states c) k = sl_state (slot c (cache_key_rank k))"
  "km_get (sc_in_flight c) k = sl_flight (slot c (cache_key_rank k))"
  by (simp_all add: slot_def km_get_at)

lemmas keyed_simps = km_at_insert km_at_remove km_wf_insert km_wf_remove bt_wf_insert bt_wf_remove

lemma slot_cancel_rebuild:
  "cache_wf c \<Longrightarrow> cache_wf (cancel_rebuild c k) \<and>
   slot (cancel_rebuild c k) r = (if r = cache_key_rank k then slot_cancel (slot c r) else slot c r)"
  by (simp add: cache_wf_def cancel_rebuild_def slot_def slot_cancel_def keyed_simps revision_of_def km_get_at)

lemma slot_mark_key_dirty:
  "cache_wf c \<Longrightarrow> cache_wf (mark_key_dirty c k reason) \<and>
   slot (mark_key_dirty c k reason) r = (if r = cache_key_rank k then slot_mark reason (slot c r) else slot c r)"
proof (cases "km_at (sc_entries c) (cache_key_rank k)")
  case None
  then show "cache_wf c \<Longrightarrow> ?thesis" by (simp add: mark_key_dirty_def km_get_at slot_mark_def slot_def)
next
  case (Some rec)
  assume w: "cache_wf c"
  let ?st = "dirtied_state reason (case km_at (sc_states c) (cache_key_rank k) of None \<Rightarrow> fresh_state rec | Some st \<Rightarrow> st)"
  let ?c = "c\<lparr>sc_states := km_insert k ?st (sc_states c),
      sc_entries := km_insert k (dirtied_record reason (cs_state ?st) rec) (sc_entries c),
      sc_revisions := km_insert k (cs_revision ?st) (sc_revisions c)\<rparr>"
  have w': "cache_wf ?c" using w by (simp add: cache_wf_def keyed_simps)
  have "slot ?c r = (if r = cache_key_rank k then (slot c r)\<lparr>sl_state := Some ?st,
      sl_entry := Some (dirtied_record reason (cs_state ?st) rec), sl_rev := cs_revision ?st\<rparr> else slot c r)"
    using w by (simp add: cache_wf_def slot_def keyed_simps)
  with slot_cancel_rebuild [OF w', of k r] Some show ?thesis
    by (auto simp: mark_key_dirty_def km_get_at slot_mark_def slot_def Let_def)
qed


lemma slot_store_clean:
  "cache_wf c \<Longrightarrow> cache_wf (store_clean c k e x) \<and>
   slot (store_clean c k e x) r = (if r = cache_key_rank k then slot_store (ck_generation k) e x (slot c r) else slot c r)"
  by (simp add: cache_wf_def store_clean_def slot_def slot_store_def keyed_simps Let_def revision_of_def km_get_at)

lemma slot_remove_key:
  "cache_wf c \<Longrightarrow> cache_wf (fst (remove_key c k)) \<and>
   slot (fst (remove_key c k)) r = (if r = cache_key_rank k then slot_remove (slot c r) else slot c r)"
  by (simp add: cache_wf_def remove_key_def slot_def slot_remove_def keyed_simps Let_def revision_of_def km_get_at
      split: option.splits)

text \<open>A loop over keys of pairwise different rank acts once on each of their slots.\<close>

lemma slot_loop:
  assumes f: "\<And>c k r. cache_wf c \<Longrightarrow> cache_wf (f c k) \<and>
      slot (f c k) r = (if r = cache_key_rank k then g (slot c r) else slot c r)"
    and "cache_wf c" "distinct (map cache_key_rank ks)"
  shows "cache_wf (foldl f c ks) \<and>
    slot (foldl f c ks) r = (if r \<in> cache_key_rank ` set ks then g (slot c r) else slot c r)"
  using assms(2,3)
proof (induction ks arbitrary: c)
  case Nil
  then show ?case by simp
next
  case (Cons k ks)
  from f [OF Cons.prems(1), of k r] Cons.IH [of "f c k"] Cons.prems f [OF Cons.prems(1), of k]
  show ?case by auto
qed

lemma slot_marks:
  "cache_wf c \<Longrightarrow> cache_wf (fst (mark_dirty_with_reason c sp pg reason)) \<and>
   slot (fst (mark_dirty_with_reason c sp pg reason)) r = (if rank_in sp pg r then slot_mark reason (slot c r) else slot c r)"
proof -
  assume w: "cache_wf c"
  then have e: "km_wf (sc_entries c)" by (simp add: cache_wf_def)
  have n: "slot_mark reason (slot c r) = slot c r" if "km_at (sc_entries c) r = None"
    using that by (simp add: slot_mark_def slot_def)
  from slot_loop [of "\<lambda>c k. mark_key_dirty c k reason" "slot_mark reason", OF slot_mark_key_dirty w
      keys_in_scope_ranks(2) [OF e, of sp pg], of r]
  show ?thesis using n by (auto simp: mark_dirty_with_reason_def Let_def keys_in_scope_ranks(1) [OF e])
qed

lemma slot_mark_all:
  "cache_wf c \<Longrightarrow> cache_wf (fst (invalidate_all_with_reason c reason)) \<and>
   slot (fst (invalidate_all_with_reason c reason)) r = slot_mark reason (slot c r)"
proof -
  assume w: "cache_wf c"
  then have e: "km_wf (sc_entries c)" by (simp add: cache_wf_def)
  have k: "cache_key_rank ` set (km_keys (sc_entries c)) = set (map fst (sc_entries c))"
    using km_keys_ranks [OF e] by (metis set_map)
  have n: "slot_mark reason (slot c r) = slot c r" if "km_at (sc_entries c) r = None"
    using that by (simp add: slot_mark_def slot_def)
  from slot_loop [of "\<lambda>c k. mark_key_dirty c k reason" "slot_mark reason", OF slot_mark_key_dirty w
      km_keys_distinct [OF e], of r]
  show ?thesis using n by (auto simp: invalidate_all_with_reason_def Let_def k km_at_None)
qed

text \<open>Invalidation of a page: the entries go, and so do the rebuilds in flight.\<close>

definition slot_invalidate :: "slot \<Rightarrow> slot" where
  "slot_invalidate s =
     (let s = (if sl_entry s = None then s else slot_remove s)
      in if sl_flight s = None then s else slot_cancel s)"

lemma slot_invalidate_page:
  "cache_wf c \<Longrightarrow> cache_wf (fst (invalidate c sp pg)) \<and>
   slot (fst (invalidate c sp pg)) r = (if rank_in sp pg r then slot_invalidate (slot c r) else slot c r)"
proof -
  assume w: "cache_wf c"
  then have e: "km_wf (sc_entries c)" by (simp add: cache_wf_def)
  let ?d = "foldl (\<lambda>c key. fst (remove_key c key)) c (keys_in_scope (sc_entries c) sp pg)"
  have d: "cache_wf ?d" "slot ?d r = (if rank_in sp pg r \<and> sl_entry (slot c r) \<noteq> None then slot_remove (slot c r) else slot c r)" for r
    using slot_loop [of "\<lambda>c k. fst (remove_key c k)" slot_remove, OF slot_remove_key w
      keys_in_scope_ranks(2) [OF e, of sp pg], of r]
    by (auto simp: keys_in_scope_ranks(1) [OF e] slot_def)
  have fl: "km_wf (sc_in_flight ?d)" using d(1) by (simp add: cache_wf_def)
  have "cache_wf (foldl cancel_rebuild ?d (keys_in_scope (sc_in_flight ?d) sp pg)) \<and>
    slot (foldl cancel_rebuild ?d (keys_in_scope (sc_in_flight ?d) sp pg)) r
      = (if rank_in sp pg r \<and> sl_flight (slot ?d r) \<noteq> None then slot_cancel (slot ?d r) else slot ?d r)"
    using slot_loop [of cancel_rebuild slot_cancel, OF slot_cancel_rebuild d(1)
      keys_in_scope_ranks(2) [OF fl, of sp pg], of r]
    by (auto simp: keys_in_scope_ranks(1) [OF fl] slot_def)
  then show ?thesis
    unfolding d(2) by (auto simp: invalidate_def cancel_scope_rebuilds_def slot_invalidate_def Let_def)
qed

lemma slot_invalidate_key:
  "cache_wf c \<Longrightarrow> cache_wf (fst (invalidate_key c k)) \<and>
   slot (fst (invalidate_key c k)) r = (if r = cache_key_rank k then slot_cancel (slot_remove (slot c r)) else slot c r)"
  using slot_remove_key [of c k r] slot_cancel_rebuild [of "fst (remove_key c k)" k r]
  by (cases "r = cache_key_rank k") (simp_all add: invalidate_key_def case_prod_beta)


section \<open>Operations on a cache\<close>

datatype cache_op =
    CO_Insert snapshot_cache_key snapshot_envelope "timestamp option"
  | CO_MarkPage opaque_id opaque_id cache_dirty_reason
  | CO_MarkKey snapshot_cache_key cache_dirty_reason
  | CO_MarkAll cache_dirty_reason
  | CO_Invalidate opaque_id opaque_id
  | CO_InvalidateKey snapshot_cache_key
  | CO_ReadAt snapshot_cache_key timestamp
  | CO_Begin snapshot_cache_key
  | CO_Complete snapshot_rebuild_token snapshot_envelope
  | CO_Abort snapshot_rebuild_token

fun cache_step ::
  "(snapshot_envelope \<Rightarrow> (string, nat) result) \<Rightarrow> snapshot_cache \<Rightarrow> cache_op \<Rightarrow> snapshot_cache" where
  "cache_step to_json c (CO_Insert k e x) = fst (insert_with_expiry to_json c k e x)"
| "cache_step to_json c (CO_MarkPage sp pg reason) = fst (mark_dirty_with_reason c sp pg reason)"
| "cache_step to_json c (CO_MarkKey k reason) = fst (mark_dirty_for_key c k reason)"
| "cache_step to_json c (CO_MarkAll reason) = fst (invalidate_all_with_reason c reason)"
| "cache_step to_json c (CO_Invalidate sp pg) = fst (invalidate c sp pg)"
| "cache_step to_json c (CO_InvalidateKey k) = fst (invalidate_key c k)"
| "cache_step to_json c (CO_ReadAt k now) = fst (get_clean_at c k now)"
| "cache_step to_json c (CO_Begin k) = fst (begin_rebuild c k)"
| "cache_step to_json c (CO_Complete t e) = fst (complete_rebuild to_json c t e)"
| "cache_step to_json c (CO_Abort t) = fst (abort_rebuild c t)"

inductive slot_moves :: "slot \<Rightarrow> slot \<Rightarrow> bool" where
  stays: "slot_moves s (s\<lparr>sl_flight := fl\<rparr>)"
| marked: "slot_moves s (slot_mark reason s)"
| stored: "snapshot_validate e = Inr () \<Longrightarrow> slot_moves s (slot_store g e x s)"
| emptied: "slot_moves s (slot_invalidate s)"
| removed: "slot_moves s (slot_cancel (slot_remove s))"

lemma slot_unmoved: "slot_moves s s"
  using stays [of s "sl_flight s"] by simp

lemma release_slot:
  "cache_wf c \<Longrightarrow> cache_wf (c\<lparr>sc_in_flight := km_remove k (sc_in_flight c)\<rparr>) \<and>
   slot (c\<lparr>sc_in_flight := km_remove k (sc_in_flight c)\<rparr>) r
     = (if r = cache_key_rank k then (slot c r)\<lparr>sl_flight := None\<rparr> else slot c r)"
  by (simp add: cache_wf_def slot_def keyed_simps)

lemma validate_key_Ok: "validate_key k e = Inr () \<Longrightarrow> snapshot_validate e = Inr ()"
  by (auto simp: validate_key_def Let_def split: if_splits sum.splits)

lemma insert_cases:
  "insert_with_expiry to_json c k e x = (store_clean c k e x, Inr ()) \<and> validate_key k e = Inr ()
     \<and> (km_get (sc_entries c) k = None \<longrightarrow> cache_len c < sc_max_entries c)
   \<or> (\<exists>err. insert_with_expiry to_json c k e x = (c, Inl err))"
  by (auto simp: insert_with_expiry_def not_le split: sum.splits)

lemma store_moves:
  assumes "cache_wf c" "validate_key k e = Inr ()"
  shows "cache_wf (store_clean c k e x) \<and> slot_moves (slot c r) (slot (store_clean c k e x) r)"
  using slot_store_clean [OF assms(1), of k e x r] stored [OF validate_key_Ok [OF assms(2)]] slot_unmoved
  by (cases "r = cache_key_rank k") simp_all

lemma insert_moves:
  assumes "cache_wf c"
  shows "cache_wf (fst (insert_with_expiry to_json c k e x)) \<and> slot_moves (slot c r) (slot (fst (insert_with_expiry to_json c k e x)) r)"
  using insert_cases [of to_json c k e x] store_moves [OF assms, of k e x r] assms slot_unmoved by auto

lemma slot_store_flight [simp]: "slot_store g e x (s\<lparr>sl_flight := fl\<rparr>) = slot_store g e x s"
  by (simp add: slot_store_def)

lemma expire_moves:
  assumes "cache_wf c"
  shows "cache_wf (expire_if_needed c k now) \<and> slot_moves (slot c r) (slot (expire_if_needed c k now) r)"
  using slot_mark_key_dirty [OF assms, of k CD_Expired r] assms
  by (auto simp: expire_if_needed_def intro: slot_unmoved marked split: if_splits)

lemma flight_same: "\<exists>fl. s = s\<lparr>sl_flight := fl\<rparr>" for s :: slot
  by (rule exI [of _ "sl_flight s"]) simp

lemma flight_if: "\<exists>fl. (if b then s\<lparr>sl_flight := f\<rparr> else s) = s\<lparr>sl_flight := fl\<rparr>" for s :: slot
  using flight_same [of s] by auto

lemma begin_keeps:
  assumes "cache_wf c"
  shows "cache_wf (fst (begin_rebuild c k)) \<and> (\<exists>fl. slot (fst (begin_rebuild c k)) r = (slot c r)\<lparr>sl_flight := fl\<rparr>)"
proof (cases "km_get (sc_in_flight c) k")
  case None
  have "slot (fst (begin_rebuild c k)) r =
      (if r = cache_key_rank k then (slot c r)\<lparr>sl_flight := Some (sc_next_rebuild_id c)\<rparr> else slot c r)"
    "cache_wf (fst (begin_rebuild c k))"
    using assms None by (simp_all add: begin_rebuild_def Let_def slot_def cache_wf_def keyed_simps)
  then show ?thesis by (simp add: flight_if)
next
  case (Some n)
  then show ?thesis using assms flight_same by (simp add: begin_rebuild_def)
qed

lemma abort_keeps:
  assumes "cache_wf c"
  shows "cache_wf (fst (abort_rebuild c t)) \<and> (\<exists>fl. slot (fst (abort_rebuild c t)) r = (slot c r)\<lparr>sl_flight := fl\<rparr>)"
  using release_slot [OF assms, of "rt_key t" r] assms flight_same [of "slot c r"]
  by (simp add: abort_rebuild_def flight_if)

lemma complete_cases:
  assumes "cache_wf c"
  shows "complete_rebuild to_json c t e
      = (store_clean (c\<lparr>sc_in_flight := km_remove (rt_key t) (sc_in_flight c)\<rparr>) (rt_key t) e None, Inr ())
      \<and> validate_key (rt_key t) e = Inr () \<and> km_get (sc_in_flight c) (rt_key t) = Some (rt_id t)
      \<and> revision_of c (rt_key t) = rt_revision t
    \<or> (\<exists>err c'. complete_rebuild to_json c t e = (c', Inl err) \<and> cache_wf c'
        \<and> (\<forall>r. \<exists>fl. slot c' r = (slot c r)\<lparr>sl_flight := fl\<rparr>))"
proof -
  let ?c = "c\<lparr>sc_in_flight := km_remove (rt_key t) (sc_in_flight c)\<rparr>"
  have rel: "cache_wf ?c \<and> (\<exists>fl. slot ?c r = (slot c r)\<lparr>sl_flight := fl\<rparr>)" for r
    using release_slot [OF assms, of "rt_key t" r] by (simp add: flight_if)
  have same: "\<exists>fl. slot c r = (slot c r)\<lparr>sl_flight := fl\<rparr>" for r by (rule flight_same)
  show ?thesis
  proof (cases "km_get (sc_in_flight c) (rt_key t) = Some (rt_id t) \<and> revision_of c (rt_key t) = rt_revision t")
    case True
    then have "complete_rebuild to_json c t e = insert_with_expiry to_json ?c (rt_key t) e None"
      by (simp add: complete_rebuild_def insert_with_key_def)
    with insert_cases [of to_json ?c "rt_key t" e None]
    consider "complete_rebuild to_json c t e = (store_clean ?c (rt_key t) e None, Inr ())" "validate_key (rt_key t) e = Inr ()"
      | err where "complete_rebuild to_json c t e = (?c, Inl err)"
      by metis
    then show ?thesis
    proof cases
      case 1
      with True show ?thesis by simp
    next
      case 2
      with rel show ?thesis by blast
    qed
  next
    case False
    then have "complete_rebuild to_json c t e = (c, Inl CE_StaleWriter)" by (auto simp: complete_rebuild_def)
    then show ?thesis using same assms by blast
  qed
qed

lemma complete_moves:
  assumes "cache_wf c"
  shows "cache_wf (fst (complete_rebuild to_json c t e)) \<and> slot_moves (slot c r) (slot (fst (complete_rebuild to_json c t e)) r)"
proof -
  let ?c = "c\<lparr>sc_in_flight := km_remove (rt_key t) (sc_in_flight c)\<rparr>"
  have w: "cache_wf ?c" and s: "slot ?c r = (if r = cache_key_rank (rt_key t) then (slot c r)\<lparr>sl_flight := None\<rparr> else slot c r)"
    using release_slot [OF assms] by blast+
  have st: "cache_wf (store_clean ?c (rt_key t) e None) \<and> slot_moves (slot c r) (slot (store_clean ?c (rt_key t) e None) r)"
    if "validate_key (rt_key t) e = Inr ()"
    using slot_store_clean [OF w, of "rt_key t" e None r] s stored [OF validate_key_Ok [OF that], of "slot c r"] slot_unmoved
    by (cases "r = cache_key_rank (rt_key t)") simp_all
  show ?thesis
    using complete_cases [OF assms, of to_json t e] st stays by (metis fst_conv)
qed

lemma step_moves:
  assumes "cache_wf c"
  shows "cache_wf (cache_step to_json c op) \<and> slot_moves (slot c r) (slot (cache_step to_json c op) r)"
proof (cases op)
  case (CO_Insert k e x)
  then show ?thesis using insert_moves [OF assms] by simp
next
  case (CO_MarkPage sp pg reason)
  then show ?thesis using slot_marks [OF assms, of sp pg reason r] by (auto intro: slot_unmoved marked)
next
  case (CO_MarkKey k reason)
  then show ?thesis using slot_mark_key_dirty [OF assms, of k reason r] assms
    by (auto simp: mark_dirty_for_key_def intro: slot_unmoved marked)
next
  case (CO_MarkAll reason)
  then show ?thesis using slot_mark_all [OF assms, of reason r] by (auto intro: marked)
next
  case (CO_Invalidate sp pg)
  then show ?thesis using slot_invalidate_page [OF assms, of sp pg r] by (auto intro: slot_unmoved emptied)
next
  case (CO_InvalidateKey k)
  then show ?thesis using slot_invalidate_key [OF assms, of k r] by (auto intro: slot_unmoved removed)
next
  case (CO_ReadAt k now)
  then show ?thesis using expire_moves [OF assms] by (simp add: get_clean_at_def Let_def)
next
  case (CO_Begin k)
  then show ?thesis using begin_keeps [OF assms, of k r] stays by (metis cache_step.simps(8))
next
  case (CO_Complete t e)
  then show ?thesis using complete_moves [OF assms] by simp
next
  case (CO_Abort t)
  then show ?thesis using abort_keeps [OF assms, of t r] stays by (metis cache_step.simps(10))
qed


section \<open>The invariant of a slot\<close>

definition slot_inv :: "slot \<Rightarrow> bool" where
  "slot_inv s \<longleftrightarrow>
     (case (sl_entry s, sl_state s) of
       (None, None) \<Rightarrow> True
     | (Some rec, Some st) \<Rightarrow>
         (cr_dirty rec \<longleftrightarrow> cs_state st \<noteq> CA_Fresh) \<and> cs_state st \<noteq> CA_Cached
         \<and> snapshot_validate (cr_envelope rec) = Inr ()
         \<and> cs_revision st \<le> sl_rev s \<and> unat (sl_rev s) \<le> Suc (unat (cs_revision st))
     | _ \<Rightarrow> False)"

lemma saturating_next_eq: "unat (saturating_next v) = (if unat v = 2 ^ 64 - 1 then unat v else Suc (unat v))"
proof (cases "checked_next v")
  case None
  with checked_next_None [of v] show ?thesis by (simp add: saturating_next_def)
next
  case (Some n)
  with checked_next_Some [of v n] unat_u64_less [of n] show ?thesis by (simp add: saturating_next_def)
qed

lemma saturating_next_ge: "v \<le> saturating_next v" "unat (saturating_next v) \<le> Suc (unat v)"
  by (auto simp: word_le_nat_alt saturating_next_eq)

lemma validate_ignores_cache_fields:
  fixes e a b
  defines "f \<equiv> e\<lparr>sv_cache_state := a, sv_dirty_reasons := b\<rparr>"
  shows "snapshot_validate f = snapshot_validate e"
proof -
  have p: "envelope_provenance f = envelope_provenance e" by (simp add: f_def envelope_provenance_def)
  have sel: "sv_schema_version f = sv_schema_version e" "sv_frame_versions f = sv_frame_versions e" "sv_changed f = sv_changed e"
    "sv_omitted f = sv_omitted e" "sv_tokenizer f = sv_tokenizer e" "sv_truncated f = sv_truncated e"
    "sv_coverage f = sv_coverage e" "sv_snapshot_version f = sv_snapshot_version e" "sv_base_snapshot_version f = sv_base_snapshot_version e"
    "sv_base_hash f = sv_base_hash e" "sv_delta_sequence f = sv_delta_sequence e" "sv_resync_reason f = sv_resync_reason e"
    "sv_operation_count f = sv_operation_count e" "sv_resync_required f = sv_resync_required e" "sv_snapshot_hash f = sv_snapshot_hash e"
    "sv_result_hash f = sv_result_hash e" "sv_mode f = sv_mode e" "sv_delta_or_elements f = sv_delta_or_elements e"
    "sv_coherent f = sv_coherent e"
    by (simp_all add: f_def)
  have b: "validate_envelope_bounds f = validate_envelope_bounds e"
    unfolding validate_envelope_bounds_def p sel ..
  have "validate_elements_body f es = validate_elements_body e es" for es
    unfolding validate_elements_body_def sel ..
  moreover have "validate_delta_body f d = validate_delta_body e d" for d
    unfolding validate_delta_body_def sel ..
  moreover have "validate_resync_body f r = validate_resync_body e r" for r
    unfolding validate_resync_body_def sel ..
  ultimately have v: "validate_body f = validate_body e"
    unfolding validate_body_def sel by presburger
  have "can_issue_refs f = can_issue_refs e" unfolding can_issue_refs_def p sel ..
  then show ?thesis unfolding snapshot_validate_def b v sel by presburger
qed

lemma slot_inv_None: "slot_inv s \<Longrightarrow> sl_entry s = None \<longleftrightarrow> sl_state s = None"
  by (auto simp: slot_inv_def split: option.splits prod.splits)

lemma moves_inv: "slot_moves s s' \<Longrightarrow> slot_inv s \<Longrightarrow> slot_inv s'"
proof (induction rule: slot_moves.induct)
  case (marked s reason)
  then show ?case
    by (auto simp: slot_inv_def slot_mark_def slot_cancel_def Let_def dirtied_state_def dirtied_record_def
      saturating_next_ge validate_ignores_cache_fields split: option.splits)
next
  case (stored e s g x)
  then show ?case by (simp add: slot_inv_def slot_store_def)
next
  case (emptied s)
  then show ?case
    using slot_inv_None [of s] by (auto simp: slot_inv_def slot_invalidate_def slot_remove_def slot_cancel_def Let_def)
qed (auto simp: slot_inv_def slot_cancel_def slot_remove_def split: option.splits)

text \<open>A write, a mark or an invalidation shows in the revision.\<close>

definition rev_le :: "nat \<Rightarrow> slot \<Rightarrow> slot \<Rightarrow> bool" where
  "rev_le n s s' \<longleftrightarrow> unat (sl_rev s) \<le> unat (sl_rev s') \<and> unat (sl_rev s') \<le> unat (sl_rev s) + n
     \<and> (sl_rev s' = sl_rev s \<longrightarrow> sl_entry s' = sl_entry s \<and> sl_state s' = sl_state s)"

lemma moves_rev:
  "slot_moves s s' \<Longrightarrow> slot_inv s \<Longrightarrow> unat (sl_rev s) + 2 < 2 ^ 64 \<Longrightarrow> rev_le 2 s s'"
proof (induction rule: slot_moves.induct)
  case (stays s fl)
  then show ?case by (simp add: rev_le_def)
next
  case (marked s reason)
  show ?case
  proof (cases "sl_entry s")
    case None
    then show ?thesis by (simp add: slot_mark_def rev_le_def)
  next
    case (Some rec)
    with marked obtain st where st: "sl_state s = Some st" "cs_revision st \<le> sl_rev s"
      "unat (sl_rev s) \<le> Suc (unat (cs_revision st))"
      by (auto simp: slot_inv_def split: option.splits)
    have "unat (sl_rev (slot_mark reason s)) = unat (cs_revision st) + 2"
      using Some st marked.prems(2)
      by (simp add: slot_mark_def slot_cancel_def Let_def dirtied_state_def saturating_next_eq word_le_nat_alt)
    with st show ?thesis by (auto simp: rev_le_def word_le_nat_alt)
  qed
next
  case (stored e s g x)
  then have "unat (sl_rev (slot_store g e x s)) = Suc (unat (sl_rev s))"
    by (simp add: slot_store_def saturating_next_eq)
  then show ?case by (auto simp: rev_le_def)
next
  case (emptied s)
  then show ?case
    by (auto simp: rev_le_def slot_invalidate_def slot_remove_def slot_cancel_def Let_def saturating_next_eq
      dest: arg_cong [where f = unat])
next
  case (removed s)
  then show ?case
    by (auto simp: rev_le_def slot_remove_def slot_cancel_def saturating_next_eq dest: arg_cong [where f = unat])
qed


section \<open>Runs\<close>

text \<open>Every operation keeps the bounds, and only a write adds an entry.\<close>

definition no_growth :: "snapshot_cache \<Rightarrow> snapshot_cache \<Rightarrow> bool" where
  "no_growth c c' \<longleftrightarrow> length (sc_entries c') \<le> length (sc_entries c)
     \<and> sc_max_entries c' = sc_max_entries c"

lemma no_growth_refl [simp]: "no_growth c c"
  by (simp add: no_growth_def)

lemma no_growth_trans: "no_growth a b \<Longrightarrow> no_growth b c \<Longrightarrow> no_growth a c"
  by (simp add: no_growth_def)

lemma cancel_no_growth: "no_growth c (cancel_rebuild c k)"
  by (simp add: no_growth_def cancel_rebuild_def)

lemma mark_no_growth: "cache_wf c \<Longrightarrow> no_growth c (mark_key_dirty c k reason)"
  by (auto simp: no_growth_def mark_key_dirty_def Let_def cancel_rebuild_def length_km_insert cache_wf_def
      split: option.splits)

lemma remove_no_growth: "no_growth c (fst (remove_key c k))"
  by (simp add: no_growth_def remove_key_def Let_def km_remove_def length_bt_remove_le)

lemma loop_no_growth:
  assumes "\<And>c k. cache_wf c \<Longrightarrow> cache_wf (f c k) \<and> no_growth c (f c k)" "cache_wf c"
  shows "cache_wf (foldl f c ks) \<and> no_growth c (foldl f c ks)"
  using assms(2)
proof (induction ks arbitrary: c)
  case (Cons k ks)
  have "cache_wf (f c k)" "no_growth c (f c k)" using assms(1) [OF Cons.prems] by auto
  with Cons.IH [of "f c k"] show ?case by (auto intro: no_growth_trans)
qed simp

lemmas keeps_bounds =
  conjI [OF conjunct1 [OF slot_mark_key_dirty] mark_no_growth]
  conjI [OF conjunct1 [OF slot_remove_key] remove_no_growth]
  conjI [OF conjunct1 [OF slot_cancel_rebuild] cancel_no_growth]

lemma insert_growth:
  assumes "cache_wf c" "length (sc_entries c) \<le> sc_max_entries c"
  shows "length (sc_entries (fst (insert_with_expiry to_json c k e x))) \<le> sc_max_entries c
    \<and> sc_max_entries (fst (insert_with_expiry to_json c k e x)) = sc_max_entries c"
  using insert_cases [of to_json c k e x] assms
  by (auto simp: store_clean_def Let_def length_km_insert cache_wf_def cache_len_def)

lemma step_bound:
  assumes "cache_wf c" "length (sc_entries c) \<le> sc_max_entries c"
  shows "length (sc_entries (cache_step to_json c op)) \<le> sc_max_entries (cache_step to_json c op)
    \<and> sc_max_entries (cache_step to_json c op) = sc_max_entries c"
proof -
  have "no_growth c (cache_step to_json c op) \<or> (\<exists>k e x. op = CO_Insert k e x) \<or> (\<exists>t e. op = CO_Complete t e)"
  proof (cases op)
    case (CO_MarkPage sp pg reason)
    then show ?thesis using loop_no_growth [of "\<lambda>c k. mark_key_dirty c k reason", OF keeps_bounds(1) assms(1)]
      by (simp add: mark_dirty_with_reason_def Let_def)
  next
    case (CO_MarkKey k reason)
    then show ?thesis using mark_no_growth [OF assms(1)] by (simp add: mark_dirty_for_key_def)
  next
    case (CO_MarkAll reason)
    then show ?thesis using loop_no_growth [of "\<lambda>c k. mark_key_dirty c k reason", OF keeps_bounds(1) assms(1)]
      by (simp add: invalidate_all_with_reason_def Let_def)
  next
    case (CO_Invalidate sp pg)
    let ?d = "foldl (\<lambda>c key. fst (remove_key c key)) c (keys_in_scope (sc_entries c) sp pg)"
    have d: "cache_wf ?d \<and> no_growth c ?d" by (rule loop_no_growth [OF keeps_bounds(2) assms(1)])
    have "no_growth ?d (cancel_scope_rebuilds ?d sp pg)"
      unfolding cancel_scope_rebuilds_def using loop_no_growth [of cancel_rebuild, OF keeps_bounds(3)] d by blast
    with d CO_Invalidate show ?thesis by (auto simp: invalidate_def Let_def intro: no_growth_trans)
  next
    case (CO_InvalidateKey k)
    then show ?thesis using no_growth_trans [OF remove_no_growth cancel_no_growth]
      by (simp add: invalidate_key_def case_prod_beta)
  next
    case (CO_ReadAt k now)
    then show ?thesis using mark_no_growth [OF assms(1)] by (simp add: get_clean_at_def expire_if_needed_def Let_def)
  next
    case (CO_Begin k)
    then show ?thesis by (simp add: begin_rebuild_def no_growth_def Let_def)
  next
    case (CO_Abort t)
    then show ?thesis by (simp add: abort_rebuild_def no_growth_def)
  qed simp_all
  then show ?thesis
  proof (elim disjE exE)
    fix t e assume op: "op = CO_Complete t e"
    let ?c = "c\<lparr>sc_in_flight := km_remove (rt_key t) (sc_in_flight c)\<rparr>"
    have w: "cache_wf ?c" using release_slot [OF assms(1)] by blast
    have l: "length (sc_entries ?c) \<le> sc_max_entries ?c" "sc_max_entries ?c = sc_max_entries c"
      using assms(2) by simp_all
    have "fst (complete_rebuild to_json c t e) = c
        \<or> fst (complete_rebuild to_json c t e) = fst (insert_with_expiry to_json ?c (rt_key t) e None)"
      by (simp add: complete_rebuild_def insert_with_key_def)
    then show ?thesis
      using insert_growth [OF w l(1), of to_json "rt_key t" e None] l(2) assms(2) op by (metis cache_step.simps(9))
  next
    fix k e x assume "op = CO_Insert k e x"
    then show ?thesis using insert_growth [OF assms, of to_json k e x] by simp
  next
    assume "no_growth c (cache_step to_json c op)"
    then show ?thesis using assms(2) by (simp add: no_growth_def)
  qed
qed

definition cache_inv :: "snapshot_cache \<Rightarrow> bool" where
  "cache_inv c \<longleftrightarrow> cache_wf c \<and> (\<forall>r. slot_inv (slot c r)) \<and> length (sc_entries c) \<le> sc_max_entries c"

lemma cache_new_inv: "cache_inv (cache_new n b)"
  by (simp add: cache_inv_def cache_new_def cache_wf_def slot_def slot_inv_def)

lemma step_inv: "cache_inv c \<Longrightarrow> cache_inv (cache_step to_json c op)"
  using step_moves [of c to_json op] moves_inv step_bound [of c to_json op] unfolding cache_inv_def by metis

interpretation cache: preserved "cache_step to_json" cache_inv for to_json
  by unfold_locales (rule step_inv)

lemma run_rev:
  assumes "cache_inv c" "unat (sl_rev (slot c r)) + 2 * length ops < 2 ^ 64"
  shows "rev_le (2 * length ops) (slot c r) (slot (foldl (cache_step to_json) c ops) r)"
  using assms
proof (induction ops arbitrary: c)
  case Nil
  then show ?case by (simp add: rev_le_def)
next
  case (Cons op ops)
  let ?d = "cache_step to_json c op"
  have w: "cache_wf c" "slot_inv (slot c r)" using Cons.prems(1) unfolding cache_inv_def by blast+
  have m: "rev_le 2 (slot c r) (slot ?d r)"
    using moves_rev [OF conjunct2 [OF step_moves [OF w(1)]] w(2)] Cons.prems(2) by simp
  then have "unat (sl_rev (slot ?d r)) + 2 * length ops < 2 ^ 64" using Cons.prems(2) by (simp add: rev_le_def)
  from Cons.IH [OF step_inv [OF Cons.prems(1)] this] m show ?case
    by (auto simp: rev_le_def word_unat_eq_iff)
qed


text \<open>The index by page points only at keys of that page.\<close>

definition legacy_ok :: "snapshot_cache \<Rightarrow> bool" where
  "legacy_ok c \<longleftrightarrow> (\<forall>(p, key) \<in> set (sc_legacy_index c). page_key key = p)"

lemma legacy_loop: "(\<And>c k. sc_legacy_index (f c k) = sc_legacy_index c) \<Longrightarrow> sc_legacy_index (foldl f c ks) = sc_legacy_index c"
  by (induction ks arbitrary: c) auto

lemma legacy_unmoved [simp]:
  "sc_legacy_index (cancel_rebuild c k) = sc_legacy_index c" "sc_legacy_index (mark_key_dirty c k reason) = sc_legacy_index c"
  "sc_legacy_index (cancel_scope_rebuilds c sp pg) = sc_legacy_index c"
  by (auto simp: cancel_rebuild_def mark_key_dirty_def cancel_scope_rebuilds_def Let_def intro!: legacy_loop split: option.split)

lemma legacy_ok_cong: "sc_legacy_index c' = sc_legacy_index c \<Longrightarrow> legacy_ok c \<Longrightarrow> legacy_ok c'"
  by (simp add: legacy_ok_def)

lemma legacy_ok_remove: "legacy_ok c \<Longrightarrow> legacy_ok (fst (remove_key c k))"
  using set_bt_remove_subset [of "page_key k" "sc_legacy_index c"]
    set_bt_insert_subset [of "page_key k" _ "bt_remove (page_key k) (sc_legacy_index c)"]
  by (fastforce simp: legacy_ok_def remove_key_def Let_def page_key_def find_Some_iff split: option.splits)

lemma legacy_ok_removes: "legacy_ok c \<Longrightarrow> legacy_ok (foldl (\<lambda>c key. fst (remove_key c key)) c ks)"
  by (induction ks arbitrary: c) (auto simp: legacy_ok_remove)

lemma legacy_ok_store: "legacy_ok c \<Longrightarrow> legacy_ok (store_clean c k e x)"
  using set_bt_insert_subset [of "page_key k" k "sc_legacy_index c"]
  by (fastforce simp: legacy_ok_def store_clean_def Let_def)

lemma legacy_ok_insert: "legacy_ok c \<Longrightarrow> legacy_ok (fst (insert_with_expiry to_json c k e x))"
  by (auto simp: insert_with_expiry_def legacy_ok_store split: sum.split)

lemma legacy_step: "legacy_ok c \<Longrightarrow> legacy_ok (cache_step to_json c op)"
proof (cases op)
  case (CO_Complete t e)
  assume ok: "legacy_ok c"
  then have "legacy_ok (c\<lparr>sc_in_flight := km_remove (rt_key t) (sc_in_flight c)\<rparr>)" by (simp add: legacy_ok_def)
  then show ?thesis using ok CO_Complete by (simp add: complete_rebuild_def insert_with_key_def legacy_ok_insert)
qed (auto simp: legacy_ok_insert mark_dirty_with_reason_def mark_dirty_for_key_def invalidate_all_with_reason_def Let_def
      invalidate_def invalidate_key_def legacy_ok_removes legacy_ok_remove get_clean_at_def expire_if_needed_def
      begin_rebuild_def abort_rebuild_def split_beta intro: legacy_ok_cong legacy_ok_cong [OF legacy_loop] legacy_ok_cong [OF legacy_unmoved(1)]
        legacy_ok_cong [OF legacy_unmoved(3)])

interpretation legacy: preserved "cache_step to_json" legacy_ok for to_json
  by unfold_locales (rule legacy_step)

lemma legacy_ok_new: "legacy_ok (cache_new n b)"
  by (simp add: legacy_ok_def cache_new_def)

lemma get_clean_scope:
  assumes "legacy_ok c" "\<And>key. page_key key = (sp, pg) \<Longrightarrow> get_clean_with_key c key = None"
  shows "get_clean c sp pg = None"
proof (cases "bt_get (sc_legacy_index c) (sp, pg)")
  case (Some key)
  then have "page_key key = (sp, pg)" using assms(1) by (auto simp: legacy_ok_def dest: bt_get_in)
  with Some assms(2) show ?thesis by (simp add: get_clean_def)
qed (simp add: get_clean_def)

text \<open>What a clean read returns, as a function of the slot.\<close>

definition slot_clean :: "slot \<Rightarrow> snapshot_envelope option" where
  "slot_clean s = (case (sl_entry s, sl_state s) of
     (Some rec, Some st) \<Rightarrow> if cs_state st = CA_Fresh \<and> \<not> cr_dirty rec
       then Some ((cr_envelope rec)\<lparr>sv_cache_state := CA_Cached\<rparr>) else None
   | _ \<Rightarrow> None)"

lemma get_clean_slot: "get_clean_with_key c k = slot_clean (slot c (cache_key_rank k))"
  by (auto simp: get_clean_with_key_def is_clean_def get_slot slot_clean_def split: option.splits)

lemma slot_clean_simps [simp]:
  "slot_clean (slot_store g e x s) = Some (e\<lparr>sv_cache_state := CA_Cached\<rparr>)"
  "slot_clean (slot_remove s) = None" "slot_clean (slot_cancel s) = slot_clean s"
  "slot_clean (s\<lparr>sl_flight := fl\<rparr>) = slot_clean s"
  by (simp_all add: slot_clean_def slot_store_def slot_remove_def slot_cancel_def)

lemma slot_clean_mark: "slot_inv s \<Longrightarrow> slot_clean (slot_mark reason s) = None"
  by (auto simp: slot_clean_def slot_mark_def slot_cancel_def slot_inv_def Let_def dirtied_state_def split: option.splits)

lemma slot_clean_invalidate: "slot_inv s \<Longrightarrow> slot_clean (slot_invalidate s) = None"
  using slot_inv_None [of s]
  by (auto simp: slot_invalidate_def Let_def) (auto simp: slot_clean_def split: option.splits)

text \<open>The specification of clean reads: the map from keys to the envelope last written.\<close>

fun clean_after :: "cache_op \<Rightarrow> bool \<Rightarrow> snapshot_cache_key \<Rightarrow> snapshot_envelope option \<Rightarrow> snapshot_envelope option" where
  "clean_after (CO_Insert k e x) done key old =
     (if done \<and> cache_key_rank key = cache_key_rank k then Some (e\<lparr>sv_cache_state := CA_Cached\<rparr>) else old)"
| "clean_after (CO_Complete t e) done key old =
     (if done \<and> cache_key_rank key = cache_key_rank (rt_key t) then Some (e\<lparr>sv_cache_state := CA_Cached\<rparr>) else old)"
| "clean_after (CO_MarkPage sp pg reason) done key old =
     (if ck_space_id key = sp \<and> ck_page_id key = pg then None else old)"
| "clean_after (CO_MarkKey k reason) done key old = (if cache_key_rank key = cache_key_rank k then None else old)"
| "clean_after (CO_MarkAll reason) done key old = None"
| "clean_after (CO_Invalidate sp pg) done key old =
     (if ck_space_id key = sp \<and> ck_page_id key = pg then None else old)"
| "clean_after (CO_InvalidateKey k) done key old = (if cache_key_rank key = cache_key_rank k then None else old)"
| "clean_after (CO_ReadAt k now) done key old = (if done \<and> cache_key_rank key = cache_key_rank k then None else old)"
| "clean_after _ done key old = old"

text \<open>Whether a write was accepted, and whether a timed read found the entry expired.\<close>

fun cache_done :: "(snapshot_envelope \<Rightarrow> (string, nat) result) \<Rightarrow> snapshot_cache \<Rightarrow> cache_op \<Rightarrow> bool" where
  "cache_done to_json c (CO_Insert k e x) \<longleftrightarrow> \<not> isl (snd (insert_with_expiry to_json c k e x))"
| "cache_done to_json c (CO_Complete t e) \<longleftrightarrow> \<not> isl (snd (complete_rebuild to_json c t e))"
| "cache_done to_json c (CO_ReadAt k now) \<longleftrightarrow>
     is_some_and (cache_lookup c k) (\<lambda>l. is_some_and (lk_expires_at l) (\<lambda>expiry. expiry \<le> now))"
| "cache_done to_json c _ \<longleftrightarrow> True"

lemma expire_clean:
  assumes "cache_inv c"
  shows "slot_clean (slot (expire_if_needed c k now) r) =
    (if cache_done to_json c (CO_ReadAt k now) \<and> r = cache_key_rank k then None else slot_clean (slot c r))"
proof -
  have w: "cache_wf c" and i: "slot_inv (slot c r)" using assms unfolding cache_inv_def by blast+
  have "is_some_and (Option.bind (km_get (sc_states c) k) cs_expires_at) (\<lambda>expiry. expiry \<le> now)
      \<longleftrightarrow> cache_done to_json c (CO_ReadAt k now)" if "r = cache_key_rank k"
    using slot_inv_None [OF i] that
    by (auto simp: cache_lookup_def get_slot is_some_and_iff split: Option.bind_splits option.splits)
  then show ?thesis
    using slot_mark_key_dirty [OF w, of k CD_Expired r] slot_clean_mark [OF i]
    by (auto simp: expire_if_needed_def)
qed

lemma clean_step:
  assumes "cache_inv c"
  shows "slot_clean (slot (cache_step to_json c op) (cache_key_rank key))
     = clean_after op (cache_done to_json c op) key (slot_clean (slot c (cache_key_rank key)))"
proof -
  let ?r = "cache_key_rank key"
  have w: "cache_wf c" and i: "slot_inv (slot c ?r)" using assms unfolding cache_inv_def by blast+
  show ?thesis
  proof (cases op)
    case (CO_Insert k e x)
    then show ?thesis using insert_cases [of to_json c k e x] slot_store_clean [OF w, of k e x ?r] by auto
  next
    case (CO_MarkPage sp pg reason)
    then show ?thesis using slot_marks [OF w, of sp pg reason ?r] slot_clean_mark [OF i] by simp
  next
    case (CO_MarkKey k reason)
    have "slot_clean (slot c ?r) = None" if "km_get (sc_entries c) k = None" "?r = cache_key_rank k"
      using that by (simp add: get_slot slot_clean_def)
    then show ?thesis
      using CO_MarkKey slot_mark_key_dirty [OF w, of k reason ?r] slot_clean_mark [OF i]
      by (cases "?r = cache_key_rank k") (simp_all add: mark_dirty_for_key_def)
  next
    case (CO_MarkAll reason)
    then show ?thesis using slot_mark_all [OF w, of reason ?r] slot_clean_mark [OF i] by simp
  next
    case (CO_Invalidate sp pg)
    then show ?thesis using slot_invalidate_page [OF w, of sp pg ?r] slot_clean_invalidate [OF i] by simp
  next
    case (CO_InvalidateKey k)
    then show ?thesis using slot_invalidate_key [OF w, of k ?r] by simp
  next
    case (CO_ReadAt k now)
    then show ?thesis using expire_clean [OF assms, of k now ?r to_json] by (simp add: get_clean_at_def Let_def)
  next
    case (CO_Begin k)
    then show ?thesis using begin_keeps [OF w, of k ?r] by auto
  next
    case (CO_Complete t e)
    let ?c = "c\<lparr>sc_in_flight := km_remove (rt_key t) (sc_in_flight c)\<rparr>"
    have "cache_wf ?c" and "slot_clean (slot ?c ?r) = slot_clean (slot c ?r)" using release_slot [OF w, of "rt_key t"] by auto
    then have "slot_clean (slot (store_clean ?c (rt_key t) e None) ?r)
        = (if ?r = cache_key_rank (rt_key t) then Some (e\<lparr>sv_cache_state := CA_Cached\<rparr>) else slot_clean (slot c ?r))"
      using slot_store_clean [of ?c "rt_key t" e None ?r] by simp
    then show ?thesis using complete_cases [OF w, of to_json t e] CO_Complete
      by (elim disjE conjE exE) (simp, metis clean_after.simps(2) cache_done.simps(2) cache_step.simps(9) fst_conv isl_def
        sum.collapse(1) snd_conv slot_clean_simps(4))
  next
    case (CO_Abort t)
    then show ?thesis using abort_keeps [OF w, of t ?r] by auto
  qed
qed

text \<open>
  C33: a clean read returns what was last written and nothing that was made dirty since. In any
  state that a new cache reaches, each operation changes the clean read of a key as follows: an
  accepted insertion or rebuild under the key makes it that envelope, marked as cached; a dirty
  mark or an invalidation of its page, of the key or of everything, and a read after its expiry,
  make it nothing; every other operation leaves it.
\<close>

theorem clean_reads_refine:
  "(let c = foldl (cache_step to_json) (cache_new max_entries max_bytes) ops
    in get_clean_with_key (cache_step to_json c op) key
       = clean_after op (cache_done to_json c op) key (get_clean_with_key c key))"
  unfolding get_clean_slot Let_def by (rule clean_step [OF cache.run_inv [OF cache_new_inv]])

text \<open>
  C28: a rebuild commits only onto the state it started from. When a rebuild that was begun in a
  reachable state completes after any other operations (too few to exhaust the 64-bit revision
  counter), the entry and the state of its key are those at the beginning; from then on the new
  envelope is read clean and the key has no rebuild in flight.
\<close>

theorem rebuild_commits_current:
  assumes c: "c = foldl (cache_step to_json) (cache_new max_entries max_bytes) before"
    and b: "begin_rebuild c key = (c1, Inr token)"
    and c2: "c2 = foldl (cache_step to_json) c1 between"
    and n: "unat (revision_of c key) + 2 * length between < 2 ^ 64"
    and ok: "complete_rebuild to_json c2 token envelope = (c3, Inr ())"
  shows "cache_lookup c2 key = cache_lookup c key
    \<and> get_clean_with_key c3 key = Some (envelope\<lparr>sv_cache_state := CA_Cached\<rparr>)
    \<and> \<not> rebuild_in_flight c3 key"
proof -
  let ?r = "cache_key_rank key"
  have inv: "cache_inv c" unfolding c by (rule cache.run_inv [OF cache_new_inv])
  then have w: "cache_wf c" unfolding cache_inv_def by blast
  have tok: "rt_key token = key" "rt_revision token = revision_of c key" and c1: "c1 = cache_step to_json c (CO_Begin key)"
    using b by (auto simp: begin_rebuild_def Let_def split: if_splits)
  have i1: "cache_inv c1" unfolding c1 by (rule step_inv [OF inv])
  obtain fl where s1: "slot c1 ?r = (slot c ?r)\<lparr>sl_flight := fl\<rparr>" using begin_keeps [OF w, of key ?r] c1 by auto
  have "unat (sl_rev (slot c1 ?r)) + 2 * length between < 2 ^ 64" using n s1 by (simp add: revision_slot)
  from run_rev [OF i1 this, of to_json] have rev: "rev_le (2 * length between) (slot c1 ?r) (slot c2 ?r)" by (simp add: c2)
  have i2: "cache_inv c2" unfolding c2 by (rule cache.run_inv [OF i1])
  then have w2: "cache_wf c2" unfolding cache_inv_def by blast
  let ?d = "c2\<lparr>sc_in_flight := km_remove key (sc_in_flight c2)\<rparr>"
  have c3: "c3 = store_clean ?d key envelope None" and r2: "revision_of c2 key = revision_of c key"
    using complete_cases [OF w2, of to_json token envelope] ok tok by auto
  have "cache_wf ?d" using release_slot [OF w2] by blast
  then have s3: "slot c3 ?r = slot_store (ck_generation key) envelope None (slot ?d ?r)"
    unfolding c3 using slot_store_clean [of ?d key envelope None ?r] by simp
  have "sl_rev (slot c2 ?r) = sl_rev (slot c1 ?r)" using r2 s1 by (simp add: revision_slot)
  with rev s1 have "sl_entry (slot c2 ?r) = sl_entry (slot c ?r)" "sl_state (slot c2 ?r) = sl_state (slot c ?r)"
    by (auto simp: rev_le_def)
  then have "cache_lookup c2 key = cache_lookup c key" by (simp add: cache_lookup_def get_slot is_clean_def)
  moreover have "get_clean_with_key c3 key = Some (envelope\<lparr>sv_cache_state := CA_Cached\<rparr>)"
    by (simp add: get_clean_slot s3)
  moreover have "\<not> rebuild_in_flight c3 key" by (simp add: rebuild_in_flight_def get_slot s3 slot_store_def)
  ultimately show ?thesis by blast
qed

text \<open>
  the cache is bounded and consistent. In any state that a new cache reaches it holds at most
  the configured number of entries, every retained envelope validates, a lookup reports an entry
  as clean exactly when its state is fresh, and lookups and keyed reads agree.
\<close>

theorem cache_bounded:
  fixes to_json max_entries max_bytes ops
  defines "c \<equiv> foldl (cache_step to_json) (cache_new max_entries max_bytes) ops"
  shows "cache_len c \<le> max_entries
    \<and> (case cache_lookup c key of
        None \<Rightarrow> get_with_key c key = None \<and> key_state c key = None
      | Some l \<Rightarrow> snapshot_validate (lk_envelope l) = Inr () \<and> (lk_clean l \<longleftrightarrow> lk_state l = CA_Fresh)
          \<and> get_with_key c key = Some \<lparr>cd_envelope = lk_envelope l, cd_clean = lk_clean l\<rparr>)"
proof -
  have inv: "cache_inv c" unfolding c_def by (rule cache.run_inv [OF cache_new_inv])
  have m: "sc_max_entries (foldl (cache_step to_json) d ops) = sc_max_entries d" if "cache_inv d" for d ops
    using that
  proof (induction ops arbitrary: d)
    case (Cons op ops)
    have "sc_max_entries (cache_step to_json d op) = sc_max_entries d"
      using step_bound [of d to_json op] Cons.prems unfolding cache_inv_def by blast
    then show ?case using Cons.IH [OF step_inv [OF Cons.prems]] by simp
  qed simp
  have "sc_max_entries c = max_entries" unfolding c_def m [OF cache_new_inv] by (simp add: cache_new_def)
  moreover have "slot_inv (slot c (cache_key_rank key))" using inv unfolding cache_inv_def by blast
  ultimately show ?thesis
    using inv by (auto simp: cache_inv_def cache_len_def cache_lookup_def get_with_key_def key_state_def get_slot
      is_clean_def slot_inv_def split: option.splits)
qed


section \<open>Instances\<close>

lemma empty_snapshot_valid: "snapshot_validate (empty_snapshot space_id page_id) = Inr ()"
proof -
  have d: "document_new 1 [] = Inr \<lparr>sd_snapshot_version = 1, sd_elements = [],
      sd_snapshot_hash = content_hash_from_bytes (utf8 (code_points ''[]''))\<rparr>"
    by (simp add: document_new_Ok hash_elements_def canonical_elements_def code_points_def)
  show ?thesis
    by (simp add: snapshot_validate_def validate_envelope_bounds_def validate_body_def validate_elements_body_def
      empty_snapshot_def Let_def SNAPSHOT_SCHEMA_VERSION_def provenance_validate_def envelope_provenance_def
      validate_canonical_keys_def can_issue_refs_def d)
qed

definition demo_snapshot :: snapshot_envelope where
  "demo_snapshot = empty_snapshot ''space_1'' ''page_1''"

definition demo_key :: snapshot_cache_key where
  "demo_key = key_from_envelope demo_snapshot"

definition demo_size :: "snapshot_envelope \<Rightarrow> (string, nat) result" where
  "demo_size e = Inr 2"

lemma demo_key_valid: "validate_key demo_key demo_snapshot = Inr ()"
  using empty_snapshot_valid [of "''space_1''" "''page_1''"]
  by (simp add: validate_key_def demo_key_def demo_snapshot_def key_from_envelope_def Let_def)

lemma rebuild_commits_current_witness:
  "\<exists>c1 token c3. begin_rebuild (cache_new 2 100) demo_key = (c1, Inr token)
     \<and> complete_rebuild demo_size c1 token demo_snapshot = (c3, Inr ())
     \<and> get_clean_with_key c3 demo_key = Some (demo_snapshot\<lparr>sv_cache_state := CA_Cached\<rparr>)"
proof -
  obtain c1 token where b: "begin_rebuild (cache_new 2 100) demo_key = (c1, Inr token)"
    by (simp add: begin_rebuild_def cache_new_def km_get_def Let_def)
  have t: "token = \<lparr>rt_key = demo_key, rt_id = 1, rt_revision = 0\<rparr>"
    "c1 = (cache_new 2 100)\<lparr>sc_next_rebuild_id := max (saturating_next 1) 1, sc_in_flight := km_insert demo_key 1 []\<rparr>"
    using b by (auto simp: begin_rebuild_def cache_new_def km_get_def Let_def revision_of_def)
  have n: "unat (revision_of (cache_new 2 100) demo_key) = 0" by (simp add: cache_new_def revision_of_def km_get_def)
  obtain c3 where c3: "complete_rebuild demo_size c1 token demo_snapshot = (c3, Inr ())"
    by (simp add: complete_rebuild_def t km_get_def km_insert_def revision_of_def cache_new_def insert_with_key_def
      insert_with_expiry_def demo_key_valid demo_size_def cache_len_def)
  from rebuild_commits_current [of "cache_new 2 100" demo_size 2 100 "[]" demo_key c1 token c1 "[]" demo_snapshot c3]
    b c3 n show ?thesis by simp
qed

text \<open>
  two budgets that are different but ordered as equal break the page index. After
  invalidating a key through its twin with an empty budget in place of none, the page-level read
  finds nothing although another variant of the page is cached; invalidating the key itself lets
  the read fall back to that variant.
\<close>

theorem empty_budget_breaks_page_index:
  "(let old = demo_key\<lparr>ck_snapshot_version := 0\<rparr>;
        twin = demo_key\<lparr>ck_budget := Some \<lparr>tb_serialized_limit = None, tb_model_context_limit = None\<rparr>\<rparr>;
        c = fst (insert_with_key demo_size (fst (insert_with_key demo_size (cache_new 2 100) old demo_snapshot))
              demo_key demo_snapshot)
    in cache_key_rank twin = cache_key_rank demo_key
       \<and> get_with_key (fst (invalidate_key c twin)) old \<noteq> None
       \<and> cache_get (fst (invalidate_key c twin)) ''space_1'' ''page_1'' = None
       \<and> cache_get (fst (invalidate_key c demo_key)) ''space_1'' ''page_1'' \<noteq> None)"
proof -
  have v: "validate_key (demo_key\<lparr>ck_snapshot_version := 0\<rparr>) demo_snapshot = Inr ()"
    using empty_snapshot_valid [of "''space_1''" "''page_1''"]
    by (simp add: validate_key_def demo_key_def demo_snapshot_def key_from_envelope_def Let_def)
  show ?thesis
    using v demo_key_valid
    by (simp add: insert_with_key_def insert_with_expiry_def demo_size_def cache_len_def km_get_def cache_new_def Let_def
      store_clean_def km_insert_def km_remove_def km_keys_def bt_values_def invalidate_key_def remove_key_def cancel_rebuild_def
      cache_get_def get_with_key_def page_key_def revision_of_def cache_key_rank_def demo_key_def key_from_envelope_def
      demo_snapshot_def empty_snapshot_def budget_key_def)
qed

end
