(* ===== verification/Ledger.thy ===== *)
theory Ledger
  imports Snapshot_Cache Events Host_Errors
begin

text \<open>
  The durable ledger of the host (\<^verbatim>\<open>crates/agentyc-host/src/ledger.rs\<close>): the logical state the
  broker owns, the validator that every replacement passes, the transactional update, and the
  recovery of a loaded state after a restart. Printing JSON is the \<^verbatim>\<open>serde_json\<close> library's: the
  bytes and lengths it produces are the functions of a \<open>json_writer\<close> argument. The outcomes of
  operating system calls are the fields of a \<open>ledger_io\<close> argument.
\<close>

section \<open>Data\<close>

type_synonym payload = "(utext, utext) btree"

type_synonym ledger_request = "payload action_request"

type_synonym ledger_event = "payload event_record"

definition LEDGER_SCHEMA_VERSION :: u16 where
  "LEDGER_SCHEMA_VERSION = 2"

record ledger_limits =
  ll_max_spaces :: nat
  ll_max_pages_per_space :: nat
  ll_max_actions :: nat
  ll_max_queued_actions_per_space :: nat
  ll_max_events :: nat
  ll_max_snapshots :: nat
  ll_max_ledger_bytes :: nat
  ll_max_snapshot_bytes :: nat

definition ledger_limits_default :: ledger_limits where
  "ledger_limits_default =
     \<lparr>ll_max_spaces = 67, ll_max_pages_per_space = 128, ll_max_actions = 4096,
      ll_max_queued_actions_per_space = 256, ll_max_events = 4096, ll_max_snapshots = 512,
      ll_max_ledger_bytes = 8 * 1024 * 1024, ll_max_snapshot_bytes = 2 * 1024 * 1024\<rparr>"

datatype fence_purpose = FP_Takeover | FP_ReturnControl

record pending_fence_record =
  pf_space_id :: opaque_id
  pf_broker_epoch :: broker_epoch
  pf_request_token :: opaque_id
  pf_old_epoch :: "lease_epoch option"
  pf_fence_epoch :: lease_epoch
  pf_principal_id :: opaque_id
  pf_purpose :: fence_purpose

record takeover_proof_record =
  tp_space_id :: opaque_id
  tp_broker_epoch :: broker_epoch
  tp_previous_epoch :: lease_epoch
  tp_current_epoch :: lease_epoch
  tp_principal_id :: opaque_id
  tp_request_token :: opaque_id

record control_ticket_record =
  ct_space_id :: opaque_id
  ct_broker_epoch :: broker_epoch
  ct_fence_epoch :: lease_epoch
  ct_token :: opaque_id

record active_connection =
  ac_principal_id :: opaque_id
  ac_connection_nonce :: opaque_id
  ac_profile_binding_id :: "opaque_id option"
  ac_is_extension :: bool

record ledger_state =
  lg_schema_version :: u16
  lg_broker_epoch :: broker_epoch
  lg_connection_epoch :: connection_epoch
  lg_active_connections :: "(connection_epoch, active_connection) btree"
  lg_used_connection_nonces :: "opaque_id set"
  lg_connection_principal_id :: "opaque_id option"
  lg_connection_nonce :: "opaque_id option"
  lg_connection_profile_binding_id :: "opaque_id option"
  lg_lease_holders :: "(opaque_id, connection_epoch) btree"
  lg_next_space_number :: u64
  lg_next_page_number :: u64
  lg_event_sequence :: event_sequence
  lg_spaces :: "(opaque_id, space_descriptor) btree"
  lg_actions :: "(opaque_id, action_receipt) btree"
  lg_action_requests :: "(opaque_id, ledger_request) btree"
  lg_idempotency :: "(opaque_id, opaque_id) btree"
  lg_action_queues :: "(opaque_id, opaque_id list) btree"
  lg_events :: "ledger_event list"
  lg_snapshots :: "(opaque_id, (opaque_id, snapshot_cache_record) btree) btree"
  lg_control_tickets :: "(opaque_id, control_ticket_record) btree"
  lg_pending_fences :: "(opaque_id, pending_fence_record) btree"
  lg_takeover_proofs :: "(opaque_id, takeover_proof_record list) btree"
  lg_profile_bindings :: "(opaque_id, opaque_id) btree"
  lg_extension_profile_binding_id :: "opaque_id option"
  lg_extension_worker_instance_epoch :: "u64 option"
  lg_extension_browser_session_epoch :: "u64 option"
  lg_space_generations :: "(opaque_id, generation) btree"

definition ledger_state_new :: "broker_epoch \<Rightarrow> ledger_state" where
  "ledger_state_new broker_epoch =
     \<lparr>lg_schema_version = LEDGER_SCHEMA_VERSION, lg_broker_epoch = broker_epoch,
      lg_connection_epoch = 0, lg_active_connections = [], lg_used_connection_nonces = {},
      lg_connection_principal_id = None, lg_connection_nonce = None,
      lg_connection_profile_binding_id = None, lg_lease_holders = [], lg_next_space_number = 0,
      lg_next_page_number = 0, lg_event_sequence = 0, lg_spaces = [], lg_actions = [],
      lg_action_requests = [], lg_idempotency = [], lg_action_queues = [], lg_events = [],
      lg_snapshots = [], lg_control_tickets = [], lg_pending_fences = [], lg_takeover_proofs = [],
      lg_profile_bindings = [], lg_extension_profile_binding_id = None,
      lg_extension_worker_instance_epoch = None, lg_extension_browser_session_epoch = None,
      lg_space_generations = []\<rparr>"

text \<open>
  The tuple that \<^verbatim>\<open>canonical_action_hash\<close> serializes, and the results of the JSON library: the
  bytes of such a tuple, the lengths of an envelope and of a state, compact and pretty.
\<close>

type_synonym action_context =
  "opaque_id \<times> opaque_id \<times> opaque_id \<times> opaque_id \<times> opaque_id option \<times> lease_epoch
   \<times> action_operation \<times> payload \<times> postcondition option"

record json_writer =
  jw_context :: "action_context \<Rightarrow> (string, u8 list) result"
  jw_envelope :: "snapshot_envelope \<Rightarrow> (string, nat) result"
  jw_state :: "ledger_state \<Rightarrow> (string, nat) result"
  jw_state_pretty :: "ledger_state \<Rightarrow> (string, nat) result"

fun serialized :: "(string, 'a) result \<Rightarrow> (ledger_error, 'a) result" where
  "serialized (Inl e) = Err (LE_Serialization e)"
| "serialized (Inr a) = Ok a"

section \<open>Validation\<close>

definition validate_bounded_text :: "utext \<Rightarrow> nat \<Rightarrow> string \<Rightarrow> (ledger_error, unit) result" where
  "validate_bounded_text value max_bytes field =
     reject_if (byte_len value > max_bytes \<or> list_ex is_control value)
       (LE_Corrupt (field @ '' is out of bounds''))"

definition lifecycle_matches_lease ::
  "ledger_state \<Rightarrow> opaque_id \<Rightarrow> space_descriptor \<Rightarrow> bool" where
  "lifecycle_matches_lease state space_id space =
     (let lease = s_lease space;
          owner_matches = is_none_or lease (\<lambda>l. l_principal_id l = s_owner space)
      in case s_lifecycle space of
        SL_Created \<Rightarrow> lease = None
      | SL_AgentOwned \<Rightarrow> is_some_and lease (\<lambda>l. l_state l = LS_Active) \<and> owner_matches
      | SL_Recovering \<Rightarrow> is_some_and lease (\<lambda>l. l_state l = LS_Active) \<and> owner_matches
      | SL_FencePending \<Rightarrow> is_some_and lease (\<lambda>l. l_state l \<in> {LS_Active, LS_Fenced}) \<and> owner_matches
      | SL_FenceDispatched \<Rightarrow> is_some_and lease (\<lambda>l. l_state l \<in> {LS_Active, LS_Fenced}) \<and> owner_matches
      | SL_FenceAcknowledged \<Rightarrow> is_some_and lease (\<lambda>l. l_state l \<in> {LS_Active, LS_Fenced}) \<and> owner_matches
      | SL_UserOwned \<Rightarrow> is_some_and lease (\<lambda>l. l_state l = LS_Released)
          \<and> bt_contains (lg_control_tickets state) space_id
      | SL_Orphaned \<Rightarrow> is_some_and lease (\<lambda>l. l_state l \<in> {LS_Fenced, LS_Expired, LS_Released})
      | SL_Released \<Rightarrow> is_none_or lease (\<lambda>l. l_state l \<in> {LS_Released, LS_Fenced, LS_Expired})
      | SL_Finished \<Rightarrow> is_none_or lease (\<lambda>l. l_state l \<in> {LS_Released, LS_Fenced, LS_Expired})
      | SL_Paused \<Rightarrow> is_none_or lease (\<lambda>l. l_state l \<in> {LS_Released, LS_Fenced, LS_Expired})
      | SL_HandoffRequested \<Rightarrow> is_some lease
      | SL_Draining \<Rightarrow> is_some lease)"

definition validate_space_lifecycle ::
  "ledger_state \<Rightarrow> opaque_id \<Rightarrow> space_descriptor \<Rightarrow> (ledger_error, unit) result" where
  "validate_space_lifecycle state space_id space =
     (if \<not> lifecycle_matches_lease state space_id space then
        Err (LE_Corrupt (''invalid lifecycle/lease combination for '' @ space_id))
      else reject_if (s_profile_binding space = PF_Revoked \<and> s_lifecycle space = SL_AgentOwned)
        (LE_Corrupt ''revoked profile owns an active space''))"

definition page_lifecycle_consistent :: "page_descriptor \<Rightarrow> bool" where
  "page_lifecycle_consistent page =
     (case p_lifecycle page of
        PL_Planned \<Rightarrow> p_binding page = PB_Unbound \<and> p_ownership page = PO_Agent
      | PL_Managed \<Rightarrow> admits_agent_mutations page
      | PL_Closing \<Rightarrow> p_ownership page = PO_Agent \<and> p_binding page = PB_Bound
      | PL_TargetLost \<Rightarrow> p_binding page = PB_Lost
      | PL_Rebinding \<Rightarrow> True
      | PL_Adoptable \<Rightarrow> True
      | PL_Unknown \<Rightarrow> True
      | PL_UserOwned \<Rightarrow> p_binding page = PB_UserOwned \<and> p_ownership page = PO_User
      | PL_Closed \<Rightarrow> p_binding page = PB_Closed \<and> p_ownership page = PO_Broker
      | PL_Retired \<Rightarrow> p_binding page = PB_Closed
      | PL_Creating \<Rightarrow> True
      | PL_Unmanaged \<Rightarrow> True)"

definition validate_page_lifecycle :: "page_descriptor \<Rightarrow> (ledger_error, unit) result" where
  "validate_page_lifecycle page =
     (if page_lifecycle_consistent page then Ok ()
      else Err (LE_Corrupt ''invalid page lifecycle combination''))"

definition ledger_action_hash :: "json_writer \<Rightarrow> ledger_request \<Rightarrow> (ledger_error, content_hash) result" where
  "ledger_action_hash js q =
     and_then (serialized (jw_context js
       (aq_request_id q, aq_action_id q, aq_idempotency_key q, aq_space_id q, aq_page_id q,
        aq_lease_epoch q, aq_operation q, aq_payload q, aq_postcondition q)))
     (\<lambda>bytes. Ok (content_hash_from_bytes bytes))"

text \<open>Both branches of the source accept: authorization is checked before persistence.\<close>

definition validate_action_payload_contract ::
  "action_operation \<Rightarrow> payload \<Rightarrow> (ledger_error, unit) result" where
  "validate_action_payload_contract operation payload = Ok ()"

definition is_ascii_alphanumeric :: "nat \<Rightarrow> bool" where
  "is_ascii_alphanumeric c \<longleftrightarrow> 48 \<le> c \<and> c \<le> 57 \<or> 65 \<le> c \<and> c \<le> 90 \<or> 97 \<le> c \<and> c \<le> 122"

definition code_point_lowercase :: "nat \<Rightarrow> nat" where
  "code_point_lowercase c = (if 65 \<le> c \<and> c \<le> 90 then c + 32 else c)"

fun contains_text :: "utext \<Rightarrow> utext \<Rightarrow> bool" where
  "contains_text [] p \<longleftrightarrow> p = []"
| "contains_text (c # cs) p \<longleftrightarrow> take (length p) (c # cs) = p \<or> contains_text cs p"

definition normalized_payload_key :: "utext \<Rightarrow> utext" where
  "normalized_payload_key key = map code_point_lowercase (filter is_ascii_alphanumeric key)"

definition raw_browser_identity :: "utext \<Rightarrow> bool" where
  "raw_browser_identity normalized \<longleftrightarrow>
     normalized \<in> code_points ` {''targetid'', ''sessionid'', ''tabid'', ''debuggerid'', ''browserid'',
        ''windowid'', ''connectionid'', ''chromeid'', ''rawid''}
     \<or> contains_text normalized (code_points ''target'') \<and> contains_text normalized (code_points ''id'')"

definition validate_public_payload_shape :: "payload \<Rightarrow> nat \<Rightarrow> (ledger_error, unit) result" where
  "validate_public_payload_shape payload max_value_bytes =
     try_each (\<lambda>(key, value). checks
       [reject_if (key = [] \<or> byte_len key > 128 \<or> byte_len value > max_value_bytes)
          (LE_Corrupt ''public payload is out of bounds''),
        reject_if (raw_browser_identity (normalized_payload_key key))
          (LE_Corrupt ''public payload contains a raw browser identity field'')]) payload"

definition is_mutating_action :: "action_operation \<Rightarrow> bool" where
  "is_mutating_action operation \<longleftrightarrow> operation \<notin> {OP_Wait, OP_Screenshot}"

text \<open>
  The body of \<^verbatim>\<open>validate_state_with_limits\<close>, one definition per loop. The loops over the pages of all
  spaces, over the queues and over the receipts carry the identities met so far.
\<close>

definition validate_counts :: "ledger_limits \<Rightarrow> ledger_state \<Rightarrow> (ledger_error, unit) result" where
  "validate_counts limits state = checks
     [reject_if (lg_schema_version state \<noteq> LEDGER_SCHEMA_VERSION)
        (LE_Incompatible (''expected schema '' @ show_nat (unat LEDGER_SCHEMA_VERSION)
          @ '', got '' @ show_nat (unat (lg_schema_version state)))),
      reject_if (length (lg_spaces state) > ll_max_spaces limits) (LE_BoundExceeded ''space count''),
      reject_if (length (lg_actions state) > ll_max_actions limits) (LE_BoundExceeded ''action count''),
      reject_if (length (lg_events state) > ll_max_events limits) (LE_BoundExceeded ''event count''),
      reject_if (length (lg_control_tickets state) > length (lg_spaces state))
        (LE_Corrupt ''too many control tickets''),
      reject_if (length (lg_pending_fences state) > length (lg_spaces state)
          \<or> length (lg_takeover_proofs state) > length (lg_spaces state))
        (LE_Corrupt ''too many fence indexes'')]"

definition validate_page ::
  "opaque_id \<Rightarrow> opaque_id set \<times> opaque_id set \<Rightarrow> page_descriptor
   \<Rightarrow> (ledger_error, opaque_id set \<times> opaque_id set) result" where
  "validate_page space_id seen page =
     (case seen of (local_page_ids, page_ids) \<Rightarrow>
      and_then (checks
       [reject_if (p_space_id page \<noteq> space_id) (LE_Corrupt ''page belongs to another space''),
        reject_if (p_label page = []) (LE_Corrupt ''page label is empty''),
        validate_bounded_text (p_label page) 256 ''page label'',
        reject_if (is_some_and (p_url page) (\<lambda>url. isl (validate_bounded_text url 4096 ''page url''))
            \<or> is_some_and (p_title page) (\<lambda>title. isl (validate_bounded_text title 4096 ''page title'')))
          (LE_Corrupt ''page metadata is out of bounds''),
        reject_if (p_page_id page \<in> local_page_ids \<or> p_page_id page \<in> page_ids)
          (LE_Corrupt ''duplicate logical page identity''),
        validate_page_lifecycle page])
      (\<lambda>_. Ok (insert (p_page_id page) local_page_ids, insert (p_page_id page) page_ids)))"

definition validate_space ::
  "ledger_limits \<Rightarrow> ledger_state \<Rightarrow> opaque_id set \<Rightarrow> opaque_id \<times> space_descriptor
   \<Rightarrow> (ledger_error, opaque_id set) result" where
  "validate_space limits state page_ids entry =
     (case entry of (space_id, space) \<Rightarrow>
      and_then (checks
       [reject_if (s_space_id space \<noteq> space_id) (LE_Corrupt ''space index does not match descriptor''),
        reject_if (length (s_pages space) > ll_max_pages_per_space limits)
          (LE_BoundExceeded (''page count for '' @ space_id)),
        reject_if (s_label space = []) (LE_Corrupt ''space label is empty''),
        validate_bounded_text (s_label space) 256 ''space label'',
        reject_if (length (s_warnings space) > 16) (LE_BoundExceeded ''space warnings''),
        try_each (\<lambda>warning. validate_bounded_text warning 512 ''space warning'') (s_warnings space),
        reject_if (is_some_and (s_visual_group_hint space)
            (\<lambda>hint. isl (validate_bounded_text hint 256 ''visual group hint'')))
          (LE_Corrupt ''visual group hint is out of bounds''),
        validate_space_lifecycle state space_id space])
      (\<lambda>_. and_then (try_fold (validate_page space_id) ({}, page_ids) (s_pages space))
      (\<lambda>(local_page_ids, page_ids). Ok page_ids)))"

definition binding_index_wrong :: "ledger_state \<Rightarrow> opaque_id \<times> space_descriptor \<Rightarrow> bool" where
  "binding_index_wrong state entry =
     (case s_profile_binding (snd entry) of
        PF_Bound \<Rightarrow> \<not> bt_contains (lg_profile_bindings state) (fst entry)
      | PF_Unbound \<Rightarrow> bt_contains (lg_profile_bindings state) (fst entry)
      | PF_RebindRequired \<Rightarrow> False
      | PF_Revoked \<Rightarrow> False)"

definition validate_indexes :: "ledger_state \<Rightarrow> (ledger_error, unit) result" where
  "validate_indexes state = checks
     [reject_if (length (lg_space_generations state) \<noteq> length (lg_spaces state)
          \<or> list_ex (\<lambda>(space_id, _). \<not> bt_contains (lg_space_generations state) space_id) (lg_spaces state))
        (LE_Corrupt ''space generation index is incomplete''),
      reject_if (list_ex (\<lambda>(space_id, _). \<not> bt_contains (lg_spaces state) space_id) (lg_profile_bindings state)
          \<or> list_ex (binding_index_wrong state) (lg_spaces state))
        (LE_Corrupt ''profile binding index is inconsistent''),
      reject_if (is_some_and (lg_extension_worker_instance_epoch state) (\<lambda>epoch. epoch = 0)
          \<or> is_some_and (lg_extension_browser_session_epoch state) (\<lambda>epoch. epoch = 0))
        (LE_Corrupt ''extension epoch floor is invalid'')]"

definition validate_fence_lifecycles :: "ledger_state \<Rightarrow> (ledger_error, unit) result" where
  "validate_fence_lifecycles state =
     try_each (\<lambda>(space_id, space).
       reject_if (s_lifecycle space \<in> {SL_FencePending, SL_FenceDispatched, SL_FenceAcknowledged}
           \<and> \<not> bt_contains (lg_pending_fences state) space_id)
         (LE_Corrupt ''fence lifecycle has no pending fence record'')) (lg_spaces state)"

definition validate_control_tickets :: "ledger_state \<Rightarrow> (ledger_error, unit) result" where
  "validate_control_tickets state =
     try_each (\<lambda>(space_id, ticket).
       reject_if (ct_space_id ticket \<noteq> space_id \<or> ct_broker_epoch ticket \<noteq> lg_broker_epoch state
           \<or> \<not> is_some_and (bt_get (lg_spaces state) space_id) (\<lambda>space.
               s_lifecycle space = SL_UserOwned
               \<and> is_some_and (s_lease space) (\<lambda>lease. l_lease_epoch lease = ct_fence_epoch ticket)))
         (LE_Corrupt ''control ticket does not match user-owned space'')) (lg_control_tickets state)"

definition validate_pending_fence ::
  "ledger_state \<Rightarrow> opaque_id \<times> pending_fence_record \<Rightarrow> (ledger_error, unit) result" where
  "validate_pending_fence state entry =
     (case entry of (space_id, pending) \<Rightarrow>
      and_then (ok_or (bt_get (lg_spaces state) space_id)
        (LE_Corrupt ''pending fence references unknown space'')) (\<lambda>space.
      and_then (ok_or (s_lease space) (LE_Corrupt ''pending fence has no lease'')) (\<lambda>lease. checks
       [reject_if (pf_space_id pending \<noteq> space_id \<or> pf_broker_epoch pending \<noteq> lg_broker_epoch state
            \<or> pf_fence_epoch pending \<noteq> l_lease_epoch lease
            \<or> pf_principal_id pending \<noteq> l_principal_id lease
            \<or> s_lifecycle space \<noteq> SL_FencePending
            \<or> is_some_and (pf_old_epoch pending) (\<lambda>old. old \<ge> pf_fence_epoch pending))
          (LE_Corrupt ''pending fence does not match space lease''),
        reject_if (\<not> (case pf_purpose pending of
              FP_Takeover \<Rightarrow> l_state lease = LS_Active
            | FP_ReturnControl \<Rightarrow> l_state lease = LS_Fenced \<and> is_some (pf_old_epoch pending)))
          (LE_Corrupt ''pending fence purpose does not match lease state'')])))"

definition validate_takeover_proof ::
  "ledger_state \<Rightarrow> opaque_id \<Rightarrow> space_descriptor \<Rightarrow> (lease_epoch \<times> lease_epoch) set \<Rightarrow> takeover_proof_record
   \<Rightarrow> (ledger_error, (lease_epoch \<times> lease_epoch) set) result" where
  "validate_takeover_proof state space_id space seen proof =
     and_then (checks
       [reject_if (tp_space_id proof \<noteq> space_id \<or> tp_broker_epoch proof \<noteq> lg_broker_epoch state
            \<or> tp_previous_epoch proof \<ge> tp_current_epoch proof
            \<or> (tp_previous_epoch proof, tp_current_epoch proof) \<in> seen
            \<or> tp_principal_id proof \<noteq> s_owner space)
          (LE_Corrupt ''takeover proof is inconsistent''),
        reject_if (tp_current_epoch proof = (case s_lease space of None \<Rightarrow> 0 | Some l \<Rightarrow> l_lease_epoch l)
            \<and> is_none_or (s_lease space) (\<lambda>lease.
                l_principal_id lease \<noteq> tp_principal_id proof \<or> l_state lease \<noteq> LS_Active))
          (LE_Corrupt ''current takeover proof does not match lease'')])
     (\<lambda>_. Ok (insert (tp_previous_epoch proof, tp_current_epoch proof) seen))"

definition validate_takeover_proofs ::
  "ledger_state \<Rightarrow> opaque_id \<times> takeover_proof_record list \<Rightarrow> (ledger_error, unit) result" where
  "validate_takeover_proofs state entry =
     (case entry of (space_id, proofs) \<Rightarrow>
      and_then (ok_or (bt_get (lg_spaces state) space_id)
        (LE_Corrupt ''takeover proof references unknown space'')) (\<lambda>space.
      and_then (reject_if (proofs = [] \<or> length proofs > 64) (LE_BoundExceeded ''takeover proof count'')) (\<lambda>_.
      and_then (try_fold (validate_takeover_proof state space_id space) {} proofs) (\<lambda>_. Ok ()))))"

definition validate_queued ::
  "ledger_state \<Rightarrow> opaque_id \<Rightarrow> opaque_id set \<Rightarrow> opaque_id \<Rightarrow> (ledger_error, opaque_id set) result" where
  "validate_queued state space_id queued_ids action_id =
     and_then (reject_if (action_id \<in> queued_ids) (LE_Corrupt ''action appears in multiple queues'')) (\<lambda>_.
     and_then (ok_or (bt_get (lg_actions state) action_id)
       (LE_Corrupt ''action queue references missing receipt'')) (\<lambda>receipt.
     and_then (reject_if (ar_space_id receipt \<noteq> space_id \<or> ar_status receipt \<noteq> AS_Queued)
       (LE_Corrupt ''queued action index is inconsistent''))
     (\<lambda>_. Ok (insert action_id queued_ids))))"

definition validate_queue ::
  "ledger_limits \<Rightarrow> ledger_state \<Rightarrow> opaque_id set \<Rightarrow> opaque_id \<times> opaque_id list
   \<Rightarrow> (ledger_error, opaque_id set) result" where
  "validate_queue limits state queued_ids entry =
     (case entry of (space_id, queue) \<Rightarrow>
      and_then (checks
       [reject_if (\<not> bt_contains (lg_spaces state) space_id)
          (LE_Corrupt ''action queue references unknown space''),
        reject_if (length queue > ll_max_queued_actions_per_space limits)
          (LE_BoundExceeded ''queued action count'')])
      (\<lambda>_. try_fold (validate_queued state space_id) queued_ids queue))"

definition request_disagrees ::
  "json_writer \<Rightarrow> opaque_id \<Rightarrow> action_receipt \<Rightarrow> ledger_request \<Rightarrow> (ledger_error, bool) result" where
  "request_disagrees js action_id receipt request =
     (if aq_action_id request \<noteq> action_id \<or> aq_request_id request \<noteq> ar_request_id receipt
         \<or> aq_idempotency_key request \<noteq> ar_idempotency_key receipt
         \<or> aq_request_hash request \<noteq> ar_request_hash receipt
         \<or> aq_space_id request \<noteq> ar_space_id receipt \<or> aq_page_id request \<noteq> ar_page_id receipt
         \<or> aq_lease_epoch request \<noteq> ar_lease_epoch receipt
         \<or> aq_operation request \<noteq> ar_operation receipt
         \<or> aq_postcondition request \<noteq> ar_postcondition receipt
      then Ok True
      else and_then (ledger_action_hash js request) (\<lambda>hash. Ok (hash \<noteq> ar_request_hash receipt)))"

definition validate_action_page ::
  "space_descriptor \<Rightarrow> action_receipt \<Rightarrow> (ledger_error, unit) result" where
  "validate_action_page space receipt =
     (case ar_page_id receipt of
        Some page_id \<Rightarrow>
          and_then (ok_or (space_page space page_id) (LE_Corrupt ''action references unknown page'')) (\<lambda>page.
          reject_if (ar_operation receipt \<noteq> OP_Wait \<and> ar_operation receipt \<noteq> OP_Screenshot
              \<and> \<not> admits_agent_mutations page \<and> ar_status receipt = AS_Queued)
            (LE_Corrupt ''queued action targets a non-managed page''))
      | None \<Rightarrow>
          reject_if (ar_operation receipt = OP_Close) (LE_Corrupt ''close action has no page target''))"

definition validate_action_status ::
  "opaque_id set \<Rightarrow> opaque_id set \<Rightarrow> opaque_id \<Rightarrow> action_receipt \<Rightarrow> (ledger_error, opaque_id set) result" where
  "validate_action_status queued_ids running_mutations action_id receipt =
     (case ar_status receipt of
        AS_Queued \<Rightarrow>
          and_then (reject_if (ar_dispatch_state receipt \<noteq> DS_NotDispatched \<or> action_id \<notin> queued_ids
              \<or> ar_unknown receipt \<or> ar_reconciliation_state receipt \<noteq> RS_NotRequired
              \<or> ar_completion_source receipt \<noteq> CS_None)
            (LE_Corrupt ''queued action state is inconsistent'')) (\<lambda>_. Ok running_mutations)
      | AS_Running \<Rightarrow>
          and_then (checks
           [reject_if (ar_dispatch_state receipt \<notin> {DS_Dispatched, DS_Acknowledged}
                \<or> action_id \<in> queued_ids \<or> ar_unknown receipt
                \<or> ar_reconciliation_state receipt \<noteq> RS_NotRequired)
              (LE_Corrupt ''running action state is inconsistent''),
            reject_if (is_mutating_action (ar_operation receipt) \<and> ar_space_id receipt \<in> running_mutations)
              (LE_Corrupt ''more than one mutating action is running in a space'')])
          (\<lambda>_. Ok (if is_mutating_action (ar_operation receipt)
                   then insert (ar_space_id receipt) running_mutations else running_mutations))
      | AS_Unknown \<Rightarrow>
          and_then (reject_if (\<not> ar_unknown receipt
              \<or> ar_reconciliation_state receipt \<notin> {RS_Required, RS_InProgress}
              \<or> action_id \<in> queued_ids \<or> ar_completion_source receipt \<noteq> CS_None
              \<or> ar_next_action receipt \<noteq> NA_Reconcile)
            (LE_Corrupt ''unknown action state is inconsistent'')) (\<lambda>_. Ok running_mutations)
      | AS_Succeeded \<Rightarrow>
          and_then (reject_if (action_id \<in> queued_ids
              \<or> ar_dispatch_state receipt \<notin> {DS_Dispatched, DS_Acknowledged} \<or> ar_unknown receipt
              \<or> ar_reconciliation_state receipt \<notin> {RS_NotRequired, RS_ReconciledSucceeded})
            (LE_Corrupt ''successful action state is inconsistent'')) (\<lambda>_. Ok running_mutations)
      | AS_Failed \<Rightarrow>
          and_then (reject_if (action_id \<in> queued_ids
              \<or> ar_dispatch_state receipt \<notin> {DS_Dispatched, DS_Acknowledged} \<or> ar_unknown receipt
              \<or> ar_reconciliation_state receipt
                  \<notin> {RS_NotRequired, RS_ReconciledFailed, RS_RequiresConfirmation})
            (LE_Corrupt ''failed action state is inconsistent'')) (\<lambda>_. Ok running_mutations)
      | AS_Cancelled \<Rightarrow>
          and_then (reject_if (action_id \<in> queued_ids
              \<or> ar_dispatch_state receipt \<noteq> DS_Rejected \<or> ar_unknown receipt
              \<or> ar_reconciliation_state receipt \<noteq> RS_NotRequired
              \<or> ar_completion_source receipt \<noteq> CS_Ledger)
            (LE_Corrupt ''cancelled action state is inconsistent'')) (\<lambda>_. Ok running_mutations))"

definition validate_action ::
  "json_writer \<Rightarrow> ledger_state \<Rightarrow> opaque_id set \<Rightarrow> opaque_id set \<times> opaque_id set
   \<Rightarrow> opaque_id \<times> action_receipt \<Rightarrow> (ledger_error, opaque_id set \<times> opaque_id set) result" where
  "validate_action js state queued_ids seen entry =
     (case seen of (idempotency_ids, running_mutations) \<Rightarrow> case entry of (action_id, receipt) \<Rightarrow>
      and_then (reject_if (ar_action_id receipt \<noteq> action_id)
        (LE_Corrupt ''action index does not match receipt'')) (\<lambda>_.
      and_then (ok_or (bt_get (lg_action_requests state) action_id)
        (LE_Corrupt ''action receipt has no request context'')) (\<lambda>request.
      and_then (request_disagrees js action_id receipt request) (\<lambda>disagrees.
      and_then (checks
       [reject_if disagrees (LE_Corrupt ''action receipt and request context disagree''),
        validate_public_payload_shape (aq_payload request) 65536,
        validate_action_payload_contract (ar_operation receipt) (aq_payload request)]) (\<lambda>_.
      and_then (ok_or (bt_get (lg_spaces state) (ar_space_id receipt))
        (LE_Corrupt ''action references unknown space'')) (\<lambda>space.
      and_then (validate_action_page space receipt) (\<lambda>_.
      and_then (validate_action_status queued_ids running_mutations action_id receipt) (\<lambda>running_mutations.
      and_then (ok_or (bt_get (lg_idempotency state) (ar_idempotency_key receipt))
        (LE_Corrupt ''idempotency index is incomplete'')) (\<lambda>indexed.
      and_then (reject_if (indexed \<noteq> action_id \<or> ar_idempotency_key receipt \<in> idempotency_ids)
        (LE_Corrupt ''idempotency index is inconsistent''))
      (\<lambda>_. Ok (insert (ar_idempotency_key receipt) idempotency_ids, running_mutations)))))))))))"

definition validate_actions ::
  "json_writer \<Rightarrow> ledger_limits \<Rightarrow> ledger_state \<Rightarrow> (ledger_error, unit) result" where
  "validate_actions js limits state =
     and_then (try_fold (validate_queue limits state) {} (lg_action_queues state)) (\<lambda>queued_ids.
     and_then (reject_if (length (lg_action_requests state) \<noteq> length (lg_actions state)
         \<or> length (lg_idempotency state) \<noteq> length (lg_actions state))
       (LE_Corrupt ''action indexes do not have matching cardinality'')) (\<lambda>_.
     and_then (try_fold (validate_action js state queued_ids) ({}, {}) (lg_actions state)) (\<lambda>_. Ok ())))"

text \<open>The sum of the page counts does not overflow: each page record has its own memory.\<close>

definition validate_snapshot_record ::
  "json_writer \<Rightarrow> ledger_limits \<Rightarrow> opaque_id \<Rightarrow> space_descriptor \<Rightarrow> opaque_id \<times> snapshot_cache_record
   \<Rightarrow> (ledger_error, unit) result" where
  "validate_snapshot_record js limits space_id space entry =
     (case entry of (page_id, record) \<Rightarrow>
      and_then (ok_or (space_page space page_id)
        (LE_Corrupt ''snapshot cache references unknown page'')) (\<lambda>page.
      and_then (case snapshot_validate (cr_envelope record) of
          Inl e \<Rightarrow> Err (LE_Corrupt (snapshot_error_text e)) | Inr u \<Rightarrow> Ok u) (\<lambda>_.
      and_then (reject_if (sv_space_id (cr_envelope record) \<noteq> space_id
          \<or> sv_page_id (cr_envelope record) \<noteq> page_id \<or> \<not> matches_page (cr_generation record) page)
        (LE_Corrupt ''snapshot cache provenance is inconsistent'')) (\<lambda>_.
      and_then (serialized (jw_envelope js (cr_envelope record))) (\<lambda>bytes.
      reject_if (bytes > ll_max_snapshot_bytes limits) (LE_BoundExceeded ''snapshot bytes''))))))"

definition validate_snapshots ::
  "json_writer \<Rightarrow> ledger_limits \<Rightarrow> ledger_state \<Rightarrow> (ledger_error, unit) result" where
  "validate_snapshots js limits state =
     and_then (try_fold (\<lambda>count (space_id, pages).
       and_then (ok_or (bt_get (lg_spaces state) space_id)
         (LE_Corrupt ''snapshot cache references unknown space'')) (\<lambda>space.
       and_then (try_each (validate_snapshot_record js limits space_id space) pages)
       (\<lambda>_. Ok (count + length pages)))) 0 (lg_snapshots state)) (\<lambda>snapshot_count.
     reject_if (snapshot_count > ll_max_snapshots limits) (LE_BoundExceeded ''snapshot count''))"

definition validate_event_scope :: "ledger_state \<Rightarrow> event_scope \<Rightarrow> (ledger_error, unit) result" where
  "validate_event_scope state scope =
     (case sc_page_id scope of
        Some page_id \<Rightarrow>
          and_then (ok_or (sc_space_id scope) (LE_Corrupt ''page event has no space scope'')) (\<lambda>space_id.
          reject_if (\<not> is_some_and (bt_get (lg_spaces state) space_id)
              (\<lambda>space. is_some (space_page space page_id)))
            (LE_Corrupt ''event references unknown page''))
      | None \<Rightarrow>
          reject_if (is_some_and (sc_space_id scope) (\<lambda>space_id. \<not> bt_contains (lg_spaces state) space_id))
            (LE_Corrupt ''event references unknown space''))"

definition validate_event :: "ledger_state \<Rightarrow> u64 \<Rightarrow> ledger_event \<Rightarrow> (ledger_error, u64) result" where
  "validate_event state previous_sequence event =
     and_then (checks
      [reject_if (ev_protocol event \<noteq> PROTOCOL_VERSION \<or> ev_broker_epoch event \<noteq> lg_broker_epoch state
           \<or> ev_sequence event \<le> previous_sequence \<or> ev_sequence event > lg_event_sequence state)
         (LE_Corrupt ''event history is not monotonic''),
       validate_public_payload_shape (ev_payload event) 512,
       validate_event_scope state (ev_scope event)])
     (\<lambda>_. Ok (ev_sequence event))"

definition validate_events :: "ledger_limits \<Rightarrow> ledger_state \<Rightarrow> (ledger_error, unit) result" where
  "validate_events limits state =
     and_then (try_fold (validate_event state) 0 (lg_events state)) (\<lambda>_.
     if lg_events state = [] \<and> lg_event_sequence state = 0 then Ok ()
     else reject_if (lg_events state = [] \<and> ll_max_events limits \<noteq> 0)
       (LE_Corrupt ''event sequence has no retained history''))"

definition validate_bytes :: "json_writer \<Rightarrow> ledger_limits \<Rightarrow> ledger_state \<Rightarrow> (ledger_error, unit) result" where
  "validate_bytes js limits state =
     and_then (serialized (jw_state js state)) (\<lambda>bytes.
     reject_if (bytes > ll_max_ledger_bytes limits) (LE_BoundExceeded ''serialized ledger bytes''))"

definition validate_state ::
  "json_writer \<Rightarrow> ledger_limits \<Rightarrow> ledger_state \<Rightarrow> (ledger_error, unit) result" where
  "validate_state js limits state = checks
     [validate_counts limits state,
      and_then (try_fold (validate_space limits state) {} (lg_spaces state)) (\<lambda>_. Ok ()),
      validate_indexes state,
      validate_fence_lifecycles state,
      validate_control_tickets state,
      try_each (validate_pending_fence state) (lg_pending_fences state),
      try_each (validate_takeover_proofs state) (lg_takeover_proofs state),
      validate_actions js limits state,
      validate_snapshots js limits state,
      validate_events limits state,
      validate_bytes js limits state]"

section \<open>Recovery after a restart\<close>

definition ledger_bump_page_generations :: "page_descriptor \<Rightarrow> (ledger_error, page_descriptor) result" where
  "ledger_bump_page_generations page =
     and_then (ok_or (counter_checked_next (p_target_generation page))
       (LE_Incompatible ''target generation overflow'')) (\<lambda>target.
     and_then (ok_or (counter_checked_next (p_navigation_generation page))
       (LE_Incompatible ''navigation generation overflow'')) (\<lambda>navigation.
     and_then (ok_or (counter_checked_next (p_document_generation page))
       (LE_Incompatible ''document generation overflow'')) (\<lambda>document.
     Ok (page\<lparr>p_target_generation := target, p_navigation_generation := navigation,
              p_document_generation := document\<rparr>))))"

fun try_map :: "('a \<Rightarrow> ('e, 'b) result) \<Rightarrow> 'a list \<Rightarrow> ('e, 'b list) result" where
  "try_map f [] = Ok []"
| "try_map f (x # xs) = and_then (f x) (\<lambda>y. and_then (try_map f xs) (\<lambda>ys. Ok (y # ys)))"

definition fence_lease :: "lease option \<Rightarrow> lease option" where
  "fence_lease l = map_option (\<lambda>l. if l_state l \<in> {LS_Active, LS_Renewing} then l\<lparr>l_state := LS_Fenced\<rparr> else l) l"

definition loses_space :: "space_lifecycle \<Rightarrow> bool" where
  "loses_space c \<longleftrightarrow> c \<in> {SL_AgentOwned, SL_HandoffRequested, SL_Draining, SL_Recovering, SL_FencePending,
     SL_FenceAcknowledged, SL_FenceDispatched}"

definition orphan_space :: "space_descriptor \<Rightarrow> space_descriptor" where
  "orphan_space space = space\<lparr>s_lease := fence_lease (s_lease space),
     s_lifecycle := if loses_space (s_lifecycle space) then SL_Orphaned else s_lifecycle space\<rparr>"

definition recover_lost_space :: "ledger_state \<Rightarrow> opaque_id \<Rightarrow> (ledger_error, ledger_state) result" where
  "recover_lost_space state space_id =
     and_then (case bt_get (lg_spaces state) space_id of
        None \<Rightarrow> Ok state
      | Some space \<Rightarrow> and_then (try_map ledger_bump_page_generations (s_pages space)) (\<lambda>pages.
          Ok (state\<lparr>lg_spaces := bt_insert space_id (space\<lparr>s_pages := pages\<rparr>) (lg_spaces state)\<rparr>)))
     (\<lambda>state. Ok (state\<lparr>lg_snapshots := bt_remove space_id (lg_snapshots state)\<rparr>))"

definition cancel_orphaned ::
  "(opaque_id, action_receipt) btree \<Rightarrow> opaque_id \<Rightarrow> (ledger_error, (opaque_id, action_receipt) btree) result" where
  "cancel_orphaned actions action_id =
     (case bt_get actions action_id of
        None \<Rightarrow> Ok actions
      | Some receipt \<Rightarrow>
          if ar_status receipt = AS_Queued then
            (case receipt_cancel receipt None of
               (_, Inl e) \<Rightarrow> Err (LE_Incompatible (transition_error_text e))
             | (receipt', Inr _) \<Rightarrow> Ok (bt_insert action_id receipt' actions))
          else Ok actions)"

definition recover_running ::
  "u64 \<times> (opaque_id, action_receipt) btree \<Rightarrow> opaque_id \<times> action_receipt
   \<Rightarrow> (ledger_error, u64 \<times> (opaque_id, action_receipt) btree) result" where
  "recover_running acc entry =
     (case acc of (recovery_number, out) \<Rightarrow> case entry of (action_id, receipt) \<Rightarrow>
      if ar_status receipt \<noteq> AS_Running then Ok (recovery_number, out @ [(action_id, receipt)])
      else
        (case from_suffix ReconcileToken (''restart-'' @ show_nat (unat recovery_number)) of
           Inl e \<Rightarrow> Err (LE_Incompatible (id_error_text e))
         | Inr token \<Rightarrow>
             and_then (ok_or (checked_add64 recovery_number 1)
               (LE_Incompatible ''recovery counter overflow'')) (\<lambda>next_number.
             if ar_dispatch_state receipt \<in> {DS_Dispatched, DS_Acknowledged} then
               (case mark_unknown receipt UR_HostRestarted token of
                  (_, Inl e) \<Rightarrow> Err (LE_Incompatible (transition_error_text e))
                | (receipt', Inr _) \<Rightarrow> Ok (next_number, out @ [(action_id, receipt')]))
             else
               Ok (next_number, out @ [(action_id, receipt\<lparr>ar_status := AS_Unknown, ar_unknown := True,
                 ar_unknown_reason := Some UR_HostRestarted, ar_reconciliation_state := RS_Required,
                 ar_reconcile_token := Some token, ar_error_code := Some EC_UnknownOutcome,
                 ar_retryable := False, ar_completion_source := CS_Timeout,
                 ar_next_action := NA_Reconcile\<rparr>)]))))"

definition recover_after_restart :: "ledger_state \<Rightarrow> (ledger_error, ledger_state) result" where
  "recover_after_restart state0 =
     (let lost_spaces = map fst (filter (\<lambda>(_, space). loses_space (s_lifecycle space)) (lg_spaces state0));
          state1 = state0\<lparr>lg_pending_fences := [], lg_takeover_proofs := [],
            lg_control_tickets := bt_map (\<lambda>_ ticket. ticket\<lparr>ct_broker_epoch := lg_broker_epoch state0\<rparr>)
              (lg_control_tickets state0),
            lg_spaces := bt_map (\<lambda>_. orphan_space) (lg_spaces state0)\<rparr>
      in and_then (try_fold recover_lost_space state1 lost_spaces) (\<lambda>state2.
         let orphaned_queues = List.map_filter (bt_get (lg_action_queues state2)) lost_spaces
         in and_then (try_fold cancel_orphaned (lg_actions state2) (concat orphaned_queues)) (\<lambda>actions.
            and_then (try_fold recover_running (0, []) actions) (\<lambda>(_, actions).
            Ok (state2\<lparr>lg_action_queues := fold bt_remove lost_spaces (lg_action_queues state2),
                       lg_actions := actions\<rparr>)))))"

text \<open>
  Opening an existing ledger file: the file has been read and parsed into a state (so the fields
  that the serializer skips have their defaults), or parsing failed with a message.
\<close>

definition restart_state :: "ledger_state \<Rightarrow> (ledger_error, ledger_state) result" where
  "restart_state state =
     and_then (ok_or (counter_checked_next (lg_broker_epoch state))
       (LE_Incompatible ''broker epoch overflow'')) (\<lambda>epoch.
     recover_after_restart (state\<lparr>lg_broker_epoch := epoch, lg_connection_epoch := 0,
       lg_connection_principal_id := None, lg_connection_nonce := None,
       lg_connection_profile_binding_id := None, lg_event_sequence := 0, lg_events := []\<rparr>))"

definition load_state ::
  "json_writer \<Rightarrow> ledger_limits \<Rightarrow> (string, ledger_state) result option \<Rightarrow> (ledger_error, ledger_state) result" where
  "load_state js limits parsed =
     (case parsed of
        None \<Rightarrow> Ok (ledger_state_new 1)
      | Some (Inl message) \<Rightarrow> Err (LE_Corrupt message)
      | Some (Inr state) \<Rightarrow>
          and_then (reject_if (lg_schema_version state \<noteq> LEDGER_SCHEMA_VERSION)
            (LE_Incompatible (''expected schema '' @ show_nat (unat LEDGER_SCHEMA_VERSION)
              @ '', got '' @ show_nat (unat (lg_schema_version state))))) (\<lambda>_.
          and_then (validate_state js limits state) (\<lambda>_.
          restart_state state)))"

section \<open>Transactions\<close>

text \<open>
  The outcomes of the operating system calls of one update, in the order in which the code makes
  them. \<open>ld_disk\<close> is the state that \<^verbatim>\<open>ledger.json\<close> holds, which the rename replaces.
\<close>

record ledger_io =
  io_owner :: "(ledger_error, unit) result"
  io_owner_again :: "(ledger_error, unit) result"
  io_symlink :: "(ledger_error, bool) result"
  io_present :: "(ledger_error, bool) result"
  io_private_file :: "(ledger_error, unit) result"
  io_create_temporary :: "(ledger_error, unit) result"
  io_set_private :: "(ledger_error, unit) result"
  io_write_all :: "(ledger_error, unit) result"
  io_sync_file :: "(ledger_error, unit) result"
  io_symlink_again :: "(ledger_error, bool) result"
  io_rename :: "(ledger_error, unit) result"
  io_open_directory :: "(ledger_error, unit) result"
  io_sync_directory :: "(ledger_error, unit) result"

record ledger =
  ld_state :: ledger_state
  ld_limits :: ledger_limits
  ld_disk :: "ledger_state option"

definition before_rename ::
  "json_writer \<Rightarrow> ledger_io \<Rightarrow> ledger_limits \<Rightarrow> ledger_state \<Rightarrow> (ledger_error, unit) result" where
  "before_rename js io limits state =
     and_then (io_owner_again io) (\<lambda>_.
     and_then (io_symlink io) (\<lambda>symlink.
     and_then (reject_if symlink (LE_Ownership ''ledger path is a symlink'')) (\<lambda>_.
     and_then (io_present io) (\<lambda>present.
     and_then (if present then io_private_file io else Ok ()) (\<lambda>_.
     and_then (serialized (jw_state_pretty js state)) (\<lambda>bytes.
     and_then (reject_if (bytes > ll_max_ledger_bytes limits)
       (LE_BoundExceeded ''serialized ledger bytes'')) (\<lambda>_.
     and_then (checks [io_create_temporary io, io_set_private io, io_write_all io, io_sync_file io]) (\<lambda>_.
     and_then (io_symlink_again io) (\<lambda>symlink.
     reject_if symlink (LE_Ownership ''ledger path was replaced''))))))))))"

definition persist_current ::
  "json_writer \<Rightarrow> ledger_io \<Rightarrow> ledger \<Rightarrow> ledger \<times> (ledger_error, unit) result" where
  "persist_current js io ledger =
     (case checks [before_rename js io (ld_limits ledger) (ld_state ledger), io_rename io] of
        Inl e \<Rightarrow> (ledger, Err e)
      | Inr _ \<Rightarrow> (ledger\<lparr>ld_disk := Some (ld_state ledger)\<rparr>,
                  checks [io_open_directory io, io_sync_directory io]))"

definition retain_events :: "nat \<Rightarrow> ledger_state \<Rightarrow> ledger_state" where
  "retain_events max_events state =
     (if length (lg_events state) > max_events
      then state\<lparr>lg_events := drop (length (lg_events state) - max_events) (lg_events state)\<rparr>
      else state)"

definition ledger_update ::
  "json_writer \<Rightarrow> ledger_io \<Rightarrow> (ledger_state \<Rightarrow> ledger_state \<times> (host_error, 'a) result)
   \<Rightarrow> ledger \<Rightarrow> ledger \<times> (host_error, 'a) result" where
  "ledger_update js io transition ledger =
     (case io_owner io of
        Inl e \<Rightarrow> (ledger, Err (HE_Ledger e))
      | Inr _ \<Rightarrow>
          (case transition (ld_state ledger) of
             (_, Inl e) \<Rightarrow> (ledger, Err e)
           | (state, Inr value) \<Rightarrow>
               (let state = retain_events (ll_max_events (ld_limits ledger)) state in
                case validate_state js (ld_limits ledger) state of
                  Inl e \<Rightarrow> (ledger, Err (HE_Ledger e))
                | Inr _ \<Rightarrow>
                    (case persist_current js io (ledger\<lparr>ld_state := state\<rparr>) of
                       (persisted, Inl e) \<Rightarrow> (persisted\<lparr>ld_state := ld_state ledger\<rparr>, Err (HE_Ledger e))
                     | (persisted, Inr _) \<Rightarrow> (persisted, Ok value)))))"

text \<open>
  Opening: the parse result is \<open>None\<close> when there is no file yet. A failure leaves no ledger behind;
  the disk is what \<^verbatim>\<open>ledger.json\<close> holds, unless it was quarantined.
\<close>

definition ledger_open ::
  "json_writer \<Rightarrow> ledger_io \<Rightarrow> ledger_limits \<Rightarrow> (string, ledger_state) result option
   \<Rightarrow> (ledger_error, ledger) result" where
  "ledger_open js io limits parsed =
     and_then (load_state js limits parsed) (\<lambda>state.
     and_then (validate_state js limits state) (\<lambda>_.
     (case persist_current js io \<lparr>ld_state = state, ld_limits = limits, ld_disk = None\<rparr> of
        (_, Inl e) \<Rightarrow> Err e
      | (ledger, Inr _) \<Rightarrow> Ok ledger)))"

section \<open>What the validator accepts\<close>

definition text_ok :: "utext \<Rightarrow> nat \<Rightarrow> bool" where
  "text_ok value max_bytes \<longleftrightarrow> byte_len value \<le> max_bytes \<and> \<not> list_ex is_control value"

definition page_entry_ok :: "opaque_id \<Rightarrow> page_descriptor \<Rightarrow> bool" where
  "page_entry_ok space_id p \<longleftrightarrow>
     p_space_id p = space_id \<and> p_label p \<noteq> [] \<and> text_ok (p_label p) 256
     \<and> is_none_or (p_url p) (\<lambda>url. text_ok url 4096) \<and> is_none_or (p_title p) (\<lambda>title. text_ok title 4096)
     \<and> page_lifecycle_consistent p"

definition space_entry_ok :: "ledger_limits \<Rightarrow> ledger_state \<Rightarrow> opaque_id \<Rightarrow> space_descriptor \<Rightarrow> bool" where
  "space_entry_ok limits state space_id space \<longleftrightarrow>
     s_space_id space = space_id \<and> length (s_pages space) \<le> ll_max_pages_per_space limits
     \<and> s_label space \<noteq> [] \<and> text_ok (s_label space) 256
     \<and> length (s_warnings space) \<le> 16 \<and> (\<forall>w \<in> set (s_warnings space). text_ok w 512)
     \<and> is_none_or (s_visual_group_hint space) (\<lambda>hint. text_ok hint 256)
     \<and> lifecycle_matches_lease state space_id space
     \<and> \<not> (s_profile_binding space = PF_Revoked \<and> s_lifecycle space = SL_AgentOwned)
     \<and> (\<forall>p \<in> set (s_pages space). page_entry_ok space_id p)"

definition page_ids_of :: "(opaque_id, space_descriptor) btree \<Rightarrow> opaque_id list" where
  "page_ids_of spaces = concat (map (\<lambda>(_, space). map p_page_id (s_pages space)) spaces)"

definition action_status_ok :: "bool \<Rightarrow> action_receipt \<Rightarrow> bool" where
  "action_status_ok queued r =
     (case ar_status r of
        AS_Queued \<Rightarrow> ar_dispatch_state r = DS_NotDispatched \<and> queued \<and> \<not> ar_unknown r
          \<and> ar_reconciliation_state r = RS_NotRequired \<and> ar_completion_source r = CS_None
      | AS_Running \<Rightarrow> ar_dispatch_state r \<in> {DS_Dispatched, DS_Acknowledged} \<and> \<not> queued
          \<and> \<not> ar_unknown r \<and> ar_reconciliation_state r = RS_NotRequired
      | AS_Unknown \<Rightarrow> ar_unknown r \<and> ar_reconciliation_state r \<in> {RS_Required, RS_InProgress} \<and> \<not> queued
          \<and> ar_completion_source r = CS_None \<and> ar_next_action r = NA_Reconcile
      | AS_Succeeded \<Rightarrow> \<not> queued \<and> ar_dispatch_state r \<in> {DS_Dispatched, DS_Acknowledged} \<and> \<not> ar_unknown r
          \<and> ar_reconciliation_state r \<in> {RS_NotRequired, RS_ReconciledSucceeded}
      | AS_Failed \<Rightarrow> \<not> queued \<and> ar_dispatch_state r \<in> {DS_Dispatched, DS_Acknowledged} \<and> \<not> ar_unknown r
          \<and> ar_reconciliation_state r \<in> {RS_NotRequired, RS_ReconciledFailed, RS_RequiresConfirmation}
      | AS_Cancelled \<Rightarrow> \<not> queued \<and> ar_dispatch_state r = DS_Rejected \<and> \<not> ar_unknown r
          \<and> ar_reconciliation_state r = RS_NotRequired \<and> ar_completion_source r = CS_Ledger)"

definition runs_mutation :: "action_receipt \<Rightarrow> bool" where
  "runs_mutation r \<longleftrightarrow> ar_status r = AS_Running \<and> is_mutating_action (ar_operation r)"

definition queue_entry_ok :: "ledger_limits \<Rightarrow> ledger_state \<Rightarrow> opaque_id \<Rightarrow> opaque_id list \<Rightarrow> bool" where
  "queue_entry_ok limits state space_id queue \<longleftrightarrow>
     bt_contains (lg_spaces state) space_id \<and> length queue \<le> ll_max_queued_actions_per_space limits
     \<and> (\<forall>a \<in> set queue. \<exists>r. bt_get (lg_actions state) a = Some r \<and> ar_space_id r = space_id
           \<and> ar_status r = AS_Queued)"

definition action_entry_ok ::
  "json_writer \<Rightarrow> ledger_state \<Rightarrow> opaque_id set \<Rightarrow> opaque_id \<Rightarrow> action_receipt \<Rightarrow> bool" where
  "action_entry_ok js state queued_ids action_id r \<longleftrightarrow>
     ar_action_id r = action_id
     \<and> (\<exists>q. bt_get (lg_action_requests state) action_id = Some q
          \<and> request_disagrees js action_id r q = Inr False
          \<and> validate_public_payload_shape (aq_payload q) 65536 = Inr ())
     \<and> (\<exists>space. bt_get (lg_spaces state) (ar_space_id r) = Some space \<and> validate_action_page space r = Inr ())
     \<and> action_status_ok (action_id \<in> queued_ids) r
     \<and> bt_get (lg_idempotency state) (ar_idempotency_key r) = Some action_id"

definition queued_actions :: "ledger_state \<Rightarrow> opaque_id list" where
  "queued_actions state = concat (map snd (lg_action_queues state))"

definition actions_ok :: "json_writer \<Rightarrow> ledger_limits \<Rightarrow> ledger_state \<Rightarrow> bool" where
  "actions_ok js limits state \<longleftrightarrow>
     (\<forall>(k, q) \<in> set (lg_action_queues state). queue_entry_ok limits state k q)
     \<and> distinct (queued_actions state)
     \<and> length (lg_action_requests state) = length (lg_actions state)
     \<and> length (lg_idempotency state) = length (lg_actions state)
     \<and> (\<forall>(a, r) \<in> set (lg_actions state). action_entry_ok js state (set (queued_actions state)) a r)
     \<and> distinct (map (ar_idempotency_key \<circ> snd) (lg_actions state))
     \<and> distinct (map ar_space_id (filter runs_mutation (bt_values (lg_actions state))))"

lemma validate_bounded_text_Ok [simp]: "validate_bounded_text v n f = Inr u \<longleftrightarrow> text_ok v n"
  by (auto simp: validate_bounded_text_def text_ok_def)

lemma isl_bounded_text [simp]: "isl (validate_bounded_text v n f) \<longleftrightarrow> \<not> text_ok v n"
  by (auto simp: validate_bounded_text_def text_ok_def reject_if_def)

lemma is_some_and_not: "\<not> is_some_and x p \<longleftrightarrow> is_none_or x (\<lambda>a. \<not> p a)"
  by (cases x) auto

lemma validate_page_Ok:
  "validate_page k seen p = Inr seen' \<longleftrightarrow>
     page_entry_ok k p \<and> p_page_id p \<notin> fst seen \<union> snd seen
     \<and> seen' = (insert (p_page_id p) (fst seen), insert (p_page_id p) (snd seen))"
  by (cases seen)
     (auto simp: validate_page_def page_entry_ok_def validate_page_lifecycle_def is_some_and_not split: if_splits)

lemma validate_pages_Ok:
  "try_fold (validate_page k) seen ps = Inr seen' \<longleftrightarrow>
     (\<forall>p \<in> set ps. page_entry_ok k p) \<and> distinct (map p_page_id ps)
     \<and> (fst seen \<union> snd seen) \<inter> p_page_id ` set ps = {}
     \<and> seen' = (fst seen \<union> p_page_id ` set ps, snd seen \<union> p_page_id ` set ps)"
proof (induction ps arbitrary: seen)
  case (Cons p ps)
  show ?case unfolding try_fold.simps and_then_Ok_iff validate_page_Ok Cons by auto
qed (auto simp: prod_eq_iff)

lemma validate_space_Ok:
  "validate_space limits state seen (k, space) = Inr seen' \<longleftrightarrow>
     space_entry_ok limits state k space \<and> distinct (map p_page_id (s_pages space))
     \<and> seen \<inter> p_page_id ` set (s_pages space) = {} \<and> seen' = seen \<union> p_page_id ` set (s_pages space)"
  by (auto simp: validate_space_def space_entry_ok_def validate_pages_Ok validate_space_lifecycle_def is_some_and_not
      split: if_splits prod.splits)

lemma page_ids_of_Cons: "page_ids_of ((k, space) # sps) = map p_page_id (s_pages space) @ page_ids_of sps"
  by (simp add: page_ids_of_def)

lemma validate_spaces_Ok:
  "try_fold (validate_space limits state) seen sps = Inr seen' \<longleftrightarrow>
     (\<forall>(k, space) \<in> set sps. space_entry_ok limits state k space) \<and> distinct (page_ids_of sps)
     \<and> seen \<inter> set (page_ids_of sps) = {} \<and> seen' = seen \<union> set (page_ids_of sps)"
proof (induction sps arbitrary: seen)
  case (Cons e sps)
  obtain k space where e: "e = (k, space)" by force
  show ?case unfolding e try_fold.simps and_then_Ok_iff validate_space_Ok Cons
    by (auto simp: page_ids_of_Cons)
qed (auto simp: page_ids_of_def)

lemma validate_queue_Ok:
  "validate_queue limits state seen (k, q) = Inr seen' \<longleftrightarrow>
     queue_entry_ok limits state k q \<and> distinct q \<and> seen \<inter> set q = {} \<and> seen' = seen \<union> set q"
proof -
  have body: "validate_queued state k s a = Inr s' \<longleftrightarrow>
     (\<exists>r. bt_get (lg_actions state) a = Some r \<and> ar_space_id r = k \<and> ar_status r = AS_Queued)
     \<and> a \<notin> s \<and> s' = insert a s" for s a s'
    by (auto simp: validate_queued_def)
  show ?thesis
    by (auto simp: validate_queue_def queue_entry_ok_def try_fold_fresh [where key = "\<lambda>x. x", OF body])
qed

lemma validate_queues_Ok:
  "try_fold (validate_queue limits state) seen qs = Inr seen' \<longleftrightarrow>
     (\<forall>(k, q) \<in> set qs. queue_entry_ok limits state k q) \<and> distinct (concat (map snd qs))
     \<and> seen \<inter> set (concat (map snd qs)) = {} \<and> seen' = seen \<union> set (concat (map snd qs))"
proof (induction qs arbitrary: seen)
  case (Cons e qs)
  obtain k q where e: "e = (k, q)" by force
  show ?case unfolding e try_fold.simps and_then_Ok_iff validate_queue_Ok Cons by auto
qed auto

lemma validate_action_status_Ok:
  "validate_action_status queued running a r = Inr running' \<longleftrightarrow>
     action_status_ok (a \<in> queued) r \<and> (runs_mutation r \<longrightarrow> ar_space_id r \<notin> running)
     \<and> running' = (if runs_mutation r then insert (ar_space_id r) running else running)"
  by (cases "ar_status r") (auto simp: validate_action_status_def action_status_ok_def runs_mutation_def)

lemma validate_action_Ok:
  "validate_action js state queued (seen, running) (a, r) = Inr res \<longleftrightarrow>
     action_entry_ok js state queued a r \<and> ar_idempotency_key r \<notin> seen
     \<and> (runs_mutation r \<longrightarrow> ar_space_id r \<notin> running)
     \<and> res = (insert (ar_idempotency_key r) seen,
              if runs_mutation r then insert (ar_space_id r) running else running)"
  by (auto simp: validate_action_def action_entry_ok_def validate_action_payload_contract_def
      validate_action_status_Ok)

lemma validate_action_list_Ok:
  "try_fold (validate_action js state queued) (seen, running) es = Inr res \<longleftrightarrow>
     (\<forall>(a, r) \<in> set es. action_entry_ok js state queued a r)
     \<and> distinct (map (ar_idempotency_key \<circ> snd) es) \<and> seen \<inter> (ar_idempotency_key \<circ> snd) ` set es = {}
     \<and> distinct (map ar_space_id (filter runs_mutation (map snd es)))
     \<and> running \<inter> ar_space_id ` set (filter runs_mutation (map snd es)) = {}
     \<and> res = (seen \<union> (ar_idempotency_key \<circ> snd) ` set es,
              running \<union> ar_space_id ` set (filter runs_mutation (map snd es)))"
proof (induction es arbitrary: seen running)
  case (Cons e es)
  obtain a r where e: "e = (a, r)" by force
  show ?case unfolding e try_fold.simps and_then_Ok_iff validate_action_Ok
    by (simp add: Cons) (auto)
qed auto

lemma validate_actions_Ok: "validate_actions js limits state = Inr u \<longleftrightarrow> actions_ok js limits state"
  by (auto simp: validate_actions_def actions_ok_def validate_queues_Ok validate_action_list_Ok
      queued_actions_def bt_values_def)

lemmas validate_state_iff =
  validate_state_def validate_spaces_Ok validate_actions_Ok checks_Ok and_then_Ok_iff

section \<open>Recovery keeps the state valid\<close>

lemma try_map_Ok: "try_map f xs = Inr ys \<longleftrightarrow> list_all2 (\<lambda>x y. f x = Inr y) xs ys"
  by (induction xs arbitrary: ys) (auto simp: list_all2_Cons1)

definition bump_space :: "space_descriptor \<Rightarrow> space_descriptor" where
  "bump_space space = space\<lparr>s_pages := projr (try_map ledger_bump_page_generations (s_pages space))\<rparr>"

definition recovered_space :: "space_descriptor \<Rightarrow> space_descriptor" where
  "recovered_space space =
     (if loses_space (s_lifecycle space) then bump_space (orphan_space space) else orphan_space space)"

definition generations_left :: "page_descriptor \<Rightarrow> bool" where
  "generations_left p \<longleftrightarrow> is_some (counter_checked_next (p_target_generation p))
     \<and> is_some (counter_checked_next (p_navigation_generation p))
     \<and> is_some (counter_checked_next (p_document_generation p))"

definition with_generations :: "page_descriptor \<Rightarrow> page_descriptor \<Rightarrow> bool" where
  "with_generations p p' \<longleftrightarrow> p_target_generation p < p_target_generation p'
     \<and> p_navigation_generation p < p_navigation_generation p'
     \<and> p_document_generation p < p_document_generation p'
     \<and> p' = p\<lparr>p_target_generation := p_target_generation p',
              p_navigation_generation := p_navigation_generation p',
              p_document_generation := p_document_generation p'\<rparr>"


lemma bump_page_Ok: "ledger_bump_page_generations p = Inr p' \<Longrightarrow> with_generations p p'"
  by (auto simp: ledger_bump_page_generations_def with_generations_def counter_checked_next_def
      dest: checked_next_less)

lemma bump_pages_exists:
  "\<forall>p \<in> set ps. generations_left p \<Longrightarrow> \<exists>ps'. try_map ledger_bump_page_generations ps = Inr ps'"
  by (induction ps) (auto simp: generations_left_def ledger_bump_page_generations_def)

lemma bump_space_pages:
  assumes "\<forall>p \<in> set (s_pages space). generations_left p"
  shows "list_all2 with_generations (s_pages space) (s_pages (bump_space space))"
proof -
  obtain ps where ps: "try_map ledger_bump_page_generations (s_pages space) = Inr ps"
    using bump_pages_exists [OF assms] by blast
  then have "list_all2 (\<lambda>x y. ledger_bump_page_generations x = Inr y) (s_pages space) ps" by (simp add: try_map_Ok)
  then have "list_all2 with_generations (s_pages space) ps" by (rule list_all2_mono) (rule bump_page_Ok)
  with ps show ?thesis by (simp add: bump_space_def)
qed

lemma recover_lost_space_eq:
  assumes "bt_wf (lg_spaces st)" "bt_get (lg_spaces st) k = Some space"
    and "\<forall>p \<in> set (s_pages space). generations_left p" and "lg_snapshots st = []"
  shows "recover_lost_space st k =
    Inr (st\<lparr>lg_spaces := bt_map (\<lambda>j x. if j = k then bump_space x else x) (lg_spaces st)\<rparr>)"
proof -
  obtain ps where ps: "try_map ledger_bump_page_generations (s_pages space) = Inr ps"
    using bump_pages_exists [OF assms(3)] by blast
  then have b: "space\<lparr>s_pages := ps\<rparr> = bump_space space" by (simp add: bump_space_def)
  have "recover_lost_space st k = Inr (st\<lparr>lg_spaces := bt_insert k (bump_space space) (lg_spaces st),
      lg_snapshots := bt_remove k (lg_snapshots st)\<rparr>)"
    by (simp add: recover_lost_space_def assms(2) ps b)
  then show ?thesis using assms(4) by (simp add: bt_insert_as_map [OF assms(1,2)])
qed

lemma recover_lost_spaces_eq:
  assumes "distinct ks" "bt_wf (lg_spaces st)" "lg_snapshots st = []"
    and "\<And>k. k \<in> set ks \<Longrightarrow> \<exists>space. bt_get (lg_spaces st) k = Some space
      \<and> (\<forall>p \<in> set (s_pages space). generations_left p)"
  shows "try_fold recover_lost_space st ks =
    Inr (st\<lparr>lg_spaces := bt_map (\<lambda>k space. if k \<in> set ks then bump_space space else space) (lg_spaces st)\<rparr>)"
  using assms
proof (induction ks arbitrary: st)
  case (Cons k ks)
  obtain space where s: "bt_get (lg_spaces st) k = Some space" "\<forall>p \<in> set (s_pages space). generations_left p"
    using Cons.prems(4) by auto
  let ?st = "st\<lparr>lg_spaces := bt_map (\<lambda>j x. if j = k then bump_space x else x) (lg_spaces st)\<rparr>"
  have "try_fold recover_lost_space st (k # ks) = try_fold recover_lost_space ?st ks"
    by (simp add: recover_lost_space_eq [OF Cons.prems(2) s Cons.prems(3)])
  also have "\<dots> = Inr (?st\<lparr>lg_spaces := bt_map (\<lambda>k space. if k \<in> set ks then bump_space space else space) (lg_spaces ?st)\<rparr>)"
  proof (rule Cons.IH)
    fix j assume "j \<in> set ks"
    moreover from this Cons.prems(1) have "j \<noteq> k" by auto
    ultimately show "\<exists>space. bt_get (lg_spaces ?st) j = Some space \<and> (\<forall>p \<in> set (s_pages space). generations_left p)"
      using Cons.prems(4) [of j] by (auto simp: bt_get_map)
  qed (use Cons.prems in auto)
  also have "\<dots> = Inr (st\<lparr>lg_spaces := bt_map (\<lambda>j space. if j \<in> set (k # ks) then bump_space space else space) (lg_spaces st)\<rparr>)"
    using Cons.prems(1) by (auto simp: bt_map_map intro!: arg_cong [of _ _ "\<lambda>m. st\<lparr>lg_spaces := m\<rparr>"] bt_map_cong)
  finally show ?case .
qed simp

definition cancelled :: "action_receipt \<Rightarrow> action_receipt" where
  "cancelled r = fst (receipt_cancel r None)"

lemma cancelled_status [simp]: "ar_status r = AS_Queued \<Longrightarrow> ar_status (cancelled r) = AS_Cancelled"
  by (simp add: cancelled_def receipt_cancel_def)

lemma cancel_orphaned_eq:
  assumes "bt_wf m"
  shows "cancel_orphaned m a = Inr (bt_map (\<lambda>k r. if k = a \<and> ar_status r = AS_Queued then cancelled r else r) m)"
proof (cases "bt_get m a")
  case None
  then have "bt_map (\<lambda>k r. if k = a \<and> ar_status r = AS_Queued then cancelled r else r) m = bt_map (\<lambda>k r. r) m"
    by (intro bt_map_cong) (auto simp: bt_get_None dest: bt_in_keys)
  with None show ?thesis by (simp add: cancel_orphaned_def)
next
  case (Some r)
  show ?thesis
  proof (cases "ar_status r = AS_Queued")
    case True
    have "bt_insert a (cancelled r) m = bt_map (\<lambda>k x. if k = a then cancelled x else x) m"
      by (rule bt_insert_as_map [OF assms Some])
    also have "\<dots> = bt_map (\<lambda>k x. if k = a \<and> ar_status x = AS_Queued then cancelled x else x) m"
      using True Some bt_in_get [OF assms] by (intro bt_map_cong) auto
    finally show ?thesis using True Some
      by (simp add: cancel_orphaned_def cancelled_def receipt_cancel_def)
  next
    case False
    then have "bt_map (\<lambda>k r. if k = a \<and> ar_status r = AS_Queued then cancelled r else r) m = bt_map (\<lambda>k r. r) m"
      using Some bt_in_get [OF assms] by (intro bt_map_cong) auto
    with False Some show ?thesis by (simp add: cancel_orphaned_def)
  qed
qed

lemma cancel_orphans_eq:
  assumes "bt_wf m"
  shows "try_fold cancel_orphaned m ids =
    Inr (bt_map (\<lambda>k r. if k \<in> set ids \<and> ar_status r = AS_Queued then cancelled r else r) m)"
  using assms
proof (induction ids arbitrary: m)
  case (Cons a ids)
  have "try_fold cancel_orphaned m (a # ids) = Inr (bt_map (\<lambda>k r. if k \<in> set ids \<and> ar_status r = AS_Queued then cancelled r else r)
      (bt_map (\<lambda>k r. if k = a \<and> ar_status r = AS_Queued then cancelled r else r) m))"
    using Cons by (simp add: cancel_orphaned_eq)
  also have "\<dots> = Inr (bt_map (\<lambda>k r. if k \<in> set (a # ids) \<and> ar_status r = AS_Queued then cancelled r else r) m)"
    by (auto simp: bt_map_map intro!: bt_map_cong)
  finally show ?case .
qed simp

definition recovered_running :: "action_receipt \<Rightarrow> action_receipt \<Rightarrow> bool" where
  "recovered_running r r' \<longleftrightarrow>
     (if ar_status r = AS_Running then \<exists>token. r' = fst (mark_unknown r UR_HostRestarted token) else r' = r)"

lemma recover_running_step:
  assumes "ar_status r = AS_Running \<longrightarrow> ar_dispatch_state r \<in> {DS_Dispatched, DS_Acknowledged}" "Suc (unat n) < 2 ^ 64"
  shows "\<exists>n' r'. recover_running (n, out) (a, r) = Inr (n', out @ [(a, r')]) \<and> unat n' \<le> Suc (unat n) \<and> recovered_running r r'"
proof (cases "ar_status r = AS_Running")
  case True
  have "from_suffix ReconcileToken (''restart-'' @ show_nat (unat n)) = Inr (id_prefix ReconcileToken @ ''restart-'' @ show_nat (unat n))"
    by (rule from_suffix_counter) (auto simp: well_formed_suffix_def id_first_char_def id_rest_char_def is_ascii_lowercase_def
        is_ascii_digit_def MAX_ID_LENGTH_def)
  moreover obtain n' where n': "checked_add64 n 1 = Some n'" using assms(2) by (simp add: checked_add64_def)
  moreover have "unat n' = Suc (unat n)" using n' checked_next_Some [of n n'] by (simp add: checked_next_def)
  ultimately show ?thesis using True assms(1)
    by (auto simp: recover_running_def mark_unknown_def recovered_running_def)
qed (auto simp: recover_running_def recovered_running_def)

lemma recover_running_fold:
  assumes "\<forall>(a, r) \<in> set es. ar_status r = AS_Running \<longrightarrow> ar_dispatch_state r \<in> {DS_Dispatched, DS_Acknowledged}"
    and "unat n + length es < 2 ^ 64"
  shows "\<exists>n' es'. try_fold recover_running (n, out) es = Inr (n', out @ es')
    \<and> list_all2 (\<lambda>(a, r) (a', r'). a' = a \<and> recovered_running r r') es es'"
  using assms
proof (induction es arbitrary: n out)
  case (Cons e es)
  obtain a r where e: "e = (a, r)" by force
  from Cons.prems have p: "ar_status r = AS_Running \<longrightarrow> ar_dispatch_state r \<in> {DS_Dispatched, DS_Acknowledged}"
    "Suc (unat n) < 2 ^ 64" by (auto simp: e)
  obtain n' r' where s: "recover_running (n, out) (a, r) = Inr (n', out @ [(a, r')])" "unat n' \<le> Suc (unat n)"
    "recovered_running r r'" using recover_running_step [OF p] by blast
  obtain n'' es' where "try_fold recover_running (n', out @ [(a, r')]) es = Inr (n'', (out @ [(a, r')]) @ es')"
    "list_all2 (\<lambda>(a, r) (a', r'). a' = a \<and> recovered_running r r') es es'"
    using Cons.IH [of n' "out @ [(a, r')]"] Cons.prems s(2) by auto
  with s show ?case by (intro exI [of _ n''] exI [of _ "(a, r') # es'"]) (simp add: e)
qed auto

definition lost_spaces :: "ledger_state \<Rightarrow> opaque_id list" where
  "lost_spaces st = map fst (filter (\<lambda>(_, space). loses_space (s_lifecycle space)) (lg_spaces st))"

definition orphaned_actions :: "ledger_state \<Rightarrow> opaque_id list" where
  "orphaned_actions st = concat (List.map_filter (bt_get (lg_action_queues st)) (lost_spaces st))"

definition recovered_state :: "ledger_state \<Rightarrow> (opaque_id, action_receipt) btree \<Rightarrow> ledger_state" where
  "recovered_state st actions = st\<lparr>lg_pending_fences := [], lg_takeover_proofs := [],
     lg_control_tickets := bt_map (\<lambda>_ ticket. ticket\<lparr>ct_broker_epoch := lg_broker_epoch st\<rparr>) (lg_control_tickets st),
     lg_spaces := bt_map (\<lambda>_. recovered_space) (lg_spaces st),
     lg_action_queues := fold bt_remove (lost_spaces st) (lg_action_queues st),
     lg_actions := actions\<rparr>"

definition recovered_receipt :: "bool \<Rightarrow> action_receipt \<Rightarrow> action_receipt \<Rightarrow> bool" where
  "recovered_receipt orphaned r r' \<longleftrightarrow>
     recovered_running (if orphaned \<and> ar_status r = AS_Queued then cancelled r else r) r'"

definition loadable :: "ledger_state \<Rightarrow> bool" where
  "loadable st \<longleftrightarrow> bt_wf (lg_spaces st) \<and> bt_wf (lg_actions st) \<and> bt_wf (lg_action_queues st)
     \<and> lg_snapshots st = [] \<and> length (lg_actions st) < 2 ^ 64"

lemma lost_spaces_mem:
  "bt_wf (lg_spaces st) \<Longrightarrow> k \<in> set (lost_spaces st) \<longleftrightarrow>
     (\<exists>space. bt_get (lg_spaces st) k = Some space \<and> loses_space (s_lifecycle space))"
  by (force simp: lost_spaces_def dest: bt_get_in bt_in_get)

lemma distinct_lost_spaces: "bt_wf (lg_spaces st) \<Longrightarrow> distinct (lost_spaces st)"
  unfolding lost_spaces_def bt_wf_def
  by (meson distinct_map_filter strict_sorted_iff)

lemma recover_after_restart_Ok:
  assumes l: "loadable st"
    and g: "\<forall>(k, space) \<in> set (lg_spaces st). loses_space (s_lifecycle space) \<longrightarrow> (\<forall>p \<in> set (s_pages space). generations_left p)"
    and d: "\<forall>(a, r) \<in> set (lg_actions st). ar_status r = AS_Running \<longrightarrow> ar_dispatch_state r \<in> {DS_Dispatched, DS_Acknowledged}"
  shows "\<exists>actions. recover_after_restart st = Inr (recovered_state st actions)
    \<and> list_all2 (\<lambda>(a, r) (a', r'). a' = a \<and> recovered_receipt (a \<in> set (orphaned_actions st)) r r') (lg_actions st) actions"
proof -
  let ?st1 = "st\<lparr>lg_pending_fences := [], lg_takeover_proofs := [],
      lg_control_tickets := bt_map (\<lambda>_ ticket. ticket\<lparr>ct_broker_epoch := lg_broker_epoch st\<rparr>) (lg_control_tickets st),
      lg_spaces := bt_map (\<lambda>_. orphan_space) (lg_spaces st)\<rparr>"
  let ?c = "bt_map (\<lambda>k r. if k \<in> set (orphaned_actions st) \<and> ar_status r = AS_Queued then cancelled r else r) (lg_actions st)"
  from l have wf: "bt_wf (lg_spaces st)" "bt_wf (lg_actions st)" by (auto simp: loadable_def)
  have sp: "bt_map (\<lambda>k space. if k \<in> set (lost_spaces st) then bump_space space else space) (bt_map (\<lambda>_. orphan_space) (lg_spaces st))
      = bt_map (\<lambda>_. recovered_space) (lg_spaces st)"
    using lost_spaces_mem [OF wf(1)] bt_in_get [OF wf(1)]
    by (auto simp: bt_map_map recovered_space_def intro!: bt_map_cong)
  have "try_fold recover_lost_space ?st1 (lost_spaces st)
      = Inr (?st1\<lparr>lg_spaces := bt_map (\<lambda>k space. if k \<in> set (lost_spaces st) then bump_space space else space) (lg_spaces ?st1)\<rparr>)"
  proof (rule recover_lost_spaces_eq)
    fix k assume "k \<in> set (lost_spaces st)"
    then obtain space where "bt_get (lg_spaces st) k = Some space" "loses_space (s_lifecycle space)"
      using lost_spaces_mem [OF wf(1)] by blast
    with g show "\<exists>space. bt_get (lg_spaces ?st1) k = Some space \<and> (\<forall>p \<in> set (s_pages space). generations_left p)"
      by (auto simp: bt_get_map orphan_space_def dest: bt_get_in)
  qed (use l distinct_lost_spaces [OF wf(1)] in \<open>auto simp: loadable_def\<close>)
  moreover have "\<forall>(a, r) \<in> set ?c. ar_status r = AS_Running \<longrightarrow> ar_dispatch_state r \<in> {DS_Dispatched, DS_Acknowledged}"
    using d by (fastforce simp: set_bt_map)
  then obtain n actions where a: "try_fold recover_running (0, []) ?c = Inr (n, actions)"
    "list_all2 (\<lambda>(a, r) (a', r'). a' = a \<and> recovered_running r r') ?c actions"
    using recover_running_fold [of ?c 0 "[]"] l by (auto simp: loadable_def)
  ultimately have "recover_after_restart st = Inr (recovered_state st actions)"
    using cancel_orphans_eq [OF wf(2), of "orphaned_actions st"] sp
    by (simp add: recover_after_restart_def lost_spaces_def [symmetric] orphaned_actions_def [symmetric] recovered_state_def Let_def)
  moreover have "list_all2 (\<lambda>(a, r) (a', r'). a' = a \<and> recovered_receipt (a \<in> set (orphaned_actions st)) r r') (lg_actions st) actions"
    using a(2) by (auto simp: bt_map_def list_all2_map1 recovered_receipt_def split_def elim!: list_all2_mono)
  ultimately show ?thesis by blast
qed

definition same_page :: "page_descriptor \<Rightarrow> page_descriptor \<Rightarrow> bool" where
  "same_page p p' \<longleftrightarrow> p' = p\<lparr>p_target_generation := p_target_generation p',
     p_navigation_generation := p_navigation_generation p',
     p_document_generation := p_document_generation p'\<rparr>"

lemma same_page_sel:
  assumes "same_page p p'"
  shows "p_page_id p' = p_page_id p" "page_entry_ok k p' = page_entry_ok k p"
    "admits_agent_mutations p' = admits_agent_mutations p"
proof -
  obtain a b c where "p' = p\<lparr>p_target_generation := a, p_navigation_generation := b, p_document_generation := c\<rparr>"
    using assms by (auto simp: same_page_def)
  then show "p_page_id p' = p_page_id p" "page_entry_ok k p' = page_entry_ok k p"
    "admits_agent_mutations p' = admits_agent_mutations p"
    by (simp_all add: page_entry_ok_def page_lifecycle_consistent_def admits_agent_mutations_def split: page_lifecycle.split)
qed

lemma with_generations_same: "with_generations p p' \<Longrightarrow> same_page p p'"
  by (simp add: with_generations_def same_page_def)

lemma recovered_pages:
  assumes "loses_space (s_lifecycle space) \<longrightarrow> (\<forall>p \<in> set (s_pages space). generations_left p)"
  shows "list_all2 same_page (s_pages space) (s_pages (recovered_space space))"
proof (cases "loses_space (s_lifecycle space)")
  case True
  with assms bump_space_pages [of "orphan_space space"] show ?thesis
    by (auto simp: recovered_space_def orphan_space_def with_generations_same elim!: list_all2_mono)
next
  case False
  then show ?thesis by (auto simp: recovered_space_def orphan_space_def same_page_def intro: list.rel_refl)
qed

lemma recovered_space_sel [simp]:
  "s_space_id (recovered_space space) = s_space_id space" "s_label (recovered_space space) = s_label space"
  "s_owner (recovered_space space) = s_owner space" "s_warnings (recovered_space space) = s_warnings space"
  "s_profile_binding (recovered_space space) = s_profile_binding space"
  "s_visual_group_hint (recovered_space space) = s_visual_group_hint space"
  "s_lease (recovered_space space) = fence_lease (s_lease space)"
  "s_lifecycle (recovered_space space) = (if loses_space (s_lifecycle space) then SL_Orphaned else s_lifecycle space)"
  by (simp_all add: recovered_space_def bump_space_def orphan_space_def)

lemma same_pages_ids: "list_all2 same_page ps ps' \<Longrightarrow> map p_page_id ps' = map p_page_id ps"
  by (induction rule: list_all2_induct) (auto simp: same_page_sel)

lemma same_pages_find:
  assumes "list_all2 same_page ps ps'" "List.find (\<lambda>p. p_page_id p = i) ps = Some p"
  shows "\<exists>p'. List.find (\<lambda>p. p_page_id p = i) ps' = Some p' \<and> same_page p p'"
  using assms by (induction rule: list_all2_induct) (auto simp: same_page_sel split: if_splits)

lemma recovered_lifecycle:
  assumes "lifecycle_matches_lease st k space"
    and "bt_contains (lg_control_tickets st') k = bt_contains (lg_control_tickets st) k"
  shows "lifecycle_matches_lease st' k (recovered_space space)"
  using assms
  by (cases "s_lifecycle space"; cases "s_lease space")
     (auto simp: lifecycle_matches_lease_def loses_space_def fence_lease_def Let_def;
      metis lease_state.exhaust)+

lemma recovered_space_ok:
  assumes "space_entry_ok limits st k space"
    and "loses_space (s_lifecycle space) \<longrightarrow> (\<forall>p \<in> set (s_pages space). generations_left p)"
    and "bt_contains (lg_control_tickets st') k = bt_contains (lg_control_tickets st) k"
  shows "space_entry_ok limits st' k (recovered_space space)"
proof -
  note pages = recovered_pages [OF assms(2)]
  have "\<forall>p \<in> set (s_pages (recovered_space space)). page_entry_ok k p"
  proof
    fix p' assume "p' \<in> set (s_pages (recovered_space space))"
    then obtain p where "p \<in> set (s_pages space)" "same_page p p'"
      using pages by (metis in_set_conv_nth list_all2_conv_all_nth)
    with assms(1) show "page_entry_ok k p'" by (simp add: same_page_sel space_entry_ok_def)
  qed
  moreover have "length (s_pages (recovered_space space)) = length (s_pages space)"
    using list_all2_lengthD [OF pages] by simp
  ultimately show ?thesis using assms(1) recovered_lifecycle [OF _ assms(3)]
    by (auto simp: space_entry_ok_def loses_space_def)
qed

lemma recovered_page_ids:
  assumes "\<forall>(k, space) \<in> set m. loses_space (s_lifecycle space) \<longrightarrow> (\<forall>p \<in> set (s_pages space). generations_left p)"
  shows "page_ids_of (bt_map (\<lambda>_. recovered_space) m) = page_ids_of m"
  using assms
proof (induction m)
  case (Cons e m)
  obtain k space where e: "e = (k, space)" by force
  from Cons have "map p_page_id (s_pages (recovered_space space)) = map p_page_id (s_pages space)"
    by (intro same_pages_ids recovered_pages) (auto simp: e)
  with Cons show ?case by (simp add: e bt_map_def page_ids_of_Cons)
qed (simp add: bt_map_def)

lemma recovered_action_page:
  assumes "validate_action_page space r = Inr ()"
    and "loses_space (s_lifecycle space) \<longrightarrow> (\<forall>p \<in> set (s_pages space). generations_left p)"
    and "ar_page_id r' = ar_page_id r" "ar_operation r' = ar_operation r"
    and "ar_status r' = AS_Queued \<longrightarrow> ar_status r = AS_Queued"
  shows "validate_action_page (recovered_space space) r' = Inr ()"
proof (cases "ar_page_id r")
  case None
  with assms show ?thesis by (simp add: validate_action_page_def)
next
  case (Some i)
  with assms(1) obtain p where "space_page space i = Some p" by (auto simp: validate_action_page_def)
  moreover from this obtain p' where "space_page (recovered_space space) i = Some p'" "same_page p p'"
    using same_pages_find [OF recovered_pages [OF assms(2)]] by (auto simp: space_page_def)
  ultimately show ?thesis using Some assms by (auto simp: validate_action_page_def same_page_sel)
qed

lemma recovered_receipt_ids:
  assumes "recovered_receipt orphaned r r'"
  shows "ar_action_id r' = ar_action_id r" "ar_space_id r' = ar_space_id r" "ar_page_id r' = ar_page_id r"
    "ar_operation r' = ar_operation r" "ar_idempotency_key r' = ar_idempotency_key r"
    "request_disagrees js a r' q = request_disagrees js a r q"
    "ar_status r' = AS_Queued \<longrightarrow> r' = r \<and> \<not> orphaned"
  using assms
  by (auto simp: recovered_receipt_def recovered_running_def cancelled_def receipt_cancel_def mark_unknown_def
      request_disagrees_def split: if_splits)

lemma recovered_status_ok:
  assumes "action_status_ok queued r" "recovered_receipt orphaned r r'"
    and "ar_status r = AS_Running \<longrightarrow> ar_completion_source r = CS_None"
    and "ar_status r = AS_Queued \<longrightarrow> queued' = (\<not> orphaned)" "queued' \<longrightarrow> queued"
  shows "action_status_ok queued' r' \<and> ar_status r' \<noteq> AS_Running"
  using assms
  by (cases "ar_status r")
     (auto simp: action_status_ok_def recovered_receipt_def recovered_running_def cancelled_def receipt_cancel_def mark_unknown_def)

lemma bt_get_fold_remove:
  "bt_wf m \<Longrightarrow> bt_wf (fold bt_remove ks m) \<and> bt_get (fold bt_remove ks m) k = (if k \<in> set ks then None else bt_get m k)"
  by (induction ks arbitrary: m) (auto simp: bt_get_remove bt_wf_remove)

lemma distinct_concat_fold_remove:
  "distinct (concat (map snd m)) \<Longrightarrow> distinct (concat (map snd (fold bt_remove ks m)))"
proof (induction ks arbitrary: m)
  case (Cons k ks)
  have "distinct (concat (map snd (bt_remove k m)))"
    using Cons.prems
  proof (induction m)
    case (Cons e m)
    moreover have "set (concat (map snd (bt_remove k m))) \<subseteq> set (concat (map snd m))"
      using set_bt_remove_subset [of k m] by fastforce
    ultimately show ?case by (cases e) (simp add: disjoint_iff subset_iff, blast)
  qed simp
  then show ?case using Cons.IH by simp
qed simp

lemma queue_membership:
  assumes "bt_wf (lg_action_queues st)"
  shows "a \<in> set (queued_actions st) \<longleftrightarrow> (\<exists>k q. bt_get (lg_action_queues st) k = Some q \<and> a \<in> set q)"
  using bt_in_get [OF assms] by (force simp: queued_actions_def dest: bt_get_in)

lemma orphaned_membership:
  "a \<in> set (orphaned_actions st) \<longleftrightarrow>
     (\<exists>k q. k \<in> set (lost_spaces st) \<and> bt_get (lg_action_queues st) k = Some q \<and> a \<in> set q)"
  by (force simp: orphaned_actions_def List.map_filter_def)

lemma recovered_actions_ok:
  assumes ok: "actions_ok js limits st" and l: "loadable st"
    and st: "lg_spaces st' = bt_map (\<lambda>_. recovered_space) (lg_spaces st)" "lg_actions st' = actions"
      "lg_action_queues st' = fold bt_remove (lost_spaces st) (lg_action_queues st)"
      "lg_action_requests st' = lg_action_requests st" "lg_idempotency st' = lg_idempotency st"
    and a: "list_all2 (\<lambda>(a, r) (a', r'). a' = a \<and> recovered_receipt (a \<in> set (orphaned_actions st)) r r') (lg_actions st) actions"
    and g: "\<forall>(k, space) \<in> set (lg_spaces st). loses_space (s_lifecycle space) \<longrightarrow> (\<forall>p \<in> set (s_pages space). generations_left p)"
    and c: "\<forall>(a, r) \<in> set (lg_actions st). ar_status r = AS_Running \<longrightarrow> ar_completion_source r = CS_None"
  shows "actions_ok js limits st' \<and> (\<forall>(a, r) \<in> set actions. ar_status r \<noteq> AS_Running)"
proof -
  let ?O = "set (orphaned_actions st)" and ?Q = "set (queued_actions st)" and ?Q' = "set (queued_actions st')"
  from l have wf: "bt_wf (lg_spaces st)" "bt_wf (lg_actions st)" "bt_wf (lg_action_queues st)" by (auto simp: loadable_def)
  note rm = bt_get_fold_remove [OF wf(3), of "lost_spaces st"]
  have Q': "a \<in> ?Q' \<longleftrightarrow> (\<exists>k q. k \<notin> set (lost_spaces st) \<and> bt_get (lg_action_queues st) k = Some q \<and> a \<in> set q)" for a
    using queue_membership [of st'] rm by (auto simp: st)
  have queue: "bt_get (lg_actions st) a = Some r \<Longrightarrow> a \<in> set q \<Longrightarrow> bt_get (lg_action_queues st) k = Some q
      \<Longrightarrow> ar_space_id r = k \<and> ar_status r = AS_Queued" for a r k q
    using ok bt_get_in [of "lg_action_queues st" k q] by (fastforce simp: actions_ok_def queue_entry_ok_def)
  have entry: "action_entry_ok js st ?Q a r" if "bt_get (lg_actions st) a = Some r" for a r
    using ok that by (auto simp: actions_ok_def dest: bt_get_in)
  have split: "a \<in> ?Q' \<longleftrightarrow> a \<in> ?Q \<and> a \<notin> ?O" if "bt_get (lg_actions st) a = Some r" for a r
    using queue [OF that] queue_membership [OF wf(3)] orphaned_membership [of a st] Q' by metis
  have rel: "\<exists>r. bt_get (lg_actions st) a = Some r \<and> recovered_receipt (a \<in> ?O) r r'" if "(a, r') \<in> set actions" for a r'
    using a that bt_in_get [OF wf(2)] by (fastforce simp: list_all2_conv_all_nth in_set_conv_nth)
  have main: "action_entry_ok js st' ?Q' a r' \<and> ar_status r' \<noteq> AS_Running" if "(a, r') \<in> set actions" for a r'
  proof -
    obtain r where r: "bt_get (lg_actions st) a = Some r" "recovered_receipt (a \<in> ?O) r r'" using rel \<open>(a, r') \<in> set actions\<close> by blast
    from c r(1) have cs: "ar_status r = AS_Running \<longrightarrow> ar_completion_source r = CS_None" by (auto dest: bt_get_in)
    have e: "action_status_ok (a \<in> ?Q) r" using entry [OF r(1)] by (simp add: action_entry_ok_def)
    then have "ar_status r = AS_Queued \<longrightarrow> (a \<in> ?Q') = (a \<notin> ?O)" using split [OF r(1)] by (auto simp: action_status_ok_def)
    then have s: "action_status_ok (a \<in> ?Q') r' \<and> ar_status r' \<noteq> AS_Running"
      using recovered_status_ok [OF e r(2) cs] split [OF r(1)] by blast
    obtain space where sp: "bt_get (lg_spaces st) (ar_space_id r) = Some space" "validate_action_page space r = Inr ()"
      using entry [OF r(1)] by (auto simp: action_entry_ok_def)
    then have "validate_action_page (recovered_space space) r' = Inr ()"
      using g bt_get_in [OF sp(1)] recovered_receipt_ids [OF r(2)] by (intro recovered_action_page) (blast | simp)+
    with sp s entry [OF r(1)] show ?thesis
      by (auto simp: action_entry_ok_def st bt_get_map recovered_receipt_ids [OF r(2)])
  qed
  have "map (ar_idempotency_key \<circ> snd) actions = map (ar_idempotency_key \<circ> snd) (lg_actions st)"
    using a by (auto simp: list_all2_conv_all_nth recovered_receipt_ids(5) split_def intro!: nth_equalityI)
  moreover have "filter runs_mutation (bt_values actions) = []"
    using main by (force simp: runs_mutation_def bt_values_def filter_empty_conv)
  moreover have "queue_entry_ok limits st' k q" if "(k, q) \<in> set (lg_action_queues st')" for k q
  proof -
    have k: "bt_get (lg_action_queues st) k = Some q" "k \<notin> set (lost_spaces st)"
      using that rm bt_in_get [of "lg_action_queues st'" k q] by (auto simp: st split: if_splits)
    then have old: "queue_entry_ok limits st k q" using ok by (auto simp: actions_ok_def dest: bt_get_in)
    have "\<exists>r. bt_get actions x = Some r \<and> ar_space_id r = k \<and> ar_status r = AS_Queued" if x: "x \<in> set q" for x
    proof -
      obtain r where r: "bt_get (lg_actions st) x = Some r" "ar_space_id r = k" "ar_status r = AS_Queued"
        using old x by (auto simp: queue_entry_ok_def)
      obtain r' where r': "(x, r') \<in> set actions" "recovered_receipt (x \<in> ?O) r r'"
        using bt_get_in [OF r(1)] a by (fastforce simp: list_all2_conv_all_nth in_set_conv_nth)
      have keys: "map fst actions = map fst (lg_actions st)"
        using a by (auto simp: list_all2_conv_all_nth split_def intro!: nth_equalityI)
      with wf(2) have "bt_wf actions" by (simp add: bt_wf_def)
      moreover have "x \<notin> ?O" using split [OF r(1)] Q' k x by blast
      ultimately show ?thesis using r r' bt_in_get [of actions x r']
        by (auto simp: recovered_receipt_def recovered_running_def)
    qed
    with old show ?thesis by (auto simp: queue_entry_ok_def st)
  qed
  moreover have "length actions = length (lg_actions st)" using a by (simp add: list_all2_lengthD)
  moreover have "distinct (queued_actions st')"
    using ok by (auto simp: actions_ok_def queued_actions_def st intro: distinct_concat_fold_remove)
  ultimately show ?thesis using ok main by (auto simp: actions_ok_def st)
qed

lemma recovered_tickets:
  assumes "validate_control_tickets st = Inr ()"
    and "lg_spaces st' = bt_map (\<lambda>_. recovered_space) (lg_spaces st)"
    and "lg_control_tickets st' = bt_map (\<lambda>_ ticket. ticket\<lparr>ct_broker_epoch := lg_broker_epoch st'\<rparr>) (lg_control_tickets st)"
  shows "validate_control_tickets st' = Inr ()"
  using assms
  by (fastforce simp: validate_control_tickets_def set_bt_map bt_get_map is_some_and_iff loses_space_def fence_lease_def)

lemma recovered_indexes:
  assumes "validate_indexes st = Inr ()"
    and "lg_spaces st' = bt_map (\<lambda>_. recovered_space) (lg_spaces st)"
    and "lg_space_generations st' = lg_space_generations st" "lg_profile_bindings st' = lg_profile_bindings st"
      "lg_extension_worker_instance_epoch st' = lg_extension_worker_instance_epoch st"
      "lg_extension_browser_session_epoch st' = lg_extension_browser_session_epoch st"
  shows "validate_indexes st' = Inr ()"
proof -
  have "binding_index_wrong st' (k, recovered_space space) = binding_index_wrong st (k, space)" for k space
    using assms by (cases "s_profile_binding space") (simp_all add: binding_index_wrong_def)
  with assms show ?thesis
    by (auto simp: validate_indexes_def list_ex_iff set_bt_map split_def)
qed

lemma recovered_state_valid:
  assumes v: "validate_state js limits st = Inr ()" and l: "loadable st"
    and g: "\<forall>(k, space) \<in> set (lg_spaces st). loses_space (s_lifecycle space) \<longrightarrow> (\<forall>p \<in> set (s_pages space). generations_left p)"
    and c: "\<forall>(a, r) \<in> set (lg_actions st). ar_status r = AS_Running \<longrightarrow> ar_completion_source r = CS_None"
    and a: "list_all2 (\<lambda>(a, r) (a', r'). a' = a \<and> recovered_receipt (a \<in> set (orphaned_actions st)) r r') (lg_actions st) actions"
    and st': "st' = recovered_state (st\<lparr>lg_broker_epoch := epoch, lg_connection_epoch := 0,
       lg_connection_principal_id := None, lg_connection_nonce := None,
       lg_connection_profile_binding_id := None, lg_event_sequence := 0, lg_events := []\<rparr>) actions"
  shows "validate_state js limits st' = Inr () \<longleftrightarrow> validate_bytes js limits st' = Inr ()"
    "(a, r) \<in> set (lg_actions st') \<Longrightarrow> ar_status r \<noteq> AS_Running"
proof -
  have sel: "lg_spaces st' = bt_map (\<lambda>_. recovered_space) (lg_spaces st)" "lg_actions st' = actions"
      "lg_action_queues st' = fold bt_remove (lost_spaces st) (lg_action_queues st)"
      "lg_action_requests st' = lg_action_requests st" "lg_idempotency st' = lg_idempotency st"
      "lg_control_tickets st' = bt_map (\<lambda>_ ticket. ticket\<lparr>ct_broker_epoch := lg_broker_epoch st'\<rparr>) (lg_control_tickets st)"
      "lg_space_generations st' = lg_space_generations st" "lg_profile_bindings st' = lg_profile_bindings st"
      "lg_extension_worker_instance_epoch st' = lg_extension_worker_instance_epoch st"
      "lg_extension_browser_session_epoch st' = lg_extension_browser_session_epoch st"
      "lg_pending_fences st' = []" "lg_takeover_proofs st' = []" "lg_events st' = []" "lg_event_sequence st' = 0"
      "lg_snapshots st' = []" "lg_schema_version st' = lg_schema_version st"
    using l by (simp_all add: st' recovered_state_def lost_spaces_def loadable_def)
  from v have V: "validate_counts limits st = Inr ()" "validate_indexes st = Inr ()" "validate_control_tickets st = Inr ()"
    "actions_ok js limits st" "\<forall>(k, space) \<in> set (lg_spaces st). space_entry_ok limits st k space" "distinct (page_ids_of (lg_spaces st))"
    by (auto simp: validate_state_iff)
  note A = recovered_actions_ok [OF V(4) l sel(1-5) a g c]
  have len: "length actions = length (lg_actions st)" using a by (simp add: list_all2_lengthD)
  have "space_entry_ok limits st' k (recovered_space space)" if "(k, space) \<in> set (lg_spaces st)" for k space
    by (rule recovered_space_ok) (use V(5) g that in \<open>auto simp: sel(6)\<close>)
  then have "\<forall>(k, space) \<in> set (lg_spaces st'). space_entry_ok limits st' k space"
    by (auto simp: sel(1) set_bt_map)
  moreover have "distinct (page_ids_of (lg_spaces st'))" using V(6) recovered_page_ids [OF g] by (simp add: sel(1))
  moreover have "validate_counts limits st' = Inr ()" using V(1) len by (simp add: validate_counts_def sel)
  moreover have "validate_fence_lifecycles st' = Inr ()"
    by (auto simp: validate_fence_lifecycles_def sel(1) set_bt_map loses_space_def)
  moreover have "validate_events limits st' = Inr ()" by (simp add: validate_events_def sel)
  moreover have "validate_snapshots js limits st' = Inr ()" by (simp add: validate_snapshots_def sel)
  ultimately show "validate_state js limits st' = Inr () \<longleftrightarrow> validate_bytes js limits st' = Inr ()"
    using A recovered_indexes [OF V(2) sel(1,7-10)] recovered_tickets [OF V(3) sel(1) sel(6)]
    by (auto simp: validate_state_iff sel(11,12))
  show "(a, r) \<in> set (lg_actions st') \<Longrightarrow> ar_status r \<noteq> AS_Running" using A by (auto simp: sel(2))
qed

lemma fence_lease_inactive: "fence_lease x = Some l \<Longrightarrow> l_state l \<noteq> LS_Active"
  by (cases x) (auto simp: fence_lease_def split: if_splits)

lemma recovered_receipt_unknown:
  assumes "recovered_receipt orphaned r r'" "ar_status r = AS_Running" "ar_dispatch_state r \<in> {DS_Dispatched, DS_Acknowledged}"
  shows "ar_status r' = AS_Unknown \<and> ar_unknown_reason r' = Some UR_HostRestarted \<and> requires_reconciliation r'"
  using assms by (auto simp: recovered_receipt_def recovered_running_def mark_unknown_def requires_reconciliation_def)

lemma recovered_running_status:
  assumes "recovered_receipt orphaned r r'" "ar_status r = AS_Running \<longrightarrow> ar_dispatch_state r \<in> {DS_Dispatched, DS_Acknowledged}"
  shows "ar_status r' \<noteq> AS_Running"
  using assms by (auto simp: recovered_receipt_def recovered_running_def mark_unknown_def split: if_splits)

lemma recovered_running_source:
  assumes "recovered_receipt orphaned r r'" "ar_status r = AS_Running" "ar_dispatch_state r \<in> {DS_Dispatched, DS_Acknowledged}"
  shows "ar_status r' = AS_Unknown" "ar_completion_source r' = ar_completion_source r"
  using assms by (auto simp: recovered_receipt_def recovered_running_def mark_unknown_def)

lemma bump_pages_left: "try_map ledger_bump_page_generations ps = Inr ps' \<Longrightarrow> p \<in> set ps \<Longrightarrow> generations_left p"
  by (induction ps arbitrary: ps') (auto simp: generations_left_def ledger_bump_page_generations_def)

lemma recover_lost_spaces_left:
  assumes "try_fold recover_lost_space st ks = Inr st'" "bt_wf (lg_spaces st)" "distinct ks"
    and "k \<in> set ks" "bt_get (lg_spaces st) k = Some space" "p \<in> set (s_pages space)"
  shows "generations_left p"
  using assms
proof (induction ks arbitrary: st)
  case (Cons j ks)
  obtain st1 where s: "recover_lost_space st j = Inr st1" "try_fold recover_lost_space st1 ks = Inr st'"
    using Cons.prems(1) by auto
  show ?case
  proof (cases "k = j")
    case True
    with s(1) Cons.prems(5,6) show ?thesis by (auto simp: recover_lost_space_def bump_pages_left)
  next
    case False
    moreover have "bt_wf (lg_spaces st1)" "bt_get (lg_spaces st1) k = bt_get (lg_spaces st) k"
      using s(1) Cons.prems(2) False
      by (auto simp: recover_lost_space_def bt_wf_insert bt_get_insert split: option.splits)
    ultimately show ?thesis using Cons.IH [OF s(2)] Cons.prems by simp
  qed
qed simp

definition restarts :: "ledger_state \<Rightarrow> bool" where
  "restarts st \<longleftrightarrow> is_some (counter_checked_next (lg_broker_epoch st))
     \<and> (\<forall>(k, space) \<in> set (lg_spaces st). loses_space (s_lifecycle space) \<longrightarrow> (\<forall>p \<in> set (s_pages space). generations_left p))"

lemma restart_state_left:
  assumes "restart_state st = Inr st'" "loadable st"
  shows "restarts st"
proof -
  obtain epoch where e: "counter_checked_next (lg_broker_epoch st) = Some epoch"
    using assms(1) by (auto simp: restart_state_def)
  have "generations_left p" if k: "(k, space) \<in> set (lg_spaces st)" "loses_space (s_lifecycle space)" "p \<in> set (s_pages space)" for k space p
  proof -
    obtain st1 st2 where r: "try_fold recover_lost_space st1 (lost_spaces st) = Inr st2"
      "lg_spaces st1 = bt_map (\<lambda>_. orphan_space) (lg_spaces st)"
      using assms(1) by (auto simp: restart_state_def recover_after_restart_def lost_spaces_def Let_def)
    have wf: "bt_wf (lg_spaces st)" using assms(2) by (simp add: loadable_def)
    have g: "bt_get (lg_spaces st) k = Some space" by (rule bt_in_get [OF wf k(1)])
    then have "k \<in> set (lost_spaces st)" using lost_spaces_mem [OF wf] k(2) by blast
    with recover_lost_spaces_left [OF r(1)] distinct_lost_spaces [OF wf] wf g k(3) show ?thesis
      by (force simp: r(2) bt_get_map orphan_space_def)
  qed
  with e show ?thesis by (auto simp: restarts_def)
qed

text \<open>
  C2: Recovery after a restart, exactly. A ledger the validator accepted is recovered if and only if the
  broker epoch and the generations of the pages of every space that is lost have a successor. Then the broker epoch
  advances, no action is left running, every action that ran has an unknown outcome to be reconciled, and no
  lease of the previous process admits a mutation. The recovered state is accepted again if and only if it is not
  too large and no action was running with a completion source, which the validator does not exclude.
  A loaded state has ordered maps and no snapshots, which the file does not hold.
\<close>

theorem restart_recovers:
  assumes "validate_state js limits st = Ok ()" "loadable st"
  shows "((\<exists>st'. restart_state st = Ok st') \<longleftrightarrow> restarts st)
    \<and> (\<forall>st'. restart_state st = Ok st' \<longrightarrow> lg_broker_epoch st < lg_broker_epoch st'
      \<and> (validate_state js limits st' = Ok () \<longleftrightarrow> validate_bytes js limits st' = Ok ()
          \<and> (\<forall>(a, r) \<in> set (lg_actions st). ar_status r = AS_Running \<longrightarrow> ar_completion_source r = CS_None))
      \<and> (\<forall>a r'. (a, r') \<in> set (lg_actions st') \<longrightarrow> ar_status r' \<noteq> AS_Running)
      \<and> (\<forall>a r. (a, r) \<in> set (lg_actions st) \<and> ar_status r = AS_Running \<longrightarrow>
           (\<exists>r'. (a, r') \<in> set (lg_actions st') \<and> ar_status r' = AS_Unknown
             \<and> ar_unknown_reason r' = Some UR_HostRestarted \<and> requires_reconciliation r'))
      \<and> (\<forall>k space. (k, space) \<in> set (lg_spaces st') \<longrightarrow> \<not> space_admits_mutations (s_lifecycle space)
           \<and> is_none_or (s_lease space) (\<lambda>l. \<not> lease_admits_mutations (l_state l))))"
proof (cases "restarts st")
  case False
  then show ?thesis using restart_state_left [OF _ assms(2)] by auto
next
  case True
  then have gen: "\<forall>(k, space) \<in> set (lg_spaces st). loses_space (s_lifecycle space) \<longrightarrow> (\<forall>p \<in> set (s_pages space). generations_left p)"
    by (simp add: restarts_def)
  obtain epoch where e: "counter_checked_next (lg_broker_epoch st) = Some epoch" using True by (auto simp: restarts_def)
  let ?st = "st\<lparr>lg_broker_epoch := epoch, lg_connection_epoch := 0,
       lg_connection_principal_id := None, lg_connection_nonce := None,
       lg_connection_profile_binding_id := None, lg_event_sequence := 0, lg_events := []\<rparr>"
  have "actions_ok js limits st" using assms(1) by (auto simp: validate_state_iff)
  then have d: "ar_dispatch_state r \<in> {DS_Dispatched, DS_Acknowledged}" if "(a, r) \<in> set (lg_actions st)" "ar_status r = AS_Running" for a r
    using that by (fastforce simp: actions_ok_def action_entry_ok_def action_status_ok_def)
  have "\<exists>actions. recover_after_restart ?st = Inr (recovered_state ?st actions)
    \<and> list_all2 (\<lambda>(a, r) (a', r'). a' = a \<and> recovered_receipt (a \<in> set (orphaned_actions ?st)) r r') (lg_actions ?st) actions"
    by (rule recover_after_restart_Ok) (use assms(2) gen d in \<open>auto simp: loadable_def\<close>)
  then obtain actions where r: "recover_after_restart ?st = Inr (recovered_state ?st actions)"
    "list_all2 (\<lambda>(a, r) (a', r'). a' = a \<and> recovered_receipt (a \<in> set (orphaned_actions st)) r r') (lg_actions st) actions"
    by (auto simp: orphaned_actions_def lost_spaces_def)
  define st' where "st' = recovered_state ?st actions"
  have acts: "lg_actions st' = actions" by (simp add: st'_def recovered_state_def)
  have fwd: "\<exists>r'. (a, r') \<in> set actions \<and> recovered_receipt (a \<in> set (orphaned_actions st)) r r'" if "(a, r) \<in> set (lg_actions st)" for a r
    using that r(2) by (fastforce simp: list_all2_conv_all_nth in_set_conv_nth)
  have bwd: "\<exists>r. (a, r) \<in> set (lg_actions st) \<and> recovered_receipt (a \<in> set (orphaned_actions st)) r r'" if "(a, r') \<in> set actions" for a r'
    using that r(2) by (fastforce simp: list_all2_conv_all_nth in_set_conv_nth)
  have stopped: "ar_status r' \<noteq> AS_Running" if "(a, r') \<in> set (lg_actions st')" for a r'
    using bwd [of a r'] that d recovered_running_status unfolding acts by blast
  have ran: "\<exists>r'. (a, r') \<in> set (lg_actions st') \<and> ar_status r' = AS_Unknown \<and> ar_unknown_reason r' = Some UR_HostRestarted
      \<and> requires_reconciliation r' \<and> ar_completion_source r' = ar_completion_source r"
    if "(a, r) \<in> set (lg_actions st)" "ar_status r = AS_Running" for a r
    using fwd [OF that(1)] recovered_receipt_unknown recovered_running_source that(2) d [OF that] unfolding acts by blast
  have "ar_completion_source r = CS_None" if v: "validate_state js limits st' = Inr ()"
      and k: "(a, r) \<in> set (lg_actions st)" "ar_status r = AS_Running" for a r
  proof -
    have ok: "actions_ok js limits st'" using v by (auto simp: validate_state_iff)
    obtain r' where r': "(a, r') \<in> set (lg_actions st')" "ar_status r' = AS_Unknown" "ar_completion_source r' = ar_completion_source r"
      using ran k by blast
    with ok show ?thesis by (fastforce simp: actions_ok_def action_entry_ok_def action_status_ok_def)
  qed
  moreover have "validate_state js limits st' = Inr () \<longrightarrow> validate_bytes js limits st' = Inr ()"
    by (simp add: validate_state_iff)
  moreover have "validate_state js limits st' = Inr ()" if "validate_bytes js limits st' = Inr ()"
      "\<forall>(a, r) \<in> set (lg_actions st). ar_status r = AS_Running \<longrightarrow> ar_completion_source r = CS_None"
    using recovered_state_valid(1) [OF assms gen that(2) r(2) refl, where epoch = epoch, folded st'_def] that(1) by simp
  moreover have "\<not> space_admits_mutations (s_lifecycle space) \<and> is_none_or (s_lease space) (\<lambda>l. \<not> lease_admits_mutations (l_state l))"
    if "(k, space) \<in> set (lg_spaces st')" for k space
    using that [unfolded st'_def] fence_lease_inactive
    by (auto simp: recovered_state_def set_bt_map loses_space_def is_none_or_iff record_simps split: if_splits)
  moreover have "restart_state st = Inr st'" by (simp add: restart_state_def e r(1) st'_def)
  moreover have "lg_broker_epoch st < lg_broker_epoch st'"
    using e by (simp add: st'_def recovered_state_def counter_checked_next_def checked_next_less)
  ultimately show ?thesis using True stopped ran by fastforce
qed

section \<open>Transactions are atomic and keep the state valid\<close>

lemma persist_current_sel:
  "ld_state (fst (persist_current js io l)) = ld_state l" "ld_limits (fst (persist_current js io l)) = ld_limits l"
  "snd (persist_current js io l) = Inr u \<Longrightarrow> ld_disk (fst (persist_current js io l)) = Some (ld_state l)"
  by (auto simp: persist_current_def checks.simps split: sum.splits)

lemma ledger_update_cases:
  obtains (failed) e where "snd (ledger_update js io f l) = Inl e" "ld_state (fst (ledger_update js io f l)) = ld_state l"
      "ld_limits (fst (ledger_update js io f l)) = ld_limits l"
  | (committed) v s where "snd (ledger_update js io f l) = Inr v" "f (ld_state l) = (s, Inr v)"
      "ld_state (fst (ledger_update js io f l)) = retain_events (ll_max_events (ld_limits l)) s"
      "ld_limits (fst (ledger_update js io f l)) = ld_limits l"
      "validate_state js (ld_limits l) (retain_events (ll_max_events (ld_limits l)) s) = Inr ()"
      "ld_disk (fst (ledger_update js io f l)) = Some (retain_events (ll_max_events (ld_limits l)) s)"
proof -
  let ?R = "ledger_update js io f l"
  have "(\<exists>e. snd ?R = Inl e \<and> ld_state (fst ?R) = ld_state l \<and> ld_limits (fst ?R) = ld_limits l)
    \<or> (\<exists>v s. snd ?R = Inr v \<and> f (ld_state l) = (s, Inr v)
      \<and> ld_state (fst ?R) = retain_events (ll_max_events (ld_limits l)) s \<and> ld_limits (fst ?R) = ld_limits l
      \<and> validate_state js (ld_limits l) (retain_events (ll_max_events (ld_limits l)) s) = Inr ()
      \<and> ld_disk (fst ?R) = Some (retain_events (ll_max_events (ld_limits l)) s))"
  proof (cases "io_owner io")
    case (Inr _)
    obtain s r where f: "f (ld_state l) = (s, r)" by force
    let ?s = "retain_events (ll_max_events (ld_limits l)) s"
    obtain l' p where p: "persist_current js io (l\<lparr>ld_state := ?s\<rparr>) = (l', p)" by force
    show ?thesis using Inr f p persist_current_sel [of js io "l\<lparr>ld_state := ?s\<rparr>"]
      by (cases r; cases "validate_state js (ld_limits l) ?s"; cases p) (simp_all add: ledger_update_def)
  qed (simp add: ledger_update_def)
  then show thesis using that by metis
qed

definition ledger_valid :: "json_writer \<Rightarrow> ledger \<Rightarrow> bool" where
  "ledger_valid js l \<longleftrightarrow> validate_state js (ld_limits l) (ld_state l) = Inr ()"

type_synonym ledger_op = "ledger_io \<times> (ledger_state \<Rightarrow> ledger_state \<times> (host_error, unit) result)"

definition ledger_step :: "json_writer \<Rightarrow> ledger \<Rightarrow> ledger_op \<Rightarrow> ledger" where
  "ledger_step js l op = fst (ledger_update js (fst op) (snd op) l)"

interpretation lg: preserved "ledger_step js" "ledger_valid js" for js
proof
  fix l and op :: ledger_op assume "ledger_valid js l"
  then show "ledger_valid js (ledger_step js l op)"
    by (cases rule: ledger_update_cases [of js "fst op" "snd op" l]) (auto simp: ledger_valid_def ledger_step_def)
qed

text \<open>
  An update either commits, and then the ledger and the file hold the transition's state, cut to
  the retained events and accepted by the validator, or it fails and the ledger is as before.
\<close>

theorem update_commits_or_restores:
  "case ledger_update js io f l of
     (l', Inl e) \<Rightarrow> ld_state l' = ld_state l \<and> ld_limits l' = ld_limits l
   | (l', Inr v) \<Rightarrow> (\<exists>s. f (ld_state l) = (s, Ok v) \<and> ld_state l' = retain_events (ll_max_events (ld_limits l)) s)
       \<and> validate_state js (ld_limits l') (ld_state l') = Ok () \<and> ld_disk l' = Some (ld_state l')"
  by (cases rule: ledger_update_cases [of js io f l]) (auto split: prod.splits sum.splits)

lemma open_valid: "ledger_open js io limits parsed = Inr l \<Longrightarrow> ledger_valid js l \<and> ld_limits l = limits"
  by (auto simp: ledger_open_def persist_current_def ledger_valid_def split: prod.splits sum.splits)


lemma ledger_step_limits: "ld_limits (ledger_step js l op) = ld_limits l"
  by (cases rule: ledger_update_cases [of js "fst op" "snd op" l]) (simp_all add: ledger_step_def)

lemma bytes_within:
  "validate_bytes js limits st = Inr () \<Longrightarrow> \<exists>bytes. jw_state js st = Inr bytes \<and> bytes \<le> ll_max_ledger_bytes limits"
  by (cases "jw_state js st") (auto simp: validate_bytes_def)

lemma snapshots_counted:
  assumes "try_fold (\<lambda>count (space_id, pages).
       and_then (ok_or (bt_get (lg_spaces st) space_id) e) (\<lambda>space.
       and_then (try_each (validate_snapshot_record js limits space_id space) pages)
       (\<lambda>_. Ok (count + length pages)))) n ss = Inr m"
  shows "m = n + sum_list (map (\<lambda>(k, pages). length pages) ss)
    \<and> (\<forall>(k, pages) \<in> set ss. \<exists>space. try_each (validate_snapshot_record js limits k space) pages = Inr ())"
  using assms by (induction ss arbitrary: n) fastforce+

lemma snapshot_record_within:
  "validate_snapshot_record js limits k space (p, record) = Inr () \<Longrightarrow>
     \<exists>bytes. jw_envelope js (cr_envelope record) = Inr bytes \<and> bytes \<le> ll_max_snapshot_bytes limits"
  by (cases "jw_envelope js (cr_envelope record)") (auto simp: validate_snapshot_record_def)

lemma snapshots_within:
  assumes "validate_snapshots js limits st = Inr ()"
  shows "sum_list (map (\<lambda>(k, pages). length pages) (lg_snapshots st)) \<le> ll_max_snapshots limits
    \<and> (\<forall>(k, pages) \<in> set (lg_snapshots st). \<forall>(p, record) \<in> set pages.
         \<exists>bytes. jw_envelope js (cr_envelope record) = Inr bytes \<and> bytes \<le> ll_max_snapshot_bytes limits)"
  using assms unfolding validate_snapshots_def
  by (fastforce dest!: snapshots_counted dest: snapshot_record_within)

text \<open>
  C22: Whatever transitions the broker runs, a ledger that was opened has at all times at most one
  running mutation per space, no action queued twice, no page identity in two places, one
  idempotency key per action, and stays within every limit it was opened with: on the spaces, the pages of
  each space, the actions, the queue of each space, the events, the snapshots and the size of each snapshot, and the
  serialized size of the whole; no space has more than 16 warnings.
\<close>

theorem ledger_invariant:
  fixes ops :: "ledger_op list"
  assumes "ledger_open js io limits parsed = Ok l"
  defines "st \<equiv> ld_state (foldl (ledger_step js) l ops)"
  shows "distinct (map ar_space_id (filter runs_mutation (bt_values (lg_actions st))))
    \<and> distinct (queued_actions st) \<and> distinct (page_ids_of (lg_spaces st))
    \<and> distinct (map ar_idempotency_key (bt_values (lg_actions st)))
    \<and> length (lg_spaces st) \<le> ll_max_spaces limits \<and> length (lg_actions st) \<le> ll_max_actions limits
    \<and> length (lg_events st) \<le> ll_max_events limits
    \<and> (\<forall>(k, space) \<in> set (lg_spaces st). length (s_pages space) \<le> ll_max_pages_per_space limits \<and> length (s_warnings space) \<le> 16)
    \<and> (\<forall>(k, queue) \<in> set (lg_action_queues st). length queue \<le> ll_max_queued_actions_per_space limits)
    \<and> sum_list (map (\<lambda>(k, pages). length pages) (lg_snapshots st)) \<le> ll_max_snapshots limits
    \<and> (\<forall>(k, pages) \<in> set (lg_snapshots st). \<forall>(p, record) \<in> set pages.
         \<exists>bytes. jw_envelope js (cr_envelope record) = Ok bytes \<and> bytes \<le> ll_max_snapshot_bytes limits)
    \<and> (\<exists>bytes. jw_state js st = Ok bytes \<and> bytes \<le> ll_max_ledger_bytes limits)"
proof -
  have lim: "ld_limits (foldl (ledger_step js) l ops) = ld_limits l"
    by (induction ops arbitrary: l) (simp_all add: ledger_step_limits)
  have "ledger_valid js (foldl (ledger_step js) l ops)" by (rule lg.run_inv) (use open_valid [OF assms(1)] in blast)
  then have "validate_state js limits st = Inr ()"
    using open_valid [OF assms(1)] lim by (simp add: ledger_valid_def st_def)
  then have v: "validate_counts limits st = Inr ()" "actions_ok js limits st" "distinct (page_ids_of (lg_spaces st))"
      "\<forall>(k, space) \<in> set (lg_spaces st). space_entry_ok limits st k space" "validate_snapshots js limits st = Inr ()"
      "validate_bytes js limits st = Inr ()"
    by (auto simp: validate_state_iff)
  then show ?thesis using snapshots_within [OF v(5)] bytes_within [OF v(6)]
    by (auto simp: validate_counts_def actions_ok_def bt_values_def comp_def queue_entry_ok_def space_entry_ok_def)
qed

definition demo_js :: json_writer where
  "demo_js = \<lparr>jw_context = \<lambda>_. Ok [], jw_envelope = \<lambda>_. Ok 0, jw_state = \<lambda>_. Ok 0, jw_state_pretty = \<lambda>_. Ok 0\<rparr>"

definition demo_io :: ledger_io where
  "demo_io = \<lparr>io_owner = Ok (), io_owner_again = Ok (), io_symlink = Ok False, io_present = Ok False,
     io_private_file = Ok (), io_create_temporary = Ok (), io_set_private = Ok (), io_write_all = Ok (),
     io_sync_file = Ok (), io_symlink_again = Ok False, io_rename = Ok (), io_open_directory = Ok (),
     io_sync_directory = Ok ()\<rparr>"

definition demo_action :: "opaque_id \<Rightarrow> opaque_id \<Rightarrow> action_receipt" where
  "demo_action a i = receipt_queued a ''req_1'' i (content_hash_from_bytes []) ''space_1'' None 6 OP_Click None None"

definition demo_ledger_request :: "opaque_id \<Rightarrow> opaque_id \<Rightarrow> ledger_request" where
  "demo_ledger_request a i = \<lparr>aq_request_id = ''req_1'', aq_action_id = a, aq_idempotency_key = i,
     aq_request_hash = content_hash_from_bytes [], aq_space_id = ''space_1'', aq_page_id = None, aq_lease_epoch = 6,
     aq_operation = OP_Click, aq_payload = [(code_points ''key'', code_points ''Enter'')], aq_postcondition = None\<rparr>"

definition demo_state :: ledger_state where
  "demo_state = (ledger_state_new 1)\<lparr>
     lg_spaces := [(''space_1'', demo_space\<lparr>s_space_id := ''space_1'', s_profile_binding := PF_Unbound\<rparr>)],
     lg_space_generations := [(''space_1'', 0)],
     lg_actions := [(''action_1'', (demo_action ''action_1'' ''idem_1'')\<lparr>ar_status := AS_Running, ar_dispatch_state := DS_Dispatched\<rparr>),
                    (''action_2'', demo_action ''action_2'' ''idem_2'')],
     lg_action_requests := [(''action_1'', demo_ledger_request ''action_1'' ''idem_1''),
                            (''action_2'', demo_ledger_request ''action_2'' ''idem_2'')],
     lg_idempotency := [(''idem_1'', ''action_1''), (''idem_2'', ''action_2'')],
     lg_action_queues := [(''space_1'', [''action_2''])]\<rparr>"

lemmas demo_ledger_defs = demo_js_def demo_io_def demo_action_def demo_ledger_request_def demo_state_def
  ledger_state_new_def ledger_limits_default_def receipt_queued_def demo_space_def lease_active_def

lemma demo_actions_ok: "actions_ok demo_js ledger_limits_default demo_state"
  by (simp add: actions_ok_def queued_actions_def demo_ledger_defs queue_entry_ok_def bt_contains_def action_entry_ok_def
      request_disagrees_def ledger_action_hash_def validate_public_payload_shape_def code_points_def utf8_def utf8_units_def
      raw_browser_identity_def normalized_payload_key_def is_ascii_alphanumeric_def code_point_lowercase_def validate_action_page_def
      action_status_ok_def bt_values_def runs_mutation_def is_mutating_action_def)

lemma demo_space_ok: "space_entry_ok ledger_limits_default demo_state ''space_1'' (demo_space\<lparr>s_space_id := ''space_1'', s_profile_binding := PF_Unbound\<rparr>)"
  by (simp add: space_entry_ok_def demo_ledger_defs text_ok_def code_points_def utf8_def utf8_units_def is_control_def lifecycle_matches_lease_def)

lemma demo_state_valid: "validate_state demo_js ledger_limits_default demo_state = Ok ()"
proof -
  have s: "lg_spaces demo_state = [(''space_1'', demo_space\<lparr>s_space_id := ''space_1'', s_profile_binding := PF_Unbound\<rparr>)]"
    by (simp add: demo_state_def)
  have "validate_counts ledger_limits_default demo_state = Inr ()" by (simp add: validate_counts_def demo_ledger_defs LEDGER_SCHEMA_VERSION_def)
  moreover have "validate_indexes demo_state = Inr ()"
    by (simp add: validate_indexes_def demo_ledger_defs bt_contains_def binding_index_wrong_def)
  moreover have "validate_fence_lifecycles demo_state = Inr ()" by (simp add: validate_fence_lifecycles_def demo_ledger_defs)
  moreover have "validate_control_tickets demo_state = Inr ()" by (simp add: validate_control_tickets_def demo_ledger_defs)
  moreover have "validate_snapshots demo_js ledger_limits_default demo_state = Inr ()" by (simp add: validate_snapshots_def demo_ledger_defs)
  moreover have "validate_events ledger_limits_default demo_state = Inr ()" by (simp add: validate_events_def demo_ledger_defs)
  moreover have "validate_bytes demo_js ledger_limits_default demo_state = Inr ()" by (simp add: validate_bytes_def demo_ledger_defs)
  moreover have "page_ids_of (lg_spaces demo_state) = []" by (simp add: page_ids_of_def s) (simp add: demo_space_def)
  moreover have "lg_pending_fences demo_state = []" "lg_takeover_proofs demo_state = []" by (simp_all add: demo_ledger_defs)
  ultimately show ?thesis using demo_actions_ok demo_space_ok by (simp add: validate_state_iff s del: try_fold.simps)
qed

lemma demo_state_loadable:
  "loadable demo_state" "is_some (counter_checked_next (lg_broker_epoch demo_state))"
  "\<forall>(k, space) \<in> set (lg_spaces demo_state). loses_space (s_lifecycle space) \<longrightarrow> (\<forall>p \<in> set (s_pages space). generations_left p)"
  "\<forall>(a, r) \<in> set (lg_actions demo_state). ar_status r = AS_Running \<longrightarrow> ar_completion_source r = CS_None"
  by (simp_all add: loadable_def demo_ledger_defs bt_wf_def counter_checked_next_def checked_next_def checked_add64_def)

theorem restart_recovers_witness:
  "validate_state demo_js ledger_limits_default demo_state = Ok () \<and>
   (\<exists>st'. restart_state demo_state = Ok st' \<and> lg_broker_epoch demo_state < lg_broker_epoch st'
     \<and> (validate_state demo_js ledger_limits_default st' = Ok ()
        \<longleftrightarrow> validate_bytes demo_js ledger_limits_default st' = Ok ())
     \<and> (\<exists>r'. (''action_1'', r') \<in> set (lg_actions st') \<and> ar_status r' = AS_Unknown))"
proof -
  have a: "(''action_1'', (demo_action ''action_1'' ''idem_1'')\<lparr>ar_status := AS_Running, ar_dispatch_state := DS_Dispatched\<rparr>)
      \<in> set (lg_actions demo_state)" by (simp add: demo_state_def)
  note t = restart_recovers [OF demo_state_valid demo_state_loadable(1)]
  have "restarts demo_state" using demo_state_loadable by (simp add: restarts_def)
  with t obtain st' where s: "restart_state demo_state = Inr st'" by blast
  with t have f: "lg_broker_epoch demo_state < lg_broker_epoch st'"
    "validate_state demo_js ledger_limits_default st' = Inr () \<longleftrightarrow> validate_bytes demo_js ledger_limits_default st' = Inr ()
       \<and> (\<forall>(a, r) \<in> set (lg_actions demo_state). ar_status r = AS_Running \<longrightarrow> ar_completion_source r = CS_None)"
    "\<forall>a r. (a, r) \<in> set (lg_actions demo_state) \<and> ar_status r = AS_Running \<longrightarrow>
       (\<exists>r'. (a, r') \<in> set (lg_actions st') \<and> ar_status r' = AS_Unknown
         \<and> ar_unknown_reason r' = Some UR_HostRestarted \<and> requires_reconciliation r')"
    by blast+
  from f(3) a have "\<exists>r'. (''action_1'', r') \<in> set (lg_actions st') \<and> ar_status r' = AS_Unknown" by fastforce
  with s f(1,2) demo_state_loadable(4) demo_state_valid show ?thesis by blast
qed

lemma demo_open:
  "ledger_open demo_js demo_io ledger_limits_default None
     = Ok \<lparr>ld_state = ledger_state_new 1, ld_limits = ledger_limits_default, ld_disk = Some (ledger_state_new 1)\<rparr>"
proof -
  have "validate_state demo_js ledger_limits_default (ledger_state_new 1) = Inr ()"
    by (simp add: validate_state_def validate_counts_def validate_indexes_def validate_fence_lifecycles_def
        validate_control_tickets_def validate_actions_def validate_snapshots_def validate_events_def validate_bytes_def
        demo_js_def ledger_state_new_def ledger_limits_default_def LEDGER_SCHEMA_VERSION_def)
  then show ?thesis
    by (simp add: ledger_open_def load_state_def persist_current_def before_rename_def checks.simps
        demo_js_def demo_io_def ledger_limits_default_def reject_if_def)
qed

lemma demo_update:
  "ledger_update demo_js demo_io (\<lambda>_. (demo_state, Ok ()))
     \<lparr>ld_state = ledger_state_new 1, ld_limits = ledger_limits_default, ld_disk = Some (ledger_state_new 1)\<rparr>
   = (\<lparr>ld_state = demo_state, ld_limits = ledger_limits_default, ld_disk = Some demo_state\<rparr>, Ok ())"
proof -
  have "retain_events 4096 demo_state = demo_state" by (simp add: retain_events_def demo_ledger_defs)
  then show ?thesis
    using demo_state_valid
    by (simp add: ledger_update_def persist_current_def before_rename_def checks.simps
        demo_io_def demo_js_def ledger_limits_default_def reject_if_def)
qed

theorem ledger_invariant_witness:
  "ledger_open demo_js demo_io ledger_limits_default None
     = Ok \<lparr>ld_state = ledger_state_new 1, ld_limits = ledger_limits_default, ld_disk = Some (ledger_state_new 1)\<rparr> \<and>
   lg_actions (ld_state (foldl (ledger_step demo_js)
     \<lparr>ld_state = ledger_state_new 1, ld_limits = ledger_limits_default, ld_disk = Some (ledger_state_new 1)\<rparr>
     [(demo_io, \<lambda>_. (demo_state, Ok ()))])) = lg_actions demo_state \<and>
   distinct (map ar_space_id (filter runs_mutation (bt_values (lg_actions demo_state))))"
proof -
  let ?l = "\<lparr>ld_state = ledger_state_new 1, ld_limits = ledger_limits_default, ld_disk = Some (ledger_state_new 1)\<rparr>"
  let ?ops = "[(demo_io, \<lambda>_. (demo_state, Ok ()))] :: ledger_op list"
  have "ld_state (foldl (ledger_step demo_js) ?l ?ops) = demo_state"
    by (simp add: ledger_step_def demo_update)
  then show ?thesis using ledger_invariant [OF demo_open, of ?ops] demo_open by simp
qed

text \<open>
  The file is replaced before the directory is synchronized. When that last call fails, the
  update reports an error and the ledger in memory is restored, but the file holds the state that
  was reported as not committed, and a restart recovers from it.
\<close>

theorem failed_update_reaches_disk:
  assumes "ledger_update js io f l = (l', Ok v)"
  shows "case ledger_update js (io\<lparr>io_sync_directory := Err e\<rparr>) f l of (l'', r) \<Rightarrow>
    r = Err (HE_Ledger e) \<and> ld_state l'' = ld_state l \<and> ld_disk l'' = Some (ld_state l')"
proof -
  have b: "before_rename js (io\<lparr>io_sync_directory := Err e\<rparr>) lim s = before_rename js io lim s" for lim s
    by (simp add: before_rename_def cong: if_cong)
  show ?thesis using assms
    by (auto simp: ledger_update_def persist_current_def Let_def b checks.simps split: sum.splits prod.splits)
qed

theorem failed_update_reaches_disk_witness:
  "case ledger_update demo_js (demo_io\<lparr>io_sync_directory := Err (LE_Io ''sync'')\<rparr>) (\<lambda>_. (demo_state, Ok ()))
      \<lparr>ld_state = ledger_state_new 1, ld_limits = ledger_limits_default, ld_disk = Some (ledger_state_new 1)\<rparr> of (l'', r) \<Rightarrow>
    r = Err (HE_Ledger (LE_Io ''sync'')) \<and> ld_state l'' = ledger_state_new 1 \<and> ld_disk l'' = Some demo_state"
proof -
  let ?l = "\<lparr>ld_state = ledger_state_new 1, ld_limits = ledger_limits_default, ld_disk = Some (ledger_state_new 1)\<rparr>"
  have "ledger_update demo_js demo_io (\<lambda>_. (demo_state, Ok ())) ?l
      = (\<lparr>ld_state = demo_state, ld_limits = ledger_limits_default, ld_disk = Some demo_state\<rparr>, Ok ())"
    by (rule demo_update)
  from failed_update_reaches_disk [OF this, of "LE_Io ''sync''"] show ?thesis by simp
qed

end
