(* ===== verification/Broker_Core.thy ===== *)
theory Broker_Core
  imports Ledger Event_Router Scheduler
begin

text \<open>
  Data and helpers of the broker (\<^verbatim>\<open>crates/agentyc-host/src/broker.rs\<close>, free functions from line
  4827, and \<^verbatim>\<open>leases.rs\<close>): authority tickets, the authorization checks, event construction and
  the coupling of the event router to the ledger. The closures that the broker passes to
  \<^verbatim>\<open>Ledger::update\<close> are state transitions with errors, \<open>upd\<close>; the ledger restores the state when
  one fails, so a failed transition has no state.
\<close>

section \<open>Transitions\<close>

type_synonym 'a upd = "ledger_state \<Rightarrow> (host_error, ledger_state \<times> 'a) result"

definition upd_ok :: "'a \<Rightarrow> 'a upd" where
  "upd_ok a s = Ok (s, a)"

definition upd_err :: "core_error \<Rightarrow> 'a upd" where
  "upd_err e s = host_err e"

definition upd_bind :: "'a upd \<Rightarrow> ('a \<Rightarrow> 'b upd) \<Rightarrow> 'b upd" where
  "upd_bind f g s = (case f s of Inl e \<Rightarrow> Err e | Inr (s', a) \<Rightarrow> g a s')"

definition upd_get :: "(ledger_state \<Rightarrow> (host_error, 'a) result) \<Rightarrow> 'a upd" where
  "upd_get f s = (case f s of Inl e \<Rightarrow> Err e | Inr a \<Rightarrow> Ok (s, a))"

definition upd_mod :: "(ledger_state \<Rightarrow> ledger_state) \<Rightarrow> unit upd" where
  "upd_mod f s = Ok (f s, ())"

fun upd_each :: "('a \<Rightarrow> unit upd) \<Rightarrow> 'a list \<Rightarrow> unit upd" where
  "upd_each f [] = upd_ok ()"
| "upd_each f (x # xs) = upd_bind (f x) (\<lambda>_. upd_each f xs)"

definition run_upd :: "'a upd \<Rightarrow> ledger_state \<Rightarrow> ledger_state \<times> (host_error, 'a) result" where
  "run_upd f s = (case f s of Inl e \<Rightarrow> (s, Err e) | Inr (s', a) \<Rightarrow> (s', Ok a))"

text \<open>\<^verbatim>\<open>CoreError\<close> results inside a transition.\<close>

definition core_ok_or :: "'a option \<Rightarrow> core_error \<Rightarrow> (host_error, 'a) result" where
  "core_ok_or x e = ok_or x (HE_Core e)"

definition core_reject :: "bool \<Rightarrow> core_error \<Rightarrow> (host_error, unit) result" where
  "core_reject b e = reject_if b (HE_Core e)"

fun ledger_result :: "(ledger_error, 'a) result \<Rightarrow> (host_error, 'a) result" where
  "ledger_result (Inl e) = Err (HE_Ledger e)"
| "ledger_result (Inr a) = Ok a"

fun id_result :: "(id_error, 'a) result \<Rightarrow> (host_error, 'a) result" where
  "id_result (Inl e) = host_err (invalid_argument (id_error_text e))"
| "id_result (Inr a) = Ok a"

section \<open>Authority data\<close>

record authority_ticket =
  au_principal_id :: opaque_id
  au_broker_epoch :: broker_epoch
  au_connection_epoch :: connection_epoch
  au_profile_binding_id :: "opaque_id option"
  au_connection_nonce :: opaque_id

record control_ticket =
  ck_space :: opaque_id
  ck_broker_epoch :: broker_epoch
  ck_fence_epoch :: lease_epoch
  ck_token :: opaque_id

record lease_grant =
  gr_space_id :: opaque_id
  gr_lease :: lease

record takeover_result =
  tk_space_id :: opaque_id
  tk_lease_epoch :: lease_epoch
  tk_fence_acknowledged :: bool
  tk_lifecycle :: space_lifecycle

record control_return =
  cn_space_id :: opaque_id
  cn_released_epoch :: lease_epoch
  cn_fence_epoch :: lease_epoch
  cn_control_ticket :: control_ticket
  cn_lifecycle :: space_lifecycle

record host_intent_ticket =
  hi_token :: opaque_id
  hi_space_id :: opaque_id
  hi_page_id :: "opaque_id option"
  hi_document_generation :: "generation option"
  hi_lease_epoch :: lease_epoch
  hi_action_hash :: content_hash
  hi_profile_binding_id :: "opaque_id option"
  hi_connection_epoch :: connection_epoch
  hi_connection_nonce :: opaque_id
  hi_expires_at :: timestamp

datatype host_degraded_reason = HD_ExtensionLost | HD_ChromeLost | HD_LedgerError

datatype host_lifecycle =
    HL_Starting | HL_WaitingForExtension | HL_Ready | HL_Draining | HL_Degraded host_degraded_reason
  | HL_Recovering | HL_Orphaned | HL_Stopped

definition valid_lifecycle_transition :: "host_lifecycle \<Rightarrow> host_lifecycle \<Rightarrow> bool" where
  "valid_lifecycle_transition current next \<longleftrightarrow>
     (case (current, next) of
        (HL_Starting, HL_WaitingForExtension) \<Rightarrow> True
      | (HL_Starting, HL_Ready) \<Rightarrow> True
      | (HL_Starting, HL_Degraded _) \<Rightarrow> True
      | (HL_Starting, HL_Stopped) \<Rightarrow> True
      | (HL_WaitingForExtension, HL_Ready) \<Rightarrow> True
      | (HL_WaitingForExtension, HL_Degraded _) \<Rightarrow> True
      | (HL_WaitingForExtension, HL_Draining) \<Rightarrow> True
      | (HL_WaitingForExtension, HL_Stopped) \<Rightarrow> True
      | (HL_Ready, HL_Starting) \<Rightarrow> True
      | (HL_Ready, HL_WaitingForExtension) \<Rightarrow> True
      | (HL_Ready, HL_Draining) \<Rightarrow> True
      | (HL_Ready, HL_Degraded _) \<Rightarrow> True
      | (HL_Ready, HL_Stopped) \<Rightarrow> True
      | (HL_Degraded _, HL_Recovering) \<Rightarrow> True
      | (HL_Degraded _, HL_Draining) \<Rightarrow> True
      | (HL_Degraded _, HL_Stopped) \<Rightarrow> True
      | (HL_Recovering, HL_Ready) \<Rightarrow> True
      | (HL_Recovering, HL_Orphaned) \<Rightarrow> True
      | (HL_Recovering, HL_Degraded _) \<Rightarrow> True
      | (HL_Recovering, HL_Stopped) \<Rightarrow> True
      | (HL_Orphaned, HL_Recovering) \<Rightarrow> True
      | (HL_Orphaned, HL_Draining) \<Rightarrow> True
      | (HL_Orphaned, HL_Stopped) \<Rightarrow> True
      | (HL_Draining, HL_Stopped) \<Rightarrow> True
      | (left, right) \<Rightarrow> left = right)"

definition ensure_ready :: "host_lifecycle \<Rightarrow> (host_error, unit) result" where
  "ensure_ready lifecycle =
     (if lifecycle = HL_Ready then Ok ()
      else host_err (core_error_new EC_HostDraining ''host is not accepting new work''))"

fun capability_debug :: "capability \<Rightarrow> string" where
  "capability_debug CP_Snapshot = ''Snapshot''"
| "capability_debug CP_Action = ''Action''"
| "capability_debug CP_Wait = ''Wait''"
| "capability_debug CP_Artifact = ''Artifact''"
| "capability_debug CP_Evaluate = ''Evaluate''"
| "capability_debug CP_Reconcile = ''Reconcile''"

text \<open>The capabilities are those that the bridge reports.\<close>

definition require_capability :: "capability list \<Rightarrow> capability \<Rightarrow> (host_error, unit) result" where
  "require_capability available capability =
     (if capability \<in> set available then Ok ()
      else host_err (core_error_new EC_CapabilityUnavailable
             (''bridge does not provide '' @ capability_debug capability)))"

fun required_capabilities :: "action_operation \<Rightarrow> capability list" where
  "required_capabilities OP_Evaluate = [CP_Evaluate]"
| "required_capabilities OP_Screenshot = [CP_Action, CP_Artifact]"
| "required_capabilities OP_Upload = [CP_Action, CP_Artifact]"
| "required_capabilities OP_Wait = [CP_Wait]"
| "required_capabilities _ = [CP_Action]"

definition require_operation_capabilities ::
  "capability list \<Rightarrow> action_operation \<Rightarrow> (host_error, unit) result" where
  "require_operation_capabilities available operation =
     try_each (require_capability available) (required_capabilities operation)"

section \<open>Authorization\<close>

definition authority_is_current :: "ledger_state \<Rightarrow> authority_ticket \<Rightarrow> bool" where
  "authority_is_current state authority =
     (if au_broker_epoch authority \<noteq> lg_broker_epoch state \<or> au_connection_epoch authority = 0 then False
      else is_some_and (bt_get (lg_active_connections state) (au_connection_epoch authority)) (\<lambda>current.
        ac_principal_id current = au_principal_id authority
        \<and> ac_connection_nonce current = au_connection_nonce authority
        \<and> ac_profile_binding_id current = au_profile_binding_id authority))"

definition authorize_ticket :: "ledger_state \<Rightarrow> authority_ticket \<Rightarrow> (host_error, unit) result" where
  "authorize_ticket state authority = checks
     [core_reject (au_broker_epoch authority \<noteq> lg_broker_epoch state)
        (core_error_new EC_PermissionDenied ''authority ticket belongs to another broker epoch''),
      core_reject (\<not> authority_is_current state authority)
        (core_error_new EC_PermissionDenied ''authority ticket is not an active connection authority'')]"

definition authorize_lease_holder ::
  "ledger_state \<Rightarrow> opaque_id \<Rightarrow> authority_ticket \<Rightarrow> (host_error, unit) result" where
  "authorize_lease_holder state space_id authority =
     core_reject (bt_get (lg_lease_holders state) space_id \<noteq> Some (au_connection_epoch authority))
       (core_error_new EC_PermissionDenied ''space lease belongs to another agent session'')"

abbreviation space_not_found :: core_error where
  "space_not_found \<equiv> core_error_new EC_SpaceNotFound ''logical space not found''"

abbreviation page_not_found :: core_error where
  "page_not_found \<equiv> core_error_new EC_PageNotFound ''logical page not found''"

definition find_space :: "ledger_state \<Rightarrow> opaque_id \<Rightarrow> (host_error, space_descriptor) result" where
  "find_space state space_id = core_ok_or (bt_get (lg_spaces state) space_id) space_not_found"

definition authorize_profile_for_mutation ::
  "ledger_state \<Rightarrow> opaque_id \<Rightarrow> authority_ticket \<Rightarrow> (host_error, unit) result" where
  "authorize_profile_for_mutation state space_id authority =
     and_then (find_space state space_id) (\<lambda>space.
     case s_profile_binding space of
       PF_Unbound \<Rightarrow> core_reject (is_some (au_profile_binding_id authority))
         (core_error_new EC_ProfileNotFound ''space has no matching profile binding'')
     | PF_Bound \<Rightarrow>
         and_then (core_ok_or (bt_get (lg_profile_bindings state) space_id)
           (core_error_new EC_LedgerIncompatible ''profile binding index is incomplete'')) (\<lambda>expected.
         core_reject (au_profile_binding_id authority \<noteq> Some expected)
           (core_error_new EC_ProfileNotFound ''authority profile binding does not match the space''))
     | PF_RebindRequired \<Rightarrow> host_err (core_error_new EC_ProfileNotFound
         ''space profile binding requires explicit re-enrollment'')
     | PF_Revoked \<Rightarrow> host_err (core_error_new EC_ProfileNotFound
         ''space profile binding requires explicit re-enrollment''))"

definition authorize_finish_claim ::
  "ledger_state \<Rightarrow> opaque_id \<Rightarrow> authority_ticket \<Rightarrow> lease_epoch \<Rightarrow> timestamp \<Rightarrow> bool
   \<Rightarrow> (host_error, unit) result" where
  "authorize_finish_claim state space_id authority lease_epoch now allow_draining =
     and_then (authorize_ticket state authority) (\<lambda>_.
     and_then (authorize_profile_for_mutation state space_id authority) (\<lambda>_.
     and_then (find_space state space_id) (\<lambda>space.
     and_then (checks
      [core_reject (s_lifecycle space = SL_UserOwned)
         (core_error_new EC_UserControlRequired ''user-owned space requires its control ticket''),
       core_reject (s_lifecycle space \<notin> {SL_AgentOwned, SL_Recovering}
           \<and> \<not> (allow_draining \<and> s_lifecycle space = SL_Draining))
         (core_error_new EC_PermissionDenied ''space lifecycle does not permit finishing'')]) (\<lambda>_.
     and_then (core_ok_or (s_lease space)
       (core_error_new EC_SpaceForbidden ''space has no active lease'')) (\<lambda>lease.
     checks
      [core_reject (l_principal_id lease \<noteq> au_principal_id authority
           \<or> s_owner space \<noteq> au_principal_id authority)
         (core_error_new EC_SpaceForbidden ''principal does not own the space lease''),
       authorize_lease_holder state space_id authority,
       core_reject (l_lease_epoch lease \<noteq> lease_epoch) (stale_lease (l_lease_epoch lease) lease_epoch),
       core_reject (l_state lease \<noteq> LS_Active) (stale_lease (l_lease_epoch lease) lease_epoch),
       core_reject (l_expires_at lease \<le> now) (core_error_new EC_LeaseExpired ''lease has expired'')])))))"

record host_cleanup_proof =
  hc_page_id :: opaque_id
  hc_generation :: page_generation

definition find_page :: "ledger_state \<Rightarrow> opaque_id \<Rightarrow> opaque_id \<Rightarrow> (host_error, page_descriptor) result" where
  "find_page state space_id page_id =
     core_ok_or (Option.bind (bt_get (lg_spaces state) space_id) (\<lambda>space. space_page space page_id))
       page_not_found"

definition authorize_cleanup_page ::
  "ledger_state \<Rightarrow> opaque_id \<Rightarrow> host_cleanup_proof \<Rightarrow> authority_ticket \<Rightarrow> lease_epoch \<Rightarrow> timestamp
   \<Rightarrow> (host_error, unit) result" where
  "authorize_cleanup_page state space_id proof authority lease_epoch now =
     and_then (authorize_finish_claim state space_id authority lease_epoch now True) (\<lambda>_.
     and_then (find_page state space_id (hc_page_id proof)) (\<lambda>page.
     core_reject (p_lifecycle page \<noteq> PL_Closing \<or> p_ownership page \<noteq> PO_Agent \<or> p_binding page \<noteq> PB_Bound
         \<or> \<not> matches_page (hc_generation proof) page)
       (core_error_new EC_TargetReplaced ''page cleanup proof is stale'')))"

definition authorize_release_claim ::
  "ledger_state \<Rightarrow> opaque_id \<Rightarrow> authority_ticket \<Rightarrow> lease_epoch \<Rightarrow> (host_error, unit) result" where
  "authorize_release_claim state space_id authority lease_epoch =
     and_then (authorize_ticket state authority) (\<lambda>_.
     and_then (authorize_profile_for_mutation state space_id authority) (\<lambda>_.
     and_then (find_space state space_id) (\<lambda>space.
     and_then (checks
      [core_reject (s_lifecycle space \<notin> {SL_Finished, SL_Released})
         (core_error_new EC_PermissionDenied ''space must be finished before release''),
       core_reject (s_owner space \<noteq> au_principal_id authority)
         (core_error_new EC_SpaceForbidden ''principal does not own the finished space'')]) (\<lambda>_.
     and_then (core_ok_or (s_lease space)
       (core_error_new EC_SpaceForbidden ''space has no release lease'')) (\<lambda>lease.
     checks
      [core_reject (l_principal_id lease \<noteq> au_principal_id authority)
         (core_error_new EC_SpaceForbidden ''principal does not own the release lease''),
       authorize_lease_holder state space_id authority,
       core_reject (l_lease_epoch lease \<noteq> lease_epoch) (stale_lease (l_lease_epoch lease) lease_epoch),
       core_reject (l_state lease \<noteq> LS_Released)
         (core_error_new EC_PermissionDenied ''space release requires a durably released lease'')])))))"

definition space_has_unresolved_actions :: "ledger_state \<Rightarrow> opaque_id \<Rightarrow> bool" where
  "space_has_unresolved_actions state space_id \<longleftrightarrow>
     list_ex (\<lambda>action. ar_space_id action = space_id
       \<and> (ar_status action = AS_Queued \<or> ar_status action = AS_Running \<or> ar_status action = AS_Unknown
          \<or> ar_reconciliation_state action = RS_RequiresConfirmation)) (bt_values (lg_actions state))"

definition authorize_reconciliation_authority ::
  "ledger_state \<Rightarrow> opaque_id \<Rightarrow> authority_ticket \<Rightarrow> lease_epoch \<Rightarrow> timestamp
   \<Rightarrow> (host_error, action_receipt) result" where
  "authorize_reconciliation_authority state action_id authority lease_epoch now =
     and_then (authorize_ticket state authority) (\<lambda>_.
     and_then (core_ok_or (bt_get (lg_actions state) action_id)
       (invalid_argument ''action receipt is missing'')) (\<lambda>receipt.
     and_then (core_reject (ar_status receipt \<noteq> AS_Unknown)
       (core_error_new EC_ReconciliationRequired ''action does not have an unknown outcome'')) (\<lambda>_.
     and_then (authorize_profile_for_mutation state (ar_space_id receipt) authority) (\<lambda>_.
     and_then (find_space state (ar_space_id receipt)) (\<lambda>space.
     and_then (core_reject (\<not> space_admits_mutations (s_lifecycle space)
         \<or> s_owner space \<noteq> au_principal_id authority)
       (core_error_new EC_SpaceForbidden ''principal does not own the current reconciliation lease'')) (\<lambda>_.
     and_then (authorize_lease_holder state (ar_space_id receipt) authority) (\<lambda>_.
     and_then (core_ok_or (s_lease space)
       (core_error_new EC_SpaceForbidden ''space has no current lease'')) (\<lambda>lease.
     and_then (checks
      [core_reject (l_principal_id lease \<noteq> au_principal_id authority)
         (core_error_new EC_SpaceForbidden ''principal does not own the current reconciliation lease''),
       core_reject (l_lease_epoch lease \<noteq> lease_epoch) (stale_lease (l_lease_epoch lease) lease_epoch),
       core_reject (l_state lease \<noteq> LS_Active \<or> l_expires_at lease \<le> now)
         (core_error_new EC_LeaseExpired ''lease has expired''),
       core_reject (ar_lease_epoch receipt \<noteq> l_lease_epoch lease
           \<and> (ar_lease_epoch receipt > l_lease_epoch lease
              \<or> \<not> is_some_and (bt_get (lg_takeover_proofs state) (ar_space_id receipt))
                   (list_ex (\<lambda>proof. tp_broker_epoch proof = lg_broker_epoch state
                      \<and> tp_previous_epoch proof = ar_lease_epoch receipt
                      \<and> tp_current_epoch proof = l_lease_epoch lease
                      \<and> tp_principal_id proof = au_principal_id authority))))
         (core_error_new EC_ReconciliationRequired
            ''older-epoch reconciliation requires a durable takeover proof'')])
     (\<lambda>_. Ok receipt)))))))))"

definition authorize_space ::
  "ledger_state \<Rightarrow> opaque_id \<Rightarrow> authority_ticket \<Rightarrow> lease_epoch \<Rightarrow> timestamp \<Rightarrow> bool
   \<Rightarrow> (host_error, unit) result" where
  "authorize_space state space_id authority lease_epoch now mutation =
     and_then (authorize_ticket state authority) (\<lambda>_.
     and_then (authorize_profile_for_mutation state space_id authority) (\<lambda>_.
     and_then (find_space state space_id) (\<lambda>space.
     and_then (core_reject (s_lifecycle space = SL_UserOwned)
       (core_error_new EC_UserControlRequired ''user control currently fences agent mutations'')) (\<lambda>_.
     and_then (core_ok_or (s_lease space)
       (core_error_new EC_SpaceForbidden ''space has no active lease'')) (\<lambda>lease.
     checks
      [core_reject (l_principal_id lease \<noteq> au_principal_id authority)
         (core_error_new EC_SpaceForbidden ''principal does not own the space''),
       authorize_lease_holder state space_id authority,
       core_reject (l_lease_epoch lease \<noteq> lease_epoch) (stale_lease (l_lease_epoch lease) lease_epoch),
       core_reject (l_state lease = LS_Expired \<or> l_expires_at lease \<le> now)
         (core_error_new EC_LeaseExpired ''lease has expired''),
       core_reject (l_state lease \<noteq> LS_Active) (stale_lease (l_lease_epoch lease) lease_epoch),
       core_reject (mutation \<and> \<not> space_admits_mutations (s_lifecycle space))
         (core_error_new EC_PermissionDenied ''space lifecycle fences mutations'')])))))"

definition authorize_page ::
  "ledger_state \<Rightarrow> opaque_id \<Rightarrow> opaque_id \<Rightarrow> authority_ticket \<Rightarrow> lease_epoch \<Rightarrow> timestamp \<Rightarrow> bool
   \<Rightarrow> (host_error, page_generation) result" where
  "authorize_page state space_id page_id authority lease_epoch now mutation =
     and_then (authorize_space state space_id authority lease_epoch now mutation) (\<lambda>_.
     and_then (find_page state space_id page_id) (\<lambda>page.
     and_then (checks
      [core_reject (mutation \<and> \<not> admits_agent_mutations page)
         (core_error_new EC_PageNotOwned ''page is not managed by the lease''),
       core_reject (\<not> mutation \<and> (p_binding page \<noteq> PB_Bound \<or> p_lifecycle page \<noteq> PL_Managed))
         (core_error_new EC_UnmanagedPage ''page is not currently bound'')])
     (\<lambda>_. Ok (generation_from_page page))))"

section \<open>Visibility\<close>

fun space_lifecycle_name :: "space_lifecycle \<Rightarrow> string" where
  "space_lifecycle_name SL_Created = ''created''"
| "space_lifecycle_name SL_AgentOwned = ''agent_owned''"
| "space_lifecycle_name SL_HandoffRequested = ''handoff_requested''"
| "space_lifecycle_name SL_Draining = ''draining''"
| "space_lifecycle_name SL_Paused = ''paused''"
| "space_lifecycle_name SL_UserOwned = ''user_owned''"
| "space_lifecycle_name SL_Orphaned = ''orphaned''"
| "space_lifecycle_name SL_Recovering = ''recovering''"
| "space_lifecycle_name SL_Finished = ''finished''"
| "space_lifecycle_name SL_Released = ''released''"
| "space_lifecycle_name SL_FencePending = ''fence_pending''"
| "space_lifecycle_name SL_FenceDispatched = ''fence_dispatched''"
| "space_lifecycle_name SL_FenceAcknowledged = ''fence_acknowledged''"

definition visible_to_principal :: "space_descriptor \<Rightarrow> opaque_id \<Rightarrow> bool" where
  "visible_to_principal space principal_id \<longleftrightarrow>
     s_owner space = principal_id \<or> is_some_and (s_lease space) (\<lambda>lease. l_principal_id lease = principal_id)"

definition bt_retain_keys :: "('k \<Rightarrow> bool) \<Rightarrow> ('k::linorder, 'v) btree \<Rightarrow> ('k, 'v) btree" where
  "bt_retain_keys p m = filter (\<lambda>(k, v). p k) m"

definition visible_spaces :: "ledger_state \<Rightarrow> opaque_id \<Rightarrow> opaque_id set" where
  "visible_spaces state principal_id =
     fst ` set (filter (\<lambda>(_, space). visible_to_principal space principal_id) (lg_spaces state))"

definition visible_state :: "ledger_state \<Rightarrow> opaque_id \<Rightarrow> ledger_state" where
  "visible_state state principal_id =
     (let visible = visible_spaces state principal_id;
          actions = bt_retain (\<lambda>receipt. ar_space_id receipt \<in> visible) (lg_actions state)
      in state\<lparr>
        lg_spaces := bt_retain_keys (\<lambda>k. k \<in> visible) (lg_spaces state),
        lg_space_generations := bt_retain_keys (\<lambda>k. k \<in> visible) (lg_space_generations state),
        lg_profile_bindings := bt_retain_keys (\<lambda>k. k \<in> visible) (lg_profile_bindings state),
        lg_control_tickets := bt_retain_keys (\<lambda>k. k \<in> visible) (lg_control_tickets state),
        lg_actions := actions,
        lg_action_requests := bt_retain_keys (bt_contains actions) (lg_action_requests state),
        lg_idempotency := bt_retain (bt_contains actions) (lg_idempotency state),
        lg_action_queues := bt_retain_keys (\<lambda>k. k \<in> visible) (lg_action_queues state),
        lg_snapshots := bt_retain_keys (\<lambda>k. k \<in> visible) (lg_snapshots state),
        lg_events := filter (\<lambda>event. is_none_or (sc_space_id (ev_scope event)) (\<lambda>k. k \<in> visible))
          (lg_events state)\<rparr>)"

definition authorize_visible_space ::
  "ledger_state \<Rightarrow> authority_ticket \<Rightarrow> opaque_id \<Rightarrow> (host_error, unit) result" where
  "authorize_visible_space state authority space_id =
     and_then (authorize_ticket state authority) (\<lambda>_.
     and_then (find_space state space_id) (\<lambda>space.
     if visible_to_principal space (au_principal_id authority) then
       (if s_lifecycle space \<noteq> SL_UserOwned \<and> bt_contains (lg_lease_holders state) space_id
        then authorize_lease_holder state space_id authority else Ok ())
     else host_err (core_error_new EC_SpaceForbidden ''principal cannot read this space'')))"

section \<open>Bounded values\<close>

definition bump_page_generations :: "page_descriptor \<Rightarrow> (host_error, page_descriptor) result" where
  "bump_page_generations page =
     and_then (core_ok_or (counter_checked_next (p_target_generation page))
       (invalid_argument ''target generation overflow'')) (\<lambda>target.
     and_then (core_ok_or (counter_checked_next (p_navigation_generation page))
       (invalid_argument ''navigation generation overflow'')) (\<lambda>navigation.
     and_then (core_ok_or (counter_checked_next (p_document_generation page))
       (invalid_argument ''document generation overflow'')) (\<lambda>document.
     Ok (page\<lparr>p_target_generation := target, p_navigation_generation := navigation,
              p_document_generation := document\<rparr>))))"

definition bounded_warning :: "utext \<Rightarrow> utext" where
  "bounded_warning warning = take 512 (filter (\<lambda>c. \<not> is_control c) warning)"

definition lease_times :: "timestamp \<Rightarrow> u64 \<Rightarrow> (host_error, timestamp \<times> timestamp) result" where
  "lease_times now ttl =
     and_then (core_reject (ttl = 0) (invalid_argument ''lease TTL must be positive'')) (\<lambda>_.
     and_then (core_ok_or (checked_add64 now ttl) (invalid_argument ''lease expiry overflow'')) (\<lambda>expires.
     and_then (core_ok_or (checked_add64 now (max (ttl div 2) 1))
       (invalid_argument ''lease renewal deadline overflow'')) (\<lambda>renew.
     Ok (expires, renew))))"

definition bounded_label :: "utext \<Rightarrow> (host_error, utext) result" where
  "bounded_label label =
     (if label = [] \<or> byte_len label > 256 \<or> list_ex is_control label
      then host_err (invalid_argument ''label must be a bounded non-control string'') else Ok label)"

definition bounded_optional :: "utext option \<Rightarrow> (host_error, utext option) result" where
  "bounded_optional value =
     (if is_some_and value (\<lambda>value. byte_len value > 4096 \<or> list_ex is_control value)
      then host_err (invalid_argument ''metadata value is too large or contains control data'') else Ok value)"

definition validate_public_payload :: "payload \<Rightarrow> (host_error, unit) result" where
  "validate_public_payload payload =
     try_each (\<lambda>(key, value). checks
       [core_reject (key = [] \<or> byte_len key > 128 \<or> byte_len value > 65536)
          (invalid_argument ''action payload is out of bounds''),
        core_reject (raw_browser_identity (normalized_payload_key key))
          (invalid_argument ''raw browser identities are not public action fields'')]) payload"

definition payload_of :: "(string \<times> string) list \<Rightarrow> payload" where
  "payload_of items = fold (\<lambda>(key, value). bt_insert (code_points key) (code_points value)) items []"

section \<open>Events\<close>

definition broker_event_attribution :: "ledger_state \<Rightarrow> event_scope \<Rightarrow> event_attribution" where
  "broker_event_attribution state scope = attribution_broker\<lparr>
     ea_profile_binding_id := Option.bind (sc_space_id scope) (bt_get (lg_profile_bindings state)),
     ea_browser_session_epoch := lg_extension_browser_session_epoch state,
     ea_worker_instance_epoch := lg_extension_worker_instance_epoch state\<rparr>"

definition generation_watermark_of :: "ledger_state \<Rightarrow> event_scope \<Rightarrow> generation_watermark" where
  "generation_watermark_of state scope =
     (let page = Option.bind (Option.bind (sc_space_id scope) (bt_get (lg_spaces state)))
                   (\<lambda>space. Option.bind (sc_page_id scope) (space_page space));
          of_page = (\<lambda>f. case page of None \<Rightarrow> 0 | Some p \<Rightarrow> f p)
      in \<lparr>gw_space_generation =
            (case Option.bind (sc_space_id scope) (bt_get (lg_space_generations state)) of
               None \<Rightarrow> 0 | Some g \<Rightarrow> g),
          gw_page_generation = of_page p_target_generation,
          gw_navigation_generation = of_page p_navigation_generation,
          gw_document_generation = of_page p_document_generation,
          gw_snapshot_version = map_option (\<lambda>record. sv_snapshot_version (cr_envelope record))
            (Option.bind (Option.bind (sc_space_id scope) (bt_get (lg_snapshots state)))
               (\<lambda>pages. Option.bind (sc_page_id scope) (bt_get pages))),
          gw_metadata = None\<rparr>)"

definition next_space_generation :: "event_scope \<Rightarrow> unit upd" where
  "next_space_generation scope =
     (case sc_space_id scope of
        None \<Rightarrow> upd_ok ()
      | Some space_id \<Rightarrow>
          upd_bind (upd_get (\<lambda>s. core_ok_or (counter_checked_next (bt_entry 0 (lg_space_generations s) space_id))
            (invalid_argument ''space generation overflow''))) (\<lambda>g.
          upd_mod (\<lambda>s. s\<lparr>lg_space_generations := bt_insert space_id g (lg_space_generations s)\<rparr>)))"

definition append_event_with_attribution ::
  "event_scope \<Rightarrow> event_kind \<Rightarrow> payload \<Rightarrow> dirty_reason option \<Rightarrow> bool \<Rightarrow> event_attribution \<Rightarrow> ledger_event upd" where
  "append_event_with_attribution scope event payload dirty_reason resync_required attribution =
     upd_bind (upd_get (\<lambda>s. ledger_result (validate_public_payload_shape payload 512))) (\<lambda>_.
     upd_bind (upd_get (\<lambda>s. core_ok_or (counter_checked_next (lg_event_sequence s))
       (invalid_argument ''event sequence overflow''))) (\<lambda>sequence.
     upd_bind (upd_mod (\<lambda>s. s\<lparr>lg_event_sequence := sequence\<rparr>)) (\<lambda>_.
     upd_bind (next_space_generation scope) (\<lambda>_.
     upd_bind (upd_get (\<lambda>s. id_result (from_suffix EventId
       (show_nat (unat (lg_broker_epoch s)) @ ''-'' @ show_nat (unat sequence))))) (\<lambda>event_id.
     upd_bind (upd_get (\<lambda>s. Ok
       \<lparr>ev_protocol = PROTOCOL_VERSION, ev_event_id = event_id, ev_broker_epoch = lg_broker_epoch s,
        ev_sequence = sequence, ev_scope = scope, ev_event = event,
        ev_generation = (generation_watermark_of s scope)\<lparr>gw_metadata := Some (metadata_for_event event attribution)\<rparr>,
        ev_dirty_reason = dirty_reason, ev_coalesced = False, ev_resync_required = resync_required,
        ev_payload = payload\<rparr>)) (\<lambda>record.
     upd_bind (upd_get (\<lambda>s. core_result (validate_admission record))) (\<lambda>_.
     upd_bind (upd_mod (\<lambda>s. s\<lparr>lg_events := lg_events s @ [record]\<rparr>)) (\<lambda>_.
     upd_ok record))))))))"

definition append_event ::
  "event_scope \<Rightarrow> event_kind \<Rightarrow> payload \<Rightarrow> dirty_reason option \<Rightarrow> bool \<Rightarrow> unit upd" where
  "append_event scope event payload dirty_reason resync_required =
     upd_bind (upd_get (\<lambda>s. Ok (broker_event_attribution s scope))) (\<lambda>attribution.
     upd_bind (append_event_with_attribution scope event payload dirty_reason resync_required attribution)
       (\<lambda>_. upd_ok ()))"

text \<open>The bounded router is fed from the ledger: at start and after every operation.\<close>

definition saturating_pred :: "u64 \<Rightarrow> u64" where
  "saturating_pred n = (if n = 0 then 0 else n - 1)"

definition ingest_all :: "ledger_event list \<Rightarrow> payload event_router \<Rightarrow> payload event_router" where
  "ingest_all events router = fold (\<lambda>event r. fst (ingest r event)) events router"

definition event_router_from_ledger :: "ledger_limits \<Rightarrow> ledger_state \<Rightarrow> payload event_router" where
  "event_router_from_ledger limits state =
     (let start = (case lg_events state of
             [] \<Rightarrow> \<lparr>cu_broker_epoch = lg_broker_epoch state, cu_sequence = lg_event_sequence state\<rparr>
           | first # _ \<Rightarrow> \<lparr>cu_broker_epoch = lg_broker_epoch state,
                           cu_sequence = saturating_pred (ev_sequence first)\<rparr>)
      in ingest_all (lg_events state)
           (router_new_at start (router_limits_new (max (ll_max_events limits) 1))))"

definition sync_event_router :: "payload event_router \<Rightarrow> ledger_state \<Rightarrow> payload event_router" where
  "sync_event_router router state =
     (if rt_broker_epoch router \<noteq> lg_broker_epoch state then request_resync router
      else ingest_all (filter (\<lambda>event. ev_sequence event > rt_sequence router) (lg_events state)) router)"

definition history_lagged :: "ledger_state \<Rightarrow> event_sequence \<Rightarrow> bool" where
  "history_lagged state sequence =
     (case lg_events state of
        [] \<Rightarrow> lg_event_sequence state > sequence
      | first # _ \<Rightarrow> saturating_next sequence < ev_sequence first)"

definition resume_status :: "ledger_state \<Rightarrow> resume_watermark \<Rightarrow> resume_result" where
  "resume_status state watermark =
     (if rw_broker_epoch watermark \<noteq> lg_broker_epoch state
         \<or> rw_sequence watermark > lg_event_sequence state
         \<or> history_lagged state (rw_sequence watermark)
      then RU_ResyncRequired else RU_Accepted)"

definition reconcile_token :: "string \<Rightarrow> u64 \<Rightarrow> (host_error, opaque_id) result" where
  "reconcile_token prefix number =
     id_result (from_suffix ReconcileToken (prefix @ ''-'' @ show_nat (unat number)))"

definition fence_request_token ::
  "ledger_state \<Rightarrow> opaque_id \<Rightarrow> lease_epoch \<Rightarrow> fence_purpose \<Rightarrow> (host_error, opaque_id) result" where
  "fence_request_token state space_id fence_epoch purpose =
     id_result (from_suffix ReconcileToken
       (''fence-'' @ (case purpose of FP_Takeover \<Rightarrow> ''takeover'' | FP_ReturnControl \<Rightarrow> ''return'')
        @ ''-'' @ show_nat (unat (lg_broker_epoch state)) @ ''-'' @ space_id @ ''-''
        @ show_nat (unat fence_epoch)))"

definition action_sequence :: "opaque_id \<Rightarrow> u64" where
  "action_sequence action_id = foldl (\<lambda>value byte. value * 31 + of_nat (of_char byte)) 0 action_id"

fun status_name :: "action_status \<Rightarrow> string" where
  "status_name AS_Queued = ''queued''"
| "status_name AS_Running = ''running''"
| "status_name AS_Succeeded = ''succeeded''"
| "status_name AS_Failed = ''failed''"
| "status_name AS_Cancelled = ''cancelled''"
| "status_name AS_Unknown = ''unknown''"

section \<open>Facts about transitions\<close>

named_theorems upd_simps \<open>when the building blocks of a transition succeed\<close>

lemma upd_Ok [upd_simps]:
  "upd_ok a s = Inr r \<longleftrightarrow> r = (s, a)"
  "upd_err e s = Inr r \<longleftrightarrow> False"
  "upd_bind f g s = Inr r \<longleftrightarrow> (\<exists>s' b. f s = Inr (s', b) \<and> g b s' = Inr r)"
  "upd_get h s = Inr r' \<longleftrightarrow> (\<exists>c. h s = Inr c \<and> r' = (s, c))"
  "upd_mod m s = Inr r'' \<longleftrightarrow> r'' = (m s, ())"
  by (auto simp: upd_ok_def upd_err_def upd_bind_def upd_get_def upd_mod_def split: sum.splits prod.splits)

lemma core_Ok [upd_simps, simp]:
  "core_ok_or x e = Inr a \<longleftrightarrow> x = Some a"
  "core_reject b e = Inr u \<longleftrightarrow> \<not> b"
  "ledger_result lr = Inr a \<longleftrightarrow> lr = Inr a"
  "id_result ir = Inr a \<longleftrightarrow> ir = Inr a"
  by (auto simp: core_ok_or_def core_reject_def elim: ledger_result.elims id_result.elims)

lemma find_Ok [upd_simps, simp]:
  "find_space s k = Inr space \<longleftrightarrow> bt_get (lg_spaces s) k = Some space"
  "find_page s k i = Inr page \<longleftrightarrow> (\<exists>space. bt_get (lg_spaces s) k = Some space \<and> space_page space i = Some page)"
  by (auto simp: find_space_def find_page_def bind_eq_Some_conv)

lemma authorize_ticket_Ok: "authorize_ticket s a = Inr u \<longleftrightarrow> authority_is_current s a"
  by (auto simp: authorize_ticket_def authority_is_current_def)

lemma authorize_lease_holder_Ok:
  "authorize_lease_holder s k a = Inr u \<longleftrightarrow> bt_get (lg_lease_holders s) k = Some (au_connection_epoch a)"
  by (simp add: authorize_lease_holder_def)

lemma authorize_space_Ok:
  "authorize_space s k a e now mutation = Inr u \<longleftrightarrow>
     authority_is_current s a \<and> authorize_profile_for_mutation s k a = Inr ()
     \<and> bt_get (lg_lease_holders s) k = Some (au_connection_epoch a)
     \<and> (\<exists>space l. bt_get (lg_spaces s) k = Some space \<and> s_lease space = Some l
          \<and> s_lifecycle space \<noteq> SL_UserOwned \<and> (mutation \<longrightarrow> s_lifecycle space = SL_AgentOwned)
          \<and> l_principal_id l = au_principal_id a \<and> l_lease_epoch l = e \<and> l_state l = LS_Active
          \<and> now < l_expires_at l)"
  by (auto simp: authorize_space_def authorize_ticket_Ok authorize_lease_holder_Ok record_simps)

lemma checked_next_value: "checked_next a = Some b \<Longrightarrow> b = a + 1"
  by (auto simp: checked_next_def checked_add64_def split: if_splits)

lemma append_event_with_attribution_Ok:
  assumes "append_event_with_attribution scope event pl dirty resync attribution s = Inr (s', rec)"
  shows "s' = s\<lparr>lg_event_sequence := lg_event_sequence s', lg_space_generations := lg_space_generations s',
      lg_events := lg_events s @ [rec]\<rparr>"
    "lg_event_sequence s < lg_event_sequence s'" "ev_sequence rec = lg_event_sequence s'"
    "ev_broker_epoch rec = lg_broker_epoch s" "ev_protocol rec = PROTOCOL_VERSION"
    "ev_scope rec = scope" "ev_payload rec = pl" "ev_resync_required rec = resync" "ev_event rec = event"
    "validate_admission rec = Inr ()" "validate_public_payload_shape pl 512 = Inr ()"
    "lg_event_sequence s' = lg_event_sequence s + 1"
    "\<not> ev_coalesced rec"
  using assms
  by (auto simp: append_event_with_attribution_def next_space_generation_def upd_simps counter_checked_next_def
      dest: checked_next_less checked_next_value split: option.splits)

text \<open>An appended event leaves everything but the event log and the generation of its space.\<close>

lemma append_event_frame:
  assumes "append_event scope event pl dirty resync s = Inr (s', u)"
  shows "\<exists>rec. s' = s\<lparr>lg_event_sequence := lg_event_sequence s', lg_space_generations := lg_space_generations s',
      lg_events := lg_events s @ [rec]\<rparr> \<and> ev_sequence rec = lg_event_sequence s' \<and> ev_resync_required rec = resync"
    "lg_event_sequence s' = lg_event_sequence s + 1" "lg_event_sequence s < lg_event_sequence s'"
proof -
  obtain rec where "append_event_with_attribution scope event pl dirty resync (broker_event_attribution s scope) s = Inr (s', rec)"
    using assms by (auto simp: append_event_def upd_simps)
  note r = append_event_with_attribution_Ok [OF this]
  show "\<exists>rec. s' = s\<lparr>lg_event_sequence := lg_event_sequence s', lg_space_generations := lg_space_generations s',
      lg_events := lg_events s @ [rec]\<rparr> \<and> ev_sequence rec = lg_event_sequence s' \<and> ev_resync_required rec = resync"
    using r(1,3,8) by blast
  show "lg_event_sequence s' = lg_event_sequence s + 1" "lg_event_sequence s < lg_event_sequence s'" by (rule r(12), rule r(2))
qed

lemma event_sel:
  assumes "append_event_with_attribution scope event pl dirty resync attribution s = Inr (s', rec)"
  shows "lg_spaces s' = lg_spaces s" "lg_actions s' = lg_actions s" "lg_lease_holders s' = lg_lease_holders s"
    "lg_active_connections s' = lg_active_connections s" "lg_broker_epoch s' = lg_broker_epoch s"
    "lg_action_queues s' = lg_action_queues s" "lg_next_space_number s' = lg_next_space_number s"
    "lg_pending_fences s' = lg_pending_fences s" "lg_control_tickets s' = lg_control_tickets s"
    "lg_takeover_proofs s' = lg_takeover_proofs s" "lg_profile_bindings s' = lg_profile_bindings s"
    "lg_connection_epoch s' = lg_connection_epoch s" "lg_used_connection_nonces s' = lg_used_connection_nonces s"
    "lg_action_requests s' = lg_action_requests s" "lg_idempotency s' = lg_idempotency s"
    "lg_snapshots s' = lg_snapshots s" "lg_next_page_number s' = lg_next_page_number s"
  by (subst append_event_with_attribution_Ok(1) [OF assms], simp)+

lemma append_event_Ok:
  assumes "append_event scope event pl dirty resync s = Inr (s', u)"
  obtains rec where "append_event_with_attribution scope event pl dirty resync (broker_event_attribution s scope) s = Inr (s', rec)"
  using assms by (auto simp: append_event_def upd_simps)

lemma append_event_sel:
  assumes "append_event scope event pl dirty resync s = Inr (s', u)"
  shows "lg_spaces s' = lg_spaces s" "lg_actions s' = lg_actions s" "lg_lease_holders s' = lg_lease_holders s"
    "lg_active_connections s' = lg_active_connections s" "lg_broker_epoch s' = lg_broker_epoch s"
    "lg_action_queues s' = lg_action_queues s" "lg_next_space_number s' = lg_next_space_number s"
    "lg_pending_fences s' = lg_pending_fences s" "lg_control_tickets s' = lg_control_tickets s"
    "lg_takeover_proofs s' = lg_takeover_proofs s" "lg_profile_bindings s' = lg_profile_bindings s"
    "lg_connection_epoch s' = lg_connection_epoch s" "lg_used_connection_nonces s' = lg_used_connection_nonces s"
    "lg_action_requests s' = lg_action_requests s" "lg_idempotency s' = lg_idempotency s"
    "lg_snapshots s' = lg_snapshots s" "lg_next_page_number s' = lg_next_page_number s"
  by (rule append_event_Ok [OF assms], erule event_sel)+

end
