(* ===== verification/Broker_Leases.thy ===== *)
theory Broker_Leases
  imports Broker_Core
begin

text \<open>
  Connections, spaces and leases of the broker (\<^verbatim>\<open>crates/agentyc-host/src/broker.rs\<close>, lines 298 to
  740 and 1102 to 2446). Every closure that runs under \<^verbatim>\<open>Ledger::update\<close> is one transition, named
  after its method with the suffix \<open>_upd\<close>; the methods run them under the broker's lock and call
  the bridge in between. What the bridge answers is an argument of the method.
\<close>

section \<open>The broker\<close>

record broker =
  br_ledger :: ledger
  br_lifecycle :: host_lifecycle
  br_capabilities :: "capability list"
  br_router :: "payload event_router"
  br_user_intent_tickets :: "(opaque_id, host_intent_ticket) btree"

abbreviation br_state :: "broker \<Rightarrow> ledger_state" where
  "br_state b \<equiv> ld_state (br_ledger b)"

text \<open>
  \<^verbatim>\<open>with_inner\<close>: an operation under the broker's lock, after which the event router is brought up
  to date. \<open>guarded\<close> is an operation that returns early when a check fails, \<open>checked\<close> one whose check
  reads the state, \<open>and_next\<close> the sequence of two operations that each take the lock.
\<close>

type_synonym 'a broker_op = "broker \<Rightarrow> broker \<times> (host_error, 'a) result"

definition with_inner :: "'a broker_op \<Rightarrow> 'a broker_op" where
  "with_inner operation b =
     (let (b', result) = operation b
      in (b'\<lparr>br_router := sync_event_router (br_router b') (br_state b')\<rparr>, result))"

definition update_ledger :: "json_writer \<Rightarrow> ledger_io \<Rightarrow> 'a upd \<Rightarrow> 'a broker_op" where
  "update_ledger js io f b =
     (let (l, r) = ledger_update js io (run_upd f) (br_ledger b) in (b\<lparr>br_ledger := l\<rparr>, r))"

definition with_update :: "json_writer \<Rightarrow> ledger_io \<Rightarrow> 'a upd \<Rightarrow> 'a broker_op" where
  "with_update js io f = with_inner (update_ledger js io f)"

definition guarded :: "(host_error, 'c) result \<Rightarrow> ('c \<Rightarrow> 'a broker_op) \<Rightarrow> 'a broker_op" where
  "guarded check f b = (case check of Inl e \<Rightarrow> (b, Err e) | Inr c \<Rightarrow> f c b)"

definition checked :: "(broker \<Rightarrow> (host_error, 'c) result) \<Rightarrow> ('c \<Rightarrow> 'a broker_op) \<Rightarrow> 'a broker_op" where
  "checked check f b = guarded (check b) f b"

definition and_next :: "'a broker_op \<Rightarrow> ('a \<Rightarrow> 'b broker_op) \<Rightarrow> 'b broker_op" where
  "and_next f k b = (case f b of (b', Inl e) \<Rightarrow> (b', Err e) | (b', Inr a) \<Rightarrow> k a b')"

definition broker_return :: "(host_error, 'a) result \<Rightarrow> 'a broker_op" where
  "broker_return r b = (b, r)"

definition ready_update :: "json_writer \<Rightarrow> ledger_io \<Rightarrow> 'a upd \<Rightarrow> 'a broker_op" where
  "ready_update js io f = with_inner (
     checked (\<lambda>b. ensure_ready (br_lifecycle b)) (\<lambda>_. update_ledger js io f))"

definition action_update :: "json_writer \<Rightarrow> ledger_io \<Rightarrow> 'a upd \<Rightarrow> 'a broker_op" where
  "action_update js io f = with_inner (
     checked (\<lambda>b. ensure_ready (br_lifecycle b)) (\<lambda>_.
     checked (\<lambda>b. require_capability (br_capabilities b) CP_Action) (\<lambda>_. update_ledger js io f)))"

fun lifecycle_debug :: "host_lifecycle \<Rightarrow> string" where
  "lifecycle_debug HL_Starting = ''Starting''"
| "lifecycle_debug HL_WaitingForExtension = ''WaitingForExtension''"
| "lifecycle_debug HL_Ready = ''Ready''"
| "lifecycle_debug HL_Draining = ''Draining''"
| "lifecycle_debug (HL_Degraded reason) = ''Degraded('' @ (case reason of HD_ExtensionLost \<Rightarrow> ''ExtensionLost''
     | HD_ChromeLost \<Rightarrow> ''ChromeLost'' | HD_LedgerError \<Rightarrow> ''LedgerError'') @ '')''"
| "lifecycle_debug HL_Recovering = ''Recovering''"
| "lifecycle_debug HL_Orphaned = ''Orphaned''"
| "lifecycle_debug HL_Stopped = ''Stopped''"

definition transition_lifecycle :: "host_lifecycle \<Rightarrow> unit broker_op" where
  "transition_lifecycle next = with_inner (\<lambda>b.
     if \<not> valid_lifecycle_transition (br_lifecycle b) next
     then (b, Err (HE_Invariant (''invalid host lifecycle transition from '' @ lifecycle_debug (br_lifecycle b)
                @ '' to '' @ lifecycle_debug next)))
     else (b\<lparr>br_lifecycle := next\<rparr>, Ok ()))"

definition wait_for_extension :: "unit broker_op" where
  "wait_for_extension = transition_lifecycle HL_WaitingForExtension"

definition begin_recovery :: "unit broker_op" where
  "begin_recovery = transition_lifecycle HL_Recovering"

definition mark_ready :: "unit broker_op" where
  "mark_ready = transition_lifecycle HL_Ready"

definition no_scope :: event_scope where
  "no_scope = \<lparr>sc_space_id = None, sc_page_id = None\<rparr>"

definition mark_degraded_upd :: "unit upd" where
  "mark_degraded_upd =
     upd_bind (upd_mod (\<lambda>s. s\<lparr>lg_snapshots := []\<rparr>)) (\<lambda>_.
     append_event no_scope EK_ConnectionChanged
       (payload_of [(''status'', ''disconnected''), (''resync_required'', ''true'')])
       (Some DR_Reconnect) True)"

definition mark_degraded :: "json_writer \<Rightarrow> ledger_io \<Rightarrow> host_degraded_reason \<Rightarrow> unit broker_op" where
  "mark_degraded js io reason = with_inner (\<lambda>b.
     if \<not> valid_lifecycle_transition (br_lifecycle b) (HL_Degraded reason)
     then (b, Err (HE_Invariant (''invalid host lifecycle transition from '' @ lifecycle_debug (br_lifecycle b)
                @ '' to degraded'')))
     else update_ledger js io mark_degraded_upd (b\<lparr>br_lifecycle := HL_Degraded reason\<rparr>))"

section \<open>Connections\<close>

record extension_epochs =
  xe_worker_instance_epoch :: u64
  xe_browser_session_epoch :: u64

definition max_epoch :: "u64 option \<Rightarrow> u64 \<Rightarrow> u64 option" where
  "max_epoch current epoch = Some (max (case current of None \<Rightarrow> 0 | Some c \<Rightarrow> c) epoch)"

definition admit_extension :: "extension_epochs option \<Rightarrow> opaque_id option \<Rightarrow> unit upd" where
  "admit_extension epochs profile =
     upd_bind (case epochs of
         None \<Rightarrow> upd_ok ()
       | Some x \<Rightarrow>
           upd_bind (upd_get (\<lambda>s. core_ok_or profile
             (core_error_new EC_ProfileNotFound ''extension connection has no profile binding''))) (\<lambda>p.
           upd_bind (upd_get (\<lambda>s. checks
             [core_reject (is_some_and (lg_extension_profile_binding_id s) (\<lambda>current. current \<noteq> p))
                (core_error_new EC_ProfileNotFound ''extension profile binding changed without re-enrollment''),
              core_reject (is_some_and (lg_extension_worker_instance_epoch s)
                  (\<lambda>current. xe_worker_instance_epoch x < current)
                \<or> is_some_and (lg_extension_browser_session_epoch s)
                  (\<lambda>current. xe_browser_session_epoch x < current))
                (core_error_new EC_PermissionDenied ''extension epoch is older than the durable host fence'')])) (\<lambda>_.
           upd_mod (\<lambda>s. s\<lparr>lg_extension_profile_binding_id := Some p,
             lg_extension_worker_instance_epoch :=
               max_epoch (lg_extension_worker_instance_epoch s) (xe_worker_instance_epoch x),
             lg_extension_browser_session_epoch :=
               max_epoch (lg_extension_browser_session_epoch s) (xe_browser_session_epoch x)\<rparr>)))) (\<lambda>_.
     upd_mod (\<lambda>s. s\<lparr>lg_active_connections := bt_retain (\<lambda>current. \<not> ac_is_extension current)
       (lg_active_connections s)\<rparr>))"

definition hello_upd ::
  "hello_envelope \<Rightarrow> extension_epochs option \<Rightarrow> opaque_id \<Rightarrow> opaque_id option \<Rightarrow> bool
   \<Rightarrow> (connection_epoch \<times> opaque_id \<times> resume_result) upd" where
  "hello_upd hello epochs nonce profile is_extension =
     upd_bind (upd_get (\<lambda>s. core_reject (nonce \<in> lg_used_connection_nonces s)
       (core_error_new EC_PermissionDenied ''connection nonce was already used in this broker epoch''))) (\<lambda>_.
     upd_bind (upd_get (\<lambda>s. core_ok_or (counter_checked_next (lg_connection_epoch s))
       (invalid_argument ''connection epoch overflow''))) (\<lambda>epoch.
     upd_bind (if is_extension then admit_extension epochs profile else upd_ok ()) (\<lambda>_.
     upd_bind (upd_mod (\<lambda>s. s\<lparr>lg_connection_epoch := epoch,
       lg_connection_principal_id := Some (he_principal_id hello), lg_connection_nonce := Some nonce,
       lg_connection_profile_binding_id := profile\<rparr>)) (\<lambda>_.
     upd_bind (upd_get (\<lambda>s. Ok (case he_resume_from hello of None \<Rightarrow> RU_Accepted
       | Some watermark \<Rightarrow> resume_status s watermark))) (\<lambda>resume.
     upd_bind (upd_mod (\<lambda>s. s\<lparr>lg_used_connection_nonces := insert nonce (lg_used_connection_nonces s),
       lg_active_connections := bt_insert epoch
         \<lparr>ac_principal_id = he_principal_id hello, ac_connection_nonce = nonce,
          ac_profile_binding_id = profile, ac_is_extension = is_extension\<rparr> (lg_active_connections s)\<rparr>)) (\<lambda>_.
     upd_ok (epoch, he_principal_id hello, resume)))))))"

record connection =
  co_principal_id :: opaque_id
  co_broker_epoch :: broker_epoch
  co_connection_epoch :: connection_epoch
  co_protocol :: u16
  co_capabilities :: "capability list"
  co_resume :: resume_result
  co_authority :: authority_ticket

definition hello ::
  "json_writer \<Rightarrow> ledger_io \<Rightarrow> extension_epochs option \<Rightarrow> hello_envelope \<Rightarrow> connection broker_op" where
  "hello js io epochs envelope =
     guarded (core_result (hello_validate_handshake envelope)) (\<lambda>_.
     guarded (core_result (negotiate_version (he_supported_protocols envelope) [PROTOCOL_VERSION])) (\<lambda>negotiated.
     guarded (core_reject (he_protocol envelope \<noteq> negotiated)
       (core_error_new EC_ProtocolMismatch
          (''requested protocol '' @ show_nat (unat (he_protocol envelope)) @ '' is not negotiated''))) (\<lambda>_.
     with_inner (
     guarded (core_ok_or (he_client_metadata envelope)
       (invalid_argument ''handshake metadata is missing'')) (\<lambda>metadata.
     guarded (core_ok_or (cm_connection_nonce metadata)
       (invalid_argument ''handshake nonce is missing'')) (\<lambda>nonce.
     and_next
       (update_ledger js io
         (hello_upd envelope epochs nonce (cm_profile_binding_id metadata)
            (cm_client_name metadata = Some ''agentyc-extension''))) (\<lambda>(epoch, principal, resume) b.
       (b, Ok \<lparr>co_principal_id = principal, co_broker_epoch = lg_broker_epoch (br_state b),
          co_connection_epoch = epoch, co_protocol = negotiated, co_capabilities = br_capabilities b,
          co_resume = resume,
          co_authority = \<lparr>au_principal_id = principal, au_broker_epoch = lg_broker_epoch (br_state b),
            au_connection_epoch = epoch, au_profile_binding_id = cm_profile_binding_id metadata,
            au_connection_nonce = nonce\<rparr>\<rparr>))))))))"

definition disconnect_upd :: "authority_ticket \<Rightarrow> unit upd" where
  "disconnect_upd authority =
     upd_mod (\<lambda>s.
       if au_broker_epoch authority = lg_broker_epoch s
          \<and> is_some_and (bt_get (lg_active_connections s) (au_connection_epoch authority)) (\<lambda>current.
              ac_principal_id current = au_principal_id authority
              \<and> ac_connection_nonce current = au_connection_nonce authority
              \<and> ac_profile_binding_id current = au_profile_binding_id authority)
       then s\<lparr>lg_active_connections := bt_remove (au_connection_epoch authority) (lg_active_connections s)\<rparr>
       else s)"

definition disconnect :: "json_writer \<Rightarrow> ledger_io \<Rightarrow> authority_ticket \<Rightarrow> unit broker_op" where
  "disconnect js io authority = with_update js io (disconnect_upd authority)"

section \<open>Spaces\<close>

definition create_space_in_state ::
  "opaque_id \<Rightarrow> opaque_id \<Rightarrow> utext \<Rightarrow> retention_policy \<Rightarrow> opaque_id option \<Rightarrow> space_descriptor upd" where
  "create_space_in_state principal_id space_id label retention profile =
     (let descriptor = \<lparr>s_space_id = space_id, s_label = label, s_lifecycle = SL_Created, s_owner = principal_id,
            s_lease = None, s_profile_binding = (if is_some profile then PF_Bound else PF_Unbound),
            s_pages = [], s_visual_group_hint = None,
            s_capabilities = [CP_Snapshot, CP_Action, CP_Wait, CP_Reconcile], s_warnings = [],
            s_retention = retention\<rparr>
      in upd_bind (upd_get (\<lambda>s. core_reject (bt_contains (lg_spaces s) space_id)
           (invalid_argument ''logical space already exists''))) (\<lambda>_.
         upd_bind (upd_mod (\<lambda>s. s\<lparr>lg_spaces := bt_insert space_id descriptor (lg_spaces s),
           lg_profile_bindings := (case profile of None \<Rightarrow> lg_profile_bindings s
             | Some p \<Rightarrow> bt_insert space_id p (lg_profile_bindings s)),
           lg_space_generations := bt_insert space_id 0 (lg_space_generations s)\<rparr>)) (\<lambda>_.
         upd_bind (append_event (scope_space space_id) EK_SpaceChanged
           (payload_of [(''lifecycle'', ''created'')]) None False) (\<lambda>_.
         upd_ok descriptor))))"

definition space_number_id :: "u64 \<Rightarrow> (host_error, opaque_id) result" where
  "space_number_id number = id_result (from_suffix SpaceId (''space-'' @ show_nat (unat number)))"

definition create_space_upd ::
  "authority_ticket \<Rightarrow> utext \<Rightarrow> retention_policy \<Rightarrow> space_descriptor upd" where
  "create_space_upd authority label retention =
     upd_bind (upd_get (\<lambda>s. authorize_ticket s authority)) (\<lambda>_.
     upd_bind (upd_get (\<lambda>s. core_ok_or (checked_add64 (lg_next_space_number s) 1)
       (invalid_argument ''space identity counter overflow''))) (\<lambda>number.
     upd_bind (upd_get (\<lambda>s. space_number_id number)) (\<lambda>space_id.
     upd_bind (upd_mod (\<lambda>s. s\<lparr>lg_next_space_number := number\<rparr>)) (\<lambda>_.
     create_space_in_state (au_principal_id authority) space_id label retention (au_profile_binding_id authority)))))"

definition create_space_with_retention ::
  "json_writer \<Rightarrow> ledger_io \<Rightarrow> authority_ticket \<Rightarrow> utext \<Rightarrow> retention_policy \<Rightarrow> space_descriptor broker_op" where
  "create_space_with_retention js io authority label retention =
     guarded (bounded_label label) (\<lambda>label.
     ready_update js io (create_space_upd authority label retention))"

definition create_space :: "json_writer \<Rightarrow> ledger_io \<Rightarrow> authority_ticket \<Rightarrow> utext \<Rightarrow> space_descriptor broker_op" where
  "create_space js io authority label = create_space_with_retention js io authority label RP_Retain"

definition create_space_with_disclosure ::
  "json_writer \<Rightarrow> ledger_io \<Rightarrow> authority_ticket \<Rightarrow> utext \<Rightarrow> profile_disclosure \<Rightarrow> space_descriptor broker_op" where
  "create_space_with_disclosure js io authority label disclosure =
     guarded (core_result (disclosure_validate disclosure)) (\<lambda>_. create_space js io authority label)"

definition list_spaces :: "authority_ticket \<Rightarrow> ledger_state \<Rightarrow> (host_error, space_descriptor list) result" where
  "list_spaces authority s =
     and_then (authorize_ticket s authority) (\<lambda>_.
     Ok (filter (\<lambda>space. visible_to_principal space (au_principal_id authority)) (bt_values (lg_spaces s))))"

definition list_profile_spaces ::
  "authority_ticket \<Rightarrow> ledger_state \<Rightarrow> (host_error, space_descriptor list) result" where
  "list_profile_spaces authority s =
     and_then (authorize_ticket s authority) (\<lambda>_.
     and_then (core_ok_or (au_profile_binding_id authority)
       (core_error_new EC_ProfileNotFound ''profile-bound authority is required for control spaces'')) (\<lambda>profile.
     Ok (filter (\<lambda>space. bt_get (lg_profile_bindings s) (s_space_id space) = Some profile)
       (bt_values (lg_spaces s)))))"

definition describe_space :: "authority_ticket \<Rightarrow> opaque_id \<Rightarrow> ledger_state \<Rightarrow> (host_error, space_descriptor) result" where
  "describe_space authority space_id s =
     and_then (authorize_ticket s authority) (\<lambda>_.
     and_then (find_space s space_id) (\<lambda>space.
     if \<not> visible_to_principal space (au_principal_id authority)
     then host_err (core_error_new EC_SpaceForbidden ''principal cannot read this space'') else Ok space))"

definition control_ticket_of :: "authority_ticket \<Rightarrow> opaque_id \<Rightarrow> ledger_state \<Rightarrow> (host_error, control_ticket) result" where
  "control_ticket_of authority space_id s =
     and_then (authorize_visible_space s authority space_id) (\<lambda>_.
     and_then (core_ok_or (bt_get (lg_control_tickets s) space_id)
       (core_error_new EC_UserControlRequired ''space has no current user-control ticket'')) (\<lambda>record.
     Ok \<lparr>ck_space = ct_space_id record, ck_broker_epoch = ct_broker_epoch record,
         ck_fence_epoch = ct_fence_epoch record, ck_token = ct_token record\<rparr>))"

definition rebind_required_space ::
  "ledger_state \<Rightarrow> opaque_id \<Rightarrow> opaque_id \<Rightarrow> space_descriptor \<Rightarrow> bool" where
  "rebind_required_space s observed k space \<longleftrightarrow>
     s_profile_binding space = PF_Bound \<and> bt_get (lg_profile_bindings s) (s_space_id space) \<noteq> Some observed"

definition fence_for_rebind :: "space_descriptor \<Rightarrow> space_descriptor" where
  "fence_for_rebind space =
     (let space = space\<lparr>s_profile_binding := PF_RebindRequired,
            s_lease := map_option (\<lambda>l. l\<lparr>l_state := LS_Fenced\<rparr>) (s_lease space)\<rparr>
      in if is_some (s_lease space) then
           space\<lparr>s_lifecycle := SL_Orphaned,
             s_pages := map (\<lambda>p. if admits_agent_mutations p
               then p\<lparr>p_lifecycle := PL_Rebinding, p_binding := PB_Lost\<rparr> else p) (s_pages space)\<rparr>
         else space)"

definition mark_profile_rebind_required_upd :: "opaque_id \<Rightarrow> nat upd" where
  "mark_profile_rebind_required_upd observed =
     upd_bind (upd_get (\<lambda>s. Ok (map (s_space_id \<circ> snd)
       (filter (\<lambda>(k, space). rebind_required_space s observed k space) (lg_spaces s))))) (\<lambda>affected.
     upd_bind (upd_mod (\<lambda>s. s\<lparr>lg_spaces := bt_map (\<lambda>k space.
       if rebind_required_space s observed k space then fence_for_rebind space else space) (lg_spaces s)\<rparr>)) (\<lambda>_.
     upd_bind (upd_each (\<lambda>space_id.
       upd_bind (upd_mod (\<lambda>s. s\<lparr>lg_snapshots := bt_remove space_id (lg_snapshots s)\<rparr>)) (\<lambda>_.
       append_event (scope_space space_id) EK_SpaceChanged
         (payload_of [(''profile_binding'', ''rebind_required'')]) (Some DR_Unknown) True)) affected) (\<lambda>_.
     upd_ok (length affected))))"

definition mark_profile_rebind_required ::
  "json_writer \<Rightarrow> ledger_io \<Rightarrow> opaque_id \<Rightarrow> nat broker_op" where
  "mark_profile_rebind_required js io observed = with_update js io (mark_profile_rebind_required_upd observed)"

section \<open>Leases\<close>

text \<open>
  \<open>modify_space\<close> is \<^verbatim>\<open>state.spaces.get_mut\<close> with the error for a missing space, \<open>try_modify_space\<close> the
  same for a change that can fail.
\<close>

definition try_modify_space ::
  "opaque_id \<Rightarrow> (space_descriptor \<Rightarrow> (host_error, space_descriptor) result) \<Rightarrow> unit upd" where
  "try_modify_space space_id f =
     upd_bind (upd_get (\<lambda>s. and_then (find_space s space_id) f)) (\<lambda>space.
     upd_mod (\<lambda>s. s\<lparr>lg_spaces := bt_insert space_id space (lg_spaces s)\<rparr>))"

definition modify_space :: "opaque_id \<Rightarrow> (space_descriptor \<Rightarrow> space_descriptor) \<Rightarrow> unit upd" where
  "modify_space space_id f = try_modify_space space_id (\<lambda>space. Ok (f space))"

definition with_lease ::
  "string \<Rightarrow> (lease \<Rightarrow> lease) \<Rightarrow> space_descriptor \<Rightarrow> (host_error, space_descriptor) result" where
  "with_lease missing f space =
     and_then (core_ok_or (s_lease space) (core_error_new EC_SpaceForbidden missing)) (\<lambda>lease.
     Ok (space\<lparr>s_lease := Some (f lease)\<rparr>))"

definition bump_pages :: "space_descriptor \<Rightarrow> (host_error, space_descriptor) result" where
  "bump_pages space =
     and_then (try_map bump_page_generations (s_pages space)) (\<lambda>pages. Ok (space\<lparr>s_pages := pages\<rparr>))"

definition lease_event :: "opaque_id \<Rightarrow> lease_epoch \<Rightarrow> string \<Rightarrow> bool \<Rightarrow> unit upd" where
  "lease_event space_id epoch state resync =
     append_event (scope_space space_id) EK_LeaseChanged
       (payload_of [(''lease_epoch'', show_nat (unat epoch)), (''state'', state)]) None resync"

definition space_event :: "opaque_id \<Rightarrow> string \<Rightarrow> bool \<Rightarrow> unit upd" where
  "space_event space_id lifecycle resync =
     append_event (scope_space space_id) EK_SpaceChanged (payload_of [(''lifecycle'', lifecycle)]) None resync"

definition action_event :: "opaque_id \<Rightarrow> opaque_id \<Rightarrow> string \<Rightarrow> bool \<Rightarrow> unit upd" where
  "action_event space_id action_id status resync =
     append_event (scope_space space_id) EK_ActionChanged
       (payload_of [(''action_id'', action_id), (''status'', status)]) None resync"

definition lease_is_live :: "lease option \<Rightarrow> timestamp \<Rightarrow> bool" where
  "lease_is_live lease now \<longleftrightarrow> is_some_and lease (\<lambda>l. l_state l = LS_Active \<and> l_expires_at l > now)"

definition lease_epoch_or_zero :: "lease option \<Rightarrow> u64" where
  "lease_epoch_or_zero lease = (case lease of None \<Rightarrow> 0 | Some l \<Rightarrow> l_lease_epoch l)"

definition is_fence_lifecycle :: "space_lifecycle \<Rightarrow> bool" where
  "is_fence_lifecycle lifecycle \<longleftrightarrow> lifecycle \<in> {SL_FencePending, SL_FenceDispatched, SL_FenceAcknowledged}"

definition next_lease_epoch :: "lease_epoch \<Rightarrow> (host_error, lease_epoch) result" where
  "next_lease_epoch epoch = core_ok_or (checked_add64 epoch 1) (invalid_argument ''lease epoch overflow'')"

definition acquire_admission ::
  "space_descriptor \<Rightarrow> authority_ticket \<Rightarrow> (host_error, unit) result" where
  "acquire_admission space authority = checks
     [core_reject (s_lifecycle space = SL_UserOwned)
        (core_error_new EC_UserControlRequired ''user-owned space requires an explicit control ticket''),
      core_reject (is_fence_lifecycle (s_lifecycle space))
        (core_error_new EC_PermissionDenied ''space has a pending fence; acknowledge or reconcile it first''),
      core_reject (s_lifecycle space \<notin> {SL_Created, SL_Orphaned, SL_Paused, SL_Released}
          \<and> s_owner space \<noteq> au_principal_id authority)
        (core_error_new EC_SpaceForbidden ''space is not available for this principal'')]"

definition acquire_lease_upd ::
  "opaque_id \<Rightarrow> authority_ticket \<Rightarrow> timestamp \<Rightarrow> timestamp \<times> timestamp \<Rightarrow> lease_grant upd" where
  "acquire_lease_upd space_id authority now window =
     upd_bind (upd_get (\<lambda>s. authorize_ticket s authority)) (\<lambda>_.
     upd_bind (upd_get (\<lambda>s. authorize_profile_for_mutation s space_id authority)) (\<lambda>_.
     upd_bind (upd_get (\<lambda>s. find_space s space_id)) (\<lambda>space.
     if lease_is_live (s_lease space) now then
       (if is_some_and (s_lease space) (\<lambda>l. l_principal_id l = au_principal_id authority) then
          upd_bind (upd_get (\<lambda>s. authorize_lease_holder s space_id authority)) (\<lambda>_.
          upd_ok \<lparr>gr_space_id = space_id, gr_lease = the (s_lease space)\<rparr>)
        else upd_err (core_error_new EC_SpaceForbidden ''space has an active lease; use explicit takeover''))
     else
       upd_bind (upd_get (\<lambda>_. acquire_admission space authority)) (\<lambda>_.
       upd_bind (upd_get (\<lambda>_. next_lease_epoch (lease_epoch_or_zero (s_lease space)))) (\<lambda>epoch.
       let lease = lease_active (au_principal_id authority) epoch (fst window) (snd window)
       in upd_bind (modify_space space_id (\<lambda>d. d\<lparr>s_lease := Some lease, s_owner := au_principal_id authority,
              s_lifecycle := SL_AgentOwned\<rparr>)) (\<lambda>_.
          upd_bind (upd_mod (\<lambda>s. s\<lparr>lg_lease_holders :=
              bt_insert space_id (au_connection_epoch authority) (lg_lease_holders s)\<rparr>)) (\<lambda>_.
          upd_bind (lease_event space_id epoch ''active'' False) (\<lambda>_.
          upd_bind (space_event space_id ''agent_owned'' False) (\<lambda>_.
          upd_ok \<lparr>gr_space_id = space_id, gr_lease = lease\<rparr>))))))))) "

definition acquire_lease ::
  "json_writer \<Rightarrow> ledger_io \<Rightarrow> opaque_id \<Rightarrow> authority_ticket \<Rightarrow> timestamp \<Rightarrow> u64 \<Rightarrow> lease_grant broker_op" where
  "acquire_lease js io space_id authority now ttl =
     guarded (lease_times now ttl) (\<lambda>window.
     action_update js io (acquire_lease_upd space_id authority now window))"

definition renew_lease_upd ::
  "opaque_id \<Rightarrow> authority_ticket \<Rightarrow> lease_epoch \<Rightarrow> timestamp \<Rightarrow> timestamp \<times> timestamp \<Rightarrow> lease_grant upd" where
  "renew_lease_upd space_id authority epoch now window =
     upd_bind (upd_get (\<lambda>s. authorize_ticket s authority)) (\<lambda>_.
     upd_bind (upd_get (\<lambda>s. authorize_space s space_id authority epoch now True)) (\<lambda>_.
     upd_bind (try_modify_space space_id (with_lease ''space has no lease''
       (\<lambda>l. l\<lparr>l_expires_at := fst window, l_renew_by := snd window, l_state := LS_Active\<rparr>))) (\<lambda>_.
     upd_bind (upd_get (\<lambda>s. and_then (find_space s space_id) (\<lambda>space.
       core_ok_or (s_lease space) (core_error_new EC_SpaceForbidden ''space has no lease'')))) (\<lambda>lease.
     upd_bind (lease_event space_id epoch ''active'' False) (\<lambda>_.
     upd_ok \<lparr>gr_space_id = space_id, gr_lease = lease\<rparr>)))))"

definition renew_lease ::
  "json_writer \<Rightarrow> ledger_io \<Rightarrow> opaque_id \<Rightarrow> authority_ticket \<Rightarrow> lease_epoch \<Rightarrow> timestamp \<Rightarrow> u64
   \<Rightarrow> lease_grant broker_op" where
  "renew_lease js io space_id authority epoch now ttl =
     guarded (lease_times now ttl) (\<lambda>window.
     ready_update js io (renew_lease_upd space_id authority epoch now window))"

end
