(* ===== verification/Broker_Fences.thy ===== *)
theory Broker_Fences
  imports Broker_Leases
begin

text \<open>
  Fences of the broker (\<^verbatim>\<open>crates/agentyc-host/src/broker.rs\<close>, lines 1277 to 2446): returning control
  to the user, takeover, and the completion of a fence. A fence has two transitions with a call of
  the bridge in between; the answer of the bridge is an argument. The old epoch is fenced in the
  first transition, before the bridge is asked.
\<close>

section \<open>Opening a fence\<close>

text \<open>A receipt transition inside a ledger transition; its error aborts the whole transition.\<close>

definition transition_receipt :: "opaque_id \<Rightarrow> (action_receipt \<Rightarrow> transition) \<Rightarrow> action_receipt \<Rightarrow> unit upd" where
  "transition_receipt action_id f receipt s =
     (case f receipt of
        (_, Inl e) \<Rightarrow> Err (HE_Action e)
      | (r, Inr _) \<Rightarrow> Ok (s\<lparr>lg_actions := bt_insert action_id r (lg_actions s)\<rparr>, ()))"

definition cancel_queued :: "opaque_id \<Rightarrow> timestamp option \<Rightarrow> opaque_id \<Rightarrow> unit upd" where
  "cancel_queued space_id completed_at action_id =
     upd_bind (upd_get (\<lambda>s. Ok (bt_get (lg_actions s) action_id))) (\<lambda>found.
     case found of
       None \<Rightarrow> upd_ok ()
     | Some receipt \<Rightarrow>
         if ar_status receipt = AS_Queued then
           upd_bind (transition_receipt action_id (\<lambda>r. receipt_cancel r completed_at) receipt) (\<lambda>_.
           action_event space_id action_id ''cancelled'' False)
         else upd_ok ())"

definition cancel_queue :: "opaque_id \<Rightarrow> timestamp option \<Rightarrow> unit upd" where
  "cancel_queue space_id completed_at =
     upd_bind (upd_get (\<lambda>s. Ok (bt_entry [] (lg_action_queues s) space_id))) (\<lambda>queued.
     upd_bind (upd_mod (\<lambda>s. s\<lparr>lg_action_queues := bt_remove space_id (lg_action_queues s)\<rparr>)) (\<lambda>_.
     upd_each (cancel_queued space_id completed_at) queued))"

definition interrupt_running :: "opaque_id \<Rightarrow> string \<Rightarrow> lease_epoch \<Rightarrow> opaque_id \<Rightarrow> unit upd" where
  "interrupt_running space_id prefix epoch action_id =
     upd_bind (upd_get (\<lambda>s. Ok (bt_get (lg_actions s) action_id))) (\<lambda>found.
     case found of
       None \<Rightarrow> upd_ok ()
     | Some receipt \<Rightarrow>
         upd_bind (upd_get (\<lambda>_. reconcile_token prefix epoch)) (\<lambda>token.
         upd_bind (transition_receipt action_id (\<lambda>r. mark_unknown r UR_FenceInterrupted token) receipt) (\<lambda>_.
         action_event space_id action_id ''unknown'' True)))"

definition interrupt_space :: "opaque_id \<Rightarrow> string \<Rightarrow> lease_epoch \<Rightarrow> unit upd" where
  "interrupt_space space_id prefix epoch =
     upd_bind (upd_get (\<lambda>s. Ok (map fst (filter (\<lambda>(_, receipt).
       ar_space_id receipt = space_id \<and> ar_status receipt = AS_Running) (lg_actions s))))) (\<lambda>running.
     upd_each (interrupt_running space_id prefix epoch) running)"

definition open_fence ::
  "opaque_id \<Rightarrow> opaque_id \<Rightarrow> lease_epoch option \<Rightarrow> lease_epoch \<Rightarrow> opaque_id \<Rightarrow> fence_purpose \<Rightarrow> unit upd" where
  "open_fence space_id token old_epoch fence_epoch principal_id purpose =
     upd_mod (\<lambda>s. s\<lparr>lg_pending_fences := bt_insert space_id
       \<lparr>pf_space_id = space_id, pf_broker_epoch = lg_broker_epoch s, pf_request_token = token,
        pf_old_epoch = old_epoch, pf_fence_epoch = fence_epoch, pf_principal_id = principal_id,
        pf_purpose = purpose\<rparr> (lg_pending_fences s)\<rparr>)"

definition drop_snapshots :: "opaque_id \<Rightarrow> unit upd" where
  "drop_snapshots space_id = upd_mod (\<lambda>s. s\<lparr>lg_snapshots := bt_remove space_id (lg_snapshots s)\<rparr>)"

definition hold_lease :: "opaque_id \<Rightarrow> connection_epoch \<Rightarrow> unit upd" where
  "hold_lease space_id epoch =
     upd_mod (\<lambda>s. s\<lparr>lg_lease_holders := bt_insert space_id epoch (lg_lease_holders s)\<rparr>)"

type_synonym fence_request = "lease_epoch option \<times> lease_epoch \<times> opaque_id"

definition begin_return_upd ::
  "opaque_id \<Rightarrow> authority_ticket \<Rightarrow> lease_epoch \<Rightarrow> timestamp \<Rightarrow> fence_request upd" where
  "begin_return_upd space_id authority lease_epoch now =
     upd_bind (upd_get (\<lambda>s. authorize_ticket s authority)) (\<lambda>_.
     upd_bind (upd_get (\<lambda>s. authorize_space s space_id authority lease_epoch now True)) (\<lambda>_.
     upd_bind (upd_get (\<lambda>_. next_lease_epoch lease_epoch)) (\<lambda>fence_epoch.
     upd_bind (upd_get (\<lambda>s. fence_request_token s space_id fence_epoch FP_ReturnControl)) (\<lambda>token.
     upd_bind (try_modify_space space_id (\<lambda>d.
       and_then (with_lease ''space has no active lease''
         (\<lambda>l. l\<lparr>l_lease_epoch := fence_epoch, l_state := LS_Fenced\<rparr>) d) (\<lambda>d.
       bump_pages (d\<lparr>s_lifecycle := SL_FencePending\<rparr>)))) (\<lambda>_.
     upd_bind (drop_snapshots space_id) (\<lambda>_.
     upd_bind (cancel_queue space_id (Some now)) (\<lambda>_.
     upd_bind (interrupt_space space_id ''return'' fence_epoch) (\<lambda>_.
     upd_bind (open_fence space_id token (Some lease_epoch) fence_epoch (au_principal_id authority)
       FP_ReturnControl) (\<lambda>_.
     upd_bind (lease_event space_id fence_epoch ''fence_pending'' True) (\<lambda>_.
     upd_ok (Some lease_epoch, fence_epoch, token)))))))))))"

definition takeover_admission ::
  "ledger_state \<Rightarrow> opaque_id \<Rightarrow> authority_ticket \<Rightarrow> (host_error, lease) result" where
  "takeover_admission s space_id authority =
     and_then (find_space s space_id) (\<lambda>space.
     and_then (checks
       [core_reject (s_lifecycle space = SL_UserOwned)
          (core_error_new EC_UserControlRequired ''user-owned space requires its control ticket''),
        core_reject (is_fence_lifecycle (s_lifecycle space))
          (core_error_new EC_PermissionDenied ''space already has a pending fence; acknowledge it first'')]) (\<lambda>_.
     and_then (core_ok_or (s_lease space)
       (core_error_new EC_SpaceForbidden ''space has no current authority'')) (\<lambda>current.
     and_then (checks
       [core_reject (l_principal_id current \<noteq> au_principal_id authority
            \<or> (l_state current \<noteq> LS_Active
               \<and> \<not> (s_lifecycle space = SL_Orphaned \<and> l_state current = LS_Fenced)))
          (core_error_new EC_PermissionDenied ''takeover requires the current authority or a control ticket''),
        if l_state current = LS_Active then authorize_lease_holder s space_id authority else Ok ()]) (\<lambda>_.
     Ok current))))"

definition grant_fenced ::
  "authority_ticket \<Rightarrow> lease_epoch \<Rightarrow> timestamp \<times> timestamp \<Rightarrow> space_descriptor
   \<Rightarrow> (host_error, space_descriptor) result" where
  "grant_fenced authority epoch window space =
     and_then (bump_pages space) (\<lambda>d.
     Ok (d\<lparr>s_owner := au_principal_id authority,
           s_lease := Some (lease_active (au_principal_id authority) epoch (fst window) (snd window)),
           s_lifecycle := SL_FencePending\<rparr>))"

definition begin_takeover_upd ::
  "opaque_id \<Rightarrow> authority_ticket \<Rightarrow> timestamp \<Rightarrow> timestamp \<times> timestamp \<Rightarrow> fence_request upd" where
  "begin_takeover_upd space_id authority now window =
     upd_bind (upd_get (\<lambda>s. authorize_ticket s authority)) (\<lambda>_.
     upd_bind (upd_get (\<lambda>s. authorize_profile_for_mutation s space_id authority)) (\<lambda>_.
     upd_bind (upd_get (\<lambda>s. takeover_admission s space_id authority)) (\<lambda>current.
     upd_bind (upd_get (\<lambda>_. next_lease_epoch (l_lease_epoch current))) (\<lambda>new_epoch.
     upd_bind (upd_get (\<lambda>s. fence_request_token s space_id new_epoch FP_Takeover)) (\<lambda>token.
     upd_bind (try_modify_space space_id (grant_fenced authority new_epoch window)) (\<lambda>_.
     upd_bind (drop_snapshots space_id) (\<lambda>_.
     upd_bind (hold_lease space_id (au_connection_epoch authority)) (\<lambda>_.
     upd_bind (cancel_queue space_id (Some now)) (\<lambda>_.
     upd_bind (interrupt_space space_id ''fence'' new_epoch) (\<lambda>_.
     upd_bind (open_fence space_id token (Some (l_lease_epoch current)) new_epoch
       (au_principal_id authority) FP_Takeover) (\<lambda>_.
     upd_bind (lease_event space_id new_epoch ''fence_pending'' False) (\<lambda>_.
     upd_ok (Some (l_lease_epoch current), new_epoch, token)))))))))))))"

definition control_admission ::
  "ledger_state \<Rightarrow> opaque_id \<Rightarrow> control_ticket \<Rightarrow> (host_error, lease_epoch) result" where
  "control_admission s space_id ticket =
     and_then (find_space s space_id) (\<lambda>space.
     and_then (core_ok_or (s_lease space)
       (core_error_new EC_UserControlRequired ''user-owned space has no control fence'')) (\<lambda>lease.
     and_then (core_reject (s_lifecycle space \<noteq> SL_UserOwned \<or> ck_space ticket \<noteq> space_id
         \<or> ck_broker_epoch ticket \<noteq> lg_broker_epoch s \<or> ck_fence_epoch ticket \<noteq> l_lease_epoch lease
         \<or> is_none_or (bt_get (lg_control_tickets s) space_id) (\<lambda>r. ct_token r \<noteq> ck_token ticket))
       (core_error_new EC_PermissionDenied ''control ticket is stale or belongs to another space'')) (\<lambda>_.
     Ok (l_lease_epoch lease))))"

definition begin_control_takeover_upd ::
  "opaque_id \<Rightarrow> authority_ticket \<Rightarrow> control_ticket \<Rightarrow> timestamp \<times> timestamp \<Rightarrow> fence_request upd" where
  "begin_control_takeover_upd space_id authority ticket window =
     upd_bind (upd_get (\<lambda>s. authorize_ticket s authority)) (\<lambda>_.
     upd_bind (upd_get (\<lambda>s. authorize_profile_for_mutation s space_id authority)) (\<lambda>_.
     upd_bind (upd_get (\<lambda>s. control_admission s space_id ticket)) (\<lambda>current.
     upd_bind (upd_get (\<lambda>_. next_lease_epoch current)) (\<lambda>new_epoch.
     upd_bind (upd_get (\<lambda>s. fence_request_token s space_id new_epoch FP_Takeover)) (\<lambda>token.
     upd_bind (try_modify_space space_id (grant_fenced authority new_epoch window)) (\<lambda>_.
     upd_bind (hold_lease space_id (au_connection_epoch authority)) (\<lambda>_.
     upd_bind (upd_mod (\<lambda>s. s\<lparr>lg_control_tickets := bt_remove space_id (lg_control_tickets s),
       lg_takeover_proofs := bt_remove space_id (lg_takeover_proofs s),
       lg_snapshots := bt_remove space_id (lg_snapshots s)\<rparr>)) (\<lambda>_.
     upd_bind (open_fence space_id token (Some current) new_epoch (au_principal_id authority)
       FP_Takeover) (\<lambda>_.
     upd_bind (lease_event space_id new_epoch ''fence_pending'' True) (\<lambda>_.
     upd_ok (Some current, new_epoch, token)))))))))))"

section \<open>Completing a fence\<close>

definition push_warning :: "utext \<Rightarrow> space_descriptor \<Rightarrow> space_descriptor" where
  "push_warning warning space =
     (let warnings = s_warnings space @ [bounded_warning warning]
      in space\<lparr>s_warnings := (if length warnings > 16 then tl warnings else warnings)\<rparr>)"

definition record_fence_warning_upd :: "opaque_id \<Rightarrow> string \<Rightarrow> unit upd" where
  "record_fence_warning_upd space_id warning = modify_space space_id (push_warning (code_points warning))"

definition user_owned_page :: "page_descriptor \<Rightarrow> page_descriptor" where
  "user_owned_page page = page\<lparr>p_ownership := PO_User, p_binding := PB_UserOwned, p_lifecycle := PL_UserOwned\<rparr>"

definition return_claim_valid :: "authority_ticket \<Rightarrow> lease_epoch \<Rightarrow> space_descriptor \<Rightarrow> bool" where
  "return_claim_valid authority fence_epoch space \<longleftrightarrow>
     s_lifecycle space = SL_FencePending
     \<and> is_some_and (s_lease space) (\<lambda>l. l_principal_id l = au_principal_id authority
         \<and> l_lease_epoch l = fence_epoch \<and> l_state l = LS_Fenced)"

definition finish_user_return_upd ::
  "opaque_id \<Rightarrow> authority_ticket \<Rightarrow> lease_epoch \<Rightarrow> lease_epoch \<Rightarrow> opaque_id \<Rightarrow> control_return upd" where
  "finish_user_return_upd space_id authority released_epoch fence_epoch fence_token =
     upd_bind (upd_get (\<lambda>s. authorize_ticket s authority)) (\<lambda>_.
     upd_bind (upd_get (\<lambda>s. core_ok_or (bt_get (lg_pending_fences s) space_id)
       (core_error_new EC_StaleLease ''user-return fence completion is no longer pending''))) (\<lambda>pending.
     upd_bind (upd_get (\<lambda>s. core_reject (pf_purpose pending \<noteq> FP_ReturnControl
         \<or> pf_request_token pending \<noteq> fence_token \<or> pf_broker_epoch pending \<noteq> lg_broker_epoch s
         \<or> pf_fence_epoch pending \<noteq> fence_epoch \<or> pf_old_epoch pending \<noteq> Some released_epoch
         \<or> pf_principal_id pending \<noteq> au_principal_id authority)
       (core_error_new EC_StaleLease ''user-return fence completion does not match the pending request''))) (\<lambda>_.
     upd_bind (upd_get (\<lambda>s. authorize_lease_holder s space_id authority)) (\<lambda>_.
     upd_bind (upd_get (\<lambda>_. reconcile_token ''control'' fence_epoch)) (\<lambda>token.
     upd_bind (try_modify_space space_id (\<lambda>d.
       if return_claim_valid authority fence_epoch d then
         Ok (d\<lparr>s_lease := map_option (\<lambda>l. l\<lparr>l_state := LS_Released\<rparr>) (s_lease d),
               s_lifecycle := SL_UserOwned, s_pages := map user_owned_page (s_pages d)\<rparr>)
       else host_err (stale_lease fence_epoch released_epoch))) (\<lambda>_.
     upd_bind (upd_mod (\<lambda>s. s\<lparr>lg_lease_holders := bt_remove space_id (lg_lease_holders s),
       lg_pending_fences := bt_remove space_id (lg_pending_fences s),
       lg_control_tickets := bt_insert space_id
         \<lparr>ct_space_id = space_id, ct_broker_epoch = lg_broker_epoch s, ct_fence_epoch = fence_epoch,
          ct_token = token\<rparr> (lg_control_tickets s)\<rparr>)) (\<lambda>_.
     upd_bind (lease_event space_id fence_epoch ''released'' False) (\<lambda>_.
     upd_bind (space_event space_id ''user_owned'' False) (\<lambda>_.
     upd_bind (upd_get (\<lambda>s. Ok (lg_broker_epoch s))) (\<lambda>broker_epoch.
     upd_ok \<lparr>cn_space_id = space_id, cn_released_epoch = released_epoch, cn_fence_epoch = fence_epoch,
       cn_control_ticket = \<lparr>ck_space = space_id, ck_broker_epoch = broker_epoch,
         ck_fence_epoch = fence_epoch, ck_token = token\<rparr>, cn_lifecycle = SL_UserOwned\<rparr>))))))))))"

definition reclaim_page :: "page_descriptor \<Rightarrow> page_descriptor" where
  "reclaim_page page =
     (let page = (if p_lifecycle page = PL_UserOwned
                  then page\<lparr>p_lifecycle := PL_Managed, p_binding := PB_Bound\<rparr> else page)
      in if p_lifecycle page = PL_Managed then page\<lparr>p_ownership := PO_Agent\<rparr> else page)"

definition fence_outcome :: "bool \<Rightarrow> core_error option \<Rightarrow> space_descriptor \<Rightarrow> space_descriptor" where
  "fence_outcome acknowledged bridge_error d =
     (if acknowledged then d\<lparr>s_lifecycle := SL_AgentOwned, s_pages := map reclaim_page (s_pages d)\<rparr>
      else let d = d\<lparr>s_lifecycle := SL_FencePending\<rparr>
           in case bridge_error of None \<Rightarrow> d
              | Some e \<Rightarrow> push_warning (code_points (''fence pending: '' @ code_str e)) d)"

definition takeover_claim_valid ::
  "ledger_state \<Rightarrow> opaque_id \<Rightarrow> authority_ticket \<Rightarrow> lease_epoch \<Rightarrow> space_descriptor \<Rightarrow> bool" where
  "takeover_claim_valid s space_id authority lease_epoch space \<longleftrightarrow>
     is_some_and (s_lease space) (\<lambda>l. l_principal_id l = au_principal_id authority \<and> l_lease_epoch l = lease_epoch)
     \<and> bt_get (lg_lease_holders s) space_id = Some (au_connection_epoch authority)"

definition prove_takeover ::
  "opaque_id \<Rightarrow> authority_ticket \<Rightarrow> lease_epoch \<Rightarrow> pending_fence_record \<Rightarrow> unit upd" where
  "prove_takeover space_id authority lease_epoch pending =
     upd_bind (upd_get (\<lambda>_. core_ok_or (pf_old_epoch pending)
       (core_error_new EC_LedgerIncompatible ''takeover fence has no previous lease epoch''))) (\<lambda>previous.
     upd_mod (\<lambda>s.
       let proofs = bt_entry [] (lg_takeover_proofs s) space_id @
             [\<lparr>tp_space_id = space_id, tp_broker_epoch = lg_broker_epoch s, tp_previous_epoch = previous,
               tp_current_epoch = lease_epoch, tp_principal_id = au_principal_id authority,
               tp_request_token = pf_request_token pending\<rparr>]
       in s\<lparr>lg_pending_fences := bt_remove space_id (lg_pending_fences s),
            lg_takeover_proofs := bt_insert space_id (if length proofs > 64 then tl proofs else proofs)
              (lg_takeover_proofs s)\<rparr>))"

definition finish_fence_upd ::
  "opaque_id \<Rightarrow> authority_ticket \<Rightarrow> lease_epoch \<Rightarrow> opaque_id \<Rightarrow> bool \<Rightarrow> core_error option \<Rightarrow> space_lifecycle upd" where
  "finish_fence_upd space_id authority lease_epoch fence_token acknowledged bridge_error =
     upd_bind (upd_get (\<lambda>s. authorize_ticket s authority)) (\<lambda>_.
     upd_bind (upd_get (\<lambda>s. core_ok_or (bt_get (lg_pending_fences s) space_id)
       (core_error_new EC_StaleLease ''fence completion is no longer pending''))) (\<lambda>pending.
     upd_bind (upd_get (\<lambda>s. core_reject (pf_purpose pending \<noteq> FP_Takeover
         \<or> pf_request_token pending \<noteq> fence_token \<or> pf_broker_epoch pending \<noteq> lg_broker_epoch s
         \<or> pf_fence_epoch pending \<noteq> lease_epoch \<or> pf_principal_id pending \<noteq> au_principal_id authority)
       (core_error_new EC_StaleLease ''fence completion does not match the pending request''))) (\<lambda>_.
     upd_bind (upd_get (\<lambda>s. and_then (find_space s space_id) (\<lambda>d.
       core_reject (\<not> takeover_claim_valid s space_id authority lease_epoch d)
         (stale_lease (lease_epoch_or_zero (s_lease d)) lease_epoch)))) (\<lambda>_.
     upd_bind (modify_space space_id (fence_outcome acknowledged bridge_error)) (\<lambda>_.
     upd_bind (if acknowledged then prove_takeover space_id authority lease_epoch pending else upd_ok ()) (\<lambda>_.
     upd_bind (space_event space_id (if acknowledged then ''agent_owned'' else ''fence_pending'')
       (\<not> acknowledged)) (\<lambda>_.
     upd_ok (if acknowledged then SL_AgentOwned else SL_FencePending))))))))"

definition set_fenced_space_lifecycle_upd ::
  "opaque_id \<Rightarrow> authority_ticket \<Rightarrow> lease_epoch \<Rightarrow> space_lifecycle \<Rightarrow> timestamp \<Rightarrow> space_descriptor upd" where
  "set_fenced_space_lifecycle_upd space_id authority lease_epoch lifecycle now =
     upd_bind (upd_get (\<lambda>s. authorize_space s space_id authority lease_epoch now True)) (\<lambda>_.
     upd_bind (try_modify_space space_id (\<lambda>d.
       and_then (with_lease ''space has no current lease'' (\<lambda>l. l\<lparr>l_state := LS_Fenced\<rparr>) d) (\<lambda>d.
       Ok (d\<lparr>s_lifecycle := lifecycle\<rparr>)))) (\<lambda>_.
     upd_bind (upd_mod (\<lambda>s. s\<lparr>lg_takeover_proofs := bt_remove space_id (lg_takeover_proofs s)\<rparr>)) (\<lambda>_.
     upd_bind (upd_get (\<lambda>s. find_space s space_id)) (\<lambda>result.
     upd_bind (space_event space_id (space_lifecycle_name lifecycle) False) (\<lambda>_.
     upd_ok result)))))"

definition fence_claim_valid :: "ledger_state \<Rightarrow> opaque_id \<Rightarrow> authority_ticket \<Rightarrow> lease_epoch \<Rightarrow> bool" where
  "fence_claim_valid s space_id authority lease_epoch \<longleftrightarrow>
     is_some_and (bt_get (lg_spaces s) space_id) (\<lambda>space. s_lifecycle space = SL_FencePending
       \<and> is_some_and (s_lease space) (\<lambda>l. l_principal_id l = au_principal_id authority
           \<and> l_lease_epoch l = lease_epoch))
     \<and> bt_get (lg_lease_holders s) space_id = Some (au_connection_epoch authority)"

definition retry_fence_upd ::
  "opaque_id \<Rightarrow> authority_ticket \<Rightarrow> lease_epoch \<Rightarrow> (timestamp \<times> timestamp) option
   \<Rightarrow> (bool \<times> opaque_id \<times> lease_epoch option) upd" where
  "retry_fence_upd space_id authority lease_epoch renewal =
     upd_bind (upd_get (\<lambda>s. authorize_ticket s authority)) (\<lambda>_.
     upd_bind (upd_get (\<lambda>s. core_ok_or (bt_get (lg_pending_fences s) space_id)
       (core_error_new EC_PermissionDenied ''pending fence request is missing''))) (\<lambda>pending.
     upd_bind (upd_get (\<lambda>s. checks
       [core_reject (pf_fence_epoch pending \<noteq> lease_epoch \<or> pf_principal_id pending \<noteq> au_principal_id authority
            \<or> \<not> fence_claim_valid s space_id authority lease_epoch)
          (core_error_new EC_PermissionDenied ''fence acknowledgement is not owned by this authority''),
        core_reject (pf_purpose pending = FP_ReturnControl \<and> is_some renewal)
          (core_error_new EC_PermissionDenied ''user-control fence cannot renew an agent lease'')])) (\<lambda>_.
     upd_bind (case renewal of
         None \<Rightarrow> upd_ok ()
       | Some window \<Rightarrow>
           upd_bind (try_modify_space space_id (with_lease ''space has no current lease''
             (\<lambda>l. l\<lparr>l_expires_at := fst window, l_renew_by := snd window, l_state := LS_Active\<rparr>))) (\<lambda>_.
           lease_event space_id lease_epoch ''fence_pending'' False)) (\<lambda>_.
     upd_ok (pf_purpose pending = FP_ReturnControl, pf_request_token pending, pf_old_epoch pending)))))"

section \<open>The bridge between the transitions\<close>

text \<open>
  The answers of the bridge: to \<^verbatim>\<open>fence_with_token\<close>, the epochs and the profile of the connected
  extension, and to \<^verbatim>\<open>rebind_page\<close> the members of the returned JSON object that the broker reads,
  \<open>None\<close> when the answer is no object.
\<close>

record rebind_reply =
  rb_space_id :: "opaque_id option"
  rb_page_id :: "opaque_id option"
  rb_ownership :: "string option"
  rb_lifecycle :: "string option"
  rb_binding_state :: "string option"
  rb_lease_epoch :: "u64 option"
  rb_target_generation :: "u64 option"
  rb_navigation_generation :: "u64 option"
  rb_document_generation :: "u64 option"

record fence_bridge =
  fb_fence :: "(core_error, bool) result"
  fb_extension_epochs :: "extension_epochs option"
  fb_profile_instance_id :: "opaque_id option"
  fb_rebind_page :: "opaque_id \<Rightarrow> (core_error, rebind_reply option) result"

definition retained_page :: "page_descriptor \<Rightarrow> bool" where
  "retained_page page \<longleftrightarrow>
     p_binding page \<in> {PB_Bound, PB_UserOwned} \<and> p_lifecycle page \<notin> {PL_Closed, PL_Closing}"

definition rebind_reply_valid :: "opaque_id \<Rightarrow> lease_epoch \<Rightarrow> page_descriptor \<Rightarrow> rebind_reply \<Rightarrow> bool" where
  "rebind_reply_valid space_id lease_epoch page reply \<longleftrightarrow>
     rb_space_id reply = Some space_id \<and> rb_page_id reply = Some (p_page_id page)
     \<and> rb_ownership reply = Some ''agent'' \<and> rb_lifecycle reply = Some ''managed''
     \<and> rb_binding_state reply = Some ''bound'' \<and> rb_lease_epoch reply = Some lease_epoch
     \<and> rb_target_generation reply = Some (p_target_generation page)
     \<and> rb_navigation_generation reply = Some (p_navigation_generation page)
     \<and> rb_document_generation reply = Some (p_document_generation page)"

definition rebind_one ::
  "fence_bridge \<Rightarrow> opaque_id \<Rightarrow> lease_epoch \<Rightarrow> page_descriptor \<Rightarrow> (host_error, unit) result" where
  "rebind_one bridge space_id lease_epoch page =
     and_then (core_result (fb_rebind_page bridge (p_page_id page))) (\<lambda>result.
     and_then (core_ok_or result
       (core_error_new EC_InvalidJson ''managed page rebind result is not an object'')) (\<lambda>reply.
     core_reject (\<not> rebind_reply_valid space_id lease_epoch page reply)
       (core_error_new EC_TargetReplaced
          ''managed page rebind result does not match the durable generation'')))"

definition rebind_pages_after_fence ::
  "fence_bridge \<Rightarrow> ledger_state \<Rightarrow> opaque_id \<Rightarrow> authority_ticket \<Rightarrow> lease_epoch \<Rightarrow> (host_error, unit) result" where
  "rebind_pages_after_fence bridge s space_id authority lease_epoch =
     and_then (authorize_ticket s authority) (\<lambda>_.
     and_then (find_space s space_id) (\<lambda>space.
     let pages = filter retained_page (s_pages space)
     in if pages = [] \<or> fb_extension_epochs bridge = None then Ok ()
        else
          and_then (core_ok_or (fb_profile_instance_id bridge)
            (core_error_new EC_ProfileNotFound
               ''extension profile identity is unavailable for retained page rebind'')) (\<lambda>profile.
          and_then (core_reject (is_some_and (au_profile_binding_id authority) (\<lambda>p. p \<noteq> profile))
            (core_error_new EC_ProfileNotFound
               ''authority profile binding does not match the extension page profile'')) (\<lambda>_.
          try_each (rebind_one bridge space_id lease_epoch) pages))))"

definition fence_verdict ::
  "fence_bridge \<Rightarrow> ledger_state \<Rightarrow> opaque_id \<Rightarrow> authority_ticket \<Rightarrow> lease_epoch \<Rightarrow> bool \<times> core_error option" where
  "fence_verdict bridge s space_id authority lease_epoch =
     (case fb_fence bridge of
        Inl e \<Rightarrow> (False, Some e)
      | Inr acknowledged \<Rightarrow>
          if acknowledged then
            (case rebind_pages_after_fence bridge s space_id authority lease_epoch of
               Inr _ \<Rightarrow> (True, None) | Inl e \<Rightarrow> (False, Some (as_core_error e)))
          else (False, None))"

definition record_fence_warning :: "json_writer \<Rightarrow> ledger_io \<Rightarrow> opaque_id \<Rightarrow> string \<Rightarrow> unit broker_op" where
  "record_fence_warning js io space_id warning = with_update js io (record_fence_warning_upd space_id warning)"

definition finish_user_return ::
  "json_writer \<Rightarrow> ledger_io \<Rightarrow> opaque_id \<Rightarrow> authority_ticket \<Rightarrow> lease_epoch \<Rightarrow> lease_epoch \<Rightarrow> opaque_id
   \<Rightarrow> control_return broker_op" where
  "finish_user_return js io space_id authority released_epoch fence_epoch token =
     with_update js io (finish_user_return_upd space_id authority released_epoch fence_epoch token)"

definition complete_return ::
  "json_writer \<Rightarrow> ledger_io \<Rightarrow> fence_bridge \<Rightarrow> opaque_id \<Rightarrow> authority_ticket \<Rightarrow> lease_epoch \<Rightarrow> lease_epoch
   \<Rightarrow> opaque_id \<Rightarrow> control_return broker_op" where
  "complete_return js io bridge space_id authority released_epoch fence_epoch token =
     (case fb_fence bridge of
        Inr True \<Rightarrow> finish_user_return js io space_id authority released_epoch fence_epoch token
      | Inr False \<Rightarrow>
          and_next (record_fence_warning js io space_id ''user return fence was not acknowledged'') (\<lambda>_.
          broker_return (host_err (core_error_new EC_ExtensionNotConnected
            ''user return requires an acknowledged fence'')))
      | Inl e \<Rightarrow>
          and_next (record_fence_warning js io space_id (ce_message e)) (\<lambda>_.
          broker_return (Err (HE_Bridge e))))"

definition return_control ::
  "json_writer \<Rightarrow> ledger_io \<Rightarrow> fence_bridge \<Rightarrow> opaque_id \<Rightarrow> authority_ticket \<Rightarrow> lease_epoch \<Rightarrow> timestamp
   \<Rightarrow> control_return broker_op" where
  "return_control js io bridge space_id authority lease_epoch now =
     and_next (action_update js io (begin_return_upd space_id authority lease_epoch now)) (\<lambda>(old, fence_epoch, token).
     complete_return js io bridge space_id authority lease_epoch fence_epoch token)"

definition return_claim ::
  "authority_ticket \<Rightarrow> opaque_id \<Rightarrow> lease_epoch \<Rightarrow> ledger_state \<Rightarrow> (host_error, pending_fence_record) result" where
  "return_claim authority space_id fence_epoch s =
     and_then (authorize_ticket s authority) (\<lambda>_.
     and_then (find_space s space_id) (\<lambda>space.
     and_then (core_ok_or (bt_get (lg_pending_fences s) space_id)
       (core_error_new EC_PermissionDenied ''user-return fence request is missing'')) (\<lambda>pending.
     and_then (core_reject (pf_purpose pending \<noteq> FP_ReturnControl \<or> pf_fence_epoch pending \<noteq> fence_epoch
         \<or> pf_principal_id pending \<noteq> au_principal_id authority
         \<or> \<not> return_claim_valid authority fence_epoch space
         \<or> bt_get (lg_lease_holders s) space_id \<noteq> Some (au_connection_epoch authority))
       (core_error_new EC_PermissionDenied ''user-return fence is not owned by this authority'')) (\<lambda>_.
     Ok pending))))"

definition released_epoch_of :: "lease_epoch option \<Rightarrow> lease_epoch \<Rightarrow> lease_epoch" where
  "released_epoch_of old_epoch fence_epoch =
     (case old_epoch of None \<Rightarrow> saturating_pred fence_epoch | Some e \<Rightarrow> e)"

definition acknowledge_return_control ::
  "json_writer \<Rightarrow> ledger_io \<Rightarrow> fence_bridge \<Rightarrow> opaque_id \<Rightarrow> authority_ticket \<Rightarrow> lease_epoch
   \<Rightarrow> control_return broker_op" where
  "acknowledge_return_control js io bridge space_id authority fence_epoch =
     and_next (with_inner (
       checked (\<lambda>b. require_capability (br_capabilities b) CP_Action) (\<lambda>_.
       checked (\<lambda>b. return_claim authority space_id fence_epoch (br_state b)) (\<lambda>pending.
       broker_return (Ok pending))))) (\<lambda>pending.
     complete_return js io bridge space_id authority
       (released_epoch_of (pf_old_epoch pending) fence_epoch) fence_epoch (pf_request_token pending))"

definition finish_fence ::
  "json_writer \<Rightarrow> ledger_io \<Rightarrow> fence_bridge \<Rightarrow> opaque_id \<Rightarrow> authority_ticket \<Rightarrow> lease_epoch \<Rightarrow> opaque_id
   \<Rightarrow> takeover_result broker_op" where
  "finish_fence js io bridge space_id authority epoch token b =
     (let (acknowledged, bridge_error) = fence_verdict bridge (br_state b) space_id authority epoch
      in and_next (with_update js io
             (finish_fence_upd space_id authority epoch token acknowledged bridge_error)) (\<lambda>lifecycle.
           broker_return (Ok \<lparr>tk_space_id = space_id, tk_lease_epoch = epoch,
             tk_fence_acknowledged = acknowledged, tk_lifecycle = lifecycle\<rparr>)) b)"

definition takeover ::
  "json_writer \<Rightarrow> ledger_io \<Rightarrow> fence_bridge \<Rightarrow> opaque_id \<Rightarrow> authority_ticket \<Rightarrow> timestamp \<Rightarrow> u64
   \<Rightarrow> takeover_result broker_op" where
  "takeover js io bridge space_id authority now ttl =
     guarded (lease_times now ttl) (\<lambda>window.
     and_next (action_update js io (begin_takeover_upd space_id authority now window)) (\<lambda>(old, epoch, token).
     finish_fence js io bridge space_id authority epoch token))"

definition takeover_with_control_ticket ::
  "json_writer \<Rightarrow> ledger_io \<Rightarrow> fence_bridge \<Rightarrow> opaque_id \<Rightarrow> authority_ticket \<Rightarrow> control_ticket \<Rightarrow> timestamp \<Rightarrow> u64
   \<Rightarrow> takeover_result broker_op" where
  "takeover_with_control_ticket js io bridge space_id authority ticket now ttl =
     guarded (lease_times now ttl) (\<lambda>window.
     and_next (action_update js io (begin_control_takeover_upd space_id authority ticket window)) (\<lambda>(old, epoch, token).
     finish_fence js io bridge space_id authority epoch token))"

definition after_takeover ::
  "json_writer \<Rightarrow> ledger_io \<Rightarrow> string \<Rightarrow> space_lifecycle \<Rightarrow> opaque_id \<Rightarrow> authority_ticket \<Rightarrow> timestamp
   \<Rightarrow> takeover_result \<Rightarrow> space_descriptor broker_op" where
  "after_takeover js io unacknowledged lifecycle space_id authority now result =
     guarded (core_reject (\<not> tk_fence_acknowledged result)
       (core_error_new EC_ReconciliationRequired unacknowledged)) (\<lambda>_.
     with_update js io
       (set_fenced_space_lifecycle_upd space_id authority (tk_lease_epoch result) lifecycle now))"

definition broker_pause_space ::
  "json_writer \<Rightarrow> ledger_io \<Rightarrow> fence_bridge \<Rightarrow> opaque_id \<Rightarrow> authority_ticket \<Rightarrow> timestamp \<Rightarrow> u64
   \<Rightarrow> space_descriptor broker_op" where
  "broker_pause_space js io bridge space_id authority now ttl =
     and_next (takeover js io bridge space_id authority now ttl)
       (after_takeover js io ''pause fence was not acknowledged'' SL_Paused space_id authority now)"

definition handoff_space ::
  "json_writer \<Rightarrow> ledger_io \<Rightarrow> fence_bridge \<Rightarrow> opaque_id \<Rightarrow> authority_ticket \<Rightarrow> timestamp \<Rightarrow> u64
   \<Rightarrow> space_descriptor broker_op" where
  "handoff_space js io bridge space_id authority now ttl =
     and_next (takeover js io bridge space_id authority now ttl)
       (after_takeover js io ''handoff fence was not acknowledged'' SL_HandoffRequested space_id authority now)"

definition acknowledge_fence_inner ::
  "json_writer \<Rightarrow> ledger_io \<Rightarrow> fence_bridge \<Rightarrow> opaque_id \<Rightarrow> authority_ticket \<Rightarrow> lease_epoch
   \<Rightarrow> (timestamp \<times> timestamp) option \<Rightarrow> takeover_result broker_op" where
  "acknowledge_fence_inner js io bridge space_id authority lease_epoch renewal =
     and_next (with_inner (
       checked (\<lambda>b. require_capability (br_capabilities b) CP_Action) (\<lambda>_.
       update_ledger js io (retry_fence_upd space_id authority lease_epoch renewal)))) (\<lambda>(return_pending, token, old).
     if \<not> return_pending then finish_fence js io bridge space_id authority lease_epoch token
     else
       let result = (\<lambda>acknowledged lifecycle. broker_return (Ok \<lparr>tk_space_id = space_id,
             tk_lease_epoch = lease_epoch, tk_fence_acknowledged = acknowledged, tk_lifecycle = lifecycle\<rparr>))
       in case fb_fence bridge of
            Inr True \<Rightarrow>
              and_next (finish_user_return js io space_id authority (released_epoch_of old lease_epoch)
                lease_epoch token) (\<lambda>returned. result True (cn_lifecycle returned))
          | Inr False \<Rightarrow> result False SL_FencePending
          | Inl e \<Rightarrow>
              and_next (record_fence_warning js io space_id (ce_message e)) (\<lambda>_. result False SL_FencePending))"

definition acknowledge_fence ::
  "json_writer \<Rightarrow> ledger_io \<Rightarrow> fence_bridge \<Rightarrow> opaque_id \<Rightarrow> authority_ticket \<Rightarrow> lease_epoch
   \<Rightarrow> takeover_result broker_op" where
  "acknowledge_fence js io bridge space_id authority lease_epoch =
     acknowledge_fence_inner js io bridge space_id authority lease_epoch None"

definition acknowledge_fence_with_ttl ::
  "json_writer \<Rightarrow> ledger_io \<Rightarrow> fence_bridge \<Rightarrow> opaque_id \<Rightarrow> authority_ticket \<Rightarrow> lease_epoch \<Rightarrow> timestamp \<Rightarrow> u64
   \<Rightarrow> takeover_result broker_op" where
  "acknowledge_fence_with_ttl js io bridge space_id authority lease_epoch now ttl =
     guarded (lease_times now ttl) (\<lambda>window.
     acknowledge_fence_inner js io bridge space_id authority lease_epoch (Some window))"

end
