(* ===== verification/Broker_Pages.thy ===== *)
theory Broker_Pages
  imports Broker_Fences
begin

text \<open>
  Pages of the broker and the end of a space (\<^verbatim>\<open>crates/agentyc-host/src/broker.rs\<close>, lines 2447 to
  3370, \<^verbatim>\<open>create_page_in_state\<close> and \<^verbatim>\<open>reconcile_bridge_pages\<close>): planning, binding, losing and closing a
  page, finishing, releasing and pruning a space. The JSON records that the bridge returns are
  records of the members the broker reads.
\<close>

section \<open>Pages\<close>

definition replace_page :: "page_descriptor \<Rightarrow> space_descriptor \<Rightarrow> space_descriptor" where
  "replace_page page space =
     space\<lparr>s_pages := update_first (\<lambda>p. p_page_id p = p_page_id page) page (s_pages space)\<rparr>"

definition modify_page ::
  "opaque_id \<Rightarrow> opaque_id \<Rightarrow> (page_descriptor \<Rightarrow> (host_error, page_descriptor) result) \<Rightarrow> page_descriptor upd" where
  "modify_page space_id page_id f =
     upd_bind (upd_get (\<lambda>s. find_space s space_id)) (\<lambda>space.
     upd_bind (upd_get (\<lambda>_. and_then (core_ok_or (space_page space page_id) page_not_found) f)) (\<lambda>page.
     upd_bind (upd_mod (\<lambda>s. s\<lparr>lg_spaces := bt_insert space_id (replace_page page space) (lg_spaces s)\<rparr>)) (\<lambda>_.
     upd_ok page)))"

definition page_event :: "opaque_id \<Rightarrow> opaque_id \<Rightarrow> (string \<times> string) list \<Rightarrow> bool \<Rightarrow> unit upd" where
  "page_event space_id page_id items resync =
     append_event (scope_page space_id page_id) EK_PageChanged (payload_of items) None resync"

definition drop_page_snapshot :: "opaque_id \<Rightarrow> opaque_id \<Rightarrow> unit upd" where
  "drop_page_snapshot space_id page_id =
     upd_mod (\<lambda>s. case bt_get (lg_snapshots s) space_id of
        None \<Rightarrow> s
      | Some pages \<Rightarrow> s\<lparr>lg_snapshots := bt_insert space_id (bt_remove page_id pages) (lg_snapshots s)\<rparr>)"

definition planned_page :: "opaque_id \<Rightarrow> opaque_id \<Rightarrow> utext \<Rightarrow> page_descriptor" where
  "planned_page space_id page_id label =
     \<lparr>p_page_id = page_id, p_space_id = space_id, p_label = label, p_lifecycle = PL_Planned,
      p_ownership = PO_Agent, p_binding = PB_Unbound, p_url = None, p_title = None,
      p_target_generation = 0, p_navigation_generation = 0, p_document_generation = 0,
      p_frame_count = 0, p_retained = True\<rparr>"

definition create_page_in_state :: "opaque_id \<Rightarrow> opaque_id \<Rightarrow> utext \<Rightarrow> page_descriptor upd" where
  "create_page_in_state space_id page_id label =
     (let page = planned_page space_id page_id label
      in upd_bind (try_modify_space space_id (\<lambda>d.
           if is_some (space_page d page_id) then host_err (invalid_argument ''logical page already exists'')
           else Ok (d\<lparr>s_pages := s_pages d @ [page]\<rparr>))) (\<lambda>_.
         upd_bind (page_event space_id page_id [(''lifecycle'', ''planned'')] False) (\<lambda>_.
         upd_ok page)))"

definition create_page_upd ::
  "opaque_id \<Rightarrow> authority_ticket \<Rightarrow> lease_epoch \<Rightarrow> utext \<Rightarrow> timestamp \<Rightarrow> page_descriptor upd" where
  "create_page_upd space_id authority lease_epoch label now =
     upd_bind (upd_get (\<lambda>s. authorize_space s space_id authority lease_epoch now True)) (\<lambda>_.
     upd_bind (upd_get (\<lambda>s. core_ok_or (checked_add64 (lg_next_page_number s) 1)
       (invalid_argument ''page identity counter overflow''))) (\<lambda>number.
     upd_bind (upd_get (\<lambda>_. id_result (from_suffix PageId (''page-'' @ show_nat (unat number))))) (\<lambda>page_id.
     upd_bind (upd_mod (\<lambda>s. s\<lparr>lg_next_page_number := number\<rparr>)) (\<lambda>_.
     create_page_in_state space_id page_id label))))"

definition create_page_at ::
  "json_writer \<Rightarrow> ledger_io \<Rightarrow> opaque_id \<Rightarrow> authority_ticket \<Rightarrow> lease_epoch \<Rightarrow> utext \<Rightarrow> timestamp
   \<Rightarrow> page_descriptor broker_op" where
  "create_page_at js io space_id authority lease_epoch label now =
     guarded (bounded_label label) (\<lambda>label.
     action_update js io (create_page_upd space_id authority lease_epoch label now))"

definition create_page ::
  "json_writer \<Rightarrow> ledger_io \<Rightarrow> opaque_id \<Rightarrow> authority_ticket \<Rightarrow> lease_epoch \<Rightarrow> utext \<Rightarrow> page_descriptor broker_op" where
  "create_page js io space_id authority lease_epoch label =
     create_page_at js io space_id authority lease_epoch label 0"

definition bound_generation :: "string \<Rightarrow> u64 option \<Rightarrow> generation \<Rightarrow> (host_error, generation) result" where
  "bound_generation name observed current =
     (case observed of
        Some value \<Rightarrow> if value > 0 then Ok value
          else host_err (invalid_argument (name @ '' generation must be positive''))
      | None \<Rightarrow> core_ok_or (counter_checked_next current) (invalid_argument (name @ '' generation overflow'')))"

record page_observation =
  ob_space_id :: "opaque_id option"
  ob_page_id :: "opaque_id option"
  ob_url :: "utext option"
  ob_title :: "utext option"
  ob_frame_count :: "u64 option"
  ob_target_generation :: "u64 option"
  ob_navigation_generation :: "u64 option"
  ob_document_generation :: "u64 option"

definition bind_observed ::
  "utext option \<Rightarrow> utext option \<Rightarrow> u32 \<Rightarrow> u64 option \<Rightarrow> u64 option \<Rightarrow> u64 option \<Rightarrow> page_descriptor
   \<Rightarrow> (host_error, page_descriptor) result" where
  "bind_observed url title frame_count target navigation document page =
     and_then (core_reject (p_lifecycle page \<notin> {PL_Planned, PL_TargetLost, PL_Rebinding, PL_Adoptable})
       (core_error_new EC_TargetReplaced ''page lifecycle does not permit binding'')) (\<lambda>_.
     and_then (bound_generation ''target'' target (p_target_generation page)) (\<lambda>target.
     and_then (bound_generation ''navigation'' navigation (p_navigation_generation page)) (\<lambda>navigation.
     and_then (bound_generation ''document'' document (p_document_generation page)) (\<lambda>document.
     and_then (bounded_optional url) (\<lambda>url.
     and_then (bounded_optional title) (\<lambda>title.
     Ok (page\<lparr>p_lifecycle := PL_Managed, p_ownership := PO_Agent, p_binding := PB_Bound,
       p_target_generation := target, p_navigation_generation := navigation,
       p_document_generation := document, p_url := url, p_title := title, p_frame_count := frame_count\<rparr>)))))))"

definition bind_page_upd ::
  "opaque_id \<Rightarrow> opaque_id \<Rightarrow> authority_ticket \<Rightarrow> lease_epoch \<Rightarrow> timestamp
   \<Rightarrow> (page_descriptor \<Rightarrow> (host_error, page_descriptor) result) \<Rightarrow> page_descriptor upd" where
  "bind_page_upd space_id page_id authority lease_epoch now bind =
     upd_bind (upd_get (\<lambda>s. authorize_space s space_id authority lease_epoch now True)) (\<lambda>_.
     upd_bind (modify_page space_id page_id bind) (\<lambda>page.
     upd_bind (drop_page_snapshot space_id page_id) (\<lambda>_.
     upd_bind (page_event space_id page_id [(''lifecycle'', ''managed''), (''binding'', ''bound'')] False) (\<lambda>_.
     upd_ok page))))"

definition bind_page_with_generations ::
  "json_writer \<Rightarrow> ledger_io \<Rightarrow> opaque_id \<Rightarrow> opaque_id \<Rightarrow> authority_ticket \<Rightarrow> lease_epoch \<Rightarrow> timestamp
   \<Rightarrow> utext option \<Rightarrow> utext option \<Rightarrow> u32 \<Rightarrow> u64 option \<Rightarrow> u64 option \<Rightarrow> u64 option
   \<Rightarrow> page_descriptor broker_op" where
  "bind_page_with_generations js io space_id page_id authority lease_epoch now url title frame_count
       target navigation document =
     action_update js io (bind_page_upd space_id page_id authority lease_epoch now
       (bind_observed url title frame_count target navigation document))"

definition bind_page ::
  "json_writer \<Rightarrow> ledger_io \<Rightarrow> opaque_id \<Rightarrow> opaque_id \<Rightarrow> authority_ticket \<Rightarrow> lease_epoch \<Rightarrow> timestamp
   \<Rightarrow> utext option \<Rightarrow> utext option \<Rightarrow> u32 \<Rightarrow> page_descriptor broker_op" where
  "bind_page js io space_id page_id authority lease_epoch now url title frame_count =
     bind_page_with_generations js io space_id page_id authority lease_epoch now url title frame_count
       None None None"

text \<open>The calls of \<^verbatim>\<open>create_managed_page\<close> to the bridge.\<close>

record create_bridge =
  cb_create_page :: "(core_error, page_observation option) result"
  cb_observe :: "(core_error, page_observation list) result"
  cb_present_group :: "(core_error, unit) result"

fun bridge_result :: "(core_error, 'a) result \<Rightarrow> (host_error, 'a) result" where
  "bridge_result (Inl e) = Err (HE_Bridge e)"
| "bridge_result (Inr a) = Ok a"

definition observes_page :: "opaque_id \<Rightarrow> opaque_id \<Rightarrow> page_observation \<Rightarrow> bool" where
  "observes_page space_id page_id record \<longleftrightarrow> ob_space_id record = Some space_id \<and> ob_page_id record = Some page_id"

definition managed_record ::
  "create_bridge \<Rightarrow> opaque_id \<Rightarrow> opaque_id \<Rightarrow> (host_error, page_observation) result" where
  "managed_record bridge space_id page_id =
     and_then (bridge_result (cb_create_page bridge)) (\<lambda>created.
     and_then (bridge_result (cb_observe bridge)) (\<lambda>pages.
     and_then (core_ok_or (case List.find (observes_page space_id page_id) pages of
           None \<Rightarrow> created | Some record \<Rightarrow> Some record)
       (core_error_new EC_InvalidJson ''managed page bridge result is not an object'')) (\<lambda>record.
     and_then (core_reject (\<not> observes_page space_id page_id record)
       (core_error_new EC_TargetReplaced ''managed page bridge result has the wrong logical scope'')) (\<lambda>_.
     Ok record))))"

definition observed_generation :: "string \<Rightarrow> u64 option \<Rightarrow> (host_error, u64) result" where
  "observed_generation field value =
     core_ok_or (Option.bind value (\<lambda>v. if v > 0 then Some v else None))
       (core_error_new EC_TargetReplaced (''managed page bridge result is missing '' @ field))"

definition observed_frame_count :: "page_observation \<Rightarrow> u32" where
  "observed_frame_count record =
     (case ob_frame_count record of None \<Rightarrow> 0 | Some v \<Rightarrow> if unat v < 2 ^ 32 then of_nat (unat v) else 0)"

definition create_managed_page ::
  "json_writer \<Rightarrow> ledger_io \<Rightarrow> create_bridge \<Rightarrow> opaque_id \<Rightarrow> authority_ticket \<Rightarrow> lease_epoch \<Rightarrow> utext
   \<Rightarrow> timestamp \<Rightarrow> page_descriptor broker_op" where
  "create_managed_page js io bridge space_id authority lease_epoch label now =
     and_next (create_page_at js io space_id authority lease_epoch label now) (\<lambda>planned.
     guarded (managed_record bridge space_id (p_page_id planned)) (\<lambda>record.
     guarded (observed_generation ''target_generation'' (ob_target_generation record)) (\<lambda>target.
     guarded (observed_generation ''navigation_generation'' (ob_navigation_generation record)) (\<lambda>navigation.
     guarded (observed_generation ''document_generation'' (ob_document_generation record)) (\<lambda>document.
     and_next (bind_page_with_generations js io space_id (p_page_id planned) authority lease_epoch now
       (ob_url record) (ob_title record) (observed_frame_count record)
       (Some target) (Some navigation) (Some document)) (\<lambda>bound.
     with_inner (checked (\<lambda>b. core_ok_or (bt_get (lg_spaces (br_state b)) space_id)
       (core_error_new EC_SpaceNotFound ''logical space was not found while presenting its tab group'')) (\<lambda>_.
     guarded (bridge_result (cb_present_group bridge)) (\<lambda>_.
     broker_return (Ok bound))))))))))"

definition lost_page :: "page_descriptor \<Rightarrow> (host_error, page_descriptor) result" where
  "lost_page page =
     and_then (bump_page_generations page) (\<lambda>page.
     Ok (page\<lparr>p_lifecycle := PL_TargetLost, p_binding := PB_Lost\<rparr>))"

definition mark_page_lost_upd ::
  "opaque_id \<Rightarrow> opaque_id \<Rightarrow> authority_ticket \<Rightarrow> lease_epoch \<Rightarrow> timestamp \<Rightarrow> page_descriptor upd" where
  "mark_page_lost_upd space_id page_id authority lease_epoch now =
     upd_bind (upd_get (\<lambda>s. authorize_space s space_id authority lease_epoch now False)) (\<lambda>_.
     upd_bind (modify_page space_id page_id lost_page) (\<lambda>page.
     upd_bind (drop_snapshots space_id) (\<lambda>_.
     upd_bind (page_event space_id page_id [(''lifecycle'', ''target_lost'')] True) (\<lambda>_.
     upd_ok page))))"

definition mark_page_lost ::
  "json_writer \<Rightarrow> ledger_io \<Rightarrow> opaque_id \<Rightarrow> opaque_id \<Rightarrow> authority_ticket \<Rightarrow> lease_epoch \<Rightarrow> timestamp
   \<Rightarrow> page_descriptor broker_op" where
  "mark_page_lost js io space_id page_id authority lease_epoch now =
     with_update js io (mark_page_lost_upd space_id page_id authority lease_epoch now)"

definition begin_close_upd ::
  "opaque_id \<Rightarrow> opaque_id \<Rightarrow> authority_ticket \<Rightarrow> lease_epoch \<Rightarrow> timestamp \<Rightarrow> page_generation upd" where
  "begin_close_upd space_id page_id authority lease_epoch now =
     upd_bind (upd_get (\<lambda>s. authorize_page s space_id page_id authority lease_epoch now True)) (\<lambda>generation.
     upd_bind (modify_page space_id page_id (\<lambda>page. Ok (page\<lparr>p_lifecycle := PL_Closing\<rparr>))) (\<lambda>_.
     upd_bind (page_event space_id page_id [(''lifecycle'', ''closing'')] False) (\<lambda>_.
     upd_ok generation)))"

definition closed_page :: "page_descriptor \<Rightarrow> (host_error, page_descriptor) result" where
  "closed_page page =
     and_then (bump_page_generations page) (\<lambda>page.
     Ok (page\<lparr>p_lifecycle := PL_Closed, p_ownership := PO_Broker, p_binding := PB_Closed\<rparr>))"

definition finish_close_upd ::
  "opaque_id \<Rightarrow> opaque_id \<Rightarrow> authority_ticket \<Rightarrow> lease_epoch \<Rightarrow> timestamp \<Rightarrow> page_generation
   \<Rightarrow> page_descriptor upd" where
  "finish_close_upd space_id page_id authority lease_epoch now generation =
     upd_bind (upd_get (\<lambda>s. authorize_space s space_id authority lease_epoch now True)) (\<lambda>_.
     upd_bind (modify_page space_id page_id (\<lambda>page.
       and_then (core_reject (p_lifecycle page \<noteq> PL_Closing \<or> \<not> matches_page generation page)
         (core_error_new EC_TargetReplaced ''page changed while close was in flight'')) (\<lambda>_.
       closed_page page))) (\<lambda>page.
     upd_bind (drop_page_snapshot space_id page_id) (\<lambda>_.
     upd_bind (page_event space_id page_id [(''lifecycle'', ''closed'')] False) (\<lambda>_.
     upd_ok page))))"

definition close_page ::
  "json_writer \<Rightarrow> ledger_io \<Rightarrow> (core_error, unit) result \<Rightarrow> opaque_id \<Rightarrow> opaque_id \<Rightarrow> authority_ticket
   \<Rightarrow> lease_epoch \<Rightarrow> timestamp \<Rightarrow> page_descriptor broker_op" where
  "close_page js io bridge_close space_id page_id authority lease_epoch now =
     and_next (action_update js io (begin_close_upd space_id page_id authority lease_epoch now)) (\<lambda>generation.
     case bridge_close of
       Inl error \<Rightarrow> (\<lambda>b. (fst (mark_page_lost js io space_id page_id authority lease_epoch now b),
         Err (HE_Bridge error)))
     | Inr _ \<Rightarrow> with_update js io
         (finish_close_upd space_id page_id authority lease_epoch now generation))"

definition reconcile_page ::
  "page_observation \<Rightarrow> generation \<Rightarrow> generation \<Rightarrow> generation \<Rightarrow> page_descriptor
   \<Rightarrow> (host_error, page_descriptor) result" where
  "reconcile_page record target navigation document page =
     and_then (case ob_url record of None \<Rightarrow> Ok (p_url page) | Some u \<Rightarrow> bounded_optional (Some u)) (\<lambda>url.
     and_then (case ob_title record of None \<Rightarrow> Ok (p_title page) | Some t \<Rightarrow> bounded_optional (Some t)) (\<lambda>title.
     Ok (page\<lparr>p_target_generation := target, p_navigation_generation := navigation,
       p_document_generation := document, p_url := url, p_title := title\<rparr>)))"

definition newer_observation ::
  "generation \<Rightarrow> generation \<Rightarrow> generation \<Rightarrow> page_descriptor \<Rightarrow> bool" where
  "newer_observation target navigation document page \<longleftrightarrow>
     admits_agent_mutations page
     \<and> \<not> (target < p_target_generation page \<or> navigation < p_navigation_generation page
          \<or> document < p_document_generation page)
     \<and> (target > p_target_generation page \<or> navigation > p_navigation_generation page
        \<or> document > p_document_generation page)"

definition positive :: "u64 option \<Rightarrow> u64 option" where
  "positive value = Option.bind value (\<lambda>v. if v > 0 then Some v else None)"

definition parsed_id :: "id_kind \<Rightarrow> opaque_id option \<Rightarrow> opaque_id option" where
  "parsed_id kind value = Option.bind value (\<lambda>v. if isl (id_new kind v) then None else Some v)"

definition observed_target ::
  "page_observation \<Rightarrow> (opaque_id \<times> opaque_id \<times> generation \<times> generation \<times> generation) option" where
  "observed_target record =
     Option.bind (parsed_id SpaceId (ob_space_id record)) (\<lambda>space_id.
     Option.bind (parsed_id PageId (ob_page_id record)) (\<lambda>page_id.
     Option.bind (positive (ob_target_generation record)) (\<lambda>target.
     Option.bind (positive (ob_navigation_generation record)) (\<lambda>navigation.
     Option.bind (positive (ob_document_generation record)) (\<lambda>document.
     Some (space_id, page_id, target, navigation, document))))))"

definition reconcile_record :: "page_observation \<Rightarrow> (opaque_id \<times> opaque_id) list upd" where
  "reconcile_record record s =
     (case observed_target record of
        None \<Rightarrow> Ok (s, [])
      | Some (space_id, page_id, target, navigation, document) \<Rightarrow>
          (case Option.bind (bt_get (lg_spaces s) space_id) (\<lambda>space. space_page space page_id) of
             None \<Rightarrow> Ok (s, [])
           | Some page \<Rightarrow>
               if newer_observation target navigation document page then
                 upd_bind (modify_page space_id page_id (reconcile_page record target navigation document)) (\<lambda>_.
                 upd_bind (upd_mod (\<lambda>s. s\<lparr>lg_snapshots := bt_insert space_id
                   (bt_remove page_id (bt_entry [] (lg_snapshots s) space_id)) (lg_snapshots s)\<rparr>)) (\<lambda>_.
                 upd_ok [(space_id, page_id)])) s
               else Ok (s, [])))"

fun reconcile_records :: "page_observation list \<Rightarrow> (opaque_id \<times> opaque_id) list upd" where
  "reconcile_records [] = upd_ok []"
| "reconcile_records (record # records) =
     upd_bind (reconcile_record record) (\<lambda>changed.
     upd_bind (reconcile_records records) (\<lambda>rest. upd_ok (changed @ rest)))"

definition reconcile_bridge_pages_upd :: "page_observation list \<Rightarrow> unit upd" where
  "reconcile_bridge_pages_upd records =
     upd_bind (reconcile_records records) (\<lambda>changed.
     upd_each (\<lambda>(space_id, page_id).
       page_event space_id page_id [(''source'', ''bridge_observation'')] False) changed)"

section \<open>Finishing a space\<close>

definition cleanup_proof_of :: "page_descriptor \<Rightarrow> host_cleanup_proof" where
  "cleanup_proof_of page = \<lparr>hc_page_id = p_page_id page, hc_generation = generation_from_page page\<rparr>"

definition needs_cleanup :: "bool \<Rightarrow> page_descriptor \<Rightarrow> bool" where
  "needs_cleanup allow_draining page \<longleftrightarrow>
     admits_agent_mutations page \<or> (allow_draining \<and> p_lifecycle page = PL_Closing)"

definition begin_finish_upd ::
  "opaque_id \<Rightarrow> authority_ticket \<Rightarrow> lease_epoch \<Rightarrow> timestamp
   \<Rightarrow> (host_cleanup_proof list \<times> retention_policy) upd" where
  "begin_finish_upd space_id authority lease_epoch now =
     upd_bind (upd_get (\<lambda>s. Ok (is_some_and (bt_get (lg_spaces s) space_id)
       (\<lambda>space. s_lifecycle space = SL_Draining)))) (\<lambda>allow_draining.
     upd_bind (upd_get (\<lambda>s. authorize_finish_claim s space_id authority lease_epoch now allow_draining)) (\<lambda>_.
     upd_bind (upd_get (\<lambda>s. core_reject (space_has_unresolved_actions s space_id)
       (core_error_new EC_ReconciliationRequired
          ''space has unresolved actions; reconcile them before finishing''))) (\<lambda>_.
     upd_bind (upd_get (\<lambda>s. find_space s space_id)) (\<lambda>space.
     let cleanup = map cleanup_proof_of (filter (needs_cleanup allow_draining) (s_pages space))
     in upd_bind (modify_space space_id (\<lambda>d. d\<lparr>s_lifecycle := SL_Draining,
          s_pages := map (\<lambda>p. if needs_cleanup allow_draining p then p\<lparr>p_lifecycle := PL_Closing\<rparr> else p)
            (s_pages d)\<rparr>)) (\<lambda>_.
        upd_bind (drop_snapshots space_id) (\<lambda>_.
        upd_bind (upd_each (\<lambda>proof. page_event space_id (hc_page_id proof) [(''lifecycle'', ''closing'')] False)
          cleanup) (\<lambda>_.
        upd_bind (space_event space_id ''draining'' False) (\<lambda>_.
        upd_ok (cleanup, s_retention space)))))))))"

definition authorize_cleanup_upd ::
  "opaque_id \<Rightarrow> host_cleanup_proof \<Rightarrow> authority_ticket \<Rightarrow> lease_epoch \<Rightarrow> timestamp \<Rightarrow> unit upd" where
  "authorize_cleanup_upd space_id proof authority lease_epoch now =
     upd_get (\<lambda>s. authorize_cleanup_page s space_id proof authority lease_epoch now)"

definition finish_page_cleanup_upd ::
  "opaque_id \<Rightarrow> host_cleanup_proof \<Rightarrow> authority_ticket \<Rightarrow> lease_epoch \<Rightarrow> timestamp \<Rightarrow> unit upd" where
  "finish_page_cleanup_upd space_id proof authority lease_epoch now =
     upd_bind (authorize_cleanup_upd space_id proof authority lease_epoch now) (\<lambda>_.
     upd_bind (modify_page space_id (hc_page_id proof) closed_page) (\<lambda>_.
     upd_bind (drop_page_snapshot space_id (hc_page_id proof)) (\<lambda>_.
     page_event space_id (hc_page_id proof) [(''lifecycle'', ''closed'')] False)))"

definition record_cleanup_failure_upd ::
  "opaque_id \<Rightarrow> host_cleanup_proof \<Rightarrow> authority_ticket \<Rightarrow> lease_epoch \<Rightarrow> timestamp \<Rightarrow> core_error \<Rightarrow> unit upd" where
  "record_cleanup_failure_upd space_id proof authority lease_epoch now error =
     upd_bind (authorize_cleanup_upd space_id proof authority lease_epoch now) (\<lambda>_.
     upd_bind (modify_page space_id (hc_page_id proof) (\<lambda>page.
       and_then (lost_page page) (\<lambda>page. Ok (page\<lparr>p_ownership := PO_Agent\<rparr>)))) (\<lambda>_.
     upd_bind (drop_page_snapshot space_id (hc_page_id proof)) (\<lambda>_.
     upd_bind (modify_space space_id
       (push_warning (code_points (''page cleanup outcome unknown: '' @ code_str error)))) (\<lambda>_.
     upd_bind (page_event space_id (hc_page_id proof) [(''lifecycle'', ''target_lost'')] True) (\<lambda>_.
     space_event space_id ''draining'' True)))))"

definition complete_finish_upd ::
  "opaque_id \<Rightarrow> authority_ticket \<Rightarrow> lease_epoch \<Rightarrow> timestamp \<Rightarrow> retention_policy \<Rightarrow> space_descriptor upd" where
  "complete_finish_upd space_id authority lease_epoch now retention =
     upd_bind (upd_get (\<lambda>s. authorize_finish_claim s space_id authority lease_epoch now True)) (\<lambda>_.
     let lifecycle = (if retention = RP_ReleaseOnFinish then SL_Released else SL_Finished)
     in upd_bind (try_modify_space space_id (\<lambda>d.
          and_then (core_reject (list_ex (\<lambda>p. p_lifecycle p = PL_Closing \<or> admits_agent_mutations p) (s_pages d))
            (core_error_new EC_PermissionDenied ''space has unresolved page cleanup'')) (\<lambda>_.
          and_then (with_lease ''space has no current lease'' (\<lambda>l. l\<lparr>l_state := LS_Released\<rparr>) d) (\<lambda>d.
          Ok (d\<lparr>s_lifecycle := lifecycle\<rparr>))))) (\<lambda>_.
        upd_bind (upd_get (\<lambda>s. find_space s space_id)) (\<lambda>result.
        upd_bind (upd_mod (\<lambda>s. s\<lparr>lg_snapshots := bt_remove space_id (lg_snapshots s),
          lg_takeover_proofs := bt_remove space_id (lg_takeover_proofs s)\<rparr>)) (\<lambda>_.
        upd_bind (lease_event space_id lease_epoch ''released'' False) (\<lambda>_.
        upd_bind (space_event space_id (space_lifecycle_name lifecycle) False) (\<lambda>_.
        upd_ok result))))))"

definition missing_cleanup_upd ::
  "opaque_id \<Rightarrow> authority_ticket \<Rightarrow> lease_epoch \<Rightarrow> timestamp \<Rightarrow> page_observation list
   \<Rightarrow> host_cleanup_proof list upd" where
  "missing_cleanup_upd space_id authority lease_epoch now pages =
     upd_bind (upd_get (\<lambda>s. authorize_finish_claim s space_id authority lease_epoch now True)) (\<lambda>_.
     upd_bind (upd_get (\<lambda>s. find_space s space_id)) (\<lambda>space.
     upd_ok (map cleanup_proof_of (filter (\<lambda>page. p_lifecycle page = PL_Closing
       \<and> \<not> list_ex (observes_page space_id (p_page_id page)) pages) (s_pages space)))))"

text \<open>
  The methods. \<open>each_op\<close> is a \<^verbatim>\<open>for\<close> loop of operations that each take the lock; the bridge answers
  to a close and to the observation after a failed close depend on the page.
\<close>

fun each_op :: "('a \<Rightarrow> unit broker_op) \<Rightarrow> 'a list \<Rightarrow> unit broker_op" where
  "each_op f [] = broker_return (Ok ())"
| "each_op f (x # xs) = and_next (f x) (\<lambda>_. each_op f xs)"

record finish_bridge =
  nb_observe :: "(core_error, page_observation list) result"
  nb_close_page :: "opaque_id \<Rightarrow> (core_error, unit) result"
  nb_observe_after :: "opaque_id \<Rightarrow> (core_error, page_observation list) result"

definition reconcile_missing_cleanup_pages ::
  "json_writer \<Rightarrow> ledger_io \<Rightarrow> opaque_id \<Rightarrow> authority_ticket \<Rightarrow> lease_epoch \<Rightarrow> timestamp
   \<Rightarrow> page_observation list \<Rightarrow> unit broker_op" where
  "reconcile_missing_cleanup_pages js io space_id authority lease_epoch now pages =
     and_next (with_update js io (missing_cleanup_upd space_id authority lease_epoch now pages))
       (each_op (\<lambda>proof. ready_update js io (finish_page_cleanup_upd space_id proof authority lease_epoch now)))"

definition cleanup_one ::
  "json_writer \<Rightarrow> ledger_io \<Rightarrow> finish_bridge \<Rightarrow> opaque_id \<Rightarrow> authority_ticket \<Rightarrow> lease_epoch \<Rightarrow> timestamp
   \<Rightarrow> host_cleanup_proof \<Rightarrow> unit broker_op" where
  "cleanup_one js io bridge space_id authority lease_epoch now proof =
     (let closed = ready_update js io (finish_page_cleanup_upd space_id proof authority lease_epoch now);
          failed = (\<lambda>error. and_next (with_update js io
            (record_cleanup_failure_upd space_id proof authority lease_epoch now error)) (\<lambda>_.
            broker_return (Err (HE_Bridge error))))
      in and_next (ready_update js io (authorize_cleanup_upd space_id proof authority lease_epoch now)) (\<lambda>_.
         case nb_close_page bridge (hc_page_id proof) of
           Inr _ \<Rightarrow> closed
         | Inl error \<Rightarrow>
             if ce_code error \<in> {EC_Timeout, EC_UnknownOutcome, EC_NativeHostUnavailable} then failed error
             else guarded (bridge_result (nb_observe_after bridge (hc_page_id proof))) (\<lambda>pages.
               if list_ex (observes_page space_id (hc_page_id proof)) pages then failed error else closed)))"

definition finish_space ::
  "json_writer \<Rightarrow> ledger_io \<Rightarrow> finish_bridge \<Rightarrow> opaque_id \<Rightarrow> authority_ticket \<Rightarrow> lease_epoch \<Rightarrow> timestamp
   \<Rightarrow> space_descriptor broker_op" where
  "finish_space js io bridge space_id authority lease_epoch now =
     checked (\<lambda>b. require_capability (br_capabilities b) CP_Action) (\<lambda>_.
     guarded (bridge_result (nb_observe bridge)) (\<lambda>pages.
     and_next (reconcile_missing_cleanup_pages js io space_id authority lease_epoch now pages) (\<lambda>_.
     and_next (ready_update js io (begin_finish_upd space_id authority lease_epoch now)) (\<lambda>(cleanup, retention).
     and_next (each_op (cleanup_one js io bridge space_id authority lease_epoch now) cleanup) (\<lambda>_.
     ready_update js io (complete_finish_upd space_id authority lease_epoch now retention))))))"

section \<open>Release and pruning\<close>

definition retention_expired :: "retention_policy \<Rightarrow> timestamp \<Rightarrow> bool" where
  "retention_expired retention now \<longleftrightarrow> (case retention of RP_Until at \<Rightarrow> at \<le> now | _ \<Rightarrow> True)"

definition release_space_upd ::
  "opaque_id \<Rightarrow> authority_ticket \<Rightarrow> lease_epoch \<Rightarrow> timestamp \<Rightarrow> space_descriptor upd" where
  "release_space_upd space_id authority lease_epoch now =
     upd_bind (upd_get (\<lambda>s. authorize_release_claim s space_id authority lease_epoch)) (\<lambda>_.
     upd_bind (upd_get (\<lambda>s. find_space s space_id)) (\<lambda>space.
     if s_lifecycle space = SL_Released then upd_ok space
     else
       upd_bind (upd_get (\<lambda>_. checks
         [core_reject (\<not> retention_expired (s_retention space) now)
            (core_error_new EC_PermissionDenied ''retention period has not expired''),
          core_reject (list_ex (\<lambda>p. admits_agent_mutations p \<or> p_lifecycle p = PL_Closing) (s_pages space))
            (core_error_new EC_PermissionDenied ''space has unresolved page cleanup; finish it first'')])) (\<lambda>_.
       upd_bind (modify_space space_id (\<lambda>d. d\<lparr>s_lifecycle := SL_Released\<rparr>)) (\<lambda>_.
       upd_bind (upd_get (\<lambda>s. find_space s space_id)) (\<lambda>result.
       upd_bind (upd_mod (\<lambda>s. s\<lparr>lg_snapshots := bt_remove space_id (lg_snapshots s),
         lg_takeover_proofs := bt_remove space_id (lg_takeover_proofs s)\<rparr>)) (\<lambda>_.
       upd_bind (space_event space_id ''released'' False) (\<lambda>_.
       upd_ok result)))))))"

definition release_space ::
  "json_writer \<Rightarrow> ledger_io \<Rightarrow> opaque_id \<Rightarrow> authority_ticket \<Rightarrow> lease_epoch \<Rightarrow> timestamp
   \<Rightarrow> space_descriptor broker_op" where
  "release_space js io space_id authority lease_epoch now =
     ready_update js io (release_space_upd space_id authority lease_epoch now)"

definition prunable :: "ledger_state \<Rightarrow> authority_ticket \<Rightarrow> space_descriptor \<Rightarrow> bool" where
  "prunable s authority space \<longleftrightarrow>
     s_owner space = au_principal_id authority \<and> s_lifecycle space = SL_Released
     \<and> list_all (\<lambda>p. p_lifecycle p = PL_Closed \<and> p_ownership p = PO_Broker \<and> p_binding p = PB_Closed) (s_pages space)
     \<and> \<not> space_has_unresolved_actions s (s_space_id space)"

definition forget_action :: "opaque_id \<Rightarrow> ledger_state \<Rightarrow> ledger_state" where
  "forget_action action_id s =
     (case bt_get (lg_actions s) action_id of
        None \<Rightarrow> s
      | Some action \<Rightarrow> s\<lparr>lg_actions := bt_remove action_id (lg_actions s),
          lg_action_requests := bt_remove action_id (lg_action_requests s),
          lg_idempotency := bt_remove (ar_idempotency_key action) (lg_idempotency s)\<rparr>)"

definition prune_space :: "opaque_id \<Rightarrow> unit upd" where
  "prune_space space_id =
     upd_bind (upd_mod (\<lambda>s. fold forget_action
       (map fst (filter (\<lambda>(_, action). ar_space_id action = space_id) (lg_actions s))) s)) (\<lambda>_.
     upd_bind (upd_mod (\<lambda>s. s\<lparr>lg_action_queues := bt_remove space_id (lg_action_queues s),
       lg_spaces := bt_remove space_id (lg_spaces s),
       lg_profile_bindings := bt_remove space_id (lg_profile_bindings s),
       lg_snapshots := bt_remove space_id (lg_snapshots s),
       lg_takeover_proofs := bt_remove space_id (lg_takeover_proofs s),
       lg_events := filter (\<lambda>e. sc_space_id (ev_scope e) \<noteq> Some space_id) (lg_events s)\<rparr>)) (\<lambda>_.
     upd_bind (append_event no_scope EK_SpaceChanged
       (payload_of [(''space_id'', space_id), (''lifecycle'', ''pruned'')]) None False) (\<lambda>_.
     upd_mod (\<lambda>s. s\<lparr>lg_space_generations := bt_remove space_id (lg_space_generations s)\<rparr>))))"

definition prune_released_spaces_upd :: "authority_ticket \<Rightarrow> nat \<Rightarrow> nat upd" where
  "prune_released_spaces_upd authority max_count =
     upd_bind (upd_get (\<lambda>s. authorize_ticket s authority)) (\<lambda>_.
     upd_bind (upd_get (\<lambda>s. Ok (take max_count
       (sort (map s_space_id (filter (prunable s authority) (bt_values (lg_spaces s)))))))) (\<lambda>candidates.
     upd_bind (upd_each prune_space candidates) (\<lambda>_.
     upd_ok (length candidates))))"

definition prune_released_spaces ::
  "json_writer \<Rightarrow> ledger_io \<Rightarrow> authority_ticket \<Rightarrow> nat \<Rightarrow> nat broker_op" where
  "prune_released_spaces js io authority max_count =
     (if max_count = 0 then broker_return (Ok 0)
      else ready_update js io (prune_released_spaces_upd authority (min max_count 64)))"

end
