(* ===== verification/Broker_Actions.thy ===== *)
theory Broker_Actions
  imports Broker_Pages Trace_Policy Artifacts
begin

text \<open>
  Actions of the broker (\<^verbatim>\<open>crates/agentyc-host/src/broker.rs\<close>, lines 3366 to 4150): user confirmation,
  admission into the queue of a space, dispatch through the bridge with the three lease checks,
  completion, and reconciliation of an unknown outcome. The check of element evidence against the
  reference registry, \<^verbatim>\<open>validate_actionability_for_state\<close>, is an argument of the transitions that run
  it.
\<close>

section \<open>User confirmation\<close>

definition MAX_USER_INTENT_TICKET_TTL_MS :: u64 where
  "MAX_USER_INTENT_TICKET_TTL_MS = 60000"

text \<open>The policy of \<open>Trace_Policy\<close> looks at ASCII text only; other code points match no name.\<close>

definition ascii_text :: "utext \<Rightarrow> string" where
  "ascii_text t = map (\<lambda>c. if c < 128 then char_of c else CHR 0xFF) t"

definition sensitive_request :: "ledger_request \<Rightarrow> bool" where
  "sensitive_request q \<longleftrightarrow>
     request_requires_intent (aq_operation q) (map (\<lambda>(key, value). (ascii_text key, ascii_text value)) (aq_payload q))"

definition check_request_hash :: "json_writer \<Rightarrow> ledger_request \<Rightarrow> (host_error, unit) result" where
  "check_request_hash js q =
     and_then (ledger_result (ledger_action_hash js q)) (\<lambda>expected.
     core_reject (aq_request_hash q \<noteq> expected)
       (invalid_argument ''request hash does not match the complete canonical request context''))"

definition request_page :: "ledger_state \<Rightarrow> ledger_request \<Rightarrow> page_descriptor option" where
  "request_page s q =
     Option.bind (aq_page_id q) (\<lambda>page_id.
     Option.bind (bt_get (lg_spaces s) (aq_space_id q)) (\<lambda>space. space_page space page_id))"

definition confirmed_generation ::
  "ledger_state \<Rightarrow> ledger_request \<Rightarrow> (host_error, generation option) result" where
  "confirmed_generation s q =
     (if aq_page_id q = None then Ok None
      else and_then (core_ok_or (request_page s q) page_not_found) (\<lambda>page. Ok (Some (p_document_generation page))))"

text \<open>\<open>number\<close> is the value that the process-wide ticket counter hands out.\<close>

definition confirm_user_intent ::
  "json_writer \<Rightarrow> ledger_request \<Rightarrow> authority_ticket \<Rightarrow> timestamp \<Rightarrow> u64 \<Rightarrow> u64 \<Rightarrow> host_intent_ticket broker_op" where
  "confirm_user_intent js q authority now ttl number =
     guarded (core_reject (\<not> sensitive_request q)
       (invalid_argument ''user-intent tickets are only issued for sensitive actions'')) (\<lambda>_.
     guarded (core_reject (ttl = 0 \<or> ttl > MAX_USER_INTENT_TICKET_TTL_MS)
       (invalid_argument ''user-intent ticket ttl must be between 1 and 60000 ms'')) (\<lambda>_.
     guarded (core_ok_or (checked_add64 now ttl)
       (invalid_argument ''user-intent ticket expiry overflow'')) (\<lambda>expires_at.
     guarded (check_request_hash js q) (\<lambda>_. with_inner (
     checked (\<lambda>b. ensure_ready (br_lifecycle b)) (\<lambda>_.
     checked (\<lambda>b. authorize_space (br_state b) (aq_space_id q) authority (aq_lease_epoch q) now True) (\<lambda>_ b.
       let b = b\<lparr>br_user_intent_tickets := bt_retain (\<lambda>t. hi_expires_at t > now) (br_user_intent_tickets b)\<rparr>
       in checked (\<lambda>b. confirmed_generation (br_state b) q) (\<lambda>generation.
          guarded (id_result (from_suffix ReconcileToken
            (''intent-'' @ show_nat (unat now) @ ''-'' @ show_nat (unat number)))) (\<lambda>token b.
          let ticket = \<lparr>hi_token = token, hi_space_id = aq_space_id q, hi_page_id = aq_page_id q,
                hi_document_generation = generation, hi_lease_epoch = aq_lease_epoch q,
                hi_action_hash = aq_request_hash q, hi_profile_binding_id = au_profile_binding_id authority,
                hi_connection_epoch = au_connection_epoch authority,
                hi_connection_nonce = au_connection_nonce authority, hi_expires_at = expires_at\<rparr>
          in (b\<lparr>br_user_intent_tickets := bt_insert token ticket (br_user_intent_tickets b)\<rparr>, Ok ticket))) b)))))))"

definition intent_admission ::
  "ledger_request \<Rightarrow> authority_ticket \<Rightarrow> timestamp \<Rightarrow> host_intent_ticket option \<Rightarrow> broker
   \<Rightarrow> (host_error, unit) result" where
  "intent_admission q authority now intent b =
     (if sensitive_request q then
        and_then (core_ok_or intent (core_error_new EC_PermissionDenied
          ''sensitive action requires a host-issued user-intent ticket'')) (\<lambda>ticket.
        core_reject (hi_expires_at ticket \<le> now \<or> hi_space_id ticket \<noteq> aq_space_id q
            \<or> hi_page_id ticket \<noteq> aq_page_id q
            \<or> hi_document_generation ticket \<noteq> map_option p_document_generation (request_page (br_state b) q)
            \<or> hi_lease_epoch ticket \<noteq> aq_lease_epoch q \<or> hi_action_hash ticket \<noteq> aq_request_hash q
            \<or> hi_profile_binding_id ticket \<noteq> au_profile_binding_id authority
            \<or> hi_connection_epoch ticket \<noteq> au_connection_epoch authority
            \<or> hi_connection_nonce ticket \<noteq> au_connection_nonce authority
            \<or> bt_get (br_user_intent_tickets b) (hi_token ticket) \<noteq> Some ticket)
          (core_error_new EC_PermissionDenied
             ''user-intent ticket is expired, consumed, or does not match this action''))
      else core_reject (is_some intent)
        (invalid_argument ''user-intent ticket cannot authorize a nonsensitive action''))"

section \<open>Admission\<close>

type_synonym actionability_check = "ledger_state \<Rightarrow> ledger_request \<Rightarrow> (core_error, unit) result"

definition existing_action :: "ledger_request \<Rightarrow> ledger_state \<Rightarrow> (host_error, action_receipt option) result" where
  "existing_action q s =
     (case bt_get (lg_idempotency s) (aq_idempotency_key q) of
        Some existing_id \<Rightarrow>
          and_then (core_ok_or (bt_get (lg_action_requests s) existing_id)
            (core_error_new EC_LedgerIncompatible ''idempotency index is incomplete'')) (\<lambda>existing.
          and_then (core_reject (aq_request_hash existing \<noteq> aq_request_hash q)
            (invalid_argument ''idempotency key conflicts with a different request hash'')) (\<lambda>_.
          and_then (core_ok_or (bt_get (lg_actions s) existing_id)
            (core_error_new EC_LedgerIncompatible ''action receipt is missing'')) (\<lambda>receipt.
          Ok (Some receipt))))
      | None \<Rightarrow>
          (case bt_get (lg_actions s) (aq_action_id q) of
             Some existing \<Rightarrow>
               if ar_request_hash existing = aq_request_hash q then Ok (Some existing)
               else host_err (invalid_argument ''action ID conflicts with a different request'')
           | None \<Rightarrow> Ok None))"

definition page_admission :: "ledger_request \<Rightarrow> ledger_state \<Rightarrow> (host_error, unit) result" where
  "page_admission q s =
     (case aq_page_id q of
        Some page_id \<Rightarrow>
          and_then (find_space s (aq_space_id q)) (\<lambda>space.
          and_then (core_ok_or (space_page space page_id) page_not_found) (\<lambda>page.
          core_reject (\<not> admits_agent_mutations page)
            (core_error_new EC_PageNotOwned ''page is not managed by the lease'')))
      | None \<Rightarrow> core_reject (aq_operation q = OP_Close) (invalid_argument ''close requires a logical page''))"

definition queued_receipt :: "ledger_request \<Rightarrow> timestamp \<Rightarrow> action_receipt" where
  "queued_receipt q now =
     receipt_queued (aq_action_id q) (aq_request_id q) (aq_idempotency_key q) (aq_request_hash q)
       (aq_space_id q) (aq_page_id q) (aq_lease_epoch q) (aq_operation q) (aq_postcondition q) (Some now)"

definition enqueue_upd ::
  "actionability_check \<Rightarrow> nat \<Rightarrow> ledger_request \<Rightarrow> authority_ticket \<Rightarrow> timestamp \<Rightarrow> action_receipt upd" where
  "enqueue_upd actionable max_queued q authority now =
     upd_bind (upd_get (\<lambda>s. authorize_space s (aq_space_id q) authority (aq_lease_epoch q) now True)) (\<lambda>_.
     upd_bind (upd_get (existing_action q)) (\<lambda>existing.
     case existing of
       Some receipt \<Rightarrow> upd_ok receipt
     | None \<Rightarrow>
         upd_bind (upd_get (page_admission q)) (\<lambda>_.
         upd_bind (upd_get (\<lambda>s. core_result (actionable s q))) (\<lambda>_.
         upd_bind (upd_get (\<lambda>s. core_reject (length (bt_entry [] (lg_action_queues s) (aq_space_id q)) \<ge> max_queued)
           (core_error_new EC_MessageTooLarge ''space action queue is full''))) (\<lambda>_.
         upd_bind (upd_mod (\<lambda>s. s\<lparr>
           lg_idempotency := bt_insert (aq_idempotency_key q) (aq_action_id q) (lg_idempotency s),
           lg_action_requests := bt_insert (aq_action_id q) q (lg_action_requests s),
           lg_actions := bt_insert (aq_action_id q) (queued_receipt q now) (lg_actions s),
           lg_action_queues := bt_insert (aq_space_id q)
             (bt_entry [] (lg_action_queues s) (aq_space_id q) @ [aq_action_id q]) (lg_action_queues s)\<rparr>)) (\<lambda>_.
         upd_bind (action_event (aq_space_id q) (aq_action_id q) ''queued'' False) (\<lambda>_.
         upd_ok (queued_receipt q now))))))))"

definition enqueue_action_inner ::
  "json_writer \<Rightarrow> ledger_io \<Rightarrow> actionability_check \<Rightarrow> ledger_request \<Rightarrow> authority_ticket \<Rightarrow> timestamp
   \<Rightarrow> host_intent_ticket option \<Rightarrow> action_receipt broker_op" where
  "enqueue_action_inner js io actionable q authority now intent =
     guarded (validate_public_payload (aq_payload q)) (\<lambda>_.
     guarded (case validate_action_payload_contract (aq_operation q) (aq_payload q) of
         Inl e \<Rightarrow> host_err (invalid_argument (ledger_error_text e)) | Inr u \<Rightarrow> Ok u) (\<lambda>_.
     guarded (check_request_hash js q) (\<lambda>_. with_inner (
     checked (intent_admission q authority now intent) (\<lambda>_.
     checked (\<lambda>b. ensure_ready (br_lifecycle b)) (\<lambda>_.
     checked (\<lambda>b. require_operation_capabilities (br_capabilities b) (aq_operation q)) (\<lambda>_ b.
     and_next (update_ledger js io (enqueue_upd actionable
         (ll_max_queued_actions_per_space (ld_limits (br_ledger b))) q authority now)) (\<lambda>receipt b.
       (case intent of None \<Rightarrow> b
        | Some ticket \<Rightarrow> b\<lparr>br_user_intent_tickets := bt_remove (hi_token ticket) (br_user_intent_tickets b)\<rparr>,
        Ok receipt)) b)))))))"

definition enqueue_action ::
  "json_writer \<Rightarrow> ledger_io \<Rightarrow> actionability_check \<Rightarrow> ledger_request \<Rightarrow> authority_ticket \<Rightarrow> timestamp
   \<Rightarrow> action_receipt broker_op" where
  "enqueue_action js io actionable q authority now = enqueue_action_inner js io actionable q authority now None"

definition enqueue_action_with_user_intent ::
  "json_writer \<Rightarrow> ledger_io \<Rightarrow> actionability_check \<Rightarrow> ledger_request \<Rightarrow> authority_ticket \<Rightarrow> timestamp
   \<Rightarrow> host_intent_ticket \<Rightarrow> action_receipt broker_op" where
  "enqueue_action_with_user_intent js io actionable q authority now ticket =
     enqueue_action_inner js io actionable q authority now (Some ticket)"

section \<open>Dispatch\<close>

abbreviation receipt_missing :: core_error where
  "receipt_missing \<equiv> core_error_new EC_LedgerIncompatible ''action receipt is missing''"

abbreviation queue_missing :: core_error where
  "queue_missing \<equiv> core_error_new EC_LedgerIncompatible ''queued action has no space queue''"

definition pop_queue :: "opaque_id \<Rightarrow> unit upd" where
  "pop_queue space_id =
     upd_bind (upd_get (\<lambda>s. core_ok_or (bt_get (lg_action_queues s) space_id) queue_missing)) (\<lambda>queue.
     upd_mod (\<lambda>s. s\<lparr>lg_action_queues := bt_insert space_id (tl queue) (lg_action_queues s)\<rparr>))"

definition step_receipt :: "opaque_id \<Rightarrow> (action_receipt \<Rightarrow> transition) \<Rightarrow> unit upd" where
  "step_receipt action_id f =
     upd_bind (upd_get (\<lambda>s. core_ok_or (bt_get (lg_actions s) action_id) receipt_missing))
       (transition_receipt action_id f)"

definition dirty_action_event :: "opaque_id \<Rightarrow> opaque_id \<Rightarrow> string \<Rightarrow> bool \<Rightarrow> unit upd" where
  "dirty_action_event space_id action_id status resync =
     append_event (scope_space space_id) EK_ActionChanged
       (payload_of [(''action_id'', action_id), (''status'', status)]) (Some DR_Action) resync"

definition mutation_in_flight :: "ledger_state \<Rightarrow> opaque_id \<Rightarrow> bool" where
  "mutation_in_flight s space_id \<longleftrightarrow>
     list_ex (\<lambda>receipt. ar_space_id receipt = space_id \<and> ar_status receipt = AS_Running
       \<and> is_mutating_action (ar_operation receipt)) (bt_values (lg_actions s))"

definition dispatch_admission ::
  "opaque_id \<Rightarrow> authority_ticket \<Rightarrow> lease_epoch \<Rightarrow> timestamp \<Rightarrow> ledger_request \<Rightarrow> ledger_state
   \<Rightarrow> (host_error, unit) result" where
  "dispatch_admission action_id authority lease_epoch now q s =
     and_then (core_reject (lease_epoch \<noteq> aq_lease_epoch q) (stale_lease (aq_lease_epoch q) lease_epoch)) (\<lambda>_.
     and_then (authorize_space s (aq_space_id q) authority lease_epoch now True) (\<lambda>_.
     and_then (core_ok_or (bt_get (lg_action_queues s) (aq_space_id q)) queue_missing) (\<lambda>queue.
     core_reject (queue = [] \<or> hd queue \<noteq> action_id)
       (core_error_new EC_PermissionDenied ''actions must dispatch in per-space FIFO order''))))"

definition begin_dispatch_upd ::
  "actionability_check \<Rightarrow> opaque_id \<Rightarrow> authority_ticket \<Rightarrow> lease_epoch \<Rightarrow> timestamp \<Rightarrow> ledger_request option upd" where
  "begin_dispatch_upd actionable action_id authority lease_epoch now =
     upd_bind (upd_get (\<lambda>s. core_ok_or (bt_get (lg_action_requests s) action_id)
       (invalid_argument ''action request is missing''))) (\<lambda>q.
     upd_bind (upd_get (\<lambda>s. core_ok_or (bt_get (lg_actions s) action_id) receipt_missing)) (\<lambda>receipt.
     case ar_status receipt of
       AS_Succeeded \<Rightarrow> upd_ok None
     | AS_Failed \<Rightarrow> upd_ok None
     | AS_Cancelled \<Rightarrow> upd_ok None
     | AS_Unknown \<Rightarrow> upd_err (core_error_new EC_ReconciliationRequired
         ''unknown action must be reconciled before dispatch'')
     | AS_Running \<Rightarrow> upd_err (invalid_argument ''action is already running'')
     | AS_Queued \<Rightarrow>
         upd_bind (upd_get (dispatch_admission action_id authority lease_epoch now q)) (\<lambda>_.
         upd_bind (upd_get (\<lambda>s. Ok (actionable s q))) (\<lambda>verdict.
         case verdict of
           Inl error \<Rightarrow>
             upd_bind (pop_queue (aq_space_id q)) (\<lambda>_.
             upd_bind (step_receipt action_id (\<lambda>r. receipt_cancel r (Some now))) (\<lambda>_.
             upd_bind (dirty_action_event (aq_space_id q) action_id ''cancelled'' False) (\<lambda>_.
             upd_err error)))
         | Inr _ \<Rightarrow>
             upd_bind (upd_get (\<lambda>s. core_reject (is_mutating_action (aq_operation q)
                 \<and> mutation_in_flight s (aq_space_id q))
               (core_error_new EC_PermissionDenied
                  ''a mutating action is already in flight for this space''))) (\<lambda>_.
             upd_bind (pop_queue (aq_space_id q)) (\<lambda>_.
             upd_bind (step_receipt action_id mark_dispatched) (\<lambda>_.
             upd_bind (action_event (aq_space_id q) action_id ''running'' False) (\<lambda>_.
             upd_ok (Some q)))))))))"

definition recheck_dispatch_upd ::
  "actionability_check \<Rightarrow> opaque_id \<Rightarrow> ledger_request \<Rightarrow> authority_ticket \<Rightarrow> lease_epoch \<Rightarrow> timestamp \<Rightarrow> unit upd" where
  "recheck_dispatch_upd actionable action_id q authority lease_epoch now =
     upd_bind (upd_get (\<lambda>s. authorize_space s (aq_space_id q) authority lease_epoch now True)) (\<lambda>_.
     upd_bind (upd_get (\<lambda>s. core_ok_or (bt_get (lg_actions s) action_id) receipt_missing)) (\<lambda>receipt.
     upd_bind (upd_get (\<lambda>_. core_reject (ar_status receipt \<noteq> AS_Running)
       (core_error_new EC_ReconciliationRequired ''action was fenced before dispatch''))) (\<lambda>_.
     upd_bind (upd_get (\<lambda>s. Ok (actionable s q))) (\<lambda>verdict.
     case verdict of
       Inl error \<Rightarrow>
         upd_bind (step_receipt action_id (\<lambda>r. mark_failed r (ce_code error) False (Some now))) (\<lambda>_.
         upd_bind (dirty_action_event (aq_space_id q) action_id ''failed'' False) (\<lambda>_.
         upd_err error))
     | Inr _ \<Rightarrow> upd_ok ()))))"

datatype bridge_dispatch_result =
    BD_Succeeded | BD_Failed error_code bool | BD_Unknown unknown_reason

definition dispatch_outcome :: "(core_error, bridge_dispatch_result) result \<Rightarrow> bridge_dispatch_result" where
  "dispatch_outcome answer =
     (case answer of
        Inr outcome \<Rightarrow> outcome
      | Inl error \<Rightarrow>
          if ce_code error = EC_UnknownOutcome then BD_Unknown UR_BridgeLost
          else BD_Failed (ce_code error) (ce_retryable error))"

definition postcondition_verify ::
  "postcondition \<Rightarrow> generation \<Rightarrow> content_hash option \<Rightarrow> (core_error, unit) result" where
  "postcondition_verify postcondition document_generation snapshot_hash =
     (case postcondition of
        PC_PageGeneration expected \<Rightarrow> reject_if (expected \<noteq> document_generation)
          (core_error_new EC_TargetReplaced
             ''page document generation did not reach the action postcondition'')
      | PC_SnapshotHash expected \<Rightarrow> reject_if (snapshot_hash \<noteq> Some expected)
          (core_error_new EC_TargetReplaced ''snapshot hash postcondition is absent or does not match''))"

definition verify_final_postcondition ::
  "(core_error, snapshot_envelope) result \<Rightarrow> ledger_request \<Rightarrow> bridge_dispatch_result \<Rightarrow> bridge_dispatch_result" where
  "verify_final_postcondition bridge_snapshot q outcome =
     (case aq_postcondition q of
        None \<Rightarrow> outcome
      | Some postcondition \<Rightarrow>
          if outcome \<noteq> BD_Succeeded \<or> aq_page_id q = None \<or> aq_operation q = OP_Wait then outcome
          else case bridge_snapshot of
            Inl _ \<Rightarrow> BD_Unknown UR_BridgeLost
          | Inr envelope \<Rightarrow>
              (case postcondition_verify postcondition (sv_document_generation envelope)
                  (Some (sv_snapshot_hash envelope)) of
                 Inr _ \<Rightarrow> BD_Succeeded | Inl error \<Rightarrow> BD_Failed (ce_code error) False))"

definition dispatch_lease_current ::
  "host_lifecycle \<Rightarrow> ledger_state \<Rightarrow> ledger_request \<Rightarrow> authority_ticket \<Rightarrow> timestamp \<Rightarrow> bool" where
  "dispatch_lease_current lifecycle s q authority now \<longleftrightarrow>
     lifecycle = HL_Ready \<and> authority_is_current s authority
     \<and> is_some_and (bt_get (lg_spaces s) (aq_space_id q)) (\<lambda>space.
         space_admits_mutations (s_lifecycle space)
         \<and> is_some_and (s_lease space) (\<lambda>l. l_principal_id l = au_principal_id authority
             \<and> bt_get (lg_lease_holders s) (aq_space_id q) = Some (au_connection_epoch authority)
             \<and> l_lease_epoch l = aq_lease_epoch q \<and> l_state l = LS_Active \<and> l_expires_at l > now))"

definition complete_receipt ::
  "opaque_id \<Rightarrow> bridge_dispatch_result \<Rightarrow> timestamp \<Rightarrow> unit upd" where
  "complete_receipt action_id outcome now =
     (case outcome of
        BD_Succeeded \<Rightarrow> step_receipt action_id (\<lambda>r. mark_succeeded r (Some now) CS_Extension)
      | BD_Failed code retryable \<Rightarrow> step_receipt action_id (\<lambda>r. mark_failed r code retryable (Some now))
      | BD_Unknown reason \<Rightarrow>
          upd_bind (upd_get (\<lambda>_. reconcile_token ''action'' (action_sequence action_id))) (\<lambda>token.
          step_receipt action_id (\<lambda>r. mark_unknown r reason token)))"

definition mark_snapshot_dirty_record :: "opaque_id \<Rightarrow> opaque_id \<Rightarrow> ledger_state \<Rightarrow> ledger_state" where
  "mark_snapshot_dirty_record space_id page_id s =
     (case Option.bind (bt_get (lg_snapshots s) space_id) (\<lambda>pages. bt_get pages page_id) of
        None \<Rightarrow> s
      | Some record \<Rightarrow> s\<lparr>lg_snapshots := bt_insert space_id
          (bt_insert page_id (record\<lparr>cr_dirty := True\<rparr>) (bt_entry [] (lg_snapshots s) space_id))
          (lg_snapshots s)\<rparr>)"

definition finish_dispatch_upd ::
  "host_lifecycle \<Rightarrow> opaque_id \<Rightarrow> ledger_request \<Rightarrow> authority_ticket \<Rightarrow> bridge_dispatch_result \<Rightarrow> timestamp
   \<Rightarrow> action_receipt upd" where
  "finish_dispatch_upd lifecycle action_id q authority outcome now =
     upd_bind (upd_get (\<lambda>s. Ok (if dispatch_lease_current lifecycle s q authority now then outcome
       else BD_Unknown UR_FenceInterrupted))) (\<lambda>outcome.
     upd_bind (upd_get (\<lambda>s. core_ok_or (bt_get (lg_actions s) action_id) receipt_missing)) (\<lambda>receipt.
     if ar_status receipt \<noteq> AS_Running then upd_ok receipt
     else
       upd_bind (complete_receipt action_id outcome now) (\<lambda>_.
       upd_bind (upd_get (\<lambda>s. core_ok_or (bt_get (lg_actions s) action_id) receipt_missing)) (\<lambda>updated.
       upd_bind (upd_mod (\<lambda>s. case aq_page_id q of
           Some page_id \<Rightarrow> if is_mutating_action (aq_operation q)
             then mark_snapshot_dirty_record (aq_space_id q) page_id s else s
         | None \<Rightarrow> s)) (\<lambda>_.
       upd_bind (dirty_action_event (aq_space_id q) action_id (status_name (ar_status updated))
         (ar_unknown updated)) (\<lambda>_.
       upd_ok updated))))))"

text \<open>
  The calls of \<^verbatim>\<open>dispatch_action\<close> to the bridge and to the scheduler. The bounded admission of the
  scheduler is \<open>Scheduler.acquire_mutation\<close>; here only whether it grants the permit counts, with the
  kind of backpressure when it does not.
\<close>

record artifact_handle =
  ah_artifact_id :: opaque_id
  ah_request_id :: opaque_id
  ah_action_id :: opaque_id
  ah_space_id :: opaque_id
  ah_page_id :: "opaque_id option"
  ah_artifact_kind :: artifact_kind
  ah_total_bytes :: u64
  ah_chunk_count :: u16
  ah_digest :: content_hash
  ah_redacted :: bool

record dispatch_bridge =
  db_permit :: "(backpressure_kind, unit) result"
  db_dispatch :: "(core_error, bridge_dispatch_result) result"
  db_snapshot :: "(core_error, snapshot_envelope) result"
  db_artifact :: "(core_error, artifact_handle option) result"

definition scheduler_backpressure :: "backpressure_kind \<Rightarrow> host_error" where
  "scheduler_backpressure kind =
     HE_Core (core_error_new EC_MessageTooLarge
       (''scheduler '' @ (case kind of BP_ReadQueueFull \<Rightarrow> ''read queue'' | BP_MutationQueueFull \<Rightarrow> ''space mutation queue''
          | BP_GlobalMutationQueueFull \<Rightarrow> ''global mutation queue'')
        @ '' is full; retry after backpressure''))"

definition mutation_permit :: "dispatch_bridge \<Rightarrow> ledger_request \<Rightarrow> (host_error, unit) result" where
  "mutation_permit bridge q =
     (if is_mutating_action (aq_operation q) then
        (case db_permit bridge of Inl kind \<Rightarrow> Err (scheduler_backpressure kind) | Inr _ \<Rightarrow> Ok ())
      else Ok ())"

definition action_status_of ::
  "authority_ticket \<Rightarrow> opaque_id \<Rightarrow> ledger_state \<Rightarrow> (host_error, action_receipt) result" where
  "action_status_of authority action_id s =
     and_then (authorize_ticket s authority) (\<lambda>_.
     and_then (core_ok_or (bt_get (lg_actions s) action_id) (invalid_argument ''action receipt is missing'')) (\<lambda>receipt.
     and_then (authorize_visible_space s authority (ar_space_id receipt)) (\<lambda>_. Ok receipt)))"

definition dispatch_running ::
  "json_writer \<Rightarrow> ledger_io \<Rightarrow> actionability_check \<Rightarrow> dispatch_bridge \<Rightarrow> opaque_id \<Rightarrow> authority_ticket \<Rightarrow> lease_epoch
   \<Rightarrow> timestamp \<Rightarrow> ledger_request \<Rightarrow> (action_receipt \<times> artifact_handle option) broker_op" where
  "dispatch_running js io actionable bridge action_id authority lease_epoch now q =
     guarded (mutation_permit bridge q) (\<lambda>_.
     and_next (ready_update js io (recheck_dispatch_upd actionable action_id q authority lease_epoch now)) (\<lambda>_.
     let outcome = verify_final_postcondition (db_snapshot bridge) q (dispatch_outcome (db_dispatch bridge))
     in and_next (with_inner (\<lambda>b. update_ledger js io
          (finish_dispatch_upd (br_lifecycle b) action_id q authority outcome now) b)) (\<lambda>receipt.
        if ar_status receipt = AS_Succeeded then
          guarded (core_result (db_artifact bridge)) (\<lambda>artifact. broker_return (Ok (receipt, artifact)))
        else broker_return (Ok (receipt, None)))))"

definition dispatch_action ::
  "json_writer \<Rightarrow> ledger_io \<Rightarrow> actionability_check \<Rightarrow> dispatch_bridge \<Rightarrow> opaque_id \<Rightarrow> authority_ticket \<Rightarrow> lease_epoch
   \<Rightarrow> timestamp \<Rightarrow> (action_receipt \<times> artifact_handle option) broker_op" where
  "dispatch_action js io actionable bridge action_id authority lease_epoch now =
     and_next (with_inner (
       checked (\<lambda>b. ensure_ready (br_lifecycle b)) (\<lambda>_.
       checked (\<lambda>b. case bt_get (lg_action_requests (br_state b)) action_id of None \<Rightarrow> Ok ()
         | Some q \<Rightarrow> require_operation_capabilities (br_capabilities b) (aq_operation q)) (\<lambda>_.
       update_ledger js io (begin_dispatch_upd actionable action_id authority lease_epoch now))))) (\<lambda>request.
     case request of
       Some q \<Rightarrow> dispatch_running js io actionable bridge action_id authority lease_epoch now q
     | None \<Rightarrow>
         with_inner (checked (\<lambda>b. action_status_of authority action_id (br_state b)) (\<lambda>receipt.
         guarded (core_result (db_artifact bridge)) (\<lambda>artifact. broker_return (Ok (receipt, artifact))))))"

definition execute_action ::
  "json_writer \<Rightarrow> ledger_io \<Rightarrow> actionability_check \<Rightarrow> dispatch_bridge \<Rightarrow> ledger_request \<Rightarrow> authority_ticket
   \<Rightarrow> timestamp \<Rightarrow> (action_receipt \<times> artifact_handle option) broker_op" where
  "execute_action js io actionable bridge q authority now =
     and_next (enqueue_action js io actionable q authority now) (\<lambda>receipt.
     if ar_status receipt \<noteq> AS_Queued then broker_return (Ok (receipt, None))
     else dispatch_action js io actionable bridge (ar_action_id receipt) authority (ar_lease_epoch receipt) now)"

section \<open>Reconciliation\<close>

datatype bridge_reconcile_result =
    BR_Succeeded | BR_Failed error_code bool | BR_StillUnknown

definition begin_reconcile_upd ::
  "opaque_id \<Rightarrow> authority_ticket \<Rightarrow> lease_epoch \<Rightarrow> timestamp \<Rightarrow> action_receipt upd" where
  "begin_reconcile_upd action_id authority lease_epoch now =
     upd_bind (upd_get (\<lambda>s. authorize_reconciliation_authority s action_id authority lease_epoch now)) (\<lambda>existing.
     upd_bind (upd_get (\<lambda>s. core_ok_or (bt_get (lg_actions s) action_id)
       (invalid_argument ''action receipt is missing''))) (\<lambda>receipt.
     upd_bind (upd_get (\<lambda>_. checks
       [core_reject (ar_status receipt \<noteq> AS_Unknown)
          (core_error_new EC_ReconciliationRequired ''action does not have an unknown outcome''),
        core_reject (ar_request_hash receipt \<noteq> ar_request_hash existing)
          (core_error_new EC_LedgerIncompatible ''reconciliation request context changed'')])) (\<lambda>_.
     upd_bind (transition_receipt action_id begin_reconciliation receipt) (\<lambda>_.
     upd_bind (upd_get (\<lambda>s. core_ok_or (bt_get (lg_actions s) action_id)
       (invalid_argument ''action receipt is missing''))) (\<lambda>result.
     upd_bind (action_event (ar_space_id result) action_id ''reconciling'' False) (\<lambda>_.
     upd_ok result))))))"

definition require_again :: "action_receipt \<Rightarrow> transition" where
  "require_again r = (r\<lparr>ar_reconciliation_state := RS_Required, ar_next_action := NA_Reconcile\<rparr>, Ok ())"

definition reconcile_transition ::
  "bool \<Rightarrow> (core_error, bridge_reconcile_result) result \<Rightarrow> timestamp \<Rightarrow> action_receipt \<Rightarrow> transition" where
  "reconcile_transition lease_current result now r =
     (if \<not> lease_current then require_again r
      else case result of
        Inr BR_Succeeded \<Rightarrow> reconcile_succeeded r (Some now)
      | Inr (BR_Failed code requires_confirmation) \<Rightarrow> reconcile_failed r code requires_confirmation (Some now)
      | Inr BR_StillUnknown \<Rightarrow> require_again r
      | Inl _ \<Rightarrow> require_again r)"

definition finish_reconcile_upd ::
  "host_lifecycle \<Rightarrow> opaque_id \<Rightarrow> authority_ticket \<Rightarrow> lease_epoch \<Rightarrow> timestamp
   \<Rightarrow> (core_error, bridge_reconcile_result) result \<Rightarrow> action_receipt upd" where
  "finish_reconcile_upd lifecycle action_id authority lease_epoch now result =
     upd_bind (upd_get (\<lambda>s. Ok (lifecycle = HL_Ready \<and> authority_is_current s authority
       \<and> \<not> isl (authorize_reconciliation_authority s action_id authority lease_epoch now)))) (\<lambda>lease_current.
     upd_bind (upd_get (\<lambda>s. core_ok_or (bt_get (lg_actions s) action_id)
       (invalid_argument ''action receipt is missing''))) (\<lambda>current.
     if ar_status current \<noteq> AS_Unknown then upd_ok current
     else
       upd_bind (transition_receipt action_id (reconcile_transition lease_current result now) current) (\<lambda>_.
       upd_bind (upd_get (\<lambda>s. core_ok_or (bt_get (lg_actions s) action_id)
         (invalid_argument ''action receipt is missing''))) (\<lambda>result.
       upd_bind (action_event (ar_space_id result) action_id (status_name (ar_status result))
         (ar_status result = AS_Unknown)) (\<lambda>_.
       upd_ok result)))))"

definition reconcile_action ::
  "json_writer \<Rightarrow> ledger_io \<Rightarrow> (core_error, bridge_reconcile_result) result \<Rightarrow> opaque_id \<Rightarrow> authority_ticket
   \<Rightarrow> lease_epoch \<Rightarrow> timestamp \<Rightarrow> action_receipt broker_op" where
  "reconcile_action js io bridge_reconcile action_id authority lease_epoch now =
     checked (\<lambda>b. require_capability (br_capabilities b) CP_Reconcile) (\<lambda>_.
     and_next (with_update js io (begin_reconcile_upd action_id authority lease_epoch now)) (\<lambda>receipt.
     with_inner (\<lambda>b. update_ledger js io
       (finish_reconcile_upd (br_lifecycle b) action_id authority lease_epoch now bridge_reconcile) b)))"

definition artifact_admission ::
  "authority_ticket \<Rightarrow> opaque_id \<Rightarrow> artifact_handle \<Rightarrow> ledger_state \<Rightarrow> (host_error, unit) result" where
  "artifact_admission authority action_id handle s =
     and_then (action_status_of authority action_id s) (\<lambda>receipt.
     core_reject (ar_status receipt \<noteq> AS_Succeeded \<or> ar_operation receipt \<noteq> OP_Screenshot
         \<or> ar_request_id receipt \<noteq> ah_request_id handle \<or> ar_space_id receipt \<noteq> ah_space_id handle
         \<or> ar_page_id receipt \<noteq> ah_page_id handle)
       (core_error_new EC_PermissionDenied ''artifact is not attached to a completed screenshot action''))"

text \<open>\<^verbatim>\<open>take_artifact\<close>: the handle and the bytes are the answers of the bridge.\<close>

definition take_artifact ::
  "(core_error, artifact_handle option) result \<Rightarrow> (core_error, u8 list option) result \<Rightarrow> authority_ticket
   \<Rightarrow> opaque_id \<Rightarrow> opaque_id \<Rightarrow> (artifact_handle \<times> u8 list) broker_op" where
  "take_artifact bridge_handle bridge_bytes authority action_id artifact_id =
     guarded (and_then (core_result bridge_handle) (\<lambda>handle. core_ok_or handle
       (core_error_new EC_CapabilityUnavailable ''artifact handle is unavailable''))) (\<lambda>handle.
     guarded (core_reject (ah_artifact_id handle \<noteq> artifact_id)
       (core_error_new EC_PermissionDenied ''artifact handle does not belong to the requested action'')) (\<lambda>_.
     with_inner (checked (\<lambda>b. artifact_admission authority action_id handle (br_state b)) (\<lambda>_.
     guarded (and_then (core_result bridge_bytes) (\<lambda>bytes. core_ok_or bytes
       (core_error_new EC_CapabilityUnavailable ''artifact bytes are unavailable''))) (\<lambda>bytes.
     broker_return (Ok (handle, bytes)))))))"

end
