(* ===== verification/Broker_Events.thy ===== *)
theory Broker_Events
  imports Broker_Actions
begin

text \<open>
  Events and shutdown of the broker (\<^verbatim>\<open>crates/agentyc-host/src/broker.rs\<close>, \<^verbatim>\<open>ledger_json\<close>,
  \<^verbatim>\<open>state_snapshot\<close>, \<^verbatim>\<open>publish_event\<close>, \<^verbatim>\<open>resume_events\<close>, \<^verbatim>\<open>event_cursor\<close> and \<^verbatim>\<open>shutdown\<close>), and the sequences of
  critical sections that the methods of the broker are made of.
\<close>

section \<open>Reading the state and the events\<close>

definition state_snapshot :: "authority_ticket \<Rightarrow> ledger_state \<Rightarrow> (host_error, ledger_state) result" where
  "state_snapshot authority s =
     and_then (authorize_ticket s authority) (\<lambda>_. Ok (visible_state s (au_principal_id authority)))"

definition scope_admission :: "authority_ticket \<Rightarrow> event_scope \<Rightarrow> ledger_state \<Rightarrow> (host_error, unit) result" where
  "scope_admission authority scope s =
     (case sc_space_id scope of
        None \<Rightarrow> Ok ()
      | Some space_id \<Rightarrow>
          and_then (authorize_visible_space s authority space_id) (\<lambda>_.
          case sc_page_id scope of
            None \<Rightarrow> Ok ()
          | Some page_id \<Rightarrow> core_reject
              (Option.bind (bt_get (lg_spaces s) space_id) (\<lambda>space. space_page space page_id) = None) page_not_found))"

definition publish_event_upd ::
  "authority_ticket \<Rightarrow> event_scope \<Rightarrow> event_kind \<Rightarrow> payload \<Rightarrow> ledger_event upd" where
  "publish_event_upd authority scope event payload =
     upd_bind (upd_get (\<lambda>s. authorize_ticket s authority)) (\<lambda>_.
     upd_bind (upd_get (scope_admission authority scope)) (\<lambda>_.
     append_event_with_attribution scope event payload None False
       (attribution_client (au_connection_epoch authority) (au_profile_binding_id authority))))"

definition publish_event ::
  "json_writer \<Rightarrow> ledger_io \<Rightarrow> authority_ticket \<Rightarrow> event_scope \<Rightarrow> event_kind \<Rightarrow> payload \<Rightarrow> ledger_event broker_op" where
  "publish_event js io authority scope event payload =
     guarded (validate_public_payload payload) (\<lambda>_.
     with_update js io (publish_event_upd authority scope event payload))"

definition ledger_cursor :: "ledger_state \<Rightarrow> event_cursor" where
  "ledger_cursor s = \<lparr>cu_broker_epoch = lg_broker_epoch s, cu_sequence = lg_event_sequence s\<rparr>"

definition resume_events ::
  "authority_ticket \<Rightarrow> event_query \<Rightarrow> broker \<Rightarrow> (host_error, payload event_batch) result" where
  "resume_events authority query b =
     (let s = br_state b; after = eq_after query
      in and_then (authorize_ticket s authority) (\<lambda>_.
         and_then (case eq_scope query of None \<Rightarrow> Ok ()
           | Some scope \<Rightarrow> and_then (core_result (scope_validate scope)) (\<lambda>_. scope_admission authority scope s)) (\<lambda>_.
         if cu_broker_epoch after \<noteq> lg_broker_epoch s \<or> cu_sequence after > lg_event_sequence s
            \<or> history_lagged s (cu_sequence after) then
           Ok \<lparr>eb_broker_epoch = lg_broker_epoch s, eb_result = RU_ResyncRequired, eb_events = [],
               eb_cursor = ledger_cursor s\<rparr>
         else
           let batch = replay (br_router b) after (eq_scope query)
           in Ok (batch\<lparr>eb_events := filter (\<lambda>event. is_none_or (sc_space_id (ev_scope event)) (\<lambda>space_id.
                    is_some_and (bt_get (lg_spaces s) space_id)
                      (\<lambda>space. visible_to_principal space (au_principal_id authority)))) (eb_events batch),
                  eb_broker_epoch := lg_broker_epoch s, eb_cursor := ledger_cursor s\<rparr>))))"

definition event_cursor_of :: "authority_ticket \<Rightarrow> ledger_state \<Rightarrow> (host_error, event_cursor) result" where
  "event_cursor_of authority s = and_then (authorize_ticket s authority) (\<lambda>_. Ok (ledger_cursor s))"

section \<open>Shutdown\<close>

definition shutdown_running :: "opaque_id \<Rightarrow> unit upd" where
  "shutdown_running action_id =
     upd_bind (upd_get (\<lambda>s. Ok (bt_get (lg_actions s) action_id))) (\<lambda>found.
     case found of
       None \<Rightarrow> upd_ok ()
     | Some receipt \<Rightarrow>
         upd_bind (upd_get (\<lambda>_. reconcile_token ''shutdown'' (action_sequence action_id))) (\<lambda>token.
         upd_bind (transition_receipt action_id (\<lambda>r. mark_unknown r UR_HostRestarted token) receipt) (\<lambda>_.
         action_event (ar_space_id receipt) action_id ''unknown'' True)))"

definition shutdown_upd :: "timestamp \<Rightarrow> unit upd" where
  "shutdown_upd now =
     upd_bind (upd_get (\<lambda>s. Ok (map fst (filter (\<lambda>(_, receipt). ar_status receipt = AS_Running) (lg_actions s))))) (\<lambda>running.
     upd_bind (upd_each shutdown_running running) (\<lambda>_.
     append_event no_scope EK_BrokerDraining (payload_of [(''at'', show_nat (unat now))]) None False))"

definition shutdown :: "json_writer \<Rightarrow> ledger_io \<Rightarrow> timestamp \<Rightarrow> unit broker_op" where
  "shutdown js io now = with_inner (\<lambda>b.
     if br_lifecycle b = HL_Stopped then (b, Ok ())
     else and_next (update_ledger js io (shutdown_upd now)) (\<lambda>_ b. (b\<lparr>br_lifecycle := HL_Stopped\<rparr>, Ok ())) b)"

end
