(* ===== verification/Json.thy ===== *)
theory Json
  imports Canonical
begin

text \<open>
  JSON values as the host reads them: the constructors of \<^verbatim>\<open>serde_json::Value\<close>, an object as the ordered
  map that \<^verbatim>\<open>serde_json::Map\<close> is, and the accessors the sources use. A float carries the text that
  \<^verbatim>\<open>Display\<close> prints for it.
\<close>

datatype json_number = JN_Unsigned u64 | JN_Negative int | JN_Float utext

datatype json =
    J_Null
  | J_Bool bool
  | J_Number json_number
  | J_String utext
  | J_Array "json list"
  | J_Object "(utext \<times> json) list"

type_synonym json_map = "(utext, json) btree"

fun json_as_str :: "json \<Rightarrow> utext option" where
  "json_as_str (J_String t) = Some t"
| "json_as_str _ = None"

fun json_as_u64 :: "json \<Rightarrow> u64 option" where
  "json_as_u64 (J_Number (JN_Unsigned n)) = Some n"
| "json_as_u64 _ = None"

fun json_as_bool :: "json \<Rightarrow> bool option" where
  "json_as_bool (J_Bool b) = Some b"
| "json_as_bool _ = None"

fun json_as_object :: "json \<Rightarrow> json_map option" where
  "json_as_object (J_Object m) = Some m"
| "json_as_object _ = None"

fun json_as_array :: "json \<Rightarrow> json list option" where
  "json_as_array (J_Array xs) = Some xs"
| "json_as_array _ = None"

definition json_field :: "json_map \<Rightarrow> string \<Rightarrow> json option" where
  "json_field m key = bt_get m (code_points key)"

text \<open>\<^verbatim>\<open>Value::get\<close> with a name: nothing unless the value is an object.\<close>

definition json_get :: "json \<Rightarrow> string \<Rightarrow> json option" where
  "json_get value key = Option.bind (json_as_object value) (\<lambda>m. json_field m key)"

fun json_number_text :: "json_number \<Rightarrow> utext" where
  "json_number_text (JN_Unsigned n) = code_points (show_nat (unat n))"
| "json_number_text (JN_Negative i) = show_int i"
| "json_number_text (JN_Float t) = t"

definition text_is :: "utext \<Rightarrow> string \<Rightarrow> bool" where
  "text_is t s \<longleftrightarrow> t = code_points s"

definition text_starts_with :: "utext \<Rightarrow> string \<Rightarrow> bool" where
  "text_starts_with t s \<longleftrightarrow> take (length s) t = code_points s"

definition text_in :: "utext \<Rightarrow> string list \<Rightarrow> bool" where
  "text_in t names \<longleftrightarrow> list_ex (text_is t) names"

end
