(* ===== verification/Bridge_Updates.thy ===== *)
theory Bridge_Updates
  imports Broker_Events Json
begin

text \<open>
  Events that the browser side reports (\<^verbatim>\<open>crates/agentyc-host/src/broker.rs\<close>, \<^verbatim>\<open>apply_bridge_event\<close> and its
  helpers): the contract of each event name, how an event is read, the fields that are copied into the
  durable event, the check of its attribution, and the transaction on the ledger. The JSON value is an
  argument; the epochs that the bridge holds are another.
\<close>

section \<open>Contracts of event names\<close>

definition side_event :: "utext \<Rightarrow> bool" where
  "side_event name \<longleftrightarrow> list_ex (text_starts_with name) [''log.'', ''network.'', ''dialog.'', ''download.'', ''trace.'', ''mock.'']"

definition bridge_event_contract :: "utext \<Rightarrow> (event_kind \<times> dirty_reason \<times> bool \<times> bool) option" where
  "bridge_event_contract name =
     (if text_is name ''debugger.event'' then Some (EK_PageChanged, DR_DomMutation, False, False)
      else if text_is name ''debugger.document_changed'' then Some (EK_PageChanged, DR_Navigation, False, False)
      else if text_in name [''debugger.target_lost'', ''page.lost'', ''page.replaced''] then
        Some (EK_PageChanged, DR_TargetReplaced, True, False)
      else if text_in name [''debugger.session_lost'', ''debugger.detached''] then
        Some (EK_PageChanged, DR_SessionLost, True, False)
      else if text_is name ''page.changed'' then Some (EK_PageChanged, DR_DomMutation, False, False)
      else if text_in name [''page.focus_changed'', ''tab.observed''] then Some (EK_PageChanged, DR_Unknown, False, False)
      else if text_in name [''page.rebound'', ''page.rebind_required''] then Some (EK_PageChanged, DR_Reconnect, False, False)
      else if text_in name [''browser.session_changed'', ''debugger.mappings_reset'', ''browser.event_gap''] then
        Some (EK_ConnectionChanged, DR_Reconnect, True, True)
      else if side_event name then Some (EK_PageChanged, DR_Unknown, False, False)
      else None)"

definition debugger_event_dirty_reason :: "utext \<Rightarrow> dirty_reason" where
  "debugger_event_dirty_reason method =
     (if method = [] \<or> text_starts_with method ''DOM.'' \<or> text_starts_with method ''Accessibility.'' then DR_DomMutation
      else if text_in method [''Page.frameAttached'', ''Page.frameDetached'', ''Page.frameStartedLoading''] then DR_FrameChanged
      else if text_in method [''Page.frameNavigated'', ''Page.navigatedWithinDocument'', ''Page.domContentEventFired'',
          ''Page.loadEventFired''] then DR_Navigation
      else if text_starts_with method ''Network.'' then DR_GeometryChanged
      else if text_starts_with method ''Runtime.executionContext'' then DR_Navigation
      else DR_Unknown)"

fun snapshot_dirty_reason :: "dirty_reason \<Rightarrow> cache_dirty_reason" where
  "snapshot_dirty_reason DR_EventGap = CD_EventGap"
| "snapshot_dirty_reason DR_Navigation = CD_Navigation"
| "snapshot_dirty_reason DR_FrameChanged = CD_FrameReplaced"
| "snapshot_dirty_reason DR_Action = CD_Action"
| "snapshot_dirty_reason DR_TargetReplaced = CD_TargetReplaced"
| "snapshot_dirty_reason DR_SessionLost = CD_SessionLost"
| "snapshot_dirty_reason DR_Reconnect = CD_Reconnect"
| "snapshot_dirty_reason DR_RawEvaluation = CD_RawEvaluation"
| "snapshot_dirty_reason DR_Takeover = CD_Takeover"
| "snapshot_dirty_reason DR_GeometryChanged = CD_GeometryChanged"
| "snapshot_dirty_reason DR_ScrollChanged = CD_ScrollChanged"
| "snapshot_dirty_reason DR_DomMutation = CD_DomMutation"
| "snapshot_dirty_reason DR_Expired = CD_Expired"
| "snapshot_dirty_reason DR_Unknown = CD_Unknown"

definition or_field :: "'a option \<Rightarrow> 'a option \<Rightarrow> 'a option" where
  "or_field a b = (case a of Some x \<Rightarrow> Some x | None \<Rightarrow> b)"

definition unwrap_or :: "'a option \<Rightarrow> 'a \<Rightarrow> 'a" where
  "unwrap_or a d = (case a of Some x \<Rightarrow> x | None \<Rightarrow> d)"

abbreviation str_field :: "json_map \<Rightarrow> string \<Rightarrow> utext option" where
  "str_field m key \<equiv> Option.bind (json_field m key) json_as_str"

abbreviation object_field :: "json_map \<Rightarrow> string \<Rightarrow> json_map option" where
  "object_field m key \<equiv> Option.bind (json_field m key) json_as_object"

definition bridge_event_affects_snapshot :: "utext \<Rightarrow> json_map \<Rightarrow> bool" where
  "bridge_event_affects_snapshot name payload =
     (if side_event name then False
      else if text_is name ''debugger.event'' then
        (let method = unwrap_or (or_field (str_field payload ''method'')
               (Option.bind (object_field payload ''params'') (\<lambda>params. str_field params ''method''))) []
         in \<not> text_starts_with method ''Network.'' \<and> \<not> text_starts_with method ''Log.'')
      else True)"

section \<open>The durable payload of an event\<close>

text \<open>The table \<^verbatim>\<open>FIELDS\<close>: every name is copied under itself, but for one alias.\<close>

definition bridge_fields :: "(string \<times> string) list" where
  "bridge_fields =
     [(''method'', ''method''), (''url'', ''url''), (''href'', ''href''), (''navigation'', ''navigation''),
      (''navigation_kind'', ''navigation_kind''), (''transition'', ''transition''), (''direction'', ''direction''),
      (''resource_type'', ''resource_type''), (''resourceType'', ''resource_type''), (''status'', ''status''),
      (''response_status'', ''response_status''), (''state'', ''state''), (''download_state'', ''download_state''),
      (''filename'', ''filename''), (''file_name'', ''file_name''), (''name'', ''name''), (''selector'', ''selector''),
      (''text'', ''text''), (''inner_text'', ''inner_text''), (''content'', ''content''),
      (''geometry_signature'', ''geometry_signature''), (''geometry'', ''geometry''), (''dom_changed'', ''dom_changed''),
      (''mutation'', ''mutation''), (''geometry_changed'', ''geometry_changed''), (''layout_changed'', ''layout_changed''),
      (''finished'', ''finished''), (''completed'', ''completed''), (''failed'', ''failed''), (''excluded'', ''excluded''),
      (''long_lived'', ''long_lived''), (''websocket'', ''websocket''), (''download'', ''download''),
      (''analytics'', ''analytics''), (''timestamp'', ''timestamp'')]"

fun bridge_field_text :: "json \<Rightarrow> utext option" where
  "bridge_field_text (J_String t) = Some t"
| "bridge_field_text (J_Bool b) = Some (code_points (if b then ''true'' else ''false''))"
| "bridge_field_text (J_Number n) = Some (json_number_text n)"
| "bridge_field_text _ = None"

fun bridge_nested_text :: "json \<Rightarrow> utext option" where
  "bridge_nested_text (J_String t) = Some t"
| "bridge_nested_text (J_Number n) = Some (json_number_text n)"
| "bridge_nested_text _ = None"

definition copied_text :: "utext \<Rightarrow> bool" where
  "copied_text t \<longleftrightarrow> t \<noteq> [] \<and> byte_len t \<le> 4096 \<and> \<not> list_ex is_control t"

text \<open>\<^verbatim>\<open>entry(..).or_insert(..)\<close>: the first value stays.\<close>

definition or_insert :: "string \<Rightarrow> utext \<Rightarrow> payload \<Rightarrow> payload" where
  "or_insert key value m = (if bt_contains m (code_points key) then m else bt_insert (code_points key) value m)"

definition copy_field :: "json_map \<Rightarrow> string \<times> string \<Rightarrow> payload \<Rightarrow> payload" where
  "copy_field source field m =
     (case Option.bind (json_field source (fst field)) bridge_field_text of
        Some t \<Rightarrow> if copied_text t then or_insert (snd field) t m else m
      | None \<Rightarrow> m)"

definition copy_nested :: "json_map option \<times> string \<times> string \<Rightarrow> payload \<Rightarrow> payload" where
  "copy_nested entry m =
     (case entry of (object, key, output_key) \<Rightarrow>
      case Option.bind (Option.bind object (\<lambda>fields. json_field fields key)) bridge_nested_text of
        Some t \<Rightarrow> if t \<noteq> [] \<and> byte_len t \<le> 4096 then or_insert output_key t m else m
      | None \<Rightarrow> m)"

definition wait_kind_of :: "utext \<Rightarrow> string \<times> string option" where
  "wait_kind_of method =
     (if text_is method ''Page.frameNavigated'' then (''navigation'', Some ''url'')
      else if text_is method ''Page.navigatedWithinDocument'' then (''navigation'', Some ''history'')
      else if text_is method ''Page.frameStartedLoading'' then (''navigation'', Some ''reload'')
      else if text_is method ''Network.requestWillBeSent'' then (''request'', None)
      else if text_is method ''Network.responseReceived'' then (''response'', None)
      else if text_is method ''Network.loadingFinished'' then (''network_finished'', None)
      else if text_is method ''Network.loadingFailed'' then (''network_finished'', None)
      else if text_starts_with method ''DOM.'' then (''dom'', None)
      else (''debugger'', None))"

definition bridge_event_payload :: "utext \<Rightarrow> json_map \<Rightarrow> payload" where
  "bridge_event_payload name payload =
     (let nested = object_field payload ''params'';
          start = bt_insert (code_points ''reason'') name [];
          copied = fold (\<lambda>source m. fold (copy_field source) bridge_fields m)
            (payload # (case nested of Some params \<Rightarrow> [params] | None \<Rightarrow> [])) start;
          request = Option.bind nested (\<lambda>params. object_field params ''request'');
          response = Option.bind nested (\<lambda>params. object_field params ''response'');
          frame = Option.bind nested (\<lambda>params. object_field params ''frame'');
          m = fold copy_nested
            [(request, ''url'', ''url''), (response, ''url'', ''url''), (frame, ''url'', ''url''), (request, ''method'', ''method''),
             (request, ''resourceType'', ''resource_type''), (response, ''status'', ''status''),
             (response, ''statusText'', ''status_text'')] copied;
          (kind, navigation) = wait_kind_of (unwrap_or (bt_get m (code_points ''method'')) []);
          m = bt_insert (code_points ''wait_kind'') (code_points kind) m
      in case navigation of
           Some navigation \<Rightarrow> bt_insert (code_points ''navigation'') (code_points navigation) m
         | None \<Rightarrow> m)"

section \<open>Reading an event\<close>

record bridge_event =
  be_name :: utext
  be_payload :: json_map
  be_kind :: event_kind
  be_dirty_reason :: dirty_reason
  be_target_lost :: bool
  be_global :: bool
  be_broker_epoch :: u64
  be_connection_epoch :: u64
  be_worker_instance_epoch :: "u64 option"
  be_browser_session_epoch :: "u64 option"
  be_space_id :: "opaque_id option"
  be_page_id :: "opaque_id option"
  be_frame_id :: "opaque_id option"
  be_document_id :: "opaque_id option"
  be_navigation_id :: "opaque_id option"

definition bridge_field :: "json_map \<Rightarrow> json \<Rightarrow> string \<Rightarrow> utext option" where
  "bridge_field payload event field =
     or_field (str_field payload field) (Option.bind (json_get event field) json_as_str)"

definition nonzero :: "u64 option \<Rightarrow> u64 option" where
  "nonzero value = Option.bind value (\<lambda>v. if v > 0 then Some v else None)"

definition required_bridge_epoch :: "json \<Rightarrow> string \<Rightarrow> (host_error, u64) result" where
  "required_bridge_epoch event field =
     core_ok_or (nonzero (Option.bind (json_get event field) json_as_u64))
       (invalid_argument (''bridge '' @ field @ '' is missing or invalid''))"

definition optional_bridge_epoch :: "json \<Rightarrow> string \<Rightarrow> (host_error, u64 option) result" where
  "optional_bridge_epoch event field =
     (case json_get event field of
        None \<Rightarrow> Ok None
      | Some value \<Rightarrow>
          and_then (core_ok_or (nonzero (json_as_u64 value)) (invalid_argument (''bridge '' @ field @ '' is invalid'')))
            (\<lambda>epoch. Ok (Some epoch)))"

text \<open>\<^verbatim>\<open>T::from_str\<close> for an identity: the length bound counts bytes.\<close>

definition parse_id_text :: "id_kind \<Rightarrow> utext \<Rightarrow> (id_error, opaque_id) result" where
  "parse_id_text kind value =
     (if byte_len value > MAX_ID_LENGTH then Err (TooLong MAX_ID_LENGTH) else id_new kind (ascii_text value))"

definition parse_bridge_id :: "id_kind \<Rightarrow> utext option \<Rightarrow> string \<Rightarrow> (host_error, opaque_id option) result" where
  "parse_bridge_id kind value field =
     (case value of
        None \<Rightarrow> Ok None
      | Some value \<Rightarrow>
          (case parse_id_text kind value of
             Inl error \<Rightarrow> host_err (invalid_argument (''bridge '' @ field @ '' is invalid: '' @ id_error_text error))
           | Inr i \<Rightarrow> Ok (Some i)))"

definition event_name_of :: "json \<Rightarrow> utext option" where
  "event_name_of event =
     Option.bind (Option.bind (json_get event ''event'') json_as_str) (\<lambda>name.
       if name \<noteq> [] \<and> byte_len name \<le> 128 \<and> \<not> list_ex is_control name then Some name else None)"

definition scope_presence :: "bool \<Rightarrow> utext option \<Rightarrow> utext option \<Rightarrow> (host_error, unit) result" where
  "scope_presence global space_text page_text =
     (if global then core_reject (is_some space_text \<or> is_some page_text)
        (invalid_argument ''global bridge events cannot carry a page scope'')
      else core_reject (space_text = None \<or> page_text = None)
        (invalid_argument ''scoped bridge events require logical space and page attribution''))"

definition event_dirty_reason :: "utext \<Rightarrow> json_map \<Rightarrow> dirty_reason \<Rightarrow> dirty_reason" where
  "event_dirty_reason name payload dirty =
     (if text_is name ''debugger.event'' then debugger_event_dirty_reason (unwrap_or (str_field payload ''method'') [])
      else dirty)"

definition parse_bridge_event :: "json \<Rightarrow> (host_error, bridge_event option) result" where
  "parse_bridge_event event =
     and_then (core_ok_or (event_name_of event) (invalid_argument ''bridge event name is missing or bounded'')) (\<lambda>name.
     if text_is name ''inventory'' then Ok None
     else
       and_then (core_ok_or (Option.bind (json_get event ''payload'') json_as_object)
         (invalid_argument ''bridge event payload is missing'')) (\<lambda>payload.
       and_then (core_ok_or (bridge_event_contract name) (invalid_argument ''bridge event kind is unsupported''))
         (\<lambda>(kind, dirty, target_lost, global).
       and_then (required_bridge_epoch event ''broker_epoch'') (\<lambda>broker_epoch.
       and_then (required_bridge_epoch event ''connection_epoch'') (\<lambda>connection_epoch.
       and_then (optional_bridge_epoch event ''worker_instance_epoch'') (\<lambda>worker.
       and_then (optional_bridge_epoch event ''browser_session_epoch'') (\<lambda>session.
       let field = bridge_field payload event in
       and_then (scope_presence global (field ''space_id'') (field ''page_id'')) (\<lambda>_.
       and_then (parse_bridge_id SpaceId (field ''space_id'') ''space_id'') (\<lambda>space_id.
       and_then (parse_bridge_id PageId (field ''page_id'') ''page_id'') (\<lambda>page_id.
       and_then (parse_bridge_id FrameId (or_field (field ''logical_frame_id'') (field ''frame_id'')) ''frame_id'') (\<lambda>frame_id.
       and_then (parse_bridge_id DocumentId (field ''document_id'') ''document_id'') (\<lambda>document_id.
       and_then (parse_bridge_id NavigationId (field ''navigation_id'') ''navigation_id'') (\<lambda>navigation_id.
       Ok (Some \<lparr>be_name = name, be_payload = payload, be_kind = kind, be_dirty_reason = event_dirty_reason name payload dirty,
         be_target_lost = target_lost, be_global = global, be_broker_epoch = broker_epoch,
         be_connection_epoch = connection_epoch, be_worker_instance_epoch = worker, be_browser_session_epoch = session,
         be_space_id = space_id, be_page_id = page_id, be_frame_id = frame_id, be_document_id = document_id,
         be_navigation_id = navigation_id\<rparr>))))))))))))))"

section \<open>Attribution\<close>

definition epoch_differs :: "u64 option \<Rightarrow> u64 \<Rightarrow> bool" where
  "epoch_differs claimed actual \<longleftrightarrow> is_some_and claimed (\<lambda>epoch. epoch \<noteq> actual)"

definition stale_extension :: "extension_epochs option \<Rightarrow> bridge_event \<Rightarrow> bool" where
  "stale_extension epochs e \<longleftrightarrow> is_some_and epochs (\<lambda>x.
     epoch_differs (be_worker_instance_epoch e) (xe_worker_instance_epoch x)
     \<or> epoch_differs (be_browser_session_epoch e) (xe_browser_session_epoch x))"

definition check_attribution ::
  "extension_epochs option \<Rightarrow> authority_ticket \<Rightarrow> bridge_event \<Rightarrow> (host_error, unit) result" where
  "check_attribution epochs authority e =
     and_then (core_reject (be_broker_epoch e \<noteq> au_broker_epoch authority
         \<or> be_connection_epoch e \<noteq> au_connection_epoch authority)
       (core_error_new EC_PermissionDenied ''bridge event attribution does not match its authority'')) (\<lambda>_.
     core_reject (stale_extension epochs e)
       (core_error_new EC_PermissionDenied ''bridge event extension epoch is stale''))"

definition bridge_attribution :: "extension_epochs option \<Rightarrow> authority_ticket \<Rightarrow> bridge_event \<Rightarrow> event_attribution" where
  "bridge_attribution epochs authority e =
     (attribution_bridge (be_connection_epoch e) (au_profile_binding_id authority)
        (or_field (be_browser_session_epoch e) (map_option xe_browser_session_epoch epochs))
        (or_field (be_worker_instance_epoch e) (map_option xe_worker_instance_epoch epochs)))
     \<lparr>ea_frame_id := be_frame_id e, ea_document_id := be_document_id e, ea_navigation_id := be_navigation_id e\<rparr>"

section \<open>The effect on the page and on the ledger\<close>

abbreviation generation_field :: "bridge_event \<Rightarrow> string \<Rightarrow> u64 option" where
  "generation_field e key \<equiv> Option.bind (json_field (be_payload e) key) json_as_u64"

definition raise_generation :: "u64 option \<Rightarrow> generation \<Rightarrow> generation" where
  "raise_generation observed current =
     (case observed of Some value \<Rightarrow> if value > current then value else current | None \<Rightarrow> current)"

definition raise_generations :: "bridge_event \<Rightarrow> page_descriptor \<Rightarrow> page_descriptor" where
  "raise_generations e page = page
     \<lparr>p_target_generation := raise_generation (generation_field e ''target_generation'') (p_target_generation page),
      p_navigation_generation := raise_generation (generation_field e ''navigation_generation'') (p_navigation_generation page),
      p_document_generation := raise_generation (generation_field e ''document_generation'') (p_document_generation page)\<rparr>"

text \<open>The page after the event, and whether the event changed it (\<^verbatim>\<open>page_changed\<close>).\<close>

definition page_after_event :: "bridge_event \<Rightarrow> page_descriptor \<Rightarrow> (host_error, page_descriptor \<times> bool) result" where
  "page_after_event e page =
     (let raised = raise_generations e page in
      if be_target_lost e \<and> p_lifecycle page \<notin> {PL_Closed, PL_Closing} then
        and_then (if generation_field e ''target_generation'' = None then bump_page_generations raised else Ok raised)
          (\<lambda>page. Ok (page\<lparr>p_lifecycle := PL_TargetLost, p_binding := PB_Lost\<rparr>, True))
      else Ok (raised, raised \<noteq> page))"

definition snapshot_dirty :: "bridge_event \<Rightarrow> bool \<Rightarrow> bool" where
  "snapshot_dirty e page_changed \<longleftrightarrow>
     page_changed \<or> (be_kind e = EK_PageChanged \<and> bridge_event_affects_snapshot (be_name e) (be_payload e))"

text \<open>
  What a scoped event does: \<open>None\<close> is the early return for a page that is closing, \<open>Some\<close> carries the
  space, the page and whether it changed.
\<close>

definition event_plan ::
  "bridge_event \<Rightarrow> authority_ticket \<Rightarrow> ledger_state
   \<Rightarrow> (host_error, (space_descriptor \<times> page_descriptor \<times> bool) option) result" where
  "event_plan e authority s =
     and_then (core_ok_or (be_space_id e) (invalid_argument ''scoped bridge event space attribution is missing'')) (\<lambda>space_id.
     and_then (core_ok_or (be_page_id e) (invalid_argument ''scoped bridge event page attribution is missing'')) (\<lambda>page_id.
     and_then (authorize_profile_for_mutation s space_id authority) (\<lambda>_.
     and_then (find_space s space_id) (\<lambda>space.
     and_then (core_ok_or (space_page space page_id) page_not_found) (\<lambda>page.
     if p_lifecycle page = PL_Closing \<and> \<not> be_target_lost e then Ok None
     else and_then (page_after_event e page) (\<lambda>(page, changed). Ok (Some (space, page, changed))))))))"

text \<open>\<^verbatim>\<open>append_event_with_attribution(..)?\<close>: the record is not used.\<close>

definition append_bridge_event :: "bridge_event \<Rightarrow> event_scope \<Rightarrow> bool \<Rightarrow> event_attribution \<Rightarrow> unit upd" where
  "append_bridge_event e scope resync attribution =
     upd_bind (append_event_with_attribution scope (be_kind e) (bridge_event_payload (be_name e) (be_payload e))
       (Some (be_dirty_reason e)) resync attribution) (\<lambda>_. upd_ok ())"

definition scoped_event_upd :: "bridge_event \<Rightarrow> event_attribution \<Rightarrow> authority_ticket \<Rightarrow> unit upd" where
  "scoped_event_upd e attribution authority =
     upd_bind (upd_get (event_plan e authority)) (\<lambda>plan.
     case plan of
       None \<Rightarrow> upd_ok ()
     | Some (space, page, changed) \<Rightarrow>
         let space_id = the (be_space_id e); page_id = the (be_page_id e) in
         upd_bind (upd_mod (\<lambda>s. s\<lparr>lg_spaces := bt_insert space_id (replace_page page space) (lg_spaces s)\<rparr>)) (\<lambda>_.
         upd_bind (if snapshot_dirty e changed then drop_snapshots space_id else upd_ok ()) (\<lambda>_.
         if changed \<or> be_kind e = EK_PageChanged then
           append_bridge_event e (scope_page space_id page_id) (be_target_lost e) attribution
         else upd_ok ())))"

definition clears_snapshots :: "dirty_reason \<Rightarrow> bool" where
  "clears_snapshots reason \<longleftrightarrow> reason \<in> {DR_Reconnect, DR_SessionLost, DR_TargetReplaced, DR_Navigation, DR_FrameChanged,
     DR_EventGap, DR_RawEvaluation, DR_Takeover}"

definition global_event_upd :: "bridge_event \<Rightarrow> event_attribution \<Rightarrow> unit upd" where
  "global_event_upd e attribution =
     upd_bind (upd_mod (\<lambda>s. if clears_snapshots (be_dirty_reason e) then s\<lparr>lg_snapshots := []\<rparr> else s)) (\<lambda>_.
     append_bridge_event e no_scope True attribution)"

definition bridge_event_upd :: "bridge_event \<Rightarrow> event_attribution \<Rightarrow> authority_ticket \<Rightarrow> unit upd" where
  "bridge_event_upd e attribution authority =
     upd_bind (upd_get (\<lambda>s. authorize_ticket s authority)) (\<lambda>_.
     if be_global e then global_event_upd e attribution else scoped_event_upd e attribution authority)"

section \<open>Facts about the transaction\<close>

lemma append_bridge_event_Ok:
  assumes "append_bridge_event e scope resync attribution s = Inr (s', u)"
  shows "lg_spaces s' = lg_spaces s \<and> lg_snapshots s' = lg_snapshots s \<and> lg_next_space_number s' = lg_next_space_number s
    \<and> validate_public_payload_shape (bridge_event_payload (be_name e) (be_payload e)) 512 = Inr ()"
proof -
  obtain rec where rec: "append_event_with_attribution scope (be_kind e) (bridge_event_payload (be_name e) (be_payload e))
      (Some (be_dirty_reason e)) resync attribution s = Inr (s', rec)"
    using assms by (auto simp: append_bridge_event_def upd_simps)
  then have "validate_public_payload_shape (bridge_event_payload (be_name e) (be_payload e)) 512 = Inr ()"
    by (cases "validate_public_payload_shape (bridge_event_payload (be_name e) (be_payload e)) 512")
       (auto simp: append_event_with_attribution_def upd_simps)
  with event_sel [OF rec] show ?thesis by blast
qed

lemma scoped_event_Ok:
  assumes "scoped_event_upd e attribution au s = Inr (s', u)"
  shows "event_plan e au s = Inr None \<and> s' = s \<or>
    (\<exists>sp pg space page changed. be_space_id e = Some sp \<and> be_page_id e = Some pg \<and> event_plan e au s = Inr (Some (space, page, changed))
       \<and> lg_next_space_number s' = lg_next_space_number s
       \<and> lg_spaces s' = bt_insert sp (replace_page page space) (lg_spaces s)
       \<and> lg_snapshots s' = (if snapshot_dirty e changed then bt_remove sp (lg_snapshots s) else lg_snapshots s))"
proof -
  from assms obtain plan where plan: "event_plan e au s = Inr plan"
    by (auto simp: scoped_event_upd_def upd_simps)
  show ?thesis
  proof (cases plan)
    case None
    then show ?thesis using assms plan by (auto simp: scoped_event_upd_def upd_simps)
  next
    case (Some x)
    obtain space page changed where x: "x = (space, page, changed)" by (cases x)
    obtain sp pg where ids: "be_space_id e = Some sp" "be_page_id e = Some pg"
      using plan by (auto simp: event_plan_def)
    show ?thesis
      using assms plan Some x ids
      by (auto simp: scoped_event_upd_def upd_simps drop_snapshots_def Let_def split: if_splits dest!: append_bridge_event_Ok)
  qed
qed

lemma event_plan_Ok:
  "event_plan e au s = Inr plan \<longleftrightarrow> (\<exists>sp pg space page. be_space_id e = Some sp \<and> be_page_id e = Some pg
     \<and> authorize_profile_for_mutation s sp au = Inr () \<and> bt_get (lg_spaces s) sp = Some space \<and> space_page space pg = Some page
     \<and> (if p_lifecycle page = PL_Closing \<and> \<not> be_target_lost e then plan = None
        else \<exists>page' changed. page_after_event e page = Inr (page', changed) \<and> plan = Some (space, page', changed)))"
  by (auto simp: event_plan_def find_space_def split: if_splits)

end
