(* ===== verification/Refs.thy ===== *)
theory Refs
  imports Snapshot_Cache
begin

text \<open>
  The registry of element references (\<^verbatim>\<open>agentyc-host/src/refs.rs\<close>): references issued from complete
  snapshots, resolved only against the provenance they were issued for, invalidated with a bounded
  memory of the reasons. The eviction loop of \<^verbatim>\<open>register\<close> ends only when the oldest record sits under
  its own identity, so it is a partial function; the allocation loop counts upwards.
\<close>

section \<open>Data\<close>

record ref_registry_limits =
  rg_max_active_refs :: nat
  rg_max_tombstones :: nat
  rg_default_ttl :: "u64 option"

definition ref_limits_new :: "nat \<Rightarrow> nat \<Rightarrow> ref_registry_limits" where
  "ref_limits_new max_active_refs max_tombstones =
     \<lparr>rg_max_active_refs = max_active_refs, rg_max_tombstones = max_tombstones, rg_default_ttl = None\<rparr>"

definition with_default_ttl :: "ref_registry_limits \<Rightarrow> u64 option \<Rightarrow> ref_registry_limits" where
  "with_default_ttl l ttl = l\<lparr>rg_default_ttl := ttl\<rparr>"

definition ref_limits_default :: ref_registry_limits where
  "ref_limits_default = \<lparr>rg_max_active_refs = 1024, rg_max_tombstones = 2048, rg_default_ttl = Some 300\<rparr>"

datatype ref_invalidation_reason =
    RR_Explicit | RR_Expired | RR_Capacity | RR_DocumentChanged | RR_NavigationChanged | RR_RefEpochChanged
  | RR_FrameReplaced | RR_Rerendered | RR_RawEvaluation | RR_Takeover | RR_Reconnect | RR_ScopeInvalidated
  | RR_RegistryReset

datatype ref_stale_hint =
    RH_RefreshSnapshot | RH_RefreshFrame | RH_RefreshDocument | RH_RefreshNavigation | RH_Expired
  | RH_Reconnect | RH_Reissue

fun hint_as_str :: "ref_stale_hint \<Rightarrow> string" where
  "hint_as_str RH_RefreshSnapshot = ''refresh_snapshot''"
| "hint_as_str RH_RefreshFrame = ''refresh_frame''"
| "hint_as_str RH_RefreshDocument = ''refresh_document''"
| "hint_as_str RH_RefreshNavigation = ''refresh_navigation''"
| "hint_as_str RH_Expired = ''expired''"
| "hint_as_str RH_Reconnect = ''reconnect''"
| "hint_as_str RH_Reissue = ''reissue''"

fun reason_stale_hint :: "ref_invalidation_reason \<Rightarrow> ref_stale_hint" where
  "reason_stale_hint RR_Expired = RH_Expired"
| "reason_stale_hint RR_FrameReplaced = RH_RefreshFrame"
| "reason_stale_hint RR_DocumentChanged = RH_RefreshDocument"
| "reason_stale_hint RR_Rerendered = RH_RefreshDocument"
| "reason_stale_hint RR_NavigationChanged = RH_RefreshNavigation"
| "reason_stale_hint RR_RawEvaluation = RH_RefreshSnapshot"
| "reason_stale_hint RR_Takeover = RH_Reconnect"
| "reason_stale_hint RR_Reconnect = RH_Reconnect"
| "reason_stale_hint RR_RefEpochChanged = RH_RefreshSnapshot"
| "reason_stale_hint RR_ScopeInvalidated = RH_RefreshSnapshot"
| "reason_stale_hint RR_Explicit = RH_Reissue"
| "reason_stale_hint RR_Capacity = RH_Reissue"
| "reason_stale_hint RR_RegistryReset = RH_Reissue"

text \<open>\<^verbatim>\<open>{:?}\<close> of a reason.\<close>

fun reason_debug :: "ref_invalidation_reason \<Rightarrow> string" where
  "reason_debug RR_Explicit = ''Explicit''"
| "reason_debug RR_Expired = ''Expired''"
| "reason_debug RR_Capacity = ''Capacity''"
| "reason_debug RR_DocumentChanged = ''DocumentChanged''"
| "reason_debug RR_NavigationChanged = ''NavigationChanged''"
| "reason_debug RR_RefEpochChanged = ''RefEpochChanged''"
| "reason_debug RR_FrameReplaced = ''FrameReplaced''"
| "reason_debug RR_Rerendered = ''Rerendered''"
| "reason_debug RR_RawEvaluation = ''RawEvaluation''"
| "reason_debug RR_Takeover = ''Takeover''"
| "reason_debug RR_Reconnect = ''Reconnect''"
| "reason_debug RR_ScopeInvalidated = ''ScopeInvalidated''"
| "reason_debug RR_RegistryReset = ''RegistryReset''"

record ref_validation =
  rv_generation :: generation
  rv_document_generation :: generation
  rv_navigation_generation :: generation
  rv_snapshot_version :: snapshot_version
  rv_frame_version :: "frame_version option"
  rv_validated_at :: timestamp
  rv_expires_at :: "timestamp option"

record ref_record =
  rd_element_ref :: element_ref
  rd_provenance :: snapshot_provenance
  rd_issued_at :: timestamp
  rd_expires_at :: "timestamp option"
  rd_frame_version :: "frame_version option"
  rd_last_validated_generation :: generation
  rd_last_validated_at :: timestamp
  rd_last_validated_snapshot_version :: snapshot_version
  rd_last_validated_navigation_generation :: generation
  rd_last_validated_document_generation :: generation
  rd_last_validated_frame_version :: "frame_version option"

definition record_last_validation :: "ref_record \<Rightarrow> ref_validation" where
  "record_last_validation r =
     \<lparr>rv_generation = rd_last_validated_generation r,
      rv_document_generation = rd_last_validated_document_generation r,
      rv_navigation_generation = rd_last_validated_navigation_generation r,
      rv_snapshot_version = rd_last_validated_snapshot_version r,
      rv_frame_version = rd_last_validated_frame_version r,
      rv_validated_at = rd_last_validated_at r, rv_expires_at = rd_expires_at r\<rparr>"

record ref_tombstone =
  tb_ref_id :: opaque_id
  tb_element_ref :: element_ref
  tb_reason :: ref_invalidation_reason
  tb_hint :: ref_stale_hint
  tb_invalidated_at :: timestamp

record ref_registry =
  rr_active :: "(opaque_id, ref_record) btree"
  rr_tombstones :: "(opaque_id, ref_tombstone) btree"
  rr_tombstone_order :: "opaque_id list"
  rr_limits :: ref_registry_limits
  rr_next_ref_number :: u64

definition registry_new :: "ref_registry_limits \<Rightarrow> ref_registry" where
  "registry_new limits = \<lparr>rr_active = [], rr_tombstones = [], rr_tombstone_order = [], rr_limits = limits,
     rr_next_ref_number = 1\<rparr>"

definition registry_with_limits :: "nat \<Rightarrow> nat \<Rightarrow> ref_registry" where
  "registry_with_limits max_active_refs max_tombstones = registry_new (ref_limits_new max_active_refs max_tombstones)"

section \<open>Invalidation\<close>

fun trim_tombstones :: "nat \<Rightarrow> opaque_id list \<Rightarrow> (opaque_id, ref_tombstone) btree
    \<Rightarrow> opaque_id list \<times> (opaque_id, ref_tombstone) btree" where
  "trim_tombstones limit (oldest # order) tombstones =
     (if length tombstones > limit then trim_tombstones limit order (bt_remove oldest tombstones)
      else (oldest # order, tombstones))"
| "trim_tombstones limit [] tombstones = ([], tombstones)"

definition add_tombstone :: "ref_tombstone \<Rightarrow> ref_registry \<Rightarrow> ref_registry" where
  "add_tombstone tombstone r =
     (if rg_max_tombstones (rr_limits r) = 0 then r
      else
        (let (order, tombstones) = trim_tombstones (rg_max_tombstones (rr_limits r))
               (filter (\<lambda>item. item \<noteq> tb_ref_id tombstone) (rr_tombstone_order r) @ [tb_ref_id tombstone])
               (bt_insert (tb_ref_id tombstone) tombstone (rr_tombstones r))
         in r\<lparr>rr_tombstone_order := order, rr_tombstones := tombstones\<rparr>))"

definition invalidate_ref ::
  "opaque_id \<Rightarrow> ref_invalidation_reason \<Rightarrow> timestamp \<Rightarrow> ref_registry \<Rightarrow> ref_registry \<times> bool" where
  "invalidate_ref ref_id reason now r =
     (case bt_get (rr_active r) ref_id of
        None \<Rightarrow> (r, False)
      | Some rec \<Rightarrow>
          (add_tombstone
             \<lparr>tb_ref_id = ref_id, tb_element_ref = rd_element_ref rec, tb_reason = reason,
              tb_hint = reason_stale_hint reason, tb_invalidated_at = now\<rparr>
             (r\<lparr>rr_active := bt_remove ref_id (rr_active r)\<rparr>), True))"

definition invalidate_ids ::
  "opaque_id list \<Rightarrow> ref_invalidation_reason \<Rightarrow> timestamp \<Rightarrow> ref_registry \<Rightarrow> ref_registry" where
  "invalidate_ids ids reason now r = fold (\<lambda>ref_id r. fst (invalidate_ref ref_id reason now r)) ids r"

definition matching_ids :: "(ref_record \<Rightarrow> bool) \<Rightarrow> ref_registry \<Rightarrow> opaque_id list" where
  "matching_ids predicate r = map (er_ref_id \<circ> rd_element_ref) (filter predicate (bt_values (rr_active r)))"

definition invalidate_matching ::
  "(ref_record \<Rightarrow> bool) \<Rightarrow> ref_invalidation_reason \<Rightarrow> timestamp \<Rightarrow> ref_registry \<Rightarrow> ref_registry \<times> nat" where
  "invalidate_matching predicate reason now r =
     (let ids = matching_ids predicate r in (invalidate_ids ids reason now r, length ids))"

definition in_scope :: "opaque_id \<Rightarrow> opaque_id \<Rightarrow> ref_record \<Rightarrow> bool" where
  "in_scope space_id page_id rec \<longleftrightarrow>
     er_space_id (rd_element_ref rec) = space_id \<and> er_page_id (rd_element_ref rec) = page_id"

definition invalidate_frame :: "opaque_id \<Rightarrow> opaque_id \<Rightarrow> opaque_id \<Rightarrow> timestamp \<Rightarrow> ref_registry \<Rightarrow> ref_registry \<times> nat" where
  "invalidate_frame space_id page_id frame_id now =
     invalidate_matching (\<lambda>rec. in_scope space_id page_id rec \<and> er_frame_id (rd_element_ref rec) = frame_id)
       RR_FrameReplaced now"

definition invalidate_rerender :: "opaque_id \<Rightarrow> opaque_id \<Rightarrow> timestamp \<Rightarrow> ref_registry \<Rightarrow> ref_registry \<times> nat" where
  "invalidate_rerender space_id page_id now = invalidate_matching (in_scope space_id page_id) RR_Rerendered now"

definition invalidate_raw_evaluation :: "opaque_id \<Rightarrow> opaque_id \<Rightarrow> timestamp \<Rightarrow> ref_registry \<Rightarrow> ref_registry \<times> nat" where
  "invalidate_raw_evaluation space_id page_id now = invalidate_matching (in_scope space_id page_id) RR_RawEvaluation now"

definition invalidate_takeover :: "opaque_id \<Rightarrow> opaque_id \<Rightarrow> timestamp \<Rightarrow> ref_registry \<Rightarrow> ref_registry \<times> nat" where
  "invalidate_takeover space_id page_id now = invalidate_matching (in_scope space_id page_id) RR_Takeover now"

definition invalidate_reconnect :: "opaque_id \<Rightarrow> opaque_id \<Rightarrow> timestamp \<Rightarrow> ref_registry \<Rightarrow> ref_registry \<times> nat" where
  "invalidate_reconnect space_id page_id now = invalidate_matching (in_scope space_id page_id) RR_Reconnect now"

definition invalidate_scope :: "opaque_id \<Rightarrow> opaque_id \<Rightarrow> timestamp \<Rightarrow> ref_registry \<Rightarrow> ref_registry \<times> nat" where
  "invalidate_scope space_id page_id now = invalidate_matching (in_scope space_id page_id) RR_ScopeInvalidated now"

definition invalidate_document_generation ::
  "opaque_id \<Rightarrow> opaque_id \<Rightarrow> generation \<Rightarrow> timestamp \<Rightarrow> ref_registry \<Rightarrow> ref_registry \<times> nat" where
  "invalidate_document_generation space_id page_id document_generation now =
     invalidate_matching (\<lambda>rec. in_scope space_id page_id rec
       \<and> er_document_generation (rd_element_ref rec) \<noteq> document_generation) RR_DocumentChanged now"

definition invalidate_navigation_generation ::
  "opaque_id \<Rightarrow> opaque_id \<Rightarrow> generation \<Rightarrow> timestamp \<Rightarrow> ref_registry \<Rightarrow> ref_registry \<times> nat" where
  "invalidate_navigation_generation space_id page_id navigation_generation now =
     invalidate_matching (\<lambda>rec. in_scope space_id page_id rec
       \<and> er_navigation_generation (rd_element_ref rec) \<noteq> navigation_generation) RR_NavigationChanged now"

definition invalidate_ref_epoch ::
  "opaque_id \<Rightarrow> opaque_id \<Rightarrow> ref_epoch \<Rightarrow> timestamp \<Rightarrow> ref_registry \<Rightarrow> ref_registry \<times> nat" where
  "invalidate_ref_epoch space_id page_id refs_epoch now =
     invalidate_matching (\<lambda>rec. in_scope space_id page_id rec
       \<and> er_refs_epoch (rd_element_ref rec) \<noteq> refs_epoch) RR_RefEpochChanged now"

definition provenance_reason :: "ref_record \<Rightarrow> snapshot_provenance \<Rightarrow> ref_invalidation_reason" where
  "provenance_reason rec current =
     (if er_refs_epoch (rd_element_ref rec) \<noteq> sp_refs_epoch current then RR_RefEpochChanged
      else if er_navigation_generation (rd_element_ref rec) \<noteq> sp_navigation_generation current then RR_NavigationChanged
      else if er_document_generation (rd_element_ref rec) \<noteq> sp_document_generation current then RR_DocumentChanged
      else if er_snapshot_version (rd_element_ref rec) \<noteq> sp_snapshot_version current
           \<or> sp_snapshot_hash (rd_provenance rec) \<noteq> sp_snapshot_hash current then RR_Rerendered
      else RR_Explicit)"

definition invalidate_provenance :: "snapshot_provenance \<Rightarrow> timestamp \<Rightarrow> ref_registry \<Rightarrow> ref_registry \<times> nat" where
  "invalidate_provenance current now r =
     (let ids = matching_ids (\<lambda>rec. sp_space_id (rd_provenance rec) = sp_space_id current
            \<and> sp_page_id (rd_provenance rec) = sp_page_id current \<and> rd_provenance rec \<noteq> current) r
      in (fold (\<lambda>ref_id r. fst (invalidate_ref ref_id
                (case bt_get (rr_active r) ref_id of None \<Rightarrow> RR_DocumentChanged
                 | Some rec \<Rightarrow> provenance_reason rec current) now r)) ids r, length ids))"

definition invalidate_all :: "timestamp \<Rightarrow> ref_registry \<Rightarrow> ref_registry \<times> nat" where
  "invalidate_all now r =
     (let ids = map fst (rr_active r) in (invalidate_ids ids RR_RegistryReset now r, length ids))"

definition purge_expired :: "timestamp \<Rightarrow> ref_registry \<Rightarrow> ref_registry \<times> nat" where
  "purge_expired now = invalidate_matching (\<lambda>rec. is_some_and (rd_expires_at rec) (\<lambda>expiry. expiry \<le> now)) RR_Expired now"

section \<open>Reading\<close>

definition active_len :: "ref_registry \<Rightarrow> nat" where
  "active_len r = length (rr_active r)"

definition tombstone_len :: "ref_registry \<Rightarrow> nat" where
  "tombstone_len r = length (rr_tombstones r)"

definition registry_last_validation :: "ref_registry \<Rightarrow> opaque_id \<Rightarrow> ref_validation option" where
  "registry_last_validation r ref_id = map_option record_last_validation (bt_get (rr_active r) ref_id)"

definition registry_stale_hint :: "ref_registry \<Rightarrow> opaque_id \<Rightarrow> ref_stale_hint option" where
  "registry_stale_hint r ref_id = map_option tb_hint (bt_get (rr_tombstones r) ref_id)"

definition stale_error :: "ref_registry \<Rightarrow> opaque_id \<Rightarrow> core_error" where
  "stale_error r ref_id =
     (case bt_get (rr_tombstones r) ref_id of
        Some tombstone \<Rightarrow> stale_ref (''ref was invalidated: '' @ reason_debug (tb_reason tombstone)
          @ ''; hint='' @ hint_as_str (tb_hint tombstone))
      | None \<Rightarrow> stale_ref ''ref is not present in the bounded registry; hint=reissue'')"

section \<open>Issuing\<close>

text \<open>
  \<^verbatim>\<open>allocate_ref_id\<close> skips identities that are in use. The counter is checked, so the loop ends at the
  latest when it cannot be advanced.
\<close>

function allocate_ref_id :: "ref_registry \<Rightarrow> ref_registry \<times> (core_error, opaque_id) result" where
  "allocate_ref_id r =
     (case checked_add64 (rr_next_ref_number r) 1 of
        None \<Rightarrow> (r, Err (invalid_argument ''reference identity counter overflow''))
      | Some number \<Rightarrow>
          (let r' = r\<lparr>rr_next_ref_number := number\<rparr>
           in case from_suffix RefId (''host-'' @ show_nat (unat (rr_next_ref_number r))) of
                Inl error \<Rightarrow> (r', Err (invalid_argument (id_error_text error)))
              | Inr ref_id \<Rightarrow>
                  if \<not> bt_contains (rr_active r') ref_id \<and> \<not> bt_contains (rr_tombstones r') ref_id
                  then (r', Ok ref_id) else allocate_ref_id r'))"
  by pat_completeness auto

termination
proof (relation "measure (\<lambda>r. 2 ^ 64 - unat (rr_next_ref_number r))", goal_cases)
  case (2 r n r' ref_id)
  then have "unat n = Suc (unat (rr_next_ref_number r))"
    using checked_next_Some [of "rr_next_ref_number r" n] by (simp add: checked_next_def)
  with 2(2) unat_u64_less [of n] show ?case by simp
qed simp

declare allocate_ref_id.simps [simp del]

definition issued_before :: "ref_record \<Rightarrow> ref_record \<Rightarrow> bool" where
  "issued_before a b \<longleftrightarrow> rd_issued_at a < rd_issued_at b
     \<or> rd_issued_at a = rd_issued_at b \<and> er_ref_id (rd_element_ref a) \<le> er_ref_id (rd_element_ref b)"

text \<open>\<^verbatim>\<open>min_by\<close>: the first of the smallest.\<close>

fun oldest_record :: "ref_record list \<Rightarrow> ref_record option" where
  "oldest_record [] = None"
| "oldest_record (rec # recs) =
     (case oldest_record recs of None \<Rightarrow> Some rec
      | Some other \<Rightarrow> if issued_before rec other then Some rec else Some other)"

partial_function (option) make_room :: "timestamp \<Rightarrow> ref_registry \<Rightarrow> ref_registry option" where
  "make_room now r =
     (if rg_max_active_refs (rr_limits r) \<le> length (rr_active r) then
        (case oldest_record (bt_values (rr_active r)) of
           None \<Rightarrow> Some r
         | Some oldest \<Rightarrow> make_room now (fst (invalidate_ref (er_ref_id (rd_element_ref oldest)) RR_Capacity now r)))
      else Some r)"

definition ref_matches_provenance :: "element_ref \<Rightarrow> snapshot_provenance \<Rightarrow> bool" where
  "ref_matches_provenance e p \<longleftrightarrow> er_space_id e = sp_space_id p \<and> er_page_id e = sp_page_id p
     \<and> er_snapshot_version e = sp_snapshot_version p \<and> er_document_generation e = sp_document_generation p
     \<and> er_navigation_generation e = sp_navigation_generation p \<and> er_refs_epoch e = sp_refs_epoch p"

definition saturating_add64 :: "u64 \<Rightarrow> u64 \<Rightarrow> u64" where
  "saturating_add64 a b = (case checked_add64 a b of Some c \<Rightarrow> c | None \<Rightarrow> - 1)"

definition fresh_record :: "ref_registry_limits \<Rightarrow> element_ref \<Rightarrow> snapshot_provenance \<Rightarrow> timestamp \<Rightarrow> ref_record" where
  "fresh_record limits e p now =
     \<lparr>rd_element_ref = e, rd_provenance = p, rd_issued_at = now,
      rd_expires_at = map_option (saturating_add64 now) (rg_default_ttl limits), rd_frame_version = None,
      rd_last_validated_generation = sp_document_generation p, rd_last_validated_at = now,
      rd_last_validated_snapshot_version = sp_snapshot_version p,
      rd_last_validated_navigation_generation = sp_navigation_generation p,
      rd_last_validated_document_generation = sp_document_generation p,
      rd_last_validated_frame_version = None\<rparr>"

definition drop_duplicate :: "opaque_id \<Rightarrow> timestamp \<Rightarrow> ref_registry \<Rightarrow> ref_registry" where
  "drop_duplicate ref_id now r =
     (if bt_contains (rr_active r) ref_id then fst (invalidate_ref ref_id RR_Explicit now r) else r)"

definition register ::
  "element_ref \<Rightarrow> snapshot_provenance \<Rightarrow> timestamp \<Rightarrow> ref_registry \<Rightarrow> (ref_registry \<times> (core_error, unit) result) option" where
  "register e p now r =
     (if \<not> provenance_can_issue_refs p then
        Some (r, Err (stale_ref ''refs require complete coherent snapshot provenance''))
      else if \<not> ref_matches_provenance e p then
        Some (r, Err (stale_ref ''ref does not match the supplied snapshot provenance''))
      else if rg_max_active_refs (rr_limits r) = 0 then
        Some (r, Err (core_error_new EC_MessageTooLarge ''reference registry has no active capacity''))
      else
        map_option (\<lambda>r. (r\<lparr>rr_active := bt_insert (er_ref_id e) (fresh_record (rr_limits r) e p now) (rr_active r)\<rparr>, Ok ()))
          (make_room now (drop_duplicate (er_ref_id e) now (fst (purge_expired now r)))))"

definition note_frame_version :: "opaque_id \<Rightarrow> frame_version option \<Rightarrow> ref_registry \<Rightarrow> ref_registry" where
  "note_frame_version ref_id version r =
     (case bt_get (rr_active r) ref_id of
        None \<Rightarrow> r
      | Some rec \<Rightarrow> r\<lparr>rr_active := bt_insert ref_id
          (rec\<lparr>rd_frame_version := version, rd_last_validated_frame_version := version\<rparr>) (rr_active r)\<rparr>)"

definition snapshot_invalid :: "snapshot_envelope \<Rightarrow> (core_error, unit) result" where
  "snapshot_invalid envelope =
     (case snapshot_validate envelope of Inl error \<Rightarrow> Err (invalid_argument (snapshot_error_text error)) | Inr _ \<Rightarrow> Ok ())"

definition issue_with_id ::
  "opaque_id \<Rightarrow> snapshot_envelope \<Rightarrow> opaque_id \<Rightarrow> opaque_id \<Rightarrow> timestamp \<Rightarrow> ref_registry
   \<Rightarrow> (ref_registry \<times> (core_error, element_ref) result) option" where
  "issue_with_id ref_id envelope frame_id element_key now r =
     (case snapshot_invalid envelope of
        Inl error \<Rightarrow> Some (r, Err error)
      | Inr _ \<Rightarrow>
          if \<not> bt_contains (sv_frame_versions envelope) frame_id then
            Some (r, Err (stale_ref ''snapshot frame vector does not contain the requested frame''))
          else case make_ref envelope ref_id frame_id element_key of
            Inl error \<Rightarrow> Some (r, Err error)
          | Inr e \<Rightarrow>
              map_option (\<lambda>(r, result). case result of
                  Inl error \<Rightarrow> (r, Err error)
                | Inr _ \<Rightarrow> (note_frame_version (er_ref_id e)
                    (bt_get (sv_frame_versions envelope) (er_frame_id e)) r, Ok e))
                (register e (envelope_provenance envelope) now r))"

definition registry_issue_ref ::
  "snapshot_envelope \<Rightarrow> opaque_id \<Rightarrow> opaque_id \<Rightarrow> timestamp \<Rightarrow> ref_registry
   \<Rightarrow> (ref_registry \<times> (core_error, element_ref) result) option" where
  "registry_issue_ref envelope frame_id element_key now r =
     (case snapshot_invalid envelope of
        Inl error \<Rightarrow> Some (r, Err error)
      | Inr _ \<Rightarrow>
          (case allocate_ref_id r of
             (r, Inl error) \<Rightarrow> Some (r, Err error)
           | (r, Inr ref_id) \<Rightarrow> issue_with_id ref_id envelope frame_id element_key now r))"

section \<open>Resolving\<close>

definition mark_validated :: "snapshot_provenance \<Rightarrow> timestamp \<Rightarrow> ref_record \<Rightarrow> ref_record" where
  "mark_validated current now rec = rec\<lparr>rd_last_validated_generation := sp_document_generation current,
     rd_last_validated_at := now, rd_last_validated_snapshot_version := sp_snapshot_version current,
     rd_last_validated_navigation_generation := sp_navigation_generation current,
     rd_last_validated_document_generation := sp_document_generation current,
     rd_last_validated_frame_version := rd_frame_version rec\<rparr>"

definition resolve_reason :: "ref_record \<Rightarrow> snapshot_provenance \<Rightarrow> ref_invalidation_reason" where
  "resolve_reason rec current =
     (if er_refs_epoch (rd_element_ref rec) \<noteq> sp_refs_epoch current then RR_RefEpochChanged
      else if er_navigation_generation (rd_element_ref rec) \<noteq> sp_navigation_generation current then RR_NavigationChanged
      else if er_document_generation (rd_element_ref rec) \<noteq> sp_document_generation current then RR_DocumentChanged
      else RR_Rerendered)"

definition resolve_ref ::
  "element_ref \<Rightarrow> opaque_id \<Rightarrow> snapshot_provenance \<Rightarrow> timestamp \<Rightarrow> ref_registry
   \<Rightarrow> ref_registry \<times> (core_error, ref_record) result" where
  "resolve_ref e frame_id current now r0 =
     (let r = fst (purge_expired now r0); ref_id = er_ref_id e
      in case bt_get (rr_active r) ref_id of
           None \<Rightarrow> (r, Err (stale_error r ref_id))
         | Some rec \<Rightarrow>
             if rd_element_ref rec \<noteq> e then
               (r, Err (stale_ref ''ref identity or provenance was altered; hint=reissue''))
             else if er_frame_id (rd_element_ref rec) \<noteq> frame_id then
               (r, Err (stale_ref ''ref frame provenance does not match the requested frame; hint=refresh_frame''))
             else if current \<noteq> rd_provenance rec then
               (let r' = fst (invalidate_ref ref_id (resolve_reason rec current) now r)
                in (r', Err (stale_error r' ref_id)))
             else case ref_validate_against e current of
               Inl error \<Rightarrow> (r, Err error)
             | Inr _ \<Rightarrow>
                 (let rec' = mark_validated current now rec
                  in (r\<lparr>rr_active := bt_insert ref_id rec' (rr_active r)\<rparr>, Ok rec')))"

definition frame_replaced :: "element_ref \<Rightarrow> frame_version option \<Rightarrow> ref_record \<Rightarrow> bool" where
  "frame_replaced e frame_version rec \<longleftrightarrow> rd_element_ref rec = e \<and> is_some (rd_frame_version rec)
     \<and> rd_frame_version rec \<noteq> frame_version"

definition resolve_against_snapshot ::
  "element_ref \<Rightarrow> snapshot_envelope \<Rightarrow> timestamp \<Rightarrow> ref_registry \<Rightarrow> ref_registry \<times> (core_error, ref_record) result" where
  "resolve_against_snapshot e envelope now r =
     (case snapshot_invalid envelope of
        Inl error \<Rightarrow> (r, Err error)
      | Inr _ \<Rightarrow>
          if \<not> can_issue_refs envelope then (r, Err (stale_ref ''snapshot cannot validate element refs''))
          else
            (let frame_version = bt_get (sv_frame_versions envelope) (er_frame_id e)
             in if is_some_and (bt_get (rr_active r) (er_ref_id e)) (frame_replaced e frame_version) then
                  (let r' = fst (invalidate_ref (er_ref_id e) RR_FrameReplaced now r)
                   in (r', Err (stale_error r' (er_ref_id e))))
                else case resolve_ref e (er_frame_id e) (envelope_provenance envelope) now r of
                  (r', Inl error) \<Rightarrow> (r', Err error)
                | (r', Inr rec) \<Rightarrow>
                    if is_some (rd_frame_version rec) \<and> rd_frame_version rec \<noteq> frame_version then
                      (r', Err (stale_ref ''frame identity was reused with a different frame version; hint=refresh_frame''))
                    else (r', Ok rec)))"

definition registry_validate ::
  "element_ref \<Rightarrow> opaque_id \<Rightarrow> snapshot_provenance \<Rightarrow> timestamp \<Rightarrow> ref_registry \<Rightarrow> ref_registry \<times> (core_error, unit) result" where
  "registry_validate e frame_id current now r =
     (case resolve_ref e frame_id current now r of (r', Inl error) \<Rightarrow> (r', Err error) | (r', Inr _) \<Rightarrow> (r', Ok ()))"

definition resolve_id ::
  "opaque_id \<Rightarrow> opaque_id \<Rightarrow> snapshot_provenance \<Rightarrow> timestamp \<Rightarrow> ref_registry \<Rightarrow> ref_registry \<times> (core_error, ref_record) result" where
  "resolve_id ref_id frame_id current now r =
     (case (case bt_get (rr_active r) ref_id of Some rec \<Rightarrow> Some (rd_element_ref rec)
            | None \<Rightarrow> map_option tb_element_ref (bt_get (rr_tombstones r) ref_id)) of
        None \<Rightarrow> (r, Err (stale_error r ref_id))
      | Some e \<Rightarrow> resolve_ref e frame_id current now r)"

definition resolve_without_frame :: "(core_error, unit) result" where
  "resolve_without_frame =
     Err (stale_ref ''ref resolution requires an exact logical frame; frame guessing is forbidden; hint=refresh_frame'')"

section \<open>Tombstones\<close>

text \<open>The order list holds every tombstone once, oldest first.\<close>

definition tombstones_inv :: "ref_registry \<Rightarrow> bool" where
  "tombstones_inv r \<longleftrightarrow> bt_wf (rr_tombstones r) \<and> distinct (rr_tombstone_order r)
     \<and> set (rr_tombstone_order r) = bt_keys (rr_tombstones r)
     \<and> length (rr_tombstones r) \<le> rg_max_tombstones (rr_limits r)"

lemma length_bt_keys: "bt_wf m \<Longrightarrow> length m = card (bt_keys m)"
  using distinct_card [of "map fst m"] by (simp add: bt_keys_set bt_wf_def strict_sorted_iff)

lemma bt_keys_get: "k \<in> bt_keys m \<longleftrightarrow> bt_get m k \<noteq> None"
  by (simp add: bt_get_None)

lemma keys_bt_remove: "bt_wf m \<Longrightarrow> bt_keys (bt_remove k m) = bt_keys m - {k}"
  by (auto simp: bt_keys_get bt_get_remove split: if_splits)

lemma trim_tombstones:
  assumes "distinct order" "bt_wf m" "set order = bt_keys m" "trim_tombstones limit order m = (order', m')"
  shows "order' = drop (length order - limit) order \<and> bt_wf m' \<and> set order' = bt_keys m'
    \<and> (\<forall>k. bt_get m' k = (if k \<in> set order' then bt_get m k else None))"
  using assms
proof (induction limit order m rule: trim_tombstones.induct)
  case (1 limit oldest order m)
  have len: "length m = Suc (length order)"
    using 1(2-4) length_bt_keys [of m] distinct_card [of "oldest # order"] by simp
  show ?case
  proof (cases "length m > limit")
    case True
    have keys: "set order = bt_keys (bt_remove oldest m)"
      using 1(2-4) by (auto simp: keys_bt_remove)
    have tr: "trim_tombstones limit order (bt_remove oldest m) = (order', m')" and d: "distinct order"
      using 1(2,5) True by simp_all
    have "order' = drop (length order - limit) order \<and> bt_wf m' \<and> set order' = bt_keys m'
        \<and> (\<forall>k. bt_get m' k = (if k \<in> set order' then bt_get (bt_remove oldest m) k else None))"
      by (rule 1(1) [OF True d bt_wf_remove [OF 1(3)] keys tr])
    moreover from this have "oldest \<notin> set order'" using 1(2) by (auto dest: in_set_dropD)
    ultimately show ?thesis using True len 1(3) by (auto simp: bt_get_remove Suc_diff_le)
  next
    case False
    then have "order' = oldest # order" "m' = m" using 1(5) by auto
    moreover have "bt_get m k = None" if "k \<notin> set (oldest # order)" for k
      using that unfolding 1(4) by (simp add: bt_get_None)
    ultimately show ?thesis using False len 1(3,4) by auto
  qed
next
  case (2 limit m)
  then have "m' = m" "order' = []" "bt_keys m = {}" by auto
  moreover then have "bt_get m k = None" for k by (simp add: bt_get_None)
  ultimately show ?case using 2(2) by simp
qed

lemma trim_tombstones_bound:
  assumes "distinct order" "bt_wf m" "set order = bt_keys m" "trim_tombstones limit order m = (order', m')"
  shows "distinct order'" "length m' \<le> limit"
proof -
  note s = trim_tombstones [OF assms]
  then show d: "distinct order'" using assms(1) by simp
  have "length m' = length order'" using s length_bt_keys [of m'] distinct_card [OF d] by metis
  then show "length m' \<le> limit" using s by simp
qed

lemma add_tombstone_sel [simp]:
  "rr_active (add_tombstone tb r) = rr_active r" "rr_limits (add_tombstone tb r) = rr_limits r"
  "rr_next_ref_number (add_tombstone tb r) = rr_next_ref_number r"
  by (auto simp: add_tombstone_def split: prod.splits)

lemma add_tombstone_inv:
  assumes "tombstones_inv r"
  shows "tombstones_inv (add_tombstone tb r)"
    "bt_keys (rr_tombstones (add_tombstone tb r)) \<subseteq> insert (tb_ref_id tb) (bt_keys (rr_tombstones r))"
proof -
  let ?o = "filter (\<lambda>item. item \<noteq> tb_ref_id tb) (rr_tombstone_order r) @ [tb_ref_id tb]"
    and ?m = "bt_insert (tb_ref_id tb) tb (rr_tombstones r)" and ?n = "rg_max_tombstones (rr_limits r)"
  obtain o' m' where t: "trim_tombstones ?n ?o ?m = (o', m')" by (cases "trim_tombstones ?n ?o ?m")
  have o: "distinct ?o" "bt_wf ?m" "set ?o = bt_keys ?m"
    using assms by (auto simp: tombstones_inv_def bt_wf_insert)
  note s = trim_tombstones [OF o t] trim_tombstones_bound [OF o t]
  show "tombstones_inv (add_tombstone tb r)"
    using assms s(2,3) conjunct1 [OF conjunct2 [OF s(1)]] conjunct1 [OF conjunct2 [OF conjunct2 [OF s(1)]]]
    by (auto simp: add_tombstone_def t tombstones_inv_def)
  have "set o' \<subseteq> set ?o" using s(1) set_drop_subset by metis
  then have "bt_keys m' \<subseteq> bt_keys ?m" using s(1) o(3) by metis
  then show "bt_keys (rr_tombstones (add_tombstone tb r)) \<subseteq> insert (tb_ref_id tb) (bt_keys (rr_tombstones r))"
    by (auto simp: add_tombstone_def t)
qed

lemma invalidate_ref_sel [simp]:
  "rr_active (fst (invalidate_ref i reason now r)) = bt_remove i (rr_active r)"
  "rr_limits (fst (invalidate_ref i reason now r)) = rr_limits r"
  "rr_next_ref_number (fst (invalidate_ref i reason now r)) = rr_next_ref_number r"
  by (auto simp: invalidate_ref_def bt_remove_absent split: option.split)

lemma invalidate_ref_tombstones:
  assumes "tombstones_inv r"
  shows "tombstones_inv (fst (invalidate_ref i reason now r))"
    "bt_keys (rr_tombstones (fst (invalidate_ref i reason now r)))
       \<subseteq> (if i \<in> bt_keys (rr_active r) then {i} else {}) \<union> bt_keys (rr_tombstones r)"
proof -
  have t: "tombstones_inv (r\<lparr>rr_active := A\<rparr>)" for A using assms by (simp add: tombstones_inv_def)
  show "tombstones_inv (fst (invalidate_ref i reason now r))"
    using assms add_tombstone_inv(1) [OF t] by (auto simp: invalidate_ref_def split: option.split)
  show "bt_keys (rr_tombstones (fst (invalidate_ref i reason now r)))
       \<subseteq> (if i \<in> bt_keys (rr_active r) then {i} else {}) \<union> bt_keys (rr_tombstones r)"
  proof (cases "bt_get (rr_active r) i")
    case (Some rec)
    let ?tb = "\<lparr>tb_ref_id = i, tb_element_ref = rd_element_ref rec, tb_reason = reason,
        tb_hint = reason_stale_hint reason, tb_invalidated_at = now\<rparr>"
    show ?thesis using add_tombstone_inv(2) [OF t, of ?tb "bt_remove i (rr_active r)"] Some
      by (simp add: invalidate_ref_def bt_keys_get)
  qed (simp add: invalidate_ref_def)
qed

section \<open>Shrinking\<close>

text \<open>
  Every invalidation removes records from the registry and remembers some of their identities. \<open>shrinks\<close>
  says this of two registries: it is all that the invariants need of the loops.
\<close>

definition shrinks :: "ref_registry \<Rightarrow> ref_registry \<Rightarrow> bool" where
  "shrinks r r' \<longleftrightarrow> tombstones_inv r' \<and> rr_limits r' = rr_limits r \<and> rr_next_ref_number r' = rr_next_ref_number r
     \<and> bt_wf (rr_active r') \<and> set (rr_active r') \<subseteq> set (rr_active r) \<and> length (rr_active r') \<le> length (rr_active r)
     \<and> bt_keys (rr_tombstones r') \<subseteq> (bt_keys (rr_active r) - bt_keys (rr_active r')) \<union> bt_keys (rr_tombstones r)"

lemma shrinks_refl: "tombstones_inv r \<Longrightarrow> bt_wf (rr_active r) \<Longrightarrow> shrinks r r"
  by (simp add: shrinks_def)

lemma shrinks_trans: "shrinks a b \<Longrightarrow> shrinks b c \<Longrightarrow> shrinks a c"
proof -
  assume ab: "shrinks a b" and bc: "shrinks b c"
  have "bt_keys (rr_active c) \<subseteq> bt_keys (rr_active b)" "bt_keys (rr_active b) \<subseteq> bt_keys (rr_active a)"
    using ab bc by (auto simp: shrinks_def bt_keys_set)
  then show "shrinks a c" using ab bc unfolding shrinks_def by (intro conjI) (simp_all, auto)
qed

lemma shrinks_invalidate:
  assumes "tombstones_inv r" "bt_wf (rr_active r)"
  shows "shrinks r (fst (invalidate_ref i reason now r))"
  using assms invalidate_ref_tombstones [OF assms(1), of i reason now] set_bt_remove_subset [of i "rr_active r"]
    length_bt_remove_le [of i "rr_active r"]
  by (auto simp: shrinks_def bt_wf_remove keys_bt_remove split: if_splits)

lemma shrinks_fold:
  assumes "\<And>x r. tombstones_inv r \<Longrightarrow> bt_wf (rr_active r) \<Longrightarrow> shrinks r (f x r)" "tombstones_inv r" "bt_wf (rr_active r)"
  shows "shrinks r (fold f xs r)"
  using assms(2,3)
proof (induction xs arbitrary: r)
  case (Cons x xs)
  have "shrinks r (f x r)" by (rule assms(1) [OF Cons.prems])
  moreover from this have "shrinks (f x r) (fold f xs (f x r))" by (intro Cons.IH) (auto simp: shrinks_def)
  ultimately show ?case by (auto intro: shrinks_trans)
qed (simp add: shrinks_refl)

lemma shrinks_operations:
  assumes "tombstones_inv r" "bt_wf (rr_active r)"
  shows "shrinks r (invalidate_ids ids reason now r)" "shrinks r (fst (invalidate_matching P reason now r))"
    "shrinks r (fst (invalidate_provenance current now r))" "shrinks r (fst (invalidate_all now r))"
    "shrinks r (fst (purge_expired now r))" "shrinks r (drop_duplicate i now r)"
proof -
  show i: "shrinks r (invalidate_ids ids reason now r)" for ids reason now
    unfolding invalidate_ids_def using assms by (intro shrinks_fold shrinks_invalidate)
  show m: "shrinks r (fst (invalidate_matching P reason now r))" for P reason now
    by (simp add: invalidate_matching_def Let_def i)
  show "shrinks r (fst (invalidate_provenance current now r))"
    unfolding invalidate_provenance_def Let_def fst_conv using assms by (intro shrinks_fold shrinks_invalidate)
  show "shrinks r (fst (invalidate_all now r))" by (simp add: invalidate_all_def Let_def i)
  show "shrinks r (fst (purge_expired now r))" by (simp add: purge_expired_def m)
  show "shrinks r (drop_duplicate i now r)"
    using assms by (simp add: drop_duplicate_def shrinks_invalidate shrinks_refl)
qed

section \<open>What is removed\<close>

text \<open>Every record sits under its own identity.\<close>

definition keyed :: "ref_registry \<Rightarrow> bool" where
  "keyed r \<longleftrightarrow> bt_wf (rr_active r) \<and> (\<forall>(i, rec) \<in> set (rr_active r). er_ref_id (rd_element_ref rec) = i)"

lemma keyed_get: "keyed r \<Longrightarrow> bt_get (rr_active r) i = Some rec \<Longrightarrow> er_ref_id (rd_element_ref rec) = i"
  by (auto simp: keyed_def dest: bt_get_in)

lemma keyed_shrinks: "keyed r \<Longrightarrow> shrinks r r' \<Longrightarrow> keyed r'"
  by (auto simp: keyed_def shrinks_def)

lemma fold_invalidate_active:
  assumes "bt_wf (rr_active r)"
  shows "bt_get (rr_active (fold (\<lambda>i r. fst (invalidate_ref i (g i r) now r)) ids r)) j
    = (if j \<in> set ids then None else bt_get (rr_active r) j)"
  using assms by (induction ids arbitrary: r) (auto simp: bt_wf_remove bt_get_remove)

text \<open>
  An invalidation by a predicate removes exactly the records that satisfy it.
\<close>

lemma matching_ids_iff:
  assumes "keyed r"
  shows "i \<in> set (matching_ids P r) \<longleftrightarrow> (\<exists>rec. bt_get (rr_active r) i = Some rec \<and> P rec)"
proof
  assume "i \<in> set (matching_ids P r)"
  then obtain k rec where "(k, rec) \<in> set (rr_active r)" "P rec" "er_ref_id (rd_element_ref rec) = i"
    by (auto simp: matching_ids_def bt_values_def)
  with assms show "\<exists>rec. bt_get (rr_active r) i = Some rec \<and> P rec" by (fastforce simp: keyed_def dest: bt_in_get)
next
  assume "\<exists>rec. bt_get (rr_active r) i = Some rec \<and> P rec"
  then obtain rec where "bt_get (rr_active r) i = Some rec" "P rec" by blast
  then show "i \<in> set (matching_ids P r)"
    using keyed_get [OF assms, of i rec] by (force simp: matching_ids_def bt_values_def dest: bt_get_in)
qed

lemma get_invalidate_matching:
  assumes "keyed r"
  shows "bt_get (rr_active (fst (invalidate_matching P reason now r))) i
    = (case bt_get (rr_active r) i of None \<Rightarrow> None | Some rec \<Rightarrow> if P rec then None else Some rec)"
  using assms fold_invalidate_active [of r "\<lambda>_ _. reason" now "matching_ids P r" i] matching_ids_iff [OF assms, of i P]
  by (auto simp: invalidate_matching_def invalidate_ids_def Let_def keyed_def split: option.split)

lemma get_invalidate_provenance:
  assumes "keyed r"
  shows "bt_get (rr_active (fst (invalidate_provenance current now r))) i
    = (case bt_get (rr_active r) i of None \<Rightarrow> None
       | Some rec \<Rightarrow> if sp_space_id (rd_provenance rec) = sp_space_id current
            \<and> sp_page_id (rd_provenance rec) = sp_page_id current \<and> rd_provenance rec \<noteq> current then None else Some rec)"
  using assms matching_ids_iff [OF assms, of i "\<lambda>rec. sp_space_id (rd_provenance rec) = sp_space_id current
      \<and> sp_page_id (rd_provenance rec) = sp_page_id current \<and> rd_provenance rec \<noteq> current"]
  by (auto simp: invalidate_provenance_def Let_def fold_invalidate_active keyed_def split: option.split)

lemma get_purge_expired:
  assumes "keyed r"
  shows "bt_get (rr_active (fst (purge_expired now r))) i
    = (case bt_get (rr_active r) i of None \<Rightarrow> None
       | Some rec \<Rightarrow> if is_some_and (rd_expires_at rec) (\<lambda>expiry. expiry \<le> now) then None else Some rec)"
  unfolding purge_expired_def by (rule get_invalidate_matching [OF assms])

section \<open>The loops end\<close>

lemma oldest_record_in: "oldest_record recs = Some rec \<Longrightarrow> rec \<in> set recs"
  by (induction recs arbitrary: rec) (auto split: option.splits if_splits)

lemma oldest_record_None: "oldest_record recs = None \<longleftrightarrow> recs = []"
  by (cases recs) (auto split: option.splits)

text \<open>
  Under the invariant the eviction loop of \<^verbatim>\<open>register\<close> ends, since it removes the record it has picked.
\<close>

lemma length_bt_remove: "bt_get m k \<noteq> None \<Longrightarrow> length (bt_remove k m) < length m"
  by (induction m) (auto split: if_splits)

lemma make_room_ends:
  assumes "keyed r" "tombstones_inv r"
  shows "\<exists>r'. make_room now r = Some r' \<and> shrinks r r'
    \<and> (rg_max_active_refs (rr_limits r) = 0 \<or> length (rr_active r') < rg_max_active_refs (rr_limits r))"
  using assms
proof (induction "length (rr_active r)" arbitrary: r rule: less_induct)
  case less
  have wf: "bt_wf (rr_active r)" using less.prems by (simp add: keyed_def)
  show ?case
  proof (cases "rg_max_active_refs (rr_limits r) \<le> length (rr_active r) \<and> rr_active r \<noteq> []")
    case True
    then obtain rec where rec: "oldest_record (bt_values (rr_active r)) = Some rec"
      using oldest_record_None [of "bt_values (rr_active r)"] by (auto simp: bt_values_def)
    then obtain k where k: "(k, rec) \<in> set (rr_active r)"
      using oldest_record_in [OF rec] by (auto simp: bt_values_def)
    let ?i = "er_ref_id (rd_element_ref rec)"
    let ?r = "fst (invalidate_ref ?i RR_Capacity now r)"
    have "bt_get (rr_active r) ?i \<noteq> None" using less.prems(1) k bt_in_get [OF wf k] by (auto simp: keyed_def)
    then have l: "length (rr_active ?r) < length (rr_active r)" using length_bt_remove [of "rr_active r" ?i] by simp
    have s: "shrinks r ?r" by (rule shrinks_invalidate [OF less.prems(2) wf])
    obtain r' where r': "make_room now ?r = Some r'" "shrinks ?r r'"
        "rg_max_active_refs (rr_limits ?r) = 0 \<or> length (rr_active r') < rg_max_active_refs (rr_limits ?r)"
      using less.hyps [OF l keyed_shrinks [OF less.prems(1) s]] s by (auto simp: shrinks_def)
    have "make_room now r = Some r'" using True rec r'(1) by (subst make_room.simps) simp
    then show ?thesis using r'(2,3) shrinks_trans [OF s] by auto
  next
    case False
    then have "make_room now r = Some r"
      by (subst make_room.simps) (auto simp: bt_values_def)
    then show ?thesis using False shrinks_refl [OF less.prems(2) wf] by auto
  qed
qed

section \<open>Runs of a registry\<close>

text \<open>
  A reference as the registry hands it out: the reference, the provenance of its snapshot and the time.
  The history of a run lists them. \<open>ref_id_of\<close> is the identity with a given number.
\<close>

type_synonym issue = "element_ref \<times> snapshot_provenance \<times> timestamp"

definition ref_id_of :: "nat \<Rightarrow> opaque_id" where
  "ref_id_of n = id_prefix RefId @ ''host-'' @ show_nat n"

abbreviation issue_id :: "issue \<Rightarrow> opaque_id" where
  "issue_id x \<equiv> er_ref_id (fst x)"

inductive ref_step :: "ref_registry \<Rightarrow> issue list \<Rightarrow> ref_registry \<Rightarrow> bool" where
  issue: "registry_issue_ref envelope frame_id element_key now r = Some (r', Inr e)
    \<Longrightarrow> ref_step r [(e, envelope_provenance envelope, now)] r'"
| issue_fails: "registry_issue_ref envelope frame_id element_key now r = Some (r', Inl error) \<Longrightarrow> ref_step r [] r'"
| resolve: "ref_step r [] (fst (resolve_ref e frame_id current now r))"
| resolve_snapshot: "ref_step r [] (fst (resolve_against_snapshot e envelope now r))"
| resolve_id: "ref_step r [] (fst (resolve_id i frame_id current now r))"
| invalidate: "ref_step r [] (fst (invalidate_ref i reason now r))"
| invalidate_matching: "ref_step r [] (fst (invalidate_matching P reason now r))"
| invalidate_provenance: "ref_step r [] (fst (invalidate_provenance current now r))"
| invalidate_all: "ref_step r [] (fst (invalidate_all now r))"

inductive ref_run :: "ref_registry \<Rightarrow> issue list \<Rightarrow> ref_registry \<Rightarrow> bool" for r0 where
  start: "ref_run r0 [] r0"
| step: "ref_run r0 h r \<Longrightarrow> ref_step r xs r' \<Longrightarrow> ref_run r0 (h @ xs) r'"

text \<open>
  The invariant: the records are references of the history with the provenance, time and expiry they
  were issued with, the bounds hold, identities come from the counter and are issued once, and no
  identity is both live and remembered as invalidated.
\<close>

definition record_issued :: "ref_registry_limits \<Rightarrow> issue list \<Rightarrow> ref_record \<Rightarrow> bool" where
  "record_issued limits h rec \<longleftrightarrow> (rd_element_ref rec, rd_provenance rec, rd_issued_at rec) \<in> set h
     \<and> ref_matches_provenance (rd_element_ref rec) (rd_provenance rec) \<and> provenance_can_issue_refs (rd_provenance rec)
     \<and> rd_expires_at rec = map_option (saturating_add64 (rd_issued_at rec)) (rg_default_ttl limits)"

definition registry_inv :: "ref_registry_limits \<Rightarrow> issue list \<Rightarrow> ref_registry \<Rightarrow> bool" where
  "registry_inv limits h r \<longleftrightarrow> keyed r \<and> tombstones_inv r \<and> rr_limits r = limits
     \<and> length (rr_active r) \<le> rg_max_active_refs limits
     \<and> (\<forall>(i, rec) \<in> set (rr_active r). record_issued limits h rec)
     \<and> bt_keys (rr_tombstones r) \<subseteq> issue_id ` set h \<and> bt_keys (rr_active r) \<inter> bt_keys (rr_tombstones r) = {}
     \<and> (\<forall>x \<in> set h. \<exists>n. n < unat (rr_next_ref_number r) \<and> issue_id x = ref_id_of n)
     \<and> distinct (map issue_id h)"

lemma ref_id_of_inj [simp]: "ref_id_of m = ref_id_of n \<longleftrightarrow> m = n"
  by (auto simp: ref_id_of_def)

lemma ref_number_valid:
  "from_suffix RefId (''host-'' @ show_nat (unat (n :: u64))) = Inr (ref_id_of (unat n))"
  using from_suffix_counter [of "''host-''" RefId n]
  by (simp add: ref_id_of_def well_formed_suffix_def id_first_char_def id_rest_char_def is_ascii_lowercase_def MAX_ID_LENGTH_def)

lemma active_issued: "registry_inv limits h r \<Longrightarrow> bt_keys (rr_active r) \<subseteq> issue_id ` set h"
proof
  fix i
  assume inv: "registry_inv limits h r" and "i \<in> bt_keys (rr_active r)"
  then obtain rec where rec: "(i, rec) \<in> set (rr_active r)" by (auto simp: bt_keys_set)
  with inv have "(rd_element_ref rec, rd_provenance rec, rd_issued_at rec) \<in> set h" "er_ref_id (rd_element_ref rec) = i"
    by (auto simp: registry_inv_def record_issued_def keyed_def)
  then show "i \<in> issue_id ` set h" by (metis fst_conv image_eqI)
qed

text \<open>In a run the counter is beyond every identity in use: the allocation takes its first candidate.\<close>

lemma allocate_first:
  assumes "registry_inv limits h r"
  shows "allocate_ref_id r = (case checked_add64 (rr_next_ref_number r) 1 of
      None \<Rightarrow> (r, Err (invalid_argument ''reference identity counter overflow''))
    | Some n \<Rightarrow> (r\<lparr>rr_next_ref_number := n\<rparr>, Ok (ref_id_of (unat (rr_next_ref_number r)))))"
proof -
  let ?i = "ref_id_of (unat (rr_next_ref_number r))"
  have "?i \<notin> issue_id ` set h" using assms by (force simp: registry_inv_def)
  then have "\<not> bt_contains (rr_active r) ?i" "\<not> bt_contains (rr_tombstones r) ?i"
    using active_issued [OF assms] assms by (auto simp: bt_contains_keys registry_inv_def)
  then show ?thesis by (subst allocate_ref_id.simps) (simp add: ref_number_valid [simplified] Let_def split: option.split)
qed

lemma registry_inv_shrinks:
  assumes "registry_inv limits h r" "shrinks r r'"
  shows "registry_inv limits h r'"
proof -
  have "bt_keys (rr_active r') \<subseteq> bt_keys (rr_active r)" using assms(2) by (auto simp: shrinks_def bt_keys_set)
  then show ?thesis
    using assms keyed_shrinks [of r r'] active_issued [OF assms(1)]
    unfolding registry_inv_def shrinks_def by (intro conjI) (simp_all, blast+)
qed

lemma registry_inv_parts:
  "registry_inv limits h r \<Longrightarrow> keyed r" "registry_inv limits h r \<Longrightarrow> tombstones_inv r"
  "registry_inv limits h r \<Longrightarrow> bt_wf (rr_active r)"
  by (auto simp: registry_inv_def keyed_def)

lemma registry_inv_next:
  assumes "registry_inv limits h r" "unat (rr_next_ref_number r) \<le> unat n"
  shows "registry_inv limits h (r\<lparr>rr_next_ref_number := n\<rparr>)"
  using assms by (fastforce simp: registry_inv_def keyed_def tombstones_inv_def)

lemma registry_inv_insert:
  assumes inv: "registry_inv limits h r" and len: "length (rr_active r) < rg_max_active_refs limits"
    and id: "er_ref_id (rd_element_ref rec) = i" "i \<notin> issue_id ` set h" "i = ref_id_of n" "n < unat (rr_next_ref_number r)"
    and rec: "record_issued limits (h @ [(rd_element_ref rec, rd_provenance rec, rd_issued_at rec)]) rec"
  shows "registry_inv limits (h @ [(rd_element_ref rec, rd_provenance rec, rd_issued_at rec)])
    (r\<lparr>rr_active := bt_insert i rec (rr_active r)\<rparr>)"
proof -
  let ?h = "h @ [(rd_element_ref rec, rd_provenance rec, rd_issued_at rec)]" and ?A = "bt_insert i rec (rr_active r)"
  have sub: "set ?A \<subseteq> insert (i, rec) (set (rr_active r))" by (rule set_bt_insert_subset)
  have more: "record_issued limits h x \<Longrightarrow> record_issued limits ?h x" for x by (auto simp: record_issued_def)
  have "keyed (r\<lparr>rr_active := ?A\<rparr>)"
    using sub inv id(1) by (auto simp: keyed_def registry_inv_def bt_wf_insert)
  moreover have all: "record_issued limits h x" if "(j, x) \<in> set (rr_active r)" for j x
    using inv that by (auto simp: registry_inv_def)
  have "record_issued limits ?h x" if "(j, x) \<in> set ?A" for j x
    using that sub rec more all by blast
  then have "\<forall>(j, x) \<in> set ?A. record_issued limits ?h x" by blast
  moreover have "length ?A \<le> rg_max_active_refs limits" using len length_bt_insert_le [of i rec "rr_active r"] by simp
  moreover have "tombstones_inv (r\<lparr>rr_active := ?A\<rparr>)" using inv by (auto simp: registry_inv_def tombstones_inv_def)
  moreover have "bt_keys ?A \<inter> bt_keys (rr_tombstones r) = {}" using inv id(2) by (auto simp: registry_inv_def)
  moreover have "\<forall>x \<in> set ?h. \<exists>n. n < unat (rr_next_ref_number r) \<and> issue_id x = ref_id_of n"
    using inv id by (auto simp: registry_inv_def)
  moreover have "distinct (map issue_id ?h)" using inv id(1,2) by (auto simp: registry_inv_def)
  moreover have "bt_keys (rr_tombstones r) \<subseteq> issue_id ` set ?h" "rr_limits r = limits" using inv by (auto simp: registry_inv_def)
  ultimately show ?thesis unfolding registry_inv_def by simp
qed

lemma fresh_record_issued:
  assumes "ref_matches_provenance e p" "provenance_can_issue_refs p"
  shows "record_issued limits (h @ [(e, p, now)]) (fresh_record limits e p now)"
  using assms by (simp add: record_issued_def fresh_record_def)

text \<open>Registering a reference with a fresh identity.\<close>

lemma register_inv:
  assumes inv: "registry_inv limits h r"
    and id: "er_ref_id e \<notin> issue_id ` set h" "er_ref_id e = ref_id_of n" "n < unat (rr_next_ref_number r)"
  shows "(\<exists>error. register e p now r = Some (r, Inl error))
    \<or> (\<exists>r'. register e p now r = Some (r', Inr ()) \<and> registry_inv limits (h @ [(e, p, now)]) r'
         \<and> bt_keys (rr_active r') \<subseteq> insert (er_ref_id e) (bt_keys (rr_active r))
         \<and> bt_get (rr_active r') (er_ref_id e) = Some (fresh_record limits e p now))"
proof (cases "provenance_can_issue_refs p \<and> ref_matches_provenance e p \<and> rg_max_active_refs (rr_limits r) \<noteq> 0")
  case False
  then show ?thesis by (auto simp: register_def)
next
  case True
  let ?i = "er_ref_id e"
  let ?r1 = "fst (purge_expired now r)"
  have s1: "shrinks r ?r1" using registry_inv_parts [OF inv] by (intro shrinks_operations)
  let ?r2 = "drop_duplicate ?i now ?r1"
  have s2: "shrinks ?r1 ?r2" using s1 by (intro shrinks_operations) (auto simp: shrinks_def)
  note inv2 = registry_inv_shrinks [OF inv shrinks_trans [OF s1 s2]]
  obtain r3 where r3: "make_room now ?r2 = Some r3" "shrinks ?r2 r3"
      "rg_max_active_refs (rr_limits ?r2) = 0 \<or> length (rr_active r3) < rg_max_active_refs (rr_limits ?r2)"
    using make_room_ends [OF registry_inv_parts(1) [OF inv2] registry_inv_parts(2) [OF inv2]] by blast
  note inv3 = registry_inv_shrinks [OF inv2 r3(2)]
  have lim: "rr_limits r = limits" "rr_limits ?r2 = limits" "rr_limits r3 = limits"
    using inv inv2 inv3 by (simp_all add: registry_inv_def)
  let ?rec = "fresh_record limits e p now"
  let ?r' = "r3\<lparr>rr_active := bt_insert ?i ?rec (rr_active r3)\<rparr>"
  have "rr_next_ref_number r3 = rr_next_ref_number r" using s1 s2 r3(2) by (simp add: shrinks_def)
  then have "registry_inv limits (h @ [(rd_element_ref ?rec, rd_provenance ?rec, rd_issued_at ?rec)]) ?r'"
    using True id lim r3(3) fresh_record_issued [of e p limits h now]
    by (intro registry_inv_insert [OF inv3]) (auto simp: fresh_record_def)
  moreover have "register e p now r = Some (?r', Inr ())" using True r3(1) lim by (simp add: register_def)
  moreover have "bt_get (rr_active ?r') ?i = Some ?rec" using registry_inv_parts(3) [OF inv3] by (simp add: bt_get_insert)
  moreover have "bt_keys (rr_active r3) \<subseteq> bt_keys (rr_active r)"
    using s1 s2 r3(2) by (auto simp: shrinks_def bt_keys_set)
  then have "bt_keys (rr_active ?r') \<subseteq> insert ?i (bt_keys (rr_active r))" by auto
  ultimately show ?thesis by (auto simp: fresh_record_def)
qed

lemma registry_inv_update:
  assumes inv: "registry_inv limits h r" and "bt_get (rr_active r) i = Some rec"
    and "rd_element_ref rec' = rd_element_ref rec" "rd_provenance rec' = rd_provenance rec"
    and "rd_issued_at rec' = rd_issued_at rec" "rd_expires_at rec' = rd_expires_at rec"
  shows "registry_inv limits h (r\<lparr>rr_active := bt_insert i rec' (rr_active r)\<rparr>)"
proof -
  let ?A = "bt_insert i rec' (rr_active r)"
  have in_A: "(i, rec) \<in> set (rr_active r)" using assms(2) by (rule bt_get_in)
  have sub: "set ?A \<subseteq> insert (i, rec') (set (rr_active r))" by (rule set_bt_insert_subset)
  have k: "i \<in> bt_keys (rr_active r)" using in_A by (rule bt_in_keys)
  have old: "record_issued limits h x \<and> er_ref_id (rd_element_ref x) = j" if "(j, x) \<in> set (rr_active r)" for j x
    using inv that by (auto simp: registry_inv_def keyed_def)
  then have "record_issued limits h rec' \<and> er_ref_id (rd_element_ref rec') = i"
    using in_A assms(3-6) by (auto simp: record_issued_def)
  then have new: "record_issued limits h x \<and> er_ref_id (rd_element_ref x) = j" if "(j, x) \<in> set ?A" for j x
    using that sub old by blast
  then have "keyed (r\<lparr>rr_active := ?A\<rparr>)" "\<forall>(j, x) \<in> set ?A. record_issued limits h x"
    using registry_inv_parts(3) [OF inv] by (auto simp: keyed_def bt_wf_insert)
  moreover have "length ?A = length (rr_active r)"
    using registry_inv_parts(3) [OF inv] assms(2) by (simp add: length_bt_insert)
  moreover have "bt_keys ?A = bt_keys (rr_active r)" using k by (simp add: insert_absorb)
  moreover have "tombstones_inv (r\<lparr>rr_active := ?A\<rparr>)" using inv by (auto simp: registry_inv_def tombstones_inv_def)
  ultimately show ?thesis using inv unfolding registry_inv_def by simp
qed

text \<open>Issuing always returns, and what it returns is the newest entry of the history.\<close>

lemma ref_issue_cases:
  assumes inv: "registry_inv limits h r"
  shows "(\<exists>r' error. registry_issue_ref envelope f k now r = Some (r', Inl error) \<and> registry_inv limits h r'
         \<and> rr_active r' = rr_active r)
    \<or> (\<exists>r' e rec. registry_issue_ref envelope f k now r = Some (r', Inr e)
         \<and> registry_inv limits (h @ [(e, envelope_provenance envelope, now)]) r'
         \<and> bt_keys (rr_active r') \<subseteq> insert (er_ref_id e) (bt_keys (rr_active r)) \<and> er_frame_id e = f \<and> er_element_key e = k \<and> er_ref_id e = ref_id_of (unat (rr_next_ref_number r))
         \<and> bt_get (rr_active r') (er_ref_id e) = Some rec \<and> rd_element_ref rec = e
         \<and> rd_provenance rec = envelope_provenance envelope \<and> rd_issued_at rec = now
         \<and> rd_frame_version rec = bt_get (sv_frame_versions envelope) f)"
proof (cases "snapshot_invalid envelope")
  case (Inl error)
  then show ?thesis using inv by (simp add: registry_issue_ref_def)
next
  case valid: (Inr u)
  let ?i = "ref_id_of (unat (rr_next_ref_number r))" and ?p = "envelope_provenance envelope"
  show ?thesis
  proof (cases "checked_add64 (rr_next_ref_number r) 1")
    case None
    then show ?thesis using inv valid allocate_first [OF inv] by (simp add: registry_issue_ref_def)
  next
    case (Some n)
    let ?r = "r\<lparr>rr_next_ref_number := n\<rparr>"
    have n: "unat n = Suc (unat (rr_next_ref_number r))"
      using Some checked_next_Some [of "rr_next_ref_number r" n] by (simp add: checked_next_def)
    have inv': "registry_inv limits h ?r" using inv n by (intro registry_inv_next) simp_all
    have issue: "registry_issue_ref envelope f k now r = issue_with_id ?i envelope f k now ?r"
      using valid Some allocate_first [OF inv] by (simp add: registry_issue_ref_def)
    have fresh: "?i \<notin> issue_id ` set h" using inv by (force simp: registry_inv_def)
    show ?thesis
    proof (cases "bt_contains (sv_frame_versions envelope) f")
      case False
      then show ?thesis using issue valid inv' by (simp add: issue_with_id_def)
    next
      case frame: True
      show ?thesis
      proof (cases "make_ref envelope ?i f k")
        case (Inl error)
        then show ?thesis using issue valid frame inv' by (simp add: issue_with_id_def)
      next
        case (Inr e)
        then have e: "er_ref_id e = ?i" "er_frame_id e = f" "er_element_key e = k"
          by (auto simp: make_ref_def split: if_splits snapshot_body.splits)
        consider error where "register e ?p now ?r = Some (?r, Inl error)"
          | r' where "register e ?p now ?r = Some (r', Inr ())" "registry_inv limits (h @ [(e, ?p, now)]) r'"
              "bt_keys (rr_active r') \<subseteq> insert ?i (bt_keys (rr_active r))"
              "bt_get (rr_active r') ?i = Some (fresh_record limits e ?p now)"
          using register_inv [OF inv', of e "unat (rr_next_ref_number r)" ?p now] e(1) fresh n by auto
        then show ?thesis
        proof cases
          case 1
          then show ?thesis using issue valid frame Inr inv' by (simp add: issue_with_id_def)
        next
          case 2
          let ?v = "bt_get (sv_frame_versions envelope) f"
          let ?rec = "(fresh_record limits e ?p now)\<lparr>rd_frame_version := ?v, rd_last_validated_frame_version := ?v\<rparr>"
          let ?r' = "r'\<lparr>rr_active := bt_insert ?i ?rec (rr_active r')\<rparr>"
          have "registry_inv limits (h @ [(e, ?p, now)]) ?r'" by (rule registry_inv_update [OF 2(2,4)]) simp_all
          moreover have "registry_issue_ref envelope f k now r = Some (?r', Inr e)"
            using issue valid frame Inr 2 e by (simp add: issue_with_id_def note_frame_version_def)
          moreover have "bt_get (rr_active ?r') ?i = Some ?rec"
            using registry_inv_parts(3) [OF 2(2)] by (simp add: bt_get_insert)
          moreover have "bt_keys (rr_active ?r') \<subseteq> insert ?i (bt_keys (rr_active r))" using 2(3) by simp
          ultimately show ?thesis using e by (auto simp: fresh_record_def)
        qed
      qed
    qed
  qed
qed

section \<open>Resolution\<close>

lemma resolve_ref_inv:
  assumes inv: "registry_inv limits h r"
  shows "registry_inv limits h (fst (resolve_ref e f current now r))"
proof -
  let ?r = "fst (purge_expired now r)"
  have inv': "registry_inv limits h ?r"
    by (rule registry_inv_shrinks [OF inv]) (intro shrinks_operations registry_inv_parts [OF inv])
  have "registry_inv limits h (fst (invalidate_ref i reason now ?r))" for i reason
    by (rule registry_inv_shrinks [OF inv']) (intro shrinks_invalidate registry_inv_parts [OF inv'])
  moreover have "registry_inv limits h (?r\<lparr>rr_active := bt_insert i (mark_validated current now rec) (rr_active ?r)\<rparr>)"
    if "bt_get (rr_active ?r) i = Some rec" for i rec
    by (rule registry_inv_update [OF inv' that]) (simp_all add: mark_validated_def)
  ultimately show ?thesis
    using inv' by (auto simp: resolve_ref_def Let_def split: option.split sum.split)
qed

lemma resolve_ref_success:
  assumes "registry_inv limits h r" "resolve_ref e f current now r = (r', Inr rec)"
  shows "\<exists>rec0. bt_get (rr_active r) (er_ref_id e) = Some rec0 \<and> rd_element_ref rec0 = e \<and> er_frame_id e = f
    \<and> rd_provenance rec0 = current \<and> \<not> is_some_and (rd_expires_at rec0) (\<lambda>expiry. expiry \<le> now)
    \<and> rec = mark_validated current now rec0"
  using assms get_purge_expired [OF registry_inv_parts(1) [OF assms(1)], of now "er_ref_id e"]
  by (auto simp: resolve_ref_def Let_def split: option.splits sum.splits if_splits)

lemma resolve_snapshot_inv:
  assumes inv: "registry_inv limits h r"
  shows "registry_inv limits h (fst (resolve_against_snapshot e envelope now r))"
proof -
  have "registry_inv limits h (fst (invalidate_ref i reason now r))" for i reason
    by (rule registry_inv_shrinks [OF inv]) (intro shrinks_invalidate registry_inv_parts [OF inv])
  moreover have "registry_inv limits h r'" if "resolve_ref e f current now r = (r', x)" for f current r' x
    using resolve_ref_inv [OF inv, of e f current now] that by simp
  ultimately show ?thesis
    using inv by (auto simp: resolve_against_snapshot_def Let_def split: sum.split prod.split)
qed

lemma ref_step_inv:
  assumes "ref_step r xs r'" "registry_inv limits h r"
  shows "registry_inv limits (h @ xs) r'"
  using assms
proof (induction rule: ref_step.induct)
  case (issue envelope frame_id element_key now r r' e)
  then show ?case using ref_issue_cases [of limits h r envelope frame_id element_key now] by auto
next
  case (issue_fails envelope frame_id element_key now r r' error)
  then show ?case using ref_issue_cases [of limits h r envelope frame_id element_key now] by auto
next
  case (resolve_id r i frame_id current now)
  then show ?case by (auto simp: resolve_id_def resolve_ref_inv split: option.split)
next
  case (resolve r e frame_id current now)
  then show ?case by (simp add: resolve_ref_inv)
next
  case (resolve_snapshot r e envelope now)
  then show ?case by (simp add: resolve_snapshot_inv)
next
  case (invalidate r i reason now)
  then show ?case using registry_inv_parts by (auto intro!: registry_inv_shrinks [OF invalidate] shrinks_invalidate)
next
  case (invalidate_matching r P reason now)
  then show ?case
    using shrinks_operations(2) [of r P reason now] registry_inv_parts registry_inv_shrinks by fastforce
next
  case (invalidate_provenance r current now)
  then show ?case
    using shrinks_operations(3) [of r current now] registry_inv_parts registry_inv_shrinks by fastforce
next
  case (invalidate_all r now)
  then show ?case
    using shrinks_operations(4) [of r now] registry_inv_parts registry_inv_shrinks by fastforce
qed

lemma registry_inv_new: "registry_inv limits [] (registry_new limits)"
  by (simp add: registry_inv_def registry_new_def keyed_def tombstones_inv_def)

lemma ref_run_inv:
  assumes "ref_run r0 h' r" "registry_inv limits h r0"
  shows "registry_inv limits (h @ h') r"
  using assms by (induction rule: ref_run.induct) (auto dest: ref_step_inv simp flip: append_assoc)

lemma run_new_inv: "ref_run (registry_new limits) h r \<Longrightarrow> registry_inv limits h r"
  using ref_run_inv [OF _ registry_inv_new] by fastforce

text \<open>An identity that was issued and is no longer live does not become live again.\<close>

lemma shrinks_keys: "shrinks r r' \<Longrightarrow> bt_keys (rr_active r') \<subseteq> bt_keys (rr_active r)"
  by (auto simp: shrinks_def bt_keys_set)

lemma keys_invalidate_ref: "bt_keys (rr_active (fst (invalidate_ref i reason now r))) \<subseteq> bt_keys (rr_active r)"
  by (simp add: keys_bt_remove_subset)

lemma resolve_ref_active:
  assumes "registry_inv limits h r"
  shows "bt_keys (rr_active (fst (resolve_ref e f current now r))) \<subseteq> bt_keys (rr_active r)"
proof -
  let ?r = "fst (purge_expired now r)"
  have p: "bt_keys (rr_active ?r) \<subseteq> bt_keys (rr_active r)"
    by (rule shrinks_keys) (intro shrinks_operations registry_inv_parts [OF assms])
  moreover have "bt_keys (rr_active (fst (invalidate_ref i reason now ?r))) \<subseteq> bt_keys (rr_active r)" for i reason
    using keys_invalidate_ref [of i reason now ?r] p by blast
  moreover have "insert i (bt_keys (rr_active ?r)) \<subseteq> bt_keys (rr_active r)" if "bt_get (rr_active ?r) i = Some rec" for i rec
    using p that bt_keys_get [of i "rr_active ?r"] by auto
  ultimately show ?thesis by (auto simp: resolve_ref_def Let_def split: option.split sum.split simp del: invalidate_ref_sel)
qed

lemma step_active:
  assumes "ref_step r xs r'" "registry_inv limits h r"
  shows "bt_keys (rr_active r') \<subseteq> bt_keys (rr_active r) \<union> issue_id ` set xs"
  using assms
proof (induction rule: ref_step.induct)
  case (issue envelope frame_id element_key now r r' e)
  then show ?case using ref_issue_cases [of limits h r envelope frame_id element_key now] by auto
next
  case (issue_fails envelope frame_id element_key now r r' error)
  then show ?case using ref_issue_cases [of limits h r envelope frame_id element_key now] by auto
next
  case (resolve r e frame_id current now)
  then show ?case using resolve_ref_active [of limits h r] by fastforce
next
  case (resolve_id r i frame_id current now)
  then show ?case using subsetD [OF resolve_ref_active [OF resolve_id]]
    by (auto simp: resolve_id_def split: option.split)
next
  case (resolve_snapshot r e envelope now)
  have "bt_keys (rr_active r') \<subseteq> bt_keys (rr_active r)" if "resolve_ref e f current now r = (r', x)" for f current r' x
    using resolve_ref_active [OF resolve_snapshot, of e f current now] that by simp
  then show ?case using keys_bt_remove_subset [of "er_ref_id e" "rr_active r"]
    by (auto simp: resolve_against_snapshot_def Let_def split: sum.split prod.split)
next
  case (invalidate r i reason now)
  then show ?case using keys_invalidate_ref by fastforce
next
  case (invalidate_matching r P reason now)
  then show ?case using shrinks_keys [OF shrinks_operations(2)] registry_inv_parts by fastforce
next
  case (invalidate_provenance r current now)
  then show ?case using shrinks_keys [OF shrinks_operations(3)] registry_inv_parts by fastforce
next
  case (invalidate_all r now)
  then show ?case using shrinks_keys [OF shrinks_operations(4)] registry_inv_parts by fastforce
qed

lemma run_active:
  assumes "ref_run r h' r'" "registry_inv limits h r"
  shows "bt_keys (rr_active r') \<subseteq> bt_keys (rr_active r) \<union> issue_id ` set h'"
  using assms
proof (induction rule: ref_run.induct)
  case (step h1 r1 xs r2)
  then show ?case using step_active [OF step(2) ref_run_inv [OF step(1,4)]] by auto
qed auto

section \<open>Theorems\<close>

lemma resolve_issued:
  assumes "ref_run (registry_new limits) h r" "resolve_ref e frame_id current now r = (r', Inr rec)"
  shows "rd_element_ref rec = e \<and> er_frame_id e = frame_id \<and> ref_matches_provenance e current
    \<and> provenance_can_issue_refs current
    \<and> (\<exists>issued_at. (e, current, issued_at) \<in> set h
         \<and> (\<forall>ttl. rg_default_ttl limits = Some ttl \<longrightarrow> now < saturating_add64 issued_at ttl))"
proof -
  note inv = run_new_inv [OF assms(1)]
  obtain rec0 where rec0: "bt_get (rr_active r) (er_ref_id e) = Some rec0" "rd_element_ref rec0 = e" "er_frame_id e = frame_id"
      "rd_provenance rec0 = current" "\<not> is_some_and (rd_expires_at rec0) (\<lambda>expiry. expiry \<le> now)"
      "rec = mark_validated current now rec0"
    using resolve_ref_success [OF inv assms(2)] by blast
  then have "record_issued limits h rec0"
    using inv bt_get_in [OF rec0(1)] by (auto simp: registry_inv_def)
  then show ?thesis using rec0 by (auto simp: record_issued_def mark_validated_def is_some_and_iff not_le)
qed

text \<open>
  C19: Only exact references resolve. In any run of the registry, a reference resolves for a frame, a
  provenance and a time only when the registry itself issued exactly this reference, from a complete
  and coherent snapshot with exactly this provenance and in this frame, and its lifetime has not ended.
\<close>

theorem ref_resolves_exactly:
  assumes "ref_run (registry_new limits) h r" "resolve_ref e frame_id current now r = (r', Inr rec)"
  shows "rd_element_ref rec = e \<and> er_frame_id e = frame_id \<and> ref_matches_provenance e current
    \<and> provenance_can_issue_refs current
    \<and> (\<exists>issued_at. (e, current, issued_at) \<in> set h
         \<and> (\<forall>ttl. rg_default_ttl limits = Some ttl \<longrightarrow> now < saturating_add64 issued_at ttl))"
  using resolve_issued [OF assms] .

text \<open>
  C20: An invalidated reference is dead for good. Once a reference that the registry issued is no longer
  live, whatever removed it (an invalidation, its expiry, the capacity bound), no later resolution of
  its identity succeeds, even when its tombstone has been dropped.
\<close>

theorem dead_ref_never_resolves:
  assumes "ref_run (registry_new limits) h r" "ref_run r h' r'"
    and "er_ref_id e \<in> issue_id ` set h" "bt_get (rr_active r) (er_ref_id e) = None"
  shows "isl (snd (resolve_ref e frame_id current now r'))"
proof -
  note inv = run_new_inv [OF assms(1)]
  note inv' = ref_run_inv [OF assms(2) inv]
  have "distinct (map issue_id (h @ h'))" using inv' by (simp add: registry_inv_def)
  then have "er_ref_id e \<notin> issue_id ` set h'" using assms(3) by auto
  then have "bt_get (rr_active r') (er_ref_id e) = None"
    using run_active [OF assms(2) inv] assms(4) by (auto simp: bt_keys_get)
  then show ?thesis
    using resolve_ref_success [OF inv', of e frame_id current now]
    by (cases "snd (resolve_ref e frame_id current now r')") (auto simp: prod_eq_iff)
qed

lemma saturating_add64_less:
  fixes now ttl :: u64
  assumes "now < - 1" "ttl \<noteq> 0"
  shows "now < saturating_add64 now ttl"
proof -
  have "0 < unat ttl" using assms(2) by (simp add: unat_gt_0)
  with assms(1) show ?thesis
    by (auto simp: saturating_add64_def checked_add64_Some word_less_nat_alt split: option.split)
qed

lemma resolve_fresh:
  assumes inv: "registry_inv limits h r" and "bt_get (rr_active r) (er_ref_id e) = Some rec"
    and "rd_element_ref rec = e" "rd_issued_at rec = now" "rg_default_ttl limits \<noteq> Some 0" "now < - 1"
  shows "\<not> isl (snd (resolve_ref e (er_frame_id e) (rd_provenance rec) now r))"
proof -
  have rec: "record_issued limits h rec" using inv bt_get_in [OF assms(2)] by (auto simp: registry_inv_def)
  then have "\<not> is_some_and (rd_expires_at rec) (\<lambda>expiry. expiry \<le> now)"
    using assms(4-6) saturating_add64_less by (auto simp: record_issued_def is_some_and_iff not_le)
  then have "bt_get (rr_active (fst (purge_expired now r))) (er_ref_id e) = Some rec"
    using get_purge_expired [OF registry_inv_parts(1) [OF inv], of now "er_ref_id e"] assms(2) by simp
  moreover have "ref_validate_against e (rd_provenance rec) = Inr ()"
    using rec assms(3) by (auto simp: record_issued_def ref_matches_provenance_def ref_validate_against_def
        provenance_validate_def provenance_can_issue_refs_def)
  ultimately show ?thesis using assms(3) by (simp add: resolve_ref_def Let_def)
qed

text \<open>
  C21: The loops of issuing end. In any run the registry answers every request for a reference; when it
  grants one, the identity is a new one, the registry stays within its bounds, and the reference
  resolves at once with the snapshot it came from, as long as the configured lifetime is not zero.
\<close>

theorem issue_returns:
  assumes "ref_run (registry_new limits) h r" "rg_default_ttl limits \<noteq> Some 0"
  shows "\<exists>r' result. registry_issue_ref envelope frame_id element_key now r = Some (r', result)
    \<and> length (rr_active r') \<le> rg_max_active_refs limits \<and> length (rr_tombstones r') \<le> rg_max_tombstones limits
    \<and> (\<forall>e. result = Inr e \<longrightarrow> er_ref_id e \<notin> issue_id ` set h \<and> er_element_key e = element_key
         \<and> (now < - 1 \<longrightarrow> \<not> isl (snd (resolve_ref e frame_id (envelope_provenance envelope) now r'))))"
proof -
  note inv = run_new_inv [OF assms(1)]
  consider r' error where "registry_issue_ref envelope frame_id element_key now r = Some (r', Inl error)" "registry_inv limits h r'"
    | r' e rec where "registry_issue_ref envelope frame_id element_key now r = Some (r', Inr e)"
        "registry_inv limits (h @ [(e, envelope_provenance envelope, now)]) r'" "er_frame_id e = frame_id" "er_element_key e = element_key"
        "bt_get (rr_active r') (er_ref_id e) = Some rec" "rd_element_ref rec = e"
        "rd_provenance rec = envelope_provenance envelope" "rd_issued_at rec = now"
    using ref_issue_cases [OF inv, of envelope frame_id element_key now] by blast
  then show ?thesis
  proof cases
    case 1
    then show ?thesis by (auto simp: registry_inv_def tombstones_inv_def)
  next
    case 2
    have "er_ref_id e \<notin> issue_id ` set h" using 2(2) by (auto simp: registry_inv_def)
    moreover have "\<not> isl (snd (resolve_ref e frame_id (envelope_provenance envelope) now r'))" if "now < - 1"
      using resolve_fresh [OF 2(2,5,6,8) assms(2) that] 2(3,7) by simp
    ultimately show ?thesis using 2(1,2,4) by (auto simp: registry_inv_def tombstones_inv_def)
  qed
qed

section \<open>Witnesses\<close>

definition demo_ref_envelope :: snapshot_envelope where
  "demo_ref_envelope = demo_envelope\<lparr>sv_frame_versions := [(''frame_1'', 1)]\<rparr>"

lemma demo_ref_envelope_valid: "snapshot_invalid demo_ref_envelope = Inr ()"
proof -
  have "document_new 4 [demo_element ''element_a'' 1] = Inr \<lparr>sd_snapshot_version = 4,
      sd_elements = [demo_element ''element_a'' 1], sd_snapshot_hash = hash_elements [demo_element ''element_a'' 1]\<rparr>"
    by (simp add: document_new_Ok MAX_SNAPSHOT_ELEMENTS_def)
  then show ?thesis
    by (simp add: snapshot_invalid_def snapshot_validate_def validate_envelope_bounds_def validate_body_def validate_elements_body_def
      demo_ref_envelope_def demo_envelope_def SNAPSHOT_SCHEMA_VERSION_def provenance_validate_def envelope_provenance_def
      validate_canonical_keys_def can_issue_refs_def MAX_SNAPSHOT_ELEMENTS_def MAX_SNAPSHOT_FRAME_VERSIONS_def)
qed

definition demo_ref :: element_ref where
  "demo_ref = \<lparr>er_ref_id = ref_id_of 1, er_element_key = ''element_a'', er_space_id = ''space_1'', er_page_id = ''page_1'',
     er_frame_id = ''frame_1'', er_snapshot_version = 4, er_document_generation = 3, er_navigation_generation = 2,
     er_refs_epoch = 7\<rparr>"

lemma demo_issue:
  "\<exists>r. registry_issue_ref demo_ref_envelope ''frame_1'' ''element_a'' 10 (registry_new ref_limits_default) = Some (r, Inr demo_ref)"
proof -
  let ?r = "registry_new ref_limits_default" and ?p = "envelope_provenance demo_ref_envelope"
  have m: "make_ref demo_ref_envelope (ref_id_of 1) ''frame_1'' ''element_a'' = Inr demo_ref"
    using demo_ref_envelope_valid
    by (auto simp: make_ref_def snapshot_invalid_def demo_ref_envelope_def demo_envelope_def can_issue_refs_def demo_ref_def
        provenance_can_issue_refs_def envelope_provenance_def split: sum.splits)
  have a: "allocate_ref_id ?r = (?r\<lparr>rr_next_ref_number := 2\<rparr>, Inr (ref_id_of 1))"
    using allocate_first [OF registry_inv_new, of ref_limits_default] by (simp add: registry_new_def checked_add64_def)
  have f: "bt_contains (sv_frame_versions demo_ref_envelope) ''frame_1''" by (simp add: demo_ref_envelope_def bt_contains_def)
  have p: "provenance_can_issue_refs ?p" "ref_matches_provenance demo_ref ?p" "rg_max_active_refs (rr_limits ?r) \<noteq> 0"
    by (simp_all add: provenance_can_issue_refs_def envelope_provenance_def ref_matches_provenance_def demo_ref_def
        demo_ref_envelope_def demo_envelope_def registry_new_def ref_limits_default_def)
  have "registry_inv ref_limits_default [] (?r\<lparr>rr_next_ref_number := 2\<rparr>)"
    by (rule registry_inv_next [OF registry_inv_new]) (simp add: registry_new_def)
  from register_inv [OF this, of demo_ref 1 ?p 10] p
  obtain r' where "register demo_ref ?p 10 (?r\<lparr>rr_next_ref_number := 2\<rparr>) = Some (r', Inr ())"
    by (auto simp: demo_ref_def register_def)
  then show ?thesis using m a f demo_ref_envelope_valid by (simp add: registry_issue_ref_def issue_with_id_def)
qed

lemma demo_ref_run:
  "\<exists>r. ref_run (registry_new ref_limits_default) [(demo_ref, envelope_provenance demo_ref_envelope, 10)] r"
  using demo_issue ref_run.step [OF ref_run.start ref_step.issue] by fastforce

lemma demo_resolve:
  "\<exists>r r' rec. ref_run (registry_new ref_limits_default) [(demo_ref, envelope_provenance demo_ref_envelope, 10)] r
     \<and> resolve_ref demo_ref ''frame_1'' (envelope_provenance demo_ref_envelope) 10 r = (r', Inr rec)"
proof -
  let ?h = "[(demo_ref, envelope_provenance demo_ref_envelope, 10)]"
  obtain r where i: "registry_issue_ref demo_ref_envelope ''frame_1'' ''element_a'' 10 (registry_new ref_limits_default) = Some (r, Inr demo_ref)"
    using demo_issue by blast
  have run: "ref_run (registry_new ref_limits_default) ?h r"
    using ref_run.step [OF ref_run.start ref_step.issue [OF i]] by simp
  obtain rec where rec: "bt_get (rr_active r) (er_ref_id demo_ref) = Some rec" "rd_element_ref rec = demo_ref"
      "rd_provenance rec = envelope_provenance demo_ref_envelope" "rd_issued_at rec = 10" "er_frame_id demo_ref = ''frame_1''"
    using ref_issue_cases [OF registry_inv_new [of ref_limits_default], of demo_ref_envelope "''frame_1''" "''element_a''" 10] i by auto
  have "\<not> isl (snd (resolve_ref demo_ref ''frame_1'' (envelope_provenance demo_ref_envelope) 10 r))"
    using resolve_fresh [OF run_new_inv [OF run] rec(1,2,4)] rec(3,5) by (simp add: ref_limits_default_def)
  then obtain r' x where x: "resolve_ref demo_ref ''frame_1'' (envelope_provenance demo_ref_envelope) 10 r = (r', Inr x)"
    by (metis prod.exhaust_sel sum.collapse(2))
  then show ?thesis using run by blast
qed

theorem ref_resolves_exactly_witness:
  "\<exists>r r' rec. ref_run (registry_new ref_limits_default) [(demo_ref, envelope_provenance demo_ref_envelope, 10)] r
     \<and> resolve_ref demo_ref ''frame_1'' (envelope_provenance demo_ref_envelope) 10 r = (r', Inr rec)
     \<and> rd_element_ref rec = demo_ref"
  using demo_resolve ref_resolves_exactly by blast

theorem dead_ref_never_resolves_witness:
  "\<exists>r. ref_run (registry_new ref_limits_default) [(demo_ref, envelope_provenance demo_ref_envelope, 10)] r
     \<and> isl (snd (resolve_ref demo_ref ''frame_1'' (envelope_provenance demo_ref_envelope) 20
         (fst (invalidate_scope ''space_1'' ''page_1'' 15 r))))"
proof -
  obtain r where run: "ref_run (registry_new ref_limits_default) [(demo_ref, envelope_provenance demo_ref_envelope, 10)] r"
    using demo_ref_run by blast
  let ?r = "fst (invalidate_scope ''space_1'' ''page_1'' 15 r)"
  have run': "ref_run (registry_new ref_limits_default) [(demo_ref, envelope_provenance demo_ref_envelope, 10)] ?r"
    using ref_run.step [OF run ref_step.invalidate_matching] by (simp add: invalidate_scope_def)
  note inv = run_new_inv [OF run]
  have "in_scope ''space_1'' ''page_1'' rec" if "bt_get (rr_active r) (er_ref_id demo_ref) = Some rec" for rec
    using inv bt_get_in [OF that] by (auto simp: registry_inv_def record_issued_def in_scope_def demo_ref_def)
  then have "bt_get (rr_active ?r) (er_ref_id demo_ref) = None"
    using get_invalidate_matching [OF registry_inv_parts(1) [OF inv]] by (auto simp: invalidate_scope_def split: option.split)
  with dead_ref_never_resolves [OF run' ref_run.start, of demo_ref] run show ?thesis by auto
qed

theorem issue_returns_witness:
  "\<exists>r' result. registry_issue_ref demo_ref_envelope ''frame_1'' ''element_a'' 10 (registry_new ref_limits_default) = Some (r', result)
    \<and> length (rr_active r') \<le> 1024"
  using issue_returns [OF ref_run.start, of ref_limits_default demo_ref_envelope "''frame_1''" "''element_a''" 10]
  by (auto simp: ref_limits_default_def)

end
