(* ===== verification/Actionability.thy ===== *)
theory Actionability
  imports Refs Broker_Actions
begin

text \<open>
  The fail-closed checks before an element action (\<^verbatim>\<open>agentyc-host/src/actionability.rs\<close>), and the
  check the broker runs at admission, at dispatch and right before the bridge call
  (\<^verbatim>\<open>validate_actionability_for_state\<close> of \<^verbatim>\<open>broker.rs\<close>). The proof travels as JSON text in the payload of
  the request; what \<^verbatim>\<open>serde_json::from_str\<close> reads from a text is a parameter, \<open>action_json\<close>.
\<close>

section \<open>Action classes and evidence\<close>

datatype action_kind = KD_Click | KD_Input | KD_Select | KD_Scroll | KD_Focus | KD_Navigate | KD_Evaluate | KD_Close

definition requires_element_actionability :: "action_operation \<Rightarrow> bool" where
  "requires_element_actionability operation \<longleftrightarrow> operation \<in> {OP_Click, OP_Input, OP_Upload}"

fun kind_of_operation :: "action_operation \<Rightarrow> action_kind" where
  "kind_of_operation OP_Click = KD_Click"
| "kind_of_operation OP_Input = KD_Input"
| "kind_of_operation OP_Scroll = KD_Scroll"
| "kind_of_operation OP_Navigate = KD_Navigate"
| "kind_of_operation OP_Evaluate = KD_Evaluate"
| "kind_of_operation OP_Close = KD_Close"
| "kind_of_operation OP_Wait = KD_Evaluate"
| "kind_of_operation OP_Screenshot = KD_Evaluate"
| "kind_of_operation OP_StorageWrite = KD_Evaluate"
| "kind_of_operation OP_CookieWrite = KD_Evaluate"
| "kind_of_operation OP_Upload = KD_Evaluate"

record actionability_evidence =
  vd_connected :: "bool option"
  vd_visible :: "bool option"
  vd_disabled :: "bool option"
  vd_readonly :: "bool option"
  vd_covered :: "bool option"
  vd_overlay_present :: "bool option"
  vd_hit_target :: "bool option"
  vd_moving :: "bool option"
  vd_offscreen :: "bool option"
  vd_user_control :: "bool option"
  vd_target_generation :: "generation option"
  vd_navigation_generation :: "generation option"
  vd_document_generation :: "generation option"
  vd_snapshot_hash :: "content_hash option"

definition evidence_unknown :: actionability_evidence where
  "evidence_unknown = \<lparr>vd_connected = None, vd_visible = None, vd_disabled = None, vd_readonly = None, vd_covered = None,
     vd_overlay_present = None, vd_hit_target = None, vd_moving = None, vd_offscreen = None, vd_user_control = None,
     vd_target_generation = None, vd_navigation_generation = None, vd_document_generation = None, vd_snapshot_hash = None\<rparr>"

definition proven_interactive :: actionability_evidence where
  "proven_interactive = evidence_unknown\<lparr>vd_connected := Some True, vd_visible := Some True, vd_disabled := Some False,
     vd_readonly := Some False, vd_covered := Some False, vd_overlay_present := Some False, vd_hit_target := Some True,
     vd_moving := Some False, vd_offscreen := Some False, vd_user_control := Some False\<rparr>"

definition with_connected :: "bool \<Rightarrow> actionability_evidence \<Rightarrow> actionability_evidence" where
  "with_connected value evidence = evidence\<lparr>vd_connected := Some value\<rparr>"

definition with_visible :: "bool \<Rightarrow> actionability_evidence \<Rightarrow> actionability_evidence" where
  "with_visible value evidence = evidence\<lparr>vd_visible := Some value\<rparr>"

definition with_disabled :: "bool \<Rightarrow> actionability_evidence \<Rightarrow> actionability_evidence" where
  "with_disabled value evidence = evidence\<lparr>vd_disabled := Some value\<rparr>"

definition with_readonly :: "bool \<Rightarrow> actionability_evidence \<Rightarrow> actionability_evidence" where
  "with_readonly value evidence = evidence\<lparr>vd_readonly := Some value\<rparr>"

definition with_covered :: "bool \<Rightarrow> actionability_evidence \<Rightarrow> actionability_evidence" where
  "with_covered value evidence = evidence\<lparr>vd_covered := Some value\<rparr>"

definition with_overlay_present :: "bool \<Rightarrow> actionability_evidence \<Rightarrow> actionability_evidence" where
  "with_overlay_present value evidence = evidence\<lparr>vd_overlay_present := Some value\<rparr>"

definition with_hit_target :: "bool \<Rightarrow> actionability_evidence \<Rightarrow> actionability_evidence" where
  "with_hit_target value evidence = evidence\<lparr>vd_hit_target := Some value\<rparr>"

definition with_moving :: "bool \<Rightarrow> actionability_evidence \<Rightarrow> actionability_evidence" where
  "with_moving value evidence = evidence\<lparr>vd_moving := Some value\<rparr>"

definition with_offscreen :: "bool \<Rightarrow> actionability_evidence \<Rightarrow> actionability_evidence" where
  "with_offscreen value evidence = evidence\<lparr>vd_offscreen := Some value\<rparr>"

definition with_user_control :: "bool \<Rightarrow> actionability_evidence \<Rightarrow> actionability_evidence" where
  "with_user_control value evidence = evidence\<lparr>vd_user_control := Some value\<rparr>"

definition with_target_generation :: "generation \<Rightarrow> actionability_evidence \<Rightarrow> actionability_evidence" where
  "with_target_generation generation evidence = evidence\<lparr>vd_target_generation := Some generation\<rparr>"

definition evidence_with_generations ::
  "generation option \<Rightarrow> generation \<Rightarrow> generation \<Rightarrow> content_hash option \<Rightarrow> actionability_evidence \<Rightarrow> actionability_evidence" where
  "evidence_with_generations target_generation navigation_generation document_generation snapshot_hash evidence =
     evidence\<lparr>vd_target_generation := target_generation, vd_navigation_generation := Some navigation_generation,
       vd_document_generation := Some document_generation, vd_snapshot_hash := snapshot_hash\<rparr>"

section \<open>The checker\<close>

record actionability_proof =
  pf_action :: action_kind
  pf_ref_id :: opaque_id
  pf_space_id :: opaque_id
  pf_page_id :: opaque_id
  pf_frame_id :: opaque_id
  pf_snapshot_version :: snapshot_version
  pf_document_generation :: generation
  pf_navigation_generation :: generation
  pf_refs_epoch :: ref_epoch
  pf_snapshot_hash :: content_hash
  pf_target_generation :: "generation option"

definition require_bool :: "bool option \<Rightarrow> string \<Rightarrow> (core_error, unit) result" where
  "require_bool value message = reject_if (value \<noteq> Some True) (core_error_new EC_PermissionDenied message)"

definition check_provenance_evidence :: "snapshot_provenance \<Rightarrow> actionability_evidence \<Rightarrow> (core_error, unit) result" where
  "check_provenance_evidence p evidence =
     reject_if (vd_navigation_generation evidence \<noteq> Some (sp_navigation_generation p)
         \<or> vd_document_generation evidence \<noteq> Some (sp_document_generation p)
         \<or> vd_snapshot_hash evidence \<noteq> Some (sp_snapshot_hash p))
       (core_error_new EC_TargetReplaced ''actionability evidence is not bound to current snapshot provenance'')"

definition actionability_evidence_check :: "action_kind \<Rightarrow> actionability_evidence \<Rightarrow> (core_error, unit) result" where
  "actionability_evidence_check action evidence = checks (
     [reject_if (vd_user_control evidence \<noteq> Some False)
        (core_error_new (if vd_user_control evidence = Some True then EC_UserControlRequired else EC_PermissionDenied)
           ''user-control ownership is not proven safe''),
      require_bool (vd_connected evidence) ''connected element evidence is missing or false'',
      require_bool (vd_visible evidence) ''visible element evidence is missing or false'',
      require_bool (map_option Not (vd_disabled evidence)) ''enabled element evidence is missing or false'']
     @ (if action = KD_Input
        then [require_bool (map_option Not (vd_readonly evidence)) ''editable element evidence is missing or false''] else [])
     @ [require_bool (map_option Not (vd_moving evidence)) ''stable layout evidence is missing or false'',
        require_bool (map_option Not (vd_offscreen evidence)) ''in-viewport evidence is missing or false'']
     @ (if action \<in> {KD_Click, KD_Focus, KD_Select}
        then [require_bool (map_option Not (vd_covered evidence)) ''uncovered hit point is not proven'',
              require_bool (map_option Not (vd_overlay_present evidence)) ''overlay-free hit point is not proven'',
              require_bool (vd_hit_target evidence) ''hit-target evidence is missing or false'']
        else []))"

definition actionability_check_ref ::
  "action_kind \<Rightarrow> element_ref \<Rightarrow> opaque_id \<Rightarrow> snapshot_provenance \<Rightarrow> actionability_evidence
   \<Rightarrow> (core_error, actionability_proof) result" where
  "actionability_check_ref action e frame_id p evidence =
     and_then (reject_if (er_frame_id e \<noteq> frame_id)
       (stale_ref ''action ref frame does not match the exact requested frame'')) (\<lambda>_.
     and_then (ref_validate_against e p) (\<lambda>_.
     and_then (check_provenance_evidence p evidence) (\<lambda>_.
     and_then (actionability_evidence_check action evidence) (\<lambda>_.
     Ok \<lparr>pf_action = action, pf_ref_id = er_ref_id e, pf_space_id = er_space_id e, pf_page_id = er_page_id e,
         pf_frame_id = er_frame_id e, pf_snapshot_version = er_snapshot_version e,
         pf_document_generation = er_document_generation e, pf_navigation_generation = er_navigation_generation e,
         pf_refs_epoch = er_refs_epoch e, pf_snapshot_hash = sp_snapshot_hash p,
         pf_target_generation = vd_target_generation evidence\<rparr>))))"

definition check_with_target_generation ::
  "action_kind \<Rightarrow> element_ref \<Rightarrow> opaque_id \<Rightarrow> snapshot_provenance \<Rightarrow> generation \<Rightarrow> actionability_evidence
   \<Rightarrow> (core_error, actionability_proof) result" where
  "check_with_target_generation action e frame_id p expected evidence =
     and_then (actionability_check_ref action e frame_id p evidence) (\<lambda>proof.
     and_then (reject_if (vd_target_generation evidence \<noteq> Some expected)
       (core_error_new EC_TargetReplaced
          ''actionability evidence is not bound to the current target generation'')) (\<lambda>_.
     Ok (proof\<lparr>pf_target_generation := Some expected\<rparr>)))"

definition check_with_registry ::
  "action_kind \<Rightarrow> element_ref \<Rightarrow> opaque_id \<Rightarrow> snapshot_provenance \<Rightarrow> actionability_evidence \<Rightarrow> timestamp
   \<Rightarrow> ref_registry \<Rightarrow> ref_registry \<times> (core_error, actionability_proof) result" where
  "check_with_registry action e frame_id p evidence now r =
     (case registry_validate e frame_id p now r of
        (r', Inl error) \<Rightarrow> (r', Err error)
      | (r', Inr _) \<Rightarrow> (r', actionability_check_ref action e frame_id p evidence))"

definition check_operation ::
  "action_operation \<Rightarrow> element_ref \<Rightarrow> opaque_id \<Rightarrow> snapshot_provenance \<Rightarrow> actionability_evidence
   \<Rightarrow> (core_error, actionability_proof) result" where
  "check_operation operation = actionability_check_ref (kind_of_operation operation)"

definition verify_receipt ::
  "action_receipt \<Rightarrow> generation \<Rightarrow> content_hash option \<Rightarrow> (core_error, unit) result" where
  "verify_receipt receipt document_generation snapshot_hash =
     (case ar_postcondition receipt of
        None \<Rightarrow> Ok ()
      | Some postcondition \<Rightarrow> postcondition_verify postcondition document_generation snapshot_hash)"

definition postcondition_matches :: "postcondition \<Rightarrow> generation \<Rightarrow> content_hash option \<Rightarrow> bool" where
  "postcondition_matches postcondition document_generation snapshot_hash \<longleftrightarrow>
     \<not> isl (postcondition_verify postcondition document_generation snapshot_hash)"

section \<open>The envelope in the payload\<close>

definition ELEMENT_REF_PAYLOAD_KEY :: string where "ELEMENT_REF_PAYLOAD_KEY = ''element_ref''"

definition REF_PAYLOAD_KEY :: string where "REF_PAYLOAD_KEY = ''ref''"

definition PROVENANCE_PAYLOAD_KEY :: string where "PROVENANCE_PAYLOAD_KEY = ''provenance''"

definition ACTIONABILITY_PAYLOAD_KEY :: string where "ACTIONABILITY_PAYLOAD_KEY = ''actionability_evidence''"

definition EVIDENCE_PAYLOAD_KEY :: string where "EVIDENCE_PAYLOAD_KEY = ''evidence''"

definition FRAME_SCOPE_PAYLOAD_KEY :: string where "FRAME_SCOPE_PAYLOAD_KEY = ''frame_scope''"

record actionability_input =
  ai_element_ref :: element_ref
  ai_provenance :: snapshot_provenance
  ai_frame_id :: opaque_id
  ai_evidence :: actionability_evidence

text \<open>What \<^verbatim>\<open>serde_json::from_str\<close> answers for the three types, the error as its text.\<close>

record action_json =
  aj_element_ref :: "utext \<Rightarrow> (string, element_ref) result"
  aj_provenance :: "utext \<Rightarrow> (string, snapshot_provenance) result"
  aj_evidence :: "utext \<Rightarrow> (string, actionability_evidence) result"

definition parse_payload_json ::
  "(utext \<Rightarrow> (string, 'a) result) \<Rightarrow> payload \<Rightarrow> string \<Rightarrow> (core_error, 'a) result" where
  "parse_payload_json from_str payload key =
     (case bt_get payload (code_points key) of
        None \<Rightarrow> Err (invalid_argument (''action payload field '' @ key @ '' is required''))
      | Some value \<Rightarrow>
          if byte_len value > 65536 \<or> list_ex is_control value then
            Err (invalid_argument (''action payload field '' @ key @ '' is invalid or too large''))
          else case from_str value of
            Inl error \<Rightarrow> Err (invalid_argument (''action payload field '' @ key @ '' is not valid JSON: '' @ error))
          | Inr a \<Rightarrow> Ok a)"

definition or_else :: "('e, 'a) result \<Rightarrow> ('e, 'a) result \<Rightarrow> ('e, 'a) result" where
  "or_else a b = (case a of Inl _ \<Rightarrow> b | Inr x \<Rightarrow> Ok x)"

definition has_actionability_input :: "payload \<Rightarrow> bool" where
  "has_actionability_input payload \<longleftrightarrow> list_ex (\<lambda>key. bt_contains payload (code_points key))
     [ELEMENT_REF_PAYLOAD_KEY, REF_PAYLOAD_KEY, PROVENANCE_PAYLOAD_KEY, ACTIONABILITY_PAYLOAD_KEY, EVIDENCE_PAYLOAD_KEY,
      FRAME_SCOPE_PAYLOAD_KEY]"

text \<open>\<^verbatim>\<open>FrameId::from_str\<close>: the length bound counts bytes, every other check looks at ASCII characters.\<close>

definition parse_frame_id :: "utext \<Rightarrow> (id_error, opaque_id) result" where
  "parse_frame_id value =
     (if byte_len value > MAX_ID_LENGTH then Err (TooLong MAX_ID_LENGTH) else id_new FrameId (ascii_text value))"

definition frame_scope :: "payload \<Rightarrow> element_ref \<Rightarrow> (core_error, opaque_id) result" where
  "frame_scope payload e =
     (case bt_get payload (code_points FRAME_SCOPE_PAYLOAD_KEY) of
        None \<Rightarrow> Ok (er_frame_id e)
      | Some value \<Rightarrow>
          (case parse_frame_id value of
             Inl error \<Rightarrow> Err (stale_ref (''invalid logical frame scope: '' @ id_error_text error))
           | Inr frame_id \<Rightarrow> Ok frame_id))"

definition input_from_payload :: "action_json \<Rightarrow> payload \<Rightarrow> (core_error, actionability_input option) result" where
  "input_from_payload json payload =
     (if \<not> has_actionability_input payload then Ok None
      else
        and_then (or_else (parse_payload_json (aj_element_ref json) payload ELEMENT_REF_PAYLOAD_KEY)
          (parse_payload_json (aj_element_ref json) payload REF_PAYLOAD_KEY)) (\<lambda>e.
        and_then (parse_payload_json (aj_provenance json) payload PROVENANCE_PAYLOAD_KEY) (\<lambda>p.
        and_then (or_else (parse_payload_json (aj_evidence json) payload ACTIONABILITY_PAYLOAD_KEY)
          (parse_payload_json (aj_evidence json) payload EVIDENCE_PAYLOAD_KEY)) (\<lambda>evidence.
        and_then (frame_scope payload e) (\<lambda>frame_id.
        and_then (reject_if (er_frame_id e \<noteq> frame_id)
          (stale_ref ''action ref frame does not match the requested logical frame scope'')) (\<lambda>_.
        Ok (Some \<lparr>ai_element_ref = e, ai_provenance = p, ai_frame_id = frame_id, ai_evidence = evidence\<rparr>)))))))"

definition validate_for_page ::
  "actionability_input \<Rightarrow> action_operation \<Rightarrow> page_descriptor \<Rightarrow> content_hash option
   \<Rightarrow> (core_error, actionability_proof) result" where
  "validate_for_page input operation page current_snapshot_hash =
     (let e = ai_element_ref input; p = ai_provenance input; evidence = ai_evidence input
      in and_then (reject_if (er_space_id e \<noteq> p_space_id page \<or> sp_space_id p \<noteq> p_space_id page)
           (stale_ref ''action ref provenance does not match the current logical space'')) (\<lambda>_.
         and_then (reject_if (er_page_id e \<noteq> p_page_id page \<or> sp_page_id p \<noteq> p_page_id page)
           (stale_ref ''action ref provenance does not match the current logical page'')) (\<lambda>_.
         and_then (reject_if (sp_navigation_generation p \<noteq> p_navigation_generation page
             \<or> sp_document_generation p \<noteq> p_document_generation page
             \<or> er_navigation_generation e \<noteq> p_navigation_generation page
             \<or> er_document_generation e \<noteq> p_document_generation page)
           (core_error_new EC_TargetReplaced ''action ref is bound to an older page generation'')) (\<lambda>_.
         and_then (ok_or current_snapshot_hash
           (stale_ref ''current snapshot provenance is unavailable for action dispatch'')) (\<lambda>current.
         and_then (reject_if (current \<noteq> sp_snapshot_hash p)
           (core_error_new EC_TargetReplaced ''action ref is bound to an older snapshot'')) (\<lambda>_.
         and_then (reject_if (vd_target_generation evidence \<noteq> Some (p_target_generation page))
           (core_error_new EC_TargetReplaced
              ''actionability evidence is not bound to the current target generation'')) (\<lambda>_.
         check_with_target_generation (kind_of_operation operation) e (ai_frame_id input) p
           (p_target_generation page) evidence)))))))"

abbreviation proof_required :: core_error where
  "proof_required \<equiv> invalid_argument
     ''element mutation requires a complete ref, provenance, frame, and actionability proof''"

definition validate_request_actionability ::
  "action_json \<Rightarrow> ledger_request \<Rightarrow> page_descriptor \<Rightarrow> content_hash option \<Rightarrow> (core_error, unit) result" where
  "validate_request_actionability json q page current_snapshot_hash =
     and_then (input_from_payload json (aq_payload q)) (\<lambda>input.
     case input of
       None \<Rightarrow> reject_if (requires_element_actionability (aq_operation q)) proof_required
     | Some input \<Rightarrow>
         and_then (validate_for_page input (aq_operation q) page current_snapshot_hash) (\<lambda>_. Ok ()))"

section \<open>The check of the broker\<close>

text \<open>
  \<^verbatim>\<open>validate_actionability_for_state\<close>: \<open>actionability_target\<close> is its part that only reads, up to the page and
  the snapshot the request is about; the registry is consulted last and may expire or invalidate
  references, which stays when the ledger rolls its own state back.
\<close>

definition current_snapshot :: "ledger_state \<Rightarrow> opaque_id \<Rightarrow> opaque_id \<Rightarrow> snapshot_cache_record option" where
  "current_snapshot s space_id page_id =
     Option.bind (bt_get (lg_snapshots s) space_id) (\<lambda>pages. bt_get pages page_id)"

definition actionability_target ::
  "action_json \<Rightarrow> ledger_state \<Rightarrow> ledger_request \<Rightarrow> (core_error, actionability_input option) result" where
  "actionability_target json s q =
     and_then (input_from_payload json (aq_payload q)) (\<lambda>input.
     case input of
       None \<Rightarrow> and_then (reject_if (requires_element_actionability (aq_operation q)) proof_required) (\<lambda>_. Ok None)
     | Some input \<Rightarrow>
         and_then (ok_or (aq_page_id q)
           (invalid_argument ''typed actionability evidence requires a logical page'')) (\<lambda>page_id.
         and_then (ok_or (Option.bind (bt_get (lg_spaces s) (aq_space_id q)) (\<lambda>space. space_page space page_id))
           page_not_found) (\<lambda>page.
         and_then (ok_or (current_snapshot s (aq_space_id q) page_id)
           (stale_ref ''a current snapshot is required for action dispatch'')) (\<lambda>snapshot.
         and_then (validate_for_page input (aq_operation q) page (Some (sv_snapshot_hash (cr_envelope snapshot)))) (\<lambda>_.
         Ok (Some input))))))"

definition validate_actionability_for_state ::
  "action_json \<Rightarrow> ledger_state \<Rightarrow> ledger_request \<Rightarrow> timestamp \<Rightarrow> ref_registry
   \<Rightarrow> ref_registry \<times> (core_error, unit) result" where
  "validate_actionability_for_state json s q now r =
     (case actionability_target json s q of
        Inl error \<Rightarrow> (r, Err error)
      | Inr None \<Rightarrow> (r, Ok ())
      | Inr (Some input) \<Rightarrow>
          (let (r', result) = check_with_registry (kind_of_operation (aq_operation q)) (ai_element_ref input)
                 (ai_frame_id input) (ai_provenance input) (ai_evidence input) now r
           in (r', and_then result (\<lambda>_. Ok ()))))"

section \<open>What a successful check proves\<close>

text \<open>
  The facts a checked action needs, read off the documentation of the evidence: the element is
  attached, visible, enabled and still, inside the viewport and not under user control; typing needs an
  editable element, pointing needs the element itself at the hit point with nothing over it.
\<close>

definition interactive :: "action_kind \<Rightarrow> actionability_evidence \<Rightarrow> bool" where
  "interactive action v \<longleftrightarrow> vd_connected v = Some True \<and> vd_visible v = Some True \<and> vd_disabled v = Some False
     \<and> vd_moving v = Some False \<and> vd_offscreen v = Some False \<and> vd_user_control v = Some False
     \<and> (action = KD_Input \<longrightarrow> vd_readonly v = Some False)
     \<and> (action \<in> {KD_Click, KD_Focus, KD_Select} \<longrightarrow>
          vd_covered v = Some False \<and> vd_overlay_present v = Some False \<and> vd_hit_target v = Some True)"

definition evidence_current :: "snapshot_provenance \<Rightarrow> actionability_evidence \<Rightarrow> bool" where
  "evidence_current p v \<longleftrightarrow> vd_navigation_generation v = Some (sp_navigation_generation p)
     \<and> vd_document_generation v = Some (sp_document_generation p) \<and> vd_snapshot_hash v = Some (sp_snapshot_hash p)"

lemma require_bool_Ok: "require_bool value message = Inr () \<longleftrightarrow> value = Some True"
  by (simp add: require_bool_def)

lemma map_not_True [simp]: "map_option Not x = Some True \<longleftrightarrow> x = Some False"
  by (cases x) auto

lemma evidence_check_Ok: "actionability_evidence_check action v = Inr () \<longleftrightarrow> interactive action v"
  by (auto simp: actionability_evidence_check_def interactive_def require_bool_Ok)

lemma check_ref_Ok:
  "actionability_check_ref action e frame_id p v = Inr proof \<longleftrightarrow>
     er_frame_id e = frame_id \<and> ref_validate_against e p = Inr () \<and> evidence_current p v \<and> interactive action v
     \<and> proof = \<lparr>pf_action = action, pf_ref_id = er_ref_id e, pf_space_id = er_space_id e, pf_page_id = er_page_id e,
         pf_frame_id = er_frame_id e, pf_snapshot_version = er_snapshot_version e,
         pf_document_generation = er_document_generation e, pf_navigation_generation = er_navigation_generation e,
         pf_refs_epoch = er_refs_epoch e, pf_snapshot_hash = sp_snapshot_hash p,
         pf_target_generation = vd_target_generation v\<rparr>"
  by (auto simp: actionability_check_ref_def check_provenance_evidence_def evidence_current_def evidence_check_Ok)

lemma check_with_target_generation_iff:
  "(\<exists>pf. check_with_target_generation action e frame_id p expected v = Inr pf) \<longleftrightarrow>
     er_frame_id e = frame_id \<and> ref_validate_against e p = Inr () \<and> evidence_current p v \<and> interactive action v
     \<and> vd_target_generation v = Some expected"
  by (auto simp: check_with_target_generation_def check_ref_Ok)

definition proven_on :: "actionability_input \<Rightarrow> action_operation \<Rightarrow> page_descriptor \<Rightarrow> content_hash \<Rightarrow> bool" where
  "proven_on input operation page snapshot_hash \<longleftrightarrow>
     er_space_id (ai_element_ref input) = p_space_id page \<and> er_page_id (ai_element_ref input) = p_page_id page
     \<and> er_navigation_generation (ai_element_ref input) = p_navigation_generation page
     \<and> er_document_generation (ai_element_ref input) = p_document_generation page
     \<and> sp_snapshot_hash (ai_provenance input) = snapshot_hash
     \<and> vd_target_generation (ai_evidence input) = Some (p_target_generation page)
     \<and> evidence_current (ai_provenance input) (ai_evidence input)
     \<and> interactive (kind_of_operation operation) (ai_evidence input)"

lemma validate_for_page_iff:
  "(\<exists>pf. validate_for_page input operation page (Some h) = Inr pf) \<longleftrightarrow> proven_on input operation page h
     \<and> er_frame_id (ai_element_ref input) = ai_frame_id input
     \<and> ref_validate_against (ai_element_ref input) (ai_provenance input) = Inr ()"
  by (auto simp: validate_for_page_def Let_def proven_on_def check_with_target_generation_iff ref_validate_against_Ok)

lemma check_with_registry_Ok:
  "check_with_registry action e frame_id p v now r = (r', Inr proof) \<Longrightarrow>
     (\<exists>rec. resolve_ref e frame_id p now r = (r', Inr rec)) \<and> actionability_check_ref action e frame_id p v = Inr proof"
  by (auto simp: check_with_registry_def registry_validate_def split: prod.splits sum.splits)

lemma actionability_target_Ok:
  "actionability_target json s q = Inr (Some input) \<Longrightarrow>
     input_from_payload json (aq_payload q) = Inr (Some input) \<and> (\<exists>page_id space page snapshot. aq_page_id q = Some page_id
       \<and> bt_get (lg_spaces s) (aq_space_id q) = Some space \<and> space_page space page_id = Some page
       \<and> current_snapshot s (aq_space_id q) page_id = Some snapshot
       \<and> proven_on input (aq_operation q) page (sv_snapshot_hash (cr_envelope snapshot)))"
  using validate_for_page_iff [of input "aq_operation q"]
  by (fastforce simp: actionability_target_def bind_eq_Some_conv split: option.splits)

lemma actionability_target_None:
  "actionability_target json s q = Inr None \<Longrightarrow> \<not> requires_element_actionability (aq_operation q)"
  by (auto simp: actionability_target_def split: option.splits)

text \<open>An element mutation that passes the check names a reference of the registry and proves its target.\<close>

lemma validate_actionability_Ok:
  assumes run: "ref_run (registry_new limits) h r" and "requires_element_actionability (aq_operation q)"
    and ok: "validate_actionability_for_state json s q now r = (r', Inr ())"
  shows "\<exists>input page_id space page snapshot issued_at. input_from_payload json (aq_payload q) = Inr (Some input)
    \<and> aq_page_id q = Some page_id \<and> bt_get (lg_spaces s) (aq_space_id q) = Some space \<and> space_page space page_id = Some page
    \<and> current_snapshot s (aq_space_id q) page_id = Some snapshot
    \<and> proven_on input (aq_operation q) page (sv_snapshot_hash (cr_envelope snapshot))
    \<and> (ai_element_ref input, ai_provenance input, issued_at) \<in> set h
    \<and> (\<forall>ttl. rg_default_ttl limits = Some ttl \<longrightarrow> now < saturating_add64 issued_at ttl)"
proof -
  obtain input where target: "actionability_target json s q = Inr (Some input)"
    using ok actionability_target_None [of json s q] assms(2)
    by (auto simp: validate_actionability_for_state_def split: sum.splits option.splits)
  obtain pf where "check_with_registry (kind_of_operation (aq_operation q)) (ai_element_ref input)
      (ai_frame_id input) (ai_provenance input) (ai_evidence input) now r = (r', Inr pf)"
    using ok target by (auto simp: validate_actionability_for_state_def split: prod.splits)
  then obtain rec where "resolve_ref (ai_element_ref input) (ai_frame_id input) (ai_provenance input) now r = (r', Inr rec)"
    by (auto dest!: check_with_registry_Ok)
  then show ?thesis using resolve_issued [OF run] actionability_target_Ok [OF target] by blast
qed

end
