(* ===== verification/Snapshot_Updates.thy ===== *)
theory Snapshot_Updates
  imports Actionability
begin

text \<open>
  The transactions on the ledger behind the snapshot methods of the broker
  (\<^verbatim>\<open>crates/agentyc-host/src/broker.rs\<close>): the closures of \<^verbatim>\<open>issue_ref\<close>, \<^verbatim>\<open>read_snapshot\<close>, \<^verbatim>\<open>put_snapshot\<close> and
  \<^verbatim>\<open>mark_snapshot_dirty\<close>. The methods themselves, with the memory they share, are in \<open>Broker_Snapshots\<close>.
\<close>

section \<open>Issuing references\<close>

definition issue_ref_upd ::
  "opaque_id \<Rightarrow> opaque_id \<Rightarrow> authority_ticket \<Rightarrow> lease_epoch \<Rightarrow> timestamp \<Rightarrow> snapshot_envelope upd" where
  "issue_ref_upd space_id page_id authority lease_epoch now =
     upd_bind (upd_get (\<lambda>s. authorize_page s space_id page_id authority lease_epoch now False)) (\<lambda>generation.
     upd_bind (upd_get (\<lambda>s. core_ok_or (current_snapshot s space_id page_id)
       (stale_ref ''a clean snapshot is required before issuing an element ref''))) (\<lambda>record.
     upd_bind (upd_get (\<lambda>_. core_reject (cr_dirty record \<or> cr_generation record \<noteq> generation
         \<or> sv_navigation_generation (cr_envelope record) \<noteq> pg_navigation_generation generation
         \<or> sv_document_generation (cr_envelope record) \<noteq> pg_document_generation generation)
       (stale_ref ''snapshot provenance is stale; refresh before issuing an element ref''))) (\<lambda>_.
     upd_bind (upd_get (\<lambda>_. core_reject (\<not> can_issue_refs (cr_envelope record))
       (stale_ref ''partial, truncated, or resync snapshots cannot issue refs''))) (\<lambda>_.
     upd_ok (cr_envelope record)))))"

section \<open>Reading snapshots\<close>

definition cached_read :: "snapshot_envelope \<Rightarrow> snapshot_read" where
  "cached_read envelope =
     \<lparr>sr_envelope = envelope\<lparr>sv_cache_state := CA_Cached\<rparr>, sr_cache_state = CA_Cached, sr_scan_performed = False\<rparr>"

definition memory_hit :: "snapshot_envelope option \<Rightarrow> page_generation \<Rightarrow> snapshot_cache_record option \<Rightarrow> snapshot_envelope option" where
  "memory_hit representation generation record =
     Option.bind representation (\<lambda>envelope.
       if sv_navigation_generation envelope = pg_navigation_generation generation
          \<and> sv_document_generation envelope = pg_document_generation generation
          \<and> is_none_or record (\<lambda>record. \<not> cr_dirty record)
       then Some envelope else None)"

definition ledger_hit :: "page_generation \<Rightarrow> snapshot_cache_record option \<Rightarrow> snapshot_envelope option" where
  "ledger_hit generation record =
     Option.bind record (\<lambda>record.
       if \<not> cr_dirty record \<and> cr_generation record = generation then Some (cr_envelope record) else None)"

definition cached_read_upd ::
  "snapshot_envelope option \<Rightarrow> opaque_id \<Rightarrow> opaque_id \<Rightarrow> authority_ticket \<Rightarrow> lease_epoch \<Rightarrow> timestamp
   \<Rightarrow> snapshot_read option upd" where
  "cached_read_upd representation space_id page_id authority lease_epoch now =
     upd_bind (upd_get (\<lambda>s. authorize_page s space_id page_id authority lease_epoch now False)) (\<lambda>generation.
     upd_get (\<lambda>s. let record = current_snapshot s space_id page_id in Ok (
       case memory_hit representation generation record of
         Some envelope \<Rightarrow> Some (cached_read envelope)
       | None \<Rightarrow> map_option cached_read (ledger_hit generation record))))"

definition store_snapshot :: "snapshot_envelope \<Rightarrow> page_generation \<Rightarrow> ledger_state \<Rightarrow> ledger_state" where
  "store_snapshot envelope generation s = s\<lparr>lg_snapshots := bt_insert (sv_space_id envelope)
     (bt_insert (sv_page_id envelope) \<lparr>cr_envelope = envelope, cr_generation = generation, cr_dirty = False\<rparr>
        (bt_entry [] (lg_snapshots s) (sv_space_id envelope))) (lg_snapshots s)\<rparr>"

definition scan_admission ::
  "snapshot_envelope \<Rightarrow> page_generation \<Rightarrow> authority_ticket \<Rightarrow> lease_epoch \<Rightarrow> timestamp \<Rightarrow> ledger_state
   \<Rightarrow> (host_error, page_generation) result" where
  "scan_admission envelope generation authority lease_epoch now s =
     and_then (authorize_page s (sv_space_id envelope) (sv_page_id envelope) authority lease_epoch now False) (\<lambda>current.
     and_then (core_reject (current \<noteq> generation
         \<or> sv_navigation_generation envelope \<noteq> pg_navigation_generation current
         \<or> sv_document_generation envelope \<noteq> pg_document_generation current)
       (core_error_new EC_TargetReplaced ''page generation changed while snapshot was in flight'')) (\<lambda>_.
     Ok current))"

definition commit_scan_upd ::
  "snapshot_envelope \<Rightarrow> page_generation \<Rightarrow> authority_ticket \<Rightarrow> lease_epoch \<Rightarrow> timestamp \<Rightarrow> snapshot_read upd" where
  "commit_scan_upd envelope generation authority lease_epoch now =
     upd_bind (upd_get (scan_admission envelope generation authority lease_epoch now)) (\<lambda>current.
     upd_bind (upd_mod (store_snapshot (envelope\<lparr>sv_cache_state := CA_Fresh\<rparr>) current)) (\<lambda>_.
     upd_bind (append_event (scope_page (sv_space_id envelope) (sv_page_id envelope)) EK_SnapshotChanged
       (payload_of [(''cache_state'', ''fresh'')]) None False) (\<lambda>_.
     upd_ok \<lparr>sr_envelope = envelope, sr_cache_state = CA_Fresh, sr_scan_performed = True\<rparr>)))"

section \<open>Seeding and dirtying\<close>

definition put_admission ::
  "snapshot_envelope \<Rightarrow> authority_ticket \<Rightarrow> lease_epoch \<Rightarrow> timestamp \<Rightarrow> ledger_state \<Rightarrow> (host_error, page_generation) result" where
  "put_admission envelope authority lease_epoch now s =
     and_then (authorize_page s (sv_space_id envelope) (sv_page_id envelope) authority lease_epoch now False) (\<lambda>generation.
     and_then (core_reject (sv_navigation_generation envelope \<noteq> pg_navigation_generation generation
         \<or> sv_document_generation envelope \<noteq> pg_document_generation generation)
       (core_error_new EC_TargetReplaced ''snapshot generation does not match the page'')) (\<lambda>_.
     Ok generation))"

definition put_snapshot_upd ::
  "snapshot_envelope \<Rightarrow> authority_ticket \<Rightarrow> lease_epoch \<Rightarrow> timestamp \<Rightarrow> unit upd" where
  "put_snapshot_upd envelope authority lease_epoch now =
     upd_bind (upd_get (put_admission envelope authority lease_epoch now)) (\<lambda>generation.
     upd_mod (store_snapshot envelope generation))"

definition mark_snapshot_dirty_upd ::
  "opaque_id \<Rightarrow> opaque_id \<Rightarrow> authority_ticket \<Rightarrow> lease_epoch \<Rightarrow> timestamp \<Rightarrow> bool upd" where
  "mark_snapshot_dirty_upd space_id page_id authority lease_epoch now =
     upd_bind (upd_get (\<lambda>s. authorize_page s space_id page_id authority lease_epoch now False)) (\<lambda>_.
     upd_bind (upd_get (\<lambda>s. Ok (is_some (current_snapshot s space_id page_id)))) (\<lambda>changed.
     upd_bind (upd_mod (mark_snapshot_dirty_record space_id page_id)) (\<lambda>_.
     upd_ok changed)))"

end
