(* ===== verification/Broker_Fencing.thy ===== *)
theory Broker_Fencing
  imports Broker_Events Bridge_Updates Snapshot_Updates
begin

text \<open>
  Fencing across the whole broker. The critical sections of the methods are the rules of one step
  relation on the durable state, with commits and restarts; any interleaving of methods is a path of
  it. Along such a path the lease epoch of a space only grows and the identity of a removed space
  never comes back, so a lease epoch that was superseded once authorizes nothing any more.
\<close>

section \<open>Orders kept by transitions\<close>

definition keeps :: "(ledger_state \<Rightarrow> ledger_state \<Rightarrow> bool) \<Rightarrow> 'a upd \<Rightarrow> bool" where
  "keeps R f \<longleftrightarrow> (\<forall>s s' a. f s = Inr (s', a) \<longrightarrow> R s s')"

lemma keepsD: "keeps R f \<Longrightarrow> f s = Inr (s', a) \<Longrightarrow> R s s'"
  by (auto simp: keeps_def)

lemma keepsI: "(\<And>s s' a. f s = Inr (s', a) \<Longrightarrow> R s s') \<Longrightarrow> keeps R f"
  by (auto simp: keeps_def)

text \<open>At one state, where the checks that a transition makes first are known to hold.\<close>

definition keeps_at :: "(ledger_state \<Rightarrow> ledger_state \<Rightarrow> bool) \<Rightarrow> 'a upd \<Rightarrow> ledger_state \<Rightarrow> bool" where
  "keeps_at R f s \<longleftrightarrow> (\<forall>s' a. f s = Inr (s', a) \<longrightarrow> R s s')"

lemma keeps_at: "keeps R f \<longleftrightarrow> (\<forall>s. keeps_at R f s)"
  by (simp add: keeps_def keeps_at_def)

lemma keeps_atI: "(\<And>s' a. f s = Inr (s', a) \<Longrightarrow> R s s') \<Longrightarrow> keeps_at R f s"
  by (auto simp: keeps_at_def)

lemma keeps_at_get: "(\<And>c. h s = Inr c \<Longrightarrow> keeps_at R (g c) s) \<Longrightarrow> keeps_at R (upd_bind (upd_get h) g) s"
  by (auto simp: keeps_at_def upd_simps)

locale transition_order =
  fixes R :: "ledger_state \<Rightarrow> ledger_state \<Rightarrow> bool"
  assumes refl: "R s s"
    and trans: "R s t \<Longrightarrow> R t u \<Longrightarrow> R s u"
    and event: "append_event_with_attribution scope event pl dirty resync attribution s = Inr (s', r) \<Longrightarrow> R s s'"
begin

lemma keeps_ok [intro, simp]: "keeps R (upd_ok a)" "keeps R (upd_err e)" "keeps R (upd_get g)"
  by (auto simp: keeps_def upd_simps refl)

lemma keeps_bind [intro]: "keeps R f \<Longrightarrow> (\<And>a. keeps R (g a)) \<Longrightarrow> keeps R (upd_bind f g)"
  unfolding keeps_def upd_simps using trans by blast

lemma keeps_at_bind: "keeps_at R f s \<Longrightarrow> (\<And>a. keeps R (g a)) \<Longrightarrow> keeps_at R (upd_bind f g) s"
  unfolding keeps_def keeps_at_def upd_simps using trans by blast

lemma keeps_mod: "(\<And>s. R s (m s)) \<Longrightarrow> keeps R (upd_mod m)"
  by (auto simp: keeps_def upd_simps)

lemma keeps_each [intro]: "(\<And>x. keeps R (f x)) \<Longrightarrow> keeps R (upd_each f xs)"
  by (induction xs) auto

lemma keeps_event [intro, simp]:
  "keeps R (append_event_with_attribution scope event pl dirty resync attribution)"
  "keeps R (append_event scope event pl dirty resync)"
proof -
  show e: "keeps R (append_event_with_attribution scope event pl dirty resync attribution)" for attribution
    using event by (rule keepsI)
  show "keeps R (append_event scope event pl dirty resync)"
    unfolding append_event_def using e by (intro keeps_bind keeps_ok)
qed

lemma keeps_events [intro, simp]:
  "keeps R (lease_event k e st r)" "keeps R (space_event k l r)" "keeps R (action_event k a st r)"
  "keeps R (page_event k p items r)" "keeps R (dirty_action_event k a st r)"
  by (simp_all add: lease_event_def space_event_def action_event_def page_event_def dirty_action_event_def)

lemma keeps_if [intro]: "(b \<Longrightarrow> keeps R f) \<Longrightarrow> (\<not> b \<Longrightarrow> keeps R g) \<Longrightarrow> keeps R (if b then f else g)"
  by simp

lemma keeps_option [intro]:
  "keeps R f \<Longrightarrow> (\<And>x. keeps R (g x)) \<Longrightarrow> keeps R (case v of None \<Rightarrow> f | Some x \<Rightarrow> g x)"
  by (cases v) auto

end

section \<open>Leases\<close>

text \<open>
  \<open>leases_kept\<close>: no space appears, and the lease of a space that stays does not go back to a smaller
  epoch.
\<close>

definition lease_le :: "lease option \<Rightarrow> lease option \<Rightarrow> bool" where
  "lease_le l l' \<longleftrightarrow> (\<forall>a. l = Some a \<longrightarrow> (\<exists>b. l' = Some b \<and> l_lease_epoch a \<le> l_lease_epoch b))"

definition leases_kept :: "ledger_state \<Rightarrow> ledger_state \<Rightarrow> bool" where
  "leases_kept s s' \<longleftrightarrow> lg_next_space_number s' = lg_next_space_number s \<and>
     (bt_wf (lg_spaces s) \<longrightarrow> bt_wf (lg_spaces s') \<and>
       (\<forall>k x'. bt_get (lg_spaces s') k = Some x' \<longrightarrow>
         (\<exists>x. bt_get (lg_spaces s) k = Some x \<and> lease_le (s_lease x) (s_lease x'))))"

lemma lease_le_refl [simp, intro]: "lease_le l l"
  by (auto simp: lease_le_def)

lemma lease_le_trans: "lease_le a b \<Longrightarrow> lease_le b c \<Longrightarrow> lease_le a c"
  by (fastforce simp: lease_le_def)

lemma lease_le_None [simp]: "lease_le None l"
  by (simp add: lease_le_def)

lemma leases_kept_same:
  "lg_spaces s' = lg_spaces s \<Longrightarrow> lg_next_space_number s' = lg_next_space_number s \<Longrightarrow> leases_kept s s'"
  by (auto simp: leases_kept_def)

interpretation lk: transition_order leases_kept
proof
  show "leases_kept s s" for s by (auto simp: leases_kept_def)
next
  fix s t u :: ledger_state
  assume "leases_kept s t" "leases_kept t u"
  then show "leases_kept s u"
    unfolding leases_kept_def by (intro conjI impI allI) (simp, simp, meson lease_le_trans)
next
  fix scope event pl dirty resync attribution s s' r
  assume "append_event_with_attribution scope event pl dirty resync attribution s = Inr (s', r)"
  then show "leases_kept s s'" by (intro leases_kept_same event_sel)
qed

lemma try_modify_space_leases:
  assumes "try_modify_space k f s = Inr (s', u)"
    and "\<And>x x'. bt_get (lg_spaces s) k = Some x \<Longrightarrow> f x = Inr x' \<Longrightarrow> lease_le (s_lease x) (s_lease x')"
  shows "leases_kept s s'"
  using assms by (auto simp: try_modify_space_def upd_simps leases_kept_def bt_get_insert bt_wf_insert
      split: if_splits)

lemma keeps_try_modify:
  "(\<And>x x'. f x = Inr x' \<Longrightarrow> lease_le (s_lease x) (s_lease x')) \<Longrightarrow> keeps leases_kept (try_modify_space k f)"
  by (auto intro!: keepsI try_modify_space_leases)

lemma keeps_modify: "(\<And>x. lease_le (s_lease x) (s_lease (f x))) \<Longrightarrow> keeps leases_kept (modify_space k f)"
  unfolding modify_space_def by (rule keeps_try_modify) auto

lemma keeps_modify_page [simp, intro]: "keeps leases_kept (modify_page k p f)"
  by (rule keepsI) (auto simp: modify_page_def upd_simps leases_kept_def bt_get_insert bt_wf_insert replace_page_def
      split: if_splits)

lemma with_lease_Ok [simp]: "with_lease m f x = Inr x' \<longleftrightarrow> (\<exists>l. s_lease x = Some l \<and> x' = x\<lparr>s_lease := Some (f l)\<rparr>)"
  by (auto simp: with_lease_def)

lemma bump_pages_Ok: "bump_pages x = Inr x' \<Longrightarrow> \<exists>ps. x' = x\<lparr>s_pages := ps\<rparr>"
  by (auto simp: bump_pages_def)

lemma push_warning_lease [simp]: "s_lease (push_warning w x) = s_lease x"
  by (simp add: push_warning_def Let_def)

lemma transition_receipt_Ok:
  "transition_receipt a f r s = Inr (s', u) \<longleftrightarrow>
     (\<exists>r' v. f r = (r', Inr v) \<and> s' = s\<lparr>lg_actions := bt_insert a r' (lg_actions s)\<rparr>)"
  by (auto simp: transition_receipt_def split: prod.splits sum.splits)

text \<open>The building blocks that leave the spaces alone.\<close>

lemma keeps_blocks [simp, intro]:
  "keeps leases_kept (transition_receipt a g r)" "keeps leases_kept (step_receipt a g)"
  "keeps leases_kept (drop_snapshots k)" "keeps leases_kept (drop_page_snapshot k p)"
  "keeps leases_kept (hold_lease k c)" "keeps leases_kept (open_fence k tok old new pr purpose)"
  "keeps leases_kept (pop_queue k)" "keeps leases_kept (prove_takeover k au e pending)"
proof -
  show t: "keeps leases_kept (transition_receipt a g r)" for a g r
    by (rule keepsI) (auto simp: transition_receipt_Ok intro: leases_kept_same)
  then show "keeps leases_kept (step_receipt a g)" unfolding step_receipt_def by blast
  show "keeps leases_kept (drop_snapshots k)" "keeps leases_kept (drop_page_snapshot k p)"
    "keeps leases_kept (hold_lease k c)" "keeps leases_kept (open_fence k tok old new pr purpose)"
    unfolding drop_snapshots_def drop_page_snapshot_def hold_lease_def open_fence_def
    by (rule lk.keeps_mod, rule leases_kept_same, simp_all split: option.split)+
  show "keeps leases_kept (pop_queue k)" "keeps leases_kept (prove_takeover k au e pending)"
    unfolding pop_queue_def prove_takeover_def
    by (intro lk.keeps_bind lk.keeps_ok lk.keeps_mod leases_kept_same; simp add: Let_def)+
qed

lemma keeps_cancel_queue [simp, intro]: "keeps leases_kept (cancel_queue k at)"
  unfolding cancel_queue_def cancel_queued_def
  by (intro lk.keeps_bind lk.keeps_ok lk.keeps_each lk.keeps_option lk.keeps_if lk.keeps_mod leases_kept_same
      keeps_blocks lk.keeps_events) simp_all

lemma keeps_interrupt_space [simp, intro]: "keeps leases_kept (interrupt_space k prefix e)"
  unfolding interrupt_space_def interrupt_running_def
  by (intro lk.keeps_bind lk.keeps_ok lk.keeps_each lk.keeps_option keeps_blocks lk.keeps_events)

text \<open>The transitions that only change pages, receipts, events or the state of a lease.\<close>

lemmas keep_rules = lk.keeps_bind lk.keeps_ok lk.keeps_each lk.keeps_option lk.keeps_if lk.keeps_event
  lk.keeps_events lk.keeps_mod keeps_try_modify keeps_modify keeps_modify_page keeps_blocks
  keeps_cancel_queue keeps_interrupt_space

lemma keeps_connections:
  "keeps leases_kept mark_degraded_upd" "keeps leases_kept (hello_upd env x nonce p ext)"
  "keeps leases_kept (disconnect_upd au)"
  unfolding mark_degraded_upd_def hello_upd_def admit_extension_def disconnect_upd_def
  by (intro keep_rules leases_kept_same; simp)+

lemma fence_for_rebind_lease: "lease_le (s_lease x) (s_lease (fence_for_rebind x))"
  by (cases "s_lease x") (auto simp: fence_for_rebind_def lease_le_def)

lemma keeps_rebind: "keeps leases_kept (mark_profile_rebind_required_upd observed)"
proof -
  have "leases_kept s (s\<lparr>lg_spaces := bt_map (\<lambda>k x. if rebind_required_space s observed k x
      then fence_for_rebind x else x) (lg_spaces s)\<rparr>)" for s
    by (auto simp: leases_kept_def bt_get_map fence_for_rebind_lease)
  then show ?thesis unfolding mark_profile_rebind_required_upd_def
    by (intro keep_rules) (auto intro: leases_kept_same)
qed

lemma keeps_lease_state:
  "keeps leases_kept (renew_lease_upd k au e now w)"
  "keeps leases_kept (set_fenced_space_lifecycle_upd k au e lc now)"
  "keeps leases_kept (retry_fence_upd k au e renewal)"
  "keeps leases_kept (finish_user_return_upd k au e1 e2 tok)"
  "keeps leases_kept (finish_fence_upd k au e tok ack err)"
  "keeps leases_kept (record_fence_warning_upd k w')"
  unfolding renew_lease_upd_def set_fenced_space_lifecycle_upd_def retry_fence_upd_def
    finish_user_return_upd_def finish_fence_upd_def record_fence_warning_upd_def fence_outcome_def
  by (intro keep_rules leases_kept_same;
      auto simp: lease_le_def Let_def split: if_splits option.splits)+

lemma keeps_pages:
  "keeps leases_kept (create_page_upd k au e label now)" "keeps leases_kept (bind_page_upd k p au e now f)"
  "keeps leases_kept (mark_page_lost_upd k p au e now)" "keeps leases_kept (begin_close_upd k p au e now)"
  "keeps leases_kept (finish_close_upd k p au e now g)"
  unfolding create_page_upd_def create_page_in_state_def bind_page_upd_def mark_page_lost_upd_def
    begin_close_upd_def finish_close_upd_def Let_def
  by (intro keep_rules leases_kept_same; auto split: if_splits)+

lemma keeps_finish:
  "keeps leases_kept (missing_cleanup_upd k au e now pages)" "keeps leases_kept (begin_finish_upd k au e now)"
  "keeps leases_kept (authorize_cleanup_upd k pr au e now)" "keeps leases_kept (finish_page_cleanup_upd k pr au e now)"
  "keeps leases_kept (record_cleanup_failure_upd k pr au e now err)"
  "keeps leases_kept (complete_finish_upd k au e now rp)" "keeps leases_kept (release_space_upd k au e now)"
  unfolding missing_cleanup_upd_def begin_finish_upd_def authorize_cleanup_upd_def finish_page_cleanup_upd_def
    record_cleanup_failure_upd_def complete_finish_upd_def release_space_upd_def Let_def
  by (intro keep_rules leases_kept_same; auto simp: lease_le_def split: if_splits)+

lemma keeps_actions:
  "keeps leases_kept (enqueue_upd actionable n q au now)" "keeps leases_kept (begin_dispatch_upd actionable a au e now)"
  "keeps leases_kept (recheck_dispatch_upd actionable a q au e now)"
  "keeps leases_kept (finish_dispatch_upd lc a q au out now)" "keeps leases_kept (begin_reconcile_upd a au e now)"
  "keeps leases_kept (finish_reconcile_upd lc a au e now res)"
proof -
  show "keeps leases_kept (enqueue_upd actionable n q au now)" "keeps leases_kept (finish_reconcile_upd lc a au e now res)"
    "keeps leases_kept (begin_reconcile_upd a au e now)"
    unfolding enqueue_upd_def finish_reconcile_upd_def begin_reconcile_upd_def
    by (intro keep_rules leases_kept_same; simp)+
  have c: "keeps leases_kept (complete_receipt a out now)" for out
    unfolding complete_receipt_def by (cases out) (auto intro!: keep_rules)
  show "keeps leases_kept (finish_dispatch_upd lc a q au out now)"
    unfolding finish_dispatch_upd_def
    by (intro keep_rules c leases_kept_same) (auto simp: mark_snapshot_dirty_record_def split: option.splits)
  show "keeps leases_kept (recheck_dispatch_upd actionable a q au e now)"
    unfolding recheck_dispatch_upd_def by (intro keep_rules) (auto intro!: keep_rules split: sum.split)
  show "keeps leases_kept (begin_dispatch_upd actionable a au e now)"
    unfolding begin_dispatch_upd_def
    by (intro lk.keeps_bind lk.keeps_ok) (auto intro!: keep_rules split: action_status.split sum.split)
qed

lemma keeps_events_shutdown:
  "keeps leases_kept (publish_event_upd au scope ev pl)" "keeps leases_kept (shutdown_upd now)"
  unfolding publish_event_upd_def shutdown_upd_def shutdown_running_def by (intro keep_rules)+

lemma keeps_reconcile_pages: "keeps leases_kept (reconcile_bridge_pages_upd records)"
proof -
  have r: "keeps leases_kept (reconcile_record r)" for r
  proof (rule keepsI)
    fix s s' c
    assume run: "reconcile_record r s = Inr (s', c)"
    show "leases_kept s s'"
    proof (cases "observed_target r")
      case None
      with run show ?thesis by (simp add: reconcile_record_def lk.refl)
    next
      case (Some t)
      obtain k p a n d where t: "t = (k, p, a, n, d)" by (cases t)
      let ?body = "upd_bind (modify_page k p (reconcile_page r a n d)) (\<lambda>_.
        upd_bind (upd_mod (\<lambda>s. s\<lparr>lg_snapshots := bt_insert k (bt_remove p (bt_entry [] (lg_snapshots s) k)) (lg_snapshots s)\<rparr>))
          (\<lambda>_. upd_ok [(k, p)]))"
      have "keeps leases_kept ?body" by (intro keep_rules leases_kept_same) simp_all
      with run show ?thesis
        by (auto simp: reconcile_record_def Some t lk.refl dest: keepsD split: option.splits if_splits)
    qed
  qed
  have "keeps leases_kept (reconcile_records records)" by (induction records) (auto intro!: keep_rules r)
  then show ?thesis unfolding reconcile_bridge_pages_upd_def
    by (intro lk.keeps_bind lk.keeps_each) (auto split: prod.split)
qed

lemma keeps_bridge_event: "keeps leases_kept (bridge_event_upd e attribution au)"
proof -
  have append: "keeps leases_kept (append_bridge_event e scope resync attribution)" for scope resync
    unfolding append_bridge_event_def by (intro keep_rules)
  have "leases_kept s s'" if "scoped_event_upd e attribution au s = Inr (s', u)" for s s' u
  proof -
    from scoped_event_Ok [OF that] show ?thesis
      by (fastforce simp: leases_kept_def event_plan_Ok bt_get_insert replace_page_def bt_wf_insert split: if_splits)
  qed
  then have "keeps leases_kept (scoped_event_upd e attribution au)" by (auto simp: keeps_def)
  moreover have "keeps leases_kept (global_event_upd e attribution)"
    unfolding global_event_upd_def by (intro lk.keeps_bind append lk.keeps_mod) (auto simp: leases_kept_def)
  ultimately show ?thesis unfolding bridge_event_upd_def by (intro lk.keeps_bind lk.keeps_if) auto
qed

lemma keeps_snapshots:
  "keeps leases_kept (issue_ref_upd k p au e now)" "keeps leases_kept (cached_read_upd rep k p au e now)"
  "keeps leases_kept (commit_scan_upd envelope gen au e now)" "keeps leases_kept (put_snapshot_upd envelope au e now)"
  "keeps leases_kept (mark_snapshot_dirty_upd k p au e now)"
  unfolding issue_ref_upd_def cached_read_upd_def commit_scan_upd_def put_snapshot_upd_def mark_snapshot_dirty_upd_def
  by (intro keep_rules leases_kept_same; simp add: store_snapshot_def mark_snapshot_dirty_record_def split: option.split)+

lemma forget_actions_sel [simp]:
  "lg_spaces (fold forget_action xs s) = lg_spaces s"
  "lg_next_space_number (fold forget_action xs s) = lg_next_space_number s"
proof -
  have one: "lg_spaces (forget_action x s) = lg_spaces s" "lg_next_space_number (forget_action x s) = lg_next_space_number s" for x s
    by (auto simp: forget_action_def split: option.split)
  show "lg_spaces (fold forget_action xs s) = lg_spaces s"
    "lg_next_space_number (fold forget_action xs s) = lg_next_space_number s"
    by (induction xs arbitrary: s) (simp_all add: one)
qed

lemma keeps_prune: "keeps leases_kept (prune_released_spaces_upd au n)"
proof -
  have "leases_kept s (s\<lparr>lg_action_queues := q, lg_spaces := bt_remove k (lg_spaces s), lg_profile_bindings := b,
      lg_snapshots := sn, lg_takeover_proofs := t, lg_events := e\<rparr>)" for s k q b sn t e
    by (auto simp: leases_kept_def bt_get_remove bt_wf_remove split: if_splits)
  then have "keeps leases_kept (prune_space k)" for k
    unfolding prune_space_def by (intro keep_rules) (auto intro: leases_kept_same)
  then show ?thesis unfolding prune_released_spaces_upd_def by (intro keep_rules)
qed

text \<open>The transitions that raise the epoch of a lease.\<close>

lemma next_lease_epoch_less: "next_lease_epoch e = Inr e' \<Longrightarrow> e < e' \<and> e' = e + 1"
  using checked_next_less [of e e'] checked_next_value [of e e']
  by (simp add: next_lease_epoch_def checked_next_def)

lemma grant_fenced_Ok:
  "grant_fenced au e w x = Inr x' \<Longrightarrow> s_lease x' = Some (lease_active (au_principal_id au) e (fst w) (snd w))
     \<and> s_lifecycle x' = SL_FencePending \<and> s_owner x' = au_principal_id au"
  by (auto simp: grant_fenced_def)

lemma try_modify_space_Ok:
  "try_modify_space k f s = Inr (s', u) \<longleftrightarrow> (\<exists>x x'. bt_get (lg_spaces s) k = Some x \<and> f x = Inr x'
     \<and> s' = s\<lparr>lg_spaces := bt_insert k x' (lg_spaces s)\<rparr>)"
  by (auto simp: try_modify_space_def upd_simps)

lemma keeps_at_modify:
  assumes "\<And>x x'. bt_get (lg_spaces s) k = Some x \<Longrightarrow> f x = Inr x' \<Longrightarrow> lease_le (s_lease x) (s_lease x')"
  shows "keeps_at leases_kept (try_modify_space k f) s"
  using assms by (intro keeps_atI) (erule try_modify_space_leases)

lemma keeps_acquire: "keeps leases_kept (acquire_lease_upd k au now w)"
  unfolding keeps_at acquire_lease_upd_def
proof (intro allI keeps_at_get, goal_cases)
  case (1 s _ _ x)
  then have x: "bt_get (lg_spaces s) k = Some x" by simp
  show ?case
  proof (cases "lease_is_live (s_lease x) now")
    case True
    then show ?thesis by (auto simp: keeps_at_def upd_simps lk.refl split: if_splits)
  next
    case False
    show ?thesis unfolding if_not_P [OF False] Let_def modify_space_def
    proof (intro keeps_at_get lk.keeps_at_bind keeps_at_modify, goal_cases)
      case (1 _ e y y')
      with x next_lease_epoch_less [of "lease_epoch_or_zero (s_lease x)" e] show ?case
        by (auto simp: lease_le_def lease_active_def lease_epoch_or_zero_def)
    qed (auto intro!: keep_rules leases_kept_same)
  qed
qed

text \<open>A fence is opened with the successor of the epoch that the space had.\<close>

lemma keeps_begin_return: "keeps leases_kept (begin_return_upd k au e now)"
  unfolding keeps_at begin_return_upd_def
proof (intro allI keeps_at_get lk.keeps_at_bind keeps_at_modify, goal_cases)
  case (1 s _ _ new tok x x')
  then obtain y l where "s_lease x = Some l" "l_lease_epoch l = e" "bump_pages y = Inr x'"
      "s_lease y = Some (l\<lparr>l_lease_epoch := new, l_state := LS_Fenced\<rparr>)"
    by (auto simp: authorize_space_Ok)
  with next_lease_epoch_less [of e new] 1(3) show ?case by (auto simp: lease_le_def dest!: bump_pages_Ok)
qed (auto intro!: keep_rules leases_kept_same)

lemma takeover_admission_Ok:
  "takeover_admission s k au = Inr l \<Longrightarrow> \<exists>x. bt_get (lg_spaces s) k = Some x \<and> s_lease x = Some l
     \<and> l_principal_id l = au_principal_id au \<and> (l_state l = LS_Active \<or> s_lifecycle x = SL_Orphaned \<and> l_state l = LS_Fenced)"
  by (auto simp: takeover_admission_def)

lemma control_admission_Ok:
  "control_admission s k ticket = Inr e \<Longrightarrow> \<exists>x l. bt_get (lg_spaces s) k = Some x \<and> s_lease x = Some l
     \<and> l_lease_epoch l = e \<and> s_lifecycle x = SL_UserOwned"
  by (auto simp: control_admission_def)

lemma keeps_begin_takeover: "keeps leases_kept (begin_takeover_upd k au now w)"
  unfolding keeps_at begin_takeover_upd_def
proof (intro allI keeps_at_get lk.keeps_at_bind keeps_at_modify, goal_cases)
  case (1 s _ _ l new tok x x')
  with takeover_admission_Ok [of s k au l] next_lease_epoch_less [of "l_lease_epoch l" new] show ?case
    by (auto simp: lease_le_def lease_active_def dest!: grant_fenced_Ok)
qed (auto intro!: keep_rules leases_kept_same)

lemma keeps_begin_control: "keeps leases_kept (begin_control_takeover_upd k au ticket w)"
  unfolding keeps_at begin_control_takeover_upd_def
proof (intro allI keeps_at_get lk.keeps_at_bind keeps_at_modify, goal_cases)
  case (1 s _ _ e new tok x x')
  with control_admission_Ok [of s k ticket e] next_lease_epoch_less [of e new] show ?case
    by (auto simp: lease_le_def lease_active_def dest!: grant_fenced_Ok)
qed (auto intro!: keep_rules leases_kept_same)

section \<open>The broker as a state machine\<close>

text \<open>
  One rule per critical section of a method of the broker. A committed section becomes visible after
  the ledger has dropped old events; a failed one leaves the state as it was and is no step. A restart
  reads the durable part of the state back.
\<close>

inductive section_step :: "ledger_state \<Rightarrow> ledger_state \<Rightarrow> bool" where
  mark_degraded: "mark_degraded_upd s = Inr (s', u) \<Longrightarrow> section_step s s'"
| hello: "hello_upd env x nonce p ext s = Inr (s', c) \<Longrightarrow> section_step s s'"
| disconnect: "disconnect_upd au s = Inr (s', u) \<Longrightarrow> section_step s s'"
| create_space: "create_space_upd au label rp s = Inr (s', d) \<Longrightarrow> section_step s s'"
| mark_rebind: "mark_profile_rebind_required_upd pr s = Inr (s', n) \<Longrightarrow> section_step s s'"
| acquire_lease: "acquire_lease_upd k au now w s = Inr (s', g) \<Longrightarrow> section_step s s'"
| renew_lease: "renew_lease_upd k au e now w s = Inr (s', g) \<Longrightarrow> section_step s s'"
| begin_return: "begin_return_upd k au e now s = Inr (s', f) \<Longrightarrow> section_step s s'"
| finish_user_return: "finish_user_return_upd k au e e' tok s = Inr (s', r) \<Longrightarrow> section_step s s'"
| record_fence_warning: "record_fence_warning_upd k m s = Inr (s', u) \<Longrightarrow> section_step s s'"
| begin_takeover: "begin_takeover_upd k au now w s = Inr (s', f) \<Longrightarrow> section_step s s'"
| begin_control_takeover: "begin_control_takeover_upd k au t w s = Inr (s', f) \<Longrightarrow> section_step s s'"
| finish_fence: "finish_fence_upd k au e tok ack err s = Inr (s', l) \<Longrightarrow> section_step s s'"
| set_lifecycle: "set_fenced_space_lifecycle_upd k au e lc now s = Inr (s', d) \<Longrightarrow> section_step s s'"
| retry_fence: "retry_fence_upd k au e ren s = Inr (s', q) \<Longrightarrow> section_step s s'"
| create_page: "create_page_upd k au e label now s = Inr (s', pg) \<Longrightarrow> section_step s s'"
| bind_page: "bind_page_upd k p au e now bnd s = Inr (s', pg) \<Longrightarrow> section_step s s'"
| mark_page_lost: "mark_page_lost_upd k p au e now s = Inr (s', pg) \<Longrightarrow> section_step s s'"
| begin_close: "begin_close_upd k p au e now s = Inr (s', gen) \<Longrightarrow> section_step s s'"
| finish_close: "finish_close_upd k p au e now gen s = Inr (s', pg) \<Longrightarrow> section_step s s'"
| reconcile_pages: "reconcile_bridge_pages_upd recs s = Inr (s', u) \<Longrightarrow> section_step s s'"
| missing_cleanup: "missing_cleanup_upd k au e now pgs s = Inr (s', prs) \<Longrightarrow> section_step s s'"
| begin_finish: "begin_finish_upd k au e now s = Inr (s', fin) \<Longrightarrow> section_step s s'"
| authorize_cleanup: "authorize_cleanup_upd k pr au e now s = Inr (s', u) \<Longrightarrow> section_step s s'"
| finish_cleanup: "finish_page_cleanup_upd k pr au e now s = Inr (s', u) \<Longrightarrow> section_step s s'"
| record_cleanup_failure: "record_cleanup_failure_upd k pr au e now err s = Inr (s', u) \<Longrightarrow> section_step s s'"
| complete_finish: "complete_finish_upd k au e now rp s = Inr (s', d) \<Longrightarrow> section_step s s'"
| release_space: "release_space_upd k au e now s = Inr (s', d) \<Longrightarrow> section_step s s'"
| prune: "prune_released_spaces_upd au n s = Inr (s', cnt) \<Longrightarrow> section_step s s'"
| enqueue: "enqueue_upd actionable mx q au now s = Inr (s', rc) \<Longrightarrow> section_step s s'"
| begin_dispatch: "begin_dispatch_upd actionable a au e now s = Inr (s', qo) \<Longrightarrow> section_step s s'"
| recheck_dispatch: "recheck_dispatch_upd actionable a q au e now s = Inr (s', u) \<Longrightarrow> section_step s s'"
| finish_dispatch: "finish_dispatch_upd hl a q au out now s = Inr (s', rc) \<Longrightarrow> section_step s s'"
| begin_reconcile: "begin_reconcile_upd a au e now s = Inr (s', rc) \<Longrightarrow> section_step s s'"
| finish_reconcile: "finish_reconcile_upd hl a au e now res s = Inr (s', rc) \<Longrightarrow> section_step s s'"
| publish_event: "publish_event_upd au sc ev pl s = Inr (s', er) \<Longrightarrow> section_step s s'"
| shutdown: "shutdown_upd now s = Inr (s', u) \<Longrightarrow> section_step s s'"
| bridge_event: "bridge_event_upd be at au s = Inr (s', u) \<Longrightarrow> section_step s s'"
| issue_ref: "issue_ref_upd k p au e now s = Inr (s', env) \<Longrightarrow> section_step s s'"
| cached_read: "cached_read_upd rep k p au e now s = Inr (s', rd) \<Longrightarrow> section_step s s'"
| commit_scan: "commit_scan_upd envl gen au e now s = Inr (s', sr) \<Longrightarrow> section_step s s'"
| put_snapshot: "put_snapshot_upd envl au e now s = Inr (s', u) \<Longrightarrow> section_step s s'"
| mark_snapshot_dirty: "mark_snapshot_dirty_upd k p au e now s = Inr (s', b) \<Longrightarrow> section_step s s'"

text \<open>What the serializer writes: the fields it skips have their defaults when the file is read back.\<close>

definition durable :: "ledger_state \<Rightarrow> ledger_state" where
  "durable s = s\<lparr>lg_active_connections := [], lg_used_connection_nonces := {}, lg_connection_principal_id := None,
     lg_connection_nonce := None, lg_connection_profile_binding_id := None, lg_lease_holders := [], lg_snapshots := []\<rparr>"

inductive broker_run :: "ledger_state \<Rightarrow> ledger_state \<Rightarrow> bool" for s0 where
  start: "broker_run s0 s0"
| commit: "broker_run s0 s \<Longrightarrow> section_step s s' \<Longrightarrow> broker_run s0 (retain_events n s')"
| restart: "broker_run s0 s \<Longrightarrow> restart_state (durable s) = Inr s' \<Longrightarrow> broker_run s0 s'"

text \<open>Every section but the creation of a space keeps the leases.\<close>

lemmas keeps_sections = keeps_connections keeps_rebind keeps_lease_state keeps_pages keeps_finish
  keeps_actions keeps_events_shutdown keeps_reconcile_pages keeps_prune keeps_acquire keeps_begin_return
  keeps_begin_takeover keeps_begin_control keeps_bridge_event keeps_snapshots

lemma section_step_keeps:
  "section_step s s' \<Longrightarrow> (\<exists>au label rp d. create_space_upd au label rp s = Inr (s', d)) \<or> leases_kept s s'"
  by (induction rule: section_step.induct) (blast dest: keepsD [rotated] intro: keeps_sections)+

lemma retain_events_sel [simp]:
  "lg_spaces (retain_events n s) = lg_spaces s" "lg_next_space_number (retain_events n s) = lg_next_space_number s"
  by (simp_all add: retain_events_def)

lemma restart_keeps:
  assumes "restart_state (durable s) = Inr s'"
  shows "leases_kept s s'"
proof -
  obtain epoch where "recover_after_restart (durable s\<lparr>lg_broker_epoch := epoch, lg_connection_epoch := 0,
       lg_connection_principal_id := None, lg_connection_nonce := None,
       lg_connection_profile_binding_id := None, lg_event_sequence := 0, lg_events := []\<rparr>) = Inr s'"
    (is "recover_after_restart ?s = _")
    using assms by (auto simp: restart_state_def)
  then obtain ks t where t: "try_fold recover_lost_space (?s\<lparr>lg_pending_fences := [], lg_takeover_proofs := [],
            lg_control_tickets := bt_map (\<lambda>_ ticket. ticket\<lparr>ct_broker_epoch := lg_broker_epoch ?s\<rparr>)
              (lg_control_tickets ?s), lg_spaces := bt_map (\<lambda>_. orphan_space) (lg_spaces ?s)\<rparr>) ks = Inr t"
    and s': "lg_spaces s' = lg_spaces t" "lg_next_space_number s' = lg_next_space_number t"
    by (auto simp: recover_after_restart_def Let_def)
  have "leases_kept s t"
  proof (rule try_fold_inv [OF t])
    show "leases_kept s (?s\<lparr>lg_pending_fences := [], lg_takeover_proofs := [],
            lg_control_tickets := bt_map (\<lambda>_ ticket. ticket\<lparr>ct_broker_epoch := lg_broker_epoch ?s\<rparr>)
              (lg_control_tickets ?s), lg_spaces := bt_map (\<lambda>_. orphan_space) (lg_spaces ?s)\<rparr>)"
      by (auto simp: leases_kept_def bt_get_map durable_def orphan_space_def fence_lease_def lease_le_def)
  next
    fix u k u'
    assume su: "leases_kept s u" and r: "recover_lost_space u k = Inr u'"
    have "leases_kept u u'"
      using r by (auto simp: recover_lost_space_def leases_kept_def bt_get_insert bt_wf_insert
          split: option.splits if_splits)
    with su show "leases_kept s u'" by (rule lk.trans)
  qed
  then show ?thesis using s' by (simp add: leases_kept_def)
qed

section \<open>Superseded epochs\<close>

text \<open>Identities of spaces are handed out once: every space has a number up to the counter.\<close>

definition space_id_of :: "nat \<Rightarrow> opaque_id" where
  "space_id_of n = id_prefix SpaceId @ ''space-'' @ show_nat n"

definition spaces_issued :: "ledger_state \<Rightarrow> bool" where
  "spaces_issued s \<longleftrightarrow> bt_wf (lg_spaces s) \<and>
     (\<forall>k x. bt_get (lg_spaces s) k = Some x \<longrightarrow> (\<exists>n \<le> unat (lg_next_space_number s). k = space_id_of n))"

lemma space_id_of_inj: "space_id_of m = space_id_of n \<longleftrightarrow> m = n"
  using arg_cong [of "show_nat m" "show_nat n" read_nat] by (auto simp: space_id_of_def read_show_nat)

lemma create_space_Ok:
  assumes "create_space_upd au label rp s = Inr (s', d)"
  shows "lg_next_space_number s' = lg_next_space_number s + 1"
    "unat (lg_next_space_number s') = Suc (unat (lg_next_space_number s))"
    "lg_spaces s' = bt_insert (space_id_of (unat (lg_next_space_number s'))) d (lg_spaces s)"
    "s_lease d = None"
proof -
  obtain n k t where n: "checked_add64 (lg_next_space_number s) 1 = Some n" and k: "space_number_id n = Inr k"
    and t: "create_space_in_state (au_principal_id au) k label rp (au_profile_binding_id au) (s\<lparr>lg_next_space_number := n\<rparr>) = Inr (s', d)"
    using assms by (auto simp: create_space_upd_def upd_simps)
  have kn: "k = space_id_of (unat n)"
    using k by (simp add: space_number_id_def from_suffix_Ok space_id_of_def)
  have "lg_next_space_number s' = n \<and> lg_spaces s' = bt_insert k d (lg_spaces s) \<and> s_lease d = None"
    using t by (auto simp: create_space_in_state_def Let_def upd_simps dest: append_event_sel(1) append_event_sel(7))
  then show "lg_next_space_number s' = lg_next_space_number s + 1"
    "unat (lg_next_space_number s') = Suc (unat (lg_next_space_number s))"
    "lg_spaces s' = bt_insert (space_id_of (unat (lg_next_space_number s'))) d (lg_spaces s)" "s_lease d = None"
    using kn checked_next_value [of "lg_next_space_number s" n] checked_next_Some [of "lg_next_space_number s" n] n
    by (simp_all add: checked_next_def)
qed

text \<open>The invariant of a run: what the lease of each space of the start has become.\<close>

definition superseded :: "ledger_state \<Rightarrow> ledger_state \<Rightarrow> bool" where
  "superseded s0 s \<longleftrightarrow> spaces_issued s \<and> lg_next_space_number s0 \<le> lg_next_space_number s \<and>
     (\<forall>k x0 x. bt_get (lg_spaces s0) k = Some x0 \<longrightarrow> bt_get (lg_spaces s) k = Some x \<longrightarrow>
       lease_le (s_lease x0) (s_lease x))"

lemma superseded_keeps:
  assumes "superseded s0 s" "leases_kept s s'"
  shows "superseded s0 s'"
proof -
  have b: "\<exists>x. bt_get (lg_spaces s) k = Some x \<and> lease_le (s_lease x) (s_lease x')"
    if "bt_get (lg_spaces s') k = Some x'" for k x'
    using that assms by (auto simp: superseded_def spaces_issued_def leases_kept_def)
  have n: "lg_next_space_number s' = lg_next_space_number s" and wf: "bt_wf (lg_spaces s')"
    using assms by (auto simp: superseded_def spaces_issued_def leases_kept_def)
  have "spaces_issued s'"
    using assms(1) b wf unfolding superseded_def spaces_issued_def n by meson
  moreover have "lease_le (s_lease x0) (s_lease x')"
    if "bt_get (lg_spaces s0) k = Some x0" "bt_get (lg_spaces s') k = Some x'" for k x0 x'
    using b [OF that(2)] that(1) assms(1) unfolding superseded_def by (blast intro: lease_le_trans)
  ultimately show ?thesis using assms(1) n unfolding superseded_def by auto
qed

lemma superseded_create:
  assumes "superseded s0 s" "create_space_upd au label rp s = Inr (s', d)" "spaces_issued s0"
  shows "superseded s0 s'"
proof -
  let ?n = "unat (lg_next_space_number s)" and ?n' = "unat (lg_next_space_number s')"
  note c = create_space_Ok [OF assms(2)]
  have wf: "bt_wf (lg_spaces s)" and le: "unat (lg_next_space_number s0) \<le> ?n"
    using assms(1) by (auto simp: superseded_def spaces_issued_def word_le_nat_alt)
  have get: "bt_get (lg_spaces s') k = (if k = space_id_of ?n' then Some d else bt_get (lg_spaces s) k)" for k
    using wf c(3) by (simp add: bt_get_insert)
  have "bt_get (lg_spaces s0) (space_id_of ?n') = None"
    using assms(3) le c(2) by (auto simp: spaces_issued_def space_id_of_inj)
  then have "lease_le (s_lease x0) (s_lease x)"
    if "bt_get (lg_spaces s0) k = Some x0" "bt_get (lg_spaces s') k = Some x" for k x0 x
    using that assms(1) by (auto simp: superseded_def get split: if_splits)
  moreover have "\<exists>n \<le> ?n'. k = space_id_of n" if x: "bt_get (lg_spaces s') k = Some x" for k x
  proof (cases "k = space_id_of ?n'")
    case False
    with x get assms(1) obtain n where "n \<le> ?n" "k = space_id_of n" by (auto simp: superseded_def spaces_issued_def)
    with c(2) show ?thesis by (intro exI [of _ n]) simp
  qed blast
  then have "spaces_issued s'" using wf c(3) by (simp add: spaces_issued_def bt_wf_insert)
  moreover have "lg_next_space_number s0 \<le> lg_next_space_number s'"
    using le c(2) by (simp add: word_le_nat_alt)
  ultimately show ?thesis unfolding superseded_def by blast
qed

lemma run_superseded:
  assumes "broker_run s0 s" "spaces_issued s0"
  shows "superseded s0 s"
  using assms
proof (induction rule: broker_run.induct)
  case start
  then show ?case by (auto simp: superseded_def)
next
  case (commit s s' n)
  then have "superseded s0 s'"
    using section_step_keeps [of s s'] superseded_keeps superseded_create by blast
  then show ?case by (simp add: superseded_def spaces_issued_def)
next
  case (restart s s')
  then show ?case using superseded_keeps restart_keeps by blast
qed

lemma superseded_rejects:
  assumes "superseded s0 s" "bt_get (lg_spaces s0) k = Some x0" "s_lease x0 = Some l0" "e < l_lease_epoch l0"
    and "bt_get (lg_spaces s) k = Some x" "s_lease x = Some l"
  shows "l_lease_epoch l \<noteq> e"
  using assms unfolding superseded_def lease_le_def by fastforce

lemma authorize_space_epoch:
  "authorize_space s k au e now mut = Inr u \<Longrightarrow>
     \<exists>x l. bt_get (lg_spaces s) k = Some x \<and> s_lease x = Some l \<and> l_lease_epoch l = e"
  by (auto simp: authorize_space_Ok)

lemma authorize_finish_epoch:
  "authorize_finish_claim s k au e now dr = Inr u \<Longrightarrow>
     \<exists>x l. bt_get (lg_spaces s) k = Some x \<and> s_lease x = Some l \<and> l_lease_epoch l = e"
  by (auto simp: authorize_finish_claim_def)

lemma authorize_release_epoch:
  "authorize_release_claim s k au e = Inr u \<Longrightarrow>
     \<exists>x l. bt_get (lg_spaces s) k = Some x \<and> s_lease x = Some l \<and> l_lease_epoch l = e"
  by (auto simp: authorize_release_claim_def)

lemma authorize_reconciliation_epoch:
  "authorize_reconciliation_authority s a au e now = Inr r \<Longrightarrow> bt_get (lg_actions s) a = Some r \<and>
     (\<exists>x l. bt_get (lg_spaces s) (ar_space_id r) = Some x \<and> s_lease x = Some l \<and> l_lease_epoch l = e)"
  by (auto simp: authorize_reconciliation_authority_def)

text \<open>
  C1: Fencing. Take any state of the broker in which a space has a lease, and any later state: after any
  interleaving of the critical sections of all methods, with failed and successful commits, and after
  restarts. No smaller epoch is accepted there: not for reading or mutating the space, not for a page,
  not for finishing or releasing the space, and not for reconciling one of its actions.
\<close>

theorem superseded_epoch_never_authorizes:
  assumes "spaces_issued s0" "broker_run s0 s"
    and "bt_get (lg_spaces s0) k = Some x0" "s_lease x0 = Some l0" "e < l_lease_epoch l0"
  shows "isl (authorize_space s k au e now mutation) \<and> isl (authorize_page s k p au e now mutation)
    \<and> isl (authorize_finish_claim s k au e now draining) \<and> isl (authorize_release_claim s k au e)
    \<and> (\<forall>a r. bt_get (lg_actions s) a = Some r \<and> ar_space_id r = k \<longrightarrow>
         isl (authorize_reconciliation_authority s a au e now))"
proof -
  note reject = superseded_rejects [OF run_superseded [OF assms(2,1)] assms(3-5)]
  have fail: "isl r" if "\<And>u. r \<noteq> Inr u" for r :: "(host_error, 'z) result"
    using that by (cases r) auto
  have space: "authorize_space s k au e now mutation \<noteq> Inr u" for mutation u
    using reject authorize_space_epoch [of s k au e now mutation] by blast
  then have "isl (authorize_page s k p au e now mutation)"
    by (intro fail notI) (auto simp: authorize_page_def)
  moreover have "isl (authorize_reconciliation_authority s a au e now)"
    if "bt_get (lg_actions s) a = Some r" "ar_space_id r = k" for a r
    using reject that authorize_reconciliation_epoch [of s a au e now] by (intro fail notI) fastforce
  ultimately show ?thesis
    using reject space authorize_finish_epoch [of s k au e now draining] authorize_release_epoch [of s k au e]
    by (intro conjI allI impI) (blast intro: fail)+
qed

section \<open>The methods are sequences of sections\<close>

text \<open>
  A method runs sections only, and it leaves the event router to the synchronization after each
  section: a resynchronization that the router requires stays required.
\<close>

abbreviation resync_due :: "broker \<Rightarrow> bool" where
  "resync_due b \<equiv> rt_resync_required (br_router b)"

definition sectional :: "'a broker_op \<Rightarrow> bool" where
  "sectional op \<longleftrightarrow> (\<forall>b. broker_run (br_state b) (br_state (fst (op b))) \<and> (resync_due b \<longrightarrow> resync_due (fst (op b))))"

lemma ingest_keeps_resync: "rt_resync_required r \<Longrightarrow> rt_resync_required (fst (ingest r e))"
  using ingest_paused [of r e] by auto

lemma ingest_all_keeps_resync: "rt_resync_required r \<Longrightarrow> rt_resync_required (ingest_all es r)"
  unfolding ingest_all_def by (induction es arbitrary: r) (auto intro: ingest_keeps_resync)

lemma sync_keeps_resync: "rt_resync_required r \<Longrightarrow> rt_resync_required (sync_event_router r s)"
  by (simp add: sync_event_router_def request_resync_def ingest_all_keeps_resync)

lemma run_trans: "broker_run t u \<Longrightarrow> broker_run s t \<Longrightarrow> broker_run s u"
  by (induction rule: broker_run.induct) (auto intro: broker_run.intros)

lemma sectional_update:
  assumes "\<And>s s' a. f s = Inr (s', a) \<Longrightarrow> section_step s s'"
  shows "sectional (update_ledger js io f)"
  unfolding sectional_def
proof
  fix b
  have "broker_run (br_state b) (br_state (fst (update_ledger js io f b)))"
  proof (cases rule: ledger_update_cases [where js = js and io = io and f = "run_upd f" and l = "br_ledger b"])
    case (failed e)
    then show ?thesis by (simp add: update_ledger_def split_def start)
  next
    case (committed v s)
    then have "section_step (br_state b) s"
      using assms [of "br_state b" s v] by (auto simp: run_upd_def split: sum.splits prod.splits)
    with committed show ?thesis by (simp add: update_ledger_def split_def broker_run.commit [OF broker_run.start])
  qed
  then show "broker_run (br_state b) (br_state (fst (update_ledger js io f b)))
      \<and> (resync_due b \<longrightarrow> resync_due (fst (update_ledger js io f b)))"
    by (simp add: update_ledger_def split_def Let_def)
qed

lemma sectional_return [simp, intro]: "sectional (broker_return r)" "sectional (\<lambda>b. (b, r' b))"
  by (simp_all add: sectional_def broker_return_def start)

lemma sectional_guarded [intro]: "(\<And>c. sectional (f c)) \<Longrightarrow> sectional (guarded check f)"
  by (cases check) (simp_all add: sectional_def guarded_def start)

lemma sectional_checked [intro]: "(\<And>c. sectional (f c)) \<Longrightarrow> sectional (checked check f)"
  by (auto simp: sectional_def checked_def guarded_def start split: sum.split)

lemma sectional_next [intro]: "sectional f \<Longrightarrow> (\<And>a. sectional (g a)) \<Longrightarrow> sectional (and_next f g)"
  unfolding sectional_def and_next_def
  by (auto split: prod.split sum.split) (metis fst_conv run_trans)+

lemma sectional_inner [intro]: "sectional f \<Longrightarrow> sectional (with_inner f)"
  by (simp add: sectional_def with_inner_def split_def Let_def sync_keeps_resync)

lemma sectional_updates:
  assumes "\<And>s s' a. f s = Inr (s', a) \<Longrightarrow> section_step s s'"
  shows "sectional (with_update js io f)" "sectional (ready_update js io f)" "sectional (action_update js io f)"
  using sectional_update [of f js io] assms
  by (auto simp: with_update_def ready_update_def action_update_def)

lemma sectional_each [intro]: "(\<And>x. sectional (f x)) \<Longrightarrow> sectional (each_op f xs)"
  by (induction xs) auto

text \<open>The methods of the broker, each with any arguments and any answers of the bridge and the file system.\<close>

inductive broker_call :: "(broker \<Rightarrow> broker) \<Rightarrow> bool" where
  "broker_call (fst \<circ> transition_lifecycle lc)"
| "broker_call (fst \<circ> mark_degraded js io reason)"
| "broker_call (fst \<circ> hello js io epochs envelope)"
| "broker_call (fst \<circ> disconnect js io au)"
| "broker_call (fst \<circ> create_space_with_retention js io au label rp)"
| "broker_call (fst \<circ> mark_profile_rebind_required js io observed)"
| "broker_call (fst \<circ> acquire_lease js io k au now ttl)"
| "broker_call (fst \<circ> renew_lease js io k au e now ttl)"
| "broker_call (fst \<circ> return_control js io bridge k au e now)"
| "broker_call (fst \<circ> acknowledge_return_control js io bridge k au e)"
| "broker_call (fst \<circ> takeover js io bridge k au now ttl)"
| "broker_call (fst \<circ> takeover_with_control_ticket js io bridge k au ticket now ttl)"
| "broker_call (fst \<circ> broker_pause_space js io bridge k au now ttl)"
| "broker_call (fst \<circ> handoff_space js io bridge k au now ttl)"
| "broker_call (fst \<circ> acknowledge_fence js io bridge k au e)"
| "broker_call (fst \<circ> acknowledge_fence_with_ttl js io bridge k au e now ttl)"
| "broker_call (fst \<circ> create_page_at js io k au e label now)"
| "broker_call (fst \<circ> create_managed_page js io cbridge k au e label now)"
| "broker_call (fst \<circ> bind_page js io k p au e now url title frames)"
| "broker_call (fst \<circ> mark_page_lost js io k p au e now)"
| "broker_call (fst \<circ> close_page js io closed k p au e now)"
| "broker_call (fst \<circ> finish_space js io fbridge k au e now)"
| "broker_call (fst \<circ> release_space js io k au e now)"
| "broker_call (fst \<circ> prune_released_spaces js io au n)"
| "broker_call (fst \<circ> confirm_user_intent js q au now ttl number)"
| "broker_call (fst \<circ> enqueue_action js io actionable q au now)"
| "broker_call (fst \<circ> enqueue_action_with_user_intent js io actionable q au now it)"
| "broker_call (fst \<circ> dispatch_action js io actionable dbridge a au e now)"
| "broker_call (fst \<circ> execute_action js io actionable dbridge q au now)"
| "broker_call (fst \<circ> reconcile_action js io rec a au e now)"
| "broker_call (fst \<circ> take_artifact handle bytes au a art)"
| "broker_call (fst \<circ> publish_event js io au sc ev pl)"
| "broker_call (fst \<circ> shutdown js io now)"
| "broker_call (fst \<circ> with_inner (update_ledger js io (bridge_event_upd be at au)))"
| "broker_call (fst \<circ> with_inner (update_ledger js io (reconcile_bridge_pages_upd recs)))"
| "broker_call (fst \<circ> with_inner (update_ledger js io (issue_ref_upd k p au e now)))"
| "broker_call (fst \<circ> with_inner (update_ledger js io (cached_read_upd rep k p au e now)))"
| "broker_call (fst \<circ> with_inner (update_ledger js io (commit_scan_upd envl gen au e now)))"
| "broker_call (fst \<circ> with_inner (update_ledger js io (put_snapshot_upd envl au e now)))"
| "broker_call (fst \<circ> with_inner (update_ledger js io (mark_snapshot_dirty_upd k p au e now)))"

lemma sectional_call:
  "sectional op \<Longrightarrow> broker_run (br_state b) (br_state ((fst \<circ> op) b)) \<and> (resync_due b \<longrightarrow> resync_due ((fst \<circ> op) b))"
  by (simp add: sectional_def)

lemma sectional_connections:
  "sectional (transition_lifecycle lc)" "sectional (mark_degraded js io reason)"
  "sectional (hello js io epochs envelope)" "sectional (disconnect js io au)"
  "sectional (create_space_with_retention js io au label rp)"
  "sectional (mark_profile_rebind_required js io observed)"
  "sectional (acquire_lease js io k au now ttl)" "sectional (renew_lease js io k au e now ttl)"
proof -
  show "sectional (transition_lifecycle lc)"
    unfolding transition_lifecycle_def by (intro sectional_inner) (simp add: sectional_def start)
  have "broker_run (br_state b) (br_state (fst (update_ledger js io mark_degraded_upd b)))
      \<and> (resync_due b \<longrightarrow> resync_due (fst (update_ledger js io mark_degraded_upd b)))" for b
    using sectional_update [of mark_degraded_upd, OF section_step.mark_degraded] by (simp add: sectional_def)
  from this [of "b\<lparr>br_lifecycle := HL_Degraded reason\<rparr>" for b] show "sectional (mark_degraded js io reason)"
    unfolding mark_degraded_def by (intro sectional_inner) (simp add: sectional_def start)
  show "sectional (hello js io epochs envelope)"
    unfolding hello_def
    by (intro sectional_guarded sectional_inner sectional_next sectional_update) (erule section_step.hello, auto)
  show "sectional (disconnect js io au)" "sectional (mark_profile_rebind_required js io observed)"
    unfolding disconnect_def mark_profile_rebind_required_def
    by (rule sectional_updates, erule section_step.intros)+
  show "sectional (create_space_with_retention js io au label rp)" "sectional (acquire_lease js io k au now ttl)"
    "sectional (renew_lease js io k au e now ttl)"
    unfolding create_space_with_retention_def acquire_lease_def renew_lease_def
    by (rule sectional_guarded, rule sectional_updates, erule section_step.intros)+
qed

lemma sectional_fences:
  "sectional (return_control js io bridge k au e now)" "sectional (acknowledge_return_control js io bridge k au e)"
  "sectional (takeover js io bridge k au now ttl)"
  "sectional (takeover_with_control_ticket js io bridge k au ticket now ttl)"
  "sectional (broker_pause_space js io bridge k au now ttl)" "sectional (handoff_space js io bridge k au now ttl)"
  "sectional (acknowledge_fence js io bridge k au e)" "sectional (acknowledge_fence_with_ttl js io bridge k au e now ttl)"
proof -
  have w: "sectional (record_fence_warning js io k m)" for m
    unfolding record_fence_warning_def by (rule sectional_updates) (erule section_step.intros)
  have u: "sectional (finish_user_return js io k au e1 e2 tok)" for e1 e2 tok
    unfolding finish_user_return_def by (rule sectional_updates) (erule section_step.intros)
  have c: "sectional (complete_return js io bridge k au e1 e2 tok)" for e1 e2 tok
    unfolding complete_return_def by (auto intro!: sectional_next w u split: sum.split bool.split)
  have f: "sectional (finish_fence js io bridge k au e' tok)" for e' tok
  proof -
    have "sectional (and_next (with_update js io (finish_fence_upd k au e' tok ack err)) (\<lambda>lifecycle.
        broker_return (Ok \<lparr>tk_space_id = k, tk_lease_epoch = e', tk_fence_acknowledged = ack, tk_lifecycle = lifecycle\<rparr>)))" for ack err
      by (intro sectional_next sectional_updates sectional_return) (erule section_step.intros)
    then show ?thesis by (auto simp: sectional_def finish_fence_def Let_def split: prod.split)
  qed
  show "sectional (return_control js io bridge k au e now)"
    unfolding return_control_def
    by (intro sectional_next sectional_updates) (erule section_step.intros, auto intro: c)
  show "sectional (acknowledge_return_control js io bridge k au e)"
    unfolding acknowledge_return_control_def by (intro sectional_next sectional_inner sectional_checked sectional_return c)
  show t: "sectional (takeover js io bridge k au now ttl)"
    unfolding takeover_def
    by (intro sectional_guarded sectional_next sectional_updates) (erule section_step.intros, auto intro: f)
  show "sectional (takeover_with_control_ticket js io bridge k au ticket now ttl)"
    unfolding takeover_with_control_ticket_def
    by (intro sectional_guarded sectional_next sectional_updates) (erule section_step.intros, auto intro: f)
  have a: "sectional (after_takeover js io m lc k au now r)" for m lc r
    unfolding after_takeover_def by (intro sectional_guarded sectional_updates) (erule section_step.intros)
  show "sectional (broker_pause_space js io bridge k au now ttl)" "sectional (handoff_space js io bridge k au now ttl)"
    unfolding broker_pause_space_def handoff_space_def by (intro sectional_next t a)+
  have i: "sectional (acknowledge_fence_inner js io bridge k au e ren)" for ren
    unfolding acknowledge_fence_inner_def Let_def
    by (intro sectional_next sectional_inner sectional_checked sectional_update)
       (erule section_step.intros, auto intro!: sectional_next f u w split: sum.split bool.split)
  show "sectional (acknowledge_fence js io bridge k au e)" "sectional (acknowledge_fence_with_ttl js io bridge k au e now ttl)"
    unfolding acknowledge_fence_def acknowledge_fence_with_ttl_def by (intro sectional_guarded i)+
qed

lemma sectional_pages:
  "sectional (create_page_at js io k au e label now)" "sectional (create_managed_page js io cbridge k au e label now)"
  "sectional (bind_page js io k p au e now url title frames)" "sectional (mark_page_lost js io k p au e now)"
  "sectional (close_page js io closed k p au e now)"
proof -
  show c: "sectional (create_page_at js io k au e label now)"
    unfolding create_page_at_def by (intro sectional_guarded sectional_updates) (erule section_step.intros)
  have b: "sectional (bind_page_with_generations js io k p au e now url title frames t n d)" for p url title frames t n d
    unfolding bind_page_with_generations_def by (rule sectional_updates) (erule section_step.intros)
  then show "sectional (bind_page js io k p au e now url title frames)" unfolding bind_page_def .
  show "sectional (create_managed_page js io cbridge k au e label now)"
    unfolding create_managed_page_def
    by (intro sectional_next sectional_guarded sectional_inner sectional_checked sectional_return c b)
  show l: "sectional (mark_page_lost js io k p au e now)"
    unfolding mark_page_lost_def by (rule sectional_updates) (erule section_step.intros)
  have f: "sectional (with_update js io (finish_close_upd k p au e now g))" for g
    by (rule sectional_updates) (erule section_step.intros)
  have "sectional (\<lambda>b. (fst (mark_page_lost js io k p au e now b), Inl err))" for err :: host_error
    using l by (simp add: sectional_def)
  with f show "sectional (close_page js io closed k p au e now)"
    unfolding close_page_def
    by (intro sectional_next sectional_updates) (erule section_step.intros, auto split: sum.split)
qed

lemma sectional_finish:
  "sectional (finish_space js io fbridge k au e now)" "sectional (release_space js io k au e now)"
  "sectional (prune_released_spaces js io au n)"
proof -
  have r: "sectional (ready_update js io (finish_page_cleanup_upd k pr au e now))" for pr
    by (rule sectional_updates) (erule section_step.intros)
  have m: "sectional (reconcile_missing_cleanup_pages js io k au e now pgs)" for pgs
    unfolding reconcile_missing_cleanup_pages_def
    by (intro sectional_next sectional_updates sectional_each) (erule section_step.intros)+
  have "sectional (with_update js io (record_cleanup_failure_upd k pr au e now err))" for pr err
    by (rule sectional_updates) (erule section_step.intros)
  with r have c: "sectional (cleanup_one js io fbridge k au e now pr)" for pr
    unfolding cleanup_one_def Let_def
    by (intro sectional_next sectional_updates) (erule section_step.intros, auto intro!: sectional_guarded sectional_next split: sum.split)
  have d: "sectional (ready_update js io (complete_finish_upd k au e now rp))" for rp
    by (rule sectional_updates) (erule section_step.intros)
  have g: "sectional (ready_update js io (begin_finish_upd k au e now))"
    by (rule sectional_updates) (erule section_step.intros)
  show "sectional (finish_space js io fbridge k au e now)"
    unfolding finish_space_def
    by (intro sectional_checked sectional_guarded sectional_next m g) (auto intro!: sectional_next sectional_each c d)
  show "sectional (release_space js io k au e now)" "sectional (prune_released_spaces js io au n)"
    unfolding release_space_def prune_released_spaces_def
    by (auto intro!: sectional_updates intro: section_step.intros)
qed

lemma sectional_actions:
  "sectional (confirm_user_intent js q au now ttl number)" "sectional (enqueue_action_inner js io actionable q au now it)"
  "sectional (dispatch_action js io actionable dbridge a au e now)" "sectional (reconcile_action js io rec a au e now)"
  "sectional (take_artifact handle bytes au a art)"
proof -
  show "sectional (confirm_user_intent js q au now ttl number)"
    by (auto simp: sectional_def confirm_user_intent_def guarded_def checked_def with_inner_def Let_def start
        sync_keeps_resync split: sum.split)
  have e: "sectional (update_ledger js io (enqueue_upd actionable n q au now))" for n
    by (rule sectional_update) (erule section_step.intros)
  have k: "sectional (\<lambda>b. (case it of None \<Rightarrow> b
      | Some t \<Rightarrow> b\<lparr>br_user_intent_tickets := bt_remove (hi_token t) (br_user_intent_tickets b)\<rparr>, Inr r))" for r :: action_receipt
    by (simp add: sectional_def start split: option.split)
  have "sectional (and_next (update_ledger js io (enqueue_upd actionable n q au now)) (\<lambda>r b. (case it of None \<Rightarrow> b
      | Some t \<Rightarrow> b\<lparr>br_user_intent_tickets := bt_remove (hi_token t) (br_user_intent_tickets b)\<rparr>, Inr r)))" for n
    by (intro sectional_next e k)
  then have "sectional (\<lambda>b. and_next (update_ledger js io (enqueue_upd actionable
      (ll_max_queued_actions_per_space (ld_limits (br_ledger b))) q au now)) (\<lambda>r b. (case it of None \<Rightarrow> b
      | Some t \<Rightarrow> b\<lparr>br_user_intent_tickets := bt_remove (hi_token t) (br_user_intent_tickets b)\<rparr>, Inr r)) b)"
    by (simp add: sectional_def)
  then show "sectional (enqueue_action_inner js io actionable q au now it)"
    unfolding enqueue_action_inner_def by (intro sectional_guarded sectional_inner sectional_checked)
  have f: "sectional (\<lambda>b. update_ledger js io (finish_dispatch_upd (br_lifecycle b) a q' au out now) b)" for q' out
    using sectional_update [of "finish_dispatch_upd lc a q' au out now" js io for lc, OF section_step.finish_dispatch]
    by (simp add: sectional_def)
  have r: "sectional (dispatch_running js io actionable dbridge a au e now q')" for q'
    unfolding dispatch_running_def Let_def
    by (intro sectional_guarded sectional_next sectional_updates sectional_inner f)
       (erule section_step.intros, auto intro!: sectional_guarded)
  show "sectional (dispatch_action js io actionable dbridge a au e now)"
    unfolding dispatch_action_def
    by (intro sectional_next sectional_inner sectional_checked sectional_update)
       (erule section_step.intros, auto intro!: r sectional_inner sectional_checked sectional_guarded split: option.split)
  have "sectional (\<lambda>b. update_ledger js io (finish_reconcile_upd (br_lifecycle b) a au e now rec) b)"
    using sectional_update [of "finish_reconcile_upd lc a au e now rec" js io for lc, OF section_step.finish_reconcile]
    by (simp add: sectional_def)
  then show "sectional (reconcile_action js io rec a au e now)"
    unfolding reconcile_action_def
    by (intro sectional_checked sectional_next sectional_updates sectional_inner) (erule section_step.intros)
  show "sectional (take_artifact handle bytes au a art)"
    unfolding take_artifact_def by (intro sectional_guarded sectional_inner sectional_checked sectional_return)
qed

lemma sectional_execute:
  "sectional (enqueue_action js io actionable q au now)" "sectional (enqueue_action_with_user_intent js io actionable q au now t)"
  "sectional (execute_action js io actionable dbridge q au now)"
proof -
  show e: "sectional (enqueue_action js io actionable q au now)"
    "sectional (enqueue_action_with_user_intent js io actionable q au now t)"
    unfolding enqueue_action_def enqueue_action_with_user_intent_def by (rule sectional_actions)+
  show "sectional (execute_action js io actionable dbridge q au now)"
    unfolding execute_action_def by (intro sectional_next e) (simp add: sectional_actions)
qed

lemma sectional_events:
  "sectional (publish_event js io au sc ev pl)" "sectional (shutdown js io now)"
proof -
  show "sectional (publish_event js io au sc ev pl)"
    unfolding publish_event_def by (intro sectional_guarded sectional_updates) (erule section_step.intros)
  have "sectional (update_ledger js io (shutdown_upd now))" by (rule sectional_update) (erule section_step.intros)
  then have "sectional (and_next (update_ledger js io (shutdown_upd now)) (\<lambda>_ b. (b\<lparr>br_lifecycle := HL_Stopped\<rparr>, Inr ())))"
    by (rule sectional_next) (simp add: sectional_def start)
  then show "sectional (shutdown js io now)"
    unfolding shutdown_def by (intro sectional_inner) (simp add: sectional_def start)
qed

lemma sectional_snapshots:
  "sectional (with_inner (update_ledger js io (bridge_event_upd be at au)))"
  "sectional (with_inner (update_ledger js io (reconcile_bridge_pages_upd recs)))"
  "sectional (with_inner (update_ledger js io (issue_ref_upd k p au e now)))"
  "sectional (with_inner (update_ledger js io (cached_read_upd rep k p au e now)))"
  "sectional (with_inner (update_ledger js io (commit_scan_upd envl gen au e now)))"
  "sectional (with_inner (update_ledger js io (put_snapshot_upd envl au e now)))"
  "sectional (with_inner (update_ledger js io (mark_snapshot_dirty_upd k p au e now)))"
  by (intro sectional_inner sectional_update, erule section_step.intros)+

lemmas sectional_methods = sectional_snapshots sectional_connections sectional_fences sectional_pages sectional_finish
  sectional_actions sectional_execute sectional_events

lemma call_run: "broker_call f \<Longrightarrow> broker_run (br_state b) (br_state (f b)) \<and> (resync_due b \<longrightarrow> resync_due (f b))"
  by (induction rule: broker_call.induct) (rule sectional_call, rule sectional_methods)+

lemma calls_run:
  assumes "\<forall>f \<in> set fs. broker_call f"
  shows "broker_run (br_state b) (br_state (fold (\<lambda>f b. f b) fs b)) \<and> (resync_due b \<longrightarrow> resync_due (fold (\<lambda>f b. f b) fs b))"
  using assms
proof (induction fs arbitrary: b)
  case (Cons f fs)
  then show ?case using run_trans call_run [of f b] by (auto dest: run_trans)
qed (simp add: start)

section \<open>Opening a fence\<close>

lemma upd_bind_Ok:
  assumes "upd_bind f g s = Inr (s', a)"
  obtains t b where "f s = Inr (t, b)" "g b t = Inr (s', a)"
  using assms by (auto simp: upd_simps)

text \<open>What the later parts of a transition leave alone.\<close>

definition same_fence :: "opaque_id \<Rightarrow> ledger_state \<Rightarrow> ledger_state \<Rightarrow> bool" where
  "same_fence k s s' \<longleftrightarrow> lg_spaces s' = lg_spaces s \<and> (bt_wf (lg_actions s) \<longrightarrow> bt_wf (lg_actions s')) \<and>
     (bt_get (lg_action_queues s) k = None \<longrightarrow> bt_get (lg_action_queues s') k = None)
     \<and> lg_broker_epoch s' = lg_broker_epoch s"

interpretation sf: transition_order "same_fence k"
proof
  show "same_fence k s s" for s by (simp add: same_fence_def)
  show "same_fence k s t \<Longrightarrow> same_fence k t u \<Longrightarrow> same_fence k s u" for s t u by (auto simp: same_fence_def)
  show "append_event_with_attribution scope event pl dirty resync attribution s = Inr (s', r) \<Longrightarrow> same_fence k s s'"
    for scope event pl dirty resync attribution s s' r
    by (simp add: same_fence_def event_sel)
qed

definition running_within :: "opaque_id \<Rightarrow> opaque_id set \<Rightarrow> ledger_state \<Rightarrow> bool" where
  "running_within k A s \<longleftrightarrow> bt_wf (lg_actions s) \<and>
     (\<forall>a r. bt_get (lg_actions s) a = Some r \<longrightarrow> ar_space_id r = k \<longrightarrow> ar_status r = AS_Running \<longrightarrow> a \<in> A)"

lemma action_event_sel: "action_event k a st r s = Inr (s', u) \<Longrightarrow> lg_actions s' = lg_actions s"
  by (simp add: action_event_def append_event_sel)

lemma interrupt_running_Ok:
  assumes "interrupt_running k prefix e a s = Inr (s', u)" "running_within k (insert a A) s"
  shows "running_within k A s'"
proof (cases "bt_get (lg_actions s) a")
  case None
  then have "s' = s" using assms(1) by (auto simp: interrupt_running_def upd_simps)
  then show ?thesis using assms(2) None unfolding running_within_def by (metis insertE option.distinct(1))
next
  case (Some r)
  with assms(1) obtain tok r' v t where r': "mark_unknown r UR_FenceInterrupted tok = (r', Inr v)"
    and t: "t = s\<lparr>lg_actions := bt_insert a r' (lg_actions s)\<rparr>" and ev: "action_event k a ''unknown'' True t = Inr (s', u)"
    by (auto simp: interrupt_running_def upd_simps transition_receipt_Ok)
  have "ar_status r' = AS_Unknown" using r' by (auto simp: mark_unknown_def split: if_splits)
  then show ?thesis
    using assms(2) action_event_sel [OF ev] unfolding t running_within_def
    by (auto simp: bt_get_insert bt_wf_insert split: if_splits)
qed

lemma interrupt_each_Ok:
  "upd_each (interrupt_running k prefix e) as s = Inr (s', u) \<Longrightarrow> running_within k (set as) s \<Longrightarrow> running_within k {} s'"
proof (induction "as" arbitrary: s)
  case (Cons a as)
  then obtain t b where "interrupt_running k prefix e a s = Inr (t, b)" "upd_each (interrupt_running k prefix e) as t = Inr (s', u)"
    by (auto elim: upd_bind_Ok)
  then show ?case using Cons interrupt_running_Ok [of k prefix e a s t b "set as"] by simp
qed (simp add: upd_simps)

lemma interrupt_space_Ok:
  assumes "interrupt_space k prefix e s = Inr (s', u)" "bt_wf (lg_actions s)"
  shows "running_within k {} s'"
proof -
  have "upd_each (interrupt_running k prefix e) (map fst (filter (\<lambda>(_, r). ar_space_id r = k \<and> ar_status r = AS_Running)
      (lg_actions s))) s = Inr (s', u)"
    using assms(1) by (auto simp: interrupt_space_def upd_simps)
  moreover have "running_within k (set (map fst (filter (\<lambda>(_, r). ar_space_id r = k \<and> ar_status r = AS_Running)
      (lg_actions s)))) s"
    using assms(2) by (force simp: running_within_def dest: bt_get_in)
  ultimately show ?thesis by (rule interrupt_each_Ok)
qed

lemma sf_blocks [simp, intro]:
  "keeps (same_fence k) (transition_receipt a g r)" "keeps (same_fence k) (drop_snapshots k')"
  "keeps (same_fence k) (hold_lease k' c)" "keeps (same_fence k) (open_fence k' tok old new pr purpose)"
proof -
  show "keeps (same_fence k) (transition_receipt a g r)"
    by (rule keepsI) (auto simp: transition_receipt_Ok same_fence_def bt_wf_insert)
  show "keeps (same_fence k) (drop_snapshots k')" "keeps (same_fence k) (hold_lease k' c)"
    "keeps (same_fence k) (open_fence k' tok old new pr purpose)"
    unfolding drop_snapshots_def hold_lease_def open_fence_def
    by (intro sf.keeps_mod; simp add: same_fence_def)+
qed

lemmas sf_rules = sf.keeps_bind sf.keeps_ok sf.keeps_each sf.keeps_option sf.keeps_if sf.keeps_event
  sf.keeps_events sf_blocks

lemma cancel_queue_Ok:
  assumes "cancel_queue k at s = Inr (s', u)" "bt_wf (lg_action_queues s)"
  shows "same_fence k s s' \<and> bt_get (lg_action_queues s') k = None"
proof -
  let ?t = "s\<lparr>lg_action_queues := bt_remove k (lg_action_queues s)\<rparr>"
  have "upd_each (cancel_queued k at) (bt_entry [] (lg_action_queues s) k) ?t = Inr (s', u)"
    using assms(1) by (auto simp: cancel_queue_def upd_simps)
  moreover have "keeps (same_fence k) (upd_each (cancel_queued k at) xs)" for xs
    unfolding cancel_queued_def by (intro sf_rules)
  ultimately have "same_fence k ?t s'" by (blast dest: keepsD)
  then show ?thesis using assms(2) by (simp add: same_fence_def bt_get_remove)
qed

lemma keeps_sf_interrupt: "keeps (same_fence k) (interrupt_space k' prefix e)"
  unfolding interrupt_space_def interrupt_running_def by (intro sf_rules)

text \<open>What a fence leaves behind, once the space has its new epoch.\<close>

lemma fence_tail:
  assumes "cancel_queue k at s = Inr (s1, u1)" "interrupt_space k prefix new s1 = Inr (s2, u2)"
    and "open_fence k tok old new pr purpose s2 = Inr (s3, u3)" "lease_event k new st resync s3 = Inr (s4, u4)"
    and wf: "bt_wf (lg_actions s)" "bt_wf (lg_action_queues s)"
  shows "lg_spaces s4 = lg_spaces s" "bt_get (lg_action_queues s4) k = None" "running_within k {} s4"
proof -
  note c = cancel_queue_Ok [OF assms(1) wf(2)]
  note i = keepsD [OF keeps_sf_interrupt [of k] assms(2)]
  have o: "same_fence k s2 s3" and e: "same_fence k s3 s4"
    using keepsD [OF sf_blocks(4) assms(3)] keepsD [OF sf.keeps_events(1) assms(4)] by auto
  have "lg_actions s4 = lg_actions s2"
    using assms(3,4) by (auto simp: open_fence_def upd_simps lease_event_def dest: append_event_sel(2))
  moreover have "running_within k {} s2"
    using c wf(1) by (intro interrupt_space_Ok [OF assms(2)]) (auto simp: same_fence_def)
  ultimately show "running_within k {} s4" by (simp add: running_within_def)
  show "lg_spaces s4 = lg_spaces s" "bt_get (lg_action_queues s4) k = None"
    using c i o e by (auto simp: same_fence_def)
qed

definition fenced_off :: "opaque_id \<Rightarrow> lease_epoch \<Rightarrow> ledger_state \<Rightarrow> bool" where
  "fenced_off k new s \<longleftrightarrow> bt_get (lg_action_queues s) k = None \<and> running_within k {} s \<and>
     (\<exists>x l. bt_get (lg_spaces s) k = Some x \<and> s_lifecycle x = SL_FencePending \<and> s_lease x = Some l
        \<and> l_lease_epoch l = new)"

lemma fenced_offI:
  assumes "try_modify_space k f s = Inr (s1, u)" "bt_wf (lg_spaces s)"
    and "\<And>x x'. f x = Inr x' \<Longrightarrow> s_lifecycle x' = SL_FencePending \<and> (\<exists>l. s_lease x' = Some l \<and> l_lease_epoch l = new)"
    and "lg_spaces s2 = lg_spaces s1" "bt_get (lg_action_queues s2) k = None" "running_within k {} s2"
  shows "fenced_off k new s2"
  using assms by (auto simp: fenced_off_def try_modify_space_Ok bt_get_insert)

lemma begin_takeover_fences:
  assumes "begin_takeover_upd k au now w s = Inr (s', old, new, tok)"
    and "bt_wf (lg_spaces s)" "bt_wf (lg_actions s)" "bt_wf (lg_action_queues s)"
  shows "fenced_off k new s' \<and> (\<exists>x l. bt_get (lg_spaces s) k = Some x \<and> s_lease x = Some l
    \<and> old = Some (l_lease_epoch l) \<and> l_lease_epoch l < new \<and> new = l_lease_epoch l + 1)"
proof -
  from assms(1) obtain l t1 t2 t3 u1 u2 u3 u4 where l: "takeover_admission s k au = Inr l"
    and n: "next_lease_epoch (l_lease_epoch l) = Inr new" and old: "old = Some (l_lease_epoch l)"
    and t: "try_modify_space k (grant_fenced au new w) s = Inr (t1, u1)"
    and q: "cancel_queue k (Some now) (t1\<lparr>lg_snapshots := bt_remove k (lg_snapshots t1),
          lg_lease_holders := bt_insert k (au_connection_epoch au) (lg_lease_holders t1)\<rparr>) = Inr (t2, u2)"
    and i: "interrupt_space k ''fence'' new t2 = Inr (t3, u3)"
    and e: "\<exists>t4. open_fence k tok old new (au_principal_id au) FP_Takeover t3 = Inr (t4, ())
          \<and> lease_event k new ''fence_pending'' False t4 = Inr (s', u4)"
    unfolding begin_takeover_upd_def drop_snapshots_def hold_lease_def by (auto simp: upd_simps)
  obtain t4 where f: "open_fence k tok old new (au_principal_id au) FP_Takeover t3 = Inr (t4, ())"
    "lease_event k new ''fence_pending'' False t4 = Inr (s', u4)" using e by blast
  have wf: "lg_actions t1 = lg_actions s" "lg_action_queues t1 = lg_action_queues s"
    using t by (auto simp: try_modify_space_Ok)
  have "fenced_off k new s'"
    using fence_tail [OF q i f] assms(3,4) wf
    by (intro fenced_offI [OF t assms(2)]) (auto dest: grant_fenced_Ok simp: lease_active_def)
  then show ?thesis using takeover_admission_Ok [OF l] next_lease_epoch_less [OF n] old by auto
qed

lemma begin_return_fences:
  assumes "begin_return_upd k au e now s = Inr (s', old, new, tok)"
    and "bt_wf (lg_spaces s)" "bt_wf (lg_actions s)" "bt_wf (lg_action_queues s)"
  shows "fenced_off k new s' \<and> (\<exists>x l. bt_get (lg_spaces s) k = Some x \<and> s_lease x = Some l
    \<and> old = Some (l_lease_epoch l) \<and> l_lease_epoch l < new \<and> new = l_lease_epoch l + 1)"
proof -
  let ?f = "\<lambda>d. and_then (with_lease ''space has no active lease'' (\<lambda>l. l\<lparr>l_lease_epoch := new, l_state := LS_Fenced\<rparr>) d)
      (\<lambda>d. bump_pages (d\<lparr>s_lifecycle := SL_FencePending\<rparr>))"
  from assms(1) obtain v t1 t2 t3 u1 u2 u3 u4 where a: "authorize_space s k au e now True = Inr v"
    and n: "next_lease_epoch e = Inr new" and old: "old = Some e" and t: "try_modify_space k ?f s = Inr (t1, u1)"
    and q: "cancel_queue k (Some now) (t1\<lparr>lg_snapshots := bt_remove k (lg_snapshots t1)\<rparr>) = Inr (t2, u2)"
    and i: "interrupt_space k ''return'' new t2 = Inr (t3, u3)"
    and e: "\<exists>t4. open_fence k tok old new (au_principal_id au) FP_ReturnControl t3 = Inr (t4, ())
          \<and> lease_event k new ''fence_pending'' True t4 = Inr (s', u4)"
    unfolding begin_return_upd_def drop_snapshots_def by (auto simp: upd_simps)
  obtain t4 where f: "open_fence k tok old new (au_principal_id au) FP_ReturnControl t3 = Inr (t4, ())"
    "lease_event k new ''fence_pending'' True t4 = Inr (s', u4)" using e by blast
  have wf: "lg_actions t1 = lg_actions s" "lg_action_queues t1 = lg_action_queues s"
    using t by (auto simp: try_modify_space_Ok)
  have "fenced_off k new s'"
    using fence_tail [OF q i f] assms(3,4) wf
    by (intro fenced_offI [OF t assms(2)]) (auto dest!: bump_pages_Ok)
  then show ?thesis using authorize_space_epoch [OF a] next_lease_epoch_less [OF n] old by auto
qed

section \<open>A concrete broker\<close>

definition demo_authority :: authority_ticket where
  "demo_authority = \<lparr>au_principal_id = ''principal_p'', au_broker_epoch = 1, au_connection_epoch = 4,
     au_profile_binding_id = None, au_connection_nonce = ''nonce_a''\<rparr>"

definition demo_broker_state :: ledger_state where
  "demo_broker_state = (ledger_state_new 1)\<lparr>
     lg_next_space_number := 1, lg_connection_epoch := 4,
     lg_active_connections := [(4, \<lparr>ac_principal_id = ''principal_p'', ac_connection_nonce = ''nonce_a'',
       ac_profile_binding_id = None, ac_is_extension = False\<rparr>)],
     lg_lease_holders := [(space_id_of 1, 4)],
     lg_spaces := [(space_id_of 1, demo_space\<lparr>s_space_id := space_id_of 1, s_profile_binding := PF_Unbound\<rparr>)],
     lg_actions := [(''action_1'', (demo_action ''action_1'' ''idem_1'')
                      \<lparr>ar_space_id := space_id_of 1, ar_status := AS_Running, ar_dispatch_state := DS_Dispatched\<rparr>),
                    (''action_2'', (demo_action ''action_2'' ''idem_2'')\<lparr>ar_space_id := space_id_of 1\<rparr>)],
     lg_action_queues := [(space_id_of 1, [''action_2''])]\<rparr>"

lemmas demo_broker_defs = demo_broker_state_def demo_authority_def demo_ledger_defs

lemma demo_spaces_issued: "spaces_issued demo_broker_state"
  by (auto simp: spaces_issued_def demo_broker_defs bt_wf_def intro: exI [of _ 1])

theorem superseded_epoch_never_authorizes_witness:
  "broker_run demo_broker_state (retain_events 100 (demo_broker_state\<lparr>lg_active_connections := []\<rparr>)) \<and>
   isl (authorize_space (retain_events 100 (demo_broker_state\<lparr>lg_active_connections := []\<rparr>))
     (space_id_of 1) demo_authority 5 10 False)"
proof -
  let ?s = "demo_broker_state\<lparr>lg_active_connections := []\<rparr>"
  have "disconnect_upd demo_authority demo_broker_state = Inr (?s, ())"
    by (simp add: disconnect_upd_def upd_mod_def demo_broker_defs)
  then have run: "broker_run demo_broker_state (retain_events 100 ?s)"
    by (intro broker_run.commit [OF broker_run.start] section_step.disconnect)
  have "bt_get (lg_spaces demo_broker_state) (space_id_of 1)
      = Some (demo_space\<lparr>s_space_id := space_id_of 1, s_profile_binding := PF_Unbound\<rparr>)"
    by (simp add: demo_broker_defs)
  from superseded_epoch_never_authorizes [OF demo_spaces_issued run this, of "lease_active ''principal_p'' 6 100 50" 5] run
  show ?thesis by (simp add: demo_space_def lease_active_def)
qed

text \<open>
  Calls stay within the step relation. Whatever series of the calls of \<open>broker_call\<close> runs, with whatever
  arguments, whatever the bridge and the file system answer and whichever commits fail, the durable
  state afterwards is reached by committed critical sections.
\<close>

theorem methods_refine_sections:
  assumes "\<forall>f \<in> set fs. broker_call f"
  shows "broker_run (br_state b) (br_state (fold (\<lambda>f b. f b) fs b))"
  using calls_run [OF assms] by blast

definition demo_broker :: broker where
  "demo_broker = \<lparr>br_ledger = \<lparr>ld_state = demo_broker_state, ld_limits = ledger_limits_default, ld_disk = None\<rparr>,
     br_lifecycle = HL_Ready, br_capabilities = [CP_Action],
     br_router = event_router_from_ledger ledger_limits_default demo_broker_state,
     br_user_intent_tickets = []\<rparr>"

theorem methods_refine_sections_witness:
  "broker_run demo_broker_state (br_state (fold (\<lambda>f b. f b)
     [fst \<circ> renew_lease demo_js demo_io (space_id_of 1) demo_authority 6 10 100, fst \<circ> disconnect demo_js demo_io demo_authority,
      fst \<circ> shutdown demo_js demo_io 20] demo_broker))"
  using methods_refine_sections [of "[fst \<circ> renew_lease demo_js demo_io (space_id_of 1) demo_authority 6 10 100,
      fst \<circ> disconnect demo_js demo_io demo_authority, fst \<circ> shutdown demo_js demo_io 20]" demo_broker]
  by (simp add: broker_call.intros demo_broker_def)

section \<open>Resynchronization of the event router\<close>

lemma expired_seen_subset: "snd (expire_seen n order seen) \<subseteq> seen"
  by (induction n order seen rule: expire_seen.induct) (auto split: if_splits)

lemma ingest_seen: "rt_seen_event_ids (fst (ingest r e)) \<subseteq> insert (ev_event_id e) (rt_seen_event_ids r)"
proof (cases "takes r e")
  case True
  have "rt_seen_event_ids (noted r e) \<subseteq> insert (ev_event_id e) (rt_seen_event_ids r)"
    using expired_seen_subset [of "max (rl_max_events (rt_limits r)) 1" "rt_seen_event_order r @ [ev_event_id e]"
        "insert (ev_event_id e) (rt_seen_event_ids r)"]
    by (auto simp: noted_def remember_event_id_def Let_def split: prod.splits if_splits)
  with True show ?thesis by (auto simp: ingest_takes admit_event_noted require_resync_def Let_def split: prod.splits)
next
  case False
  then show ?thesis using ingest_refuses [of r e] by auto
qed

lemma ingest_resync_event:
  assumes "ev_resync_required e" "ev_event_id e \<notin> rt_seen_event_ids r"
  shows "rt_resync_required (fst (ingest r e))"
  using assms by (auto simp: ingest_def admit_event_noted require_resync_def Let_def split: option.splits prod.splits)

lemma ingest_all_resync_event:
  assumes "ev_resync_required e" "ev_event_id e \<notin> rt_seen_event_ids r \<union> ev_event_id ` set pre"
  shows "rt_resync_required (ingest_all (pre @ e # post) r)"
  using assms(2)
proof (induction pre arbitrary: r)
  case Nil
  then show ?case
    using ingest_all_keeps_resync [OF ingest_resync_event [OF assms(1)], of r post] by (simp add: ingest_all_def)
next
  case (Cons x pre)
  then have "ev_event_id e \<notin> rt_seen_event_ids (fst (ingest r x)) \<union> ev_event_id ` set pre"
    using ingest_seen [of r x] by auto
  from Cons.IH [OF this] show ?case by (simp add: ingest_all_def)
qed

lemma resume_resync:
  assumes "resync_due b" "resume_events au query b = Inr batch"
  shows "eb_result batch = RU_ResyncRequired \<and> eb_events batch = []"
proof -
  have "eb_result (replay (br_router b) after scope) = RU_ResyncRequired" "eb_events (replay (br_router b) after scope) = []" for after scope
    using assms(1) by (simp_all add: replay_def)
  with assms(2) show ?thesis by (auto simp: resume_events_def Let_def split: if_splits)
qed

text \<open>
  C7: A resynchronization of the event router is for good. When a critical section appends an event that
  asks for a resynchronization, then after it, whatever methods are called, every \<^verbatim>\<open>resume_events\<close> that
  is authorized answers that a resynchronization is required and returns no events, whatever cursor
  the client resumes from, even one taken after the event; only a new broker process starts with a
  fresh router.
\<close>

theorem resync_blocks_resume:
  assumes "op b = (b', result)"
    and "filter (\<lambda>e. ev_sequence e > rt_sequence (br_router b')) (lg_events (br_state b')) = pre @ e # post"
    and "ev_resync_required e" "ev_event_id e \<notin> rt_seen_event_ids (br_router b') \<union> ev_event_id ` set pre"
    and "\<forall>f \<in> set fs. broker_call f"
    and "resume_events au query (fold (\<lambda>f b. f b) fs (fst (with_inner op b))) = Inr batch"
  shows "eb_result batch = RU_ResyncRequired \<and> eb_events batch = []"
proof -
  have "resync_due (fst (with_inner op b))"
    using assms(1,2) ingest_all_resync_event [OF assms(3,4), of post]
    by (simp add: with_inner_def sync_event_router_def request_resync_def)
  then have "resync_due (fold (\<lambda>f b. f b) fs (fst (with_inner op b)))" using calls_run [OF assms(5)] by blast
  then show ?thesis using assms(6) by (rule resume_resync)
qed

definition demo_resync_event :: ledger_event where
  "demo_resync_event = \<lparr>ev_protocol = PROTOCOL_VERSION, ev_event_id = ''evt_1-1'', ev_broker_epoch = 1, ev_sequence = 1,
     ev_scope = scope_space (space_id_of 1), ev_event = EK_LeaseChanged,
     ev_generation = \<lparr>gw_space_generation = 1, gw_page_generation = 0, gw_navigation_generation = 0,
       gw_document_generation = 0, gw_snapshot_version = None,
       gw_metadata = Some (metadata_for_event EK_LeaseChanged attribution_broker)\<rparr>,
     ev_dirty_reason = None, ev_coalesced = False, ev_resync_required = True, ev_payload = []\<rparr>"

definition demo_resync_state :: ledger_state where
  "demo_resync_state = demo_broker_state\<lparr>lg_event_sequence := 1, lg_events := [demo_resync_event]\<rparr>"

definition demo_commit :: "unit broker_op" where
  "demo_commit b = (b\<lparr>br_ledger := (br_ledger b)\<lparr>ld_state := demo_resync_state\<rparr>\<rparr>, Inr ())"

theorem resync_blocks_resume_witness:
  "\<exists>batch. resume_events demo_authority \<lparr>eq_after = \<lparr>cu_broker_epoch = 1, cu_sequence = 1\<rparr>, eq_scope = None\<rparr>
     (fst (with_inner demo_commit demo_broker)) = Inr batch \<and> eb_result batch = RU_ResyncRequired"
proof -
  let ?q = "\<lparr>eq_after = \<lparr>cu_broker_epoch = 1, cu_sequence = 1\<rparr>, eq_scope = None\<rparr>"
  obtain b' where b': "demo_commit demo_broker = (b', Inr ())" by (simp add: demo_commit_def)
  have ev: "filter (\<lambda>e. ev_sequence e > rt_sequence (br_router b')) (lg_events (br_state b')) = [] @ demo_resync_event # []"
    "ev_event_id demo_resync_event \<notin> rt_seen_event_ids (br_router b') \<union> ev_event_id ` set []"
    using b' by (auto simp: demo_commit_def demo_broker_def event_router_from_ledger_def demo_resync_event_def demo_resync_state_def
        router_new_at_def ingest_all_def demo_broker_defs)
  have "authorize_ticket demo_resync_state demo_authority = Inr ()"
    by (simp add: authorize_ticket_Ok authority_is_current_def demo_broker_defs demo_resync_state_def)
  then have "\<exists>batch. resume_events demo_authority ?q (fst (with_inner demo_commit demo_broker)) = Inr batch"
    by (simp add: resume_events_def with_inner_def demo_commit_def Let_def)
  then obtain batch where r: "resume_events demo_authority ?q (fst (with_inner demo_commit demo_broker)) = Inr batch" ..
  then have "eb_result batch = RU_ResyncRequired"
    using resync_blocks_resume [of demo_commit demo_broker b' "Inr ()" "[]" demo_resync_event "[]" "[]" demo_authority ?q batch]
      b' ev by (simp add: demo_resync_event_def)
  with r show ?thesis by blast
qed

end
