(* ===== verification/Broker_Dispatch.thy ===== *)
theory Broker_Dispatch
  imports Broker_Fencing Actionability
begin

text \<open>
  Dispatch of queued actions: what the transactions of a dispatch leave behind when the browser state
  no longer admits the action.
\<close>

lemma update_ledger_fails:
  assumes "\<And>r. f (br_state b) \<noteq> Inr r"
  shows "br_state (fst (update_ledger js io f b)) = br_state b \<and> isl (snd (update_ledger js io f b))"
proof (cases rule: ledger_update_cases [where js = js and io = io and f = "run_upd f" and l = "br_ledger b"])
  case (failed e)
  then show ?thesis by (simp add: update_ledger_def split_def Let_def)
next
  case (committed v s)
  then show ?thesis using assms by (auto simp: run_upd_def split: sum.splits)
qed

lemma begin_dispatch_rejected:
  assumes "bt_get (lg_action_requests s) a = Some q" "bt_get (lg_actions s) a = Some r" "ar_status r = AS_Queued"
    and "isl (actionable s q)"
  shows "begin_dispatch_upd actionable a au e now s \<noteq> Inr v"
  using assms by (cases "actionable s q") (auto simp: begin_dispatch_upd_def upd_simps)

text \<open>
  C8: A queued action that is no longer actionable blocks its queue. The dispatch cancels the action and
  takes it off the queue, but inside a transaction that it then aborts with the reason; so the call
  fails and the ledger is as it was: the receipt is still queued, it is still at the head of the queue
  if it was, and the next dispatch of any other action of the space is refused.
\<close>

theorem rejected_action_stays_queued:
  assumes "bt_get (lg_action_requests (br_state b)) a = Some q" "bt_get (lg_actions (br_state b)) a = Some r"
    and "ar_status r = AS_Queued" "isl (actionable (br_state b) q)"
  shows "br_state (fst (dispatch_action js io actionable bridge a au e now b)) = br_state b
    \<and> isl (snd (dispatch_action js io actionable bridge a au e now b))"
proof -
  have f: "br_state (fst (update_ledger js io (begin_dispatch_upd actionable a au e now) b)) = br_state b
      \<and> isl (snd (update_ledger js io (begin_dispatch_upd actionable a au e now) b))"
    using update_ledger_fails [of "begin_dispatch_upd actionable a au e now" b js io] begin_dispatch_rejected [of "br_state b" a q r actionable au e now] assms by blast
  then obtain b' err where u: "update_ledger js io (begin_dispatch_upd actionable a au e now) b = (b', Inl err)" "br_state b' = br_state b"
    by (cases "update_ledger js io (begin_dispatch_upd actionable a au e now) b") (auto simp: isl_def)
  show ?thesis
    by (auto simp: dispatch_action_def and_next_def with_inner_def checked_def guarded_def u Let_def split: sum.splits option.splits)
qed

section \<open>The gate before the bridge call\<close>

definition state_actionable :: "action_json \<Rightarrow> timestamp \<Rightarrow> ref_registry \<Rightarrow> actionability_check" where
  "state_actionable json now r s q = snd (validate_actionability_for_state json s q now r)"

definition target_proven ::
  "action_json \<Rightarrow> issue list \<Rightarrow> ledger_state \<Rightarrow> ledger_request \<Rightarrow> bool" where
  "target_proven json h s q \<longleftrightarrow> (\<exists>input page_id space page snapshot issued_at.
     input_from_payload json (aq_payload q) = Inr (Some input) \<and> aq_page_id q = Some page_id
     \<and> bt_get (lg_spaces s) (aq_space_id q) = Some space \<and> space_page space page_id = Some page
     \<and> current_snapshot s (aq_space_id q) page_id = Some snapshot
     \<and> proven_on input (aq_operation q) page (sv_snapshot_hash (cr_envelope snapshot))
     \<and> (ai_element_ref input, ai_provenance input, issued_at) \<in> set h)"

lemma recheck_Ok:
  assumes "recheck_dispatch_upd actionable a q au e now s = Inr (s', u)"
  shows "authorize_space s (aq_space_id q) au e now True = Inr () \<and> actionable s q = Inr ()
    \<and> (\<exists>receipt. bt_get (lg_actions s) a = Some receipt \<and> ar_status receipt = AS_Running)"
  using assms by (auto simp: recheck_dispatch_upd_def upd_simps split: sum.splits)

lemma ready_update_rejected:
  assumes "f (br_state b) = Inl error"
  shows "isl (snd (ready_update js io f b))"
  using update_ledger_fails [of f b js io] assms
  by (auto simp: ready_update_def with_inner_def checked_def guarded_def split_def Let_def split: sum.splits)

lemma and_next_rejected: "isl (snd (f b)) \<Longrightarrow> and_next f k b = and_next f k' b"
  by (auto simp: and_next_def isl_def split: prod.splits sum.splits)


section \<open>Witnesses\<close>

definition demo_gate_page :: page_descriptor where
  "demo_gate_page = \<lparr>p_page_id = ''page_1'', p_space_id = ''space_1'', p_label = code_points ''page'', p_lifecycle = PL_Managed,
     p_ownership = PO_Agent, p_binding = PB_Bound, p_url = None, p_title = None, p_target_generation = 1,
     p_navigation_generation = 2, p_document_generation = 3, p_frame_count = 1, p_retained = False\<rparr>"

definition demo_gate_state :: ledger_state where
  "demo_gate_state = demo_broker_state\<lparr>
     lg_lease_holders := [(''space_1'', 4)],
     lg_spaces := [(''space_1'', demo_space\<lparr>s_space_id := ''space_1'', s_profile_binding := PF_Unbound, s_pages := [demo_gate_page]\<rparr>)],
     lg_snapshots := [(''space_1'', [(''page_1'', \<lparr>cr_envelope = demo_ref_envelope, cr_generation = generation_from_page demo_gate_page,
       cr_dirty = False\<rparr>)])]\<rparr>"

definition demo_gate_request :: ledger_request where
  "demo_gate_request = (demo_ledger_request ''action_1'' ''idem_1'')\<lparr>aq_page_id := Some ''page_1'',
     aq_payload := payload_of [(''ref'', ''{}''), (''provenance'', ''{}''), (''evidence'', ''{}'')]\<rparr>"

definition demo_gate_input :: actionability_input where
  "demo_gate_input = \<lparr>ai_element_ref = demo_ref, ai_provenance = envelope_provenance demo_ref_envelope,
     ai_frame_id = ''frame_1'',
     ai_evidence = evidence_with_generations (Some 1) 2 3 (Some (sv_snapshot_hash demo_ref_envelope)) proven_interactive\<rparr>"

definition demo_gate_json :: action_json where
  "demo_gate_json = \<lparr>aj_element_ref = \<lambda>_. Inr demo_ref, aj_provenance = \<lambda>_. Inr (ai_provenance demo_gate_input),
     aj_evidence = \<lambda>_. Inr (ai_evidence demo_gate_input)\<rparr>"

lemma demo_gate_payload: "input_from_payload demo_gate_json (aq_payload demo_gate_request) = Inr (Some demo_gate_input)"
  by (simp add: input_from_payload_def has_actionability_input_def or_else_def parse_payload_json_def frame_scope_def
      demo_gate_json_def demo_gate_input_def demo_gate_request_def payload_of_def code_points_def bt_contains_def is_control_def utf8_def utf8_units_def
      ELEMENT_REF_PAYLOAD_KEY_def REF_PAYLOAD_KEY_def PROVENANCE_PAYLOAD_KEY_def ACTIONABILITY_PAYLOAD_KEY_def
      EVIDENCE_PAYLOAD_KEY_def FRAME_SCOPE_PAYLOAD_KEY_def demo_ref_def)

lemma demo_gate_valid: "ref_validate_against demo_ref (envelope_provenance demo_ref_envelope) = Inr ()"
  by (simp add: ref_validate_against_def provenance_validate_def provenance_can_issue_refs_def demo_ref_def
      envelope_provenance_def demo_ref_envelope_def demo_envelope_def)

lemma demo_gate_proven: "evidence_current (ai_provenance demo_gate_input) (ai_evidence demo_gate_input)"
  "interactive KD_Click (ai_evidence demo_gate_input)" "vd_target_generation (ai_evidence demo_gate_input) = Some 1"
  by (simp_all add: evidence_current_def interactive_def demo_gate_input_def evidence_with_generations_def proven_interactive_def
      evidence_unknown_def envelope_provenance_def demo_ref_envelope_def demo_envelope_def)

lemma demo_gate_target:
  "actionability_target demo_gate_json demo_gate_state demo_gate_request = Inr (Some demo_gate_input)"
proof -
  have "\<exists>pf. validate_for_page demo_gate_input OP_Click demo_gate_page (Some (sv_snapshot_hash demo_ref_envelope)) = Inr pf"
    using demo_gate_valid demo_gate_proven
    by (simp add: validate_for_page_iff proven_on_def)
       (simp add: demo_gate_input_def demo_ref_def demo_gate_page_def envelope_provenance_def)
  then obtain pf where "validate_for_page demo_gate_input OP_Click demo_gate_page (Some (sv_snapshot_hash demo_ref_envelope)) = Inr pf"
    by blast
  then show ?thesis
    using demo_gate_payload
    by (simp add: actionability_target_def demo_gate_state_def current_snapshot_def space_page_def)
       (simp add: demo_gate_request_def demo_ledger_request_def demo_gate_page_def space_page_def)
qed


definition demo_dispatch_broker :: broker where
  "demo_dispatch_broker = demo_broker\<lparr>br_ledger := (br_ledger demo_broker)\<lparr>ld_state := demo_broker_state
     \<lparr>lg_action_requests := [(''action_2'', (demo_ledger_request ''action_2'' ''idem_2'')\<lparr>aq_space_id := space_id_of 1\<rparr>)]\<rparr>\<rparr>\<rparr>"

definition demo_dispatch_bridge :: dispatch_bridge where
  "demo_dispatch_bridge = \<lparr>db_permit = Inr (), db_dispatch = Inr BD_Succeeded,
     db_snapshot = Inl (invalid_argument ''no snapshot''), db_artifact = Inr None\<rparr>"

theorem rejected_action_stays_queued_witness:
  "\<exists>r. bt_get (lg_actions (br_state demo_dispatch_broker)) ''action_2'' = Some r \<and> ar_status r = AS_Queued \<and>
   bt_get (lg_actions (br_state (fst (dispatch_action demo_js demo_io (\<lambda>_ _. Inl (invalid_argument ''stale element''))
     demo_dispatch_bridge ''action_2'' demo_authority 6 10 demo_dispatch_broker)))) ''action_2'' = Some r"
proof -
  let ?r = "(demo_action ''action_2'' ''idem_2'')\<lparr>ar_space_id := space_id_of 1\<rparr>"
  have "bt_get (lg_action_requests (br_state demo_dispatch_broker)) ''action_2''
      = Some ((demo_ledger_request ''action_2'' ''idem_2'')\<lparr>aq_space_id := space_id_of 1\<rparr>)"
    "bt_get (lg_actions (br_state demo_dispatch_broker)) ''action_2'' = Some ?r" "ar_status ?r = AS_Queued"
    by (simp_all add: demo_dispatch_broker_def demo_broker_def demo_broker_defs)
  then show ?thesis
    using rejected_action_stays_queued [of demo_dispatch_broker "''action_2''" _ ?r "\<lambda>_ _. Inl (invalid_argument ''stale element'')"
        demo_js demo_io demo_dispatch_bridge demo_authority 6 10] by auto
qed

end
