(* ===== verification/Broker_Liveness.thy ===== *)
theory Broker_Liveness
  imports Broker_Fencing
begin

text \<open>
  The authority over a space can always fence it: as long as the counters of the ledger have room, the
  takeover of the current lease opens its fence, whatever is queued or running in the space. The
  transitions are followed with total correctness triples over the update monad.
\<close>

section \<open>Total correctness of updates\<close>

definition total :: "(ledger_state \<Rightarrow> bool) \<Rightarrow> 'a upd \<Rightarrow> ('a \<Rightarrow> ledger_state \<Rightarrow> bool) \<Rightarrow> bool" where
  "total P f Q \<longleftrightarrow> (\<forall>s. P s \<longrightarrow> (\<exists>s' a. f s = Inr (s', a) \<and> Q a s'))"

lemma totalI: "(\<And>s. P s \<Longrightarrow> \<exists>s' a. f s = Inr (s', a) \<and> Q a s') \<Longrightarrow> total P f Q"
  by (auto simp: total_def)

lemma total_bind: "total P f Q \<Longrightarrow> (\<And>a. total (Q a) (g a) R) \<Longrightarrow> total P (upd_bind f g) R"
  unfolding total_def by (metis upd_Ok(3))

lemma total_ok: "(\<And>s. P s \<Longrightarrow> Q a s) \<Longrightarrow> total P (upd_ok a) Q"
  by (auto simp: total_def upd_simps)

lemma total_mod: "(\<And>s. P s \<Longrightarrow> Q () (m s)) \<Longrightarrow> total P (upd_mod m) Q"
  by (auto simp: total_def upd_simps)

lemma total_get: "(\<And>s. P s \<Longrightarrow> \<exists>a. h s = Inr a \<and> Q a s) \<Longrightarrow> total P (upd_get h) Q"
  by (fastforce simp: total_def upd_simps)

lemma total_each:
  assumes "\<And>x n. x \<in> set xs \<Longrightarrow> total (I (Suc n)) (f x) (\<lambda>_. I n)"
  shows "total (I (length xs + n)) (upd_each f xs) (\<lambda>_. I n)"
  using assms
proof (induction xs)
  case (Cons x xs)
  have "total (I (Suc (length xs + n))) (f x) (\<lambda>_. I (length xs + n))" using Cons.prems by simp
  then show ?case using Cons by (auto intro!: total_bind)
qed (simp add: total_ok)

section \<open>Room for events\<close>

definition roomy :: "nat \<Rightarrow> opaque_id \<Rightarrow> ledger_state \<Rightarrow> bool" where
  "roomy n k s \<longleftrightarrow> lg_broker_epoch s \<noteq> 0 \<and> unat (lg_event_sequence s) + n < 2 ^ 64 \<and> bt_wf (lg_space_generations s)
     \<and> unat (bt_entry 0 (lg_space_generations s) k) + n < 2 ^ 64
     \<and> lg_extension_browser_session_epoch s \<noteq> Some 0 \<and> lg_extension_worker_instance_epoch s \<noteq> Some 0"

lemma counter_next_room:
  "unat (c :: u64) + Suc n < 2 ^ 64 \<Longrightarrow> counter_checked_next c = Some (c + 1) \<and> unat (c + 1) = Suc (unat c)"
  by (simp add: counter_checked_next_def checked_next_def checked_add64_def unat_word_ariths)

lemma digits_rest: "list_all id_rest_char (show_nat n)"
  by (auto simp: list_all_iff id_rest_char_def dest: show_nat_digits)

lemma event_id_ok:
  assumes "length (show_nat m) \<le> 20" "length (show_nat n) \<le> 20"
  shows "from_suffix EventId (show_nat m @ CHR ''-'' # show_nat n) = Inr (id_prefix EventId @ show_nat m @ CHR ''-'' # show_nat n)"
proof -
  obtain c cs where c: "show_nat m = c # cs" by (meson list.exhaust show_nat_nonempty)
  then have "id_first_char c" using show_nat_digits [of c m] by (simp add: id_first_char_def)
  with c digits_rest [of m] digits_rest [of n] have "well_formed_suffix (show_nat m @ CHR ''-'' # show_nat n)"
    by (simp add: well_formed_suffix_def id_rest_char_def)
  then show ?thesis using assms by (simp add: from_suffix_Ok MAX_ID_LENGTH_def)
qed

lemma space_event_total:
  assumes "roomy (Suc n) k s" "validate_public_payload_shape pl 512 = Inr ()" "event \<noteq> EK_Heartbeat"
  shows "\<exists>s'. append_event (scope_space k) event pl dirty resync s = Inr (s', ()) \<and> roomy n k s'"
proof -
  have seq: "counter_checked_next (lg_event_sequence s) = Some (lg_event_sequence s + 1)"
    "unat (lg_event_sequence s + 1) = Suc (unat (lg_event_sequence s))"
    using assms(1) counter_next_room [of "lg_event_sequence s" n] by (auto simp: roomy_def)
  have gen: "counter_checked_next (bt_entry 0 (lg_space_generations s) k) = Some (bt_entry 0 (lg_space_generations s) k + 1)"
    "unat (bt_entry 0 (lg_space_generations s) k + 1) = Suc (unat (bt_entry 0 (lg_space_generations s) k))"
    using assms(1) counter_next_room [of "bt_entry 0 (lg_space_generations s) k" n] by (auto simp: roomy_def)
  have pos: "lg_event_sequence s + 1 \<noteq> 0" using seq(2) by (metis nat.distinct(1) unat_0)
  have len: "length (show_nat (Suc (unat (lg_event_sequence s)))) \<le> 20" "length (show_nat (unat (lg_broker_epoch s))) \<le> 20"
    using length_show_u64 [of "lg_event_sequence s + 1"] length_show_u64 [of "lg_broker_epoch s"] seq(2) by auto
  from seq gen pos len assms show ?thesis
    by (auto simp: append_event_def append_event_with_attribution_def next_space_generation_def upd_simps scope_space_def event_id_ok
       validate_admission_def validate_routing_def event_validate_scope_def scope_validate_def metadata_validate_def metadata_for_event_def event_metadata_of_def
       validate_for_scope_def broker_event_attribution_def attribution_broker_def roomy_def bt_get_insert bt_wf_insert is_some_and_iff)
qed


lemma byte_len_code_points: "byte_len (code_points a) \<le> 2 * length a"
proof (induction a)
  case (Cons c a)
  have "length (utf8_units (of_char c)) \<le> 2" using nat_of_char_less_256 [of c]
    by (auto simp: utf8_units_def simp del: nat_of_char_less_256)
  with Cons show ?case by (simp add: code_points_def utf8_def)
qed (simp add: code_points_def utf8_def)

lemma action_event_payload:
  assumes "length a \<le> MAX_ID_LENGTH" "length st \<le> 100"
  shows "validate_public_payload_shape (payload_of [(''action_id'', a), (''status'', st)]) 512 = Inr ()"
    "validate_public_payload_shape (payload_of [(''lease_epoch'', a), (''state'', st)]) 512 = Inr ()"
  using assms byte_len_code_points [of a] byte_len_code_points [of st]
  by (simp_all add: validate_public_payload_shape_def payload_of_def code_points_def MAX_ID_LENGTH_def reject_if_def
      raw_browser_identity_def normalized_payload_key_def is_ascii_alphanumeric_def code_point_lowercase_def utf8_def utf8_units_def checks.simps)

text \<open>Receipts that the transitions of a fence can follow.\<close>

definition interruptible :: "opaque_id list \<Rightarrow> ledger_state \<Rightarrow> bool" where
  "interruptible xs s \<longleftrightarrow> bt_wf (lg_actions s) \<and> distinct xs \<and> (\<forall>a \<in> set xs. length a \<le> MAX_ID_LENGTH \<and>
     (\<exists>r. bt_get (lg_actions s) a = Some r \<and> ar_status r = AS_Running \<and> ar_dispatch_state r \<in> {DS_Dispatched, DS_Acknowledged}))"

lemma action_event_total:
  assumes "roomy (Suc n) k s" "length a \<le> MAX_ID_LENGTH" "length st \<le> 100"
  shows "\<exists>s'. action_event k a st resync s = Inr (s', ()) \<and> roomy n k s' \<and> lg_actions s' = lg_actions s"
  using space_event_total [OF assms(1) action_event_payload(1) [OF assms(2,3)], of EK_ActionChanged None resync]
  by (auto simp: action_event_def dest: append_event_sel(2))

lemma roomy_actions [simp]: "roomy n k (s\<lparr>lg_actions := A\<rparr>) = roomy n k s"
  "roomy n k (s\<lparr>lg_action_queues := Q\<rparr>) = roomy n k s" "roomy n k (s\<lparr>lg_spaces := S\<rparr>) = roomy n k s"
  "roomy n k (s\<lparr>lg_snapshots := N\<rparr>) = roomy n k s" "roomy n k (s\<lparr>lg_lease_holders := H\<rparr>) = roomy n k s"
  "roomy n k (s\<lparr>lg_pending_fences := F\<rparr>) = roomy n k s"
  by (simp_all add: roomy_def)

lemma roomy_le: "roomy n k s \<Longrightarrow> m \<le> n \<Longrightarrow> roomy m k s"
  by (auto simp: roomy_def)

lemma reconcile_token_total:
  assumes "prefix \<in> {''fence'', ''return''}"
  shows "\<exists>tok. reconcile_token prefix n = Inr tok"
proof -
  have "well_formed_suffix (prefix @ ''-'')" "list_all id_rest_char (prefix @ ''-'')"
    "length (id_prefix ReconcileToken) + length (prefix @ ''-'') + 20 \<le> MAX_ID_LENGTH"
    using assms by (auto simp: well_formed_suffix_def id_first_char_def id_rest_char_def is_ascii_lowercase_def MAX_ID_LENGTH_def)
  from from_suffix_counter [OF this, of n] show ?thesis by (simp add: reconcile_token_def)
qed

lemma interrupt_each_total:
  assumes "prefix \<in> {''fence'', ''return''}" "roomy (length xs + n) k s" "interruptible xs s"
  shows "\<exists>s'. upd_each (interrupt_running k prefix e) xs s = Inr (s', ()) \<and> roomy n k s'"
  using assms(2,3)
proof (induction xs arbitrary: s)
  case Nil
  then show ?case by (simp add: upd_simps)
next
  case (Cons a xs)
  from Cons.prems(2) obtain r where r: "bt_get (lg_actions s) a = Some r" "ar_status r = AS_Running"
      "ar_dispatch_state r \<in> {DS_Dispatched, DS_Acknowledged}" "length a \<le> MAX_ID_LENGTH" "a \<notin> set xs"
    by (auto simp: interruptible_def)
  obtain tok where tok: "reconcile_token prefix e = Inr tok" using reconcile_token_total [OF assms(1)] by blast
  obtain r' where r': "mark_unknown r UR_FenceInterrupted tok = (r', Inr ())"
    using r by (auto simp: mark_unknown_def)
  let ?t = "s\<lparr>lg_actions := bt_insert a r' (lg_actions s)\<rparr>"
  obtain t where t: "action_event k a ''unknown'' True ?t = Inr (t, ())" "roomy (length xs + n) k t" "lg_actions t = lg_actions ?t"
    using action_event_total [of "length xs + n" k ?t a "''unknown''" True] Cons.prems(1) r(4) by auto
  have "interrupt_running k prefix e a s = Inr (t, ())"
    using r(1) tok r' t(1) by (auto simp: interrupt_running_def upd_simps transition_receipt_def)
  moreover have "interruptible xs t"
    using Cons.prems(2) t(3) r(5) by (auto simp: interruptible_def bt_get_insert bt_wf_insert)
  ultimately show ?case using Cons.IH [OF t(2)] by (auto simp: upd_simps)
qed

text \<open>What the validator of the ledger says of its receipts, as far as a fence needs it.\<close>

definition receipts_sound :: "ledger_state \<Rightarrow> bool" where
  "receipts_sound s \<longleftrightarrow> bt_wf (lg_actions s) \<and> (\<forall>a r. bt_get (lg_actions s) a = Some r \<longrightarrow>
     length a \<le> MAX_ID_LENGTH \<and> (ar_status r = AS_Running \<longrightarrow> ar_dispatch_state r \<in> {DS_Dispatched, DS_Acknowledged}))"

definition fence_ready :: "nat \<Rightarrow> opaque_id \<Rightarrow> nat \<Rightarrow> ledger_state \<Rightarrow> bool" where
  "fence_ready m k n s \<longleftrightarrow> roomy n k s \<and> receipts_sound s \<and> length (lg_actions s) \<le> m"

lemma cancel_queued_total: "total (fence_ready m k (Suc n)) (cancel_queued k at a) (\<lambda>_. fence_ready m k n)"
proof (rule totalI)
  fix s
  assume s: "fence_ready m k (Suc n) s"
  show "\<exists>s' u. cancel_queued k at a s = Inr (s', u) \<and> fence_ready m k n s'"
  proof (cases "\<exists>r. bt_get (lg_actions s) a = Some r \<and> ar_status r = AS_Queued")
    case False
    then have "cancel_queued k at a s = Inr (s, ())"
      by (auto simp: cancel_queued_def upd_simps split: option.split)
    with s show ?thesis by (auto simp: fence_ready_def intro: roomy_le)
  next
    case True
    then obtain r where r: "bt_get (lg_actions s) a = Some r" "ar_status r = AS_Queued" by blast
    then obtain r' where r': "receipt_cancel r at = (r', Inr ())" "ar_status r' = AS_Cancelled" by (auto simp: receipt_cancel_def)
    let ?t = "s\<lparr>lg_actions := bt_insert a r' (lg_actions s)\<rparr>"
    obtain t where t: "action_event k a ''cancelled'' False ?t = Inr (t, ())" "roomy n k t" "lg_actions t = lg_actions ?t"
      using action_event_total [of n k ?t a "''cancelled''" False] s r(1) by (auto simp: fence_ready_def receipts_sound_def)
    have "cancel_queued k at a s = Inr (t, ())"
      using r r' t(1) by (auto simp: cancel_queued_def upd_simps transition_receipt_def)
    moreover have "receipts_sound t"
      using s t(3) r(1) r'(2) by (auto simp: fence_ready_def receipts_sound_def bt_get_insert bt_wf_insert)
    ultimately show ?thesis
      using t(2,3) s r(1) by (auto simp: fence_ready_def length_bt_insert bt_contains_def receipts_sound_def)
  qed
qed

lemma cancel_queue_total:
  assumes "fence_ready m k (length (bt_entry [] (lg_action_queues s) k) + n) s"
  shows "\<exists>s'. cancel_queue k at s = Inr (s', ()) \<and> fence_ready m k n s'"
proof -
  let ?q = "bt_entry [] (lg_action_queues s) k" and ?t = "s\<lparr>lg_action_queues := bt_remove k (lg_action_queues s)\<rparr>"
  have "fence_ready m k (length ?q + n) ?t" using assms by (simp add: fence_ready_def receipts_sound_def)
  then obtain s' where "upd_each (cancel_queued k at) ?q ?t = Inr (s', ())" "fence_ready m k n s'"
    using total_each [of ?q "fence_ready m k" "cancel_queued k at" n, OF cancel_queued_total] by (auto simp: total_def)
  then show ?thesis by (auto simp: cancel_queue_def upd_simps)
qed

lemma interrupt_space_total:
  assumes "prefix \<in> {''fence'', ''return''}" "fence_ready m k (m + n) s"
  shows "\<exists>s'. interrupt_space k prefix e s = Inr (s', ()) \<and> roomy n k s'"
proof -
  let ?xs = "map fst (filter (\<lambda>(_, r). ar_space_id r = k \<and> ar_status r = AS_Running) (lg_actions s))"
  have wf: "bt_wf (lg_actions s)" using assms(2) by (simp add: fence_ready_def receipts_sound_def)
  have "length ?xs \<le> m" using assms(2) by (auto simp: fence_ready_def intro: order_trans [OF length_filter_le])
  then have "roomy (length ?xs + n) k s" using assms(2) by (auto simp: fence_ready_def intro: roomy_le)
  moreover have "interruptible ?xs s"
    using assms(2) bt_in_get [OF wf] wf
    by (fastforce simp: interruptible_def fence_ready_def receipts_sound_def bt_wf_def distinct_map_filter
       strict_sorted_iff distinct_map inj_on_def)
  ultimately obtain s' where "upd_each (interrupt_running k prefix e) ?xs s = Inr (s', ())" "roomy n k s'"
    using interrupt_each_total [OF assms(1), of ?xs n k s e] by blast
  then show ?thesis by (auto simp: interrupt_space_def upd_simps)
qed

lemma fence_token_total:
  assumes "k = space_id_of n" "length (show_nat n) \<le> 20"
  shows "\<exists>tok. fence_request_token s k e purpose = Inr tok"
proof -
  let ?l = "''fence-'' @ (case purpose of FP_Takeover \<Rightarrow> ''takeover'' | FP_ReturnControl \<Rightarrow> ''return'')
      @ ''-'' @ show_nat (unat (lg_broker_epoch s)) @ ''-'' @ k @ ''-''"
  have "list_all id_rest_char ?l"
    using digits_rest assms(1)
    by (cases purpose) (auto simp: space_id_of_def id_rest_char_def is_ascii_lowercase_def)
  moreover from this have "well_formed_suffix ?l"
    by (auto simp: well_formed_suffix_def id_first_char_def is_ascii_lowercase_def)
  moreover have "length (id_prefix ReconcileToken) + length ?l + 20 \<le> MAX_ID_LENGTH"
    using assms length_show_u64 [of "lg_broker_epoch s"]
    by (cases purpose) (auto simp: space_id_of_def MAX_ID_LENGTH_def)
  ultimately have "from_suffix ReconcileToken (?l @ show_nat (unat e)) = Inr (id_prefix ReconcileToken @ ?l @ show_nat (unat e))"
    by (intro from_suffix_counter)
  then show ?thesis by (simp add: fence_request_token_def)
qed

lemma bump_pages_total:
  assumes "\<forall>p \<in> set (s_pages x). generations_left p"
  shows "\<exists>x'. bump_pages x = Inr x'"
proof -
  have "\<exists>ps'. try_map bump_page_generations ps = Inr ps'" if "\<forall>p \<in> set ps. generations_left p" for ps
    using that by (induction ps) (auto simp: generations_left_def bump_page_generations_def core_ok_or_def)
  with assms show ?thesis by (auto simp: bump_pages_def)
qed

lemma lease_event_total:
  assumes "roomy (Suc n) k s" "length st \<le> 100"
  shows "\<exists>s'. lease_event k e st resync s = Inr (s', ())"
  using space_event_total [OF assms(1) action_event_payload(2) [OF _ assms(2)], of "show_nat (unat e)" EK_LeaseChanged None resync]
    length_show_u64 [of e] by (auto simp: lease_event_def MAX_ID_LENGTH_def)

lemma takeover_total:
  assumes "spaces_issued s" "receipts_sound s" "authorize_ticket s au = Inr ()"
    and "authorize_profile_for_mutation s k au = Inr ()" "takeover_admission s k au = Inr l"
    and "bt_get (lg_spaces s) k = Some x" "\<forall>p \<in> set (s_pages x). generations_left p" "unat (l_lease_epoch l) + 1 < 2 ^ 64"
    and "roomy (length (bt_entry [] (lg_action_queues s) k) + length (lg_actions s) + 1) k s"
  shows "\<exists>s' tok. begin_takeover_upd k au now w s = Inr (s', Some (l_lease_epoch l), l_lease_epoch l + 1, tok)"
proof -
  let ?e = "l_lease_epoch l + 1" and ?m = "length (lg_actions s)"
  obtain n where n: "n \<le> unat (lg_next_space_number s)" "k = space_id_of n"
    using assms(1,6) by (auto simp: spaces_issued_def)
  have "n < 10 ^ 20" using n(1) unat_u64_less [of "lg_next_space_number s"] by simp
  then have "length (show_nat n) \<le> 20" by (intro length_show_nat) auto
  then obtain tok where tok: "fence_request_token s k ?e FP_Takeover = Inr tok"
    using fence_token_total n(2) by blast
  have e: "next_lease_epoch (l_lease_epoch l) = Inr ?e"
    using assms(8) by (simp add: next_lease_epoch_def checked_add64_def)
  obtain x' where x': "grant_fenced au ?e w x = Inr x'"
    using bump_pages_total [OF assms(7)] by (auto simp: grant_fenced_def)
  let ?s1 = "s\<lparr>lg_spaces := bt_insert k x' (lg_spaces s)\<rparr>"
  let ?s2 = "?s1\<lparr>lg_snapshots := bt_remove k (lg_snapshots ?s1)\<rparr>"
  let ?s3 = "?s2\<lparr>lg_lease_holders := bt_insert k (au_connection_epoch au) (lg_lease_holders ?s2)\<rparr>"
  have "fence_ready ?m k (length (bt_entry [] (lg_action_queues ?s3) k) + (?m + 1)) ?s3"
    using assms(2,9) by (simp add: fence_ready_def receipts_sound_def add.assoc)
  then obtain s4 where s4: "cancel_queue k (Some now) ?s3 = Inr (s4, ())" "fence_ready ?m k (?m + 1) s4"
    using cancel_queue_total by blast
  then obtain s5 where s5: "interrupt_space k ''fence'' ?e s4 = Inr (s5, ())" "roomy 1 k s5"
    using interrupt_space_total [of "''fence''" ?m k 1 s4 ?e] by auto
  obtain s6 where s6: "open_fence k tok (Some (l_lease_epoch l)) ?e (au_principal_id au) FP_Takeover s5 = Inr (s6, ())" "roomy 1 k s6"
    using s5(2) by (auto simp: open_fence_def upd_simps)
  then obtain s7 where s7: "lease_event k ?e ''fence_pending'' False s6 = Inr (s7, ())"
    using lease_event_total [of 0 k s6 "''fence_pending''" ?e False] by auto
  have "begin_takeover_upd k au now w s = Inr (s7, Some (l_lease_epoch l), ?e, tok)"
    unfolding begin_takeover_upd_def drop_snapshots_def hold_lease_def
    using assms(3-6) e tok x' s4(1) s5(1) s6(1) s7 by (auto simp: upd_simps try_modify_space_Ok)
  then show ?thesis by blast
qed

text \<open>
  C6: The current authority can always fence. Take a ledger whose spaces carry identities issued by the
  broker and whose receipts are those the validator accepts. When the counters have room for one
  event per queued and per recorded action and one more, the page generations and the lease epoch
  can still be advanced, and the authority is the one the takeover admits, then the takeover opens
  its fence: no queued or running work can prevent it.
\<close>

theorem takeover_available:
  assumes "spaces_issued s" "receipts_sound s" "authorize_ticket s au = Inr ()"
    and "authorize_profile_for_mutation s k au = Inr ()" "takeover_admission s k au = Inr l"
    and "bt_get (lg_spaces s) k = Some x" "\<forall>p \<in> set (s_pages x). generations_left p" "unat (l_lease_epoch l) + 1 < 2 ^ 64"
    and "roomy (length (bt_entry [] (lg_action_queues s) k) + length (lg_actions s) + 1) k s"
  shows "\<exists>s' tok. begin_takeover_upd k au now w s = Inr (s', Some (l_lease_epoch l), l_lease_epoch l + 1, tok)"
  using assms by (rule takeover_total)

lemma demo_takeover_admitted:
  "authorize_ticket demo_broker_state demo_authority = Inr ()"
  "authorize_profile_for_mutation demo_broker_state (space_id_of 1) demo_authority = Inr ()"
  "takeover_admission demo_broker_state (space_id_of 1) demo_authority = Inr (lease_active ''principal_p'' 6 100 50)"
  by (simp_all add: authorize_ticket_Ok authority_is_current_def authorize_profile_for_mutation_def takeover_admission_def
      is_fence_lifecycle_def authorize_lease_holder_Ok demo_broker_defs)

lemma demo_takeover_room:
  "receipts_sound demo_broker_state"
  "bt_get (lg_spaces demo_broker_state) (space_id_of 1)
     = Some (demo_space\<lparr>s_space_id := space_id_of 1, s_profile_binding := PF_Unbound\<rparr>)"
  "roomy (length (bt_entry [] (lg_action_queues demo_broker_state) (space_id_of 1)) + length (lg_actions demo_broker_state) + 1)
     (space_id_of 1) demo_broker_state"
  by (auto simp: receipts_sound_def roomy_def demo_broker_defs bt_wf_def MAX_ID_LENGTH_def bt_entry_def split: if_splits)

theorem takeover_available_witness:
  "\<exists>s' tok. begin_takeover_upd (space_id_of 1) demo_authority 5 (1000, 500) demo_broker_state = Inr (s', Some 6, 7, tok)"
  using takeover_available [OF demo_spaces_issued demo_takeover_room(1) demo_takeover_admitted demo_takeover_room(2) _ _ demo_takeover_room(3),
      of 5 "(1000, 500)"]
  by (simp add: demo_space_def lease_active_def)

text \<open>
  C3: Opening a fence. When a takeover or a return of control has opened its fence, the lease of the
  space carries the successor of the epoch that the space had, the queue of the space is gone, no
  action of the space is running any more, and until the fence is completed nobody is authorized to
  mutate the space, not even with the new epoch.
\<close>

theorem fence_opens:
  assumes "bt_wf (lg_spaces s)" "bt_wf (lg_actions s)" "bt_wf (lg_action_queues s)"
    and "begin_takeover_upd k au now w s = Inr (s', old, new, tok) \<or> begin_return_upd k au e now s = Inr (s', old, new, tok)"
  shows "(\<exists>x l x' l'. bt_get (lg_spaces s) k = Some x \<and> s_lease x = Some l \<and> old = Some (l_lease_epoch l)
        \<and> bt_get (lg_spaces s') k = Some x' \<and> s_lease x' = Some l' \<and> l_lease_epoch l' = new
        \<and> l_lease_epoch l < new \<and> new = l_lease_epoch l + 1)
    \<and> bt_get (lg_action_queues s') k = None
    \<and> (\<forall>a r. bt_get (lg_actions s') a = Some r \<and> ar_space_id r = k \<longrightarrow> ar_status r \<noteq> AS_Running)
    \<and> (\<forall>au' e' now'. isl (authorize_space s' k au' e' now' True))"
proof -
  have f: "fenced_off k new s'" and l: "\<exists>x l. bt_get (lg_spaces s) k = Some x \<and> s_lease x = Some l
      \<and> old = Some (l_lease_epoch l) \<and> l_lease_epoch l < new \<and> new = l_lease_epoch l + 1"
    using assms begin_takeover_fences begin_return_fences by blast+
  have "isl (authorize_space s' k au' e' now' True)" for au' e' now'
    using f by (cases "authorize_space s' k au' e' now' True") (auto simp: fenced_off_def authorize_space_Ok)
  with f l show ?thesis by (auto simp: fenced_off_def running_within_def)
qed


theorem fence_opens_witness:
  "\<exists>s' tok. begin_takeover_upd (space_id_of 1) demo_authority 5 (1000, 500) demo_broker_state = Inr (s', Some 6, 7, tok)
     \<and> bt_get (lg_action_queues s') (space_id_of 1) = None \<and> isl (authorize_space s' (space_id_of 1) demo_authority 7 10 True)"
proof -
  obtain s' tok where "begin_takeover_upd (space_id_of 1) demo_authority 5 (1000, 500) demo_broker_state = Inr (s', Some 6, 7, tok)"
    using takeover_total [OF demo_spaces_issued demo_takeover_room(1) demo_takeover_admitted demo_takeover_room(2) _ _ demo_takeover_room(3),
        of 5 "(1000, 500)"] by (auto simp: demo_space_def lease_active_def)
  moreover have "bt_wf (lg_spaces demo_broker_state)" "bt_wf (lg_actions demo_broker_state)" "bt_wf (lg_action_queues demo_broker_state)"
    by (simp_all add: demo_broker_defs bt_wf_def)
  ultimately show ?thesis
    using fence_opens [of demo_broker_state "space_id_of 1" demo_authority 5 "(1000, 500)" s' "Some 6" 7 tok] by blast
qed

end
