(* ===== verification/Broker_Snapshots.thy ===== *)
theory Broker_Snapshots
  imports Broker_Dispatch Broker_Liveness
begin

text \<open>
  Snapshots and references of the broker (\<^verbatim>\<open>crates/agentyc-host/src/broker.rs\<close>, \<^verbatim>\<open>issue_ref\<close>,
  \<^verbatim>\<open>read_snapshot\<close>, \<^verbatim>\<open>put_snapshot\<close> and \<^verbatim>\<open>mark_snapshot_dirty\<close>) together with the memory they share with
  other methods: the reference registry and the representation cache live next to the ledger, and what
  a closure does to them stays when the ledger rolls its state back. The size of a serialized envelope
  is the parameter of the cache; the bridge and the read permit of the scheduler are given by their
  answers.
\<close>

section \<open>The host state\<close>

record host =
  ho_broker :: broker
  ho_ref_registry :: ref_registry
  ho_snapshot_cache :: snapshot_cache

abbreviation ho_state :: "host \<Rightarrow> ledger_state" where
  "ho_state h \<equiv> br_state (ho_broker h)"

type_synonym 'a host_op = "host \<Rightarrow> host \<times> (host_error, 'a) result"

type_synonym envelope_size = "snapshot_envelope \<Rightarrow> (string, nat) result"

text \<open>
  \<open>host_update\<close> is \<^verbatim>\<open>Ledger::update\<close> with a closure that also changes the memory of the host: \<open>effect\<close> is
  that change, a function of the state the closure starts from. It is kept whatever the outcome, as
  long as the closure runs at all.
\<close>

definition host_update ::
  "json_writer \<Rightarrow> ledger_io \<Rightarrow> 'a upd \<Rightarrow> (ledger_state \<Rightarrow> host \<Rightarrow> host) \<Rightarrow> 'a host_op" where
  "host_update js io f effect h =
     (let (b, result) = update_ledger js io f (ho_broker h)
      in ((if isl (io_owner io) then h else effect (ho_state h) h)\<lparr>ho_broker := b\<rparr>, result))"

definition host_with_inner :: "'a host_op \<Rightarrow> 'a host_op" where
  "host_with_inner operation h =
     (let (h', result) = operation h; b = ho_broker h'
      in (h'\<lparr>ho_broker := b\<lparr>br_router := sync_event_router (br_router b) (br_state b)\<rparr>\<rparr>, result))"

definition host_next :: "'a host_op \<Rightarrow> ('a \<Rightarrow> 'b host_op) \<Rightarrow> 'b host_op" where
  "host_next f k h = (case f h of (h', Inl e) \<Rightarrow> (h', Err e) | (h', Inr a) \<Rightarrow> k a h')"

definition host_guarded :: "(host_error, 'c) result \<Rightarrow> ('c \<Rightarrow> 'a host_op) \<Rightarrow> 'a host_op" where
  "host_guarded check f h = (case check of Inl e \<Rightarrow> (h, Err e) | Inr c \<Rightarrow> f c h)"

definition host_return :: "'a \<Rightarrow> 'a host_op" where
  "host_return a h = (h, Ok a)"

text \<open>A section that leaves the memory alone.\<close>

definition host_section :: "json_writer \<Rightarrow> ledger_io \<Rightarrow> 'a upd \<Rightarrow> 'a host_op" where
  "host_section js io f = host_with_inner (host_update js io f (\<lambda>_ h. h))"

section \<open>Memory effects of other methods\<close>

definition fill_cache :: "envelope_size \<Rightarrow> ledger_state \<Rightarrow> snapshot_cache \<Rightarrow> snapshot_cache" where
  "fill_cache to_json s cache =
     fold (\<lambda>record c. fst (cache_insert to_json c (cr_envelope record)))
       (filter (\<lambda>record. \<not> cr_dirty record) (concat (map bt_values (bt_values (lg_snapshots s))))) cache"

definition host_new :: "envelope_size \<Rightarrow> ledger \<Rightarrow> capability list \<Rightarrow> host" where
  "host_new to_json l capabilities =
     \<lparr>ho_broker = \<lparr>br_ledger = l, br_lifecycle = HL_Ready, br_capabilities = capabilities,
        br_router = event_router_from_ledger (ld_limits l) (ld_state l), br_user_intent_tickets = []\<rparr>,
      ho_ref_registry = registry_new ref_limits_default,
      ho_snapshot_cache = fill_cache to_json (ld_state l)
        (cache_new (ll_max_snapshots (ld_limits l)) (ll_max_snapshot_bytes (ld_limits l)))\<rparr>"

definition host_mark_degraded ::
  "json_writer \<Rightarrow> ledger_io \<Rightarrow> host_degraded_reason \<Rightarrow> timestamp \<Rightarrow> unit host_op" where
  "host_mark_degraded js io reason now h =
     (let (b, result) = mark_degraded js io reason (ho_broker h)
      in (h\<lparr>ho_broker := b, ho_ref_registry :=
            (if valid_lifecycle_transition (br_lifecycle (ho_broker h)) (HL_Degraded reason)
             then fst (invalidate_all now (ho_ref_registry h)) else ho_ref_registry h)\<rparr>, result))"

definition page_lost_effect :: "opaque_id \<Rightarrow> opaque_id \<Rightarrow> timestamp \<Rightarrow> host \<Rightarrow> host" where
  "page_lost_effect space_id page_id now h =
     h\<lparr>ho_ref_registry := fst (invalidate_scope space_id page_id now (ho_ref_registry h)),
       ho_snapshot_cache := fst (invalidate_with_reason (ho_snapshot_cache h) space_id page_id CD_TargetReplaced)\<rparr>"

definition host_mark_page_lost ::
  "json_writer \<Rightarrow> ledger_io \<Rightarrow> opaque_id \<Rightarrow> opaque_id \<Rightarrow> authority_ticket \<Rightarrow> lease_epoch \<Rightarrow> timestamp
   \<Rightarrow> page_descriptor host_op" where
  "host_mark_page_lost js io space_id page_id authority lease_epoch now = host_with_inner (
     host_update js io (mark_page_lost_upd space_id page_id authority lease_epoch now) (\<lambda>s h.
       if isl (upd_bind (upd_get (\<lambda>s. authorize_space s space_id authority lease_epoch now False))
            (\<lambda>_. modify_page space_id page_id lost_page) s)
       then h else page_lost_effect space_id page_id now h))"

text \<open>What a completed action does to the memory: \<^verbatim>\<open>finish_dispatch\<close>, once the receipt has its outcome.\<close>

definition dispatch_effect :: "ledger_request \<Rightarrow> timestamp \<Rightarrow> host \<Rightarrow> host" where
  "dispatch_effect q now h =
     (case aq_page_id q of
        Some page_id \<Rightarrow>
          if is_mutating_action (aq_operation q) then
            h\<lparr>ho_ref_registry := fst (invalidate_scope (aq_space_id q) page_id now (ho_ref_registry h)),
              ho_snapshot_cache := fst (mark_dirty_with_reason (ho_snapshot_cache h) (aq_space_id q) page_id CD_Action)\<rparr>
          else h
      | None \<Rightarrow> h)"

section \<open>Issuing references\<close>

text \<open>The registry's loop makes the method partial; \<open>None\<close> is a call that does not return.\<close>

definition issue_ref ::
  "json_writer \<Rightarrow> ledger_io \<Rightarrow> opaque_id \<Rightarrow> opaque_id \<Rightarrow> opaque_id \<Rightarrow> opaque_id \<Rightarrow> authority_ticket \<Rightarrow> lease_epoch
   \<Rightarrow> timestamp \<Rightarrow> host \<Rightarrow> (host \<times> (host_error, element_ref) result) option" where
  "issue_ref js io space_id page_id frame_id element_key authority lease_epoch now h =
     (case host_section js io (issue_ref_upd space_id page_id authority lease_epoch now) h of
        (h', Inl error) \<Rightarrow> Some (h', Err error)
      | (h', Inr envelope) \<Rightarrow>
          map_option (\<lambda>(r, result). (h'\<lparr>ho_ref_registry := r\<rparr>, core_result result))
            (registry_issue_ref envelope frame_id element_key now (ho_ref_registry h')))"

section \<open>Reading snapshots\<close>

text \<open>\<open>sb_observe\<close> is the answer of \<^verbatim>\<open>observe\<close> after \<^verbatim>\<open>sanitize_observation_snapshot\<close>.\<close>

record snapshot_bridge =
  sb_permit :: "(backpressure_kind, unit) result"
  sb_observe :: "(host_error, page_observation list) result"
  sb_snapshot :: "(core_error, snapshot_envelope) result"

definition scan_effect ::
  "envelope_size \<Rightarrow> snapshot_envelope \<Rightarrow> page_generation \<Rightarrow> authority_ticket \<Rightarrow> lease_epoch \<Rightarrow> timestamp
   \<Rightarrow> ledger_state \<Rightarrow> host \<Rightarrow> host" where
  "scan_effect to_json envelope generation authority lease_epoch now s h =
     (if isl (scan_admission envelope generation authority lease_epoch now s) then h
      else h\<lparr>ho_snapshot_cache := fst (cache_insert to_json (ho_snapshot_cache h) (envelope\<lparr>sv_cache_state := CA_Fresh\<rparr>))\<rparr>)"

definition scanned_envelope :: "snapshot_bridge \<Rightarrow> opaque_id \<Rightarrow> opaque_id \<Rightarrow> (host_error, snapshot_envelope) result" where
  "scanned_envelope bridge space_id page_id =
     and_then (bridge_result (sb_snapshot bridge)) (\<lambda>envelope.
     and_then (core_result (snapshot_invalid envelope)) (\<lambda>_.
     and_then (core_reject (sv_space_id envelope \<noteq> space_id \<or> sv_page_id envelope \<noteq> page_id)
       (core_error_new EC_InvalidArgument ''bridge snapshot scope mismatch'')) (\<lambda>_.
     Ok envelope)))"

definition scan_snapshot ::
  "json_writer \<Rightarrow> ledger_io \<Rightarrow> envelope_size \<Rightarrow> snapshot_bridge \<Rightarrow> opaque_id \<Rightarrow> opaque_id \<Rightarrow> authority_ticket
   \<Rightarrow> lease_epoch \<Rightarrow> timestamp \<Rightarrow> snapshot_read host_op" where
  "scan_snapshot js io to_json bridge space_id page_id authority lease_epoch now =
     host_guarded (sb_observe bridge) (\<lambda>records.
     host_next (host_section js io (reconcile_bridge_pages_upd records)) (\<lambda>_.
     host_next (host_section js io
       (upd_get (\<lambda>s. authorize_page s space_id page_id authority lease_epoch now False))) (\<lambda>generation.
     host_guarded (scanned_envelope bridge space_id page_id) (\<lambda>envelope.
     host_with_inner (host_update js io (commit_scan_upd envelope generation authority lease_epoch now)
       (scan_effect to_json envelope generation authority lease_epoch now))))))"

definition read_snapshot ::
  "json_writer \<Rightarrow> ledger_io \<Rightarrow> envelope_size \<Rightarrow> snapshot_bridge \<Rightarrow> opaque_id \<Rightarrow> opaque_id \<Rightarrow> authority_ticket
   \<Rightarrow> lease_epoch \<Rightarrow> timestamp \<Rightarrow> snapshot_read host_op" where
  "read_snapshot js io to_json bridge space_id page_id authority lease_epoch now h =
     host_guarded (case sb_permit bridge of Inl kind \<Rightarrow> Err (scheduler_backpressure kind) | Inr _ \<Rightarrow> Ok ()) (\<lambda>_.
     host_guarded (require_capability (br_capabilities (ho_broker h)) CP_Snapshot) (\<lambda>_.
     host_next (host_section js io (cached_read_upd (get_clean (ho_snapshot_cache h) space_id page_id)
       space_id page_id authority lease_epoch now)) (\<lambda>cached.
     case cached of
       Some read \<Rightarrow> host_return read
     | None \<Rightarrow> scan_snapshot js io to_json bridge space_id page_id authority lease_epoch now))) h"

definition read_snapshot_metadata ::
  "json_writer \<Rightarrow> ledger_io \<Rightarrow> envelope_size \<Rightarrow> snapshot_bridge \<Rightarrow> opaque_id \<Rightarrow> opaque_id \<Rightarrow> authority_ticket
   \<Rightarrow> lease_epoch \<Rightarrow> timestamp \<Rightarrow> snapshot_metadata_read host_op" where
  "read_snapshot_metadata js io to_json bridge space_id page_id authority lease_epoch now =
     host_next (read_snapshot js io to_json bridge space_id page_id authority lease_epoch now)
       (\<lambda>read. host_return (read_metadata read))"

section \<open>Seeding and dirtying\<close>

definition put_snapshot ::
  "json_writer \<Rightarrow> ledger_io \<Rightarrow> envelope_size \<Rightarrow> authority_ticket \<Rightarrow> snapshot_envelope \<Rightarrow> lease_epoch \<Rightarrow> timestamp
   \<Rightarrow> unit host_op" where
  "put_snapshot js io to_json authority envelope lease_epoch now =
     host_guarded (core_result (snapshot_invalid envelope)) (\<lambda>_.
     host_with_inner (host_update js io (put_snapshot_upd envelope authority lease_epoch now) (\<lambda>s h.
       if isl (put_admission envelope authority lease_epoch now s) then h
       else h\<lparr>ho_ref_registry := fst (invalidate_provenance (envelope_provenance envelope) now (ho_ref_registry h)),
              ho_snapshot_cache := fst (cache_insert to_json (ho_snapshot_cache h) envelope)\<rparr>)))"

definition mark_snapshot_dirty ::
  "json_writer \<Rightarrow> ledger_io \<Rightarrow> authority_ticket \<Rightarrow> opaque_id \<Rightarrow> opaque_id \<Rightarrow> lease_epoch \<Rightarrow> timestamp \<Rightarrow> bool host_op" where
  "mark_snapshot_dirty js io authority space_id page_id lease_epoch now = host_with_inner (
     host_update js io (mark_snapshot_dirty_upd space_id page_id authority lease_epoch now) (\<lambda>s h.
       if isl (authorize_page s space_id page_id authority lease_epoch now False)
          \<or> current_snapshot s space_id page_id = None then h
       else h\<lparr>ho_ref_registry := fst (invalidate_rerender space_id page_id now (ho_ref_registry h)),
              ho_snapshot_cache := fst (mark_dirty_with_reason (ho_snapshot_cache h) space_id page_id CD_DomMutation)\<rparr>))"

section \<open>Facts about host sections\<close>

lemma update_ledger_Ok:
  assumes "update_ledger js io f b = (b', Inr v)"
  shows "\<exists>s. f (br_state b) = Inr (s, v) \<and> br_state b' = retain_events (ll_max_events (ld_limits (br_ledger b))) s
    \<and> validate_state js (ld_limits (br_ledger b)) (br_state b') = Inr () \<and> ld_limits (br_ledger b') = ld_limits (br_ledger b)
    \<and> br_capabilities b' = br_capabilities b \<and> \<not> isl (io_owner io)"
proof -
  have o: "\<not> isl (io_owner io)" using assms by (auto simp: update_ledger_def ledger_update_def isl_def split: prod.splits sum.splits)
  show ?thesis
    by (cases rule: ledger_update_cases [of js io "run_upd f" "br_ledger b"])
       (use assms o in \<open>auto simp: update_ledger_def run_upd_def split: prod.splits sum.splits\<close>)
qed

definition same_memory :: "host \<Rightarrow> host \<Rightarrow> bool" where
  "same_memory h h' \<longleftrightarrow> ho_ref_registry h' = ho_ref_registry h \<and> ho_snapshot_cache h' = ho_snapshot_cache h
     \<and> br_capabilities (ho_broker h') = br_capabilities (ho_broker h)
     \<and> ld_limits (br_ledger (ho_broker h')) = ld_limits (br_ledger (ho_broker h))"

lemma host_update_Ok:
  assumes "host_with_inner (host_update js io f effect) h = (h', Inr v)"
  shows "\<exists>s. f (ho_state h) = Inr (s, v)
    \<and> ho_state h' = retain_events (ll_max_events (ld_limits (br_ledger (ho_broker h)))) s
    \<and> validate_state js (ld_limits (br_ledger (ho_broker h))) (ho_state h') = Inr ()
    \<and> ho_ref_registry h' = ho_ref_registry (effect (ho_state h) h)
    \<and> ho_snapshot_cache h' = ho_snapshot_cache (effect (ho_state h) h)
    \<and> br_capabilities (ho_broker h') = br_capabilities (ho_broker h)
    \<and> ld_limits (br_ledger (ho_broker h')) = ld_limits (br_ledger (ho_broker h))"
proof -
  obtain b' where b': "update_ledger js io f (ho_broker h) = (b', Inr v)"
    using assms by (auto simp: host_with_inner_def host_update_def Let_def split: prod.splits)
  from update_ledger_Ok [OF b'] show ?thesis
    using assms b' by (auto simp: host_with_inner_def host_update_def Let_def)
qed

lemma host_section_Ok:
  assumes "host_section js io f h = (h', Inr v)"
  shows "\<exists>s. f (ho_state h) = Inr (s, v)
    \<and> ho_state h' = retain_events (ll_max_events (ld_limits (br_ledger (ho_broker h)))) s
    \<and> validate_state js (ld_limits (br_ledger (ho_broker h))) (ho_state h') = Inr () \<and> same_memory h h'"
  using host_update_Ok [of js io f "\<lambda>_ h. h" h h' v] assms by (auto simp: host_section_def same_memory_def)

text \<open>The broker inside the host takes the step of a broker method: runs of the host are runs of the broker.\<close>

lemma host_update_broker:
  "ho_broker (fst (host_with_inner (host_update js io f effect) h)) = fst (with_inner (update_ledger js io f) (ho_broker h))"
  by (simp add: host_with_inner_def host_update_def with_inner_def Let_def split: prod.split)

lemma host_next_Ok: "host_next f k h = (h', Inr b) \<longleftrightarrow> (\<exists>h1 a. f h = (h1, Inr a) \<and> k a h1 = (h', Inr b))"
  by (auto simp: host_next_def split: prod.splits sum.splits)

lemma host_guarded_Ok: "host_guarded c f h = (h', Inr b) \<longleftrightarrow> (\<exists>a. c = Inr a \<and> f a h = (h', Inr b))"
  by (auto simp: host_guarded_def split: sum.splits)

lemma retain_events_frame [simp]:
  "lg_snapshots (retain_events n s) = lg_snapshots s" "lg_spaces (retain_events n s) = lg_spaces s"
  by (simp_all add: retain_events_def)

lemma authorize_page_cong:
  assumes "lg_broker_epoch s' = lg_broker_epoch s" "lg_active_connections s' = lg_active_connections s"
    "lg_spaces s' = lg_spaces s" "lg_profile_bindings s' = lg_profile_bindings s" "lg_lease_holders s' = lg_lease_holders s"
  shows "authorize_page s' sp pg au e now m = authorize_page s sp pg au e now m"
proof -
  have "authorize_profile_for_mutation s' sp au = authorize_profile_for_mutation s sp au"
    by (simp add: authorize_profile_for_mutation_def find_space_def assms cong: profile_binding_state.case_cong)
  then show ?thesis
    by (simp add: authorize_page_def authorize_space_def authorize_ticket_def authorize_lease_holder_def find_space_def
        find_page_def authority_is_current_def assms)
qed

lemma authorize_page_retain [simp]: "authorize_page (retain_events n s) sp pg au e now m = authorize_page s sp pg au e now m"
  by (rule authorize_page_cong) (simp_all add: retain_events_def)

lemma current_snapshot_retain [simp]: "current_snapshot (retain_events n s) = current_snapshot s"
  by (simp add: fun_eq_iff current_snapshot_def)

lemma bt_get_insert_self [simp]: "bt_get (bt_insert k v m) k = Some v"
  by (induction m) auto

lemma current_snapshot_store [simp]:
  "current_snapshot (store_snapshot envelope generation s) (sv_space_id envelope) (sv_page_id envelope)
     = Some \<lparr>cr_envelope = envelope, cr_generation = generation, cr_dirty = False\<rparr>"
  by (simp add: current_snapshot_def store_snapshot_def)

lemma cached_read_upd_Ok:
  "cached_read_upd representation sp pg au e now s = Inr (s', x) \<longleftrightarrow> s' = s \<and> (\<exists>gen. authorize_page s sp pg au e now False = Inr gen
     \<and> x = (case memory_hit representation gen (current_snapshot s sp pg) of
         Some envelope \<Rightarrow> Some (cached_read envelope)
       | None \<Rightarrow> map_option cached_read (ledger_hit gen (current_snapshot s sp pg))))"
  by (auto simp: cached_read_upd_def upd_simps Let_def)

lemma commit_scan_Ok:
  assumes "commit_scan_upd envelope gen au e now s = Inr (s', read)"
  shows "read = \<lparr>sr_envelope = envelope, sr_cache_state = CA_Fresh, sr_scan_performed = True\<rparr>
    \<and> authorize_page s' (sv_space_id envelope) (sv_page_id envelope) au e now False = Inr gen
    \<and> sv_navigation_generation envelope = pg_navigation_generation gen
    \<and> sv_document_generation envelope = pg_document_generation gen
    \<and> current_snapshot s' (sv_space_id envelope) (sv_page_id envelope)
        = Some \<lparr>cr_envelope = envelope\<lparr>sv_cache_state := CA_Fresh\<rparr>, cr_generation = gen, cr_dirty = False\<rparr>"
proof -
  let ?fresh = "envelope\<lparr>sv_cache_state := CA_Fresh\<rparr>"
  obtain s1 where a: "authorize_page s (sv_space_id envelope) (sv_page_id envelope) au e now False = Inr gen"
      "sv_navigation_generation envelope = pg_navigation_generation gen"
      "sv_document_generation envelope = pg_document_generation gen"
      "append_event (scope_page (sv_space_id envelope) (sv_page_id envelope)) EK_SnapshotChanged
        (payload_of [(''cache_state'', ''fresh'')]) None False (store_snapshot ?fresh gen s) = Inr (s', s1)"
      "read = \<lparr>sr_envelope = envelope, sr_cache_state = CA_Fresh, sr_scan_performed = True\<rparr>"
    using assms by (auto simp: commit_scan_upd_def scan_admission_def upd_simps)
  from append_event_frame(1) [OF a(4)]
  obtain rec where s': "s' = (store_snapshot ?fresh gen s)\<lparr>lg_event_sequence := lg_event_sequence s',
      lg_space_generations := lg_space_generations s', lg_events := lg_events (store_snapshot ?fresh gen s) @ [rec]\<rparr>"
    by blast
  have "authorize_page s' (sv_space_id envelope) (sv_page_id envelope) au e now False
      = authorize_page s (sv_space_id envelope) (sv_page_id envelope) au e now False"
    by (rule authorize_page_cong; subst s') (simp_all add: store_snapshot_def)
  moreover have "lg_snapshots s' = lg_snapshots (store_snapshot ?fresh gen s)" by (subst s') simp
  then have "current_snapshot s' = current_snapshot (store_snapshot ?fresh gen s)"
    by (simp add: fun_eq_iff current_snapshot_def)
  ultimately show ?thesis using a current_snapshot_store [of ?fresh gen s] by simp
qed

text \<open>
  C11: Reads answer for the current page. A read that did not scan is decided without the browser: any other
  browser that grants the read gets the same answer, and the answer is a clean entry of the cache for
  the current navigation and document (the target generation is not compared), or the clean snapshot of the ledger for the current generation.
  A read that scanned returns the valid envelope the browser gave for this very page, of the generation
  the page has in the ledger after the read, where the snapshot is now stored as clean.
\<close>

theorem snapshot_reads_current:
  assumes "read_snapshot js io to_json bridge sp pg au e now h = (h', Inr read)"
  shows "if sr_scan_performed read then
      sb_snapshot bridge = Inr (sr_envelope read) \<and> snapshot_invalid (sr_envelope read) = Inr ()
      \<and> sv_space_id (sr_envelope read) = sp \<and> sv_page_id (sr_envelope read) = pg
      \<and> (\<exists>gen. authorize_page (ho_state h') sp pg au e now False = Inr gen
           \<and> sv_navigation_generation (sr_envelope read) = pg_navigation_generation gen
           \<and> sv_document_generation (sr_envelope read) = pg_document_generation gen
           \<and> current_snapshot (ho_state h') sp pg = Some \<lparr>cr_envelope = (sr_envelope read)\<lparr>sv_cache_state := CA_Fresh\<rparr>,
                cr_generation = gen, cr_dirty = False\<rparr>)
    else
      (\<forall>bridge'. sb_permit bridge' = Inr () \<longrightarrow>
         read_snapshot js io to_json bridge' sp pg au e now h = (h', Inr read))
      \<and> (\<exists>gen envelope. authorize_page (ho_state h) sp pg au e now False = Inr gen \<and> read = cached_read envelope
           \<and> (get_clean (ho_snapshot_cache h) sp pg = Some envelope
                \<and> sv_navigation_generation envelope = pg_navigation_generation gen
                \<and> sv_document_generation envelope = pg_document_generation gen
              \<or> current_snapshot (ho_state h) sp pg = Some \<lparr>cr_envelope = envelope, cr_generation = gen, cr_dirty = False\<rparr>))"
proof -
  let ?cached = "host_section js io (cached_read_upd (get_clean (ho_snapshot_cache h) sp pg) sp pg au e now)"
  obtain h1 x where c: "sb_permit bridge = Inr ()" "require_capability (br_capabilities (ho_broker h)) CP_Snapshot = Inr ()"
      "?cached h = (h1, Inr x)"
      "(case x of Some read \<Rightarrow> host_return read | None \<Rightarrow> scan_snapshot js io to_json bridge sp pg au e now) h1 = (h', Inr read)"
    using assms by (auto simp: read_snapshot_def host_guarded_Ok host_next_Ok split: sum.splits)
  from host_section_Ok [OF c(3)] obtain gen where gen: "authorize_page (ho_state h) sp pg au e now False = Inr gen"
      "x = (case memory_hit (get_clean (ho_snapshot_cache h) sp pg) gen (current_snapshot (ho_state h) sp pg) of
         Some envelope \<Rightarrow> Some (cached_read envelope)
       | None \<Rightarrow> map_option cached_read (ledger_hit gen (current_snapshot (ho_state h) sp pg)))"
    by (auto simp: cached_read_upd_Ok)
  show ?thesis
  proof (cases x)
    case None
    obtain h2 envelope gen' where s: "scanned_envelope bridge sp pg = Inr envelope"
        "host_with_inner (host_update js io (commit_scan_upd envelope gen' au e now)
           (scan_effect to_json envelope gen' au e now)) h2 = (h', Inr read)"
      using c(4) None by (auto simp: scan_snapshot_def host_guarded_Ok host_next_Ok)
    from host_update_Ok [OF s(2)] obtain s' n where "commit_scan_upd envelope gen' au e now (ho_state h2) = Inr (s', read)"
        "ho_state h' = retain_events n s'" by blast
    with commit_scan_Ok [of envelope gen' au e now "ho_state h2" s' read] s(1) show ?thesis
      by (auto simp: scanned_envelope_def elim!: bridge_result.elims)
  next
    case (Some r)
    then have r: "read = r" "h' = h1" using c(4) by (auto simp: host_return_def)
    obtain envelope where envelope: "r = cached_read envelope"
        "memory_hit (get_clean (ho_snapshot_cache h) sp pg) gen (current_snapshot (ho_state h) sp pg) = Some envelope
         \<or> ledger_hit gen (current_snapshot (ho_state h) sp pg) = Some envelope"
      using gen(2) Some
      by (cases "memory_hit (get_clean (ho_snapshot_cache h) sp pg) gen (current_snapshot (ho_state h) sp pg)";
          cases "ledger_hit gen (current_snapshot (ho_state h) sp pg)") auto
    have "read_snapshot js io to_json bridge' sp pg au e now h = (h', Inr read)" if "sb_permit bridge' = Inr ()" for bridge'
      using that c(2,3) Some r by (simp add: read_snapshot_def host_guarded_def host_next_def host_return_def)
    moreover have "\<not> sr_scan_performed read" using envelope(1) r by (simp add: cached_read_def)
    ultimately show ?thesis
      using gen(1) envelope r by (fastforce simp: memory_hit_def ledger_hit_def bind_eq_Some_conv split: if_splits)
  qed
qed

lemma mark_degraded_Ok:
  assumes "mark_degraded js io reason b = (b', Inr u)"
  shows "lg_snapshots (br_state b') = [] \<and> br_capabilities b' = br_capabilities b
    \<and> authorize_page (br_state b') sp pg au e now m = authorize_page (br_state b) sp pg au e now m"
proof -
  let ?b = "b\<lparr>br_lifecycle := HL_Degraded reason\<rparr>"
  obtain b1 where b1: "update_ledger js io mark_degraded_upd ?b = (b1, Inr u)" "br_state b' = br_state b1"
      "br_capabilities b' = br_capabilities b1"
    using assms by (auto simp: mark_degraded_def with_inner_def Let_def split: if_splits prod.splits)
  from update_ledger_Ok [OF b1(1)] obtain s n where s: "mark_degraded_upd (br_state b) = Inr (s, u)"
      "br_state b1 = retain_events n s" "br_capabilities b1 = br_capabilities b" by auto
  let ?s0 = "(br_state b)\<lparr>lg_snapshots := []\<rparr>"
  from s(1) obtain dirty where "append_event no_scope EK_ConnectionChanged
      (payload_of [(''status'', ''disconnected''), (''resync_required'', ''true'')]) dirty True ?s0 = Inr (s, ())"
    by (auto simp: mark_degraded_upd_def upd_simps)
  from append_event_frame(1) [OF this] obtain rec where s': "s = ?s0\<lparr>lg_event_sequence := lg_event_sequence s,
      lg_space_generations := lg_space_generations s, lg_events := lg_events ?s0 @ [rec]\<rparr>" by blast
  have "authorize_page s sp pg au e now m = authorize_page (br_state b) sp pg au e now m"
    by (rule authorize_page_cong; subst s') simp_all
  moreover have "lg_snapshots s = []" by (subst s') simp
  ultimately show ?thesis using b1 s by simp
qed

text \<open>
  The representation cache outlives the bridge. When the host is degraded, it drops its references and
  the snapshots of the ledger, but not the clean entries of the cache in memory; so a read that
  follows the loss of the bridge still returns the snapshot from before it, as long as the page has
  the same navigation and document, and does not scan.
\<close>

theorem cached_read_survives_degradation:
  assumes "host_mark_degraded js io reason at h = (h', Inr ())"
    and "read_snapshot js' io' to_json bridge sp pg au e now h' = (h'', Inr read)"
    and "get_clean (ho_snapshot_cache h) sp pg = Some envelope"
    and "authorize_page (ho_state h) sp pg au e now False = Inr gen"
    and "sv_navigation_generation envelope = pg_navigation_generation gen"
    and "sv_document_generation envelope = pg_document_generation gen"
  shows "read = cached_read envelope \<and> \<not> sr_scan_performed read"
proof -
  obtain b' where b': "mark_degraded js io reason (ho_broker h) = (b', Inr ())" "ho_broker h' = b'"
      "ho_snapshot_cache h' = ho_snapshot_cache h"
    using assms(1) by (auto simp: host_mark_degraded_def Let_def split: prod.splits)
  have s: "current_snapshot (ho_state h') sp pg = None" "authorize_page (ho_state h') sp pg au e now False = Inr gen"
    using mark_degraded_Ok [OF b'(1)] assms(4) b'(2) by (simp_all add: current_snapshot_def)
  then have hit: "memory_hit (get_clean (ho_snapshot_cache h') sp pg) gen (current_snapshot (ho_state h') sp pg) = Some envelope"
    using assms(3,5,6) b'(3) by (simp add: memory_hit_def)
  obtain h1 x where "host_section js' io' (cached_read_upd (get_clean (ho_snapshot_cache h') sp pg) sp pg au e now) h' = (h1, Inr x)"
      "(case x of Some read \<Rightarrow> host_return read | None \<Rightarrow> scan_snapshot js' io' to_json bridge sp pg au e now) h1 = (h'', Inr read)"
    using assms(2) by (auto simp: read_snapshot_def host_guarded_Ok host_next_Ok split: sum.splits)
  with host_section_Ok [OF this(1)] s(2) hit have "read = cached_read envelope"
    by (auto simp: cached_read_upd_Ok host_return_def)
  then show ?thesis by (simp add: cached_read_def)
qed

section \<open>Issued references admit actions\<close>

lemma issue_ref_upd_Ok:
  "issue_ref_upd sp pg au e now s = Inr (s', envelope) \<longleftrightarrow> s' = s \<and> (\<exists>gen record.
     authorize_page s sp pg au e now False = Inr gen \<and> current_snapshot s sp pg = Some record \<and> \<not> cr_dirty record
     \<and> cr_generation record = gen \<and> sv_navigation_generation (cr_envelope record) = pg_navigation_generation gen
     \<and> sv_document_generation (cr_envelope record) = pg_document_generation gen \<and> can_issue_refs (cr_envelope record)
     \<and> envelope = cr_envelope record)"
  by (auto simp: issue_ref_upd_def upd_simps)

lemma try_fold_each: "try_fold f a xs = Inr b \<Longrightarrow> x \<in> set xs \<Longrightarrow> \<exists>c d. f c x = Inr d"
  by (induction xs arbitrary: a) auto

lemma valid_snapshot_scope:
  assumes "validate_state js limits s = Inr ()" "current_snapshot s sp pg = Some record"
  shows "sv_space_id (cr_envelope record) = sp \<and> sv_page_id (cr_envelope record) = pg"
proof -
  obtain pages where p: "(sp, pages) \<in> set (lg_snapshots s)" "(pg, record) \<in> set pages"
    using assms(2) by (auto simp: current_snapshot_def bind_eq_Some_conv dest!: bt_get_in)
  have "validate_snapshots js limits s = Inr ()" using assms(1) by (simp add: validate_state_iff)
  then obtain count where "try_fold (\<lambda>count (space_id, pages).
       and_then (ok_or (bt_get (lg_spaces s) space_id) (LE_Corrupt ''snapshot cache references unknown space'')) (\<lambda>space.
       and_then (try_each (validate_snapshot_record js limits space_id space) pages)
       (\<lambda>_. Ok (count + length pages)))) 0 (lg_snapshots s) = Inr count"
    by (auto simp: validate_snapshots_def)
  from try_fold_each [OF this p(1)] obtain space where
      "try_each (validate_snapshot_record js limits sp space) pages = Inr ()"
    by auto
  then have "validate_snapshot_record js limits sp space (pg, record) = Inr ()" using p(2) by (simp add: try_each_Ok)
  then show ?thesis by (auto simp: validate_snapshot_record_def)
qed

lemma valid_page_scope:
  assumes "validate_state js limits s = Inr ()" "bt_get (lg_spaces s) sp = Some space" "space_page space pg = Some page"
  shows "p_space_id page = sp \<and> p_page_id page = pg"
proof -
  have "space_entry_ok limits s sp space"
    using assms(1) bt_get_in [OF assms(2)] by (auto simp: validate_state_iff)
  then show ?thesis using assms(3) by (auto simp: space_entry_ok_def page_entry_ok_def space_page_def find_Some_iff)
qed

lemma authorize_page_generation:
  assumes "authorize_page s sp pg au e now m = Inr gen" "bt_get (lg_spaces s) sp = Some space" "space_page space pg = Some page"
  shows "gen = generation_from_page page"
  using assms by (auto simp: authorize_page_def)

text \<open>
  C10: A reference the host has just issued can be acted on. Whatever the registry went through before: when
  the broker issues a reference for an element of a page, a request that carries this reference, the
  provenance of the snapshot in the ledger, and complete and current evidence for the operation passes
  the gate at once.
\<close>

theorem issued_ref_admits_action:
  assumes "ref_run (registry_new limits) hist (ho_ref_registry h)" "rg_default_ttl limits \<noteq> Some 0" "now < - 1"
    and "issue_ref js io (aq_space_id q) pg frame_id element_key au e now h = Some (h', Inr (ai_element_ref input))"
    and "aq_page_id q = Some pg" "bt_get (lg_spaces (ho_state h')) (aq_space_id q) = Some space" "space_page space pg = Some page"
    and "current_snapshot (ho_state h') (aq_space_id q) pg = Some snap"
    and "input_from_payload json (aq_payload q) = Inr (Some input)"
    and "ai_provenance input = envelope_provenance (cr_envelope snap)" "ai_frame_id input = frame_id"
    and "evidence_current (ai_provenance input) (ai_evidence input)"
    and "interactive (kind_of_operation (aq_operation q)) (ai_evidence input)"
    and "vd_target_generation (ai_evidence input) = Some (p_target_generation page)"
  shows "snd (validate_actionability_for_state json (ho_state h') q now (ho_ref_registry h')) = Inr ()"
proof -
  let ?sp = "aq_space_id q" and ?ref = "ai_element_ref input"
  obtain h1 envelope r' where h1: "host_section js io (issue_ref_upd ?sp pg au e now) h = (h1, Inr envelope)"
      "registry_issue_ref envelope frame_id element_key now (ho_ref_registry h1) = Some (r', Inr ?ref)"
      "h' = h1\<lparr>ho_ref_registry := r'\<rparr>"
    using assms(4) by (auto simp: issue_ref_def split: prod.splits sum.splits)
  from host_section_Ok [OF h1(1)] obtain n gen rcd where s: "authorize_page (ho_state h) ?sp pg au e now False = Inr gen"
      "current_snapshot (ho_state h) ?sp pg = Some rcd" "cr_generation rcd = gen" "envelope = cr_envelope rcd"
      "sv_navigation_generation (cr_envelope rcd) = pg_navigation_generation gen"
      "sv_document_generation (cr_envelope rcd) = pg_document_generation gen" "ho_state h1 = retain_events n (ho_state h)"
      "validate_state js (ld_limits (br_ledger (ho_broker h))) (ho_state h1) = Inr ()" "ho_ref_registry h1 = ho_ref_registry h"
    by (auto simp: issue_ref_upd_Ok same_memory_def)
  have same: "rcd = snap" "ho_state h' = ho_state h1" "ho_ref_registry h' = r'" using assms(8) s h1(3) by simp_all
  have gen: "gen = generation_from_page page"
    using authorize_page_generation [of "ho_state h'" ?sp pg au e now False gen space page] s assms(6,7) same by simp
  note inv = run_new_inv [OF assms(1)]
  from ref_issue_cases [OF inv, of envelope frame_id element_key now] h1(2) s(9)
  obtain rec where rec: "registry_inv limits (hist @ [(?ref, envelope_provenance envelope, now)]) r'" "er_frame_id ?ref = frame_id"
      "bt_get (rr_active r') (er_ref_id ?ref) = Some rec" "rd_element_ref rec = ?ref"
      "rd_provenance rec = envelope_provenance envelope" "rd_issued_at rec = now"
    by auto
  have prov: "ai_provenance input = envelope_provenance envelope" using assms(10) s(4) same(1) by simp
  have "\<not> isl (snd (resolve_ref ?ref frame_id (ai_provenance input) now r'))"
    using resolve_fresh [OF rec(1,3,4,6) assms(2,3)] rec(2,5) prov by simp
  then obtain r'' rec' where res: "resolve_ref ?ref frame_id (ai_provenance input) now r' = (r'', Inr rec')"
    by (metis prod.exhaust_sel sum.collapse(2))
  have valid: "ref_validate_against ?ref (ai_provenance input) = Inr ()"
    using resolve_ref_success [OF rec(1) res] rec(1) bt_get_in [OF rec(3)] rec(3,4,5) prov
    by (auto simp: registry_inv_def record_issued_def ref_matches_provenance_def ref_validate_against_Ok provenance_can_issue_refs_def)
  have scope: "sv_space_id envelope = ?sp \<and> sv_page_id envelope = pg" "p_space_id page = ?sp \<and> p_page_id page = pg"
    using valid_snapshot_scope [OF s(8)] valid_page_scope [OF s(8)] assms(6-8) same s(4) by auto
  have "proven_on input (aq_operation q) page (sv_snapshot_hash (cr_envelope snap))"
    using valid scope gen s(4-6) same(1) prov assms(12-14)
    by (auto simp: proven_on_def ref_validate_against_Ok envelope_provenance_def generation_from_page_def)
  with valid rec(2) assms(11) obtain pf where
      "validate_for_page input (aq_operation q) page (Some (sv_snapshot_hash (cr_envelope snap))) = Inr pf"
    using validate_for_page_iff [of input "aq_operation q" page] by auto
  then have "actionability_target json (ho_state h') q = Inr (Some input)"
    using assms(5-9) by (simp add: actionability_target_def)
  moreover have "\<exists>pf. actionability_check_ref (kind_of_operation (aq_operation q)) ?ref frame_id (ai_provenance input) (ai_evidence input) = Inr pf"
    using valid rec(2) assms(12,13) by (simp add: check_ref_Ok)
  ultimately show ?thesis
    using res same(3) assms(11)
    by (auto simp: validate_actionability_for_state_def check_with_registry_def registry_validate_def)
qed

section \<open>Witnesses\<close>

definition demo_host_state :: ledger_state where
  "demo_host_state = demo_gate_state\<lparr>lg_snapshots := [], lg_actions := [], lg_action_queues := [],
     lg_space_generations := [(''space_1'', 0)]\<rparr>"

lemmas demo_host_defs = demo_host_state_def demo_gate_state_def demo_gate_page_def demo_broker_defs

definition demo_host_log :: "event_sequence \<Rightarrow> ledger_event list \<Rightarrow> (opaque_id, (opaque_id, snapshot_cache_record) btree) btree \<Rightarrow> ledger_state" where
  "demo_host_log n es ns = demo_host_state\<lparr>lg_event_sequence := n, lg_events := es, lg_snapshots := ns\<rparr>"

lemma demo_host_valid:
  assumes "validate_events ledger_limits_default (demo_host_log n es ns) = Inr ()" "length es \<le> 4096"
    and "validate_snapshots demo_js ledger_limits_default (demo_host_log n es ns) = Inr ()"
  shows "validate_state demo_js ledger_limits_default (demo_host_log n es ns) = Ok ()"
proof -
  let ?s = "demo_host_log n es ns"
  note defs = demo_host_log_def demo_host_defs
  have s: "lg_spaces ?s = [(''space_1'', demo_space\<lparr>s_space_id := ''space_1'', s_profile_binding := PF_Unbound,
      s_pages := [demo_gate_page]\<rparr>)]"
    by (simp add: demo_host_log_def demo_host_state_def demo_gate_state_def)
  have "validate_counts ledger_limits_default ?s = Inr ()" using assms(2) by (simp add: validate_counts_def defs LEDGER_SCHEMA_VERSION_def)
  moreover have "validate_indexes ?s = Inr ()"
    by (simp add: validate_indexes_def defs bt_contains_def binding_index_wrong_def)
  moreover have "validate_fence_lifecycles ?s = Inr ()" by (simp add: validate_fence_lifecycles_def defs)
  moreover have "validate_control_tickets ?s = Inr ()" by (simp add: validate_control_tickets_def defs)
  moreover have "validate_bytes demo_js ledger_limits_default ?s = Inr ()" by (simp add: validate_bytes_def defs)
  moreover have "distinct (page_ids_of (lg_spaces ?s))" by (simp add: page_ids_of_def s)
  moreover have "lg_pending_fences ?s = []" "lg_takeover_proofs ?s = []" by (simp_all add: defs)
  moreover have "actions_ok demo_js ledger_limits_default ?s"
    by (simp add: actions_ok_def queued_actions_def defs bt_values_def)
  moreover have "space_entry_ok ledger_limits_default ?s ''space_1''
      (demo_space\<lparr>s_space_id := ''space_1'', s_profile_binding := PF_Unbound, s_pages := [demo_gate_page]\<rparr>)"
    by (simp add: space_entry_ok_def defs text_ok_def code_points_def utf8_def utf8_units_def is_control_def
        lifecycle_matches_lease_def page_entry_ok_def page_lifecycle_consistent_def admits_agent_mutations_def)
  ultimately show ?thesis using assms(1,3) by (simp add: validate_state_iff s del: try_fold.simps)
qed

lemma demo_host_commit:
  assumes "f (br_state b) = Inr (s, v)" "validate_state demo_js ledger_limits_default s = Ok ()" "length (lg_events s) \<le> 4096"
    and "ld_limits (br_ledger b) = ledger_limits_default"
  shows "update_ledger demo_js demo_io f b
    = (b\<lparr>br_ledger := \<lparr>ld_state = s, ld_limits = ledger_limits_default, ld_disk = Some s\<rparr>\<rparr>, Inr v)"
proof -
  have "retain_events 4096 s = s" using assms(3) by (simp add: retain_events_def)
  then show ?thesis using assms
    by (cases "br_ledger b") (simp add: update_ledger_def ledger_update_def run_upd_def persist_current_def before_rename_def checks.simps
        demo_io_def demo_js_def ledger_limits_default_def reject_if_def)
qed

lemma global_event_total:
  assumes "lg_broker_epoch s \<noteq> 0" "unat (lg_event_sequence s) + 1 < 2 ^ 64"
    and "lg_extension_browser_session_epoch s \<noteq> Some 0" "lg_extension_worker_instance_epoch s \<noteq> Some 0"
    and "validate_public_payload_shape pl 512 = Inr ()" "event \<noteq> EK_Heartbeat"
  shows "\<exists>rec. append_event no_scope event pl dirty resync s
      = Inr (s\<lparr>lg_event_sequence := lg_event_sequence s + 1, lg_events := lg_events s @ [rec]\<rparr>, ())
    \<and> ev_protocol rec = PROTOCOL_VERSION \<and> ev_broker_epoch rec = lg_broker_epoch s
    \<and> ev_sequence rec = lg_event_sequence s + 1 \<and> ev_payload rec = pl \<and> ev_scope rec = no_scope"
proof -
  have seq: "counter_checked_next (lg_event_sequence s) = Some (lg_event_sequence s + 1)"
    "unat (lg_event_sequence s + 1) = Suc (unat (lg_event_sequence s))"
    using assms(2) counter_next_room [of "lg_event_sequence s" 0] by auto
  have pos: "lg_event_sequence s + 1 \<noteq> 0" using seq(2) by (metis nat.distinct(1) unat_0)
  have len: "length (show_nat (Suc (unat (lg_event_sequence s)))) \<le> 20" "length (show_nat (unat (lg_broker_epoch s))) \<le> 20"
    using length_show_u64 [of "lg_event_sequence s + 1"] length_show_u64 [of "lg_broker_epoch s"] seq(2) by auto
  from seq pos len assms show ?thesis
    by (auto simp: append_event_def append_event_with_attribution_def next_space_generation_def upd_simps no_scope_def event_id_ok
       validate_admission_def validate_routing_def event_validate_scope_def scope_validate_def metadata_validate_def metadata_for_event_def event_metadata_of_def
       validate_for_scope_def broker_event_attribution_def attribution_broker_def is_some_and_iff)
qed

lemma demo_log_empty: "validate_state demo_js ledger_limits_default (demo_host_log 0 [] []) = Ok ()"
  by (rule demo_host_valid) (simp_all add: validate_events_def validate_snapshots_def demo_host_log_def)

lemma demo_degraded:
  "\<exists>rec. mark_degraded_upd (demo_host_log 0 [] []) = Inr (demo_host_log 1 [rec] [], ())
     \<and> validate_state demo_js ledger_limits_default (demo_host_log 1 [rec] []) = Ok ()"
proof -
  let ?pl = "payload_of [(''status'', ''disconnected''), (''resync_required'', ''true'')]" and ?s = "demo_host_log 0 [] []"
  have pl: "validate_public_payload_shape ?pl 512 = Inr ()"
    by (simp add: validate_public_payload_shape_def payload_of_def code_points_def reject_if_def raw_browser_identity_def
        normalized_payload_key_def is_ascii_alphanumeric_def code_point_lowercase_def utf8_def utf8_units_def checks.simps)
  have s: "?s\<lparr>lg_snapshots := []\<rparr> = ?s" by (simp add: demo_host_log_def demo_host_state_def)
  have f: "lg_broker_epoch ?s = 1" "lg_event_sequence ?s = 0" "lg_events ?s = []"
    "lg_extension_browser_session_epoch ?s = None" "lg_extension_worker_instance_epoch ?s = None"
    by (simp_all add: demo_host_log_def demo_host_defs)
  obtain rec where rec: "append_event no_scope EK_ConnectionChanged ?pl (Some DR_Reconnect) True ?s
        = Inr (?s\<lparr>lg_event_sequence := 1, lg_events := [rec]\<rparr>, ())"
      "ev_protocol rec = PROTOCOL_VERSION" "ev_broker_epoch rec = 1" "ev_sequence rec = 1" "ev_payload rec = ?pl" "ev_scope rec = no_scope"
    using global_event_total [of ?s ?pl EK_ConnectionChanged "Some DR_Reconnect" True] pl f by auto
  have "validate_events ledger_limits_default (demo_host_log 1 [rec] []) = Inr ()"
    using rec(2-) pl by (simp add: validate_events_def validate_event_def validate_event_scope_def no_scope_def demo_host_log_def demo_host_defs checks.simps reject_if_def)
  then have "validate_state demo_js ledger_limits_default (demo_host_log 1 [rec] []) = Ok ()" by (rule demo_host_valid) (simp_all add: validate_snapshots_def demo_host_log_def)
  moreover have "?s\<lparr>lg_event_sequence := 1, lg_events := [rec]\<rparr> = demo_host_log 1 [rec] []" by (simp add: demo_host_log_def)
  ultimately show ?thesis using rec(1) by (auto simp: mark_degraded_upd_def upd_bind_def upd_mod_def s)
qed

definition demo_host :: host where
  "demo_host = \<lparr>ho_broker = demo_broker\<lparr>br_ledger := \<lparr>ld_state = demo_host_log 0 [] [], ld_limits = ledger_limits_default, ld_disk = None\<rparr>,
       br_capabilities := [CP_Snapshot]\<rparr>,
     ho_ref_registry = registry_new ref_limits_default,
     ho_snapshot_cache = store_clean (cache_new 8 100) (key_from_envelope demo_ref_envelope) demo_ref_envelope None\<rparr>"

definition demo_snapshot_bridge :: snapshot_bridge where
  "demo_snapshot_bridge = \<lparr>sb_permit = Inr (), sb_observe = Inr [], sb_snapshot = Inl (invalid_argument ''bridge lost'')\<rparr>"

lemma get_clean_stored:
  "get_clean (store_clean (cache_new n m) key envelope None) (ck_space_id key) (ck_page_id key) = Some (envelope\<lparr>sv_cache_state := CA_Cached\<rparr>)"
  by (simp add: get_clean_def get_clean_with_key_def store_clean_def cache_new_def page_key_def km_insert_def km_get_def
      is_clean_def Let_def)

lemma demo_clean: "get_clean (ho_snapshot_cache demo_host) ''space_1'' ''page_1'' = Some (demo_ref_envelope\<lparr>sv_cache_state := CA_Cached\<rparr>)"
  using get_clean_stored [of 8 100 "key_from_envelope demo_ref_envelope" demo_ref_envelope]
  by (simp add: demo_host_def key_from_envelope_def demo_ref_envelope_def demo_envelope_def)

lemma demo_page_authorized:
  "authorize_page (demo_host_log n es ns) ''space_1'' ''page_1'' demo_authority 6 10 False = Inr (generation_from_page demo_gate_page)"
  by (simp add: authorize_page_def authorize_space_Ok authority_is_current_def authorize_profile_for_mutation_def demo_host_log_def
      demo_host_defs record_simps space_page_def)

lemma demo_cached_section:
  assumes "ho_state h = demo_host_log n es []" "validate_state demo_js ledger_limits_default (demo_host_log n es []) = Ok ()" "length es \<le> 4096"
    and "ld_limits (br_ledger (ho_broker h)) = ledger_limits_default" "br_capabilities (ho_broker h) = [CP_Snapshot]"
    and "ho_snapshot_cache h = ho_snapshot_cache demo_host" "sb_permit bridge = Inr ()"
  shows "\<exists>h'. read_snapshot demo_js demo_io to_json bridge ''space_1'' ''page_1'' demo_authority 6 10 h
    = (h', Inr (cached_read (demo_ref_envelope\<lparr>sv_cache_state := CA_Cached\<rparr>)))"
proof -
  let ?env = "demo_ref_envelope\<lparr>sv_cache_state := CA_Cached\<rparr>" and ?gen = "generation_from_page demo_gate_page"
  let ?f = "cached_read_upd (get_clean (ho_snapshot_cache h) ''space_1'' ''page_1'') ''space_1'' ''page_1'' demo_authority 6 10"
  have "current_snapshot (ho_state h) ''space_1'' ''page_1'' = None"
    by (simp add: assms(1) current_snapshot_def demo_host_log_def demo_host_state_def)
  then have "memory_hit (get_clean (ho_snapshot_cache h) ''space_1'' ''page_1'') ?gen (current_snapshot (ho_state h) ''space_1'' ''page_1'') = Some ?env"
    by (simp add: assms(6) demo_clean memory_hit_def generation_from_page_def demo_gate_page_def demo_ref_envelope_def demo_envelope_def)
  then have "?f (ho_state h) = Inr (demo_host_log n es [], Some (cached_read ?env))"
    using demo_page_authorized [of n es "[]"] by (auto simp: cached_read_upd_Ok assms(1))
  from demo_host_commit [of ?f "ho_broker h", OF this assms(2)] assms(3,4)
  have "\<exists>b. update_ledger demo_js demo_io ?f (ho_broker h) = (b, Inr (Some (cached_read ?env)))"
    by (simp add: demo_host_log_def)
  then show ?thesis using assms(5,7)
    by (auto simp: read_snapshot_def host_guarded_def host_next_def host_section_def host_with_inner_def host_update_def
        host_return_def require_capability_def Let_def)
qed

theorem snapshot_reads_current_witness:
  "\<exists>h' envelope. read_snapshot demo_js demo_io (\<lambda>_. Inr 0) demo_snapshot_bridge ''space_1'' ''page_1'' demo_authority 6 10 demo_host
       = (h', Inr (cached_read envelope))
     \<and> read_snapshot demo_js demo_io (\<lambda>_. Inr 0) (demo_snapshot_bridge\<lparr>sb_snapshot := Inr demo_ref_envelope\<rparr>)
         ''space_1'' ''page_1'' demo_authority 6 10 demo_host = (h', Inr (cached_read envelope))"
proof -
  let ?env = "demo_ref_envelope\<lparr>sv_cache_state := CA_Cached\<rparr>"
  obtain h' where h': "read_snapshot demo_js demo_io (\<lambda>_. Inr 0) demo_snapshot_bridge ''space_1'' ''page_1'' demo_authority 6 10 demo_host
       = (h', Inr (cached_read ?env))"
    using demo_cached_section [of demo_host 0 "[]" demo_snapshot_bridge "\<lambda>_. Inr 0"] demo_log_empty
    by (auto simp: demo_host_def demo_broker_def demo_snapshot_bridge_def)
  have "\<not> sr_scan_performed (cached_read ?env)" by (simp add: cached_read_def)
  then have "read_snapshot demo_js demo_io (\<lambda>_. Inr 0) (demo_snapshot_bridge\<lparr>sb_snapshot := Inr demo_ref_envelope\<rparr>)
      ''space_1'' ''page_1'' demo_authority 6 10 demo_host = (h', Inr (cached_read ?env))"
    using snapshot_reads_current [OF h'] by (simp add: demo_snapshot_bridge_def)
  with h' show ?thesis by blast
qed

theorem cached_read_survives_degradation_witness:
  "\<exists>h' h'' read. host_mark_degraded demo_js demo_io HD_ExtensionLost 5 demo_host = (h', Inr ())
     \<and> read_snapshot demo_js demo_io (\<lambda>_. Inr 0) demo_snapshot_bridge ''space_1'' ''page_1'' demo_authority 6 10 h' = (h'', Inr read)
     \<and> \<not> sr_scan_performed read"
proof -
  let ?b = "ho_broker demo_host\<lparr>br_lifecycle := HL_Degraded HD_ExtensionLost\<rparr>"
  obtain rec where rec: "mark_degraded_upd (demo_host_log 0 [] []) = Inr (demo_host_log 1 [rec] [], ())"
      "validate_state demo_js ledger_limits_default (demo_host_log 1 [rec] []) = Ok ()"
    using demo_degraded by blast
  have "update_ledger demo_js demo_io mark_degraded_upd ?b = (?b\<lparr>br_ledger := \<lparr>ld_state = demo_host_log 1 [rec] [],
      ld_limits = ledger_limits_default, ld_disk = Some (demo_host_log 1 [rec] [])\<rparr>\<rparr>, Inr ())"
    by (rule demo_host_commit) (use rec in \<open>simp_all add: demo_host_def demo_host_log_def\<close>)
  then obtain h' where h': "host_mark_degraded demo_js demo_io HD_ExtensionLost 5 demo_host = (h', Inr ())"
      "ho_state h' = demo_host_log 1 [rec] []" "ld_limits (br_ledger (ho_broker h')) = ledger_limits_default"
      "br_capabilities (ho_broker h') = [CP_Snapshot]" "ho_snapshot_cache h' = ho_snapshot_cache demo_host"
    by (auto simp: host_mark_degraded_def mark_degraded_def with_inner_def demo_host_def demo_broker_def valid_lifecycle_transition_def Let_def)
  obtain h'' read where h'': "read_snapshot demo_js demo_io (\<lambda>_. Inr 0) demo_snapshot_bridge ''space_1'' ''page_1'' demo_authority 6 10 h' = (h'', Inr read)"
    using demo_cached_section [OF h'(2) rec(2) _ h'(3-5), of demo_snapshot_bridge "\<lambda>_. Inr 0"] by (auto simp: demo_snapshot_bridge_def)
  have "authorize_page (ho_state demo_host) ''space_1'' ''page_1'' demo_authority 6 10 False = Inr (generation_from_page demo_gate_page)"
    using demo_page_authorized by (simp add: demo_host_def)
  from cached_read_survives_degradation [OF h'(1) h'' demo_clean this] have "\<not> sr_scan_performed read"
    by (simp add: generation_from_page_def demo_gate_page_def demo_ref_envelope_def demo_envelope_def cached_read_def)
  with h'(1) h'' show ?thesis by blast
qed

definition demo_page_snapshots :: "(opaque_id, (opaque_id, snapshot_cache_record) btree) btree" where
  "demo_page_snapshots = [(''space_1'', [(''page_1'', \<lparr>cr_envelope = demo_ref_envelope,
     cr_generation = generation_from_page demo_gate_page, cr_dirty = False\<rparr>)])]"

definition demo_issuing_host :: host where
  "demo_issuing_host = demo_host\<lparr>ho_broker := (ho_broker demo_host)\<lparr>br_ledger :=
     \<lparr>ld_state = demo_host_log 0 [] demo_page_snapshots, ld_limits = ledger_limits_default, ld_disk = None\<rparr>\<rparr>\<rparr>"

lemma demo_snapshots_valid: "validate_state demo_js ledger_limits_default (demo_host_log 0 [] demo_page_snapshots) = Ok ()"
proof (rule demo_host_valid)
  have v: "snapshot_validate demo_ref_envelope = Inr ()"
    using demo_ref_envelope_valid by (auto simp: snapshot_invalid_def split: sum.splits)
  have m: "matches_page (generation_from_page demo_gate_page) demo_gate_page" by (simp add: matches_page_def generation_from_page_def)
  have i: "sv_space_id demo_ref_envelope = ''space_1''" "sv_page_id demo_ref_envelope = ''page_1''"
    by (simp_all add: demo_ref_envelope_def demo_envelope_def)
  have "validate_snapshot_record demo_js ledger_limits_default ''space_1'' (demo_space\<lparr>s_space_id := ''space_1'',
      s_profile_binding := PF_Unbound, s_pages := [demo_gate_page]\<rparr>) (''page_1'', \<lparr>cr_envelope = demo_ref_envelope,
      cr_generation = generation_from_page demo_gate_page, cr_dirty = False\<rparr>) = Inr ()"
    using m i v by (simp add: validate_snapshot_record_def demo_js_def ledger_limits_default_def space_page_def)
      (simp add: demo_gate_page_def)
  then show "validate_snapshots demo_js ledger_limits_default (demo_host_log 0 [] demo_page_snapshots) = Inr ()"
    by (simp add: validate_snapshots_def demo_host_log_def demo_page_snapshots_def demo_host_state_def demo_gate_state_def)
       (simp add: ledger_limits_default_def)
qed (simp_all add: validate_events_def demo_host_log_def)

lemma demo_issue_ref:
  "\<exists>h'. issue_ref demo_js demo_io ''space_1'' ''page_1'' ''frame_1'' ''element_a'' demo_authority 6 10 demo_issuing_host
     = Some (h', Inr demo_ref) \<and> ho_state h' = demo_host_log 0 [] demo_page_snapshots"
proof -
  let ?s = "demo_host_log 0 [] demo_page_snapshots" and ?f = "issue_ref_upd ''space_1'' ''page_1'' demo_authority 6 10"
  have "current_snapshot ?s ''space_1'' ''page_1'' = Some \<lparr>cr_envelope = demo_ref_envelope,
      cr_generation = generation_from_page demo_gate_page, cr_dirty = False\<rparr>"
    by (simp add: current_snapshot_def demo_host_log_def demo_page_snapshots_def)
  moreover have "can_issue_refs demo_ref_envelope"
    by (simp add: can_issue_refs_def provenance_can_issue_refs_def envelope_provenance_def demo_ref_envelope_def demo_envelope_def)
  moreover have "sv_navigation_generation demo_ref_envelope = 2" "sv_document_generation demo_ref_envelope = 3"
    "pg_navigation_generation (generation_from_page demo_gate_page) = 2" "pg_document_generation (generation_from_page demo_gate_page) = 3"
    by (simp_all add: demo_ref_envelope_def demo_envelope_def generation_from_page_def demo_gate_page_def)
  ultimately have "?f ?s = Inr (?s, demo_ref_envelope)"
    using demo_page_authorized by (simp add: issue_ref_upd_Ok)
  then have "update_ledger demo_js demo_io ?f (ho_broker demo_issuing_host) = ((ho_broker demo_issuing_host)\<lparr>br_ledger :=
      \<lparr>ld_state = ?s, ld_limits = ledger_limits_default, ld_disk = Some ?s\<rparr>\<rparr>, Inr demo_ref_envelope)"
    using demo_host_commit [of ?f "ho_broker demo_issuing_host"] demo_snapshots_valid
    by (simp add: demo_issuing_host_def demo_host_log_def)
  moreover obtain r where "registry_issue_ref demo_ref_envelope ''frame_1'' ''element_a'' 10 (ho_ref_registry demo_issuing_host) = Some (r, Inr demo_ref)"
    using demo_issue by (auto simp: demo_issuing_host_def demo_host_def)
  ultimately show ?thesis
    by (simp add: issue_ref_def host_section_def host_with_inner_def host_update_def Let_def)
qed

theorem issued_ref_admits_action_witness:
  "\<exists>h'. issue_ref demo_js demo_io ''space_1'' ''page_1'' ''frame_1'' ''element_a'' demo_authority 6 10 demo_issuing_host
       = Some (h', Inr demo_ref)
     \<and> snd (validate_actionability_for_state demo_gate_json (ho_state h') demo_gate_request 10 (ho_ref_registry h')) = Inr ()"
proof -
  obtain h' where h': "issue_ref demo_js demo_io ''space_1'' ''page_1'' ''frame_1'' ''element_a'' demo_authority 6 10 demo_issuing_host
       = Some (h', Inr demo_ref)" "ho_state h' = demo_host_log 0 [] demo_page_snapshots"
    using demo_issue_ref by blast
  let ?space = "demo_space\<lparr>s_space_id := ''space_1'', s_profile_binding := PF_Unbound, s_pages := [demo_gate_page]\<rparr>"
    and ?snap = "\<lparr>cr_envelope = demo_ref_envelope, cr_generation = generation_from_page demo_gate_page, cr_dirty = False\<rparr>"
  have q: "aq_space_id demo_gate_request = ''space_1''" "aq_page_id demo_gate_request = Some ''page_1''"
    "aq_operation demo_gate_request = OP_Click"
    by (simp_all add: demo_gate_request_def demo_ledger_request_def)
  have s: "bt_get (lg_spaces (ho_state h')) ''space_1'' = Some ?space" "space_page ?space ''page_1'' = Some demo_gate_page"
    "current_snapshot (ho_state h') ''space_1'' ''page_1'' = Some ?snap"
    using h'(2) by (simp_all add: demo_host_log_def demo_host_state_def demo_gate_state_def current_snapshot_def demo_page_snapshots_def
        space_page_def) (simp add: demo_gate_page_def)
  have i: "ai_element_ref demo_gate_input = demo_ref" "ai_provenance demo_gate_input = envelope_provenance (cr_envelope ?snap)"
    "ai_frame_id demo_gate_input = ''frame_1''" by (simp_all add: demo_gate_input_def)
  have run: "ref_run (registry_new ref_limits_default) [] (ho_ref_registry demo_issuing_host)"
    by (simp add: demo_issuing_host_def demo_host_def ref_run.start)
  have "snd (validate_actionability_for_state demo_gate_json (ho_state h') demo_gate_request 10 (ho_ref_registry h')) = Inr ()"
    by (rule issued_ref_admits_action [OF run, where q = demo_gate_request and pg = "''page_1''" and input = demo_gate_input
          and space = ?space and page = demo_gate_page and snap = ?snap])
       (use h' s i q demo_gate_payload demo_gate_proven in \<open>simp_all add: ref_limits_default_def demo_gate_page_def\<close>)
  with h'(1) show ?thesis by blast
qed

end
