(* ===== verification/Bridge_Payloads.thy ===== *)
theory Bridge_Payloads
  imports Bridge_Updates
begin

text \<open>
  Which keys the durable payload of a browser event may have, and which values it keeps
  (\<^verbatim>\<open>bridge_event_payload\<close> in \<^verbatim>\<open>crates/agentyc-host/src/broker.rs\<close>).
\<close>

section \<open>Keys\<close>

lemma bt_get_insert_same: "bt_get (bt_insert k v m) k = Some v"
  by (induction m) auto

lemma bt_get_insert_other: "j \<noteq> k \<Longrightarrow> bt_get (bt_insert k v m) j = bt_get m j"
  by (induction m) auto

lemma bt_keys_or_insert: "bt_keys (or_insert key v m) \<subseteq> insert (code_points key) (bt_keys m)"
  by (simp add: or_insert_def keys_bt_insert subset_insertI)

lemma bt_keys_copy_field: "bt_keys (copy_field source field m) \<subseteq> insert (code_points (snd field)) (bt_keys m)"
  using bt_keys_or_insert by (auto simp: copy_field_def split: option.split)

lemma bt_keys_copy_fields: "bt_keys (fold (copy_field source) fs m) \<subseteq> code_points ` snd ` set fs \<union> bt_keys m"
  using bt_keys_copy_field by (induction fs arbitrary: m) (simp, fastforce)

lemma bt_keys_copy_sources:
  "bt_keys (fold (\<lambda>source m. fold (copy_field source) fs m) sources m) \<subseteq> code_points ` snd ` set fs \<union> bt_keys m"
  using bt_keys_copy_fields [of _ fs] by (induction sources arbitrary: m) (simp, fastforce)

lemma bt_keys_copy_nested: "bt_keys (fold copy_nested entries m) \<subseteq> code_points ` snd ` snd ` set entries \<union> bt_keys m"
proof (induction entries arbitrary: m)
  case (Cons entry entries)
  have "bt_keys (copy_nested entry m) \<subseteq> insert (code_points (snd (snd entry))) (bt_keys m)"
    using bt_keys_or_insert by (auto simp: copy_nested_def split: prod.split option.split)
  then show ?case using Cons [of "copy_nested entry m"] by auto
qed simp


text \<open>The keys that a durable payload may have: the table, the nested names and the three the broker adds.\<close>

definition bridge_payload_keys :: "string list" where
  "bridge_payload_keys = map snd bridge_fields @ [''url'', ''method'', ''resource_type'', ''status'', ''status_text'',
     ''reason'', ''wait_kind'', ''navigation'']"

text \<open>The steps of the broker: the copied fields, the nested ones, and the two names of the wait.\<close>

definition copied_fields :: "utext \<Rightarrow> json_map \<Rightarrow> payload" where
  "copied_fields name payload = fold (\<lambda>source m. fold (copy_field source) bridge_fields m)
     (payload # (case object_field payload ''params'' of Some params \<Rightarrow> [params] | None \<Rightarrow> []))
     (bt_insert (code_points ''reason'') name [])"

definition nested_fields :: "json_map \<Rightarrow> (json_map option \<times> string \<times> string) list" where
  "nested_fields payload =
     (let object = (\<lambda>key. Option.bind (object_field payload ''params'') (\<lambda>params. object_field params key))
      in [(object ''request'', ''url'', ''url''), (object ''response'', ''url'', ''url''), (object ''frame'', ''url'', ''url''),
          (object ''request'', ''method'', ''method''), (object ''request'', ''resourceType'', ''resource_type''),
          (object ''response'', ''status'', ''status''), (object ''response'', ''statusText'', ''status_text'')])"

lemma bridge_event_payload_steps:
  "\<exists>kind navigation. bridge_event_payload name payload
     = (let m = bt_insert (code_points ''wait_kind'') kind (fold copy_nested (nested_fields payload) (copied_fields name payload))
        in case navigation of Some n \<Rightarrow> bt_insert (code_points ''navigation'') (code_points n) m | None \<Rightarrow> m)"
  unfolding bridge_event_payload_def nested_fields_def copied_fields_def Let_def split_beta by (rule exI, rule exI, rule refl)

lemma payload_key_names:
  "''reason'' \<in> set bridge_payload_keys" "''wait_kind'' \<in> set bridge_payload_keys" "''navigation'' \<in> set bridge_payload_keys"
  "snd ` set bridge_fields \<subseteq> set bridge_payload_keys" "snd ` snd ` set (nested_fields payload) \<subseteq> set bridge_payload_keys"
  unfolding bridge_payload_keys_def nested_fields_def Let_def set_append set_map by (simp, simp, simp, blast, simp)

lemma bridge_payload_keys: "bt_keys (bridge_event_payload name payload) \<subseteq> code_points ` set bridge_payload_keys"
proof -
  let ?keys = "code_points ` set bridge_payload_keys" and ?start = "bt_insert (code_points ''reason'') name []"
  have "bt_keys ?start \<subseteq> ?keys" using payload_key_names(1) by simp
  moreover have "bt_keys (copied_fields name payload) \<subseteq> code_points ` snd ` set bridge_fields \<union> bt_keys ?start"
    unfolding copied_fields_def by (rule bt_keys_copy_sources)
  ultimately have copied: "bt_keys (copied_fields name payload) \<subseteq> ?keys"
    using image_mono [OF payload_key_names(4), of code_points] by blast
  have nested: "bt_keys (fold copy_nested (nested_fields payload) (copied_fields name payload)) \<subseteq> ?keys"
    using bt_keys_copy_nested [of "nested_fields payload" "copied_fields name payload"] copied
      image_mono [OF payload_key_names(5), of code_points] by blast
  obtain kind navigation where s: "bridge_event_payload name payload
     = (let m = bt_insert (code_points ''wait_kind'') kind (fold copy_nested (nested_fields payload) (copied_fields name payload))
        in case navigation of Some n \<Rightarrow> bt_insert (code_points ''navigation'') (code_points n) m | None \<Rightarrow> m)"
    using bridge_event_payload_steps by blast
  show ?thesis unfolding s Let_def
    by (cases navigation; simp only: option.case keys_bt_insert insert_subset)
       (use nested payload_key_names(2,3) in blast)+
qed

section \<open>Values\<close>

lemma or_insert_keeps: "bt_get m k = Some v \<Longrightarrow> bt_get (or_insert key x m) k = Some v"
  by (cases "k = code_points key") (auto simp: or_insert_def bt_contains_def bt_get_insert_other)

lemma copy_keeps:
  "bt_get m k = Some v \<Longrightarrow> bt_get (copy_field source field m) k = Some v"
  "bt_get m k = Some v \<Longrightarrow> bt_get (copy_nested entry m) k = Some v"
  by (auto simp: copy_field_def copy_nested_def or_insert_keeps split: option.split prod.split)

lemma fold_keeps:
  assumes "\<And>x m. bt_get m k = Some v \<Longrightarrow> bt_get (f x m) k = Some v" "bt_get m k = Some v"
  shows "bt_get (fold f xs m) k = Some v"
  using assms(2) by (induction xs arbitrary: m) (auto intro: assms(1))

text \<open>A field of the event that no earlier entry of the table can hide is kept.\<close>

lemma bridge_copied:
  assumes "bridge_fields = pre @ (key, key) # post" "key \<notin> snd ` set pre" "key \<notin> {''reason'', ''wait_kind'', ''navigation''}"
    and "Option.bind (json_field payload key) bridge_field_text = Some t" "copied_text t"
  shows "bt_get (bridge_event_payload name payload) (code_points key) = Some t"
proof -
  let ?k = "code_points key" and ?start = "bt_insert (code_points ''reason'') name []"
  let ?before = "fold (copy_field payload) pre ?start"
  have names: "?k \<noteq> code_points ''reason''" "?k \<noteq> code_points ''wait_kind''" "?k \<noteq> code_points ''navigation''"
    using assms(3) by (simp_all add: code_points_inj)
  have "?k \<notin> code_points ` snd ` set pre" using assms(2) by (auto simp: code_points_inj image_iff)
  moreover have "bt_keys ?start = {code_points ''reason''}" by simp
  ultimately have "?k \<notin> bt_keys ?before"
    using bt_keys_copy_fields [of payload pre ?start] names(1) by blast
  then have first: "bt_get (copy_field payload (key, key) ?before) ?k = Some t"
    using assms(4,5) by (auto simp: copy_field_def or_insert_def bt_contains_def bt_get_None bt_get_insert_same)
  have fields: "bt_get (fold (copy_field source) fs m) ?k = Some t" if "bt_get m ?k = Some t" for source fs m
    by (rule fold_keeps) (auto intro: copy_keeps that)
  have own: "bt_get (fold (copy_field payload) bridge_fields ?start) ?k = Some t"
    unfolding assms(1) fold_append fold_simps(2) comp_apply by (rule fields [OF first])
  have "bt_get (copied_fields name payload) ?k = Some t"
    unfolding copied_fields_def fold_simps(2) by (rule fold_keeps [OF fields own])
  then have "bt_get (fold copy_nested (nested_fields payload) (copied_fields name payload)) ?k = Some t"
    by (intro fold_keeps copy_keeps)
  then show ?thesis using bridge_event_payload_steps [of name payload] names
    by (auto simp: Let_def bt_get_insert_other split: option.splits)
qed

end
