(* ===== verification/Bridge_Events.thy ===== *)
theory Bridge_Events
  imports Broker_Snapshots Bridge_Payloads Observability
begin

text \<open>
  What an event of the browser side does to the host (\<^verbatim>\<open>crates/agentyc-host/src/broker.rs\<close>,
  \<^verbatim>\<open>apply_bridge_event\<close> and the observability queries): the effect on the references and on the cached
  snapshots, and the redacted side records, around the transaction of \<open>Bridge_Updates\<close>.
\<close>

section \<open>The effect on the memory\<close>

definition global_event_effect :: "bridge_event \<Rightarrow> timestamp \<Rightarrow> host \<Rightarrow> host" where
  "global_event_effect e now h =
     h\<lparr>ho_ref_registry := fst (invalidate_all now (ho_ref_registry h)),
       ho_snapshot_cache := (if clears_snapshots (be_dirty_reason e)
         then fst (invalidate_all_with_reason (ho_snapshot_cache h) (snapshot_dirty_reason (be_dirty_reason e)))
         else ho_snapshot_cache h)\<rparr>"

definition scoped_event_effect :: "bridge_event \<Rightarrow> opaque_id \<Rightarrow> opaque_id \<Rightarrow> timestamp \<Rightarrow> host \<Rightarrow> host" where
  "scoped_event_effect e space_id page_id now h =
     h\<lparr>ho_ref_registry := fst (case be_frame_id e of
           Some frame_id \<Rightarrow> invalidate_frame space_id page_id frame_id now (ho_ref_registry h)
         | None \<Rightarrow> invalidate_scope space_id page_id now (ho_ref_registry h)),
       ho_snapshot_cache := fst (invalidate_with_reason (ho_snapshot_cache h) space_id page_id
         (snapshot_dirty_reason (be_dirty_reason e)))\<rparr>"

definition bridge_event_effect :: "bridge_event \<Rightarrow> authority_ticket \<Rightarrow> timestamp \<Rightarrow> ledger_state \<Rightarrow> host \<Rightarrow> host" where
  "bridge_event_effect e authority now s h =
     (if isl (authorize_ticket s authority) then h
      else if be_global e then global_event_effect e now h
      else (case event_plan e authority s of
          Inr (Some (space, page, changed)) \<Rightarrow>
            if snapshot_dirty e changed then scoped_event_effect e (the (be_space_id e)) (the (be_page_id e)) now h else h
        | _ \<Rightarrow> h))"

section \<open>Side records\<close>

definition bounded_string_map :: "json option \<Rightarrow> (utext, utext) btree" where
  "bounded_string_map value =
     (case Option.bind value json_as_object of
        None \<Rightarrow> []
      | Some object \<Rightarrow> bt_collect (take 128 (List.map_filter
          (\<lambda>(key, value). map_option (Pair key) (json_as_str value)) object)))"

text \<open>\<^verbatim>\<open>payload.get(a).or_else(|| payload.get(b))\<close>: the first key that is present, whatever its value.\<close>

definition first_field :: "json_map \<Rightarrow> string list \<Rightarrow> json option" where
  "first_field payload keys = fold (\<lambda>key found. or_field found (json_field payload key)) keys None"

definition record_side_state_event ::
  "observability_store \<Rightarrow> utext \<Rightarrow> json_map \<Rightarrow> observation_scope \<Rightarrow> timestamp
   \<Rightarrow> observability_store \<times> (host_error, unit) result" where
  "record_side_state_event store name payload scope now =
     (let text = (\<lambda>keys d. unwrap_or (Option.bind (first_field payload keys) json_as_str) d) in
      if text_starts_with name ''log.'' then
        record_log store scope
          (unwrap_or (Option.bind (str_field payload ''level'') (\<lambda>t. log_level_parse (ascii_text t))) LL_Info)
          (text [''message'', ''text'', ''value''] (code_points ''logical log event'')) now
      else if text_starts_with name ''network.'' then
        record_network store scope (text [''url'', ''href''] (code_points ''unknown'')) (text [''method''] (code_points ''GET''))
          (Option.bind (Option.bind (first_field payload [''status'', ''response_status'']) json_as_u64)
            (\<lambda>v. if unat v < 65536 then Some (ucast v) else None))
          (text [''resource_type'', ''type''] (code_points ''other''))
          (bounded_string_map (json_field payload ''request_headers''))
          (bounded_string_map (json_field payload ''response_headers''))
          (str_field payload ''request_body'') (str_field payload ''response_body'') now
      else if text_starts_with name ''trace.'' then
        record_trace store scope (text [''name'', ''operation''] name)
          (Option.bind (json_field payload ''duration_ms'') json_as_u64)
          (bounded_string_map (json_field payload ''attributes'')) now
      else (store, Ok ()))"

definition side_records ::
  "bridge_event \<Rightarrow> timestamp \<Rightarrow> (host_error, unit) result \<Rightarrow> observability_store \<Rightarrow> observability_store" where
  "side_records e now result store =
     (case (be_space_id e, be_page_id e) of
        (Some space_id, Some page_id) \<Rightarrow>
          if \<not> isl result \<and> \<not> be_global e then
            fst (record_side_state_event store (be_name e) (be_payload e)
              \<lparr>ps_space_id = space_id, ps_page_id = Some page_id\<rparr> now)
          else store
      | _ \<Rightarrow> store)"

section \<open>Applying an event\<close>

definition bridge_section ::
  "json_writer \<Rightarrow> ledger_io \<Rightarrow> extension_epochs option \<Rightarrow> authority_ticket \<Rightarrow> bridge_event \<Rightarrow> timestamp \<Rightarrow> unit host_op" where
  "bridge_section js io epochs authority e now = host_with_inner (
     host_guarded (check_attribution epochs authority e) (\<lambda>_.
     host_update js io (bridge_event_upd e (bridge_attribution epochs authority e) authority)
       (bridge_event_effect e authority now)))"

definition apply_bridge_event ::
  "json_writer \<Rightarrow> ledger_io \<Rightarrow> extension_epochs option \<Rightarrow> authority_ticket \<Rightarrow> json \<Rightarrow> timestamp
   \<Rightarrow> host \<times> observability_store \<Rightarrow> (host \<times> observability_store) \<times> (host_error, unit) result" where
  "apply_bridge_event js io epochs authority event now hs =
     (case parse_bridge_event event of
        Inl error \<Rightarrow> (hs, Err error)
      | Inr None \<Rightarrow> (hs, Ok ())
      | Inr (Some e) \<Rightarrow>
          (let (h, result) = bridge_section js io epochs authority e now (fst hs)
           in ((h, side_records e now result (snd hs)), result)))"

text \<open>The readers of the side records share one shape.\<close>

definition observability_read ::
  "(observability_store \<Rightarrow> observation_scope \<Rightarrow> (host_error, 'a) result) \<Rightarrow> authority_ticket \<Rightarrow> observation_scope
   \<Rightarrow> host \<times> observability_store \<Rightarrow> (host_error, 'a) result" where
  "observability_read reader authority scope hs =
     and_then (authorize_ticket (ho_state (fst hs)) authority) (\<lambda>_.
     and_then (authorize_visible_space (ho_state (fst hs)) authority (ps_space_id scope)) (\<lambda>_.
     reader (snd hs) scope))"

definition observability_logs where
  "observability_logs = observability_read logs"

definition observability_network where
  "observability_network = observability_read network"

definition observability_traces where
  "observability_traces = observability_read traces"

section \<open>What an accepted event leaves\<close>

lemma parse_bridge_id_None: "parse_bridge_id kind v field = Inr r \<Longrightarrow> r = None \<longleftrightarrow> v = None"
  by (auto simp: parse_bridge_id_def split: option.splits sum.splits)

text \<open>A parsed event is global or names its page, and every scoped event reports a changed page.\<close>

lemma parsed_event:
  assumes "parse_bridge_event event = Inr (Some e)"
  shows "be_global e \<and> be_space_id e = None \<and> be_page_id e = None \<and> clears_snapshots (be_dirty_reason e)
    \<or> \<not> be_global e \<and> be_kind e = EK_PageChanged \<and> be_space_id e \<noteq> None \<and> be_page_id e \<noteq> None"
proof -
  obtain name payload kind dirty lost global where e: "bridge_event_contract name = Some (kind, dirty, lost, global)"
      "scope_presence global (bridge_field payload event ''space_id'') (bridge_field payload event ''page_id'') = Inr ()"
      "parse_bridge_id SpaceId (bridge_field payload event ''space_id'') ''space_id'' = Inr (be_space_id e)"
      "parse_bridge_id PageId (bridge_field payload event ''page_id'') ''page_id'' = Inr (be_page_id e)"
      "be_kind e = kind" "be_global e = global" "be_dirty_reason e = event_dirty_reason name payload dirty"
    using assms by (auto simp: parse_bridge_event_def Let_def split: if_splits)
  have "global \<and> dirty = DR_Reconnect \<and> \<not> text_is name ''debugger.event'' \<or> \<not> global \<and> kind = EK_PageChanged"
    using e(1) by (auto simp: bridge_event_contract_def text_in_def text_is_def code_points_def split: if_splits)
  then show ?thesis
    using e(2,5,6,7) parse_bridge_id_None [OF e(3)] parse_bridge_id_None [OF e(4)]
    by (auto simp: scope_presence_def clears_snapshots_def event_dirty_reason_def split: if_splits option.splits)
qed

lemma applied_event:
  assumes "apply_bridge_event js io epochs au event now (h, obs) = ((h', obs'), Inr ())"
    and "parse_bridge_event event = Inr (Some e)"
  shows "\<exists>s n. bridge_event_upd e (bridge_attribution epochs au e) au (ho_state h) = Inr (s, ()) \<and> ho_state h' = retain_events n s
    \<and> ho_ref_registry h' = ho_ref_registry (bridge_event_effect e au now (ho_state h) h)
    \<and> ho_snapshot_cache h' = ho_snapshot_cache (bridge_event_effect e au now (ho_state h) h)
    \<and> check_attribution epochs au e = Inr ()"
proof -
  let ?f = "host_update js io (bridge_event_upd e (bridge_attribution epochs au e) au) (bridge_event_effect e au now)"
  have "bridge_section js io epochs au e now h = (h', Inr ())"
    using assms by (auto simp: apply_bridge_event_def Let_def split: prod.splits)
  then have "check_attribution epochs au e = Inr ()" "host_with_inner ?f h = (h', Inr ())"
    by (auto simp: bridge_section_def host_with_inner_def host_guarded_def Let_def split: sum.splits prod.splits)
  with host_update_Ok [OF this(2)] show ?thesis by blast
qed

lemma no_snapshot_no_action:
  assumes "current_snapshot s (aq_space_id q) pg = None" "aq_page_id q = Some pg" "requires_element_actionability (aq_operation q)"
  shows "isl (snd (validate_actionability_for_state json s q now r))"
  using assms by (auto simp: validate_actionability_for_state_def actionability_target_def split: sum.splits option.splits)


text \<open>What the effect on the memory leaves: no clean entry and no live reference of the page.\<close>

lemma marked_unclean:
  assumes "cache_inv c" "legacy_ok c"
    and "c' = fst (mark_dirty_with_reason c sp pg reason) \<or> c' = fst (invalidate_all_with_reason c reason)"
  shows "(\<forall>key. page_key key = (sp, pg) \<longrightarrow> get_clean_with_key c' key = None) \<and> get_clean c' sp pg = None"
proof -
  have w: "cache_wf c" "\<And>r. slot_inv (slot c r)" using assms(1) unfolding cache_inv_def by blast+
  have clean: "get_clean_with_key c' key = None" if "page_key key = (sp, pg)" for key
    using assms(3) that slot_marks [OF w(1), of sp pg reason "cache_key_rank key", THEN conjunct2]
      slot_mark_all [OF w(1), of reason "cache_key_rank key", THEN conjunct2]
    by (auto simp: get_clean_slot page_key_def slot_clean_mark [OF w(2)])
  moreover have "sc_legacy_index c' = sc_legacy_index c"
    using assms(3) legacy_loop [of "\<lambda>c key. mark_key_dirty c key reason"]
    by (auto simp: mark_dirty_with_reason_def invalidate_all_with_reason_def Let_def)
  then have "legacy_ok c'" by (rule legacy_ok_cong) (rule assms(2))
  ultimately show ?thesis using get_clean_scope by blast
qed

lemma gone_unresolved:
  assumes "registry_inv limits hist r" "\<And>rec. bt_get (rr_active r) (er_ref_id e) = Some rec \<Longrightarrow> rd_element_ref rec \<noteq> e"
  shows "isl (snd (resolve_ref e frame current now r))"
proof (rule ccontr)
  assume "\<not> isl (snd (resolve_ref e frame current now r))"
  then obtain r' rec where "resolve_ref e frame current now r = (r', Inr rec)"
    by (cases "resolve_ref e frame current now r"; cases "snd (resolve_ref e frame current now r)") auto
  from resolve_ref_success [OF assms(1) this] assms(2) show False by blast
qed

lemma scope_unresolved:
  assumes "registry_inv limits hist r" "er_space_id e = sp" "er_page_id e = pg"
    and "r' = fst (invalidate_all now r)
      \<or> r' = fst (case frame_id of Some frame \<Rightarrow> invalidate_frame sp pg frame now r | None \<Rightarrow> invalidate_scope sp pg now r)
        \<and> (\<forall>frame. frame_id = Some frame \<longrightarrow> er_frame_id e = frame)"
  shows "isl (snd (resolve_ref e frame current later r'))"
proof (rule gone_unresolved)
  note parts = registry_inv_parts [OF assms(1)]
  have "shrinks r r'"
    using assms(4) shrinks_operations [OF parts(2,3)]
    by (auto simp: invalidate_frame_def invalidate_scope_def split: option.splits)
  then show "registry_inv limits hist r'" by (rule registry_inv_shrinks [OF assms(1)])
  show "rd_element_ref rec \<noteq> e" if rec: "bt_get (rr_active r') (er_ref_id e) = Some rec" for rec
  proof
    assume "rd_element_ref rec = e"
    then have s: "in_scope sp pg rec" "er_frame_id (rd_element_ref rec) = er_frame_id e" using assms(2,3) by (simp_all add: in_scope_def)
    show False
    proof (cases "r' = fst (invalidate_all now r)")
      case True
      then have "bt_get (rr_active r') (er_ref_id e) = (if er_ref_id e \<in> set (map fst (rr_active r)) then None else bt_get (rr_active r) (er_ref_id e))"
        using fold_invalidate_active [OF parts(3), of "\<lambda>_ _. RR_RegistryReset" now] by (simp add: invalidate_all_def invalidate_ids_def Let_def)
      then have "bt_get (rr_active r) (er_ref_id e) = Some rec" "er_ref_id e \<notin> fst ` set (rr_active r)"
        using rec by (auto split: if_splits)
      then show False by (force dest: bt_get_in)
    next
      case False
      then show False
        using assms(4) rec s get_invalidate_matching [OF parts(1)]
        by (auto simp: invalidate_frame_def invalidate_scope_def split: option.splits if_splits)
    qed
  qed
qed

text \<open>When an event takes back what was known of a page.\<close>

definition event_reaches :: "bridge_event \<Rightarrow> ledger_state \<Rightarrow> opaque_id \<Rightarrow> opaque_id \<Rightarrow> bool" where
  "event_reaches e s sp pg \<longleftrightarrow> be_global e
     \<or> be_space_id e = Some sp \<and> be_page_id e = Some pg
       \<and> (case find_page s sp pg of Inl _ \<Rightarrow> False | Inr page \<Rightarrow>
            (p_lifecycle page = PL_Closing \<longrightarrow> be_target_lost e)
            \<and> (bridge_event_affects_snapshot (be_name e) (be_payload e)
               \<or> (case page_after_event e page of Inl _ \<Rightarrow> False | Inr (page', changed) \<Rightarrow> changed)))"

lemma reached_plan:
  assumes "event_reaches e s sp pg" "\<not> be_global e" "be_kind e = EK_PageChanged" "event_plan e au s = Inr plan"
  shows "\<exists>space page changed. plan = Some (space, page, changed) \<and> snapshot_dirty e changed"
proof -
  obtain space page where page: "be_space_id e = Some sp" "be_page_id e = Some pg" "bt_get (lg_spaces s) sp = Some space"
      "space_page space pg = Some page"
      "if p_lifecycle page = PL_Closing \<and> \<not> be_target_lost e then plan = None
        else \<exists>page' changed. page_after_event e page = Inr (page', changed) \<and> plan = Some (space, page', changed)"
    using assms(1,2,4) by (auto simp: event_reaches_def event_plan_Ok)
  then have "find_page s sp pg = Inr page" by (simp add: find_page_def core_ok_or_def)
  with assms(1,2) have r: "p_lifecycle page = PL_Closing \<longrightarrow> be_target_lost e"
      "bridge_event_affects_snapshot (be_name e) (be_payload e)
        \<or> (case page_after_event e page of Inl _ \<Rightarrow> False | Inr (page', changed) \<Rightarrow> changed)"
    by (simp_all add: event_reaches_def)
  obtain page' changed where plan: "page_after_event e page = Inr (page', changed)" "plan = Some (space, page', changed)"
    using page(5) r(1) by (cases "p_lifecycle page = PL_Closing") auto
  then show ?thesis using r(2) assms(3) by (auto simp: snapshot_dirty_def)
qed

lemma reached_event:
  assumes "apply_bridge_event js io epochs au event now (h, obs) = ((h', obs'), Inr ())"
    and "parse_bridge_event event = Inr (Some e)" "bt_wf (lg_snapshots (ho_state h))" "event_reaches e (ho_state h) sp pg"
  shows "(\<forall>pg'. current_snapshot (ho_state h') sp pg' = None)
    \<and> (let h1 = (if be_global e then global_event_effect e now h else scoped_event_effect e sp pg now h) in
        ho_ref_registry h' = ho_ref_registry h1 \<and> ho_snapshot_cache h' = ho_snapshot_cache h1)
    \<and> (be_global e \<longrightarrow> clears_snapshots (be_dirty_reason e))"
proof -
  obtain s n where s: "bridge_event_upd e (bridge_attribution epochs au e) au (ho_state h) = Inr (s, ())" "ho_state h' = retain_events n s"
      "ho_ref_registry h' = ho_ref_registry (bridge_event_effect e au now (ho_state h) h)"
      "ho_snapshot_cache h' = ho_snapshot_cache (bridge_event_effect e au now (ho_state h) h)"
    using applied_event [OF assms(1,2)] by blast
  have ticket: "\<not> isl (authorize_ticket (ho_state h) au)" using s(1) by (auto simp: bridge_event_upd_def upd_simps)
  show ?thesis
  proof (cases "be_global e")
    case True
    then have c: "clears_snapshots (be_dirty_reason e)" using parsed_event [OF assms(2)] by simp
    then have "lg_snapshots s = []"
      using True s(1) by (auto simp: bridge_event_upd_def global_event_upd_def upd_simps dest!: append_bridge_event_Ok)
    then show ?thesis using True c ticket s(2-) by (simp add: current_snapshot_def bridge_event_effect_def)
  next
    case False
    then have u: "scoped_event_upd e (bridge_attribution epochs au e) au (ho_state h) = Inr (s, ())"
      using s(1) by (auto simp: bridge_event_upd_def upd_simps)
    have ids: "be_space_id e = Some sp" "be_page_id e = Some pg" "be_kind e = EK_PageChanged"
      using assms(4) False parsed_event [OF assms(2)] by (auto simp: event_reaches_def)
    obtain space page changed where plan: "event_plan e au (ho_state h) = Inr (Some (space, page, changed))" "snapshot_dirty e changed"
      using scoped_event_Ok [OF u] reached_plan [OF assms(4) False ids(3)] by blast
    then have "lg_snapshots s = bt_remove sp (lg_snapshots (ho_state h))"
      using scoped_event_Ok [OF u] ids by auto
    then show ?thesis using False ids plan ticket s(2-) assms(3)
      by (simp add: current_snapshot_def bt_get_remove bridge_event_effect_def)
  qed
qed

text \<open>
  C12: An accepted browser event takes back what could be acted on. When the host accepts an event that
  concerns the whole browser, or one about a page that changes it or affects its snapshot (and the page is not
  already closing, or its target is lost), then afterwards the ledger holds no snapshot of any page of the space, the cache
  in memory answers no read of the page, no reference of the page resolves (for an event about a frame: of
  the frame), against whatever snapshot and at whatever time, and the gate refuses every element action on the page,
  whatever the request carries.
\<close>

theorem event_revokes_proofs:
  assumes "apply_bridge_event js io epochs au event now (h, obs) = ((h', obs'), Inr ())"
    and "parse_bridge_event event = Inr (Some e)" "bt_wf (lg_snapshots (ho_state h))"
    and "ho_snapshot_cache h = foldl (cache_step to_json) (cache_new entries bytes) ops"
    and "ref_run (registry_new limits) hist (ho_ref_registry h)"
    and "event_reaches e (ho_state h) sp pg"
  shows "(\<forall>pg'. current_snapshot (ho_state h') sp pg' = None)
    \<and> (\<forall>key. page_key key = (sp, pg) \<longrightarrow> get_clean_with_key (ho_snapshot_cache h') key = None)
    \<and> get_clean (ho_snapshot_cache h') sp pg = None
    \<and> (\<forall>r frame current later. er_space_id r = sp \<and> er_page_id r = pg
         \<and> (be_global e \<or> be_frame_id e = None \<or> be_frame_id e = Some (er_frame_id r))
         \<longrightarrow> isl (snd (resolve_ref r frame current later (ho_ref_registry h'))))
    \<and> (\<forall>json q later refs. aq_space_id q = sp \<and> aq_page_id q = Some pg \<and> requires_element_actionability (aq_operation q)
         \<longrightarrow> isl (snd (validate_actionability_for_state json (ho_state h') q later refs)))"
proof -
  note reached = reached_event [OF assms(1-3,6)]
  have c: "cache_inv (ho_snapshot_cache h)" "legacy_ok (ho_snapshot_cache h)"
    unfolding assms(4) by (rule cache.run_inv [OF cache_new_inv]) (rule legacy.run_inv [OF legacy_ok_new])
  have "ho_snapshot_cache h' = fst (mark_dirty_with_reason (ho_snapshot_cache h) sp pg (snapshot_dirty_reason (be_dirty_reason e)))
      \<or> ho_snapshot_cache h' = fst (invalidate_all_with_reason (ho_snapshot_cache h) (snapshot_dirty_reason (be_dirty_reason e)))"
    using reached by (auto simp: global_event_effect_def scoped_event_effect_def invalidate_with_reason_def Let_def split: if_splits)
  note cache = marked_unclean [OF c this]
  have r: "ho_ref_registry h' = fst (invalidate_all now (ho_ref_registry h))
      \<or> \<not> be_global e \<and> ho_ref_registry h' = fst (case be_frame_id e of Some frame \<Rightarrow> invalidate_frame sp pg frame now (ho_ref_registry h)
          | None \<Rightarrow> invalidate_scope sp pg now (ho_ref_registry h))"
    using reached by (auto simp: global_event_effect_def scoped_event_effect_def Let_def split: if_splits)
  have "isl (snd (resolve_ref x frame current later (ho_ref_registry h')))"
    if "er_space_id x = sp \<and> er_page_id x = pg \<and> (be_global e \<or> be_frame_id e = None \<or> be_frame_id e = Some (er_frame_id x))"
    for x frame current later
    by (rule scope_unresolved [OF run_new_inv [OF assms(5)], of _ sp pg _ now "be_frame_id e"]) (use that r in auto)
  then show ?thesis using reached cache no_snapshot_no_action [of "ho_state h'" _ pg] by blast
qed


lemma refused_event:
  assumes "event_plan e au s = Inr (Some plan)" "(k, v) \<in> set (bridge_event_payload (be_name e) (be_payload e))" "512 < byte_len v"
    and "be_kind e = EK_PageChanged"
  shows "isl (scoped_event_upd e attribution au s)"
proof (rule ccontr)
  assume "\<not> isl (scoped_event_upd e attribution au s)"
  then obtain s' u where s': "scoped_event_upd e attribution au s = Inr (s', u)"
    by (cases "scoped_event_upd e attribution au s") auto
  then have "validate_public_payload_shape (bridge_event_payload (be_name e) (be_payload e)) 512 = Inr ()"
    using assms(1,4)
    by (cases plan) (auto simp: scoped_event_upd_def upd_simps Let_def split: if_splits dest!: append_bridge_event_Ok)
  then show False
    using assms(2,3) by (auto simp: validate_public_payload_shape_def try_each_Ok checks.simps reject_if_def split: if_splits dest!: bspec)
qed

lemma ledger_update_limits: "ld_limits (fst (ledger_update js io f l)) = ld_limits l"
  by (cases rule: ledger_update_cases [of js io f l]) simp_all

lemma dropped_event:
  assumes "parse_bridge_event event = Inr (Some e)" "event_plan e au (ho_state h) = Inr (Some plan)"
    and "(k, v) \<in> set (bridge_event_payload (be_name e) (be_payload e))" "512 < byte_len v"
    and "apply_bridge_event js io epochs au event now (h, obs) = ((h', obs'), result)"
  shows "isl result \<and> ho_state h' = ho_state h \<and> obs' = obs \<and> br_capabilities (ho_broker h') = br_capabilities (ho_broker h)
    \<and> ld_limits (br_ledger (ho_broker h')) = ld_limits (br_ledger (ho_broker h))
    \<and> (check_attribution epochs au e = Inr () \<longrightarrow> \<not> isl (io_owner io) \<longrightarrow>
         ho_ref_registry h' = ho_ref_registry (bridge_event_effect e au now (ho_state h) h)
         \<and> ho_snapshot_cache h' = ho_snapshot_cache (bridge_event_effect e au now (ho_state h) h))"
proof -
  let ?f = "bridge_event_upd e (bridge_attribution epochs au e) au"
  have "\<not> be_global e" "be_kind e = EK_PageChanged"
    using parsed_event [OF assms(1)] assms(2) by (auto simp: event_plan_def)
  with refused_event [OF assms(2-4)] have "isl (?f (ho_state h))"
    by (auto simp: bridge_event_upd_def upd_bind_def upd_get_def split: sum.splits prod.splits)
  then have f: "\<And>r. ?f (ho_state h) \<noteq> Inr r" by (auto simp: isl_def)
  have h': "bridge_section js io epochs au e now h = (h', result)" "obs' = side_records e now result obs"
    using assms(1,5) by (auto simp: apply_bridge_event_def Let_def split: prod.splits)
  have upd: "br_state (fst (update_ledger js io ?f (ho_broker h))) = ho_state h" "isl (snd (update_ledger js io ?f (ho_broker h)))"
      "br_capabilities (fst (update_ledger js io ?f (ho_broker h))) = br_capabilities (ho_broker h)"
      "ld_limits (br_ledger (fst (update_ledger js io ?f (ho_broker h)))) = ld_limits (br_ledger (ho_broker h))"
    using update_ledger_fails [of ?f "ho_broker h" js io] f
    by (auto simp: update_ledger_def split_beta Let_def ledger_update_limits)
  then have r: "isl result" "ho_state h' = ho_state h" "br_capabilities (ho_broker h') = br_capabilities (ho_broker h)"
      "ld_limits (br_ledger (ho_broker h')) = ld_limits (br_ledger (ho_broker h))"
    using h'(1)
    by (cases "check_attribution epochs au e"; auto simp: bridge_section_def host_with_inner_def host_guarded_def
        host_update_def Let_def split: prod.splits)+
  moreover have "obs' = obs" using h'(2) r(1) by (auto simp: side_records_def split: option.splits)
  moreover have "ho_ref_registry h' = ho_ref_registry (bridge_event_effect e au now (ho_state h) h)
      \<and> ho_snapshot_cache h' = ho_snapshot_cache (bridge_event_effect e au now (ho_state h) h)"
    if "check_attribution epochs au e = Inr ()" "\<not> isl (io_owner io)"
    using h'(1) that by (auto simp: bridge_section_def host_with_inner_def host_guarded_def host_update_def Let_def split: prod.splits)
  ultimately show ?thesis by blast
qed

text \<open>
  C39: Long values drop the event. The copied fields of an event may have 4096 bytes, the public payload of the
  ledger 512. An event about an open page with a copied value between the two, say a navigation to a
  long address, is refused as a whole, but only after its effect on the memory: the ledger keeps its state and
  nothing is recorded on the side, while the references of the page are invalidated and the cache in memory no
  longer answers. So the next read of the page with a ticket that may read it answers, without a scan, with the clean snapshot
  that the ledger had before the event.
\<close>

theorem long_value_drops_event:
  assumes "parse_bridge_event event = Inr (Some e)" "event_plan e au (ho_state h) = Inr (Some (space, page, changed))"
    and "(k, v) \<in> set (bridge_event_payload (be_name e) (be_payload e))" "512 < byte_len v"
    and "be_space_id e = Some sp" "be_page_id e = Some pg" "snapshot_dirty e changed"
    and "check_attribution epochs au e = Inr ()" "authorize_ticket (ho_state h) au = Inr ()" "\<not> isl (io_owner io)"
    and "ho_snapshot_cache h = foldl (cache_step to_json) (cache_new entries bytes) ops"
    and "apply_bridge_event js io epochs au event now (h, obs) = ((h', obs'), result)"
    and "current_snapshot (ho_state h) sp pg = Some snap" "\<not> cr_dirty snap"
    and "authorize_page (ho_state h) sp pg au' ep later False = Inr (cr_generation snap)"
    and "read_snapshot js' io' to_json' bridge sp pg au' ep later h' = (h'', Inr read)"
  shows "isl result \<and> ho_state h' = ho_state h \<and> obs' = obs
    \<and> ho_ref_registry h' = ho_ref_registry (scoped_event_effect e sp pg now h)
    \<and> ho_snapshot_cache h' = ho_snapshot_cache (scoped_event_effect e sp pg now h)
    \<and> get_clean (ho_snapshot_cache h') sp pg = None
    \<and> read = cached_read (cr_envelope snap)"
proof -
  have "\<not> be_global e" using parsed_event [OF assms(1)] assms(5) by auto
  then have effect: "bridge_event_effect e au now (ho_state h) h = scoped_event_effect e sp pg now h"
    using assms(2,5-7,9) by (simp add: bridge_event_effect_def)
  have dropped: "isl result" "ho_state h' = ho_state h" "obs' = obs"
      "ho_ref_registry h' = ho_ref_registry (scoped_event_effect e sp pg now h)"
      "ho_snapshot_cache h' = ho_snapshot_cache (scoped_event_effect e sp pg now h)"
    using dropped_event [OF assms(1-4,12)] assms(8,10) effect by simp_all
  have c: "cache_inv (ho_snapshot_cache h)" "legacy_ok (ho_snapshot_cache h)"
    unfolding assms(11) by (rule cache.run_inv [OF cache_new_inv]) (rule legacy.run_inv [OF legacy_ok_new])
  have miss: "get_clean (ho_snapshot_cache h') sp pg = None"
    using marked_unclean [OF c disjI1 [OF refl], of sp pg "snapshot_dirty_reason (be_dirty_reason e)"] dropped(5)
    by (simp add: scoped_event_effect_def invalidate_with_reason_def)
  obtain h1 x where "host_section js' io' (cached_read_upd (get_clean (ho_snapshot_cache h') sp pg) sp pg au' ep later) h' = (h1, Inr x)"
      "(case x of Some read \<Rightarrow> host_return read | None \<Rightarrow> scan_snapshot js' io' to_json' bridge sp pg au' ep later) h1 = (h'', Inr read)"
    using assms(16) by (auto simp: read_snapshot_def host_guarded_Ok host_next_Ok split: sum.splits)
  with host_section_Ok [OF this(1)] dropped(2) miss assms(13-15) have "read = cached_read (cr_envelope snap)"
    by (auto simp: cached_read_upd_Ok host_return_def ledger_hit_def memory_hit_def split: option.splits)
  then show ?thesis using dropped miss by blast
qed

section \<open>Generations only move forward\<close>

lemma raise_generation_ge: "current \<le> raise_generation observed current"
  by (auto simp: raise_generation_def split: option.splits)

lemma bump_page_generations_Ok:
  "bump_page_generations page = Inr page' \<longleftrightarrow> (\<exists>t n d. counter_checked_next (p_target_generation page) = Some t
     \<and> counter_checked_next (p_navigation_generation page) = Some n \<and> counter_checked_next (p_document_generation page) = Some d
     \<and> page' = page\<lparr>p_target_generation := t, p_navigation_generation := n, p_document_generation := d\<rparr>)"
  by (auto simp: bump_page_generations_def)

lemma page_after_event_Ok:
  assumes "page_after_event e page = Inr (page', changed)"
  shows "p_page_id page' = p_page_id page \<and> p_target_generation page \<le> p_target_generation page'
    \<and> p_navigation_generation page \<le> p_navigation_generation page' \<and> p_document_generation page \<le> p_document_generation page'
    \<and> (if be_target_lost e \<and> p_lifecycle page \<notin> {PL_Closed, PL_Closing} then p_lifecycle page' = PL_TargetLost \<and> p_binding page' = PB_Lost
       else p_lifecycle page' = p_lifecycle page \<and> p_binding page' = p_binding page)"
proof -
  have less: "counter_checked_next a = Some b \<Longrightarrow> a \<le> b" for a b :: u64
    by (auto simp: counter_checked_next_def dest!: checked_next_less)
  have raised: "p_target_generation page \<le> p_target_generation (raise_generations e page)"
    "p_navigation_generation page \<le> p_navigation_generation (raise_generations e page)"
    "p_document_generation page \<le> p_document_generation (raise_generations e page)"
    "p_page_id (raise_generations e page) = p_page_id page"
    by (simp_all add: raise_generations_def raise_generation_ge)
  show ?thesis
  proof (cases "be_target_lost e \<and> p_lifecycle page \<notin> {PL_Closed, PL_Closing}")
    case True
    then obtain page1 where "page1 = raise_generations e page \<or> bump_page_generations (raise_generations e page) = Inr page1"
        "page' = page1\<lparr>p_lifecycle := PL_TargetLost, p_binding := PB_Lost\<rparr>"
      using assms by (auto simp: page_after_event_def Let_def split: if_splits)
    then show ?thesis using True raised
      by (auto simp: bump_page_generations_Ok dest!: less intro: order_trans)
  next
    case False
    then show ?thesis using assms raised by (auto simp: page_after_event_def Let_def raise_generations_def)
  qed
qed

lemma space_page_replace:
  assumes "p_page_id page' = pg" "space_page space pg = Some page"
  shows "space_page (replace_page page' space) k = (if k = pg then Some page' else space_page space k)"
proof -
  have "find (\<lambda>p. p_page_id p = k) (update_first (\<lambda>p. p_page_id p = pg) page' ps)
      = (if k = pg then Some page' else find (\<lambda>p. p_page_id p = k) ps)"
    if "find (\<lambda>p. p_page_id p = pg) ps = Some page" for ps
    using that assms(1) by (induction ps) (auto split: if_splits)
  with assms show ?thesis by (simp add: space_page_def replace_page_def)
qed

text \<open>
  C36: Browser events only move pages forward. An accepted event leaves every page but the one it names as it
  was, and of that page no generation goes back, so proofs made before a change never become current
  again. The life cycle changes only to \<^verbatim>\<open>TargetLost\<close>, exactly when the event says that the target is lost and
  the page is neither closing nor closed.
\<close>

theorem events_only_advance:
  assumes "apply_bridge_event js io epochs au event now (h, obs) = ((h', obs'), Inr ())"
    and "parse_bridge_event event = Inr (Some e)" "bt_wf (lg_spaces (ho_state h))"
    and "find_page (ho_state h) sp pg = Inr page"
  shows "\<exists>page'. find_page (ho_state h') sp pg = Inr page'
    \<and> p_target_generation page \<le> p_target_generation page' \<and> p_navigation_generation page \<le> p_navigation_generation page'
    \<and> p_document_generation page \<le> p_document_generation page'
    \<and> (page' \<noteq> page \<longrightarrow> be_space_id e = Some sp \<and> be_page_id e = Some pg)
    \<and> p_lifecycle page' = (if be_space_id e = Some sp \<and> be_page_id e = Some pg \<and> be_target_lost e
         \<and> p_lifecycle page \<notin> {PL_Closing, PL_Closed} then PL_TargetLost else p_lifecycle page)"
proof -
  obtain s n where s: "bridge_event_upd e (bridge_attribution epochs au e) au (ho_state h) = Inr (s, ())" "ho_state h' = retain_events n s"
    using applied_event [OF assms(1,2)] by blast
  have same: "find_page (ho_state h') = find_page s" by (simp add: fun_eq_iff find_page_def s(2))
  obtain space where space: "bt_get (lg_spaces (ho_state h)) sp = Some space" "space_page space pg = Some page"
    using assms(4) by (auto simp: find_page_def bind_eq_Some_conv)
  consider (kept) "lg_spaces s = lg_spaces (ho_state h)" "\<not> (be_space_id e = Some sp \<and> be_target_lost e)"
    | (changed) sp' pg' space' page1 page' c where "be_space_id e = Some sp'" "be_page_id e = Some pg'"
        "bt_get (lg_spaces (ho_state h)) sp' = Some space'" "space_page space' pg' = Some page1"
        "page_after_event e page1 = Inr (page', c)" "lg_spaces s = bt_insert sp' (replace_page page' space') (lg_spaces (ho_state h))"
  proof (cases "be_global e")
    case True
    then show thesis using s(1) kept parsed_event [OF assms(2)]
      by (auto simp: bridge_event_upd_def global_event_upd_def upd_simps split: if_splits dest!: append_bridge_event_Ok)
  next
    case False
    then have "scoped_event_upd e (bridge_attribution epochs au e) au (ho_state h) = Inr (s, ())"
      using s(1) by (auto simp: bridge_event_upd_def upd_simps)
    from scoped_event_Ok [OF this] show thesis using kept changed by (auto simp: event_plan_Ok split: if_splits)
  qed
  then show ?thesis
  proof cases
    case kept
    then show ?thesis using same assms(4) by (auto simp: find_page_def)
  next
    case changed
    have id: "p_page_id page' = pg'" "p_page_id page1 = pg'"
      using page_after_event_Ok [OF changed(5)] changed(4) by (auto simp: space_page_def find_Some_iff)
    show ?thesis
    proof (cases "sp = sp' \<and> pg = pg'")
      case True
      then have "page1 = page" "find_page s sp pg = Inr page'"
        using changed space id by (simp_all add: find_page_def bt_get_insert assms(3) space_page_replace)
      with page_after_event_Ok [OF changed(5)] True changed(1,2) same show ?thesis by auto
    next
      case False
      then have "find_page s sp pg = Inr page"
        using changed space id by (auto simp: find_page_def bt_get_insert assms(3) space_page_replace)
      then show ?thesis using same changed(1,2) False by auto
    qed
  qed
qed


section \<open>Witnesses\<close>

text \<open>An event about the whole browser, and one about a page with a long address.\<close>

definition demo_gap_event :: json where
  "demo_gap_event = J_Object [(code_points ''broker_epoch'', J_Number (JN_Unsigned 1)),
     (code_points ''connection_epoch'', J_Number (JN_Unsigned 4)),
     (code_points ''event'', J_String (code_points ''browser.event_gap'')), (code_points ''payload'', J_Object [])]"

definition demo_long_url :: utext where
  "demo_long_url = replicate 600 97"

definition demo_page_fields :: json_map where
  "demo_page_fields = [(code_points ''page_id'', J_String (code_points ''page_1'')), (code_points ''space_id'', J_String (code_points ''space_1'')),
     (code_points ''url'', J_String demo_long_url)]"

definition demo_long_event :: json where
  "demo_long_event = J_Object [(code_points ''broker_epoch'', J_Number (JN_Unsigned 1)),
     (code_points ''connection_epoch'', J_Number (JN_Unsigned 4)),
     (code_points ''event'', J_String (code_points ''page.changed'')), (code_points ''payload'', J_Object demo_page_fields)]"

lemmas event_eval = parse_bridge_event_def event_name_of_def json_get_def json_field_def code_points_def text_is_def text_in_def
  is_control_def utf8_def utf8_units_def bridge_event_contract_def required_bridge_epoch_def optional_bridge_epoch_def nonzero_def
  bridge_field_def or_field_def scope_presence_def parse_bridge_id_def event_dirty_reason_def Let_def

definition demo_gap :: bridge_event where
  "demo_gap = \<lparr>be_name = code_points ''browser.event_gap'', be_payload = [], be_kind = EK_ConnectionChanged,
     be_dirty_reason = DR_Reconnect, be_target_lost = True, be_global = True, be_broker_epoch = 1, be_connection_epoch = 4,
     be_worker_instance_epoch = None, be_browser_session_epoch = None, be_space_id = None, be_page_id = None,
     be_frame_id = None, be_document_id = None, be_navigation_id = None\<rparr>"

lemma demo_gap_parsed: "parse_bridge_event demo_gap_event = Inr (Some demo_gap)"
  by (simp add: demo_gap_event_def demo_gap_def event_eval)

definition demo_long :: bridge_event where
  "demo_long = \<lparr>be_name = code_points ''page.changed'', be_payload = demo_page_fields, be_kind = EK_PageChanged,
     be_dirty_reason = DR_DomMutation, be_target_lost = False, be_global = False, be_broker_epoch = 1, be_connection_epoch = 4,
     be_worker_instance_epoch = None, be_browser_session_epoch = None, be_space_id = Some ''space_1'', be_page_id = Some ''page_1'',
     be_frame_id = None, be_document_id = None, be_navigation_id = None\<rparr>"

lemma ascii_text_code_points: "list_all (\<lambda>c. of_char c < (128 :: nat)) s \<Longrightarrow> ascii_text (code_points s) = s"
  by (induction s) (simp_all add: ascii_text_def code_points_def)

lemma demo_ids: "parse_id_text SpaceId (code_points ''space_1'') = Inr ''space_1''" "parse_id_text PageId (code_points ''page_1'') = Inr ''page_1''"
  by (simp_all add: parse_id_text_def ascii_text_code_points)
     (simp_all add: code_points_def utf8_def utf8_units_def MAX_ID_LENGTH_def id_new_def validate_identifier_def id_first_char_def id_rest_char_def
       is_ascii_lowercase_def is_ascii_digit_def starts_with_iff)

lemma demo_long_parsed: "parse_bridge_event demo_long_event = Inr (Some demo_long)"
  using demo_ids [unfolded code_points_def] by (simp add: demo_long_event_def demo_long_def demo_page_fields_def event_eval)

lemma copy_nothing: "fold (copy_field []) fs m = m" "copy_nested (None, key, output) m = m"
  by (induction fs) (simp_all add: copy_field_def copy_nested_def json_field_def)

lemma demo_gap_payload:
  "bridge_event_payload (be_name demo_gap) (be_payload demo_gap)
     = [(code_points ''reason'', code_points ''browser.event_gap''), (code_points ''wait_kind'', code_points ''debugger'')]"
proof -
  have "wait_kind_of [] = (''debugger'', None)"
    by (simp add: wait_kind_of_def text_is_def text_starts_with_def code_points_def)
  moreover have "json_field [] key = None" for key by (simp add: json_field_def)
  moreover have "code_points ''method'' \<noteq> code_points ''reason''" "code_points ''wait_kind'' > code_points ''reason''"
    by (simp_all add: code_points_def)
  ultimately show ?thesis
    by (simp add: bridge_event_payload_def demo_gap_def copy_nothing unwrap_or_def)
qed

lemma demo_gap_append:
  assumes "lg_broker_epoch s = 1" "lg_event_sequence s = 0" "lg_events s = []"
  shows "\<exists>rec. append_bridge_event demo_gap no_scope True (bridge_attribution None demo_authority demo_gap) s
      = Inr (s\<lparr>lg_event_sequence := 1, lg_events := [rec]\<rparr>, ())
    \<and> ev_protocol rec = PROTOCOL_VERSION \<and> ev_broker_epoch rec = 1 \<and> ev_sequence rec = 1 \<and> ev_scope rec = no_scope
    \<and> validate_public_payload_shape (ev_payload rec) 512 = Inr ()"
proof -
  have pl: "validate_public_payload_shape (bridge_event_payload (be_name demo_gap) (be_payload demo_gap)) 512 = Inr ()"
    unfolding demo_gap_payload
    by (simp add: validate_public_payload_shape_def code_points_def reject_if_def raw_browser_identity_def normalized_payload_key_def
        is_ascii_alphanumeric_def code_point_lowercase_def utf8_def utf8_units_def checks.simps)
  have len: "length (show_nat 1) \<le> 20" using length_show_u64 [of 1] by simp
  have id: "from_suffix EventId (show_nat 1 @ CHR ''-'' # show_nat 1) = Inr (id_prefix EventId @ show_nat 1 @ CHR ''-'' # show_nat 1)"
    by (rule event_id_ok [OF len len])
  from pl id assms show ?thesis
    by (simp add: append_bridge_event_def append_event_with_attribution_def next_space_generation_def upd_simps no_scope_def
       counter_checked_next_def checked_next_def checked_add64_def demo_gap_def demo_authority_def bridge_attribution_def attribution_bridge_def or_field_def
       validate_admission_def validate_routing_def event_validate_scope_def scope_validate_def metadata_validate_def metadata_for_event_def event_metadata_of_def
       validate_for_scope_def attribution_broker_def is_some_and_iff) (intro exI conjI, rule refl, simp_all)
qed

lemma demo_authorized:
  "authorize_ticket (demo_host_log n es ns) demo_authority = Inr ()"
  "authorize_profile_for_mutation (demo_host_log n es ns) ''space_1'' demo_authority = Inr ()"
  by (simp_all add: authorize_ticket_def authority_is_current_def authorize_profile_for_mutation_def find_space_def demo_host_log_def
      demo_host_defs record_simps checks.simps core_reject_def reject_if_def)

lemma demo_gap_applied:
  "\<exists>h' obs'. apply_bridge_event demo_js demo_io None demo_authority demo_gap_event 10 (demo_issuing_host, observability_new 4)
     = ((h', obs'), Inr ())"
proof -
  let ?s = "demo_host_log 0 [] demo_page_snapshots" and ?at = "bridge_attribution None demo_authority demo_gap"
  let ?cleared = "?s\<lparr>lg_snapshots := []\<rparr>" and ?f = "bridge_event_upd demo_gap (bridge_attribution None demo_authority demo_gap) demo_authority"
  have s0: "?cleared = demo_host_log 0 [] []" by (simp add: demo_host_log_def)
  have f: "lg_broker_epoch ?cleared = 1" "lg_event_sequence ?cleared = 0" "lg_events ?cleared = []"
    by (simp_all add: demo_host_log_def demo_host_defs)
  from demo_gap_append [OF f] obtain rec where rec: "append_bridge_event demo_gap no_scope True ?at ?cleared
        = Inr (?cleared\<lparr>lg_event_sequence := 1, lg_events := [rec]\<rparr>, ())"
      "ev_protocol rec = PROTOCOL_VERSION" "ev_broker_epoch rec = 1" "ev_sequence rec = 1" "ev_scope rec = no_scope"
      "validate_public_payload_shape (ev_payload rec) 512 = Inr ()" by blast
  have s1: "?cleared\<lparr>lg_event_sequence := 1, lg_events := [rec]\<rparr> = demo_host_log 1 [rec] []" by (simp add: demo_host_log_def)
  have "validate_events ledger_limits_default (demo_host_log 1 [rec] []) = Inr ()"
    using rec(2-) by (simp add: validate_events_def validate_event_def validate_event_scope_def no_scope_def demo_host_log_def demo_host_defs checks.simps reject_if_def)
  then have valid: "validate_state demo_js ledger_limits_default (demo_host_log 1 [rec] []) = Ok ()"
    by (rule demo_host_valid) (simp_all add: validate_snapshots_def demo_host_log_def)
  have "?f ?s = Inr (demo_host_log 1 [rec] [], ())"
  proof -
    have g: "be_global demo_gap" "be_dirty_reason demo_gap = DR_Reconnect" by (simp_all add: demo_gap_def)
    show ?thesis
      using rec(1) [unfolded s1] demo_authorized(1) [of 0 "[]" demo_page_snapshots]
      by (simp add: bridge_event_upd_def global_event_upd_def upd_bind_def upd_get_def upd_mod_def clears_snapshots_def g)
  qed
  then have "\<exists>b. update_ledger demo_js demo_io ?f (ho_broker demo_issuing_host) = (b, Inr ())"
    using demo_host_commit [of ?f "ho_broker demo_issuing_host" "demo_host_log 1 [rec] []" "()"] valid
    by (simp add: demo_issuing_host_def demo_host_log_def)
  moreover have "check_attribution None demo_authority demo_gap = Inr ()"
    by (simp add: check_attribution_def demo_gap_def demo_authority_def stale_extension_def)
  ultimately show ?thesis
    by (auto simp: apply_bridge_event_def demo_gap_parsed bridge_section_def host_with_inner_def host_guarded_def host_update_def Let_def)
qed

lemma demo_issuing_cache:
  "ho_snapshot_cache demo_issuing_host
     = foldl (cache_step (\<lambda>_. Inr 0)) (cache_new 8 100) [CO_Insert (key_from_envelope demo_ref_envelope) demo_ref_envelope None]"
  "ref_run (registry_new ref_limits_default) [] (ho_ref_registry demo_issuing_host)"
proof -
  have "validate_key (key_from_envelope demo_ref_envelope) demo_ref_envelope = Inr ()"
    using demo_ref_envelope_valid
    by (simp add: validate_key_def snapshot_invalid_def key_from_envelope_def demo_ref_envelope_def demo_envelope_def split: sum.splits)
  then show "ho_snapshot_cache demo_issuing_host
      = foldl (cache_step (\<lambda>_. Inr 0)) (cache_new 8 100) [CO_Insert (key_from_envelope demo_ref_envelope) demo_ref_envelope None]"
    by (simp add: demo_issuing_host_def demo_host_def insert_with_expiry_def cache_new_def km_get_def cache_len_def)
qed (simp add: demo_issuing_host_def demo_host_def ref_run.start)

theorem event_revokes_proofs_witness:
  "\<exists>h' obs'. apply_bridge_event demo_js demo_io None demo_authority demo_gap_event 10 (demo_issuing_host, observability_new 4)
       = ((h', obs'), Inr ())
     \<and> current_snapshot (ho_state h') ''space_1'' ''page_1'' = None \<and> get_clean (ho_snapshot_cache h') ''space_1'' ''page_1'' = None
     \<and> isl (snd (resolve_ref demo_ref ''frame_1'' (envelope_provenance demo_ref_envelope) 11 (ho_ref_registry h')))
     \<and> isl (snd (validate_actionability_for_state demo_gate_json (ho_state h') demo_gate_request 11 (ho_ref_registry h')))"
proof -
  obtain h' obs' where a: "apply_bridge_event demo_js demo_io None demo_authority demo_gap_event 10 (demo_issuing_host, observability_new 4)
      = ((h', obs'), Inr ())" using demo_gap_applied by blast
  have wf: "bt_wf (lg_snapshots (ho_state demo_issuing_host))"
    by (simp add: demo_issuing_host_def demo_host_log_def demo_page_snapshots_def bt_wf_def)
  have hit: "event_reaches demo_gap (ho_state demo_issuing_host) ''space_1'' ''page_1''" and g: "be_global demo_gap"
    by (simp_all add: event_reaches_def demo_gap_def)
  have q: "aq_space_id demo_gate_request = ''space_1''" "aq_page_id demo_gate_request = Some ''page_1''"
      "requires_element_actionability (aq_operation demo_gate_request)" "er_space_id demo_ref = ''space_1''" "er_page_id demo_ref = ''page_1''"
    by (simp_all add: demo_gate_request_def demo_ledger_request_def requires_element_actionability_def demo_ref_def)
  from event_revokes_proofs [OF a demo_gap_parsed wf demo_issuing_cache hit] a g q show ?thesis by blast
qed

theorem events_only_advance_witness:
  "\<exists>h' obs' page'. apply_bridge_event demo_js demo_io None demo_authority demo_gap_event 10 (demo_issuing_host, observability_new 4)
       = ((h', obs'), Inr ())
     \<and> find_page (ho_state h') ''space_1'' ''page_1'' = Inr page' \<and> p_target_generation demo_gate_page \<le> p_target_generation page'"
proof -
  obtain h' obs' where a: "apply_bridge_event demo_js demo_io None demo_authority demo_gap_event 10 (demo_issuing_host, observability_new 4)
      = ((h', obs'), Inr ())" using demo_gap_applied by blast
  have wf: "bt_wf (lg_spaces (ho_state demo_issuing_host))"
    by (simp add: demo_issuing_host_def demo_host_log_def demo_host_state_def demo_gate_state_def bt_wf_def)
  have "find_page (ho_state demo_issuing_host) ''space_1'' ''page_1'' = Inr demo_gate_page"
    by (simp add: find_page_def demo_issuing_host_def demo_host_log_def demo_host_state_def demo_gate_state_def space_page_def)
       (simp add: demo_gate_page_def)
  from events_only_advance [OF a demo_gap_parsed wf this] a show ?thesis by blast
qed

lemma demo_long_url_bytes: "byte_len demo_long_url = 600" "copied_text demo_long_url"
proof -
  have "byte_len (replicate n 97) = n" for n by (induction n) (simp_all add: utf8_def utf8_units_def)
  then show "byte_len demo_long_url = 600" by (simp add: demo_long_url_def)
  then show "copied_text demo_long_url" by (auto simp: copied_text_def demo_long_url_def is_control_def list_ex_iff)
qed

lemma demo_long_payload: "(code_points ''url'', demo_long_url) \<in> set (bridge_event_payload (be_name demo_long) (be_payload demo_long))"
proof (rule bt_get_in, rule bridge_copied)
  show "bridge_fields = [(''method'', ''method'')] @ (''url'', ''url'') # tl (tl bridge_fields)" by (simp add: bridge_fields_def)
  show "Option.bind (json_field (be_payload demo_long) ''url'') bridge_field_text = Some demo_long_url"
    by (simp add: demo_long_def demo_page_fields_def json_field_def code_points_def)
qed (simp_all add: demo_long_url_bytes)

lemma demo_long_plan:
  "\<exists>space page changed. event_plan demo_long demo_authority (demo_host_log n es ns) = Inr (Some (space, page, changed))
     \<and> snapshot_dirty demo_long changed"
proof -
  let ?space = "demo_space\<lparr>s_space_id := ''space_1'', s_profile_binding := PF_Unbound, s_pages := [demo_gate_page]\<rparr>"
  have "bt_get (lg_spaces (demo_host_log n es ns)) ''space_1'' = Some ?space"
    by (simp add: demo_host_log_def demo_host_state_def demo_gate_state_def)
  moreover have "space_page ?space ''page_1'' = Some demo_gate_page" "p_lifecycle demo_gate_page = PL_Managed"
    by (simp_all add: space_page_def demo_gate_page_def)
  moreover have "snapshot_dirty demo_long c" for c
    by (simp add: snapshot_dirty_def bridge_event_affects_snapshot_def side_event_def demo_long_def text_is_def text_in_def text_starts_with_def code_points_def)
  ultimately show ?thesis
    using demo_authorized(2) [of n es ns]
    by (auto simp: event_plan_Ok page_after_event_def demo_long_def Let_def)
qed

lemma demo_ledger_read:
  assumes "ho_state h = demo_host_log 0 [] demo_page_snapshots" "ld_limits (br_ledger (ho_broker h)) = ledger_limits_default"
    and "br_capabilities (ho_broker h) = [CP_Snapshot]"
  shows "\<exists>h' read. read_snapshot demo_js demo_io (\<lambda>_. Inr 0) demo_snapshot_bridge ''space_1'' ''page_1'' demo_authority 6 10 h = (h', Inr read)"
proof -
  let ?s = "demo_host_log 0 [] demo_page_snapshots"
  let ?f = "cached_read_upd (get_clean (ho_snapshot_cache h) ''space_1'' ''page_1'') ''space_1'' ''page_1'' demo_authority 6 10"
  have "current_snapshot ?s ''space_1'' ''page_1'' = Some \<lparr>cr_envelope = demo_ref_envelope,
      cr_generation = generation_from_page demo_gate_page, cr_dirty = False\<rparr>"
    by (simp add: current_snapshot_def demo_host_log_def demo_page_snapshots_def)
  then obtain read where "?f ?s = Inr (?s, Some read)"
    using demo_page_authorized [of 0 "[]" demo_page_snapshots]
    by (cases "memory_hit (get_clean (ho_snapshot_cache h) ''space_1'' ''page_1'') (generation_from_page demo_gate_page)
        (current_snapshot ?s ''space_1'' ''page_1'')") (auto simp: cached_read_upd_Ok ledger_hit_def)
  then have "\<exists>b. update_ledger demo_js demo_io ?f (ho_broker h) = (b, Inr (Some read))"
    using demo_host_commit [of ?f "ho_broker h" ?s "Some read"] demo_snapshots_valid assms by (simp add: demo_host_log_def)
  then show ?thesis using assms(3)
    by (auto simp: read_snapshot_def host_guarded_def host_next_def host_section_def host_with_inner_def host_update_def
        host_return_def require_capability_def Let_def demo_snapshot_bridge_def)
qed

theorem long_value_drops_event_witness:
  "\<exists>h' obs' result h'' read. apply_bridge_event demo_js demo_io None demo_authority demo_long_event 10 (demo_issuing_host, observability_new 4)
       = ((h', obs'), result)
     \<and> read_snapshot demo_js demo_io (\<lambda>_. Inr 0) demo_snapshot_bridge ''space_1'' ''page_1'' demo_authority 6 10 h' = (h'', Inr read)
     \<and> isl result \<and> get_clean (ho_snapshot_cache h') ''space_1'' ''page_1'' = None \<and> read = cached_read demo_ref_envelope"
proof -
  let ?snap = "\<lparr>cr_envelope = demo_ref_envelope, cr_generation = generation_from_page demo_gate_page, cr_dirty = False\<rparr>"
  obtain h' obs' result where a: "apply_bridge_event demo_js demo_io None demo_authority demo_long_event 10 (demo_issuing_host, observability_new 4)
       = ((h', obs'), result)" by (metis surj_pair)
  have s: "ho_state demo_issuing_host = demo_host_log 0 [] demo_page_snapshots" by (simp add: demo_issuing_host_def)
  obtain space page changed where plan: "event_plan demo_long demo_authority (ho_state demo_issuing_host) = Inr (Some (space, page, changed))"
      "snapshot_dirty demo_long changed"
    using demo_long_plan s by metis
  have long: "512 < byte_len demo_long_url" by (simp add: demo_long_url_bytes)
  have ids: "be_space_id demo_long = Some ''space_1''" "be_page_id demo_long = Some ''page_1''"
      "check_attribution None demo_authority demo_long = Inr ()" "authorize_ticket (ho_state demo_issuing_host) demo_authority = Inr ()"
      "\<not> isl (io_owner demo_io)"
    using demo_authorized(1) by (simp_all add: s check_attribution_def demo_long_def demo_authority_def stale_extension_def demo_io_def)
  note d = dropped_event [OF demo_long_parsed plan(1) demo_long_payload long a]
  obtain h'' read where read: "read_snapshot demo_js demo_io (\<lambda>_. Inr 0) demo_snapshot_bridge ''space_1'' ''page_1'' demo_authority 6 10 h' = (h'', Inr read)"
    using demo_ledger_read [of h'] d by (auto simp: demo_issuing_host_def demo_host_def)
  have snap: "current_snapshot (ho_state demo_issuing_host) ''space_1'' ''page_1'' = Some ?snap" "\<not> cr_dirty ?snap"
      "authorize_page (ho_state demo_issuing_host) ''space_1'' ''page_1'' demo_authority 6 10 False = Inr (cr_generation ?snap)"
    using demo_page_authorized by (simp_all add: s current_snapshot_def demo_host_log_def demo_page_snapshots_def)
  from long_value_drops_event [OF demo_long_parsed plan(1) demo_long_payload long ids(1,2) plan(2) ids(3-5) demo_issuing_cache(1) a snap read,
      unfolded snapshot_cache_record.select_convs]
  show ?thesis using a read by blast
qed

end
