(* ===== verification/Waits.thy ===== *)
theory Waits
  imports Event_Router Observability Refs Json
begin

text \<open>
  Event waits of the host (\<^verbatim>\<open>crates/agentyc-host/src/waits.rs\<close>): the predicates on events, the typed
  conditions, the state a wait gathers from the events it sees, and the engine that registers and
  polls waits against the event router. Text is compared by code points, which is what the byte
  comparison of UTF-8 text amounts to. The clock and the cancellation token are shared with the
  caller: a poll is given their current values.
\<close>

section \<open>Clock\<close>

text \<open>\<^verbatim>\<open>FakeClock\<close> is one shared counter.\<close>

definition clock_set :: "timestamp \<Rightarrow> timestamp \<Rightarrow> timestamp" where
  "clock_set now clock = now"

definition clock_advance :: "u64 \<Rightarrow> timestamp \<Rightarrow> timestamp" where
  "clock_advance ticks clock = saturating_add64 clock ticks"

definition clock_advance_to :: "timestamp \<Rightarrow> timestamp \<Rightarrow> timestamp" where
  "clock_advance_to now clock = clock_set now clock"

section \<open>Conditions\<close>

datatype text_matcher = TM_Exact utext | TM_Contains utext | TM_Prefix utext | TM_Suffix utext

definition text_contains :: "utext \<Rightarrow> utext \<Rightarrow> bool" where
  "text_contains value pat \<longleftrightarrow> find_sub value pat \<noteq> None"

fun matcher_matches :: "text_matcher \<Rightarrow> utext \<Rightarrow> bool" where
  "matcher_matches (TM_Exact expected) value \<longleftrightarrow> value = expected"
| "matcher_matches (TM_Contains expected) value \<longleftrightarrow> text_contains value expected"
| "matcher_matches (TM_Prefix expected) value \<longleftrightarrow> take (length expected) value = expected"
| "matcher_matches (TM_Suffix expected) value \<longleftrightarrow>
     length expected \<le> length value \<and> drop (length value - length expected) value = expected"

datatype navigation_kind = NK_Url | NK_History | NK_Reload | NK_Any

datatype history_direction = HD_Back | HD_Forward | HD_Any

datatype element_state = ES_Present | ES_Absent | ES_Visible | ES_Hidden

datatype download_wait_state = DW_Started | DW_Completed | DW_Failed

record url_wait =
  uw_matcher :: text_matcher
  uw_navigation :: "navigation_kind option"
  uw_generation :: "generation_watermark option"

record history_wait =
  hw_direction :: history_direction
  hw_generation :: "generation_watermark option"

record reload_wait =
  rw_generation :: "generation_watermark option"

record network_idle_wait =
  ni_quiet_for :: u64

record request_wait =
  qw_url :: "text_matcher option"
  qw_method :: "utext option"
  qw_resource_type :: "utext option"

record response_wait =
  sw_url :: "text_matcher option"
  sw_method :: "utext option"
  sw_resource_type :: "utext option"
  sw_status :: "u16 option"

record stable_dom_wait =
  dw_quiet_for :: u64
  dw_geometry_quiet_for :: u64

record element_wait =
  ew_selector :: "utext option"
  ew_text :: "text_matcher option"
  ew_state :: element_state
  ew_generation :: "generation_watermark option"

record page_wait =
  pw_page_id :: "utext option"
  pw_lifecycle :: "utext option"
  pw_generation :: "generation_watermark option"

record download_wait =
  lw_name :: "text_matcher option"
  lw_state :: download_wait_state

type_synonym wait_payload = "(utext, utext) btree"

type_synonym wait_event = "wait_payload event_record"

datatype host_wait =
    HW_EventKind event_kind
  | HW_Event "event_kind option" wait_payload
  | HW_Payload utext utext
  | HW_GenerationAtLeast generation_watermark
  | HW_Any "host_wait list"
  | HW_All "host_wait list"
  | HW_Url url_wait
  | HW_History history_wait
  | HW_Reload reload_wait
  | HW_NetworkIdle network_idle_wait
  | HW_Request request_wait
  | HW_Response response_wait
  | HW_StableDom stable_dom_wait
  | HW_Element element_wait
  | HW_Page page_wait
  | HW_Download download_wait

definition wait_url :: "utext \<Rightarrow> host_wait" where
  "wait_url value = HW_Url \<lparr>uw_matcher = TM_Exact value, uw_navigation = None, uw_generation = None\<rparr>"

definition wait_url_contains :: "utext \<Rightarrow> host_wait" where
  "wait_url_contains value = HW_Url \<lparr>uw_matcher = TM_Contains value, uw_navigation = None, uw_generation = None\<rparr>"

definition wait_history :: "history_direction \<Rightarrow> host_wait" where
  "wait_history direction = HW_History \<lparr>hw_direction = direction, hw_generation = None\<rparr>"

definition wait_reload :: host_wait where
  "wait_reload = HW_Reload \<lparr>rw_generation = None\<rparr>"

definition wait_network_idle :: "u64 \<Rightarrow> host_wait" where
  "wait_network_idle quiet_for = HW_NetworkIdle \<lparr>ni_quiet_for = quiet_for\<rparr>"

definition wait_any_request :: host_wait where
  "wait_any_request = HW_Request \<lparr>qw_url = None, qw_method = None, qw_resource_type = None\<rparr>"

definition wait_response :: host_wait where
  "wait_response = HW_Response \<lparr>sw_url = None, sw_method = None, sw_resource_type = None, sw_status = None\<rparr>"

definition wait_stable_dom :: "u64 \<Rightarrow> host_wait" where
  "wait_stable_dom quiet_for = HW_StableDom \<lparr>dw_quiet_for = quiet_for, dw_geometry_quiet_for = quiet_for\<rparr>"

definition wait_element :: "utext \<Rightarrow> element_state \<Rightarrow> host_wait" where
  "wait_element selector state =
     HW_Element \<lparr>ew_selector = Some selector, ew_text = None, ew_state = state, ew_generation = None\<rparr>"

definition wait_page :: "utext \<Rightarrow> host_wait" where
  "wait_page page_id = HW_Page \<lparr>pw_page_id = Some page_id, pw_lifecycle = None, pw_generation = None\<rparr>"

definition wait_download :: "utext \<Rightarrow> host_wait" where
  "wait_download name = HW_Download \<lparr>lw_name = Some (TM_Exact name), lw_state = DW_Completed\<rparr>"

section \<open>Reading an event\<close>

definition payload_get :: "wait_event \<Rightarrow> string \<Rightarrow> utext option" where
  "payload_get event key = bt_get (ev_payload event) (code_points key)"

definition payload_has :: "wait_event \<Rightarrow> string \<Rightarrow> bool" where
  "payload_has event key \<longleftrightarrow> payload_get event key \<noteq> None"

fun payload_value :: "wait_event \<Rightarrow> string list \<Rightarrow> utext option" where
  "payload_value event [] = None"
| "payload_value event (key # keys) =
     (case payload_get event key of Some value \<Rightarrow> Some value | None \<Rightarrow> payload_value event keys)"

definition text_lower :: "utext \<Rightarrow> utext" where
  "text_lower t = map lower_cp t"

definition eq_ignore_case :: "utext \<Rightarrow> utext \<Rightarrow> bool" where
  "eq_ignore_case a b \<longleftrightarrow> text_lower a = text_lower b"

definition payload_true :: "wait_event \<Rightarrow> string list \<Rightarrow> bool" where
  "payload_true event keys \<longleftrightarrow>
     is_some_and (payload_value event keys) (\<lambda>value. text_in (text_lower value) [''1'', ''true'', ''yes''])"

definition event_labels :: "wait_event \<Rightarrow> utext list" where
  "event_labels event = List.map_filter (payload_get event) [''wait_kind'', ''kind'', ''phase'', ''event'']"

definition event_label_is :: "wait_event \<Rightarrow> string list \<Rightarrow> bool" where
  "event_label_is event labels \<longleftrightarrow>
     list_ex (\<lambda>value. list_ex (\<lambda>label. eq_ignore_case value (code_points label)) labels) (event_labels event)"

definition event_has_label :: "wait_event \<Rightarrow> string list \<Rightarrow> bool" where
  "event_has_label event labels \<longleftrightarrow>
     list_ex (\<lambda>value. list_ex (\<lambda>label. text_contains (text_lower value) (text_lower (code_points label))) labels)
       (event_labels event)"

text \<open>\<^verbatim>\<open>str::parse\<close> for an unsigned integer: an optional plus, then decimal digits, within the type.\<close>

definition parse_unsigned :: "nat \<Rightarrow> utext \<Rightarrow> nat option" where
  "parse_unsigned limit t =
     (let digits = (case t of c # rest \<Rightarrow> if c = 43 then rest else t | [] \<Rightarrow> []);
          n = foldl (\<lambda>n c. 10 * n + (c - 48)) 0 digits
      in if digits \<noteq> [] \<and> list_all (\<lambda>c. 48 \<le> c \<and> c \<le> 57) digits \<and> n < limit then Some n else None)"

definition text_or_empty :: "utext option \<Rightarrow> utext" where
  "text_or_empty t = (case t of Some value \<Rightarrow> value | None \<Rightarrow> [])"

definition generation_matches :: "wait_event \<Rightarrow> generation_watermark option \<Rightarrow> bool" where
  "generation_matches event target \<longleftrightarrow> is_none_or target (\<lambda>target. generation_at_least (ev_generation event) target)"

definition transition_matches :: "wait_event \<Rightarrow> navigation_kind option \<Rightarrow> bool" where
  "transition_matches event expected =
     (let actual = text_lower (text_or_empty (payload_value event [''navigation'', ''navigation_kind'', ''transition''])) in
      case expected of
        None \<Rightarrow> True
      | Some NK_Any \<Rightarrow> True
      | Some NK_Url \<Rightarrow> actual = [] \<or> text_in actual [''url'', ''navigate'']
      | Some NK_History \<Rightarrow> text_in actual [''history'', ''same_document'']
      | Some NK_Reload \<Rightarrow> text_is actual ''reload'')"

definition typed_event_matches_url :: "url_wait \<Rightarrow> wait_event \<Rightarrow> bool" where
  "typed_event_matches_url condition event \<longleftrightarrow>
     is_some_and (payload_value event [''url'', ''href'']) (matcher_matches (uw_matcher condition))
     \<and> transition_matches event (uw_navigation condition)
     \<and> generation_matches event (uw_generation condition)
     \<and> (event_has_label event [''url'', ''navigation'', ''navigated'', ''history'', ''reload'', ''frame'']
        \<or> payload_has event ''url'')"

definition direction_matches :: "history_direction \<Rightarrow> utext \<Rightarrow> bool" where
  "direction_matches expected direction =
     (case expected of
        HD_Back \<Rightarrow> direction = [] \<or> text_is direction ''back''
      | HD_Forward \<Rightarrow> direction = [] \<or> text_is direction ''forward''
      | HD_Any \<Rightarrow> True)"

definition typed_event_matches_history :: "history_wait \<Rightarrow> wait_event \<Rightarrow> bool" where
  "typed_event_matches_history condition event \<longleftrightarrow>
     direction_matches (hw_direction condition)
       (text_lower (text_or_empty (payload_value event [''direction'', ''history_direction''])))
     \<and> generation_matches event (hw_generation condition)
     \<and> (event_label_is event [''history'', ''navigated_within_document'']
        \<or> is_some_and (payload_value event [''navigation'', ''navigation_kind''])
            (\<lambda>value. eq_ignore_case value (code_points ''history'')))"

definition typed_event_matches_reload :: "reload_wait \<Rightarrow> wait_event \<Rightarrow> bool" where
  "typed_event_matches_reload condition event \<longleftrightarrow>
     generation_matches event (rw_generation condition)
     \<and> (event_label_is event [''reload'', ''reloaded'']
        \<or> is_some_and (payload_value event [''navigation'', ''navigation_kind'', ''transition''])
            (\<lambda>value. eq_ignore_case value (code_points ''reload'')))"

section \<open>Network events\<close>

definition request_event :: "wait_event \<Rightarrow> bool" where
  "request_event event \<longleftrightarrow> event_has_label event [''request'', ''request_will_be_sent'']
     \<or> (payload_has event ''request_id'' \<and> \<not> payload_has event ''status'' \<and> \<not> payload_has event ''response_status'')"

definition response_event :: "wait_event \<Rightarrow> bool" where
  "response_event event \<longleftrightarrow> event_has_label event [''response'', ''response_received'']
     \<or> payload_has event ''status'' \<or> payload_has event ''response_status''"

definition network_request_started :: "wait_event \<Rightarrow> bool" where
  "network_request_started event \<longleftrightarrow> request_event event
     \<and> (event_label_is event [''request'', ''request_will_be_sent'', ''started'', ''request_started''] \<or> payload_has event ''url'')"

definition network_request_finished :: "wait_event \<Rightarrow> bool" where
  "network_request_finished event \<longleftrightarrow>
     event_has_label event [''loading_finished'', ''loading_failed'', ''finished'', ''failed'', ''complete'']
     \<or> payload_true event [''finished'', ''completed'', ''failed'']"

definition resource_type_of :: "wait_event \<Rightarrow> utext option" where
  "resource_type_of event = payload_value event [''resource_type'', ''resourceType'', ''type'']"

definition excluded_network_event :: "wait_event \<Rightarrow> bool" where
  "excluded_network_event event \<longleftrightarrow>
     payload_true event [''excluded'', ''long_lived'', ''websocket'', ''download'', ''analytics'']
     \<or> text_in (text_lower (text_or_empty (resource_type_of event)))
         [''websocket'', ''eventsource'', ''download'', ''webtransport'']
     \<or> list_ex (\<lambda>marker. text_contains (text_lower (text_or_empty (payload_value event [''url'', ''href'']))) (code_points marker))
         [''google-analytics'', ''googletagmanager'', ''doubleclick'', ''segment.io'', ''mixpanel'', ''amplitude'', ''hotjar'',
          ''plausible.io'', ''/analytics'']"

definition typed_event_matches_request :: "request_wait \<Rightarrow> wait_event \<Rightarrow> bool" where
  "typed_event_matches_request condition event \<longleftrightarrow>
     request_event event
     \<and> is_none_or (qw_url condition) (\<lambda>matcher. is_some_and (payload_value event [''url'', ''href'']) (matcher_matches matcher))
     \<and> is_none_or (qw_method condition) (\<lambda>method. is_some_and (payload_value event [''method'']) (\<lambda>actual. eq_ignore_case actual method))
     \<and> is_none_or (qw_resource_type condition) (\<lambda>t. is_some_and (resource_type_of event) (\<lambda>actual. eq_ignore_case actual t))"

text \<open>The address, method and resource type that a request announced.\<close>

type_synonym request_metadata = "utext \<times> utext \<times> utext"

definition own_or :: "utext option \<Rightarrow> request_metadata option \<Rightarrow> (request_metadata \<Rightarrow> utext) \<Rightarrow> utext option" where
  "own_or own metadata field = (case own of Some value \<Rightarrow> Some value | None \<Rightarrow> map_option field metadata)"

definition typed_event_matches_response :: "response_wait \<Rightarrow> wait_event \<Rightarrow> request_metadata option \<Rightarrow> bool" where
  "typed_event_matches_response condition event metadata \<longleftrightarrow>
     response_event event
     \<and> is_none_or (sw_url condition) (\<lambda>matcher. is_some_and (payload_value event [''url'', ''href'']) (matcher_matches matcher))
     \<and> is_none_or (sw_method condition) (\<lambda>method.
          is_some_and (own_or (payload_value event [''method'']) metadata (\<lambda>(_, method, _). method))
            (\<lambda>actual. eq_ignore_case actual method))
     \<and> is_none_or (sw_resource_type condition) (\<lambda>t.
          is_some_and (own_or (resource_type_of event) metadata (\<lambda>(_, _, resource_type). resource_type))
            (\<lambda>actual. eq_ignore_case actual t))
     \<and> is_none_or (sw_status condition) (\<lambda>status.
          is_some_and (Option.bind (payload_value event [''status'', ''response_status'']) (parse_unsigned (2 ^ 16)))
            (\<lambda>actual. actual = unat status))"

section \<open>Documents, elements, pages and downloads\<close>

definition dom_mutation_event :: "wait_event \<Rightarrow> bool" where
  "dom_mutation_event event \<longleftrightarrow> event_has_label event [''dom'', ''mutation'', ''dom_mutation'']
     \<or> payload_true event [''dom_changed'', ''mutation'']"

definition geometry_event :: "wait_event \<Rightarrow> bool" where
  "geometry_event event \<longleftrightarrow> event_has_label event [''geometry'', ''layout'', ''resize'']
     \<or> payload_has event ''geometry_signature'' \<or> payload_has event ''geometry''
     \<or> payload_true event [''geometry_changed'', ''layout_changed'']"

definition element_state_matches :: "element_state \<Rightarrow> utext \<Rightarrow> bool" where
  "element_state_matches expected state =
     (case expected of
        ES_Present \<Rightarrow> state = [] \<or> text_in state [''present'', ''visible'', ''attached'']
      | ES_Absent \<Rightarrow> text_in state [''absent'', ''detached'', ''missing'']
      | ES_Visible \<Rightarrow> text_is state ''visible''
      | ES_Hidden \<Rightarrow> text_is state ''hidden'')"

definition typed_event_matches_element :: "element_wait \<Rightarrow> wait_event \<Rightarrow> bool" where
  "typed_event_matches_element condition event \<longleftrightarrow>
     is_none_or (ew_selector condition) (\<lambda>selector. payload_value event [''selector''] = Some selector)
     \<and> is_none_or (ew_text condition) (\<lambda>matcher.
          is_some_and (payload_value event [''text'', ''inner_text'', ''content'']) (matcher_matches matcher))
     \<and> element_state_matches (ew_state condition) (text_or_empty (payload_value event [''state'', ''element_state'']))
     \<and> generation_matches event (ew_generation condition)
     \<and> (event_has_label event [''element'', ''selector''] \<or> payload_has event ''state'')"

definition typed_event_matches_page :: "page_wait \<Rightarrow> wait_event \<Rightarrow> bool" where
  "typed_event_matches_page condition event \<longleftrightarrow>
     is_none_or (pw_page_id condition) (\<lambda>page_id. payload_value event [''page_id'', ''pageId''] = Some page_id)
     \<and> is_none_or (pw_lifecycle condition) (\<lambda>lifecycle. payload_value event [''lifecycle'', ''state''] = Some lifecycle)
     \<and> generation_matches event (pw_generation condition)
     \<and> (event_has_label event [''page'', ''connection'', ''target''] \<or> payload_has event ''page_id'')"

definition event_signals_resync :: "wait_event \<Rightarrow> bool" where
  "event_signals_resync event \<longleftrightarrow>
     payload_true event [''generation_replaced'', ''target_replaced'', ''document_replaced'', ''disconnected'', ''disconnect'',
       ''resync_required'']
     \<or> is_some_and (payload_value event [''connection_state'', ''lifecycle'', ''state''])
         (\<lambda>state. text_in (text_lower state) [''disconnected'', ''replaced'', ''resync_required''])
     \<or> (ev_event event = EK_ConnectionChanged
        \<and> is_some_and (payload_value event [''status'', ''connection''])
            (\<lambda>state. eq_ignore_case state (code_points ''disconnected'')))"

definition download_state_matches :: "download_wait_state \<Rightarrow> utext \<Rightarrow> bool" where
  "download_state_matches expected state =
     (case expected of
        DW_Started \<Rightarrow> text_in state [''started'', ''in_progress'']
      | DW_Completed \<Rightarrow> text_in state [''completed'', ''complete'']
      | DW_Failed \<Rightarrow> text_in state [''failed'', ''cancelled''])"

definition typed_event_matches_download :: "download_wait \<Rightarrow> wait_event \<Rightarrow> bool" where
  "typed_event_matches_download condition event \<longleftrightarrow>
     is_none_or (lw_name condition) (\<lambda>matcher.
       is_some_and (payload_value event [''name'', ''filename'', ''file_name'']) (matcher_matches matcher))
     \<and> download_state_matches (lw_state condition) (text_or_empty (payload_value event [''state'', ''download_state'']))
     \<and> (event_has_label event [''download''] \<or> payload_has event ''filename'')"

fun wait_matches :: "host_wait \<Rightarrow> wait_event \<Rightarrow> bool" where
  "wait_matches (HW_EventKind kind) event \<longleftrightarrow> ev_event event = kind"
| "wait_matches (HW_Event kind payload) event \<longleftrightarrow>
     is_none_or kind (\<lambda>expected. ev_event event = expected)
     \<and> list_all (\<lambda>(key, value). bt_get (ev_payload event) key = Some value) payload"
| "wait_matches (HW_Payload key value) event \<longleftrightarrow> bt_get (ev_payload event) key = Some value"
| "wait_matches (HW_GenerationAtLeast target) event \<longleftrightarrow> generation_at_least (ev_generation event) target"
| "wait_matches (HW_Any conditions) event \<longleftrightarrow> list_ex (\<lambda>condition. wait_matches condition event) conditions"
| "wait_matches (HW_All conditions) event \<longleftrightarrow> list_all (\<lambda>condition. wait_matches condition event) conditions"
| "wait_matches (HW_Url condition) event \<longleftrightarrow> typed_event_matches_url condition event"
| "wait_matches (HW_History condition) event \<longleftrightarrow> typed_event_matches_history condition event"
| "wait_matches (HW_Reload condition) event \<longleftrightarrow> typed_event_matches_reload condition event"
| "wait_matches (HW_NetworkIdle _) event \<longleftrightarrow> False"
| "wait_matches (HW_StableDom _) event \<longleftrightarrow> False"
| "wait_matches (HW_Request condition) event \<longleftrightarrow> typed_event_matches_request condition event"
| "wait_matches (HW_Response condition) event \<longleftrightarrow> typed_event_matches_response condition event None"
| "wait_matches (HW_Element condition) event \<longleftrightarrow> typed_event_matches_element condition event"
| "wait_matches (HW_Page condition) event \<longleftrightarrow> typed_event_matches_page condition event"
| "wait_matches (HW_Download condition) event \<longleftrightarrow> typed_event_matches_download condition event"

section \<open>What a wait has seen\<close>

record wait_state =
  ws_network_active :: "(utext, bool) btree"
  ws_network_quiet_since :: "timestamp option"
  ws_dom_quiet_since :: "timestamp option"
  ws_geometry_quiet_since :: "timestamp option"
  ws_geometry_signature :: "utext option"
  ws_request_metadata :: "(utext, request_metadata) btree"
  ws_pending_responses :: "(utext, wait_event) btree"
  ws_matched_event :: "wait_event option"
  ws_last_event :: "wait_event option"
  ws_last_observed_at :: "timestamp option"

definition wait_state_new :: "timestamp \<Rightarrow> wait_state" where
  "wait_state_new now =
     \<lparr>ws_network_active = [], ws_network_quiet_since = Some now, ws_dom_quiet_since = Some now,
      ws_geometry_quiet_since = Some now, ws_geometry_signature = None, ws_request_metadata = [],
      ws_pending_responses = [], ws_matched_event = None, ws_last_event = None, ws_last_observed_at = Some now\<rparr>"

definition event_time :: "timestamp \<Rightarrow> wait_event \<Rightarrow> timestamp" where
  "event_time now event =
     (case Option.bind (payload_value event [''timestamp'', ''at'']) (parse_unsigned (2 ^ 64)) of
        Some t \<Rightarrow> of_nat t | None \<Rightarrow> now)"

definition observe_time :: "timestamp \<Rightarrow> wait_event \<Rightarrow> wait_state \<Rightarrow> wait_state \<times> timestamp" where
  "observe_time now event state =
     (let at = event_time now event;
          previous = (case ws_last_observed_at state of Some t \<Rightarrow> t | None \<Rightarrow> at);
          effective = max (max previous at) now
      in (state\<lparr>ws_last_observed_at := Some effective\<rparr>, effective))"

definition request_id_of :: "wait_event \<Rightarrow> utext option" where
  "request_id_of event = payload_value event [''request_id'', ''requestId'']"

definition observe_network :: "wait_event \<Rightarrow> timestamp \<Rightarrow> wait_state \<Rightarrow> wait_state" where
  "observe_network event now state =
     (case request_id_of event of
        None \<Rightarrow> state
      | Some request_id \<Rightarrow>
          if network_request_started event then
            (if excluded_network_event event then state
             else state\<lparr>ws_network_active := bt_insert request_id False (ws_network_active state),
                        ws_network_quiet_since := None\<rparr>)
          else if network_request_finished event then
            (let active = bt_remove request_id (ws_network_active state)
             in state\<lparr>ws_network_active := active,
                  ws_network_quiet_since := (if active = [] then Some now else ws_network_quiet_since state)\<rparr>)
          else state)"

definition metadata_of :: "wait_event \<Rightarrow> request_metadata" where
  "metadata_of event = (text_or_empty (payload_value event [''url'', ''href'']), text_or_empty (payload_value event [''method'']),
     text_or_empty (resource_type_of event))"

definition observe_request_metadata :: "response_wait \<Rightarrow> wait_event \<Rightarrow> wait_state \<Rightarrow> wait_state" where
  "observe_request_metadata condition event state =
     (if \<not> request_event event then state
      else case request_id_of event of
        None \<Rightarrow> state
      | Some request_id \<Rightarrow>
          (let known = state\<lparr>ws_request_metadata := bt_insert request_id (metadata_of event) (ws_request_metadata state)\<rparr>
           in case bt_get (ws_pending_responses known) request_id of
                None \<Rightarrow> known
              | Some response \<Rightarrow>
                  (let known = known\<lparr>ws_pending_responses := bt_remove request_id (ws_pending_responses known)\<rparr>
                   in if typed_event_matches_response condition response (bt_get (ws_request_metadata known) request_id)
                      then known\<lparr>ws_matched_event := Some response\<rparr> else known)))"

definition observe_response :: "response_wait \<Rightarrow> wait_event \<Rightarrow> wait_state \<Rightarrow> wait_state" where
  "observe_response condition event state =
     (if \<not> response_event event then state
      else
        (let request_id = text_or_empty (request_id_of event);
             metadata = bt_get (ws_request_metadata state) request_id;
             state = (if typed_event_matches_response condition event metadata then state\<lparr>ws_matched_event := Some event\<rparr>
                      else if request_id \<noteq> [] then
                        state\<lparr>ws_pending_responses := bt_insert request_id event (ws_pending_responses state)\<rparr>
                      else state)
         in if request_id \<noteq> [] \<and> \<not> bt_contains (ws_request_metadata state) request_id
            then state\<lparr>ws_request_metadata := bt_insert request_id ([], [], []) (ws_request_metadata state)\<rparr> else state))"

definition observe_dom :: "wait_event \<Rightarrow> timestamp \<Rightarrow> wait_state \<Rightarrow> wait_state" where
  "observe_dom event now state =
     (let state = (if dom_mutation_event event then state\<lparr>ws_dom_quiet_since := Some now\<rparr> else state)
      in if geometry_event event then
           (let signature = payload_value event [''geometry_signature'', ''geometry'']
            in if signature \<noteq> ws_geometry_signature state then
                 state\<lparr>ws_geometry_signature := signature, ws_geometry_quiet_since := Some now\<rparr>
               else if ws_geometry_quiet_since state = None then state\<lparr>ws_geometry_quiet_since := Some now\<rparr>
               else state)
         else state)"

text \<open>The guards of the other arms, and of the last one, are what \<open>wait_matches\<close> decides.\<close>

definition wait_observe :: "host_wait \<Rightarrow> wait_event \<Rightarrow> timestamp \<Rightarrow> wait_state \<Rightarrow> wait_state" where
  "wait_observe condition event now state =
     (let (state, now) = observe_time now event state;
          state = state\<lparr>ws_last_event := Some event\<rparr>
      in case condition of
           HW_NetworkIdle _ \<Rightarrow> observe_network event now state
         | HW_Response response \<Rightarrow> observe_response response event (observe_request_metadata response event state)
         | HW_StableDom _ \<Rightarrow> observe_dom event now state
         | _ \<Rightarrow> if wait_matches condition event then state\<lparr>ws_matched_event := Some event\<rparr> else state)"

definition saturating_sub :: "u64 \<Rightarrow> u64 \<Rightarrow> u64" where
  "saturating_sub a b = (if b \<le> a then a - b else 0)"

definition quiet_enough :: "timestamp \<Rightarrow> u64 \<Rightarrow> timestamp option \<Rightarrow> bool" where
  "quiet_enough now quiet_for since \<longleftrightarrow> is_some_and since (\<lambda>since. quiet_for \<le> saturating_sub now since)"

definition wait_satisfied :: "wait_state \<Rightarrow> host_wait \<Rightarrow> timestamp \<Rightarrow> bool" where
  "wait_satisfied state condition now \<longleftrightarrow>
     ws_matched_event state \<noteq> None
     \<or> (case condition of
          HW_NetworkIdle config \<Rightarrow>
            ws_network_active state = [] \<and> quiet_enough now (ni_quiet_for config) (ws_network_quiet_since state)
        | HW_StableDom config \<Rightarrow>
            quiet_enough now (dw_quiet_for config) (ws_dom_quiet_since state)
            \<and> quiet_enough now (dw_geometry_quiet_for config) (ws_geometry_quiet_since state)
        | _ \<Rightarrow> False)"

definition reported_event :: "wait_state \<Rightarrow> wait_event option" where
  "reported_event state = (case ws_matched_event state of Some event \<Rightarrow> Some event | None \<Rightarrow> ws_last_event state)"

section \<open>The engine\<close>

record wait_registration =
  wr_id :: u64
  wr_registered_after :: event_cursor
  wr_cursor :: event_cursor
  wr_condition :: host_wait
  wr_scope :: "event_scope option"
  wr_deadline :: timestamp
  wr_registered_at :: timestamp
  wr_state :: wait_state
  wr_finished :: bool

datatype wait_outcome =
    WO_Pending event_cursor
  | WO_Matched wait_event event_cursor
  | WO_ResyncRequired event_cursor
  | WO_Cancelled event_cursor
  | WO_DeadlineExceeded event_cursor

text \<open>The engine keeps the next identity; its clock is read at each call.\<close>

definition register_scoped ::
  "timestamp \<Rightarrow> wait_payload event_router \<Rightarrow> host_wait \<Rightarrow> event_scope option \<Rightarrow> timestamp \<Rightarrow> u64
   \<Rightarrow> u64 \<times> wait_registration" where
  "register_scoped now router condition scope deadline next_id =
     (saturating_add64 next_id 1,
      \<lparr>wr_id = next_id, wr_registered_after = router_cursor router, wr_cursor = router_cursor router,
       wr_condition = condition, wr_scope = scope, wr_deadline = deadline, wr_registered_at = now,
       wr_state = wait_state_new now, wr_finished = False\<rparr>)"

definition wait_register where
  "wait_register now router condition deadline next_id = register_scoped now router condition None deadline next_id"

definition register_for ::
  "timestamp \<Rightarrow> wait_payload event_router \<Rightarrow> host_wait \<Rightarrow> u64 \<Rightarrow> u64 \<Rightarrow> u64 \<times> wait_registration" where
  "register_for now router condition duration next_id =
     wait_register now router condition (saturating_add64 now duration) next_id"

definition stops_wait :: "wait_event \<Rightarrow> bool" where
  "stops_wait event \<longleftrightarrow> event_requires_resync event \<or> event_signals_resync event"

text \<open>The loop over the batch: the state, whether the wait is finished, and the outcome of an early return.\<close>

fun poll_events ::
  "host_wait \<Rightarrow> timestamp \<Rightarrow> event_cursor \<Rightarrow> wait_state \<Rightarrow> bool \<Rightarrow> wait_event list
   \<Rightarrow> wait_state \<times> bool \<times> wait_outcome option" where
  "poll_events condition now cursor state finished [] = (state, finished, None)"
| "poll_events condition now cursor state finished (event # events) =
     (if stops_wait event then (state, True, Some (WO_ResyncRequired cursor))
      else
        (let state = wait_observe condition event now state in
         if wait_satisfied state condition now then
           (case reported_event state of
              Some event \<Rightarrow> (state, True, Some (WO_Matched event cursor))
            | None \<Rightarrow> poll_events condition now cursor state True events)
         else poll_events condition now cursor state finished events))"

definition poll_batch :: "timestamp \<Rightarrow> wait_event list \<Rightarrow> wait_registration \<Rightarrow> wait_registration \<times> wait_outcome" where
  "poll_batch now events registration =
     (let cursor = wr_cursor registration in
      case poll_events (wr_condition registration) now cursor (wr_state registration) (wr_finished registration) events of
        (state, finished, Some outcome) \<Rightarrow> (registration\<lparr>wr_state := state, wr_finished := finished\<rparr>, outcome)
      | (state, finished, None) \<Rightarrow>
          (let registration = registration\<lparr>wr_state := state, wr_finished := finished\<rparr> in
           if wait_satisfied state (wr_condition registration) now then
             (registration\<lparr>wr_finished := True\<rparr>,
              case reported_event state of Some event \<Rightarrow> WO_Matched event cursor | None \<Rightarrow> WO_Pending cursor)
           else (registration, WO_Pending cursor)))"

definition poll ::
  "timestamp \<Rightarrow> bool \<Rightarrow> wait_payload event_router \<Rightarrow> wait_registration \<Rightarrow> wait_registration \<times> wait_outcome" where
  "poll clock cancelled router registration =
     (let cursor = wr_cursor registration; now = max clock (wr_registered_at registration) in
      if wr_finished registration then (registration, WO_Pending cursor)
      else if cancelled then (registration\<lparr>wr_finished := True\<rparr>, WO_Cancelled cursor)
      else if wr_deadline registration \<le> now then (registration\<lparr>wr_finished := True\<rparr>, WO_DeadlineExceeded cursor)
      else
        (let batch = replay router cursor (wr_scope registration) in
         if eb_result batch = RU_ResyncRequired then
           (registration\<lparr>wr_finished := True\<rparr>, WO_ResyncRequired (eb_cursor batch))
         else poll_batch now (eb_events batch) (registration\<lparr>wr_cursor := eb_cursor batch\<rparr>)))"

fun outcome_error :: "wait_outcome \<Rightarrow> core_error option" where
  "outcome_error (WO_ResyncRequired _) = Some (core_error_new EC_EventLagged ''wait event history requires resynchronization'')"
| "outcome_error (WO_Cancelled _) = Some (core_error_new EC_Cancelled ''wait was cancelled'')"
| "outcome_error (WO_DeadlineExceeded _) = Some (core_error_new EC_Timeout ''wait deadline exceeded'')"
| "outcome_error (WO_Pending _) = None"
| "outcome_error (WO_Matched _ _) = None"

section \<open>Waits that report events\<close>

text \<open>Every condition but the two that wait for quiet is decided by events alone.\<close>

fun awaits_event :: "host_wait \<Rightarrow> bool" where
  "awaits_event (HW_NetworkIdle _) = False"
| "awaits_event (HW_StableDom _) = False"
| "awaits_event _ = True"

fun one_event :: "host_wait \<Rightarrow> bool" where
  "one_event (HW_Response _) = False"
| "one_event condition = awaits_event condition"

lemma observe_time_sel [simp]:
  "ws_matched_event (fst (observe_time now event s)) = ws_matched_event s"
  "ws_network_active (fst (observe_time now event s)) = ws_network_active s"
  "ws_network_quiet_since (fst (observe_time now event s)) = ws_network_quiet_since s"
  "ws_request_metadata (fst (observe_time now event s)) = ws_request_metadata s"
  "ws_pending_responses (fst (observe_time now event s)) = ws_pending_responses s"
  "ws_last_observed_at (fst (observe_time now event s)) = Some (snd (observe_time now event s))"
  by (simp_all add: observe_time_def Let_def)

lemma observe_last: "ws_last_event (wait_observe condition event now s) = Some event"
  by (cases condition) (auto simp: wait_observe_def observe_time_def Let_def observe_network_def observe_request_metadata_def
      observe_response_def observe_dom_def split: option.split)

lemma observe_one_event:
  "one_event condition \<Longrightarrow> ws_matched_event (wait_observe condition event now s)
     = (if wait_matches condition event then Some event else ws_matched_event s)"
  by (cases condition) (auto simp: wait_observe_def split_def Let_def)

lemma satisfied_awaits: "awaits_event condition \<Longrightarrow> wait_satisfied s condition now \<longleftrightarrow> ws_matched_event s \<noteq> None"
  by (cases condition) (auto simp: wait_satisfied_def)

lemma one_event_awaits: "one_event condition \<Longrightarrow> awaits_event condition"
  by (cases condition) auto

text \<open>The loop ends with the first event that ends the wait.\<close>

lemma poll_events_one:
  assumes "one_event condition" "ws_matched_event s = None"
  shows "snd (snd (poll_events condition now cursor s finished events))
      = (case find (\<lambda>e. stops_wait e \<or> wait_matches condition e) events of
           None \<Rightarrow> None
         | Some e \<Rightarrow> Some (if stops_wait e then WO_ResyncRequired cursor else WO_Matched e cursor))"
  using assms(2)
proof (induction events arbitrary: s)
  case (Cons e es)
  then show ?case
    using observe_one_event [OF assms(1), of e now s] satisfied_awaits [OF one_event_awaits [OF assms(1)]]
    by (auto simp: reported_event_def Let_def split: option.split)
qed simp

text \<open>Without a report the wait stays open and nothing has matched.\<close>

lemma poll_events_open:
  assumes "awaits_event condition" "ws_matched_event s = None"
    and "poll_events condition now cursor s finished events = (s', finished', None)"
  shows "finished' = finished \<and> ws_matched_event s' = None"
  using assms(2,3)
proof (induction events arbitrary: s)
  case (Cons e es)
  let ?s = "wait_observe condition e now s"
  show ?case
  proof (cases "ws_matched_event ?s")
    case None
    then show ?thesis using Cons satisfied_awaits [OF assms(1), of ?s] by (auto simp: Let_def split: if_splits)
  next
    case (Some m)
    then show ?thesis using Cons satisfied_awaits [OF assms(1), of ?s]
      by (auto simp: Let_def reported_event_def split: if_splits)
  qed
qed simp

lemma poll_events_report:
  "poll_events condition now cursor s finished events = (s', finished', Some outcome)
   \<Longrightarrow> finished' \<and> (outcome = WO_ResyncRequired cursor \<or> (\<exists>e. outcome = WO_Matched e cursor))"
  by (induction condition now cursor s finished events rule: poll_events.induct)
     (auto simp: Let_def split: if_splits option.splits)

fun is_pending :: "wait_outcome \<Rightarrow> bool" where
  "is_pending (WO_Pending _) = True"
| "is_pending _ = False"

definition wait_open :: "wait_registration \<Rightarrow> bool" where
  "wait_open w \<longleftrightarrow> \<not> wr_finished w \<and> ws_matched_event (wr_state w) = None"

lemma registered_open: "wait_open (snd (register_scoped now router condition scope deadline n))"
  by (simp add: wait_open_def register_scoped_def wait_state_new_def)

lemma poll_batch_open:
  assumes "awaits_event (wr_condition w)" "wait_open w"
  shows "if is_pending (snd (poll_batch now events w)) then wait_open (fst (poll_batch now events w))
    else wr_finished (fst (poll_batch now events w))"
proof -
  obtain s' finished' out where p: "poll_events (wr_condition w) now (wr_cursor w) (wr_state w) (wr_finished w) events = (s', finished', out)"
    by (metis prod_cases3)
  show ?thesis
  proof (cases out)
    case None
    then have "\<not> finished'" "ws_matched_event s' = None"
      using poll_events_open [OF assms(1) _ p [unfolded None]] assms(2) by (simp_all add: wait_open_def)
    then show ?thesis using p None satisfied_awaits [OF assms(1), of s'] by (simp add: poll_batch_def wait_open_def)
  next
    case (Some outcome)
    then show ?thesis using p poll_events_report [of "wr_condition w" now "wr_cursor w"] by (fastforce simp: poll_batch_def)
  qed
qed

lemma poll_batch_sel [simp]:
  "wr_condition (fst (poll_batch now events w)) = wr_condition w" "wr_deadline (fst (poll_batch now events w)) = wr_deadline w"
  "wr_registered_at (fst (poll_batch now events w)) = wr_registered_at w" "wr_scope (fst (poll_batch now events w)) = wr_scope w"
  by (simp_all add: poll_batch_def Let_def split: prod.split option.split)

lemma poll_sel [simp]:
  "wr_condition (fst (poll clock cancelled router w)) = wr_condition w" "wr_deadline (fst (poll clock cancelled router w)) = wr_deadline w"
  "wr_registered_at (fst (poll clock cancelled router w)) = wr_registered_at w" "wr_scope (fst (poll clock cancelled router w)) = wr_scope w"
  by (simp_all add: poll_def Let_def)

lemma poll_open:
  assumes "awaits_event (wr_condition w)" "wait_open w"
  shows "if is_pending (snd (poll clock cancelled router w)) then wait_open (fst (poll clock cancelled router w))
      \<and> \<not> cancelled \<and> clock < wr_deadline w
    else wr_finished (fst (poll clock cancelled router w))"
proof -
  let ?w = "w\<lparr>wr_cursor := eb_cursor (replay router (wr_cursor w) (wr_scope w))\<rparr>"
  have "awaits_event (wr_condition ?w)" "wait_open ?w" using assms by (simp_all add: wait_open_def)
  from poll_batch_open [OF this, of "max clock (wr_registered_at w)" "eb_events (replay router (wr_cursor w) (wr_scope w))"]
  show ?thesis using assms(2) by (auto simp: poll_def Let_def wait_open_def not_le split: if_splits)
qed

text \<open>A series of polls, each with the clock, the cancellation flag and the router it meets.\<close>

fun polls :: "(timestamp \<times> bool \<times> wait_payload event_router) list \<Rightarrow> wait_registration \<Rightarrow> wait_outcome list" where
  "polls [] w = []"
| "polls ((clock, cancelled, router) # ps) w =
     (case poll clock cancelled router w of (w', outcome) \<Rightarrow> outcome # polls ps w')"

lemma polls_finished: "wr_finished w \<Longrightarrow> outcome \<in> set (polls ps w) \<Longrightarrow> is_pending outcome"
  by (induction ps w rule: polls.induct) (auto simp: poll_def Let_def)

lemma polls_once:
  assumes "awaits_event (wr_condition w)" "wait_open w" "ps \<noteq> []" "wr_deadline w \<le> fst (last ps)"
  shows "length (filter (\<lambda>outcome. \<not> is_pending outcome) (polls ps w)) = 1"
  using assms
proof (induction ps w rule: polls.induct)
  case (2 clock cancelled router ps w)
  obtain w' outcome where p: "poll clock cancelled router w = (w', outcome)" by (cases "poll clock cancelled router w")
  note step = poll_open [OF 2(2,3), of clock cancelled router]
  show ?case
  proof (cases "is_pending outcome")
    case True
    then have w': "wait_open w'" "clock < wr_deadline w" using step p by auto
    then have "ps \<noteq> []" using 2(5) by auto
    moreover have "wr_condition w' = wr_condition w" "wr_deadline w' = wr_deadline w"
      using poll_sel(1,2) [of clock cancelled router w] p by simp_all
    ultimately show ?thesis using 2 p True w' by simp
  next
    case False
    then have "wr_finished w'" using step p by auto
    then have "filter (\<lambda>outcome. \<not> is_pending outcome) (polls ps w') = []"
      using polls_finished [of w'] by (auto simp: filter_empty_conv)
    then show ?thesis using p False by simp
  qed
qed simp

section \<open>Properties of polling\<close>

text \<open>
  What a poll answers. As long as a wait is open, cancellation comes before the deadline, the deadline before
  the events, and a history that cannot be replayed before any event; then the first event of the
  replay that asks for resynchronization or satisfies the condition decides, and without one the wait
  stays open behind the replayed events.
\<close>

theorem poll_exact:
  assumes "one_event (wr_condition w)" "wait_open w"
  shows "snd (poll clock cancelled router w) =
    (let batch = replay router (wr_cursor w) (wr_scope w) in
     if cancelled then WO_Cancelled (wr_cursor w)
     else if wr_deadline w \<le> max clock (wr_registered_at w) then WO_DeadlineExceeded (wr_cursor w)
     else if eb_result batch = RU_ResyncRequired then WO_ResyncRequired (eb_cursor batch)
     else case find (\<lambda>e. stops_wait e \<or> wait_matches (wr_condition w) e) (eb_events batch) of
         None \<Rightarrow> WO_Pending (eb_cursor batch)
       | Some e \<Rightarrow> if stops_wait e then WO_ResyncRequired (eb_cursor batch) else WO_Matched e (eb_cursor batch))"
proof -
  let ?batch = "replay router (wr_cursor w) (wr_scope w)" and ?now = "max clock (wr_registered_at w)"
  have "snd (poll_batch ?now (eb_events ?batch) (w\<lparr>wr_cursor := eb_cursor ?batch\<rparr>))
      = (case find (\<lambda>e. stops_wait e \<or> wait_matches (wr_condition w) e) (eb_events ?batch) of
          None \<Rightarrow> WO_Pending (eb_cursor ?batch)
        | Some e \<Rightarrow> if stops_wait e then WO_ResyncRequired (eb_cursor ?batch) else WO_Matched e (eb_cursor ?batch))"
  proof -
    obtain s' finished' out where p: "poll_events (wr_condition w) ?now (eb_cursor ?batch) (wr_state w) (wr_finished w) (eb_events ?batch)
        = (s', finished', out)" by (metis prod_cases3)
    note one = poll_events_one [OF assms(1), of "wr_state w" ?now "eb_cursor ?batch" "wr_finished w" "eb_events ?batch"]
    have "ws_matched_event s' = None" if "out = None"
      using poll_events_open [OF one_event_awaits [OF assms(1)] _ p [unfolded that]] assms(2) by (simp add: wait_open_def)
    with one p assms(2) satisfied_awaits [OF one_event_awaits [OF assms(1)], of s'] show ?thesis
      by (cases out) (auto simp: poll_batch_def wait_open_def Let_def split: option.splits)
  qed
  then show ?thesis using assms(2) by (simp add: poll_def Let_def wait_open_def)
qed

text \<open>
  What a wait has seen of events with a property \<open>P\<close>: the last one, the requests and the responses it keeps,
  and the one it would report, which satisfies the condition. For a response that means together with what its
  request announced, when the wait has seen the request.
\<close>

definition event_id :: "wait_event \<Rightarrow> utext" where
  "event_id event = text_or_empty (request_id_of event)"

definition reports :: "(wait_event \<Rightarrow> bool) \<Rightarrow> host_wait \<Rightarrow> wait_event \<Rightarrow> bool" where
  "reports P condition e \<longleftrightarrow> P e \<and> (case condition of
       HW_Response response \<Rightarrow> response_event e
         \<and> (typed_event_matches_response response e None \<or> typed_event_matches_response response e (Some ([], [], []))
            \<or> (\<exists>q. P q \<and> request_event q \<and> event_id q = event_id e
                 \<and> typed_event_matches_response response e (Some (metadata_of q))))
     | HW_NetworkIdle _ \<Rightarrow> True
     | HW_StableDom _ \<Rightarrow> True
     | _ \<Rightarrow> wait_matches condition e)"

definition wait_seen :: "(wait_event \<Rightarrow> bool) \<Rightarrow> host_wait \<Rightarrow> wait_state \<Rightarrow> bool" where
  "wait_seen P condition s \<longleftrightarrow> (\<forall>e. ws_last_event s = Some e \<longrightarrow> P e)
     \<and> (\<forall>e. ws_matched_event s = Some e \<longrightarrow> reports P condition e)
     \<and> (\<forall>(i, e) \<in> set (ws_pending_responses s). P e \<and> response_event e \<and> event_id e = i)
     \<and> (\<forall>(i, m) \<in> set (ws_request_metadata s). m = ([], [], [])
          \<or> (\<exists>q. P q \<and> request_event q \<and> event_id q = i \<and> m = metadata_of q))"

lemma wait_seen_new: "wait_seen P condition (wait_state_new now)"
  by (simp add: wait_seen_def wait_state_new_def)

lemma known_metadata:
  assumes "wait_seen P (HW_Response response) s" "P e" "response_event e"
    and "typed_event_matches_response response e (bt_get (ws_request_metadata s) (event_id e))"
  shows "reports P (HW_Response response) e"
proof (cases "bt_get (ws_request_metadata s) (event_id e)")
  case None
  then show ?thesis using assms(2-4) by (simp add: reports_def)
next
  case (Some m)
  then have "(event_id e, m) \<in> set (ws_request_metadata s)" by (rule bt_get_in)
  then have "m = ([], [], []) \<or> (\<exists>q. P q \<and> request_event q \<and> event_id q = event_id e \<and> m = metadata_of q)"
    using assms(1) unfolding wait_seen_def by blast
  then show ?thesis using assms(2-4) unfolding reports_def by (simp only: Some host_wait.case) blast
qed

lemma seen_request:
  assumes "wait_seen P condition s" "m = ([], [], []) \<or> (\<exists>q. P q \<and> request_event q \<and> event_id q = i \<and> m = metadata_of q)"
  shows "wait_seen P condition (s\<lparr>ws_request_metadata := bt_insert i m (ws_request_metadata s)\<rparr>)"
proof -
  have "x = (i, m) \<or> x \<in> set (ws_request_metadata s)" if "x \<in> set (bt_insert i m (ws_request_metadata s))" for x
    using that set_bt_insert_subset [of i m "ws_request_metadata s"] by blast
  moreover have "snd x = ([], [], []) \<or> (\<exists>q. P q \<and> request_event q \<and> event_id q = fst x \<and> snd x = metadata_of q)"
    if "x \<in> set (ws_request_metadata s)" for x using assms(1) that by (cases x) (simp add: wait_seen_def, blast)
  ultimately have "snd x = ([], [], []) \<or> (\<exists>q. P q \<and> request_event q \<and> event_id q = fst x \<and> snd x = metadata_of q)"
    if "x \<in> set (bt_insert i m (ws_request_metadata s))" for x using assms(2) that by (metis fst_conv snd_conv)
  then show ?thesis using assms(1) by (simp add: wait_seen_def split_beta)
qed

lemma seen_response:
  assumes "wait_seen P condition s" "P e" "response_event e" "event_id e = i"
  shows "wait_seen P condition (s\<lparr>ws_pending_responses := bt_insert i e (ws_pending_responses s)\<rparr>)"
proof -
  have "P (snd x) \<and> response_event (snd x) \<and> event_id (snd x) = fst x"
    if "x \<in> set (bt_insert i e (ws_pending_responses s))" for x
  proof -
    have "x = (i, e) \<or> x \<in> set (ws_pending_responses s)" using that set_bt_insert_subset [of i e "ws_pending_responses s"] by blast
    then show ?thesis using assms by (auto simp: wait_seen_def split_beta)
  qed
  then show ?thesis using assms(1) by (simp add: wait_seen_def split_beta)
qed

lemma seen_removed:
  "wait_seen P condition s \<Longrightarrow> wait_seen P condition (s\<lparr>ws_pending_responses := bt_remove i (ws_pending_responses s)\<rparr>)"
  using set_bt_remove_subset [of i "ws_pending_responses s"] by (simp add: wait_seen_def split_beta) (meson subsetD)

lemma seen_match:
  "wait_seen P condition s \<Longrightarrow> reports P condition e \<Longrightarrow> wait_seen P condition (s\<lparr>ws_matched_event := Some e\<rparr>)"
  by (simp add: wait_seen_def)

lemma seen_pending:
  "wait_seen P condition s \<Longrightarrow> bt_get (ws_pending_responses s) i = Some r \<Longrightarrow> P r \<and> response_event r \<and> event_id r = i"
  by (auto simp: wait_seen_def dest!: bt_get_in)

lemma observe_request_seen:
  assumes "wait_seen P (HW_Response response) s" "P event"
  shows "wait_seen P (HW_Response response) (observe_request_metadata response event s)"
proof (cases "request_event event \<and> request_id_of event \<noteq> None")
  case True
  then obtain i where i: "request_event event" "request_id_of event = Some i" by blast
  let ?k = "s\<lparr>ws_request_metadata := bt_insert i (metadata_of event) (ws_request_metadata s)\<rparr>"
  have k: "wait_seen P (HW_Response response) ?k"
    by (rule seen_request [OF assms(1)]) (use i assms(2) in \<open>auto simp: event_id_def text_or_empty_def\<close>)
  show ?thesis
  proof (cases "bt_get (ws_pending_responses ?k) i")
    case None
    then show ?thesis using k i by (simp add: observe_request_metadata_def)
  next
    case (Some r)
    note r = seen_pending [OF k Some]
    let ?r = "?k\<lparr>ws_pending_responses := bt_remove i (ws_pending_responses ?k)\<rparr>"
    have s: "wait_seen P (HW_Response response) ?r" by (rule seen_removed [OF k])
    have "wait_seen P (HW_Response response) (?r\<lparr>ws_matched_event := Some r\<rparr>)"
      if t: "typed_event_matches_response response r (bt_get (ws_request_metadata ?r) i)"
      by (rule seen_match [OF s known_metadata [OF s]]) (use t r in simp_all)
    moreover have "observe_request_metadata response event s
        = (if typed_event_matches_response response r (bt_get (ws_request_metadata ?r) i) then ?r\<lparr>ws_matched_event := Some r\<rparr> else ?r)"
      using i Some by (simp add: observe_request_metadata_def Let_def)
    ultimately show ?thesis using s by (simp only: split: if_split) simp
  qed
qed (use assms in \<open>auto simp: observe_request_metadata_def\<close>)

lemma observe_response_seen:
  assumes "wait_seen P (HW_Response response) s" "P event"
  shows "wait_seen P (HW_Response response) (observe_response response event s)"
proof (cases "response_event event")
  case True
  let ?i = "event_id event"
  let ?s = "if typed_event_matches_response response event (bt_get (ws_request_metadata s) ?i) then s\<lparr>ws_matched_event := Some event\<rparr>
    else if ?i \<noteq> [] then s\<lparr>ws_pending_responses := bt_insert ?i event (ws_pending_responses s)\<rparr> else s"
  have s: "wait_seen P (HW_Response response) ?s"
    using seen_match [OF assms(1) known_metadata [OF assms True]] seen_response [OF assms True refl] assms(1) by simp
  have "observe_response response event s = (if ?i \<noteq> [] \<and> \<not> bt_contains (ws_request_metadata ?s) ?i
      then ?s\<lparr>ws_request_metadata := bt_insert ?i ([], [], []) (ws_request_metadata ?s)\<rparr> else ?s)"
    using True by (simp only: observe_response_def event_id_def Let_def not_True_eq_False if_False)
  moreover have "wait_seen P (HW_Response response) (?s\<lparr>ws_request_metadata := bt_insert ?i ([], [], []) (ws_request_metadata ?s)\<rparr>)"
    by (rule seen_request [OF s]) simp
  ultimately show ?thesis using s by (simp only: split: if_split) simp
qed (use assms in \<open>auto simp: observe_response_def\<close>)

lemma observe_seen:
  assumes "wait_seen P condition s" "P event"
  shows "wait_seen P condition (wait_observe condition event now s)"
proof -
  let ?s = "(fst (observe_time now event s))\<lparr>ws_last_event := Some event\<rparr>"
  have s: "wait_seen P condition ?s" using assms by (auto simp: wait_seen_def)
  then have "wait_seen P condition (?s\<lparr>ws_matched_event := Some event\<rparr>)" if "wait_matches condition event" "one_event condition"
    using assms(2) that by (cases condition) (auto simp: wait_seen_def reports_def)
  moreover have "wait_seen P condition (observe_network event t ?s)" "wait_seen P condition (observe_dom event t ?s)" for t
    using s by (auto simp: observe_network_def observe_dom_def Let_def wait_seen_def split: option.split)
  ultimately show ?thesis using s assms(2) observe_response_seen observe_request_seen
    by (cases condition) (auto simp: wait_observe_def split_beta Let_def)
qed

lemma reported_seen:
  assumes "wait_seen P condition s" "wait_satisfied s condition now" "reported_event s = Some e"
  shows "reports P condition e"
proof (cases "ws_matched_event s")
  case None
  then have "\<not> awaits_event condition" using assms(2) satisfied_awaits by blast
  moreover have "P e" using assms(1,3) None by (auto simp: wait_seen_def reported_event_def)
  ultimately show ?thesis by (cases condition) (auto simp: reports_def)
qed (use assms in \<open>auto simp: wait_seen_def reported_event_def\<close>)

lemma poll_events_seen:
  assumes "poll_events condition now cursor s finished events = (s', finished', out)"
    and "wait_seen P condition s" "\<forall>e \<in> set events. \<not> stops_wait e \<longrightarrow> P e"
  shows "wait_seen P condition s' \<and> (\<forall>e c. out = Some (WO_Matched e c) \<longrightarrow> reports P condition e)"
  using assms
proof (induction events arbitrary: s finished)
  case (Cons event events)
  show ?case
  proof (cases "stops_wait event")
    case False
    let ?s = "wait_observe condition event now s"
    have s: "wait_seen P condition ?s" by (rule observe_seen) (use Cons.prems False in auto)
    show ?thesis
      using Cons.IH [OF _ s] Cons.prems(1,3) False s reported_seen [OF s]
      by (auto simp: Let_def split: if_splits option.splits)
  qed (use Cons.prems in auto)
qed auto

text \<open>Which events are new to a wait: published by the broker, after the cursor, of its epoch and in the scope.\<close>

definition new_event :: "wait_event list \<Rightarrow> event_cursor \<Rightarrow> event_scope option \<Rightarrow> wait_event \<Rightarrow> bool" where
  "new_event H cursor scope e \<longleftrightarrow> (\<exists>h \<in> set H. stems_from e h) \<and> cu_sequence cursor < ev_sequence e
     \<and> ev_broker_epoch e = cu_broker_epoch cursor \<and> is_none_or scope (scope_matches (ev_scope e)) \<and> \<not> stops_wait e"

definition behind :: "event_cursor \<Rightarrow> event_cursor \<Rightarrow> bool" where
  "behind a b \<longleftrightarrow> cu_sequence a \<le> cu_sequence b \<and> cu_broker_epoch b = cu_broker_epoch a"

lemma replay_new:
  assumes "router_run H' router" "set H' \<subseteq> set H" "behind start cursor"
    and "e \<in> set (eb_events (replay router cursor scope))" "\<not> stops_wait e"
  shows "new_event H start scope e"
proof -
  have "(\<exists>h \<in> set H'. stems_from e h) \<and> cu_sequence cursor < ev_sequence e \<and> ev_broker_epoch e = cu_broker_epoch cursor
      \<and> is_none_or scope (scope_matches (ev_scope e))"
    using router_replay_sound [OF assms(1), of cursor scope] assms(4) by blast
  then show ?thesis using assms(2,3,5) by (auto simp: new_event_def behind_def)
qed

lemma replay_cursor: "eb_result (replay router cursor scope) = RU_Accepted \<Longrightarrow> behind cursor (eb_cursor (replay router cursor scope))"
  by (auto simp: replay_def behind_def router_cursor_def split: if_splits)

lemma poll_seen:
  assumes "router_run H' router" "set H' \<subseteq> set H" "behind start (wr_cursor w)"
    and "wait_seen (new_event H start (wr_scope w)) (wr_condition w) (wr_state w)"
    and "poll clock cancelled router w = (w', outcome)"
  shows "behind start (wr_cursor w') \<and> wait_seen (new_event H start (wr_scope w)) (wr_condition w) (wr_state w')
    \<and> (\<forall>e c. outcome = WO_Matched e c \<longrightarrow>
         reports (new_event H start (wr_scope w)) (wr_condition w) e \<and> \<not> cancelled \<and> clock < wr_deadline w)"
proof (cases "wr_finished w \<or> cancelled \<or> wr_deadline w \<le> max clock (wr_registered_at w)
    \<or> eb_result (replay router (wr_cursor w) (wr_scope w)) = RU_ResyncRequired")
  case True
  then show ?thesis using assms(3-5) by (auto simp: poll_def Let_def split: if_splits)
next
  case False
  let ?batch = "replay router (wr_cursor w) (wr_scope w)" and ?now = "max clock (wr_registered_at w)"
  let ?P = "new_event H start (wr_scope w)"
  let ?w = "w\<lparr>wr_cursor := eb_cursor ?batch\<rparr>"
  have "eb_result ?batch = RU_Accepted" using False by (cases "eb_result ?batch") auto
  then have b: "behind start (eb_cursor ?batch)" using replay_cursor [of router "wr_cursor w" "wr_scope w"] assms(3)
    by (auto simp: behind_def)
  have p: "poll_batch ?now (eb_events ?batch) ?w = (w', outcome)" using False assms(5) by (auto simp: poll_def Let_def)
  obtain s' finished' out where e: "poll_events (wr_condition w) ?now (eb_cursor ?batch) (wr_state w) (wr_finished w) (eb_events ?batch)
      = (s', finished', out)" by (metis prod_cases3)
  have seen: "wait_seen ?P (wr_condition w) s'" "\<And>e c. out = Some (WO_Matched e c) \<Longrightarrow> reports ?P (wr_condition w) e"
    using poll_events_seen [OF e assms(4)] replay_new [OF assms(1-3)] by blast+
  then have "reports ?P (wr_condition w) x" if "outcome = WO_Matched x c" for x c
    using p e that reported_seen [OF seen(1), of ?now x]
    by (cases out) (auto simp: poll_batch_def Let_def split: if_splits option.splits)
  moreover have "wr_cursor w' = eb_cursor ?batch" "wr_state w' = s'"
    using p e by (auto simp: poll_batch_def Let_def split: if_splits option.splits)
  ultimately show ?thesis using b seen(1) False by (auto simp: not_le)
qed

lemma polls_seen:
  assumes "\<forall>(clock, cancelled, router) \<in> set (qs @ [(clock, cancelled, router)]). \<exists>H'. set H' \<subseteq> set H \<and> router_run H' router"
    and "behind start (wr_cursor w)" "wait_seen (new_event H start (wr_scope w)) (wr_condition w) (wr_state w)"
    and "last (polls (qs @ [(clock, cancelled, router)]) w) = WO_Matched e c"
  shows "reports (new_event H start (wr_scope w)) (wr_condition w) e \<and> \<not> cancelled \<and> clock < wr_deadline w"
  using assms
proof (induction qs arbitrary: w)
  case Nil
  obtain H' where H': "router_run H' router" "set H' \<subseteq> set H" using Nil.prems(1) by auto
  obtain w' outcome where p: "poll clock cancelled router w = (w', outcome)" by (cases "poll clock cancelled router w")
  then have "outcome = WO_Matched e c" using Nil.prems(4) by simp
  then show ?case using poll_seen [OF H' Nil.prems(2,3) p] by blast
next
  case (Cons q qs)
  obtain k x r where q: "q = (k, x, r)" by (cases q)
  obtain w' outcome where p: "poll k x r w = (w', outcome)" by (cases "poll k x r w")
  have sel: "wr_condition w' = wr_condition w" "wr_scope w' = wr_scope w" "wr_deadline w' = wr_deadline w"
    using poll_sel [of k x r w] p by simp_all
  obtain H' where "set H' \<subseteq> set H" "router_run H' r" using Cons.prems(1) q by auto
  with poll_seen [OF _ _ Cons.prems(2,3) p] have w': "behind start (wr_cursor w')"
      "wait_seen (new_event H start (wr_scope w')) (wr_condition w') (wr_state w')"
    by (auto simp: sel)
  have "polls (qs @ [(clock, cancelled, router)]) w' \<noteq> []" by (cases qs) (auto simp: split_beta)
  with Cons.IH [OF _ w'] Cons.prems(1,4) show ?case by (simp add: q p sel)
qed

text \<open>
  C17: A match is new and genuine, for every condition. However a registered wait has been polled, an event that the
  last poll reports was published by the broker, asks for no resynchronization, lies strictly after the cursor at which
  the wait was registered, and belongs to the broker epoch of that cursor and to the scope of the wait; the poll came before
  the deadline and was not cancelled. The event satisfies the condition: by itself, or, for a response, together with what
  a request of the same identity announced that is as new as the response; a wait for quiet reports the last event it saw,
  whatever it is.
\<close>

theorem matched_event_is_new:
  assumes "register_scoped now router0 condition scope deadline n = (n', w)"
    and "\<forall>(clock, cancelled, router) \<in> set (qs @ [(clock, cancelled, router)]). \<exists>H'. set H' \<subseteq> set H \<and> router_run H' router"
    and "last (polls (qs @ [(clock, cancelled, router)]) w) = WO_Matched e c"
  shows "new_event H (router_cursor router0) scope e \<and> clock < deadline \<and> \<not> cancelled
    \<and> (case condition of
         HW_Response response \<Rightarrow> response_event e
           \<and> (typed_event_matches_response response e None \<or> typed_event_matches_response response e (Some ([], [], []))
              \<or> (\<exists>q. new_event H (router_cursor router0) scope q \<and> request_event q \<and> event_id q = event_id e
                   \<and> typed_event_matches_response response e (Some (metadata_of q))))
       | HW_NetworkIdle _ \<Rightarrow> True
       | HW_StableDom _ \<Rightarrow> True
       | _ \<Rightarrow> wait_matches condition e)"
proof -
  have w: "wr_condition w = condition" "wr_scope w = scope" "wr_deadline w = deadline" "wr_cursor w = router_cursor router0"
      "wr_state w = wait_state_new now"
    using assms(1) by (auto simp: register_scoped_def)
  have "reports (new_event H (router_cursor router0) scope) condition e \<and> \<not> cancelled \<and> clock < deadline"
    using polls_seen [OF assms(2) _ _ assms(3), of "router_cursor router0"] by (simp add: w wait_seen_new behind_def)
  then show ?thesis by (cases condition) (auto simp: reports_def)
qed

section \<open>The answers of a wait, specified\<close>

text \<open>
  What one poll of a wait for a single event answers, and the cursor it leaves. As long as a wait is open, cancellation
  comes before the deadline, the deadline before the events, and a history that cannot be replayed before any
  event; then the first event of the replay that asks for resynchronization or satisfies the condition
  decides. After an answer other than pending every poll answers pending.
\<close>

type_synonym wait_poll = "timestamp \<times> bool \<times> wait_payload event_router"

definition poll_answer ::
  "host_wait \<Rightarrow> event_scope option \<Rightarrow> timestamp \<Rightarrow> timestamp \<Rightarrow> event_cursor \<Rightarrow> wait_poll \<Rightarrow> wait_outcome \<times> event_cursor" where
  "poll_answer condition scope deadline registered_at cursor p =
     (case p of (clock, cancelled, router) \<Rightarrow>
      let batch = replay router cursor scope in
      if cancelled then (WO_Cancelled cursor, cursor)
      else if deadline \<le> max clock registered_at then (WO_DeadlineExceeded cursor, cursor)
      else if eb_result batch = RU_ResyncRequired then (WO_ResyncRequired (eb_cursor batch), cursor)
      else (case find (\<lambda>e. stops_wait e \<or> wait_matches condition e) (eb_events batch) of
          None \<Rightarrow> WO_Pending (eb_cursor batch)
        | Some e \<Rightarrow> if stops_wait e then WO_ResyncRequired (eb_cursor batch) else WO_Matched e (eb_cursor batch), eb_cursor batch))"

fun wait_answers :: "(event_cursor \<Rightarrow> wait_poll \<Rightarrow> wait_outcome \<times> event_cursor) \<Rightarrow> wait_poll list \<Rightarrow> event_cursor \<Rightarrow> wait_outcome list" where
  "wait_answers answer [] cursor = []"
| "wait_answers answer (p # ps) cursor =
     (case answer cursor p of (outcome, cursor') \<Rightarrow>
      outcome # (if is_pending outcome then wait_answers answer ps cursor' else map (\<lambda>_. WO_Pending cursor') ps))"

lemma polls_closed: "wr_finished w \<Longrightarrow> polls ps w = map (\<lambda>_. WO_Pending (wr_cursor w)) ps"
  by (induction ps w rule: polls.induct) (auto simp: poll_def Let_def)

lemma poll_answers:
  assumes "one_event (wr_condition w)" "wait_open w" "poll clock cancelled router w = (w', outcome)"
  shows "(outcome, wr_cursor w') = poll_answer (wr_condition w) (wr_scope w) (wr_deadline w) (wr_registered_at w) (wr_cursor w)
      (clock, cancelled, router)"
proof -
  have "outcome = fst (poll_answer (wr_condition w) (wr_scope w) (wr_deadline w) (wr_registered_at w) (wr_cursor w) (clock, cancelled, router))"
    using poll_exact [OF assms(1,2), of clock cancelled router] assms(3)
    by (simp add: poll_answer_def Let_def)
  moreover have c: "wr_cursor (fst (poll_batch t es v)) = wr_cursor v" for t es v
    by (simp add: poll_batch_def Let_def split: prod.split option.split)
  have "wr_cursor w' = snd (poll_answer (wr_condition w) (wr_scope w) (wr_deadline w) (wr_registered_at w) (wr_cursor w) (clock, cancelled, router))"
    using assms(2) arg_cong [OF assms(3), of "\<lambda>x. wr_cursor (fst x)"]
    by (auto simp: poll_def poll_answer_def Let_def wait_open_def c split: if_splits)
  ultimately show ?thesis by (simp add: prod_eq_iff)
qed

lemma polls_answers:
  assumes "one_event (wr_condition w)" "wait_open w"
  shows "polls ps w = wait_answers (poll_answer (wr_condition w) (wr_scope w) (wr_deadline w) (wr_registered_at w)) ps (wr_cursor w)"
  using assms
proof (induction ps w rule: polls.induct)
  case (2 clock cancelled router ps w)
  obtain w' outcome where p: "poll clock cancelled router w = (w', outcome)" by (cases "poll clock cancelled router w")
  note a = poll_answers [OF 2(2,3) p]
  have sel: "wr_condition w' = wr_condition w" "wr_scope w' = wr_scope w" "wr_deadline w' = wr_deadline w" "wr_registered_at w' = wr_registered_at w"
    using poll_sel [of clock cancelled router w] p by simp_all
  show ?case
  proof (cases "is_pending outcome")
    case True
    then have "wait_open w'" using poll_open [OF one_event_awaits [OF 2(2)] 2(3), of clock cancelled router] p by simp
    with 2(1) [OF p [symmetric]] 2(2) True show ?thesis by (simp add: p a [symmetric] sel)
  next
    case False
    then have "wr_finished w'" using poll_open [OF one_event_awaits [OF 2(2)] 2(3), of clock cancelled router] p by simp
    then show ?thesis using False polls_closed [of w' ps] by (simp add: p a [symmetric])
  qed
qed simp

text \<open>
  C18: A wait for an event answers once, and a wait for a single event answers as specified. However a registered
  wait for an event is polled, with whatever clock, cancellation flag and router at each poll, once it is polled at or
  after its deadline there has been exactly one answer other than pending. If its condition is decided by one event, all its
  answers are those of \<open>wait_answers\<close>: until then pending, and then the cancellation, the deadline, or the first event of
  the replay from its cursor that satisfies the condition or asks for resynchronization, in this order of precedence.
\<close>

theorem event_wait_reports_once:
  assumes "register_scoped now router condition scope deadline n = (n', w)" "awaits_event condition"
  shows "(ps \<noteq> [] \<and> deadline \<le> fst (last ps) \<longrightarrow> length (filter (\<lambda>outcome. \<not> is_pending outcome) (polls ps w)) = 1)
    \<and> (one_event condition \<longrightarrow> polls ps w = wait_answers (poll_answer condition scope deadline now) ps (router_cursor router))"
proof -
  have w: "wr_condition w = condition" "wr_scope w = scope" "wr_deadline w = deadline" "wr_registered_at w = now"
      "wr_cursor w = router_cursor router" "wait_open w"
    using assms(1) registered_open [of now router condition scope deadline n] by (auto simp: register_scoped_def)
  show ?thesis using polls_once [of w ps] polls_answers [of w ps] assms(2) by (simp add: w)
qed

text \<open>
  A wait for quiet never reports on a page that is quiet from the start. When no event has been replayed and
  the interval has passed, the poll ends the wait but answers pending, since there is no event to
  report; from then on every poll answers pending, after the deadline and after a cancellation too.
\<close>

theorem quiet_wait_never_reports:
  assumes "register_scoped now router condition scope deadline n = (n', w)"
    and "condition = HW_NetworkIdle idle \<and> quiet_enough clock (ni_quiet_for idle) (Some now)
      \<or> condition = HW_StableDom still \<and> quiet_enough clock (dw_quiet_for still) (Some now)
        \<and> quiet_enough clock (dw_geometry_quiet_for still) (Some now)"
    and "now \<le> clock" "clock < deadline"
    and "eb_result (replay router' (wr_cursor w) scope) = RU_Accepted" "eb_events (replay router' (wr_cursor w) scope) = []"
  shows "list_all is_pending (polls ((clock, False, router') # ps) w)"
proof -
  have w: "wr_condition w = condition" "wr_state w = wait_state_new now" "\<not> wr_finished w" "wr_deadline w = deadline"
      "wr_registered_at w = now" "wr_scope w = scope"
    using assms(1) by (auto simp: register_scoped_def)
  have "wait_satisfied (wait_state_new now) condition clock"
    using assms(2) by (auto simp: wait_satisfied_def wait_state_new_def)
  moreover have "reported_event (wait_state_new now) = None" by (simp add: reported_event_def wait_state_new_def)
  ultimately have p: "is_pending (snd (poll clock False router' w))" "wr_finished (fst (poll clock False router' w))"
    using w assms(3-6) by (auto simp: poll_def poll_batch_def Let_def max_absorb1)
  then show ?thesis using polls_finished [of "fst (poll clock False router' w)"]
    by (auto simp: list_all_iff split_beta)
qed

section \<open>Network idle against a reference\<close>

text \<open>
  The reference looks at the whole list of events a wait has been shown, each with the clock of the
  poll: a request is in flight when its start is not followed by its end, and the quiet time begins at
  the last end, or at the registration.
\<close>

definition starts_request :: "wait_event \<Rightarrow> utext option" where
  "starts_request event =
     (if network_request_started event \<and> \<not> excluded_network_event event then request_id_of event else None)"

definition ends_request :: "wait_event \<Rightarrow> utext option" where
  "ends_request event =
     (if \<not> network_request_started event \<and> network_request_finished event then request_id_of event else None)"

type_synonym shown = "(wait_event \<times> timestamp) list"

definition in_flight :: "shown \<Rightarrow> utext \<Rightarrow> bool" where
  "in_flight es i \<longleftrightarrow> list_ex (\<lambda>k. starts_request (fst (es ! k)) = Some i
     \<and> list_all (\<lambda>(event, _). ends_request event \<noteq> Some i) (drop k es)) [0..<length es]"

definition shown_until :: "timestamp \<Rightarrow> shown \<Rightarrow> timestamp" where
  "shown_until registered_at es = fold (\<lambda>(event, now) t. max (max t (event_time now event)) now) es registered_at"

definition quiet_from :: "timestamp \<Rightarrow> shown \<Rightarrow> timestamp" where
  "quiet_from registered_at es =
     (case find (\<lambda>k. ends_request (fst (es ! k)) \<noteq> None) (rev [0..<length es]) of
        None \<Rightarrow> registered_at | Some k \<Rightarrow> shown_until registered_at (take (Suc k) es))"

definition observe_all :: "host_wait \<Rightarrow> shown \<Rightarrow> wait_state \<Rightarrow> wait_state" where
  "observe_all condition es s = fold (\<lambda>(event, now). wait_observe condition event now) es s"

lemma in_flight_snoc:
  "in_flight (es @ [(event, now)]) i \<longleftrightarrow> ends_request event \<noteq> Some i \<and> (starts_request event = Some i \<or> in_flight es i)"
proof -
  have "list_all P (drop k (es @ [x])) \<longleftrightarrow> list_all P (drop k es) \<and> P x" if "k < length es" for k P x
    using that by simp
  then show ?thesis
    by (auto simp: in_flight_def list_ex_iff nth_append less_Suc_eq)
qed

lemma shown_until_snoc:
  "shown_until t (es @ [(event, now)]) = max (max (shown_until t es) (event_time now event)) now"
  by (simp add: shown_until_def)

lemma quiet_from_snoc:
  "quiet_from t (es @ [(event, now)]) =
     (if ends_request event \<noteq> None then shown_until t (es @ [(event, now)]) else quiet_from t es)"
proof -
  have "find (\<lambda>k. ends_request (fst ((es @ [(event, now)]) ! k)) \<noteq> None) (rev [0..<length es])
      = find (\<lambda>k. ends_request (fst (es ! k)) \<noteq> None) (rev [0..<length es])"
    by (rule find_cong) (auto simp: nth_append)
  moreover have "k < length es" if "find P (rev [0..<length es]) = Some k" for k P
    using that by (auto simp: find_Some_iff) (metis length_rev length_upt minus_nat.diff_0 nth_mem set_rev set_upt atLeastLessThan_iff)
  then have "Suc k - length es = 0" if "find P (rev [0..<length es]) = Some k" for k P using that by (simp add: Suc_leI)
  ultimately show ?thesis by (auto simp: quiet_from_def split: option.split)
qed

lemma observe_network_time:
  "ws_last_observed_at (observe_network event now s) = ws_last_observed_at s"
  "ws_matched_event (observe_network event now s) = ws_matched_event s"
  by (auto simp: observe_network_def Let_def split: option.split)

text \<open>What the state of the wait is, in terms of the reference.\<close>

definition network_state :: "timestamp \<Rightarrow> shown \<Rightarrow> wait_state \<Rightarrow> bool" where
  "network_state t es s \<longleftrightarrow> bt_wf (ws_network_active s) \<and> (\<forall>i. bt_contains (ws_network_active s) i \<longleftrightarrow> in_flight es i)
     \<and> ws_network_quiet_since s = (if ws_network_active s = [] then Some (quiet_from t es) else None)
     \<and> ws_last_observed_at s = Some (shown_until t es) \<and> ws_matched_event s = None"

lemma bt_insert_nonempty [simp]: "bt_insert k v m \<noteq> []"
  by (cases m) (auto split: if_splits)

lemma observe_network_state:
  assumes "network_state t es s"
  shows "network_state t (es @ [(event, now)]) (wait_observe (HW_NetworkIdle idle) event now s)"
proof -
  let ?at = "shown_until t (es @ [(event, now)])"
  let ?s = "s\<lparr>ws_last_observed_at := Some ?at, ws_last_event := Some event\<rparr>"
  have o: "wait_observe (HW_NetworkIdle idle) event now s = observe_network event ?at ?s"
    using assms by (simp add: wait_observe_def observe_time_def network_state_def shown_until_snoc Let_def)
  consider (start) i where "starts_request event = Some i" "ends_request event = None" "request_id_of event = Some i"
      "network_request_started event" "\<not> excluded_network_event event"
    | (finish) i where "starts_request event = None" "ends_request event = Some i" "request_id_of event = Some i"
      "\<not> network_request_started event" "network_request_finished event"
    | (other) "starts_request event = None" "ends_request event = None"
    by (cases "request_id_of event"; cases "network_request_started event"; cases "excluded_network_event event";
        cases "network_request_finished event") (auto simp: starts_request_def ends_request_def)
  then show ?thesis
  proof cases
    case start
    then show ?thesis using assms unfolding o network_state_def
      by (auto simp: observe_network_def in_flight_snoc bt_contains_def bt_get_insert bt_wf_insert)
  next
    case finish
    have "bt_remove i (ws_network_active s) \<noteq> [] \<Longrightarrow> ws_network_active s \<noteq> []" by auto
    with finish assms show ?thesis unfolding o network_state_def
      by (auto simp: observe_network_def in_flight_snoc quiet_from_snoc bt_contains_def bt_get_remove bt_wf_remove Let_def)
  next
    case other
    then have "observe_network event ?at ?s = ?s"
      by (auto simp: observe_network_def starts_request_def ends_request_def split: option.split if_splits)
    then show ?thesis using assms other unfolding o network_state_def
      by (simp add: in_flight_snoc quiet_from_snoc)
  qed
qed

lemma observe_all_network: "network_state t es (observe_all (HW_NetworkIdle idle) es (wait_state_new t))"
proof (induction es rule: rev_induct)
  case Nil
  then show ?case
    by (simp add: observe_all_def network_state_def wait_state_new_def in_flight_def quiet_from_def shown_until_def bt_contains_def bt_wf_def)
next
  case (snoc x es)
  then show ?case using observe_network_state [of t es _ "fst x" "snd x" idle] by (simp add: observe_all_def split_beta)
qed

text \<open>
  C16: A network-idle wait means idle. The state that a wait builds up event by event agrees with the reference
  on the whole history: it is satisfied exactly when no request that was shown to start is still in
  flight and the required time has passed since the last end, or since the registration.
\<close>

theorem network_idle_exact:
  "wait_satisfied (observe_all (HW_NetworkIdle idle) es (wait_state_new registered_at)) (HW_NetworkIdle idle) now \<longleftrightarrow>
     (\<nexists>i. in_flight es i) \<and> ni_quiet_for idle \<le> saturating_sub now (quiet_from registered_at es)"
proof -
  let ?s = "observe_all (HW_NetworkIdle idle) es (wait_state_new registered_at)"
  have s: "network_state registered_at es ?s" by (rule observe_all_network)
  then have "ws_network_active ?s = [] \<longleftrightarrow> (\<nexists>i. in_flight es i)"
    by (cases "ws_network_active ?s") (auto simp: network_state_def bt_contains_def split: if_splits)
  then show ?thesis using s by (auto simp: wait_satisfied_def network_state_def quiet_enough_def)
qed

section \<open>Responses and their requests\<close>

lemma response_metadata_more:
  "typed_event_matches_response condition event None \<Longrightarrow> typed_event_matches_response condition event (Some metadata)"
  unfolding typed_event_matches_response_def own_or_def is_none_or_def is_some_and_def
  by (auto split: option.split_asm option.split)

text \<open>
  The order in which a request and its response arrive does not matter. A wait for a response that has seen
  nothing of the request yet reports the response in both orders or in neither, and it does so exactly
  when the response matches together with what the request announced.
\<close>

theorem response_order_irrelevant:
  assumes "request_event q" "\<not> response_event q" "response_event r" "\<not> request_event r"
    and "request_id_of q = Some i" "request_id_of r = Some i" "i \<noteq> []"
    and "bt_wf (ws_request_metadata s)" "bt_wf (ws_pending_responses s)"
    and "bt_get (ws_request_metadata s) i = None" "bt_get (ws_pending_responses s) i = None" "ws_matched_event s = None"
  shows "ws_matched_event (observe_all (HW_Response w) [(q, t), (r, u)] s)
      = (if typed_event_matches_response w r (Some (metadata_of q)) then Some r else None)
    \<and> ws_matched_event (observe_all (HW_Response w) [(r, t'), (q, u')] s)
      = (if typed_event_matches_response w r (Some (metadata_of q)) then Some r else None)"
proof -
  note defs = observe_all_def wait_observe_def observe_response_def observe_request_metadata_def observe_time_def Let_def
    bt_get_insert bt_wf_insert bt_get_remove bt_wf_remove text_or_empty_def bt_contains_def
  show ?thesis
    using assms response_metadata_more [of w r "metadata_of q"]
    by (cases "typed_event_matches_response w r None") (auto simp: defs)
qed

section \<open>Witnesses\<close>

text \<open>A router at the start of an epoch, and the same router after one event of a page.\<close>

definition demo_quiet_router :: "wait_payload event_router" where
  "demo_quiet_router = router_new_at \<lparr>cu_broker_epoch = 7, cu_sequence = 4\<rparr> (router_limits_new 8)"

definition demo_wait_event :: "wait_payload \<Rightarrow> wait_event" where
  "demo_wait_event payload =
     \<lparr>ev_protocol = 1, ev_event_id = ''evt_a'', ev_broker_epoch = 7, ev_sequence = 5,
      ev_scope = scope_space ''spc_a'', ev_event = EK_PageChanged,
      ev_generation = \<lparr>gw_space_generation = 1, gw_page_generation = 1, gw_navigation_generation = 1,
        gw_document_generation = 1, gw_snapshot_version = None,
        gw_metadata = Some (metadata_for_event EK_PageChanged attribution_broker)\<rparr>,
      ev_dirty_reason = None, ev_coalesced = False, ev_resync_required = False, ev_payload = payload\<rparr>"

definition demo_event_router :: "wait_payload event_router" where
  "demo_event_router = fst (ingest demo_quiet_router (demo_wait_event []))"

definition demo_registration :: "host_wait \<Rightarrow> wait_registration" where
  "demo_registration condition = snd (register_scoped 0 demo_quiet_router condition None 100 1)"

lemma demo_replays:
  "eb_result (replay demo_quiet_router \<lparr>cu_broker_epoch = 7, cu_sequence = 4\<rparr> None) = RU_Accepted"
  "eb_events (replay demo_quiet_router \<lparr>cu_broker_epoch = 7, cu_sequence = 4\<rparr> None) = []"
  "eb_result (replay demo_event_router \<lparr>cu_broker_epoch = 7, cu_sequence = 4\<rparr> None) = RU_Accepted"
  "eb_events (replay demo_event_router \<lparr>cu_broker_epoch = 7, cu_sequence = 4\<rparr> None) = [demo_wait_event []]"
  "eb_cursor (replay demo_event_router \<lparr>cu_broker_epoch = 7, cu_sequence = 4\<rparr> None) = \<lparr>cu_broker_epoch = 7, cu_sequence = 5\<rparr>"
  by (simp_all add: demo_quiet_router_def demo_event_router_def demo_wait_event_def router_eval)

lemma demo_registration_sel:
  "wr_cursor (demo_registration c) = \<lparr>cu_broker_epoch = 7, cu_sequence = 4\<rparr>" "wr_condition (demo_registration c) = c"
  "wr_scope (demo_registration c) = None" "wr_deadline (demo_registration c) = 100" "wr_registered_at (demo_registration c) = 0"
  "wait_open (demo_registration c)"
  by (simp_all add: demo_registration_def register_scoped_def demo_quiet_router_def router_new_at_def router_cursor_def
      wait_open_def wait_state_new_def)

lemma demo_wait_event_goes_on: "\<not> stops_wait (demo_wait_event [])"
  by (simp add: stops_wait_def event_requires_resync_def event_signals_resync_def payload_true_def payload_get_def demo_wait_event_def)

theorem poll_exact_witness:
  "snd (poll 10 False demo_event_router (demo_registration (HW_EventKind EK_PageChanged)))
     = WO_Matched (demo_wait_event []) \<lparr>cu_broker_epoch = 7, cu_sequence = 5\<rparr>"
  using poll_exact [of "demo_registration (HW_EventKind EK_PageChanged)" 10 False demo_event_router] demo_wait_event_goes_on
  by (simp add: demo_registration_sel demo_replays Let_def) (simp add: demo_wait_event_def)

theorem matched_event_is_new_witness:
  "\<exists>e c. last (polls [(5, False, demo_quiet_router), (10, False, demo_event_router)]
       (demo_registration (HW_EventKind EK_PageChanged))) = WO_Matched e c
     \<and> ev_event e = EK_PageChanged \<and> (4 :: u64) < ev_sequence e"
proof -
  let ?w = "demo_registration (HW_EventKind EK_PageChanged)" and ?e = "demo_wait_event []"
  have start: "router_run [] demo_quiet_router"
    using run_start [of "\<lparr>cu_broker_epoch = 7, cu_sequence = 4\<rparr>" "router_limits_new 8"] by (simp add: demo_quiet_router_def)
  have "takes demo_quiet_router ?e" by (simp add: demo_quiet_router_def demo_wait_event_def router_eval)
  then have run: "router_run [?e] demo_event_router"
    using run_ingest [OF start, of ?e] by (simp add: demo_event_router_def)
  have runs: "\<forall>(clock, cancelled, router) \<in> set ([(5, False, demo_quiet_router)] @ [(10, False, demo_event_router)]).
      \<exists>H'. set H' \<subseteq> set [?e] \<and> router_run H' router"
    using start run by (auto intro: exI [of _ "[]"] exI [of _ "[?e]"])
  have q: "eb_cursor (replay demo_quiet_router \<lparr>cu_broker_epoch = 7, cu_sequence = 4\<rparr> None) = \<lparr>cu_broker_epoch = 7, cu_sequence = 4\<rparr>"
    by (simp add: demo_quiet_router_def router_eval)
  have m: "last (polls ([(5, False, demo_quiet_router)] @ [(10, False, demo_event_router)]) ?w) = WO_Matched ?e \<lparr>cu_broker_epoch = 7, cu_sequence = 5\<rparr>"
    by (simp add: poll_def poll_batch_def demo_registration_sel demo_replays q Let_def demo_wait_event_goes_on wait_observe_def
        observe_time_def wait_satisfied_def reported_event_def)
       (simp add: demo_registration_def register_scoped_def wait_state_new_def, simp add: demo_wait_event_def)
  have reg: "register_scoped 0 demo_quiet_router (HW_EventKind EK_PageChanged) None 100 1
      = (fst (register_scoped 0 demo_quiet_router (HW_EventKind EK_PageChanged) None 100 1), ?w)" by (simp add: demo_registration_def)
  from matched_event_is_new [OF reg runs m] m show ?thesis
    by (auto simp: new_event_def demo_quiet_router_def router_cursor_def router_new_at_def)
qed

theorem event_wait_reports_once_witness:
  "length (filter (\<lambda>outcome. \<not> is_pending outcome)
     (polls [(10, False, demo_quiet_router), (100, False, demo_quiet_router), (200, True, demo_quiet_router)]
       (demo_registration wait_reload))) = 1
   \<and> polls [(10, False, demo_quiet_router)] (demo_registration wait_reload)
     = wait_answers (poll_answer wait_reload None 100 0) [(10, False, demo_quiet_router)] (router_cursor demo_quiet_router)"
proof -
  have reg: "register_scoped 0 demo_quiet_router wait_reload None 100 1
      = (fst (register_scoped 0 demo_quiet_router wait_reload None 100 1), demo_registration wait_reload)" "awaits_event wait_reload"
      "one_event wait_reload"
    by (simp_all add: demo_registration_def wait_reload_def)
  let ?ps = "[(10, False, demo_quiet_router), (100, False, demo_quiet_router), (200, True, demo_quiet_router)]"
  have "?ps \<noteq> [] \<and> (100 :: timestamp) \<le> fst (last ?ps)" by simp
  then show ?thesis
    using event_wait_reports_once [OF reg(1,2), of ?ps] event_wait_reports_once [OF reg(1,2), of "[(10, False, demo_quiet_router)]"] reg(3)
    by blast
qed

theorem quiet_wait_never_reports_witness:
  "list_all is_pending (polls [(10, False, demo_quiet_router), (50, True, demo_quiet_router), (200, False, demo_quiet_router)]
     (demo_registration (wait_network_idle 5)))"
  using quiet_wait_never_reports [of 0 demo_quiet_router "wait_network_idle 5" None 100 1
      "fst (register_scoped 0 demo_quiet_router (wait_network_idle 5) None 100 1)" "demo_registration (wait_network_idle 5)"
      "\<lparr>ni_quiet_for = 5\<rparr>" 10 _ demo_quiet_router "[(50, True, demo_quiet_router), (200, False, demo_quiet_router)]"]
  by (simp add: demo_replays demo_registration_sel del: polls.simps)
     (simp add: demo_registration_def wait_network_idle_def quiet_enough_def saturating_sub_def del: polls.simps)

definition demo_sent_request :: wait_event where
  "demo_sent_request = demo_wait_event (bt_collect [(code_points ''kind'', code_points ''request''),
     (code_points ''request_id'', code_points ''7''), (code_points ''method'', code_points ''POST'')])"

definition demo_response :: wait_event where
  "demo_response = demo_wait_event (bt_collect [(code_points ''kind'', code_points ''response''),
     (code_points ''request_id'', code_points ''7''), (code_points ''status'', code_points ''200'')])"

lemmas demo_traffic_eval = demo_sent_request_def demo_response_def demo_wait_event_def bt_collect_def code_points_def request_event_def
  response_event_def event_has_label_def event_labels_def payload_get_def payload_has_def text_contains_def text_lower_def lower_cp_def
  List.map_filter_simps request_id_of_def

theorem response_order_irrelevant_witness:
  "ws_matched_event (observe_all (HW_Response \<lparr>sw_url = None, sw_method = Some (code_points ''post''), sw_resource_type = None,
       sw_status = Some 200\<rparr>) [(demo_response, 1), (demo_sent_request, 2)] (wait_state_new 0)) = Some demo_response"
proof -
  have "request_event demo_sent_request" "\<not> response_event demo_sent_request" "response_event demo_response" "\<not> request_event demo_response"
    "request_id_of demo_sent_request = Some (code_points ''7'')" "request_id_of demo_response = Some (code_points ''7'')"
    by (simp_all add: demo_traffic_eval)
  moreover have "typed_event_matches_response \<lparr>sw_url = None, sw_method = Some (code_points ''post''), sw_resource_type = None,
      sw_status = Some 200\<rparr> demo_response (Some (metadata_of demo_sent_request))"
    by (simp add: typed_event_matches_response_def metadata_of_def own_or_def resource_type_of_def text_or_empty_def eq_ignore_case_def
        parse_unsigned_def Let_def demo_traffic_eval)
  ultimately show ?thesis
    using response_order_irrelevant [of demo_sent_request demo_response "code_points ''7''" "wait_state_new 0"]
    by (simp add: wait_state_new_def bt_wf_def code_points_def)
qed

end
