(* ===== verification/Bridge_Waits.thy ===== *)
theory Bridge_Waits
  imports Waits Bridge_Payloads
begin

text \<open>
  Waits over events that come from the browser side: the durable payload that the broker keeps of such
  an event (\<^verbatim>\<open>bridge_event_payload\<close> in \<^verbatim>\<open>crates/agentyc-host/src/broker.rs\<close>) against the fields that the
  conditions of \<^verbatim>\<open>crates/agentyc-host/src/waits.rs\<close> read.
\<close>

definition from_bridge :: "wait_event \<Rightarrow> bool" where
  "from_bridge event \<longleftrightarrow> (\<exists>name payload. ev_payload event = bridge_event_payload name payload)"

section \<open>Requests that a wait cannot see\<close>

lemma bridge_key_absent:
  assumes "from_bridge event" "key \<notin> set bridge_payload_keys"
  shows "payload_get event key = None"
  using assms bridge_payload_keys by (fastforce simp: from_bridge_def payload_get_def bt_get_None code_points_inj)

lemma no_request_id:
  assumes "from_bridge event"
  shows "request_id_of event = None"
proof -
  have "''request_id'' \<notin> set bridge_payload_keys" "''requestId'' \<notin> set bridge_payload_keys"
    by (simp_all add: bridge_payload_keys_def bridge_fields_def)
  then show ?thesis using bridge_key_absent [OF assms] by (simp add: request_id_of_def)
qed

text \<open>
  Requests of the browser never delay a network-idle wait. The durable payload of a browser event keeps
  neither name of the request identity, so whatever network events a page produces, a wait that is
  shown them stays satisfied as if nothing had happened: it depends on the time since its
  registration alone, however many requests are in flight.
\<close>

theorem bridge_requests_invisible:
  assumes "\<forall>(event, shown_at) \<in> set es. from_bridge event"
  shows "wait_satisfied (observe_all (HW_NetworkIdle idle) es (wait_state_new registered_at)) (HW_NetworkIdle idle) now \<longleftrightarrow>
    ni_quiet_for idle \<le> saturating_sub now registered_at"
proof -
  have active: "ws_network_active s = [] \<and> ws_network_quiet_since s = Some registered_at \<and> ws_matched_event s = None
      \<Longrightarrow> ws_network_active (observe_all (HW_NetworkIdle idle) es s) = []
        \<and> ws_network_quiet_since (observe_all (HW_NetworkIdle idle) es s) = Some registered_at
        \<and> ws_matched_event (observe_all (HW_NetworkIdle idle) es s) = None" for s
    using assms
  proof (induction es arbitrary: s)
    case (Cons x es)
    obtain event at where x: "x = (event, at)" by (cases x)
    have "request_id_of event = None" using Cons.prems(2) x by (auto intro: no_request_id)
    then have "wait_observe (HW_NetworkIdle idle) event at s = (fst (observe_time at event s))\<lparr>ws_last_event := Some event\<rparr>"
      by (simp add: wait_observe_def observe_network_def split_beta Let_def)
    then show ?case using Cons x by (simp add: observe_all_def)
  qed (simp add: observe_all_def)
  show ?thesis
    using active [of "wait_state_new registered_at"] by (simp add: wait_satisfied_def wait_state_new_def quiet_enough_def)
qed

section \<open>Methods that a wait cannot see\<close>

lemma bridge_method:
  assumes "str_field payload ''method'' = Some method" "copied_text method"
  shows "bt_get (bridge_event_payload name payload) (code_points ''method'') = Some method"
proof (rule bridge_copied)
  show "bridge_fields = [] @ (''method'', ''method'') # tl bridge_fields" by (simp add: bridge_fields_def)
  show "Option.bind (json_field payload ''method'') bridge_field_text = Some method"
    using assms(1) by (auto simp: bind_eq_Some_conv elim!: json_as_str.elims)
qed (use assms in simp_all)

text \<open>
  Waits for a request or a response by its HTTP method miss the requests of the browser. A debugger event
  carries the name of the protocol method, and the durable payload keeps that name as the method; so a
  wait that asks for any other method, say POST, does not match the event, whatever the request was.
\<close>

theorem method_wait_misses_bridge_requests:
  assumes "ev_payload event = bridge_event_payload name payload" "str_field payload ''method'' = Some method" "copied_text method"
    and "\<not> eq_ignore_case method wanted"
  shows "(qw_method request = Some wanted \<longrightarrow> \<not> wait_matches (HW_Request request) event)
    \<and> (sw_method response = Some wanted \<longrightarrow> \<not> typed_event_matches_response response event metadata)"
proof -
  have "payload_value event [''method''] = Some method"
    using bridge_method [OF assms(2,3), of name] assms(1) by (simp add: payload_get_def)
  then show ?thesis
    using assms(4) by (auto simp: typed_event_matches_request_def typed_event_matches_response_def own_or_def)
qed

section \<open>Witnesses\<close>

text \<open>A debugger event that reports a request about to be sent.\<close>

definition demo_sent :: json_map where
  "demo_sent = [(code_points ''method'', J_String (code_points ''Network.requestWillBeSent'')),
     (code_points ''params'', J_Object [(code_points ''requestId'', J_String (code_points ''7''))])]"

definition demo_sent_event :: wait_event where
  "demo_sent_event = demo_wait_event (bridge_event_payload (code_points ''debugger.event'') demo_sent)"

theorem bridge_requests_invisible_witness:
  "wait_satisfied (observe_all (wait_network_idle 5) [(demo_sent_event, 3)] (wait_state_new 0)) (wait_network_idle 5) 5"
  using bridge_requests_invisible [of "[(demo_sent_event, 3)]" "\<lparr>ni_quiet_for = 5\<rparr>" 0 5]
  by (auto simp: wait_network_idle_def saturating_sub_def from_bridge_def demo_sent_event_def demo_wait_event_def)

theorem method_wait_misses_bridge_requests_witness:
  "\<not> wait_matches (HW_Request \<lparr>qw_url = None, qw_method = Some (code_points ''POST''), qw_resource_type = None\<rparr>) demo_sent_event"
proof -
  let ?name = "code_points ''Network.requestWillBeSent''"
  have "str_field demo_sent ''method'' = Some ?name" by (simp add: demo_sent_def json_field_def)
  moreover have "copied_text ?name"
    by (simp add: copied_text_def code_points_def is_control_def utf8_def utf8_units_def)
  moreover have "\<not> eq_ignore_case ?name (code_points ''POST'')" by (simp add: eq_ignore_case_def text_lower_def code_points_def)
  ultimately show ?thesis
    using method_wait_misses_bridge_requests [of demo_sent_event "code_points ''debugger.event''" demo_sent ?name "code_points ''POST''"]
    by (simp add: demo_sent_event_def demo_wait_event_def)
qed

end
