(* ===== verification/Inventory.thy ===== *)
theory Inventory
  imports Broker_Snapshots Bridge_Updates Observability
begin

text \<open>
  The inventory of live pages (\<^verbatim>\<open>crates/agentyc-host/src/bridge.rs\<close>, \<^verbatim>\<open>sanitize_observation_snapshot\<close> and its
  helpers, and \<^verbatim>\<open>page_inventory\<close> in \<^verbatim>\<open>crates/agentyc-host/src/broker.rs\<close>): what of a browser observation
  crosses the host boundary, and the reconciliation of the pages it reports. The number of bytes that
  \<^verbatim>\<open>serde_json\<close> writes for a value is the parameter \<open>size_of\<close>.
\<close>

section \<open>Bounds\<close>

definition MAX_OBSERVATION_RECORDS :: nat where "MAX_OBSERVATION_RECORDS = 256"
definition MAX_OBSERVATION_GROUPS :: nat where "MAX_OBSERVATION_GROUPS = 64"
definition MAX_OBSERVATION_RECORD_BYTES :: nat where "MAX_OBSERVATION_RECORD_BYTES = 64 * 1024"
definition MAX_OBSERVATION_BYTES :: nat where "MAX_OBSERVATION_BYTES = 512 * 1024"
definition MAX_OBSERVATION_ID_BYTES :: nat where "MAX_OBSERVATION_ID_BYTES = 128"
definition MAX_OBSERVATION_HINT_BYTES :: nat where "MAX_OBSERVATION_HINT_BYTES = 128"
definition MAX_OBSERVATION_TEXT_BYTES :: nat where "MAX_OBSERVATION_TEXT_BYTES = 4 * 1024"
definition MAX_OBSERVATION_GROUP_MEMBER_COUNT :: nat where "MAX_OBSERVATION_GROUP_MEMBER_COUNT = 4096"

definition OBSERVATION_FIELDS :: "string list" where
  "OBSERVATION_FIELDS =
     [''page_id'', ''space_id'', ''ownership'', ''lifecycle'', ''binding_state'', ''generation'', ''target_generation'',
      ''navigation_generation'', ''document_generation'', ''lease_epoch'', ''browser_session_epoch'', ''url'', ''title'',
      ''incognito'', ''discarded'', ''frozen'', ''active'', ''window_hint'', ''tab_hint'', ''focus_hint'']"

definition OBSERVATION_GROUP_FIELDS :: "string list" where
  "OBSERVATION_GROUP_FIELDS =
     [''space_id'', ''hint'', ''group_hint'', ''title'', ''color'', ''status'', ''collapsed'', ''present'', ''drift'', ''member_count'']"

record observation_snapshot =
  os_pages :: "json list"
  os_groups :: "json list"
  os_safety :: "json option"
  os_recovery_observed :: bool

type_synonym json_size = "json \<Rightarrow> nat option"

section \<open>Fields\<close>

definition invalid_json :: "string \<Rightarrow> core_error" where
  "invalid_json message = core_error_new EC_InvalidJson message"

definition too_large :: "string \<Rightarrow> core_error" where
  "too_large message = core_error_new EC_MessageTooLarge message"

definition bounded_observation_string :: "json \<Rightarrow> nat \<Rightarrow> string \<Rightarrow> (core_error, json) result" where
  "bounded_observation_string value max_bytes message =
     (case json_as_str value of
        Some text \<Rightarrow> if text \<noteq> [] \<and> byte_len text \<le> max_bytes then Ok (J_String text) else Err (invalid_json message)
      | None \<Rightarrow> Err (invalid_json message))"

definition bounded_observation_text :: "json \<Rightarrow> nat \<Rightarrow> string \<Rightarrow> (core_error, json) result" where
  "bounded_observation_text value max_bytes message =
     (case json_as_str value of
        Some text \<Rightarrow> if byte_len text \<le> max_bytes then Ok (J_String text) else Err (invalid_json message)
      | None \<Rightarrow> Err (invalid_json message))"

definition file_url :: "json \<Rightarrow> bool" where
  "file_url text \<longleftrightarrow> is_some_and (json_as_str text) (\<lambda>url. text_starts_with (map lower_cp url) ''file:'')"

definition or_null :: "json \<Rightarrow> (core_error, json) result \<Rightarrow> (core_error, json) result" where
  "or_null value otherwise = (if value = J_Null then Ok J_Null else otherwise)"

definition u64_value :: "json \<Rightarrow> (u64 \<Rightarrow> bool) \<Rightarrow> string \<Rightarrow> (core_error, json) result" where
  "u64_value value admits message =
     (case json_as_u64 value of
        Some n \<Rightarrow> if admits n then Ok (J_Number (JN_Unsigned n)) else Err (invalid_json message)
      | None \<Rightarrow> Err (invalid_json message))"

definition bool_value :: "json \<Rightarrow> string \<Rightarrow> (core_error, json) result" where
  "bool_value value message = (case json_as_bool value of Some b \<Rightarrow> Ok (J_Bool b) | None \<Rightarrow> Err (invalid_json message))"

definition sanitize_observation_field :: "string \<Rightarrow> json \<Rightarrow> (core_error, json) result" where
  "sanitize_observation_field field value =
     (if field \<in> {''page_id'', ''space_id''} then
        or_null value (bounded_observation_string value MAX_OBSERVATION_ID_BYTES ''observation logical identifier is invalid'')
      else if field \<in> {''ownership'', ''lifecycle'', ''binding_state''} then
        bounded_observation_string value MAX_OBSERVATION_HINT_BYTES ''observation state is invalid''
      else if field \<in> {''url'', ''title''} then
        or_null value
          (and_then (bounded_observation_text value MAX_OBSERVATION_TEXT_BYTES ''observation text is invalid'') (\<lambda>text.
           and_then (reject_if (field = ''url'' \<and> file_url text) (invalid_json ''filesystem URLs are not logical observations''))
             (\<lambda>_. Ok text)))
      else if field \<in> {''window_hint'', ''tab_hint'', ''focus_hint''} then
        or_null value (bounded_observation_string value MAX_OBSERVATION_HINT_BYTES ''observation browser hint is invalid'')
      else if field \<in> {''generation'', ''target_generation'', ''navigation_generation'', ''document_generation'', ''lease_epoch'',
          ''browser_session_epoch''} then
        u64_value value (\<lambda>_. True) ''observation generation or epoch is invalid''
      else if field \<in> {''incognito'', ''discarded'', ''frozen'', ''active''} then bool_value value ''observation flag is invalid''
      else Err (invalid_json ''unknown observation field''))"

definition sanitize_observation_group_field :: "string \<Rightarrow> json \<Rightarrow> (core_error, json) result" where
  "sanitize_observation_group_field field value =
     (if field = ''space_id'' then
        bounded_observation_string value MAX_OBSERVATION_ID_BYTES ''observation group space_id is invalid''
      else if field \<in> {''hint'', ''group_hint'', ''title'', ''color'', ''status''} then
        or_null value (bounded_observation_string value MAX_OBSERVATION_HINT_BYTES ''observation group hint is invalid'')
      else if field \<in> {''collapsed'', ''present'', ''drift''} then bool_value value ''observation group flag is invalid''
      else if field = ''member_count'' then
        u64_value value (\<lambda>n. unat n \<le> MAX_OBSERVATION_GROUP_MEMBER_COUNT) ''observation group member count is invalid''
      else Err (invalid_json ''unknown observation group field''))"

definition validate_observation_logical_id :: "json_map \<Rightarrow> string \<Rightarrow> bool \<Rightarrow> (core_error, unit) result" where
  "validate_observation_logical_id record field unmanaged =
     (case json_field record field of
        Some (J_String value) \<Rightarrow>
          reject_if (isl (parse_id_text (if field = ''space_id'' then SpaceId else PageId) value))
            (invalid_json (''observation '' @ field @ '' is invalid''))
      | Some J_Null \<Rightarrow> reject_if (\<not> unmanaged) (invalid_json (''observation '' @ field @ '' is missing''))
      | None \<Rightarrow> reject_if (\<not> unmanaged) (invalid_json (''observation '' @ field @ '' is missing''))
      | Some _ \<Rightarrow> Err (invalid_json (''observation '' @ field @ '' is invalid'')))"

section \<open>Records, groups and counters\<close>

text \<open>The loop over the table of fields: a field that the object lacks is skipped, every other key is dropped.\<close>

fun sanitize_fields ::
  "(string \<Rightarrow> json \<Rightarrow> (core_error, json) result) \<Rightarrow> json_map \<Rightarrow> string list \<Rightarrow> json_map \<Rightarrow> (core_error, json_map) result" where
  "sanitize_fields sanitize object [] sanitized = Ok sanitized"
| "sanitize_fields sanitize object (field # names) sanitized =
     (case json_field object field of
        None \<Rightarrow> sanitize_fields sanitize object names sanitized
      | Some value \<Rightarrow>
          and_then (sanitize field value) (\<lambda>value.
            sanitize_fields sanitize object names (bt_insert (code_points field) value sanitized)))"

definition is_unmanaged :: "json_map \<Rightarrow> bool" where
  "is_unmanaged record \<longleftrightarrow> Option.bind (json_field record ''ownership'') json_as_str = Some (code_points ''unmanaged'')"

definition hide_user_tab :: "json_map \<Rightarrow> json_map" where
  "hide_user_tab record =
     (if is_unmanaged record then bt_remove (code_points ''title'') (bt_remove (code_points ''url'') record) else record)"

definition sanitize_record :: "json \<Rightarrow> (core_error, json) result" where
  "sanitize_record record =
     and_then (ok_or (json_as_object record) (invalid_json ''observation record is not a JSON object'')) (\<lambda>object.
     and_then (sanitize_fields sanitize_observation_field object OBSERVATION_FIELDS []) (\<lambda>sanitized.
     let unmanaged = is_unmanaged sanitized; sanitized = hide_user_tab sanitized in
     and_then (validate_observation_logical_id sanitized ''space_id'' unmanaged) (\<lambda>_.
     and_then (validate_observation_logical_id sanitized ''page_id'' unmanaged) (\<lambda>_.
     Ok (J_Object sanitized)))))"

definition sanitize_group :: "json \<Rightarrow> (core_error, json) result" where
  "sanitize_group value =
     and_then (ok_or (json_as_object value) (invalid_json ''observation group is not a JSON object'')) (\<lambda>object.
     and_then (sanitize_fields sanitize_observation_group_field object OBSERVATION_GROUP_FIELDS []) (\<lambda>sanitized.
     and_then (validate_observation_logical_id sanitized ''space_id'' False) (\<lambda>_.
     Ok (J_Object sanitized))))"

text \<open>
  The two loops differ in their messages: \<open>name\<close> is the word they use. A value of at most 64 KiB is
  added to a total of at most 512 KiB, so the checked sum never fails.
\<close>

fun sanitize_values ::
  "json_size \<Rightarrow> string \<Rightarrow> string \<Rightarrow> (json \<Rightarrow> (core_error, json) result) \<Rightarrow> nat \<Rightarrow> json list \<Rightarrow> (core_error, json list) result" where
  "sanitize_values size_of name overall sanitize total_bytes [] = Ok []"
| "sanitize_values size_of name overall sanitize total_bytes (value # values) =
     and_then (sanitize value) (\<lambda>value.
     and_then (ok_or (size_of value) (invalid_json (''observation '' @ name @ '' could not be encoded''))) (\<lambda>bytes.
     and_then (reject_if (bytes > MAX_OBSERVATION_RECORD_BYTES) (too_large (''observation '' @ name @ '' exceeds the host bound''))) (\<lambda>_.
     and_then (reject_if (total_bytes + bytes + 1 > MAX_OBSERVATION_BYTES) (too_large (overall @ '' size exceeds the host bound''))) (\<lambda>_.
     and_then (sanitize_values size_of name overall sanitize (total_bytes + bytes + 1) values) (\<lambda>values.
     Ok (value # values))))))"

definition sanitize_observation_records :: "json_size \<Rightarrow> json list \<Rightarrow> (core_error, json list) result" where
  "sanitize_observation_records size_of records =
     and_then (reject_if (length records > MAX_OBSERVATION_RECORDS) (too_large ''observation record count exceeds the host bound'')) (\<lambda>_.
     sanitize_values size_of ''record'' ''observation'' sanitize_record 2 records)"

definition sanitize_observation_groups :: "json_size \<Rightarrow> json list \<Rightarrow> (core_error, json list) result" where
  "sanitize_observation_groups size_of groups =
     and_then (reject_if (length groups > MAX_OBSERVATION_GROUPS) (too_large ''observation group count exceeds the host bound'')) (\<lambda>_.
     sanitize_values size_of ''group'' ''observation group'' sanitize_group 2 groups)"

definition safety_counter :: "json_map \<Rightarrow> string \<Rightarrow> (core_error, u64) result" where
  "safety_counter object key =
     (case Option.bind (json_field object key) json_as_u64 of
        Some n \<Rightarrow> if n \<le> 1000000 then Ok n else Err (invalid_json ''observation safety counter is invalid'')
      | None \<Rightarrow> Err (invalid_json ''observation safety counter is invalid''))"

definition sanitize_safety_object :: "json_map \<Rightarrow> (core_error, json) result" where
  "sanitize_safety_object object =
     (let number = (\<lambda>n. J_Number (JN_Unsigned n)); status = code_points ''measured_live'' in
      and_then (reject_if (Option.bind (json_field object ''measurement_status'') json_as_str \<noteq> Some status)
        (invalid_json ''observation safety status is invalid'')) (\<lambda>_.
      and_then (ok_or (Option.bind (json_field object ''current_run'') json_as_bool)
        (invalid_json ''observation safety run marker is invalid'')) (\<lambda>current_run.
      and_then (safety_counter object ''user_tab_closes'') (\<lambda>closes.
      and_then (safety_counter object ''focus_theft'') (\<lambda>theft.
      Ok (J_Object (bt_insert (code_points ''focus_theft'') (number theft)
        (bt_insert (code_points ''user_tab_closes'') (number closes)
        (bt_insert (code_points ''current_run'') (J_Bool current_run)
        (bt_insert (code_points ''measurement_status'') (J_String status) []))))))))))"

definition sanitize_observation_safety :: "json option \<Rightarrow> (core_error, json option) result" where
  "sanitize_observation_safety value =
     (case value of
        None \<Rightarrow> Ok None
      | Some value \<Rightarrow>
          and_then (ok_or (json_as_object value) (invalid_json ''observation safety is not an object'')) (\<lambda>object.
          and_then (sanitize_safety_object object) (\<lambda>value. Ok (Some value))))"

text \<open>The whole snapshot, as the last size check writes it.\<close>

definition snapshot_value :: "observation_snapshot \<Rightarrow> json" where
  "snapshot_value s = J_Object
     [(code_points ''groups'', J_Array (os_groups s)), (code_points ''pages'', J_Array (os_pages s)),
      (code_points ''recovery_observed'', J_Bool (os_recovery_observed s)),
      (code_points ''safety'', case os_safety s of Some value \<Rightarrow> value | None \<Rightarrow> J_Null)]"

definition sanitize_observation_snapshot :: "json_size \<Rightarrow> observation_snapshot \<Rightarrow> (core_error, observation_snapshot) result" where
  "sanitize_observation_snapshot size_of s =
     and_then (sanitize_observation_records size_of (os_pages s)) (\<lambda>pages.
     and_then (sanitize_observation_groups size_of (os_groups s)) (\<lambda>groups.
     and_then (sanitize_observation_safety (os_safety s)) (\<lambda>safety.
     let s' = \<lparr>os_pages = pages, os_groups = groups, os_safety = safety, os_recovery_observed = os_recovery_observed s\<rparr> in
     and_then (ok_or (size_of (snapshot_value s')) (invalid_json ''observation snapshot could not be encoded'')) (\<lambda>bytes.
     and_then (reject_if (bytes > MAX_OBSERVATION_BYTES) (too_large ''observation snapshot exceeds the host bound'')) (\<lambda>_.
     Ok s')))))"

section \<open>The inventory\<close>

text \<open>The fields that \<^verbatim>\<open>reconcile_bridge_pages\<close> reads of a record.\<close>

definition page_observation_of :: "json \<Rightarrow> page_observation" where
  "page_observation_of record =
     (let text = (\<lambda>key. Option.bind (json_get record key) json_as_str); number = (\<lambda>key. Option.bind (json_get record key) json_as_u64)
      in \<lparr>ob_space_id = map_option ascii_text (text ''space_id''), ob_page_id = map_option ascii_text (text ''page_id''),
          ob_url = text ''url'', ob_title = text ''title'', ob_frame_count = number ''frame_count'',
          ob_target_generation = number ''target_generation'', ob_navigation_generation = number ''navigation_generation'',
          ob_document_generation = number ''document_generation''\<rparr>)"

definition of_space :: "opaque_id \<Rightarrow> json \<Rightarrow> bool" where
  "of_space space_id value \<longleftrightarrow> Option.bind (json_get value ''space_id'') json_as_str = Some (code_points space_id)"

definition page_is_visible_in_inventory :: "opaque_id \<Rightarrow> json \<Rightarrow> bool" where
  "page_is_visible_in_inventory space_id record =
     (if is_some_and (Option.bind (json_get record ''space_id'') json_as_str) (\<lambda>s. s \<noteq> code_points space_id) then False
      else if Option.bind (json_get record ''ownership'') json_as_str = Some (code_points ''unmanaged'') then
        Option.bind (json_get record ''active'') json_as_bool = Some True
      else of_space space_id record)"

definition scoped_snapshot :: "opaque_id \<Rightarrow> observation_snapshot \<Rightarrow> observation_snapshot" where
  "scoped_snapshot space_id s =
     s\<lparr>os_pages := filter (page_is_visible_in_inventory space_id) (os_pages s), os_groups := filter (of_space space_id) (os_groups s)\<rparr>"

definition page_inventory ::
  "json_writer \<Rightarrow> ledger_io \<Rightarrow> json_size \<Rightarrow> (backpressure_kind, unit) result \<Rightarrow> (core_error, observation_snapshot) result
   \<Rightarrow> authority_ticket \<Rightarrow> opaque_id \<Rightarrow> observation_snapshot host_op" where
  "page_inventory js io size_of permit observe authority space_id h =
     host_guarded (case permit of Inl kind \<Rightarrow> Err (scheduler_backpressure kind) | Inr _ \<Rightarrow> Ok ()) (\<lambda>_.
     host_next (host_with_inner (\<lambda>h. (h, authorize_visible_space (ho_state h) authority space_id))) (\<lambda>_.
     host_guarded (bridge_result observe) (\<lambda>observation.
     host_guarded (core_result (sanitize_observation_snapshot size_of observation)) (\<lambda>observation.
     let scoped = scoped_snapshot space_id observation in
     host_next (host_section js io (reconcile_bridge_pages_upd (map page_observation_of (os_pages scoped)))) (\<lambda>_.
     host_return (scoped_snapshot space_id scoped)))))) h"

section \<open>Sanitizing keeps or drops\<close>

lemma bt_ext:
  assumes "bt_wf m" "bt_wf m'" "\<And>k. bt_get m k = bt_get m' k"
  shows "m = m'"
proof -
  have "set m = set m'" using assms bt_get_in bt_in_get by (metis subrelI subset_antisym)
  moreover have "sorted_wrt (\<lambda>x y. fst x < fst y) m" "sorted_wrt (\<lambda>x y. fst x < fst y) m'"
    using assms(1,2) by (simp_all add: bt_wf_def sorted_wrt_map)
  moreover have "a = b" if "sorted_wrt (\<lambda>x y. fst x < fst y) a" "sorted_wrt (\<lambda>x y. fst x < fst y) b" "set a = set b"
    for a b :: "('a \<times> 'b) list"
    using that
  proof (induction a arbitrary: b)
    case (Cons x a)
    then obtain y b' where b: "b = y # b'" by (cases b) auto
    have "x = y"
    proof (rule ccontr)
      assume "x \<noteq> y"
      then have "x \<in> set b'" "y \<in> set a" using Cons(4) b by auto
      then show False using Cons(2,3) b by (auto dest: less_asym)
    qed
    moreover have "x \<notin> set a" "y \<notin> set b'" using Cons(2,3) b by auto
    ultimately have "set a = set b'" using Cons(4) b by (metis Diff_insert_absorb list.simps(15))
    then show ?case using Cons b \<open>x = y\<close> by simp
  qed simp
  ultimately show ?thesis by blast
qed

text \<open>A field that passes is passed on as it is.\<close>

lemma bounded_string_same:
  "bounded_observation_string v n m = Inr v' \<Longrightarrow> v' = v" "bounded_observation_text v n m = Inr v' \<Longrightarrow> v' = v"
  "u64_value v p m = Inr v' \<Longrightarrow> v' = v" "bool_value v m = Inr v' \<Longrightarrow> v' = v"
  by (auto simp: bounded_observation_string_def bounded_observation_text_def u64_value_def bool_value_def
      split: option.splits if_splits elim!: json_as_str.elims json_as_u64.elims json_as_bool.elims)

lemma or_null_same: "or_null v r = Inr v' \<Longrightarrow> (\<And>w. r = Inr w \<Longrightarrow> w = v) \<Longrightarrow> v' = v"
  by (auto simp: or_null_def split: if_splits)

lemma text_same: "and_then (bounded_observation_text v n m) (\<lambda>text. and_then (reject_if (p text) e) (\<lambda>_. Ok text)) = Inr v' \<Longrightarrow> v' = v"
  by (auto dest: bounded_string_same(2))

lemma if_result: "(if b then x else y) = z \<Longrightarrow> (x = z \<Longrightarrow> P) \<Longrightarrow> (y = z \<Longrightarrow> P) \<Longrightarrow> P"
  by (cases b) simp_all

lemma field_same:
  "sanitize_observation_field f v = Inr v' \<Longrightarrow> v' = v" "sanitize_observation_group_field f v = Inr v' \<Longrightarrow> v' = v"
  unfolding sanitize_observation_field_def sanitize_observation_group_field_def
  by (elim if_result; (erule or_null_same)?;
      (erule bounded_string_same(1) | erule bounded_string_same(3) | erule bounded_string_same(4) | erule text_same | simp only: sum.distinct))+

text \<open>What the loop over the fields leaves: the fields of the table that the object has, each of which passes.\<close>

lemma sanitize_fields_Ok:
  assumes "\<And>f v v'. san f v = Inr v' \<Longrightarrow> v' = v"
    and "sanitize_fields san object names m = Inr m'" "bt_wf m"
  shows "bt_wf m' \<and> (\<forall>k. bt_get m' k = (if k \<in> code_points ` set names \<and> bt_get object k \<noteq> None then bt_get object k else bt_get m k))
    \<and> (\<forall>f v. f \<in> set names \<longrightarrow> json_field object f = Some v \<longrightarrow> san f v = Inr v)"
  using assms(2,3)
proof (induction names arbitrary: m)
  case (Cons f names)
  show ?case
  proof (cases "json_field object f")
    case None
    then show ?thesis using Cons by (auto simp: json_field_def)
  next
    case (Some v)
    then obtain v' where v': "san f v = Inr v'" "sanitize_fields san object names (bt_insert (code_points f) v' m) = Inr m'"
      using Cons(2) by auto
    then show ?thesis
      using Cons(1) [OF v'(2) bt_wf_insert [OF Cons(3)]] assms(1) [OF v'(1)] Some Cons(3) by (auto simp: json_field_def bt_get_insert)
  qed
qed auto

lemma sanitize_fields_total:
  "(\<And>f v. f \<in> set names \<Longrightarrow> json_field object f = Some v \<Longrightarrow> san f v = Inr v) \<Longrightarrow> \<exists>m'. sanitize_fields san object names m = Inr m'"
  by (induction names arbitrary: m) (auto split: option.split)

text \<open>An object that has only fields of the table, all of which pass, is left as it is.\<close>

lemma sanitize_fields_fixed:
  assumes "\<And>f v v'. san f v = Inr v' \<Longrightarrow> v' = v" "bt_wf m"
    and "\<And>f v. f \<in> set names \<Longrightarrow> json_field m f = Some v \<Longrightarrow> san f v = Inr v"
    and "bt_keys m \<subseteq> code_points ` set names"
  shows "sanitize_fields san m names [] = Inr m"
proof -
  obtain m' where m': "sanitize_fields san m names [] = Inr m'" using sanitize_fields_total [of names m san "[]"] assms(3) by blast
  from sanitize_fields_Ok [OF assms(1) m'] have "bt_wf m'"
      "\<And>k. bt_get m' k = (if k \<in> code_points ` set names \<and> bt_get m k \<noteq> None then bt_get m k else None)" by auto
  moreover from this(2) assms(4) have "bt_get m' k = bt_get m k" for k using bt_get_None [of m k] by auto
  ultimately show ?thesis using bt_ext [of m' m] assms(2) m' by blast
qed

lemma hide_user_tab_get:
  "bt_wf m \<Longrightarrow> bt_get (hide_user_tab m) k = (if is_unmanaged m \<and> k \<in> {code_points ''url'', code_points ''title''} then None else bt_get m k)"
  "bt_wf m \<Longrightarrow> bt_wf (hide_user_tab m)"
  by (auto simp: hide_user_tab_def bt_get_remove bt_wf_remove)

lemma is_unmanaged_hide: "bt_wf m \<Longrightarrow> is_unmanaged (hide_user_tab m) = is_unmanaged m"
proof -
  assume "bt_wf m"
  moreover have "code_points ''ownership'' \<notin> {code_points ''url'', code_points ''title''}" by (simp add: code_points_inj)
  ultimately show ?thesis by (simp only: is_unmanaged_def json_field_def hide_user_tab_get) simp
qed

text \<open>What a sanitized record is.\<close>

definition clean_record :: "json_map \<Rightarrow> bool" where
  "clean_record m \<longleftrightarrow> bt_wf m \<and> bt_keys m \<subseteq> code_points ` set OBSERVATION_FIELDS
     \<and> (\<forall>f v. f \<in> set OBSERVATION_FIELDS \<longrightarrow> json_field m f = Some v \<longrightarrow> sanitize_observation_field f v = Inr v)
     \<and> (is_unmanaged m \<longrightarrow> json_field m ''url'' = None \<and> json_field m ''title'' = None)
     \<and> validate_observation_logical_id m ''space_id'' (is_unmanaged m) = Inr ()
     \<and> validate_observation_logical_id m ''page_id'' (is_unmanaged m) = Inr ()"

lemma sanitize_record_clean:
  assumes "sanitize_record record = Inr value"
  shows "\<exists>m. value = J_Object m \<and> clean_record m"
proof -
  obtain object s where s: "sanitize_fields sanitize_observation_field object OBSERVATION_FIELDS [] = Inr s"
      "value = J_Object (hide_user_tab s)" "validate_observation_logical_id (hide_user_tab s) ''space_id'' (is_unmanaged s) = Inr ()"
      "validate_observation_logical_id (hide_user_tab s) ''page_id'' (is_unmanaged s) = Inr ()"
    using assms by (auto simp: sanitize_record_def Let_def)
  from sanitize_fields_Ok [OF field_same(1) s(1)] have r: "bt_wf s"
      "\<And>k. bt_get s k = (if k \<in> code_points ` set OBSERVATION_FIELDS \<and> bt_get object k \<noteq> None then bt_get object k else None)"
      "\<And>f v. f \<in> set OBSERVATION_FIELDS \<Longrightarrow> json_field object f = Some v \<Longrightarrow> sanitize_observation_field f v = Inr v" by auto
  have sub: "bt_get (hide_user_tab s) k = Some v \<Longrightarrow> bt_get object k = Some v \<and> k \<in> code_points ` set OBSERVATION_FIELDS" for k v
    using r(2) [of k] by (auto simp: hide_user_tab_get [OF r(1)] split: if_splits)
  then have keys: "bt_keys (hide_user_tab s) \<subseteq> code_points ` set OBSERVATION_FIELDS"
    using bt_get_None [of "hide_user_tab s"] by (metis not_None_eq subsetI)
  have fields: "sanitize_observation_field f v = Inr v" if "f \<in> set OBSERVATION_FIELDS" "json_field (hide_user_tab s) f = Some v" for f v
    using sub that r(3) by (auto simp: json_field_def)
  have "json_field (hide_user_tab s) ''url'' = None \<and> json_field (hide_user_tab s) ''title'' = None" if "is_unmanaged s"
    using that by (simp add: json_field_def hide_user_tab_get [OF r(1)])
  with keys fields s r(1) show ?thesis
    unfolding clean_record_def by (simp add: is_unmanaged_hide hide_user_tab_get(2))
qed

lemma clean_record_fixed:
  assumes "clean_record m"
  shows "sanitize_record (J_Object m) = Inr (J_Object m)"
proof -
  have "sanitize_fields sanitize_observation_field m OBSERVATION_FIELDS [] = Inr m"
    using assms by (intro sanitize_fields_fixed field_same(1)) (auto simp: clean_record_def)
  moreover have "hide_user_tab m = m"
    using assms by (simp add: hide_user_tab_def clean_record_def json_field_def bt_remove_absent)
  ultimately show ?thesis using assms by (simp add: sanitize_record_def clean_record_def)
qed

lemma sanitize_group_fixed:
  assumes "sanitize_group value = Inr value'"
  shows "sanitize_group value' = Inr value'"
proof -
  obtain object s where s: "sanitize_fields sanitize_observation_group_field object OBSERVATION_GROUP_FIELDS [] = Inr s"
      "value' = J_Object s" "validate_observation_logical_id s ''space_id'' False = Inr ()"
    using assms by (auto simp: sanitize_group_def)
  from sanitize_fields_Ok [OF field_same(2) s(1)] have r: "bt_wf s"
      "\<And>k. bt_get s k = (if k \<in> code_points ` set OBSERVATION_GROUP_FIELDS \<and> bt_get object k \<noteq> None then bt_get object k else None)"
      "\<And>f v. f \<in> set OBSERVATION_GROUP_FIELDS \<Longrightarrow> json_field object f = Some v \<Longrightarrow> sanitize_observation_group_field f v = Inr v" by auto
  have keys: "bt_keys s \<subseteq> code_points ` set OBSERVATION_GROUP_FIELDS"
    using r(2) bt_get_None [of s] by (metis subsetI)
  have fields: "sanitize_observation_group_field f v = Inr v" if "f \<in> set OBSERVATION_GROUP_FIELDS" "json_field s f = Some v" for f v
    using that r(2) [of "code_points f"] r(3) by (auto simp: json_field_def split: if_splits)
  have "sanitize_fields sanitize_observation_group_field s OBSERVATION_GROUP_FIELDS [] = Inr s"
    by (rule sanitize_fields_fixed) (use r(1) fields keys field_same(2) in auto)
  then show ?thesis using s by (simp add: sanitize_group_def)
qed

lemma sanitize_values_fixed:
  assumes "\<And>v v'. sanitize v = Inr v' \<Longrightarrow> sanitize v' = Inr v'"
  shows "sanitize_values size_of name overall sanitize n vs = Inr vs' \<Longrightarrow>
    sanitize_values size_of name overall sanitize n vs' = Inr vs' \<and> length vs' = length vs"
  by (induction vs arbitrary: n vs') (auto dest: assms)

lemma sanitize_values_each:
  "sanitize_values size_of name overall sanitize n vs = Inr vs' \<Longrightarrow> v' \<in> set vs' \<Longrightarrow> \<exists>v \<in> set vs. sanitize v = Inr v'"
  by (induction vs arbitrary: n vs') (simp, fastforce)

lemma sanitize_safety_fixed:
  assumes "sanitize_observation_safety v = Inr v'"
  shows "sanitize_observation_safety v' = Inr v'"
proof -
  have names: "code_points ''focus_theft'' \<noteq> code_points ''user_tab_closes''" "code_points ''focus_theft'' \<noteq> code_points ''current_run''"
    "code_points ''focus_theft'' \<noteq> code_points ''measurement_status''" "code_points ''user_tab_closes'' \<noteq> code_points ''current_run''"
    "code_points ''user_tab_closes'' \<noteq> code_points ''measurement_status''" "code_points ''current_run'' \<noteq> code_points ''measurement_status''"
    by (simp_all add: code_points_inj)
  note names = names names [symmetric]
  show ?thesis
  proof (cases v)
    case None
    then show ?thesis using assms by (auto simp: sanitize_observation_safety_def)
  next
    case (Some w)
    then obtain object out where o: "sanitize_safety_object object = Inr out" "v' = Some out"
      using assms by (auto simp: sanitize_observation_safety_def)
    then obtain run closes theft where out: "safety_counter object ''user_tab_closes'' = Inr closes"
        "safety_counter object ''focus_theft'' = Inr theft"
        "out = J_Object (bt_insert (code_points ''focus_theft'') (J_Number (JN_Unsigned theft))
          (bt_insert (code_points ''user_tab_closes'') (J_Number (JN_Unsigned closes))
          (bt_insert (code_points ''current_run'') (J_Bool run)
          (bt_insert (code_points ''measurement_status'') (J_String (code_points ''measured_live'')) []))))"
      by (auto simp: sanitize_safety_object_def Let_def)
    then have "closes \<le> 1000000" "theft \<le> 1000000"
      by (auto simp: safety_counter_def split: option.splits if_splits)
    with out(3) o(2) show ?thesis
      by (simp add: sanitize_observation_safety_def sanitize_safety_object_def safety_counter_def json_field_def bt_get_insert bt_wf_insert
          names Let_def del: bt_insert.simps)
  qed
qed

text \<open>
  Sanitizing an observation twice is sanitizing it once: what crossed the host boundary passes the same
  checks again, under the same bounds, and nothing more is removed from it.
\<close>

theorem sanitize_idempotent:
  assumes "sanitize_observation_snapshot size_of s = Inr s'"
  shows "sanitize_observation_snapshot size_of s' = Inr s'"
proof -
  obtain pages groups safety where p: "sanitize_observation_records size_of (os_pages s) = Inr pages"
      "sanitize_observation_groups size_of (os_groups s) = Inr groups" "sanitize_observation_safety (os_safety s) = Inr safety"
      "s' = \<lparr>os_pages = pages, os_groups = groups, os_safety = safety, os_recovery_observed = os_recovery_observed s\<rparr>"
      "\<exists>bytes. size_of (snapshot_value s') = Some bytes \<and> bytes \<le> MAX_OBSERVATION_BYTES"
    using assms by (fastforce simp: sanitize_observation_snapshot_def Let_def not_less)
  have "sanitize_observation_records size_of pages = Inr pages"
    using p(1) sanitize_values_fixed [of sanitize_record size_of "''record''" "''observation''" 2 "os_pages s" pages]
      sanitize_record_clean clean_record_fixed by (fastforce simp: sanitize_observation_records_def)
  moreover have "sanitize_observation_groups size_of groups = Inr groups"
    using p(2) sanitize_values_fixed [of sanitize_group size_of "''group''" "''observation group''" 2 "os_groups s" groups]
      sanitize_group_fixed by (fastforce simp: sanitize_observation_groups_def)
  moreover have "sanitize_observation_safety safety = Inr safety" using p(3) by (rule sanitize_safety_fixed)
  ultimately show ?thesis using p(4,5) by (auto simp: sanitize_observation_snapshot_def Let_def)
qed

lemma inventory_Ok:
  assumes "page_inventory js io size_of permit observe au sp h = (h', Inr inventory)"
  shows "\<exists>observation sanitized. observe = Inr observation \<and> sanitize_observation_snapshot size_of observation = Inr sanitized
    \<and> authorize_visible_space (ho_state h) au sp = Inr () \<and> inventory = scoped_snapshot sp sanitized"
proof -
  have "scoped_snapshot sp (scoped_snapshot sp s) = scoped_snapshot sp s" for s by (simp add: scoped_snapshot_def conj_commute)
  then show ?thesis
    using assms
    by (auto simp: page_inventory_def host_guarded_Ok host_next_Ok host_return_def host_with_inner_def Let_def
        elim!: bridge_result.elims core_result.elims split: sum.splits)
qed

text \<open>
  C13: What an agent sees of the browser. An inventory is given only for a space the caller may see. Every page
  in it is a record of that space, or the active tab of the user without its address and title; it
  has no key outside the table of logical fields, so no handle of the browser, no address of the file
  system, and identities that are well formed.
\<close>

theorem inventory_exposes_only:
  assumes "page_inventory js io size_of permit observe au sp h = (h', Inr inventory)"
  shows "authorize_visible_space (ho_state h) au sp = Inr ()
    \<and> (\<forall>page \<in> set (os_pages inventory). \<exists>m. page = J_Object m \<and> bt_keys m \<subseteq> code_points ` set OBSERVATION_FIELDS
         \<and> is_none_or (json_field m ''url'') (\<lambda>url. \<not> file_url url)
         \<and> (if is_unmanaged m then json_field m ''url'' = None \<and> json_field m ''title'' = None
              \<and> json_field m ''active'' = Some (J_Bool True)
            else json_field m ''space_id'' = Some (J_String (code_points sp))))
    \<and> (\<forall>group \<in> set (os_groups inventory). of_space sp group)"
proof -
  obtain observation sanitized where o: "sanitize_observation_snapshot size_of observation = Inr sanitized"
      "authorize_visible_space (ho_state h) au sp = Inr ()" "inventory = scoped_snapshot sp sanitized"
    using inventory_Ok [OF assms] by blast
  have "\<exists>m. page = J_Object m \<and> clean_record m" if "page \<in> set (os_pages sanitized)" for page
    using o(1) that sanitize_values_each [of size_of "''record''" "''observation''" sanitize_record 2 "os_pages observation"]
      sanitize_record_clean
    by (fastforce simp: sanitize_observation_snapshot_def sanitize_observation_records_def Let_def)
  moreover have "bt_keys m \<subseteq> code_points ` set OBSERVATION_FIELDS
         \<and> is_none_or (json_field m ''url'') (\<lambda>url. \<not> file_url url)
         \<and> (if is_unmanaged m then json_field m ''url'' = None \<and> json_field m ''title'' = None
              \<and> json_field m ''active'' = Some (J_Bool True)
            else json_field m ''space_id'' = Some (J_String (code_points sp)))"
    if m: "clean_record m" and v: "page_is_visible_in_inventory sp (J_Object m)" for m
  proof -
    have "''url'' \<in> set OBSERVATION_FIELDS" by (simp add: OBSERVATION_FIELDS_def)
    then have "\<not> file_url url" if "json_field m ''url'' = Some url" for url
      using m that by (fastforce simp: clean_record_def sanitize_observation_field_def or_null_def file_url_def split: if_splits)
    moreover have "json_field m ''active'' = Some (J_Bool True)" if "is_unmanaged m"
      using v that by (auto simp: page_is_visible_in_inventory_def is_unmanaged_def json_get_def bind_eq_Some_conv
          elim!: json_as_bool.elims split: if_splits)
    moreover have "json_field m ''space_id'' = Some (J_String (code_points sp))" if "\<not> is_unmanaged m"
      using v that by (auto simp: page_is_visible_in_inventory_def is_unmanaged_def of_space_def json_get_def bind_eq_Some_conv
          elim!: json_as_str.elims split: if_splits)
    ultimately show ?thesis using m by (auto simp: clean_record_def is_none_or_iff)
  qed
  ultimately show ?thesis using o by (fastforce simp: scoped_snapshot_def)
qed

section \<open>A title that no inventory can report\<close>

lemma reconcile_title_fails:
  assumes "observed_target record = Some (space_id, page_id, target, navigation, document)"
    and "Option.bind (bt_get (lg_spaces s) space_id) (\<lambda>space. space_page space page_id) = Some page"
    and "newer_observation target navigation document page"
    and "ob_title record = Some title" "list_ex is_control title"
  shows "reconcile_record record s \<noteq> Inr r"
proof -
  have "reconcile_page record target navigation document page \<noteq> Inr page'" for page'
    using assms(4,5) by (auto simp: reconcile_page_def bounded_optional_def)
  moreover obtain space where "bt_get (lg_spaces s) space_id = Some space" "space_page space page_id = Some page"
    using assms(2) by (auto simp: bind_eq_Some_conv)
  ultimately show ?thesis
    using assms(1,3) by (auto simp: reconcile_record_def modify_page_def upd_bind_def upd_get_def find_space_def core_ok_or_def
        split: sum.splits)
qed

lemma reconcile_nothing: "reconcile_record record s = Inr (s', []) \<Longrightarrow> s' = s"
  by (auto simp: reconcile_record_def upd_simps split: option.splits prod.splits if_splits)

lemma reconcile_records_fail:
  "reconcile_records pre s = Inr (s', []) \<Longrightarrow> (\<And>r. reconcile_record record s \<noteq> Inr r)
   \<Longrightarrow> reconcile_records (pre @ record # post) s \<noteq> Inr r"
proof (induction pre arbitrary: r)
  case Nil
  then show ?case by (auto simp: upd_bind_def split: sum.splits)
next
  case (Cons a pre)
  from Cons(2) have "reconcile_record a s = Inr (s, [])" "reconcile_records pre s = Inr (s', [])"
    by (auto simp: upd_simps dest: reconcile_nothing)
  with Cons show ?case by (auto simp: upd_bind_def split: sum.splits)
qed

text \<open>
  A title with a control character. The boundary passes it, but the reconciliation refuses it, and with it the
  whole observation: while a page of the space has such a title and a newer document, every
  inventory of the space fails and nothing is reconciled.
\<close>

theorem control_title_blocks_inventory:
  assumes "observe = Inr observation" "sanitize_observation_snapshot size_of observation = Inr sanitized"
    and "map page_observation_of (os_pages (scoped_snapshot sp sanitized)) = pre @ record # post"
    and "reconcile_records pre (ho_state h) = Inr (s', [])"
    and "observed_target record = Some (space_id, page_id, target, navigation, document)"
    and "Option.bind (bt_get (lg_spaces (ho_state h)) space_id) (\<lambda>space. space_page space page_id) = Some page"
    and "newer_observation target navigation document page"
    and "ob_title record = Some title" "list_ex is_control title"
  shows "isl (snd (page_inventory js io size_of permit observe au sp h))
    \<and> ho_state (fst (page_inventory js io size_of permit observe au sp h)) = ho_state h"
proof -
  let ?f = "reconcile_bridge_pages_upd (map page_observation_of (os_pages (scoped_snapshot sp sanitized)))"
  let ?b = "ho_broker h\<lparr>br_router := sync_event_router (br_router (ho_broker h)) (ho_state h)\<rparr>"
  have "reconcile_records (pre @ record # post) (ho_state h) \<noteq> Inr r" for r
    using reconcile_records_fail [OF assms(4)] reconcile_title_fails [OF assms(5-9)] by blast
  then have "?f (ho_state h) \<noteq> Inr r" for r
    unfolding assms(3) reconcile_bridge_pages_upd_def by (auto simp: upd_bind_def split: sum.splits)
  then have "br_state (fst (update_ledger js io ?f ?b)) = ho_state h \<and> isl (snd (update_ledger js io ?f ?b))"
    using update_ledger_fails [of ?f ?b js io] by simp
  then show ?thesis
    by (auto simp: page_inventory_def host_guarded_def host_next_def host_section_def host_with_inner_def host_update_def assms(1,2)
        Let_def split: sum.splits prod.splits)
qed

section \<open>Examples\<close>

definition demo_user_tab :: json where
  "demo_user_tab = J_Object
     [(code_points ''active'', J_Bool True), (code_points ''ownership'', J_String (code_points ''unmanaged'')),
      (code_points ''tab_id'', J_Number (JN_Unsigned 7)), (code_points ''title'', J_String (code_points ''mail'')),
      (code_points ''url'', J_String (code_points ''https://mail''))]"

definition demo_agent_tab :: "utext \<Rightarrow> u64 \<Rightarrow> json" where
  "demo_agent_tab title document = J_Object
     [(code_points ''document_generation'', J_Number (JN_Unsigned document)),
      (code_points ''navigation_generation'', J_Number (JN_Unsigned 2)), (code_points ''page_id'', J_String (code_points ''page_1'')),
      (code_points ''space_id'', J_String (code_points ''space_1'')), (code_points ''target_generation'', J_Number (JN_Unsigned 1)),
      (code_points ''title'', J_String title)]"

definition demo_observation :: "json list \<Rightarrow> observation_snapshot" where
  "demo_observation pages = \<lparr>os_pages = pages, os_groups = [], os_safety = None, os_recovery_observed = True\<rparr>"

lemma demo_user_tab_sanitized:
  "sanitize_record demo_user_tab = Inr (J_Object
     [(code_points ''active'', J_Bool True), (code_points ''ownership'', J_String (code_points ''unmanaged''))])"
  by code_simp

lemma demo_agent_tab_sanitized: "sanitize_record (demo_agent_tab [104, 10] 4) = Inr (demo_agent_tab [104, 10] 4)"
  "sanitize_record (demo_agent_tab [104] 3) = Inr (demo_agent_tab [104] 3)"
  by code_simp+


lemma demo_observation_sanitized:
  "sanitize_observation_snapshot (\<lambda>_. Some 0) (demo_observation [demo_user_tab, demo_agent_tab [104] 3])
   = Inr (demo_observation [J_Object [(code_points ''active'', J_Bool True), (code_points ''ownership'', J_String (code_points ''unmanaged''))],
       demo_agent_tab [104] 3])"
  "sanitize_observation_snapshot (\<lambda>_. Some 0) (demo_observation [demo_agent_tab [104, 10] 4]) = Inr (demo_observation [demo_agent_tab [104, 10] 4])"
  by (simp_all add: sanitize_observation_snapshot_def sanitize_observation_records_def sanitize_observation_groups_def
      sanitize_observation_safety_def demo_observation_def MAX_OBSERVATION_RECORDS_def MAX_OBSERVATION_GROUPS_def MAX_OBSERVATION_BYTES_def
      demo_user_tab_sanitized demo_agent_tab_sanitized reject_if_def)

lemma sanitize_idempotent_witness:
  "\<exists>s. sanitize_observation_snapshot (\<lambda>_. Some 0) (demo_observation [demo_user_tab, demo_agent_tab [104] 3]) = Inr s
     \<and> sanitize_observation_snapshot (\<lambda>_. Some 0) s = Inr s \<and> os_pages s \<noteq> [demo_user_tab, demo_agent_tab [104] 3]"
proof -
  have "os_pages (demo_observation [J_Object [(code_points ''active'', J_Bool True), (code_points ''ownership'', J_String (code_points ''unmanaged''))],
       demo_agent_tab [104] 3]) \<noteq> [demo_user_tab, demo_agent_tab [104] 3]"
    by (simp add: demo_observation_def demo_user_tab_def)
  with sanitize_idempotent [OF demo_observation_sanitized(1)] demo_observation_sanitized(1) show ?thesis by blast
qed

lemma demo_inventory:
  "\<exists>h'. page_inventory demo_js demo_io (\<lambda>_. Some 0) (Inr ()) (Inr (demo_observation [demo_user_tab, demo_agent_tab [104] 3]))
     demo_authority ''space_1'' demo_host
   = (h', Inr (demo_observation [J_Object [(code_points ''active'', J_Bool True), (code_points ''ownership'', J_String (code_points ''unmanaged''))],
       demo_agent_tab [104] 3]))"
proof -
  let ?tab = "J_Object [(code_points ''active'', J_Bool True), (code_points ''ownership'', J_String (code_points ''unmanaged''))]"
  let ?o = "demo_observation [?tab, demo_agent_tab [104] 3]"
  let ?s = "demo_host_log 0 [] []" and ?b = "ho_broker demo_host\<lparr>br_router := sync_event_router (br_router (ho_broker demo_host)) (ho_state demo_host)\<rparr>"
  let ?f = "reconcile_bridge_pages_upd (map page_observation_of (os_pages (scoped_snapshot ''space_1'' ?o)))"
  have "filter (page_is_visible_in_inventory ''space_1'') [?tab, demo_agent_tab [104] 3] = [?tab, demo_agent_tab [104] 3]" by code_simp
  then have scoped: "scoped_snapshot ''space_1'' ?o = ?o" by (simp add: scoped_snapshot_def demo_observation_def)
  have "observed_target (page_observation_of ?tab) = None" by code_simp
  moreover have "observed_target (page_observation_of (demo_agent_tab [104] 3)) = Some (''space_1'', ''page_1'', 1, 2, 3)" by code_simp
  moreover have "\<not> newer_observation 1 2 3 demo_gate_page" by (simp add: newer_observation_def demo_gate_page_def)
  ultimately have "?f ?s = Inr (?s, ())"
    unfolding scoped by (simp add: reconcile_bridge_pages_upd_def reconcile_record_def demo_observation_def upd_bind_def upd_ok_def
        demo_host_log_def demo_host_state_def demo_gate_state_def space_page_def demo_gate_page_def)
  then have "\<exists>b. update_ledger demo_js demo_io ?f ?b = (b, Inr ())"
    using demo_host_commit [of ?f ?b ?s "()"] demo_log_empty by (simp add: demo_host_log_def demo_host_def)
  moreover have "authorize_visible_space ?s demo_authority ''space_1'' = Inr ()"
    by (simp add: authorize_visible_space_def authorize_ticket_def authorize_lease_holder_def visible_to_principal_def authority_is_current_def
        find_space_def demo_host_log_def demo_host_defs record_simps checks.simps core_reject_def reject_if_def bt_contains_def)
  moreover have demo_state: "ho_state demo_host = ?s" by (simp add: demo_host_def)
  ultimately show ?thesis using scoped
    by (auto simp: page_inventory_def host_guarded_def host_next_def host_section_def host_with_inner_def host_update_def host_return_def
        demo_observation_sanitized demo_state Let_def split: sum.splits prod.splits)
qed


lemma inventory_exposes_only_witness:
  "\<exists>h' inventory. page_inventory demo_js demo_io (\<lambda>_. Some 0) (Inr ()) (Inr (demo_observation [demo_user_tab, demo_agent_tab [104] 3]))
       demo_authority ''space_1'' demo_host = (h', Inr inventory)
     \<and> length (os_pages inventory) = 2
     \<and> (\<forall>page \<in> set (os_pages inventory). \<exists>m. page = J_Object m \<and> bt_keys m \<subseteq> code_points ` set OBSERVATION_FIELDS)"
proof -
  obtain h' where h': "page_inventory demo_js demo_io (\<lambda>_. Some 0) (Inr ()) (Inr (demo_observation [demo_user_tab, demo_agent_tab [104] 3]))
     demo_authority ''space_1'' demo_host
   = (h', Inr (demo_observation [J_Object [(code_points ''active'', J_Bool True), (code_points ''ownership'', J_String (code_points ''unmanaged''))],
       demo_agent_tab [104] 3]))" (is "_ = (_, Inr ?i)")
    using demo_inventory by blast
  have "length (os_pages ?i) = 2" by (simp add: demo_observation_def)
  with h' inventory_exposes_only [OF h'] show ?thesis by blast
qed

lemma control_title_blocks_inventory_witness:
  "isl (snd (page_inventory demo_js demo_io (\<lambda>_. Some 0) (Inr ()) (Inr (demo_observation [demo_agent_tab [104, 10] 4]))
     demo_authority ''space_1'' demo_host))"
proof -
  let ?o = "demo_observation [demo_agent_tab [104, 10] 4]" and ?r = "page_observation_of (demo_agent_tab [104, 10] 4)"
  have "filter (page_is_visible_in_inventory ''space_1'') [demo_agent_tab [104, 10] 4] = [demo_agent_tab [104, 10] 4]" by code_simp
  then have pages: "map page_observation_of (os_pages (scoped_snapshot ''space_1'' ?o)) = [] @ ?r # []"
    by (simp add: scoped_snapshot_def demo_observation_def)
  have target: "observed_target ?r = Some (''space_1'', ''page_1'', 1, 2, 4)" by code_simp
  have known: "Option.bind (bt_get (lg_spaces (ho_state demo_host)) ''space_1'') (\<lambda>space. space_page space ''page_1'') = Some demo_gate_page"
    by (simp add: demo_host_def demo_host_log_def demo_host_state_def demo_gate_state_def space_page_def demo_gate_page_def)
  have newer: "newer_observation 1 2 4 demo_gate_page"
    by (simp add: newer_observation_def demo_gate_page_def admits_agent_mutations_def)
  have title: "ob_title ?r = Some [104, 10]" "list_ex is_control [104, 10]" by code_simp+
  have "reconcile_records [] (ho_state demo_host) = Inr (ho_state demo_host, [])" by (simp add: upd_ok_def)
  from control_title_blocks_inventory [OF refl demo_observation_sanitized(2) pages this target known newer title]
  show ?thesis by blast
qed

end
