(* ===== verification/Context.thy ===== *)
theory Context
  imports Snapshot_Cache Observability Json "HOL-Library.Option_ord"
begin

text \<open>
  Context documents (\<^verbatim>\<open>crates/agentyc-host/src/context.rs\<close>): the part of a snapshot that is handed to a model.
  A request names a representation, a byte and token budget and a redaction policy; the builder
  redacts, focuses, compacts or diffs the snapshot, and answers a marker when nothing fits. The text that
  \<^verbatim>\<open>serde_json\<close> writes for metadata and body is a parameter (\<open>context_json\<close>), and so is the tokenizer.
\<close>

section \<open>Requests\<close>

datatype context_mode = CM_Auto | CM_Full | CM_Compact | CM_Focus | CM_Delta

datatype tokenizer_error = TE_CountOverflow | TE_InvalidInput string

fun tokenizer_error_text :: "tokenizer_error \<Rightarrow> string" where
  "tokenizer_error_text TE_CountOverflow = ''token count overflow''"
| "tokenizer_error_text (TE_InvalidInput message) = message"

record tokenizer =
  tk_name :: string
  tk_count_tokens :: "utext \<Rightarrow> (tokenizer_error, u64) result"
  tk_count_model_context_tokens :: "utext \<Rightarrow> (tokenizer_error, u64) result"

definition scalar_count :: "utext \<Rightarrow> (tokenizer_error, u64) result" where
  "scalar_count input = (if length input < 2 ^ 64 then Ok (of_nat (length input)) else Err TE_CountOverflow)"

definition unicode_scalar_tokenizer :: tokenizer where
  "unicode_scalar_tokenizer =
     \<lparr>tk_name = ''unicode_scalars'', tk_count_tokens = scalar_count, tk_count_model_context_tokens = scalar_count\<rparr>"

record context_focus =
  cf_frame_id :: "opaque_id option"
  cf_element_key :: "opaque_id option"

definition no_focus :: context_focus where
  "no_focus = \<lparr>cf_frame_id = None, cf_element_key = None\<rparr>"

definition focus_is_empty :: "context_focus \<Rightarrow> bool" where
  "focus_is_empty focus \<longleftrightarrow> cf_frame_id focus = None \<and> cf_element_key focus = None"

record redaction_policy =
  rp_sensitive_fields :: "utext set"
  rp_replacement :: utext

definition redaction_policy_default :: redaction_policy where
  "redaction_policy_default =
     \<lparr>rp_sensitive_fields = set (map code_points
        [''authorization'', ''api_key'', ''apikey'', ''bearer'', ''card_number'', ''cookie'', ''credit_card'', ''cvv'', ''password'',
         ''secret'', ''ssn'', ''token'', ''value'']),
      rp_replacement = code_points ''[REDACTED]''\<rparr>"

definition normalized_field :: "utext \<Rightarrow> utext" where
  "normalized_field name = map (\<lambda>c. if c = 45 then 95 else c) (map lower_cp name)"

definition is_sensitive :: "redaction_policy \<Rightarrow> utext \<Rightarrow> bool" where
  "is_sensitive policy name \<longleftrightarrow>
     (\<exists>field \<in> rp_sensitive_fields policy.
        normalized_field name = normalized_field field \<or> is_some (find_sub (normalized_field name) (normalized_field field)))"

definition add_sensitive_field :: "utext \<Rightarrow> redaction_policy \<Rightarrow> redaction_policy" where
  "add_sensitive_field field policy = policy\<lparr>rp_sensitive_fields := insert (map lower_cp field) (rp_sensitive_fields policy)\<rparr>"

record context_request =
  cq_mode :: context_mode
  cq_base :: "snapshot_envelope option"
  cq_focus :: context_focus
  cq_max_serialized_bytes :: "u64 option"
  cq_token_budget :: "token_budget option"
  cq_tokenizer :: "string option"
  cq_delta_limits :: delta_limits
  cq_minimum_coverage :: snapshot_coverage
  cq_clean_cache_metadata_only :: bool
  cq_allow_resync :: bool
  cq_redaction :: redaction_policy

definition context_request_default :: context_request where
  "context_request_default =
     \<lparr>cq_mode = CM_Auto, cq_base = None, cq_focus = no_focus, cq_max_serialized_bytes = None, cq_token_budget = None,
      cq_tokenizer = None, cq_delta_limits = delta_limits_default, cq_minimum_coverage = SC_Complete,
      cq_clean_cache_metadata_only = True, cq_allow_resync = True, cq_redaction = redaction_policy_default\<rparr>"

definition request_auto :: context_request where "request_auto = context_request_default"
definition request_full :: context_request where "request_full = context_request_default\<lparr>cq_mode := CM_Full\<rparr>"
definition request_compact :: context_request where "request_compact = context_request_default\<lparr>cq_mode := CM_Compact\<rparr>"
definition request_focus :: context_request where "request_focus = context_request_default\<lparr>cq_mode := CM_Focus\<rparr>"

definition request_delta :: "snapshot_envelope \<Rightarrow> context_request" where
  "request_delta base = context_request_default\<lparr>cq_mode := CM_Delta, cq_base := Some base\<rparr>"

definition request_with_focus :: "context_focus \<Rightarrow> context_request \<Rightarrow> context_request" where
  "request_with_focus focus r = r\<lparr>cq_focus := focus\<rparr>"

definition with_base :: "snapshot_envelope option \<Rightarrow> context_request \<Rightarrow> context_request" where
  "with_base base r = r\<lparr>cq_base := base\<rparr>"

definition with_max_serialized_bytes :: "u64 option \<Rightarrow> context_request \<Rightarrow> context_request" where
  "with_max_serialized_bytes limit r = r\<lparr>cq_max_serialized_bytes := limit\<rparr>"

definition with_tokenizer :: "string \<Rightarrow> context_request \<Rightarrow> context_request" where
  "with_tokenizer name r = r\<lparr>cq_tokenizer := Some name\<rparr>"

definition with_delta_limits :: "delta_limits \<Rightarrow> context_request \<Rightarrow> context_request" where
  "with_delta_limits limits r = r\<lparr>cq_delta_limits := limits\<rparr>"

section \<open>Cache keys\<close>

record context_cache_key =
  xk_space_id :: opaque_id
  xk_page_id :: opaque_id
  xk_snapshot_version :: snapshot_version
  xk_mode :: context_mode
  xk_focus :: context_focus
  xk_budget :: "token_budget option"
  xk_tokenizer :: "string option"
  xk_topology_version :: topology_version
  xk_generation :: page_generation
  xk_frame_versions :: "(opaque_id, frame_version) btree"
  xk_base_snapshot_version :: "snapshot_version option"
  xk_base_hash :: "content_hash option"

definition focus_of :: "context_request \<Rightarrow> context_focus \<Rightarrow> context_focus" where
  "focus_of request focus = (if focus_is_empty (cq_focus request) then focus else cq_focus request)"

definition from_read_with_generation ::
  "snapshot_read \<Rightarrow> context_request \<Rightarrow> context_focus \<Rightarrow> page_generation \<Rightarrow> context_cache_key" where
  "from_read_with_generation read request focus generation =
     (let e = sr_envelope read in
      \<lparr>xk_space_id = sv_space_id e, xk_page_id = sv_page_id e, xk_snapshot_version = sv_snapshot_version e,
       xk_mode = cq_mode request, xk_focus = focus_of request focus, xk_budget = cq_token_budget request,
       xk_tokenizer = (case cq_tokenizer request of Some name \<Rightarrow> Some name | None \<Rightarrow> Some (tk_name unicode_scalar_tokenizer)),
       xk_topology_version = sv_topology_version e, xk_generation = generation, xk_frame_versions = sv_frame_versions e,
       xk_base_snapshot_version = map_option sv_snapshot_version (cq_base request),
       xk_base_hash = map_option sv_snapshot_hash (cq_base request)\<rparr>)"

definition from_read :: "snapshot_read \<Rightarrow> context_request \<Rightarrow> context_focus \<Rightarrow> context_cache_key" where
  "from_read read request focus =
     from_read_with_generation read request (focus_of request focus)
       \<lparr>pg_target_generation = 0, pg_navigation_generation = sv_navigation_generation (sr_envelope read),
        pg_document_generation = sv_document_generation (sr_envelope read)\<rparr>"

definition request_cache_key :: "context_request \<Rightarrow> snapshot_read \<Rightarrow> context_focus \<Rightarrow> context_cache_key" where
  "request_cache_key request read focus = from_read read request (focus_of request focus)"

definition request_cache_key_with_generation ::
  "context_request \<Rightarrow> snapshot_read \<Rightarrow> context_focus \<Rightarrow> page_generation \<Rightarrow> context_cache_key" where
  "request_cache_key_with_generation request read focus generation =
     from_read_with_generation read request (focus_of request focus) generation"

fun context_mode_rank :: "context_mode \<Rightarrow> nat" where
  "context_mode_rank CM_Auto = 0"
| "context_mode_rank CM_Full = 1"
| "context_mode_rank CM_Compact = 2"
| "context_mode_rank CM_Focus = 3"
| "context_mode_rank CM_Delta = 4"

definition context_budget_key :: "token_budget option \<Rightarrow> u64 option \<times> u64 option" where
  "context_budget_key budget =
     (case budget of None \<Rightarrow> (None, None) | Some b \<Rightarrow> (tb_serialized_limit b, tb_model_context_limit b))"

text \<open>The comparison is the lexicographic one of these components, in the order of the source.\<close>

definition context_key_rank where
  "context_key_rank k =
     (xk_space_id k, xk_page_id k, xk_snapshot_version k, context_mode_rank (xk_mode k),
      (cf_frame_id (xk_focus k), cf_element_key (xk_focus k)), context_budget_key (xk_budget k), xk_tokenizer k, xk_topology_version k,
      (pg_target_generation (xk_generation k), pg_navigation_generation (xk_generation k), pg_document_generation (xk_generation k)),
      xk_frame_versions k, xk_base_snapshot_version k, xk_base_hash k)"

datatype key_ordering = KO_Less | KO_Equal | KO_Greater

definition cache_key_cmp :: "context_cache_key \<Rightarrow> context_cache_key \<Rightarrow> key_ordering" where
  "cache_key_cmp a b =
     (if context_key_rank a < context_key_rank b then KO_Less
      else if context_key_rank a = context_key_rank b then KO_Equal else KO_Greater)"

section \<open>Outputs\<close>

datatype context_representation = CX_Metadata | CX_Full | CX_Compact | CX_Delta | CX_Focus | CX_Resync

record context_metadata =
  xm_space_id :: opaque_id
  xm_page_id :: opaque_id
  xm_snapshot_version :: snapshot_version
  xm_snapshot_hash :: content_hash
  xm_navigation_generation :: generation
  xm_document_generation :: generation
  xm_refs_epoch :: ref_epoch
  xm_cache_state :: cache_state
  xm_scan_performed :: bool
  xm_clean_cache :: bool
  xm_coverage :: snapshot_coverage
  xm_representation :: context_representation
  xm_redacted :: bool
  xm_truncated :: bool
  xm_resync_required :: bool
  xm_resync_reason :: "resync_reason option"

record token_metrics =
  tm_transport_bytes :: u64
  tm_utf8_bytes :: u64
  tm_serialized_tokens :: u64
  tm_model_context_tokens :: u64
  tm_tokenizer :: "string option"
  tm_budget :: "token_budget option"

record context_output =
  xo_metadata :: context_metadata
  xo_body :: "snapshot_body option"
  xo_metrics :: token_metrics

definition is_clean_cache_metadata_only :: "context_output \<Rightarrow> bool" where
  "is_clean_cache_metadata_only out \<longleftrightarrow> xm_clean_cache (xo_metadata out) \<and> xo_body out = None"

definition needs_resync :: "context_output \<Rightarrow> bool" where
  "needs_resync out \<longleftrightarrow> xm_resync_required (xo_metadata out)"

record metadata_state =
  ms_cache_state :: cache_state
  ms_scan_performed :: bool
  ms_clean_cache :: bool
  ms_coverage :: snapshot_coverage
  ms_representation :: context_representation
  ms_redacted :: bool
  ms_truncated :: bool
  ms_resync_required :: bool
  ms_resync_reason :: "resync_reason option"

definition make_metadata :: "snapshot_envelope \<Rightarrow> metadata_state \<Rightarrow> context_metadata" where
  "make_metadata e st =
     \<lparr>xm_space_id = sv_space_id e, xm_page_id = sv_page_id e, xm_snapshot_version = sv_snapshot_version e,
      xm_snapshot_hash = sv_snapshot_hash e, xm_navigation_generation = sv_navigation_generation e,
      xm_document_generation = sv_document_generation e, xm_refs_epoch = sv_refs_epoch e, xm_cache_state = ms_cache_state st,
      xm_scan_performed = ms_scan_performed st, xm_clean_cache = ms_clean_cache st, xm_coverage = ms_coverage st,
      xm_representation = ms_representation st, xm_redacted = ms_redacted st, xm_truncated = ms_truncated st,
      xm_resync_required = ms_resync_required st, xm_resync_reason = ms_resync_reason st\<rparr>"

section \<open>Measurement\<close>

text \<open>What \<^verbatim>\<open>serde_json\<close> writes, or the message of its error.\<close>

record context_json =
  cj_metadata :: "context_metadata \<Rightarrow> (string, utext) result"
  cj_body :: "snapshot_body \<Rightarrow> (string, utext) result"

fun json_result :: "(string, 'a) result \<Rightarrow> (core_error, 'a) result" where
  "json_result (Inl message) = Err (invalid_argument message)"
| "json_result (Inr a) = Ok a"

definition body_cost :: "context_json \<Rightarrow> snapshot_body \<Rightarrow> (core_error, nat) result" where
  "body_cost js body = and_then (json_result (cj_body js body)) (\<lambda>text. Ok (byte_len text))"

definition serialized_body :: "context_json \<Rightarrow> snapshot_body option \<Rightarrow> (core_error, utext option) result" where
  "serialized_body js body =
     (case body of None \<Rightarrow> Ok None | Some b \<Rightarrow> and_then (json_result (cj_body js b)) (\<lambda>text. Ok (Some text)))"

text \<open>The sum of the two lengths saturates at the width of \<^verbatim>\<open>usize\<close>.\<close>

definition serialized_context ::
  "context_json \<Rightarrow> context_metadata \<Rightarrow> snapshot_body option \<Rightarrow> (core_error, u64 \<times> utext) result" where
  "serialized_context js metadata body =
     and_then (json_result (cj_metadata js metadata)) (\<lambda>metadata.
     and_then (serialized_body js body) (\<lambda>body.
       let body_text = (case body of None \<Rightarrow> [] | Some text \<Rightarrow> text);
           bytes = byte_len metadata + byte_len body_text
       in Ok (if bytes < 2 ^ 64 then of_nat bytes else - 1, metadata @ body_text)))"

fun tokenizer_count :: "(tokenizer_error, u64) result \<Rightarrow> (core_error, u64) result" where
  "tokenizer_count (Inl error) = Err (invalid_argument (tokenizer_error_text error))"
| "tokenizer_count (Inr n) = Ok n"

definition measure_context ::
  "context_json \<Rightarrow> context_metadata \<Rightarrow> snapshot_body option \<Rightarrow> context_request \<Rightarrow> tokenizer \<Rightarrow> (core_error, token_metrics) result" where
  "measure_context js metadata body request tokenizer =
     and_then (serialized_context js metadata body) (\<lambda>(utf8_bytes, serialized).
     and_then (tokenizer_count (tk_count_tokens tokenizer serialized)) (\<lambda>serialized_tokens.
     and_then (tokenizer_count (tk_count_model_context_tokens tokenizer serialized)) (\<lambda>model_context_tokens.
     Ok \<lparr>tm_transport_bytes = utf8_bytes, tm_utf8_bytes = utf8_bytes, tm_serialized_tokens = serialized_tokens,
         tm_model_context_tokens = model_context_tokens, tm_tokenizer = Some (tk_name tokenizer),
         tm_budget = cq_token_budget request\<rparr>)))"

definition metrics_fit :: "context_request \<Rightarrow> token_metrics \<Rightarrow> bool" where
  "metrics_fit request metrics \<longleftrightarrow>
     \<not> is_some_and (cq_max_serialized_bytes request) (\<lambda>limit. tm_utf8_bytes metrics > limit)
     \<and> \<not> is_some_and (cq_token_budget request) (\<lambda>budget.
          is_some_and (tb_serialized_limit budget) (\<lambda>limit. tm_serialized_tokens metrics > limit))
     \<and> \<not> is_some_and (cq_token_budget request) (\<lambda>budget.
          is_some_and (tb_model_context_limit budget) (\<lambda>limit. tm_model_context_tokens metrics > limit))"

definition fits_budget ::
  "context_json \<Rightarrow> context_metadata \<Rightarrow> snapshot_body option \<Rightarrow> context_request \<Rightarrow> tokenizer \<Rightarrow> (core_error, bool) result" where
  "fits_budget js metadata body request tokenizer =
     and_then (measure_context js metadata body request tokenizer) (\<lambda>metrics. Ok (metrics_fit request metrics))"

text \<open>The loop that drops elements from the end.\<close>

function drop_until :: "context_json \<Rightarrow> nat \<Rightarrow> snapshot_element list \<Rightarrow> (core_error, snapshot_element list) result" where
  "drop_until js limit elements =
     (if elements = [] then Ok []
      else and_then (body_cost js (SB_Elements elements)) (\<lambda>bytes.
        if bytes \<le> limit then Ok elements else drop_until js limit (butlast elements)))"
  by auto
termination by (relation "measure (\<lambda>(js, limit, elements). length elements)") auto

declare drop_until.simps [simp del]

definition truncate_elements ::
  "context_json \<Rightarrow> context_request \<Rightarrow> snapshot_element list \<Rightarrow> (core_error, snapshot_element list) result" where
  "truncate_elements js request elements =
     (let limit = (case cq_max_serialized_bytes request of None \<Rightarrow> 0 | Some limit \<Rightarrow> limit) in
      if limit = 0 then Ok [] else drop_until js (unat limit) elements)"

section \<open>Redaction and compaction\<close>

definition redact_field :: "redaction_policy \<Rightarrow> utext \<Rightarrow> utext \<Rightarrow> utext" where
  "redact_field policy key val = (if is_sensitive policy key then rp_replacement policy else val)"

definition redact_element :: "redaction_policy \<Rightarrow> snapshot_element \<Rightarrow> snapshot_element" where
  "redact_element policy e = e\<lparr>se_attributes := bt_map (redact_field policy) (se_attributes e)\<rparr>"

definition redact_elements :: "redaction_policy \<Rightarrow> snapshot_element list \<Rightarrow> snapshot_element list \<times> bool" where
  "redact_elements policy elements =
     (map (redact_element policy) elements,
      list_ex (\<lambda>e. list_ex (\<lambda>(key, val). is_sensitive policy key \<and> val \<noteq> rp_replacement policy) (se_attributes e)) elements)"

definition compact_element :: "redaction_policy \<Rightarrow> snapshot_element \<Rightarrow> snapshot_element" where
  "compact_element policy e =
     (if se_kind e \<notin> {EK_Control, EK_Frame} then e\<lparr>se_text := None, se_attributes := []\<rparr>
      else e\<lparr>se_attributes := filter (\<lambda>(key, _).
          text_in (map lower_cp key) [''id'', ''name'', ''role'', ''type'', ''aria-label'', ''placeholder'', ''href'']
          \<or> is_sensitive policy key) (se_attributes e)\<rparr>)"

definition compact_elements :: "redaction_policy \<Rightarrow> snapshot_element list \<Rightarrow> snapshot_element list" where
  "compact_elements policy = map (compact_element policy)"

fun argument_result :: "(snapshot_validation_error, 'a) result \<Rightarrow> (core_error, 'a) result" where
  "argument_result (Inl error) = Err (invalid_argument (snapshot_error_text error))"
| "argument_result (Inr a) = Ok a"

fun delta_result :: "(delta_error, 'a) result \<Rightarrow> (core_error, 'a) result" where
  "delta_result (Inl error) = Err (delta_core_error error)"
| "delta_result (Inr a) = Ok a"

definition event_lagged :: "string \<Rightarrow> core_error" where
  "event_lagged message = core_error_new EC_EventLagged message"

definition message_too_large :: "string \<Rightarrow> core_error" where
  "message_too_large message = core_error_new EC_MessageTooLarge message"

definition redacted_base_document :: "redaction_policy \<Rightarrow> snapshot_envelope \<Rightarrow> (core_error, snapshot_document) result" where
  "redacted_base_document policy base =
     and_then (argument_result (snapshot_validate base)) (\<lambda>_.
     case sv_delta_or_elements base of
       SB_Elements elements \<Rightarrow>
         argument_result (document_new (sv_snapshot_version base) (fst (redact_elements policy elements)))
     | _ \<Rightarrow> Err (event_lagged ''delta base must be a complete element snapshot''))"

definition current_document ::
  "snapshot_envelope \<Rightarrow> snapshot_envelope option \<Rightarrow> redaction_policy \<Rightarrow> delta_limits \<Rightarrow> (core_error, snapshot_document) result" where
  "current_document envelope base policy limits =
     (case sv_delta_or_elements envelope of
        SB_Elements elements \<Rightarrow>
          argument_result (document_new (sv_snapshot_version envelope) (fst (redact_elements policy elements)))
      | SB_Delta delta \<Rightarrow>
          (case base of
             None \<Rightarrow> Err (event_lagged ''delta context requires a retained base'')
           | Some base \<Rightarrow>
               and_then (redacted_base_document policy base) (\<lambda>document. delta_result (delta_apply delta document limits)))
      | SB_Resync reason \<Rightarrow> Err (event_lagged (''snapshot requires resync: '' @ resync_reason_debug reason)))"

text \<open>
  The elements to show. \<^verbatim>\<open>redact_elements_from_envelope\<close> is called for element bodies only, so its error
  branch is not reached; for a marker the builder has returned before.
\<close>

definition shown_elements ::
  "redaction_policy \<Rightarrow> snapshot_envelope \<Rightarrow> snapshot_document \<Rightarrow> snapshot_element list \<times> bool" where
  "shown_elements policy envelope document =
     (case sv_delta_or_elements envelope of
        SB_Elements elements \<Rightarrow> redact_elements policy elements
      | SB_Delta _ \<Rightarrow> redact_elements policy (sd_elements document)
      | SB_Resync _ \<Rightarrow> ([], False))"

section \<open>Focus\<close>

type_synonym element_index = "(opaque_id, snapshot_element) btree"

definition by_key :: "snapshot_element list \<Rightarrow> element_index" where
  "by_key elements = fold (\<lambda>e index. bt_insert (se_key e) e index) elements []"

lemma walk_shrinks:
  "key \<notin> keys \<Longrightarrow> bt_get index key = Some e \<Longrightarrow> card (bt_keys index - insert key keys) < card (bt_keys index - keys)"
  by (rule psubset_card_mono) (auto simp: bt_keys_set dest: bt_get_in, force dest: bt_get_in)

text \<open>The walk from a key to the root, with the keys seen so far.\<close>

function ancestor_walk :: "element_index \<Rightarrow> opaque_id set \<Rightarrow> opaque_id option \<Rightarrow> (core_error, opaque_id set) result" where
  "ancestor_walk index keys None = Ok keys"
| "ancestor_walk index keys (Some key) =
     (if key \<in> keys then Err (stale_ref ''focused snapshot contains a cyclic ancestor chain'')
      else case bt_get index key of
        None \<Rightarrow> Err (stale_ref ''focused snapshot contains a missing ancestor'')
      | Some e \<Rightarrow> ancestor_walk index (insert key keys) (se_parent e))"
  by pat_completeness auto
termination
  by (relation "measure (\<lambda>(index, keys, current). card (bt_keys index - keys))") (auto intro: walk_shrinks)

definition ancestor_keys :: "element_index \<Rightarrow> opaque_id \<Rightarrow> (core_error, opaque_id set) result" where
  "ancestor_keys index target = ancestor_walk index {} (Some target)"

function descendant_walk :: "element_index \<Rightarrow> opaque_id \<Rightarrow> opaque_id set \<Rightarrow> opaque_id option \<Rightarrow> (core_error, bool) result" where
  "descendant_walk index target visited None = Ok False"
| "descendant_walk index target visited (Some key) =
     (if key = target then Ok True
      else if key \<in> visited then Err (stale_ref ''focused snapshot contains a cyclic parent chain'')
      else case bt_get index key of
        None \<Rightarrow> Ok False
      | Some parent \<Rightarrow> descendant_walk index target (insert key visited) (se_parent parent))"
  by pat_completeness auto
termination
  by (relation "measure (\<lambda>(index, target, visited, current). card (bt_keys index - visited))") (auto intro: walk_shrinks)

definition is_descendant_of :: "element_index \<Rightarrow> opaque_id \<Rightarrow> opaque_id \<Rightarrow> (core_error, bool) result" where
  "is_descendant_of index element_key target =
     (if element_key = target then Ok True
      else case bt_get index element_key of
        None \<Rightarrow> Ok False
      | Some e \<Rightarrow> descendant_walk index target {} (se_parent e))"

fun descendant_keys ::
  "element_index \<Rightarrow> opaque_id \<Rightarrow> snapshot_element list \<Rightarrow> opaque_id set \<Rightarrow> (core_error, opaque_id set) result" where
  "descendant_keys index target [] keys = Ok keys"
| "descendant_keys index target (e # es) keys =
     and_then (is_descendant_of index (se_key e) target) (\<lambda>below.
       descendant_keys index target es (if below then insert (se_key e) keys else keys))"

definition subtree_keys :: "snapshot_element list \<Rightarrow> element_index \<Rightarrow> opaque_id \<Rightarrow> (core_error, opaque_id set) result" where
  "subtree_keys elements index target =
     and_then (ancestor_keys index target) (\<lambda>keys. descendant_keys index target elements keys)"

definition has_frame_marker :: "snapshot_element list \<Rightarrow> bool" where
  "has_frame_marker = list_ex (\<lambda>e. se_kind e = EK_Frame
     \<and> (bt_contains (se_attributes e) (code_points ''frame_id'') \<or> bt_contains (se_attributes e) (code_points ''logical_frame_id'')))"

definition marks_frame :: "opaque_id \<Rightarrow> snapshot_element \<Rightarrow> bool" where
  "marks_frame frame_id e \<longleftrightarrow> se_kind e = EK_Frame
     \<and> list_ex (\<lambda>name. bt_get (se_attributes e) (code_points name) = Some (code_points frame_id)) [''frame_id'', ''logical_frame_id'']"

definition frame_scope_keys ::
  "snapshot_element list \<Rightarrow> element_index \<Rightarrow> opaque_id \<Rightarrow> nat \<Rightarrow> (core_error, opaque_id set) result" where
  "frame_scope_keys elements index frame_id frame_count =
     (if frame_count = 0 then Err (stale_ref ''focused logical frame is absent from the snapshot provenance'')
      else case filter (marks_frame frame_id) elements of
        [marker] \<Rightarrow> subtree_keys elements index (se_key marker)
      | [] \<Rightarrow>
          if has_frame_marker elements then Err (stale_ref ''focused logical frame has no current snapshot mapping'')
          else if frame_count = 1 then
            and_then (try_each (\<lambda>e. and_then (ancestor_keys index (se_key e)) (\<lambda>_. Ok ())) elements)
              (\<lambda>_. Ok (set (map se_key elements)))
          else Err (stale_ref ''focused logical frame cannot be mapped to snapshot elements'')
      | _ \<Rightarrow> Err (stale_ref ''focused logical frame mapping is ambiguous''))"

definition focus_frame_scope ::
  "snapshot_element list \<Rightarrow> context_focus \<Rightarrow> (opaque_id, frame_version) btree \<Rightarrow> (core_error, opaque_id set option) result" where
  "focus_frame_scope elements focus frame_versions =
     (case cf_frame_id focus of
        None \<Rightarrow> Ok None
      | Some frame_id \<Rightarrow>
          if \<not> bt_contains frame_versions frame_id then
            Err (stale_ref (''focused logical frame '' @ frame_id @ '' is not present in the current snapshot''))
          else and_then (frame_scope_keys elements (by_key elements) frame_id (length frame_versions)) (\<lambda>keys. Ok (Some keys)))"

definition focus_keys ::
  "snapshot_element list \<Rightarrow> context_focus \<Rightarrow> opaque_id set option \<Rightarrow> (core_error, opaque_id set) result" where
  "focus_keys elements focus scope =
     (case cf_element_key focus of
        None \<Rightarrow> ok_or scope (invalid_argument ''focused context requires a frame_id or element_key target'')
      | Some element_key \<Rightarrow>
          if \<not> bt_contains (by_key elements) element_key then
            Err (stale_ref (''focused element '' @ element_key @ '' is not present in the current snapshot''))
          else if is_some_and scope (\<lambda>keys. element_key \<notin> keys) then
            Err (stale_ref ''focused element is not in the requested logical frame'')
          else subtree_keys elements (by_key elements) element_key)"

definition focus_elements ::
  "snapshot_element list \<Rightarrow> context_focus \<Rightarrow> (opaque_id, frame_version) btree \<Rightarrow> (core_error, snapshot_element list) result" where
  "focus_elements elements focus frame_versions =
     (if focus_is_empty focus then Err (invalid_argument ''focused context requires a logical target'')
      else
        and_then (focus_frame_scope elements focus frame_versions) (\<lambda>scope.
        and_then (focus_keys elements focus scope) (\<lambda>keys.
        Ok (filter (\<lambda>e. se_key e \<in> keys) elements))))"

section \<open>Deltas against a base\<close>

definition base_resync_reason :: "snapshot_envelope \<Rightarrow> snapshot_envelope \<Rightarrow> delta_limits \<Rightarrow> resync_reason option" where
  "base_resync_reason current base limits =
     (if sv_space_id current \<noteq> sv_space_id base \<or> sv_page_id current \<noteq> sv_page_id base then Some RR_BaseMissing
      else if isl (snapshot_validate base) \<or> sv_cache_state base \<in> {CA_Stale, CA_Invalidated} \<or> sv_resync_required base
          \<or> sv_truncated base \<or> \<not> sv_coherent base \<or> sv_coverage base \<noteq> SC_Complete then
        Some (case sv_resync_reason base of Some reason \<Rightarrow> reason | None \<Rightarrow> RR_Incoherent)
      else if sv_mode base \<noteq> SM_Full then Some (if sv_mode base = SM_Delta then RR_UnsupportedDelta else RR_Incoherent)
      else if sv_navigation_generation current \<noteq> sv_navigation_generation base
          \<or> sv_document_generation current \<noteq> sv_document_generation base then Some RR_NavigationChanged
      else if sv_topology_version current \<noteq> sv_topology_version base \<or> sv_frame_versions current \<noteq> sv_frame_versions base then
        Some RR_Incoherent
      else if sv_resync_required current \<or> sv_truncated current \<or> \<not> sv_coherent current then
        Some (case sv_resync_reason current of Some reason \<Rightarrow> reason | None \<Rightarrow> RR_Incoherent)
      else if sv_snapshot_version current \<le> sv_snapshot_version base then Some RR_BaseMissing
      else if unat (sv_snapshot_version current) - unat (sv_snapshot_version base) > unat (dl_max_chain_depth limits) then
        Some RR_ChainTooLong
      else if dl_max_chain_depth limits = 0
          \<or> (case sv_delta_or_elements current of SB_Delta delta \<Rightarrow> sx_chain_depth delta \<ge> dl_max_chain_depth limits | _ \<Rightarrow> False) then
        Some RR_ChainTooLong
      else None)"

definition delta_failure_reason_for :: "core_error \<Rightarrow> resync_reason" where
  "delta_failure_reason_for error =
     (case ce_code error of
        EC_MessageTooLarge \<Rightarrow> RR_ChainTooLong
      | EC_StaleRef \<Rightarrow> RR_BaseHashMismatch
      | _ \<Rightarrow> RR_Incoherent)"

definition base_matches :: "snapshot_envelope \<Rightarrow> snapshot_envelope \<Rightarrow> snapshot_document \<Rightarrow> bool" where
  "base_matches current base_envelope base \<longleftrightarrow>
     sv_space_id base_envelope = sv_space_id current \<and> sv_page_id base_envelope = sv_page_id current
     \<and> sv_snapshot_hash base_envelope = sd_snapshot_hash base
     \<and> sv_navigation_generation base_envelope = sv_navigation_generation current
     \<and> sv_document_generation base_envelope = sv_document_generation current
     \<and> sv_topology_version base_envelope = sv_topology_version current
     \<and> sv_frame_versions base_envelope = sv_frame_versions current
     \<and> sv_snapshot_version base_envelope < sv_snapshot_version current"

definition removed_operations :: "element_index \<Rightarrow> element_index \<Rightarrow> delta_operation list" where
  "removed_operations base_by_key result_by_key =
     map DO_Remove (filter (\<lambda>key. \<not> bt_contains result_by_key key) (map fst base_by_key))"

definition changed_operation :: "element_index \<Rightarrow> opaque_id \<times> snapshot_element \<Rightarrow> delta_operation option" where
  "changed_operation base_by_key = (\<lambda>(key, e).
     case bt_get base_by_key key of
       None \<Rightarrow> Some (DO_Upsert key e)
     | Some previous \<Rightarrow>
         if previous \<noteq> e then
           Some (if previous\<lparr>se_order := se_order e\<rparr> = e then DO_Move key (se_order e) None else DO_Replace key e)
         else None)"

definition reset_operations ::
  "(opaque_id, frame_version) btree \<Rightarrow> (opaque_id, frame_version) btree \<Rightarrow> delta_operation list" where
  "reset_operations base current =
     map (\<lambda>(frame_id, version). DO_FrameReset frame_id version)
       (filter (\<lambda>(frame_id, version). bt_get base frame_id \<noteq> Some version) current)"

fun delta_sort_key :: "delta_operation \<Rightarrow> nat \<times> string" where
  "delta_sort_key (DO_FrameReset frame_id _) = (0, frame_id)"
| "delta_sort_key (DO_Remove key) = (1, key)"
| "delta_sort_key (DO_Replace key _) = (2, key)"
| "delta_sort_key (DO_Upsert key _) = (3, key)"
| "delta_sort_key (DO_Move key _ _) = (4, key)"

definition current_chain_depth :: "snapshot_envelope \<Rightarrow> u16 option" where
  "current_chain_depth envelope = (case sv_delta_or_elements envelope of SB_Delta delta \<Rightarrow> Some (sx_chain_depth delta) | _ \<Rightarrow> None)"

definition base_chain_depth :: "snapshot_document \<Rightarrow> u16" where
  "base_chain_depth base = 0"

definition next_chain_depth :: "snapshot_envelope \<Rightarrow> snapshot_document \<Rightarrow> u16" where
  "next_chain_depth current base =
     (let depth = (case current_chain_depth current of Some depth \<Rightarrow> depth | None \<Rightarrow> base_chain_depth base)
      in if depth = - 1 then - 1 else depth + 1)"

definition delta_operations ::
  "snapshot_envelope \<Rightarrow> snapshot_envelope \<Rightarrow> snapshot_document \<Rightarrow> snapshot_document \<Rightarrow> delta_operation list" where
  "delta_operations current base_envelope base result =
     (let base_by_key = by_key (sd_elements base); result_by_key = by_key (sd_elements result)
      in sort_key delta_sort_key
           (removed_operations base_by_key result_by_key @ List.map_filter (changed_operation base_by_key) result_by_key
            @ reset_operations (sv_frame_versions base_envelope) (sv_frame_versions current)))"

definition build_delta_body ::
  "snapshot_envelope \<Rightarrow> snapshot_envelope \<Rightarrow> snapshot_document \<Rightarrow> snapshot_document \<Rightarrow> delta_limits \<Rightarrow> (core_error, snapshot_body) result" where
  "build_delta_body current base_envelope base result limits =
     (let delta = \<lparr>sx_base_snapshot_version = sd_snapshot_version base, sx_base_hash = sd_snapshot_hash base,
            sx_result_snapshot_version = sd_snapshot_version result, sx_result_hash = sd_snapshot_hash result,
            sx_delta_sequence = (case sv_delta_sequence current of Some sequence \<Rightarrow> sequence | None \<Rightarrow> 1),
            sx_chain_depth = next_chain_depth current base,
            sx_operations = delta_operations current base_envelope base result\<rparr>
      in and_then (delta_result (delta_validate delta limits)) (\<lambda>_. Ok (SB_Delta delta)))"

section \<open>Selection\<close>

record body_candidates =
  bc_full :: snapshot_body
  bc_compact :: snapshot_body
  bc_delta :: "snapshot_body option"
  bc_full_cost :: nat
  bc_compact_cost :: nat
  bc_delta_cost :: "nat option"

type_synonym candidate = "context_representation \<times> snapshot_body \<times> nat"

definition coverage_allowed :: "snapshot_coverage \<Rightarrow> snapshot_coverage \<Rightarrow> bool" where
  "coverage_allowed actual minimum \<longleftrightarrow> minimum = SC_Partial \<or> actual = SC_Complete"

fun representation_rank :: "context_representation \<Rightarrow> nat" where
  "representation_rank CX_Delta = 0"
| "representation_rank CX_Compact = 1"
| "representation_rank CX_Focus = 2"
| "representation_rank CX_Full = 3"
| "representation_rank CX_Metadata = 4"
| "representation_rank CX_Resync = 4"

definition body_safe :: "snapshot_envelope \<Rightarrow> bool" where
  "body_safe e \<longleftrightarrow> sv_coherent e \<and> \<not> sv_truncated e \<and> \<not> sv_resync_required e"

definition envelope_complete :: "snapshot_envelope \<Rightarrow> bool" where
  "envelope_complete e \<longleftrightarrow> body_safe e \<and> sv_coverage e = SC_Complete"

definition candidate_list :: "context_request \<Rightarrow> snapshot_envelope \<Rightarrow> body_candidates \<Rightarrow> candidate list" where
  "candidate_list request e c =
     (let complete = envelope_complete e in
      if body_safe e \<and> coverage_allowed (if complete then SC_Complete else SC_Partial) (cq_minimum_coverage request) then
        [(CX_Full, bc_full c, bc_full_cost c), (CX_Compact, bc_compact c, bc_compact_cost c)]
        @ (case (bc_delta c, bc_delta_cost c) of
             (Some delta, Some cost) \<Rightarrow> if complete then [(CX_Delta, delta, cost)] else []
           | _ \<Rightarrow> [])
      else [])"

definition representation_of :: "context_representation \<Rightarrow> candidate list \<Rightarrow> candidate option" where
  "representation_of r = List.find (\<lambda>c. fst c = r)"

text \<open>\<^verbatim>\<open>min_by\<close> keeps the first of the least.\<close>

definition candidate_rank :: "candidate \<Rightarrow> nat \<times> nat" where
  "candidate_rank = (\<lambda>(r, body, cost). (cost, representation_rank r))"

fun cheapest :: "candidate list \<Rightarrow> candidate option" where
  "cheapest [] = None"
| "cheapest (c # cs) =
     (case cheapest cs of
        None \<Rightarrow> Some c
      | Some d \<Rightarrow> Some (if candidate_rank c \<le> candidate_rank d then c else d))"

type_synonym selected_body = "context_representation \<times> snapshot_body \<times> snapshot_coverage"

definition select_body :: "context_request \<Rightarrow> snapshot_envelope \<Rightarrow> body_candidates \<Rightarrow> selected_body option" where
  "select_body request e c =
     (let candidates = candidate_list request e c; keep = map_option (\<lambda>(r, body, cost). (r, body, sv_coverage e)) in
      case cq_mode request of
        CM_Full \<Rightarrow> keep (representation_of CX_Full candidates)
      | CM_Compact \<Rightarrow> keep (representation_of CX_Compact candidates)
      | CM_Focus \<Rightarrow> map_option (\<lambda>(r, body, cost). (CX_Focus, body, sv_coverage e)) (representation_of CX_Full candidates)
      | CM_Delta \<Rightarrow>
          if bc_delta_cost c = None then None
          else map_option (\<lambda>(r, body, cost). (r, body, SC_Complete)) (representation_of CX_Delta candidates)
      | CM_Auto \<Rightarrow> keep (cheapest candidates))"

section \<open>The builder\<close>

text \<open>The message also quotes the two names.\<close>

definition validate_tokenizer :: "context_request \<Rightarrow> tokenizer \<Rightarrow> (core_error, unit) result" where
  "validate_tokenizer request tokenizer =
     reject_if (is_some_and (cq_tokenizer request) (\<lambda>requested. requested \<noteq> tk_name tokenizer))
       (invalid_argument ''requested tokenizer does not match supplied tokenizer'')"

definition focus_requested :: "context_request \<Rightarrow> bool" where
  "focus_requested request \<longleftrightarrow> cq_mode request = CM_Focus \<or> \<not> focus_is_empty (cq_focus request)"

definition validate_focus_request_shape :: "context_request \<Rightarrow> (core_error, unit) result" where
  "validate_focus_request_shape request =
     and_then (reject_if (cq_mode request = CM_Focus \<and> focus_is_empty (cq_focus request))
       (invalid_argument ''focus context requires a frame_id or element_key target'')) (\<lambda>_.
     reject_if (focus_requested request \<and> focus_is_empty (cq_focus request))
       (invalid_argument ''focused context requires a non-empty logical target''))"

definition validate_focus_provenance :: "snapshot_envelope \<Rightarrow> cache_state \<Rightarrow> (core_error, unit) result" where
  "validate_focus_provenance e cache_state =
     and_then (reject_if (cache_state \<in> {CA_Stale, CA_Invalidated} \<or> sv_cache_state e \<in> {CA_Stale, CA_Invalidated})
       (stale_ref ''focused context requires a current snapshot cache entry'')) (\<lambda>_.
     reject_if (\<not> sv_coherent e \<or> sv_truncated e \<or> sv_resync_required e \<or> sv_coverage e \<noteq> SC_Complete)
       (stale_ref ''focused context requires a complete coherent snapshot''))"

text \<open>What the builder knows besides the request: the envelope, its freshness, and its two parameters.\<close>

record context_source =
  xs_envelope :: snapshot_envelope
  xs_cache_state :: cache_state
  xs_scan_performed :: bool
  xs_tokenizer :: tokenizer
  xs_json :: context_json

definition measured_output ::
  "context_source \<Rightarrow> context_request \<Rightarrow> context_metadata \<Rightarrow> snapshot_body option \<Rightarrow> (core_error, context_output) result" where
  "measured_output src request metadata body =
     and_then (measure_context (xs_json src) metadata body request (xs_tokenizer src)) (\<lambda>metrics.
     Ok \<lparr>xo_metadata = metadata, xo_body = body, xo_metrics = metrics\<rparr>)"

definition bounded_output ::
  "string \<Rightarrow> context_source \<Rightarrow> context_request \<Rightarrow> context_metadata \<Rightarrow> snapshot_body option \<Rightarrow> (core_error, context_output) result" where
  "bounded_output message src request metadata body =
     and_then (fits_budget (xs_json src) metadata body request (xs_tokenizer src)) (\<lambda>fits.
     and_then (reject_if (\<not> fits) (message_too_large message)) (\<lambda>_.
     measured_output src request metadata body))"

definition metadata_only :: "context_source \<Rightarrow> context_request \<Rightarrow> (core_error, context_output) result" where
  "metadata_only src request =
     (let e = xs_envelope src in
      bounded_output ''clean-cache context metadata exceeds its serialized budget'' src request
        (make_metadata e \<lparr>ms_cache_state = xs_cache_state src, ms_scan_performed = xs_scan_performed src, ms_clean_cache = True,
           ms_coverage = sv_coverage e, ms_representation = CX_Metadata, ms_redacted = False, ms_truncated = False,
           ms_resync_required = sv_resync_required e, ms_resync_reason = sv_resync_reason e\<rparr>)
        None)"

definition resync_output :: "context_source \<Rightarrow> context_request \<Rightarrow> resync_reason \<Rightarrow> (core_error, context_output) result" where
  "resync_output src request reason =
     bounded_output ''resynchronization context marker exceeds its serialized budget'' src request
       (make_metadata (xs_envelope src) \<lparr>ms_cache_state = xs_cache_state src, ms_scan_performed = xs_scan_performed src,
          ms_clean_cache = False, ms_coverage = SC_Partial, ms_representation = CX_Resync, ms_redacted = False,
          ms_truncated = False, ms_resync_required = True, ms_resync_reason = Some reason\<rparr>)
       (Some (SB_Resync reason))"

definition resync_or :: "context_source \<Rightarrow> context_request \<Rightarrow> resync_reason \<Rightarrow> core_error \<Rightarrow> (core_error, context_output) result" where
  "resync_or src request reason error = (if cq_allow_resync request then resync_output src request reason else Err error)"

definition clean_read :: "context_source \<Rightarrow> context_request \<Rightarrow> bool" where
  "clean_read src request \<longleftrightarrow> xs_cache_state src = CA_Cached \<and> \<not> xs_scan_performed src
     \<and> cq_clean_cache_metadata_only request \<and> cq_mode request \<noteq> CM_Delta"

definition clean_output :: "context_source \<Rightarrow> context_request \<Rightarrow> (core_error, context_output) result" where
  "clean_output src request =
     (if \<not> focus_requested request then metadata_only src request
      else case sv_delta_or_elements (xs_envelope src) of
        SB_Elements elements \<Rightarrow>
          and_then (focus_elements (fst (redact_elements (cq_redaction request) elements)) (cq_focus request)
            (sv_frame_versions (xs_envelope src))) (\<lambda>_. metadata_only src request)
      | _ \<Rightarrow> Err (stale_ref ''focused context requires a complete retained snapshot body''))"

text \<open>The delta against the base of the request, and why there is none.\<close>

definition delta_candidate ::
  "snapshot_envelope \<Rightarrow> context_request \<Rightarrow> snapshot_document \<Rightarrow> snapshot_body option \<times> resync_reason option" where
  "delta_candidate e request current =
     (case cq_base request of
        None \<Rightarrow> (None, None)
      | Some base_envelope \<Rightarrow>
          (case redacted_base_document (cq_redaction request) base_envelope of
             Inl _ \<Rightarrow> (None, Some RR_BaseMissing)
           | Inr base \<Rightarrow>
               if \<not> base_matches e base_envelope base then (None, Some RR_Incoherent)
               else (case build_delta_body e base_envelope base current (cq_delta_limits request) of
                  Inl error \<Rightarrow> (None, Some (delta_failure_reason_for error))
                | Inr body \<Rightarrow> (Some body, None))))"

definition body_costs ::
  "context_json \<Rightarrow> snapshot_body \<Rightarrow> snapshot_body \<Rightarrow> snapshot_body option \<Rightarrow> (core_error, body_candidates) result" where
  "body_costs js full compact delta =
     and_then (body_cost js full) (\<lambda>full_cost.
     and_then (body_cost js compact) (\<lambda>compact_cost.
     and_then (case delta of None \<Rightarrow> Ok None | Some body \<Rightarrow> and_then (body_cost js body) (\<lambda>cost. Ok (Some cost))) (\<lambda>delta_cost.
     Ok \<lparr>bc_full = full, bc_compact = compact, bc_delta = delta, bc_full_cost = full_cost, bc_compact_cost = compact_cost,
         bc_delta_cost = delta_cost\<rparr>)))"

text \<open>
  The end of the builder, with the selected body: truncation when it does not fit, the final check, the metrics. A
  selected body is never absent, so the branch for a delta without a body is not taken.
\<close>

definition selected_metadata :: "context_source \<Rightarrow> selected_body \<Rightarrow> bool \<Rightarrow> context_metadata" where
  "selected_metadata src = (\<lambda>(representation, body, coverage) redacted.
     let e = xs_envelope src; partial_delta = (representation = CX_Delta \<and> sv_coverage e \<noteq> SC_Complete) in
     make_metadata e \<lparr>ms_cache_state = xs_cache_state src, ms_scan_performed = xs_scan_performed src, ms_clean_cache = False,
       ms_coverage = (if partial_delta then SC_Partial else coverage), ms_representation = representation, ms_redacted = redacted,
       ms_truncated = False, ms_resync_required = sv_resync_required e \<or> partial_delta,
       ms_resync_reason = (if partial_delta then Some RR_Incoherent else sv_resync_reason e)\<rparr>)"

definition truncate_output ::
  "context_source \<Rightarrow> context_request \<Rightarrow> context_metadata \<Rightarrow> snapshot_body \<Rightarrow> (core_error, context_metadata \<times> snapshot_body) result" where
  "truncate_output src request metadata body =
     (case body of
        SB_Elements elements \<Rightarrow>
          and_then (truncate_elements (xs_json src) request elements) (\<lambda>kept.
          Ok (if length kept < length elements
              then metadata\<lparr>xm_coverage := SC_Partial, xm_truncated := True, xm_resync_required := True,
                xm_resync_reason := Some RR_CostExceeded\<rparr> else metadata, SB_Elements kept))
      | _ \<Rightarrow> Ok (metadata, body))"

definition finish_output ::
  "context_source \<Rightarrow> context_request \<Rightarrow> context_metadata \<Rightarrow> snapshot_body \<Rightarrow> (core_error, context_output) result" where
  "finish_output src request metadata body =
     (let fits = (\<lambda>metadata body. fits_budget (xs_json src) metadata (Some body) request (xs_tokenizer src)) in
      and_then (fits metadata body) (\<lambda>whole.
      and_then (if whole then Ok (metadata, body) else truncate_output src request metadata body) (\<lambda>(metadata, body).
      and_then (fits metadata body) (\<lambda>enough.
      if \<not> enough then
        resync_or src request RR_CostExceeded (message_too_large ''context output exceeds its serialized budget'')
      else measured_output src request metadata (Some body)))))"

definition body_output :: "context_source \<Rightarrow> context_request \<Rightarrow> snapshot_document \<Rightarrow> (core_error, context_output) result" where
  "body_output src request current =
     (let e = xs_envelope src; policy = cq_redaction request; (elements, redacted) = shown_elements policy e current in
      and_then (if focus_requested request then focus_elements elements (cq_focus request) (sv_frame_versions e) else Ok elements)
        (\<lambda>elements.
      let (delta, failure) = delta_candidate e request current in
      if cq_mode request = CM_Delta \<and> delta = None then
        (let reason = (case failure of None \<Rightarrow> RR_BaseMissing | Some reason \<Rightarrow> reason)
         in resync_or src request reason (event_lagged (''delta construction requires resync: '' @ resync_reason_debug reason)))
      else
        and_then (body_costs (xs_json src) (SB_Elements elements) (SB_Elements (compact_elements policy elements)) delta) (\<lambda>candidates.
        case select_body request e candidates of
          None \<Rightarrow>
            resync_or src request
              (if \<not> sv_coherent e \<or> sv_truncated e \<or> sv_resync_required e then RR_Incoherent else RR_CostExceeded)
              (message_too_large ''no context representation fits the requested budget'')
        | Some selected \<Rightarrow>
            finish_output src request (selected_metadata src selected redacted) (fst (snd selected)))))"

definition base_failure :: "snapshot_envelope \<Rightarrow> context_request \<Rightarrow> (resync_reason \<times> core_error) option" where
  "base_failure e request =
     (if cq_mode request \<noteq> CM_Delta then None
      else case cq_base request of
        None \<Rightarrow> Some (RR_BaseMissing, event_lagged ''delta context requires a retained base'')
      | Some base \<Rightarrow>
          map_option (\<lambda>reason. (reason, event_lagged (''snapshot base requires resync: '' @ resync_reason_debug reason)))
            (base_resync_reason e base (cq_delta_limits request)))"

definition build_envelope_with_tokenizer :: "context_source \<Rightarrow> context_request \<Rightarrow> (core_error, context_output) result" where
  "build_envelope_with_tokenizer src request =
     (let e = xs_envelope src in
      and_then (argument_result (snapshot_validate e)) (\<lambda>_.
      and_then (validate_tokenizer request (xs_tokenizer src)) (\<lambda>_.
      and_then (validate_focus_request_shape request) (\<lambda>_.
      and_then (if focus_requested request then validate_focus_provenance e (xs_cache_state src) else Ok ()) (\<lambda>_.
      if clean_read src request then clean_output src request
      else case base_failure e request of
        Some (reason, error) \<Rightarrow> resync_or src request reason error
      | None \<Rightarrow>
          (case current_document e (cq_base request) (cq_redaction request) (cq_delta_limits request) of
             Inl error \<Rightarrow>
               resync_or src request (case sv_resync_reason e of Some reason \<Rightarrow> reason | None \<Rightarrow> RR_BaseMissing) error
           | Inr current \<Rightarrow> body_output src request current))))))"

definition build_with_tokenizer ::
  "context_json \<Rightarrow> snapshot_read \<Rightarrow> context_request \<Rightarrow> tokenizer \<Rightarrow> (core_error, context_output) result" where
  "build_with_tokenizer js read request tokenizer =
     build_envelope_with_tokenizer
       \<lparr>xs_envelope = sr_envelope read, xs_cache_state = sr_cache_state read, xs_scan_performed = sr_scan_performed read,
        xs_tokenizer = tokenizer, xs_json = js\<rparr> request"

definition build_context :: "context_json \<Rightarrow> snapshot_read \<Rightarrow> context_request \<Rightarrow> (core_error, context_output) result" where
  "build_context js read request = build_with_tokenizer js read request unicode_scalar_tokenizer"

definition build_snapshot_with_tokenizer ::
  "context_json \<Rightarrow> snapshot_envelope \<Rightarrow> context_request \<Rightarrow> tokenizer \<Rightarrow> (core_error, context_output) result" where
  "build_snapshot_with_tokenizer js envelope request tokenizer =
     build_envelope_with_tokenizer
       \<lparr>xs_envelope = envelope, xs_cache_state = CA_Fresh, xs_scan_performed = True, xs_tokenizer = tokenizer, xs_json = js\<rparr> request"

definition build_snapshot :: "context_json \<Rightarrow> snapshot_envelope \<Rightarrow> context_request \<Rightarrow> (core_error, context_output) result" where
  "build_snapshot js envelope request = build_snapshot_with_tokenizer js envelope request unicode_scalar_tokenizer"

definition build_envelope ::
  "context_json \<Rightarrow> snapshot_envelope \<Rightarrow> cache_state \<Rightarrow> bool \<Rightarrow> context_request \<Rightarrow> (core_error, context_output) result" where
  "build_envelope js envelope cache_state scan_performed request =
     build_envelope_with_tokenizer
       \<lparr>xs_envelope = envelope, xs_cache_state = cache_state, xs_scan_performed = scan_performed,
        xs_tokenizer = unicode_scalar_tokenizer, xs_json = js\<rparr> request"

end
