(* ===== verification/Context_Outputs.thy ===== *)
theory Context_Outputs
  imports Context
begin

text \<open>
  What the context builder promises: a delta can be replayed, the budget is kept, sensitive attributes are not shown, an output is whole
  or marked, and a focused context is a subtree with its path to the root.
\<close>

section \<open>A delta reproduces the current document\<close>

lemma by_key_fold:
  "bt_wf index \<Longrightarrow> distinct (keys_of es) \<Longrightarrow>
   bt_wf (fold (\<lambda>e index. bt_insert (se_key e) e index) es index)
   \<and> bt_get (fold (\<lambda>e index. bt_insert (se_key e) e index) es index) k = (case elem_map es k of None \<Rightarrow> bt_get index k | Some e \<Rightarrow> Some e)"
proof (induction es arbitrary: index)
  case (Cons e es)
  have "elem_map es (se_key e) = None" using Cons.prems(2) by (simp add: elem_map_None)
  then show ?case using Cons.IH [OF bt_wf_insert [OF Cons.prems(1)], of "se_key e" e] Cons.prems
    by (auto simp: bt_get_insert split: option.splits)
qed simp

lemma by_key_wf: "bt_wf (by_key es)"
proof -
  have "bt_wf index \<Longrightarrow> bt_wf (fold (\<lambda>e index. bt_insert (se_key e) e index) es index)" for index
    by (induction es arbitrary: index) (auto simp: bt_wf_insert)
  then show ?thesis by (simp add: by_key_def)
qed

lemma by_key_get: "distinct (keys_of es) \<Longrightarrow> bt_get (by_key es) k = elem_map es k"
  using by_key_fold [of "[]" es k] by (simp add: by_key_def split: option.splits)

lemma by_key_entry: "distinct (keys_of es) \<Longrightarrow> (k, e) \<in> set (by_key es) \<longleftrightarrow> elem_map es k = Some e"
  using by_key_get [of es k] by_key_wf [of es] bt_in_get bt_get_in by metis

lemma by_key_key: "distinct (keys_of es) \<Longrightarrow> k \<in> fst ` set (by_key es) \<longleftrightarrow> elem_map es k \<noteq> None"
  using by_key_get [of es k] bt_get_None [of "by_key es" k] by (simp add: bt_keys_set)

abbreviation targets :: "delta_operation list \<Rightarrow> opaque_id list" where
  "targets ops \<equiv> List.map_filter target_key ops"

lemma map_filter_Cons: "List.map_filter f (x # xs) = (case f x of None \<Rightarrow> List.map_filter f xs | Some y \<Rightarrow> y # List.map_filter f xs)"
  by (cases "f x") (simp_all add: List.map_filter_def)

lemma map_filter_set: "y \<in> set (List.map_filter f xs) \<longleftrightarrow> (\<exists>x \<in> set xs. f x = Some y)"
  by (induction xs) (auto simp: map_filter_Cons List.map_filter_def [of f "[]"] split: option.splits)

lemma validated_targets:
  "validate_operations p T F ops = Inr () \<Longrightarrow> distinct (targets ops) \<and> set (targets ops) \<inter> T = {}"
proof (induction ops arbitrary: p T F)
  case (Cons op ops)
  show ?case
  proof (cases "target_key op")
    case None
    with Cons show ?thesis by (fastforce simp: Let_def map_filter_Cons split: if_splits)
  next
    case (Some k)
    with Cons.prems have "k \<notin> T" "validate_operations (Some (sort_key_of op)) (insert k T) F ops = Inr ()"
      by (auto simp: Let_def split: if_splits)
    with Cons.IH [OF this(2)] Some show ?thesis by (auto simp: map_filter_Cons)
  qed
qed (simp add: List.map_filter_def)

text \<open>Operations on distinct keys, each of which sets its key to the result, set all of them.\<close>

lemma delta_spec_distinct:
  assumes "\<forall>op \<in> set ops. \<exists>k. target_key op = Some k \<and> (\<forall>m. m k = b k \<longrightarrow> delta_spec_op op m = Some (m(k := r k)))"
    and "distinct (targets ops)" "\<forall>k \<in> set (targets ops). m k = b k"
  shows "delta_spec ops m = Some (\<lambda>k. if k \<in> set (targets ops) then r k else m k)"
  using assms
proof (induction ops arbitrary: m)
  case (Cons op ops)
  from Cons.prems(1) obtain k where k: "target_key op = Some k" "\<forall>m. m k = b k \<longrightarrow> delta_spec_op op m = Some (m(k := r k))"
    unfolding list.set ball_simps by blast
  then have t: "targets (op # ops) = k # targets ops" by (simp add: map_filter_Cons)
  have "delta_spec_op op m = Some (m(k := r k))" using k Cons.prems(3) t by simp
  moreover have "delta_spec ops (m(k := r k)) = Some (\<lambda>j. if j \<in> set (targets ops) then r j else (m(k := r k)) j)"
  proof (rule Cons.IH)
    show "\<forall>op \<in> set ops. \<exists>k. target_key op = Some k \<and> (\<forall>m. m k = b k \<longrightarrow> delta_spec_op op m = Some (m(k := r k)))"
      using Cons.prems(1) unfolding list.set ball_simps by blast
    show "distinct (targets ops)" using Cons.prems(2) t by simp
    show "\<forall>j \<in> set (targets ops). (m(k := r k)) j = b j" using Cons.prems(2,3) t by auto
  qed
  moreover have "k \<notin> set (targets ops)" using Cons.prems(2) t by simp
  ultimately show ?case using t by (auto simp: fun_eq_iff)
qed (simp add: List.map_filter_def)

lemma reset_nothing: "bt_wf versions \<Longrightarrow> reset_operations versions versions = []"
  by (auto simp: reset_operations_def filter_empty_conv bt_in_get)

lemma operation_sets:
  assumes d: "distinct (keys_of bs)" "distinct (keys_of rs)"
    and op: "op \<in> set (removed_operations (by_key bs) (by_key rs)) \<union> set (List.map_filter (changed_operation (by_key bs)) (by_key rs))"
  shows "\<exists>k. target_key op = Some k \<and> (\<forall>m. m k = elem_map bs k \<longrightarrow> delta_spec_op op m = Some (m(k := elem_map rs k)))"
  using op
proof
  assume "op \<in> set (removed_operations (by_key bs) (by_key rs))"
  then obtain k where "op = DO_Remove k" "elem_map bs k \<noteq> None" "elem_map rs k = None"
    using by_key_key [OF d(1)] by (auto simp: removed_operations_def bt_contains_def by_key_get d)
  then show ?thesis by auto
next
  assume "op \<in> set (List.map_filter (changed_operation (by_key bs)) (by_key rs))"
  then obtain k e where e: "elem_map rs k = Some e" "changed_operation (by_key bs) (k, e) = Some op"
    by (auto simp: map_filter_set by_key_entry d)
  then show ?thesis
    by (auto simp: changed_operation_def by_key_get d split: option.splits if_splits)
qed

lemma operation_exists:
  assumes d: "distinct (keys_of bs)" "distinct (keys_of rs)" and k: "elem_map bs k \<noteq> elem_map rs k"
  shows "\<exists>op \<in> set (removed_operations (by_key bs) (by_key rs)) \<union> set (List.map_filter (changed_operation (by_key bs)) (by_key rs)).
    target_key op = Some k"
proof (cases "elem_map rs k")
  case None
  with k have "DO_Remove k \<in> set (removed_operations (by_key bs) (by_key rs))"
    using by_key_key [OF d(1), of k] by (auto simp: removed_operations_def bt_contains_def by_key_get d)
  then show ?thesis by force
next
  case (Some e)
  with k obtain op where "changed_operation (by_key bs) (k, e) = Some op" "target_key op = Some k"
    by (cases "elem_map bs k") (auto simp: changed_operation_def by_key_get d split: if_splits)
  moreover have "(k, e) \<in> set (by_key rs)" using Some by (simp add: by_key_entry d)
  ultimately have "op \<in> set (List.map_filter (changed_operation (by_key bs)) (by_key rs))" by (auto simp: map_filter_set)
  with \<open>target_key op = Some k\<close> show ?thesis by blast
qed

lemma delta_sort_key_eq: "delta_sort_key = sort_key_of"
proof
  show "delta_sort_key op = sort_key_of op" for op by (cases op) simp_all
qed

lemma delta_operations_spec:
  assumes "document_validate base = Inr ()" "document_validate result = Inr ()"
    and "sv_frame_versions base_envelope = sv_frame_versions current" "bt_wf (sv_frame_versions current)"
    and "validate_operations None {} {} (delta_operations current base_envelope base result) = Inr ()"
  shows "delta_spec (delta_operations current base_envelope base result) (elem_map (sd_elements base)) = Some (elem_map (sd_elements result))"
proof -
  let ?bs = "sd_elements base" and ?rs = "sd_elements result" and ?ops = "delta_operations current base_envelope base result"
  have d: "distinct (keys_of ?bs)" "distinct (keys_of ?rs)" using assms(1,2) by (simp_all add: document_validate_Ok)
  have set: "set ?ops = set (removed_operations (by_key ?bs) (by_key ?rs)) \<union> set (List.map_filter (changed_operation (by_key ?bs)) (by_key ?rs))"
    using reset_nothing [OF assms(4)] by (simp add: delta_operations_def Let_def assms(3))
  have "delta_spec ?ops (elem_map ?bs) = Some (\<lambda>k. if k \<in> set (targets ?ops) then elem_map ?rs k else elem_map ?bs k)"
    using delta_spec_distinct [of ?ops "elem_map ?bs" "elem_map ?rs" "elem_map ?bs"] operation_sets [OF d] validated_targets [OF assms(5)] set
    by blast
  moreover have "elem_map ?bs k = elem_map ?rs k" if "k \<notin> set (targets ?ops)" for k
    using operation_exists [OF d, of k] that unfolding set [symmetric] by (auto simp: map_filter_set)
  ultimately show ?thesis by (auto simp: fun_eq_iff)
qed

lemma built_delta_applies:
  assumes "build_delta_body current base_envelope base result limits = Inr body"
    and "document_validate base = Inr ()" "document_validate result = Inr ()" "distinct (map se_order (sd_elements result))"
    and "sv_frame_versions base_envelope = sv_frame_versions current" "bt_wf (sv_frame_versions current)"
  shows "\<exists>d. body = SB_Delta d \<and> sx_operations d = delta_operations current base_envelope base result \<and> delta_apply d base limits = Inr result"
proof -
  obtain d where d: "body = SB_Delta d" "delta_validate d limits = Inr ()" "sx_base_snapshot_version d = sd_snapshot_version base"
      "sx_base_hash d = sd_snapshot_hash base" "sx_result_snapshot_version d = sd_snapshot_version result"
      "sx_result_hash d = sd_snapshot_hash result" "sx_operations d = delta_operations current base_envelope base result"
    using assms(1) by (auto simp: build_delta_body_def Let_def elim: delta_result.elims)
  then have "validate_operations None {} {} (delta_operations current base_envelope base result) = Inr ()"
    by (auto simp: delta_validate_def split: if_splits)
  from delta_operations_spec [OF assms(2,3,5,6) this] delta_apply_complete [of d limits base result] d assms(2-4)
  show ?thesis by simp
qed

section \<open>Where an output comes from\<close>

lemma argument_result_Ok [simp]: "argument_result r = Inr a \<longleftrightarrow> r = Inr a"
  by (cases r) simp_all

lemma delta_result_Ok [simp]: "delta_result r = Inr a \<longleftrightarrow> r = Inr a"
  by (cases r) simp_all

lemma fits_budget_Ok:
  "fits_budget js metadata body request tok = Inr fits \<longleftrightarrow>
     (\<exists>metrics. measure_context js metadata body request tok = Inr metrics \<and> fits = metrics_fit request metrics)"
  by (auto simp: fits_budget_def)

text \<open>An output is measured, and its measure is within the limits.\<close>

definition fitting :: "context_source \<Rightarrow> context_request \<Rightarrow> context_output \<Rightarrow> bool" where
  "fitting src request out \<longleftrightarrow>
     measure_context (xs_json src) (xo_metadata out) (xo_body out) request (xs_tokenizer src) = Inr (xo_metrics out)
     \<and> metrics_fit request (xo_metrics out)"

lemma bounded_output_Ok:
  "bounded_output message src request metadata body = Inr out \<longleftrightarrow>
     fitting src request out \<and> xo_metadata out = metadata \<and> xo_body out = body"
  by (cases out) (auto simp: bounded_output_def measured_output_def fits_budget_Ok fitting_def)

lemma resync_or_Ok: "resync_or src request reason error = Inr out \<Longrightarrow> resync_output src request reason = Inr out"
  by (auto simp: resync_or_def split: if_splits)

definition marker :: "context_source \<Rightarrow> context_request \<Rightarrow> context_output \<Rightarrow> bool" where
  "marker src request out \<longleftrightarrow> (\<exists>reason. resync_output src request reason = Inr out)"

lemma marker_sel:
  assumes "marker src request out"
  shows "fitting src request out \<and> xm_resync_required (xo_metadata out) \<and> xm_representation (xo_metadata out) = CX_Resync
    \<and> xm_coverage (xo_metadata out) = SC_Partial \<and> (\<exists>reason. xo_body out = Some (SB_Resync reason))"
  using assms by (auto simp: marker_def resync_output_def bounded_output_Ok make_metadata_def)

lemma finish_output_Ok:
  assumes "finish_output src request metadata body = Inr out"
  shows "marker src request out
    \<or> fitting src request out \<and> (\<exists>body'. xo_body out = Some body'
        \<and> ((xo_metadata out, body') = (metadata, body) \<or> truncate_output src request metadata body = Inr (xo_metadata out, body')))"
  using assms
  by (cases out) (fastforce simp: finish_output_def fits_budget_Ok measured_output_def fitting_def marker_def Let_def
      dest: resync_or_Ok split: if_splits)

definition body_elements :: "context_source \<Rightarrow> context_request \<Rightarrow> snapshot_document \<Rightarrow> (core_error, snapshot_element list) result" where
  "body_elements src request current =
     (let elements = fst (shown_elements (cq_redaction request) (xs_envelope src) current) in
      if focus_requested request then focus_elements elements (cq_focus request) (sv_frame_versions (xs_envelope src)) else Ok elements)"

lemma body_output_Ok:
  assumes "body_output src request current = Inr out"
  shows "marker src request out
    \<or> (\<exists>elements candidates selected redacted. body_elements src request current = Inr elements
        \<and> body_costs (xs_json src) (SB_Elements elements) (SB_Elements (compact_elements (cq_redaction request) elements))
            (fst (delta_candidate (xs_envelope src) request current)) = Inr candidates
        \<and> select_body request (xs_envelope src) candidates = Some selected
        \<and> finish_output src request (selected_metadata src selected redacted) (fst (snd selected)) = Inr out)"
proof -
  obtain es redacted where s: "shown_elements (cq_redaction request) (xs_envelope src) current = (es, redacted)" by fastforce
  obtain delta failure where d: "delta_candidate (xs_envelope src) request current = (delta, failure)" by fastforce
  show ?thesis
    using assms by (auto simp: body_output_def body_elements_def s d marker_def Let_def dest!: resync_or_Ok split: if_splits option.splits)
qed

lemma build_Ok:
  assumes "build_envelope_with_tokenizer src request = Inr out"
  shows "snapshot_validate (xs_envelope src) = Inr () \<and>
    (marker src request out \<or> metadata_only src request = Inr out
     \<or> (\<exists>current. current_document (xs_envelope src) (cq_base request) (cq_redaction request) (cq_delta_limits request) = Inr current
          \<and> body_output src request current = Inr out))"
  using assms
  by (fastforce simp: build_envelope_with_tokenizer_def Let_def marker_def clean_output_def dest: resync_or_Ok
      split: if_splits option.splits sum.splits snapshot_body.splits)

text \<open>The selected body is one of the three candidates.\<close>

lemma cheapest_in: "cheapest cs = Some c \<Longrightarrow> c \<in> set cs"
  by (induction cs arbitrary: c) (auto split: option.splits if_splits)

lemma representation_of_in: "representation_of r cs = Some c \<Longrightarrow> c \<in> set cs \<and> fst c = r"
  by (auto simp: representation_of_def find_Some_iff)

lemma candidate_list_in:
  assumes "c \<in> set (candidate_list request e bc)"
  shows "body_safe e \<and> (c = (CX_Full, bc_full bc, bc_full_cost bc) \<or> c = (CX_Compact, bc_compact bc, bc_compact_cost bc)
    \<or> (envelope_complete e \<and> (\<exists>delta cost. bc_delta bc = Some delta \<and> c = (CX_Delta, delta, cost))))"
  using assms by (auto simp: candidate_list_def Let_def split: if_splits option.splits)

lemma select_body_Ok:
  assumes "select_body request e bc = Some selected"
  shows "\<exists>representation body coverage. selected = (representation, body, coverage) \<and> body_safe e
    \<and> (body = bc_full bc \<and> representation \<in> {CX_Full, CX_Focus} \<and> coverage = sv_coverage e
       \<or> body = bc_compact bc \<and> representation = CX_Compact \<and> coverage = sv_coverage e
       \<or> bc_delta bc = Some body \<and> representation = CX_Delta \<and> envelope_complete e \<and> coverage = SC_Complete)"
proof -
  obtain c where c: "c \<in> set (candidate_list request e bc)"
    "(\<exists>body cost. c = (CX_Full, body, cost) \<and> selected = (CX_Focus, body, sv_coverage e))
     \<or> (\<exists>body cost. c = (CX_Delta, body, cost) \<and> selected = (CX_Delta, body, SC_Complete))
     \<or> (\<exists>r body cost. c = (r, body, cost) \<and> selected = (r, body, sv_coverage e))"
    using assms by (cases "cq_mode request")
      (fastforce simp: select_body_def Let_def dest: cheapest_in representation_of_in split: if_splits)+
  from candidate_list_in [OF c(1)] c(2) show ?thesis by (auto simp: envelope_complete_def)
qed

lemma body_costs_Ok:
  "body_costs js full compact delta = Inr bc \<Longrightarrow> bc_full bc = full \<and> bc_compact bc = compact \<and> bc_delta bc = delta"
  by (auto simp: body_costs_def)

lemma fitting_body_output: "body_output src request current = Inr out \<Longrightarrow> fitting src request out"
  by (drule body_output_Ok) (auto dest!: finish_output_Ok dest: marker_sel)

lemma delta_candidate_delta:
  "fst (delta_candidate e request current) = Some body \<Longrightarrow> \<exists>d. body = SB_Delta d"
  by (auto simp: delta_candidate_def build_delta_body_def Let_def split: option.splits sum.splits if_splits)

section \<open>Budget\<close>

text \<open>
  C35: The metrics of an output are those of its own metadata and body, and they are within every limit of the request, whatever
  representation was chosen and however often elements were dropped.
\<close>

theorem context_within_budget:
  assumes "build_envelope_with_tokenizer src request = Inr out"
  shows "measure_context (xs_json src) (xo_metadata out) (xo_body out) request (xs_tokenizer src) = Inr (xo_metrics out)
    \<and> (\<forall>limit. cq_max_serialized_bytes request = Some limit \<longrightarrow> tm_utf8_bytes (xo_metrics out) \<le> limit)
    \<and> (\<forall>budget limit. cq_token_budget request = Some budget \<longrightarrow>
         (tb_serialized_limit budget = Some limit \<longrightarrow> tm_serialized_tokens (xo_metrics out) \<le> limit)
         \<and> (tb_model_context_limit budget = Some limit \<longrightarrow> tm_model_context_tokens (xo_metrics out) \<le> limit))"
proof -
  have "fitting src request out" using build_Ok [OF assms] fitting_body_output
    by (auto simp: metadata_only_def bounded_output_Ok Let_def dest: marker_sel)
  then show ?thesis by (simp add: fitting_def metrics_fit_def is_some_and_iff not_less)
qed

section \<open>Redaction\<close>

definition redacted_by :: "redaction_policy \<Rightarrow> snapshot_element \<Rightarrow> bool" where
  "redacted_by policy e \<longleftrightarrow> (\<forall>(key, val) \<in> set (se_attributes e). is_sensitive policy key \<longrightarrow> val = rp_replacement policy)"

lemma redact_element_redacts: "redacted_by policy (redact_element policy e)"
  by (auto simp: redacted_by_def redact_element_def set_bt_map redact_field_def)

lemma redact_elements_redacts: "e \<in> set (fst (redact_elements policy es)) \<Longrightarrow> redacted_by policy e"
  by (auto simp: redact_elements_def redact_element_redacts)

lemma compact_redacts: "redacted_by policy e \<Longrightarrow> redacted_by policy (compact_element policy e)"
  by (auto simp: redacted_by_def compact_element_def)

lemma redacted_order [simp]: "redacted_by policy (e\<lparr>se_order := n\<rparr>) = redacted_by policy e"
  by (simp add: redacted_by_def)

lemma focus_elements_subset: "focus_elements es focus fv = Inr kept \<Longrightarrow> set kept \<subseteq> set es"
  by (auto simp: focus_elements_def split: if_splits)

lemma body_elements_redacted:
  "body_elements src request current = Inr es \<Longrightarrow> e \<in> set es \<Longrightarrow> redacted_by (cq_redaction request) e"
  by (auto simp: body_elements_def shown_elements_def Let_def redact_elements_redacts
      dest!: focus_elements_subset split: if_splits snapshot_body.splits dest: redact_elements_redacts)

lemma drop_until_subset: "drop_until js limit es = Inr kept \<Longrightarrow> set kept \<subseteq> set es"
proof (induction js limit es rule: drop_until.induct)
  case (1 js limit es)
  from "1.prems" show ?case
    unfolding drop_until.simps [of js limit es] using "1.IH" by (fastforce split: if_splits dest: in_set_butlastD)
qed

lemma truncate_subset: "truncate_elements js request es = Inr kept \<Longrightarrow> set kept \<subseteq> set es"
  by (auto simp: truncate_elements_def Let_def dest: drop_until_subset split: if_splits)

text \<open>What an output can hold: elements of the focus, possibly compacted, or the delta that was built.\<close>

lemma output_body:
  assumes "body_output src request current = Inr out" "xo_body out = Some body"
  shows "(\<exists>reason. body = SB_Resync reason)
    \<or> (\<exists>es kept. body_elements src request current = Inr es \<and> body = SB_Elements kept
         \<and> (set kept \<subseteq> set es \<or> set kept \<subseteq> set (compact_elements (cq_redaction request) es)))
    \<or> fst (delta_candidate (xs_envelope src) request current) = Some body"
  using body_output_Ok [OF assms(1)]
proof
  assume "marker src request out"
  then show ?thesis using marker_sel assms(2) by fastforce
next
  let ?policy = "cq_redaction request" and ?delta = "fst (delta_candidate (xs_envelope src) request current)"
  assume "\<exists>elements candidates selected redacted. body_elements src request current = Inr elements
        \<and> body_costs (xs_json src) (SB_Elements elements) (SB_Elements (compact_elements ?policy elements)) ?delta = Inr candidates
        \<and> select_body request (xs_envelope src) candidates = Some selected
        \<and> finish_output src request (selected_metadata src selected redacted) (fst (snd selected)) = Inr out"
  then obtain es bc selected redacted where *: "body_elements src request current = Inr es"
      "body_costs (xs_json src) (SB_Elements es) (SB_Elements (compact_elements ?policy es)) ?delta = Inr bc"
      "select_body request (xs_envelope src) bc = Some selected"
      "finish_output src request (selected_metadata src selected redacted) (fst (snd selected)) = Inr out" by blast
  have chosen: "fst (snd selected) = SB_Elements es \<or> fst (snd selected) = SB_Elements (compact_elements ?policy es) \<or> Some (fst (snd selected)) = ?delta"
    using select_body_Ok [OF *(3)] body_costs_Ok [OF *(2)] by auto
  from finish_output_Ok [OF *(4)] show ?thesis
  proof
    assume "marker src request out"
    then show ?thesis using marker_sel assms(2) by fastforce
  next
    assume "fitting src request out \<and> (\<exists>body'. xo_body out = Some body' \<and> ((xo_metadata out, body') = (selected_metadata src selected redacted, fst (snd selected))
      \<or> truncate_output src request (selected_metadata src selected redacted) (fst (snd selected)) = Inr (xo_metadata out, body')))"
    then have "body = fst (snd selected) \<or> (\<exists>es' kept. fst (snd selected) = SB_Elements es' \<and> body = SB_Elements kept \<and> set kept \<subseteq> set es')"
      using assms(2) by (auto simp: truncate_output_def dest: truncate_subset split: snapshot_body.splits)
    with chosen *(1) delta_candidate_delta [of "xs_envelope src" request current "fst (snd selected)"] show ?thesis by auto
  qed
qed

lemma document_new_redacted:
  "document_new ver (fst (redact_elements policy es)) = Inr doc \<Longrightarrow> e \<in> set (sd_elements doc) \<Longrightarrow> redacted_by policy e"
  using redact_elements_redacts by (auto simp: document_new_Ok)

lemma operation_element_in:
  assumes "op \<in> set (delta_operations e base_envelope base current)" "operation_element op = Some x"
    and "distinct (keys_of (sd_elements current))"
  shows "x \<in> set (sd_elements current)"
  using assms
  by (auto simp: delta_operations_def removed_operations_def reset_operations_def Let_def map_filter_set changed_operation_def by_key_entry
      elem_map_Some split: option.splits if_splits)

lemma current_document_valid:
  assumes "current_document e base policy limits = Inr current"
  shows "document_validate current = Inr () \<and> distinct (map se_order (sd_elements current)) \<and> sd_snapshot_version current = sv_snapshot_version e
    \<or> (\<exists>d base_envelope base'. sv_delta_or_elements e = SB_Delta d \<and> base = Some base_envelope
        \<and> redacted_base_document policy base_envelope = Inr base' \<and> delta_apply d base' limits = Inr current)"
proof (cases "sv_delta_or_elements e")
  case (SB_Elements es)
  then have n: "document_new (sv_snapshot_version e) (fst (redact_elements policy es)) = Inr current"
    using assms by (simp add: current_document_def)
  then have "document_validate current = Inr ()" by (auto simp: document_new_def Let_def split: if_splits)
  moreover have "distinct (map se_order (sd_elements current))"
    using n unfolding document_new_Ok by (auto simp del: map_map) (metis mset_eq_imp_distinct_iff mset_map mset_sort)
  ultimately show ?thesis using n by (auto simp: document_new_Ok)
next
  case (SB_Delta d)
  then show ?thesis using assms by (auto simp: current_document_def split: option.splits)
next
  case (SB_Resync r)
  then show ?thesis using assms by (auto simp: current_document_def)
qed

lemma redacted_base_valid: "redacted_base_document policy e = Inr doc \<Longrightarrow> document_validate doc = Inr ()"
  by (auto simp: redacted_base_document_def document_new_def Let_def split: snapshot_body.splits if_splits)

lemma current_document_canonical:
  "current_document e base policy limits = Inr current \<Longrightarrow> document_validate current = Inr () \<and> distinct (map se_order (sd_elements current))"
  using current_document_valid [of e base policy limits current] delta_apply_sound by blast

lemma delta_candidate_Ok:
  assumes "fst (delta_candidate e request current) = Some (SB_Delta d)"
  shows "\<exists>base_envelope base. cq_base request = Some base_envelope \<and> redacted_base_document (cq_redaction request) base_envelope = Inr base
    \<and> base_matches e base_envelope base \<and> build_delta_body e base_envelope base current (cq_delta_limits request) = Inr (SB_Delta d)"
  using assms by (auto simp: delta_candidate_def split: option.splits sum.splits if_splits)

text \<open>
  C14: No sensitive attribute is shown. In every element of an output, and in every element that an output delta carries when the snapshot
  itself holds elements, each attribute whose name the policy calls sensitive has the replacement as its value.
\<close>

theorem context_redacts:
  assumes "build_envelope_with_tokenizer src request = Inr out" "xo_body out = Some body"
  shows "(\<forall>es e. body = SB_Elements es \<longrightarrow> e \<in> set es \<longrightarrow> redacted_by (cq_redaction request) e)
    \<and> (\<forall>d shown op e. body = SB_Delta d \<longrightarrow> sv_delta_or_elements (xs_envelope src) = SB_Elements shown \<longrightarrow> op \<in> set (sx_operations d)
         \<longrightarrow> operation_element op = Some e \<longrightarrow> redacted_by (cq_redaction request) e)"
proof (cases "\<exists>current. current_document (xs_envelope src) (cq_base request) (cq_redaction request) (cq_delta_limits request) = Inr current
    \<and> body_output src request current = Inr out")
  case False
  then have "marker src request out" using build_Ok [OF assms(1)] assms(2) by (auto simp: metadata_only_def bounded_output_Ok Let_def)
  then show ?thesis using marker_sel assms(2) by fastforce
next
  case True
  then obtain current where c: "current_document (xs_envelope src) (cq_base request) (cq_redaction request) (cq_delta_limits request) = Inr current"
      "body_output src request current = Inr out" by blast
  let ?policy = "cq_redaction request" and ?e = "xs_envelope src"
  have d: "distinct (keys_of (sd_elements current))" using current_document_canonical [OF c(1)] by (simp add: document_validate_Ok)
  have "redacted_by ?policy e" if "body = SB_Elements es" "e \<in> set es" for es e
    using output_body [OF c(2) assms(2)] that delta_candidate_delta body_elements_redacted
    by (fastforce simp: compact_elements_def dest: compact_redacts)
  moreover have "redacted_by ?policy e" if b: "body = SB_Delta d" and s: "sv_delta_or_elements ?e = SB_Elements shown"
      and op: "op \<in> set (sx_operations d)" "operation_element op = Some e" for d shown op e
  proof -
    have "fst (delta_candidate ?e request current) = Some (SB_Delta d)" using output_body [OF c(2) assms(2)] b by auto
    then obtain base_envelope base where "build_delta_body ?e base_envelope base current (cq_delta_limits request) = Inr (SB_Delta d)"
      using delta_candidate_Ok by blast
    then have "sx_operations d = delta_operations ?e base_envelope base current" by (auto simp: build_delta_body_def Let_def)
    then have "e \<in> set (sd_elements current)" using operation_element_in op d by metis
    then show ?thesis using c(1) s document_new_redacted by (auto simp: current_document_def)
  qed
  ultimately show ?thesis by blast
qed

section \<open>A delta output\<close>

lemma delta_output:
  assumes "build_envelope_with_tokenizer src request = Inr out" "xo_body out = Some (SB_Delta d)" "bt_wf (sv_frame_versions (xs_envelope src))"
  shows "\<exists>base_envelope base current. cq_base request = Some base_envelope
    \<and> redacted_base_document (cq_redaction request) base_envelope = Inr base
    \<and> current_document (xs_envelope src) (cq_base request) (cq_redaction request) (cq_delta_limits request) = Inr current
    \<and> base_matches (xs_envelope src) base_envelope base
    \<and> sx_operations d = delta_operations (xs_envelope src) base_envelope base current
    \<and> delta_apply d base (cq_delta_limits request) = Inr current"
proof -
  have "\<not> marker src request out" using marker_sel assms(2) by fastforce
  moreover have "metadata_only src request \<noteq> Inr out" using assms(2) by (auto simp: metadata_only_def bounded_output_Ok Let_def)
  ultimately obtain current where c: "current_document (xs_envelope src) (cq_base request) (cq_redaction request) (cq_delta_limits request) = Inr current"
      "body_output src request current = Inr out" using build_Ok [OF assms(1)] by blast
  have "fst (delta_candidate (xs_envelope src) request current) = Some (SB_Delta d)" using output_body [OF c(2) assms(2)] by auto
  then obtain base_envelope base where b: "cq_base request = Some base_envelope" "redacted_base_document (cq_redaction request) base_envelope = Inr base"
      "base_matches (xs_envelope src) base_envelope base"
      "build_delta_body (xs_envelope src) base_envelope base current (cq_delta_limits request) = Inr (SB_Delta d)"
    using delta_candidate_Ok by blast
  from built_delta_applies [OF b(4) redacted_base_valid [OF b(2)]] current_document_canonical [OF c(1)] b(3) assms(3)
  have "sx_operations d = delta_operations (xs_envelope src) base_envelope base current \<and> delta_apply d base (cq_delta_limits request) = Inr current"
    by (auto simp: base_matches_def)
  with b c(1) show ?thesis by blast
qed

text \<open>
  C15: A delta can be replayed. When the output is a delta, applying it to the redacted base document of the request is
  accepted and gives exactly the document the builder prepared: the same elements in the same order, the same version and
  the same hash. That document is \<open>current_document\<close>: the redacted elements of an element snapshot; for a delta snapshot the
  redacted base with the operations of the snapshot applied, whose new content is not redacted.
\<close>

theorem context_delta_reproduces:
  assumes "build_envelope_with_tokenizer src request = Inr out" "xo_body out = Some (SB_Delta d)" "bt_wf (sv_frame_versions (xs_envelope src))"
  shows "\<exists>base_envelope base current. cq_base request = Some base_envelope
    \<and> redacted_base_document (cq_redaction request) base_envelope = Inr base \<and> sd_snapshot_hash base = sv_snapshot_hash base_envelope
    \<and> current_document (xs_envelope src) (cq_base request) (cq_redaction request) (cq_delta_limits request) = Inr current
    \<and> delta_apply d base (cq_delta_limits request) = Inr current"
  using delta_output [OF assms] by (auto simp: base_matches_def)

lemma spec_upsert:
  "delta_spec ops m = Some m' \<Longrightarrow> distinct (targets ops) \<Longrightarrow> DO_Upsert k e \<in> set ops \<Longrightarrow> m' k = Some e"
  "delta_spec ops m = Some m' \<Longrightarrow> k \<notin> set (targets ops) \<Longrightarrow> m' k = m k"
proof (induction ops arbitrary: m)
  case (Cons op ops)
  {
    case 1
    then obtain m1 where m1: "delta_spec_op op m = Some m1" "delta_spec ops m1 = Some m'" by (auto split: Option.bind_splits)
    then show ?case using 1 Cons.IH by (cases "op = DO_Upsert k e") (auto simp: map_filter_Cons split: option.splits)
  next
    case 2
    then obtain m1 where m1: "delta_spec_op op m = Some m1" "delta_spec ops m1 = Some m'" by (auto split: Option.bind_splits)
    then show ?case using 2 Cons.IH(2) [OF m1(2)] by (cases op) (auto simp: map_filter_Cons split: if_splits option.splits)
  }
qed auto

text \<open>
  C40: The elements of a delta snapshot are not redacted. When the snapshot is itself a delta, and the output is again a delta,
  an element that the snapshot adds to the base is in the output as the browser sent it, with its sensitive
  attributes.
\<close>

theorem delta_snapshot_leaks:
  assumes "build_envelope_with_tokenizer src request = Inr out" "xo_body out = Some (SB_Delta d)" "bt_wf (sv_frame_versions (xs_envelope src))"
    and "sv_delta_or_elements (xs_envelope src) = SB_Delta received" "DO_Upsert k e \<in> set (sx_operations received)"
    and "\<And>base_envelope base. cq_base request = Some base_envelope \<Longrightarrow> redacted_base_document (cq_redaction request) base_envelope = Inr base
      \<Longrightarrow> k \<notin> set (keys_of (sd_elements base))"
  shows "DO_Upsert k e \<in> set (sx_operations d)"
proof -
  obtain base_envelope base current where b: "cq_base request = Some base_envelope"
      "redacted_base_document (cq_redaction request) base_envelope = Inr base"
      "current_document (xs_envelope src) (cq_base request) (cq_redaction request) (cq_delta_limits request) = Inr current"
      "sx_operations d = delta_operations (xs_envelope src) base_envelope base current" "delta_apply d base (cq_delta_limits request) = Inr current"
    using delta_output [OF assms(1-3)] by blast
  have "delta_apply received base (cq_delta_limits request) = Inr current" using b(1-3) assms(4) by (simp add: current_document_def)
  note applied = delta_apply_sound [OF this]
  have "distinct (targets (sx_operations received))"
    using applied by (auto simp: delta_validate_def split: if_splits dest: validated_targets)
  then have shown: "elem_map (sd_elements current) k = Some e" using spec_upsert(1) applied assms(5) by blast
  have "elem_map (sd_elements base) k = None" using assms(6) b(1,2) by (simp add: elem_map_None)
  moreover have "distinct (keys_of (sd_elements base))" "distinct (keys_of (sd_elements current))"
    using applied by (simp_all add: document_validate_Ok)
  ultimately have "(k, e) \<in> set (by_key (sd_elements current))"
      "changed_operation (by_key (sd_elements base)) (k, e) = Some (DO_Upsert k e)"
    using shown by (simp_all add: by_key_entry changed_operation_def by_key_get)
  then have "DO_Upsert k e \<in> set (List.map_filter (changed_operation (by_key (sd_elements base))) (by_key (sd_elements current)))"
    unfolding map_filter_set by blast
  then show ?thesis by (simp add: b(4) delta_operations_def Let_def)
qed

section \<open>Whole or marked\<close>

lemma drop_until_length: "drop_until js limit es = Inr kept \<Longrightarrow> length kept \<le> length es \<and> (length kept = length es \<longrightarrow> kept = es)"
proof (induction js limit es rule: drop_until.induct)
  case (1 js limit es)
  from "1.prems" show ?case
    unfolding drop_until.simps [of js limit es] using "1.IH" by (cases es) (fastforce split: if_splits)+
qed

lemma truncate_length:
  "truncate_elements js request es = Inr kept \<Longrightarrow> length kept \<le> length es \<and> (length kept = length es \<longrightarrow> kept = es)"
  by (auto simp: truncate_elements_def Let_def dest: drop_until_length split: if_splits)

lemma truncate_output_Ok:
  assumes "truncate_output src request metadata body = Inr (metadata', body')"
  shows "metadata' = metadata \<and> body' = body \<or> xm_resync_required metadata' \<and> xm_coverage metadata' = SC_Partial"
proof (cases body)
  case (SB_Elements es)
  with assms obtain kept where k: "truncate_elements (xs_json src) request es = Inr kept" "body' = SB_Elements kept"
      "metadata' = (if length kept < length es then metadata\<lparr>xm_coverage := SC_Partial, xm_truncated := True,
         xm_resync_required := True, xm_resync_reason := Some RR_CostExceeded\<rparr> else metadata)"
    by (auto simp: truncate_output_def)
  from truncate_length [OF k(1)] k(2,3) SB_Elements show ?thesis by (cases "length kept < length es") simp_all
qed (use assms in \<open>simp_all add: truncate_output_def\<close>)

lemma selected_metadata_sel:
  "xm_representation (selected_metadata src selected redacted) = fst selected \<and> \<not> xm_truncated (selected_metadata src selected redacted)
   \<and> (fst selected \<noteq> CX_Delta \<longrightarrow> xm_coverage (selected_metadata src selected redacted) = snd (snd selected))"
  by (cases selected) (simp add: selected_metadata_def make_metadata_def Let_def)

text \<open>
  C38: An output is whole or says that it is not. An output in the full representation of a snapshot of elements, for a
  request without focus, that does not ask for a resynchronisation holds every element of the snapshot, redacted; an
  output that was truncated has partial coverage and asks for one.
\<close>

theorem context_whole_or_marked:
  assumes "build_envelope_with_tokenizer src request = Inr out"
  shows "(xm_representation (xo_metadata out) = CX_Full \<and> \<not> xm_resync_required (xo_metadata out) \<and> \<not> focus_requested request
       \<and> sv_delta_or_elements (xs_envelope src) = SB_Elements es
       \<longrightarrow> xo_body out = Some (SB_Elements (map (redact_element (cq_redaction request)) es))
         \<and> xm_coverage (xo_metadata out) = sv_coverage (xs_envelope src))
    \<and> (xm_truncated (xo_metadata out) \<longrightarrow> xm_resync_required (xo_metadata out) \<and> xm_coverage (xo_metadata out) = SC_Partial)"
proof -
  consider (marker) "marker src request out" | (only) "metadata_only src request = Inr out"
    | (body) current where "body_output src request current = Inr out" "\<not> marker src request out"
    using build_Ok [OF assms] by blast
  then show ?thesis
  proof cases
    case marker
    then show ?thesis using marker_sel by fastforce
  next
    case only
    then show ?thesis by (auto simp: metadata_only_def bounded_output_Ok make_metadata_def Let_def)
  next
    case body
    then obtain shown bc selected redacted where b: "body_elements src request current = Inr shown"
        "body_costs (xs_json src) (SB_Elements shown) (SB_Elements (compact_elements (cq_redaction request) shown))
            (fst (delta_candidate (xs_envelope src) request current)) = Inr bc"
        "select_body request (xs_envelope src) bc = Some selected"
        "finish_output src request (selected_metadata src selected redacted) (fst (snd selected)) = Inr out"
      using body_output_Ok [OF body(1)] by blast
    let ?md = "selected_metadata src selected redacted" and ?body = "fst (snd selected)"
    from finish_output_Ok [OF b(4)] body(2) obtain body' where body': "xo_body out = Some body'"
        "xo_metadata out = ?md \<and> body' = ?body \<or> truncate_output src request ?md ?body = Inr (xo_metadata out, body')" by auto
    then have kept: "xo_metadata out = ?md \<and> body' = ?body
        \<or> xm_resync_required (xo_metadata out) \<and> xm_coverage (xo_metadata out) = SC_Partial"
      using truncate_output_Ok by blast
    note md = selected_metadata_sel [of src selected redacted]
    have full: "fst selected = CX_Full \<longrightarrow> ?body = SB_Elements shown \<and> snd (snd selected) = sv_coverage (xs_envelope src)"
      using select_body_Ok [OF b(3)] body_costs_Ok [OF b(2)] by auto
    have all: "shown = map (redact_element (cq_redaction request)) es"
      if "\<not> focus_requested request" "sv_delta_or_elements (xs_envelope src) = SB_Elements es"
      using b(1) that by (simp add: body_elements_def shown_elements_def redact_elements_def)
    show ?thesis
    proof (cases "xo_metadata out = ?md \<and> body' = ?body")
      case True
      then show ?thesis using md full all body'(1) by simp
    next
      case False
      with kept have "xm_resync_required (xo_metadata out)" "xm_coverage (xo_metadata out) = SC_Partial" by blast+
      then show ?thesis by simp
    qed
  qed
qed

section \<open>Focus\<close>

text \<open>The tree of the snapshot: \<open>under index k a\<close> says that \<open>a\<close> is \<open>k\<close> or one of its ancestors.\<close>

inductive under :: "element_index \<Rightarrow> opaque_id \<Rightarrow> opaque_id \<Rightarrow> bool" for index where
  self: "bt_get index k = Some e \<Longrightarrow> under index k k"
| above: "bt_get index k = Some e \<Longrightarrow> se_parent e = Some p \<Longrightarrow> under index p a \<Longrightarrow> under index k a"

lemma under_eq:
  "under index k a \<longleftrightarrow> (\<exists>e. bt_get index k = Some e \<and> (a = k \<or> (\<exists>p. se_parent e = Some p \<and> under index p a)))"
  by (subst under.simps) auto

lemma under_trans: "under index k a \<Longrightarrow> under index a b \<Longrightarrow> under index k b"
  by (induction rule: under.induct) (auto intro: under.above)

lemma ancestor_walk_Ok:
  "ancestor_walk index keys current = Inr found \<Longrightarrow> found = keys \<union> {a. \<exists>k. current = Some k \<and> under index k a}"
proof (induction index keys current rule: ancestor_walk.induct)
  case (2 index keys key)
  then obtain e where e: "key \<notin> keys" "bt_get index key = Some e" "ancestor_walk index (insert key keys) (se_parent e) = Inr found"
    by (auto split: if_splits option.splits)
  from "2.IH" [OF e(1,2,3)] e(2) show ?case by (auto simp: under_eq [of index key])
qed simp

lemma ancestor_walk_closed:
  "ancestor_walk index keys current = Inr found \<Longrightarrow> current = Some c \<Longrightarrow> under index c k \<Longrightarrow> bt_get index k = Some e
   \<Longrightarrow> se_parent e = Some p \<Longrightarrow> bt_get index p \<noteq> None"
proof (induction index keys current arbitrary: c rule: ancestor_walk.induct)
  case (2 index keys key)
  then obtain f where f: "key \<notin> keys" "bt_get index key = Some f" "ancestor_walk index (insert key keys) (se_parent f) = Inr found"
    by (auto split: if_splits option.splits)
  show ?case
  proof (cases "k = key")
    case True
    then show ?thesis using f "2.prems" by (auto split: if_splits option.splits)
  next
    case False
    then obtain q where "se_parent f = Some q" "under index q k" using "2.prems" f(2) by (auto simp: under_eq [of index c])
    then show ?thesis using "2.IH" [OF f(1,2,3)] "2.prems" by blast
  qed
qed simp

lemma descendant_walk_Ok:
  "descendant_walk index target visited current = Inr below \<Longrightarrow> bt_get index target \<noteq> None
   \<Longrightarrow> below \<longleftrightarrow> (\<exists>k. current = Some k \<and> under index k target)"
proof (induction index target visited current rule: descendant_walk.induct)
  case (2 index target visited key)
  then show ?case by (auto simp: under_eq [of index key] split: if_splits option.splits)
qed simp

lemma is_descendant_Ok:
  "is_descendant_of index k target = Inr below \<Longrightarrow> bt_get index target \<noteq> None \<Longrightarrow> below \<longleftrightarrow> under index k target"
  by (auto simp: is_descendant_of_def under_eq [of index k] split: if_splits option.splits dest: descendant_walk_Ok)

lemma descendant_keys_Ok:
  assumes "bt_get index target \<noteq> None"
  shows "descendant_keys index target es keys = Inr found \<Longrightarrow> found = keys \<union> {se_key e | e. e \<in> set es \<and> under index (se_key e) target}"
proof (induction es arbitrary: keys)
  case (Cons e es)
  then obtain below where b: "is_descendant_of index (se_key e) target = Inr below"
      "descendant_keys index target es (if below then insert (se_key e) keys else keys) = Inr found" by auto
  from Cons.IH [OF b(2)] is_descendant_Ok [OF b(1) assms] show ?case by auto
qed auto

lemma subtree_keys_Ok:
  assumes "subtree_keys es index target = Inr keys" "bt_get index target \<noteq> None"
  shows "keys = {a. under index target a} \<union> {se_key e | e. e \<in> set es \<and> under index (se_key e) target}"
    and "under index target k \<Longrightarrow> bt_get index k = Some e \<Longrightarrow> se_parent e = Some p \<Longrightarrow> under index target p"
proof -
  obtain found where f: "ancestor_walk index {} (Some target) = Inr found" "descendant_keys index target es found = Inr keys"
    using assms by (auto simp: subtree_keys_def ancestor_keys_def)
  from ancestor_walk_Ok [OF f(1)] descendant_keys_Ok [OF assms(2) f(2)]
  show "keys = {a. under index target a} \<union> {se_key e | e. e \<in> set es \<and> under index (se_key e) target}" by auto
  assume k: "under index target k" "bt_get index k = Some e" "se_parent e = Some p"
  then have "bt_get index p \<noteq> None" using ancestor_walk_closed [OF f(1)] by blast
  then show "under index target p" using k under_trans by (blast intro: under.intros)
qed

text \<open>
  C34: A focused context is a subtree with its path to the root. Focusing on an element keeps, in order, exactly the elements below it, the element
  itself and its ancestors; so the parent of every element that is kept is kept too.
\<close>

theorem focus_exact:
  assumes "focus_elements es focus frame_versions = Inr kept" "cf_element_key focus = Some target" "distinct (keys_of es)"
  shows "kept = filter (\<lambda>e. under (by_key es) (se_key e) target \<or> under (by_key es) target (se_key e)) es
    \<and> (\<forall>e \<in> set kept. \<forall>p. se_parent e = Some p \<longrightarrow> p \<in> se_key ` set kept)"
proof -
  let ?u = "under (by_key es)"
  obtain scope keys where k: "focus_keys es focus scope = Inr keys" "kept = filter (\<lambda>e. se_key e \<in> keys) es"
    using assms(1) by (auto simp: focus_elements_def split: if_splits)
  then have t: "bt_contains (by_key es) target" "subtree_keys es (by_key es) target = Inr keys"
    using assms(2) by (auto simp: focus_keys_def split: if_splits)
  then have get: "bt_get (by_key es) target \<noteq> None" by (auto simp: bt_contains_def)
  then have tt: "?u target target" by (auto intro: under.self)
  have "se_key e \<in> keys \<longleftrightarrow> ?u (se_key e) target \<or> ?u target (se_key e)" if "e \<in> set es" for e
    using that by (auto simp: subtree_keys_Ok(1) [OF t(2) get])
  then have kept: "kept = filter (\<lambda>e. ?u (se_key e) target \<or> ?u target (se_key e)) es"
    using k(2) by (auto intro: filter_cong)
  moreover have "p \<in> se_key ` set kept" if e: "e \<in> set kept" and p: "se_parent e = Some p" for e p
  proof -
    have ge: "bt_get (by_key es) (se_key e) = Some e" using e kept by (simp add: by_key_get assms(3) elem_map_Some)
    have "?u (se_key e) target \<and> se_key e \<noteq> target \<or> ?u target (se_key e)" using e kept tt by auto
    then have up: "?u p target \<or> ?u target p"
      using ge p subtree_keys_Ok(2) [OF t(2) get] by (auto simp: under_eq [of "by_key es" "se_key e"])
    then have "\<exists>x. bt_get (by_key es) p = Some x" by (auto elim: under.cases) (induction rule: under.induct, auto)
    then obtain x where "x \<in> set es" "se_key x = p" by (auto simp: by_key_get assms(3) elem_map_Some)
    then show ?thesis using up kept by auto
  qed
  ultimately show ?thesis by blast
qed

section \<open>Cache keys and the cheapest candidate\<close>

text \<open>
  The comparison of cache keys does not agree with their equality: a request without a budget and one with a budget
  without limits have different keys that compare as equal.
\<close>

lemma cache_key_cmp_Equal:
  "cache_key_cmp a b = KO_Equal \<longleftrightarrow> context_budget_key (xk_budget a) = context_budget_key (xk_budget b) \<and> a\<lparr>xk_budget := None\<rparr> = b\<lparr>xk_budget := None\<rparr>"
proof -
  have "context_mode_rank m = context_mode_rank n \<longleftrightarrow> m = n" for m n by (cases m; cases n) simp_all
  moreover have "cache_key_cmp a b = KO_Equal \<longleftrightarrow> context_key_rank a = context_key_rank b" by (simp add: cache_key_cmp_def)
  ultimately show ?thesis
    by (cases a; cases b; cases "xk_focus a"; cases "xk_focus b"; cases "xk_generation a"; cases "xk_generation b")
      (auto simp: context_key_rank_def)
qed

lemma cheapest_None: "cheapest cs = None \<longleftrightarrow> cs = []"
  by (cases cs) (auto split: option.splits)

lemma cheapest_least: "cheapest cs = Some c \<Longrightarrow> d \<in> set cs \<Longrightarrow> candidate_rank c \<le> candidate_rank d"
proof (induction cs arbitrary: c)
  case (Cons x cs)
  show ?case
  proof (cases "cheapest cs")
    case None
    with Cons.prems show ?thesis by (simp add: cheapest_None)
  next
    case (Some y)
    with Cons.prems have c: "c = (if candidate_rank x \<le> candidate_rank y then x else y)" by simp
    from Cons.prems(2) Cons.IH [OF Some] show ?thesis unfolding c by (auto intro: order_trans)
  qed
qed simp

section \<open>Examples\<close>

definition demo_context_json :: context_json where
  "demo_context_json = \<lparr>cj_metadata = \<lambda>_. Inr [], cj_body = \<lambda>_. Inr []\<rparr>"

definition demo_source :: "snapshot_envelope \<Rightarrow> context_source" where
  "demo_source envelope = \<lparr>xs_envelope = envelope, xs_cache_state = CA_Fresh, xs_scan_performed = True,
     xs_tokenizer = unicode_scalar_tokenizer, xs_json = demo_context_json\<rparr>"

definition demo_secret :: snapshot_element where
  "demo_secret = (demo_element ''element_b'' 2)\<lparr>se_attributes := [(code_points ''password'', code_points ''hunter2'')]\<rparr>"

definition demo_secret_elements :: "snapshot_element list" where
  "demo_secret_elements = [demo_element ''element_a'' 1, demo_secret]"

definition demo_secret_envelope :: snapshot_envelope where
  "demo_secret_envelope = demo_envelope\<lparr>sv_snapshot_version := 5, sv_snapshot_hash := hash_elements demo_secret_elements,
     sv_result_hash := hash_elements demo_secret_elements, sv_delta_or_elements := SB_Elements demo_secret_elements\<rparr>"

definition demo_received :: snapshot_delta where
  "demo_received = \<lparr>sx_base_snapshot_version = 4, sx_base_hash = hash_elements [demo_element ''element_a'' 1],
     sx_result_snapshot_version = 5, sx_result_hash = hash_elements demo_secret_elements, sx_delta_sequence = 1, sx_chain_depth = 1,
     sx_operations = [DO_Upsert ''element_b'' demo_secret]\<rparr>"

definition demo_delta_envelope :: snapshot_envelope where
  "demo_delta_envelope = demo_secret_envelope\<lparr>sv_base_snapshot_version := Some 4,
     sv_base_hash := Some (hash_elements [demo_element ''element_a'' 1]), sv_delta_sequence := Some 1,
     sv_delta_or_elements := SB_Delta demo_received, sv_mode := SM_Delta, sv_operation_count := 1\<rparr>"

lemma demo_measure:
  "measure_context demo_context_json metadata body request unicode_scalar_tokenizer
   = Inr \<lparr>tm_transport_bytes = 0, tm_utf8_bytes = 0, tm_serialized_tokens = 0, tm_model_context_tokens = 0,
       tm_tokenizer = Some ''unicode_scalars'', tm_budget = cq_token_budget request\<rparr>"
  by (cases body) (simp_all add: measure_context_def serialized_context_def serialized_body_def demo_context_json_def unicode_scalar_tokenizer_def
      scalar_count_def utf8_def)

lemma demo_secret_sel [simp]:
  "se_key demo_secret = ''element_b''" "se_order demo_secret = 2" "element_rank demo_secret = (2, ''element_b'')"
  "element_validate demo_secret = Inr ()"
  by (simp_all add: demo_secret_def demo_element_def element_rank_def element_validate_def code_points_def utf8_def utf8_units_def
      MAX_SNAPSHOT_ATTRIBUTES_def MAX_SNAPSHOT_ATTRIBUTE_KEY_BYTES_def MAX_SNAPSHOT_ATTRIBUTE_VALUE_BYTES_def)

lemma demo_document:
  "document_new 5 demo_secret_elements = Inr \<lparr>sd_snapshot_version = 5, sd_elements = demo_secret_elements,
     sd_snapshot_hash = hash_elements demo_secret_elements\<rparr>"
  by (simp add: document_new_Ok MAX_SNAPSHOT_ELEMENTS_def demo_secret_elements_def)

lemma demo_envelopes_valid: "snapshot_validate demo_secret_envelope = Inr ()" "snapshot_validate demo_delta_envelope = Inr ()"
  using demo_document
  by (simp_all add: snapshot_validate_def validate_envelope_bounds_def validate_body_def validate_elements_body_def validate_delta_body_def
      demo_delta_envelope_def demo_secret_envelope_def demo_received_def demo_envelope_def SNAPSHOT_SCHEMA_VERSION_def provenance_validate_def
      envelope_provenance_def validate_canonical_keys_def can_issue_refs_def MAX_SNAPSHOT_ELEMENTS_def delta_validate_def delta_limits_default_def
      DEFAULT_MAX_DELTA_OPERATIONS_def DEFAULT_MAX_DELTA_CHAIN_DEPTH_def validate_operation_element_def demo_secret_elements_def)

lemma demo_fits: "fits_budget demo_context_json metadata body request unicode_scalar_tokenizer = Inr True"
  by (auto simp: fits_budget_Ok demo_measure metrics_fit_def is_some_and_iff)

lemma demo_finish: "\<exists>out. finish_output (demo_source e) request metadata body = Inr out \<and> xo_metadata out = metadata \<and> xo_body out = Some body"
  by (simp add: finish_output_def demo_source_def demo_fits measured_output_def demo_measure Let_def)

lemma demo_costs: "body_costs demo_context_json full compact delta
    = Inr \<lparr>bc_full = full, bc_compact = compact, bc_delta = delta, bc_full_cost = 0, bc_compact_cost = 0, bc_delta_cost = map_option (\<lambda>_. 0) delta\<rparr>"
  by (cases delta) (simp_all add: body_costs_def body_cost_def demo_context_json_def utf8_def)

lemma demo_redacted: "redact_element redaction_policy_default (demo_element k n) = demo_element k n"
  by (simp add: redact_element_def demo_element_def bt_map_def)

lemma demo_redacted_document:
  "\<exists>doc. document_new 5 (fst (redact_elements redaction_policy_default demo_secret_elements)) = Inr doc"
proof -
  have "is_sensitive redaction_policy_default (code_points ''password'')"
    by (auto simp: is_sensitive_def redaction_policy_default_def)
  then have "element_validate (redact_element redaction_policy_default demo_secret) = Inr ()"
    by (simp add: redact_element_def demo_secret_def demo_element_def bt_map_def redact_field_def element_validate_def
        redaction_policy_default_def code_points_def utf8_def utf8_units_def MAX_SNAPSHOT_ATTRIBUTES_def
        MAX_SNAPSHOT_ATTRIBUTE_KEY_BYTES_def MAX_SNAPSHOT_ATTRIBUTE_VALUE_BYTES_def)
  then show ?thesis
    by (simp add: document_new_Ok MAX_SNAPSHOT_ELEMENTS_def demo_secret_elements_def redact_elements_def demo_redacted)
      (simp add: redact_element_def)
qed

lemma demo_full_output:
  "\<exists>out. build_envelope_with_tokenizer (demo_source demo_secret_envelope) (with_max_serialized_bytes (Some 100) request_full) = Inr out
     \<and> xm_representation (xo_metadata out) = CX_Full \<and> \<not> xm_resync_required (xo_metadata out)
     \<and> xo_body out = Some (SB_Elements (map (redact_element redaction_policy_default) demo_secret_elements))"
proof -
  let ?src = "demo_source demo_secret_envelope" and ?r = "with_max_serialized_bytes (Some 100) request_full"
  note defs = demo_source_def with_max_serialized_bytes_def request_full_def context_request_default_def
  obtain doc where doc: "current_document demo_secret_envelope (cq_base ?r) (cq_redaction ?r) (cq_delta_limits ?r) = Inr doc"
    using demo_redacted_document by (auto simp: current_document_def demo_secret_envelope_def defs)
  have nofocus: "\<not> focus_requested ?r" by (simp add: focus_requested_def focus_is_empty_def no_focus_def defs)
  have "build_envelope_with_tokenizer ?src ?r = body_output ?src ?r doc"
    using doc nofocus by (simp add: build_envelope_with_tokenizer_def demo_envelopes_valid validate_tokenizer_def validate_focus_request_shape_def
        clean_read_def base_failure_def reject_if_def defs)
  moreover obtain selected redacted where "body_output ?src ?r doc
      = finish_output ?src ?r (selected_metadata ?src selected redacted) (fst (snd selected))"
      "selected = (CX_Full, SB_Elements (map (redact_element redaction_policy_default) demo_secret_elements), SC_Complete)"
    using nofocus by (simp add: body_output_def shown_elements_def demo_secret_envelope_def redact_elements_def delta_candidate_def demo_costs
        select_body_def candidate_list_def representation_of_def body_safe_def envelope_complete_def demo_envelope_def coverage_allowed_def defs Let_def)
  moreover from demo_finish obtain out where "finish_output ?src ?r (selected_metadata ?src selected redacted) (fst (snd selected)) = Inr out"
      "xo_metadata out = selected_metadata ?src selected redacted" "xo_body out = Some (fst (snd selected))" by blast
  ultimately show ?thesis
    by (simp add: selected_metadata_def make_metadata_def demo_source_def demo_secret_envelope_def demo_envelope_def Let_def)
qed

theorem context_within_budget_witness:
  "\<exists>out. build_envelope_with_tokenizer (demo_source demo_secret_envelope) (with_max_serialized_bytes (Some 100) request_full) = Inr out
     \<and> tm_utf8_bytes (xo_metrics out) \<le> 100"
proof -
  obtain out where "build_envelope_with_tokenizer (demo_source demo_secret_envelope) (with_max_serialized_bytes (Some 100) request_full) = Inr out"
    using demo_full_output by blast
  with context_within_budget [OF this] show ?thesis by (auto simp: with_max_serialized_bytes_def)
qed

theorem context_redacts_witness:
  "\<exists>out es. build_envelope_with_tokenizer (demo_source demo_secret_envelope) (with_max_serialized_bytes (Some 100) request_full) = Inr out
     \<and> xo_body out = Some (SB_Elements es) \<and> es \<noteq> [] \<and> (\<forall>e \<in> set es. redacted_by redaction_policy_default e)"
proof -
  obtain out where out: "build_envelope_with_tokenizer (demo_source demo_secret_envelope) (with_max_serialized_bytes (Some 100) request_full) = Inr out"
      "xo_body out = Some (SB_Elements (map (redact_element redaction_policy_default) demo_secret_elements))"
    using demo_full_output by blast
  with context_redacts [OF out] show ?thesis
    by (simp add: with_max_serialized_bytes_def request_full_def context_request_default_def demo_secret_elements_def)
qed

theorem context_whole_or_marked_witness:
  "\<exists>out. build_envelope_with_tokenizer (demo_source demo_secret_envelope) (with_max_serialized_bytes (Some 100) request_full) = Inr out
     \<and> xo_body out = Some (SB_Elements (map (redact_element redaction_policy_default) demo_secret_elements))"
proof -
  obtain out where out: "build_envelope_with_tokenizer (demo_source demo_secret_envelope) (with_max_serialized_bytes (Some 100) request_full) = Inr out"
      "xm_representation (xo_metadata out) = CX_Full" "\<not> xm_resync_required (xo_metadata out)"
    using demo_full_output by blast
  have "\<not> focus_requested (with_max_serialized_bytes (Some 100) request_full)"
    by (simp add: focus_requested_def focus_is_empty_def no_focus_def with_max_serialized_bytes_def request_full_def context_request_default_def)
  moreover have "sv_delta_or_elements (xs_envelope (demo_source demo_secret_envelope)) = SB_Elements demo_secret_elements"
    by (simp add: demo_source_def demo_secret_envelope_def)
  ultimately show ?thesis using context_whole_or_marked [OF out(1), of demo_secret_elements] out
    by (simp add: with_max_serialized_bytes_def request_full_def context_request_default_def)
qed

lemma demo_base_document:
  "redacted_base_document redaction_policy_default demo_envelope = Inr \<lparr>sd_snapshot_version = 4, sd_elements = [demo_element ''element_a'' 1],
     sd_snapshot_hash = hash_elements [demo_element ''element_a'' 1]\<rparr>"
proof -
  have "sv_delta_or_elements demo_envelope = SB_Elements [demo_element ''element_a'' 1]" "sv_snapshot_version demo_envelope = 4"
    by (simp_all add: demo_envelope_def)
  then show ?thesis
    by (simp add: redacted_base_document_def demo_envelope_valid redact_elements_def demo_redacted document_new_Ok MAX_SNAPSHOT_ELEMENTS_def)
qed

lemma demo_delta_output:
  "\<exists>out d. build_envelope_with_tokenizer (demo_source demo_delta_envelope) (request_delta demo_envelope) = Inr out \<and> xo_body out = Some (SB_Delta d)"
proof -
  let ?src = "demo_source demo_delta_envelope" and ?r = "request_delta demo_envelope" and ?a = "demo_element ''element_a'' 1"
  let ?base = "\<lparr>sd_snapshot_version = 4, sd_elements = [?a], sd_snapshot_hash = hash_elements [?a]\<rparr>"
  let ?doc = "\<lparr>sd_snapshot_version = 5, sd_elements = demo_secret_elements, sd_snapshot_hash = hash_elements demo_secret_elements\<rparr>"
  note defs = demo_source_def request_delta_def context_request_default_def
  have valid: "delta_validate demo_received delta_limits_default = Inr ()"
    by (simp add: delta_validate_def demo_received_def delta_limits_default_def DEFAULT_MAX_DELTA_OPERATIONS_def
        DEFAULT_MAX_DELTA_CHAIN_DEPTH_def validate_operation_element_def)
  have docs: "document_validate ?base = Inr ()" "document_validate ?doc = Inr ()"
    by (simp_all add: document_validate_Ok MAX_SNAPSHOT_ELEMENTS_def demo_secret_elements_def)
  have "delta_apply demo_received ?base delta_limits_default = Inr ?doc"
    by (rule delta_apply_complete) (use valid docs in \<open>auto simp: demo_received_def demo_secret_elements_def fun_eq_iff\<close>)
  then have doc: "current_document demo_delta_envelope (Some demo_envelope) redaction_policy_default delta_limits_default = Inr ?doc"
    using demo_base_document by (simp add: current_document_def demo_delta_envelope_def)
  have env: "sv_frame_versions demo_envelope = []" "sv_frame_versions demo_delta_envelope = []"
    by (simp_all add: demo_envelope_def demo_delta_envelope_def demo_secret_envelope_def)
  have ops: "delta_operations demo_delta_envelope demo_envelope ?base ?doc = [DO_Upsert ''element_b'' demo_secret]"
    by (simp add: delta_operations_def by_key_def removed_operations_def reset_operations_def changed_operation_def env demo_secret_elements_def
        bt_contains_def map_filter_Cons List.map_filter_def [of _ "[]"])
  have depth: "next_chain_depth demo_delta_envelope ?base = 2"
    by (simp add: next_chain_depth_def current_chain_depth_def demo_delta_envelope_def demo_received_def)
  have "\<exists>d. build_delta_body demo_delta_envelope demo_envelope ?base ?doc delta_limits_default = Inr (SB_Delta d)"
    by (simp add: build_delta_body_def delta_validate_def ops depth delta_limits_default_def DEFAULT_MAX_DELTA_OPERATIONS_def
        DEFAULT_MAX_DELTA_CHAIN_DEPTH_def validate_operation_element_def Let_def)
  moreover have "base_matches demo_delta_envelope demo_envelope ?base"
    by (simp add: base_matches_def demo_delta_envelope_def demo_secret_envelope_def demo_envelope_def)
  ultimately obtain d where cand: "delta_candidate demo_delta_envelope ?r ?doc = (Some (SB_Delta d), None)"
    using demo_base_document by (auto simp: delta_candidate_def defs)
  have nofocus: "\<not> focus_requested ?r" by (simp add: focus_requested_def focus_is_empty_def no_focus_def defs)
  have "base_failure demo_delta_envelope ?r = None"
    by (simp add: base_failure_def base_resync_reason_def demo_envelope_valid defs)
      (simp add: demo_delta_envelope_def demo_secret_envelope_def demo_envelope_def demo_received_def delta_limits_default_def DEFAULT_MAX_DELTA_CHAIN_DEPTH_def word_le_nat_alt)
  then have "build_envelope_with_tokenizer ?src ?r = body_output ?src ?r ?doc"
    using doc nofocus by (simp add: build_envelope_with_tokenizer_def demo_envelopes_valid validate_tokenizer_def validate_focus_request_shape_def
        clean_read_def reject_if_def defs)
  moreover have "select_body ?r demo_delta_envelope \<lparr>bc_full = full, bc_compact = compact, bc_delta = Some (SB_Delta d), bc_full_cost = 0,
      bc_compact_cost = 0, bc_delta_cost = Some 0\<rparr> = Some (CX_Delta, SB_Delta d, SC_Complete)" for full compact
    by (simp add: select_body_def candidate_list_def representation_of_def body_safe_def envelope_complete_def coverage_allowed_def
        demo_delta_envelope_def demo_secret_envelope_def demo_envelope_def defs Let_def)
  then have "\<exists>metadata. body_output ?src ?r ?doc = finish_output ?src ?r metadata (SB_Delta d)"
    using nofocus cand by (auto simp: body_output_def shown_elements_def demo_source_def demo_costs Let_def split: prod.splits snapshot_body.splits)
  ultimately show ?thesis using demo_finish [of demo_delta_envelope ?r] by metis
qed

theorem context_delta_reproduces_witness:
  "\<exists>out d base current. build_envelope_with_tokenizer (demo_source demo_delta_envelope) (request_delta demo_envelope) = Inr out
     \<and> xo_body out = Some (SB_Delta d) \<and> redacted_base_document redaction_policy_default demo_envelope = Inr base
     \<and> delta_apply d base delta_limits_default = Inr current"
proof -
  obtain out d where o: "build_envelope_with_tokenizer (demo_source demo_delta_envelope) (request_delta demo_envelope) = Inr out"
      "xo_body out = Some (SB_Delta d)" using demo_delta_output by blast
  have "bt_wf (sv_frame_versions (xs_envelope (demo_source demo_delta_envelope)))"
    by (simp add: demo_source_def demo_delta_envelope_def demo_secret_envelope_def demo_envelope_def)
  from context_delta_reproduces [OF o this] o show ?thesis by (auto simp: request_delta_def context_request_default_def)
qed

theorem delta_snapshot_leaks_witness:
  "\<exists>out d. build_envelope_with_tokenizer (demo_source demo_delta_envelope) (request_delta demo_envelope) = Inr out
     \<and> xo_body out = Some (SB_Delta d) \<and> DO_Upsert ''element_b'' demo_secret \<in> set (sx_operations d)"
proof -
  obtain out d where o: "build_envelope_with_tokenizer (demo_source demo_delta_envelope) (request_delta demo_envelope) = Inr out"
      "xo_body out = Some (SB_Delta d)" using demo_delta_output by blast
  have "bt_wf (sv_frame_versions (xs_envelope (demo_source demo_delta_envelope)))"
      "sv_delta_or_elements (xs_envelope (demo_source demo_delta_envelope)) = SB_Delta demo_received"
    by (simp_all add: demo_source_def demo_delta_envelope_def demo_secret_envelope_def demo_envelope_def)
  moreover have "DO_Upsert ''element_b'' demo_secret \<in> set (sx_operations demo_received)" by (simp add: demo_received_def)
  moreover have "''element_b'' \<notin> set (keys_of (sd_elements base))"
    if "cq_base (request_delta demo_envelope) = Some e" "redacted_base_document (cq_redaction (request_delta demo_envelope)) e = Inr base" for e base
    using that demo_base_document by (auto simp: request_delta_def context_request_default_def)
  ultimately show ?thesis using delta_snapshot_leaks [OF o, of demo_received "''element_b''" demo_secret] o by blast
qed

theorem focus_exact_witness:
  "\<exists>kept. focus_elements
       [demo_element ''element_a'' 1, (demo_element ''element_b'' 2)\<lparr>se_parent := Some ''element_a''\<rparr>, demo_element ''element_c'' 3]
       \<lparr>cf_frame_id = None, cf_element_key = Some ''element_b''\<rparr> [] = Inr kept
     \<and> kept = [demo_element ''element_a'' 1, (demo_element ''element_b'' 2)\<lparr>se_parent := Some ''element_a''\<rparr>]
     \<and> (\<forall>e \<in> set kept. \<forall>p. se_parent e = Some p \<longrightarrow> p \<in> se_key ` set kept)"
proof -
  have f: "focus_elements
       [demo_element ''element_a'' 1, (demo_element ''element_b'' 2)\<lparr>se_parent := Some ''element_a''\<rparr>, demo_element ''element_c'' 3]
       \<lparr>cf_frame_id = None, cf_element_key = Some ''element_b''\<rparr> []
     = Inr [demo_element ''element_a'' 1, (demo_element ''element_b'' 2)\<lparr>se_parent := Some ''element_a''\<rparr>]"
    by code_simp
  have "distinct (keys_of [demo_element ''element_a'' 1, (demo_element ''element_b'' 2)\<lparr>se_parent := Some ''element_a''\<rparr>,
      demo_element ''element_c'' 3])" by simp
  from focus_exact [OF f _ this, THEN conjunct2] f show ?thesis by auto
qed

end
