(* ===== verification/Spec2Isabelle.thy ===== *)
theory Spec2Isabelle
  imports Artifacts Wait_Condition Event_Router Scheduler Dialogs Downloads Ledger Bridge_Events Bridge_Waits Inventory Context_Outputs
begin

text \<open>
  \<^bold>\<open>Verification of the agentyc browser host.\<close>

  agentyc lets agents drive a user's browser through a broker process on the same machine. The
  program has a transport-neutral core (\<^verbatim>\<open>crates/agentyc-core\<close>: identities, life cycles, leases,
  action receipts, the local wire protocol and events), a host (\<^verbatim>\<open>crates/agentyc-host\<close>: broker,
  ledger, scheduler, event router, policy, dialogs, downloads, observability and the transports),
  and thin adapters (MCP server, command line, extension). This development covers the core
  and the host components that decide: who may act, in which order, what is remembered and what
  is shown. Every method that takes \<^verbatim>\<open>&mut self\<close> is a function from the state to the new state and
  the result; every \<^verbatim>\<open>Result\<close> is a value of the sum type \<open>result\<close>; unsigned integers whose
  overflow the code guards are words of their width, and collection lengths are natural numbers.

  \<^bold>\<open>Theories, in dependency order.\<close>

  \<^item> \<open>Prelude\<close>: results, checked 64-bit arithmetic, decimal printing; the interfaces \<open>preserved\<close>
    (a step function with an invariant), \<open>monotone_run\<close> (a rank that no step lowers), \<open>codec\<close>
    (decode after encode) and \<open>bounded_history\<close> (retention of a suffix).
  \<^item> \<open>Btree_Map\<close>: \<^verbatim>\<open>BTreeMap\<close> as an ordered association list; the interface \<open>key_store\<close>.
  \<^item> \<open>Grant_Ledger\<close>: the interface \<open>grant_ledger\<close>, claims given out and honoured.
  \<^item> \<open>Ids\<close>, \<open>States\<close>, \<open>Errors\<close>, \<open>Records\<close>: \<^verbatim>\<open>ids.rs\<close>, \<^verbatim>\<open>states.rs\<close>, \<^verbatim>\<open>errors.rs\<close>, \<^verbatim>\<open>records.rs\<close> of the
    core: identity validation and the FNV-1a fingerprint, life-cycle enumerations, stable errors,
    spaces, leases, tickets and proofs of fencing, return, release and cleanup. The lemmas say
    exactly when a mutation is admitted, that a released epoch is fenced for good, that a ticket
    is granted once, and that identities and fingerprints round-trip.
  \<^item> \<open>Canonical\<close>: the canonical serializer of \<^verbatim>\<open>actions.rs\<close>: bytes are independent of field and
    entry order and determine the action. The printed form of a finite float comes with the
    payload value, since printing floats is the standard library's.
  \<^item> \<open>Actions\<close>: action requests and receipts of \<^verbatim>\<open>actions.rs\<close>: the nine transitions, the receipt
    validator as their invariant, at most one dispatch, and reconciliation of unknown outcomes.
  \<^item> \<open>Framing\<close>: the length-delimited codec of \<^verbatim>\<open>protocol.rs\<close>; the byte-at-a-time decoder refines a
    declarative parse of the stream, whatever the chunking.
  \<^item> \<open>Artifacts\<close>, \<open>Handshake\<close>, \<open>Wait_Condition\<close>: artifact transfers and their byte budget, envelopes,
    version negotiation, cancellation and typed waits of \<^verbatim>\<open>protocol.rs\<close>.
  \<^item> \<open>Events\<close>, \<open>Event_Router\<close>: \<^verbatim>\<open>events.rs\<close> of the core and \<^verbatim>\<open>event_router.rs\<close> of the host. Runs of a router
    are an inductive relation that carries the events taken since the baseline; an accepted
    replay loses none of them, delivers nothing else, and a resynchronisation is sticky.
  \<^item> \<open>Scheduler\<close>: \<^verbatim>\<open>scheduler.rs\<close>. The critical sections are functions, the concurrent callers an
    inductive step relation; mutual exclusion per space, bounds, first-come-first-served and
    progress hold in every reachable state of any number of callers.
  \<^item> \<open>Host_Errors\<close>, \<open>Trace_Policy\<close>: \<^verbatim>\<open>error.rs\<close> and \<^verbatim>\<open>trace_policy.rs\<close>: the registry of intent tickets and
    the authorization of sensitive boundaries, an instance of \<open>grant_ledger\<close>.
  \<^item> \<open>Observability\<close>, \<open>Dialogs\<close>, \<open>Downloads\<close>: \<^verbatim>\<open>observability.rs\<close>, \<^verbatim>\<open>dialogs.rs\<close>, \<^verbatim>\<open>downloads.rs\<close>: bounded and
    scoped records, redaction, dialogs resolved once, safe file names.
  \<^item> \<open>Snapshots\<close>, \<open>Snapshot_Cache\<close>: \<^verbatim>\<open>snapshots.rs\<close> of the core and of the host: element references, the
    canonical body of a page snapshot, deltas and their application (a refinement of keyed
    finite maps), and the cache that serves clean reads and commits a rebuild only onto the entry it
    started from.
  \<^item> \<open>Ledger\<close>: \<^verbatim>\<open>ledger.rs\<close>: the durable state, its validator, transactions with rollback and the
    atomic replacement of the file, and recovery after a restart.
  \<^item> \<open>Broker_Core\<close>, \<open>Broker_Leases\<close>, \<open>Broker_Fences\<close>, \<open>Broker_Pages\<close>, \<open>Broker_Actions\<close>, \<open>Broker_Events\<close>: \<^verbatim>\<open>broker.rs\<close>
    and \<^verbatim>\<open>leases.rs\<close>. A closure that the broker runs in a ledger transaction is a state transition with
    errors; a method is the sequence of its critical sections, with the answers of the bridge and the
    file system as arguments.
  \<^item> \<open>Broker_Fencing\<close>, \<open>Broker_Liveness\<close>: the critical sections as an inductive step relation. Any sequence
    of the modelled calls stays within it; a superseded lease epoch never authorizes again; a takeover fences its
    space, and is available whenever counters have room.
  \<^item> \<open>Refs\<close>: \<^verbatim>\<open>refs.rs\<close>: the registry of element references; runs carry the references issued. Only an
    exact reference resolves, a dead one never does, and issuing always returns.
  \<^item> \<open>Actionability\<close>, \<open>Broker_Dispatch\<close>: \<^verbatim>\<open>actionability.rs\<close> and the gate of the broker before the bridge call:
    an element action needs a proven, current target of this host.
  \<^item> \<open>Snapshot_Updates\<close>, \<open>Broker_Snapshots\<close>: the snapshot methods of the broker together with the memory they
    share, the reference registry and the representation cache.
  \<^item> \<open>Json\<close>, \<open>Bridge_Updates\<close>, \<open>Bridge_Payloads\<close>, \<open>Bridge_Events\<close>: JSON values and the events of the browser extension
    (\<^verbatim>\<open>apply_bridge_event\<close>): contracts of event names, attribution, the ledger transition, the side records. An
    applied event leaves no ledger snapshot, clean cache entry or live reference of what it made stale; generations only grow.
  \<^item> \<open>Inventory\<close>: the sanitizer of browser observations in \<^verbatim>\<open>bridge.rs\<close> and \<^verbatim>\<open>page_inventory\<close>: idempotent, and
    only logical fields of the caller's own space and no content of the user's tabs get out.
  \<^item> \<open>Waits\<close>, \<open>Bridge_Waits\<close>: \<^verbatim>\<open>waits.rs\<close>: matchers, the state a wait accumulates, registration and polling
    against the event router. The incremental network-idle state agrees with a definition over the whole history;
    what is reported is new, satisfies the condition (a wait for quiet reports the last event it saw), and is reported once.
    \<open>Bridge_Waits\<close> composes waits with the payloads that bridge events produce.
  \<^item> \<open>Context\<close>, \<open>Context_Outputs\<close>: \<^verbatim>\<open>context.rs\<close>: requests, redaction, focus, deltas, selection under a byte and token
    budget. Deltas can be replayed, budgets hold, sensitive attributes are not shown, a focus is a subtree.
  \<^item> this theory: policy, dialogs and downloads as one system.

  \<^bold>\<open>Recursion and bounds.\<close> No fuel is used. The loops of the source run over their input, shrink a
  queue, walk up a tree with a set of visited keys or count upwards to a checked bound, and are total functions; the one exception is the
  eviction loop of the reference registry, a partial function that is proved to return in every run.
  Waiting loops (the scheduler's) are not one recursion but a step per iteration of the loop, so the
  progress theorem speaks of the next iteration.

  \<^bold>\<open>Parameters.\<close> What \<^verbatim>\<open>serde_json\<close> writes, the answers of the browser bridge, the file system, the clock and the
  tokenizer are arguments; a theorem that needs something of them says so in a hypothesis.

  \<^bold>\<open>Not modelled\<close>: the request dispatcher of the host (\<^verbatim>\<open>protocol.rs\<close>), which maps JSON requests to the methods above.
  \<^bold>\<open>Left out\<close>: transports and process glue (native messaging, local sockets, CDP, the bridge back ends), the
  MCP and command-line adapters, the browser extension and packaging, which are I/O.
\<close>

section \<open>Confirmation across components\<close>

text \<open>
  The ticket registry is shared: dialogs and downloads borrow it for one call, and the host
  issues, cancels and consumes tickets directly. A system is the three states together, and its
  operations are those of the three components in any order.
\<close>

record sensitive_system =
  sx_dialogs :: dialog_manager
  sx_downloads :: download_manager
  sx_policy :: intent_ticket_store

definition sensitive_start :: sensitive_system where
  "sensitive_start =
     \<lparr>sx_dialogs = dialog_manager_default, sx_downloads = download_manager_new True,
      sx_policy = ticket_store_default\<rparr>"

datatype sensitive_op =
    SX_Policy intent_op
  | SX_Open dialog_request
  | SX_Resolve observation_scope dialog_decision "intent_binding option" "user_intent_ticket option" timestamp
  | SX_Start download_request timestamp
  | SX_Complete observation_scope opaque_id u64
  | SX_Fail observation_scope opaque_id download_failure
  | SX_Available bool

fun sensitive_step :: "sensitive_system \<Rightarrow> sensitive_op \<Rightarrow> sensitive_system" where
  "sensitive_step s (SX_Policy a) = s\<lparr>sx_policy := intent_step (sx_policy s) a\<rparr>"
| "sensitive_step s (SX_Open q) = s\<lparr>sx_dialogs := fst (dialog_open (sx_dialogs s) q)\<rparr>"
| "sensitive_step s (SX_Resolve sc d b t now) =
     (let (m, p) = fst (dialog_resolve (sx_dialogs s) sc d b t (sx_policy s) now)
      in s\<lparr>sx_dialogs := m, sx_policy := p\<rparr>)"
| "sensitive_step s (SX_Start q now) =
     (let (m, p) = fst (download_start (sx_downloads s) q (sx_policy s) now)
      in s\<lparr>sx_downloads := m, sx_policy := p\<rparr>)"
| "sensitive_step s (SX_Complete sc i n) = s\<lparr>sx_downloads := fst (download_complete (sx_downloads s) sc i n)\<rparr>"
| "sensitive_step s (SX_Fail sc i f) = s\<lparr>sx_downloads := fst (download_fail (sx_downloads s) sc i f)\<rparr>"
| "sensitive_step s (SX_Available b) = s\<lparr>sx_downloads := set_available (sx_downloads s) b\<rparr>"

text \<open>
  The sensitive effects that need a ticket: those outside paused spaces. An effect obtained
  without a ticket would be counted with the expiry 0, which no ticket has.
\<close>

definition effect_claim :: "intent_ticket_store \<Rightarrow> intent_binding \<Rightarrow> user_intent_ticket option
    \<Rightarrow> (intent_binding \<times> timestamp) multiset" where
  "effect_claim p b t =
     (if is_paused p (ps_space_id (ib_scope b)) then {#}
      else {#(b, case t of Some t \<Rightarrow> ut_expires_at t | None \<Rightarrow> 0)#})"

definition dialog_is_sensitive :: "dialog_manager \<Rightarrow> observation_scope \<Rightarrow> bool" where
  "dialog_is_sensitive m sc \<longleftrightarrow> is_some_and (bt_get (dm_pending m) sc) (\<lambda>r. is_some (dialog_boundary (dr_kind r)))"

fun sensitive_effects :: "sensitive_system \<Rightarrow> sensitive_op \<Rightarrow> (intent_binding \<times> timestamp) multiset" where
  "sensitive_effects s (SX_Policy a) = intents_used (sx_policy s) a"
| "sensitive_effects s (SX_Resolve sc d b t now) =
     (if dialog_is_sensitive (sx_dialogs s) sc
         \<and> \<not> isl (snd (dialog_resolve (sx_dialogs s) sc d b t (sx_policy s) now))
      then effect_claim (sx_policy s) (the b) t else {#})"
| "sensitive_effects s (SX_Start q now) =
     (if isl (snd (download_start (sx_downloads s) q (sx_policy s) now)) then {#}
      else effect_claim (sx_policy s) (dw_binding q) (dw_ticket q))"
| "sensitive_effects s _ = {#}"

fun confirmations :: "sensitive_system \<Rightarrow> sensitive_op \<Rightarrow> (intent_binding \<times> timestamp) multiset" where
  "confirmations s (SX_Policy a) = intents_issued (sx_policy s) a"
| "confirmations s _ = {#}"

text \<open>An authorization that succeeds outside a paused space uses the ticket presented.\<close>

lemma authorize_effect:
  assumes "\<not> isl (snd (authorize p b t now))"
  shows "effect_claim p b t = intents_used p (IO_Authorize b t now)"
proof (cases "is_paused p (ps_space_id (ib_scope b))")
  case True
  then show ?thesis
    by (cases t) (auto simp: effect_claim_def is_paused_def authorize_used(1) simp del: intents_used.simps(2))
next
  case False
  with assms show ?thesis
    by (cases t; cases "binding_validate b = Inr ()"; cases "snd (consume p b (the t) now)")
      (auto simp: effect_claim_def authorize_eq is_paused_def)
qed

lemma resolve_effect:
  "(snd (fst (dialog_resolve m sc d b t p now)) = p \<and> isl (snd (dialog_resolve m sc d b t p now)))
   \<or> (snd (fst (dialog_resolve m sc d b t p now)) = p \<and> \<not> dialog_is_sensitive m sc)
   \<or> (\<exists>b'. b = Some b' \<and> snd (fst (dialog_resolve m sc d b t p now)) = intent_step p (IO_Authorize b' t now)
        \<and> isl (snd (dialog_resolve m sc d b t p now)) = isl (snd (authorize p b' t now)))"
proof (cases "bt_get (dm_pending m) sc")
  case None
  then show ?thesis by (simp add: dialog_resolve_def)
next
  case (Some r)
  show ?thesis
  proof (cases "dialog_boundary (dr_kind r)")
    case None
    with Some show ?thesis
      by (simp add: dialog_resolve_def admit_dialog_def dialog_is_sensitive_def)
  next
    case (Some k)
    with \<open>bt_get (dm_pending m) sc = Some r\<close> show ?thesis
      by (cases b; cases "authorize p (the b) t now"; cases "snd (authorize p (the b) t now)")
        (auto simp: dialog_resolve_def admit_dialog_def)
  qed
qed

lemma start_effect:
  "(snd (fst (download_start m q p now)) = p \<and> isl (snd (download_start m q p now)))
   \<or> (snd (fst (download_start m q p now)) = intent_step p (IO_Authorize (dw_binding q) (dw_ticket q) now)
        \<and> (isl (snd (download_start m q p now)) \<or> \<not> isl (snd (authorize p (dw_binding q) (dw_ticket q) now))))"
  by (cases "authorize p (dw_binding q) (dw_ticket q) now"; cases "snd (authorize p (dw_binding q) (dw_ticket q) now)")
    (auto simp: download_start_def Let_def split: sum.splits option.splits)

interpretation sensitive: grant_ledger sensitive_step confirmations sensitive_effects
  "\<lambda>s :: sensitive_system. entries_held intent_open intent_claim (is_tickets (sx_policy s))"
  "\<lambda>s :: sensitive_system. store_inv (sx_policy s)"
proof
  fix s :: sensitive_system and a
  assume inv: "store_inv (sx_policy s)"
  let ?p = "sx_policy s" and ?h = "\<lambda>p. entries_held intent_open intent_claim (is_tickets p)"
  have auth: "store_inv (intent_step ?p (IO_Authorize b t now))
      \<and> ?h (intent_step ?p (IO_Authorize b t now)) + e \<subseteq># ?h ?p"
    if "e = {#} \<or> \<not> isl (snd (authorize ?p b t now)) \<and> e = effect_claim ?p b t" for b t now e
  proof -
    have "?h (intent_step ?p (IO_Authorize b t now)) + intents_used ?p (IO_Authorize b t now) \<subseteq># ?h ?p"
      using intents.balance [OF inv, of "IO_Authorize b t now"] by simp
    moreover have "e \<subseteq># intents_used ?p (IO_Authorize b t now)"
      using that authorize_effect [of ?p b t now] by auto
    ultimately have "?h (intent_step ?p (IO_Authorize b t now)) + e \<subseteq># ?h ?p"
      by (meson subset_mset.add_left_mono subset_mset.order_trans)
    then show ?thesis using intents.step_inv [OF inv] by blast
  qed
  have "store_inv (sx_policy (sensitive_step s a))
    \<and> ?h (sx_policy (sensitive_step s a)) + sensitive_effects s a \<subseteq># ?h ?p + confirmations s a"
  proof (cases a)
    case (SX_Policy i)
    with intents.balance [OF inv, of i] intents.step_inv [OF inv, of i] show ?thesis by simp
  next
    case (SX_Resolve sc d b t now)
    have n: "sx_policy (sensitive_step s a) = snd (fst (dialog_resolve (sx_dialogs s) sc d b t ?p now))"
      by (simp add: SX_Resolve case_prod_beta Let_def)
    from resolve_effect [of "sx_dialogs s" sc d b t ?p now] show ?thesis
    proof (elim disjE conjE exE)
      fix b'
      assume b: "b = Some b'"
        and p: "snd (fst (dialog_resolve (sx_dialogs s) sc d b t ?p now)) = intent_step ?p (IO_Authorize b' t now)"
        and r: "isl (snd (dialog_resolve (sx_dialogs s) sc d b t ?p now)) = isl (snd (authorize ?p b' t now))"
      have "sensitive_effects s a = {#}
          \<or> \<not> isl (snd (authorize ?p b' t now)) \<and> sensitive_effects s a = effect_claim ?p b' t"
        using b r by (simp add: SX_Resolve)
      from auth [OF this] show ?thesis unfolding n p by (simp add: SX_Resolve)
    qed (use inv n in \<open>simp_all add: SX_Resolve\<close>)
  next
    case (SX_Start q now)
    have n: "sx_policy (sensitive_step s a) = snd (fst (download_start (sx_downloads s) q ?p now))"
      by (simp add: SX_Start case_prod_beta Let_def)
    from start_effect [of "sx_downloads s" q ?p now] show ?thesis
    proof (elim disjE conjE)
      let ?auth = "IO_Authorize (dw_binding q) (dw_ticket q) now"
      assume p: "snd (fst (download_start (sx_downloads s) q ?p now)) = intent_step ?p ?auth"
      {
        assume "isl (snd (download_start (sx_downloads s) q ?p now))"
        then have "sensitive_effects s a = {#}" by (simp add: SX_Start)
        with auth [of "sensitive_effects s a" "dw_binding q" "dw_ticket q" now] show ?thesis
          unfolding n p by (simp add: SX_Start)
      next
        assume "\<not> isl (snd (authorize ?p (dw_binding q) (dw_ticket q) now))"
        then have "sensitive_effects s a = {#} \<or> \<not> isl (snd (authorize ?p (dw_binding q) (dw_ticket q) now))
            \<and> sensitive_effects s a = effect_claim ?p (dw_binding q) (dw_ticket q)"
          by (simp add: SX_Start)
        from auth [OF this] show ?thesis unfolding n p by (simp add: SX_Start)
      }
    qed (use inv n in \<open>simp_all add: SX_Start\<close>)
  qed (use inv in simp_all)
  then show "store_inv (sx_policy (sensitive_step s a))"
    "?h (sx_policy (sensitive_step s a)) + sensitive_effects s a \<subseteq># ?h ?p + confirmations s a"
    by simp_all
qed

text \<open>
  C25: every sensitive effect was confirmed. Along any interleaving of ticket operations,
  dialogs and downloads, the sensitive effects outside paused spaces (sensitive dialogs resolved,
  downloads started, tickets consumed directly), each with the complete binding it was admitted
  for, form a sub-multiset of the confirmations that the host issued: none happens without a
  confirmation for exactly that boundary, scope, document, lease, action and connection, and no
  confirmation pays for two effects, not even through different components.
\<close>
theorem sensitive_effects_confirmed:
  "run_total sensitive_step sensitive_effects sensitive_start ops
   \<subseteq># run_total sensitive_step confirmations sensitive_start ops"
proof (rule sensitive.run_honoured)
  show "store_inv (sx_policy sensitive_start)"
    using store_reachable_inv [of "[]"] by (simp add: sensitive_start_def)
  show "entries_held intent_open intent_claim (is_tickets (sx_policy sensitive_start)) = {#}"
    by (simp add: sensitive_start_def ticket_store_default_def entries_held_def)
qed

end
